(* ===== verification/JsValue.thy ===== *)
theory JsValue
  imports Prelude
begin

text \<open>
  The JavaScript values the code exchanges as JSON, and the parts of the
  language and its standard library that it uses on them: the coercions
  (truthiness, `String`, `Number`), property access and object
  spread on plain objects, `String.prototype.trim` and `split`,
  `JSON.stringify` and `JSON.parse` with their round trip.

  `undefined` is not a JSON value: a value that may be undefined is an
  option. A numeral with a fraction or an exponent is kept as its lexeme
  (`JDec`), since the code never computes with one. The order of an
  object's keys is the order of insertion; JavaScript's exception for keys that
  are array indices is not modelled.
\<close>

datatype json =
    JNull
  | JBool bool
  | JNum int
  | JDec string
  | JStr string
  | JArr "json list"
  | JObj "(string \<times> json) list"

type_synonym jobj = "(string \<times> json) list"


section \<open>Coercions\<close>

fun js_truthy :: "json \<Rightarrow> bool" where
  "js_truthy JNull = False"
| "js_truthy (JBool b) = b"
| "js_truthy (JNum n) = (n \<noteq> 0)"
| "js_truthy (JDec l) = list_ex (\<lambda>c. is_digit c \<and> digit_val c \<noteq> 0)
     (takeWhile (\<lambda>c. c \<noteq> CHR ''e'' \<and> c \<noteq> CHR ''E'') l)"
| "js_truthy (JStr s) = (s \<noteq> [])"
| "js_truthy (JArr vs) = True"
| "js_truthy (JObj ps) = True"

text \<open>`String(v)`; inside an array `null` prints as the empty string.\<close>

fun js_String :: "json \<Rightarrow> string" where
  "js_String JNull = ''null''"
| "js_String (JBool b) = (if b then ''true'' else ''false'')"
| "js_String (JNum n) = int_str n"
| "js_String (JDec l) = l"
| "js_String (JStr s) = s"
| "js_String (JArr vs) =
     intercalate '','' (List.map (\<lambda>v. if v = JNull then '''' else js_String v) vs)"
| "js_String (JObj ps) = ''[object Object]''"

text \<open>The same on a possibly undefined value.\<close>

definition opt_truthy :: "json option \<Rightarrow> bool" where
  "opt_truthy v = (case v of None \<Rightarrow> False | Some x \<Rightarrow> js_truthy x)"

definition opt_String :: "json option \<Rightarrow> string" where
  "opt_String v = (case v of None \<Rightarrow> ''undefined'' | Some x \<Rightarrow> js_String x)"

text \<open>`v || d` and `v ?? d`.\<close>

definition js_or :: "json option \<Rightarrow> json \<Rightarrow> json" where
  "js_or v d = (case v of None \<Rightarrow> d | Some x \<Rightarrow> if js_truthy x then x else d)"

definition js_nullish :: "json option \<Rightarrow> json \<Rightarrow> json" where
  "js_nullish v d = (case v of None \<Rightarrow> d | Some x \<Rightarrow> if x = JNull then d else x)"

definition str_or :: "string \<Rightarrow> string \<Rightarrow> string" where
  "str_or s d = (if s = [] then d else s)"

lemma opt_truthy_simps [simp, js_simps]:
  "opt_truthy None = False" "opt_truthy (Some x) = js_truthy x"
  by (simp_all add: opt_truthy_def)

lemma opt_String_simps [simp, js_simps]:
  "opt_String None = ''undefined''" "opt_String (Some x) = js_String x"
  by (simp_all add: opt_String_def)

lemma js_or_simps [simp, js_simps]:
  "js_or None d = d" "js_or (Some x) d = (if js_truthy x then x else d)"
  by (simp_all add: js_or_def)

lemma js_nullish_simps [simp, js_simps]:
  "js_nullish None d = d" "js_nullish (Some x) d = (if x = JNull then d else x)"
  by (simp_all add: js_nullish_def)


section \<open>Objects\<close>

text \<open>
  `jget` reads a property of a value (undefined on anything that is not an
  object), `oget` one of an object; `oput` assigns a property, and
  `ospread` is `{...a, ...b}` (also `Object.assign`).
\<close>

definition oget :: "jobj \<Rightarrow> string \<Rightarrow> json option" where
  "oget ps k = map_of ps k"

definition jget :: "json \<Rightarrow> string \<Rightarrow> json option" where
  "jget v k = (case v of JObj ps \<Rightarrow> oget ps k | _ \<Rightarrow> None)"

definition oput :: "string \<Rightarrow> json \<Rightarrow> jobj \<Rightarrow> jobj" where
  "oput k v ps = AList.update k v ps"

definition ospread :: "jobj \<Rightarrow> jobj \<Rightarrow> jobj" where
  "ospread a b = foldl (\<lambda>acc kv. oput (fst kv) (snd kv) acc) a b"

text \<open>A value that the code treats as a record, e.g. `(data.body || {})`.\<close>

definition as_obj :: "json option \<Rightarrow> jobj" where
  "as_obj v = (case v of Some (JObj ps) \<Rightarrow> ps | _ \<Rightarrow> [])"

definition wf_obj :: "jobj \<Rightarrow> bool" where
  "wf_obj ps \<longleftrightarrow> distinct (List.map fst ps)"

lemma oget_oput [simp, js_simps]: "oget (oput k v ps) k' = (if k' = k then Some v else oget ps k')"
  by (simp add: oget_def oput_def update_conv')

lemma oget_Nil [simp, js_simps]: "oget [] k = None"
  by (simp add: oget_def)

lemma oget_Cons [simp, js_simps]: "oget ((k, v) # ps) k' = (if k' = k then Some v else oget ps k')"
  by (simp add: oget_def)

lemma jget_JObj [simp, js_simps]: "jget (JObj ps) k = oget ps k"
  by (simp add: jget_def)

lemma as_obj_simps [simp, js_simps]: "as_obj None = []" "as_obj (Some (JObj ps)) = ps"
  by (simp_all add: as_obj_def)

lemma oget_append: "oget (a @ b) k = (case oget a k of None \<Rightarrow> oget b k | Some v \<Rightarrow> Some v)"
  by (simp add: oget_def map_add_def map_of_append [abs_def] split: option.splits)

lemma wf_obj_oput [simp]: "wf_obj ps \<Longrightarrow> wf_obj (oput k v ps)"
  by (simp add: wf_obj_def oput_def distinct_update)

lemma oput_map_fst: "fst ` set (oput k v ps) = insert k (fst ` set ps)"
  by (simp add: oput_def dom_update)

lemma ospread_Nil [simp]: "ospread a [] = a"
  by (simp add: ospread_def)

lemma ospread_snoc: "ospread a (b @ [(k, v)]) = oput k v (ospread a b)"
  by (simp add: ospread_def)

lemma wf_obj_ospread [simp]: "wf_obj a \<Longrightarrow> wf_obj (ospread a b)"
  by (induction b rule: rev_induct) (auto simp: ospread_snoc)

text \<open>Spreading is override: a key of the right operand wins, the others stay.\<close>

lemma oget_ospread:
  assumes "wf_obj b"
  shows "oget (ospread a b) k = (case oget b k of None \<Rightarrow> oget a k | Some v \<Rightarrow> Some v)"
  using assms
proof (induction b rule: rev_induct)
  case (snoc kv b)
  obtain k' v' where kv: "kv = (k', v')" by (cases kv)
  have "wf_obj b" "k' \<notin> fst ` set b"
    using snoc.prems kv by (auto simp: wf_obj_def)
  then have "oget b k' = None"
    by (simp add: oget_def map_of_eq_None_iff)
  then show ?case
    using snoc.IH [OF \<open>wf_obj b\<close>]
    by (cases "k = k'") (simp_all add: kv ospread_snoc oget_append split: option.splits)
qed simp

lemma ospread_fresh: "wf_obj (a @ b) \<Longrightarrow> ospread a b = a @ b"
proof (induction b rule: rev_induct)
  case (snoc kv b)
  obtain k v where kv: "kv = (k, v)" by (cases kv)
  have wf: "wf_obj (a @ b)" and fresh: "k \<notin> set (List.map fst (a @ b))"
    using snoc.prems by (auto simp: kv wf_obj_def)
  have "AList.update k v ps = ps @ [(k, v)]" if "k \<notin> set (List.map fst ps)" for ps :: jobj
    using that by (induction ps) auto
  from this [OF fresh] show ?case
    using snoc.IH [OF wf] by (simp add: kv ospread_snoc oput_def)
qed simp

lemma ospread_empty [simp]: "wf_obj b \<Longrightarrow> ospread [] b = b"
  using ospread_fresh [of "[]" b] by simp


section \<open>Trimming and splitting\<close>

text \<open>
  The white space `trim` removes, as UTF-8: the ASCII controls and the
  blank, U+00A0, U+FEFF, U+1680, U+2000 to U+200A, U+2028, U+2029, U+202F,
  U+205F and U+3000.
\<close>

definition bytes :: "nat list \<Rightarrow> string" where
  "bytes ns = List.map char_of ns"

definition js_white_space :: "string list" where
  "js_white_space =
     List.map bytes ([[9], [10], [11], [12], [13], [32], [194, 160], [239, 187, 191], [225, 154, 128],
       [226, 128, 168], [226, 128, 169], [226, 128, 175], [226, 129, 159], [227, 128, 128]]
       @ List.map (\<lambda>i. [226, 128, i]) [128 ..< 139])"

function (sequential) trim_left :: "string list \<Rightarrow> string \<Rightarrow> string" where
  "trim_left ws s =
     (case List.find (\<lambda>w. w \<noteq> [] \<and> startsWith s w) ws of
        None \<Rightarrow> s
      | Some w \<Rightarrow> trim_left ws (drop (length w) s))"
  by pat_completeness auto
termination
proof (relation "measure (length \<circ> snd)")
  fix ws s w
  assume "List.find (\<lambda>w. w \<noteq> [] \<and> startsWith s w) ws = Some w"
  then have "w \<noteq> []" "startsWith s w" by (auto simp: find_Some_iff)
  then have "0 < length w" "s \<noteq> []" by (auto simp: startsWith_iff)
  then show "((ws, drop (length w) s), (ws, s)) \<in> measure (length \<circ> snd)" by simp
qed simp

declare trim_left.simps [simp del]

definition js_trim :: "string \<Rightarrow> string" where
  "js_trim s = rev (trim_left (List.map rev js_white_space) (rev (trim_left js_white_space s)))"

text \<open>`s.split(c)[0]` for a one-character separator.\<close>

definition split_head :: "char \<Rightarrow> string \<Rightarrow> string" where
  "split_head c s = takeWhile (\<lambda>x. x \<noteq> c) s"

end
