(* ===== verification/Keys.thy ===== *)
theory Keys
  imports JsValue
begin

text \<open>
  The key schema and the numeric constants (src/constants.ts). Every factory
  goes through `versioned`, so it takes the resolved schema; the
  environment is a function from variable names to values. Contains the
  round trip of the scanned worker keys and the facts that keep the keys of one
  family apart.
\<close>

datatype key_schema = V1 | V2

type_synonym env = "string \<Rightarrow> string option"

text \<open>`getKeySchemaVersion`: None is the thrown error.\<close>

definition env_text :: "env \<Rightarrow> string \<Rightarrow> string" where
  "env_text env n = (case env n of None \<Rightarrow> [] | Some v \<Rightarrow> v)"

definition getKeySchemaVersion :: "env \<Rightarrow> key_schema option" where
  "getKeySchemaVersion env =
     (let version = str_or (env_text env ''REDIS_KEY_SCHEMA_VERSION'')
        (if env_text env ''REDIS_CLUSTER_HOST'' \<noteq> [] then ''v2'' else ''v1'')
      in if version = ''v1'' then Some V1 else if version = ''v2'' then Some V2 else None)"

definition V2_PREFIX :: string where "V2_PREFIX = ''byai_gateway:v2:''"

definition versioned :: "key_schema \<Rightarrow> string \<Rightarrow> string \<Rightarrow> key" where
  "versioned sch v1 v2 = (case sch of V1 \<Rightarrow> v1 | V2 \<Rightarrow> V2_PREFIX @ v2)"

definition tagged :: "string \<Rightarrow> string" where
  "tagged x = ''{'' @ x @ ''}''"

definition workerScanPattern :: "key_schema \<Rightarrow> string \<Rightarrow> string \<Rightarrow> string" where
  "workerScanPattern sch v1Prefix v2Field =
     (case sch of V2 \<Rightarrow> V2_PREFIX @ ''registry:worker:{*}:'' @ v2Field | V1 \<Rightarrow> v1Prefix @ ''*'')"

definition workerIdFromScannedKey :: "key_schema \<Rightarrow> key \<Rightarrow> string \<Rightarrow> string \<Rightarrow> string option" where
  "workerIdFromScannedKey sch k v1Prefix v2Field =
     (case sch of
        V2 \<Rightarrow> (let prefix = V2_PREFIX @ ''registry:worker:{''; suffix = ''}:'' @ v2Field
               in if startsWith k prefix \<and> endsWith k suffix
                  then Some (drop (length prefix) (take (length k - length suffix) k)) else None)
      | V1 \<Rightarrow> (if startsWith k v1Prefix then Some (drop (length v1Prefix) k) else None))"


section \<open>Queue names\<close>

definition ctrl_stream :: "key_schema \<Rightarrow> string \<Rightarrow> key" where
  "ctrl_stream sch agentType =
     versioned sch (''byai_gateway:ctrl:agent_type:'' @ agentType) (''ctrl:agent_type:'' @ agentType)"

definition worker_ctrl_stream :: "key_schema \<Rightarrow> string \<Rightarrow> key" where
  "worker_ctrl_stream sch workerId =
     versioned sch (''byai_gateway:ctrl:worker:'' @ workerId) (''ctrl:worker:'' @ tagged workerId)"

definition control_plane_wakeup_stream :: "key_schema \<Rightarrow> key" where
  "control_plane_wakeup_stream sch =
     versioned sch ''byai_gateway:control_plane:mgmt:wakeup'' ''control_plane:mgmt:wakeup''"

definition control_plane_wakeup_result_stream :: "key_schema \<Rightarrow> string \<Rightarrow> key" where
  "control_plane_wakeup_result_stream sch executionId =
     versioned sch (''byai_gateway:control_plane:mgmt:wakeup:result:'' @ executionId)
       (''control_plane:mgmt:wakeup:result:'' @ executionId)"

definition control_plane_delivery_pending_stream :: "key_schema \<Rightarrow> key" where
  "control_plane_delivery_pending_stream sch =
     versioned sch ''byai_gateway:control_plane:mgmt:delivery:pending''
       ''control_plane:mgmt:delivery:pending''"

definition control_plane_agent_circuit :: "key_schema \<Rightarrow> string \<Rightarrow> key" where
  "control_plane_agent_circuit sch agentType =
     versioned sch (''byai_gateway:control_plane:circuit:agent_type:'' @ agentType)
       (''control_plane:circuit:agent_type:'' @ agentType)"

definition control_plane_agent_fallback :: "key_schema \<Rightarrow> string \<Rightarrow> key" where
  "control_plane_agent_fallback sch agentType =
     versioned sch (''byai_gateway:control_plane:fallback:agent_type:'' @ agentType)
       (''control_plane:fallback:agent_type:'' @ agentType)"

definition control_plane_user_quota :: "key_schema \<Rightarrow> string \<Rightarrow> key" where
  "control_plane_user_quota sch userCode =
     versioned sch (''byai_gateway:control_plane:quota:user:'' @ userCode)
       (''control_plane:quota:user:'' @ userCode)"

definition session_data_stream :: "key_schema \<Rightarrow> string \<Rightarrow> key" where
  "session_data_stream sch sessionId =
     versioned sch (''byai_gateway:session:'' @ sessionId @ '':data_stream'')
       (''session:'' @ tagged sessionId @ '':data_stream'')"

definition task_group :: "key_schema \<Rightarrow> string \<Rightarrow> key" where
  "task_group sch groupId =
     versioned sch (''byai_gateway:task_group:'' @ groupId) (''task_group:'' @ tagged groupId)"

definition task_group_results :: "key_schema \<Rightarrow> string \<Rightarrow> key" where
  "task_group_results sch groupId =
     versioned sch (''byai_gateway:task_group:'' @ groupId @ '':results'')
       (''task_group:'' @ tagged groupId @ '':results'')"

definition trace_meta :: "key_schema \<Rightarrow> string \<Rightarrow> key" where
  "trace_meta sch traceId =
     versioned sch (''byai_gateway:trace:'' @ traceId @ '':meta'') (''trace:'' @ tagged traceId)"

definition trace_spans :: "key_schema \<Rightarrow> string \<Rightarrow> key" where
  "trace_spans sch traceId =
     versioned sch (''byai_gateway:trace:'' @ traceId @ '':spans'') (''trace:spans:'' @ tagged traceId)"

definition trace_index_session :: "key_schema \<Rightarrow> string \<Rightarrow> key" where
  "trace_index_session sch sessionId =
     versioned sch (''byai_gateway:trace:idx:session:'' @ sessionId) (''trace:idx:session:'' @ sessionId)"

definition trace_index_worker :: "key_schema \<Rightarrow> string \<Rightarrow> key" where
  "trace_index_worker sch workerId =
     versioned sch (''byai_gateway:trace:idx:worker:'' @ workerId) (''trace:idx:worker:'' @ workerId)"

definition trace_index_agent :: "key_schema \<Rightarrow> string \<Rightarrow> key" where
  "trace_index_agent sch agentType =
     versioned sch (''byai_gateway:trace:idx:agent:'' @ agentType) (''trace:idx:agent:'' @ agentType)"


section \<open>Registry keys\<close>

definition DEFAULT_SESSION_TTL :: nat where "DEFAULT_SESSION_TTL = 7 * 24 * 3600"
definition SD_DEFAULT_HEALTH_THRESHOLD_MS :: int where "SD_DEFAULT_HEALTH_THRESHOLD_MS = 30000"
definition SD_DEFAULT_HEARTBEAT_INTERVAL_SECONDS :: int where
  "SD_DEFAULT_HEARTBEAT_INTERVAL_SECONDS = 10"

definition known_workers :: "key_schema \<Rightarrow> key" where
  "known_workers sch = versioned sch ''byai_gateway:registry:workers'' ''registry:workers''"

definition sd_active_instances :: "key_schema \<Rightarrow> string \<Rightarrow> key" where
  "sd_active_instances sch serviceName =
     versioned sch (''byai_gateway:sd:active:'' @ serviceName) (''sd:'' @ tagged serviceName @ '':active'')"

definition sd_instance_details :: "key_schema \<Rightarrow> string \<Rightarrow> key" where
  "sd_instance_details sch serviceName =
     versioned sch (''byai_gateway:sd:instances:'' @ serviceName) (''sd:'' @ tagged serviceName @ '':instances'')"

definition sd_services :: "key_schema \<Rightarrow> key" where
  "sd_services sch = versioned sch ''byai_gateway:sd:services'' ''sd:services''"

definition worker_online_lease :: "key_schema \<Rightarrow> string \<Rightarrow> key" where
  "worker_online_lease sch workerId =
     versioned sch (''byai_gateway:registry:worker:online:'' @ workerId)
       (''registry:worker:'' @ tagged workerId @ '':online'')"

definition worker_online_lease_scan_pattern :: "key_schema \<Rightarrow> string" where
  "worker_online_lease_scan_pattern sch =
     workerScanPattern sch ''byai_gateway:registry:worker:online:'' ''online''"

definition worker_id_from_online_lease_key :: "key_schema \<Rightarrow> key \<Rightarrow> string option" where
  "worker_id_from_online_lease_key sch k =
     workerIdFromScannedKey sch k ''byai_gateway:registry:worker:online:'' ''online''"

definition workerDeclaredAgentTypes :: "key_schema \<Rightarrow> string \<Rightarrow> key" where
  "workerDeclaredAgentTypes sch workerId =
     versioned sch (''byai_gateway:registry:worker:agent_types:'' @ workerId)
       (''registry:worker:'' @ tagged workerId @ '':agent_types'')"

definition agentTypeMembers :: "key_schema \<Rightarrow> string \<Rightarrow> key" where
  "agentTypeMembers sch agentType =
     versioned sch (''byai_gateway:registry:agent_type:workers:'' @ agentType)
       (''registry:agent_type:'' @ tagged agentType @ '':workers'')"

definition workerAdminState :: "key_schema \<Rightarrow> string \<Rightarrow> key" where
  "workerAdminState sch workerId =
     versioned sch (''byai_gateway:registry:worker:admin:'' @ workerId)
       (''registry:worker:'' @ tagged workerId @ '':admin'')"

definition agentTypeDenied :: "key_schema \<Rightarrow> string \<Rightarrow> key" where
  "agentTypeDenied sch agentType =
     versioned sch (''byai_gateway:registry:agent_type:denied:'' @ agentType)
       (''registry:agent_type:'' @ tagged agentType @ '':denied'')"

definition worker_lock :: "key_schema \<Rightarrow> string \<Rightarrow> key" where
  "worker_lock sch workerId =
     versioned sch (''byai_gateway:registry:worker:lock:'' @ workerId)
       (''registry:worker:'' @ tagged workerId @ '':lock'')"

definition session_registry :: "key_schema \<Rightarrow> string \<Rightarrow> key" where
  "session_registry sch sessionId =
     versioned sch (''byai_gateway:session:'' @ sessionId @ '':registry'')
       (''session:'' @ tagged sessionId @ '':registry'')"

definition wait_index :: "key_schema \<Rightarrow> nat \<Rightarrow> key" where
  "wait_index sch shard =
     versioned sch (''byai_gateway:wait:index:'' @ nat_str shard) (''wait:index:'' @ nat_str shard)"

definition wait_sweep_lock :: "key_schema \<Rightarrow> nat \<Rightarrow> key" where
  "wait_sweep_lock sch shard =
     versioned sch (''byai_gateway:wait:sweep_lock:'' @ nat_str shard) (''wait:sweep_lock:'' @ nat_str shard)"

definition wait_consumed :: "key_schema \<Rightarrow> string \<Rightarrow> string \<Rightarrow> key" where
  "wait_consumed sch sessionId memberDigest =
     versioned sch (''byai_gateway:wait:consumed:'' @ sessionId @ '':'' @ memberDigest)
       (''wait:consumed:'' @ tagged sessionId @ '':'' @ memberDigest)"

definition wait_renew_origin :: "key_schema \<Rightarrow> string \<Rightarrow> string \<Rightarrow> key" where
  "wait_renew_origin sch sessionId memberDigest =
     versioned sch (''byai_gateway:wait:renew_origin:'' @ sessionId @ '':'' @ memberDigest)
       (''wait:renew_origin:'' @ tagged sessionId @ '':'' @ memberDigest)"

definition AGENT_ENGINES :: string where
  "AGENT_ENGINES = ''byai_gateway:consumer_group:agent_engines''"


section \<open>Identifiers, hash fields and timing\<close>

definition MESSAGE_ID_PREFIX :: string where "MESSAGE_ID_PREFIX = ''msg-''"
definition EXECUTION_ID_PREFIX :: string where "EXECUTION_ID_PREFIX = ''exec-''"
definition TASK_GROUP_ID_PREFIX :: string where "TASK_GROUP_ID_PREFIX = ''tg-''"
definition TASK_GROUP_SINGLE_ID_PREFIX :: string where "TASK_GROUP_SINGLE_ID_PREFIX = ''tg-single-''"
definition CANCEL_MESSAGE_ID_PREFIX :: string where "CANCEL_MESSAGE_ID_PREFIX = ''msg-cancel-''"

definition singleCallTaskGroupId :: "string \<Rightarrow> string" where
  "singleCallTaskGroupId childMessageId = TASK_GROUP_SINGLE_ID_PREFIX @ childMessageId"

definition CLIENT_SOURCE_AGENT_TYPE :: string where "CLIENT_SOURCE_AGENT_TYPE = ''client''"
definition EXEC_FIELD_PREFIX :: string where "EXEC_FIELD_PREFIX = ''exec:''"
definition MSG_MAP_PREFIX :: string where "MSG_MAP_PREFIX = ''msg_map:''"
definition TASK_GROUP_FIELD_TOTAL :: string where "TASK_GROUP_FIELD_TOTAL = ''total''"
definition TASK_GROUP_FIELD_COMPLETED :: string where "TASK_GROUP_FIELD_COMPLETED = ''completed''"
definition TASK_GROUP_FIELD_SOURCE_AGENT :: string where "TASK_GROUP_FIELD_SOURCE_AGENT = ''source_agent_type''"
definition TASK_GROUP_FIELD_ABORTED :: string where "TASK_GROUP_FIELD_ABORTED = ''aborted''"

definition TASK_GROUP_TTL_SECONDS :: nat where "TASK_GROUP_TTL_SECONDS = 86400"
definition MAX_RETRY_COUNT :: nat where "MAX_RETRY_COUNT = 3"
definition FIRST_RETRY_WAIT_MS :: int where "FIRST_RETRY_WAIT_MS = 1000"
definition WAIT_INDEX_SHARDS :: nat where "WAIT_INDEX_SHARDS = 16"
definition DEFAULT_REPLY_TIMEOUT_MS :: int where "DEFAULT_REPLY_TIMEOUT_MS = 3600000"
definition DEFAULT_ASK_USER_TIMEOUT_MS :: int where
  "DEFAULT_ASK_USER_TIMEOUT_MS = int DEFAULT_SESSION_TTL * 1000"
definition WAIT_SWEEP_INTERVAL_SECONDS :: int where "WAIT_SWEEP_INTERVAL_SECONDS = 30"
definition WAIT_SWEEP_LOCK_TTL_SECONDS :: nat where "WAIT_SWEEP_LOCK_TTL_SECONDS = 60"
definition WAIT_SWEEP_BATCH_LIMIT :: nat where "WAIT_SWEEP_BATCH_LIMIT = 200"
definition WAIT_RENEW_INCREMENT_MS :: int where "WAIT_RENEW_INCREMENT_MS = 300000"
definition WAIT_RENEW_MAX_MULTIPLE :: int where "WAIT_RENEW_MAX_MULTIPLE = 3"
definition WAIT_RENEW_ORIGIN_TTL_SECONDS :: nat where
  "WAIT_RENEW_ORIGIN_TTL_SECONDS = TASK_GROUP_TTL_SECONDS"
definition TASK_GROUP_EXPIRED :: string where "TASK_GROUP_EXPIRED = ''TASK_GROUP_EXPIRED''"
definition WAIT_CONSUMED_TTL_SECONDS :: nat where "WAIT_CONSUMED_TTL_SECONDS = DEFAULT_SESSION_TTL"
definition WAIT_PRUNE_INTERVAL_SECONDS :: int where "WAIT_PRUNE_INTERVAL_SECONDS = 3600"
definition WAIT_PRUNE_AFTER_SECONDS :: int where
  "WAIT_PRUNE_AFTER_SECONDS = int DEFAULT_SESSION_TTL + 86400"

definition CHILD_WORKER_LOST :: string where "CHILD_WORKER_LOST = ''CHILD_WORKER_LOST''"
definition CHILD_TIMEOUT :: string where "CHILD_TIMEOUT = ''CHILD_TIMEOUT''"
definition CHILD_NEVER_STARTED :: string where "CHILD_NEVER_STARTED = ''CHILD_NEVER_STARTED''"
definition REPLY_LOST_RECOVERED :: string where "REPLY_LOST_RECOVERED = ''REPLY_LOST_RECOVERED''"

definition MIN_RENEWALS_PER_LEASE :: nat where "MIN_RENEWALS_PER_LEASE = 3"
definition LOOP_LAG_UNHEALTHY_MS :: int where "LOOP_LAG_UNHEALTHY_MS = 5000"
definition DEGRADED_RECOVERY_CHECKS :: nat where "DEGRADED_RECOVERY_CHECKS = 3"
definition DEGRADED_MAX_MS :: int where "DEGRADED_MAX_MS = 120000"

lemma ttl_positive [simp]:
  "Some DEFAULT_SESSION_TTL \<noteq> Some 0" "Some WAIT_CONSUMED_TTL_SECONDS \<noteq> Some 0"
  "Some WAIT_RENEW_ORIGIN_TTL_SECONDS \<noteq> Some 0" "DEFAULT_SESSION_TTL \<noteq> 0" "TASK_GROUP_TTL_SECONDS \<noteq> 0"
  "WAIT_CONSUMED_TTL_SECONDS \<noteq> 0" "WAIT_RENEW_ORIGIN_TTL_SECONDS \<noteq> 0"
  by (simp_all add: DEFAULT_SESSION_TTL_def WAIT_CONSUMED_TTL_SECONDS_def
      WAIT_RENEW_ORIGIN_TTL_SECONDS_def TASK_GROUP_TTL_SECONDS_def)


section \<open>Keys of different families differ\<close>

text \<open>
  The keys the wait subsystem writes as strings carry no hash, set or sorted
  set, whatever the session and the digest.
\<close>

lemma wait_key_neq [simp]:
  "wait_consumed sch s d \<noteq> wait_index sch n" "wait_index sch n \<noteq> wait_consumed sch s d"
  "wait_renew_origin sch s d \<noteq> wait_index sch n" "wait_index sch n \<noteq> wait_renew_origin sch s d"
  "wait_consumed sch s d \<noteq> wait_renew_origin sch s' d'" "wait_renew_origin sch s' d' \<noteq> wait_consumed sch s d"
  "wait_sweep_lock sch n \<noteq> wait_index sch m" "wait_index sch m \<noteq> wait_sweep_lock sch n"
  "wait_sweep_lock sch n \<noteq> wait_consumed sch s d" "wait_sweep_lock sch n \<noteq> wait_renew_origin sch s d"
  "wait_consumed sch s d \<noteq> wait_sweep_lock sch n" "wait_renew_origin sch s d \<noteq> wait_sweep_lock sch n"
  by (cases sch; simp add: wait_consumed_def wait_index_def wait_renew_origin_def wait_sweep_lock_def versioned_def)+

lemma wait_index_inject [simp]: "wait_index sch m = wait_index sch n \<longleftrightarrow> m = n"
  by (cases sch) (simp_all add: wait_index_def versioned_def)

lemma wait_registry_neq [simp]:
  "session_registry sch s \<noteq> wait_index sch n" "wait_index sch n \<noteq> session_registry sch s"
  "session_registry sch s \<noteq> wait_consumed sch s' d" "wait_consumed sch s' d \<noteq> session_registry sch s"
  "session_registry sch s \<noteq> wait_renew_origin sch s' d" "wait_renew_origin sch s' d \<noteq> session_registry sch s"
  "session_registry sch s \<noteq> wait_sweep_lock sch n" "wait_sweep_lock sch n \<noteq> session_registry sch s"
  "session_registry sch s \<noteq> task_group sch g" "session_registry sch s \<noteq> task_group_results sch g"
  "session_registry sch s \<noteq> worker_online_lease sch w" "worker_online_lease sch w \<noteq> session_registry sch s"
  "worker_online_lease sch w \<noteq> wait_index sch n" "wait_index sch n \<noteq> worker_online_lease sch w"
  "worker_online_lease sch w \<noteq> wait_renew_origin sch s' d" "wait_renew_origin sch s' d \<noteq> worker_online_lease sch w"
  "worker_online_lease sch w \<noteq> wait_consumed sch s' d" "wait_consumed sch s' d \<noteq> worker_online_lease sch w"
  by (cases sch; simp add: session_registry_def wait_consumed_def wait_index_def wait_renew_origin_def
      wait_sweep_lock_def task_group_def task_group_results_def worker_online_lease_def versioned_def)+

lemma ctrl_stream_neq [simp]:
  "ctrl_stream sch a \<noteq> wait_renew_origin sch s d" "wait_renew_origin sch s d \<noteq> ctrl_stream sch a"
  "ctrl_stream sch a \<noteq> wait_consumed sch s d" "wait_consumed sch s d \<noteq> ctrl_stream sch a"
  "ctrl_stream sch a \<noteq> wait_index sch n" "wait_index sch n \<noteq> ctrl_stream sch a"
  by (cases sch; simp add: ctrl_stream_def wait_renew_origin_def wait_consumed_def wait_index_def versioned_def)+

lemma stream_key_neq [simp]:
  "ctrl_stream sch a \<noteq> session_data_stream sch s" "session_data_stream sch s \<noteq> ctrl_stream sch a"
  "ctrl_stream sch a \<noteq> session_registry sch s" "session_registry sch s \<noteq> ctrl_stream sch a"
  "ctrl_stream sch a \<noteq> task_group sch g" "task_group sch g \<noteq> ctrl_stream sch a"
  "ctrl_stream sch a \<noteq> task_group_results sch g" "task_group_results sch g \<noteq> ctrl_stream sch a"
  by (cases sch; simp add: ctrl_stream_def session_data_stream_def session_registry_def task_group_def
      task_group_results_def versioned_def)+

lemma group_key_neq [simp]:
  "task_group sch g \<noteq> wait_index sch n" "wait_index sch n \<noteq> task_group sch g"
  "task_group_results sch g \<noteq> wait_index sch n" "wait_index sch n \<noteq> task_group_results sch g"
  "task_group sch g \<noteq> wait_consumed sch s d" "wait_consumed sch s d \<noteq> task_group sch g"
  "task_group_results sch g \<noteq> wait_consumed sch s d" "wait_consumed sch s d \<noteq> task_group_results sch g"
  "task_group sch g \<noteq> session_registry sch s" "task_group_results sch g \<noteq> session_registry sch s"
  "task_group sch g \<noteq> task_group_results sch g" "task_group_results sch g \<noteq> task_group sch g"
  by (cases sch; simp add: wait_index_def wait_consumed_def session_registry_def task_group_def
      task_group_results_def versioned_def tagged_def)+

lemma workerIdFromScannedKey_v1 [simp]:
  "workerIdFromScannedKey V1 (p @ w) p f = Some w"
  by (simp add: workerIdFromScannedKey_def)

text \<open>Whatever the worker id, the scan recovers it from the key of its lease.\<close>

lemma worker_id_of_lease_key:
  "worker_id_from_online_lease_key sch (worker_online_lease sch w) = Some w"
proof (cases sch)
  case V1
  then show ?thesis
    by (simp add: worker_id_from_online_lease_key_def worker_online_lease_def versioned_def
        workerIdFromScannedKey_def startsWith_def)
next
  case V2
  define p where "p = V2_PREFIX @ ''registry:worker:{''"
  define q where "q = ''}:online''"
  have k: "worker_online_lease V2 w = p @ w @ q"
    by (simp add: worker_online_lease_def versioned_def p_def q_def tagged_def)
  have "endsWith (p @ w @ q) q" using endsWith_append [of "p @ w" q] by simp
  then show ?thesis
    using V2 by (simp add: k worker_id_from_online_lease_key_def workerIdFromScannedKey_def
        p_def [symmetric] q_def [symmetric])
qed

end
