(* ===== verification/JsonText.thy ===== *)
theory JsonText
  imports JsValue
begin

text \<open>
  `JSON.stringify` and `JSON.parse` on the values of
  `JsValue`, and the round trip between them: every record the components
  store in Redis, and every command they put on a stream, passes through these
  two functions.
\<close>


section \<open>Printing\<close>

definition hex_char :: "nat \<Rightarrow> char" where
  "hex_char d = (if d < 10 then char_of (48 + d) else char_of (87 + d))"

definition QUOTE :: char where "QUOTE = CHR 0x22"
definition BACKSLASH :: char where "BACKSLASH = CHR 0x5C"

definition json_escape_char :: "char \<Rightarrow> string" where
  "json_escape_char c =
     (if c = QUOTE then [BACKSLASH, QUOTE]
      else if c = BACKSLASH then [BACKSLASH, BACKSLASH]
      else if c = CHR 0x08 then [BACKSLASH, CHR ''b'']
      else if c = CHR 0x0C then [BACKSLASH, CHR ''f'']
      else if c = CHR 0x0A then [BACKSLASH, CHR ''n'']
      else if c = CHR 0x0D then [BACKSLASH, CHR ''r'']
      else if c = CHR 0x09 then [BACKSLASH, CHR ''t'']
      else if (of_char c :: nat) < 32 then
        [BACKSLASH, CHR ''u'', CHR ''0'', CHR ''0'',
         hex_char (of_char c div 16), hex_char (of_char c mod 16)]
      else [c])"

definition json_quote :: "string \<Rightarrow> string" where
  "json_quote s = QUOTE # concat (List.map json_escape_char s) @ [QUOTE]"

fun json_stringify :: "json \<Rightarrow> string" where
  "json_stringify JNull = ''null''"
| "json_stringify (JBool b) = (if b then ''true'' else ''false'')"
| "json_stringify (JNum n) = int_str n"
| "json_stringify (JDec l) = l"
| "json_stringify (JStr s) = json_quote s"
| "json_stringify (JArr vs) =
     CHR ''['' # intercalate '','' (List.map json_stringify vs) @ '']''"
| "json_stringify (JObj ps) =
     CHR ''{'' # intercalate '',''
       (List.map (\<lambda>kv. json_quote (fst kv) @ CHR '':'' # json_stringify (snd kv)) ps) @ ''}''"


section \<open>Parsing\<close>

definition is_json_space :: "char \<Rightarrow> bool" where
  "is_json_space c \<longleftrightarrow> c = CHR 0x20 \<or> c = CHR 0x09 \<or> c = CHR 0x0A \<or> c = CHR 0x0D"

definition skip_ws :: "string \<Rightarrow> string" where
  "skip_ws s = dropWhile is_json_space s"

definition hex_val :: "char \<Rightarrow> nat option" where
  "hex_val c = (let n = of_char c in
     if 48 \<le> n \<and> n \<le> 57 then Some (n - 48)
     else if 97 \<le> n \<and> n \<le> 102 then Some (n - 87)
     else if 65 \<le> n \<and> n \<le> 70 then Some (n - 55)
     else None)"

definition hex4 :: "char \<Rightarrow> char \<Rightarrow> char \<Rightarrow> char \<Rightarrow> nat option" where
  "hex4 a b c d = (case (hex_val a, hex_val b, hex_val c, hex_val d) of
     (Some w, Some x, Some y, Some z) \<Rightarrow> Some (((w * 16 + x) * 16 + y) * 16 + z)
   | _ \<Rightarrow> None)"

definition utf8 :: "nat \<Rightarrow> string" where
  "utf8 n = (if n < 128 then bytes [n]
     else if n < 2048 then bytes [192 + n div 64, 128 + n mod 64]
     else if n < 65536 then bytes [224 + n div 4096, 128 + (n div 64) mod 64, 128 + n mod 64]
     else bytes [240 + n div 262144, 128 + (n div 4096) mod 64,
                 128 + (n div 64) mod 64, 128 + n mod 64])"

definition json_unescape :: "char \<Rightarrow> char option" where
  "json_unescape e = (if e = QUOTE \<or> e = BACKSLASH \<or> e = CHR ''/'' then Some e
     else if e = CHR ''b'' then Some (CHR 0x08) else if e = CHR ''f'' then Some (CHR 0x0C)
     else if e = CHR ''n'' then Some (CHR 0x0A) else if e = CHR ''r'' then Some (CHR 0x0D)
     else if e = CHR ''t'' then Some (CHR 0x09) else None)"

text \<open>
  The low half of a surrogate pair, when `u` is a high half and the input
  goes on with a low one: its value and the rest.
\<close>

fun low_surrogate :: "nat \<Rightarrow> string \<Rightarrow> (nat \<times> string) option" where
  "low_surrogate u (x # y # a # b # c # d # cs) =
     (if 55296 \<le> u \<and> u < 56320 \<and> x = BACKSLASH \<and> y = CHR ''u'' then
        (case hex4 a b c d of
           Some lo \<Rightarrow> if 56320 \<le> lo \<and> lo < 57344 then Some (lo, cs) else None
         | None \<Rightarrow> None)
      else None)"
| "low_surrogate u _ = None"

lemma low_surrogate_length [termination_simp]:
  "low_surrogate u s = Some (lo, cs) \<Longrightarrow> length cs < Suc (Suc (Suc (Suc (Suc (Suc (length s))))))"
  by (induction u s rule: low_surrogate.induct) (auto split: if_splits option.splits)

text \<open>The body of a string literal, after its opening quote.\<close>

fun parse_str :: "string \<Rightarrow> (string \<times> string) option" where
  "parse_str [] = None"
| "parse_str (c # cs) =
     (if c = QUOTE then Some ([], cs)
      else if c = BACKSLASH then
        (case cs of
           [] \<Rightarrow> None
         | e # cs1 \<Rightarrow>
             if e = CHR ''u'' then
               (case cs1 of
                  h1 # h2 # h3 # h4 # cs2 \<Rightarrow>
                    (case hex4 h1 h2 h3 h4 of
                       None \<Rightarrow> None
                     | Some u \<Rightarrow>
                         (case low_surrogate u cs2 of
                            Some (lo, cs3) \<Rightarrow>
                              map_option (apfst (\<lambda>r. utf8 (65536 + (u - 55296) * 1024 + (lo - 56320)) @ r))
                                (parse_str cs3)
                          | None \<Rightarrow> map_option (apfst (\<lambda>r. utf8 u @ r)) (parse_str cs2)))
                | _ \<Rightarrow> None)
             else
               (case json_unescape e of
                  None \<Rightarrow> None
                | Some x \<Rightarrow> map_option (apfst (Cons x)) (parse_str cs1)))
      else if (of_char c :: nat) < 32 then None
      else map_option (apfst (Cons c)) (parse_str cs))"

definition digits_of :: "string \<Rightarrow> string" where "digits_of s = takeWhile is_digit s"
definition after_digits :: "string \<Rightarrow> string" where "after_digits s = dropWhile is_digit s"

text \<open>The optional fraction and exponent of a numeral: the lexeme and the rest.\<close>

definition parse_frac :: "string \<Rightarrow> (string \<times> string) option" where
  "parse_frac s = (case s of
     c # cs \<Rightarrow> if c = CHR ''.'' then
                 (if digits_of cs = [] then None else Some (c # digits_of cs, after_digits cs))
               else Some ([], s)
   | [] \<Rightarrow> Some ([], []))"

definition exp_sign :: "string \<Rightarrow> string" where
  "exp_sign s = (case s of c # _ \<Rightarrow> if c = CHR ''+'' \<or> c = CHR ''-'' then [c] else [] | [] \<Rightarrow> [])"

definition parse_exp :: "string \<Rightarrow> (string \<times> string) option" where
  "parse_exp s = (case s of
     c # cs \<Rightarrow> if c = CHR ''e'' \<or> c = CHR ''E'' then
                 (let ds = drop (length (exp_sign cs)) cs
                  in if digits_of ds = [] then None
                     else Some (c # exp_sign cs @ digits_of ds, after_digits ds))
               else Some ([], s)
   | [] \<Rightarrow> Some ([], []))"

definition int_part :: "string \<Rightarrow> string" where
  "int_part s = (if s \<noteq> [] \<and> hd s = CHR ''0'' then ''0'' else digits_of s)"

definition num_value :: "bool \<Rightarrow> string \<Rightarrow> string \<Rightarrow> string \<Rightarrow> json" where
  "num_value neg ip fr ex =
     (if fr = [] \<and> ex = [] then JNum (if neg then - int (digits_nat ip) else int (digits_nat ip))
      else JDec ((if neg then ''-'' else []) @ ip @ fr @ ex))"

definition parse_unsigned :: "bool \<Rightarrow> string \<Rightarrow> (json \<times> string) option" where
  "parse_unsigned neg s =
     (if int_part s = [] then None
      else case parse_frac (drop (length (int_part s)) s) of
        None \<Rightarrow> None
      | Some (fr, s1) \<Rightarrow> map_option (\<lambda>(ex, s2). (num_value neg (int_part s) fr ex, s2)) (parse_exp s1))"

definition parse_num :: "string \<Rightarrow> (json \<times> string) option" where
  "parse_num s = (case s of
     [] \<Rightarrow> None
   | c # cs \<Rightarrow> if c = CHR ''-'' then parse_unsigned True cs else parse_unsigned False s)"

definition parse_lit :: "string \<Rightarrow> json \<Rightarrow> string \<Rightarrow> (json \<times> string) option" where
  "parse_lit w v s = (if startsWith s w then Some (v, drop (length w) s) else None)"

text \<open>
  The grammar, with fuel: every call consumes a character, so the length of the
  input is enough.
\<close>

fun parse_val :: "nat \<Rightarrow> string \<Rightarrow> (json \<times> string) option"
  and parse_elems :: "nat \<Rightarrow> string \<Rightarrow> (json list \<times> string) option"
  and parse_members :: "nat \<Rightarrow> jobj \<Rightarrow> string \<Rightarrow> (jobj \<times> string) option"
where
  "parse_val 0 s = None"
| "parse_val (Suc n) s =
     (case skip_ws s of
        [] \<Rightarrow> None
      | c # cs \<Rightarrow>
          if c = QUOTE then map_option (apfst JStr) (parse_str cs)
          else if c = CHR ''n'' then parse_lit ''null'' JNull (c # cs)
          else if c = CHR ''t'' then parse_lit ''true'' (JBool True) (c # cs)
          else if c = CHR ''f'' then parse_lit ''false'' (JBool False) (c # cs)
          else if c = CHR ''['' then
            (case skip_ws cs of
               d # ds \<Rightarrow> if d = CHR '']'' then Some (JArr [], ds)
                         else map_option (apfst JArr) (parse_elems n (d # ds))
             | [] \<Rightarrow> None)
          else if c = CHR ''{'' then
            (case skip_ws cs of
               d # ds \<Rightarrow> if d = CHR ''}'' then Some (JObj [], ds)
                         else map_option (apfst JObj) (parse_members n [] (d # ds))
             | [] \<Rightarrow> None)
          else parse_num (c # cs))"
| "parse_elems 0 s = None"
| "parse_elems (Suc n) s =
     (case parse_val n s of
        None \<Rightarrow> None
      | Some (v, s1) \<Rightarrow>
          (case skip_ws s1 of
             c # s2 \<Rightarrow> if c = CHR '','' then map_option (apfst (Cons v)) (parse_elems n s2)
                       else if c = CHR '']'' then Some ([v], s2) else None
           | [] \<Rightarrow> None))"
| "parse_members 0 acc s = None"
| "parse_members (Suc n) acc s =
     (case skip_ws s of
        q # s0 \<Rightarrow>
          (if q \<noteq> QUOTE then None
           else case parse_str s0 of
             None \<Rightarrow> None
           | Some (k, s1) \<Rightarrow>
               (case skip_ws s1 of
                  c # s2 \<Rightarrow>
                    (if c \<noteq> CHR '':'' then None
                     else case parse_val n s2 of
                       None \<Rightarrow> None
                     | Some (v, s3) \<Rightarrow>
                         (case skip_ws s3 of
                            d # s4 \<Rightarrow> if d = CHR '','' then parse_members n (oput k v acc) s4
                                      else if d = CHR ''}'' then Some (oput k v acc, s4) else None
                          | [] \<Rightarrow> None))
                | [] \<Rightarrow> None))
      | [] \<Rightarrow> None)"

text \<open>`JSON.parse`: None is the SyntaxError.\<close>

definition json_parse :: "string \<Rightarrow> json option" where
  "json_parse s = (case parse_val (Suc (length s)) s of
     Some (v, rest) \<Rightarrow> if skip_ws rest = [] then Some v else None
   | None \<Rightarrow> None)"


section \<open>The round trip\<close>

lemma hex_val_hex_char: "d < 16 \<Longrightarrow> hex_val (hex_char d) = Some d"
  by (auto simp: hex_val_def hex_char_def of_char_of Let_def)

lemma parse_escape_char:
  "parse_str (json_escape_char c @ r) = map_option (apfst (Cons c)) (parse_str r)"
proof (cases "(of_char c :: nat) < 32 \<and> c \<noteq> CHR 0x08 \<and> c \<noteq> CHR 0x0C \<and> c \<noteq> CHR 0x0A \<and> c \<noteq> CHR 0x0D \<and> c \<noteq> CHR 0x09")
  case True
  let ?n = "of_char c :: nat"
  have "?n div 16 < 16" "?n mod 16 < 16" using True by (auto simp: less_mult_imp_div_less)
  then have hv: "hex_val (hex_char (?n div 16)) = Some (?n div 16)" "hex_val (hex_char (?n mod 16)) = Some (?n mod 16)"
    by (simp_all only: hex_val_hex_char)
  have h0: "hex_val (CHR ''0'') = Some 0" by (simp add: hex_val_def)
  have h: "hex4 (CHR ''0'') (CHR ''0'') (hex_char (?n div 16)) (hex_char (?n mod 16)) = Some ?n"
    unfolding hex4_def hv h0 by simp
  have "utf8 ?n = [c]" using True by (simp add: utf8_def bytes_def)
  moreover have "low_surrogate ?n r = None"
    using True by (cases "(?n, r)" rule: low_surrogate.cases) simp_all
  moreover have "\<not> (of_char QUOTE :: nat) < 32" "\<not> (of_char BACKSLASH :: nat) < 32"
    by (simp_all add: QUOTE_def BACKSLASH_def)
  then have "c \<noteq> QUOTE" "c \<noteq> BACKSLASH" using True by metis+
  moreover have "BACKSLASH \<noteq> QUOTE" by (simp add: QUOTE_def BACKSLASH_def)
  ultimately show ?thesis
    using True h by (simp add: json_escape_char_def) (cases "parse_str r"; simp add: apfst_def map_prod_def split_beta)
next
  case False
  then show ?thesis
    by (auto simp: json_escape_char_def json_unescape_def QUOTE_def BACKSLASH_def)
qed

lemma parse_str_quoted: "parse_str (concat (List.map json_escape_char s) @ QUOTE # r) = Some (s, r)"
  by (induction s) (simp_all add: parse_escape_char del: parse_str.simps(2), simp)

definition num_end :: "string \<Rightarrow> bool" where
  "num_end r \<longleftrightarrow> (case r of [] \<Rightarrow> True
     | c # _ \<Rightarrow> \<not> is_digit c \<and> c \<noteq> CHR ''.'' \<and> c \<noteq> CHR ''e'' \<and> c \<noteq> CHR ''E'')"

lemma num_end_simps [simp]: "num_end []" "num_end (CHR '','' # r)" "num_end (CHR '']'' # r)" "num_end (CHR ''}'' # r)"
  by (simp_all add: num_end_def is_digit_def)

lemma num_end_hd: "num_end (c # r) \<Longrightarrow> \<not> is_digit c"
  by (simp add: num_end_def)

lemma digits_of_append: "num_end r \<Longrightarrow> digits_of (s @ r) = digits_of s"
  by (induction s) (cases r; auto simp: digits_of_def dest: num_end_hd)+

lemma after_digits_append: "num_end r \<Longrightarrow> after_digits (s @ r) = after_digits s @ r"
  by (induction s) (cases r; auto simp: after_digits_def dest: num_end_hd)+

lemma parse_frac_append:
  "num_end r \<Longrightarrow> parse_frac s = Some (f, s') \<Longrightarrow> parse_frac (s @ r) = Some (f, s' @ r)"
  by (cases s; cases r)
     (auto simp: parse_frac_def digits_of_append after_digits_append num_end_def split: if_splits)

lemma exp_sign_append: "s \<noteq> [] \<Longrightarrow> exp_sign (s @ r) = exp_sign s"
  by (cases s) (simp_all add: exp_sign_def)

lemma exp_sign_length: "length (exp_sign s) \<le> length s"
  by (cases s) (simp_all add: exp_sign_def)

lemma parse_exp_append:
  assumes r: "num_end r" and p: "parse_exp s = Some (f, s')"
  shows "parse_exp (s @ r) = Some (f, s' @ r)"
proof (cases s)
  case Nil
  then show ?thesis using r p by (cases r) (auto simp: parse_exp_def num_end_def)
next
  case (Cons c cs)
  show ?thesis
  proof (cases "c = CHR ''e'' \<or> c = CHR ''E''")
    case True
    have "cs \<noteq> []"
      using p True by (auto simp: Cons parse_exp_def digits_of_def)
    then show ?thesis
      using p True r
      by (simp add: Cons parse_exp_def Let_def exp_sign_append exp_sign_length
            digits_of_append after_digits_append split: if_splits)
  qed (use p in \<open>auto simp: Cons parse_exp_def\<close>)
qed

lemma int_part_append: "s \<noteq> [] \<Longrightarrow> num_end r \<Longrightarrow> int_part (s @ r) = int_part s"
  by (simp add: int_part_def digits_of_append)

lemma int_part_length: "length (int_part s) \<le> length s"
  by (cases s) (auto simp: int_part_def digits_of_def length_takeWhile_le le_SucI)

lemma int_part_Nil [simp]: "int_part [] = []"
  by (simp add: int_part_def digits_of_def)

lemma parse_unsigned_append:
  assumes r: "num_end r" and p: "parse_unsigned neg s = Some (v, [])"
  shows "parse_unsigned neg (s @ r) = Some (v, r)"
proof -
  have ne: "s \<noteq> []" using p by (auto simp: parse_unsigned_def)
  show ?thesis
    using p by (auto simp: parse_unsigned_def int_part_append [OF ne r] int_part_length
        parse_frac_append [OF r] parse_exp_append [OF r] split: if_splits option.splits)
qed

lemma parse_num_append:
  "num_end r \<Longrightarrow> parse_num s = Some (v, []) \<Longrightarrow> parse_num (s @ r) = Some (v, r)"
  using parse_unsigned_append [of r False s v] parse_unsigned_append [of r True "tl s" v]
  by (cases s) (auto simp: parse_num_def split: if_splits)

lemma takeWhile_all: "list_all P s \<Longrightarrow> takeWhile P s = s"
  by (induction s) auto

lemma digit_char_0: "digit_char 0 = CHR ''0''"
  by code_simp

lemma nat_str_zero: "hd (nat_str n) = CHR ''0'' \<longleftrightarrow> n = 0"
proof (induction n rule: nat_str.induct)
  case (1 n)
  have "digit_char n = CHR ''0'' \<longleftrightarrow> n = 0" if "n < 10"
    using that digit_val_digit_char [of n] digit_val_digit_char [of 0] digit_char_0
    by (metis zero_less_numeral)
  then show ?case
    using 1 by (subst nat_str.simps) (auto simp: )
qed

lemma int_part_nat_str: "int_part (nat_str n) = nat_str n"
proof (cases "n = 0")
  case True
  then show ?thesis by (simp add: int_part_def nat_str.simps digit_char_0)
next
  case False
  then show ?thesis
    by (simp add: int_part_def nat_str_zero digits_of_def takeWhile_all [OF nat_str_digits])
qed

lemma parse_unsigned_nat_str:
  "parse_unsigned neg (nat_str n) = Some (JNum (if neg then - int n else int n), [])"
  by (simp add: parse_unsigned_def int_part_nat_str parse_frac_def parse_exp_def num_value_def)

lemma parse_num_int_str: "parse_num (int_str n) = Some (JNum n, [])"
proof (cases "n < 0")
  case True
  then show ?thesis by (simp add: parse_num_def int_str_def parse_unsigned_nat_str)
next
  case False
  obtain c cs where c: "nat_str (nat n) = c # cs" by (cases "nat_str (nat n)") auto
  then have "c \<noteq> CHR ''-''"
    using nat_str_hd_digit [of "nat n"] by auto
  then have "parse_num (nat_str (nat n)) = parse_unsigned False (nat_str (nat n))"
    by (simp add: parse_num_def c)
  then show ?thesis
    using False by (simp add: int_str_def parse_unsigned_nat_str)
qed

text \<open>A value the printer and the parser agree on: object keys are distinct, a lexeme is a numeral.\<close>

fun wf_json :: "json \<Rightarrow> bool" where
  "wf_json (JDec l) = (parse_num l = Some (JDec l, []))"
| "wf_json (JArr vs) = list_all wf_json vs"
| "wf_json (JObj ps) = (distinct (List.map fst ps) \<and> list_all (\<lambda>kv. wf_json (snd kv)) ps)"
| "wf_json v = True"

lemma skip_ws_nonspace: "\<not> is_json_space c \<Longrightarrow> skip_ws (c # cs) = c # cs"
  by (simp add: skip_ws_def)

text \<open>The first character of a numeral: a digit or a minus sign.\<close>

lemma parse_num_first:
  assumes "parse_num s = Some x"
  shows "\<exists>c cs. s = c # cs \<and> (is_digit c \<or> c = CHR ''-'')"
proof (cases s)
  case (Cons c cs)
  then show ?thesis
    using assms
    by (auto simp: parse_num_def parse_unsigned_def int_part_def digits_of_def is_digit_def
        split: if_splits)
qed (use assms in \<open>simp add: parse_num_def\<close>)

lemma digit_first_plain:
  assumes "is_digit c \<or> c = CHR ''-''"
  shows "\<not> is_json_space c \<and> c \<noteq> QUOTE \<and> c \<noteq> CHR ''n'' \<and> c \<noteq> CHR ''t'' \<and> c \<noteq> CHR ''f''
    \<and> c \<noteq> CHR ''['' \<and> c \<noteq> CHR ''{''"
  using assms by (auto simp: is_digit_def is_json_space_def QUOTE_def)

lemma parse_val_number:
  assumes "parse_num l = Some (v, [])" "num_end r"
  shows "parse_val (Suc n) (l @ r) = Some (v, r)"
proof -
  obtain c cs where c: "l = c # cs" "is_digit c \<or> c = CHR ''-''"
    using parse_num_first [OF assms(1)] by auto
  show ?thesis
    using digit_first_plain [OF c(2)] parse_num_append [OF assms(2,1)]
    by (simp add: c(1) skip_ws_nonspace)
qed

lemma parse_val_number_le:
  assumes "parse_num l = Some (v, [])" "num_end r" "length l \<le> n"
  shows "parse_val n (l @ r) = Some (v, r)"
proof -
  have "l \<noteq> []" using assms(1) by (auto simp: parse_num_def)
  then obtain m where "n = Suc m" using assms(3) by (cases n) auto
  then show ?thesis using parse_val_number [OF assms(1,2)] by simp
qed

lemma parse_val_string:
  "parse_val (Suc n) (json_quote s @ r) = Some (JStr s, r)"
  by (simp add: json_quote_def skip_ws_def is_json_space_def QUOTE_def [symmetric] parse_str_quoted [simplified])
     (simp add: QUOTE_def)

lemma skip_ws_comma [simp]: "skip_ws (CHR '','' # s) = CHR '','' # s" "skip_ws (CHR '']'' # s) = CHR '']'' # s"
  "skip_ws (CHR ''}'' # s) = CHR ''}'' # s" "skip_ws (CHR '':'' # s) = CHR '':'' # s"
  "skip_ws (QUOTE # s) = QUOTE # s"
  by (simp_all add: skip_ws_def is_json_space_def QUOTE_def)

lemma stringify_first:
  assumes "wf_json v"
  shows "\<exists>c cs. json_stringify v = c # cs \<and> \<not> is_json_space c \<and> c \<noteq> CHR '']''"
proof -
  have num: "\<exists>c cs. l = c # cs \<and> \<not> is_json_space c \<and> c \<noteq> CHR '']''" if "parse_num l = Some x" for l x
    using parse_num_first [OF that] digit_first_plain by (auto simp: is_digit_def)
  show ?thesis
  proof (cases v)
    case (JNum n)
    then show ?thesis using num [OF parse_num_int_str] by simp
  next
    case (JDec l)
    then show ?thesis using num assms by simp
  qed (auto simp: json_quote_def is_json_space_def QUOTE_def)
qed

lemma intercalate_Cons_append:
  "intercalate '','' (x # xs) @ r = x @ (if xs = [] then r else CHR '','' # intercalate '','' xs @ r)"
  by simp

definition parses :: "json \<Rightarrow> bool" where
  "parses v \<longleftrightarrow> (\<forall>n r. length (json_stringify v) \<le> n \<longrightarrow> num_end r \<longrightarrow>
     parse_val n (json_stringify v @ r) = Some (v, r))"

lemma parse_elems_ok:
  assumes "list_all (\<lambda>v. wf_json v \<and> parses v) vs" "vs \<noteq> []"
    and "length (intercalate '','' (List.map json_stringify vs)) + 1 \<le> n"
  shows "parse_elems n (intercalate '','' (List.map json_stringify vs) @ CHR '']'' # r) = Some (vs, r)"
  using assms
proof (induction vs arbitrary: n)
  case (Cons v vs)
  obtain m where n: "n = Suc m" using Cons.prems(3) by (cases n) auto
  have v: "parse_val m (json_stringify v @ s) = Some (v, s)" if "num_end s" for s
    using Cons.prems that by (simp add: parses_def n split: if_splits)
  have ne: "json_stringify v \<noteq> []" using Cons.prems(1) stringify_first [of v] by auto
  show ?case
  proof (cases "vs = []")
    case True
    then show ?thesis by (simp add: n v)
  next
    case False
    have "length (intercalate '','' (List.map json_stringify vs)) + 1 \<le> m"
      using Cons.prems(3) ne False by (simp add: n)
    then show ?thesis
      using Cons.IH [of m] Cons.prems(1) False by (simp add: n v)
  qed
qed simp

lemma oput_fresh: "k \<notin> set (List.map fst ps) \<Longrightarrow> oput k v ps = ps @ [(k, v)]"
  unfolding oput_def by (induction ps) auto

abbreviation member_str :: "string \<times> json \<Rightarrow> string" where
  "member_str kv \<equiv> json_quote (fst kv) @ CHR '':'' # json_stringify (snd kv)"

lemma parse_members_ok:
  assumes "list_all (\<lambda>kv. parses (snd kv)) ps" "ps \<noteq> []" "distinct (List.map fst (acc @ ps))"
    and "length (intercalate '','' (List.map member_str ps)) + 1 \<le> n"
  shows "parse_members n acc (intercalate '','' (List.map member_str ps) @ CHR ''}'' # r) = Some (acc @ ps, r)"
  using assms
proof (induction ps arbitrary: n acc)
  case (Cons kv ps)
  obtain k v where kv: "kv = (k, v)" by (cases kv)
  obtain m where n: "n = Suc m" using Cons.prems(4) by (cases n) auto
  have v: "parse_val m (json_stringify v @ s) = Some (v, s)" if "num_end s" for s
    using Cons.prems that by (simp add: parses_def n kv split: if_splits)
  have k: "parse_str (concat (List.map json_escape_char k) @ QUOTE # s) = Some (k, s)" for s
    by (rule parse_str_quoted)
  have put: "oput k v acc = acc @ [(k, v)]"
    using Cons.prems(3) by (intro oput_fresh) (auto simp: kv)
  show ?case
  proof (cases "ps = []")
    case True
    then show ?thesis by (simp add: n kv json_quote_def k v put)
  next
    case False
    have "length (intercalate '','' (List.map member_str ps)) + 1 \<le> m"
      using Cons.prems(4) False by (simp add: n)
    then show ?thesis
      using Cons.IH [of "acc @ [(k, v)]" m] Cons.prems(1,3) False
      by (simp add: n kv json_quote_def k v put)
  qed
qed simp

lemma parses_stringify: "wf_json v \<Longrightarrow> parses v"
proof (induction v)
  case (JNum x)
  then show ?case
    by (simp add: parses_def parse_val_number_le [OF parse_num_int_str])
next
  case (JDec l)
  then show ?case
    by (simp add: parses_def parse_val_number_le)
next
  case (JStr s)
  have "parse_val n (json_quote s @ r) = Some (JStr s, r)" if "length (json_quote s) \<le> n" for n r
    using that parse_val_string [of _ s r] by (cases n) (auto simp: json_quote_def)
  then show ?case by (simp add: parses_def)
next
  case (JArr vs)
  have "parse_val n (json_stringify (JArr vs) @ r) = Some (JArr vs, r)"
    if len: "length (json_stringify (JArr vs)) \<le> n" for n r
  proof -
    obtain m where n: "n = Suc m" using len by (cases n) auto
    show ?thesis
    proof (cases vs)
      case Nil
      then show ?thesis by (simp add: n skip_ws_def is_json_space_def QUOTE_def)
    next
      case (Cons w ws)
      obtain c cs where c: "json_stringify w = c # cs" "\<not> is_json_space c" "c \<noteq> CHR '']''"
        using stringify_first [of w] JArr.prems Cons by auto
      have "parse_elems m (intercalate '','' (List.map json_stringify vs) @ CHR '']'' # r) = Some (vs, r)"
        using JArr len by (intro parse_elems_ok) (auto simp: n list_all_iff Cons)
      moreover have "skip_ws (intercalate '','' (List.map json_stringify vs) @ CHR '']'' # r)
          = intercalate '','' (List.map json_stringify vs) @ CHR '']'' # r"
        using c by (simp add: Cons skip_ws_nonspace)
      ultimately show ?thesis
        using c by (auto simp: n skip_ws_nonspace is_json_space_def QUOTE_def Cons)
    qed
  qed
  then show ?case by (simp add: parses_def)
next
  case (JObj ps)
  have "parse_val n (json_stringify (JObj ps) @ r) = Some (JObj ps, r)"
    if len: "length (json_stringify (JObj ps)) \<le> n" for n r
  proof -
    obtain m where n: "n = Suc m" using len by (cases n) auto
    show ?thesis
    proof (cases ps)
      case Nil
      then show ?thesis by (simp add: n skip_ws_def is_json_space_def QUOTE_def)
    next
      case (Cons w ws)
      have "list_all (\<lambda>kv. parses (snd kv)) ps"
        using JObj by (auto simp: list_all_iff)
      then have "parse_members m [] (intercalate '','' (List.map member_str ps) @ CHR ''}'' # r) = Some ([] @ ps, r)"
        using JObj.prems len by (intro parse_members_ok) (auto simp: n Cons)
      moreover have "\<exists>t. intercalate '','' (List.map member_str ps) @ CHR ''}'' # r = QUOTE # t"
        by (simp add: Cons json_quote_def)
      ultimately show ?thesis
        by (auto simp: n skip_ws_nonspace is_json_space_def QUOTE_def)
    qed
  qed
  then show ?case by (simp add: parses_def)
qed (auto simp: parses_def parse_lit_def Suc_le_eq skip_ws_def is_json_space_def QUOTE_def startsWith_def
      dest!: less_imp_Suc_add)

lemma json_parse_stringify: "wf_json v \<Longrightarrow> json_parse (json_stringify v) = Some v"
  using parses_stringify [of v, unfolded parses_def, rule_format, of "Suc (length (json_stringify v))" "[]"]
  by (simp add: json_parse_def skip_ws_def)


section \<open>Numerals in strings\<close>

text \<open>
  `Math.trunc(Number(s))`, with 0 for what is not a finite number: signed
  decimal numerals with a fraction and an exponent, surrounded by white space.
\<close>

definition exp_value :: "string \<Rightarrow> int" where
  "exp_value ex = (let sg = exp_sign (tl ex); n = int (digits_nat (drop (length sg) (tl ex)))
     in if ex = [] then 0 else if sg = ''-'' then - n else n)"

definition trunc_scale :: "nat \<Rightarrow> int \<Rightarrow> int" where
  "trunc_scale m e = (if 0 \<le> e then int m * 10 ^ nat e else int m div 10 ^ nat (- e))"

definition trunc_unsigned :: "string \<Rightarrow> int option" where
  "trunc_unsigned u =
     (let ip = digits_of u; u1 = after_digits u;
          dot = (u1 \<noteq> [] \<and> hd u1 = CHR ''.'');
          fr = (if dot then digits_of (tl u1) else []);
          u2 = (if dot then after_digits (tl u1) else u1)
      in if ip = [] \<and> fr = [] then None
         else case parse_exp u2 of
           Some (ex, []) \<Rightarrow> Some (trunc_scale (digits_nat (ip @ fr)) (exp_value ex - int (length fr)))
         | _ \<Rightarrow> None)"

definition js_trunc_number :: "string \<Rightarrow> int" where
  "js_trunc_number s =
     (let t = js_trim s
      in case t of
           [] \<Rightarrow> 0
         | c # cs \<Rightarrow>
             if c = CHR ''-'' then (case trunc_unsigned cs of None \<Rightarrow> 0 | Some n \<Rightarrow> - n)
             else if c = CHR ''+'' then (case trunc_unsigned cs of None \<Rightarrow> 0 | Some n \<Rightarrow> n)
             else (case trunc_unsigned t of None \<Rightarrow> 0 | Some n \<Rightarrow> n))"

lemma trim_left_id:
  "s \<noteq> [] \<Longrightarrow> hd s \<notin> set (List.map hd (filter (\<lambda>w. w \<noteq> []) ws)) \<Longrightarrow> trim_left ws s = s"
  by (subst trim_left.simps) (auto simp: startsWith_iff image_iff hd_append
      split: option.splits dest!: find_Some_iff [THEN iffD1] intro: nth_mem)

definition plain_char :: "char \<Rightarrow> bool" where
  "plain_char c \<longleftrightarrow> 32 < (of_char c :: nat) \<and> (of_char c :: nat) < 127"

lemma white_space_heads:
  "list_all (\<lambda>w. w \<noteq> [] \<and> \<not> plain_char (hd w) \<and> \<not> plain_char (last w)) js_white_space"
  by code_simp

lemma js_trim_id:
  assumes "s \<noteq> []" "plain_char (hd s)" "plain_char (last s)"
  shows "js_trim s = s"
proof -
  have "trim_left js_white_space s = s"
    using assms white_space_heads by (intro trim_left_id) (auto simp: list_all_iff)
  moreover have "trim_left (List.map rev js_white_space) (rev s) = rev s"
    using assms white_space_heads by (intro trim_left_id) (auto simp: list_all_iff hd_rev)
  ultimately show ?thesis by (simp add: js_trim_def)
qed

lemma js_trim_int_str [simp]: "js_trim (int_str n) = int_str n"
proof -
  have plain: "is_digit c \<Longrightarrow> plain_char c" for c
    by (simp add: is_digit_def plain_char_def)
  have "is_digit (hd (nat_str m))" "is_digit (last (nat_str m))" for m
    using nat_str_digits [of m] by (auto simp: list_all_iff)
  with plain show ?thesis by (intro js_trim_id) (auto simp: int_str_def plain_char_def)
qed

lemma trunc_unsigned_nat_str: "trunc_unsigned (nat_str n) = Some (int n)"
proof -
  have "digits_of (nat_str n) = nat_str n" "after_digits (nat_str n) = []"
    using nat_str_digits [of n]
    by (simp_all add: digits_of_def after_digits_def takeWhile_all list_all_iff)
  then show ?thesis
    by (simp add: trunc_unsigned_def parse_exp_def exp_value_def trunc_scale_def)
qed

lemma js_trunc_int_str [simp]: "js_trunc_number (int_str n) = n"
proof -
  have digits: "is_digit (hd (nat_str m))" for m
    using nat_str_digits [of m] by (auto simp: list_all_iff)
  note trim = js_trim_int_str [of n]
  show ?thesis
  proof (cases "n < 0")
    case True
    then show ?thesis
      by (simp add: js_trunc_number_def trim Let_def) (simp add: int_str_def trunc_unsigned_nat_str)
  next
    case False
    obtain c cs where c: "nat_str (nat n) = c # cs" by (cases "nat_str (nat n)") auto
    then have "c \<noteq> CHR ''-''" "c \<noteq> CHR ''+''"
      using digits [of "nat n"] by (auto simp: is_digit_def)
    then show ?thesis
      using False trunc_unsigned_nat_str [of "nat n"]
      by (simp add: js_trunc_number_def trim Let_def) (simp add: int_str_def c)
  qed
qed

text \<open>`Number.parseInt(s, 10)` of a trimmed string; None is NaN.\<close>

definition js_parseInt :: "string \<Rightarrow> int option" where
  "js_parseInt s =
     (let neg = startsWith s ''-'';
          t = (if neg \<or> startsWith s ''+'' then tl s else s);
          ds = takeWhile is_digit t
      in if ds = [] then None else Some (if neg then - int (digits_nat ds) else int (digits_nat ds)))"

text \<open>From here on the printed text is opaque: proofs use the round trip.\<close>

declare json_stringify.simps [simp del] parse_val.simps [simp del] parse_elems.simps [simp del]
  parse_members.simps [simp del] parse_str.simps [simp del]

end
