(* ===== verification/Effects.thy ===== *)
theory Effects
  imports JsonText
begin

text \<open>
  Effects of the asynchronous code, as values: a handler is a program that
  issues one command at a time and continues with its answer. A command goes to
  the Redis connection, or reads the clock, draws a UUID or sleeps. A rejected
  promise is the program `Raise`, `try/catch` is `catchP`.

  The connection is not part of the repository, so it is a parameter: a function
  `exec` from a command and a state of the outside world to the answer and
  the next state. The locale `redis_server` states what the code relies
  on: the documented effect of each command on the keyspace, in terms of a view
  of that state. Nothing is assumed of a command that fails, except that it
  either took effect or did not.
\<close>


section \<open>Errors\<close>

datatype js_error =
    RedisError string
  | TypeError
  | TypeErrorOf string
  | SyntaxError
  | JsError string
  | TaskCancelledError string
  | WaitIndexMemberError string string
  | HeartbeatConfigError string
  | WorkerRegistryNotSetError string
  | ExecutionNotFoundError string


section \<open>Commands, answers and programs\<close>

datatype cmd =
    Get key
  | SetC key string "nat option" bool
  | Del key
  | Exists key
  | Expire key nat
  | Hset key string string
  | Hget key string
  | Hgetall key
  | Hincrby key string int
  | Sadd key string
  | Srem key string
  | Smembers key
  | Sismember key string
  | Zadd key int string
  | Zrem key string
  | Zrangebyscore key int int nat
  | Zremrangebyscore key int int
  | Xadd key string
  | Hdel key string
  | Hmget key "string list"
  | Zfrom key int
  | Ztail key nat
  | Zremupto key int
  | Rpush key string
  | Xlen key
  | Xack key string string
  | Now
  | Uuid
  | Sleep int

datatype reply =
    RNil
  | ROk
  | RInt int
  | RBulk string
  | RList "string list"
  | RPairs "(string \<times> string) list"
  | ROpts "string option list"

type_synonym answer = "js_error + reply"

datatype 'a prog =
    Ret 'a
  | Raise js_error
  | Step cmd "answer \<Rightarrow> 'a prog"

primrec bindP :: "'a prog \<Rightarrow> ('a \<Rightarrow> 'b prog) \<Rightarrow> 'b prog" where
  "bindP (Ret a) f = f a"
| "bindP (Raise e) f = Raise e"
| "bindP (Step c k) f = Step c (\<lambda>r. bindP (k r) f)"

primrec catchP :: "'a prog \<Rightarrow> (js_error \<Rightarrow> 'a prog) \<Rightarrow> 'a prog" where
  "catchP (Ret a) h = Ret a"
| "catchP (Raise e) h = h e"
| "catchP (Step c k) h = Step c (\<lambda>r. catchP (k r) h)"

definition seqP :: "'a prog \<Rightarrow> 'b prog \<Rightarrow> 'b prog" where
  "seqP p q = bindP p (\<lambda>_. q)"

definition whenP :: "bool \<Rightarrow> unit prog \<Rightarrow> unit prog" where
  "whenP b p = (if b then p else Ret ())"

primrec forP :: "'a list \<Rightarrow> ('a \<Rightarrow> unit prog) \<Rightarrow> unit prog" where
  "forP [] f = Ret ()"
| "forP (x # xs) f = bindP (f x) (\<lambda>_. forP xs f)"

text \<open>A loop that carries a value: `for (const x of xs) acc = await f(acc, x)`.\<close>

primrec foldP :: "('b \<Rightarrow> 'a \<Rightarrow> 'b prog) \<Rightarrow> 'b \<Rightarrow> 'a list \<Rightarrow> 'b prog" where
  "foldP f acc [] = Ret acc"
| "foldP f acc (x # xs) = bindP (f acc x) (\<lambda>acc'. foldP f acc' xs)"

text \<open>`try p finally q` for a clean-up that catches its own errors.\<close>

definition finallyP :: "'a prog \<Rightarrow> unit prog \<Rightarrow> 'a prog" where
  "finallyP p q = bindP (catchP (bindP p (\<lambda>a. Ret (Inr a))) (\<lambda>e. Ret (Inl e)))
     (\<lambda>r. seqP q (case r of Inl e \<Rightarrow> Raise e | Inr a \<Rightarrow> Ret a))"

text \<open>One command, and what the code makes of its answer.\<close>

definition cmdP :: "cmd \<Rightarrow> (reply \<Rightarrow> 'a) \<Rightarrow> 'a prog" where
  "cmdP c f = Step c (\<lambda>r. case r of Inl e \<Rightarrow> Raise e | Inr v \<Rightarrow> Ret (f v))"

definition as_bulk :: "reply \<Rightarrow> string option" where
  "as_bulk r = (case r of RBulk s \<Rightarrow> Some s | _ \<Rightarrow> None)"

definition as_int :: "reply \<Rightarrow> int" where
  "as_int r = (case r of RInt i \<Rightarrow> i | _ \<Rightarrow> 0)"

definition as_list :: "reply \<Rightarrow> string list" where
  "as_list r = (case r of RList xs \<Rightarrow> xs | _ \<Rightarrow> [])"

definition as_pairs :: "reply \<Rightarrow> (string \<times> string) list" where
  "as_pairs r = (case r of RPairs ps \<Rightarrow> ps | _ \<Rightarrow> [])"

definition as_opts :: "reply \<Rightarrow> string option list" where
  "as_opts r = (case r of ROpts xs \<Rightarrow> xs | _ \<Rightarrow> [])"

definition getP :: "key \<Rightarrow> string option prog" where "getP k = cmdP (Get k) as_bulk"
definition setP :: "key \<Rightarrow> string \<Rightarrow> nat option \<Rightarrow> bool \<Rightarrow> bool prog" where
  "setP k v ttl nx = cmdP (SetC k v ttl nx) (\<lambda>r. r = ROk)"
definition delP :: "key \<Rightarrow> unit prog" where "delP k = cmdP (Del k) (\<lambda>_. ())"
definition existsP :: "key \<Rightarrow> bool prog" where "existsP k = cmdP (Exists k) (\<lambda>r. as_int r \<noteq> 0)"
definition expireP :: "key \<Rightarrow> nat \<Rightarrow> int prog" where "expireP k t = cmdP (Expire k t) as_int"
definition hsetP :: "key \<Rightarrow> string \<Rightarrow> string \<Rightarrow> unit prog" where
  "hsetP k f v = cmdP (Hset k f v) (\<lambda>_. ())"
definition hgetP :: "key \<Rightarrow> string \<Rightarrow> string option prog" where "hgetP k f = cmdP (Hget k f) as_bulk"
definition hgetallP :: "key \<Rightarrow> (string \<times> string) list prog" where "hgetallP k = cmdP (Hgetall k) as_pairs"
definition hincrbyP :: "key \<Rightarrow> string \<Rightarrow> int \<Rightarrow> int prog" where "hincrbyP k f n = cmdP (Hincrby k f n) as_int"
definition saddP :: "key \<Rightarrow> string \<Rightarrow> unit prog" where "saddP k m = cmdP (Sadd k m) (\<lambda>_. ())"
definition sremP :: "key \<Rightarrow> string \<Rightarrow> unit prog" where "sremP k m = cmdP (Srem k m) (\<lambda>_. ())"
definition smembersP :: "key \<Rightarrow> string list prog" where "smembersP k = cmdP (Smembers k) as_list"
definition sismemberP :: "key \<Rightarrow> string \<Rightarrow> bool prog" where
  "sismemberP k m = cmdP (Sismember k m) (\<lambda>r. as_int r \<noteq> 0)"
definition zaddP :: "key \<Rightarrow> int \<Rightarrow> string \<Rightarrow> unit prog" where "zaddP k sc m = cmdP (Zadd k sc m) (\<lambda>_. ())"
definition zremP :: "key \<Rightarrow> string \<Rightarrow> int prog" where "zremP k m = cmdP (Zrem k m) as_int"
definition zrangebyscoreP :: "key \<Rightarrow> int \<Rightarrow> int \<Rightarrow> nat \<Rightarrow> (string \<times> string) list prog" where
  "zrangebyscoreP k lo hi n = cmdP (Zrangebyscore k lo hi n) as_pairs"
definition zremrangebyscoreP :: "key \<Rightarrow> int \<Rightarrow> int \<Rightarrow> int prog" where
  "zremrangebyscoreP k lo hi = cmdP (Zremrangebyscore k lo hi) as_int"
definition xaddP :: "key \<Rightarrow> string \<Rightarrow> unit prog" where "xaddP k d = cmdP (Xadd k d) (\<lambda>_. ())"
definition xackP :: "key \<Rightarrow> string \<Rightarrow> string \<Rightarrow> unit prog" where "xackP k g i = cmdP (Xack k g i) (\<lambda>_. ())"
definition hdelP :: "key \<Rightarrow> string \<Rightarrow> unit prog" where "hdelP k f = cmdP (Hdel k f) (\<lambda>_. ())"
definition hmgetP :: "key \<Rightarrow> string list \<Rightarrow> string option list prog" where "hmgetP k fs = cmdP (Hmget k fs) as_opts"
definition zfromP :: "key \<Rightarrow> int \<Rightarrow> string list prog" where "zfromP k lo = cmdP (Zfrom k lo) as_list"
definition ztailP :: "key \<Rightarrow> nat \<Rightarrow> string list prog" where "ztailP k n = cmdP (Ztail k n) as_list"
definition zremuptoP :: "key \<Rightarrow> int \<Rightarrow> unit prog" where "zremuptoP k hi = cmdP (Zremupto k hi) (\<lambda>_. ())"
definition rpushP :: "key \<Rightarrow> string \<Rightarrow> unit prog" where "rpushP k x = cmdP (Rpush k x) (\<lambda>_. ())"
definition xlenP :: "key \<Rightarrow> int prog" where "xlenP k = cmdP (Xlen k) as_int"
definition nowP :: "int prog" where "nowP = cmdP Now as_int"
definition uuidP :: "string prog" where
  "uuidP = cmdP Uuid (\<lambda>r. case as_bulk r of Some u \<Rightarrow> u | None \<Rightarrow> [])"
definition sleepP :: "int \<Rightarrow> unit prog" where "sleepP ms = cmdP (Sleep ms) (\<lambda>_. ())"

text \<open>`redis.pipeline()...exec()`: the commands in order; the error of one is an entry of the answer.\<close>

definition pipelineP :: "cmd list \<Rightarrow> unit prog" where
  "pipelineP cs = forP cs (\<lambda>c. Step c (\<lambda>_. Ret ()))"


section \<open>Running a program\<close>

text \<open>
  A configuration is the state of the world and the commands issued so far. The
  second component is what the properties about messages speak of.
\<close>

type_synonym 's config = "'s \<times> cmd list"

primrec run :: "(cmd \<Rightarrow> 's \<Rightarrow> answer \<times> 's) \<Rightarrow> 'a prog \<Rightarrow> 's config \<Rightarrow> (js_error + 'a) \<times> 's config" where
  "run exec (Ret a) \<sigma> = (Inr a, \<sigma>)"
| "run exec (Raise e) \<sigma> = (Inl e, \<sigma>)"
| "run exec (Step c k) \<sigma> =
     (case exec c (fst \<sigma>) of (r, s') \<Rightarrow> run exec (k r) (s', snd \<sigma> @ [c]))"

definition result :: "(cmd \<Rightarrow> 's \<Rightarrow> answer \<times> 's) \<Rightarrow> 'a prog \<Rightarrow> 's \<Rightarrow> js_error + 'a" where
  "result exec p s = fst (run exec p (s, []))"

definition final :: "(cmd \<Rightarrow> 's \<Rightarrow> answer \<times> 's) \<Rightarrow> 'a prog \<Rightarrow> 's \<Rightarrow> 's" where
  "final exec p s = fst (snd (run exec p (s, [])))"

definition issued :: "(cmd \<Rightarrow> 's \<Rightarrow> answer \<times> 's) \<Rightarrow> 'a prog \<Rightarrow> 's \<Rightarrow> cmd list" where
  "issued exec p s = snd (snd (run exec p (s, [])))"

text \<open>What a run answers does not depend on the commands issued before it.\<close>

lemma result_any_log: "fst (run exec p (s, l)) = result exec p s"
proof -
  have "fst (run exec p (s, l)) = fst (run exec p (s, l'))" for l'
    by (induction p arbitrary: s l l') (auto split: prod.splits)
  then show ?thesis by (simp add: result_def)
qed

lemma run_bindP:
  "run exec (bindP p f) \<sigma> =
     (case run exec p \<sigma> of (Inl e, \<sigma>') \<Rightarrow> (Inl e, \<sigma>') | (Inr a, \<sigma>') \<Rightarrow> run exec (f a) \<sigma>')"
  by (induction p arbitrary: \<sigma>) (auto split: prod.splits)

lemma run_catchP:
  "run exec (catchP p h) \<sigma> =
     (case run exec p \<sigma> of (Inl e, \<sigma>') \<Rightarrow> run exec (h e) \<sigma>' | (Inr a, \<sigma>') \<Rightarrow> (Inr a, \<sigma>'))"
  by (induction p arbitrary: \<sigma>) (auto split: prod.splits)

lemma bindP_assoc: "bindP (bindP p f) g = bindP p (\<lambda>a. bindP (f a) g)"
  by (induction p) auto

lemma bindP_Ret [simp]: "bindP p Ret = p"
  by (induction p) auto

text \<open>
  The weakest precondition of a program: what holds after it, normally
  (`Q`) or with an error (`E`). The laws of the connection enter
  through the rules for its commands, below.
\<close>

definition wp :: "(cmd \<Rightarrow> 's \<Rightarrow> answer \<times> 's) \<Rightarrow> 'a prog \<Rightarrow> ('a \<Rightarrow> 's config \<Rightarrow> bool)
    \<Rightarrow> (js_error \<Rightarrow> 's config \<Rightarrow> bool) \<Rightarrow> 's config \<Rightarrow> bool" where
  "wp exec p Q E \<sigma> = (case run exec p \<sigma> of (Inl e, \<sigma>') \<Rightarrow> E e \<sigma>' | (Inr a, \<sigma>') \<Rightarrow> Q a \<sigma>')"

lemma wp_Ret [simp]: "wp exec (Ret a) Q E = Q a"
  by (simp add: wp_def fun_eq_iff)

lemma wp_Raise [simp]: "wp exec (Raise e) Q E = E e"
  by (simp add: wp_def fun_eq_iff)

lemma wp_Step: "wp exec (Step c k) Q E (s, l) = (case exec c s of (r, s') \<Rightarrow> wp exec (k r) Q E (s', l @ [c]))"
  by (simp add: wp_def split: prod.splits)

lemma wp_bindP [simp]: "wp exec (bindP p f) Q E \<sigma> = wp exec p (\<lambda>a \<sigma>'. wp exec (f a) Q E \<sigma>') E \<sigma>"
  by (auto simp: wp_def run_bindP split: prod.splits sum.splits)

lemma wp_seqP [simp]: "wp exec (seqP p q) Q E \<sigma> = wp exec p (\<lambda>_ \<sigma>'. wp exec q Q E \<sigma>') E \<sigma>"
  by (simp add: seqP_def)

lemma wp_catchP [simp]: "wp exec (catchP p h) Q E \<sigma> = wp exec p Q (\<lambda>e \<sigma>'. wp exec (h e) Q E \<sigma>') \<sigma>"
  by (auto simp: wp_def run_catchP split: prod.splits sum.splits)

lemma wp_whenP [simp]: "wp exec (whenP b p) Q E \<sigma> = (if b then wp exec p Q E \<sigma> else Q () \<sigma>)"
  by (simp add: whenP_def)

lemma wp_finallyP:
  "wp exec (finallyP p q) Q E \<sigma> =
     wp exec p (\<lambda>a \<sigma>'. wp exec q (\<lambda>_. Q a) E \<sigma>') (\<lambda>e \<sigma>'. wp exec q (\<lambda>_. E e) E \<sigma>') \<sigma>"
  by (simp add: finallyP_def)

lemma wp_mono:
  "wp exec p Q E \<sigma> \<Longrightarrow> (\<And>a \<sigma>'. Q a \<sigma>' \<Longrightarrow> Q' a \<sigma>') \<Longrightarrow> (\<And>e \<sigma>'. E e \<sigma>' \<Longrightarrow> E' e \<sigma>') \<Longrightarrow>
   wp exec p Q' E' \<sigma>"
  by (auto simp: wp_def split: prod.splits sum.splits)

lemma wp_conj:
  "wp exec p Q E \<sigma> \<Longrightarrow> wp exec p Q' E' \<sigma> \<Longrightarrow>
   wp exec p (\<lambda>a \<sigma>'. Q a \<sigma>' \<and> Q' a \<sigma>') (\<lambda>e \<sigma>'. E e \<sigma>' \<and> E' e \<sigma>') \<sigma>"
  by (auto simp: wp_def split: prod.splits sum.splits)

lemma wp_forP_inv:
  assumes "\<And>x \<sigma>'. x \<in> set xs \<Longrightarrow> I \<sigma>' \<Longrightarrow> wp exec (f x) (\<lambda>_. I) E \<sigma>'" and "I \<sigma>"
  shows "wp exec (forP xs f) (\<lambda>_. I) E \<sigma>"
  using assms
proof (induction xs arbitrary: \<sigma>)
  case (Cons x xs)
  have "wp exec (f x) (\<lambda>_. I) E \<sigma>"
    using Cons.prems by simp
  then show ?case
    using Cons.IH Cons.prems(1) by (auto intro: wp_mono)
qed simp

lemma wp_foldP_inv:
  assumes "\<And>ys x zs acc \<sigma>'. xs = ys @ x # zs \<Longrightarrow> I ys acc \<sigma>' \<Longrightarrow> wp exec (f acc x) (\<lambda>acc'. I (ys @ [x]) acc') E \<sigma>'"
    and "I [] a \<sigma>"
  shows "wp exec (foldP f a xs) (\<lambda>acc. I xs acc) E \<sigma>"
proof -
  have "wp exec (foldP f acc zs) (\<lambda>acc. I (ys @ zs) acc) E \<sigma>'"
    if "xs = ys @ zs" "I ys acc \<sigma>'" for ys zs acc \<sigma>'
    using that
  proof (induction zs arbitrary: ys acc \<sigma>')
    case (Cons x zs)
    have "wp exec (f acc x) (\<lambda>acc'. I (ys @ [x]) acc') E \<sigma>'"
      using assms(1) Cons.prems by blast
    then have "wp exec (f acc x) (\<lambda>acc'. wp exec (foldP f acc' zs) (\<lambda>acc. I ((ys @ [x]) @ zs) acc) E) E \<sigma>'"
      by (rule wp_mono) (use Cons.IH [of "ys @ [x]"] Cons.prems(1) in auto)
    then show ?case by simp
  qed simp
  from this [of "[]" xs a \<sigma>] assms(2) show ?thesis by simp
qed

text \<open>A program whose every error is caught never raises.\<close>

lemma wp_caught:
  "(\<And>a \<sigma>'. Q a \<sigma>') \<Longrightarrow> wp exec (catchP p (\<lambda>_. Ret d)) Q E \<sigma>"
  unfolding wp_catchP by (simp add: wp_def split: prod.splits sum.splits)

text \<open>From a weakest precondition to the result, the final state and the commands of a run.\<close>

lemma wp_result:
  assumes "wp exec p Q E (s, [])"
  shows "(\<exists>a. result exec p s = Inr a \<and> Q a (final exec p s, issued exec p s))
       \<or> (\<exists>e. result exec p s = Inl e \<and> E e (final exec p s, issued exec p s))"
  using assms by (cases "run exec p (s, [])")
    (auto simp: wp_def result_def final_def issued_def split: sum.splits)

lemma wp_total:
  assumes "wp exec p Q (\<lambda>_ _. False) (s, [])"
  obtains a where "result exec p s = Inr a" "Q a (final exec p s, issued exec p s)"
  using wp_result [OF assms] by auto


section \<open>What a run sends\<close>

fun sent :: "cmd list \<Rightarrow> (key \<times> string) list" where
  "sent [] = []"
| "sent (Xadd k d # cs) = (k, d) # sent cs"
| "sent (_ # cs) = sent cs"

lemma sent_append [simp]: "sent (a @ b) = sent a @ sent b"
  by (induction a rule: sent.induct) auto


section \<open>What the code relies on: the laws of the server\<close>

text \<open>
  The view of a keyspace: for each key the string it holds, the fields of its
  hash, the members of its set, the scores of its sorted set. An absent key and
  an empty container look the same. Streams are written and acknowledged but
  never read through this interface; the commands of a run say what was sent.
\<close>

record view =
  v_str :: "key \<Rightarrow> string option"
  v_hash :: "key \<Rightarrow> string \<Rightarrow> string option"
  v_set :: "key \<Rightarrow> string set"
  v_zset :: "key \<Rightarrow> string \<Rightarrow> int option"

definition clear_key :: "key \<Rightarrow> view \<Rightarrow> view" where
  "clear_key k v = \<lparr>v_str = (v_str v)(k := None), v_hash = (v_hash v)(k := Map.empty),
     v_set = (v_set v)(k := {}), v_zset = (v_zset v)(k := Map.empty)\<rparr>"

definition put_str :: "key \<Rightarrow> string \<Rightarrow> view \<Rightarrow> view" where
  "put_str k x v = v_str_update (\<lambda>m. m(k := Some x)) (clear_key k v)"

definition put_field :: "key \<Rightarrow> string \<Rightarrow> string \<Rightarrow> view \<Rightarrow> view" where
  "put_field k f x v = v\<lparr>v_hash := (v_hash v)(k := (v_hash v k)(f \<mapsto> x))\<rparr>"

definition drop_field :: "key \<Rightarrow> string \<Rightarrow> view \<Rightarrow> view" where
  "drop_field k f v = v\<lparr>v_hash := (v_hash v)(k := (v_hash v k)(f := None))\<rparr>"

definition set_members :: "key \<Rightarrow> string set \<Rightarrow> view \<Rightarrow> view" where
  "set_members k ms v = v\<lparr>v_set := (v_set v)(k := ms)\<rparr>"

definition set_scores :: "key \<Rightarrow> (string \<Rightarrow> int option) \<Rightarrow> view \<Rightarrow> view" where
  "set_scores k z v = v\<lparr>v_zset := (v_zset v)(k := z)\<rparr>"

lemma view_simps [simp]:
  "v_str (clear_key k v) = (v_str v)(k := None)" "v_hash (clear_key k v) = (v_hash v)(k := Map.empty)"
  "v_set (clear_key k v) = (v_set v)(k := {})" "v_zset (clear_key k v) = (v_zset v)(k := Map.empty)"
  "v_str (put_str k x v) = (v_str v)(k := Some x)" "v_hash (put_str k x v) = (v_hash v)(k := Map.empty)"
  "v_set (put_str k x v) = (v_set v)(k := {})" "v_zset (put_str k x v) = (v_zset v)(k := Map.empty)"
  "v_str (put_field k f x v) = v_str v" "v_hash (put_field k f x v) = (v_hash v)(k := (v_hash v k)(f \<mapsto> x))"
  "v_set (put_field k f x v) = v_set v" "v_zset (put_field k f x v) = v_zset v"
  "v_str (drop_field k f v) = v_str v" "v_hash (drop_field k f v) = (v_hash v)(k := (v_hash v k)(f := None))"
  "v_set (drop_field k f v) = v_set v" "v_zset (drop_field k f v) = v_zset v"
  "v_str (set_members k ms v) = v_str v" "v_hash (set_members k ms v) = v_hash v"
  "v_set (set_members k ms v) = (v_set v)(k := ms)" "v_zset (set_members k ms v) = v_zset v"
  "v_str (set_scores k z v) = v_str v" "v_hash (set_scores k z v) = v_hash v"
  "v_set (set_scores k z v) = v_set v" "v_zset (set_scores k z v) = (v_zset v)(k := z)"
  by (simp_all add: clear_key_def put_str_def put_field_def drop_field_def set_members_def set_scores_def)

text \<open>
  `redis_law c v N t r v'`: from a keyspace that looks like `v`, at
  time `t`, the command `c` may answer `r` and leave
  `v'`. `N` holds the keys that may carry a value other than a
  string (or an emptied container that still counts as existing), which is what
  EXISTS, EXPIRE and SET NX depend on beyond the strings. SMEMBERS and HGETALL
  answer in any order, ZRANGEBYSCORE by score.
\<close>

definition range_of :: "view \<Rightarrow> key \<Rightarrow> int \<Rightarrow> int \<Rightarrow> (string \<times> int) set" where
  "range_of v k lo hi = {(m, sc). v_zset v k m = Some sc \<and> lo \<le> sc \<and> sc \<le> hi}"

definition from_score :: "view \<Rightarrow> key \<Rightarrow> int \<Rightarrow> (string \<times> int) set" where
  "from_score v k lo = {(m, sc). v_zset v k m = Some sc \<and> lo \<le> sc}"

definition all_scores :: "view \<Rightarrow> key \<Rightarrow> (string \<times> int) set" where
  "all_scores v k = {(m, sc). v_zset v k m = Some sc}"

fun redis_law :: "cmd \<Rightarrow> view \<Rightarrow> key set \<Rightarrow> int \<Rightarrow> reply \<Rightarrow> view \<Rightarrow> bool" where
  "redis_law (Get k) v N t r v' =
     (v' = v \<and> r = (case v_str v k of None \<Rightarrow> RNil | Some x \<Rightarrow> RBulk x))"
| "redis_law (SetC k x ttl nx) v N t r v' =
     (if nx \<and> v_str v k \<noteq> None then r = RNil \<and> v' = v
      else if nx \<and> k \<in> N then r = RNil \<and> v' = v \<or> r = ROk \<and> v' = put_str k x v
      else r = ROk \<and> v' = put_str k x v)"
| "redis_law (Del k) v N t r v' = (v' = clear_key k v)"
| "redis_law (Exists k) v N t r v' =
     (v' = v \<and> (\<exists>n. r = RInt n \<and> (v_str v k \<noteq> None \<longrightarrow> n \<noteq> 0) \<and> (v_str v k = None \<and> k \<notin> N \<longrightarrow> n = 0)))"
| "redis_law (Expire k ttl) v N t r v' =
     (v' = v \<and> (r = RInt 0 \<or> r = RInt 1) \<and> (v_str v k \<noteq> None \<longrightarrow> r = RInt 1)
      \<and> (v_str v k = None \<and> k \<notin> N \<longrightarrow> r = RInt 0))"
| "redis_law (Hset k f x) v N t r v' = (v' = put_field k f x v)"
| "redis_law (Hget k f) v N t r v' =
     (v' = v \<and> r = (case v_hash v k f of None \<Rightarrow> RNil | Some x \<Rightarrow> RBulk x))"
| "redis_law (Hgetall k) v N t r v' =
     (v' = v \<and> (\<exists>ps. r = RPairs ps \<and> distinct (List.map fst ps) \<and> map_of ps = v_hash v k))"
| "redis_law (Hincrby k f n) v N t r v' =
     (\<exists>x. v' = put_field k f x v \<and>
        (\<forall>m. (v_hash v k f = None \<and> m = 0) \<or> v_hash v k f = Some (int_str m) \<longrightarrow>
           r = RInt (m + n) \<and> x = int_str (m + n)))"
| "redis_law (Sadd k m) v N t r v' = (v' = set_members k (insert m (v_set v k)) v)"
| "redis_law (Srem k m) v N t r v' = (v' = set_members k (v_set v k - {m}) v)"
| "redis_law (Smembers k) v N t r v' =
     (v' = v \<and> (\<exists>xs. r = RList xs \<and> distinct xs \<and> set xs = v_set v k))"
| "redis_law (Sismember k m) v N t r v' = (v' = v \<and> r = RInt (if m \<in> v_set v k then 1 else 0))"
| "redis_law (Zadd k sc m) v N t r v' = (v' = set_scores k ((v_zset v k)(m \<mapsto> sc)) v)"
| "redis_law (Zrem k m) v N t r v' =
     (v' = set_scores k ((v_zset v k)(m := None)) v \<and> r = RInt (if v_zset v k m = None then 0 else 1))"
| "redis_law (Zrangebyscore k lo hi n) v N t r v' =
     (v' = v \<and> (\<exists>full. r = RPairs (List.map (\<lambda>(m, sc). (m, int_str sc)) (take n full))
        \<and> distinct (List.map fst full) \<and> sorted (List.map snd full) \<and> set full = range_of v k lo hi))"
| "redis_law (Zremrangebyscore k lo hi) v N t r v' =
     (v' = set_scores k (\<lambda>m. case v_zset v k m of None \<Rightarrow> None
        | Some sc \<Rightarrow> if lo \<le> sc \<and> sc \<le> hi then None else Some sc) v
      \<and> r = RInt (int (card (range_of v k lo hi))))"
| "redis_law (Xadd k d) v N t r v' = (v' = v)"
| "redis_law (Hdel k f) v N t r v' = (v' = drop_field k f v)"
| "redis_law (Hmget k fs) v N t r v' = (v' = v \<and> r = ROpts (List.map (v_hash v k) fs))"
| "redis_law (Zfrom k lo) v N t r v' =
     (v' = v \<and> (\<exists>full. r = RList (List.map fst full) \<and> distinct (List.map fst full) \<and> sorted (List.map snd full)
        \<and> set full = from_score v k lo))"
| "redis_law (Ztail k n) v N t r v' =
     (v' = v \<and> (\<exists>full. r = RList (List.map fst (drop (length full - n) full)) \<and> distinct (List.map fst full)
        \<and> sorted (List.map snd full) \<and> set full = all_scores v k))"
| "redis_law (Zremupto k hi) v N t r v' =
     (v' = set_scores k (\<lambda>m. case v_zset v k m of None \<Rightarrow> None | Some sc \<Rightarrow> if sc \<le> hi then None else Some sc) v)"
| "redis_law (Rpush k x) v N t r v' = (v' = v)"
| "redis_law (Xlen k) v N t r v' = (v' = v \<and> (\<exists>n. r = RInt n \<and> 0 \<le> n))"
| "redis_law (Xack k g i) v N t r v' = (v' = v)"
| "redis_law Now v N t r v' = (v' = v \<and> r = RInt t)"
| "redis_law Uuid v N t r v' =
     (v' = v \<and> (\<exists>u. r = RBulk u \<and> length (filter (\<lambda>c. c \<noteq> CHR ''-'') u) = 32))"
| "redis_law (Sleep ms) v N t r v' = (v' = v)"

text \<open>The keys a command may give a value other than a string.\<close>

fun created :: "cmd \<Rightarrow> key set" where
  "created (Hset k f x) = {k}"
| "created (Hincrby k f n) = {k}"
| "created (Sadd k m) = {k}"
| "created (Zadd k sc m) = {k}"
| "created (Xadd k d) = {k}"
| "created (Rpush k x) = {k}"
| "created _ = {}"

text \<open>A life time of zero seconds is refused by the server.\<close>

fun good_cmd :: "cmd \<Rightarrow> bool" where
  "good_cmd (SetC k x ttl nx) = (ttl \<noteq> Some 0)"
| "good_cmd (Expire k ttl) = (ttl \<noteq> 0)"
| "good_cmd _ = True"

locale redis_server =
  fixes exec :: "cmd \<Rightarrow> 's \<Rightarrow> answer \<times> 's"
    and kv :: "'s \<Rightarrow> view"
    and oth :: "'s \<Rightarrow> key set"
    and clk :: "'s \<Rightarrow> int"
  assumes answered: "exec c s = (Inr r, s') \<Longrightarrow> good_cmd c \<Longrightarrow>
      redis_law c (kv s) (oth s) (clk s) r (kv s')"
    and refused: "exec c s = (Inl e, s') \<Longrightarrow> good_cmd c \<Longrightarrow>
      kv s' = kv s \<or> (\<exists>r. redis_law c (kv s) (oth s) (clk s) r (kv s'))"
    and grows: "exec c s = (a, s') \<Longrightarrow> good_cmd c \<Longrightarrow> oth s' \<subseteq> oth s \<union> created c"
    and clock: "exec c s = (a, s') \<Longrightarrow> good_cmd c \<Longrightarrow> clk s \<le> clk s'"
begin

text \<open>One command, that may be refused.\<close>

lemma wp_cmdP_any:
  assumes "good_cmd c"
    and "\<And>r s'. redis_law c (kv s) (oth s) (clk s) r (kv s') \<Longrightarrow> oth s' \<subseteq> oth s \<union> created c \<Longrightarrow>
           clk s \<le> clk s' \<Longrightarrow> Q (f r) (s', l @ [c])"
    and "\<And>e s'. kv s' = kv s \<or> (\<exists>r. redis_law c (kv s) (oth s) (clk s) r (kv s')) \<Longrightarrow>
           oth s' \<subseteq> oth s \<union> created c \<Longrightarrow> clk s \<le> clk s' \<Longrightarrow> E e (s', l @ [c])"
  shows "wp exec (cmdP c f) Q E (s, l)"
  using assms answered [of c s] refused [of c s] grows [of c s] clock [of c s]
  by (auto simp: cmdP_def wp_Step split: prod.splits sum.splits)

end

text \<open>A server that answers: what a run does when the connection holds.\<close>

locale redis_available = redis_server +
  assumes available: "good_cmd c \<Longrightarrow> \<exists>r s'. exec c s = (Inr r, s')"
begin

lemma wp_cmdP:
  assumes "good_cmd c"
    and "\<And>r s'. redis_law c (kv s) (oth s) (clk s) r (kv s') \<Longrightarrow> oth s' \<subseteq> oth s \<union> created c \<Longrightarrow>
           clk s \<le> clk s' \<Longrightarrow> Q (f r) (s', l @ [c])"
  shows "wp exec (cmdP c f) Q E (s, l)"
proof -
  obtain r s' where "exec c s = (Inr r, s')" using available [OF assms(1)] by blast
  then show ?thesis
    using assms answered [of c s r s'] grows [of c s _ s'] clock [of c s _ s']
    by (simp add: cmdP_def wp_Step)
qed

text \<open>The rules for the commands, each with what the code makes of the answer.\<close>

lemma wp_getP:
  "(\<And>s'. kv s' = kv s \<Longrightarrow> oth s' \<subseteq> oth s \<Longrightarrow> clk s \<le> clk s' \<Longrightarrow> Q (v_str (kv s) k) (s', l @ [Get k])) \<Longrightarrow>
   wp exec (getP k) Q E (s, l)"
  unfolding getP_def by (rule wp_cmdP) (auto simp: as_bulk_def split: option.splits)

lemma wp_setP:
  "ttl \<noteq> Some 0 \<Longrightarrow>
   (\<And>s'. kv s' = put_str k x (kv s) \<Longrightarrow> oth s' \<subseteq> oth s \<Longrightarrow> clk s \<le> clk s' \<Longrightarrow>
      Q True (s', l @ [SetC k x ttl False])) \<Longrightarrow>
   wp exec (setP k x ttl False) Q E (s, l)"
  unfolding setP_def by (rule wp_cmdP) auto

lemma wp_setP_nx:
  "ttl \<noteq> Some 0 \<Longrightarrow> k \<notin> oth s \<Longrightarrow>
   (\<And>s'. kv s' = (if v_str (kv s) k = None then put_str k x (kv s) else kv s) \<Longrightarrow> oth s' \<subseteq> oth s \<Longrightarrow>
      clk s \<le> clk s' \<Longrightarrow> Q (v_str (kv s) k = None) (s', l @ [SetC k x ttl True])) \<Longrightarrow>
   wp exec (setP k x ttl True) Q E (s, l)"
  unfolding setP_def by (rule wp_cmdP) (auto split: if_splits)

lemma wp_setP_nx_any:
  "ttl \<noteq> Some 0 \<Longrightarrow>
   (\<And>s' b. b \<Longrightarrow> v_str (kv s) k = None \<Longrightarrow> kv s' = put_str k x (kv s) \<Longrightarrow> oth s' \<subseteq> oth s \<Longrightarrow> clk s \<le> clk s' \<Longrightarrow>
      Q b (s', l @ [SetC k x ttl True])) \<Longrightarrow>
   (\<And>s' b. \<not> b \<Longrightarrow> kv s' = kv s \<Longrightarrow> oth s' \<subseteq> oth s \<Longrightarrow> clk s \<le> clk s' \<Longrightarrow>
      Q b (s', l @ [SetC k x ttl True])) \<Longrightarrow>
   wp exec (setP k x ttl True) Q E (s, l)"
  unfolding setP_def by (rule wp_cmdP) (auto split: if_splits)

lemma wp_delP:
  "(\<And>s'. kv s' = clear_key k (kv s) \<Longrightarrow> oth s' \<subseteq> oth s \<Longrightarrow> clk s \<le> clk s' \<Longrightarrow> Q () (s', l @ [Del k])) \<Longrightarrow>
   wp exec (delP k) Q E (s, l)"
  unfolding delP_def by (rule wp_cmdP) auto

lemma wp_existsP:
  assumes "\<And>s' b. kv s' = kv s \<Longrightarrow> oth s' \<subseteq> oth s \<Longrightarrow> clk s \<le> clk s' \<Longrightarrow>
      (v_str (kv s) k \<noteq> None \<longrightarrow> b) \<Longrightarrow> (k \<notin> oth s \<longrightarrow> b = (v_str (kv s) k \<noteq> None)) \<Longrightarrow>
      Q b (s', l @ [Exists k])"
  shows "wp exec (existsP k) Q E (s, l)"
  unfolding existsP_def
proof (rule wp_cmdP)
  fix r s'
  assume law: "redis_law (Exists k) (kv s) (oth s) (clk s) r (kv s')"
    and "oth s' \<subseteq> oth s \<union> created (Exists k)" "clk s \<le> clk s'"
  then obtain n where "r = RInt n" "v_str (kv s) k \<noteq> None \<longrightarrow> n \<noteq> 0"
    "v_str (kv s) k = None \<and> k \<notin> oth s \<longrightarrow> n = 0"
    by auto
  with law \<open>oth s' \<subseteq> oth s \<union> created (Exists k)\<close> \<open>clk s \<le> clk s'\<close>
  show "Q (as_int r \<noteq> 0) (s', l @ [Exists k])"
    by (intro assms) (auto simp: as_int_def)
qed simp

lemma wp_expireP:
  "t \<noteq> 0 \<Longrightarrow> (\<And>s' n. kv s' = kv s \<Longrightarrow> oth s' \<subseteq> oth s \<Longrightarrow> clk s \<le> clk s' \<Longrightarrow>
      (v_str (kv s) k \<noteq> None \<longrightarrow> n = 1) \<Longrightarrow> (v_str (kv s) k = None \<and> k \<notin> oth s \<longrightarrow> n = 0) \<Longrightarrow>
      Q n (s', l @ [Expire k t])) \<Longrightarrow>
   wp exec (expireP k t) Q E (s, l)"
  unfolding expireP_def by (rule wp_cmdP) (auto simp: as_int_def)

lemma wp_hsetP:
  "(\<And>s'. kv s' = put_field k f x (kv s) \<Longrightarrow> oth s' \<subseteq> insert k (oth s) \<Longrightarrow> clk s \<le> clk s' \<Longrightarrow>
      Q () (s', l @ [Hset k f x])) \<Longrightarrow>
   wp exec (hsetP k f x) Q E (s, l)"
  unfolding hsetP_def by (rule wp_cmdP) auto

lemma wp_hgetP:
  "(\<And>s'. kv s' = kv s \<Longrightarrow> oth s' \<subseteq> oth s \<Longrightarrow> clk s \<le> clk s' \<Longrightarrow> Q (v_hash (kv s) k f) (s', l @ [Hget k f])) \<Longrightarrow>
   wp exec (hgetP k f) Q E (s, l)"
  unfolding hgetP_def by (rule wp_cmdP) (auto simp: as_bulk_def split: option.splits)

lemma wp_hgetallP:
  "(\<And>s' ps. kv s' = kv s \<Longrightarrow> oth s' \<subseteq> oth s \<Longrightarrow> clk s \<le> clk s' \<Longrightarrow> distinct (List.map fst ps) \<Longrightarrow>
      map_of ps = v_hash (kv s) k \<Longrightarrow> Q ps (s', l @ [Hgetall k])) \<Longrightarrow>
   wp exec (hgetallP k) Q E (s, l)"
  unfolding hgetallP_def by (rule wp_cmdP) (auto simp: as_pairs_def)

lemma wp_hincrbyP:
  "(v_hash (kv s) k f = None \<and> m = 0) \<or> v_hash (kv s) k f = Some (int_str m) \<Longrightarrow>
   (\<And>s'. kv s' = put_field k f (int_str (m + n)) (kv s) \<Longrightarrow> oth s' \<subseteq> insert k (oth s) \<Longrightarrow> clk s \<le> clk s' \<Longrightarrow>
      Q (m + n) (s', l @ [Hincrby k f n])) \<Longrightarrow>
   wp exec (hincrbyP k f n) Q E (s, l)"
  unfolding hincrbyP_def by (rule wp_cmdP) (auto simp: as_int_def)

lemma wp_saddP:
  "(\<And>s'. kv s' = set_members k (insert m (v_set (kv s) k)) (kv s) \<Longrightarrow> oth s' \<subseteq> insert k (oth s) \<Longrightarrow>
      clk s \<le> clk s' \<Longrightarrow> Q () (s', l @ [Sadd k m])) \<Longrightarrow>
   wp exec (saddP k m) Q E (s, l)"
  unfolding saddP_def by (rule wp_cmdP) auto

lemma wp_sremP:
  "(\<And>s'. kv s' = set_members k (v_set (kv s) k - {m}) (kv s) \<Longrightarrow> oth s' \<subseteq> oth s \<Longrightarrow>
      clk s \<le> clk s' \<Longrightarrow> Q () (s', l @ [Srem k m])) \<Longrightarrow>
   wp exec (sremP k m) Q E (s, l)"
  unfolding sremP_def by (rule wp_cmdP) auto

lemma wp_smembersP:
  "(\<And>s' xs. kv s' = kv s \<Longrightarrow> oth s' \<subseteq> oth s \<Longrightarrow> clk s \<le> clk s' \<Longrightarrow> distinct xs \<Longrightarrow> set xs = v_set (kv s) k \<Longrightarrow>
      Q xs (s', l @ [Smembers k])) \<Longrightarrow>
   wp exec (smembersP k) Q E (s, l)"
  unfolding smembersP_def by (rule wp_cmdP) (auto simp: as_list_def)

lemma wp_sismemberP:
  "(\<And>s'. kv s' = kv s \<Longrightarrow> oth s' \<subseteq> oth s \<Longrightarrow> clk s \<le> clk s' \<Longrightarrow> Q (m \<in> v_set (kv s) k) (s', l @ [Sismember k m])) \<Longrightarrow>
   wp exec (sismemberP k m) Q E (s, l)"
  unfolding sismemberP_def by (rule wp_cmdP) (auto simp: as_int_def)

lemma wp_zaddP:
  "(\<And>s'. kv s' = set_scores k ((v_zset (kv s) k)(m \<mapsto> sc)) (kv s) \<Longrightarrow> oth s' \<subseteq> insert k (oth s) \<Longrightarrow>
      clk s \<le> clk s' \<Longrightarrow> Q () (s', l @ [Zadd k sc m])) \<Longrightarrow>
   wp exec (zaddP k sc m) Q E (s, l)"
  unfolding zaddP_def by (rule wp_cmdP) auto

lemma wp_zremP:
  "(\<And>s'. kv s' = set_scores k ((v_zset (kv s) k)(m := None)) (kv s) \<Longrightarrow> oth s' \<subseteq> oth s \<Longrightarrow>
      clk s \<le> clk s' \<Longrightarrow> Q (if v_zset (kv s) k m = None then 0 else 1) (s', l @ [Zrem k m])) \<Longrightarrow>
   wp exec (zremP k m) Q E (s, l)"
  unfolding zremP_def by (rule wp_cmdP) (auto simp: as_int_def)

lemma wp_zrangebyscoreP:
  "(\<And>s' full. kv s' = kv s \<Longrightarrow> oth s' \<subseteq> oth s \<Longrightarrow> clk s \<le> clk s' \<Longrightarrow> distinct (List.map fst full) \<Longrightarrow>
      sorted (List.map snd full) \<Longrightarrow> set full = range_of (kv s) k lo hi \<Longrightarrow>
      Q (List.map (\<lambda>(m, sc). (m, int_str sc)) (take n full)) (s', l @ [Zrangebyscore k lo hi n])) \<Longrightarrow>
   wp exec (zrangebyscoreP k lo hi n) Q E (s, l)"
  unfolding zrangebyscoreP_def by (rule wp_cmdP) (auto simp: as_pairs_def)

lemma wp_zremrangebyscoreP:
  "(\<And>s'. kv s' = set_scores k (\<lambda>m. case v_zset (kv s) k m of None \<Rightarrow> None
        | Some sc \<Rightarrow> if lo \<le> sc \<and> sc \<le> hi then None else Some sc) (kv s) \<Longrightarrow> oth s' \<subseteq> oth s \<Longrightarrow> clk s \<le> clk s' \<Longrightarrow>
      Q (int (card (range_of (kv s) k lo hi))) (s', l @ [Zremrangebyscore k lo hi])) \<Longrightarrow>
   wp exec (zremrangebyscoreP k lo hi) Q E (s, l)"
  unfolding zremrangebyscoreP_def by (rule wp_cmdP) (auto simp: as_int_def)

lemma wp_xaddP:
  "(\<And>s'. kv s' = kv s \<Longrightarrow> oth s' \<subseteq> insert k (oth s) \<Longrightarrow> clk s \<le> clk s' \<Longrightarrow> Q () (s', l @ [Xadd k d])) \<Longrightarrow>
   wp exec (xaddP k d) Q E (s, l)"
  unfolding xaddP_def by (rule wp_cmdP) auto

lemma wp_hdelP:
  "(\<And>s'. kv s' = drop_field k f (kv s) \<Longrightarrow> oth s' \<subseteq> oth s \<Longrightarrow> clk s \<le> clk s' \<Longrightarrow> Q () (s', l @ [Hdel k f])) \<Longrightarrow>
   wp exec (hdelP k f) Q E (s, l)"
  unfolding hdelP_def by (rule wp_cmdP) auto

lemma wp_hmgetP:
  "(\<And>s'. kv s' = kv s \<Longrightarrow> oth s' \<subseteq> oth s \<Longrightarrow> clk s \<le> clk s' \<Longrightarrow> Q (List.map (v_hash (kv s) k) fs) (s', l @ [Hmget k fs])) \<Longrightarrow>
   wp exec (hmgetP k fs) Q E (s, l)"
  unfolding hmgetP_def by (rule wp_cmdP) (auto simp: as_opts_def)

lemma wp_zfromP:
  "(\<And>s' full. kv s' = kv s \<Longrightarrow> oth s' \<subseteq> oth s \<Longrightarrow> clk s \<le> clk s' \<Longrightarrow> distinct (List.map fst full) \<Longrightarrow>
      sorted (List.map snd full) \<Longrightarrow> set full = from_score (kv s) k lo \<Longrightarrow> Q (List.map fst full) (s', l @ [Zfrom k lo])) \<Longrightarrow>
   wp exec (zfromP k lo) Q E (s, l)"
  unfolding zfromP_def by (rule wp_cmdP) (auto simp: as_list_def)

lemma wp_ztailP:
  "(\<And>s' full. kv s' = kv s \<Longrightarrow> oth s' \<subseteq> oth s \<Longrightarrow> clk s \<le> clk s' \<Longrightarrow> distinct (List.map fst full) \<Longrightarrow>
      sorted (List.map snd full) \<Longrightarrow> set full = all_scores (kv s) k \<Longrightarrow>
      Q (List.map fst (drop (length full - n) full)) (s', l @ [Ztail k n])) \<Longrightarrow>
   wp exec (ztailP k n) Q E (s, l)"
  unfolding ztailP_def by (rule wp_cmdP) (auto simp: as_list_def)

lemma wp_zremuptoP:
  "(\<And>s'. kv s' = set_scores k (\<lambda>m. case v_zset (kv s) k m of None \<Rightarrow> None
        | Some sc \<Rightarrow> if sc \<le> hi then None else Some sc) (kv s) \<Longrightarrow> oth s' \<subseteq> oth s \<Longrightarrow> clk s \<le> clk s' \<Longrightarrow>
      Q () (s', l @ [Zremupto k hi])) \<Longrightarrow>
   wp exec (zremuptoP k hi) Q E (s, l)"
  unfolding zremuptoP_def by (rule wp_cmdP) auto

lemma wp_rpushP:
  "(\<And>s'. kv s' = kv s \<Longrightarrow> oth s' \<subseteq> insert k (oth s) \<Longrightarrow> clk s \<le> clk s' \<Longrightarrow> Q () (s', l @ [Rpush k x])) \<Longrightarrow>
   wp exec (rpushP k x) Q E (s, l)"
  unfolding rpushP_def by (rule wp_cmdP) auto

lemma wp_xlenP:
  "(\<And>s' n. kv s' = kv s \<Longrightarrow> oth s' \<subseteq> oth s \<Longrightarrow> clk s \<le> clk s' \<Longrightarrow> 0 \<le> n \<Longrightarrow> Q n (s', l @ [Xlen k])) \<Longrightarrow>
   wp exec (xlenP k) Q E (s, l)"
  unfolding xlenP_def by (rule wp_cmdP) (auto simp: as_int_def)

lemma wp_xackP:
  "(\<And>s'. kv s' = kv s \<Longrightarrow> oth s' \<subseteq> oth s \<Longrightarrow> clk s \<le> clk s' \<Longrightarrow> Q () (s', l @ [Xack k g i])) \<Longrightarrow>
   wp exec (xackP k g i) Q E (s, l)"
  unfolding xackP_def by (rule wp_cmdP) auto

lemma wp_nowP:
  "(\<And>s'. kv s' = kv s \<Longrightarrow> oth s' \<subseteq> oth s \<Longrightarrow> clk s \<le> clk s' \<Longrightarrow> Q (clk s) (s', l @ [Now])) \<Longrightarrow>
   wp exec nowP Q E (s, l)"
  unfolding nowP_def by (rule wp_cmdP) (auto simp: as_int_def)

lemma wp_uuidP:
  "(\<And>s' u. kv s' = kv s \<Longrightarrow> oth s' \<subseteq> oth s \<Longrightarrow> clk s \<le> clk s' \<Longrightarrow>
      length (filter (\<lambda>c. c \<noteq> CHR ''-'') u) = 32 \<Longrightarrow> Q u (s', l @ [Uuid])) \<Longrightarrow>
   wp exec uuidP Q E (s, l)"
  unfolding uuidP_def by (rule wp_cmdP) (auto simp: as_bulk_def)

lemma wp_sleepP:
  "(\<And>s'. kv s' = kv s \<Longrightarrow> oth s' \<subseteq> oth s \<Longrightarrow> clk s \<le> clk s' \<Longrightarrow> Q () (s', l @ [Sleep ms])) \<Longrightarrow>
   wp exec (sleepP ms) Q E (s, l)"
  unfolding sleepP_def by (rule wp_cmdP) auto

text \<open>A command inside a pipeline: its answer is dropped.\<close>

lemma wp_Step_ignored:
  "good_cmd c \<Longrightarrow>
   (\<And>r s'. redis_law c (kv s) (oth s) (clk s) r (kv s') \<Longrightarrow> oth s' \<subseteq> oth s \<union> created c \<Longrightarrow>
      clk s \<le> clk s' \<Longrightarrow> Q () (s', l @ [c])) \<Longrightarrow>
   wp exec (Step c (\<lambda>_. Ret ())) Q E (s, l)"
  using available [of c s] answered [of c s] grows [of c s] clock [of c s] by (force simp: wp_Step)

lemma wp_pipeline_Nil [simp]: "wp exec (pipelineP []) Q E \<sigma> = Q () \<sigma>"
  by (simp add: pipelineP_def)

lemma wp_pipeline_Cons:
  "good_cmd c \<Longrightarrow>
   (\<And>r s'. redis_law c (kv s) (oth s) (clk s) r (kv s') \<Longrightarrow> oth s' \<subseteq> oth s \<union> created c \<Longrightarrow>
      clk s \<le> clk s' \<Longrightarrow> wp exec (pipelineP cs) Q E (s', l @ [c])) \<Longrightarrow>
   wp exec (pipelineP (c # cs)) Q E (s, l)"
  unfolding pipelineP_def forP.simps wp_bindP by (rule wp_Step_ignored)

lemmas wp_rules = wp_getP wp_setP wp_setP_nx_any wp_delP wp_existsP wp_expireP wp_hsetP wp_hgetP
  wp_hgetallP wp_saddP wp_sremP wp_smembersP wp_sismemberP wp_zaddP wp_zremP wp_zrangebyscoreP
  wp_zremrangebyscoreP wp_xaddP wp_xackP wp_nowP wp_uuidP wp_sleepP

end

end
