(* ===== verification/Protocol.thy ===== *)
theory Protocol
  imports Effects
begin

text \<open>
  The wire protocol: message headers and commands with their dictionaries
  (src/protocol/message_header.ts, commands.ts, action_type.ts, agent_state.ts)
  and the round trip of each command through its dictionary.

  The fields of a header are strings and its metadata is an object, as
  TypeScript declares them. A dictionary read from the wire is arbitrary JSON:
  an absent or falsy text field is read as the empty string; a truthy one that
  is not a string is read as its text, where the code keeps the value and its
  users print it.
\<close>


section \<open>Agent states and actions\<close>

definition STARTING :: string where "STARTING = ''STARTING''"
definition CANCELLING :: string where "CANCELLING = ''CANCELLING''"
definition CANCELLED :: string where "CANCELLED = ''CANCELLED''"
definition COMPLETED :: string where "COMPLETED = ''COMPLETED''"
definition FAILED :: string where "FAILED = ''FAILED''"
definition RESUMED :: string where "RESUMED = ''RESUMED''"
definition WAITING_AGENT :: string where "WAITING_AGENT = ''WAITING_AGENT''"
definition WAITING_USER :: string where "WAITING_USER = ''WAITING_USER''"
definition QUEUED :: string where "QUEUED = ''QUEUED''"
definition CALLING_AGENT :: string where "CALLING_AGENT = ''CALLING_AGENT''"

lemmas state_defs = STARTING_def CANCELLING_def CANCELLED_def COMPLETED_def FAILED_def RESUMED_def
  WAITING_AGENT_def WAITING_USER_def QUEUED_def CALLING_AGENT_def

definition TERMINAL_STATES :: "string list" where
  "TERMINAL_STATES = [COMPLETED, FAILED, CANCELLED]"

definition isTerminalState :: "string \<Rightarrow> bool" where
  "isTerminalState state = (state \<in> set TERMINAL_STATES)"

lemma isTerminalState_iff: "isTerminalState s \<longleftrightarrow> s = COMPLETED \<or> s = FAILED \<or> s = CANCELLED"
  by (simp add: isTerminalState_def TERMINAL_STATES_def)

definition ASK_AGENT :: string where "ASK_AGENT = ''ASK_AGENT''"
definition RESUME :: string where "RESUME = ''RESUME''"
definition CANCEL_TASK :: string where "CANCEL_TASK = ''CANCEL_TASK''"
definition ASK_USER :: string where "ASK_USER = ''ASK_USER''"
definition SUSPEND_WORKER :: string where "SUSPEND_WORKER = ''SUSPEND_WORKER''"
definition RESUME_WORKER :: string where "RESUME_WORKER = ''RESUME_WORKER''"
definition EVICT_WORKER :: string where "EVICT_WORKER = ''EVICT_WORKER''"

lemmas action_defs = ASK_AGENT_def RESUME_def CANCEL_TASK_def ASK_USER_def SUSPEND_WORKER_def
  RESUME_WORKER_def EVICT_WORKER_def


section \<open>Headers\<close>

record message_header =
  messageId :: string
  sessionId :: string
  traceId :: string
  sourceAgentType :: string
  targetAgentType :: string
  parentMessageId :: string
  taskGroupId :: string
  userCode :: string
  userName :: string
  metadata :: jobj
  traceParentSpanId :: string
  langfuseParentObservationId :: string

text \<open>A header with the defaults of the optional fields.\<close>

definition mk_header :: "string \<Rightarrow> string \<Rightarrow> string \<Rightarrow> message_header" where
  "mk_header m s t = \<lparr>messageId = m, sessionId = s, traceId = t, sourceAgentType = [], targetAgentType = [],
     parentMessageId = [], taskGroupId = [], userCode = [], userName = [], metadata = [],
     traceParentSpanId = [], langfuseParentObservationId = []\<rparr>"

definition header_toDict :: "message_header \<Rightarrow> json" where
  "header_toDict h = JObj [
     (''message_id'', JStr (messageId h)),
     (''session_id'', JStr (sessionId h)),
     (''trace_id'', JStr (traceId h)),
     (''source_agent_type'', JStr (sourceAgentType h)),
     (''target_agent_type'', JStr (targetAgentType h)),
     (''parent_message_id'', JStr (parentMessageId h)),
     (''task_group_id'', JStr (taskGroupId h)),
     (''user_code'', JStr (userCode h)),
     (''user_name'', JStr (userName h)),
     (''metadata'', JObj (ospread [] (metadata h))),
     (''trace_parent_span_id'', JStr (traceParentSpanId h)),
     (''langfuse_parent_observation_id'', JStr (langfuseParentObservationId h))]"

definition text_field :: "json option \<Rightarrow> string" where
  "text_field v = (if opt_truthy v then opt_String v else [])"

text \<open>The first three fields are read as they are; absent ones stay undefined in the code, here empty.\<close>

definition id_field :: "json option \<Rightarrow> string" where
  "id_field v = (case v of None \<Rightarrow> [] | Some x \<Rightarrow> js_String x)"

definition header_fromDict :: "json \<Rightarrow> message_header" where
  "header_fromDict d = \<lparr>
     messageId = id_field (jget d ''message_id''),
     sessionId = id_field (jget d ''session_id''),
     traceId = id_field (jget d ''trace_id''),
     sourceAgentType = (if opt_truthy (jget d ''source_agent_type'')
        then text_field (jget d ''source_agent_type'') else text_field (jget d ''source_agent_id'')),
     targetAgentType = text_field (jget d ''target_agent_type''),
     parentMessageId = text_field (jget d ''parent_message_id''),
     taskGroupId = text_field (jget d ''task_group_id''),
     userCode = text_field (jget d ''user_code''),
     userName = text_field (jget d ''user_name''),
     metadata = ospread [] (as_obj (jget d ''metadata'')),
     traceParentSpanId = text_field (jget d ''trace_parent_span_id''),
     langfuseParentObservationId = text_field (jget d ''langfuse_parent_observation_id'')\<rparr>"

definition wf_header :: "message_header \<Rightarrow> bool" where
  "wf_header h \<longleftrightarrow> wf_obj (metadata h)"

lemma text_field_JStr [simp, js_simps]: "text_field (Some (JStr s)) = s"
  by (simp add: text_field_def)

lemma text_field_None [simp, js_simps]: "text_field None = []"
  by (simp add: text_field_def)

lemma id_field_JStr [simp, js_simps]: "id_field (Some (JStr s)) = s"
  by (simp add: id_field_def)

lemma header_roundtrip: "wf_header h \<Longrightarrow> header_fromDict (header_toDict h) = h"
  by (simp add: header_fromDict_def header_toDict_def wf_header_def)


section \<open>Commands\<close>

text \<open>`hasContent`: null, blank strings and empty arrays are no content.\<close>

definition hasContent :: "json option \<Rightarrow> bool" where
  "hasContent v = (case v of
     None \<Rightarrow> False
   | Some JNull \<Rightarrow> False
   | Some (JStr s) \<Rightarrow> js_trim s \<noteq> []
   | Some (JArr vs) \<Rightarrow> vs \<noteq> []
   | Some _ \<Rightarrow> True)"

datatype command =
    AskAgentCommand (header: message_header) (cmd_content: json) (cmd_waitForReply: bool) (cmd_extraPayload: jobj)
  | ResumeCommand (header: message_header) (cmd_content: json) (cmd_status: string) (cmd_replyData: json)
      (cmd_extraPayload: jobj)
  | CancelTaskCommand (header: message_header) (cmd_targetMessageId: string) (cmd_targetExecutionId: string)
      (cmd_targetWorkerId: string) (cmd_reason: string) (cmd_requestedBy: string) (cmd_cancelMode: string)
  | SuspendWorkerCommand (header: message_header) (cmd_reason: string)
  | ResumeWorkerCommand (header: message_header)
  | EvictWorkerCommand (header: message_header) (cmd_reason: string) (cmd_force: bool)

definition actionType :: "command \<Rightarrow> string" where
  "actionType c = (case c of
     AskAgentCommand _ _ _ _ \<Rightarrow> ASK_AGENT
   | ResumeCommand _ _ _ _ _ \<Rightarrow> RESUME
   | CancelTaskCommand _ _ _ _ _ _ _ \<Rightarrow> CANCEL_TASK
   | SuspendWorkerCommand _ _ \<Rightarrow> SUSPEND_WORKER
   | ResumeWorkerCommand _ \<Rightarrow> RESUME_WORKER
   | EvictWorkerCommand _ _ _ \<Rightarrow> EVICT_WORKER)"

text \<open>The checks of the constructors.\<close>

definition check_AskAgentCommand :: "json \<Rightarrow> js_error option" where
  "check_AskAgentCommand ct =
     (if hasContent (Some ct) then None else Some (JsError ''AskAgentCommand requires non-empty content''))"

definition check_ResumeCommand :: "json \<Rightarrow> string \<Rightarrow> js_error option" where
  "check_ResumeCommand ct st =
     (if st = [] \<and> \<not> hasContent (Some ct) then Some (JsError ''ResumeCommand requires status or content'') else None)"

definition check_CancelTaskCommand :: "string \<Rightarrow> string \<Rightarrow> js_error option" where
  "check_CancelTaskCommand target mode =
     (if target = [] then Some (JsError ''CancelTaskCommand requires targetMessageId'')
      else if mode \<noteq> ''graceful'' \<and> mode \<noteq> ''force''
      then Some (JsError ''CancelTaskCommand cancelMode must be graceful or force'') else None)"

definition check_command :: "command \<Rightarrow> js_error + command" where
  "check_command c =
     (case (case c of
          AskAgentCommand h ct w x \<Rightarrow> check_AskAgentCommand ct
        | ResumeCommand h ct st rd x \<Rightarrow> check_ResumeCommand ct st
        | CancelTaskCommand h tm te tw rs rb cm \<Rightarrow> check_CancelTaskCommand tm cm
        | _ \<Rightarrow> None) of
        Some e \<Rightarrow> Inl e
      | None \<Rightarrow> Inr c)"

text \<open>The bodies the commands write.\<close>

definition extra_entry :: "jobj \<Rightarrow> jobj" where
  "extra_entry x = (if x = [] then [] else [(''extra_payload'', JObj (ospread [] x))])"

definition AskAgentCommand_body :: "json \<Rightarrow> bool \<Rightarrow> jobj \<Rightarrow> jobj" where
  "AskAgentCommand_body ct w x = [(''content'', ct), (''wait_for_reply'', JBool w)] @ extra_entry x"

definition ResumeCommand_body :: "json \<Rightarrow> string \<Rightarrow> json \<Rightarrow> jobj \<Rightarrow> jobj" where
  "ResumeCommand_body ct st rd x =
     [(''content'', ct), (''status'', JStr st), (''reply_data'', rd)] @ extra_entry x"

definition CancelTaskCommand_body :: "string \<Rightarrow> string \<Rightarrow> string \<Rightarrow> string \<Rightarrow> string \<Rightarrow> string \<Rightarrow> jobj" where
  "CancelTaskCommand_body tm te tw rs rb cm =
     [(''target_message_id'', JStr tm), (''target_execution_id'', JStr te), (''target_worker_id'', JStr tw),
      (''reason'', JStr rs), (''requested_by'', JStr rb), (''cancel_mode'', JStr cm)]"

definition SuspendWorkerCommand_body :: "string \<Rightarrow> jobj" where
  "SuspendWorkerCommand_body rs = [(''reason'', JStr rs)]"

definition ResumeWorkerCommand_body :: jobj where
  "ResumeWorkerCommand_body = []"

definition EvictWorkerCommand_body :: "string \<Rightarrow> bool \<Rightarrow> jobj" where
  "EvictWorkerCommand_body rs f = [(''reason'', JStr rs), (''force'', JBool f)]"

definition command_body :: "command \<Rightarrow> jobj" where
  "command_body c = (case c of
     AskAgentCommand h ct w x \<Rightarrow> AskAgentCommand_body ct w x
   | ResumeCommand h ct st rd x \<Rightarrow> ResumeCommand_body ct st rd x
   | CancelTaskCommand h tm te tw rs rb cm \<Rightarrow> CancelTaskCommand_body tm te tw rs rb cm
   | SuspendWorkerCommand h rs \<Rightarrow> SuspendWorkerCommand_body rs
   | ResumeWorkerCommand h \<Rightarrow> ResumeWorkerCommand_body
   | EvictWorkerCommand h rs f \<Rightarrow> EvictWorkerCommand_body rs f)"

definition toDict :: "command \<Rightarrow> json" where
  "toDict c = JObj [(''action_type'', JStr (actionType c)), (''header'', header_toDict (header c)),
     (''body'', JObj (command_body c))]"

text \<open>Reading a dictionary back.\<close>

definition body_of :: "json \<Rightarrow> jobj" where
  "body_of d = ospread [] (as_obj (jget d ''body''))"

definition header_of :: "json \<Rightarrow> message_header" where
  "header_of d = header_fromDict (case jget d ''header'' of None \<Rightarrow> JNull | Some h \<Rightarrow> h)"

definition content_of :: "jobj \<Rightarrow> json" where
  "content_of b = (case oget b ''content'' of None \<Rightarrow> JStr [] | Some v \<Rightarrow> v)"

definition extra_of :: "jobj \<Rightarrow> jobj" where
  "extra_of b = ospread [] (as_obj (oget b ''extra_payload''))"

definition AskAgentCommand_fromBody :: "message_header \<Rightarrow> jobj \<Rightarrow> command" where
  "AskAgentCommand_fromBody h b =
     AskAgentCommand h (content_of b) (opt_truthy (oget b ''wait_for_reply'')) (extra_of b)"

definition ResumeCommand_fromBody :: "message_header \<Rightarrow> jobj \<Rightarrow> command" where
  "ResumeCommand_fromBody h b =
     ResumeCommand h (content_of b) (text_field (oget b ''status''))
       (js_nullish (oget b ''reply_data'') JNull) (extra_of b)"

definition CancelTaskCommand_fromBody :: "message_header \<Rightarrow> jobj \<Rightarrow> command" where
  "CancelTaskCommand_fromBody h b =
     CancelTaskCommand h (text_field (oget b ''target_message_id''))
       (text_field (oget b ''target_execution_id'')) (text_field (oget b ''target_worker_id''))
       (text_field (oget b ''reason'')) (text_field (oget b ''requested_by''))
       (str_or (text_field (oget b ''cancel_mode'')) ''graceful'')"

definition SuspendWorkerCommand_fromBody :: "message_header \<Rightarrow> jobj \<Rightarrow> command" where
  "SuspendWorkerCommand_fromBody h b = SuspendWorkerCommand h (text_field (oget b ''reason''))"

definition ResumeWorkerCommand_fromBody :: "message_header \<Rightarrow> jobj \<Rightarrow> command" where
  "ResumeWorkerCommand_fromBody h b = ResumeWorkerCommand h"

definition EvictWorkerCommand_fromBody :: "message_header \<Rightarrow> jobj \<Rightarrow> command" where
  "EvictWorkerCommand_fromBody h b =
     EvictWorkerCommand h (text_field (oget b ''reason'')) (opt_truthy (oget b ''force''))"

text \<open>The registry of command constructors, by action type.\<close>

definition getRegisteredCommand :: "string \<Rightarrow> (message_header \<Rightarrow> jobj \<Rightarrow> command) option" where
  "getRegisteredCommand a =
     (if a = ASK_AGENT then Some AskAgentCommand_fromBody
      else if a = RESUME then Some ResumeCommand_fromBody
      else if a = CANCEL_TASK then Some CancelTaskCommand_fromBody
      else if a = SUSPEND_WORKER then Some SuspendWorkerCommand_fromBody
      else if a = RESUME_WORKER then Some ResumeWorkerCommand_fromBody
      else if a = EVICT_WORKER then Some EvictWorkerCommand_fromBody
      else None)"

lemmas command_body_defs = command_body_def AskAgentCommand_body_def ResumeCommand_body_def
  CancelTaskCommand_body_def SuspendWorkerCommand_body_def ResumeWorkerCommand_body_def EvictWorkerCommand_body_def
lemmas from_body_defs = getRegisteredCommand_def AskAgentCommand_fromBody_def ResumeCommand_fromBody_def
  CancelTaskCommand_fromBody_def SuspendWorkerCommand_fromBody_def ResumeWorkerCommand_fromBody_def
  EvictWorkerCommand_fromBody_def
lemmas check_defs = check_command_def check_AskAgentCommand_def check_ResumeCommand_def check_CancelTaskCommand_def

text \<open>
  `commandFromDict` over the commands the module registers. A header that
  is missing or null is the TypeError of reading a property of it.
\<close>

definition commandFromDict :: "json \<Rightarrow> js_error + command" where
  "commandFromDict d =
     (case getRegisteredCommand (opt_String (jget d ''action_type'')) of
        None \<Rightarrow> Inl (JsError (''Unsupported action_type: '' @ opt_String (jget d ''action_type'')))
      | Some fromBody \<Rightarrow>
          if jget d ''header'' = None \<or> jget d ''header'' = Some JNull then Inl TypeError
          else check_command (fromBody (header_of d) (body_of d)))"

text \<open>What `toRedisPayload` puts in the `data` field of a stream entry.\<close>

definition command_payload :: "command \<Rightarrow> string" where
  "command_payload c = json_stringify (toDict c)"

definition parse_payload :: "string \<Rightarrow> js_error + command" where
  "parse_payload s = (case json_parse s of None \<Rightarrow> Inl SyntaxError | Some d \<Rightarrow> commandFromDict d)"

definition injectRuntimePayload :: "jobj \<Rightarrow> command \<Rightarrow> command" where
  "injectRuntimePayload p c = (case c of
     AskAgentCommand h ct w x \<Rightarrow> AskAgentCommand h ct w (ospread x p)
   | ResumeCommand h ct st rd x \<Rightarrow> ResumeCommand h ct st rd (ospread x p)
   | _ \<Rightarrow> c)"

text \<open>A command a constructor accepted, with objects for its payloads.\<close>

fun extra_ok :: "command \<Rightarrow> bool" where
  "extra_ok (AskAgentCommand h ct w x) = wf_obj x"
| "extra_ok (ResumeCommand h ct st rd x) = wf_obj x"
| "extra_ok _ = True"

definition valid_command :: "command \<Rightarrow> bool" where
  "valid_command c \<longleftrightarrow> check_command c = Inr c \<and> wf_header (header c) \<and> extra_ok c"

lemma wf_obj_eval [simp]: "wf_obj []" "wf_obj ((k, v) # ps) = (k \<notin> fst ` set ps \<and> wf_obj ps)"
  by (simp_all add: wf_obj_def)

lemma extra_entry_keys: "fst ` set (extra_entry x) \<subseteq> {''extra_payload''}"
  by (simp add: extra_entry_def)

lemma wf_extra_entry [simp]: "wf_obj (extra_entry x)"
  by (simp add: extra_entry_def)

lemma wf_command_body: "wf_obj (command_body c)"
  using extra_entry_keys by (cases c) (auto simp: command_body_defs)

lemma body_of_toDict: "body_of (toDict c) = command_body c"
  by (simp add: body_of_def toDict_def wf_command_body)

lemma header_of_toDict: "wf_header (header c) \<Longrightarrow> header_of (toDict c) = header c"
  by (simp add: header_of_def toDict_def header_roundtrip)

lemma extra_of_entry [simp]:
  "wf_obj x \<Longrightarrow> ospread [] (as_obj (oget (extra_entry x) ''extra_payload'')) = x"
  by (simp add: extra_entry_def)

lemma registered_roundtrip:
  assumes "valid_command c"
  obtains f where "getRegisteredCommand (actionType c) = Some f" "f (header c) (command_body c) = c"
  using assms
  by (cases c) (auto simp: from_body_defs actionType_def action_defs command_body_defs content_of_def
      extra_of_def valid_command_def check_defs str_or_def split: if_splits)

lemma dict_roundtrip:
  assumes "valid_command c"
  shows "commandFromDict (toDict c) = Inr c"
proof -
  obtain f where f: "getRegisteredCommand (actionType c) = Some f" "f (header c) (command_body c) = c"
    by (rule registered_roundtrip [OF assms])
  have d: "jget (toDict c) ''action_type'' = Some (JStr (actionType c))"
    "jget (toDict c) ''header'' = Some (header_toDict (header c))"
    by (simp_all add: toDict_def)
  have "header_toDict (header c) \<noteq> JNull" by (simp add: header_toDict_def)
  then show ?thesis
    using assms f header_of_toDict [of c] body_of_toDict [of c]
    by (simp add: commandFromDict_def valid_command_def d)
qed

lemma payload_roundtrip:
  "valid_command c \<Longrightarrow> wf_json (toDict c) \<Longrightarrow> parse_payload (command_payload c) = Inr c"
  by (simp add: parse_payload_def command_payload_def json_parse_stringify dict_roundtrip)

end
