(* ===== verification/WaitIndex.thy ===== *)
theory WaitIndex
  imports Keys Protocol
begin

unbundle bit_operations_syntax

text \<open>
  The wait index (src/liveness/wait_index.ts): how a member of the sharded
  sorted set of suspended callers is spelled, how it is rebuilt from a reply,
  and which shard and digest belong to it. Contains the round trip and the
  injectivity of the member encoding, SHA-1 and FNV-1a on machine words, and
  FNV-1a's agreement with arithmetic modulo 2^32.
\<close>


section \<open>Members\<close>

record wait_member =
  wm_session :: string
  wm_parent :: string
  wm_child :: string
  wm_group :: string

definition SEPARATOR :: char where "SEPARATOR = CHR ''|''"
definition ESCAPE :: char where "ESCAPE = CHR 0x5C"

lemma sep_neq_esc [simp]: "SEPARATOR \<noteq> ESCAPE" "ESCAPE \<noteq> SEPARATOR"
  by (simp_all add: SEPARATOR_def ESCAPE_def)

text \<open>`value.split(c).join(by)`.\<close>

definition replace_char :: "char \<Rightarrow> string \<Rightarrow> string \<Rightarrow> string" where
  "replace_char c by s = concat (List.map (\<lambda>x. if x = c then by else [x]) s)"

definition escapeField :: "string \<Rightarrow> string" where
  "escapeField value =
     replace_char SEPARATOR [ESCAPE, SEPARATOR] (replace_char ESCAPE [ESCAPE, ESCAPE] value)"

text \<open>
  The loop of `splitEscaped`, with its variables: the fields so far, the
  current one, and whether the last character was an escape.
\<close>

fun split_loop :: "string list \<Rightarrow> string \<Rightarrow> bool \<Rightarrow> string \<Rightarrow> string list option" where
  "split_loop fs current escaped [] = (if escaped then None else Some (fs @ [current]))"
| "split_loop fs current escaped (c # cs) =
     (if escaped then split_loop fs (current @ [c]) False cs
      else if c = ESCAPE then split_loop fs current True cs
      else if c = SEPARATOR then split_loop (fs @ [current]) [] False cs
      else split_loop fs (current @ [c]) False cs)"

definition splitEscaped :: "string \<Rightarrow> js_error + string list" where
  "splitEscaped encoded = (case split_loop [] [] False encoded of
     None \<Rightarrow> Inl (WaitIndexMemberError encoded ''dangling escape'')
   | Some fs \<Rightarrow> Inr fs)"

definition encodeMember :: "wait_member \<Rightarrow> string" where
  "encodeMember m = intercalate [SEPARATOR]
     (List.map escapeField [wm_session m, wm_parent m, wm_child m, wm_group m])"

definition decodeMember :: "string \<Rightarrow> js_error + wait_member" where
  "decodeMember member = (case splitEscaped member of
     Inl e \<Rightarrow> Inl e
   | Inr fs \<Rightarrow>
       if length fs \<noteq> 4
       then Inl (WaitIndexMemberError member (''expected 4 fields, got '' @ nat_str (length fs)))
       else Inr \<lparr>wm_session = fs ! 0, wm_parent = fs ! 1, wm_child = fs ! 2, wm_group = fs ! 3\<rparr>)"

definition memberFromResume :: "message_header \<Rightarrow> string" where
  "memberFromResume h = encodeMember \<lparr>wm_session = sessionId h, wm_parent = messageId h,
     wm_child = parentMessageId h, wm_group = taskGroupId h\<rparr>"


section \<open>The round trip\<close>

lemma escapeField_char:
  "escapeField (c # cs) = (if c = ESCAPE then [ESCAPE, ESCAPE] else if c = SEPARATOR then [ESCAPE, SEPARATOR] else [c])
     @ escapeField cs"
  by (simp add: escapeField_def replace_char_def)

lemma escapeField_Nil [simp]: "escapeField [] = []"
  by (simp add: escapeField_def replace_char_def)

lemma split_loop_escaped:
  "split_loop fs current False (escapeField s @ r) = split_loop fs (current @ s) False r"
  by (induction s arbitrary: current) (auto simp: escapeField_char)

lemma splitEscaped_fields:
  "split_loop fs current False (escapeField x @ concat (List.map (\<lambda>s. SEPARATOR # escapeField s) xs))
     = Some (fs @ (current @ x) # xs)"
proof (induction xs arbitrary: fs current x)
  case Nil
  then show ?case using split_loop_escaped [of fs current x "[]"] by simp
next
  case (Cons y ys)
  show ?case using Cons [of "fs @ [current @ x]" "[]" y] by (simp add: split_loop_escaped)
qed

lemma splitEscaped_encode:
  "splitEscaped (encodeMember m) = Inr [wm_session m, wm_parent m, wm_child m, wm_group m]"
proof -
  have "encodeMember m = escapeField (wm_session m)
      @ concat (List.map (\<lambda>s. SEPARATOR # escapeField s) [wm_parent m, wm_child m, wm_group m])"
    by (simp add: encodeMember_def)
  then show ?thesis
    using splitEscaped_fields [of "[]" "[]" "wm_session m" "[wm_parent m, wm_child m, wm_group m]"]
    by (simp only: splitEscaped_def) simp
qed

lemma decode_encode: "decodeMember (encodeMember m) = Inr m"
  by (simp add: decodeMember_def splitEscaped_encode)

lemma encodeMember_inject [simp]: "encodeMember m = encodeMember m' \<longleftrightarrow> m = m'"
  by (metis decode_encode sum.inject(2))


section \<open>SHA-1\<close>

text \<open>
  `createHash('sha1')...digest('hex')` of Node's crypto module: the
  padded message in blocks of sixteen big-endian words, eighty rounds a block.
\<close>

type_synonym sha_state = "32 word \<times> 32 word \<times> 32 word \<times> 32 word \<times> 32 word"

definition rotl :: "nat \<Rightarrow> 32 word \<Rightarrow> 32 word" where
  "rotl n w = push_bit n w OR drop_bit (32 - n) w"

definition be_bytes :: "nat \<Rightarrow> int \<Rightarrow> int list" where
  "be_bytes n v = List.map (\<lambda>i. (v div 256 ^ (n - 1 - i)) mod 256) [0 ..< n]"

definition sha1_pad :: "int list \<Rightarrow> int list" where
  "sha1_pad bs = (let n = length bs in
     bs @ [128] @ replicate ((119 - n mod 64) mod 64) 0 @ be_bytes 8 (8 * int n))"

fun be_words :: "int list \<Rightarrow> 32 word list" where
  "be_words (a # b # c # d # r) =
     word_of_int (((a * 256 + b) * 256 + c) * 256 + d) # be_words r"
| "be_words _ = []"

text \<open>The message schedule: the next word from the sixteen before it.\<close>

fun sha1_extend :: "nat \<Rightarrow> 32 word list \<Rightarrow> 32 word list" where
  "sha1_extend 0 ws = ws"
| "sha1_extend (Suc n) ws = (let t = length ws in
     sha1_extend n (ws @ [rotl 1 (ws ! (t - 3) XOR ws ! (t - 8) XOR ws ! (t - 14) XOR ws ! (t - 16))]))"

definition sha1_round :: "sha_state \<Rightarrow> nat \<times> 32 word \<Rightarrow> sha_state" where
  "sha1_round st tw = (case st of (a, b, c, d, e) \<Rightarrow>
     let t = fst tw;
         f = (if t < 20 then (b AND c) OR (NOT b AND d)
              else if t < 40 then b XOR c XOR d
              else if t < 60 then (b AND c) OR (b AND d) OR (c AND d)
              else b XOR c XOR d);
         k = (if t < 20 then 0x5A827999 else if t < 40 then 0x6ED9EBA1
              else if t < 60 then 0x8F1BBCDC else 0xCA62C1D6)
     in (rotl 5 a + f + e + k + snd tw, a, rotl 30 b, c, d))"

definition sha1_block :: "sha_state \<Rightarrow> 32 word list \<Rightarrow> sha_state" where
  "sha1_block st ws =
     (case (st, foldl sha1_round st (List.zip [0 ..< 80] (sha1_extend 64 ws))) of
        ((a, b, c, d, e), (a', b', c', d', e')) \<Rightarrow> (a + a', b + b', c + c', d + d', e + e'))"

fun sha1_blocks :: "nat \<Rightarrow> sha_state \<Rightarrow> 32 word list \<Rightarrow> sha_state" where
  "sha1_blocks 0 st ws = st"
| "sha1_blocks (Suc n) st ws = sha1_blocks n (sha1_block st (take 16 ws)) (drop 16 ws)"

definition hex_word :: "32 word \<Rightarrow> string" where
  "hex_word w = List.map (\<lambda>i. hex_char (nat (uint w div 16 ^ (7 - i) mod 16))) [0 ..< 8]"

definition sha1_hex :: "string \<Rightarrow> string" where
  "sha1_hex s = (let padded = sha1_pad (List.map (\<lambda>c. int (of_char c)) s) in
     case sha1_blocks (length padded div 64)
       (0x67452301, 0xEFCDAB89, 0x98BADCFE, 0x10325476, 0xC3D2E1F0) (be_words padded) of
       (a, b, c, d, e) \<Rightarrow> hex_word a @ hex_word b @ hex_word c @ hex_word d @ hex_word e)"

definition memberDigest :: "string \<Rightarrow> string" where
  "memberDigest member = sha1_hex member"


section \<open>Shards\<close>

text \<open>`Math.imul(digest ^ byte, 0x01000193) >>> 0` is 32-bit multiplication.\<close>

definition fnv_step :: "32 word \<Rightarrow> char \<Rightarrow> 32 word" where
  "fnv_step digest byte = (digest XOR word_of_nat (of_char byte)) * 0x01000193"

definition fnv1a32 :: "string \<Rightarrow> 32 word" where
  "fnv1a32 s = foldl fnv_step 0x811c9dc5 s"

definition waitIndexShard :: "string \<Rightarrow> nat" where
  "waitIndexShard session = nat (uint (fnv1a32 session) mod int WAIT_INDEX_SHARDS)"

definition waitIndexKey :: "key_schema \<Rightarrow> string \<Rightarrow> key" where
  "waitIndexKey sch session = wait_index sch (waitIndexShard session)"

text \<open>The reference: the same fold on natural numbers, reduced modulo 2^32 at each step.\<close>

definition fnv_spec_step :: "nat \<Rightarrow> char \<Rightarrow> nat" where
  "fnv_spec_step n byte = (n XOR of_char byte) * 16777619 mod 2 ^ 32"

definition fnv_spec :: "string \<Rightarrow> nat" where
  "fnv_spec s = foldl fnv_spec_step 2166136261 s"

lemma unat_fnv_step: "unat (fnv_step d c) = fnv_spec_step (unat d) c"
proof -
  have "(of_char c :: nat) < 2 ^ 32"
    by (rule less_trans [of _ 256]) simp_all
  then have "unat (word_of_nat (of_char c) :: 32 word) = (of_char c :: nat)"
    by (simp add: unat_of_nat)
  then have "unat (d XOR word_of_nat (of_char c)) = unat d XOR of_char c"
    by (simp add: unsigned_xor_eq)
  then show ?thesis
    by (simp add: fnv_step_def fnv_spec_step_def unat_mult_lem unat_word_ariths)
qed

lemma fnv1a32_spec: "unat (fnv1a32 s) = fnv_spec s"
proof -
  have "unat (foldl fnv_step d s) = foldl fnv_spec_step (unat d) s" for d
    by (induction s arbitrary: d) (simp_all add: unat_fnv_step)
  then show ?thesis by (simp add: fnv1a32_def fnv_spec_def)
qed

lemma waitIndexShard_less: "waitIndexShard s < WAIT_INDEX_SHARDS"
  by (simp add: waitIndexShard_def WAIT_INDEX_SHARDS_def nat_less_iff)

end
