(* ===== verification/Emitter.thy ===== *)
theory Emitter
  imports Keys Protocol
begin

text \<open>
  The data-plane reporter (src/emitter.ts): events on a session's data stream,
  each one XADD followed by an EXPIRE in one pipeline. A field of the emitted
  object that is undefined is left out, as `JSON.stringify` does.
\<close>

definition SSE_text :: string where "SSE_text = ''1002''"
definition SSE_think_title :: string where "SSE_think_title = ''3003''"
definition SSE_task_create_file :: string where "SSE_task_create_file = ''3010''"
definition SSE_task_user_input :: string where "SSE_task_user_input = ''3013''"
definition ANSWER_DELTA :: string where "ANSWER_DELTA = ''answerDelta''"
definition REASONING_LOG_DELTA :: string where "REASONING_LOG_DELTA = ''reasoningLogDelta''"
definition APP_STREAM_RESPONSE :: string where "APP_STREAM_RESPONSE = ''appStreamResponse''"
definition ORPHANED_REPLY :: string where "ORPHANED_REPLY = ''orphanedReply''"

record emitter =
  fixedDataStreamName :: "string option"
  emitterSourceAgentType :: string

record event_params =
  ep_session :: string
  ep_trace :: string
  ep_type :: string
  ep_source :: string
  ep_message :: string
  ep_parent :: string
  ep_data :: jobj
  ep_state_msg :: string
  ep_artifact_url :: string
  ep_metadata :: jobj

definition opt_field :: "string \<Rightarrow> json option \<Rightarrow> jobj" where
  "opt_field k v = (case v of None \<Rightarrow> [] | Some x \<Rightarrow> [(k, x)])"

definition or_null :: "json option \<Rightarrow> json" where
  "or_null v = (case v of None \<Rightarrow> JNull | Some x \<Rightarrow> x)"

definition event_message :: "emitter \<Rightarrow> event_params \<Rightarrow> millis \<Rightarrow> json" where
  "event_message em p now = JObj [
     (''trace_id'', JStr (ep_trace p)),
     (''session_id'', JStr (ep_session p)),
     (''event_type'', JStr (ep_type p)),
     (''source_agent_type'', JStr (str_or (ep_source p) (emitterSourceAgentType em))),
     (''message_id'', JStr (ep_message p)),
     (''parent_message_id'', JStr (ep_parent p)),
     (''timestamp'', JNum now),
     (''data'', JObj (ep_data p)),
     (''state_msg'', JStr (ep_state_msg p)),
     (''artifact_url'', JStr (ep_artifact_url p)),
     (''metadata'', JObj (ep_metadata p))]"

definition data_stream_name :: "key_schema \<Rightarrow> emitter \<Rightarrow> string \<Rightarrow> key" where
  "data_stream_name sch em session =
     (case fixedDataStreamName em of
        Some n \<Rightarrow> if n = [] then session_data_stream sch session else n
      | None \<Rightarrow> session_data_stream sch session)"

definition emitEvent :: "key_schema \<Rightarrow> emitter \<Rightarrow> event_params \<Rightarrow> unit prog" where
  "emitEvent sch em p = bindP nowP (\<lambda>now.
     let stream = data_stream_name sch em (ep_session p)
     in pipelineP [Xadd stream (json_stringify (event_message em p now)), Expire stream DEFAULT_SESSION_TTL])"


section \<open>The SSE layout\<close>

record sse_params =
  sse_content :: "string option"
  sse_role :: "json option"
  sse_contentType :: string
  sse_functionCall :: "json option"
  sse_toolCalls :: "json option"
  sse_orderId :: string
  sse_parentOrderId :: string
  sse_objectType :: "json option"
  sse_status :: "json option"

definition sse_object :: "string \<Rightarrow> millis \<Rightarrow> sse_params \<Rightarrow> jobj" where
  "sse_object uuid now p =
     [(''id'', JStr uuid), (''created'', JNum (now div 1000)), (''model'', JStr []), (''object'', JStr [])]
     @ opt_field ''objectType'' (sse_objectType p)
     @ [(''contentType'', JStr (sse_contentType p))]
     @ opt_field ''status'' (sse_status p)
     @ [(''orderId'', if sse_orderId p = [] then JNull else JStr (sse_orderId p)),
        (''parentOrderId'', if sse_parentOrderId p = [] then JNull else JStr (sse_parentOrderId p)),
        (''choices'', JArr [JObj [(''index'', JNum 0), (''finish_reason'', JStr []),
          (''delta'', JObj (opt_field ''role'' (sse_role p) @
             [(''content'', (case sse_content p of None \<Rightarrow> JNull | Some c \<Rightarrow> JStr c)),
              (''function_call'', or_null (sse_functionCall p)),
              (''tool_calls'', or_null (sse_toolCalls p))]))]])]"

text \<open>`uuidv4().replace(/-/g, '')`, with capitals here and in lower case elsewhere.\<close>

definition strip_dashes :: "string \<Rightarrow> string" where
  "strip_dashes u = filter (\<lambda>c. c \<noteq> CHR ''-'') u"

definition upper_char :: "char \<Rightarrow> char" where
  "upper_char c = (let n = of_char c :: nat in if 97 \<le> n \<and> n \<le> 122 then char_of (n - 32) else c)"

definition buildSseLayout :: "sse_params \<Rightarrow> jobj prog" where
  "buildSseLayout p = bindP uuidP (\<lambda>u. bindP nowP (\<lambda>now.
     Ret (sse_object (List.map upper_char (strip_dashes u)) now p)))"


section \<open>The event kinds\<close>

record emit_options =
  eo_source :: string
  eo_message :: string
  eo_parent :: string
  eo_metadata :: jobj
  eo_eventType :: string
  eo_contentType :: string
  eo_objectType :: "json option"
  eo_status :: "json option"

definition no_options :: emit_options where
  "no_options = \<lparr>eo_source = [], eo_message = [], eo_parent = [], eo_metadata = [], eo_eventType = [],
     eo_contentType = [], eo_objectType = None, eo_status = None\<rparr>"

datatype chunk =
    ChunkText string
  | ChunkEvent (c_content: "string option") (c_role: "json option") (c_functionCall: "json option")
      (c_toolCalls: "json option") (c_metadata: "jobj option")

text \<open>The metadata of an event given as text is an empty object, which is truthy.\<close>

definition event_metadata :: "jobj option option \<Rightarrow> emit_options \<Rightarrow> jobj" where
  "event_metadata md opts = (case md of
     None \<Rightarrow> []
   | Some None \<Rightarrow> eo_metadata opts
   | Some (Some m) \<Rightarrow> m)"

definition emit_layout :: "key_schema \<Rightarrow> emitter \<Rightarrow> string \<Rightarrow> string \<Rightarrow> string \<Rightarrow> emit_options \<Rightarrow> sse_params
    \<Rightarrow> jobj \<Rightarrow> unit prog" where
  "emit_layout sch em session trace eventType opts sse md =
     bindP (buildSseLayout sse) (\<lambda>layout. emitEvent sch em
       \<lparr>ep_session = session, ep_trace = trace, ep_type = eventType, ep_source = eo_source opts,
        ep_message = eo_message opts, ep_parent = eo_parent opts, ep_data = layout,
        ep_state_msg = [], ep_artifact_url = [], ep_metadata = md\<rparr>)"

definition emitChunk :: "key_schema \<Rightarrow> emitter \<Rightarrow> string \<Rightarrow> string \<Rightarrow> chunk \<Rightarrow> emit_options \<Rightarrow> unit prog" where
  "emitChunk sch em session trace event opts =
     (let ev = (case event of ChunkText s \<Rightarrow> ChunkEvent (Some s) None None None None | _ \<Rightarrow> event)
      in emit_layout sch em session trace (str_or (eo_eventType opts) ANSWER_DELTA) opts
        \<lparr>sse_content = c_content ev,
         sse_role = (case c_role ev of None \<Rightarrow> Some (JStr ''assistant'') | Some JNull \<Rightarrow> Some (JStr ''assistant'') | r \<Rightarrow> r),
         sse_contentType = str_or (eo_contentType opts) SSE_text,
         sse_functionCall = c_functionCall ev, sse_toolCalls = c_toolCalls ev,
         sse_orderId = eo_message opts, sse_parentOrderId = eo_parent opts,
         sse_objectType = eo_objectType opts, sse_status = eo_status opts\<rparr>
        (event_metadata (case event of ChunkText _ \<Rightarrow> None | _ \<Rightarrow> Some (c_metadata ev)) opts))"

datatype state_event = StateText string | StateEvent string "jobj option"

definition emitState :: "key_schema \<Rightarrow> emitter \<Rightarrow> string \<Rightarrow> string \<Rightarrow> state_event \<Rightarrow> emit_options \<Rightarrow> unit prog" where
  "emitState sch em session trace event opts =
     emit_layout sch em session trace (str_or (eo_eventType opts) REASONING_LOG_DELTA) opts
       \<lparr>sse_content = Some (case event of StateText s \<Rightarrow> s | StateEvent s _ \<Rightarrow> s), sse_role = Some JNull,
        sse_contentType = str_or (eo_contentType opts) SSE_think_title,
        sse_functionCall = None, sse_toolCalls = None,
        sse_orderId = eo_message opts, sse_parentOrderId = eo_parent opts,
        sse_objectType = None, sse_status = None\<rparr>
       (event_metadata (case event of StateText _ \<Rightarrow> None | StateEvent _ md \<Rightarrow> Some md) opts)"

definition emitArtifact :: "key_schema \<Rightarrow> emitter \<Rightarrow> string \<Rightarrow> string \<Rightarrow> state_event \<Rightarrow> emit_options \<Rightarrow> unit prog" where
  "emitArtifact sch em session trace event opts =
     emit_layout sch em session trace (str_or (eo_eventType opts) REASONING_LOG_DELTA) opts
       \<lparr>sse_content = Some (json_stringify (JArr [JObj [(''fileUrl'',
            JStr (case event of StateText s \<Rightarrow> s | StateEvent s _ \<Rightarrow> s))]])),
        sse_role = None, sse_contentType = SSE_task_create_file,
        sse_functionCall = None, sse_toolCalls = None,
        sse_orderId = eo_message opts, sse_parentOrderId = eo_parent opts,
        sse_objectType = None, sse_status = None\<rparr>
       (event_metadata (case event of StateText _ \<Rightarrow> None | StateEvent _ md \<Rightarrow> Some md) opts)"

text \<open>The label of the one form field, in UTF-8.\<close>

definition USER_INPUT_LABEL :: string where
  "USER_INPUT_LABEL = bytes [231, 148, 168, 230, 136, 183, 232, 190, 147, 229, 133, 165]"

definition input_form :: "string \<Rightarrow> json" where
  "input_form prompt = JObj [(''formStatus'', JNum 0), (''pluginMachineFields'', JArr [JObj [
     (''formType'', JStr ''textarea''), (''fieldName'', JStr USER_INPUT_LABEL),
     (''fieldCode'', JStr ''user_input''), (''description'', JStr prompt), (''required'', JBool True)]])]"

definition emitAskUser :: "key_schema \<Rightarrow> emitter \<Rightarrow> string \<Rightarrow> string \<Rightarrow> state_event \<Rightarrow> emit_options \<Rightarrow> unit prog" where
  "emitAskUser sch em session trace event opts =
     emit_layout sch em session trace REASONING_LOG_DELTA opts
       \<lparr>sse_content = Some (json_stringify (input_form (case event of StateText s \<Rightarrow> s | StateEvent s _ \<Rightarrow> s))),
        sse_role = Some (JStr ''assistant''), sse_contentType = SSE_task_user_input,
        sse_functionCall = None, sse_toolCalls = None,
        sse_orderId = eo_message opts, sse_parentOrderId = eo_parent opts,
        sse_objectType = None, sse_status = None\<rparr>
       (event_metadata (case event of StateText _ \<Rightarrow> None | StateEvent _ md \<Rightarrow> Some md) opts)"


section \<open>What an emission does to the keyspace\<close>

context redis_available
begin

text \<open>An emission leaves every string, hash, set and sorted set alone.\<close>

lemma wp_emitEvent:
  assumes "\<And>s'. kv s' = kv s \<Longrightarrow> oth s' \<subseteq> insert (data_stream_name sch em (ep_session p)) (oth s) \<Longrightarrow>
      clk s \<le> clk s' \<Longrightarrow>
      Q () (s', l @ [Now, Xadd (data_stream_name sch em (ep_session p))
              (json_stringify (event_message em p (clk s))),
            Expire (data_stream_name sch em (ep_session p)) DEFAULT_SESSION_TTL])"
  shows "wp exec (emitEvent sch em p) Q E (s, l)"
  unfolding emitEvent_def Let_def wp_bindP
proof (rule wp_nowP, rule wp_pipeline_Cons, simp, rule wp_pipeline_Cons, goal_cases)
  case (2 s1 r2 s2 r3 s3)
  then show ?case by (simp, intro assms) auto
qed simp

end

end
