(* ===== verification/Interleaving.thy ===== *)
theory Interleaving
  imports Effects
begin

text \<open>
  Several handlers at once: a pool of programs over one server. A step lets one
  program issue its next command and take the answer, or lets the rest of the
  world act (other clients, the passing of time, expiring keys).
\<close>

inductive pool_step :: "(cmd \<Rightarrow> 's \<Rightarrow> answer \<times> 's) \<Rightarrow> ('s \<Rightarrow> 's \<Rightarrow> bool) \<Rightarrow> 'a prog list \<times> 's
    \<Rightarrow> 'a prog list \<times> 's \<Rightarrow> bool" for exec env where
  act: "i < length ps \<Longrightarrow> ps ! i = Step c k \<Longrightarrow> exec c s = (r, s') \<Longrightarrow>
    pool_step exec env (ps, s) (ps[i := k r], s')"
| world: "env s s' \<Longrightarrow> pool_step exec env (ps, s) (ps, s')"

inductive_cases pool_stepE: "pool_step exec env (ps, s) (ps', s')"

abbreviation pool_steps :: "(cmd \<Rightarrow> 's \<Rightarrow> answer \<times> 's) \<Rightarrow> ('s \<Rightarrow> 's \<Rightarrow> bool) \<Rightarrow> 'a prog list \<times> 's
    \<Rightarrow> 'a prog list \<times> 's \<Rightarrow> bool" where
  "pool_steps exec env \<equiv> rtranclp (pool_step exec env)"

text \<open>One schedule of a pool: the programs to step, in order.\<close>

fun run_pool :: "(cmd \<Rightarrow> 's \<Rightarrow> answer \<times> 's) \<Rightarrow> nat list \<Rightarrow> 'a prog list \<times> 's \<Rightarrow> 'a prog list \<times> 's" where
  "run_pool exec [] pool = pool"
| "run_pool exec (i # is) (ps, s) =
     (if i < length ps then
        (case ps ! i of
           Step c k \<Rightarrow> (case exec c s of (r, s') \<Rightarrow> run_pool exec is (ps[i := k r], s'))
         | _ \<Rightarrow> run_pool exec is (ps, s))
      else run_pool exec is (ps, s))"

lemma run_pool_steps: "pool_steps exec env pool (run_pool exec is pool)"
proof (induction exec "is" pool rule: run_pool.induct)
  case (2 exec i "is" ps s)
  show ?case
  proof (cases "i < length ps \<and> (\<exists>c k. ps ! i = Step c k)")
    case True
    then obtain c k where step: "ps ! i = Step c k" and i: "i < length ps" by auto
    obtain r s' where ex: "exec c s = (r, s')" by (cases "exec c s")
    have "pool_step exec env (ps, s) (ps[i := k r], s')"
      using i step ex by (rule act)
    moreover have "pool_steps exec env (ps[i := k r], s') (run_pool exec is (ps[i := k r], s'))"
      using 2(3) [OF i step, of r s'] ex by simp
    ultimately show ?thesis
      using i step ex by (auto intro: converse_rtranclp_into_rtranclp)
  next
    case False
    then show ?thesis using 2(1,2,4) by (auto split: prog.splits)
  qed
qed simp


section \<open>Winning an entry of a sorted set\<close>

text \<open>
  `won a k m p`: whatever its commands are answered, `p` returns
  `a`, and it no longer touches member `m` of the sorted set
  `k`. `fair a k m p`: `p` gets there only by a ZREM that
  removed the member. Neither adds the member.
\<close>

definition harmless :: "key \<Rightarrow> string \<Rightarrow> cmd \<Rightarrow> bool" where
  "harmless k m c \<longleftrightarrow> good_cmd c \<and> (\<forall>sc. c \<noteq> Zadd k sc m)"

primrec won :: "'a \<Rightarrow> key \<Rightarrow> string \<Rightarrow> 'a prog \<Rightarrow> bool" where
  "won a k m (Ret x) = (x = a)"
| "won a k m (Raise e) = False"
| "won a k m (Step c f) = (c \<noteq> Zrem k m \<and> harmless k m c \<and> (\<forall>r. won a k m (f r)))"

primrec fair :: "'a \<Rightarrow> key \<Rightarrow> string \<Rightarrow> 'a prog \<Rightarrow> bool" where
  "fair a k m (Ret x) = (x \<noteq> a)"
| "fair a k m (Raise e) = True"
| "fair a k m (Step c f) = (harmless k m c \<and>
     (\<forall>r. (if c = Zrem k m \<and> (\<exists>n. r = Inr (RInt n) \<and> 0 < n) then won a k m (f r) else fair a k m (f r))))"

lemma fair_not_won: "fair a k m p \<Longrightarrow> \<not> won a k m p"
  by (induction p) auto

definition present :: "view \<Rightarrow> key \<Rightarrow> string \<Rightarrow> nat" where
  "present v k m = (if v_zset v k m = None then 0 else 1)"

lemma law_keeps_absent:
  assumes "redis_law c v N t r v'" "harmless k m c" "v_zset v k m = None"
  shows "v_zset v' k m = None"
  using assms by (cases c) (auto simp: harmless_def split: if_splits)

context redis_server
begin

lemma exec_keeps_absent:
  assumes "exec c s = (a, s')" "harmless k m c" "v_zset (kv s) k m = None"
  shows "v_zset (kv s') k m = None"
proof (cases a)
  case (Inl e)
  then show ?thesis
    using assms refused [of c s e s'] law_keeps_absent [OF _ assms(2,3)] by (auto simp: harmless_def)
next
  case (Inr r)
  then show ?thesis
    using assms answered [of c s r s'] law_keeps_absent [OF _ assms(2,3)] by (auto simp: harmless_def)
qed

lemma zrem_wins:
  assumes "exec (Zrem k m) s = (Inr (RInt n), s')" "0 < n"
  shows "v_zset (kv s) k m \<noteq> None \<and> v_zset (kv s') k m = None"
  using answered [OF assms(1)] assms(2) by (auto split: if_splits)

definition pool_inv :: "'a \<Rightarrow> key \<Rightarrow> string \<Rightarrow> 'a prog list \<times> 's \<Rightarrow> bool" where
  "pool_inv a k m pool \<longleftrightarrow> (\<forall>p \<in> set (fst pool). fair a k m p \<or> won a k m p)
     \<and> length (filter (won a k m) (fst pool)) + present (kv (snd pool)) k m \<le> 1"

lemma filter_length_update:
  assumes "i < length ps"
  shows "length (filter P (ps[i := p])) + (if P (ps ! i) then 1 else 0)
       = length (filter P ps) + (if P p then 1 else 0)"
proof -
  have ps: "ps = take i ps @ ps ! i # drop (Suc i) ps" "ps[i := p] = take i ps @ p # drop (Suc i) ps"
    using assms by (simp_all add: id_take_nth_drop upd_conv_take_nth_drop)
  have "length (filter P ps) = length (filter P (take i ps @ ps ! i # drop (Suc i) ps))"
    using ps(1) by simp
  then show ?thesis using ps(2) by simp
qed

lemma pool_inv_step:
  assumes step: "pool_step exec env (ps, s) (ps', s')" and inv: "pool_inv a k m (ps, s)"
    and env: "\<And>s s'. env s s' \<Longrightarrow> v_zset (kv s) k m = None \<Longrightarrow> v_zset (kv s') k m = None"
  shows "pool_inv a k m (ps', s')"
  using step
proof (cases rule: pool_step.cases)
  case (act i c f r)
  have p: "fair a k m (ps ! i) \<or> won a k m (ps ! i)"
    using inv nth_mem [OF act(2)] by (simp add: pool_inv_def)
  have other: "\<forall>q \<in> set (ps[i := f r]). q = f r \<or> fair a k m q \<or> won a k m q"
    using inv by (auto simp: pool_inv_def dest!: subsetD [OF set_update_subset_insert])
  note count = filter_length_update [OF act(2), of "won a k m" "f r"]
  show ?thesis
  proof (cases "won a k m (ps ! i)")
    case True
    then have w: "won a k m (f r)" "harmless k m c" using act by auto
    have "present (kv s') k m \<le> present (kv s) k m"
      using exec_keeps_absent [OF act(4) w(2)] by (auto simp: present_def)
    then show ?thesis
      using inv count w True other act by (auto simp: pool_inv_def)
  next
    case False
    then have f: "fair a k m (Step c f)" using p False unfolding act(3) by blast
    then have harmless: "harmless k m c" by simp
    show ?thesis
    proof (cases "c = Zrem k m \<and> (\<exists>n. r = Inr (RInt n) \<and> 0 < n)")
      case True
      then have "won a k m (f r)" using f by auto
      moreover have "present (kv s) k m = 1" "present (kv s') k m = 0"
        using True act zrem_wins by (auto simp: present_def)
      ultimately show ?thesis
        using inv count \<open>\<not> won a k m (ps ! i)\<close> other act by (auto simp: pool_inv_def)
    next
      case False
      then have "fair a k m (f r)" using f by auto
      moreover have "present (kv s') k m \<le> present (kv s) k m"
        using exec_keeps_absent [OF act(4) harmless] by (auto simp: present_def)
      ultimately show ?thesis
        using inv count \<open>\<not> won a k m (ps ! i)\<close> other act fair_not_won [of a k m "f r"]
        by (auto simp: pool_inv_def)
    qed
  qed
next
  case world
  then show ?thesis
    using inv env by (auto simp: pool_inv_def present_def split: if_splits)
qed

text \<open>Programs that are all fair at the start: at most one of them ever wins.\<close>

lemma at_most_one_wins:
  assumes steps: "pool_steps exec env (ps, s) (ps', s')"
    and fair: "\<forall>p \<in> set ps. fair a k m p"
    and env: "\<And>s s'. env s s' \<Longrightarrow> v_zset (kv s) k m = None \<Longrightarrow> v_zset (kv s') k m = None"
  shows "length (filter (won a k m) ps') \<le> 1"
proof -
  have "filter (won a k m) ps = []"
    using fair by (auto simp: filter_empty_conv dest: fair_not_won)
  then have init: "pool_inv a k m (ps, s)"
    using fair by (auto simp: pool_inv_def present_def)
  have "pool_inv a k m pool" if "pool_steps exec env (ps, s) pool" for pool
    using that
  proof (induction rule: rtranclp_induct)
    case (step y z)
    then show ?case using pool_inv_step [OF _ _ env] by (cases y; cases z) auto
  qed (rule init)
  then show ?thesis using steps by (fastforce simp: pool_inv_def)
qed

end

end
