(* ===== verification/MockRedis.thy ===== *)
theory MockRedis
  imports Effects "HOL-Library.List_Lexorder" "HOL-Library.Char_ord" "HOL-Library.Product_Lexorder"
begin

text \<open>
  The repository's in-memory Redis (tests/helpers/mock_redis.ts): one container
  per type, lazy expiry against an injectable clock. It provides the laws of
  `redis_server`, by the interpretation at the end, and is where the
  properties are evaluated on concrete states.

  A JavaScript Map is an association list in insertion order and a Set a list
  without repetition; an entry shadowed by an earlier one is not there. Times
  are milliseconds. A run of a program happens at one instant of the mock's
  clock: time passes by `advance_time`, between runs.
\<close>

type_synonym 'v jsmap = "(string \<times> 'v) list"

record mock =
  strings :: "string jsmap"
  hashes :: "string jsmap jsmap"
  sets :: "string list jsmap"
  zsets :: "int jsmap jsmap"
  lists :: "string list jsmap"
  streams :: "(nat \<times> string) list jsmap"
  expiries :: "int jsmap"
  stream_seq :: nat
  ack_calls :: "(string \<times> string \<times> string) list"
  mock_clock :: int
  time_offset :: int
  uuid_seq :: nat

definition empty_mock :: "int \<Rightarrow> mock" where
  "empty_mock t = \<lparr>strings = [], hashes = [], sets = [], zsets = [], lists = [], streams = [], expiries = [],
     stream_seq = 1, ack_calls = [], mock_clock = t, time_offset = 0, uuid_seq = 0\<rparr>"

definition now_ms :: "mock \<Rightarrow> int" where
  "now_ms m = mock_clock m + time_offset m"

definition advance_time :: "int \<Rightarrow> mock \<Rightarrow> mock" where
  "advance_time ms m = m\<lparr>time_offset := time_offset m + ms\<rparr>"

definition jsmap_get :: "'v jsmap \<Rightarrow> string \<Rightarrow> 'v option" where "jsmap_get m k = map_of m k"
definition jsmap_set :: "string \<Rightarrow> 'v \<Rightarrow> 'v jsmap \<Rightarrow> 'v jsmap" where "jsmap_set k v m = AList.update k v m"
definition jsmap_delete :: "string \<Rightarrow> 'v jsmap \<Rightarrow> 'v jsmap" where "jsmap_delete k m = AList.delete k m"
definition jsmap_entries :: "'v jsmap \<Rightarrow> (string \<times> 'v) list" where "jsmap_entries m = AList.clearjunk m"

lemma jsmap_get_set [simp]: "jsmap_get (jsmap_set k v m) = (jsmap_get m)(k \<mapsto> v)"
  by (simp add: jsmap_get_def [abs_def] jsmap_set_def update_conv')

lemma jsmap_get_delete [simp]: "jsmap_get (jsmap_delete k m) = (jsmap_get m)(k := None)"
  by (simp add: jsmap_get_def [abs_def] jsmap_delete_def delete_conv')

lemma jsmap_entries_distinct [simp]: "distinct (List.map fst (jsmap_entries m))"
  by (simp add: jsmap_entries_def)

lemma map_of_jsmap_entries: "map_of (jsmap_entries m) = jsmap_get m"
  by (simp add: jsmap_entries_def jsmap_get_def [abs_def] map_of_clearjunk)

lemma in_jsmap_entries: "(k, v) \<in> set (jsmap_entries m) \<longleftrightarrow> jsmap_get m k = Some v"
  using map_of_eq_Some_iff [OF jsmap_entries_distinct [of m]] by (metis map_of_jsmap_entries)


section \<open>The keyspace\<close>

definition expired :: "string \<Rightarrow> mock \<Rightarrow> bool" where
  "expired k m = (case jsmap_get (expiries m) k of None \<Rightarrow> False | Some t \<Rightarrow> t \<le> now_ms m)"

text \<open>Drop every container of a key.\<close>

definition drop_key :: "string \<Rightarrow> mock \<Rightarrow> mock" where
  "drop_key k m = m\<lparr>strings := jsmap_delete k (strings m), hashes := jsmap_delete k (hashes m),
     sets := jsmap_delete k (sets m), zsets := jsmap_delete k (zsets m),
     lists := jsmap_delete k (lists m), streams := jsmap_delete k (streams m), expiries := jsmap_delete k (expiries m)\<rparr>"

text \<open>`alive(key)`, which deletes the key when it has expired.\<close>

definition alive :: "string \<Rightarrow> mock \<Rightarrow> bool \<times> mock" where
  "alive k m = (if expired k m then (False, drop_key k m) else (True, m))"

definition holds :: "string \<Rightarrow> mock \<Rightarrow> bool" where
  "holds k m \<longleftrightarrow> jsmap_get (strings m) k \<noteq> None \<or> jsmap_get (hashes m) k \<noteq> None
     \<or> jsmap_get (sets m) k \<noteq> None \<or> jsmap_get (zsets m) k \<noteq> None \<or> jsmap_get (lists m) k \<noteq> None
     \<or> jsmap_get (streams m) k \<noteq> None"

definition mock_exists :: "string \<Rightarrow> mock \<Rightarrow> bool \<times> mock" where
  "mock_exists k m = (case alive k m of (a, m1) \<Rightarrow> (a \<and> holds k m1, m1))"

definition mock_del :: "string \<Rightarrow> mock \<Rightarrow> int \<times> mock" where
  "mock_del k m = (if holds k m then 1 else 0, drop_key k m)"

definition mock_expire :: "string \<Rightarrow> nat \<Rightarrow> mock \<Rightarrow> int \<times> mock" where
  "mock_expire k secs m = (case mock_exists k m of (ex, m1) \<Rightarrow>
     if ex then (1, m1\<lparr>expiries := jsmap_set k (now_ms m1 + int secs * 1000) (expiries m1)\<rparr>) else (0, m1))"


section \<open>Strings, hashes, sets and sorted sets\<close>

definition mock_get :: "string \<Rightarrow> mock \<Rightarrow> string option \<times> mock" where
  "mock_get k m = (case alive k m of (a, m1) \<Rightarrow> (if a then jsmap_get (strings m1) k else None, m1))"

definition mock_set :: "string \<Rightarrow> string \<Rightarrow> nat option \<Rightarrow> bool \<Rightarrow> mock \<Rightarrow> bool \<times> mock" where
  "mock_set k x ttl nx m = (case mock_exists k m of (ex, m1) \<Rightarrow>
     if nx \<and> ex then (False, m1)
     else (True, m1\<lparr>strings := jsmap_set k x (strings m1), hashes := jsmap_delete k (hashes m1),
       sets := jsmap_delete k (sets m1), zsets := jsmap_delete k (zsets m1), lists := jsmap_delete k (lists m1),
       expiries := (case ttl of None \<Rightarrow> jsmap_delete k (expiries m1)
         | Some s \<Rightarrow> jsmap_set k (now_ms m1 + int s * 1000) (jsmap_delete k (expiries m1)))\<rparr>))"

definition the_hash :: "string \<Rightarrow> mock \<Rightarrow> string jsmap" where
  "the_hash k m = (case jsmap_get (hashes m) k of None \<Rightarrow> [] | Some h \<Rightarrow> h)"

definition mock_hset :: "string \<Rightarrow> string \<Rightarrow> string \<Rightarrow> mock \<Rightarrow> int \<times> mock" where
  "mock_hset k f x m = (let m1 = snd (alive k m); h = the_hash k m1 in
     (if jsmap_get h f = None then 1 else 0, m1\<lparr>hashes := jsmap_set k (jsmap_set f x h) (hashes m1)\<rparr>))"

definition mock_hget :: "string \<Rightarrow> string \<Rightarrow> mock \<Rightarrow> string option \<times> mock" where
  "mock_hget k f m = (case alive k m of (a, m1) \<Rightarrow> (if a then jsmap_get (the_hash k m1) f else None, m1))"

definition mock_hgetall :: "string \<Rightarrow> mock \<Rightarrow> (string \<times> string) list \<times> mock" where
  "mock_hgetall k m = (case alive k m of (a, m1) \<Rightarrow> (if a then jsmap_entries (the_hash k m1) else [], m1))"

definition mock_hmget :: "string \<Rightarrow> string list \<Rightarrow> mock \<Rightarrow> string option list \<times> mock" where
  "mock_hmget k fs m = (case alive k m of (a, m1) \<Rightarrow>
     (List.map (\<lambda>f. if a then jsmap_get (the_hash k m1) f else None) fs, m1))"

definition mock_hdel :: "string \<Rightarrow> string \<Rightarrow> mock \<Rightarrow> int \<times> mock" where
  "mock_hdel k f m = (case alive k m of (a, m1) \<Rightarrow>
     if \<not> a \<or> jsmap_get (hashes m1) k = None then (0, m1)
     else (if jsmap_get (the_hash k m1) f = None then 0 else 1,
           m1\<lparr>hashes := jsmap_set k (jsmap_delete f (the_hash k m1)) (hashes m1)\<rparr>))"

text \<open>Counters hold decimal integers here; `Number` of anything else is NaN in the code.\<close>

definition mock_hincrby :: "string \<Rightarrow> string \<Rightarrow> int \<Rightarrow> mock \<Rightarrow> int \<times> mock" where
  "mock_hincrby k f n m = (let m1 = snd (alive k m); h = the_hash k m1;
       next = (case jsmap_get h f of None \<Rightarrow> 0 | Some x \<Rightarrow> js_trunc_number x) + n in
     (next, m1\<lparr>hashes := jsmap_set k (jsmap_set f (int_str next) h) (hashes m1)\<rparr>))"

definition the_set :: "string \<Rightarrow> mock \<Rightarrow> string list" where
  "the_set k m = (case jsmap_get (sets m) k of None \<Rightarrow> [] | Some xs \<Rightarrow> xs)"

definition mock_sadd :: "string \<Rightarrow> string \<Rightarrow> mock \<Rightarrow> int \<times> mock" where
  "mock_sadd k x m = (let m1 = snd (alive k m); xs = the_set k m1 in
     if x \<in> set xs then (0, m1\<lparr>sets := jsmap_set k xs (sets m1)\<rparr>)
     else (1, m1\<lparr>sets := jsmap_set k (xs @ [x]) (sets m1)\<rparr>))"

definition mock_srem :: "string \<Rightarrow> string \<Rightarrow> mock \<Rightarrow> int \<times> mock" where
  "mock_srem k x m = (case alive k m of (a, m1) \<Rightarrow>
     if \<not> a \<or> jsmap_get (sets m1) k = None then (0, m1)
     else (if x \<in> set (the_set k m1) then 1 else 0,
           m1\<lparr>sets := jsmap_set k (removeAll x (the_set k m1)) (sets m1)\<rparr>))"

definition mock_smembers :: "string \<Rightarrow> mock \<Rightarrow> string list \<times> mock" where
  "mock_smembers k m = (case alive k m of (a, m1) \<Rightarrow> (if a then remdups (the_set k m1) else [], m1))"

definition mock_sismember :: "string \<Rightarrow> string \<Rightarrow> mock \<Rightarrow> int \<times> mock" where
  "mock_sismember k x m = (case alive k m of (a, m1) \<Rightarrow> (if a \<and> x \<in> set (the_set k m1) then 1 else 0, m1))"

definition the_zset :: "string \<Rightarrow> mock \<Rightarrow> int jsmap" where
  "the_zset k m = (case jsmap_get (zsets m) k of None \<Rightarrow> [] | Some z \<Rightarrow> z)"

definition mock_zadd :: "string \<Rightarrow> int \<Rightarrow> string \<Rightarrow> mock \<Rightarrow> int \<times> mock" where
  "mock_zadd k sc x m = (let m1 = snd (alive k m); z = the_zset k m1 in
     (if jsmap_get z x = None then 1 else 0, m1\<lparr>zsets := jsmap_set k (jsmap_set x sc z) (zsets m1)\<rparr>))"

definition mock_zrem :: "string \<Rightarrow> string \<Rightarrow> mock \<Rightarrow> int \<times> mock" where
  "mock_zrem k x m = (case alive k m of (a, m1) \<Rightarrow>
     if \<not> a \<or> jsmap_get (zsets m1) k = None then (0, m1)
     else (if jsmap_get (the_zset k m1) x = None then 0 else 1,
           m1\<lparr>zsets := jsmap_set k (jsmap_delete x (the_zset k m1)) (zsets m1)\<rparr>))"

text \<open>`sortedEntries`: by score, then by member.\<close>

definition sorted_entries :: "string \<Rightarrow> mock \<Rightarrow> (string \<times> int) list" where
  "sorted_entries k m = sort_key (\<lambda>e. (snd e, fst e)) (jsmap_entries (the_zset k m))"

definition mock_zrangebyscore :: "string \<Rightarrow> int \<Rightarrow> int \<Rightarrow> mock \<Rightarrow> (string \<times> int) list \<times> mock" where
  "mock_zrangebyscore k lo hi m = (case alive k m of (a, m1) \<Rightarrow>
     (if a then filter (\<lambda>e. lo \<le> snd e \<and> snd e \<le> hi) (sorted_entries k m1) else [], m1))"

definition mock_zfrom :: "string \<Rightarrow> int \<Rightarrow> mock \<Rightarrow> string list \<times> mock" where
  "mock_zfrom k lo m = (case alive k m of (a, m1) \<Rightarrow>
     (if a then List.map fst (filter (\<lambda>e. lo \<le> snd e) (sorted_entries k m1)) else [], m1))"

text \<open>The last `n` of the entries: `zrange(key, -n, -1)`.\<close>

definition mock_ztail :: "string \<Rightarrow> nat \<Rightarrow> mock \<Rightarrow> string list \<times> mock" where
  "mock_ztail k n m = (case alive k m of (a, m1) \<Rightarrow>
     (let es = (if a then sorted_entries k m1 else []) in List.map fst (drop (length es - n) es), m1))"

text \<open>Both forms of ZREMRANGEBYSCORE: `zrem(key, ...doomed)` for the entries in the range.\<close>

definition mock_zremove :: "string \<Rightarrow> (int \<Rightarrow> bool) \<Rightarrow> mock \<Rightarrow> int \<times> mock" where
  "mock_zremove k P m = (case alive k m of (a, m1) \<Rightarrow>
     (let doomed = (if a then filter (\<lambda>e. P (snd e)) (sorted_entries k m1) else []) in
      if doomed = [] then (0, m1)
      else (int (length doomed),
           m1\<lparr>zsets := jsmap_set k (fold (\<lambda>e. jsmap_delete (fst e)) doomed (the_zset k m1)) (zsets m1)\<rparr>)))"

definition mock_zremrangebyscore :: "string \<Rightarrow> int \<Rightarrow> int \<Rightarrow> mock \<Rightarrow> int \<times> mock" where
  "mock_zremrangebyscore k lo hi m = mock_zremove k (\<lambda>sc. lo \<le> sc \<and> sc \<le> hi) m"

definition mock_zremupto :: "string \<Rightarrow> int \<Rightarrow> mock \<Rightarrow> int \<times> mock" where
  "mock_zremupto k hi m = mock_zremove k (\<lambda>sc. sc \<le> hi) m"


section \<open>Lists and streams\<close>

definition mock_rpush :: "string \<Rightarrow> string \<Rightarrow> mock \<Rightarrow> int \<times> mock" where
  "mock_rpush k x m = (let m1 = snd (alive k m);
       xs = (case jsmap_get (lists m1) k of None \<Rightarrow> [] | Some ys \<Rightarrow> ys) @ [x]
     in (int (length xs), m1\<lparr>lists := jsmap_set k xs (lists m1)\<rparr>))"

text \<open>Every entry the code writes has the one field `data`.\<close>

definition the_stream :: "string \<Rightarrow> mock \<Rightarrow> (nat \<times> string) list" where
  "the_stream k m = (case jsmap_get (streams m) k of None \<Rightarrow> [] | Some es \<Rightarrow> es)"

definition mock_xadd :: "string \<Rightarrow> string \<Rightarrow> mock \<Rightarrow> string \<times> mock" where
  "mock_xadd k d m = (let m1 = snd (alive k m); n = stream_seq m1 in
     (nat_str n @ ''-0'', m1\<lparr>streams := jsmap_set k (the_stream k m1 @ [(n, d)]) (streams m1),
        stream_seq := Suc n\<rparr>))"

definition mock_xlen :: "string \<Rightarrow> mock \<Rightarrow> int \<times> mock" where
  "mock_xlen k m = (case alive k m of (a, m1) \<Rightarrow> (if a then int (length (the_stream k m1)) else 0, m1))"

definition mock_xack :: "string \<Rightarrow> string \<Rightarrow> string \<Rightarrow> mock \<Rightarrow> int \<times> mock" where
  "mock_xack k g i m = (1, m\<lparr>ack_calls := ack_calls m @ [(k, g, i)]\<rparr>)"

definition stream_payloads :: "string \<Rightarrow> mock \<Rightarrow> string list" where
  "stream_payloads k m = List.map snd (the_stream k m)"


section \<open>The connection\<close>

text \<open>UUIDs: the twelve last digits count.\<close>

definition pad12 :: "string \<Rightarrow> string" where
  "pad12 s = (let t = drop (length s - 12) s in replicate (12 - length t) (CHR ''0'') @ t)"

definition mock_uuid :: "nat \<Rightarrow> string" where
  "mock_uuid n = ''00000000-0000-4000-8000-'' @ pad12 (nat_str n)"

definition opt_reply :: "string option \<Rightarrow> reply" where
  "opt_reply x = (case x of None \<Rightarrow> RNil | Some s \<Rightarrow> RBulk s)"

fun mock_cmd :: "cmd \<Rightarrow> mock \<Rightarrow> reply \<times> mock" where
  "mock_cmd (Get k) m = apfst opt_reply (mock_get k m)"
| "mock_cmd (SetC k x ttl nx) m = apfst (\<lambda>ok. if ok then ROk else RNil) (mock_set k x ttl nx m)"
| "mock_cmd (Del k) m = apfst RInt (mock_del k m)"
| "mock_cmd (Exists k) m = apfst (\<lambda>b. RInt (if b then 1 else 0)) (mock_exists k m)"
| "mock_cmd (Expire k t) m = apfst RInt (mock_expire k t m)"
| "mock_cmd (Hset k f x) m = apfst RInt (mock_hset k f x m)"
| "mock_cmd (Hget k f) m = apfst opt_reply (mock_hget k f m)"
| "mock_cmd (Hgetall k) m = apfst RPairs (mock_hgetall k m)"
| "mock_cmd (Hincrby k f n) m = apfst RInt (mock_hincrby k f n m)"
| "mock_cmd (Sadd k x) m = apfst RInt (mock_sadd k x m)"
| "mock_cmd (Srem k x) m = apfst RInt (mock_srem k x m)"
| "mock_cmd (Smembers k) m = apfst RList (mock_smembers k m)"
| "mock_cmd (Sismember k x) m = apfst RInt (mock_sismember k x m)"
| "mock_cmd (Zadd k sc x) m = apfst RInt (mock_zadd k sc x m)"
| "mock_cmd (Zrem k x) m = apfst RInt (mock_zrem k x m)"
| "mock_cmd (Zrangebyscore k lo hi n) m =
     apfst (\<lambda>es. RPairs (List.map (\<lambda>(x, sc). (x, int_str sc)) (take n es))) (mock_zrangebyscore k lo hi m)"
| "mock_cmd (Zremrangebyscore k lo hi) m = apfst RInt (mock_zremrangebyscore k lo hi m)"
| "mock_cmd (Xadd k d) m = apfst RBulk (mock_xadd k d m)"
| "mock_cmd (Hdel k f) m = apfst RInt (mock_hdel k f m)"
| "mock_cmd (Hmget k fs) m = apfst ROpts (mock_hmget k fs m)"
| "mock_cmd (Zfrom k lo) m = apfst RList (mock_zfrom k lo m)"
| "mock_cmd (Ztail k n) m = apfst RList (mock_ztail k n m)"
| "mock_cmd (Zremupto k hi) m = apfst RInt (mock_zremupto k hi m)"
| "mock_cmd (Rpush k x) m = apfst RInt (mock_rpush k x m)"
| "mock_cmd (Xlen k) m = apfst RInt (mock_xlen k m)"
| "mock_cmd (Xack k g i) m = apfst RInt (mock_xack k g i m)"
| "mock_cmd Now m = (RInt (now_ms m), m)"
| "mock_cmd Uuid m = (RBulk (mock_uuid (uuid_seq m)), m\<lparr>uuid_seq := Suc (uuid_seq m)\<rparr>)"
| "mock_cmd (Sleep ms) m = (ROk, m)"

definition mock_exec :: "cmd \<Rightarrow> mock \<Rightarrow> answer \<times> mock" where
  "mock_exec c m = (case mock_cmd c m of (r, m') \<Rightarrow> (Inr r, m'))"

text \<open>A connection that fails on the commands picked out by `bad`, without effect.\<close>

definition failing_exec :: "(cmd \<Rightarrow> bool) \<Rightarrow> cmd \<Rightarrow> mock \<Rightarrow> answer \<times> mock" where
  "failing_exec bad c m = (if bad c then (Inl (RedisError ''connection lost''), m) else mock_exec c m)"


section \<open>The laws\<close>

definition mock_view :: "mock \<Rightarrow> view" where
  "mock_view m = \<lparr>
     v_str = (\<lambda>k. if expired k m then None else jsmap_get (strings m) k),
     v_hash = (\<lambda>k. if expired k m then Map.empty else jsmap_get (the_hash k m)),
     v_set = (\<lambda>k. if expired k m then {} else set (the_set k m)),
     v_zset = (\<lambda>k. if expired k m then Map.empty else jsmap_get (the_zset k m))\<rparr>"

definition mock_others :: "mock \<Rightarrow> key set" where
  "mock_others m = {k. \<not> expired k m \<and> (jsmap_get (hashes m) k \<noteq> None \<or> jsmap_get (sets m) k \<noteq> None
     \<or> jsmap_get (zsets m) k \<noteq> None \<or> jsmap_get (lists m) k \<noteq> None \<or> jsmap_get (streams m) k \<noteq> None)}"

lemma now_ms_simps [simp]:
  "now_ms (m\<lparr>strings := a\<rparr>) = now_ms m" "now_ms (m\<lparr>hashes := b\<rparr>) = now_ms m"
  "now_ms (m\<lparr>sets := c\<rparr>) = now_ms m" "now_ms (m\<lparr>zsets := d\<rparr>) = now_ms m"
  "now_ms (m\<lparr>lists := ls\<rparr>) = now_ms m" "now_ms (m\<lparr>streams := e\<rparr>) = now_ms m" "now_ms (m\<lparr>stream_seq := n\<rparr>) = now_ms m"
  "now_ms (m\<lparr>expiries := x\<rparr>) = now_ms m"
  "now_ms (m\<lparr>ack_calls := f\<rparr>) = now_ms m" "now_ms (m\<lparr>uuid_seq := n\<rparr>) = now_ms m"
  by (simp_all add: now_ms_def)

lemma expired_simps [simp]:
  "expired k (m\<lparr>strings := a\<rparr>) = expired k m" "expired k (m\<lparr>hashes := b\<rparr>) = expired k m"
  "expired k (m\<lparr>sets := c\<rparr>) = expired k m" "expired k (m\<lparr>zsets := d\<rparr>) = expired k m"
  "expired k (m\<lparr>lists := ls\<rparr>) = expired k m" "expired k (m\<lparr>streams := e\<rparr>) = expired k m" "expired k (m\<lparr>stream_seq := n\<rparr>) = expired k m"
  "expired k (m\<lparr>ack_calls := f\<rparr>) = expired k m" "expired k (m\<lparr>uuid_seq := n\<rparr>) = expired k m"
  by (auto simp: expired_def split: option.splits)

lemma container_simps [simp]:
  "the_hash k (m\<lparr>strings := a\<rparr>) = the_hash k m" "the_hash k (m\<lparr>sets := c\<rparr>) = the_hash k m"
  "the_hash k (m\<lparr>zsets := d\<rparr>) = the_hash k m" "the_hash k (m\<lparr>lists := ls\<rparr>) = the_hash k m" "the_hash k (m\<lparr>streams := e\<rparr>) = the_hash k m"
  "the_hash k (m\<lparr>expiries := x\<rparr>) = the_hash k m" "the_hash k (m\<lparr>stream_seq := n\<rparr>) = the_hash k m"
  "the_hash k (m\<lparr>ack_calls := f\<rparr>) = the_hash k m" "the_hash k (m\<lparr>uuid_seq := n\<rparr>) = the_hash k m"
  "the_set k (m\<lparr>strings := a\<rparr>) = the_set k m" "the_set k (m\<lparr>hashes := b\<rparr>) = the_set k m"
  "the_set k (m\<lparr>zsets := d\<rparr>) = the_set k m" "the_set k (m\<lparr>lists := ls\<rparr>) = the_set k m" "the_set k (m\<lparr>streams := e\<rparr>) = the_set k m"
  "the_set k (m\<lparr>expiries := x\<rparr>) = the_set k m" "the_set k (m\<lparr>stream_seq := n\<rparr>) = the_set k m"
  "the_set k (m\<lparr>ack_calls := f\<rparr>) = the_set k m" "the_set k (m\<lparr>uuid_seq := n\<rparr>) = the_set k m"
  "the_zset k (m\<lparr>strings := a\<rparr>) = the_zset k m" "the_zset k (m\<lparr>hashes := b\<rparr>) = the_zset k m"
  "the_zset k (m\<lparr>sets := c\<rparr>) = the_zset k m" "the_zset k (m\<lparr>lists := ls\<rparr>) = the_zset k m" "the_zset k (m\<lparr>streams := e\<rparr>) = the_zset k m"
  "the_zset k (m\<lparr>expiries := x\<rparr>) = the_zset k m" "the_zset k (m\<lparr>stream_seq := n\<rparr>) = the_zset k m"
  "the_zset k (m\<lparr>ack_calls := f\<rparr>) = the_zset k m" "the_zset k (m\<lparr>uuid_seq := n\<rparr>) = the_zset k m"
  by (simp_all add: the_hash_def the_set_def the_zset_def)

lemma container_set [simp]:
  "the_hash k' (m\<lparr>hashes := jsmap_set k h hs\<rparr>) = (if k' = k then h else the_hash k' (m\<lparr>hashes := hs\<rparr>))"
  "the_set k' (m\<lparr>sets := jsmap_set k xs ss\<rparr>) = (if k' = k then xs else the_set k' (m\<lparr>sets := ss\<rparr>))"
  "the_zset k' (m\<lparr>zsets := jsmap_set k z zs\<rparr>) = (if k' = k then z else the_zset k' (m\<lparr>zsets := zs\<rparr>))"
  by (simp_all add: the_hash_def the_set_def the_zset_def)

lemma container_delete [simp]:
  "the_hash k' (m\<lparr>hashes := jsmap_delete k hs\<rparr>) = (if k' = k then [] else the_hash k' (m\<lparr>hashes := hs\<rparr>))"
  "the_set k' (m\<lparr>sets := jsmap_delete k ss\<rparr>) = (if k' = k then [] else the_set k' (m\<lparr>sets := ss\<rparr>))"
  "the_zset k' (m\<lparr>zsets := jsmap_delete k zs\<rparr>) = (if k' = k then [] else the_zset k' (m\<lparr>zsets := zs\<rparr>))"
  by (simp_all add: the_hash_def the_set_def the_zset_def)

lemma container_id [simp]:
  "the_hash k (m\<lparr>hashes := hashes m\<rparr>) = the_hash k m" "the_set k (m\<lparr>sets := sets m\<rparr>) = the_set k m"
  "the_zset k (m\<lparr>zsets := zsets m\<rparr>) = the_zset k m"
  by (simp_all add: the_hash_def the_set_def the_zset_def)

lemma view_eqI:
  "(\<And>k. v_str v k = v_str v' k) \<Longrightarrow> (\<And>k. v_hash v k = v_hash v' k) \<Longrightarrow> (\<And>k. v_set v k = v_set v' k) \<Longrightarrow>
   (\<And>k. v_zset v k = v_zset v' k) \<Longrightarrow> (v :: view) = v'"
  by (rule view.equality) (simp_all add: fun_eq_iff)

lemma mock_view_sel [simp]:
  "v_str (mock_view m) k = (if expired k m then None else jsmap_get (strings m) k)"
  "v_hash (mock_view m) k = (if expired k m then Map.empty else jsmap_get (the_hash k m))"
  "v_set (mock_view m) k = (if expired k m then {} else set (the_set k m))"
  "v_zset (mock_view m) k = (if expired k m then Map.empty else jsmap_get (the_zset k m))"
  by (simp_all add: mock_view_def)

lemma jsmap_get_Nil [simp]: "jsmap_get [] = Map.empty"
  by (simp add: jsmap_get_def fun_eq_iff)

lemma expired_drop_key [simp]: "expired k' (drop_key k m) = (k' \<noteq> k \<and> expired k' m)"
  by (auto simp: expired_def drop_key_def split: option.splits)

lemma drop_key_sel [simp]:
  "now_ms (drop_key k m) = now_ms m"
  "jsmap_get (strings (drop_key k m)) = (jsmap_get (strings m))(k := None)"
  "the_hash k' (drop_key k m) = (if k' = k then [] else the_hash k' m)"
  "the_set k' (drop_key k m) = (if k' = k then [] else the_set k' m)"
  "the_zset k' (drop_key k m) = (if k' = k then [] else the_zset k' m)"
  by (simp_all add: drop_key_def now_ms_def the_hash_def the_set_def the_zset_def)

lemma mock_view_drop_key: "mock_view (drop_key k m) = clear_key k (mock_view m)"
  by (rule view_eqI) auto

lemma drop_key_containers [simp]:
  "jsmap_get (hashes (drop_key k m)) = (jsmap_get (hashes m))(k := None)"
  "jsmap_get (sets (drop_key k m)) = (jsmap_get (sets m))(k := None)"
  "jsmap_get (zsets (drop_key k m)) = (jsmap_get (zsets m))(k := None)"
  "jsmap_get (lists (drop_key k m)) = (jsmap_get (lists m))(k := None)"
  "jsmap_get (streams (drop_key k m)) = (jsmap_get (streams m))(k := None)"
  by (simp_all add: drop_key_def)

lemma mock_others_drop_key: "mock_others (drop_key k m) = mock_others m - {k}"
  by (auto simp: mock_others_def)

lemma mock_view_expired: "expired k m \<Longrightarrow> mock_view (drop_key k m) = mock_view m"
  by (rule view_eqI) auto

text \<open>Looking at a key first drops it when it has expired, which the view does not show.\<close>

lemma alive_same:
  assumes "alive k m = (a, m1)"
  shows "mock_view m1 = mock_view m \<and> mock_others m1 = mock_others m \<and> now_ms m1 = now_ms m
    \<and> \<not> expired k m1
    \<and> (\<not> a \<longrightarrow> \<not> holds k m1 \<and> the_hash k m1 = [] \<and> the_set k m1 = [] \<and> the_zset k m1 = [])"
proof (cases "expired k m")
  case True
  then have "k \<notin> mock_others m" by (simp add: mock_others_def)
  then show ?thesis
    using assms True by (auto simp: alive_def mock_view_expired mock_others_drop_key holds_def)
qed (use assms in \<open>auto simp: alive_def\<close>)

lemma holds_iff:
  "\<not> expired k m \<Longrightarrow> holds k m \<longleftrightarrow> jsmap_get (strings m) k \<noteq> None \<or> k \<in> mock_others m"
  by (auto simp: holds_def mock_others_def)

lemma mock_others_simps [simp]:
  "mock_others (m\<lparr>hashes := jsmap_set k h (hashes m)\<rparr>) \<subseteq> insert k (mock_others m)"
  "mock_others (m\<lparr>sets := jsmap_set k xs (sets m)\<rparr>) \<subseteq> insert k (mock_others m)"
  "mock_others (m\<lparr>zsets := jsmap_set k z (zsets m)\<rparr>) \<subseteq> insert k (mock_others m)"
  "mock_others (m\<lparr>lists := jsmap_set k ls (lists m)\<rparr>) \<subseteq> insert k (mock_others m)"
  "mock_others (m\<lparr>streams := jsmap_set k es (streams m), stream_seq := n\<rparr>) \<subseteq> insert k (mock_others m)"
  "mock_others (m\<lparr>ack_calls := f\<rparr>) = mock_others m" "mock_others (m\<lparr>uuid_seq := n\<rparr>) = mock_others m"
  by (auto simp: mock_others_def split: if_splits)

lemma mock_others_update:
  "jsmap_get (hashes m) k \<noteq> None \<Longrightarrow> mock_others (m\<lparr>hashes := jsmap_set k h (hashes m)\<rparr>) \<subseteq> mock_others m"
  "jsmap_get (sets m) k \<noteq> None \<Longrightarrow> mock_others (m\<lparr>sets := jsmap_set k xs (sets m)\<rparr>) \<subseteq> mock_others m"
  "jsmap_get (zsets m) k \<noteq> None \<Longrightarrow> mock_others (m\<lparr>zsets := jsmap_set k z (zsets m)\<rparr>) \<subseteq> mock_others m"
  by (auto simp: mock_others_def split: if_splits)

definition lawful_at :: "cmd \<Rightarrow> mock \<Rightarrow> reply \<times> mock \<Rightarrow> bool" where
  "lawful_at c m rm \<longleftrightarrow>
     redis_law c (mock_view m) (mock_others m) (now_ms m) (fst rm) (mock_view (snd rm))
     \<and> mock_others (snd rm) \<subseteq> mock_others m \<union> created c \<and> now_ms (snd rm) = now_ms m"

definition lawful :: "cmd \<Rightarrow> bool" where
  "lawful c \<longleftrightarrow> (\<forall>m. good_cmd c \<longrightarrow> lawful_at c m (mock_cmd c m))"

lemma lawfulI:
  assumes "\<And>m m1 a. alive k m = (a, m1) \<Longrightarrow> \<not> expired k m1 \<Longrightarrow>
      \<not> a \<longrightarrow> \<not> holds k m1 \<and> the_hash k m1 = [] \<and> the_set k m1 = [] \<and> the_zset k m1 = [] \<Longrightarrow>
      good_cmd c \<Longrightarrow> lawful_at c m1 (mock_cmd c m)"
  shows "lawful c"
  unfolding lawful_def
proof (intro allI impI)
  fix m assume "good_cmd c"
  obtain a m1 where al: "alive k m = (a, m1)" by (cases "alive k m")
  show "lawful_at c m (mock_cmd c m)"
    using assms [OF al _ _ \<open>good_cmd c\<close>] alive_same [OF al] by (simp add: lawful_at_def)
qed

lemmas mock_read_defs = mock_get_def mock_hget_def mock_hgetall_def mock_smembers_def mock_sismember_def
  mock_exists_def opt_reply_def mock_hmget_def mock_xlen_def

lemma lawful_reads:
  "lawful (Get k)" "lawful (Hget k f)" "lawful (Hgetall k)" "lawful (Smembers k)" "lawful (Sismember k x)"
  "lawful (Exists k)" "lawful (Hmget k fs)" "lawful (Xlen k)"
  by (rule lawfulI [of k]; auto simp: lawful_at_def mock_read_defs map_of_jsmap_entries holds_iff
      split: option.splits)+

lemma lawful_hset: "lawful (Hset k f x)"
  by (rule lawfulI [of k]) (auto simp: lawful_at_def mock_hset_def Let_def intro!: view_eqI)

lemma lawful_hincrby: "lawful (Hincrby k f n)"
proof (rule lawfulI [of k])
  fix m m1 a
  assume al: "alive k m = (a, m1)" and live: "\<not> expired k m1"
  define x where "x = (case jsmap_get (the_hash k m1) f of None \<Rightarrow> 0 | Some x \<Rightarrow> js_trunc_number x) + n"
  have "mock_hincrby k f n m = (x, m1\<lparr>hashes := jsmap_set k (jsmap_set f (int_str x) (the_hash k m1)) (hashes m1)\<rparr>)"
    by (simp add: mock_hincrby_def al x_def Let_def)
  then show "lawful_at (Hincrby k f n) m1 (mock_cmd (Hincrby k f n) m)"
    using live by (auto simp: lawful_at_def x_def intro!: exI [of _ "int_str x"] view_eqI)
qed

lemma the_container_None:
  "jsmap_get (sets m) k = None \<Longrightarrow> the_set k m = []" "jsmap_get (zsets m) k = None \<Longrightarrow> the_zset k m = []"
  by (simp_all add: the_set_def the_zset_def)

lemma lawful_sadd: "lawful (Sadd k x)"
  by (rule lawfulI [of k]) (auto simp: lawful_at_def mock_sadd_def Let_def intro!: view_eqI
      dest: subsetD [OF mock_others_simps(2)])

lemma lawful_srem: "lawful (Srem k x)"
  by (rule lawfulI [of k]) (auto simp: lawful_at_def mock_srem_def Let_def the_container_None intro!: view_eqI
      dest: subsetD [OF mock_others_update(2), rotated] split: if_splits)

lemma lawful_zset: "lawful (Zadd k sc x)" "lawful (Zrem k x)"
  by (rule lawfulI [of k]; auto simp: lawful_at_def mock_zadd_def mock_zrem_def Let_def
      the_container_None intro!: view_eqI
      dest: subsetD [OF mock_others_simps(3)] subsetD [OF mock_others_update(3), rotated])+

lemma lawful_plain: "lawful (Xack k g i)" "lawful Now" "lawful (Sleep ms)"
  by (auto simp: lawful_def lawful_at_def mock_xack_def intro!: view_eqI)

lemma lawful_del: "lawful (Del k)"
  by (simp add: lawful_def lawful_at_def mock_del_def mock_view_drop_key mock_others_drop_key)

lemma expired_set_expiry:
  "expired k' (m\<lparr>expiries := jsmap_set k t (expiries m)\<rparr>) = (if k' = k then t \<le> now_ms m else expired k' m)"
  "expired k' (m\<lparr>expiries := jsmap_delete k (expiries m)\<rparr>) = (k' \<noteq> k \<and> expired k' m)"
  "expired k' (m\<lparr>expiries := jsmap_set k t (jsmap_delete k (expiries m))\<rparr>)
     = (if k' = k then t \<le> now_ms m else expired k' m)"
  by (auto simp: expired_def split: option.splits)

lemma lawful_expire: "lawful (Expire k t)"
  by (rule lawfulI [of k]) (auto simp: lawful_at_def mock_expire_def mock_exists_def holds_iff
      expired_set_expiry mock_others_def intro!: view_eqI split: if_splits)

lemma lawful_set: "lawful (SetC k x ttl nx)"
proof (rule lawfulI [of k])
  fix m m1 a
  assume al: "alive k m = (a, m1)" and live: "\<not> expired k m1" and good: "good_cmd (SetC k x ttl nx)"
    and gone: "\<not> a \<longrightarrow> \<not> holds k m1 \<and> the_hash k m1 = [] \<and> the_set k m1 = [] \<and> the_zset k m1 = []"
  define ex where "ex = (case ttl of None \<Rightarrow> jsmap_delete k (expiries m1)
         | Some s \<Rightarrow> jsmap_set k (now_ms m1 + int s * 1000) (jsmap_delete k (expiries m1)))"
  define m2 where "m2 = m1\<lparr>strings := jsmap_set k x (strings m1), hashes := jsmap_delete k (hashes m1),
       sets := jsmap_delete k (sets m1), zsets := jsmap_delete k (zsets m1), lists := jsmap_delete k (lists m1), expiries := ex\<rparr>"
  have ex: "expired k' m2 = (k' \<noteq> k \<and> expired k' m1)" for k'
    using good by (cases ttl) (auto simp: m2_def ex_def expired_def split: option.splits)
  have "mock_view m2 = put_str k x (mock_view m1)"
    by (rule view_eqI) (auto simp: ex, auto simp: m2_def)
  moreover have "mock_others m2 \<subseteq> mock_others m1"
    using live by (auto simp: mock_others_def ex) (auto simp: m2_def split: if_splits)
  moreover have "now_ms m2 = now_ms m1" by (simp add: m2_def)
  ultimately have set: "redis_law (SetC k x ttl nx) (mock_view m1) (mock_others m1) (now_ms m1) ROk (mock_view m2)"
    if "\<not> (nx \<and> jsmap_get (strings m1) k \<noteq> None)"
    using that live by auto
  have str: "v_str (mock_view m1) k = jsmap_get (strings m1) k" using live by simp
  show "lawful_at (SetC k x ttl nx) m1 (mock_cmd (SetC k x ttl nx) m)"
    using live gone set \<open>mock_others m2 \<subseteq> mock_others m1\<close> \<open>now_ms m2 = now_ms m1\<close>
    by (auto simp: lawful_at_def mock_set_def mock_exists_def al holds_iff ex_def [symmetric] m2_def [symmetric]
        str simp del: mock_view_sel)
qed

lemma lawful_streams: "lawful (Xadd k d)"
  by (rule lawfulI [of k]) (auto simp: lawful_at_def mock_xadd_def Let_def intro!: view_eqI
      dest: subsetD [OF mock_others_simps(5)])

lemma lawful_rpush: "lawful (Rpush k x)"
  by (rule lawfulI [of k]) (auto simp: lawful_at_def mock_rpush_def Let_def intro!: view_eqI
      dest: subsetD [OF mock_others_simps(4)])

lemma the_hash_None: "jsmap_get (hashes m) k = None \<Longrightarrow> the_hash k m = []"
  by (simp add: the_hash_def)

lemma lawful_hdel: "lawful (Hdel k f)"
  by (rule lawfulI [of k]) (auto simp: lawful_at_def mock_hdel_def Let_def the_hash_None intro!: view_eqI
      dest: subsetD [OF mock_others_update(1), rotated] split: if_splits)

lemma pad12_length: "length (pad12 s) = 12"
  by (simp add: pad12_def Let_def)

lemma pad12_digits: "list_all is_digit s \<Longrightarrow> filter (\<lambda>c. c \<noteq> CHR ''-'') (pad12 s) = pad12 s"
  by (auto simp: pad12_def Let_def list_all_iff filter_id_conv dest!: in_set_dropD)

lemma mock_uuid_digits: "length (filter (\<lambda>c. c \<noteq> CHR ''-'') (mock_uuid n)) = 32"
  by (simp add: mock_uuid_def pad12_digits [OF nat_str_digits] pad12_length)

lemma lawful_uuid: "lawful Uuid"
  by (auto simp: lawful_def lawful_at_def mock_uuid_digits intro!: view_eqI)

lemma sorted_entries_by_score: "sorted (List.map snd (sorted_entries k m))"
proof -
  have "sorted (List.map (\<lambda>e. (snd e, fst e)) (sorted_entries k m))"
    by (simp add: sorted_entries_def)
  then show ?thesis
    by (auto simp: sorted_map elim!: sorted_wrt_mono_rel [rotated])
qed

lemma sorted_entries_distinct: "distinct (List.map fst (sorted_entries k m))"
  using jsmap_entries_distinct [of "the_zset k m"]
  by (auto simp: sorted_entries_def distinct_map inj_on_def)

lemma range_entries:
  assumes "\<not> expired k m"
  shows "set (filter (\<lambda>e. lo \<le> snd e \<and> snd e \<le> hi) (sorted_entries k m)) = range_of (mock_view m) k lo hi"
  using assms by (auto simp: sorted_entries_def range_of_def in_jsmap_entries)

lemma lawful_range: "lawful (Zrangebyscore k lo hi n)"
proof (rule lawfulI [of k])
  fix m m1 a
  assume al: "alive k m = (a, m1)" and live: "\<not> expired k m1"
    and gone: "\<not> a \<longrightarrow> \<not> holds k m1 \<and> the_hash k m1 = [] \<and> the_set k m1 = [] \<and> the_zset k m1 = []"
  define full where "full = filter (\<lambda>e. lo \<le> snd e \<and> snd e \<le> hi) (sorted_entries k m1)"
  have "mock_zrangebyscore k lo hi m = (full, m1)"
    using gone by (auto simp: mock_zrangebyscore_def al full_def sorted_entries_def jsmap_entries_def)
  moreover have "distinct (List.map fst full)" "sorted (List.map snd full)"
    using sorted_entries_distinct sorted_entries_by_score
    by (auto simp: full_def distinct_map_filter sorted_filter)
  moreover have "set full = range_of (mock_view m1) k lo hi"
    unfolding full_def by (rule range_entries [OF live])
  ultimately show "lawful_at (Zrangebyscore k lo hi n) m1 (mock_cmd (Zrangebyscore k lo hi n) m)"
    by (auto simp: lawful_at_def)
qed

lemma lawful_from: "lawful (Zfrom k lo)"
proof (rule lawfulI [of k])
  fix m m1 a
  assume al: "alive k m = (a, m1)" and live: "\<not> expired k m1"
    and gone: "\<not> a \<longrightarrow> \<not> holds k m1 \<and> the_hash k m1 = [] \<and> the_set k m1 = [] \<and> the_zset k m1 = []"
  define full where "full = filter (\<lambda>e. lo \<le> snd e) (sorted_entries k m1)"
  have "mock_zfrom k lo m = (List.map fst full, m1)"
    using gone by (auto simp: mock_zfrom_def al full_def sorted_entries_def jsmap_entries_def)
  moreover have "distinct (List.map fst full)" "sorted (List.map snd full)"
    using sorted_entries_distinct sorted_entries_by_score
    by (auto simp: full_def distinct_map_filter sorted_filter)
  moreover have "set full = from_score (mock_view m1) k lo"
    using live by (auto simp: full_def sorted_entries_def from_score_def in_jsmap_entries)
  ultimately show "lawful_at (Zfrom k lo) m1 (mock_cmd (Zfrom k lo) m)"
    by (auto simp: lawful_at_def)
qed

lemma jsmap_get_delete_all:
  "jsmap_get (fold (\<lambda>e. jsmap_delete (fst e)) es z) x = (if x \<in> fst ` set es then None else jsmap_get z x)"
  by (induction es arbitrary: z) auto

lemma lawful_tail: "lawful (Ztail k n)"
proof (rule lawfulI [of k])
  fix m m1 a
  assume al: "alive k m = (a, m1)" and live: "\<not> expired k m1"
    and gone: "\<not> a \<longrightarrow> \<not> holds k m1 \<and> the_hash k m1 = [] \<and> the_set k m1 = [] \<and> the_zset k m1 = []"
  have "mock_ztail k n m = (List.map fst (drop (length (sorted_entries k m1) - n) (sorted_entries k m1)), m1)"
    using gone by (auto simp: mock_ztail_def al Let_def sorted_entries_def jsmap_entries_def)
  moreover have "set (sorted_entries k m1) = all_scores (mock_view m1) k"
    using live by (auto simp: sorted_entries_def all_scores_def in_jsmap_entries)
  ultimately show "lawful_at (Ztail k n) m1 (mock_cmd (Ztail k n) m)"
    using sorted_entries_distinct sorted_entries_by_score by (auto simp: lawful_at_def)
qed

text \<open>The removal of the entries whose score satisfies `P`.\<close>

lemma zremove_effect:
  assumes "alive k m = (a, m1)" "\<not> expired k m1" "\<not> a \<longrightarrow> the_zset k m1 = []"
  shows "\<exists>m2. mock_zremove k P m = (int (card {(x, sc). v_zset (mock_view m1) k x = Some sc \<and> P sc}), m2)
    \<and> mock_view m2 = set_scores k (\<lambda>x. case v_zset (mock_view m1) k x of None \<Rightarrow> None
        | Some sc \<Rightarrow> if P sc then None else Some sc) (mock_view m1)
    \<and> mock_others m2 \<subseteq> mock_others m1 \<and> now_ms m2 = now_ms m1"
proof -
  define doomed where "doomed = filter (\<lambda>e. P (snd e)) (sorted_entries k m1)"
  have z: "mock_zremove k P m = (if doomed = [] then (0, m1) else (int (length doomed),
      m1\<lparr>zsets := jsmap_set k (fold (\<lambda>e. jsmap_delete (fst e)) doomed (the_zset k m1)) (zsets m1)\<rparr>))"
    using assms(3) by (auto simp: mock_zremove_def assms(1) doomed_def sorted_entries_def jsmap_entries_def Let_def)
  have dset: "set doomed = {(x, sc). v_zset (mock_view m1) k x = Some sc \<and> P sc}"
    using assms(2) by (auto simp: doomed_def sorted_entries_def in_jsmap_entries)
  have "distinct doomed"
    using sorted_entries_distinct [of k m1] by (simp add: doomed_def distinct_map)
  then have card: "int (length doomed) = int (card {(x, sc). v_zset (mock_view m1) k x = Some sc \<and> P sc})"
    by (simp add: distinct_card [symmetric] dset)
  have doomed: "x \<in> fst ` set doomed \<longleftrightarrow> (case jsmap_get (the_zset k m1) x of None \<Rightarrow> False | Some sc \<Rightarrow> P sc)" for x
    using assms(2) by (auto simp: dset image_iff split: option.splits)
  show ?thesis
  proof (cases "doomed = []")
    case True
    have "\<not> P sc" if "jsmap_get (the_zset k m1) x = Some sc" for x sc
      using doomed [of x] True that by simp
    then have "mock_view m1 = set_scores k (\<lambda>x. case v_zset (mock_view m1) k x of None \<Rightarrow> None
        | Some sc \<Rightarrow> if P sc then None else Some sc) (mock_view m1)"
      using assms(2) by (auto simp: fun_eq_iff intro!: view_eqI split: option.splits)
    then show ?thesis using True card by (simp add: z)
  next
    case False
    define m2 where "m2 = m1\<lparr>zsets := jsmap_set k (fold (\<lambda>e. jsmap_delete (fst e)) doomed (the_zset k m1)) (zsets m1)\<rparr>"
    have "jsmap_get (zsets m1) k \<noteq> None"
      using False by (auto simp: doomed_def sorted_entries_def the_zset_def jsmap_entries_def split: option.splits)
    then have "mock_others m2 \<subseteq> mock_others m1"
      unfolding m2_def by (rule mock_others_update(3))
    moreover have "mock_view m2 = set_scores k (\<lambda>x. case v_zset (mock_view m1) k x of None \<Rightarrow> None
        | Some sc \<Rightarrow> if P sc then None else Some sc) (mock_view m1)"
      using assms(2) by (intro view_eqI)
        (auto simp: m2_def jsmap_get_delete_all doomed fun_eq_iff split: option.splits)
    ultimately show ?thesis
      using False card by (auto simp: z m2_def)
  qed
qed

lemma lawful_prune: "lawful (Zremrangebyscore k lo hi)"
proof (rule lawfulI [of k])
  fix m m1 a
  assume "alive k m = (a, m1)" "\<not> expired k m1"
    "\<not> a \<longrightarrow> \<not> holds k m1 \<and> the_hash k m1 = [] \<and> the_set k m1 = [] \<and> the_zset k m1 = []"
  then show "lawful_at (Zremrangebyscore k lo hi) m1 (mock_cmd (Zremrangebyscore k lo hi) m)"
    using zremove_effect [of k m a m1 "\<lambda>sc. lo \<le> sc \<and> sc \<le> hi"]
    by (auto simp: lawful_at_def mock_zremrangebyscore_def range_of_def)
qed

lemma lawful_prune_upto: "lawful (Zremupto k hi)"
proof (rule lawfulI [of k])
  fix m m1 a
  assume "alive k m = (a, m1)" "\<not> expired k m1"
    "\<not> a \<longrightarrow> \<not> holds k m1 \<and> the_hash k m1 = [] \<and> the_set k m1 = [] \<and> the_zset k m1 = []"
  then show "lawful_at (Zremupto k hi) m1 (mock_cmd (Zremupto k hi) m)"
    using zremove_effect [of k m a m1 "\<lambda>sc. sc \<le> hi"]
    by (auto simp: lawful_at_def mock_zremupto_def)
qed

lemma lawful_cmd: "lawful c"
  by (cases c) (auto intro: lawful_reads lawful_hset lawful_hincrby lawful_sadd lawful_srem lawful_zset lawful_plain
      lawful_del lawful_expire lawful_set lawful_streams lawful_uuid lawful_range lawful_prune
      lawful_rpush lawful_hdel lawful_from lawful_tail lawful_prune_upto)

interpretation mock_server: redis_available mock_exec mock_view mock_others now_ms
proof
  fix c m m'
  have law: "good_cmd c \<Longrightarrow> lawful_at c m (mock_cmd c m)"
    using lawful_cmd [of c] by (simp add: lawful_def)
  show "mock_exec c m = (Inr r, m') \<Longrightarrow> good_cmd c \<Longrightarrow>
      redis_law c (mock_view m) (mock_others m) (now_ms m) r (mock_view m')" for r
    using law by (auto simp: mock_exec_def lawful_at_def split: prod.splits)
  show "mock_exec c m = (Inl e, m') \<Longrightarrow> good_cmd c \<Longrightarrow> mock_view m' = mock_view m \<or>
      (\<exists>r. redis_law c (mock_view m) (mock_others m) (now_ms m) r (mock_view m'))" for e
    by (simp add: mock_exec_def split: prod.splits)
  show "mock_exec c m = (a, m') \<Longrightarrow> good_cmd c \<Longrightarrow> mock_others m' \<subseteq> mock_others m \<union> created c"
    "mock_exec c m = (a, m') \<Longrightarrow> good_cmd c \<Longrightarrow> now_ms m \<le> now_ms m'" for a
    using law by (auto simp: mock_exec_def lawful_at_def split: prod.splits)
  show "good_cmd c \<Longrightarrow> \<exists>r m'. mock_exec c m = (Inr r, m')"
    by (simp add: mock_exec_def split: prod.splits)
qed

text \<open>The failing connection obeys the laws of a server that may refuse.\<close>

interpretation failing_server: redis_server "failing_exec bad" mock_view mock_others now_ms for bad
proof
  fix c m m'
  show "failing_exec bad c m = (Inr r, m') \<Longrightarrow> good_cmd c \<Longrightarrow>
      redis_law c (mock_view m) (mock_others m) (now_ms m) r (mock_view m')" for r
    using mock_server.answered by (auto simp: failing_exec_def split: if_splits)
  show "failing_exec bad c m = (Inl e, m') \<Longrightarrow> good_cmd c \<Longrightarrow> mock_view m' = mock_view m \<or>
      (\<exists>r. redis_law c (mock_view m) (mock_others m) (now_ms m) r (mock_view m'))" for e
    using mock_server.refused by (auto simp: failing_exec_def split: if_splits)
  show "failing_exec bad c m = (a, m') \<Longrightarrow> good_cmd c \<Longrightarrow> mock_others m' \<subseteq> mock_others m \<union> created c"
    "failing_exec bad c m = (a, m') \<Longrightarrow> good_cmd c \<Longrightarrow> now_ms m \<le> now_ms m'" for a
    using mock_server.grows mock_server.clock by (auto simp: failing_exec_def split: if_splits)
qed

text \<open>The empty server, where the witnesses start.\<close>

lemma others_fresh: "mock_others (empty_mock t) = {}"
  by (simp add: mock_others_def empty_mock_def)

lemma empty_view [simp]:
  "v_str (mock_view (empty_mock t)) k = None" "v_hash (mock_view (empty_mock t)) k = Map.empty"
  "v_set (mock_view (empty_mock t)) k = {}" "v_zset (mock_view (empty_mock t)) k = Map.empty"
  by (simp_all add: mock_view_sel empty_mock_def expired_def the_hash_def the_set_def the_zset_def)

text \<open>What a write leaves, for the states the witnesses set up.\<close>

definition mock_after :: "cmd list \<Rightarrow> mock \<Rightarrow> mock" where
  "mock_after cs m = fold (\<lambda>c m. snd (mock_cmd c m)) cs m"

lemma mock_write:
  assumes "good_cmd c"
  shows "\<exists>r. redis_law c (mock_view m) (mock_others m) (now_ms m) r (mock_view (snd (mock_cmd c m)))"
    and "mock_others (snd (mock_cmd c m)) \<subseteq> mock_others m \<union> created c"
    and "now_ms (snd (mock_cmd c m)) = now_ms m"
  using lawful_cmd [of c] assms by (auto simp: lawful_def lawful_at_def)

lemma mock_after_Nil [simp]: "mock_after [] m = m"
  by (simp add: mock_after_def)

lemma mock_after_view:
  "mock_view (mock_after [SetC k x None False] m) = put_str k x (mock_view m)"
  "mock_view (mock_after [Hset k f x] m) = put_field k f x (mock_view m)"
  "mock_view (mock_after [Sadd k x] m) = set_members k (insert x (v_set (mock_view m) k)) (mock_view m)"
  "mock_view (mock_after [Zadd k sc x] m) = set_scores k ((v_zset (mock_view m) k)(x \<mapsto> sc)) (mock_view m)"
  using mock_write(1) [of "SetC k x None False" m] mock_write(1) [of "Hset k f x" m] mock_write(1) [of "Sadd k x" m]
    mock_write(1) [of "Zadd k sc x" m]
  by (simp_all add: mock_after_def)

lemma mock_after_Cons: "mock_after (c # c' # cs) m = mock_after (c' # cs) (mock_after [c] m)"
  by (simp add: mock_after_def)

text \<open>A list of plain writes, on the view.\<close>

fun write_view :: "cmd \<Rightarrow> view \<Rightarrow> view" where
  "write_view (SetC k x ttl nx) v = put_str k x v"
| "write_view (Hset k f x) v = put_field k f x v"
| "write_view (Sadd k x) v = set_members k (insert x (v_set v k)) v"
| "write_view (Zadd k sc x) v = set_scores k ((v_zset v k)(x \<mapsto> sc)) v"
| "write_view _ v = v"

fun plain_write :: "cmd \<Rightarrow> bool" where
  "plain_write (SetC k x ttl nx) = (ttl = None \<and> \<not> nx)"
| "plain_write (Hset k f x) = True"
| "plain_write (Sadd k x) = True"
| "plain_write (Zadd k sc x) = True"
| "plain_write _ = False"

lemma mock_after_writes:
  "list_all plain_write cs \<Longrightarrow> mock_view (mock_after cs m) = fold write_view cs (mock_view m)"
proof (induction cs arbitrary: m)
  case (Cons c cs)
  have "mock_view (snd (mock_cmd c m)) = write_view c (mock_view m)"
    using Cons.prems mock_after_view [where m = m] by (cases c) (auto simp: mock_after_def)
  then show ?case
    using Cons.IH [of "snd (mock_cmd c m)"] Cons.prems by (simp add: mock_after_def)
qed simp

lemma mock_after_clock [simp]: "list_all good_cmd cs \<Longrightarrow> now_ms (mock_after cs m) = now_ms m"
  by (induction cs arbitrary: m) (simp_all add: mock_after_def mock_write)

lemma mock_after_others: "list_all good_cmd cs \<Longrightarrow> mock_others (mock_after cs m) \<subseteq> mock_others m \<union> (\<Union>c \<in> set cs. created c)"
proof (induction cs arbitrary: m)
  case (Cons c cs)
  then show ?case
    using Cons.IH [of "snd (mock_cmd c m)"] mock_write(2) [of c m] by (auto simp: mock_after_def)
qed simp

lemma now_ms_empty [simp]: "now_ms (empty_mock t) = t"
  by (simp add: now_ms_def empty_mock_def)

declare mock_view_sel [simp del]

end
