(* ===== verification/WaitGate.thy ===== *)
theory WaitGate
  imports WaitIndex Emitter Interleaving MockRedis
begin

text \<open>
  The idempotency gate (src/liveness/wait_gate.ts) and the registration of a
  wait (src/liveness/wait_registration.ts), as programs over the Redis
  connection. The gate is refined to a function on the keyspace
  (`gate_spec`); its safety under arbitrary interleaving is proved over a
  pool of programs that step one command at a time.
\<close>


section \<open>The gate\<close>

definition ALLOW_CLAIMED :: string where "ALLOW_CLAIMED = ''claimed''"
definition ALLOW_UNREGISTERED :: string where "ALLOW_UNREGISTERED = ''unregistered''"
definition ALLOW_GATE_ERROR :: string where "ALLOW_GATE_ERROR = ''gate_error''"
definition DENY_ALREADY_CONSUMED :: string where "DENY_ALREADY_CONSUMED = ''already_consumed''"

lemmas gate_reason_defs = ALLOW_CLAIMED_def ALLOW_UNREGISTERED_def ALLOW_GATE_ERROR_def
  DENY_ALREADY_CONSUMED_def

record wait_gate_decision =
  allow :: bool
  gate_reason :: string
  gate_member :: string

definition claimed :: "string \<Rightarrow> wait_gate_decision" where
  "claimed m = \<lparr>allow = True, gate_reason = ALLOW_CLAIMED, gate_member = m\<rparr>"

definition already_consumed :: "string \<Rightarrow> wait_gate_decision" where
  "already_consumed m = \<lparr>allow = False, gate_reason = DENY_ALREADY_CONSUMED, gate_member = m\<rparr>"

definition unregistered :: wait_gate_decision where
  "unregistered = \<lparr>allow = True, gate_reason = ALLOW_UNREGISTERED, gate_member = []\<rparr>"

definition gate_error :: wait_gate_decision where
  "gate_error = \<lparr>allow = True, gate_reason = ALLOW_GATE_ERROR, gate_member = []\<rparr>"

lemma decisions_differ [simp]:
  "claimed m \<noteq> already_consumed m'" "claimed m \<noteq> unregistered" "claimed m \<noteq> gate_error"
  "already_consumed m' \<noteq> claimed m" "unregistered \<noteq> claimed m" "gate_error \<noteq> claimed m"
  "unregistered \<noteq> already_consumed m" "already_consumed m \<noteq> unregistered"
  "claimed m = claimed m' \<longleftrightarrow> m = m'"
  by (auto simp: claimed_def already_consumed_def unregistered_def gate_error_def gate_reason_defs)

lemma decisions_allow [simp]:
  "allow (claimed m)" "allow unregistered" "allow gate_error" "\<not> allow (already_consumed m)"
  "gate_member (already_consumed m) = m" "gate_reason (already_consumed m) = DENY_ALREADY_CONSUMED"
  by (simp_all add: claimed_def already_consumed_def unregistered_def gate_error_def)

definition consumedMarkerKey :: "key_schema \<Rightarrow> string \<Rightarrow> string \<Rightarrow> key" where
  "consumedMarkerKey sch session member = wait_consumed sch session (memberDigest member)"

definition askUserMember :: "message_header \<Rightarrow> string" where
  "askUserMember h = encodeMember
     \<lparr>wm_session = sessionId h, wm_parent = messageId h, wm_child = [], wm_group = []\<rparr>"

definition candidateMembers :: "message_header \<Rightarrow> string list" where
  "candidateMembers h =
     (let members = [memberFromResume h]
      in if taskGroupId h = [] \<and> askUserMember h \<notin> set members then members @ [askUserMember h]
         else members)"

definition markConsumed :: "key_schema \<Rightarrow> string \<Rightarrow> string \<Rightarrow> unit prog" where
  "markConsumed sch session member =
     catchP (bindP (setP (consumedMarkerKey sch session member) ''1'' (Some WAIT_CONSUMED_TTL_SECONDS) False)
               (\<lambda>_. Ret ()))
       (\<lambda>_. Ret ())"

text \<open>The loop over the candidates: claim, else look at the candidate's own marker, else the next.\<close>

fun claim_candidates :: "key_schema \<Rightarrow> string \<Rightarrow> string list \<Rightarrow> wait_gate_decision prog" where
  "claim_candidates sch session [] = Ret unregistered"
| "claim_candidates sch session (member # rest) =
     bindP (zremP (waitIndexKey sch session) member) (\<lambda>removed.
       if removed > 0 then seqP (markConsumed sch session member) (Ret (claimed member))
       else bindP (existsP (consumedMarkerKey sch session member)) (\<lambda>consumed.
         if consumed then Ret (already_consumed member) else claim_candidates sch session rest))"

definition consumeWaitEntry :: "key_schema \<Rightarrow> message_header \<Rightarrow> wait_gate_decision prog" where
  "consumeWaitEntry sch h =
     catchP (claim_candidates sch (sessionId h) (candidateMembers h)) (\<lambda>_. Ret gate_error)"

definition orphaned_reply_event :: "message_header \<Rightarrow> string \<Rightarrow> string \<Rightarrow> string \<Rightarrow> event_params" where
  "orphaned_reply_event h st workerId why =
     \<lparr>ep_session = sessionId h, ep_trace = traceId h, ep_type = ORPHANED_REPLY, ep_source = sourceAgentType h,
      ep_message = messageId h, ep_parent = parentMessageId h,
      ep_data = [(''reason'', JStr (str_or why DENY_ALREADY_CONSUMED)),
        (''caller_message_id'', JStr (messageId h)), (''child_message_id'', JStr (parentMessageId h)),
        (''task_group_id'', JStr (taskGroupId h)), (''status'', JStr st), (''worker_id'', JStr workerId)],
      ep_state_msg = [], ep_artifact_url = [], ep_metadata = []\<rparr>"

definition command_status :: "command \<Rightarrow> string" where
  "command_status c = (case c of ResumeCommand _ _ st _ _ \<Rightarrow> st | _ \<Rightarrow> [])"

definition emitOrphanedReply :: "key_schema \<Rightarrow> command \<Rightarrow> string \<Rightarrow> string \<Rightarrow> unit prog" where
  "emitOrphanedReply sch c workerId why =
     catchP (emitEvent sch \<lparr>fixedDataStreamName = None, emitterSourceAgentType = []\<rparr>
       (orphaned_reply_event (header c) (command_status c) workerId why)) (\<lambda>_. Ret ())"


section \<open>Registration\<close>

record register_wait_params =
  rw_session :: string
  rw_parent :: string
  rw_child :: string
  rw_group :: string
  rw_timeout :: int

definition wait_member_of :: "register_wait_params \<Rightarrow> string" where
  "wait_member_of p = encodeMember
     \<lparr>wm_session = rw_session p, wm_parent = rw_parent p, wm_child = rw_child p, wm_group = rw_group p\<rparr>"

definition registerWait :: "key_schema \<Rightarrow> register_wait_params \<Rightarrow> unit prog" where
  "registerWait sch p =
     catchP
       (bindP nowP (\<lambda>now.
          let deadlineMs = now + max 0 (rw_timeout p); member = wait_member_of p
          in seqP (zaddP (waitIndexKey sch (rw_session p)) deadlineMs member)
               (catchP (delP (consumedMarkerKey sch (rw_session p) member)) (\<lambda>_. Ret ()))))
       (\<lambda>_. Ret ())"


section \<open>The gate as a function on the keyspace\<close>

text \<open>
  What the gate promises: the first candidate with an entry or a marker decides.
  An entry is removed and its marker set; a marker without an entry denies;
  neither moves on; nothing left allows.
\<close>

fun gate_spec :: "key_schema \<Rightarrow> string \<Rightarrow> string list \<Rightarrow> view \<Rightarrow> wait_gate_decision \<times> view" where
  "gate_spec sch session [] v = (unregistered, v)"
| "gate_spec sch session (m # ms) v =
     (if v_zset v (waitIndexKey sch session) m \<noteq> None then
        (claimed m, put_str (consumedMarkerKey sch session m) ''1''
           (set_scores (waitIndexKey sch session)
              ((v_zset v (waitIndexKey sch session))(m := None)) v))
      else if v_str v (consumedMarkerKey sch session m) \<noteq> None then (already_consumed m, v)
      else gate_spec sch session ms v)"

lemma set_scores_same [simp]: "z m = None \<Longrightarrow> z(m := None) = z"
  by (auto simp: fun_eq_iff)

lemma set_scores_id: "v_zset v k m = None \<Longrightarrow> set_scores k ((v_zset v k)(m := None)) v = v"
  by (simp add: set_scores_def)

lemma wp_catchP_ignore:
  "wp exec (catchP p (\<lambda>_. Ret a)) Q E \<sigma> = wp exec p Q (\<lambda>_. Q a) \<sigma>"
  by simp

context redis_available
begin

lemma wp_markConsumed:
  assumes "\<And>s'. kv s' = put_str (consumedMarkerKey sch session m) ''1'' (kv s) \<Longrightarrow> oth s' \<subseteq> oth s \<Longrightarrow>
      clk s \<le> clk s' \<Longrightarrow>
      Q () (s', l @ [SetC (consumedMarkerKey sch session m) ''1'' (Some WAIT_CONSUMED_TTL_SECONDS) False])"
  shows "wp exec (markConsumed sch session m) Q E (s, l)"
  unfolding markConsumed_def wp_catchP wp_bindP by (rule wp_setP) (auto intro: assms)

lemma wp_claim_candidates:
  assumes "\<And>m. m \<in> set ms \<Longrightarrow> consumedMarkerKey sch session m \<notin> oth s"
  shows "wp exec (claim_candidates sch session ms)
      (\<lambda>d \<sigma>. (d, kv (fst \<sigma>)) = gate_spec sch session ms (kv s) \<and> oth (fst \<sigma>) \<subseteq> oth s \<and> clk s \<le> clk (fst \<sigma>))
      (\<lambda>_ _. False) (s, l)"
  using assms
proof (induction ms arbitrary: s l)
  case (Cons m ms)
  let ?k = "waitIndexKey sch session"
  show ?case
  proof (cases "v_zset (kv s) ?k m")
    case None
    show ?thesis
      unfolding claim_candidates.simps wp_bindP
    proof (rule wp_zremP)
      fix s1
      assume "kv s1 = set_scores ?k ((v_zset (kv s) ?k)(m := None)) (kv s)"
        and o1: "oth s1 \<subseteq> oth s" and c1: "clk s \<le> clk s1"
      then have k1: "kv s1 = kv s" using None by (simp add: set_scores_id)
      have "wp exec (bindP (existsP (consumedMarkerKey sch session m)) (\<lambda>consumed.
              if consumed then Ret (already_consumed m) else claim_candidates sch session ms))
          (\<lambda>d \<sigma>. (d, kv (fst \<sigma>)) = gate_spec sch session (m # ms) (kv s) \<and> oth (fst \<sigma>) \<subseteq> oth s
             \<and> clk s \<le> clk (fst \<sigma>))
          (\<lambda>_ _. False) (s1, l @ [Zrem ?k m])"
        unfolding wp_bindP
      proof (rule wp_existsP, goal_cases)
        case (1 s2 b)
        have mk: "consumedMarkerKey sch session m \<notin> oth s1" using Cons.prems o1 by auto
        show ?case
        proof (cases b)
          case True
          then show ?thesis using 1 mk k1 o1 c1 None by auto
        next
          case False
          have "wp exec (claim_candidates sch session ms)
             (\<lambda>d \<sigma>. (d, kv (fst \<sigma>)) = gate_spec sch session ms (kv s2) \<and> oth (fst \<sigma>) \<subseteq> oth s2 \<and> clk s2 \<le> clk (fst \<sigma>))
             (\<lambda>_ _. False) (s2, (l @ [Zrem ?k m]) @ [Exists (consumedMarkerKey sch session m)])"
            using 1 o1 Cons.prems by (intro Cons.IH) auto
          then show ?thesis
            using 1 False mk k1 o1 c1 None by (auto elim!: wp_mono)
        qed
      qed
      then show "wp exec (if (if v_zset (kv s) ?k m = None then 0 else 1) > (0::int)
            then seqP (markConsumed sch session m) (Ret (claimed m))
            else bindP (existsP (consumedMarkerKey sch session m)) (\<lambda>consumed.
              if consumed then Ret (already_consumed m) else claim_candidates sch session ms))
          (\<lambda>d \<sigma>. (d, kv (fst \<sigma>)) = gate_spec sch session (m # ms) (kv s) \<and> oth (fst \<sigma>) \<subseteq> oth s
             \<and> clk s \<le> clk (fst \<sigma>))
          (\<lambda>_ _. False) (s1, l @ [Zrem ?k m])"
        using None by simp
    qed
  next
    case (Some sc)
    then show ?thesis
      unfolding claim_candidates.simps wp_bindP
      by (intro wp_zremP) (auto intro!: wp_markConsumed)
  qed
qed simp

lemma gate_refines:
  assumes "\<And>m. m \<in> set (candidateMembers h) \<Longrightarrow> consumedMarkerKey sch (sessionId h) m \<notin> oth s"
  shows "wp exec (consumeWaitEntry sch h)
      (\<lambda>d \<sigma>. (d, kv (fst \<sigma>)) = gate_spec sch (sessionId h) (candidateMembers h) (kv s)
         \<and> oth (fst \<sigma>) \<subseteq> oth s \<and> clk s \<le> clk (fst \<sigma>)) (\<lambda>_ _. False) (s, l)"
  unfolding consumeWaitEntry_def wp_catchP
  by (rule wp_mono [OF wp_claim_candidates]) (use assms in auto)

text \<open>The first candidate decides alone when it has an entry or a marker, whatever else exists.\<close>

lemma candidateMembers_first: "\<exists>rest. candidateMembers h = memberFromResume h # rest"
  by (simp add: candidateMembers_def Let_def)

lemma wp_claim_first:
  assumes "v_zset (kv s) (waitIndexKey sch (sessionId h)) (memberFromResume h) \<noteq> None"
  shows "wp exec (consumeWaitEntry sch h)
     (\<lambda>d \<sigma>. d = claimed (memberFromResume h)
        \<and> kv (fst \<sigma>) = put_str (consumedMarkerKey sch (sessionId h) (memberFromResume h)) ''1''
             (set_scores (waitIndexKey sch (sessionId h))
               ((v_zset (kv s) (waitIndexKey sch (sessionId h)))(memberFromResume h := None)) (kv s)))
     (\<lambda>_ _. False) (s, l)"
proof -
  obtain rest where "candidateMembers h = memberFromResume h # rest" using candidateMembers_first by blast
  then show ?thesis
    using assms by (auto simp: consumeWaitEntry_def intro!: wp_zremP wp_markConsumed)
qed

lemma wp_deny_first:
  assumes "v_zset (kv s) (waitIndexKey sch (sessionId h)) (memberFromResume h) = None"
    and "v_str (kv s) (consumedMarkerKey sch (sessionId h) (memberFromResume h)) \<noteq> None"
  shows "wp exec (consumeWaitEntry sch h)
     (\<lambda>d \<sigma>. d = already_consumed (memberFromResume h) \<and> kv (fst \<sigma>) = kv s) (\<lambda>_ _. False) (s, l)"
proof -
  obtain rest where "candidateMembers h = memberFromResume h # rest" using candidateMembers_first by blast
  then show ?thesis
    using assms by (auto simp: consumeWaitEntry_def set_scores_id intro!: wp_zremP wp_existsP)
qed

end


section \<open>Registration on the keyspace\<close>

definition registered_view :: "key_schema \<Rightarrow> register_wait_params \<Rightarrow> millis \<Rightarrow> view \<Rightarrow> view" where
  "registered_view sch p now v =
     clear_key (consumedMarkerKey sch (rw_session p) (wait_member_of p))
       (set_scores (waitIndexKey sch (rw_session p))
          ((v_zset v (waitIndexKey sch (rw_session p)))(wait_member_of p \<mapsto> now + max 0 (rw_timeout p))) v)"

context redis_available
begin

lemma wp_registerWait:
  assumes "\<And>s'. kv s' = registered_view sch p (clk s) (kv s) \<Longrightarrow>
      oth s' \<subseteq> insert (waitIndexKey sch (rw_session p)) (oth s) \<Longrightarrow> clk s \<le> clk s' \<Longrightarrow>
      Q () (s', l @ [Now, Zadd (waitIndexKey sch (rw_session p)) (clk s + max 0 (rw_timeout p)) (wait_member_of p),
                     Del (consumedMarkerKey sch (rw_session p) (wait_member_of p))])"
  shows "wp exec (registerWait sch p) Q E (s, l)"
  unfolding registerWait_def Let_def wp_catchP wp_bindP wp_seqP
proof (rule wp_nowP, rule wp_zaddP, rule wp_delP, goal_cases)
  case (1 s1 s2 s3)
  then show ?case
    by (simp, intro assms) (auto simp: registered_view_def)
qed

end

lemma marker_not_index [simp]:
  "consumedMarkerKey sch x m \<noteq> waitIndexKey sch y" "waitIndexKey sch y \<noteq> consumedMarkerKey sch x m"
  by (simp_all add: consumedMarkerKey_def waitIndexKey_def)

lemma registered_present:
  "v_zset (registered_view sch p t v) (waitIndexKey sch (rw_session p)) (wait_member_of p)
     = Some (t + max 0 (rw_timeout p))"
  by (simp add: registered_view_def)

lemma registered_others:
  "m \<noteq> wait_member_of p \<Longrightarrow>
   v_zset (registered_view sch p t v) (waitIndexKey sch (rw_session p)) m
     = v_zset v (waitIndexKey sch (rw_session p)) m"
  by (simp add: registered_view_def)

lemma registered_markers:
  "v_str (registered_view sch p t v) k = (if k = consumedMarkerKey sch (rw_session p) (wait_member_of p) then None else v_str v k)"
  by (simp add: registered_view_def)


section \<open>Candidates and the abstract gate\<close>

lemma candidateMembers_cases:
  "candidateMembers h = [memberFromResume h]
   \<or> candidateMembers h = [memberFromResume h, askUserMember h] \<and> taskGroupId h = [] \<and> askUserMember h \<noteq> memberFromResume h"
  by (auto simp: candidateMembers_def Let_def)

lemma candidate_session:
  assumes "encodeMember w \<in> set (candidateMembers h)"
  shows "sessionId h = wm_session w"
  using assms candidateMembers_cases [of h]
  by (auto simp: memberFromResume_def askUserMember_def dest: sym)

text \<open>Denials come from markers, and a second pass over what a claim left denies.\<close>

lemma gate_spec_denies:
  "gate_spec sch x ms v = (d, v') \<Longrightarrow> \<not> allow d \<Longrightarrow>
   d = already_consumed (gate_member d) \<and> gate_member d \<in> set ms
   \<and> v_str v (consumedMarkerKey sch x (gate_member d)) \<noteq> None \<and> v' = v"
  by (induction ms) (auto split: if_splits)

lemma gate_spec_repeat:
  assumes "gate_spec sch x ms v = (claimed m, v')"
  shows "\<exists>m'. gate_spec sch x ms v' = (already_consumed m', v')"
  using assms
proof (induction ms)
  case (Cons m0 ms)
  show ?case
  proof (cases "v_zset v (waitIndexKey sch x) m0 = None")
    case False
    then show ?thesis using Cons.prems by auto
  next
    case True
    then have rest: "gate_spec sch x ms v = (claimed m, v')" "v_str v (consumedMarkerKey sch x m0) = None"
      using Cons.prems by (auto split: if_splits)
    have "v_zset v' (waitIndexKey sch x) m0 = None"
      using rest(1) True
    proof (induction ms)
      case (Cons m1 ms)
      then show ?case by (auto split: if_splits)
    qed simp
    then show ?thesis
      using Cons.IH [OF rest(1)] by auto
  qed
qed simp


section \<open>Properties\<close>

definition claims :: "string \<Rightarrow> wait_gate_decision prog \<Rightarrow> bool" where
  "claims m p = (case p of Ret d \<Rightarrow> d = claimed m | _ \<Rightarrow> False)"

lemma claims_won: "claims m p \<Longrightarrow> won (claimed m) k m p"
  by (auto simp: claims_def split: prog.splits)

lemma fair_claim_candidates:
  "(m \<in> set ms \<Longrightarrow> waitIndexKey sch x = k) \<Longrightarrow>
   fair (claimed m) k m (catchP (claim_candidates sch x ms) (\<lambda>_. Ret gate_error))"
proof (induction ms)
  case (Cons m0 ms)
  have keys: "m0 = m \<longrightarrow> waitIndexKey sch x = k" using Cons.prems by auto
  have "fair (claimed m) k m (catchP (claim_candidates sch x ms) (\<lambda>_. Ret gate_error))"
    by (rule Cons.IH) (use Cons.prems in auto)
  then show ?case
    using keys
    by (auto simp: zremP_def existsP_def markConsumed_def setP_def cmdP_def harmless_def as_int_def seqP_def
        split: sum.splits reply.splits)
qed simp

text \<open>Over a server that may refuse commands: a denial names a candidate with a marker.\<close>

context redis_server
begin

lemma wp_claim_candidates_any:
  assumes "v_str (kv s) = v_str v" "oth s \<subseteq> N"
  shows "wp exec (claim_candidates sch x ms)
     (\<lambda>d _. allow d \<or> (d = already_consumed (gate_member d) \<and> gate_member d \<in> set ms
        \<and> (v_str v (consumedMarkerKey sch x (gate_member d)) \<noteq> None \<or> consumedMarkerKey sch x (gate_member d) \<in> N)))
     (\<lambda>_ _. True) (s, l)"
  using assms
proof (induction ms arbitrary: s l)
  case (Cons m ms)
  let ?Q = "\<lambda>d (_ :: 's config). allow d \<or> (d = already_consumed (gate_member d) \<and> gate_member d \<in> set (m # ms)
        \<and> (v_str v (consumedMarkerKey sch x (gate_member d)) \<noteq> None \<or> consumedMarkerKey sch x (gate_member d) \<in> N))"
  have mark: "wp exec (markConsumed sch x m) (\<lambda>_ _. True) (\<lambda>_ _. True) \<sigma>" for \<sigma>
    by (simp add: wp_def split: prod.splits sum.splits)
  have look: "wp exec (existsP (consumedMarkerKey sch x m)) (\<lambda>b \<sigma>. wp exec
       (if b then Ret (already_consumed m) else claim_candidates sch x ms) ?Q (\<lambda>_ _. True) \<sigma>) (\<lambda>_ _. True) (s1, l1)"
    if "v_str (kv s1) = v_str v" "oth s1 \<subseteq> N" for s1 l1
    unfolding existsP_def
  proof (rule wp_cmdP_any, goal_cases)
    case (2 r s2)
    then have same: "v_str (kv s2) = v_str v" "oth s2 \<subseteq> N" using that by auto
    show ?case
    proof (cases "as_int r \<noteq> 0")
      case True
      then have "v_str v (consumedMarkerKey sch x m) \<noteq> None \<or> consumedMarkerKey sch x m \<in> N"
        using 2 that by (auto simp: as_int_def)
      then show ?thesis using True by simp
    next
      case False
      show ?thesis
        using wp_mono [OF Cons.IH [OF same], of ?Q "\<lambda>_ _. True"] False by auto
    qed
  qed simp_all
  show ?case
    unfolding claim_candidates.simps wp_bindP zremP_def
  proof (rule wp_cmdP_any, goal_cases)
    case (2 r s1)
    then have "v_str (kv s1) = v_str v" "oth s1 \<subseteq> N" using Cons.prems by auto
    then show ?case
      using look [of s1] by (auto intro: wp_mono [OF mark])
  qed simp_all
qed simp

lemma gate_never_raises_any:
  "wp exec (consumeWaitEntry sch h)
     (\<lambda>d _. allow d \<or> (d = already_consumed (gate_member d) \<and> gate_member d \<in> set (candidateMembers h)
        \<and> (v_str (kv s) (consumedMarkerKey sch (sessionId h) (gate_member d)) \<noteq> None
           \<or> consumedMarkerKey sch (sessionId h) (gate_member d) \<in> oth s)))
     (\<lambda>_ _. False) (s, l)"
  unfolding consumeWaitEntry_def wp_catchP
  by (rule wp_mono [OF wp_claim_candidates_any [where v = "kv s" and N = "oth s"]]) auto

end

lemma gate_run:
  assumes "redis_available exec kv oth clk"
    and "consumedMarkerKey sch (sessionId h) (memberFromResume h) \<notin> oth s"
    and "consumedMarkerKey sch (sessionId h) (askUserMember h) \<notin> oth s"
  shows "result exec (consumeWaitEntry sch h) s = Inr (fst (gate_spec sch (sessionId h) (candidateMembers h) (kv s)))
    \<and> kv (final exec (consumeWaitEntry sch h) s) = snd (gate_spec sch (sessionId h) (candidateMembers h) (kv s))"
proof -
  have "\<And>m. m \<in> set (candidateMembers h) \<Longrightarrow> consumedMarkerKey sch (sessionId h) m \<notin> oth s"
    using assms(2,3) candidateMembers_cases [of h] by auto
  from wp_total [OF redis_available.gate_refines [OF assms(1) this]]
  show ?thesis by (metis fst_conv snd_conv)
qed

lemma registered_claim:
  assumes avail: "redis_available exec kv oth clk"
    and fresh: "consumedMarkerKey sch (sessionId h) (memberFromResume h) \<notin> oth s"
      "consumedMarkerKey sch (sessionId h) (askUserMember h) \<notin> oth s"
    and reply: "sessionId h = rw_session p" "messageId h = rw_parent p" "parentMessageId h = rw_child p"
      "taskGroupId h = rw_group p"
  shows "result exec (consumeWaitEntry sch h) (final exec (registerWait sch p) s) = Inr (claimed (wait_member_of p))"
proof -
  let ?s = "final exec (registerWait sch p) s"
  have "wp exec (registerWait sch p) (\<lambda>_ \<sigma>. kv (fst \<sigma>) = registered_view sch p (clk s) (kv s)
      \<and> oth (fst \<sigma>) \<subseteq> insert (waitIndexKey sch (rw_session p)) (oth s)) (\<lambda>_ _. False) (s, [])"
    by (rule redis_available.wp_registerWait [OF avail]) simp
  then have s: "kv ?s = registered_view sch p (clk s) (kv s)" "oth ?s \<subseteq> insert (waitIndexKey sch (rw_session p)) (oth s)"
    by (auto elim!: wp_total)
  have "consumedMarkerKey sch (sessionId h) (memberFromResume h) \<notin> oth ?s"
    "consumedMarkerKey sch (sessionId h) (askUserMember h) \<notin> oth ?s"
    using fresh s(2) by auto
  note gate = gate_run [OF avail this]
  have "memberFromResume h = wait_member_of p"
    using reply by (simp add: memberFromResume_def wait_member_of_def)
  then show ?thesis
    using gate candidateMembers_cases [of h] registered_present [of sch p "clk s" "kv s"] reply(1) s(1)
    by auto
qed

text \<open>
  C1. Whatever replies race, however their handlers interleave, and whatever the
  rest of the world does short of registering the wait again, at most one of the
  gates claims a given wait-index entry.
\<close>

theorem gate_exclusive:
  assumes server: "redis_server exec kv oth clk"
    and world: "\<And>s s'. env s s' \<Longrightarrow> v_zset (kv s) (waitIndexKey sch (wm_session w)) (encodeMember w) = None \<Longrightarrow>
      v_zset (kv s') (waitIndexKey sch (wm_session w)) (encodeMember w) = None"
    and run: "pool_steps exec env (List.map (consumeWaitEntry sch) replies, s) (ps, s')"
  shows "length (filter (claims (encodeMember w)) ps) \<le> 1"
proof -
  let ?k = "waitIndexKey sch (wm_session w)" and ?m = "encodeMember w"
  have "fair (claimed ?m) ?k ?m (consumeWaitEntry sch h)" for h
    unfolding consumeWaitEntry_def
    by (rule fair_claim_candidates) (auto dest: candidate_session)
  then have "length (filter (won (claimed ?m) ?k ?m) ps) \<le> 1"
    by (intro redis_server.at_most_one_wins [OF server run]) (auto intro: world)
  moreover have "length (filter (claims ?m) ps) \<le> length (filter (won (claimed ?m) ?k ?m) ps)"
    by (induction ps) (auto dest: claims_won [where k = ?k])
  ultimately show ?thesis by simp
qed

text \<open>A wait and replies to it, for the witnesses: a sub-agent's, and one for askUser.\<close>

definition sample_wait :: register_wait_params where
  "sample_wait = \<lparr>rw_session = ''s|1'', rw_parent = ''msg-caller'', rw_child = ''msg-child'', rw_group = [], rw_timeout = 60000\<rparr>"

definition sample_member :: wait_member where
  "sample_member = \<lparr>wm_session = ''s|1'', wm_parent = ''msg-caller'', wm_child = ''msg-child'', wm_group = []\<rparr>"

definition sample_reply :: message_header where
  "sample_reply = mk_header ''msg-caller'' ''s|1'' ''trace-1''\<lparr>parentMessageId := ''msg-child''\<rparr>"

definition sample_ask_user :: register_wait_params where
  "sample_ask_user = \<lparr>rw_session = ''s|1'', rw_parent = ''msg-caller'', rw_child = [], rw_group = [], rw_timeout = 60000\<rparr>"

definition sample_registered :: mock where
  "sample_registered = final mock_exec (registerWait V1 sample_wait) (empty_mock 1000)"

lemma advance_keeps_absent:
  "v_zset (mock_view m) k x = None \<Longrightarrow> 0 \<le> t \<Longrightarrow> v_zset (mock_view (advance_time t m)) k x = None"
  by (auto simp: mock_view_sel advance_time_def expired_def now_ms_def the_zset_def split: if_splits option.splits)

theorem gate_exclusive_witness:
  "length (filter (claims (encodeMember sample_member))
     (fst (run_pool mock_exec [0, 1, 1, 0, 0] (List.map (consumeWaitEntry V1) [sample_reply, sample_reply], sample_registered)))) \<le> 1"
proof -
  let ?fin = "run_pool mock_exec [0, 1, 1, 0, 0] (List.map (consumeWaitEntry V1) [sample_reply, sample_reply], sample_registered)"
  have "pool_steps mock_exec (\<lambda>m m'. m' = advance_time 1000 m)
      (List.map (consumeWaitEntry V1) [sample_reply, sample_reply], sample_registered) (fst ?fin, snd ?fin)"
    using run_pool_steps by (metis prod.collapse)
  then show ?thesis
    by (rule gate_exclusive [OF mock_server.redis_server_axioms, rotated])
      (erule ssubst, rule advance_keeps_absent, assumption, simp)
qed

text \<open>
  C2. The gate does exactly what its specification says: the decision and the
  keyspace it leaves are those of `gate_spec`.
\<close>

theorem gate_meets_spec:
  assumes "redis_available exec kv oth clk"
    and "consumedMarkerKey sch (sessionId h) (memberFromResume h) \<notin> oth s"
    and "consumedMarkerKey sch (sessionId h) (askUserMember h) \<notin> oth s"
  shows "result exec (consumeWaitEntry sch h) s = Inr (fst (gate_spec sch (sessionId h) (candidateMembers h) (kv s)))
    \<and> kv (final exec (consumeWaitEntry sch h) s) = snd (gate_spec sch (sessionId h) (candidateMembers h) (kv s))"
  using assms by (rule gate_run)

lemma mock_registered:
  "mock_view (final mock_exec (registerWait V1 p) m) = registered_view V1 p (now_ms m) (mock_view m)
   \<and> mock_others (final mock_exec (registerWait V1 p) m) \<subseteq> insert (waitIndexKey V1 (rw_session p)) (mock_others m)"
proof -
  have "wp mock_exec (registerWait V1 p)
    (\<lambda>_ \<sigma>. mock_view (fst \<sigma>) = registered_view V1 p (now_ms m) (mock_view m)
       \<and> mock_others (fst \<sigma>) \<subseteq> insert (waitIndexKey V1 (rw_session p)) (mock_others m)) (\<lambda>_ _. False) (m, [])"
    by (rule mock_server.wp_registerWait) simp
  from wp_total [OF this] show ?thesis by auto
qed

lemma sample_marker_free: "consumedMarkerKey V1 x m \<notin> mock_others sample_registered"
  using mock_registered [of sample_wait "empty_mock 1000"] by (auto simp: sample_registered_def others_fresh)

theorem gate_meets_spec_witness:
  "result mock_exec (consumeWaitEntry V1 sample_reply) sample_registered =
     Inr (fst (gate_spec V1 ''s|1'' (candidateMembers sample_reply) (mock_view sample_registered)))"
  using gate_meets_spec [OF mock_server.redis_available_axioms, of V1 sample_reply sample_registered]
  by (simp add: sample_marker_free) (simp add: sample_reply_def mk_header_def)

text \<open>
  C3. The gate fails open: over any server that may refuse any command it
  returns a decision, and it denies a reply only on account of a marker of one of
  the reply's own candidates (or a value of another type under its name).
\<close>

theorem gate_denies_only_consumed:
  assumes "redis_server exec kv oth clk"
  shows "\<exists>d. result exec (consumeWaitEntry sch h) s = Inr d \<and>
    (allow d \<or> (d = already_consumed (gate_member d) \<and> gate_member d \<in> set (candidateMembers h) \<and>
       (v_str (kv s) (consumedMarkerKey sch (sessionId h) (gate_member d)) \<noteq> None
        \<or> consumedMarkerKey sch (sessionId h) (gate_member d) \<in> oth s)))"
  using wp_result [OF redis_server.gate_never_raises_any [OF assms, of sch h s "[]"]] by auto

text \<open>A connection whose ZREM fails: the reply goes through.\<close>

theorem gate_denies_only_consumed_witness:
  "\<exists>d. result (failing_exec (\<lambda>c. case c of Zrem _ _ \<Rightarrow> True | _ \<Rightarrow> False)) (consumeWaitEntry V1 sample_reply) (empty_mock 0) = Inr d
     \<and> allow d"
  using gate_denies_only_consumed [OF failing_server.redis_server_axioms
      [of "\<lambda>c. case c of Zrem _ _ \<Rightarrow> True | _ \<Rightarrow> False"], of V1 sample_reply "empty_mock 0"]
  by (auto simp: others_fresh empty_view)

text \<open>
  Two copies of one reply, one after the other: once the gate has claimed a
  wait for the first, the second is denied as already consumed.
\<close>

lemma gate_idempotent:
  assumes avail: "redis_available exec kv oth clk"
    and fresh: "consumedMarkerKey sch (sessionId h) (memberFromResume h) \<notin> oth s"
      "consumedMarkerKey sch (sessionId h) (askUserMember h) \<notin> oth s"
    and first: "result exec (consumeWaitEntry sch h) s = Inr (claimed m)"
  shows "\<exists>m'. result exec (consumeWaitEntry sch h) (final exec (consumeWaitEntry sch h) s) = Inr (already_consumed m')"
proof -
  let ?g = "gate_spec sch (sessionId h) (candidateMembers h)" and ?s = "final exec (consumeWaitEntry sch h) s"
  have cand: "\<And>m. m \<in> set (candidateMembers h) \<Longrightarrow> consumedMarkerKey sch (sessionId h) m \<notin> oth s"
    using fresh candidateMembers_cases [of h] by auto
  obtain d where d: "result exec (consumeWaitEntry sch h) s = Inr d" "(d, kv ?s) = ?g (kv s)" "oth ?s \<subseteq> oth s"
    by (rule wp_total [OF redis_available.gate_refines [OF avail cand]]) auto
  then have "?g (kv s) = (claimed m, kv ?s)" using first by simp
  then obtain m' where "?g (kv ?s) = (already_consumed m', kv ?s)"
    using gate_spec_repeat by blast
  moreover have cand': "\<And>m. m \<in> set (candidateMembers h) \<Longrightarrow> consumedMarkerKey sch (sessionId h) m \<notin> oth ?s"
    using cand d(3) by auto
  obtain d' where "result exec (consumeWaitEntry sch h) ?s = Inr d'"
    "d' = fst (?g (kv ?s))"
    by (rule wp_total [OF redis_available.gate_refines [OF avail cand']]) (auto simp: prod_eq_iff)
  ultimately show ?thesis by auto
qed

lemma gate_idempotent_example:
  "\<exists>m'. result mock_exec (consumeWaitEntry V1 sample_reply)
      (final mock_exec (consumeWaitEntry V1 sample_reply) sample_registered) = Inr (already_consumed m')"
proof (rule gate_idempotent [OF mock_server.redis_available_axioms])
  show "result mock_exec (consumeWaitEntry V1 sample_reply) sample_registered = Inr (claimed (wait_member_of sample_wait))"
    unfolding sample_registered_def
    by (rule registered_claim [OF mock_server.redis_available_axioms])
       (simp_all add: others_fresh sample_reply_def sample_wait_def mk_header_def)
qed (simp_all add: sample_marker_free)

text \<open>
  The order of the candidates protects a live askUser wait: a late duplicate
  of a sub-agent's reply, whose own entry is gone and own marker set, is denied
  at its own candidate and leaves the keyspace, the askUser entry included, as
  it was.
\<close>

lemma duplicate_spares_ask_user:
  assumes avail: "redis_available exec kv oth clk"
    and fresh: "consumedMarkerKey sch (sessionId h) (memberFromResume h) \<notin> oth s"
      "consumedMarkerKey sch (sessionId h) (askUserMember h) \<notin> oth s"
    and gone: "v_zset (kv s) (waitIndexKey sch (sessionId h)) (memberFromResume h) = None"
    and marked: "v_str (kv s) (consumedMarkerKey sch (sessionId h) (memberFromResume h)) \<noteq> None"
  shows "result exec (consumeWaitEntry sch h) s = Inr (already_consumed (memberFromResume h))
    \<and> kv (final exec (consumeWaitEntry sch h) s) = kv s"
  using gate_run [OF avail fresh] candidateMembers_cases [of h] gone marked by auto

text \<open>
  An answer to askUser finds its wait whatever the client put in the
  parent field, provided that field does not name a wait or a marker of its own.
\<close>

lemma ask_user_answer_claimed:
  assumes avail: "redis_available exec kv oth clk"
    and fresh: "consumedMarkerKey sch (sessionId h) (memberFromResume h) \<notin> oth s"
      "consumedMarkerKey sch (sessionId h) (askUserMember h) \<notin> oth s"
    and single: "taskGroupId h = []"
    and waiting: "v_zset (kv s) (waitIndexKey sch (sessionId h)) (askUserMember h) \<noteq> None"
    and own: "v_zset (kv s) (waitIndexKey sch (sessionId h)) (memberFromResume h) = None"
      "v_str (kv s) (consumedMarkerKey sch (sessionId h) (memberFromResume h)) = None"
  shows "result exec (consumeWaitEntry sch h) s = Inr (claimed (askUserMember h))
    \<and> v_zset (kv (final exec (consumeWaitEntry sch h) s)) (waitIndexKey sch (sessionId h)) (askUserMember h) = None"
proof -
  have "candidateMembers h = [memberFromResume h, askUserMember h]"
    using single waiting own by (auto simp: candidateMembers_def Let_def)
  then show ?thesis
    using gate_run [OF avail fresh] waiting own by auto
qed

text \<open>The two waits registered, and the sub-agent's answered once.\<close>

definition sample_asked :: mock where
  "sample_asked = final mock_exec (registerWait V1 sample_ask_user) sample_registered"

definition sample_answered :: mock where
  "sample_answered = final mock_exec (consumeWaitEntry V1 sample_reply) sample_asked"

lemma sample_asked_marker_free: "consumedMarkerKey V1 x m \<notin> mock_others sample_asked"
  using mock_registered [of sample_ask_user sample_registered] sample_marker_free [of x m]
  by (auto simp: sample_asked_def)

lemma sample_members_differ: "memberFromResume sample_reply \<noteq> askUserMember sample_reply"
  "memberFromResume sample_reply = wait_member_of sample_wait"
  "askUserMember sample_reply = wait_member_of sample_ask_user"
  "candidateMembers sample_reply = [memberFromResume sample_reply, askUserMember sample_reply]"
  by (simp_all add: memberFromResume_def askUserMember_def wait_member_of_def sample_reply_def sample_wait_def
      sample_ask_user_def mk_header_def candidateMembers_def)

lemma sample_asked_entry:
  "v_zset (mock_view sample_asked) (waitIndexKey V1 (sessionId sample_reply)) (memberFromResume sample_reply) \<noteq> None"
proof -
  have w: "wait_member_of sample_wait \<noteq> wait_member_of sample_ask_user"
    "rw_session sample_ask_user = rw_session sample_wait" "sessionId sample_reply = rw_session sample_wait"
    using sample_members_differ by (auto simp: sample_ask_user_def sample_wait_def sample_reply_def mk_header_def)
  have v: "mock_view sample_registered = registered_view V1 sample_wait 1000 (mock_view (empty_mock 1000))"
    using mock_registered [of sample_wait "empty_mock 1000"]
    by (simp add: sample_registered_def now_ms_def) (simp add: empty_mock_def)
  show ?thesis
    using mock_registered [of sample_ask_user sample_registered] w
      registered_others [OF w(1), of V1] registered_present [of V1 sample_wait]
    by (simp add: sample_asked_def v sample_members_differ)
qed

lemma sample_answered_facts:
  "mock_view sample_answered = put_str (consumedMarkerKey V1 (sessionId sample_reply) (memberFromResume sample_reply)) ''1''
     (set_scores (waitIndexKey V1 (sessionId sample_reply))
       ((v_zset (mock_view sample_asked) (waitIndexKey V1 (sessionId sample_reply)))(memberFromResume sample_reply := None))
       (mock_view sample_asked))"
  "consumedMarkerKey V1 x m \<notin> mock_others sample_answered"
proof -
  have "wp mock_exec (consumeWaitEntry V1 sample_reply)
      (\<lambda>d \<sigma>. (d, mock_view (fst \<sigma>)) = gate_spec V1 (sessionId sample_reply) (candidateMembers sample_reply) (mock_view sample_asked)
         \<and> mock_others (fst \<sigma>) \<subseteq> mock_others sample_asked \<and> now_ms sample_asked \<le> now_ms (fst \<sigma>))
      (\<lambda>_ _. False) (sample_asked, [])"
    by (rule mock_server.gate_refines) (simp add: sample_asked_marker_free)
  note run = wp_total [OF this]
  show "mock_view sample_answered = put_str (consumedMarkerKey V1 (sessionId sample_reply) (memberFromResume sample_reply)) ''1''
     (set_scores (waitIndexKey V1 (sessionId sample_reply))
       ((v_zset (mock_view sample_asked) (waitIndexKey V1 (sessionId sample_reply)))(memberFromResume sample_reply := None))
       (mock_view sample_asked))"
    using sample_asked_entry by (rule_tac run) (auto simp: sample_answered_def sample_members_differ(4))
  show "consumedMarkerKey V1 x m \<notin> mock_others sample_answered"
    using sample_asked_marker_free [of x m] by (rule_tac run) (auto simp: sample_answered_def)
qed

lemma duplicate_spares_ask_user_example:
  "result mock_exec (consumeWaitEntry V1 sample_reply) sample_answered
     = Inr (already_consumed (memberFromResume sample_reply))"
  using duplicate_spares_ask_user [OF mock_server.redis_available_axioms, of V1 sample_reply sample_answered]
  by (simp add: sample_answered_facts)

definition sample_ask_only :: mock where
  "sample_ask_only = final mock_exec (registerWait V1 sample_ask_user) (empty_mock 0)"

lemma ask_user_answer_claimed_example:
  "result mock_exec (consumeWaitEntry V1 sample_reply) sample_ask_only = Inr (claimed (askUserMember sample_reply))"
proof -
  have v: "mock_view sample_ask_only = registered_view V1 sample_ask_user (now_ms (empty_mock 0)) (mock_view (empty_mock 0))"
    "mock_others sample_ask_only \<subseteq> {waitIndexKey V1 (rw_session sample_ask_user)}"
    using mock_registered [of sample_ask_user "empty_mock 0"] by (simp_all add: sample_ask_only_def others_fresh)
  then have free: "consumedMarkerKey V1 x m \<notin> mock_others sample_ask_only" for x m
    by auto
  have s: "sessionId sample_reply = rw_session sample_ask_user" "taskGroupId sample_reply = []"
    by (simp_all add: sample_reply_def sample_ask_user_def mk_header_def)
  show ?thesis
    using ask_user_answer_claimed [OF mock_server.redis_available_axioms free free s(2)]
      registered_present [of V1 sample_ask_user] registered_others [of "wait_member_of sample_wait" sample_ask_user V1]
      sample_members_differ registered_markers [of V1 sample_ask_user]
    by (simp add: v(1) s(1))
qed

end
