(* ===== verification/WaitReply.thy ===== *)
theory WaitReply
  imports Keys Protocol
begin

text \<open>
  Replies built by someone other than the callee that owed them
  (src/liveness/wait_reply.ts): the sweeper and a dispatch that found no worker
  build the same resume command through `standInReply`; the ones a dispatch
  queued are flushed after the caller's handler.
\<close>

definition SYNTHESIZED_BY_SWEEPER :: string where "SYNTHESIZED_BY_SWEEPER = ''wait_sweeper''"
definition SYNTHESIZED_BY_DISPATCH :: string where "SYNTHESIZED_BY_DISPATCH = ''dispatch''"

definition failureReplyData :: "string \<Rightarrow> string \<Rightarrow> string \<Rightarrow> jobj" where
  "failureReplyData err errorCode childMessageId =
     [(''error'', JStr err), (''error_code'', JStr errorCode), (''child_message_id'', JStr childMessageId)]"

text \<open>The parameters; an omitted optional field has its default here.\<close>

record stand_in_reply_params =
  si_session :: string
  si_callerMessage :: string
  si_callerAgentType :: string
  si_childMessage :: string
  si_childAgentType :: string
  si_taskGroup :: string
  si_trace :: string
  si_status :: string
  si_content :: json
  si_replyData :: json
  si_extraPayload :: jobj
  si_metadata :: jobj
  si_errorCode :: string
  si_synthesizedBy :: string
  si_userCode :: string
  si_userName :: string

definition stand_in_metadata :: "stand_in_reply_params \<Rightarrow> jobj" where
  "stand_in_metadata p = ospread (ospread [] (si_metadata p))
     [(''synthesized_by'', JStr (si_synthesizedBy p)),
      (''liveness_error_code'', JStr (si_errorCode p)),
      (''child_message_id'', JStr (si_childMessage p))]"

definition stand_in_header :: "stand_in_reply_params \<Rightarrow> string \<Rightarrow> message_header" where
  "stand_in_header p trace =
     (mk_header (si_callerMessage p) (si_session p) trace)
       \<lparr>sourceAgentType := si_childAgentType p, targetAgentType := si_callerAgentType p,
        parentMessageId := si_childMessage p, taskGroupId := si_taskGroup p,
        userCode := si_userCode p, userName := si_userName p, metadata := stand_in_metadata p\<rparr>"

definition stand_in_command :: "stand_in_reply_params \<Rightarrow> string \<Rightarrow> command" where
  "stand_in_command p trace = ResumeCommand (stand_in_header p trace) (si_content p) (si_status p)
     (si_replyData p) (si_extraPayload p)"

definition standInReply :: "stand_in_reply_params \<Rightarrow> command prog" where
  "standInReply p = bindP (if si_trace p \<noteq> [] then Ret (si_trace p)
       else bindP uuidP (\<lambda>u. Ret (filter (\<lambda>c. c \<noteq> CHR ''-'') u)))
     (\<lambda>trace. case check_command (stand_in_command p trace) of
        Inl e \<Rightarrow> Raise e
      | Inr c \<Rightarrow> Ret c)"

text \<open>A reply that cannot be delivered is logged and dropped.\<close>

definition flushPendingGroupReplies :: "key_schema \<Rightarrow> command list \<Rightarrow> unit prog" where
  "flushPendingGroupReplies sch replies = forP replies (\<lambda>reply.
     catchP (xaddP (ctrl_stream sch (targetAgentType (header reply))) (command_payload reply)) (\<lambda>_. Ret ()))"


section \<open>The shape of a stand-in\<close>

lemma stand_in_header_simps [simp]:
  "messageId (stand_in_header p t) = si_callerMessage p" "sessionId (stand_in_header p t) = si_session p"
  "parentMessageId (stand_in_header p t) = si_childMessage p" "taskGroupId (stand_in_header p t) = si_taskGroup p"
  "targetAgentType (stand_in_header p t) = si_callerAgentType p" "sourceAgentType (stand_in_header p t) = si_childAgentType p"
  "metadata (stand_in_header p t) = stand_in_metadata p" "traceId (stand_in_header p t) = t"
  by (simp_all add: stand_in_header_def mk_header_def)

lemma stand_in_command_simps [simp]:
  "header (stand_in_command p t) = stand_in_header p t" "cmd_status (stand_in_command p t) = si_status p"
  "cmd_replyData (stand_in_command p t) = si_replyData p" "cmd_content (stand_in_command p t) = si_content p"
  by (simp_all add: stand_in_command_def)

lemma valid_stand_in: "si_status p \<noteq> [] \<Longrightarrow> wf_obj (si_extraPayload p) \<Longrightarrow> valid_command (stand_in_command p t)"
  by (simp add: valid_command_def stand_in_command_def check_defs wf_header_def stand_in_metadata_def)

context redis_available
begin

lemma wp_standInReply:
  assumes "si_status p \<noteq> []"
    and "\<And>s' trace. kv s' = kv s \<Longrightarrow> oth s' \<subseteq> oth s \<Longrightarrow> clk s \<le> clk s' \<Longrightarrow> (si_trace p \<noteq> [] \<longrightarrow> trace = si_trace p) \<Longrightarrow>
      Q (stand_in_command p trace) (s', l @ (if si_trace p = [] then [Uuid] else []))"
  shows "wp exec (standInReply p) Q E (s, l)"
proof -
  have check: "check_command (stand_in_command p t) = Inr (stand_in_command p t)" for t
    using assms(1) by (simp add: stand_in_command_def check_defs)
  show ?thesis
    using assms(2) [of s] assms(2) by (auto simp: standInReply_def check intro!: wp_uuidP)
qed

end

end
