(* ===== verification/Registry.thy ===== *)
theory Registry
  imports Keys Protocol MockRedis
begin

text \<open>
  The worker registry (src/registry.ts): presence leases with their fencing
  token, scoped locks, membership of agent types with the denylist, the admin
  state of a worker, and the execution records of a session with their timeline.

  The only state of a registry object is its map of lock tokens; an operation
  that changes it returns the new one. A record read back from Redis is a JSON
  value: a falsy one is treated as absent, as the code does, and assigning to a
  property of a value that is not an object is the TypeError of strict mode.
\<close>


section \<open>Presence\<close>

record decoded_presence =
  dp_token :: "string option"
  dp_lastSeen :: int
  dp_isLegacy :: bool
  dp_ip :: string

definition encodeWorkerPresence :: "string option \<Rightarrow> millis \<Rightarrow> string \<Rightarrow> string" where
  "encodeWorkerPresence token lastSeen ip = json_stringify (JObj [
     (''version'', JNum 1),
     (''token'', (case token of None \<Rightarrow> JNull | Some t \<Rightarrow> JStr t)),
     (''last_seen'', JNum lastSeen),
     (''ip_address'', JStr ip)])"

text \<open>`Number(v || 0)`; NaN counts as 0, which is how every use of it compares.\<close>

definition js_number_or_zero :: "json option \<Rightarrow> int" where
  "js_number_or_zero v = (case v of
     Some (JNum n) \<Rightarrow> n
   | Some (JDec l) \<Rightarrow> js_trunc_number l
   | Some (JStr s) \<Rightarrow> js_trunc_number s
   | Some (JBool True) \<Rightarrow> 1
   | _ \<Rightarrow> 0)"

definition opt_token :: "json option \<Rightarrow> string option" where
  "opt_token v = (case v of None \<Rightarrow> None | Some JNull \<Rightarrow> None | Some x \<Rightarrow> Some (js_String x))"

definition decodeWorkerPresence :: "string option \<Rightarrow> decoded_presence" where
  "decodeWorkerPresence raw = (case raw of
     None \<Rightarrow> \<lparr>dp_token = None, dp_lastSeen = 0, dp_isLegacy = False, dp_ip = []\<rparr>
   | Some s \<Rightarrow>
       (case json_parse s of
          None \<Rightarrow> \<lparr>dp_token = Some s, dp_lastSeen = 0, dp_isLegacy = True, dp_ip = []\<rparr>
        | Some (JObj r) \<Rightarrow>
            \<lparr>dp_token = opt_token (oget r ''token''),
             dp_lastSeen = js_number_or_zero (oget r ''last_seen''),
             dp_isLegacy = False,
             dp_ip = (case oget r ''ip_address'' of Some (JStr i) \<Rightarrow> i | _ \<Rightarrow> [])\<rparr>
        | Some v \<Rightarrow>
            if v = JNum 1 then \<lparr>dp_token = None, dp_lastSeen = 0, dp_isLegacy = True, dp_ip = []\<rparr>
            else \<lparr>dp_token = Some (js_String v), dp_lastSeen = 0, dp_isLegacy = True, dp_ip = []\<rparr>))"

lemma presence_roundtrip:
  "decodeWorkerPresence (Some (encodeWorkerPresence token lastSeen ip)) =
     \<lparr>dp_token = token, dp_lastSeen = lastSeen, dp_isLegacy = False, dp_ip = ip\<rparr>"
  by (cases token)
     (simp_all add: decodeWorkerPresence_def encodeWorkerPresence_def json_parse_stringify opt_token_def
        js_number_or_zero_def)


section \<open>Scoped locks\<close>

definition decodeLockToken :: "string option \<Rightarrow> string option" where
  "decodeLockToken raw = (case raw of
     None \<Rightarrow> None
   | Some s \<Rightarrow>
       (case json_parse s of
          None \<Rightarrow> Some s
        | Some (JObj r) \<Rightarrow> opt_token (oget r ''token'')
        | Some v \<Rightarrow> if v = JNum 1 then None else Some (js_String v)))"

definition lock_value :: "string \<Rightarrow> string" where
  "lock_value token = json_stringify (JObj [(''token'', JStr token)])"

definition acquireScopedLock :: "key \<Rightarrow> string \<Rightarrow> nat \<Rightarrow> bool prog" where
  "acquireScopedLock k token ttlSeconds = setP k (lock_value token) (Some ttlSeconds) True"

definition releaseScopedLock :: "key \<Rightarrow> string \<Rightarrow> bool prog" where
  "releaseScopedLock k token = bindP (getP k) (\<lambda>raw.
     case raw of
       None \<Rightarrow> Ret (token = [])
     | Some _ \<Rightarrow>
         if token = [] then seqP (delP k) (Ret True)
         else if decodeLockToken raw \<noteq> Some token then Ret False
         else seqP (delP k) (Ret True))"

lemma lock_roundtrip: "decodeLockToken (Some (lock_value token)) = Some token"
  by (simp add: decodeLockToken_def lock_value_def json_parse_stringify opt_token_def)


section \<open>Workers\<close>

record registry =
  reg_schema :: key_schema
  reg_ip :: string
  lockTokens :: "string \<Rightarrow> string option"

definition lock_token :: "registry \<Rightarrow> string \<Rightarrow> string option" where
  "lock_token reg workerId = (case lockTokens reg workerId of
     None \<Rightarrow> None | Some t \<Rightarrow> if t = [] then None else Some t)"

definition isWorkerDeniedForType :: "registry \<Rightarrow> string \<Rightarrow> string \<Rightarrow> bool prog" where
  "isWorkerDeniedForType reg agentType workerId = sismemberP (agentTypeDenied (reg_schema reg) agentType) workerId"

definition registerWorkerMembership :: "registry \<Rightarrow> string \<Rightarrow> string list \<Rightarrow> unit prog" where
  "registerWorkerMembership reg workerId agentTypes =
     seqP (saddP (known_workers (reg_schema reg)) workerId)
       (forP agentTypes (\<lambda>agentType.
          seqP (saddP (workerDeclaredAgentTypes (reg_schema reg) workerId) agentType)
            (bindP (isWorkerDeniedForType reg agentType workerId) (\<lambda>denied.
               if denied then Ret () else saddP (agentTypeMembers (reg_schema reg) agentType) workerId))))"

definition heartbeatWorker :: "registry \<Rightarrow> string \<Rightarrow> nat \<Rightarrow> bool prog" where
  "heartbeatWorker reg workerId leaseTtlSeconds = bindP nowP (\<lambda>now.
     let k = worker_online_lease (reg_schema reg) workerId;
         known = seqP (saddP (known_workers (reg_schema reg)) workerId) (Ret True)
     in bindP (getP k) (\<lambda>current.
       case lock_token reg workerId of
         Some token \<Rightarrow>
           if current = None then
             bindP (setP k (encodeWorkerPresence (Some token) now (reg_ip reg)) (Some leaseTtlSeconds) True)
               (\<lambda>ok. if \<not> ok then Ret False else known)
           else if dp_token (decodeWorkerPresence current) \<noteq> Some token then Ret False
           else seqP (setP k (encodeWorkerPresence (Some token) now (reg_ip reg)) (Some leaseTtlSeconds) False) known
       | None \<Rightarrow>
           if dp_token (decodeWorkerPresence current) \<noteq> None then Ret False
           else seqP (setP k (encodeWorkerPresence None now (reg_ip reg)) (Some leaseTtlSeconds) False) known))"

definition registerWorker :: "registry \<Rightarrow> string \<Rightarrow> string list \<Rightarrow> nat \<Rightarrow> unit prog" where
  "registerWorker reg workerId agentTypes leaseTtlSeconds =
     seqP (registerWorkerMembership reg workerId agentTypes)
       (bindP (heartbeatWorker reg workerId leaseTtlSeconds) (\<lambda>_. Ret ()))"

text \<open>The optional token argument; an empty one is no token.\<close>

definition expected_token :: "registry \<Rightarrow> string \<Rightarrow> string \<Rightarrow> string option" where
  "expected_token reg workerId token = (if token \<noteq> [] then Some token else lock_token reg workerId)"

definition markWorkerInactive :: "registry \<Rightarrow> string \<Rightarrow> string \<Rightarrow> bool prog" where
  "markWorkerInactive reg workerId token =
     (let k = worker_online_lease (reg_schema reg) workerId
      in bindP (getP k) (\<lambda>current.
        case expected_token reg workerId token of
          Some t \<Rightarrow> if dp_token (decodeWorkerPresence current) \<noteq> Some t then Ret False else seqP (delP k) (Ret True)
        | None \<Rightarrow> seqP (delP k) (Ret True)))"

definition unregisterWorkerMembership :: "registry \<Rightarrow> string \<Rightarrow> unit prog" where
  "unregisterWorkerMembership reg workerId =
     bindP (smembersP (workerDeclaredAgentTypes (reg_schema reg) workerId)) (\<lambda>agentTypes.
       seqP (delP (workerDeclaredAgentTypes (reg_schema reg) workerId))
         (seqP (sremP (known_workers (reg_schema reg)) workerId)
           (forP agentTypes (\<lambda>agentType. sremP (agentTypeMembers (reg_schema reg) agentType) workerId))))"

definition unregisterWorker :: "registry \<Rightarrow> string \<Rightarrow> unit prog" where
  "unregisterWorker reg workerId =
     seqP (markWorkerInactive reg workerId []) (unregisterWorkerMembership reg workerId)"

definition presence_online :: "string option \<Rightarrow> bool" where
  "presence_online lease = (case lease of
     None \<Rightarrow> False
   | Some _ \<Rightarrow> dp_isLegacy (decodeWorkerPresence lease) \<or> dp_lastSeen (decodeWorkerPresence lease) > 0)"

definition isWorkerOnline :: "registry \<Rightarrow> string \<Rightarrow> bool prog" where
  "isWorkerOnline reg workerId =
     bindP (getP (worker_online_lease (reg_schema reg) workerId)) (\<lambda>lease. Ret (presence_online lease))"

definition hasOnlineAgentType :: "registry \<Rightarrow> string \<Rightarrow> (bool \<times> string list) prog" where
  "hasOnlineAgentType reg agentType =
     bindP (smembersP (agentTypeMembers (reg_schema reg) agentType)) (\<lambda>workers.
       bindP (foldP (\<lambda>onlineWorkerIds workerId. bindP (isWorkerOnline reg workerId) (\<lambda>online.
           Ret (if online then onlineWorkerIds @ [workerId] else onlineWorkerIds))) [] workers)
         (\<lambda>onlineWorkerIds. Ret (onlineWorkerIds \<noteq> [], onlineWorkerIds)))"

definition hasAgentType :: "registry \<Rightarrow> string \<Rightarrow> bool \<Rightarrow> (bool \<times> string list) prog" where
  "hasAgentType reg agentType checkActive =
     (if checkActive then hasOnlineAgentType reg agentType
      else bindP (smembersP (agentTypeMembers (reg_schema reg) agentType)) (\<lambda>workers.
        Ret (workers \<noteq> [], workers)))"

definition getOnlineWorkers :: "registry \<Rightarrow> string \<Rightarrow> string list prog" where
  "getOnlineWorkers reg agentType = bindP (hasAgentType reg agentType True) (\<lambda>r. Ret (snd r))"

text \<open>`Math.random()` is the argument: the random index it selects, taken modulo the length.\<close>

definition getRandomOnlineWorker :: "nat \<Rightarrow> registry \<Rightarrow> string \<Rightarrow> string option prog" where
  "getRandomOnlineWorker rnd reg agentType = bindP (getOnlineWorkers reg agentType) (\<lambda>workers.
     Ret (if workers = [] then None else Some (workers ! (rnd mod length workers))))"

definition claimWorkerId :: "registry \<Rightarrow> string \<Rightarrow> nat \<Rightarrow> (string \<times> registry) prog" where
  "claimWorkerId reg workerId ttlSeconds = bindP uuidP (\<lambda>u.
     let token = filter (\<lambda>c. c \<noteq> CHR ''-'') u;
         k = worker_online_lease (reg_schema reg) workerId
     in bindP (setP k (encodeWorkerPresence (Some token) 0 (reg_ip reg)) (Some ttlSeconds) True) (\<lambda>ok.
       if \<not> ok then Raise (JsError (''worker_id already in use: '' @ workerId))
       else seqP (saddP (known_workers (reg_schema reg)) workerId)
              (Ret (token, reg\<lparr>lockTokens := (lockTokens reg)(workerId \<mapsto> token)\<rparr>))))"

definition refreshWorkerIdLock :: "registry \<Rightarrow> string \<Rightarrow> nat \<Rightarrow> bool prog" where
  "refreshWorkerIdLock reg workerId ttlSeconds = (case lock_token reg workerId of
     None \<Rightarrow> Ret False
   | Some token \<Rightarrow>
       (let k = worker_online_lease (reg_schema reg) workerId
        in bindP (getP k) (\<lambda>current.
          if dp_token (decodeWorkerPresence current) \<noteq> Some token then Ret False
          else bindP (expireP k ttlSeconds) (\<lambda>res. Ret (res = 1)))))"

definition releaseWorkerId :: "registry \<Rightarrow> string \<Rightarrow> string \<Rightarrow> (bool \<times> registry) prog" where
  "releaseWorkerId reg workerId token = (case expected_token reg workerId token of
     None \<Rightarrow> Ret (False, reg)
   | Some expected \<Rightarrow>
       (let k = worker_online_lease (reg_schema reg) workerId
        in bindP (getP k) (\<lambda>current.
          if dp_token (decodeWorkerPresence current) \<noteq> Some expected then Ret (False, reg)
          else seqP (delP k) (Ret (True, reg\<lparr>lockTokens := (lockTokens reg)(workerId := None)\<rparr>)))))"


section \<open>Admin state and the denylist\<close>

definition setWorkerAdminState :: "registry \<Rightarrow> string \<Rightarrow> string \<Rightarrow> string \<Rightarrow> unit prog" where
  "setWorkerAdminState reg workerId lifecycle reason = bindP nowP (\<lambda>now.
     let k = workerAdminState (reg_schema reg) workerId
     in pipelineP [Hset k ''lifecycle'' lifecycle, Hset k ''reason'' reason, Hset k ''updated_at'' (int_str now)])"

definition getWorkerAdminState :: "registry \<Rightarrow> string \<Rightarrow> (string \<times> string) list prog" where
  "getWorkerAdminState reg workerId = hgetallP (workerAdminState (reg_schema reg) workerId)"

definition clearWorkerAdminState :: "registry \<Rightarrow> string \<Rightarrow> unit prog" where
  "clearWorkerAdminState reg workerId = delP (workerAdminState (reg_schema reg) workerId)"

definition removeWorkerFromTypeMembers :: "registry \<Rightarrow> string \<Rightarrow> unit prog" where
  "removeWorkerFromTypeMembers reg workerId =
     bindP (smembersP (workerDeclaredAgentTypes (reg_schema reg) workerId)) (\<lambda>agentTypes.
       forP agentTypes (\<lambda>agentType. sremP (agentTypeMembers (reg_schema reg) agentType) workerId))"

definition restoreWorkerToTypeMembers :: "registry \<Rightarrow> string \<Rightarrow> unit prog" where
  "restoreWorkerToTypeMembers reg workerId =
     bindP (smembersP (workerDeclaredAgentTypes (reg_schema reg) workerId)) (\<lambda>agentTypes.
       forP agentTypes (\<lambda>agentType.
         bindP (isWorkerDeniedForType reg agentType workerId) (\<lambda>denied.
           if denied then Ret () else saddP (agentTypeMembers (reg_schema reg) agentType) workerId)))"

definition denyWorkerForType :: "registry \<Rightarrow> string \<Rightarrow> string \<Rightarrow> unit prog" where
  "denyWorkerForType reg agentType workerId =
     pipelineP [Sadd (agentTypeDenied (reg_schema reg) agentType) workerId,
                Srem (agentTypeMembers (reg_schema reg) agentType) workerId]"

definition allowWorkerForType :: "registry \<Rightarrow> string \<Rightarrow> string \<Rightarrow> unit prog" where
  "allowWorkerForType reg agentType workerId = sremP (agentTypeDenied (reg_schema reg) agentType) workerId"

definition getAgentTypeDenylist :: "registry \<Rightarrow> string \<Rightarrow> string list prog" where
  "getAgentTypeDenylist reg agentType = smembersP (agentTypeDenied (reg_schema reg) agentType)"

definition getWorker :: "registry \<Rightarrow> string \<Rightarrow> jobj option prog" where
  "getWorker reg workerId = bindP (getP (worker_online_lease (reg_schema reg) workerId)) (\<lambda>raw.
     if raw = None then Ret None
     else let presence = decodeWorkerPresence raw
       in if \<not> dp_isLegacy presence \<and> dp_lastSeen presence \<le> 0 then Ret None
          else bindP (smembersP (workerDeclaredAgentTypes (reg_schema reg) workerId)) (\<lambda>agentTypes.
            bindP (if dp_isLegacy presence then nowP else Ret (dp_lastSeen presence)) (\<lambda>seen.
              Ret (Some [(''agentTypes'', JArr (List.map JStr agentTypes)), (''last_seen'', JNum seen),
                         (''ip_address'', JStr (dp_ip presence))]))))"

definition admin_field :: "(string \<times> string) list \<Rightarrow> string \<Rightarrow> string \<Rightarrow> string" where
  "admin_field st f d = (case map_of st f of None \<Rightarrow> d | Some x \<Rightarrow> str_or x d)"

definition getAllWorkers :: "registry \<Rightarrow> jobj prog" where
  "getAllWorkers reg = bindP (smembersP (known_workers (reg_schema reg))) (\<lambda>workerIds.
     foldP (\<lambda>result id. bindP (getWorker reg id) (\<lambda>data.
         case data of
           None \<Rightarrow> Ret result
         | Some d \<Rightarrow> bindP (getWorkerAdminState reg id) (\<lambda>st.
             Ret (oput id (JObj (oput ''lifecycle_reason'' (JStr (admin_field st ''reason'' []))
                    (oput ''lifecycle'' (JStr (admin_field st ''lifecycle'' ''active'')) d))) result))))
       [] (sort workerIds))"


section \<open>Execution records\<close>

definition exec_field :: "string \<Rightarrow> string" where "exec_field executionId = EXEC_FIELD_PREFIX @ executionId"
definition msg_field :: "string \<Rightarrow> string" where "msg_field message = MSG_MAP_PREFIX @ message"

lemma exec_msg_field [simp]: "exec_field e \<noteq> msg_field m" "msg_field m \<noteq> exec_field e"
  "exec_field e = exec_field e' \<longleftrightarrow> e = e'" "msg_field m = msg_field m' \<longleftrightarrow> m = m'"
  by (simp_all add: exec_field_def msg_field_def EXEC_FIELD_PREFIX_def MSG_MAP_PREFIX_def)

definition timeline_entry :: "json \<Rightarrow> millis \<Rightarrow> json" where
  "timeline_entry st now = JObj [(''status'', st), (''timestamp'', JNum now)]"

definition initial_record :: "jobj \<Rightarrow> millis \<Rightarrow> jobj" where
  "initial_record execution now = ospread execution [
     (''created_at'', JNum now), (''updated_at'', JNum now), (''started_at'', JNum 0), (''finished_at'', JNum 0),
     (''timeline'', JArr [timeline_entry (js_or (oget execution ''status'') (JStr ''QUEUED'')) now])]"

definition initializeExecution :: "key_schema \<Rightarrow> jobj \<Rightarrow> unit prog" where
  "initializeExecution sch execution = bindP nowP (\<lambda>now.
     let executionId = opt_String (oget execution ''execution_id'');
         message = opt_String (oget execution ''message_id'');
         regKey = session_registry sch (opt_String (oget execution ''session_id''))
     in pipelineP [Hset regKey (exec_field executionId) (json_stringify (JObj (initial_record execution now))),
                   Hset regKey (msg_field message) executionId,
                   Expire regKey DEFAULT_SESSION_TTL])"

text \<open>`push` on the record's timeline, started afresh when it is no array.\<close>

definition push_timeline :: "string \<Rightarrow> millis \<Rightarrow> jobj \<Rightarrow> jobj" where
  "push_timeline st now r =
     (let timeline = (case oget r ''timeline'' of Some (JArr ts) \<Rightarrow> ts | _ \<Rightarrow> [])
      in oput ''timeline'' (JArr (timeline @ [timeline_entry (JStr st) now])) r)"

definition getExecution :: "key_schema \<Rightarrow> string \<Rightarrow> string \<Rightarrow> json option prog" where
  "getExecution sch executionId session =
     (if session = [] then Ret None
      else bindP (hgetP (session_registry sch session) (exec_field executionId)) (\<lambda>data.
        case data of
          None \<Rightarrow> Ret None
        | Some d \<Rightarrow> if d = [] then Ret None
            else (case json_parse d of None \<Rightarrow> Raise SyntaxError | Some v \<Rightarrow> Ret (Some v))))"

definition getExecutionByMessageId :: "key_schema \<Rightarrow> string \<Rightarrow> string \<Rightarrow> json option prog" where
  "getExecutionByMessageId sch message session =
     (if session = [] then Ret None
      else bindP (hgetP (session_registry sch session) (msg_field message)) (\<lambda>executionId.
        case executionId of
          None \<Rightarrow> Ret None
        | Some e \<Rightarrow> if e = [] then Ret None else getExecution sch e session))"

text \<open>Write a changed record back: the pipeline every update ends with.\<close>

definition storeExecution :: "key_schema \<Rightarrow> string \<Rightarrow> string \<Rightarrow> jobj \<Rightarrow> unit prog" where
  "storeExecution sch executionId session r =
     pipelineP [Hset (session_registry sch session) (exec_field executionId) (json_stringify (JObj r)),
                Expire (session_registry sch session) DEFAULT_SESSION_TTL]"

text \<open>`if (!current) return;` and then assignments to its properties.\<close>

definition with_record :: "json option \<Rightarrow> (jobj \<Rightarrow> unit prog) \<Rightarrow> unit prog" where
  "with_record current f = (case current of
     None \<Rightarrow> Ret ()
   | Some v \<Rightarrow> if \<not> js_truthy v then Ret ()
       else (case v of JObj r \<Rightarrow> f r | _ \<Rightarrow> Raise TypeError))"

definition status_record :: "string \<Rightarrow> millis \<Rightarrow> jobj \<Rightarrow> jobj \<Rightarrow> jobj" where
  "status_record st now extra r =
     (let r1 = oput ''updated_at'' (JNum now) (oput ''status'' (JStr st) r);
          r2 = (if st = ''RUNNING'' \<and> \<not> opt_truthy (oget r1 ''started_at'') then oput ''started_at'' (JNum now) r1 else r1)
      in push_timeline st now (ospread r2 extra))"

definition updateExecutionStatus :: "key_schema \<Rightarrow> string \<Rightarrow> string \<Rightarrow> string \<Rightarrow> jobj \<Rightarrow> unit prog" where
  "updateExecutionStatus sch executionId session st extra =
     bindP (getExecution sch executionId session) (\<lambda>current.
       with_record current (\<lambda>r. bindP nowP (\<lambda>now.
         storeExecution sch executionId session (status_record st now extra r))))"

definition updateExecutionStatusByMessage :: "key_schema \<Rightarrow> string \<Rightarrow> string \<Rightarrow> string \<Rightarrow> unit prog" where
  "updateExecutionStatusByMessage sch message session st =
     bindP (hgetP (session_registry sch session) (msg_field message)) (\<lambda>executionId.
       case executionId of
         None \<Rightarrow> Ret ()
       | Some e \<Rightarrow> if e = [] then Ret () else updateExecutionStatus sch e session st [])"

definition getAllSessionExecutions :: "key_schema \<Rightarrow> string \<Rightarrow> json list prog" where
  "getAllSessionExecutions sch session =
     bindP (hgetallP (session_registry sch session)) (\<lambda>allFields.
       Ret (List.map_filter (\<lambda>(f, x). if startsWith f EXEC_FIELD_PREFIX then json_parse x else None) allFields))"

definition cancel_requested_record :: "string \<Rightarrow> millis \<Rightarrow> jobj \<Rightarrow> jobj" where
  "cancel_requested_record reason now r =
     (let r1 = oput ''cancel_requested'' (JBool True) r
      in oput ''updated_at'' (JNum now) (if reason \<noteq> [] then oput ''cancel_reason'' (JStr reason) r1 else r1))"

definition markCancelRequested :: "key_schema \<Rightarrow> string \<Rightarrow> string \<Rightarrow> string \<Rightarrow> unit prog" where
  "markCancelRequested sch executionId session reason =
     bindP (getExecution sch executionId session) (\<lambda>current.
       with_record current (\<lambda>r. bindP nowP (\<lambda>now.
         storeExecution sch executionId session (cancel_requested_record reason now r))))"

definition default_field :: "string \<Rightarrow> json \<Rightarrow> jobj \<Rightarrow> jobj" where
  "default_field k v r = (if opt_truthy (oget r k) then r else oput k v r)"

definition saved_record :: "millis \<Rightarrow> jobj \<Rightarrow> jobj" where
  "saved_record now execution =
     (let r = default_field ''updated_at'' (JNum now) (default_field ''created_at'' (JNum now) execution)
      in default_field ''timeline'' (JArr [timeline_entry (js_or (oget r ''status'') (JStr ''QUEUED'')) now]) r)"

definition saveExecution :: "key_schema \<Rightarrow> jobj \<Rightarrow> unit prog" where
  "saveExecution sch execution = bindP nowP (\<lambda>now.
     let executionId = opt_String (oget execution ''execution_id'');
         regKey = session_registry sch (opt_String (oget execution ''session_id''))
     in pipelineP [Hset regKey (exec_field executionId) (json_stringify (JObj (saved_record now execution))),
                   Hset regKey (msg_field (opt_String (oget execution ''message_id''))) executionId,
                   Expire regKey DEFAULT_SESSION_TTL])"

definition cancelling_record :: "string \<Rightarrow> millis \<Rightarrow> jobj \<Rightarrow> jobj" where
  "cancelling_record reason now r =
     push_timeline ''CANCELLING'' now
       (oput ''updated_at'' (JNum now) (oput ''cancel_reason'' (JStr reason)
         (oput ''cancel_requested'' (JBool True) (oput ''status'' (JStr ''CANCELLING'') r))))"

definition markExecutionCancelling :: "key_schema \<Rightarrow> string \<Rightarrow> string \<Rightarrow> string \<Rightarrow> unit prog" where
  "markExecutionCancelling sch executionId session reason =
     bindP (getExecution sch executionId session) (\<lambda>current.
       with_record current (\<lambda>r. bindP nowP (\<lambda>now.
         storeExecution sch executionId session (cancelling_record reason now r))))"

definition finished_record :: "string \<Rightarrow> millis \<Rightarrow> jobj \<Rightarrow> jobj" where
  "finished_record st now r =
     (let r1 = oput ''status'' (JStr st) r;
          r2 = (if isTerminalState st then oput ''finished_at'' (JNum now) r1 else r1)
      in push_timeline st now (oput ''updated_at'' (JNum now) r2))"

definition markExecutionFinished :: "key_schema \<Rightarrow> string \<Rightarrow> string \<Rightarrow> string \<Rightarrow> unit prog" where
  "markExecutionFinished sch executionId session st =
     bindP (getExecution sch executionId session) (\<lambda>current.
       with_record current (\<lambda>r. bindP nowP (\<lambda>now.
         storeExecution sch executionId session (finished_record st now r))))"

definition encodeExecution :: "jobj \<Rightarrow> (string \<times> string) list" where
  "encodeExecution execution = List.map (\<lambda>(k, v).
     (k, case v of JBool b \<Rightarrow> if b then ''1'' else ''0'' | _ \<Rightarrow> js_String v)) execution"

definition decodeExecution :: "(string \<times> string) list \<Rightarrow> jobj" where
  "decodeExecution execution = List.map (\<lambda>(k, x).
     (k, if k = ''cancel_requested'' then JBool (x = ''1'' \<or> x = ''true'' \<or> x = ''True'')
         else if k \<in> set [''created_at'', ''started_at'', ''finished_at'', ''updated_at'']
                \<and> x \<noteq> [] \<and> list_all is_digit x then JNum (int (digits_nat x))
         else JStr x)) execution"


section \<open>Records through Redis\<close>

lemma wf_json_oput:
  "wf_json (JObj r) \<Longrightarrow> wf_json v \<Longrightarrow> wf_json (JObj (oput k v r))"
proof -
  assume r: "wf_json (JObj r)" and v: "wf_json v"
  have "list_all (\<lambda>kv. wf_json (snd kv)) (AList.update k v r)"
    using r v by (induction r) auto
  then show ?thesis
    using r by (simp add: oput_def distinct_update)
qed

lemma wf_json_ospread:
  "wf_json (JObj a) \<Longrightarrow> list_all (\<lambda>kv. wf_json (snd kv)) b \<Longrightarrow> wf_json (JObj (ospread a b))"
  by (induction b rule: rev_induct) (auto simp: ospread_snoc simp del: wf_json.simps intro: wf_json_oput)

lemma wf_json_oget: "wf_json (JObj r) \<Longrightarrow> oget r k = Some v \<Longrightarrow> wf_json v"
  by (auto simp: oget_def list_all_iff dest!: map_of_SomeD)

lemma wf_initial_record: "wf_json (JObj execution) \<Longrightarrow> wf_json (JObj (initial_record execution now))"
proof -
  assume wf: "wf_json (JObj execution)"
  have "wf_json (js_or (oget execution ''status'') (JStr ''QUEUED''))"
    using wf by (cases "oget execution ''status''") (auto intro: wf_json_oget simp del: wf_json.simps(3))
  then show ?thesis
    using wf unfolding initial_record_def by (intro wf_json_ospread) (auto simp: timeline_entry_def)
qed

lemma wf_push_timeline:
  assumes "wf_json (JObj r)"
  shows "wf_json (JObj (push_timeline st now r))"
proof -
  have "list_all wf_json ts" if "oget r ''timeline'' = Some (JArr ts)" for ts
    using wf_json_oget [OF assms that] by simp
  then have "wf_json (JArr ((case oget r ''timeline'' of Some (JArr ts) \<Rightarrow> ts | _ \<Rightarrow> []) @ [timeline_entry (JStr st) now]))"
    by (auto simp: timeline_entry_def split: option.splits json.splits)
  then show ?thesis
    using assms unfolding push_timeline_def Let_def by (intro wf_json_oput)
qed

lemma wf_finished_record: "wf_json (JObj r) \<Longrightarrow> wf_json (JObj (finished_record st now r))"
  unfolding finished_record_def Let_def
  by (auto intro!: wf_push_timeline wf_json_oput simp del: wf_json.simps(3))

text \<open>What a lookup of an execution finds in a keyspace.\<close>

definition execution_text :: "view \<Rightarrow> key_schema \<Rightarrow> string \<Rightarrow> string \<Rightarrow> string option" where
  "execution_text v sch session e = v_hash v (session_registry sch session) (exec_field e)"

lemma stringify_not_Nil: "wf_json v \<Longrightarrow> json_stringify v \<noteq> []"
  using stringify_first by fastforce

context redis_available
begin

lemma wp_getExecution:
  assumes "execution_text (kv s) sch session e = Some (json_stringify (JObj r))" "wf_json (JObj r)" "session \<noteq> []"
    and "\<And>s'. kv s' = kv s \<Longrightarrow> oth s' \<subseteq> oth s \<Longrightarrow> clk s \<le> clk s' \<Longrightarrow>
      Q (Some (JObj r)) (s', l @ [Hget (session_registry sch session) (exec_field e)])"
  shows "wp exec (getExecution sch e session) Q E (s, l)"
  unfolding getExecution_def
  using assms(1-3) stringify_not_Nil [OF assms(2)]
  by (auto intro!: wp_hgetP assms(4) simp: execution_text_def json_parse_stringify simp del: wf_json.simps)

text \<open>Every update of a record: read it, change it at the present time, write it back.\<close>

lemma wp_record_update:
  assumes "execution_text (kv s) sch session e = Some (json_stringify (JObj r))" "wf_json (JObj r)" "session \<noteq> []"
    and "\<And>s' now. kv s' = put_field (session_registry sch session) (exec_field e) (json_stringify (JObj (g now r))) (kv s) \<Longrightarrow>
      oth s' \<subseteq> insert (session_registry sch session) (oth s) \<Longrightarrow> clk s \<le> now \<Longrightarrow> now \<le> clk s' \<Longrightarrow>
      Q () (s', l @ [Hget (session_registry sch session) (exec_field e), Now,
        Hset (session_registry sch session) (exec_field e) (json_stringify (JObj (g now r))),
        Expire (session_registry sch session) DEFAULT_SESSION_TTL])"
  shows "wp exec (bindP (getExecution sch e session) (\<lambda>current.
       with_record current (\<lambda>r. bindP nowP (\<lambda>now. storeExecution sch e session (g now r))))) Q E (s, l)"
  unfolding wp_bindP
proof (rule wp_getExecution [OF assms(1-3)], goal_cases)
  case (1 s1)
  have "wp exec (bindP nowP (\<lambda>now. storeExecution sch e session (g now r))) Q E
      (s1, l @ [Hget (session_registry sch session) (exec_field e)])"
    unfolding wp_bindP storeExecution_def
  proof (rule wp_nowP, rule wp_pipeline_Cons, simp, rule wp_pipeline_Cons, goal_cases)
    case (2 s2 ra s3 rb s4)
    then show ?case using 1 by (simp, intro assms(4)) auto
  qed simp
  then show ?case by (simp add: with_record_def)
qed

end


section \<open>Leases\<close>

definition lease_owner :: "view \<Rightarrow> key_schema \<Rightarrow> string \<Rightarrow> string option" where
  "lease_owner v sch workerId =
     (case v_str v (worker_online_lease sch workerId) of None \<Rightarrow> None | raw \<Rightarrow> dp_token (decodeWorkerPresence raw))"

context redis_available
begin

text \<open>A registry that does not hold the token of a lease cannot renew, release or drop it.\<close>

lemma foreign_heartbeat:
  assumes "lease_owner (kv s) (reg_schema reg) w = Some t" "lock_token reg w \<noteq> Some t"
  shows "wp exec (heartbeatWorker reg w ttl) (\<lambda>ok \<sigma>. \<not> ok \<and> kv (fst \<sigma>) = kv s) (\<lambda>_ _. False) (s, l)"
  using assms
  by (auto simp: heartbeatWorker_def Let_def lease_owner_def split: option.splits intro!: wp_nowP wp_getP)

lemma foreign_release:
  assumes "lease_owner (kv s) (reg_schema reg) w = Some t" "expected_token reg w tok \<noteq> Some t"
  shows "wp exec (releaseWorkerId reg w tok) (\<lambda>r \<sigma>. r = (False, reg) \<and> kv (fst \<sigma>) = kv s) (\<lambda>_ _. False) (s, l)"
  using assms
  by (auto simp: releaseWorkerId_def Let_def lease_owner_def split: option.splits intro!: wp_getP)

lemma foreign_claim:
  assumes "lease_owner (kv s) (reg_schema reg) w = Some t" "0 < ttl"
  shows "wp exec (claimWorkerId reg w ttl) (\<lambda>_ _. False)
     (\<lambda>e \<sigma>. e = JsError (''worker_id already in use: '' @ w) \<and> kv (fst \<sigma>) = kv s) (s, l)"
  using assms
  by (auto simp: claimWorkerId_def Let_def lease_owner_def split: option.splits
      intro!: wp_uuidP wp_setP_nx_any)

text \<open>The owner of a lease: claiming a free one, renewing it, releasing it.\<close>

lemma wp_claimWorkerId:
  assumes "v_str (kv s) (worker_online_lease (reg_schema reg) w) = None" "0 < ttl"
    "worker_online_lease (reg_schema reg) w \<notin> oth s"
  shows "wp exec (claimWorkerId reg w ttl)
     (\<lambda>r \<sigma>. length (fst r) = 32 \<and> snd r = reg\<lparr>lockTokens := (lockTokens reg)(w \<mapsto> fst r)\<rparr>
        \<and> v_str (kv (fst \<sigma>)) (worker_online_lease (reg_schema reg) w) = Some (encodeWorkerPresence (Some (fst r)) 0 (reg_ip reg))
        \<and> clk s \<le> clk (fst \<sigma>)) (\<lambda>_ _. False) (s, l)"
  unfolding claimWorkerId_def Let_def wp_bindP
proof (rule wp_uuidP, rule wp_setP_nx, goal_cases)
  case (3 s1 u s2)
  then show ?case
    using assms by (auto intro!: wp_saddP)
qed (use assms in auto)

lemma wp_own_heartbeat:
  assumes "lease_owner (kv s) (reg_schema reg) w = Some t" "lock_token reg w = Some t" "0 < ttl"
  shows "wp exec (heartbeatWorker reg w ttl)
     (\<lambda>ok \<sigma>. ok \<and> w \<in> v_set (kv (fst \<sigma>)) (known_workers (reg_schema reg))
        \<and> v_str (kv (fst \<sigma>)) (worker_online_lease (reg_schema reg) w) = Some (encodeWorkerPresence (Some t) (clk s) (reg_ip reg)))
     (\<lambda>_ _. False) (s, l)"
proof -
  obtain raw where "v_str (kv s) (worker_online_lease (reg_schema reg) w) = Some raw" "dp_token (decodeWorkerPresence (Some raw)) = Some t"
    using assms(1) by (auto simp: lease_owner_def split: option.splits)
  then show ?thesis
    using assms(2,3) by (auto simp: heartbeatWorker_def Let_def intro!: wp_nowP wp_getP wp_setP wp_saddP)
qed

lemma wp_own_release:
  assumes "lease_owner (kv s) (reg_schema reg) w = Some t" "lock_token reg w = Some t"
  shows "wp exec (releaseWorkerId reg w [])
     (\<lambda>r \<sigma>. r = (True, reg\<lparr>lockTokens := (lockTokens reg)(w := None)\<rparr>)
        \<and> v_str (kv (fst \<sigma>)) (worker_online_lease (reg_schema reg) w) = None) (\<lambda>_ _. False) (s, l)"
  using assms
  by (auto simp: releaseWorkerId_def Let_def lease_owner_def expected_token_def split: option.splits
      intro!: wp_getP wp_delP)

end


section \<open>Keys of the registry\<close>

lemma registry_key_neq [simp]:
  "known_workers sch \<noteq> agentTypeMembers sch a" "agentTypeMembers sch a \<noteq> known_workers sch"
  "known_workers sch \<noteq> workerDeclaredAgentTypes sch w" "workerDeclaredAgentTypes sch w \<noteq> known_workers sch"
  "known_workers sch \<noteq> worker_online_lease sch w" "worker_online_lease sch w \<noteq> known_workers sch"
  "workerDeclaredAgentTypes sch w \<noteq> agentTypeMembers sch a" "agentTypeMembers sch a \<noteq> workerDeclaredAgentTypes sch w"
  "agentTypeDenied sch b \<noteq> agentTypeMembers sch a" "agentTypeMembers sch a \<noteq> agentTypeDenied sch b"
  "agentTypeDenied sch b \<noteq> known_workers sch" "known_workers sch \<noteq> agentTypeDenied sch b"
  "agentTypeDenied sch b \<noteq> workerDeclaredAgentTypes sch w" "workerDeclaredAgentTypes sch w \<noteq> agentTypeDenied sch b"
  "worker_online_lease sch w \<noteq> agentTypeMembers sch a" "agentTypeMembers sch a \<noteq> worker_online_lease sch w"
  by (cases sch; simp add: known_workers_def agentTypeMembers_def workerDeclaredAgentTypes_def agentTypeDenied_def
      worker_online_lease_def versioned_def; auto dest!: arg_cong [where f = rev])+

lemma registry_key_inject [simp]:
  "agentTypeMembers sch a = agentTypeMembers sch b \<longleftrightarrow> a = b"
  "worker_online_lease sch w = worker_online_lease sch w' \<longleftrightarrow> w = w'"
  by (cases sch; simp add: agentTypeMembers_def worker_online_lease_def versioned_def tagged_def)+

end
