(* ===== verification/WaitSweeper.thy ===== *)
theory WaitSweeper
  imports WaitGate WaitReply Registry
begin

text \<open>
  The wait sweeper (src/liveness/wait_sweeper.ts): the pass over the shards of
  the wait index, its pruning half and its compensating half, the triage of one
  due entry, the renewal ceiling and the stand-in reply.

  The configuration and the two counters the sweeper keeps (`shardCursor`,
  `lastPruneMs`) are a record; a pass returns the changed one. The
  delivery of a cancellation is a parameter of the triage, as in the code
  (`cancelChild`). The code's own, `defaultCancelChild`, walks the tasks below the
  cancelled one and may not come back; so the answer of a cancellation is an
  option, None for one that never returns, and whatever awaits it has None for a
  run that does not return either.
\<close>


section \<open>Configuration\<close>

definition OUTCOME_MALFORMED :: string where "OUTCOME_MALFORMED = ''malformed''"
definition OUTCOME_CALLER_MISSING :: string where "OUTCOME_CALLER_MISSING = ''caller_missing''"
definition OUTCOME_CALLER_TERMINAL :: string where "OUTCOME_CALLER_TERMINAL = ''caller_terminal''"
definition OUTCOME_CALLER_LOST :: string where "OUTCOME_CALLER_LOST = ''caller_lost''"
definition OUTCOME_CALLER_NOT_SUSPENDED :: string where "OUTCOME_CALLER_NOT_SUSPENDED = ''caller_not_suspended''"
definition OUTCOME_ASK_USER_SKIPPED :: string where "OUTCOME_ASK_USER_SKIPPED = ''ask_user_skipped''"
definition OUTCOME_GROUP_GONE :: string where "OUTCOME_GROUP_GONE = ''group_gone''"
definition OUTCOME_GROUP_ABORTED :: string where "OUTCOME_GROUP_ABORTED = ''group_aborted''"
definition OUTCOME_GROUP_ALREADY_JOINED :: string where "OUTCOME_GROUP_ALREADY_JOINED = ''group_already_joined''"
definition OUTCOME_CHILD_WAITING :: string where "OUTCOME_CHILD_WAITING = ''child_waiting''"
definition OUTCOME_CHILD_ALIVE :: string where "OUTCOME_CHILD_ALIVE = ''child_alive''"
definition OUTCOME_RECOVERED :: string where "OUTCOME_RECOVERED = ''recovered''"
definition OUTCOME_WORKER_LOST :: string where "OUTCOME_WORKER_LOST = ''worker_lost''"
definition OUTCOME_NEVER_STARTED :: string where "OUTCOME_NEVER_STARTED = ''never_started''"
definition OUTCOME_TIMED_OUT :: string where "OUTCOME_TIMED_OUT = ''timed_out''"
definition OUTCOME_UNROUTABLE :: string where "OUTCOME_UNROUTABLE = ''unroutable''"
definition OUTCOME_ERROR :: string where "OUTCOME_ERROR = ''error''"
definition OUTCOME_PRUNED :: string where "OUTCOME_PRUNED = ''pruned''"

lemmas outcome_defs = OUTCOME_MALFORMED_def OUTCOME_CALLER_MISSING_def OUTCOME_CALLER_TERMINAL_def
  OUTCOME_CALLER_LOST_def OUTCOME_CALLER_NOT_SUSPENDED_def OUTCOME_ASK_USER_SKIPPED_def OUTCOME_GROUP_GONE_def
  OUTCOME_GROUP_ABORTED_def OUTCOME_GROUP_ALREADY_JOINED_def OUTCOME_CHILD_WAITING_def OUTCOME_CHILD_ALIVE_def
  OUTCOME_RECOVERED_def OUTCOME_WORKER_LOST_def OUTCOME_NEVER_STARTED_def OUTCOME_TIMED_OUT_def
  OUTCOME_UNROUTABLE_def OUTCOME_ERROR_def OUTCOME_PRUNED_def

definition SUSPENDED_STATES :: "string list" where
  "SUSPENDED_STATES = [WAITING_AGENT, WAITING_USER]"

text \<open>An environment is a function from names to values; an unset variable reads as the empty string.\<close>

definition envInt :: "(string \<Rightarrow> string) \<Rightarrow> string \<Rightarrow> int \<Rightarrow> int" where
  "envInt env n fallback =
     (let raw = js_trim (env n)
      in if raw = [] then fallback else (case js_parseInt raw of None \<Rightarrow> fallback | Some i \<Rightarrow> i))"

definition lower_char :: "char \<Rightarrow> char" where
  "lower_char c = (if 65 \<le> (of_char c :: nat) \<and> (of_char c :: nat) \<le> 90 then char_of (of_char c + 32 :: nat) else c)"

definition envBool :: "(string \<Rightarrow> string) \<Rightarrow> string \<Rightarrow> bool \<Rightarrow> bool" where
  "envBool env n fallback =
     (let raw = List.map lower_char (js_trim (env n))
      in if raw \<in> set [''1'', ''true'', ''yes'', ''on'', ''enabled''] then True
         else if raw \<in> set [''0'', ''false'', ''no'', ''off'', ''disabled''] then False
         else fallback)"

record sweeper_options =
  so_workerId :: "string option"
  so_interval :: "int option"
  so_enabled :: "bool option"
  so_renewMaxMultiple :: "int option"
  so_cancelOnTimeout :: "bool option"
  so_pruneEnabled :: "bool option"
  so_pruneInterval :: "int option"

record sweeper =
  sw_registry :: registry
  sw_workerId :: string
  sw_interval :: int
  sw_enabled :: bool
  sw_pruneEnabled :: bool
  sw_pruneInterval :: int
  sw_renewMaxMultiple :: int
  sw_cancelOnTimeout :: bool
  sw_lockTtl :: nat
  shardCursor :: nat
  lastPruneMs :: "millis option"

abbreviation sw_schema :: "sweeper \<Rightarrow> key_schema" where
  "sw_schema sw \<equiv> reg_schema (sw_registry sw)"

text \<open>The constructor; `u` is the UUID a nameless sweeper draws its name from.\<close>

definition new_WaitIndexSweeper :: "(string \<Rightarrow> string) \<Rightarrow> registry \<Rightarrow> string \<Rightarrow> sweeper_options \<Rightarrow> sweeper" where
  "new_WaitIndexSweeper env reg u opts =
     (let workerId = (case so_workerId opts of
            None \<Rightarrow> ''sweeper-'' @ take 8 u | Some w \<Rightarrow> str_or w (''sweeper-'' @ take 8 u));
          interval = opt_or (so_interval opts) (envInt env ''BY_FRAMEWORK_WAIT_SWEEP_INTERVAL_SECONDS'' WAIT_SWEEP_INTERVAL_SECONDS)
      in \<lparr>sw_registry = reg, sw_workerId = workerId, sw_interval = interval,
          sw_enabled = opt_or (so_enabled opts) (envBool env ''BY_FRAMEWORK_WAIT_SWEEPER_ENABLED'' False),
          sw_pruneEnabled = opt_or (so_pruneEnabled opts) (envBool env ''BY_FRAMEWORK_WAIT_PRUNE_ENABLED'' True),
          sw_pruneInterval = max 1 (opt_or (so_pruneInterval opts)
            (envInt env ''BY_FRAMEWORK_WAIT_PRUNE_INTERVAL_SECONDS'' WAIT_PRUNE_INTERVAL_SECONDS)),
          sw_renewMaxMultiple = max 1 (opt_or (so_renewMaxMultiple opts)
            (envInt env ''BY_FRAMEWORK_WAIT_RENEW_MAX_MULTIPLE'' WAIT_RENEW_MAX_MULTIPLE)),
          sw_cancelOnTimeout = opt_or (so_cancelOnTimeout opts) (envBool env ''BY_FRAMEWORK_WAIT_CANCEL_ON_TIMEOUT'' True),
          sw_lockTtl = nat (max (interval * 3) (int WAIT_SWEEP_LOCK_TTL_SECONDS)),
          shardCursor = nat (uint (fnv1a32 workerId) mod int WAIT_INDEX_SHARDS),
          lastPruneMs = None\<rparr>)"

definition loopIntervalSeconds :: "sweeper \<Rightarrow> int" where
  "loopIntervalSeconds sw = (if sw_enabled sw then sw_interval sw else sw_pruneInterval sw)"


section \<open>Reading records\<close>

text \<open>`text`, `asInt` and `baseStatus`.\<close>

definition text_of :: "json option \<Rightarrow> string" where
  "text_of v = (case v of None \<Rightarrow> [] | Some JNull \<Rightarrow> [] | Some x \<Rightarrow> js_String x)"

definition epoch_of :: "json option \<Rightarrow> int" where
  "epoch_of v = js_trunc_number (text_of v)"

definition baseStatus :: "json option \<Rightarrow> string" where
  "baseStatus v = js_trim (split_head CHR '':'' (text_of v))"

record due_entry =
  de_indexKey :: key
  de_member :: string
  de_deadline :: millis
  de_entry :: wait_member


section \<open>Renewal\<close>

definition renew_origin_key :: "sweeper \<Rightarrow> due_entry \<Rightarrow> key" where
  "renew_origin_key sw due = wait_renew_origin (sw_schema sw) (wm_session (de_entry due)) (memberDigest (de_member due))"

definition extendDeadline :: "sweeper \<Rightarrow> due_entry \<Rightarrow> unit prog" where
  "extendDeadline sw due =
     seqP (catchP (bindP (setP (renew_origin_key sw due) (int_str (de_deadline due))
                           (Some WAIT_RENEW_ORIGIN_TTL_SECONDS) True) (\<lambda>_. Ret ()))
             (\<lambda>_. Ret ()))
       (bindP nowP (\<lambda>now. zaddP (de_indexKey due) (now + WAIT_RENEW_INCREMENT_MS) (de_member due)))"

definition renewalOriginMs :: "sweeper \<Rightarrow> due_entry \<Rightarrow> millis prog" where
  "renewalOriginMs sw due =
     bindP (catchP (getP (renew_origin_key sw due)) (\<lambda>_. Ret None)) (\<lambda>stored.
       let n = (case stored of None \<Rightarrow> 0 | Some x \<Rightarrow> js_trunc_number x)
       in Ret (if n \<noteq> 0 then n else de_deadline due))"

text \<open>The ceiling, from the origin of the budget and the time the sub-task was recorded.\<close>

definition renewal_ceiling :: "sweeper \<Rightarrow> millis \<Rightarrow> millis \<Rightarrow> millis" where
  "renewal_ceiling sw originMs registeredMs =
     (let timeoutMs = (if registeredMs \<le> 0 \<or> originMs - registeredMs \<le> 0 then DEFAULT_REPLY_TIMEOUT_MS
                       else originMs - registeredMs)
      in originMs + max (timeoutMs * (sw_renewMaxMultiple sw - 1)) WAIT_RENEW_INCREMENT_MS)"

definition renewalCeilingMs :: "sweeper \<Rightarrow> due_entry \<Rightarrow> json \<Rightarrow> millis prog" where
  "renewalCeilingMs sw due child = bindP (renewalOriginMs sw due) (\<lambda>originMs.
     Ret (renewal_ceiling sw originMs (epoch_of (jget child ''created_at''))))"


section \<open>The stand-in reply\<close>

record reply_params =
  er_child :: json
  er_status :: string
  er_content :: json
  er_replyData :: json
  er_extraPayload :: jobj
  er_errorCode :: string
  er_metadata :: jobj

definition caller_agent_type :: "json \<Rightarrow> json \<Rightarrow> string" where
  "caller_agent_type child caller =
     str_or (text_of (jget child ''source_agent_type'')) (text_of (jget caller ''target_agent_type''))"

definition sweep_reply :: "sweeper \<Rightarrow> wait_member \<Rightarrow> json \<Rightarrow> reply_params \<Rightarrow> stand_in_reply_params" where
  "sweep_reply sw entry caller p = \<lparr>
     si_session = wm_session entry, si_callerMessage = wm_parent entry,
     si_callerAgentType = caller_agent_type (er_child p) caller, si_childMessage = wm_child entry,
     si_childAgentType = text_of (jget (er_child p) ''target_agent_type''), si_taskGroup = wm_group entry,
     si_trace = str_or (text_of (jget (er_child p) ''trace_id'')) (text_of (jget caller ''trace_id'')),
     si_status = er_status p, si_content = er_content p, si_replyData = er_replyData p,
     si_extraPayload = er_extraPayload p,
     si_metadata = ospread (ospread [] (er_metadata p)) [(''sweeper_worker_id'', JStr (sw_workerId sw))],
     si_errorCode = er_errorCode p, si_synthesizedBy = SYNTHESIZED_BY_SWEEPER, si_userCode = [], si_userName = []\<rparr>"

definition emitReply :: "sweeper \<Rightarrow> due_entry \<Rightarrow> json \<Rightarrow> reply_params \<Rightarrow> bool prog" where
  "emitReply sw due caller p =
     (if caller_agent_type (er_child p) caller = []
      then seqP (extendDeadline sw due) (Ret False)
      else bindP (standInReply (sweep_reply sw (de_entry due) caller p)) (\<lambda>command.
        seqP (xaddP (ctrl_stream (sw_schema sw) (caller_agent_type (er_child p) caller)) (command_payload command))
          (seqP (extendDeadline sw due) (Ret True))))"

definition failure_params :: "due_entry \<Rightarrow> json \<Rightarrow> string \<Rightarrow> string \<Rightarrow> string \<Rightarrow> reply_params" where
  "failure_params due child errorCode message st = \<lparr>
     er_child = child, er_status = str_or st FAILED, er_content = JStr [],
     er_replyData = JObj (failureReplyData message errorCode (wm_child (de_entry due))),
     er_extraPayload = [], er_errorCode = errorCode,
     er_metadata = as_obj (Some (js_or (jget child ''metadata'') (JObj [])))\<rparr>"

definition synthesizeFailure :: "sweeper \<Rightarrow> due_entry \<Rightarrow> json \<Rightarrow> json \<Rightarrow> string \<Rightarrow> string \<Rightarrow> string \<Rightarrow> string
    \<Rightarrow> string prog" where
  "synthesizeFailure sw due caller child errorCode message outcome st =
     bindP (emitReply sw due caller (failure_params due child errorCode message st)) (\<lambda>emitted.
       Ret (if emitted then outcome else OUTCOME_UNROUTABLE))"

text \<open>The persisted result, when it is a JSON object.\<close>

definition stored_object :: "string option \<Rightarrow> jobj option" where
  "stored_object raw = (case raw of
     None \<Rightarrow> None
   | Some d \<Rightarrow> if d = [] then None else (case json_parse d of Some (JObj r) \<Rightarrow> Some r | _ \<Rightarrow> None))"

definition loadStoredResult :: "sweeper \<Rightarrow> string \<Rightarrow> jobj option prog" where
  "loadStoredResult sw childMessageId =
     bindP (hgetP (task_group_results (sw_schema sw) (singleCallTaskGroupId childMessageId)) childMessageId)
       (\<lambda>raw. Ret (stored_object raw))"

definition recovered_params :: "json \<Rightarrow> jobj \<Rightarrow> reply_params" where
  "recovered_params child stored = \<lparr>
     er_child = child, er_status = str_or (text_of (oget stored ''status'')) (baseStatus (jget child ''status'')),
     er_content = js_or (oget stored ''content'') (JStr []),
     er_replyData = js_nullish (oget stored ''reply_data'') JNull,
     er_extraPayload = as_obj (Some (js_or (oget stored ''extra_payload'') (JObj []))),
     er_errorCode = REPLY_LOST_RECOVERED,
     er_metadata = as_obj (Some (js_or (oget stored ''metadata'') (JObj [])))\<rparr>"

definition lost_answer_status :: "string \<Rightarrow> string" where
  "lost_answer_status st = (if st = FAILED \<or> st = CANCELLED then st else FAILED)"

definition recoverFinishedChild :: "sweeper \<Rightarrow> due_entry \<Rightarrow> json \<Rightarrow> json \<Rightarrow> string prog" where
  "recoverFinishedChild sw due caller child =
     bindP (loadStoredResult sw (wm_child (de_entry due))) (\<lambda>stored.
       let childStatus = baseStatus (jget child ''status'')
       in case stored of
            None \<Rightarrow> synthesizeFailure sw due caller child REPLY_LOST_RECOVERED
              (''Sub-task '' @ wm_child (de_entry due) @ '' finished with '' @ childStatus
                @ '' but neither its reply nor its stored result is available'')
              OUTCOME_RECOVERED (lost_answer_status childStatus)
          | Some r \<Rightarrow> seqP (emitReply sw due caller (recovered_params child r)) (Ret OUTCOME_RECOVERED))"


section \<open>Triage\<close>

text \<open>
  Awaiting what may not return: None stands for a run that hangs, and nothing
  follows it. `returns` is a program that always comes back, `finallyO` a
  clean-up that a hanging body never reaches.
\<close>

definition bindO :: "'a option prog \<Rightarrow> ('a \<Rightarrow> 'b option prog) \<Rightarrow> 'b option prog" where
  "bindO p f = bindP p (\<lambda>r. case r of None \<Rightarrow> Ret None | Some a \<Rightarrow> f a)"

definition returns :: "'a prog \<Rightarrow> 'a option prog" where
  "returns p = bindP p (\<lambda>a. Ret (Some a))"

primrec foldO :: "('b \<Rightarrow> 'a \<Rightarrow> 'b option prog) \<Rightarrow> 'b \<Rightarrow> 'a list \<Rightarrow> 'b option prog" where
  "foldO f acc [] = Ret (Some acc)"
| "foldO f acc (x # xs) = bindO (f acc x) (\<lambda>acc'. foldO f acc' xs)"

definition finallyO :: "'a option prog \<Rightarrow> unit prog \<Rightarrow> 'a option prog" where
  "finallyO p q = bindP (catchP (bindP p (\<lambda>r. Ret (Inr r))) (\<lambda>e. Ret (Inl e)))
     (\<lambda>r. case r of
        Inl e \<Rightarrow> seqP q (Raise e)
      | Inr None \<Rightarrow> Ret None
      | Inr (Some a) \<Rightarrow> seqP q (Ret (Some a)))"

text \<open>A cancellation answers with a response, or nothing, unless it never returns.\<close>

type_synonym cancel_child = "string \<Rightarrow> string \<Rightarrow> string \<Rightarrow> string \<Rightarrow> json option option prog"

definition cancelTimedOutChild :: "cancel_child \<Rightarrow> sweeper \<Rightarrow> due_entry \<Rightarrow> json \<Rightarrow> bool option prog" where
  "cancelTimedOutChild cancelChild sw due child =
     (if \<not> sw_cancelOnTimeout sw \<or> opt_truthy (jget child ''cancel_requested'') then Ret (Some False)
      else catchP (bindO (cancelChild (wm_child (de_entry due)) (wm_session (de_entry due))
                (CHILD_TIMEOUT @ '': no reply before deadline'') (''wait_sweeper:'' @ sw_workerId sw))
              (\<lambda>response. Ret (Some (case response of None \<Rightarrow> False | Some r \<Rightarrow> opt_truthy (jget r ''success'')))))
            (\<lambda>_. Ret (Some False)))"

definition triageChild :: "cancel_child \<Rightarrow> sweeper \<Rightarrow> due_entry \<Rightarrow> json \<Rightarrow> string option prog" where
  "triageChild cancelChild sw due caller =
     (let child_id = wm_child (de_entry due)
      in bindP (getExecutionByMessageId (sw_schema sw) child_id (wm_session (de_entry due))) (\<lambda>found.
        if \<not> opt_truthy found then
          returns (synthesizeFailure sw due caller (JObj []) CHILD_NEVER_STARTED
            (''No execution was ever recorded for sub-task '' @ child_id) OUTCOME_NEVER_STARTED [])
        else let child = the found; childStatus = baseStatus (jget child ''status'') in
          if isTerminalState childStatus then returns (recoverFinishedChild sw due caller child)
          else if childStatus \<in> set SUSPENDED_STATES then seqP (extendDeadline sw due) (Ret (Some OUTCOME_CHILD_WAITING))
          else let childWorkerId = text_of (jget child ''worker_id'') in
            if childWorkerId = [] then
              returns (synthesizeFailure sw due caller child CHILD_NEVER_STARTED
                (''Sub-task '' @ child_id @ '' was never picked up by a worker (status='' @ childStatus @ '')'')
                OUTCOME_NEVER_STARTED [])
            else bindP (isWorkerOnline (sw_registry sw) childWorkerId) (\<lambda>online.
              if online then
                bindP (renewalCeilingMs sw due child) (\<lambda>limitMs. bindP nowP (\<lambda>now.
                  if now < limitMs then seqP (extendDeadline sw due) (Ret (Some OUTCOME_CHILD_ALIVE))
                  else bindP (synthesizeFailure sw due caller child CHILD_TIMEOUT
                      (''Sub-task '' @ child_id @ '' is still '' @ childStatus @ '' on live worker '' @ childWorkerId
                        @ '' but produced no reply within '' @ int_str (sw_renewMaxMultiple sw) @ ''x its reply timeout'')
                      OUTCOME_TIMED_OUT [])
                    (\<lambda>outcome. bindO (cancelTimedOutChild cancelChild sw due child) (\<lambda>_. Ret (Some outcome)))))
              else returns (synthesizeFailure sw due caller child CHILD_WORKER_LOST
                (''Worker '' @ childWorkerId @ '' running sub-task '' @ child_id @ '' is no longer alive (status=''
                  @ childStatus @ '')'') OUTCOME_WORKER_LOST []))))"

definition resolveUnsuspendedCaller :: "sweeper \<Rightarrow> due_entry \<Rightarrow> json \<Rightarrow> string prog" where
  "resolveUnsuspendedCaller sw due caller =
     (let callerWorkerId = text_of (jget caller ''worker_id'')
      in bindP (if callerWorkerId = [] then Ret False
                else bindP (isWorkerOnline (sw_registry sw) callerWorkerId) (\<lambda>online. Ret (\<not> online)))
        (\<lambda>lost. if lost then bindP (zremP (de_indexKey due) (de_member due)) (\<lambda>_. Ret OUTCOME_CALLER_LOST)
                else seqP (extendDeadline sw due) (Ret OUTCOME_CALLER_NOT_SUSPENDED)))"

definition groupBlocksCompensation :: "sweeper \<Rightarrow> due_entry \<Rightarrow> string option prog" where
  "groupBlocksCompensation sw due =
     (let groupKey = task_group (sw_schema sw) (wm_group (de_entry due));
          dropped = (\<lambda>outcome. bindP (zremP (de_indexKey due) (de_member due)) (\<lambda>_. Ret (Some outcome)))
      in bindP (hgetP groupKey TASK_GROUP_FIELD_TOTAL) (\<lambda>total.
        if total = None then dropped OUTCOME_GROUP_GONE
        else bindP (hgetP groupKey TASK_GROUP_FIELD_ABORTED) (\<lambda>aborted.
          if opt_or aborted [] \<noteq> [] then dropped OUTCOME_GROUP_ABORTED
          else bindP (hgetP (task_group_results (sw_schema sw) (wm_group (de_entry due))) (wm_child (de_entry due)))
            (\<lambda>recorded. if recorded \<noteq> None then dropped OUTCOME_GROUP_ALREADY_JOINED else Ret None))))"

definition resolveEntry :: "cancel_child \<Rightarrow> sweeper \<Rightarrow> key \<Rightarrow> string \<Rightarrow> string \<Rightarrow> string option prog" where
  "resolveEntry cancelChild sw indexKey member rawScore =
     (let dropped = (\<lambda>outcome. bindP (zremP indexKey member) (\<lambda>_. Ret (Some outcome)))
      in case decodeMember member of
        Inl _ \<Rightarrow> dropped OUTCOME_MALFORMED
      | Inr entry \<Rightarrow>
          (let due = \<lparr>de_indexKey = indexKey, de_member = member, de_deadline = js_trunc_number rawScore, de_entry = entry\<rparr>
           in bindP (getExecutionByMessageId (sw_schema sw) (wm_parent entry) (wm_session entry)) (\<lambda>found.
             if \<not> opt_truthy found then dropped OUTCOME_CALLER_MISSING
             else let caller = the found; callerStatus = baseStatus (jget caller ''status'') in
               if isTerminalState callerStatus then dropped OUTCOME_CALLER_TERMINAL
               else if callerStatus \<notin> set SUSPENDED_STATES then returns (resolveUnsuspendedCaller sw due caller)
               else if wm_child entry = [] then Ret (Some OUTCOME_ASK_USER_SKIPPED)
               else bindP (if wm_group entry \<noteq> [] then groupBlocksCompensation sw due else Ret None) (\<lambda>blocked.
                 case blocked of
                   Some outcome \<Rightarrow> Ret (Some outcome)
                 | None \<Rightarrow> triageChild cancelChild sw due caller))))"


section \<open>The pass\<close>

type_synonym outcomes = "(string \<times> int) list"

definition bump :: "string \<Rightarrow> int \<Rightarrow> outcomes \<Rightarrow> outcomes" where
  "bump outcome n counts = AList.update outcome (opt_or (map_of counts outcome) 0 + n) counts"

definition merge_outcomes :: "outcomes \<Rightarrow> outcomes \<Rightarrow> outcomes" where
  "merge_outcomes counts added = foldl (\<lambda>acc (outcome, n). bump outcome n acc) counts added"

definition resolveDueEntries :: "cancel_child \<Rightarrow> sweeper \<Rightarrow> nat \<Rightarrow> outcomes option prog" where
  "resolveDueEntries cancelChild sw shard =
     (let indexKey = wait_index (sw_schema sw) shard
      in bindP nowP (\<lambda>now. bindP (zrangebyscoreP indexKey 0 now WAIT_SWEEP_BATCH_LIMIT) (\<lambda>due.
        foldO (\<lambda>outcomes (member, score).
          bindO (catchP (resolveEntry cancelChild sw indexKey member score) (\<lambda>_. Ret (Some OUTCOME_ERROR))) (\<lambda>outcome.
            Ret (Some (bump outcome 1 outcomes)))) [] due)))"

definition pruneShard :: "sweeper \<Rightarrow> nat \<Rightarrow> int prog" where
  "pruneShard sw shard = bindP nowP (\<lambda>now.
     zremrangebyscoreP (wait_index (sw_schema sw) shard) 0 (now - WAIT_PRUNE_AFTER_SECONDS * 1000))"

text \<open>The body of a claimed shard; a failure after some counts are known keeps them and adds an error.\<close>

definition sweep_claimed :: "cancel_child \<Rightarrow> sweeper \<Rightarrow> nat \<Rightarrow> bool \<Rightarrow> outcomes option prog" where
  "sweep_claimed cancelChild sw shard pruning =
     bindP (catchP (if pruning then bindP (pruneShard sw shard) (\<lambda>pruned.
              Ret (if pruned \<noteq> 0 then (True, [(OUTCOME_PRUNED, pruned)]) else (True, [])))
            else Ret (True, [])) (\<lambda>_. Ret (False, [(OUTCOME_ERROR, 1)])))
       (\<lambda>(ok, outcomes).
          if ok \<and> sw_enabled sw
          then catchP (bindO (resolveDueEntries cancelChild sw shard) (\<lambda>found. Ret (Some (merge_outcomes outcomes found))))
                 (\<lambda>_. Ret (Some (bump OUTCOME_ERROR 1 outcomes)))
          else Ret (Some outcomes))"

definition sweepShard :: "cancel_child \<Rightarrow> sweeper \<Rightarrow> nat \<Rightarrow> bool \<Rightarrow> outcomes option prog" where
  "sweepShard cancelChild sw shard pruning =
     (if \<not> pruning \<and> \<not> sw_enabled sw then Ret (Some [])
      else bindP uuidP (\<lambda>u.
        let lockKey = wait_sweep_lock (sw_schema sw) shard; token = filter (\<lambda>c. c \<noteq> CHR ''-'') u
        in bindP (catchP (acquireScopedLock lockKey token (sw_lockTtl sw)) (\<lambda>_. Ret False)) (\<lambda>claimed.
          if \<not> claimed then Ret (Some [])
          else finallyO (sweep_claimed cancelChild sw shard pruning)
            (catchP (bindP (releaseScopedLock lockKey token) (\<lambda>_. Ret ())) (\<lambda>_. Ret ())))))"

definition pruneIsDue :: "sweeper \<Rightarrow> (bool \<times> sweeper) prog" where
  "pruneIsDue sw =
     (if \<not> sw_pruneEnabled sw then Ret (False, sw)
      else bindP nowP (\<lambda>now.
        case lastPruneMs sw of
          Some previous \<Rightarrow> if now - previous < sw_pruneInterval sw * 1000 then Ret (False, sw)
                       else Ret (True, sw\<lparr>lastPruneMs := Some now\<rparr>)
        | None \<Rightarrow> Ret (True, sw\<lparr>lastPruneMs := Some now\<rparr>)))"

definition sweepOnce :: "cancel_child \<Rightarrow> sweeper \<Rightarrow> (outcomes \<times> sweeper) option prog" where
  "sweepOnce cancelChild sw = bindP (pruneIsDue sw) (\<lambda>(pruning, sw').
     let start = shardCursor sw'
     in bindO (foldO (\<lambda>outcomes offset.
            bindO (sweepShard cancelChild sw' ((start + offset) mod WAIT_INDEX_SHARDS) pruning) (\<lambda>found.
              Ret (Some (merge_outcomes outcomes found)))) [] [0 ..< WAIT_INDEX_SHARDS])
          (\<lambda>outcomes. Ret (Some (outcomes, sw'\<lparr>shardCursor := (start + 1) mod WAIT_INDEX_SHARDS\<rparr>))))"


section \<open>Rules\<close>

lemma wp_bindO [simp]:
  "wp exec (bindO p f) Q E \<sigma> = wp exec p (\<lambda>r \<sigma>'. case r of None \<Rightarrow> Q None \<sigma>' | Some a \<Rightarrow> wp exec (f a) Q E \<sigma>') E \<sigma>"
  unfolding bindO_def wp_bindP by (intro arg_cong [where f = "\<lambda>Q. wp exec p Q E \<sigma>"] ext) (simp split: option.splits)

lemma wp_returns [simp]: "wp exec (returns p) Q E \<sigma> = wp exec p (\<lambda>a. Q (Some a)) E \<sigma>"
  by (simp add: returns_def)

lemma wp_finallyO:
  "wp exec (finallyO p q) Q E \<sigma> =
     wp exec p (\<lambda>r \<sigma>'. case r of None \<Rightarrow> Q None \<sigma>' | Some a \<Rightarrow> wp exec q (\<lambda>_. Q (Some a)) E \<sigma>')
       (\<lambda>e \<sigma>'. wp exec q (\<lambda>_. E e) E \<sigma>') \<sigma>"
  unfolding finallyO_def wp_bindP wp_catchP wp_Ret
  by (intro arg_cong2 [where f = "\<lambda>Q E. wp exec p Q E \<sigma>"] ext) (simp_all split: option.splits)

lemma wp_foldO_inv:
  assumes "\<And>ys x zs acc \<sigma>'. xs = ys @ x # zs \<Longrightarrow> I ys acc \<sigma>' \<Longrightarrow>
      wp exec (f acc x) (\<lambda>r \<sigma>''. case r of None \<Rightarrow> H \<sigma>'' | Some acc' \<Rightarrow> I (ys @ [x]) acc' \<sigma>'') E \<sigma>'"
    and "I [] a \<sigma>"
  shows "wp exec (foldO f a xs) (\<lambda>r \<sigma>'. case r of None \<Rightarrow> H \<sigma>' | Some acc \<Rightarrow> I xs acc \<sigma>') E \<sigma>"
proof -
  have "wp exec (foldO f acc zs) (\<lambda>r \<sigma>'. case r of None \<Rightarrow> H \<sigma>' | Some acc \<Rightarrow> I (ys @ zs) acc \<sigma>') E \<sigma>'"
    if "xs = ys @ zs" "I ys acc \<sigma>'" for ys zs acc \<sigma>'
    using that
  proof (induction zs arbitrary: ys acc \<sigma>')
    case (Cons x zs)
    show ?case
      unfolding foldO.simps wp_bindO
    proof (rule wp_mono [OF assms(1) [of ys x zs acc \<sigma>']], goal_cases)
      case (3 r \<sigma>'')
      then show ?case
      proof (cases r)
        case (Some acc')
        with 3 have "wp exec (foldO f acc' zs) (\<lambda>r \<sigma>'. case r of None \<Rightarrow> H \<sigma>' | Some acc \<Rightarrow> I ((ys @ [x]) @ zs) acc \<sigma>') E \<sigma>''"
          using Cons.prems(1) by (intro Cons.IH) simp_all
        then show ?thesis unfolding append_assoc append_Cons append_Nil using Some by simp
      qed simp
    qed (use Cons.prems in simp_all)
  qed simp
  from this [of "[]" xs a \<sigma>, unfolded append_Nil] assms(2) show ?thesis by simp
qed

end
