(* ===== verification/RegistryContracts.thy ===== *)
theory RegistryContracts
  imports Registry Interleaving
begin

text \<open>
  What the registry promises: fencing of worker leases, exclusion by scoped
  locks, the denylist against membership, which workers count as online, and
  the life of an execution record.
\<close>


section \<open>Leases\<close>

context redis_available
begin

text \<open>
  What a registry without the token does to a lease: the commands it issues are
  the look at the lease and, for a claim, one SET that the server takes only for
  a free key.
\<close>

lemma foreign_heartbeat_trace:
  assumes "lease_owner (kv s) (reg_schema reg) w = Some t" "lock_token reg w \<noteq> Some t"
  shows "wp exec (heartbeatWorker reg w ttl)
     (\<lambda>ok (s', l'). \<not> ok \<and> kv s' = kv s \<and> l' = l @ [Now, Get (worker_online_lease (reg_schema reg) w)]) (\<lambda>_ _. False) (s, l)"
  using assms
  by (auto simp: heartbeatWorker_def Let_def lease_owner_def split: option.splits intro!: wp_nowP wp_getP)

lemma foreign_refresh_trace:
  assumes "lease_owner (kv s) (reg_schema reg) w = Some t" "lock_token reg w \<noteq> Some t"
  shows "wp exec (refreshWorkerIdLock reg w ttl)
     (\<lambda>ok (s', l'). \<not> ok \<and> kv s' = kv s
        \<and> l' = l @ (if lock_token reg w = None then [] else [Get (worker_online_lease (reg_schema reg) w)])) (\<lambda>_ _. False) (s, l)"
  using assms
  by (auto simp: refreshWorkerIdLock_def Let_def lease_owner_def split: option.splits intro!: wp_getP)

lemma foreign_release_trace:
  assumes "lease_owner (kv s) (reg_schema reg) w = Some t" "expected_token reg w tok \<noteq> Some t"
  shows "wp exec (releaseWorkerId reg w tok)
     (\<lambda>r (s', l'). r = (False, reg) \<and> kv s' = kv s
        \<and> l' = l @ (if expected_token reg w tok = None then [] else [Get (worker_online_lease (reg_schema reg) w)])) (\<lambda>_ _. False) (s, l)"
  using assms
  by (auto simp: releaseWorkerId_def Let_def lease_owner_def split: option.splits intro!: wp_getP)

lemma foreign_claim_trace:
  assumes "lease_owner (kv s) (reg_schema reg) w = Some t" "0 < ttl"
  shows "wp exec (claimWorkerId reg w ttl) (\<lambda>_ _. False)
     (\<lambda>e (s', l'). e = JsError (''worker_id already in use: '' @ w) \<and> kv s' = kv s
        \<and> (\<exists>x. l' = l @ [Uuid, SetC (worker_online_lease (reg_schema reg) w) x (Some ttl) True])) (s, l)"
  using assms
  by (auto simp: claimWorkerId_def Let_def lease_owner_def split: option.splits intro!: wp_uuidP wp_setP_nx_any)

end

text \<open>
  C8. Fencing: while a lease carries the token of one registry, another registry
  can neither renew, refresh, release nor claim it: each of these answers no, and
  trying leaves the keyspace as it was. Nor does it touch the life time of the
  lease: the only commands issued are the look at the clock and at the lease, and
  for a claim the one SET NX that the server refuses.
\<close>

theorem lease_fencing:
  assumes avail: "redis_available exec kv oth clk"
    and owner: "lease_owner (kv s) (reg_schema reg) w = Some t"
    and foreign: "lock_token reg w \<noteq> Some t" "expected_token reg w token \<noteq> Some t" and ttl: "0 < ttl"
    and k: "k = worker_online_lease (reg_schema reg) w"
  shows "result exec (heartbeatWorker reg w ttl) s = Inr False
    \<and> kv (final exec (heartbeatWorker reg w ttl) s) = kv s
    \<and> issued exec (heartbeatWorker reg w ttl) s = [Now, Get k]
    \<and> result exec (refreshWorkerIdLock reg w ttl) s = Inr False
    \<and> kv (final exec (refreshWorkerIdLock reg w ttl) s) = kv s
    \<and> issued exec (refreshWorkerIdLock reg w ttl) s = (if lock_token reg w = None then [] else [Get k])
    \<and> result exec (releaseWorkerId reg w token) s = Inr (False, reg)
    \<and> kv (final exec (releaseWorkerId reg w token) s) = kv s
    \<and> issued exec (releaseWorkerId reg w token) s = (if expected_token reg w token = None then [] else [Get k])
    \<and> result exec (claimWorkerId reg w ttl) s = Inl (JsError (''worker_id already in use: '' @ w))
    \<and> kv (final exec (claimWorkerId reg w ttl) s) = kv s
    \<and> (\<exists>x. issued exec (claimWorkerId reg w ttl) s = [Uuid, SetC k x (Some ttl) True])"
proof -
  have "result exec (heartbeatWorker reg w ttl) s = Inr False \<and> kv (final exec (heartbeatWorker reg w ttl) s) = kv s
      \<and> issued exec (heartbeatWorker reg w ttl) s = [Now, Get k]"
    using wp_result [OF redis_available.foreign_heartbeat_trace [OF avail owner foreign(1), of ttl "[]"]] by (auto simp: k)
  moreover have "result exec (refreshWorkerIdLock reg w ttl) s = Inr False \<and> kv (final exec (refreshWorkerIdLock reg w ttl) s) = kv s
      \<and> issued exec (refreshWorkerIdLock reg w ttl) s = (if lock_token reg w = None then [] else [Get k])"
    using wp_result [OF redis_available.foreign_refresh_trace [OF avail owner foreign(1), of ttl "[]"]] by (auto simp: k)
  moreover have "result exec (releaseWorkerId reg w token) s = Inr (False, reg) \<and> kv (final exec (releaseWorkerId reg w token) s) = kv s
      \<and> issued exec (releaseWorkerId reg w token) s = (if expected_token reg w token = None then [] else [Get k])"
    using wp_result [OF redis_available.foreign_release_trace [OF avail owner foreign(2), of "[]"]] by (auto simp: k)
  moreover have "result exec (claimWorkerId reg w ttl) s = Inl (JsError (''worker_id already in use: '' @ w))
      \<and> kv (final exec (claimWorkerId reg w ttl) s) = kv s
      \<and> (\<exists>x. issued exec (claimWorkerId reg w ttl) s = [Uuid, SetC k x (Some ttl) True])"
    using wp_result [OF redis_available.foreign_claim_trace [OF avail owner ttl, of "[]"]] by (auto simp: k)
  ultimately show ?thesis by (simp (no_asm_simp))
qed

definition sample_registry :: registry where
  "sample_registry = \<lparr>reg_schema = V1, reg_ip = ''10.0.0.1'', lockTokens = Map.empty\<rparr>"

text \<open>A server where worker `w1` holds its lease with some token `t`.\<close>

definition leased :: "string \<Rightarrow> mock" where
  "leased t = mock_after [SetC (worker_online_lease V1 ''w1'') (encodeWorkerPresence (Some t) 1 ''10.0.0.2'') None False] (empty_mock 0)"

theorem lease_fencing_witness:
  "result mock_exec (heartbeatWorker sample_registry ''w1'' 30) (leased ''t1'') = Inr False
   \<and> issued mock_exec (refreshWorkerIdLock sample_registry ''w1'' 30) (leased ''t1'') = []
   \<and> issued mock_exec (releaseWorkerId sample_registry ''w1'' ''t2'') (leased ''t1'') = [Get (worker_online_lease V1 ''w1'')]"
proof -
  have "lease_owner (mock_view (leased ''t1'')) (reg_schema sample_registry) ''w1'' = Some ''t1''"
    by (simp add: lease_owner_def leased_def mock_after_view presence_roundtrip sample_registry_def)
  moreover have "lock_token sample_registry ''w1'' = None" "expected_token sample_registry ''w1'' ''t2'' = Some ''t2''"
    "reg_schema sample_registry = V1" "Some ''t2'' \<noteq> Some ''t1''" "None \<noteq> Some ''t1''" "0 < (30::nat)"
    by (simp_all add: sample_registry_def lock_token_def expected_token_def)
  ultimately have tried: "result mock_exec (heartbeatWorker sample_registry ''w1'' 30) (leased ''t1'') = Inr False"
    "issued mock_exec (refreshWorkerIdLock sample_registry ''w1'' 30) (leased ''t1'') =
       (if lock_token sample_registry ''w1'' = None then [] else [Get (worker_online_lease V1 ''w1'')])"
    "issued mock_exec (releaseWorkerId sample_registry ''w1'' ''t2'') (leased ''t1'') =
       (if expected_token sample_registry ''w1'' ''t2'' = None then [] else [Get (worker_online_lease V1 ''w1'')])"
    using lease_fencing [OF mock_server.redis_available_axioms, of "leased ''t1''" sample_registry "''w1''" "''t1''" "''t2''" 30
        "worker_online_lease V1 ''w1''"] by metis+
  then show ?thesis by (simp add: sample_registry_def lock_token_def expected_token_def)
qed

text \<open>
  Claiming a free worker id makes the registry the owner of the lease: its
  heartbeat is accepted, keeps it the owner, and shows the worker online from
  then on; releasing it frees the lease.
\<close>

lemma claim_owns_lease:
  assumes avail: "redis_available exec kv oth clk"
    and free: "v_str (kv s) (worker_online_lease (reg_schema reg) w) = None"
      "worker_online_lease (reg_schema reg) w \<notin> oth s" and ttl: "0 < ttl" and clock: "0 < clk s"
  shows "\<exists>token reg' s1 s2. result exec (claimWorkerId reg w ttl) s = Inr (token, reg')
    \<and> s1 = final exec (claimWorkerId reg w ttl) s \<and> s2 = final exec (heartbeatWorker reg' w ttl) s1
    \<and> result exec (heartbeatWorker reg' w ttl) s1 = Inr True
    \<and> lease_owner (kv s2) (reg_schema reg) w = Some token
    \<and> w \<in> v_set (kv s2) (known_workers (reg_schema reg))
    \<and> presence_online (v_str (kv s2) (worker_online_lease (reg_schema reg) w))
    \<and> \<not> presence_online (v_str (kv s1) (worker_online_lease (reg_schema reg) w))
    \<and> (\<exists>reg''. result exec (releaseWorkerId reg' w []) s2 = Inr (True, reg''))
    \<and> v_str (kv (final exec (releaseWorkerId reg' w []) s2)) (worker_online_lease (reg_schema reg) w) = None"
proof -
  let ?lease = "worker_online_lease (reg_schema reg) w"
  obtain r where r: "result exec (claimWorkerId reg w ttl) s = Inr r" "length (fst r) = 32"
    "snd r = reg\<lparr>lockTokens := (lockTokens reg)(w \<mapsto> fst r)\<rparr>"
    "v_str (kv (final exec (claimWorkerId reg w ttl) s)) ?lease = Some (encodeWorkerPresence (Some (fst r)) 0 (reg_ip reg))"
    "clk s \<le> clk (final exec (claimWorkerId reg w ttl) s)"
    by (rule wp_total [OF redis_available.wp_claimWorkerId [OF avail free(1) ttl free(2)]]) auto
  let ?s1 = "final exec (claimWorkerId reg w ttl) s" and ?reg = "snd r"
  have own: "lease_owner (kv ?s1) (reg_schema ?reg) w = Some (fst r)" "lock_token ?reg w = Some (fst r)"
    using r(2-4) by (auto simp: lease_owner_def presence_roundtrip lock_token_def)
  obtain ok where beat: "result exec (heartbeatWorker ?reg w ttl) ?s1 = Inr ok" "ok"
    "w \<in> v_set (kv (final exec (heartbeatWorker ?reg w ttl) ?s1)) (known_workers (reg_schema reg))"
    "v_str (kv (final exec (heartbeatWorker ?reg w ttl) ?s1)) ?lease
       = Some (encodeWorkerPresence (Some (fst r)) (clk ?s1) (reg_ip reg))"
    by (rule wp_total [OF redis_available.wp_own_heartbeat [OF avail own ttl]]) (simp add: r(3))
  let ?s2 = "final exec (heartbeatWorker ?reg w ttl) ?s1"
  have own2: "lease_owner (kv ?s2) (reg_schema ?reg) w = Some (fst r)"
    using beat(4) by (simp add: lease_owner_def presence_roundtrip r(3))
  obtain r' where "result exec (releaseWorkerId ?reg w []) ?s2 = Inr (True, r')"
    "v_str (kv (final exec (releaseWorkerId ?reg w []) ?s2)) ?lease = None"
    by (rule wp_total [OF redis_available.wp_own_release [OF avail own2 own(2)]]) (simp add: r(3))
  then show ?thesis
    using r beat own2 clock by (intro exI [of _ "fst r"] exI [of _ ?reg] exI)
      (auto simp: presence_online_def presence_roundtrip prod_eq_iff)
qed

lemma claim_owns_lease_example:
  "\<exists>token reg'. result mock_exec (claimWorkerId sample_registry ''w1'' 30) (empty_mock 5) = Inr (token, reg')
     \<and> result mock_exec (heartbeatWorker reg' ''w1'' 30) (final mock_exec (claimWorkerId sample_registry ''w1'' 30) (empty_mock 5)) = Inr True"
  using claim_owns_lease [OF mock_server.redis_available_axioms, of "empty_mock 5" sample_registry "''w1''" 30]
  by (auto simp: others_fresh)



section \<open>Scoped locks\<close>

definition lock_holder :: "view \<Rightarrow> key \<Rightarrow> string option" where
  "lock_holder v k = decodeLockToken (v_str v k)"

context redis_available
begin

lemma wp_acquire_free:
  "v_str (kv s) k = None \<Longrightarrow> k \<notin> oth s \<Longrightarrow> 0 < ttl \<Longrightarrow>
   wp exec (acquireScopedLock k t ttl) (\<lambda>ok \<sigma>. ok \<and> kv (fst \<sigma>) = put_str k (lock_value t) (kv s)) (\<lambda>_ _. False) (s, l)"
  unfolding acquireScopedLock_def by (rule wp_setP_nx) auto

lemma wp_acquire_taken:
  "v_str (kv s) k \<noteq> None \<Longrightarrow> 0 < ttl \<Longrightarrow>
   wp exec (acquireScopedLock k t ttl) (\<lambda>ok \<sigma>. \<not> ok \<and> kv (fst \<sigma>) = kv s) (\<lambda>_ _. False) (s, l)"
  unfolding acquireScopedLock_def by (rule wp_setP_nx_any) auto

lemma wp_releaseScopedLock:
  "v_str (kv s) k = Some (lock_value t) \<Longrightarrow> t' \<noteq> [] \<Longrightarrow>
   wp exec (releaseScopedLock k t') (\<lambda>ok \<sigma>. ok = (t' = t) \<and> kv (fst \<sigma>) = (if t' = t then clear_key k (kv s) else kv s))
     (\<lambda>_ _. False) (s, l)"
  unfolding releaseScopedLock_def
  by (auto intro!: wp_getP wp_delP simp: lock_roundtrip)

end

text \<open>
  A scoped lock excludes: once one token has acquired a free lock, no other
  token acquires or releases it, and its own release frees it.
\<close>

lemma scoped_lock_excludes:
  assumes avail: "redis_available exec kv oth clk"
    and free: "v_str (kv s) k = None" "k \<notin> oth s" and ttl: "0 < ttl"
    and tokens: "t \<noteq> []" "t' \<noteq> []" "t' \<noteq> t"
    and held: "s1 = final exec (acquireScopedLock k t ttl) s"
  shows "result exec (acquireScopedLock k t ttl) s = Inr True
    \<and> result exec (acquireScopedLock k t' ttl) s1 = Inr False \<and> kv (final exec (acquireScopedLock k t' ttl) s1) = kv s1
    \<and> result exec (releaseScopedLock k t') s1 = Inr False \<and> kv (final exec (releaseScopedLock k t') s1) = kv s1
    \<and> result exec (releaseScopedLock k t) s1 = Inr True
    \<and> v_str (kv (final exec (releaseScopedLock k t) s1)) k = None"
proof -
  have got: "result exec (acquireScopedLock k t ttl) s = Inr True" "kv s1 = put_str k (lock_value t) (kv s)"
    using wp_result [OF redis_available.wp_acquire_free [OF avail free ttl, of t "[]"]] by (auto simp: held)
  then have s1: "v_str (kv s1) k = Some (lock_value t)" "v_str (kv s1) k \<noteq> None" by simp_all
  show ?thesis
    using got(1) wp_result [OF redis_available.wp_acquire_taken [OF avail s1(2) ttl, of t' "[]"]]
      wp_result [OF redis_available.wp_releaseScopedLock [OF avail s1(1) tokens(2), of "[]"]]
      wp_result [OF redis_available.wp_releaseScopedLock [OF avail s1(1) tokens(1), of "[]"]] tokens(3)
    by auto
qed

lemma scoped_lock_excludes_example:
  "result mock_exec (releaseScopedLock ''lock'' ''b'') (final mock_exec (acquireScopedLock ''lock'' ''a'' 10) (empty_mock 0)) = Inr False"
  using scoped_lock_excludes [OF mock_server.redis_available_axioms, of "empty_mock 0" "''lock''" 10 "''a''" "''b''"]
  by (simp add: others_fresh)


section \<open>The denylist\<close>

definition shut_out :: "view \<Rightarrow> key_schema \<Rightarrow> string \<Rightarrow> string \<Rightarrow> bool" where
  "shut_out v sch t w \<longleftrightarrow> w \<in> v_set v (agentTypeDenied sch t) \<and> w \<notin> v_set v (agentTypeMembers sch t)"

context redis_available
begin

lemma wp_deny:
  "wp exec (denyWorkerForType reg t w) (\<lambda>_ \<sigma>. shut_out (kv (fst \<sigma>)) (reg_schema reg) t w) (\<lambda>_ _. False) (s, l)"
  unfolding denyWorkerForType_def
  by (rule wp_pipeline_Cons, simp, rule wp_pipeline_Cons) (auto simp: shut_out_def)

text \<open>Both ways into a type's members ask the denylist first.\<close>

lemma wp_join:
  "wp exec (bindP (isWorkerDeniedForType reg a x) (\<lambda>denied.
      if denied then Ret () else saddP (agentTypeMembers (reg_schema reg) a) x))
    (\<lambda>_ \<sigma>. kv (fst \<sigma>) = (if x \<in> v_set (kv s) (agentTypeDenied (reg_schema reg) a) then kv s
       else set_members (agentTypeMembers (reg_schema reg) a)
              (insert x (v_set (kv s) (agentTypeMembers (reg_schema reg) a))) (kv s))) (\<lambda>_ _. False) (s, l)"
  unfolding isWorkerDeniedForType_def wp_bindP by (rule wp_sismemberP) (auto intro!: wp_saddP)

lemma denied_join:
  assumes "shut_out (kv (fst \<sigma>)) (reg_schema reg) t w"
  shows "wp exec (bindP (isWorkerDeniedForType reg a x) (\<lambda>denied.
      if denied then Ret () else saddP (agentTypeMembers (reg_schema reg) a) x))
    (\<lambda>_ \<sigma>. shut_out (kv (fst \<sigma>)) (reg_schema reg) t w) (\<lambda>_ _. False) \<sigma>"
  by (cases \<sigma>, simp only:, rule wp_mono [OF wp_join]) (use assms in \<open>auto simp: shut_out_def\<close>)

lemma denied_membership:
  assumes "shut_out (kv s) (reg_schema reg) t w"
  shows "wp exec (registerWorkerMembership reg x types) (\<lambda>_ \<sigma>. shut_out (kv (fst \<sigma>)) (reg_schema reg) t w) (\<lambda>_ _. False) (s, l)"
  unfolding registerWorkerMembership_def wp_seqP
proof (rule wp_saddP, rule wp_forP_inv, goal_cases)
  case (1 s1 a \<sigma>)
  show ?case
    unfolding wp_seqP
    by (cases \<sigma>, simp only:, rule wp_saddP, rule denied_join) (use 1 in \<open>simp_all add: shut_out_def\<close>)
qed (use assms in \<open>simp add: shut_out_def\<close>)

lemma denied_restore:
  assumes "shut_out (kv s) (reg_schema reg) t w"
  shows "wp exec (restoreWorkerToTypeMembers reg x) (\<lambda>_ \<sigma>. shut_out (kv (fst \<sigma>)) (reg_schema reg) t w) (\<lambda>_ _. False) (s, l)"
  unfolding restoreWorkerToTypeMembers_def wp_bindP
  by (rule wp_smembersP, rule wp_forP_inv, rule denied_join) (use assms in auto)

lemma wp_allow:
  "wp exec (allowWorkerForType reg t w) (\<lambda>_ \<sigma>. kv (fst \<sigma>) = set_members (agentTypeDenied (reg_schema reg) t)
     (v_set (kv s) (agentTypeDenied (reg_schema reg) t) - {w}) (kv s)) (\<lambda>_ _. False) (s, l)"
  unfolding allowWorkerForType_def by (rule wp_sremP) simp

lemma allowed_restore:
  assumes "w \<notin> v_set (kv s) (agentTypeDenied (reg_schema reg) t)"
    and "t \<in> v_set (kv s) (workerDeclaredAgentTypes (reg_schema reg) w)"
  shows "wp exec (restoreWorkerToTypeMembers reg w) (\<lambda>_ \<sigma>. w \<in> v_set (kv (fst \<sigma>)) (agentTypeMembers (reg_schema reg) t)) (\<lambda>_ _. False) (s, l)"
proof -
  let ?M = "\<lambda>v. v_set v (agentTypeMembers (reg_schema reg) t)" and ?D = "\<lambda>v. v_set v (agentTypeDenied (reg_schema reg) t)"
  have "wp exec (forP types (\<lambda>a. bindP (isWorkerDeniedForType reg a w) (\<lambda>denied.
      if denied then Ret () else saddP (agentTypeMembers (reg_schema reg) a) w)))
    (\<lambda>_ \<sigma>. w \<in> ?M (kv (fst \<sigma>))) (\<lambda>_ _. False) \<sigma>"
    if "w \<notin> ?D (kv (fst \<sigma>))" "t \<in> set types \<or> w \<in> ?M (kv (fst \<sigma>))" for types \<sigma>
    using that
  proof (induction types arbitrary: \<sigma>)
    case (Cons a types)
    show ?case
      unfolding forP.simps wp_bindP [of _ _ "\<lambda>_. forP types f" for f]
      by (cases \<sigma>, simp only:, rule wp_mono [OF wp_join]) (use Cons in auto)
  qed simp
  then show ?thesis
    unfolding restoreWorkerToTypeMembers_def wp_bindP using assms by (intro wp_smembersP) auto
qed

end

text \<open>
  Denial holds: once a worker is denied for an agent type it is out of the
  type's members, and no registration (its own, under any list of types) and no
  restore brings it back.
\<close>

lemma denial_holds:
  assumes avail: "redis_available exec kv oth clk" and s1: "s1 = final exec (denyWorkerForType reg t w) s"
    and reg': "reg_schema reg' = reg_schema reg"
  shows "w \<notin> v_set (kv s1) (agentTypeMembers (reg_schema reg) t)
    \<and> w \<notin> v_set (kv (final exec (registerWorkerMembership reg' w types) s1)) (agentTypeMembers (reg_schema reg) t)
    \<and> w \<notin> v_set (kv (final exec (restoreWorkerToTypeMembers reg' w) s1)) (agentTypeMembers (reg_schema reg) t)"
proof -
  have out: "shut_out (kv s1) (reg_schema reg') t w"
    using wp_result [OF redis_available.wp_deny [OF avail, of reg t w s "[]"]] by (auto simp: s1 reg')
  show ?thesis
    using out wp_result [OF redis_available.denied_membership [OF avail out, of w types "[]"]]
      wp_result [OF redis_available.denied_restore [OF avail out, of w "[]"]] reg'
    by (auto simp: shut_out_def)
qed

lemma denial_holds_example:
  "''w1'' \<notin> v_set (mock_view (final mock_exec (registerWorkerMembership sample_registry ''w1'' [''chat''])
     (final mock_exec (denyWorkerForType sample_registry ''chat'' ''w1'') (empty_mock 0)))) (agentTypeMembers V1 ''chat'')"
  using denial_holds [OF mock_server.redis_available_axioms refl, where s = "empty_mock 0"
      and reg = sample_registry and reg' = sample_registry and t = "''chat''" and w = "''w1''" and types = "[''chat'']"]
  by (simp add: sample_registry_def)

text \<open>
  Allowing a worker again and restoring it makes it a member of every type
  it declared, also of the one it was denied for.
\<close>

lemma allow_restores:
  assumes avail: "redis_available exec kv oth clk"
    and declared: "t \<in> v_set (kv s) (workerDeclaredAgentTypes (reg_schema reg) w)"
  shows "w \<in> v_set (kv (final exec (restoreWorkerToTypeMembers reg w) (final exec (allowWorkerForType reg t w) s)))
    (agentTypeMembers (reg_schema reg) t)"
proof -
  let ?s1 = "final exec (allowWorkerForType reg t w) s"
  have "w \<notin> v_set (kv ?s1) (agentTypeDenied (reg_schema reg) t)"
    "t \<in> v_set (kv ?s1) (workerDeclaredAgentTypes (reg_schema reg) w)"
    using wp_result [OF redis_available.wp_allow [OF avail, of reg t w s "[]"]] declared by auto
  from wp_result [OF redis_available.allowed_restore [OF avail this, of "[]"]] show ?thesis by auto
qed

lemma allow_restores_example:
  "''w1'' \<in> v_set (mock_view (final mock_exec (restoreWorkerToTypeMembers sample_registry ''w1'')
     (final mock_exec (allowWorkerForType sample_registry ''chat'' ''w1'')
       (mock_after [Sadd (workerDeclaredAgentTypes V1 ''w1'') ''chat''] (empty_mock 0))))) (agentTypeMembers V1 ''chat'')"
  using allow_restores [OF mock_server.redis_available_axioms, of "''chat''"
      "mock_after [Sadd (workerDeclaredAgentTypes V1 ''w1'') ''chat''] (empty_mock 0)" sample_registry "''w1''"]
  by (simp add: sample_registry_def mock_after_view)


section \<open>Who is online\<close>

context redis_available
begin

lemma wp_hasOnlineAgentType:
  "wp exec (hasOnlineAgentType reg t)
     (\<lambda>r \<sigma>. fst r = (snd r \<noteq> []) \<and> distinct (snd r) \<and> kv (fst \<sigma>) = kv s
        \<and> set (snd r) = {w \<in> v_set (kv s) (agentTypeMembers (reg_schema reg) t).
            presence_online (v_str (kv s) (worker_online_lease (reg_schema reg) w))}) (\<lambda>_ _. False) (s, l)"
  unfolding hasOnlineAgentType_def wp_bindP
proof (rule wp_smembersP, goal_cases)
  case (1 s1 members)
  let ?on = "\<lambda>w. presence_online (v_str (kv s) (worker_online_lease (reg_schema reg) w))"
  have "wp exec (foldP (\<lambda>ids w. bindP (isWorkerOnline reg w) (\<lambda>online. Ret (if online then ids @ [w] else ids))) [] members)
      (\<lambda>ids \<sigma>. ids = filter ?on members \<and> kv (fst \<sigma>) = kv s) (\<lambda>_ _. False) (s1, l @ [Smembers (agentTypeMembers (reg_schema reg) t)])"
  proof (rule wp_foldP_inv [where I = "\<lambda>done ids \<sigma>. ids = filter ?on done \<and> kv (fst \<sigma>) = kv s"], goal_cases)
    case (1 ys x zs acc \<sigma>')
    then show ?case by (cases \<sigma>') (auto simp: isWorkerOnline_def intro!: wp_getP)
  qed (use 1 in auto)
  then show ?case
    by (rule wp_mono) (use 1 in auto)
qed

lemma wp_getWorker:
  "wp exec (getWorker reg w)
     (\<lambda>d \<sigma>. kv (fst \<sigma>) = kv s \<and> (d \<noteq> None) = presence_online (v_str (kv s) (worker_online_lease (reg_schema reg) w))) (\<lambda>_ _. False) (s, l)"
  by (auto simp: getWorker_def Let_def presence_online_def intro!: wp_getP wp_smembersP wp_nowP)

end

text \<open>
  `hasOnlineAgentType` answers with exactly the members of the type
  whose lease shows them online, each once, and says true when there is one.
\<close>

lemma online_members_exact:
  assumes "redis_available exec kv oth clk"
  shows "\<exists>ids. result exec (hasAgentType reg t True) s = Inr (ids \<noteq> [], ids) \<and> distinct ids
    \<and> set ids = {w \<in> v_set (kv s) (agentTypeMembers (reg_schema reg) t).
         presence_online (v_str (kv s) (worker_online_lease (reg_schema reg) w))}
    \<and> kv (final exec (hasAgentType reg t True) s) = kv s"
  using wp_result [OF redis_available.wp_hasOnlineAgentType [OF assms, of reg t s "[]"]]
  by (auto simp: hasAgentType_def prod_eq_iff)

lemma online_members_exact_example:
  "result mock_exec (hasAgentType sample_registry ''chat'' True) (mock_after [Sadd (agentTypeMembers V1 ''chat'') ''w9''] (leased ''t''))
     = Inr (False, [])"
proof -
  let ?m = "mock_after [Sadd (agentTypeMembers V1 ''chat'') ''w9''] (leased ''t'')"
  have off: "v_str (mock_view ?m) (worker_online_lease V1 ''w9'') = None"
    by (simp add: mock_after_view leased_def)
  have only: "v_set (mock_view ?m) (agentTypeMembers V1 ''chat'') = {''w9''}"
    by (simp add: mock_after_view leased_def)
  obtain ids where "result mock_exec (hasAgentType sample_registry ''chat'' True) ?m = Inr (ids \<noteq> [], ids)"
    "set ids = {w \<in> v_set (mock_view ?m) (agentTypeMembers V1 ''chat'').
       presence_online (v_str (mock_view ?m) (worker_online_lease V1 w))}"
    using online_members_exact [OF mock_server.redis_available_axioms, of sample_registry "''chat''" ?m]
    by (auto simp: sample_registry_def)
  moreover have "set ids = {}" using calculation(2) off unfolding only by (auto simp: presence_online_def)
  ultimately show ?thesis by simp
qed

text \<open>
  The two views of liveness agree: `getWorker` shows a worker exactly
  when `isWorkerOnline` says it is online.
\<close>

lemma online_views_agree:
  assumes "redis_available exec kv oth clk"
  shows "\<exists>d. result exec (getWorker reg w) s = Inr d \<and> result exec (isWorkerOnline reg w) s = Inr (d \<noteq> None)"
proof -
  have "wp exec (isWorkerOnline reg w) (\<lambda>b _. b = presence_online (v_str (kv s) (worker_online_lease (reg_schema reg) w)))
      (\<lambda>_ _. False) (s, [])"
    by (auto simp: isWorkerOnline_def intro!: redis_available.wp_getP [OF assms])
  then show ?thesis
    using wp_result [OF redis_available.wp_getWorker [OF assms, of reg w s "[]"]] by (auto dest: wp_result)
qed

lemma online_views_agree_example:
  "\<exists>d. result mock_exec (getWorker sample_registry ''w1'') (leased ''t'') = Inr d
     \<and> result mock_exec (isWorkerOnline sample_registry ''w1'') (leased ''t'') = Inr (d \<noteq> None)"
  by (rule online_views_agree [OF mock_server.redis_available_axioms])


section \<open>Execution records\<close>

declare wf_json.simps(3) [simp del]

definition holds_record :: "view \<Rightarrow> key_schema \<Rightarrow> string \<Rightarrow> string \<Rightarrow> jobj \<Rightarrow> bool" where
  "holds_record v sch session e r \<longleftrightarrow>
     execution_text v sch session e = Some (json_stringify (JObj r)) \<and> wf_json (JObj r)"

definition knows_message :: "view \<Rightarrow> key_schema \<Rightarrow> string \<Rightarrow> string \<Rightarrow> string \<Rightarrow> bool" where
  "knows_message v sch session message e \<longleftrightarrow> v_hash v (session_registry sch session) (msg_field message) = Some e"

lemma holds_record_put:
  "wf_json (JObj r) \<Longrightarrow> holds_record (put_field (session_registry sch session) (exec_field e) (json_stringify (JObj r)) v) sch session e r"
  by (simp add: holds_record_def execution_text_def)

context redis_available
begin

lemma wp_initializeExecution:
  assumes "wf_json (JObj ex)"
  shows "wp exec (initializeExecution sch ex)
     (\<lambda>_ \<sigma>. holds_record (kv (fst \<sigma>)) sch (opt_String (oget ex ''session_id'')) (opt_String (oget ex ''execution_id'')) (initial_record ex (clk s))
        \<and> knows_message (kv (fst \<sigma>)) sch (opt_String (oget ex ''session_id'')) (opt_String (oget ex ''message_id'')) (opt_String (oget ex ''execution_id'')))
     (\<lambda>_ _. False) (s, l)"
  unfolding initializeExecution_def wp_bindP Let_def
proof (rule wp_nowP, rule wp_pipeline_Cons, simp, rule wp_pipeline_Cons, simp, rule wp_pipeline_Cons, goal_cases)
  case (2 s1 ra s2 rb s3 rc s4)
  then show ?case
    using wf_initial_record [OF assms, of "clk s"]
    by (simp add: holds_record_def execution_text_def knows_message_def)
qed simp

lemma wp_lookup:
  assumes "holds_record (kv s) sch session e r" "knows_message (kv s) sch session message e" "session \<noteq> []" "e \<noteq> []"
  shows "wp exec (getExecutionByMessageId sch message session) (\<lambda>x \<sigma>. x = Some (JObj r) \<and> kv (fst \<sigma>) = kv s) (\<lambda>_ _. False) (s, l)"
proof -
  have r: "execution_text (kv s') sch session e = Some (json_stringify (JObj r))" "wf_json (JObj r)" if "kv s' = kv s" for s'
    using assms(1) that by (simp_all add: holds_record_def)
  have "wp exec (case v_hash (kv s) (session_registry sch session) (msg_field message) of
      None \<Rightarrow> Ret None | Some e \<Rightarrow> if e = [] then Ret None else getExecution sch e session)
    (\<lambda>x \<sigma>. x = Some (JObj r) \<and> kv (fst \<sigma>) = kv s) (\<lambda>_ _. False) (s', l')" if "kv s' = kv s" for s' l'
    using assms(2,4) that by (auto simp: knows_message_def intro!: wp_getExecution [OF r assms(3)])
  then show ?thesis
    unfolding getExecutionByMessageId_def using assms(3) by (auto intro!: wp_hgetP)
qed

lemma wp_holds_update:
  assumes "holds_record (kv s) sch session e r" "session \<noteq> []"
  shows "wp exec (bindP (getExecution sch e session) (\<lambda>current.
       with_record current (\<lambda>r. bindP nowP (\<lambda>now. storeExecution sch e session (g now r)))))
     (\<lambda>_ \<sigma>. \<exists>now \<ge> clk s. now \<le> clk (fst \<sigma>) \<and>
        kv (fst \<sigma>) = put_field (session_registry sch session) (exec_field e) (json_stringify (JObj (g now r))) (kv s))
     (\<lambda>_ _. False) (s, l)"
  using assms by (intro wp_record_update) (auto simp: holds_record_def)

end

text \<open>
  What `initializeExecution` stored is what `getExecutionByMessageId`
  returns: the caller's record with its times set and a timeline that begins
  with its status.
\<close>

lemma execution_lookup:
  assumes avail: "redis_available exec kv oth clk" and wf: "wf_json (JObj ex)"
    and ids: "opt_String (oget ex ''session_id'') \<noteq> []" "opt_String (oget ex ''execution_id'') \<noteq> []"
  shows "result exec (getExecutionByMessageId sch (opt_String (oget ex ''message_id'')) (opt_String (oget ex ''session_id'')))
      (final exec (initializeExecution sch ex) s) = Inr (Some (JObj (initial_record ex (clk s))))"
proof -
  have stored: "holds_record (kv (final exec (initializeExecution sch ex) s)) sch (opt_String (oget ex ''session_id''))
        (opt_String (oget ex ''execution_id'')) (initial_record ex (clk s))"
      "knows_message (kv (final exec (initializeExecution sch ex) s)) sch (opt_String (oget ex ''session_id''))
        (opt_String (oget ex ''message_id'')) (opt_String (oget ex ''execution_id''))"
    using wp_result [OF redis_available.wp_initializeExecution [OF avail wf, of sch s "[]"]] by auto
  show ?thesis
    using wp_result [OF redis_available.wp_lookup [OF avail stored ids, of "[]"]] by auto
qed

definition sample_execution :: jobj where
  "sample_execution = [(''execution_id'', JStr ''exec-1''), (''message_id'', JStr ''msg-1''),
     (''session_id'', JStr ''s''), (''status'', JStr ''RUNNING'')]"

lemma sample_execution_simps [simp]:
  "wf_json (JObj sample_execution)" "opt_String (oget sample_execution ''session_id'') = ''s''"
  "opt_String (oget sample_execution ''execution_id'') = ''exec-1''" "opt_String (oget sample_execution ''message_id'') = ''msg-1''"
  by (simp_all add: sample_execution_def wf_json.simps)

lemma execution_lookup_example:
  "result mock_exec (getExecutionByMessageId V2 ''msg-1'' ''s'') (final mock_exec (initializeExecution V2 sample_execution) (empty_mock 7))
     = Inr (Some (JObj (initial_record sample_execution 7)))"
  using execution_lookup [OF mock_server.redis_available_axioms, of sample_execution V2 "empty_mock 7"] by simp

lemma finished_record_fields:
  "oget (finished_record st now r) ''status'' = Some (JStr st)"
  "oget (finished_record st now r) ''updated_at'' = Some (JNum now)"
  "oget (finished_record st now r) ''finished_at'' = (if isTerminalState st then Some (JNum now) else oget r ''finished_at'')"
  "oget (finished_record st now r) ''timeline'' = Some (JArr
     ((case oget r ''timeline'' of Some (JArr ts) \<Rightarrow> ts | _ \<Rightarrow> []) @ [timeline_entry (JStr st) now]))"
  "k \<notin> {''status'', ''updated_at'', ''finished_at'', ''timeline''} \<Longrightarrow> oget (finished_record st now r) k = oget r k"
  by (simp_all add: finished_record_def push_timeline_def Let_def)

text \<open>
  Finishing an execution: the record gets the final status, a finishing
  time exactly when the status is terminal, and one more entry at the end of its
  timeline; every other field, every other record and every message mapping of
  the session stay as they were.
\<close>

lemma finished_execution:
  assumes avail: "redis_available exec kv oth clk" and session: "session \<noteq> []"
    and held: "holds_record (kv s) sch session e r" and run: "s' = final exec (markExecutionFinished sch e session st) s"
  shows "\<exists>r' now. result exec (markExecutionFinished sch e session st) s = Inr () \<and> clk s \<le> now
    \<and> holds_record (kv s') sch session e r'
    \<and> oget r' ''status'' = Some (JStr st)
    \<and> oget r' ''finished_at'' = (if isTerminalState st then Some (JNum now) else oget r ''finished_at'')
    \<and> oget r' ''timeline'' = Some (JArr ((case oget r ''timeline'' of Some (JArr ts) \<Rightarrow> ts | _ \<Rightarrow> []) @ [timeline_entry (JStr st) now]))
    \<and> (\<forall>k. k \<in> {''status'', ''updated_at'', ''finished_at'', ''timeline''} \<or> oget r' k = oget r k)
    \<and> (\<forall>k f. (k, f) = (session_registry sch session, exec_field e) \<or> v_hash (kv s') k f = v_hash (kv s) k f)"
proof -
  obtain now where now: "clk s \<le> now" "result exec (markExecutionFinished sch e session st) s = Inr ()"
    "kv s' = put_field (session_registry sch session) (exec_field e) (json_stringify (JObj (finished_record st now r))) (kv s)"
    using wp_result [OF redis_available.wp_holds_update [OF avail held session, of "finished_record st" "[]"]]
    unfolding run markExecutionFinished_def by auto
  have "wf_json (JObj (finished_record st now r))"
    using held by (intro wf_finished_record) (simp add: holds_record_def)
  then have "holds_record (kv s') sch session e (finished_record st now r)"
    unfolding now(3) by (rule holds_record_put)
  then show ?thesis
    using now(1,2)
    by (intro exI [of _ "finished_record st now r"] exI [of _ now])
       (auto simp: now(3) finished_record_fields(1-4) intro: finished_record_fields(5))
qed

definition sample_running :: mock where
  "sample_running = mock_after [Hset (session_registry V1 ''s'') (exec_field ''exec-1'') (json_stringify (JObj sample_execution))] (empty_mock 7)"

lemma sample_running_holds: "holds_record (mock_view sample_running) V1 ''s'' ''exec-1'' sample_execution"
  by (simp add: holds_record_def sample_running_def mock_after_view execution_text_def)

lemma finished_execution_example:
  "\<exists>r'. holds_record (mock_view (final mock_exec (markExecutionFinished V1 ''exec-1'' ''s'' ''COMPLETED'') sample_running)) V1 ''s'' ''exec-1'' r'
     \<and> oget r' ''status'' = Some (JStr ''COMPLETED'')"
  using finished_execution [OF mock_server.redis_available_axioms _ sample_running_holds refl, of "''COMPLETED''"]
  by auto

text \<open>
  Once an execution has started its starting time stays: after a first
  update to RUNNING, a second update, to any status, leaves the `started_at`
  of the first.
\<close>

lemma started_once:
  assumes avail: "redis_available exec kv oth clk" and session: "session \<noteq> []"
    and held: "holds_record (kv s) sch session e r" and clock: "0 < clk s"
    and s1: "s1 = final exec (updateExecutionStatus sch e session ''RUNNING'' []) s"
    and s2: "s2 = final exec (updateExecutionStatus sch e session st []) s1"
  shows "\<exists>r1 r2 at. holds_record (kv s1) sch session e r1 \<and> holds_record (kv s2) sch session e r2
    \<and> opt_truthy (Some at) \<and> oget r1 ''started_at'' = Some at \<and> oget r2 ''started_at'' = Some at
    \<and> (opt_truthy (oget r ''started_at'') \<longrightarrow> oget r ''started_at'' = Some at)
    \<and> oget r2 ''status'' = Some (JStr st)"
proof -
  have wf: "wf_json (JObj (status_record x now [] r))" if "wf_json (JObj r)" for x now r
    using that unfolding status_record_def Let_def ospread_Nil
    by (auto intro!: wf_push_timeline wf_json_oput)
  obtain n1 where n1: "clk s \<le> n1"
    "kv s1 = put_field (session_registry sch session) (exec_field e) (json_stringify (JObj (status_record ''RUNNING'' n1 [] r))) (kv s)"
    using wp_result [OF redis_available.wp_holds_update [OF avail held session, of "\<lambda>now. status_record ''RUNNING'' now []" "[]"]]
    unfolding s1 updateExecutionStatus_def by auto
  have h1: "holds_record (kv s1) sch session e (status_record ''RUNNING'' n1 [] r)"
    using held unfolding n1(2) by (intro holds_record_put wf) (simp add: holds_record_def)
  obtain n2 where n2:
    "kv s2 = put_field (session_registry sch session) (exec_field e) (json_stringify (JObj (status_record st n2 [] (status_record ''RUNNING'' n1 [] r)))) (kv s1)"
    using wp_result [OF redis_available.wp_holds_update [OF avail h1 session, of "\<lambda>now. status_record st now []" "[]"]]
    unfolding s2 updateExecutionStatus_def by auto
  have h2: "holds_record (kv s2) sch session e (status_record st n2 [] (status_record ''RUNNING'' n1 [] r))"
    unfolding n2 by (rule holds_record_put [OF wf]) (use h1 in \<open>simp add: holds_record_def\<close>)
  define at where "at = (if opt_truthy (oget r ''started_at'') then the (oget r ''started_at'') else JNum n1)"
  have at: "opt_truthy (Some at)" "opt_truthy (oget r ''started_at'') \<longrightarrow> oget r ''started_at'' = Some at"
    using n1(1) clock by (auto simp: at_def opt_truthy_def split: option.splits)
  have r1: "oget (status_record ''RUNNING'' n1 [] r) ''started_at'' = Some at"
    using at(2) by (auto simp: status_record_def push_timeline_def Let_def at_def opt_truthy_def split: option.splits)
  have "oget (status_record st n2 [] r1) ''started_at'' = Some at \<and> oget (status_record st n2 [] r1) ''status'' = Some (JStr st)"
    if "oget r1 ''started_at'' = Some at" for r1
    using at(1) that by (simp add: status_record_def push_timeline_def Let_def)
  then show ?thesis
    using h1 h2 at r1 by blast
qed

lemma started_once_example:
  "\<exists>r2. holds_record (mock_view (final mock_exec (updateExecutionStatus V1 ''exec-1'' ''s'' ''WAITING_USER'' [])
      (final mock_exec (updateExecutionStatus V1 ''exec-1'' ''s'' ''RUNNING'' []) sample_running))) V1 ''s'' ''exec-1'' r2
     \<and> oget r2 ''status'' = Some (JStr ''WAITING_USER'')"
proof -
  have "0 < now_ms sample_running" by (simp add: sample_running_def)
  from started_once [OF mock_server.redis_available_axioms _ sample_running_holds this refl refl, of "''WAITING_USER''"]
  show ?thesis by blast
qed

end
