(* ===== verification/Triage.thy ===== *)
theory Triage
  imports WaitSweeper RegistryContracts
begin

text \<open>
  The triage of a due entry as a decision: `entry_verdict` is a function of
  one snapshot of the keyspace and the present time, and the sweeper's program,
  which reads and writes one command at a time, carries it out. What may be
  removed, postponed or answered is then read off the decision.
\<close>


section \<open>Lookups\<close>

lemma wp_self: "wp exec p (\<lambda>_ \<sigma>'. \<sigma>' = snd (run exec p \<sigma>)) (\<lambda>_ \<sigma>'. \<sigma>' = snd (run exec p \<sigma>)) \<sigma>"
  by (simp add: wp_def split: prod.splits sum.splits)

text \<open>The pure lookup of an execution by message.\<close>

definition lookup_execution :: "view \<Rightarrow> key_schema \<Rightarrow> string \<Rightarrow> string \<Rightarrow> js_error + json option" where
  "lookup_execution v sch message session =
     (if session = [] then Inr None
      else case v_hash v (session_registry sch session) (msg_field message) of
        None \<Rightarrow> Inr None
      | Some e \<Rightarrow> if e = [] then Inr None
          else (case v_hash v (session_registry sch session) (exec_field e) of
                 None \<Rightarrow> Inr None
               | Some d \<Rightarrow> if d = [] then Inr None
                   else (case json_parse d of None \<Rightarrow> Inl SyntaxError | Some x \<Rightarrow> Inr (Some x))))"

context redis_available
begin

text \<open>Commands that only look: the keyspace is the same, nothing is sent.\<close>

definition quiet :: "'a config \<Rightarrow> 'a config \<Rightarrow> bool" where
  "quiet \<sigma> \<sigma>' \<longleftrightarrow> kv (fst \<sigma>') = kv (fst \<sigma>) \<and> oth (fst \<sigma>') \<subseteq> oth (fst \<sigma>) \<and> clk (fst \<sigma>) \<le> clk (fst \<sigma>')
     \<and> sent (snd \<sigma>') = sent (snd \<sigma>)"

lemma quiet_refl [simp]: "quiet \<sigma> \<sigma>"
  by (simp add: quiet_def)

lemma quiet_trans [trans]: "quiet \<sigma> \<sigma>' \<Longrightarrow> quiet \<sigma>' \<sigma>'' \<Longrightarrow> quiet \<sigma> \<sigma>''"
  by (auto simp: quiet_def)

lemma quiet_getP: "(\<And>\<sigma>'. quiet \<sigma> \<sigma>' \<Longrightarrow> Q (v_str (kv (fst \<sigma>)) k) \<sigma>') \<Longrightarrow> wp exec (getP k) Q E \<sigma>"
  by (cases \<sigma>) (auto simp: quiet_def intro!: wp_getP)

lemma quiet_hgetP: "(\<And>\<sigma>'. quiet \<sigma> \<sigma>' \<Longrightarrow> Q (v_hash (kv (fst \<sigma>)) k f) \<sigma>') \<Longrightarrow> wp exec (hgetP k f) Q E \<sigma>"
  by (cases \<sigma>) (auto simp: quiet_def intro!: wp_hgetP)

lemma quiet_nowP: "(\<And>\<sigma>'. quiet \<sigma> \<sigma>' \<Longrightarrow> Q (clk (fst \<sigma>)) \<sigma>') \<Longrightarrow> wp exec nowP Q E \<sigma>"
  by (cases \<sigma>) (auto simp: quiet_def intro!: wp_nowP)

lemma quiet_uuidP: "(\<And>\<sigma>' u. quiet \<sigma> \<sigma>' \<Longrightarrow> Q u \<sigma>') \<Longrightarrow> wp exec uuidP Q E \<sigma>"
  by (cases \<sigma>) (auto simp: quiet_def intro!: wp_uuidP)

lemma quiet_isWorkerOnline:
  "(\<And>\<sigma>'. quiet \<sigma> \<sigma>' \<Longrightarrow> Q (presence_online (v_str (kv (fst \<sigma>)) (worker_online_lease (reg_schema reg) w))) \<sigma>') \<Longrightarrow>
   wp exec (isWorkerOnline reg w) Q E \<sigma>"
  unfolding isWorkerOnline_def wp_bindP by (rule quiet_getP) simp

lemma quiet_lookup:
  assumes "\<And>\<sigma>' x. quiet \<sigma> \<sigma>' \<Longrightarrow> lookup_execution (kv (fst \<sigma>)) sch message session = Inr x \<Longrightarrow> Q x \<sigma>'"
    and "\<And>\<sigma>' e. quiet \<sigma> \<sigma>' \<Longrightarrow> lookup_execution (kv (fst \<sigma>)) sch message session = Inl e \<Longrightarrow> E e \<sigma>'"
  shows "wp exec (getExecutionByMessageId sch message session) Q E \<sigma>"
proof -
  have "wp exec (getExecution sch e session) Q E \<sigma>1"
    if q: "quiet \<sigma> \<sigma>1" and e: "v_hash (kv (fst \<sigma>)) (session_registry sch session) (msg_field message) = Some e"
      "e \<noteq> []" "session \<noteq> []" for e \<sigma>1
    unfolding getExecution_def using e
  proof (simp, intro quiet_hgetP, goal_cases)
    case (1 \<sigma>2)
    then have "quiet \<sigma>1 \<sigma>2" by simp
    with q have "quiet \<sigma> \<sigma>2" by (rule quiet_trans)
    moreover have "kv (fst \<sigma>1) = kv (fst \<sigma>)" using q by (simp add: quiet_def)
    ultimately show ?case
      using e assms by (auto simp: lookup_execution_def split: option.splits)
  qed
  then show ?thesis
    unfolding getExecutionByMessageId_def
    using assms by (auto simp: lookup_execution_def intro!: quiet_hgetP split: option.splits)
qed

end


section \<open>The decision\<close>

datatype sweep_action = Remove | Leave | Extend | Reply reply_params

record verdict =
  vd_outcome :: string
  vd_action :: sweep_action
  vd_cancels :: "json option"

definition verdict_of :: "string \<Rightarrow> sweep_action \<Rightarrow> js_error + verdict" where
  "verdict_of outcome act = Inr \<lparr>vd_outcome = outcome, vd_action = act, vd_cancels = None\<rparr>"

definition cancelling :: "json \<Rightarrow> js_error + verdict \<Rightarrow> js_error + verdict" where
  "cancelling child d = map_sum id (vd_cancels_update (\<lambda>_. Some child)) d"

text \<open>A reply nobody can be named for is not sent; the entry is postponed.\<close>

definition answer :: "json \<Rightarrow> reply_params \<Rightarrow> string \<Rightarrow> string \<Rightarrow> js_error + verdict" where
  "answer caller p outcome lost =
     (if caller_agent_type (er_child p) caller = [] then verdict_of lost Extend else verdict_of outcome (Reply p))"

definition failure_verdict :: "due_entry \<Rightarrow> json \<Rightarrow> json \<Rightarrow> string \<Rightarrow> string \<Rightarrow> string \<Rightarrow> string \<Rightarrow> js_error + verdict" where
  "failure_verdict due caller child errorCode message outcome st =
     answer caller (failure_params due child errorCode message st) outcome OUTCOME_UNROUTABLE"

definition stored_result :: "view \<Rightarrow> key_schema \<Rightarrow> string \<Rightarrow> jobj option" where
  "stored_result v sch m = stored_object (v_hash v (task_group_results sch (singleCallTaskGroupId m)) m)"

definition finished_verdict :: "view \<Rightarrow> sweeper \<Rightarrow> due_entry \<Rightarrow> json \<Rightarrow> json \<Rightarrow> js_error + verdict" where
  "finished_verdict v sw due caller child =
     (case stored_result v (sw_schema sw) (wm_child (de_entry due)) of
        None \<Rightarrow> failure_verdict due caller child REPLY_LOST_RECOVERED
          (''Sub-task '' @ wm_child (de_entry due) @ '' finished with '' @ baseStatus (jget child ''status'')
            @ '' but neither its reply nor its stored result is available'')
          OUTCOME_RECOVERED (lost_answer_status (baseStatus (jget child ''status'')))
      | Some r \<Rightarrow> answer caller (recovered_params child r) OUTCOME_RECOVERED OUTCOME_RECOVERED)"

definition renewal_origin :: "view \<Rightarrow> sweeper \<Rightarrow> due_entry \<Rightarrow> millis" where
  "renewal_origin v sw due =
     (let n = (case v_str v (renew_origin_key sw due) of None \<Rightarrow> 0 | Some x \<Rightarrow> js_trunc_number x)
      in if n \<noteq> 0 then n else de_deadline due)"

definition running_verdict :: "view \<Rightarrow> millis \<Rightarrow> sweeper \<Rightarrow> due_entry \<Rightarrow> json \<Rightarrow> json \<Rightarrow> js_error + verdict" where
  "running_verdict v now sw due caller child =
     (let w = text_of (jget child ''worker_id''); st = baseStatus (jget child ''status''); m = wm_child (de_entry due)
      in if w = [] then failure_verdict due caller child CHILD_NEVER_STARTED
              (''Sub-task '' @ m @ '' was never picked up by a worker (status='' @ st @ '')'') OUTCOME_NEVER_STARTED []
         else if \<not> presence_online (v_str v (worker_online_lease (sw_schema sw) w))
         then failure_verdict due caller child CHILD_WORKER_LOST
              (''Worker '' @ w @ '' running sub-task '' @ m @ '' is no longer alive (status='' @ st @ '')'') OUTCOME_WORKER_LOST []
         else if now < renewal_ceiling sw (renewal_origin v sw due) (epoch_of (jget child ''created_at''))
         then verdict_of OUTCOME_CHILD_ALIVE Extend
         else cancelling child (failure_verdict due caller child CHILD_TIMEOUT
              (''Sub-task '' @ m @ '' is still '' @ st @ '' on live worker '' @ w @ '' but produced no reply within ''
                @ int_str (sw_renewMaxMultiple sw) @ ''x its reply timeout'') OUTCOME_TIMED_OUT []))"

definition child_verdict :: "view \<Rightarrow> millis \<Rightarrow> sweeper \<Rightarrow> due_entry \<Rightarrow> json \<Rightarrow> js_error + verdict" where
  "child_verdict v now sw due caller =
     (case lookup_execution v (sw_schema sw) (wm_child (de_entry due)) (wm_session (de_entry due)) of
        Inl e \<Rightarrow> Inl e
      | Inr found \<Rightarrow>
          if \<not> opt_truthy found then failure_verdict due caller (JObj []) CHILD_NEVER_STARTED
            (''No execution was ever recorded for sub-task '' @ wm_child (de_entry due)) OUTCOME_NEVER_STARTED []
          else if isTerminalState (baseStatus (jget (the found) ''status'')) then finished_verdict v sw due caller (the found)
          else if baseStatus (jget (the found) ''status'') \<in> set SUSPENDED_STATES then verdict_of OUTCOME_CHILD_WAITING Extend
          else running_verdict v now sw due caller (the found))"

definition group_block :: "view \<Rightarrow> sweeper \<Rightarrow> due_entry \<Rightarrow> string option" where
  "group_block v sw due =
     (let g = wm_group (de_entry due)
      in if v_hash v (task_group (sw_schema sw) g) TASK_GROUP_FIELD_TOTAL = None then Some OUTCOME_GROUP_GONE
         else if opt_or (v_hash v (task_group (sw_schema sw) g) TASK_GROUP_FIELD_ABORTED) [] \<noteq> [] then Some OUTCOME_GROUP_ABORTED
         else if v_hash v (task_group_results (sw_schema sw) g) (wm_child (de_entry due)) \<noteq> None
         then Some OUTCOME_GROUP_ALREADY_JOINED else None)"

definition unsuspended_verdict :: "view \<Rightarrow> sweeper \<Rightarrow> json \<Rightarrow> js_error + verdict" where
  "unsuspended_verdict v sw caller =
     (let w = text_of (jget caller ''worker_id'')
      in if w \<noteq> [] \<and> \<not> presence_online (v_str v (worker_online_lease (sw_schema sw) w))
         then verdict_of OUTCOME_CALLER_LOST Remove else verdict_of OUTCOME_CALLER_NOT_SUSPENDED Extend)"

definition caller_verdict :: "view \<Rightarrow> millis \<Rightarrow> sweeper \<Rightarrow> due_entry \<Rightarrow> js_error + verdict" where
  "caller_verdict v now sw due =
     (case lookup_execution v (sw_schema sw) (wm_parent (de_entry due)) (wm_session (de_entry due)) of
        Inl e \<Rightarrow> Inl e
      | Inr found \<Rightarrow>
          if \<not> opt_truthy found then verdict_of OUTCOME_CALLER_MISSING Remove
          else if isTerminalState (baseStatus (jget (the found) ''status'')) then verdict_of OUTCOME_CALLER_TERMINAL Remove
          else if baseStatus (jget (the found) ''status'') \<notin> set SUSPENDED_STATES then unsuspended_verdict v sw (the found)
          else if wm_child (de_entry due) = [] then verdict_of OUTCOME_ASK_USER_SKIPPED Leave
          else (case (if wm_group (de_entry due) = [] then None else group_block v sw due) of
                  Some outcome \<Rightarrow> verdict_of outcome Remove
                | None \<Rightarrow> child_verdict v now sw due (the found)))"

definition due_of :: "key \<Rightarrow> string \<Rightarrow> string \<Rightarrow> wait_member \<Rightarrow> due_entry" where
  "due_of indexKey member rawScore entry =
     \<lparr>de_indexKey = indexKey, de_member = member, de_deadline = js_trunc_number rawScore, de_entry = entry\<rparr>"

definition entry_of :: "string \<Rightarrow> wait_member" where
  "entry_of member = (case decodeMember member of
     Inl _ \<Rightarrow> \<lparr>wm_session = [], wm_parent = [], wm_child = [], wm_group = []\<rparr> | Inr entry \<Rightarrow> entry)"

definition entry_verdict :: "view \<Rightarrow> millis \<Rightarrow> sweeper \<Rightarrow> key \<Rightarrow> string \<Rightarrow> string \<Rightarrow> js_error + verdict" where
  "entry_verdict v now sw indexKey member rawScore =
     (case decodeMember member of
        Inl _ \<Rightarrow> verdict_of OUTCOME_MALFORMED Remove
      | Inr entry \<Rightarrow> caller_verdict v now sw (due_of indexKey member rawScore entry))"

lemma due_of_simps [simp]:
  "de_indexKey (due_of k m sc e) = k" "de_member (due_of k m sc e) = m" "de_entry (due_of k m sc e) = e"
  "de_deadline (due_of k m sc e) = js_trunc_number sc"
  by (simp_all add: due_of_def)

text \<open>The caller's record a reply is built from; any value when there is none.\<close>

definition caller_record :: "view \<Rightarrow> sweeper \<Rightarrow> wait_member \<Rightarrow> json" where
  "caller_record v sw entry =
     (case lookup_execution v (sw_schema sw) (wm_parent entry) (wm_session entry) of Inr (Some x) \<Rightarrow> x | _ \<Rightarrow> JNull)"


section \<open>Carrying it out\<close>

definition extended_view :: "sweeper \<Rightarrow> due_entry \<Rightarrow> millis \<Rightarrow> view \<Rightarrow> view" where
  "extended_view sw due now v =
     (let v' = (if v_str v (renew_origin_key sw due) = None
                then put_str (renew_origin_key sw due) (int_str (de_deadline due)) v else v)
      in set_scores (de_indexKey due) ((v_zset v' (de_indexKey due))(de_member due \<mapsto> now + WAIT_RENEW_INCREMENT_MS)) v')"

definition removed_view :: "due_entry \<Rightarrow> view \<Rightarrow> view" where
  "removed_view due v = set_scores (de_indexKey due) ((v_zset v (de_indexKey due))(de_member due := None)) v"

text \<open>
  `acted`: from keyspace `v` the action leaves `v'` and sends
  `msgs`; the renewal is counted from some instant not before `t`.
\<close>

definition acted :: "sweeper \<Rightarrow> due_entry \<Rightarrow> json \<Rightarrow> sweep_action \<Rightarrow> millis \<Rightarrow> view \<Rightarrow> view \<Rightarrow> (key \<times> string) list \<Rightarrow> bool" where
  "acted sw due caller act t v v' msgs = (case act of
     Remove \<Rightarrow> v' = removed_view due v \<and> msgs = []
   | Leave \<Rightarrow> v' = v \<and> msgs = []
   | Extend \<Rightarrow> (\<exists>now \<ge> t. v' = extended_view sw due now v) \<and> msgs = []
   | Reply p \<Rightarrow> (\<exists>now \<ge> t. v' = extended_view sw due now v) \<and>
       (\<exists>trace. msgs = [(ctrl_stream (sw_schema sw) (caller_agent_type (er_child p) caller),
          command_payload (stand_in_command (sweep_reply sw (de_entry due) caller p) trace))]))"

text \<open>What is left of the run once a decision has been acted on: the cancellation, when it names one.\<close>

definition afterwards :: "cancel_child \<Rightarrow> sweeper \<Rightarrow> due_entry \<Rightarrow> verdict \<Rightarrow> string option prog" where
  "afterwards cancel sw due d = (case vd_cancels d of
     None \<Rightarrow> Ret (Some (vd_outcome d))
   | Some child \<Rightarrow> bindO (cancelTimedOutChild cancel sw due child) (\<lambda>_. Ret (Some (vd_outcome d))))"

lemma cancel_runs:
  "wp exec (bindO (cancelTimedOutChild cancel sw due child) (\<lambda>_. Ret (Some outcome)))
     (\<lambda>r \<sigma>'. run exec (bindO (cancelTimedOutChild cancel sw due child) (\<lambda>_. Ret (Some outcome))) \<sigma> = (Inr r, \<sigma>'))
     (\<lambda>_ _. False) \<sigma>"
  by (simp add: wp_def cancelTimedOutChild_def run_catchP run_bindP bindO_def split: prod.splits sum.splits option.splits)

context redis_available
begin

text \<open>The action of a decision, from one configuration to another.\<close>

definition does :: "sweeper \<Rightarrow> due_entry \<Rightarrow> json \<Rightarrow> sweep_action \<Rightarrow> 'a config \<Rightarrow> 'a config \<Rightarrow> bool" where
  "does sw due caller act \<sigma> \<sigma>' \<longleftrightarrow> (\<exists>msgs. sent (snd \<sigma>') = sent (snd \<sigma>) @ msgs
     \<and> acted sw due caller act (clk (fst \<sigma>)) (kv (fst \<sigma>)) (kv (fst \<sigma>')) msgs)"

definition carries :: "cancel_child \<Rightarrow> sweeper \<Rightarrow> due_entry \<Rightarrow> json \<Rightarrow> js_error + verdict \<Rightarrow> 'a config
    \<Rightarrow> string option \<Rightarrow> 'a config \<Rightarrow> bool" where
  "carries cancel sw due caller D \<sigma> outcome \<sigma>' \<longleftrightarrow> (\<exists>d \<sigma>1. D = Inr d \<and> does sw due caller (vd_action d) \<sigma> \<sigma>1
     \<and> run exec (afterwards cancel sw due d) \<sigma>1 = (Inr outcome, \<sigma>'))"

definition refuses :: "js_error + verdict \<Rightarrow> 'a config \<Rightarrow> js_error \<Rightarrow> 'a config \<Rightarrow> bool" where
  "refuses D \<sigma> e \<sigma>' \<longleftrightarrow> D = Inl e \<and> quiet \<sigma> \<sigma>'"

definition carried :: "cancel_child \<Rightarrow> sweeper \<Rightarrow> due_entry \<Rightarrow> json \<Rightarrow> (millis \<Rightarrow> js_error + verdict) \<Rightarrow> 'a config
    \<Rightarrow> string option \<Rightarrow> 'a config \<Rightarrow> bool" where
  "carried cancel sw due caller D \<sigma> outcome \<sigma>' \<longleftrightarrow>
     (\<exists>now \<ge> clk (fst \<sigma>). carries cancel sw due caller (D now) \<sigma> outcome \<sigma>')"

definition rejected :: "(millis \<Rightarrow> js_error + verdict) \<Rightarrow> 'a config \<Rightarrow> js_error \<Rightarrow> 'a config \<Rightarrow> bool" where
  "rejected D \<sigma> e \<sigma>' \<longleftrightarrow> (\<exists>now \<ge> clk (fst \<sigma>). refuses (D now) \<sigma> e \<sigma>')"

abbreviation carried_out :: "cancel_child \<Rightarrow> sweeper \<Rightarrow> due_entry \<Rightarrow> json \<Rightarrow> string option prog \<Rightarrow> (millis \<Rightarrow> js_error + verdict)
    \<Rightarrow> 'a config \<Rightarrow> 'a config \<Rightarrow> bool" where
  "carried_out cancel sw due caller p D \<sigma>0 \<sigma> \<equiv>
     wp exec p (carried cancel sw due caller D \<sigma>0) (rejected D \<sigma>0) \<sigma>"

lemma carriedI: "clk (fst \<sigma>) \<le> now \<Longrightarrow> carries cancel sw due caller (D now) \<sigma> outcome \<sigma>' \<Longrightarrow>
    carried cancel sw due caller D \<sigma> outcome \<sigma>'"
  by (auto simp: carried_def)

lemma carried_const: "carries cancel sw due caller D \<sigma> outcome \<sigma>' \<Longrightarrow>
    carried cancel sw due caller (\<lambda>_. D) \<sigma> outcome \<sigma>'"
  by (auto simp: carried_def)

lemma carriesI:
  "D = Inr d \<Longrightarrow> does sw due caller (vd_action d) \<sigma> \<sigma>1 \<Longrightarrow>
   run exec (afterwards cancel sw due d) \<sigma>1 = (Inr outcome, \<sigma>') \<Longrightarrow> carries cancel sw due caller D \<sigma> outcome \<sigma>'"
  unfolding carries_def by blast

lemma acted_later: "acted sw due caller act t v v' msgs \<Longrightarrow> t0 \<le> t \<Longrightarrow> acted sw due caller act t0 v v' msgs"
proof -
  have later: "\<exists>now\<ge>t. P now \<Longrightarrow> t0 \<le> t \<Longrightarrow> \<exists>now\<ge>t0. P now" for P by (meson order_trans)
  assume "acted sw due caller act t v v' msgs" "t0 \<le> t"
  then show ?thesis
    using later [of "\<lambda>now. v' = extended_view sw due now v"] unfolding acted_def by (cases act) simp_all
qed

lemma does_quiet: "quiet \<sigma> \<sigma>1 \<Longrightarrow> does sw due caller act \<sigma>1 \<sigma>' \<Longrightarrow> does sw due caller act \<sigma> \<sigma>'"
  by (auto simp: does_def quiet_def intro: acted_later)

lemma carries_quiet:
  "quiet \<sigma> \<sigma>1 \<Longrightarrow> carries cancel sw due caller D \<sigma>1 outcome \<sigma>' \<Longrightarrow> carries cancel sw due caller D \<sigma> outcome \<sigma>'"
  using does_quiet unfolding carries_def by blast

lemma carried_out_quiet:
  assumes "carried_out cancel sw due caller p D \<sigma>1 \<sigma>'" "quiet \<sigma> \<sigma>1"
  shows "carried_out cancel sw due caller p D \<sigma> \<sigma>'"
proof (rule wp_mono [OF assms(1)], goal_cases)
  have c: "clk (fst \<sigma>) \<le> now" if "clk (fst \<sigma>1) \<le> now" for now
    using assms(2) that by (simp add: quiet_def)
  {
    case (1 a \<sigma>')
    then show ?case using c carries_quiet [OF assms(2)] unfolding carried_def by blast
  next
    case (2 e \<sigma>')
    then show ?case using c quiet_trans [OF assms(2)] unfolding rejected_def refuses_def by blast
  }
qed

lemma carries_verdict:
  "does sw due caller act \<sigma> \<sigma>' \<Longrightarrow> carries cancel sw due caller (verdict_of outcome act) \<sigma> (Some outcome) \<sigma>'"
  unfolding carries_def verdict_of_def
  by (rule exI [of _ "\<lparr>vd_outcome = outcome, vd_action = act, vd_cancels = None\<rparr>"], rule exI [of _ \<sigma>']) (simp add: afterwards_def)

lemma wp_extendDeadline:
  assumes "renew_origin_key sw due \<notin> oth (fst \<sigma>)"
    and "\<And>\<sigma>'. does sw due caller Extend \<sigma> \<sigma>' \<Longrightarrow> Q () \<sigma>'"
  shows "wp exec (extendDeadline sw due) Q E \<sigma>"
proof -
  obtain s l where \<sigma>: "\<sigma> = (s, l)" by (cases \<sigma>)
  show ?thesis
    unfolding extendDeadline_def wp_seqP wp_catchP wp_bindP wp_Ret \<sigma>
  proof (rule wp_setP_nx, goal_cases)
    case 2
    then show ?case using assms(1) by (simp add: \<sigma>)
  next
    case (3 s1)
    show ?case
    proof (rule wp_nowP, rule wp_zaddP, goal_cases)
      case (1 s2 s3)
      then have "kv s3 = extended_view sw due (clk s1) (kv s)" "clk s \<le> clk s1"
        using 3 by (simp_all add: extended_view_def Let_def)
      then show ?case
        by (intro assms(2)) (auto simp: does_def acted_def \<sigma>)
    qed
  qed simp
qed

lemma wp_remove:
  assumes "\<And>\<sigma>' n. does sw due caller Remove \<sigma> \<sigma>' \<Longrightarrow> Q n \<sigma>'"
  shows "wp exec (zremP (de_indexKey due) (de_member due)) Q E \<sigma>"
  using assms by (cases \<sigma>) (auto intro!: wp_zremP simp: does_def acted_def removed_view_def)

lemma wp_emitReply:
  assumes "renew_origin_key sw due \<notin> oth (fst \<sigma>)" "er_status p \<noteq> []"
    and "\<And>\<sigma>'. caller_agent_type (er_child p) caller = [] \<Longrightarrow> does sw due caller Extend \<sigma> \<sigma>' \<Longrightarrow> Q False \<sigma>'"
    and "\<And>\<sigma>'. caller_agent_type (er_child p) caller \<noteq> [] \<Longrightarrow> does sw due caller (Reply p) \<sigma> \<sigma>' \<Longrightarrow> Q True \<sigma>'"
  shows "wp exec (emitReply sw due caller p) Q E \<sigma>"
proof -
  obtain s l where \<sigma>: "\<sigma> = (s, l)" by (cases \<sigma>)
  let ?r = "sweep_reply sw (de_entry due) caller p" and ?k = "ctrl_stream (sw_schema sw) (caller_agent_type (er_child p) caller)"
  show ?thesis
  proof (cases "caller_agent_type (er_child p) caller = []")
    case True
    then show ?thesis
      unfolding emitReply_def using assms by (auto intro!: wp_extendDeadline [where caller = caller])
  next
    case False
    have "wp exec (xaddP ?k (command_payload (stand_in_command ?r trace)))
        (\<lambda>_. wp exec (extendDeadline sw due) (\<lambda>_. Q True) E) E (s1, l1)"
      if q: "quiet \<sigma> (s1, l1)" for s1 l1 trace
    proof (rule wp_xaddP, goal_cases)
      case (1 s2)
      have free: "renew_origin_key sw due \<notin> oth s2"
        using 1(2) q assms(1) by (auto simp: quiet_def renew_origin_key_def)
      show ?case
      proof (rule wp_extendDeadline [where caller = caller], goal_cases)
        case (2 \<sigma>')
        then obtain now where now: "clk s2 \<le> now" "kv (fst \<sigma>') = extended_view sw due now (kv s2)"
            "sent (snd \<sigma>') = sent (l1 @ [Xadd ?k (command_payload (stand_in_command ?r trace))])"
          by (auto simp: does_def acted_def)
        then have "clk (fst \<sigma>) \<le> now" "kv (fst \<sigma>') = extended_view sw due now (kv (fst \<sigma>))"
          using q 1 by (simp_all add: quiet_def)
        then show ?case
          using q now(3) False by (intro assms(4)) (auto simp: does_def acted_def quiet_def)
      qed (use free in simp)
    qed
    then show ?thesis
      unfolding emitReply_def wp_bindP wp_seqP \<sigma> using False assms(2)
      by (auto intro!: wp_standInReply simp: quiet_def \<sigma> sweep_reply_def)
  qed
qed

text \<open>Each step of the triage carries out its part of the decision.\<close>

lemma wp_synthesizeFailure:
  assumes "renew_origin_key sw due \<notin> oth (fst \<sigma>)"
  shows "carried_out cancel sw due caller (returns (synthesizeFailure sw due caller child code message outcome st))
    (\<lambda>_. failure_verdict due caller child code message outcome st) \<sigma> \<sigma>"
  unfolding synthesizeFailure_def wp_returns wp_bindP
  by (rule wp_emitReply [OF assms])
     (auto simp: failure_params_def str_or_def FAILED_def failure_verdict_def answer_def
       intro!: carried_const carries_verdict)

lemma wp_recoverFinishedChild:
  assumes "renew_origin_key sw due \<notin> oth (fst \<sigma>)" "baseStatus (jget child ''status'') \<noteq> []"
  shows "carried_out cancel sw due caller (returns (recoverFinishedChild sw due caller child))
    (\<lambda>_. finished_verdict (kv (fst \<sigma>)) sw due caller child) \<sigma> \<sigma>"
  unfolding recoverFinishedChild_def loadStoredResult_def wp_returns wp_bindP wp_Ret Let_def
proof (rule quiet_hgetP, goal_cases)
  case (1 \<sigma>1)
  have free: "renew_origin_key sw due \<notin> oth (fst \<sigma>1)" using 1 assms(1) by (auto simp: quiet_def)
  let ?raw = "v_hash (kv (fst \<sigma>)) (task_group_results (sw_schema sw) (singleCallTaskGroupId (wm_child (de_entry due))))
      (wm_child (de_entry due))"
  show ?case
  proof (cases "stored_object ?raw")
    case None
    then show ?thesis
      using carried_out_quiet [OF wp_synthesizeFailure [OF free] 1]
      by (simp add: finished_verdict_def stored_result_def)
  next
    case (Some r)
    have "carried_out cancel sw due caller (returns (seqP (emitReply sw due caller (recovered_params child r)) (Ret OUTCOME_RECOVERED)))
      (\<lambda>_. answer caller (recovered_params child r) OUTCOME_RECOVERED OUTCOME_RECOVERED) \<sigma>1 \<sigma>1"
      unfolding wp_returns wp_seqP wp_Ret
      by (rule wp_emitReply [OF free])
         (use assms(2) in \<open>auto simp: recovered_params_def str_or_def answer_def intro!: carried_const carries_verdict\<close>)
    from carried_out_quiet [OF this 1] show ?thesis
      using Some by (simp add: finished_verdict_def stored_result_def)
  qed
qed

lemma wp_timed_out:
  assumes "renew_origin_key sw due \<notin> oth (fst \<sigma>)"
  shows "carried_out cancel sw due caller
    (bindP (synthesizeFailure sw due caller child code message outcome st)
       (\<lambda>outcome. bindO (cancelTimedOutChild cancel sw due child) (\<lambda>_. Ret (Some outcome))))
    (\<lambda>_. cancelling child (failure_verdict due caller child code message outcome st)) \<sigma> \<sigma>"
  unfolding wp_bindP
proof (rule wp_mono [OF wp_synthesizeFailure [OF assms, where cancel = cancel, unfolded wp_returns]], goal_cases)
  case (1 o1 \<sigma>1)
  then obtain d where d: "failure_verdict due caller child code message outcome st = Inr d" "o1 = vd_outcome d"
    "does sw due caller (vd_action d) \<sigma> \<sigma>1" "vd_cancels d = None"
    by (auto simp: carried_def carries_def failure_verdict_def answer_def verdict_of_def afterwards_def split: if_splits)
  show ?case
  proof (rule wp_mono [OF cancel_runs], goal_cases)
    case (1 r \<sigma>')
    have "cancelling child (failure_verdict due caller child code message outcome st) = Inr (d\<lparr>vd_cancels := Some child\<rparr>)"
      using d by (simp add: cancelling_def)
    from carriesI [OF this, of sw due caller \<sigma> \<sigma>1 cancel r \<sigma>'] show ?case
      using d(2,3) 1 by (auto simp: afterwards_def intro: carried_const)
  qed simp
next
  case (2 e \<sigma>')
  then show ?case by (auto simp: rejected_def refuses_def cancelling_def)
qed

lemma wp_running:
  assumes free: "renew_origin_key sw due \<notin> oth (fst \<sigma>)"
  shows "carried_out cancel sw due caller
    (bindP (renewalCeilingMs sw due child) (\<lambda>limitMs. bindP nowP (\<lambda>now.
       if now < limitMs then seqP (extendDeadline sw due) (Ret (Some OUTCOME_CHILD_ALIVE))
       else bindP (synthesizeFailure sw due caller child CHILD_TIMEOUT message OUTCOME_TIMED_OUT [])
              (\<lambda>outcome. bindO (cancelTimedOutChild cancel sw due child) (\<lambda>_. Ret (Some outcome))))))
    (\<lambda>now. if now < renewal_ceiling sw (renewal_origin (kv (fst \<sigma>)) sw due) (epoch_of (jget child ''created_at''))
       then verdict_of OUTCOME_CHILD_ALIVE Extend
       else cancelling child (failure_verdict due caller child CHILD_TIMEOUT message OUTCOME_TIMED_OUT [])) \<sigma> \<sigma>"
    (is "carried_out _ _ _ _ _ ?D _ _")
  unfolding wp_bindP renewalCeilingMs_def renewalOriginMs_def wp_catchP wp_Ret Let_def
proof (rule quiet_getP, rule quiet_nowP, goal_cases)
  case (1 \<sigma>1 \<sigma>2)
  have q: "quiet \<sigma> \<sigma>2" using 1 by (rule quiet_trans)
  have free2: "renew_origin_key sw due \<notin> oth (fst \<sigma>2)" using q free by (auto simp: quiet_def)
  have now: "clk (fst \<sigma>) \<le> clk (fst \<sigma>1)" using 1 by (simp add: quiet_def)
  note origin = renewal_origin_def [of "kv (fst \<sigma>)" sw due, unfolded Let_def, symmetric]
  show ?case
  proof (cases "clk (fst \<sigma>1) < renewal_ceiling sw (renewal_origin (kv (fst \<sigma>)) sw due) (epoch_of (jget child ''created_at''))")
    case True
    then have "wp exec (extendDeadline sw due) (\<lambda>_. carried cancel sw due caller ?D \<sigma> (Some OUTCOME_CHILD_ALIVE)) E \<sigma>2" for E
      using free2 by (intro wp_extendDeadline [where caller = caller] carriedI [OF now])
        (auto intro: carries_verdict does_quiet [OF q])
    then show ?thesis
      using True unfolding origin by simp
  next
    case False
    have "carried_out cancel sw due caller (bindP (synthesizeFailure sw due caller child CHILD_TIMEOUT message OUTCOME_TIMED_OUT [])
              (\<lambda>outcome. bindO (cancelTimedOutChild cancel sw due child) (\<lambda>_. Ret (Some outcome))))
       (\<lambda>_. cancelling child (failure_verdict due caller child CHILD_TIMEOUT message OUTCOME_TIMED_OUT [])) \<sigma> \<sigma>2"
      by (rule carried_out_quiet [OF wp_timed_out [OF free2] q])
    then have "carried_out cancel sw due caller (bindP (synthesizeFailure sw due caller child CHILD_TIMEOUT message OUTCOME_TIMED_OUT [])
              (\<lambda>outcome. bindO (cancelTimedOutChild cancel sw due child) (\<lambda>_. Ret (Some outcome)))) ?D \<sigma> \<sigma>2"
      by (rule wp_mono) (use False now in \<open>auto simp: carried_def rejected_def intro!: exI [of _ "clk (fst \<sigma>1)"]\<close>)
    then show ?thesis
      using False unfolding origin by simp
  qed
qed

lemma wp_triageChild:
  assumes free: "renew_origin_key sw due \<notin> oth (fst \<sigma>)"
  shows "carried_out cancel sw due caller (triageChild cancel sw due caller)
    (\<lambda>now. child_verdict (kv (fst \<sigma>)) now sw due caller) \<sigma> \<sigma>"
    (is "carried_out _ _ _ _ _ ?D _ _")
  unfolding triageChild_def Let_def wp_bindP [of _ "getExecutionByMessageId sch m s" for sch m s]
proof (rule quiet_lookup, goal_cases)
  case (2 \<sigma>1 e)
  then show ?case by (auto simp: rejected_def refuses_def child_verdict_def)
next
  case (1 \<sigma>1 found)
  have free1: "renew_origin_key sw due \<notin> oth (fst \<sigma>1)" using 1(1) free by (auto simp: quiet_def)
  have same: "kv (fst \<sigma>1) = kv (fst \<sigma>)" using 1(1) by (simp add: quiet_def)
  let ?st = "baseStatus (jget (the found) ''status'')" and ?w = "text_of (jget (the found) ''worker_id'')"
  note failure = carried_out_quiet [OF wp_synthesizeFailure [OF free1] 1(1)]
  consider "\<not> opt_truthy found" | "opt_truthy found" "isTerminalState ?st"
    | "opt_truthy found" "\<not> isTerminalState ?st" "?st \<in> set SUSPENDED_STATES"
    | "opt_truthy found" "\<not> isTerminalState ?st" "?st \<notin> set SUSPENDED_STATES"
    by blast
  then show ?case
  proof cases
    case 1
    then show ?thesis using failure \<open>lookup_execution _ _ _ _ = Inr found\<close> by (simp add: child_verdict_def)
  next
    case 2
    then have "?st \<noteq> []" by (auto simp: isTerminalState_iff state_defs)
    from carried_out_quiet [OF wp_recoverFinishedChild [OF free1 this] 1(1)] show ?thesis
      using 2 1(2) by (simp add: child_verdict_def same)
  next
    case 3
    then show ?thesis
      using 1(2) by (auto simp: child_verdict_def intro!: wp_extendDeadline [OF free1, where caller = caller]
          carried_const carries_verdict does_quiet [OF 1(1)])
  next
    case 4
    have running: "?D = (\<lambda>now. running_verdict (kv (fst \<sigma>)) now sw due caller (the found))"
      using 4 1(2) by (simp add: child_verdict_def)
    show ?thesis
    proof (cases "?w = []")
      case True
      then show ?thesis using failure 4 unfolding running by (simp add: running_verdict_def)
    next
      case False
      show ?thesis
        unfolding running using 4 False
      proof (simp, intro quiet_isWorkerOnline, goal_cases)
        case (1 \<sigma>2)
        then have "quiet \<sigma>1 \<sigma>2" by simp
        with \<open>quiet \<sigma> \<sigma>1\<close> have q: "quiet \<sigma> \<sigma>2" by (rule quiet_trans)
        then have free2: "renew_origin_key sw due \<notin> oth (fst \<sigma>2)" "kv (fst \<sigma>2) = kv (fst \<sigma>)"
          using free by (auto simp: quiet_def)
        show ?case
          using carried_out_quiet [OF wp_synthesizeFailure [OF free2(1)] q] carried_out_quiet [OF wp_running [OF free2(1)] q] False
          by (auto simp: running_verdict_def same free2(2) Let_def)
      qed
    qed
  qed
qed

lemma wp_groupBlocks:
  assumes "\<And>\<sigma>'. quiet \<sigma> \<sigma>' \<Longrightarrow> group_block (kv (fst \<sigma>)) sw due = None \<Longrightarrow> Q None \<sigma>'"
    and "\<And>\<sigma>' outcome. group_block (kv (fst \<sigma>)) sw due = Some outcome \<Longrightarrow> does sw due caller Remove \<sigma> \<sigma>' \<Longrightarrow> Q (Some outcome) \<sigma>'"
  shows "wp exec (groupBlocksCompensation sw due) Q E \<sigma>"
proof -
  have removed: "wp exec (zremP (de_indexKey due) (de_member due)) (\<lambda>_. Q (Some outcome)) E \<sigma>1"
    if "quiet \<sigma> \<sigma>1" "group_block (kv (fst \<sigma>)) sw due = Some outcome" for \<sigma>1 outcome
    by (rule wp_remove [where caller = caller]) (use that assms(2) does_quiet in blast)
  show ?thesis
    unfolding groupBlocksCompensation_def Let_def wp_bindP
  proof (rule quiet_hgetP, goal_cases)
    case (1 \<sigma>1)
    have v1: "kv (fst \<sigma>1) = kv (fst \<sigma>)" using 1 by (simp add: quiet_def)
    show ?case
    proof (cases "v_hash (kv (fst \<sigma>)) (task_group (sw_schema sw) (wm_group (de_entry due))) TASK_GROUP_FIELD_TOTAL")
      case None
      then show ?thesis using removed [OF 1] by (simp add: group_block_def Let_def)
    next
      case total: (Some n)
      show ?thesis
        using total
      proof (simp, intro quiet_hgetP, goal_cases)
        case (1 \<sigma>2)
        then have "quiet \<sigma>1 \<sigma>2" by simp
        with \<open>quiet \<sigma> \<sigma>1\<close> have q2: "quiet \<sigma> \<sigma>2" by (rule quiet_trans)
        then have v2: "kv (fst \<sigma>2) = kv (fst \<sigma>)" by (simp add: quiet_def)
        show ?case
        proof (cases "opt_or (v_hash (kv (fst \<sigma>1)) (task_group (sw_schema sw) (wm_group (de_entry due))) TASK_GROUP_FIELD_ABORTED) [] = []")
          case False
          then show ?thesis using removed [OF q2] total by (simp add: group_block_def Let_def v1)
        next
          case aborted: True
          show ?thesis
            using aborted
          proof (simp, intro quiet_hgetP, goal_cases)
            case (1 \<sigma>3)
            have q3: "quiet \<sigma> \<sigma>3" using q2 1 by (blast intro: quiet_trans)
            then show ?case
              using removed [OF q3] assms(1) [OF q3] total aborted by (auto simp: group_block_def Let_def v1 v2)
          qed
        qed
      qed
    qed
  qed
qed

lemma wp_unsuspended:
  assumes free: "renew_origin_key sw due \<notin> oth (fst \<sigma>)"
  shows "carried_out cancel sw due caller (returns (resolveUnsuspendedCaller sw due caller))
    (\<lambda>_. unsuspended_verdict (kv (fst \<sigma>)) sw caller) \<sigma> \<sigma>"
proof -
  let ?w = "text_of (jget caller ''worker_id'')"
  show ?thesis
  proof (cases "?w = []")
    case True
    then show ?thesis
      by (auto simp: resolveUnsuspendedCaller_def unsuspended_verdict_def
          intro!: wp_extendDeadline [OF free, where caller = caller] carried_const carries_verdict)
  next
    case False
    show ?thesis
      unfolding resolveUnsuspendedCaller_def Let_def using False
    proof (simp, intro quiet_isWorkerOnline, goal_cases)
      case (1 \<sigma>1)
      then have q: "quiet \<sigma> \<sigma>1" by simp
      then have "renew_origin_key sw due \<notin> oth (fst \<sigma>1)" using free by (auto simp: quiet_def)
      then show ?case
        using False q
        by (auto simp: unsuspended_verdict_def intro!: wp_extendDeadline [where caller = caller] wp_remove [where caller = caller]
            carried_const carries_verdict does_quiet [OF q])
    qed
  qed
qed

lemma wp_dropped:
  "wp exec (bindP (zremP (de_indexKey due) (de_member due)) (\<lambda>_. Ret (Some outcome)))
     (carried cancel sw due caller (\<lambda>_. verdict_of outcome Remove) \<sigma>) E \<sigma>"
  by (auto intro!: wp_remove [where caller = caller and sw = sw] carried_const carries_verdict)

lemma wp_resolveEntry:
  assumes free: "renew_origin_key sw (due_of k m sc (entry_of m)) \<notin> oth (fst \<sigma>)"
  shows "carried_out cancel sw (due_of k m sc (entry_of m)) (caller_record (kv (fst \<sigma>)) sw (entry_of m))
    (resolveEntry cancel sw k m sc) (\<lambda>now. entry_verdict (kv (fst \<sigma>)) now sw k m sc) \<sigma> \<sigma>"
proof (cases "decodeMember m")
  case (Inl e)
  then show ?thesis
    using wp_dropped [of "due_of k m sc (entry_of m)" OUTCOME_MALFORMED] by (simp add: resolveEntry_def entry_verdict_def)
next
  case (Inr entry)
  let ?due = "due_of k m sc entry" and ?caller = "caller_record (kv (fst \<sigma>)) sw entry"
  have entry: "entry_of m = entry" using Inr by (simp add: entry_of_def)
  have free: "renew_origin_key sw ?due \<notin> oth (fst \<sigma>)" using assms entry by simp
  have "wp exec (bindP (getExecutionByMessageId (sw_schema sw) (wm_parent entry) (wm_session entry)) (\<lambda>found.
      if \<not> opt_truthy found then bindP (zremP k m) (\<lambda>_. Ret (Some OUTCOME_CALLER_MISSING))
      else let caller = the found; callerStatus = baseStatus (jget caller ''status'') in
        if isTerminalState callerStatus then bindP (zremP k m) (\<lambda>_. Ret (Some OUTCOME_CALLER_TERMINAL))
        else if callerStatus \<notin> set SUSPENDED_STATES then returns (resolveUnsuspendedCaller sw ?due caller)
        else if wm_child entry = [] then Ret (Some OUTCOME_ASK_USER_SKIPPED)
        else bindP (if wm_group entry \<noteq> [] then groupBlocksCompensation sw ?due else Ret None) (\<lambda>blocked.
          case blocked of Some outcome \<Rightarrow> Ret (Some outcome) | None \<Rightarrow> triageChild cancel sw ?due caller)))
    (carried cancel sw ?due ?caller (\<lambda>now. caller_verdict (kv (fst \<sigma>)) now sw ?due) \<sigma>)
    (rejected (\<lambda>now. caller_verdict (kv (fst \<sigma>)) now sw ?due) \<sigma>) \<sigma>"
    unfolding wp_bindP [of _ "getExecutionByMessageId sch m s" for sch m s]
  proof (rule quiet_lookup, goal_cases)
    case (2 \<sigma>1 e)
    then show ?case by (auto simp: rejected_def refuses_def caller_verdict_def)
  next
    case (1 \<sigma>1 found)
    have q: "quiet \<sigma> \<sigma>1" and look: "lookup_execution (kv (fst \<sigma>)) (sw_schema sw) (wm_parent entry) (wm_session entry) = Inr found"
      using 1 by simp_all
    have free1: "renew_origin_key sw ?due \<notin> oth (fst \<sigma>1)" and v1: "kv (fst \<sigma>1) = kv (fst \<sigma>)"
      using q free by (auto simp: quiet_def)
    have caller: "opt_truthy found \<Longrightarrow> ?caller = the found"
      using look by (cases found) (simp_all add: caller_record_def)
    note dropped = carried_out_quiet [OF wp_dropped [of ?due] q, simplified]
    let ?st = "baseStatus (jget (the found) ''status'')"
    note child = wp_triageChild [where cancel = cancel and due = ?due and caller = "the found"]
    consider "\<not> opt_truthy found \<or> isTerminalState ?st"
      | "opt_truthy found" "\<not> isTerminalState ?st" "?st \<notin> set SUSPENDED_STATES"
      | "opt_truthy found" "\<not> isTerminalState ?st" "?st \<in> set SUSPENDED_STATES" "wm_child entry = []"
      | "opt_truthy found" "\<not> isTerminalState ?st" "?st \<in> set SUSPENDED_STATES" "wm_child entry \<noteq> []"
      by blast
    then show ?case
    proof cases
      case 1
      then show ?thesis
        using dropped look by (cases "opt_truthy found") (simp_all add: caller_verdict_def)
    next
      case 2
      then show ?thesis
        using carried_out_quiet [OF wp_unsuspended [OF free1] q] look caller
        by (simp add: caller_verdict_def v1)
    next
      case 3
      have "does sw ?due ?caller Leave \<sigma> \<sigma>1" using q by (simp add: does_def acted_def quiet_def)
      then show ?thesis
        using 3 look by (auto simp: caller_verdict_def intro!: carried_const carries_verdict)
    next
      case 4
      have triage: "carried_out cancel sw ?due (the found) (triageChild cancel sw ?due (the found))
          (\<lambda>now. child_verdict (kv (fst \<sigma>)) now sw ?due (the found)) \<sigma> \<sigma>2" if q2: "quiet \<sigma> \<sigma>2" for \<sigma>2
      proof -
        have "renew_origin_key sw ?due \<notin> oth (fst \<sigma>2)" "kv (fst \<sigma>2) = kv (fst \<sigma>)"
          using q2 free by (auto simp: quiet_def)
        then show ?thesis using carried_out_quiet [OF child q2] by simp
      qed
      show ?thesis
      proof (cases "wm_group entry = []")
        case True
        then show ?thesis
          using 4 look caller triage [OF q] by (simp add: caller_verdict_def)
      next
        case False
        have D: "caller_verdict (kv (fst \<sigma>)) now sw ?due = (case group_block (kv (fst \<sigma>)) sw ?due of
            Some outcome \<Rightarrow> verdict_of outcome Remove | None \<Rightarrow> child_verdict (kv (fst \<sigma>)) now sw ?due (the found))" for now
          using 4 look False by (simp add: caller_verdict_def)
        show ?thesis
          using 4 False caller unfolding D
        proof (simp, intro wp_groupBlocks [where caller = "the found"], goal_cases)
          case (1 \<sigma>2)
          then show ?case using triage [OF quiet_trans [OF q]] v1 by simp
        next
          case (2 \<sigma>2 outcome)
          then show ?case using v1 by (auto intro!: carried_const carries_verdict does_quiet [OF q])
        qed
      qed
    qed
  qed
  then show ?thesis
    using Inr by (simp add: resolveEntry_def entry_verdict_def entry due_of_def [symmetric] Let_def)
qed

end

end
