(* ===== verification/SweepContracts.thy ===== *)
theory SweepContracts
  imports Triage
begin

text \<open>
  What the sweeper promises: it decides each due entry as `entry_verdict`
  says, it wakes nobody who is not waiting, touches nothing but the index and
  the renewal origin, renews only up to a fixed ceiling, prunes exactly what is
  too old, and never fails its host.
\<close>

lemma run_eq: "run exec p (s, []) = (result exec p s, final exec p s, issued exec p s)"
  by (simp add: result_def final_def issued_def)

text \<open>One entry, from its decision: an action, and then the cancellation the decision may name.\<close>

lemma resolved:
  assumes avail: "redis_available exec kv oth clk"
    and free: "renew_origin_key sw (due_of k m sc (entry_of m)) \<notin> oth s"
  obtains (raised) now e where "clk s \<le> now" "entry_verdict (kv s) now sw k m sc = Inl e"
      "result exec (resolveEntry cancel sw k m sc) s = Inl e" "kv (final exec (resolveEntry cancel sw k m sc) s) = kv s"
      "sent (issued exec (resolveEntry cancel sw k m sc) s) = []"
  | (decided) now d s1 l1 where "clk s \<le> now" "entry_verdict (kv s) now sw k m sc = Inr d"
      "acted sw (due_of k m sc (entry_of m)) (caller_record (kv s) sw (entry_of m)) (vd_action d) (clk s) (kv s) (kv s1) (sent l1)"
      "run exec (resolveEntry cancel sw k m sc) (s, []) = run exec (afterwards cancel sw (due_of k m sc (entry_of m)) d) (s1, l1)"
proof -
  have free': "renew_origin_key sw (due_of k m sc (entry_of m)) \<notin> oth (fst (s, []))" using free by simp
  show thesis
    using wp_result [OF redis_available.wp_resolveEntry [OF avail free', of cancel, simplified]] raised decided
    unfolding redis_available.carried_def [OF avail] redis_available.rejected_def [OF avail]
      redis_available.carries_def [OF avail] redis_available.refuses_def [OF avail]
      redis_available.does_def [OF avail] redis_available.quiet_def [OF avail] run_eq
    by fastforce
qed

lemma no_cancel:
  "\<not> sw_cancelOnTimeout sw \<Longrightarrow> run exec (afterwards cancel sw due d) \<sigma> = (Inr (Some (vd_outcome d)), \<sigma>)"
  by (simp add: afterwards_def cancelTimedOutChild_def bindO_def split: option.splits)

text \<open>With cancellation switched off the action of the decision is the whole effect.\<close>

lemma resolved_plain:
  assumes avail: "redis_available exec kv oth clk" and off: "\<not> sw_cancelOnTimeout sw"
    and free: "renew_origin_key sw (due_of k m sc (entry_of m)) \<notin> oth s"
  obtains (raised) now e where "clk s \<le> now" "entry_verdict (kv s) now sw k m sc = Inl e"
      "result exec (resolveEntry cancel sw k m sc) s = Inl e" "kv (final exec (resolveEntry cancel sw k m sc) s) = kv s"
      "sent (issued exec (resolveEntry cancel sw k m sc) s) = []"
  | (decided) now d where "clk s \<le> now" "entry_verdict (kv s) now sw k m sc = Inr d"
      "result exec (resolveEntry cancel sw k m sc) s = Inr (Some (vd_outcome d))"
      "acted sw (due_of k m sc (entry_of m)) (caller_record (kv s) sw (entry_of m)) (vd_action d) (clk s) (kv s)
         (kv (final exec (resolveEntry cancel sw k m sc) s)) (sent (issued exec (resolveEntry cancel sw k m sc) s))"
proof (cases rule: resolved [OF avail free, where cancel = cancel, case_names raised decided])
  case (decided now d s1 l1)
  then show ?thesis
    using no_cancel [OF off, where exec = exec] by (intro that(2)) (auto simp: run_eq)
qed (use that in blast)

lemma extended_others:
  assumes "k' \<noteq> de_indexKey due" "k' \<noteq> renew_origin_key sw due"
  shows "v_str (extended_view sw due now v) k' = v_str v k'" "v_hash (extended_view sw due now v) k' = v_hash v k'"
    "v_set (extended_view sw due now v) k' = v_set v k'" "v_zset (extended_view sw due now v) k' = v_zset v k'"
  using assms by (simp_all add: extended_view_def Let_def)

lemma extended_index [simp]:
  "v_zset (extended_view sw due now v) (de_indexKey due) (de_member due) = Some (now + WAIT_RENEW_INCREMENT_MS)"
  by (simp add: extended_view_def Let_def)

lemmas verdict_defs = entry_verdict_def caller_verdict_def child_verdict_def unsuspended_verdict_def
  running_verdict_def finished_verdict_def failure_verdict_def answer_def verdict_of_def cancelling_def Let_def

lemma reply_needs_waiting:
  assumes "entry_verdict v now sw k m sc = Inr d" "vd_action d = Reply p"
  obtains entry found where "decodeMember m = Inr entry"
    "lookup_execution v (sw_schema sw) (wm_parent entry) (wm_session entry) = Inr found" "opt_truthy found"
    "\<not> isTerminalState (baseStatus (jget (the found) ''status''))" "baseStatus (jget (the found) ''status'') \<in> set SUSPENDED_STATES"
    "wm_child entry \<noteq> []" "wm_group entry = [] \<or> group_block v sw (due_of k m sc entry) = None"
  using assms by (auto simp: verdict_defs split: sum.splits if_splits option.splits)

definition removal_outcomes :: "string list" where
  "removal_outcomes = [OUTCOME_MALFORMED, OUTCOME_CALLER_MISSING, OUTCOME_CALLER_TERMINAL, OUTCOME_CALLER_LOST,
     OUTCOME_GROUP_GONE, OUTCOME_GROUP_ABORTED, OUTCOME_GROUP_ALREADY_JOINED]"

lemma remove_outcomes:
  assumes "entry_verdict v now sw k m sc = Inr d" "vd_action d = Remove"
  shows "vd_outcome d \<in> set removal_outcomes"
  using assms by (auto simp: verdict_defs group_block_def removal_outcomes_def split: sum.splits if_splits option.splits)

lemma cancels_outcome:
  assumes "entry_verdict v now sw k m sc = Inr d" "vd_cancels d = Some child"
  shows "vd_outcome d \<in> {OUTCOME_TIMED_OUT, OUTCOME_UNROUTABLE}"
  using assms by (auto simp: verdict_defs split: sum.splits if_splits option.splits)

text \<open>
  C5. Refinement: the sweeper's program for one due entry, with its interleaved
  reads and writes, decides and acts as `entry_verdict` does on the
  keyspace it starts from. An unreadable record is an error and leaves
  everything as it was. Otherwise the action of the decision comes first, and it
  is all that happens, with the decision's outcome, unless the decision names a
  sub-task to cancel, as it does for one that ran past its ceiling; then the
  rest of the run, its answer included, is that of the cancellation, which
  starts from the state the action left.
\<close>

theorem entry_resolved_as_decided:
  assumes avail: "redis_available exec kv oth clk"
    and free: "renew_origin_key sw (due_of k m sc (entry_of m)) \<notin> oth s"
  shows "\<exists>now \<ge> clk s. case entry_verdict (kv s) now sw k m sc of
      Inl e \<Rightarrow> result exec (resolveEntry cancel sw k m sc) s = Inl e \<and> kv (final exec (resolveEntry cancel sw k m sc) s) = kv s
        \<and> sent (issued exec (resolveEntry cancel sw k m sc) s) = []
    | Inr d \<Rightarrow> \<exists>s1 l1.
        acted sw (due_of k m sc (entry_of m)) (caller_record (kv s) sw (entry_of m)) (vd_action d) (clk s) (kv s) (kv s1) (sent l1)
        \<and> (case vd_cancels d of
            None \<Rightarrow> result exec (resolveEntry cancel sw k m sc) s = Inr (Some (vd_outcome d))
              \<and> final exec (resolveEntry cancel sw k m sc) s = s1 \<and> issued exec (resolveEntry cancel sw k m sc) s = l1
          | Some child \<Rightarrow> vd_outcome d \<in> {OUTCOME_TIMED_OUT, OUTCOME_UNROUTABLE}
              \<and> run exec (resolveEntry cancel sw k m sc) (s, [])
                = run exec (bindO (cancelTimedOutChild cancel sw (due_of k m sc (entry_of m)) child)
                    (\<lambda>_. Ret (Some (vd_outcome d)))) (s1, l1))"
proof (cases rule: resolved [OF avail free, where cancel = cancel, case_names raised decided])
  case (raised now e)
  then show ?thesis by (intro exI [of _ now]) simp
next
  case (decided now d s1 l1)
  have "case vd_cancels d of
      None \<Rightarrow> result exec (resolveEntry cancel sw k m sc) s = Inr (Some (vd_outcome d))
        \<and> final exec (resolveEntry cancel sw k m sc) s = s1 \<and> issued exec (resolveEntry cancel sw k m sc) s = l1
    | Some child \<Rightarrow> vd_outcome d \<in> {OUTCOME_TIMED_OUT, OUTCOME_UNROUTABLE}
        \<and> run exec (resolveEntry cancel sw k m sc) (s, [])
          = run exec (bindO (cancelTimedOutChild cancel sw (due_of k m sc (entry_of m)) child) (\<lambda>_. Ret (Some (vd_outcome d)))) (s1, l1)"
    using decided(4) cancels_outcome [OF decided(2)] by (auto simp: run_eq afterwards_def split: option.splits)
  with decided(1-3) show ?thesis by (intro exI [of _ now]) auto
qed

text \<open>
  Nobody is woken who is not waiting: for an entry whose caller has no
  record, is finished, or asked the user, no reply is sent, whatever else holds,
  and for a record that cannot be read neither.
\<close>

lemma only_the_waiting_are_woken:
  assumes avail: "redis_available exec kv oth clk" and off: "\<not> sw_cancelOnTimeout sw"
    and free: "renew_origin_key sw (due_of k m sc (entry_of m)) \<notin> oth s"
    and caller: "lookup_execution (kv s) (sw_schema sw) (wm_parent (entry_of m)) (wm_session (entry_of m)) = x"
    and idle: "wm_child (entry_of m) = [] \<or> x = Inl SyntaxError \<or> x = Inr None
      \<or> (\<exists>r. x = Inr (Some r) \<and> (\<not> js_truthy r \<or> baseStatus (jget r ''status'') \<notin> set SUSPENDED_STATES))"
  shows "sent (issued exec (resolveEntry cancel sw k m sc) s) = []"
proof (cases rule: resolved_plain [OF avail off free, where cancel = cancel, case_names raised decided])
  case (decided now d)
  have "vd_action d \<noteq> Reply p" for p
  proof
    assume "vd_action d = Reply p"
    then obtain entry found where e: "decodeMember m = Inr entry"
      "lookup_execution (kv s) (sw_schema sw) (wm_parent entry) (wm_session entry) = Inr found" "opt_truthy found"
      "baseStatus (jget (the found) ''status'') \<in> set SUSPENDED_STATES" "wm_child entry \<noteq> []"
      by (rule reply_needs_waiting [OF decided(2)])
    have "entry_of m = entry" using e(1) by (simp add: entry_of_def)
    then have "x = Inr found" "wm_child (entry_of m) \<noteq> []" using caller e(2,5) by simp_all
    then show False using idle e(3,4) by (cases found) simp_all
  qed
  then show ?thesis
    using decided(4) by (cases "vd_action d") (auto simp: acted_def)
qed simp

text \<open>
  An entry leaves the index only for a reason that says nobody is waiting,
  and then no reply goes out: otherwise the sweep leaves it for the reply to
  claim.
\<close>

lemma removed_only_when_moot:
  assumes avail: "redis_available exec kv oth clk" and off: "\<not> sw_cancelOnTimeout sw"
    and free: "renew_origin_key sw (due_of k m sc (entry_of m)) \<notin> oth s" and k: "k = wait_index (sw_schema sw) shard"
    and there: "v_zset (kv s) k m \<noteq> None"
    and gone: "v_zset (kv (final exec (resolveEntry cancel sw k m sc) s)) k m = None"
  shows "\<exists>outcome. result exec (resolveEntry cancel sw k m sc) s = Inr (Some outcome) \<and> outcome \<in> set removal_outcomes
    \<and> sent (issued exec (resolveEntry cancel sw k m sc) s) = []"
proof (cases rule: resolved_plain [OF avail off free, where cancel = cancel, case_names raised decided])
  case (decided now d)
  have "vd_action d = Remove"
    using decided(4) there gone extended_index [of sw "due_of k m sc (entry_of m)"]
    by (cases "vd_action d") (auto simp: acted_def)
  then show ?thesis
    using decided remove_outcomes by (auto simp: acted_def)
qed (use there gone in simp)

text \<open>
  The footprint: besides the index itself, resolving an entry writes the
  renewal origin of that entry and nothing else. In particular the books of a
  task group (its tracker and its results) and the execution records stay as
  they are; only replies change them.
\<close>

lemma sweep_footprint:
  assumes avail: "redis_available exec kv oth clk" and off: "\<not> sw_cancelOnTimeout sw"
    and free: "renew_origin_key sw (due_of k m sc (entry_of m)) \<notin> oth s"
    and s': "s' = final exec (resolveEntry cancel sw k m sc) s"
    and k': "k' \<noteq> k" "k' \<noteq> renew_origin_key sw (due_of k m sc (entry_of m))"
  shows "v_str (kv s') k' = v_str (kv s) k' \<and> v_hash (kv s') k' = v_hash (kv s) k'
    \<and> v_set (kv s') k' = v_set (kv s) k' \<and> v_zset (kv s') k' = v_zset (kv s) k'"
proof (cases rule: resolved_plain [OF avail off free, where cancel = cancel, case_names raised decided])
  case (decided now d)
  then show ?thesis
    using k' unfolding s'
    by (cases "vd_action d") (auto simp: acted_def extended_others removed_view_def)
qed (use s' in simp)


section \<open>Renewal\<close>

lemma origin_stays:
  assumes "de_indexKey due \<noteq> renew_origin_key sw due" "de_deadline due \<noteq> 0"
    and "case v_str v (renew_origin_key sw due) of None \<Rightarrow> True | Some x \<Rightarrow> js_trunc_number x \<noteq> 0"
  shows "renewal_origin (extended_view sw due now v) sw (due\<lparr>de_deadline := d\<rparr>) = renewal_origin v sw due"
proof -
  have "renew_origin_key sw (due\<lparr>de_deadline := d\<rparr>) = renew_origin_key sw due"
    by (simp add: renew_origin_key_def)
  then show ?thesis
    using assms by (auto simp: renewal_origin_def extended_view_def Let_def split: option.splits)
qed

text \<open>
  Renewing does not move the ceiling: however often and whenever an entry is
  renewed, the ceiling computed when it comes due again (under its new score) is
  the one computed before.
\<close>

lemma ceiling_is_fixed:
  assumes avail: "redis_available exec kv oth clk" and free: "renew_origin_key sw due \<notin> oth s"
    and index: "de_indexKey due = wait_index (sw_schema sw) shard" and deadline: "de_deadline due \<noteq> 0"
    and origin: "v_str (kv s) (renew_origin_key sw due) \<in> {None} \<union> {Some x |x. js_trunc_number x \<noteq> 0}"
    and again: "due' = due\<lparr>de_deadline := d\<rparr>"
  shows "\<exists>c. result exec (renewalCeilingMs sw due child) s = Inr c
    \<and> result exec (renewalCeilingMs sw due' child) (final exec (extendDeadline sw due) s) = Inr c"
proof -
  have ceiling: "result exec (renewalCeilingMs sw x child) t
      = Inr (renewal_ceiling sw (renewal_origin (kv t) sw x) (epoch_of (jget child ''created_at'')))" for x t
  proof -
    have "wp exec (renewalCeilingMs sw x child)
        (\<lambda>c _. c = renewal_ceiling sw (renewal_origin (kv t) sw x) (epoch_of (jget child ''created_at''))) (\<lambda>_ _. False) (t, [])"
      unfolding renewalCeilingMs_def renewalOriginMs_def wp_bindP wp_catchP wp_Ret Let_def
      by (rule redis_available.quiet_getP [OF avail]) (simp add: renewal_origin_def Let_def)
    then show ?thesis by (auto dest: wp_result)
  qed
  have "wp exec (extendDeadline sw due) (\<lambda>_ \<sigma>. \<exists>now. kv (fst \<sigma>) = extended_view sw due now (kv s)) (\<lambda>_ _. False) (s, [])"
    using free by (intro redis_available.wp_extendDeadline [OF avail, where caller = JNull])
      (auto simp: redis_available.does_def [OF avail] acted_def)
  from wp_result [OF this] obtain now where now: "kv (final exec (extendDeadline sw due) s) = extended_view sw due now (kv s)"
    by auto
  have "renewal_origin (extended_view sw due now (kv s)) sw due' = renewal_origin (kv s) sw due"
    unfolding again using index deadline origin
    by (intro origin_stays) (auto simp: renew_origin_key_def split: option.splits)
  then show ?thesis by (simp add: ceiling now)
qed

text \<open>What makes an entry one whose callee has been silent for too long.\<close>

definition silent_too_long :: "view \<Rightarrow> millis \<Rightarrow> sweeper \<Rightarrow> due_entry \<Rightarrow> json \<Rightarrow> json \<Rightarrow> bool" where
  "silent_too_long v now sw due caller child \<longleftrightarrow>
     lookup_execution v (sw_schema sw) (wm_parent (de_entry due)) (wm_session (de_entry due)) = Inr (Some caller)
     \<and> js_truthy caller \<and> baseStatus (jget caller ''status'') \<in> set SUSPENDED_STATES
     \<and> lookup_execution v (sw_schema sw) (wm_child (de_entry due)) (wm_session (de_entry due)) = Inr (Some child)
     \<and> js_truthy child \<and> \<not> isTerminalState (baseStatus (jget child ''status''))
     \<and> baseStatus (jget child ''status'') \<notin> set SUSPENDED_STATES
     \<and> text_of (jget child ''worker_id'') \<noteq> []
     \<and> presence_online (v_str v (worker_online_lease (sw_schema sw) (text_of (jget child ''worker_id''))))
     \<and> renewal_ceiling sw (renewal_origin v sw due) (epoch_of (jget child ''created_at'')) \<le> now"

lemma silent_later: "silent_too_long v now sw due caller child \<Longrightarrow> now \<le> now' \<Longrightarrow> silent_too_long v now' sw due caller child"
  by (auto simp: silent_too_long_def)

definition timeout_message :: "sweeper \<Rightarrow> wait_member \<Rightarrow> json \<Rightarrow> string" where
  "timeout_message sw entry child = ''Sub-task '' @ wm_child entry @ '' is still '' @ baseStatus (jget child ''status'')
     @ '' on live worker '' @ text_of (jget child ''worker_id'') @ '' but produced no reply within ''
     @ int_str (sw_renewMaxMultiple sw) @ ''x its reply timeout''"

lemma er_child_failure [simp]: "er_child (failure_params due child code message st) = child"
  by (simp add: failure_params_def)

lemma timeout_verdict:
  assumes silent: "silent_too_long v now sw (due_of k m sc entry) caller child" and m: "m = encodeMember entry"
    and entry: "wm_child entry \<noteq> []" "wm_group entry = [] \<or> group_block v sw (due_of k m sc entry) = None"
    and routed: "caller_agent_type child caller \<noteq> []"
  shows "entry_verdict v now sw k m sc = Inr \<lparr>vd_outcome = OUTCOME_TIMED_OUT,
    vd_action = Reply (failure_params (due_of k m sc entry) child CHILD_TIMEOUT (timeout_message sw entry child) []),
    vd_cancels = Some child\<rparr>"
proof -
  have "\<not> isTerminalState (baseStatus (jget caller ''status''))"
    using silent by (auto simp: silent_too_long_def SUSPENDED_STATES_def isTerminalState_iff state_defs)
  then show ?thesis
    using silent routed entry
    by (cases "wm_group entry = []")
       (simp_all add: silent_too_long_def entry_verdict_def m decode_encode caller_verdict_def child_verdict_def running_verdict_def
        Let_def failure_verdict_def answer_def verdict_of_def cancelling_def timeout_message_def)
qed

lemma timed_out_run:
  assumes avail: "redis_available exec kv oth clk"
    and m: "m = encodeMember entry" and entry: "wm_child entry \<noteq> []"
      "wm_group entry = [] \<or> group_block (kv s) sw (due_of k m sc entry) = None"
    and free: "renew_origin_key sw (due_of k m sc entry) \<notin> oth s"
    and silent: "silent_too_long (kv s) (clk s) sw (due_of k m sc entry) caller child"
    and routed: "caller_agent_type child caller \<noteq> []"
  obtains now trace s1 l1 where "kv s1 = extended_view sw (due_of k m sc entry) now (kv s)"
    "sent l1 = [(ctrl_stream (sw_schema sw) (caller_agent_type child caller), command_payload (stand_in_command
       (sweep_reply sw entry caller (failure_params (due_of k m sc entry) child CHILD_TIMEOUT (timeout_message sw entry child) [])) trace))]"
    "run exec (resolveEntry cancel sw k m sc) (s, [])
        = run exec (bindO (cancelTimedOutChild cancel sw (due_of k m sc entry) child) (\<lambda>_. Ret (Some OUTCOME_TIMED_OUT))) (s1, l1)"
proof -
  have e: "entry_of m = entry" by (simp add: entry_of_def m decode_encode)
  have free': "renew_origin_key sw (due_of k m sc (entry_of m)) \<notin> oth s" using free e by simp
  have caller: "caller_record (kv s) sw entry = caller" using silent by (simp add: caller_record_def silent_too_long_def)
  note verdict = timeout_verdict [OF silent_later [OF silent] m entry routed]
  show thesis
  proof (cases rule: resolved [OF avail free', where cancel = cancel, case_names raised decided])
    case (raised now e)
    then show ?thesis using verdict by simp
  next
    case (decided now d s1 l1)
    let ?p = "failure_params (due_of k m sc entry) child CHILD_TIMEOUT (timeout_message sw entry child) []"
    have d: "d = \<lparr>vd_outcome = OUTCOME_TIMED_OUT, vd_action = Reply ?p, vd_cancels = Some child\<rparr>"
      using decided(1,2) verdict by simp
    then obtain now' trace where "kv s1 = extended_view sw (due_of k m sc entry) now' (kv s)"
      "sent l1 = [(ctrl_stream (sw_schema sw) (caller_agent_type child caller),
         command_payload (stand_in_command (sweep_reply sw entry caller ?p) trace))]"
      using decided(3) by (auto simp: acted_def e caller)
    then show ?thesis
      using decided(4) by (intro that) (simp_all add: d e afterwards_def)
  qed
qed

text \<open>
  C6. A live but silent callee is not renewed for ever. Once the ceiling has
  passed, the entry of a suspended caller is answered: the one message sent is a
  failure that goes to the caller's agent type under the caller's message and
  session, for the callee's, and says `CHILD_TIMEOUT` in its reply data and its
  metadata. The entry stays in the index for that reply to claim. All this comes
  before the callee is cancelled, where that is switched on, and the entry counts
  as timed out if the cancellation returns. An entry of a task group is treated
  the same unless the group is gone, aborted or has that result.
\<close>

theorem silent_child_times_out:
  assumes avail: "redis_available exec kv oth clk"
    and m: "m = encodeMember entry" and entry: "wm_child entry \<noteq> []"
      "wm_group entry = [] \<or> group_block (kv s) sw (due_of k m sc entry) = None"
    and free: "renew_origin_key sw (due_of k m sc entry) \<notin> oth s"
    and silent: "silent_too_long (kv s) (clk s) sw (due_of k m sc entry) caller child"
    and routed: "caller_agent_type child caller \<noteq> []"
  shows "\<exists>h s1 l1. sent l1 = [(ctrl_stream (sw_schema sw) (caller_agent_type child caller), command_payload (ResumeCommand h (JStr [])
        FAILED (JObj (failureReplyData (timeout_message sw entry child) CHILD_TIMEOUT (wm_child entry))) []))]
    \<and> messageId h = wm_parent entry \<and> sessionId h = wm_session entry \<and> targetAgentType h = caller_agent_type child caller
    \<and> parentMessageId h = wm_child entry \<and> taskGroupId h = wm_group entry
    \<and> oget (metadata h) ''liveness_error_code'' = Some (JStr CHILD_TIMEOUT)
    \<and> v_zset (kv s1) k m \<noteq> None
    \<and> run exec (resolveEntry cancel sw k m sc) (s, [])
        = run exec (bindO (cancelTimedOutChild cancel sw (due_of k m sc entry) child) (\<lambda>_. Ret (Some OUTCOME_TIMED_OUT))) (s1, l1)"
proof -
  let ?p = "failure_params (due_of k m sc entry) child CHILD_TIMEOUT (timeout_message sw entry child) []"
  let ?r = "sweep_reply sw entry caller ?p"
  obtain now trace s1 l1 where eff: "kv s1 = extended_view sw (due_of k m sc entry) now (kv s)"
    "sent l1 = [(ctrl_stream (sw_schema sw) (caller_agent_type child caller), command_payload (stand_in_command ?r trace))]"
    and rest: "run exec (resolveEntry cancel sw k m sc) (s, [])
        = run exec (bindO (cancelTimedOutChild cancel sw (due_of k m sc entry) child) (\<lambda>_. Ret (Some OUTCOME_TIMED_OUT))) (s1, l1)"
    by (rule timed_out_run [OF assms])
  have "v_zset (kv s1) k m \<noteq> None"
    using extended_index [of sw "due_of k m sc entry" now "kv s"] by (simp add: eff(1))
  moreover have "oget (stand_in_metadata ?r) ''liveness_error_code'' = Some (JStr CHILD_TIMEOUT)"
    unfolding stand_in_metadata_def
    by (subst oget_ospread) (simp_all add: wf_obj_def oget_def sweep_reply_def failure_params_def)
  ultimately show ?thesis
    using eff(2) rest by (intro exI [of _ "stand_in_header ?r trace"] exI [of _ s1] exI [of _ l1])
      (simp add: sweep_reply_def failure_params_def str_or_def stand_in_command_def)
qed


section \<open>Pruning\<close>

text \<open>
  Pruning removes exactly the entries of the shard whose score is at least a
  session life time plus a day old, counts them, and keeps every other one.
\<close>

lemma prune_exact:
  assumes avail: "redis_available exec kv oth clk"
  shows "\<exists>n. result exec (pruneShard sw shard) s = Inr n
    \<and> n = int (card {(m, sc). v_zset (kv s) (wait_index (sw_schema sw) shard) m = Some sc \<and> 0 \<le> sc
            \<and> sc \<le> clk s - WAIT_PRUNE_AFTER_SECONDS * 1000})
    \<and> v_zset (kv (final exec (pruneShard sw shard) s)) (wait_index (sw_schema sw) shard) m
        = (case v_zset (kv s) (wait_index (sw_schema sw) shard) m of
             None \<Rightarrow> None
           | Some sc \<Rightarrow> if 0 \<le> sc \<and> sc \<le> clk s - WAIT_PRUNE_AFTER_SECONDS * 1000 then None else Some sc)"
proof -
  have "wp exec (pruneShard sw shard)
      (\<lambda>n \<sigma>. n = int (card (range_of (kv s) (wait_index (sw_schema sw) shard) 0 (clk s - WAIT_PRUNE_AFTER_SECONDS * 1000)))
         \<and> v_zset (kv (fst \<sigma>)) (wait_index (sw_schema sw) shard) m
        = (case v_zset (kv s) (wait_index (sw_schema sw) shard) m of
             None \<Rightarrow> None
           | Some sc \<Rightarrow> if 0 \<le> sc \<and> sc \<le> clk s - WAIT_PRUNE_AFTER_SECONDS * 1000 then None else Some sc))
      (\<lambda>_ _. False) (s, [])"
    unfolding pruneShard_def wp_bindP
    by (rule redis_available.wp_nowP [OF avail], rule redis_available.wp_zremrangebyscoreP [OF avail]) simp
  then show ?thesis by (auto simp: range_of_def dest: wp_result)
qed


section \<open>The pass\<close>

definition counted :: "outcomes \<Rightarrow> int" where
  "counted counts = sum_list (List.map snd counts)"

lemma counted_bump: "counted (bump outcome n counts) = counted counts + n"
proof (induction counts)
  case (Cons c counts)
  then show ?case by (cases c) (auto simp: bump_def counted_def opt_or_def)
qed (simp add: bump_def counted_def opt_or_def)

text \<open>
  Every due entry gets an outcome: whatever the triage of single entries
  runs into (an unreadable record, a failed cancellation), the counts of a shard
  add up to the entries taken, at most one batch, when the cancellations return.
\<close>

lemma every_due_entry_counted:
  assumes avail: "redis_available exec kv oth clk"
  shows "\<exists>r. result exec (resolveDueEntries cancel sw shard) s = Inr r
    \<and> (\<forall>counts. r = Some counts \<longrightarrow> counted counts = int (min WAIT_SWEEP_BATCH_LIMIT
        (card {(m, sc). v_zset (kv s) (wait_index (sw_schema sw) shard) m = Some sc \<and> 0 \<le> sc \<and> sc \<le> clk s})))"
proof -
  let ?k = "wait_index (sw_schema sw) shard"
  have "wp exec (foldO (\<lambda>outcomes (member, score).
          bindO (catchP (resolveEntry cancel sw ?k member score) (\<lambda>_. Ret (Some OUTCOME_ERROR))) (\<lambda>outcome.
            Ret (Some (bump outcome 1 outcomes)))) [] due)
      (\<lambda>r _. case r of None \<Rightarrow> True | Some counts \<Rightarrow> counted counts = int (length due)) E \<sigma>" for due E \<sigma>
  proof (rule wp_foldO_inv [where I = "\<lambda>done counts _. counted counts = int (length done)"], goal_cases)
    case (1 ys x zs counts \<sigma>')
    then show ?case
      by (cases x) (auto simp: counted_bump simp del: wp_catchP intro!: wp_caught split: option.splits)
  qed (simp add: counted_def)
  note fold = this
  have "wp exec (resolveDueEntries cancel sw shard)
     (\<lambda>r _. case r of None \<Rightarrow> True | Some counts \<Rightarrow>
        counted counts = int (min WAIT_SWEEP_BATCH_LIMIT (card (range_of (kv s) ?k 0 (clk s))))) (\<lambda>_ _. False) (s, [])"
    unfolding resolveDueEntries_def Let_def wp_bindP
  proof (rule redis_available.wp_nowP [OF avail], rule redis_available.wp_zrangebyscoreP [OF avail], goal_cases)
    case (1 s1 s2 full)
    then have "distinct full" by (simp add: distinct_map)
    then have "card (range_of (kv s) ?k 0 (clk s)) = length full"
      using distinct_card [of full] 1 by simp
    then show ?case
      by (intro wp_mono [OF fold]) (auto simp: min.commute split: option.splits)
  qed
  from wp_total [OF this] obtain r where "result exec (resolveDueEntries cancel sw shard) s = Inr r"
    "case r of None \<Rightarrow> True | Some counts \<Rightarrow>
        counted counts = int (min WAIT_SWEEP_BATCH_LIMIT (card (range_of (kv s) ?k 0 (clk s))))" .
  then show ?thesis by (cases r) (simp_all add: range_of_def)
qed

text \<open>A cancellation the sweeper may ask for and that never returns.\<close>

definition may_hang :: "(cmd \<Rightarrow> 's \<Rightarrow> answer \<times> 's) \<Rightarrow> cancel_child \<Rightarrow> sweeper \<Rightarrow> bool" where
  "may_hang exec cancel sw \<longleftrightarrow> sw_cancelOnTimeout sw
     \<and> (\<exists>child session t. result exec (cancel child session (CHILD_TIMEOUT @ '': no reply before deadline'')
           (''wait_sweeper:'' @ sw_workerId sw)) t = Inr None)"

abbreviation comes_back :: "(cmd \<Rightarrow> 's \<Rightarrow> answer \<times> 's) \<Rightarrow> bool \<Rightarrow> 'b option prog \<Rightarrow> 's config \<Rightarrow> bool" where
  "comes_back exec hang p \<sigma> \<equiv> wp exec p (\<lambda>r _. r = None \<longrightarrow> hang) (\<lambda>_ _. True) \<sigma>"

lemma wp_always: "(\<And>a \<sigma>'. Q a \<sigma>') \<Longrightarrow> (\<And>e \<sigma>'. E e \<sigma>') \<Longrightarrow> wp exec p Q E \<sigma>"
  by (simp add: wp_def split: prod.splits sum.splits)

lemma comes_back_bindP:
  "(\<And>a \<sigma>'. comes_back exec hang (f a) \<sigma>') \<Longrightarrow> comes_back exec hang (bindP p f) \<sigma>"
  unfolding wp_bindP by (rule wp_always) simp_all

lemma comes_back_seqP: "(\<And>\<sigma>'. comes_back exec hang q \<sigma>') \<Longrightarrow> comes_back exec hang (seqP p q) \<sigma>"
  unfolding seqP_def by (rule comes_back_bindP)

lemma comes_back_returns: "comes_back exec hang (returns p) \<sigma>"
  unfolding wp_returns by (rule wp_always) simp_all

lemma comes_back_bindO:
  "comes_back exec hang p \<sigma> \<Longrightarrow> (\<And>a \<sigma>'. comes_back exec hang (f a) \<sigma>') \<Longrightarrow> comes_back exec hang (bindO p f) \<sigma>"
  unfolding wp_bindO by (erule wp_mono) (auto split: option.splits)

lemma comes_back_catchP:
  "comes_back exec hang p \<sigma> \<Longrightarrow> (\<And>e \<sigma>'. comes_back exec hang (h e) \<sigma>') \<Longrightarrow> comes_back exec hang (catchP p h) \<sigma>"
  unfolding wp_catchP by (erule wp_mono) auto

lemmas comes_back_rules = comes_back_bindP comes_back_seqP comes_back_returns comes_back_bindO comes_back_catchP

lemma cancellation_comes_back: "comes_back exec (may_hang exec cancel sw) (cancelTimedOutChild cancel sw due child) \<sigma>"
proof (cases "sw_cancelOnTimeout sw \<and> \<not> opt_truthy (jget child ''cancel_requested'')")
  case True
  have "comes_back exec (may_hang exec cancel sw) (cancel m session (CHILD_TIMEOUT @ '': no reply before deadline'') (''wait_sweeper:'' @ sw_workerId sw)) \<sigma>"
    (is "comes_back _ _ ?p _") for m session
  proof -
    have "fst (run exec ?p \<sigma>) = result exec ?p (fst \<sigma>)" using result_any_log [of exec ?p "fst \<sigma>" "snd \<sigma>"] by simp
    then have "may_hang exec cancel sw" if "fst (run exec ?p \<sigma>) = Inr None"
      using True that unfolding may_hang_def by metis
    then show ?thesis by (auto simp: wp_def split: prod.splits sum.splits)
  qed
  then show ?thesis
    using True by (auto simp: cancelTimedOutChild_def simp del: wp_bindO wp_catchP intro!: comes_back_rules)
qed (auto simp: cancelTimedOutChild_def)

lemma entry_comes_back: "comes_back exec (may_hang exec cancel sw) (resolveEntry cancel sw k m sc) \<sigma>"
  unfolding resolveEntry_def triageChild_def Let_def
  by (auto simp del: wp_bindP wp_bindO wp_seqP wp_catchP wp_returns split: sum.splits option.splits
      intro!: comes_back_rules cancellation_comes_back)

lemma due_entries_come_back: "comes_back exec (may_hang exec cancel sw) (resolveDueEntries cancel sw shard) \<sigma>"
proof -
  let ?k = "wait_index (sw_schema sw) shard"
  have "wp exec (foldO (\<lambda>outcomes (member, score).
          bindO (catchP (resolveEntry cancel sw ?k member score) (\<lambda>_. Ret (Some OUTCOME_ERROR))) (\<lambda>outcome.
            Ret (Some (bump outcome 1 outcomes)))) [] due)
      (\<lambda>r _. case r of None \<Rightarrow> may_hang exec cancel sw | Some _ \<Rightarrow> True) (\<lambda>_ _. True) \<sigma>" for due \<sigma>
  proof (rule wp_foldO_inv [where I = "\<lambda>_ _ _. True"], goal_cases)
    case (1 ys x zs counts \<sigma>')
    have "comes_back exec (may_hang exec cancel sw) (case x of (member, score) \<Rightarrow>
        bindO (catchP (resolveEntry cancel sw ?k member score) (\<lambda>_. Ret (Some OUTCOME_ERROR)))
          (\<lambda>outcome. Ret (Some (bump outcome 1 counts)))) \<sigma>'"
      by (cases x) (auto simp del: wp_catchP wp_bindO intro!: comes_back_bindO comes_back_catchP entry_comes_back)
    then show ?case by (rule wp_mono) (auto split: option.splits)
  qed simp
  then have "comes_back exec (may_hang exec cancel sw) (foldO (\<lambda>outcomes (member, score).
          bindO (catchP (resolveEntry cancel sw ?k member score) (\<lambda>_. Ret (Some OUTCOME_ERROR))) (\<lambda>outcome.
            Ret (Some (bump outcome 1 outcomes)))) [] due) \<sigma>" for due \<sigma>
    by (rule wp_mono) auto
  then show ?thesis
    unfolding resolveDueEntries_def Let_def by (intro comes_back_bindP)
qed

lemma caught_returns: "wp exec (catchP p (\<lambda>_. Ret a)) (\<lambda>_ _. True) (\<lambda>_ _. False) \<sigma>"
  by (rule wp_caught) simp

lemma caught_comes_back:
  "comes_back exec hang p \<sigma> \<Longrightarrow> wp exec (catchP p (\<lambda>_. Ret (Some a))) (\<lambda>r _. r = None \<longrightarrow> hang) (\<lambda>_ _. False) \<sigma>"
  unfolding wp_catchP by (erule wp_mono) auto

lemma claimed_never_fails:
  assumes "may_hang exec cancel sw = hang"
  shows "wp exec (sweep_claimed cancel sw shard pruning) (\<lambda>r _. r = None \<longrightarrow> hang) (\<lambda>_ _. False) \<sigma>"
proof -
  have "wp exec (if b then catchP (bindO (resolveDueEntries cancel sw shard) (\<lambda>found. Ret (Some (merge_outcomes outcomes found))))
      (\<lambda>_. Ret (Some x)) else Ret (Some outcomes)) (\<lambda>r _. r = None \<longrightarrow> hang) (\<lambda>_ _. False) \<sigma>" for b outcomes x \<sigma>
  proof (cases b)
    case True
    show ?thesis
      unfolding if_P [OF True]
      by (rule caught_comes_back, rule comes_back_bindO, rule due_entries_come_back [of exec cancel sw, unfolded assms]) simp
  qed simp
  then show ?thesis
    unfolding sweep_claimed_def wp_bindP
    by (intro wp_mono [OF caught_returns]) (auto simp only: split: prod.splits)
qed

lemma shard_never_fails:
  assumes uuid: "\<And>t. \<exists>r t'. exec Uuid t = (Inr r, t')" and hang: "may_hang exec cancel sw = hang"
  shows "wp exec (sweepShard cancel sw shard pruning) (\<lambda>r _. r = None \<longrightarrow> hang) (\<lambda>_ _. False) \<sigma>"
    (is "wp exec _ ?ok ?no _")
proof -
  have draw: "wp exec uuidP (\<lambda>_ _. True) ?no \<sigma>" for \<sigma>
    using uuid [of "fst \<sigma>"] by (cases \<sigma>) (auto simp: uuidP_def cmdP_def wp_Step)
  have freed: "wp exec (finallyO (sweep_claimed cancel sw shard pruning) (catchP p (\<lambda>_. Ret ()))) ?ok ?no \<sigma>" for p \<sigma>
    unfolding wp_finallyO
    by (rule wp_mono [OF claimed_never_fails [OF hang]])
       (auto simp del: wp_catchP split: option.splits intro!: wp_mono [OF caught_returns])
  have "wp exec (if \<not> b then Ret (Some []) else finallyO (sweep_claimed cancel sw shard pruning) (catchP p (\<lambda>_. Ret ()))) ?ok ?no \<sigma>"
    for b p \<sigma> using freed [of p \<sigma>] by (cases b) simp_all
  then show ?thesis
    unfolding sweepShard_def Let_def
    by (cases "\<not> pruning \<and> \<not> sw_enabled sw") (auto simp del: wp_catchP intro!: wp_mono [OF draw] wp_mono [OF caught_returns])
qed

text \<open>
  C7. A pass never fails its host. Over any server that tells the time and draws
  UUIDs, whatever the other commands answer or refuse and whatever the
  cancellation does, the pass does not throw; it moves on to the next shard, or it
  does not return, and then the sweeper cancels timed-out callees and there is a
  request of its own that the cancellation never returns from.
\<close>

theorem sweep_never_fails:
  assumes time: "\<And>t. \<exists>r t'. exec Now t = (Inr r, t')" and uuid: "\<And>t. \<exists>r t'. exec Uuid t = (Inr r, t')"
  shows "\<exists>r. result exec (sweepOnce cancel sw) s = Inr r \<and> (case r of
      Some (counts, sw') \<Rightarrow> \<exists>t. sw' = sw\<lparr>lastPruneMs := t, shardCursor := (shardCursor sw + 1) mod WAIT_INDEX_SHARDS\<rparr>
    | None \<Rightarrow> may_hang exec cancel sw)"
proof -
  have now: "wp exec nowP (\<lambda>_ _. True) (\<lambda>_ _. False) \<sigma>" for \<sigma>
    using time [of "fst \<sigma>"] by (cases \<sigma>) (auto simp: nowP_def cmdP_def wp_Step)
  let ?no = "\<lambda>_ _. False"
  have pass: "wp exec (foldO (\<lambda>outcomes offset.
            bindO (sweepShard cancel sw' ((start + offset) mod WAIT_INDEX_SHARDS) pruning) (\<lambda>found.
              Ret (Some (merge_outcomes outcomes found)))) [] os)
      (\<lambda>r _. case r of None \<Rightarrow> may_hang exec cancel sw | Some _ \<Rightarrow> True) ?no \<sigma>"
    if "may_hang exec cancel sw' = may_hang exec cancel sw" for sw' start pruning os \<sigma>
    by (rule wp_foldO_inv [where I = "\<lambda>_ _ _. True"], unfold wp_bindO, rule wp_mono [OF shard_never_fails [OF uuid that]])
       (auto split: option.splits)
  have due: "wp exec (pruneIsDue sw) (\<lambda>r _. \<exists>t. snd r = sw\<lparr>lastPruneMs := t\<rparr>) ?no \<sigma>" for \<sigma>
    unfolding pruneIsDue_def
    by (auto intro!: wp_mono [OF now] split: option.splits) (auto intro: exI [of _ "lastPruneMs sw"])
  let ?Q = "\<lambda>r. case r of
      Some (counts, sw') \<Rightarrow> \<exists>t. sw' = sw\<lparr>lastPruneMs := t, shardCursor := (shardCursor sw + 1) mod WAIT_INDEX_SHARDS\<rparr>
    | None \<Rightarrow> may_hang exec cancel sw"
  have "wp exec (sweepOnce cancel sw) (\<lambda>r _. ?Q r) ?no (s, [])"
    unfolding sweepOnce_def wp_bindP
  proof (rule wp_mono [OF due], goal_cases)
    case (1 r \<sigma>')
    then obtain pruning t where r: "r = (pruning, sw\<lparr>lastPruneMs := t\<rparr>)" by (cases r) auto
    have "may_hang exec cancel (sw\<lparr>lastPruneMs := t\<rparr>) = may_hang exec cancel sw" by (simp add: may_hang_def)
    from pass [OF this] show ?case
      unfolding r prod.case Let_def wp_bindO wp_Ret
    proof (rule wp_mono, goal_cases)
      case (1 a \<sigma>'')
      then show ?case by (cases a) (simp_all, rule exI [of _ t], rule refl)
    qed simp
  qed simp
  from wp_total [OF this] show ?thesis by blast
qed


section \<open>A sweep on the server of the tests\<close>

text \<open>
  A session with a suspended caller and its running sub-task, the wait between
  them long overdue; the worker of the sub-task has no lease unless `live`.
\<close>

definition sample_entry :: wait_member where
  "sample_entry = \<lparr>wm_session = ''s'', wm_parent = ''m1'', wm_child = ''m2'', wm_group = []\<rparr>"

lemma sample_entry_simps [simp]:
  "wm_session sample_entry = ''s''" "wm_parent sample_entry = ''m1''" "wm_child sample_entry = ''m2''" "wm_group sample_entry = []"
  by (simp_all add: sample_entry_def)

definition sample_caller :: jobj where
  "sample_caller = [(''status'', JStr ''WAITING_AGENT''), (''target_agent_type'', JStr ''boss'')]"

definition sample_child :: jobj where
  "sample_child = [(''status'', JStr ''RUNNING''), (''worker_id'', JStr ''w2''), (''source_agent_type'', JStr ''boss''),
     (''target_agent_type'', JStr ''helper''), (''created_at'', JNum 400)]"

definition sample_index :: key where
  "sample_index = wait_index V1 (waitIndexShard ''s'')"

definition sample_sweeper :: sweeper where
  "sample_sweeper = (new_WaitIndexSweeper (\<lambda>_. []) sample_registry ''u'' \<lparr>so_workerId = Some ''sw'', so_interval = None,
     so_enabled = Some True, so_renewMaxMultiple = Some 2, so_cancelOnTimeout = Some False, so_pruneEnabled = None,
     so_pruneInterval = None\<rparr>)"

definition sample_sweep_setup :: "bool \<Rightarrow> cmd list" where
  "sample_sweep_setup live =
     [Hset (session_registry V1 ''s'') (msg_field ''m1'') ''e1'',
      Hset (session_registry V1 ''s'') (exec_field ''e1'') (json_stringify (JObj sample_caller)),
      Hset (session_registry V1 ''s'') (msg_field ''m2'') ''e2'',
      Hset (session_registry V1 ''s'') (exec_field ''e2'') (json_stringify (JObj sample_child)),
      Zadd sample_index 500 (encodeMember sample_entry)]
     @ (if live then [SetC (worker_online_lease V1 ''w2'') (encodeWorkerPresence (Some ''t'') 1 ''ip'') None False] else [])"

definition sample_overdue :: "bool \<Rightarrow> mock" where
  "sample_overdue live = mock_after (sample_sweep_setup live) (empty_mock 5000000)"

lemma sample_wf [simp]: "wf_json (JObj sample_caller)" "wf_json (JObj sample_child)"
  by (simp_all add: sample_caller_def sample_child_def wf_json.simps(3))

lemma sample_sweeper_simps [simp]:
  "sw_schema sample_sweeper = V1" "\<not> sw_cancelOnTimeout sample_sweeper" "sw_renewMaxMultiple sample_sweeper = 2"
  by (simp_all add: sample_sweeper_def new_WaitIndexSweeper_def Let_def opt_or_def sample_registry_def)

lemma sample_view:
  "v_hash (mock_view (sample_overdue live)) (session_registry V1 ''s'') = [msg_field ''m1'' \<mapsto> ''e1'',
     exec_field ''e1'' \<mapsto> json_stringify (JObj sample_caller), msg_field ''m2'' \<mapsto> ''e2'',
     exec_field ''e2'' \<mapsto> json_stringify (JObj sample_child)]"
  "v_zset (mock_view (sample_overdue live)) sample_index = [encodeMember sample_entry \<mapsto> 500]"
  "v_str (mock_view (sample_overdue live)) (worker_online_lease V1 ''w2'')
     = (if live then Some (encodeWorkerPresence (Some ''t'') 1 ''ip'') else None)"
  "v_str (mock_view (sample_overdue live)) (wait_renew_origin V1 x y) = None"
proof -
  have view: "mock_view (sample_overdue live) = fold write_view (sample_sweep_setup live) (mock_view (empty_mock 5000000))"
    unfolding sample_overdue_def by (rule mock_after_writes) (simp add: sample_sweep_setup_def)
  show "v_hash (mock_view (sample_overdue live)) (session_registry V1 ''s'') = [msg_field ''m1'' \<mapsto> ''e1'',
     exec_field ''e1'' \<mapsto> json_stringify (JObj sample_caller), msg_field ''m2'' \<mapsto> ''e2'',
     exec_field ''e2'' \<mapsto> json_stringify (JObj sample_child)]"
    "v_zset (mock_view (sample_overdue live)) sample_index = [encodeMember sample_entry \<mapsto> 500]"
    "v_str (mock_view (sample_overdue live)) (worker_online_lease V1 ''w2'')
       = (if live then Some (encodeWorkerPresence (Some ''t'') 1 ''ip'') else None)"
    "v_str (mock_view (sample_overdue live)) (wait_renew_origin V1 x y) = None"
    by (simp_all add: view sample_sweep_setup_def sample_index_def)
qed

lemma sample_now [simp]: "now_ms (sample_overdue live) = 5000000"
  by (simp add: sample_overdue_def sample_sweep_setup_def)

lemma sample_free: "wait_renew_origin V1 x y \<notin> mock_others (sample_overdue live)"
proof -
  have "mock_others (sample_overdue live) \<subseteq> {sample_index, session_registry V1 ''s''}"
    using mock_after_others [of "sample_sweep_setup live" "empty_mock 5000000"]
    by (cases live) (simp_all add: sample_overdue_def sample_sweep_setup_def others_fresh)
  from subsetD [OF this, of "wait_renew_origin V1 x y"] show ?thesis
    by (auto simp: sample_index_def)
qed

lemma sample_lookup:
  "lookup_execution (mock_view (sample_overdue live)) V1 ''m1'' ''s'' = Inr (Some (JObj sample_caller))"
  "lookup_execution (mock_view (sample_overdue live)) V1 ''m2'' ''s'' = Inr (Some (JObj sample_child))"
  by (simp_all add: lookup_execution_def sample_view stringify_not_Nil json_parse_stringify del: wf_json.simps)

lemma sample_fields [simp]:
  "oget sample_caller ''status'' = Some (JStr ''WAITING_AGENT'')" "oget sample_child ''status'' = Some (JStr ''RUNNING'')"
  "oget sample_child ''worker_id'' = Some (JStr ''w2'')" "oget sample_child ''source_agent_type'' = Some (JStr ''boss'')"
  "oget sample_child ''created_at'' = Some (JNum 400)"
  by (simp_all add: sample_caller_def sample_child_def)

lemma plain_text:
  "baseStatus (Some (JStr ''WAITING_AGENT'')) = WAITING_AGENT" "baseStatus (Some (JStr ''RUNNING'')) = ''RUNNING''"
  "epoch_of (Some (JNum n)) = n"
  using js_trunc_int_str [of n] by (simp_all add: baseStatus_def text_of_def split_head_def WAITING_AGENT_def epoch_of_def js_trim_id plain_char_def)

lemma sample_states [simp]:
  "baseStatus (Some (JStr ''WAITING_AGENT'')) \<in> set SUSPENDED_STATES" "\<not> isTerminalState (baseStatus (Some (JStr ''WAITING_AGENT'')))"
  "baseStatus (Some (JStr ''RUNNING'')) \<notin> set SUSPENDED_STATES" "\<not> isTerminalState (baseStatus (Some (JStr ''RUNNING'')))"
  by (simp_all add: plain_text SUSPENDED_STATES_def isTerminalState_iff state_defs)

definition sample_score :: string where "sample_score = int_str 500"

lemma sample_due_free [simp]:
  "renew_origin_key sample_sweeper (due_of sample_index m sc e) \<notin> mock_others (sample_overdue live)"
  by (simp add: renew_origin_key_def sample_free)

lemma sample_entry_of [simp]: "entry_of (encodeMember e) = e"
  by (simp add: entry_of_def decode_encode)

text \<open>The worker of the sub-task is gone: the caller is answered that it was lost.\<close>

theorem entry_resolved_as_decided_witness:
  "result mock_exec (resolveEntry (\<lambda>_ _ _ _. Ret None) sample_sweeper sample_index (encodeMember sample_entry) sample_score)
     (sample_overdue False) = Inr (Some OUTCOME_WORKER_LOST)"
proof -
  have "\<exists>p. entry_verdict (mock_view (sample_overdue False)) now sample_sweeper sample_index (encodeMember sample_entry) sample_score
      = Inr \<lparr>vd_outcome = OUTCOME_WORKER_LOST, vd_action = Reply p, vd_cancels = None\<rparr>" for now
    unfolding entry_verdict_def decode_encode caller_verdict_def child_verdict_def running_verdict_def
    by (simp add: sample_lookup sample_view presence_online_def Let_def failure_verdict_def
        answer_def failure_params_def caller_agent_type_def text_of_def str_or_def verdict_of_def)
  note verdict = this
  show ?thesis
  proof (rule exE [OF entry_resolved_as_decided [OF mock_server.redis_available_axioms,
          of sample_sweeper sample_index "encodeMember sample_entry" sample_score "sample_overdue False" "\<lambda>_ _ _ _. Ret None",
          OF sample_due_free]], goal_cases)
    case (1 now)
    then show ?case using verdict [of now] by auto
  qed
qed

lemma only_the_waiting_are_woken_example:
  "sent (issued mock_exec (resolveEntry (\<lambda>_ _ _ _. Ret None) sample_sweeper sample_index
     (encodeMember (sample_entry\<lparr>wm_child := []\<rparr>)) sample_score) (sample_overdue False)) = []"
  by (rule only_the_waiting_are_woken [OF mock_server.redis_available_axioms _ _ refl]) simp_all

text \<open>A member no encoding produced is dropped.\<close>

definition sample_garbled :: mock where
  "sample_garbled = mock_after [Zadd sample_index 500 ''bad''] (empty_mock 5000000)"

lemma sample_garbled_facts:
  "v_zset (mock_view sample_garbled) sample_index = [''bad'' \<mapsto> 500]"
  "renew_origin_key sample_sweeper (due_of sample_index m sc e) \<notin> mock_others sample_garbled"
  "\<exists>e. decodeMember ''bad'' = Inl e"
proof -
  show "v_zset (mock_view sample_garbled) sample_index = [''bad'' \<mapsto> 500]"
    by (simp add: sample_garbled_def mock_after_writes)
  show "renew_origin_key sample_sweeper (due_of sample_index m sc e) \<notin> mock_others sample_garbled"
    using mock_after_others [of "[Zadd sample_index 500 ''bad'']" "empty_mock 5000000"]
    by (auto simp: sample_garbled_def others_fresh renew_origin_key_def sample_index_def)
  show "\<exists>e. decodeMember ''bad'' = Inl e"
    by (simp add: decodeMember_def splitEscaped_def ESCAPE_def SEPARATOR_def)
qed

lemma removed_only_when_moot_example:
  "\<exists>outcome. result mock_exec (resolveEntry (\<lambda>_ _ _ _. Ret None) sample_sweeper sample_index ''bad'' sample_score) sample_garbled = Inr (Some outcome)
     \<and> outcome \<in> set removal_outcomes
     \<and> sent (issued mock_exec (resolveEntry (\<lambda>_ _ _ _. Ret None) sample_sweeper sample_index ''bad'' sample_score) sample_garbled) = []"
proof (rule removed_only_when_moot [OF mock_server.redis_available_axioms])
  let ?p = "resolveEntry (\<lambda>_ _ _ _. Ret None) sample_sweeper sample_index ''bad'' sample_score"
  have verdict: "entry_verdict (mock_view sample_garbled) now sample_sweeper sample_index ''bad'' sample_score
      = verdict_of OUTCOME_MALFORMED Remove" for now
    using sample_garbled_facts(3) by (auto simp: entry_verdict_def)
  show "v_zset (mock_view (final mock_exec ?p sample_garbled)) sample_index ''bad'' = None"
    by (cases rule: resolved_plain [OF mock_server.redis_available_axioms _ sample_garbled_facts(2),
          where cancel = "\<lambda>_ _ _ _. Ret None" and m = "''bad''" and sc = sample_score, case_names off raised decided])
       (auto simp: verdict verdict_of_def acted_def removed_view_def)
  show "sample_index = wait_index (sw_schema sample_sweeper) (waitIndexShard ''s'')"
    by (simp add: sample_index_def)
qed (simp_all add: sample_garbled_facts)

lemma sweep_footprint_example:
  "v_hash (mock_view (final mock_exec (resolveEntry (\<lambda>_ _ _ _. Ret None) sample_sweeper sample_index (encodeMember sample_entry)
     sample_score) (sample_overdue True))) (session_registry V1 ''s'') = v_hash (mock_view (sample_overdue True)) (session_registry V1 ''s'')"
  using sweep_footprint [OF mock_server.redis_available_axioms _ _ refl, of sample_sweeper sample_index "encodeMember sample_entry"
      sample_score "sample_overdue True" "session_registry V1 ''s''" "\<lambda>_ _ _ _. Ret None"]
  by (simp add: renew_origin_key_def sample_index_def sample_free)

lemma ceiling_is_fixed_example:
  "\<exists>c. result mock_exec (renewalCeilingMs sample_sweeper (due_of sample_index ''m'' (int_str 900) sample_entry) (JObj sample_child)) 
       (final mock_exec (extendDeadline sample_sweeper (due_of sample_index ''m'' (int_str 500) sample_entry)) (sample_overdue True)) = Inr c
     \<and> result mock_exec (renewalCeilingMs sample_sweeper (due_of sample_index ''m'' (int_str 500) sample_entry) (JObj sample_child))
       (sample_overdue True) = Inr c"
proof -
  have "due_of sample_index ''m'' (int_str 900) sample_entry
      = (due_of sample_index ''m'' (int_str 500) sample_entry)\<lparr>de_deadline := 900\<rparr>"
    by (simp add: due_of_def)
  from ceiling_is_fixed [OF mock_server.redis_available_axioms sample_due_free _ _ _ this, of "waitIndexShard ''s''" True "JObj sample_child"]
  show ?thesis
    by (auto simp: sample_index_def renew_origin_key_def sample_view)
qed

lemma sample_late:
  "renewal_ceiling sample_sweeper (renewal_origin (mock_view (sample_overdue True)) sample_sweeper
      (due_of sample_index (encodeMember sample_entry) sample_score sample_entry)) 400 \<le> now_ms (sample_overdue True)"
  by (simp add: renewal_ceiling_def renewal_origin_def renew_origin_key_def sample_view sample_score_def
      WAIT_RENEW_INCREMENT_MS_def Let_def)

lemma sample_silent:
  "silent_too_long (mock_view (sample_overdue True)) (now_ms (sample_overdue True)) sample_sweeper
     (due_of sample_index (encodeMember sample_entry) sample_score sample_entry) (JObj sample_caller) (JObj sample_child)"
  using sample_late
  by (simp add: silent_too_long_def sample_lookup sample_view presence_online_def presence_roundtrip text_of_def plain_text)
     (simp add: SUSPENDED_STATES_def isTerminalState_iff state_defs)

lemma sample_routed: "caller_agent_type (JObj sample_child) (JObj sample_caller) = ''boss''"
  by (simp add: caller_agent_type_def text_of_def str_or_def)

text \<open>The worker lives but has passed twice the caller's timeout; the callee is cancelled, and says nothing.\<close>

definition cancelling_sweeper :: sweeper where
  "cancelling_sweeper = sample_sweeper\<lparr>sw_cancelOnTimeout := True\<rparr>"

lemma cancelling_sweeper_simps [simp]:
  "sw_schema cancelling_sweeper = V1" "sw_cancelOnTimeout cancelling_sweeper" "sw_workerId cancelling_sweeper = sw_workerId sample_sweeper"
  "renew_origin_key cancelling_sweeper due = renew_origin_key sample_sweeper due"
  by (simp_all add: cancelling_sweeper_def renew_origin_key_def)

lemma cancelling_silent:
  "silent_too_long (mock_view (sample_overdue True)) (now_ms (sample_overdue True)) cancelling_sweeper
     (due_of sample_index (encodeMember sample_entry) sample_score sample_entry) (JObj sample_caller) (JObj sample_child)"
  using sample_silent
  by (simp add: silent_too_long_def renewal_origin_def renewal_ceiling_def renew_origin_key_def cancelling_sweeper_def)

theorem silent_child_times_out_witness:
  "\<exists>h s1 l1. sent l1 = [(ctrl_stream V1 ''boss'', command_payload (ResumeCommand h (JStr []) FAILED
        (JObj (failureReplyData (timeout_message cancelling_sweeper sample_entry (JObj sample_child)) CHILD_TIMEOUT ''m2'')) []))]
     \<and> messageId h = ''m1'' \<and> result mock_exec (resolveEntry (\<lambda>_ _ _ _. Ret (Some None)) cancelling_sweeper sample_index
         (encodeMember sample_entry) sample_score) (sample_overdue True) = Inr (Some OUTCOME_TIMED_OUT)"
proof -
  obtain h s1 l1 where msg: "sent l1 = [(ctrl_stream V1 ''boss'', command_payload (ResumeCommand h (JStr []) FAILED
        (JObj (failureReplyData (timeout_message cancelling_sweeper sample_entry (JObj sample_child)) CHILD_TIMEOUT ''m2'')) []))]"
      "messageId h = ''m1''"
      and rest: "run mock_exec (resolveEntry (\<lambda>_ _ _ _. Ret (Some None)) cancelling_sweeper sample_index
         (encodeMember sample_entry) sample_score) (sample_overdue True, [])
       = run mock_exec (bindO (cancelTimedOutChild (\<lambda>_ _ _ _. Ret (Some None)) cancelling_sweeper
           (due_of sample_index (encodeMember sample_entry) sample_score sample_entry) (JObj sample_child))
           (\<lambda>_. Ret (Some OUTCOME_TIMED_OUT))) (s1, l1)"
    using silent_child_times_out [OF mock_server.redis_available_axioms refl _ _ _ cancelling_silent, where cancel = "\<lambda>_ _ _ _. Ret (Some None)"]
    by (auto simp: sample_routed)
  have "result mock_exec (resolveEntry (\<lambda>_ _ _ _. Ret (Some None)) cancelling_sweeper sample_index
         (encodeMember sample_entry) sample_score) (sample_overdue True) = Inr (Some OUTCOME_TIMED_OUT)"
    unfolding result_def rest by (simp add: cancelTimedOutChild_def bindO_def jget_def oget_def sample_child_def)
  with msg show ?thesis by blast
qed

lemma prune_exact_example:
  "v_zset (mock_view (final mock_exec (pruneShard sample_sweeper (waitIndexShard ''s'')) (sample_overdue True))) sample_index
     (encodeMember sample_entry) = Some 500"
  using prune_exact [OF mock_server.redis_available_axioms, of sample_sweeper "waitIndexShard ''s''" "sample_overdue True" "encodeMember sample_entry"]
  by (simp add: sample_view sample_index_def [symmetric] WAIT_PRUNE_AFTER_SECONDS_def DEFAULT_SESSION_TTL_def)

lemma every_due_entry_counted_example:
  "\<exists>r. result mock_exec (resolveDueEntries (\<lambda>_ _ _ _. Raise TypeError) sample_sweeper 3) (empty_mock 0) = Inr r
     \<and> (\<forall>counts. r = Some counts \<longrightarrow> counted counts = 0)"
  using every_due_entry_counted [OF mock_server.redis_available_axioms, of "\<lambda>_ _ _ _. Raise TypeError" sample_sweeper 3 "empty_mock 0"]
  by simp

theorem sweep_never_fails_witness:
  "\<exists>counts sw'. result (failing_exec (\<lambda>c. c \<noteq> Now \<and> c \<noteq> Uuid)) (sweepOnce (\<lambda>_ _ _ _. Raise TypeError) cancelling_sweeper) (empty_mock 0) = Inr (Some (counts, sw'))
     \<and> shardCursor sw' = (shardCursor cancelling_sweeper + 1) mod WAIT_INDEX_SHARDS"
proof -
  let ?exec = "failing_exec (\<lambda>c. c \<noteq> Now \<and> c \<noteq> Uuid)" and ?cancel = "\<lambda>_ _ _ _. Raise TypeError"
  have "\<not> may_hang ?exec ?cancel cancelling_sweeper" by (simp add: may_hang_def result_def)
  moreover obtain r where r: "result ?exec (sweepOnce ?cancel cancelling_sweeper) (empty_mock 0) = Inr r"
      "case r of Some (counts, sw') \<Rightarrow> \<exists>t. sw' = cancelling_sweeper\<lparr>lastPruneMs := t,
            shardCursor := (shardCursor cancelling_sweeper + 1) mod WAIT_INDEX_SHARDS\<rparr>
       | None \<Rightarrow> may_hang ?exec ?cancel cancelling_sweeper"
    using sweep_never_fails [of ?exec ?cancel cancelling_sweeper "empty_mock 0"]
    by (auto simp: failing_exec_def mock_exec_def split: prod.splits)
  ultimately show ?thesis
    by (cases r) auto
qed

end
