(* ===== verification/Actions.thy ===== *)
theory Actions
  imports Effects
begin

text \<open>
  Code that works on an object of its own, here an agent context: an action
  takes the object, runs a program and gives back the outcome with the object
  as it is then. An exception keeps what was assigned before it was thrown,
  so the outcome, error or value, always comes with an object. A program
  rejected outside any assignment leaves the object it was started with
  (`settled`).
\<close>

type_synonym ('c, 'a) act = "'c \<Rightarrow> ((js_error + 'a) \<times> 'c) prog"

definition settled :: "('c, 'a) act \<Rightarrow> ('c, 'a) act" where
  "settled m = (\<lambda>c. catchP (m c) (\<lambda>e. Ret (Inl e, c)))"

definition doneA :: "'a \<Rightarrow> ('c, 'a) act" where
  "doneA a = (\<lambda>c. Ret (Inr a, c))"

definition raiseA :: "js_error \<Rightarrow> ('c, 'a) act" where
  "raiseA e = (\<lambda>c. Ret (Inl e, c))"

definition liftA :: "'a prog \<Rightarrow> ('c, 'a) act" where
  "liftA p = (\<lambda>c. bindP p (\<lambda>a. Ret (Inr a, c)))"

definition readA :: "('c \<Rightarrow> 'a) \<Rightarrow> ('c, 'a) act" where
  "readA f = (\<lambda>c. Ret (Inr (f c), c))"

definition writeA :: "('c \<Rightarrow> 'c) \<Rightarrow> ('c, unit) act" where
  "writeA f = (\<lambda>c. Ret (Inr (), f c))"

definition bindA :: "('c, 'a) act \<Rightarrow> ('a \<Rightarrow> ('c, 'b) act) \<Rightarrow> ('c, 'b) act" where
  "bindA m f = (\<lambda>c. bindP (settled m c) (\<lambda>(r, c'). case r of
     Inl e \<Rightarrow> Ret (Inl e, c')
   | Inr a \<Rightarrow> settled (f a) c'))"

definition catchA :: "('c, 'a) act \<Rightarrow> (js_error \<Rightarrow> ('c, 'a) act) \<Rightarrow> ('c, 'a) act" where
  "catchA m h = (\<lambda>c. bindP (settled m c) (\<lambda>(r, c'). case r of
     Inl e \<Rightarrow> settled (h e) c'
   | Inr a \<Rightarrow> Ret (Inr a, c')))"

definition seqA :: "('c, 'a) act \<Rightarrow> ('c, 'b) act \<Rightarrow> ('c, 'b) act" where
  "seqA m m' = bindA m (\<lambda>_. m')"

definition whenA :: "bool \<Rightarrow> ('c, unit) act \<Rightarrow> ('c, unit) act" where
  "whenA b m = (if b then m else doneA ())"

primrec foldA :: "('b \<Rightarrow> 'a \<Rightarrow> ('c, 'b) act) \<Rightarrow> 'b \<Rightarrow> 'a list \<Rightarrow> ('c, 'b) act" where
  "foldA f acc [] = doneA acc"
| "foldA f acc (x # xs) = bindA (f acc x) (\<lambda>acc'. foldA f acc' xs)"

text \<open>The value of a checked computation, or its exception.\<close>

definition checkedA :: "js_error + 'a \<Rightarrow> ('c, 'a) act" where
  "checkedA r = (case r of Inl e \<Rightarrow> raiseA e | Inr a \<Rightarrow> doneA a)"


section \<open>Weakest preconditions of actions\<close>

definition wpA :: "(cmd \<Rightarrow> 's \<Rightarrow> answer \<times> 's) \<Rightarrow> ('c, 'a) act \<Rightarrow> ('a \<Rightarrow> 'c \<Rightarrow> 's config \<Rightarrow> bool)
    \<Rightarrow> (js_error \<Rightarrow> 'c \<Rightarrow> 's config \<Rightarrow> bool) \<Rightarrow> 'c \<Rightarrow> 's config \<Rightarrow> bool" where
  "wpA exec m Q E c \<sigma> =
     wp exec (m c) (\<lambda>(r, c') \<sigma>'. case r of Inl e \<Rightarrow> E e c' \<sigma>' | Inr a \<Rightarrow> Q a c' \<sigma>') (\<lambda>e. E e c) \<sigma>"

lemma wp_settled: "wp exec (settled m c) Q E \<sigma> = wp exec (m c) Q (\<lambda>e. Q (Inl e, c)) \<sigma>"
  by (simp add: settled_def)

lemma wpA_settled [simp]: "wpA exec (settled m) Q E = wpA exec m Q E"
  by (simp add: wpA_def wp_settled fun_eq_iff)

lemma wpA_doneA [simp]: "wpA exec (doneA a) Q E = Q a"
  by (simp add: wpA_def doneA_def fun_eq_iff)

lemma wpA_raiseA [simp]: "wpA exec (raiseA e) Q E = E e"
  by (simp add: wpA_def raiseA_def fun_eq_iff)

lemma wpA_readA [simp]: "wpA exec (readA f) Q E = (\<lambda>c. Q (f c) c)"
  by (simp add: wpA_def readA_def fun_eq_iff)

lemma wpA_writeA [simp]: "wpA exec (writeA f) Q E = (\<lambda>c. Q () (f c))"
  by (simp add: wpA_def writeA_def fun_eq_iff)

lemma wpA_liftA [simp]: "wpA exec (liftA p) Q E = (\<lambda>c. wp exec p (\<lambda>a. Q a c) (\<lambda>e. E e c))"
  by (simp add: wpA_def liftA_def fun_eq_iff)

lemma wp_eqI: "(\<And>a \<sigma>'. Q a \<sigma>' = Q' a \<sigma>') \<Longrightarrow> (\<And>e \<sigma>'. E e \<sigma>' = E' e \<sigma>') \<Longrightarrow> wp exec p Q E \<sigma> = wp exec p Q' E' \<sigma>"
  by (auto simp: wp_def split: prod.splits sum.splits)

lemma wpA_bindA [simp]: "wpA exec (bindA m f) Q E = wpA exec m (\<lambda>a. wpA exec (f a) Q E) E"
proof (intro ext)
  fix c \<sigma>
  show "wpA exec (bindA m f) Q E c \<sigma> = wpA exec m (\<lambda>a. wpA exec (f a) Q E) E c \<sigma>"
    unfolding wpA_def bindA_def wp_bindP wp_settled
    by (rule wp_eqI) (auto simp: wp_settled split: sum.splits)
qed

lemma wpA_catchA [simp]: "wpA exec (catchA m h) Q E = wpA exec m Q (\<lambda>e. wpA exec (h e) Q E)"
proof (intro ext)
  fix c \<sigma>
  show "wpA exec (catchA m h) Q E c \<sigma> = wpA exec m Q (\<lambda>e. wpA exec (h e) Q E) c \<sigma>"
    unfolding wpA_def catchA_def wp_bindP wp_settled
    by (rule wp_eqI) (auto simp: wp_settled split: sum.splits)
qed

lemma wpA_seqA [simp]: "wpA exec (seqA m m') Q E = wpA exec m (\<lambda>_. wpA exec m' Q E) E"
  by (simp add: seqA_def)

lemma wpA_whenA [simp]: "wpA exec (whenA b m) Q E = (if b then wpA exec m Q E else Q ())"
  by (simp add: whenA_def)

lemma wpA_checkedA [simp]: "wpA exec (checkedA r) Q E = (case r of Inl e \<Rightarrow> E e | Inr a \<Rightarrow> Q a)"
  by (simp add: checkedA_def split: sum.splits)

lemma wpA_mono:
  assumes "wpA exec m Q E c \<sigma>" and "\<And>a c' \<sigma>'. Q a c' \<sigma>' \<Longrightarrow> Q' a c' \<sigma>'" and "\<And>e c' \<sigma>'. E e c' \<sigma>' \<Longrightarrow> E' e c' \<sigma>'"
  shows "wpA exec m Q' E' c \<sigma>"
  using assms(1) unfolding wpA_def by (rule wp_mono) (auto intro: assms(2,3) split: sum.splits)

text \<open>A caught action never raises.\<close>

lemma wpA_caught:
  "(\<And>a c' \<sigma>'. Q a c' \<sigma>') \<Longrightarrow> wpA exec (catchA m (\<lambda>_. doneA d)) Q E c \<sigma>"
  unfolding wpA_catchA wpA_doneA by (auto simp: wpA_def wp_def split: prod.splits sum.splits)

lemma wpA_foldA_inv:
  assumes "\<And>ys x zs acc c' \<sigma>'. xs = ys @ x # zs \<Longrightarrow> I ys acc c' \<sigma>' \<Longrightarrow>
      wpA exec (f acc x) (\<lambda>acc'. I (ys @ [x]) acc') E c' \<sigma>'"
    and "I [] a c \<sigma>"
  shows "wpA exec (foldA f a xs) (\<lambda>acc. I xs acc) E c \<sigma>"
proof -
  have "wpA exec (foldA f acc zs) (\<lambda>acc. I (ys @ zs) acc) E c' \<sigma>'"
    if "xs = ys @ zs" "I ys acc c' \<sigma>'" for ys zs acc c' \<sigma>'
    using that
  proof (induction zs arbitrary: ys acc c' \<sigma>')
    case (Cons x zs)
    have "wpA exec (f acc x) (\<lambda>acc'. I (ys @ [x]) acc') E c' \<sigma>'"
      using assms(1) Cons.prems by blast
    then have "wpA exec (f acc x) (\<lambda>acc'. wpA exec (foldA f acc' zs) (\<lambda>acc. I ((ys @ [x]) @ zs) acc) E) E c' \<sigma>'"
      by (rule wpA_mono) (use Cons.IH [of "ys @ [x]"] Cons.prems(1) in auto)
    then show ?case by simp
  qed simp
  from this [of "[]" xs a c \<sigma>] assms(2) show ?thesis by simp
qed

text \<open>The run of an action, and what a weakest precondition says about it.\<close>

definition act_run :: "(cmd \<Rightarrow> 's \<Rightarrow> answer \<times> 's) \<Rightarrow> ('c, 'a) act \<Rightarrow> 'c \<Rightarrow> 's \<Rightarrow> ((js_error + 'a) \<times> 'c) \<times> 's config" where
  "act_run exec m c s = (case run exec (settled m c) (s, []) of
     (Inr rc, \<sigma>) \<Rightarrow> (rc, \<sigma>)
   | (Inl e, \<sigma>) \<Rightarrow> ((Inl e, c), \<sigma>))"

lemma act_run_wpA:
  assumes "wpA exec m Q E c (s, [])"
  shows "case act_run exec m c s of ((r, c'), \<sigma>') \<Rightarrow> (case r of Inl e \<Rightarrow> E e c' \<sigma>' | Inr a \<Rightarrow> Q a c' \<sigma>')"
proof -
  have "wp exec (settled m c) (\<lambda>(r, c') \<sigma>'. case r of Inl e \<Rightarrow> E e c' \<sigma>' | Inr a \<Rightarrow> Q a c' \<sigma>') (\<lambda>_ _. False) (s, [])"
    using assms by (simp add: wp_settled wpA_def)
  then show ?thesis
    by (auto simp: act_run_def wp_def split: prod.splits sum.splits)
qed

lemma act_run_total:
  assumes "wpA exec m Q (\<lambda>_ _ _. False) c (s, [])"
  obtains a c' s' l where "act_run exec m c s = ((Inr a, c'), (s', l))" "Q a c' (s', l)"
proof -
  obtain r c' s' l where run: "act_run exec m c s = ((r, c'), (s', l))"
    by (cases "act_run exec m c s") auto
  then show ?thesis
    using act_run_wpA [OF assms] that by (cases r) auto
qed

end
