(* ===== verification/Results.thy ===== *)
theory Results
  imports Protocol
begin

text \<open>
  What a handler returns and what the worker makes of it
  (src/protocol/results.ts), and how an error prints. A handler may return any
  JavaScript value; `js_value` has the ones the code tells apart, with the type
  name of anything else (a Date, a function, an instance of a class).
\<close>


section \<open>Errors as text\<close>

text \<open>
  `error.name` and `error.message`. A TypeError or SyntaxError the engine raises
  itself carries a message of the engine's, which is left empty here.
\<close>

definition error_name :: "js_error \<Rightarrow> string" where
  "error_name e = (case e of
     RedisError _ \<Rightarrow> ''ReplyError''
   | TypeError \<Rightarrow> ''TypeError''
   | TypeErrorOf _ \<Rightarrow> ''TypeError''
   | SyntaxError \<Rightarrow> ''SyntaxError''
   | JsError _ \<Rightarrow> ''Error''
   | TaskCancelledError _ \<Rightarrow> ''TaskCancelledError''
   | WaitIndexMemberError _ _ \<Rightarrow> ''WaitIndexMemberError''
   | HeartbeatConfigError _ \<Rightarrow> ''HeartbeatConfigError''
   | WorkerRegistryNotSetError _ \<Rightarrow> ''WorkerRegistryNotSetError''
   | ExecutionNotFoundError _ \<Rightarrow> ''ExecutionNotFoundError'')"

definition error_message :: "js_error \<Rightarrow> string" where
  "error_message e = (case e of
     RedisError m \<Rightarrow> m
   | TypeError \<Rightarrow> []
   | TypeErrorOf m \<Rightarrow> m
   | SyntaxError \<Rightarrow> []
   | JsError m \<Rightarrow> m
   | TaskCancelledError m \<Rightarrow> m
   | WaitIndexMemberError member reason \<Rightarrow>
       ''Invalid wait-index member ('' @ reason @ ''): '' @ json_stringify (JStr member)
   | HeartbeatConfigError m \<Rightarrow> m
   | WorkerRegistryNotSetError op \<Rightarrow> ''GatewayClient requires a WorkerRegistry to '' @ op
   | ExecutionNotFoundError x \<Rightarrow> ''Execution not found: '' @ x)"

text \<open>`String(error)`.\<close>

definition error_String :: "js_error \<Rightarrow> string" where
  "error_String e = (if error_message e = [] then error_name e else error_name e @ '': '' @ error_message e)"


section \<open>Values of a handler\<close>

datatype js_value =
    VUndefined
  | VNull
  | VBool bool
  | VNum int
  | VDec string
  | VStr string
  | VArr "js_value list"
  | VObj "(string \<times> js_value) list"
  | VOther string

definition typeName :: "js_value \<Rightarrow> string" where
  "typeName v = (case v of
     VUndefined \<Rightarrow> ''undefined''
   | VNull \<Rightarrow> ''null''
   | VBool _ \<Rightarrow> ''boolean''
   | VNum _ \<Rightarrow> ''number''
   | VDec _ \<Rightarrow> ''number''
   | VStr _ \<Rightarrow> ''string''
   | VArr _ \<Rightarrow> ''Array''
   | VObj _ \<Rightarrow> ''Object''
   | VOther t \<Rightarrow> t)"

definition unserializable :: "js_value \<Rightarrow> string \<Rightarrow> js_error" where
  "unserializable v path = TypeErrorOf (''processCommand return value must be JSON serializable; got ''
     @ typeName v @ '' at '' @ path)"

text \<open>The elements and the properties are visited in order; the first that is not JSON decides.\<close>

fun ensureJsonSerializable :: "js_value \<Rightarrow> string \<Rightarrow> js_error + json"
  and ensure_items :: "js_value list \<Rightarrow> nat \<Rightarrow> string \<Rightarrow> js_error + json list"
  and ensure_fields :: "(string \<times> js_value) list \<Rightarrow> string \<Rightarrow> js_error + jobj" where
  "ensureJsonSerializable VNull path = Inr JNull"
| "ensureJsonSerializable (VBool b) path = Inr (JBool b)"
| "ensureJsonSerializable (VNum n) path = Inr (JNum n)"
| "ensureJsonSerializable (VDec l) path = Inr (JDec l)"
| "ensureJsonSerializable (VStr s) path = Inr (JStr s)"
| "ensureJsonSerializable (VArr vs) path = map_sum id JArr (ensure_items vs 0 path)"
| "ensureJsonSerializable (VObj ps) path = map_sum id JObj (ensure_fields ps path)"
| "ensureJsonSerializable VUndefined path = Inl (unserializable VUndefined path)"
| "ensureJsonSerializable (VOther t) path = Inl (unserializable (VOther t) path)"
| "ensure_items [] i path = Inr []"
| "ensure_items (v # vs) i path =
     (case ensureJsonSerializable v (path @ ''['' @ nat_str i @ '']'') of
        Inl e \<Rightarrow> Inl e
      | Inr x \<Rightarrow> map_sum id (Cons x) (ensure_items vs (Suc i) path))"
| "ensure_fields [] path = Inr []"
| "ensure_fields ((k, v) # ps) path =
     (case ensureJsonSerializable v (path @ ''.'' @ k) of
        Inl e \<Rightarrow> Inl e
      | Inr x \<Rightarrow> map_sum id (Cons (k, x)) (ensure_fields ps path))"

definition isPlainRecord :: "json \<Rightarrow> bool" where
  "isPlainRecord v = (case v of JObj _ \<Rightarrow> True | _ \<Rightarrow> False)"

definition bad_content :: "js_value \<Rightarrow> string \<Rightarrow> js_error" where
  "bad_content v path = TypeErrorOf (''processCommand return content must be a string or array of records; got ''
     @ typeName v @ '' at '' @ path)"

definition ensureWireContent :: "js_value \<Rightarrow> string \<Rightarrow> js_error + json" where
  "ensureWireContent v path = (case v of
     VStr s \<Rightarrow> Inr (JStr s)
   | VArr vs \<Rightarrow> (case ensureJsonSerializable v path of
         Inl e \<Rightarrow> Inl e
       | Inr (JArr xs) \<Rightarrow> if list_all isPlainRecord xs then Inr (JArr xs) else Inl (bad_content v path)
       | Inr _ \<Rightarrow> Inl (bad_content v path))
   | _ \<Rightarrow> Inl (bad_content v path))"

definition ensureJsonObject :: "js_value \<Rightarrow> string \<Rightarrow> js_error + jobj" where
  "ensureJsonObject v path = (case ensureJsonSerializable v path of
     Inl e \<Rightarrow> Inl e
   | Inr (JObj ps) \<Rightarrow> Inr ps
   | Inr _ \<Rightarrow> Inl (TypeErrorOf (''processCommand return metadata fields must be JSON objects; got ''
       @ typeName v @ '' at '' @ path)))"


section \<open>Results\<close>

record task_result =
  tr_status :: string
  tr_content :: json
  tr_replyData :: json
  tr_metadata :: jobj
  tr_extraPayload :: jobj
  tr_finalAnswer :: string

text \<open>`new AgentTaskResult` with the defaults of the omitted options.\<close>

definition AgentTaskResult :: "string option \<Rightarrow> json \<Rightarrow> json \<Rightarrow> jobj \<Rightarrow> jobj \<Rightarrow> task_result" where
  "AgentTaskResult st ct rd md xp = \<lparr>tr_status = (case st of None \<Rightarrow> COMPLETED | Some s \<Rightarrow> s), tr_content = ct,
     tr_replyData = rd, tr_metadata = md, tr_extraPayload = xp, tr_finalAnswer = []\<rparr>"

definition status_result :: "string \<Rightarrow> task_result" where
  "status_result st = AgentTaskResult (Some st) (JStr []) JNull [] []"

text \<open>
  What `processCommand` resolves to: an `AgentTaskResult`, whose fields
  TypeScript does not check at run time, or any other value.
\<close>

record raw_result =
  rr_status :: string
  rr_content :: js_value
  rr_replyData :: js_value
  rr_metadata :: js_value
  rr_extraPayload :: js_value

datatype handler_result = TaskResult raw_result | Value js_value

definition RESULT_FIELDS :: "string list" where
  "RESULT_FIELDS = [''status'', ''content'', ''replyData'', ''reply_data'', ''metadata'', ''extraPayload'',
     ''extra_payload'', ''finalAnswer'', ''final_answer'']"

text \<open>`a ?? b` on values, and the property of a record that may lack it.\<close>

definition v_or :: "js_value \<Rightarrow> js_value \<Rightarrow> js_value" where
  "v_or a b = (if a = VUndefined \<or> a = VNull then b else a)"

definition vget :: "(string \<times> js_value) list \<Rightarrow> string \<Rightarrow> js_value" where
  "vget ps k = (case map_of ps k of None \<Rightarrow> VUndefined | Some v \<Rightarrow> v)"

definition vhas :: "(string \<times> js_value) list \<Rightarrow> string \<Rightarrow> bool" where
  "vhas ps k = (k \<in> fst ` set ps)"

definition isStructured :: "(string \<times> js_value) list \<Rightarrow> bool" where
  "isStructured ps =
     (vhas ps ''replyData'' \<or> vhas ps ''reply_data'' \<or> vhas ps ''content'' \<or> vhas ps ''finalAnswer''
      \<or> vhas ps ''final_answer'' \<or> (ps \<noteq> [] \<and> list_all (\<lambda>p. fst p \<in> set RESULT_FIELDS) ps))"

definition result_status :: "(string \<times> js_value) list \<Rightarrow> string" where
  "result_status ps = (case vget ps ''status'' of VStr s \<Rightarrow> s | _ \<Rightarrow> COMPLETED)"

definition checked_result :: "string \<Rightarrow> js_error + json \<Rightarrow> js_error + json \<Rightarrow> js_error + jobj \<Rightarrow> js_error + jobj
    \<Rightarrow> js_error + task_result" where
  "checked_result st ct rd md xp =
     (case ct of Inl e \<Rightarrow> Inl e | Inr c \<Rightarrow>
     (case rd of Inl e \<Rightarrow> Inl e | Inr r \<Rightarrow>
     (case md of Inl e \<Rightarrow> Inl e | Inr m \<Rightarrow>
     (case xp of Inl e \<Rightarrow> Inl e | Inr x \<Rightarrow> Inr (AgentTaskResult (Some st) c r m x)))))"

definition normalize_record :: "(string \<times> js_value) list \<Rightarrow> js_error + task_result" where
  "normalize_record ps =
     (case (if vhas ps ''metadata'' then ensureJsonObject (vget ps ''metadata'') ''metadata'' else Inr []) of
        Inl e \<Rightarrow> Inl e
      | Inr md \<Rightarrow>
          if isStructured ps
          then checked_result (result_status ps)
            (ensureWireContent (v_or (v_or (v_or (vget ps ''content'') (vget ps ''finalAnswer''))
               (vget ps ''final_answer'')) (VStr [])) ''content'')
            (ensureJsonSerializable (v_or (v_or (vget ps ''replyData'') (vget ps ''reply_data'')) VNull) ''replyData'')
            (Inr md)
            (ensureJsonObject (v_or (v_or (vget ps ''extraPayload'') (vget ps ''extra_payload'')) (VObj [])) ''extraPayload'')
          else checked_result (result_status ps) (Inr (JStr []))
            (ensureJsonSerializable (VObj ps) ''replyData'') (Inr md) (Inr []))"

definition agent_states :: "string list" where
  "agent_states = [STARTING, CANCELLING, CANCELLED, COMPLETED, FAILED, RESUMED, WAITING_AGENT, WAITING_USER,
     QUEUED, CALLING_AGENT]"

definition normalizeProcessResult :: "handler_result \<Rightarrow> js_error + task_result" where
  "normalizeProcessResult res = (case res of
     TaskResult r \<Rightarrow> checked_result (rr_status r) (ensureWireContent (rr_content r) ''content'')
       (ensureJsonSerializable (rr_replyData r) ''replyData'') (ensureJsonObject (rr_metadata r) ''metadata'')
       (ensureJsonObject (rr_extraPayload r) ''extraPayload'')
   | Value (VStr s) \<Rightarrow>
       if s \<in> set agent_states then Inr (status_result s)
       else checked_result COMPLETED (Inr (JStr [])) (ensureJsonSerializable (VStr s) ''replyData'') (Inr []) (Inr [])
   | Value (VObj ps) \<Rightarrow> normalize_record ps
   | Value v \<Rightarrow> checked_result COMPLETED (Inr (JStr [])) (ensureJsonSerializable v ''replyData'') (Inr []) (Inr []))"



section \<open>What passes\<close>

text \<open>A JSON value as the JavaScript value it is.\<close>

primrec js_of :: "json \<Rightarrow> js_value" where
  "js_of JNull = VNull"
| "js_of (JBool b) = VBool b"
| "js_of (JNum n) = VNum n"
| "js_of (JDec l) = VDec l"
| "js_of (JStr s) = VStr s"
| "js_of (JArr vs) = VArr (List.map js_of vs)"
| "js_of (JObj ps) = VObj (List.map (map_prod id js_of) ps)"

lemma map_sum_Inr: "map_sum id f r = Inr y \<longleftrightarrow> (\<exists>x. r = Inr x \<and> y = f x)"
  by (cases r) auto

lemma map_sum_Inl: "map_sum f g r = Inl y \<longleftrightarrow> (\<exists>x. r = Inl x \<and> y = f x)"
  by (cases r) auto

lemma serializable_embeds:
  "ensureJsonSerializable (js_of j) path = Inr j"
proof (induction j arbitrary: path)
  case (JArr vs)
  have "ensure_items (List.map js_of vs) i path = Inr vs" if "\<And>v path. v \<in> set vs \<Longrightarrow> ensureJsonSerializable (js_of v) path = Inr v" for vs i
    using that by (induction vs arbitrary: i) auto
  then show ?case using JArr by simp
next
  case (JObj ps)
  have "ensure_fields (List.map (map_prod id js_of) ps) path = Inr ps"
    if "\<And>k v path. (k, v) \<in> set ps \<Longrightarrow> ensureJsonSerializable (js_of v) path = Inr v" for ps
    using that
  proof (induction ps)
    case (Cons q ps)
    obtain k v where q: "q = (k, v)" by (cases q)
    have "ensureJsonSerializable (js_of v) p = Inr v" for p
      using Cons.prems [of k v] by (simp add: q)
    moreover have "ensure_fields (List.map (map_prod id js_of) ps) path = Inr ps"
      using Cons.prems by (intro Cons.IH) (meson list.set_intros(2))
    ultimately show ?case by (simp add: q id_def)
  qed simp
  moreover have "ensureJsonSerializable (js_of v) path = Inr v" if "(k, v) \<in> set ps" for k v path
    using JObj that by (auto simp: snds.simps)
  ultimately show ?case by simp
qed simp_all

lemma serializable_only:
  "ensureJsonSerializable v path = Inr j \<Longrightarrow> v = js_of j"
  "ensure_items vs i path = Inr js \<Longrightarrow> vs = List.map js_of js"
  "ensure_fields ps path = Inr qs \<Longrightarrow> ps = List.map (map_prod id js_of) qs"
proof (induction v path and vs i path and ps path arbitrary: j and js and qs
    rule: ensureJsonSerializable_ensure_items_ensure_fields.induct)
qed (auto simp: map_sum_Inr split: sum.splits)

lemma serializable_iff: "ensureJsonSerializable v path = Inr j \<longleftrightarrow> v = js_of j"
  using serializable_embeds serializable_only(1) by blast

lemma js_of_inj: "js_of i = js_of j \<longleftrightarrow> i = j"
  using serializable_iff [of "js_of i" "[]" i] serializable_iff [of "js_of i" "[]" j] by auto

text \<open>The error every return_refusal is: a TypeError whose text begins the same.\<close>

definition return_refusal :: "js_error \<Rightarrow> bool" where
  "return_refusal e \<longleftrightarrow> (\<exists>m. e = TypeErrorOf (''processCommand return '' @ m))"

lemma serializable_refuses:
  "ensureJsonSerializable v path = Inl e \<Longrightarrow> return_refusal e"
  "ensure_items vs i path = Inl e \<Longrightarrow> return_refusal e"
  "ensure_fields ps path = Inl e \<Longrightarrow> return_refusal e"
proof (induction v path and vs i path and ps path
    rule: ensureJsonSerializable_ensure_items_ensure_fields.induct)
qed (auto simp: map_sum_Inl unserializable_def return_refusal_def split: sum.splits)

lemma object_iff: "ensureJsonObject v path = Inr ps \<longleftrightarrow> v = js_of (JObj ps)"
  using serializable_iff [of v path]
  by (auto simp: ensureJsonObject_def serializable_embeds js_of_inj simp del: js_of.simps split: sum.splits json.splits)

lemma object_refuses: "ensureJsonObject v path = Inl e \<Longrightarrow> return_refusal e"
  by (auto simp: ensureJsonObject_def return_refusal_def split: sum.splits json.splits dest!: serializable_refuses(1))

text \<open>Content on the wire: text, or an array of records.\<close>

definition wire_form :: "json \<Rightarrow> bool" where
  "wire_form c \<longleftrightarrow> (\<exists>s. c = JStr s) \<or> (\<exists>pss. c = JArr (List.map JObj pss))"

lemma all_records: "list_all isPlainRecord xs \<longleftrightarrow> (\<exists>pss. xs = List.map JObj pss)"
proof (induction xs)
  case (Cons x xs)
  have "isPlainRecord x \<longleftrightarrow> (\<exists>ps. x = JObj ps)" by (auto simp: isPlainRecord_def split: json.splits)
  with Cons show ?case by (auto simp: Cons_eq_map_conv)
qed simp

lemma wire_iff: "ensureWireContent v path = Inr c \<longleftrightarrow> v = js_of c \<and> wire_form c"
proof (cases "\<exists>vs. v = VArr vs")
  case True
  then obtain vs where v: "v = VArr vs" by blast
  show ?thesis
  proof (cases "ensureJsonSerializable v path")
    case (Inl e)
    then show ?thesis using serializable_iff [of v path c] by (simp add: ensureWireContent_def v)
  next
    case (Inr j)
    then have j: "v = js_of j" "v = js_of c \<longleftrightarrow> j = c" using serializable_iff [of v path] js_of_inj by auto
    then obtain xs where "j = JArr xs" using v by (cases j) auto
    then show ?thesis using Inr j v all_records [of xs] by (auto simp: ensureWireContent_def wire_form_def)
  qed
next
  case False
  then show ?thesis by (cases v; cases c) (auto simp: ensureWireContent_def wire_form_def)
qed

lemma wire_refuses: "ensureWireContent v path = Inl e \<Longrightarrow> return_refusal e"
  by (auto simp: ensureWireContent_def bad_content_def return_refusal_def split: js_value.splits sum.splits json.splits if_splits
      dest!: serializable_refuses(1) simp del: ensureJsonSerializable.simps)

lemma checked_iff:
  "checked_result st ct rd md xp = Inr r \<longleftrightarrow> (\<exists>c d m x. ct = Inr c \<and> rd = Inr d \<and> md = Inr m \<and> xp = Inr x
     \<and> r = AgentTaskResult (Some st) c d m x)"
  by (auto simp: checked_result_def split: sum.splits)

lemma checked_refuses:
  "checked_result st ct rd md xp = Inl e \<Longrightarrow> (\<And>e. ct = Inl e \<Longrightarrow> return_refusal e) \<Longrightarrow> (\<And>e. rd = Inl e \<Longrightarrow> return_refusal e)
     \<Longrightarrow> (\<And>e. md = Inl e \<Longrightarrow> return_refusal e) \<Longrightarrow> (\<And>e. xp = Inl e \<Longrightarrow> return_refusal e) \<Longrightarrow> return_refusal e"
  by (auto simp: checked_result_def split: sum.splits)

text \<open>
  What a returned value means as a task result. The first of some properties that is
  given counts, `undefined` and `null` not being given; what a part is
  worth is the JSON value it is.
\<close>

definition first_given :: "js_value list \<Rightarrow> js_value \<Rightarrow> js_value" where
  "first_given vs d = (case filter (\<lambda>v. v \<noteq> VUndefined \<and> v \<noteq> VNull) vs of [] \<Rightarrow> d | v # _ \<Rightarrow> v)"

definition declared_metadata :: "(string \<times> js_value) list \<Rightarrow> js_value" where
  "declared_metadata ps = (if vhas ps ''metadata'' then vget ps ''metadata'' else VObj [])"

definition has_parts :: "task_result \<Rightarrow> string \<Rightarrow> js_value \<Rightarrow> js_value \<Rightarrow> js_value \<Rightarrow> js_value \<Rightarrow> bool" where
  "has_parts r st ct rd md xp \<longleftrightarrow> tr_status r = st \<and> ct = js_of (tr_content r) \<and> wire_form (tr_content r) \<and> rd = js_of (tr_replyData r)
     \<and> md = js_of (JObj (tr_metadata r)) \<and> xp = js_of (JObj (tr_extraPayload r)) \<and> tr_finalAnswer r = []"

definition means_result :: "handler_result \<Rightarrow> task_result \<Rightarrow> bool" where
  "means_result res r \<longleftrightarrow> (case res of
     TaskResult raw \<Rightarrow> has_parts r (rr_status raw) (rr_content raw) (rr_replyData raw) (rr_metadata raw) (rr_extraPayload raw)
   | Value v \<Rightarrow> (case v of
       VObj ps \<Rightarrow>
         if isStructured ps
         then has_parts r (result_status ps)
           (first_given [vget ps ''content'', vget ps ''finalAnswer'', vget ps ''final_answer''] (VStr []))
           (first_given [vget ps ''replyData'', vget ps ''reply_data''] VNull) (declared_metadata ps)
           (first_given [vget ps ''extraPayload'', vget ps ''extra_payload''] (VObj []))
         else has_parts r (result_status ps) (VStr []) v (declared_metadata ps) (VObj [])
     | _ \<Rightarrow> if \<exists>s \<in> set agent_states. v = VStr s then (\<exists>s. v = VStr s \<and> has_parts r s (VStr []) VNull (VObj []) (VObj []))
         else has_parts r COMPLETED (VStr []) v (VObj []) (VObj [])))"

lemma has_parts_iff:
  "checked_result st (ensureWireContent ct p1) (ensureJsonSerializable rd p2) (ensureJsonObject md p3) (ensureJsonObject xp p4) = Inr r
     \<longleftrightarrow> has_parts r st ct rd md xp"
  unfolding checked_iff wire_iff serializable_iff object_iff has_parts_def
  by (cases r) (auto simp: AgentTaskResult_def simp del: js_of.simps)

lemma fixed_parts:
  "ensureWireContent (VStr s) p = Inr (JStr s)" "ensureJsonObject (VObj []) p = Inr []" "ensureJsonSerializable VNull p = Inr JNull"
  by (simp_all add: ensureWireContent_def ensureJsonObject_def id_def)

lemma v_or_first: "v_or (v_or (v_or a b) c) d = first_given [a, b, c] d" "v_or (v_or a b) d = first_given [a, b] d"
  by (auto simp: v_or_def first_given_def)

lemma normalize_record_eq: "normalize_record ps =
    (case ensureJsonObject (declared_metadata ps) ''metadata'' of Inl e \<Rightarrow> Inl e | Inr _ \<Rightarrow>
     if isStructured ps
     then checked_result (result_status ps)
       (ensureWireContent (first_given [vget ps ''content'', vget ps ''finalAnswer'', vget ps ''final_answer''] (VStr [])) ''content'')
       (ensureJsonSerializable (first_given [vget ps ''replyData'', vget ps ''reply_data''] VNull) ''replyData'')
       (ensureJsonObject (declared_metadata ps) ''metadata'')
       (ensureJsonObject (first_given [vget ps ''extraPayload'', vget ps ''extra_payload''] (VObj [])) ''extraPayload'')
     else checked_result (result_status ps) (ensureWireContent (VStr []) [])
       (ensureJsonSerializable (VObj ps) ''replyData'') (ensureJsonObject (declared_metadata ps) ''metadata'') (ensureJsonObject (VObj []) []))"
proof -
  have "(if vhas ps ''metadata'' then ensureJsonObject (vget ps ''metadata'') ''metadata'' else Inr []) = ensureJsonObject (declared_metadata ps) ''metadata''"
    by (simp add: declared_metadata_def fixed_parts)
  then show ?thesis
    unfolding normalize_record_def v_or_first(1) unfolding v_or_first(2) fixed_parts by (simp split: sum.splits)
qed

lemma record_means: "normalize_record ps = Inr r \<longleftrightarrow> means_result (Value (VObj ps)) r"
  and record_refuses: "normalize_record ps = Inl e \<Longrightarrow> return_refusal e"
proof -
  show "normalize_record ps = Inr r \<longleftrightarrow> means_result (Value (VObj ps)) r"
  proof (cases "ensureJsonObject (declared_metadata ps) ''metadata''")
    case (Inl e)
    then have "\<nexists>m. declared_metadata ps = js_of (JObj m)" using object_iff [of "declared_metadata ps" "''metadata''"] by auto
    then show ?thesis using Inl by (simp add: normalize_record_eq means_result_def has_parts_def del: js_of.simps)
  next
    case (Inr m)
    then have "normalize_record ps = (if isStructured ps
       then checked_result (result_status ps)
         (ensureWireContent (first_given [vget ps ''content'', vget ps ''finalAnswer'', vget ps ''final_answer''] (VStr [])) ''content'')
         (ensureJsonSerializable (first_given [vget ps ''replyData'', vget ps ''reply_data''] VNull) ''replyData'')
         (ensureJsonObject (declared_metadata ps) ''metadata'')
         (ensureJsonObject (first_given [vget ps ''extraPayload'', vget ps ''extra_payload''] (VObj [])) ''extraPayload'')
       else checked_result (result_status ps) (ensureWireContent (VStr []) [])
         (ensureJsonSerializable (VObj ps) ''replyData'') (ensureJsonObject (declared_metadata ps) ''metadata'') (ensureJsonObject (VObj []) []))"
      unfolding normalize_record_eq by (simp only: sum.case)
    then show ?thesis
      by (cases "isStructured ps") (simp_all only: means_result_def handler_result.case js_value.case if_True if_False has_parts_iff)
  qed
  show "normalize_record ps = Inl e \<Longrightarrow> return_refusal e"
    unfolding normalize_record_eq
    by (auto split: sum.splits if_splits elim!: checked_refuses intro: wire_refuses serializable_refuses(1) object_refuses
        simp del: ensureJsonSerializable.simps)
qed


end
