(* ===== verification/AgentContext.thy ===== *)
theory AgentContext
  imports Actions Results Emitter WaitReply WaitGate Registry
begin

text \<open>
  The context a handler works with (src/context.ts): its state, the events it
  emits, asking the user, the history buffer, cancellation and token counts.
  Dispatching to other agents is in the theory Delegation.

  What the embedding application hands in is a parameter (`host`): the
  plugins, the history storage and the span recorder. The plugin registry
  catches what a plugin throws.
\<close>

definition FINAL_ANSWER :: string where "FINAL_ANSWER = ''finalAnswer''"

text \<open>
  The fields of an `AgentContext`. `ac_aborted` is the state of the cancel
  signal, `ac_signalReason` its reason.
\<close>

record agent_context =
  ac_schema :: key_schema
  ac_session :: string
  ac_trace :: string
  ac_agentType :: string
  ac_message :: string
  ac_command :: "command option"
  ac_aborted :: bool
  ac_signalReason :: string
  ac_cancelReason :: string
  ac_execution :: string
  ac_buffer :: "string list"
  ac_historySaved :: bool
  ac_isSuspended :: bool
  ac_suspendedState :: string
  ac_permissionTransferred :: bool
  ac_pending :: "command list"
  ac_streamFinished :: bool
  ac_finalAnswerEmitted :: bool
  ac_chunkCount :: int
  ac_tokenUsage :: jobj
  ac_observation :: string

definition new_AgentContext :: "key_schema \<Rightarrow> string \<Rightarrow> string \<Rightarrow> string \<Rightarrow> string \<Rightarrow> command option \<Rightarrow> bool \<Rightarrow> string
    \<Rightarrow> string \<Rightarrow> agent_context" where
  "new_AgentContext sch session trace agentType message cmd aborted cancelReason execution =
     \<lparr>ac_schema = sch, ac_session = session, ac_trace = trace, ac_agentType = agentType, ac_message = message,
      ac_command = cmd, ac_aborted = aborted, ac_signalReason = [], ac_cancelReason = cancelReason,
      ac_execution = execution, ac_buffer = [], ac_historySaved = False, ac_isSuspended = False,
      ac_suspendedState = [], ac_permissionTransferred = False, ac_pending = [], ac_streamFinished = False,
      ac_finalAnswerEmitted = False, ac_chunkCount = 0, ac_tokenUsage = [], ac_observation = []\<rparr>"


section \<open>The host\<close>

text \<open>The parameters of `callAgent` the dispatch reads; an omitted one is None.\<close>

record call_params =
  cp_target :: string
  cp_content :: json
  cp_extraPayload :: "jobj option"
  cp_payload :: "jobj option"
  cp_waitForReply :: "bool option"
  cp_metadata :: "jobj option"
  cp_message :: string
  cp_parent :: string
  cp_routePolicy :: "string option"
  cp_availabilityTimeout :: "int option"
  cp_region :: string
  cp_priority :: int
  cp_replyTimeout :: "int option"

record call_result =
  cr_status :: string
  cr_message :: string
  cr_parent :: string
  cr_target :: string
  cr_error :: "string option"
  cr_errorCode :: "string option"

record return_info =
  ri_status :: string
  ri_replyData :: json
  ri_content :: "json option"
  ri_metadata :: "jobj option"
  ri_extraPayload :: "jobj option"

text \<open>What is being called: one agent, or a member of a group.\<close>

datatype call_subject = CallSubject call_params | GroupSubject command

datatype hook =
    OnTaskStart
  | OnTaskComplete handler_result
  | OnTaskError js_error
  | OnCallAgentStart call_subject
  | OnCallAgentComplete call_subject call_result
  | OnCallAgentError call_subject js_error
  | OnAgentReturnStart command return_info
  | OnAgentReturnComplete command return_info
  | OnAgentReturnError command return_info js_error

record trace_span =
  ts_trace :: string
  ts_spanId :: string
  ts_parentSpanId :: string
  ts_operation :: string
  ts_component :: string
  ts_start :: millis
  ts_end :: millis
  ts_status :: string
  ts_session :: string
  ts_execution :: string
  ts_message :: string
  ts_parentMessage :: string
  ts_source :: string
  ts_target :: string
  ts_routePolicy :: string
  ts_routeStatus :: string
  ts_metadata :: jobj
  ts_worker :: string
  ts_chunkCount :: int
  ts_tokens :: jobj

type_synonym 'a ctx_act = "(agent_context, 'a) act"

record host =
  h_plugin :: "hook \<Rightarrow> unit ctx_act"
  h_history :: "string \<Rightarrow> string \<Rightarrow> json \<Rightarrow> jobj \<Rightarrow> unit prog"
  h_span :: "trace_span \<Rightarrow> unit prog"
  h_spanIdHex :: "string \<Rightarrow> string"

text \<open>`executeHook`: the error of a plugin is counted and logged, not passed on.\<close>

definition runHook :: "host \<Rightarrow> hook \<Rightarrow> unit ctx_act" where
  "runHook h k = catchA (h_plugin h k) (\<lambda>_. doneA ())"


section \<open>State\<close>

definition suspend :: "string \<Rightarrow> agent_context \<Rightarrow> agent_context" where
  "suspend state c = c\<lparr>ac_isSuspended := True, ac_suspendedState := state\<rparr>"

definition takePendingGroupReplies :: "command list ctx_act" where
  "takePendingGroupReplies = bindA (readA ac_pending) (\<lambda>pending.
     seqA (writeA (ac_pending_update (\<lambda>_. []))) (doneA pending))"

definition num_field :: "jobj \<Rightarrow> string \<Rightarrow> int" where
  "num_field u k = (case oget u k of Some (JNum n) \<Rightarrow> n | _ \<Rightarrow> 0)"

definition token_usage :: "int \<Rightarrow> int \<Rightarrow> string \<Rightarrow> jobj \<Rightarrow> jobj" where
  "token_usage promptTokens completionTokens model u0 =
     (let u1 = oput ''prompt_tokens'' (JNum (num_field u0 ''prompt_tokens'' + max 0 promptTokens)) u0;
          u2 = oput ''completion_tokens'' (JNum (num_field u1 ''completion_tokens'' + max 0 completionTokens)) u1;
          u3 = oput ''total_tokens'' (JNum (num_field u2 ''prompt_tokens'' + num_field u2 ''completion_tokens'')) u2
      in if model = [] then u3 else oput ''model'' (JStr model) u3)"

definition recordTokenUsage :: "int \<Rightarrow> int \<Rightarrow> string \<Rightarrow> unit ctx_act" where
  "recordTokenUsage promptTokens completionTokens model =
     writeA (ac_tokenUsage_update (token_usage promptTokens completionTokens model))"

definition checkCancelled :: "unit ctx_act" where
  "checkCancelled = bindA (readA id) (\<lambda>c.
     if ac_aborted c
     then raiseA (TaskCancelledError (str_or (str_or (ac_cancelReason c) (ac_signalReason c)) ''task cancelled''))
     else doneA ())"

definition updateExecutionState :: "string \<Rightarrow> unit ctx_act" where
  "updateExecutionState status = bindA (readA id) (\<lambda>c.
     liftA (updateExecutionStatusByMessage (ac_schema c) (ac_message c) (ac_session c) status))"

text \<open>`msg-` with eight characters of a fresh UUID.\<close>

definition generateMessageId :: "string prog" where
  "generateMessageId = bindP uuidP (\<lambda>u. Ret (MESSAGE_ID_PREFIX @ take 8 u))"


section \<open>Events\<close>

definition context_emitter :: emitter where
  "context_emitter = \<lparr>fixedDataStreamName = None, emitterSourceAgentType = []\<rparr>"

definition resolveCurrentParentMessageId :: "agent_context \<Rightarrow> string" where
  "resolveCurrentParentMessageId c =
     (case ac_command c of
        None \<Rightarrow> ''-1''
      | Some cmd \<Rightarrow> str_or (js_trim (parentMessageId (header cmd))) ''-1'')"

definition context_options :: "agent_context \<Rightarrow> string \<Rightarrow> emit_options" where
  "context_options c eventType = no_options\<lparr>eo_source := ac_agentType c, eo_message := ac_message c,
     eo_parent := resolveCurrentParentMessageId c, eo_eventType := eventType\<rparr>"

definition flushToHistory :: "host \<Rightarrow> unit ctx_act" where
  "flushToHistory h = bindA (readA id) (\<lambda>c.
     if ac_historySaved c \<or> ac_buffer c = [] then doneA ()
     else seqA (liftA (h_history h (ac_session c) ''assistant'' (JStr (concat (ac_buffer c)))
            [(''trace_id'', JStr (ac_trace c)), (''agent_id'', JStr (ac_agentType c)),
             (''message_id'', JStr (ac_message c))]))
       (writeA (ac_historySaved_update (\<lambda>_. True))))"

definition chunk_content :: "chunk \<Rightarrow> string" where
  "chunk_content event = (case event of
     ChunkText s \<Rightarrow> s
   | ChunkEvent ct _ _ _ _ \<Rightarrow> (case ct of None \<Rightarrow> [] | Some s \<Rightarrow> s))"

definition count_chunk :: "string \<Rightarrow> agent_context \<Rightarrow> agent_context" where
  "count_chunk ct c = c\<lparr>ac_buffer := (if ct = [] then ac_buffer c else ac_buffer c @ [ct]),
     ac_chunkCount := ac_chunkCount c + 1\<rparr>"

definition context_emitChunk :: "host \<Rightarrow> chunk \<Rightarrow> string \<Rightarrow> unit ctx_act" where
  "context_emitChunk h event eventType =
     seqA (writeA (count_chunk (chunk_content event))) (bindA (readA id) (\<lambda>c.
     seqA (liftA (emitChunk (ac_schema c) context_emitter (ac_session c) (ac_trace c) event (context_options c eventType)))
       (whenA (eventType = APP_STREAM_RESPONSE)
         (seqA (writeA (ac_streamFinished_update (\<lambda>_. True))) (flushToHistory h)))))"

definition context_emitState :: "state_event \<Rightarrow> string \<Rightarrow> unit ctx_act" where
  "context_emitState event eventType = bindA (readA id) (\<lambda>c.
     liftA (emitState (ac_schema c) context_emitter (ac_session c) (ac_trace c) event (context_options c eventType)))"

definition context_emitArtifact :: "state_event \<Rightarrow> string \<Rightarrow> unit ctx_act" where
  "context_emitArtifact event eventType = bindA (readA id) (\<lambda>c.
     liftA (emitArtifact (ac_schema c) context_emitter (ac_session c) (ac_trace c) event (context_options c eventType)))"

text \<open>The wait is registered before the prompt goes out; the context suspends after it.\<close>

definition ask_user_wait :: "agent_context \<Rightarrow> int option \<Rightarrow> register_wait_params" where
  "ask_user_wait c replyTimeout = \<lparr>rw_session = ac_session c, rw_parent = ac_message c, rw_child = [], rw_group = [],
     rw_timeout = (case replyTimeout of None \<Rightarrow> DEFAULT_ASK_USER_TIMEOUT_MS | Some t \<Rightarrow> t)\<rparr>"

definition askUser :: "state_event \<Rightarrow> int option \<Rightarrow> string ctx_act" where
  "askUser event replyTimeout = bindA (readA id) (\<lambda>c.
     seqA (liftA (registerWait (ac_schema c) (ask_user_wait c replyTimeout)))
     (seqA (liftA (emitAskUser (ac_schema c) context_emitter (ac_session c) (ac_trace c) event (context_options c [])))
     (seqA (writeA (suspend WAITING_USER)) (doneA WAITING_USER))))"

end
