(* ===== verification/Availability.thy ===== *)
theory Availability
  imports Registry Emitter
begin

text \<open>
  Where a dispatch goes (src/availability.ts): the control plane's circuit,
  quota and fallback entries, the presence of workers, and the policy of the
  caller for the case that nobody is online, up to waking a worker and polling
  until one shows up.

  The polling loop compares the clock with a deadline, so nothing in the code
  bounds the number of rounds. It is modelled with `poll_bound` rounds, one
  more than the sleeps that fit into the timeout; None stands for a loop that
  has not ended by then. `wake_decides` shows that it never does so on
  a clock that sleeping moves forward.
\<close>


section \<open>Policies and results\<close>

definition FAIL_FAST :: string where "FAIL_FAST = ''FAIL_FAST''"
definition SEND_ANYWAY :: string where "SEND_ANYWAY = ''SEND_ANYWAY''"
definition WAKE_AND_WAIT :: string where "WAKE_AND_WAIT = ''WAKE_AND_WAIT''"
definition WAKE_AND_QUEUE :: string where "WAKE_AND_QUEUE = ''WAKE_AND_QUEUE''"
definition QUEUE_ONLY :: string where "QUEUE_ONLY = ''QUEUE_ONLY''"

definition route_policies :: "string list" where
  "route_policies = [FAIL_FAST, SEND_ANYWAY, WAKE_AND_WAIT, WAKE_AND_QUEUE, QUEUE_ONLY]"

lemmas policy_defs = FAIL_FAST_def SEND_ANYWAY_def WAKE_AND_WAIT_def WAKE_AND_QUEUE_def QUEUE_ONLY_def

datatype availability_status =
    DELIVER_NOW
  | WAIT_AND_DELIVER
  | QUEUE_PENDING
  | REJECT
  | FALLBACK_TO_OTHER_AGENT_TYPE

definition status_name :: "availability_status \<Rightarrow> string" where
  "status_name st = (case st of
     DELIVER_NOW \<Rightarrow> ''DELIVER_NOW''
   | WAIT_AND_DELIVER \<Rightarrow> ''WAIT_AND_DELIVER''
   | QUEUE_PENDING \<Rightarrow> ''QUEUE_PENDING''
   | REJECT \<Rightarrow> ''REJECT''
   | FALLBACK_TO_OTHER_AGENT_TYPE \<Rightarrow> ''FALLBACK_TO_OTHER_AGENT_TYPE'')"

record delivery_intent =
  di_execution :: string
  di_message :: string
  di_session :: string
  di_trace :: string
  di_source :: string
  di_target :: string
  di_userCode :: string
  di_region :: string
  di_priority :: int
  di_policy :: string
  di_timeout :: "int option"
  di_command :: json
  di_metadata :: jobj

record availability_result =
  av_status :: availability_status
  av_stream :: "key option"
  av_selected :: "string option"
  av_error :: "string option"
  av_errorCode :: "string option"

definition refusal :: "string \<Rightarrow> string \<Rightarrow> availability_result" where
  "refusal err code = \<lparr>av_status = REJECT, av_stream = None, av_selected = None, av_error = Some err, av_errorCode = Some code\<rparr>"

definition routed :: "availability_status \<Rightarrow> key \<Rightarrow> availability_result" where
  "routed st stream = \<lparr>av_status = st, av_stream = Some stream, av_selected = None, av_error = None, av_errorCode = None\<rparr>"

definition deliver :: "key_schema \<Rightarrow> string \<Rightarrow> availability_result" where
  "deliver sch agentType = routed DELIVER_NOW (ctrl_stream sch agentType)"

definition fallback_to :: "key_schema \<Rightarrow> string \<Rightarrow> availability_result" where
  "fallback_to sch selected = (routed FALLBACK_TO_OTHER_AGENT_TYPE (ctrl_stream sch selected))\<lparr>av_selected := Some selected\<rparr>"


section \<open>The control plane\<close>

text \<open>A missing, empty or unreadable entry is null.\<close>

definition parse_entry :: "string option \<Rightarrow> json" where
  "parse_entry raw = (case raw of
     None \<Rightarrow> JNull
   | Some s \<Rightarrow> if s = [] then JNull else (case json_parse s of None \<Rightarrow> JNull | Some v \<Rightarrow> v))"

definition readJson :: "key \<Rightarrow> json prog" where
  "readJson k = bindP (getP k) (\<lambda>raw. Ret (parse_entry raw))"

text \<open>
  `toUpperCase` as far as a comparison with an ASCII word sees it: no
  character outside ASCII has one of its letters as its upper case.
\<close>

definition circuit_open :: "json \<Rightarrow> bool" where
  "circuit_open circuit = (List.map upper_char (text_field (jget circuit ''state'')) = ''OPEN'')"

definition quota_exhausted :: "json \<Rightarrow> bool" where
  "quota_exhausted quota = (jget quota ''available'' = Some (JBool False))"

definition given_reason :: "json \<Rightarrow> string \<Rightarrow> string" where
  "given_reason entry d = js_String (js_or (jget entry ''reason'') (JStr d))"

definition fallback_type :: "json \<Rightarrow> string" where
  "fallback_type entry =
     js_String (js_or (jget entry ''selected_agent_type'') (js_or (jget entry ''agent_type'')
       (js_or (jget entry ''target_agent_type'') (JStr []))))"

definition in_quotes :: "string \<Rightarrow> string" where
  "in_quotes s = CHR 0x27 # s @ [CHR 0x27]"

definition no_worker_text :: "string \<Rightarrow> string" where
  "no_worker_text agentType = ''No alive worker found with agent type '' @ in_quotes agentType"

definition no_worker :: "string \<Rightarrow> availability_result" where
  "no_worker agentType = refusal (no_worker_text agentType) ''AGENT_TYPE_UNAVAILABLE''"

definition unsupported_policy :: "string \<Rightarrow> availability_result" where
  "unsupported_policy policy =
     refusal (''Unsupported offline route policy '' @ in_quotes policy) ''AGENT_TYPE_UNAVAILABLE''"

definition wakeup_timed_out :: "string \<Rightarrow> availability_result" where
  "wakeup_timed_out agentType =
     refusal (''Timed out waiting for worker wakeup for agent_type '' @ in_quotes agentType) ''AGENT_TYPE_UNAVAILABLE''"


section \<open>Waking and queueing\<close>

definition wakeup_timeout :: "delivery_intent \<Rightarrow> int" where
  "wakeup_timeout i = (case di_timeout i of None \<Rightarrow> 30000 | Some t \<Rightarrow> t)"

definition wakeupPayload :: "delivery_intent \<Rightarrow> json" where
  "wakeupPayload i = JObj [
     (''execution_id'', JStr (di_execution i)), (''target_agent_type'', JStr (di_target i)),
     (''session_id'', JStr (di_session i)), (''trace_id'', JStr (di_trace i)), (''message_id'', JStr (di_message i)),
     (''source'', JStr (di_source i)), (''policy'', JStr (di_policy i)), (''timeout_ms'', JNum (wakeup_timeout i)),
     (''user_code'', JStr (di_userCode i)), (''region'', JStr (di_region i)), (''priority'', JNum (di_priority i)),
     (''metadata'', JObj (di_metadata i)), (''command_payload'', di_command i)]"

definition publishWakeup :: "key_schema \<Rightarrow> delivery_intent \<Rightarrow> unit prog" where
  "publishWakeup sch i = xaddP (control_plane_wakeup_stream sch) (json_stringify (wakeupPayload i))"

definition pending_payload :: "key_schema \<Rightarrow> delivery_intent \<Rightarrow> json" where
  "pending_payload sch i = JObj [
     (''execution_id'', JStr (di_execution i)), (''message_id'', JStr (di_message i)), (''session_id'', JStr (di_session i)),
     (''trace_id'', JStr (di_trace i)), (''target_agent_type'', JStr (di_target i)),
     (''delivery_stream'', JStr (ctrl_stream sch (di_target i))), (''command_payload'', di_command i),
     (''user_code'', JStr (di_userCode i)), (''region'', JStr (di_region i)), (''priority'', JNum (di_priority i)),
     (''metadata'', JObj (di_metadata i))]"

definition queuePending :: "key_schema \<Rightarrow> delivery_intent \<Rightarrow> availability_result prog" where
  "queuePending sch i =
     seqP (xaddP (control_plane_delivery_pending_stream sch) (json_stringify (pending_payload sch i)))
       (Ret (routed QUEUE_PENDING (control_plane_delivery_pending_stream sch)))"

definition WAKEUP_ONLINE_POLL_INTERVAL_MS :: int where "WAKEUP_ONLINE_POLL_INTERVAL_MS = 100"

definition pause_until :: "millis \<Rightarrow> unit prog" where
  "pause_until deadline = bindP nowP (\<lambda>now.
     whenP (deadline - now > 0) (sleepP (min WAKEUP_ONLINE_POLL_INTERVAL_MS (deadline - now))))"

primrec poll_online :: "nat \<Rightarrow> registry \<Rightarrow> string \<Rightarrow> millis \<Rightarrow> availability_result option prog" where
  "poll_online 0 reg agentType deadline = Ret None"
| "poll_online (Suc n) reg agentType deadline = bindP nowP (\<lambda>now.
     if now < deadline
     then bindP (hasOnlineAgentType reg agentType) (\<lambda>r.
       if fst r then Ret (Some (routed WAIT_AND_DELIVER (ctrl_stream (reg_schema reg) agentType)))
       else seqP (pause_until deadline) (poll_online n reg agentType deadline))
     else Ret (Some (wakeup_timed_out agentType)))"

definition poll_bound :: "int \<Rightarrow> nat" where
  "poll_bound timeout = Suc (nat ((timeout + WAKEUP_ONLINE_POLL_INTERVAL_MS - 1) div WAKEUP_ONLINE_POLL_INTERVAL_MS))"

definition wakeAndWait :: "registry \<Rightarrow> delivery_intent \<Rightarrow> availability_result option prog" where
  "wakeAndWait reg i =
     seqP (publishWakeup (reg_schema reg) i)
       (let timeout = max 0 (wakeup_timeout i)
        in if timeout = 0 then Ret (Some (wakeup_timed_out (di_target i)))
           else bindP nowP (\<lambda>now. poll_online (poll_bound timeout) reg (di_target i) (now + timeout)))"


section \<open>The decision\<close>

definition route_offline :: "registry \<Rightarrow> delivery_intent \<Rightarrow> availability_result option prog" where
  "route_offline reg i =
     (let sch = reg_schema reg; policy = di_policy i in
      if policy = FAIL_FAST then Ret (Some (no_worker (di_target i)))
      else if policy = QUEUE_ONLY then bindP (queuePending sch i) (\<lambda>r. Ret (Some r))
      else if policy = WAKE_AND_QUEUE then seqP (publishWakeup sch i) (bindP (queuePending sch i) (\<lambda>r. Ret (Some r)))
      else if policy = WAKE_AND_WAIT then wakeAndWait reg i
      else Ret (Some (unsupported_policy policy)))"

definition route_by_presence :: "registry \<Rightarrow> delivery_intent \<Rightarrow> availability_result option prog" where
  "route_by_presence reg i =
     (let sch = reg_schema reg in
      bindP (hasOnlineAgentType reg (di_target i)) (\<lambda>online.
        if fst online then Ret (Some (deliver sch (di_target i)))
        else bindP (readJson (control_plane_agent_fallback sch (di_target i))) (\<lambda>entry.
          let selected = fallback_type entry
          in bindP (if selected = [] then Ret False
                    else bindP (hasOnlineAgentType reg selected) (\<lambda>r. Ret (fst r))) (\<lambda>ok.
             if ok then Ret (Some (fallback_to sch selected)) else route_offline reg i))))"

definition check_quota :: "key_schema \<Rightarrow> delivery_intent \<Rightarrow> availability_result option prog" where
  "check_quota sch i =
     (if di_userCode i = [] then Ret None
      else bindP (readJson (control_plane_user_quota sch (di_userCode i))) (\<lambda>quota.
        Ret (if quota_exhausted quota
             then Some (refusal (given_reason quota ''user quota exceeded'') ''TENANT_QUOTA_EXCEEDED'') else None)))"

definition prepareDelivery :: "registry \<Rightarrow> delivery_intent \<Rightarrow> availability_result option prog" where
  "prepareDelivery reg i =
     (let sch = reg_schema reg in
      if di_policy i \<notin> set route_policies then Ret (Some (unsupported_policy (di_policy i)))
      else bindP (readJson (control_plane_agent_circuit sch (di_target i))) (\<lambda>circuit.
        if circuit_open circuit
        then Ret (Some (refusal (given_reason circuit ''agent circuit is open'') ''AGENT_CIRCUIT_OPEN''))
        else bindP (check_quota sch i) (\<lambda>stop. case stop of
            Some r \<Rightarrow> Ret (Some r)
          | None \<Rightarrow> if di_policy i = SEND_ANYWAY then Ret (Some (deliver sch (di_target i)))
                    else route_by_presence reg i)))"

end
