(* ===== verification/Dispatch.thy ===== *)
theory Dispatch
  imports Availability WaitGate
begin

text \<open>
  Publishing a call to another agent (src/dispatch): building the command and
  the execution record of the call, and the pipeline that asks the router,
  records the execution, registers the wait and only then publishes.

  The ports the pipeline works against are a record of programs
  (`dispatch_deps`); `createRedisCallAgentDeps` is its instance on the registry
  and the connection. The router may not have ended its polling within the bound
  of the theory Availability; the pipeline then has not ended either (None).
\<close>


section \<open>Command and record\<close>

record publish_input =
  pi_session :: string
  pi_trace :: string
  pi_source :: string
  pi_defaultParent :: string
  pi_target :: string
  pi_content :: json
  pi_extraPayload :: jobj
  pi_waitForReply :: "bool option"
  pi_userCode :: string
  pi_userName :: string
  pi_group :: string
  pi_metadata :: jobj
  pi_message :: string
  pi_parent :: string
  pi_routePolicy :: "string option"
  pi_availabilityTimeout :: "int option"
  pi_region :: string
  pi_priority :: int
  pi_replyTimeout :: "int option"
  pi_observation :: string

definition generateAskAgentMessageId :: "string prog" where
  "generateAskAgentMessageId = bindP uuidP (\<lambda>u. Ret (''msg-'' @ take 8 u))"

definition generateExecutionId :: "string prog" where
  "generateExecutionId = bindP uuidP (\<lambda>u. Ret (''exec-'' @ take 8 u))"

definition waits :: "publish_input \<Rightarrow> bool" where
  "waits i = opt_or (pi_waitForReply i) True"

definition parent_of :: "publish_input \<Rightarrow> string" where
  "parent_of i = str_or (pi_parent i) (pi_defaultParent i)"

definition resolve_message_id :: "publish_input \<Rightarrow> string prog" where
  "resolve_message_id i = (if pi_message i \<noteq> [] then Ret (pi_message i) else generateAskAgentMessageId)"

text \<open>The payload of a waiting call gets the flag, and the command's own field replaces it.\<close>

definition merged_payload :: "jobj \<Rightarrow> bool \<Rightarrow> jobj" where
  "merged_payload extra wait =
     filter (\<lambda>p. fst p \<noteq> ''wait_for_reply'')
       (if wait then oput ''wait_for_reply'' (JBool True) (ospread [] extra) else ospread [] extra)"

definition call_header :: "publish_input \<Rightarrow> string \<Rightarrow> message_header" where
  "call_header i message = (mk_header message (pi_session i) (pi_trace i))
     \<lparr>sourceAgentType := (if waits i then pi_source i else []), targetAgentType := pi_target i,
      parentMessageId := parent_of i, taskGroupId := pi_group i, userCode := pi_userCode i, userName := pi_userName i,
      metadata := pi_metadata i, langfuseParentObservationId := pi_observation i\<rparr>"

definition call_command :: "publish_input \<Rightarrow> string \<Rightarrow> command" where
  "call_command i message =
     AskAgentCommand (call_header i message) (pi_content i) (waits i) (merged_payload (pi_extraPayload i) (waits i))"

definition retargetAskAgentCommand :: "command \<Rightarrow> string \<Rightarrow> command" where
  "retargetAskAgentCommand c agentType = (case c of
     AskAgentCommand h ct wt x \<Rightarrow> AskAgentCommand (h\<lparr>targetAgentType := agentType\<rparr>) ct wt x
   | _ \<Rightarrow> c)"

definition execution_record :: "message_header \<Rightarrow> key \<Rightarrow> string \<Rightarrow> string \<Rightarrow> jobj" where
  "execution_record h stream executionId source =
     [(''execution_id'', JStr executionId), (''message_id'', JStr (messageId h)),
      (''parent_message_id'', JStr (parentMessageId h)), (''session_id'', JStr (sessionId h)),
      (''trace_id'', JStr (traceId h)), (''source_agent_type'', JStr source), (''task_group_id'', JStr (taskGroupId h)),
      (''metadata'', JObj (ospread [] (metadata h))), (''stream_name'', JStr stream), (''worker_id'', JStr []),
      (''target_agent_type'', JStr (targetAgentType h)), (''status'', JStr QUEUED),
      (''cancel_requested'', JBool False), (''cancel_reason'', JStr [])]"

text \<open>The fallback for the source of a client's command, or none.\<close>

definition buildExecutionRecord :: "command \<Rightarrow> key \<Rightarrow> string \<Rightarrow> bool \<Rightarrow> jobj" where
  "buildExecutionRecord c stream executionId client =
     (let h = header c
      in execution_record h stream executionId
           (if client then str_or (sourceAgentType h) CLIENT_SOURCE_AGENT_TYPE else sourceAgentType h))"


section \<open>Ports\<close>

record probe_result =
  pb_ok :: bool
  pb_errorCode :: "string option"
  pb_error :: "string option"

record dispatch_deps =
  dd_probe :: "string \<Rightarrow> probe_result prog"
  dd_init :: "jobj \<Rightarrow> unit prog"
  dd_publish :: "key \<Rightarrow> string \<Rightarrow> unit prog"
  dd_ctrl_stream :: "string \<Rightarrow> key"
  dd_register :: "(register_wait_params \<Rightarrow> unit prog) option"
  dd_prepare :: "(publish_input \<Rightarrow> json \<Rightarrow> string \<Rightarrow> string \<Rightarrow> availability_result option prog) option"

text \<open>
  The bound depends on the lease time of the deployment, a positive number of
  seconds; a fraction of a millisecond is dropped.
\<close>

definition WORKER_MAX_INLINE_WAIT_MS :: "nat \<Rightarrow> int" where
  "WORKER_MAX_INLINE_WAIT_MS leaseTtlSeconds = int leaseTtlSeconds * 1000 div 3"

definition clampInlineWait :: "nat \<Rightarrow> int option \<Rightarrow> int option" where
  "clampInlineWait leaseTtlSeconds requested = (case requested of
     None \<Rightarrow> None
   | Some r \<Rightarrow> if r \<le> WORKER_MAX_INLINE_WAIT_MS leaseTtlSeconds then Some r
               else Some (WORKER_MAX_INLINE_WAIT_MS leaseTtlSeconds))"

definition intent_of :: "nat \<Rightarrow> publish_input \<Rightarrow> json \<Rightarrow> string \<Rightarrow> string \<Rightarrow> delivery_intent" where
  "intent_of leaseTtlSeconds i cmd executionId message =
     \<lparr>di_execution = executionId, di_message = message, di_session = pi_session i, di_trace = pi_trace i,
      di_source = pi_source i, di_target = pi_target i, di_userCode = pi_userCode i, di_region = pi_region i,
      di_priority = pi_priority i, di_policy = str_or (opt_or (pi_routePolicy i) []) FAIL_FAST,
      di_timeout = clampInlineWait leaseTtlSeconds (pi_availabilityTimeout i), di_command = cmd,
      di_metadata = ospread [] (pi_metadata i)\<rparr>"

definition AGENT_TYPE_NOT_FOUND :: string where "AGENT_TYPE_NOT_FOUND = ''AGENT_TYPE_NOT_FOUND''"

definition createRedisCallAgentDeps :: "nat \<Rightarrow> registry \<Rightarrow> dispatch_deps" where
  "createRedisCallAgentDeps leaseTtlSeconds reg = (let sch = reg_schema reg in
     \<lparr>dd_probe = (\<lambda>agentType. bindP (hasOnlineAgentType reg agentType) (\<lambda>r. Ret (if fst r
        then \<lparr>pb_ok = True, pb_errorCode = None, pb_error = None\<rparr>
        else \<lparr>pb_ok = False, pb_errorCode = Some AGENT_TYPE_NOT_FOUND, pb_error = Some (no_worker_text agentType)\<rparr>))),
      dd_init = initializeExecution sch, dd_publish = xaddP, dd_ctrl_stream = ctrl_stream sch,
      dd_register = Some (registerWait sch),
      dd_prepare = Some (\<lambda>i cmd executionId message. prepareDelivery reg (intent_of leaseTtlSeconds i cmd executionId message))\<rparr>)"


section \<open>The pipeline\<close>

record publish_result =
  pr_status :: string
  pr_message :: string
  pr_parent :: string
  pr_target :: string
  pr_error :: "string option"
  pr_errorCode :: "string option"
  pr_hint :: "string option"
  pr_routeStatus :: "string option"

definition call_wait :: "publish_input \<Rightarrow> string \<Rightarrow> register_wait_params" where
  "call_wait i message = \<lparr>rw_session = pi_session i, rw_parent = parent_of i, rw_child = message, rw_group = pi_group i,
     rw_timeout = opt_or (pi_replyTimeout i) DEFAULT_REPLY_TIMEOUT_MS\<rparr>"

definition rejected_record :: "jobj \<Rightarrow> string \<Rightarrow> availability_result \<Rightarrow> jobj" where
  "rejected_record r policy a = ospread r [
     (''status'', JStr FAILED), (''route_policy'', JStr policy), (''route_status'', JStr (status_name (av_status a))),
     (''availability_error'', JStr (opt_or (av_error a) [])),
     (''availability_error_code'', JStr (str_or (opt_or (av_errorCode a) []) AGENT_TYPE_NOT_FOUND))]"

definition rejected_result :: "publish_input \<Rightarrow> string \<Rightarrow> availability_result \<Rightarrow> publish_result" where
  "rejected_result i message a = \<lparr>pr_status = FAILED, pr_message = message, pr_parent = parent_of i, pr_target = pi_target i,
     pr_error = av_error a, pr_errorCode = Some (str_or (opt_or (av_errorCode a) []) AGENT_TYPE_NOT_FOUND),
     pr_hint = None, pr_routeStatus = Some (status_name (av_status a))\<rparr>"

definition selected_type :: "availability_result \<Rightarrow> string" where
  "selected_type a = opt_or (av_selected a) []"

definition routed_command :: "command \<Rightarrow> availability_result \<Rightarrow> command" where
  "routed_command c a = (if selected_type a = [] then c else retargetAskAgentCommand c (selected_type a))"

definition routed_stream :: "availability_result \<Rightarrow> key \<Rightarrow> key" where
  "routed_stream a ctrlStream = str_or (opt_or (av_stream a) []) ctrlStream"

definition routed_record :: "jobj \<Rightarrow> string \<Rightarrow> availability_result \<Rightarrow> key \<Rightarrow> jobj" where
  "routed_record r policy a ctrlStream =
     oput ''selected_agent_type'' (JStr (selected_type a)) (oput ''route_status'' (JStr (status_name (av_status a)))
       (oput ''route_policy'' (JStr policy) (oput ''stream_name'' (JStr (routed_stream a ctrlStream))
         (if selected_type a = [] then r else oput ''target_agent_type'' (JStr (selected_type a)) r))))"

definition queued_result :: "publish_input \<Rightarrow> string \<Rightarrow> availability_result \<Rightarrow> publish_result" where
  "queued_result i message a = \<lparr>pr_status = QUEUED, pr_message = message, pr_parent = parent_of i,
     pr_target = str_or (selected_type a) (pi_target i), pr_error = None, pr_errorCode = None,
     pr_hint = Some (if waits i then ''suspend'' else ''transfer''), pr_routeStatus = Some (status_name (av_status a))\<rparr>"

definition publishWithExecutionRecord :: "dispatch_deps \<Rightarrow> jobj \<Rightarrow> key \<Rightarrow> string \<Rightarrow> unit prog" where
  "publishWithExecutionRecord d r stream payload = seqP (dd_init d (ospread [] r)) (dd_publish d stream payload)"

text \<open>The wait is registered next to the record, before the command is published.\<close>

definition register_call :: "dispatch_deps \<Rightarrow> publish_input \<Rightarrow> string \<Rightarrow> unit prog" where
  "register_call d i message =
     (case dd_register d of
        Some register \<Rightarrow> whenP (waits i) (register (call_wait i message))
      | None \<Rightarrow> Ret ())"

definition publish_call :: "dispatch_deps \<Rightarrow> publish_input \<Rightarrow> string \<Rightarrow> command \<Rightarrow> string \<Rightarrow> availability_result
    \<Rightarrow> publish_result prog" where
  "publish_call d i policy c executionId a =
     (let message = messageId (header c); ctrlStream = dd_ctrl_stream d (pi_target i);
          r = buildExecutionRecord c ctrlStream executionId False in
      if av_status a = REJECT then seqP (dd_init d (rejected_record r policy a)) (Ret (rejected_result i message a))
      else seqP (register_call d i message)
        (seqP (if av_status a = QUEUE_PENDING then dd_init d (routed_record r policy a ctrlStream)
               else publishWithExecutionRecord d (routed_record r policy a ctrlStream) (routed_stream a ctrlStream)
                      (command_payload (routed_command c a)))
          (Ret (queued_result i message a))))"

text \<open>Where there is no router, a caller that insists on a worker probes for one.\<close>

definition probe_call :: "dispatch_deps \<Rightarrow> publish_input \<Rightarrow> string \<Rightarrow> publish_result option prog" where
  "probe_call d i policy =
     (if dd_prepare d = None \<and> policy = FAIL_FAST
      then bindP (dd_probe d (pi_target i)) (\<lambda>probe. Ret (if pb_ok probe then None else Some
        \<lparr>pr_status = FAILED, pr_message = [], pr_parent = parent_of i, pr_target = pi_target i,
         pr_error = Some (opt_or (pb_error probe) (no_worker_text (pi_target i))),
         pr_errorCode = Some (opt_or (pb_errorCode probe) AGENT_TYPE_NOT_FOUND), pr_hint = None, pr_routeStatus = None\<rparr>))
      else Ret None)"

definition prepare_call :: "dispatch_deps \<Rightarrow> publish_input \<Rightarrow> string \<Rightarrow> command \<Rightarrow> string \<Rightarrow> availability_result option prog" where
  "prepare_call d i policy c executionId =
     (case dd_prepare d of
        Some prepare \<Rightarrow> prepare (i\<lparr>pi_routePolicy := Some policy\<rparr>) (toDict c) executionId (messageId (header c))
      | None \<Rightarrow> Ret (Some (routed DELIVER_NOW (dd_ctrl_stream d (pi_target i)))))"

definition callAgent :: "dispatch_deps \<Rightarrow> publish_input \<Rightarrow> publish_result option prog" where
  "callAgent d i =
     (let policy = opt_or (pi_routePolicy i) FAIL_FAST in
      bindP (probe_call d i policy) (\<lambda>offline. case offline of
          Some r \<Rightarrow> Ret (Some r)
        | None \<Rightarrow> bindP (resolve_message_id i) (\<lambda>message.
            case check_command (call_command i message) of
              Inl e \<Rightarrow> Raise e
            | Inr c \<Rightarrow> bindP generateExecutionId (\<lambda>executionId.
                bindP (prepare_call d i policy c executionId) (\<lambda>availability. case availability of
                    None \<Rightarrow> Ret None
                  | Some a \<Rightarrow> bindP (publish_call d i policy c executionId a) (\<lambda>r. Ret (Some r)))))))"

text \<open>A client's command, published with a record that is kept at best effort.\<close>

definition publishAskAgentCommand :: "key_schema \<Rightarrow> command \<Rightarrow> key \<Rightarrow> bool \<Rightarrow> unit prog" where
  "publishAskAgentCommand sch c stream client = bindP generateExecutionId (\<lambda>executionId.
     seqP (catchP (initializeExecution sch (buildExecutionRecord c stream executionId client)) (\<lambda>_. Ret ()))
       (xaddP stream (command_payload c)))"

end
