(* ===== verification/Delegation.thy ===== *)
theory Delegation
  imports AgentContext Dispatch
begin

text \<open>
  Delegating work (src/context.ts): `callAgent`, the fan-out `dispatchGroup`
  with its books in Redis, the stand-in for a member that no worker can take, and
  the collection of a group's results.

  The registry object the code makes for a dispatch is used for lookups and
  records only; its address and its lock tokens do not matter there. An HSET of
  several fields is written as its fields in turn. The argument
  `leaseTtlSeconds` is the lease time of the deployment.
\<close>

definition context_registry :: "agent_context \<Rightarrow> registry" where
  "context_registry c = \<lparr>reg_schema = ac_schema c, reg_ip = [], lockTokens = Map.empty\<rparr>"


section \<open>Spans\<close>

definition worker_span :: "agent_context \<Rightarrow> string" where
  "worker_span c = str_or (ac_execution c) (ac_message c) @ '':worker.execute''"

definition dispatch_span :: "agent_context \<Rightarrow> string \<Rightarrow> string \<Rightarrow> string \<Rightarrow> string \<Rightarrow> string \<Rightarrow> string \<Rightarrow> millis \<Rightarrow> millis \<Rightarrow> trace_span" where
  "dispatch_span c message parent source target policy status startTs endTs =
     \<lparr>ts_trace = ac_trace c, ts_spanId = message @ '':client.dispatch'', ts_parentSpanId = worker_span c,
      ts_operation = ''client.dispatch'', ts_component = ''agent_context'', ts_start = startTs, ts_end = endTs,
      ts_status = COMPLETED, ts_session = ac_session c, ts_execution = [], ts_message = message,
      ts_parentMessage = parent, ts_source = source, ts_target = target, ts_routePolicy = policy,
      ts_routeStatus = status, ts_metadata = [],
      ts_worker = [], ts_chunkCount = 0, ts_tokens = []\<rparr>"

text \<open>Recording is best effort; the end time is read before the attempt.\<close>

definition record_span :: "host \<Rightarrow> (millis \<Rightarrow> trace_span) \<Rightarrow> unit prog" where
  "record_span h span = bindP nowP (\<lambda>endTs. catchP (h_span h (span endTs)) (\<lambda>_. Ret ()))"

definition call_span_id :: "string \<Rightarrow> string" where
  "call_span_id message = message @ '':client.dispatch''"

definition dispatch_metadata :: "host \<Rightarrow> jobj \<Rightarrow> string \<Rightarrow> jobj" where
  "dispatch_metadata h md message = ospread (ospread [] md)
     [(''trace_parent_span_id'', JStr (h_spanIdHex h (call_span_id message))),
      (''framework_parent_span_id'', JStr (call_span_id message))]"


section \<open>Calling one agent\<close>

definition ask_header :: "agent_context \<Rightarrow> message_header option" where
  "ask_header c = (case ac_command c of Some (AskAgentCommand h _ _ _) \<Rightarrow> Some h | _ \<Rightarrow> None)"

definition header_text :: "(message_header \<Rightarrow> string) \<Rightarrow> message_header option \<Rightarrow> string" where
  "header_text f h = (case h of None \<Rightarrow> [] | Some x \<Rightarrow> f x)"

definition call_input :: "host \<Rightarrow> agent_context \<Rightarrow> call_params \<Rightarrow> string \<Rightarrow> publish_input" where
  "call_input h c p message =
     \<lparr>pi_session = ac_session c, pi_trace = ac_trace c, pi_source = ac_agentType c, pi_defaultParent = ac_message c,
      pi_target = cp_target p, pi_content = cp_content p,
      pi_extraPayload = (case cp_extraPayload p of Some x \<Rightarrow> x | None \<Rightarrow> opt_or (cp_payload p) []),
      pi_waitForReply = cp_waitForReply p, pi_userCode = header_text userCode (ask_header c),
      pi_userName = header_text userName (ask_header c), pi_group = header_text taskGroupId (ask_header c),
      pi_metadata = dispatch_metadata h (opt_or (cp_metadata p) []) message, pi_message = message,
      pi_parent = cp_parent p, pi_routePolicy = cp_routePolicy p, pi_availabilityTimeout = cp_availabilityTimeout p,
      pi_region = cp_region p, pi_priority = cp_priority p, pi_replyTimeout = cp_replyTimeout p,
      pi_observation = ac_observation c\<rparr>"

definition call_result_of :: "publish_result \<Rightarrow> call_result" where
  "call_result_of r = \<lparr>cr_status = pr_status r, cr_message = pr_message r, cr_parent = pr_parent r,
     cr_target = pr_target r, cr_error = pr_error r, cr_errorCode = pr_errorCode r\<rparr>"

text \<open>What a dispatch that took place leaves in the context.\<close>

definition delegated :: "call_params \<Rightarrow> publish_result \<Rightarrow> agent_context \<Rightarrow> agent_context" where
  "delegated p r c =
     (if pr_hint r = Some ''suspend'' \<or> cp_waitForReply p \<noteq> Some False then suspend WAITING_AGENT c
      else if pr_hint r = Some ''transfer'' then c\<lparr>ac_permissionTransferred := True\<rparr> else c)"

definition finish_call :: "host \<Rightarrow> call_params \<Rightarrow> publish_result \<Rightarrow> call_result ctx_act" where
  "finish_call h p r =
     (let res = call_result_of r in
      if pr_status r = FAILED
      then seqA (runHook h (OnCallAgentError (CallSubject p) (JsError (str_or (opt_or (pr_error r) []) ''Agent type unavailable''))))
             (doneA res)
      else seqA (writeA (delegated p r))
             (seqA (runHook h (OnCallAgentComplete (CallSubject p) res)) (doneA res)))"

definition call_span :: "agent_context \<Rightarrow> call_params \<Rightarrow> string \<Rightarrow> publish_result \<Rightarrow> millis \<Rightarrow> millis \<Rightarrow> trace_span" where
  "call_span c p message r startTs =
     dispatch_span c (str_or (pr_message r) message) (str_or (cp_parent p) (ac_message c))
       (if cp_waitForReply p \<noteq> Some False then ac_agentType c else []) (str_or (pr_target r) (cp_target p))
       (opt_or (cp_routePolicy p) FAIL_FAST) (str_or (opt_or (pr_routeStatus r) []) (pr_status r)) startTs"

definition context_callAgent :: "nat \<Rightarrow> host \<Rightarrow> call_params \<Rightarrow> call_result option ctx_act" where
  "context_callAgent leaseTtlSeconds h p = bindA (readA id) (\<lambda>c.
     bindA (if cp_message p \<noteq> [] then doneA (cp_message p) else liftA generateMessageId) (\<lambda>message.
     seqA (runHook h (OnCallAgentStart (CallSubject p)))
     (bindA (liftA nowP) (\<lambda>startTs.
      bindA (catchA (liftA (callAgent (createRedisCallAgentDeps leaseTtlSeconds (context_registry c)) (call_input h c p message)))
          (\<lambda>e. seqA (runHook h (OnCallAgentError (CallSubject p) e)) (raiseA e))) (\<lambda>raw. case raw of
            None \<Rightarrow> doneA None
          | Some r \<Rightarrow> seqA (liftA (record_span h (call_span c p message r startTs)))
              (bindA (finish_call h p r) (\<lambda>res. doneA (Some res))))))))"


section \<open>Calling a group\<close>

record group_task =
  gt_target :: string
  gt_content :: string
  gt_payload :: jobj
  gt_metadata :: jobj

record group_params =
  gp_tasks :: "group_task list"
  gp_waitForReply :: "bool option"
  gp_parent :: string
  gp_replyTimeout :: "int option"

record group_dispatch =
  gd_status :: string
  gd_group :: string
  gd_tasks :: "(string \<times> string) list"

definition group_wait :: "agent_context \<Rightarrow> string \<Rightarrow> string \<Rightarrow> string \<Rightarrow> int option \<Rightarrow> register_wait_params" where
  "group_wait c groupId parent child timeout = \<lparr>rw_session = ac_session c, rw_parent = parent, rw_child = child,
     rw_group = groupId, rw_timeout = opt_or timeout DEFAULT_REPLY_TIMEOUT_MS\<rparr>"

definition member_parent :: "agent_context \<Rightarrow> group_params \<Rightarrow> string" where
  "member_parent c g = str_or (gp_parent g) (ac_message c)"

definition member_metadata :: "host \<Rightarrow> group_task \<Rightarrow> string \<Rightarrow> jobj" where
  "member_metadata h t message = dispatch_metadata h (gt_metadata t) message"

definition member_header :: "host \<Rightarrow> agent_context \<Rightarrow> group_params \<Rightarrow> string \<Rightarrow> bool \<Rightarrow> group_task \<Rightarrow> string \<Rightarrow> message_header" where
  "member_header h c g groupId wait t message = (mk_header message (ac_session c) (ac_trace c))
     \<lparr>sourceAgentType := (if wait then ac_agentType c else []), targetAgentType := gt_target t,
      parentMessageId := member_parent c g, taskGroupId := groupId, metadata := member_metadata h t message,
      traceParentSpanId := h_spanIdHex h (call_span_id message), langfuseParentObservationId := ac_observation c\<rparr>"

definition member_command :: "host \<Rightarrow> agent_context \<Rightarrow> group_params \<Rightarrow> string \<Rightarrow> bool \<Rightarrow> group_task \<Rightarrow> string \<Rightarrow> command" where
  "member_command h c g groupId wait t message =
     AskAgentCommand (member_header h c g groupId wait t message) (JStr (gt_content t)) wait (merged_payload (gt_payload t) wait)"

definition member_record :: "agent_context \<Rightarrow> command \<Rightarrow> string \<Rightarrow> jobj" where
  "member_record c m executionId =
     execution_record (header m) (ctrl_stream (ac_schema c) (targetAgentType (header m))) executionId (sourceAgentType (header m))"

text \<open>The record of a member that cannot be dispatched, with the reason between its status and its cancel fields.\<close>

definition failed_member_record :: "agent_context \<Rightarrow> command \<Rightarrow> string \<Rightarrow> string \<Rightarrow> string \<Rightarrow> jobj" where
  "failed_member_record c m executionId err errorCode =
     takeWhile (\<lambda>p. fst p \<noteq> ''status'') (member_record c m executionId)
       @ [(''status'', JStr FAILED), (''availability_error'', JStr err), (''availability_error_code'', JStr errorCode),
          (''cancel_requested'', JBool False), (''cancel_reason'', JStr [])]"

record member_probe =
  mp_ok :: bool
  mp_error :: string
  mp_errorCode :: string

definition reachable :: member_probe where
  "reachable = \<lparr>mp_ok = True, mp_error = [], mp_errorCode = []\<rparr>"

text \<open>A probe that fails counts as reachable.\<close>

definition probeGroupMemberOnline :: "agent_context \<Rightarrow> string \<Rightarrow> member_probe prog" where
  "probeGroupMemberOnline c target =
     catchP (bindP (hasOnlineAgentType (context_registry c) target) (\<lambda>r. Ret (if fst r then reachable
         else \<lparr>mp_ok = False, mp_error = no_worker_text target, mp_errorCode = AGENT_TYPE_NOT_FOUND\<rparr>)))
       (\<lambda>_. Ret reachable)"

definition undispatched_reply :: "agent_context \<Rightarrow> string \<Rightarrow> string \<Rightarrow> string \<Rightarrow> string \<Rightarrow> jobj \<Rightarrow> member_probe \<Rightarrow> stand_in_reply_params" where
  "undispatched_reply c groupId parent child target md pb =
     \<lparr>si_session = ac_session c, si_callerMessage = parent, si_callerAgentType = ac_agentType c,
      si_childMessage = child, si_childAgentType = target, si_taskGroup = groupId, si_trace = ac_trace c, si_status = FAILED,
      si_content = JStr [],
      si_replyData = JObj (failureReplyData (mp_error pb) (str_or (mp_errorCode pb) ''AGENT_TYPE_UNAVAILABLE'') child),
      si_extraPayload = [], si_metadata = md, si_errorCode = mp_errorCode pb,
      si_synthesizedBy = SYNTHESIZED_BY_DISPATCH, si_userCode = header_text userCode (ask_header c),
      si_userName = header_text userName (ask_header c)\<rparr>"

definition queueUndispatchedMemberFailure :: "string \<Rightarrow> string \<Rightarrow> string \<Rightarrow> string \<Rightarrow> jobj \<Rightarrow> int option \<Rightarrow> member_probe \<Rightarrow> unit ctx_act" where
  "queueUndispatchedMemberFailure groupId parent child target md timeout pb = bindA (readA id) (\<lambda>c.
     seqA (liftA (registerWait (ac_schema c) (group_wait c groupId parent child timeout)))
       (if ac_agentType c = [] then doneA ()
        else bindA (liftA (standInReply (undispatched_reply c groupId parent child target md pb))) (\<lambda>r.
          writeA (ac_pending_update (\<lambda>rs. rs @ [r])))))"

text \<open>A member nobody can take: recorded as failed, and its stand-in queued.\<close>

definition skip_member :: "host \<Rightarrow> group_params \<Rightarrow> string \<Rightarrow> group_task \<Rightarrow> command \<Rightarrow> member_probe \<Rightarrow> unit ctx_act" where
  "skip_member h g groupId t m pb = bindA (readA id) (\<lambda>c.
     bindA (liftA generateExecutionId) (\<lambda>executionId.
     seqA (liftA (initializeExecution (ac_schema c) (failed_member_record c m executionId (mp_error pb) (mp_errorCode pb))))
     (seqA (queueUndispatchedMemberFailure groupId (member_parent c g) (messageId (header m)) (gt_target t)
              (member_metadata h t (messageId (header m))) (gp_replyTimeout g) pb)
       (runHook h (OnCallAgentError (GroupSubject m) (JsError (mp_error pb)))))))"

text \<open>A publication that fails aborts the group, so that late replies do not wake the failed caller.\<close>

definition abort_group :: "agent_context \<Rightarrow> string \<Rightarrow> bool \<Rightarrow> unit prog" where
  "abort_group c groupId wait = whenP wait
     (catchP (hsetP (task_group (ac_schema c) groupId) TASK_GROUP_FIELD_ABORTED ''1'') (\<lambda>_. Ret ()))"

definition publish_member :: "host \<Rightarrow> string \<Rightarrow> bool \<Rightarrow> command \<Rightarrow> unit ctx_act" where
  "publish_member h groupId wait m = bindA (readA id) (\<lambda>c.
     catchA (liftA (xaddP (ctrl_stream (ac_schema c) (targetAgentType (header m))) (command_payload m)))
       (\<lambda>e. seqA (runHook h (OnCallAgentError (GroupSubject m) e))
          (seqA (liftA (abort_group c groupId wait)) (raiseA e))))"

definition member_result :: "command \<Rightarrow> call_result" where
  "member_result m = \<lparr>cr_status = QUEUED, cr_message = messageId (header m), cr_parent = parentMessageId (header m),
     cr_target = targetAgentType (header m), cr_error = None, cr_errorCode = None\<rparr>"

definition send_member :: "host \<Rightarrow> group_params \<Rightarrow> string \<Rightarrow> bool \<Rightarrow> command \<Rightarrow> unit ctx_act" where
  "send_member h g groupId wait m = bindA (readA id) (\<lambda>c.
     bindA (liftA generateExecutionId) (\<lambda>executionId.
     seqA (liftA (initializeExecution (ac_schema c) (member_record c m executionId)))
     (seqA (whenA wait (liftA (registerWait (ac_schema c)
              (group_wait c groupId (member_parent c g) (messageId (header m)) (gp_replyTimeout g)))))
     (bindA (liftA nowP) (\<lambda>startTs.
      seqA (publish_member h groupId wait m)
     (seqA (liftA (record_span h (dispatch_span c (messageId (header m)) (member_parent c g)
              (if wait then ac_agentType c else []) (targetAgentType (header m)) SEND_ANYWAY ''GROUP_DISPATCH'' startTs)))
       (runHook h (OnCallAgentComplete (GroupSubject m) (member_result m)))))))))"

definition dispatch_member :: "host \<Rightarrow> group_params \<Rightarrow> string \<Rightarrow> bool \<Rightarrow> group_task \<Rightarrow> (string \<times> string) ctx_act" where
  "dispatch_member h g groupId wait t =
     bindA (liftA generateMessageId) (\<lambda>message.
     bindA (readA id) (\<lambda>c.
     bindA (checkedA (check_command (member_command h c g groupId wait t message))) (\<lambda>m.
     seqA (runHook h (OnCallAgentStart (GroupSubject m)))
     (bindA (if wait then liftA (probeGroupMemberOnline c (gt_target t)) else doneA reachable) (\<lambda>pb.
      seqA (if mp_ok pb then send_member h g groupId wait m else skip_member h g groupId t m pb)
        (doneA (message, gt_target t)))))))"

text \<open>The books of a group that is waited for: one HSET of three fields, then its life time.\<close>

definition open_group :: "agent_context \<Rightarrow> string \<Rightarrow> nat \<Rightarrow> unit prog" where
  "open_group c groupId n = (let k = task_group (ac_schema c) groupId in
     seqP (hsetP k TASK_GROUP_FIELD_TOTAL (nat_str n))
     (seqP (hsetP k TASK_GROUP_FIELD_COMPLETED ''0'')
     (seqP (hsetP k ''source_agent_type'' (ac_agentType c))
       (bindP (expireP k TASK_GROUP_TTL_SECONDS) (\<lambda>_. Ret ())))))"

definition begin_group :: "string \<Rightarrow> nat \<Rightarrow> bool \<Rightarrow> unit ctx_act" where
  "begin_group groupId n wait = bindA (readA id) (\<lambda>c.
     if wait then seqA (liftA (open_group c groupId n)) (writeA (suspend WAITING_AGENT))
     else writeA (ac_permissionTransferred_update (\<lambda>_. True)))"

definition group_span :: "agent_context \<Rightarrow> string \<Rightarrow> nat \<Rightarrow> bool \<Rightarrow> millis \<Rightarrow> millis \<Rightarrow> trace_span" where
  "group_span c groupId n wait startTs endTs =
     \<lparr>ts_trace = ac_trace c, ts_spanId = groupId @ '':agent.dispatch_group'', ts_parentSpanId = worker_span c,
      ts_operation = ''agent.dispatch_group'', ts_component = ''agent_context'', ts_start = startTs, ts_end = endTs,
      ts_status = COMPLETED, ts_session = ac_session c, ts_execution = ac_execution c, ts_message = ac_message c,
      ts_parentMessage = [], ts_source = [], ts_target = ac_agentType c, ts_routePolicy = [], ts_routeStatus = [],
      ts_metadata = [(''task_group_id'', JStr groupId), (''task_count'', JNum (int n)), (''wait_for_reply'', JBool wait)],
      ts_worker = [], ts_chunkCount = 0, ts_tokens = []\<rparr>"

definition dispatchGroup :: "host \<Rightarrow> group_params \<Rightarrow> group_dispatch ctx_act" where
  "dispatchGroup h g =
     (let n = length (gp_tasks g); wait = opt_or (gp_waitForReply g) True in
      if n = 0 then doneA \<lparr>gd_status = ''EMPTY'', gd_group = [], gd_tasks = []\<rparr>
      else bindA (liftA uuidP) (\<lambda>u. let groupId = ''tg-'' @ take 8 u in
        bindA (liftA nowP) (\<lambda>startTs.
        seqA (begin_group groupId n wait)
        (bindA (foldA (\<lambda>dispatched t. bindA (dispatch_member h g groupId wait t) (\<lambda>d. doneA (dispatched @ [d]))) [] (gp_tasks g))
          (\<lambda>dispatched. bindA (readA id) (\<lambda>c.
             seqA (liftA (record_span h (group_span c groupId n wait startTs)))
               (doneA \<lparr>gd_status = ''GROUP_QUEUED'', gd_group = groupId, gd_tasks = dispatched\<rparr>)))))))"


section \<open>Collecting a group\<close>

text \<open>
  `collectGroupResults` polls the results hash. Every poll appends what
  it finds, also what an earlier poll appended already. The number of polls is
  bounded by those whose pauses fit into the timeout; None is a loop that has
  not ended by then.
\<close>

record group_result =
  gr_message :: string
  gr_status :: json
  gr_replyData :: "json option"
  gr_content :: "json option"

definition group_result_of :: "string \<times> string \<Rightarrow> group_result option" where
  "group_result_of e = (case json_parse (snd e) of
     None \<Rightarrow> None
   | Some JNull \<Rightarrow> None
   | Some v \<Rightarrow> Some \<lparr>gr_message = fst e, gr_status = js_or (jget v ''status'') (JStr []),
       gr_replyData = jget v ''reply_data'', gr_content = jget v ''content''\<rparr>)"

text \<open>`n < total`, where a missing total is infinite and one that is no number compares false.\<close>

definition fewer_than :: "nat \<Rightarrow> string option \<Rightarrow> bool" where
  "fewer_than n total_text = (if opt_or total_text [] = [] then True
     else case js_parseInt (js_trim (opt_or total_text [])) of None \<Rightarrow> False | Some t \<Rightarrow> int n < t)"

definition at_least :: "nat \<Rightarrow> string option \<Rightarrow> bool" where
  "at_least n total_text = (if opt_or total_text [] = [] then False
     else case js_parseInt (js_trim (opt_or total_text [])) of None \<Rightarrow> False | Some t \<Rightarrow> t \<le> int n)"

primrec collect_polls :: "nat \<Rightarrow> key \<Rightarrow> string option \<Rightarrow> millis \<Rightarrow> int \<Rightarrow> group_result list \<Rightarrow> group_result list option prog" where
  "collect_polls 0 resultsKey total_text start timeout results = Ret None"
| "collect_polls (Suc n) resultsKey total_text start timeout results =
     (if \<not> fewer_than (length results) total_text then Ret (Some results)
      else bindP nowP (\<lambda>now.
        if timeout * 1000 \<le> now - start then Ret (Some results)
        else bindP (hgetallP resultsKey) (\<lambda>raw.
          let results' = results @ List.map_filter group_result_of raw
          in if at_least (length results') total_text then Ret (Some results')
             else seqP (sleepP 100) (collect_polls n resultsKey total_text start timeout results'))))"

definition collect_bound :: "int \<Rightarrow> nat" where
  "collect_bound timeout = nat (10 * timeout) + 2"

definition collectGroupResults :: "key_schema \<Rightarrow> string \<Rightarrow> int \<Rightarrow> group_result list option prog" where
  "collectGroupResults sch groupId timeout =
     (if groupId = [] then Ret (Some [])
      else bindP (hgetP (task_group sch groupId) TASK_GROUP_FIELD_TOTAL) (\<lambda>total_text.
        bindP nowP (\<lambda>start.
          collect_polls (collect_bound timeout) (task_group_results sch groupId) total_text start timeout [])))"

end
