(* ===== verification/Client.thy ===== *)
theory Client
  imports Delegation
begin

text \<open>
  The client of the gateway (src/client.ts): sending a message or a command to
  an agent type or to one worker, and cancelling a task with everything it has
  dispatched, or a whole session.

  Interceptors, the span recorder and the optional Langfuse observation are the
  embedding's; they are fields of the client. An execution read back is a JSON
  value; reading a property of null is a TypeError. The walk over the executions
  a task has dispatched has no bound in the code, so it is a partial function:
  None means that it does not end.
\<close>


section \<open>Responses\<close>

definition SUCCESS :: string where "SUCCESS = ''SUCCESS''"
definition CANCEL_REQUESTED :: string where "CANCEL_REQUESTED = ''CANCEL_REQUESTED''"
definition NOT_FOUND :: string where "NOT_FOUND = ''NOT_FOUND''"
definition ALREADY_FINISHED :: string where "ALREADY_FINISHED = ''ALREADY_FINISHED''"
definition ERR_AGENT_TYPE_UNAVAILABLE :: string where "ERR_AGENT_TYPE_UNAVAILABLE = ''AGENT_TYPE_UNAVAILABLE''"
definition ERR_AGENT_TYPE_NOT_FOUND :: string where "ERR_AGENT_TYPE_NOT_FOUND = ERR_AGENT_TYPE_UNAVAILABLE"
definition ERR_WORKER_NOT_ONLINE :: string where "ERR_WORKER_NOT_ONLINE = ''WORKER_NOT_ONLINE''"

record send_response =
  sr_success :: bool
  sr_message :: string
  sr_trace :: string
  sr_worker :: string
  sr_target :: "string option"
  sr_timestamp :: millis
  sr_status :: string
  sr_error :: "string option"
  sr_errorCode :: "string option"

record cancel_response =
  cr_success :: bool
  cr_message :: string
  cr_execution :: string
  cr_worker :: string
  cr_status :: string
  cr_timestamp :: millis
  cr_error :: "string option"
  cr_count :: "nat option"

record cancel_session_response =
  cs_success :: bool
  cs_session :: string
  cs_status :: string
  cs_timestamp :: millis
  cs_cancelled :: nat
  cs_finished :: nat


section \<open>The client\<close>

text \<open>What the interceptors see and may change.\<close>

record request =
  rq_target :: string
  rq_session :: string
  rq_userCode :: string
  rq_userName :: string
  rq_content :: json
  rq_actionType :: string
  rq_parent :: string
  rq_extraPayload :: jobj
  rq_metadata :: jobj

record client =
  gc_registry :: registry
  gc_interceptors :: "(request \<Rightarrow> js_error + request) list"
  gc_span :: "trace_span \<Rightarrow> unit prog"
  gc_spanIdHex :: "string \<Rightarrow> string"
  gc_observe :: "string \<Rightarrow> string \<Rightarrow> request \<Rightarrow> jobj \<Rightarrow> string option"

definition gc_schema :: "client \<Rightarrow> key_schema" where
  "gc_schema gc = reg_schema (gc_registry gc)"

primrec runInterceptors :: "(request \<Rightarrow> js_error + request) list \<Rightarrow> request \<Rightarrow> js_error + request" where
  "runInterceptors [] rq = Inr rq"
| "runInterceptors (f # fs) rq = (case f rq of Inl e \<Rightarrow> Inl e | Inr rq' \<Rightarrow> runInterceptors fs rq')"


text \<open>
  The interceptor the repository ships (src/interceptors.ts): it brings the
  content into the form of a list of messages. A field that is undefined is left out.
\<close>

definition is_object :: "json \<Rightarrow> bool" where
  "is_object v = (case v of JObj _ \<Rightarrow> True | JArr _ \<Rightarrow> True | _ \<Rightarrow> False)"

definition extractObjects :: "json option \<Rightarrow> json" where
  "extractObjects items = (case items of
     Some (JArr xs) \<Rightarrow> JArr (List.map (\<lambda>x. if is_object x then x else JObj []) xs)
   | _ \<Rightarrow> JArr [])"

definition intercepted_content :: "json \<Rightarrow> json" where
  "intercepted_content c = (if is_object c
     then JObj [(''text'', js_or (jget c ''text'') (JStr [])), (''files'', extractObjects (jget c ''files'')),
       (''resources'', extractObjects (jget c ''resources''))]
     else c)"

definition field_entry :: "string \<Rightarrow> json option \<Rightarrow> jobj" where
  "field_entry k v = (case v of None \<Rightarrow> [] | Some x \<Rightarrow> [(k, x)])"

definition intercepted_message :: "json \<Rightarrow> json" where
  "intercepted_message m = (if \<not> is_object m \<or> (jget m ''role'' = None \<and> jget m ''content'' = None) then m
     else JObj (field_entry ''role'' (jget m ''role'')
       @ field_entry ''content'' (case jget m ''content'' of None \<Rightarrow> None | Some c \<Rightarrow> Some (intercepted_content c))))"

definition formatContent :: "json \<Rightarrow> json" where
  "formatContent content = (case content of
     JStr s \<Rightarrow> content
   | JArr ms \<Rightarrow> JArr (List.map intercepted_message ms)
   | _ \<Rightarrow> JArr [intercepted_message content])"

definition ByaiMessageInterceptor :: "request \<Rightarrow> js_error + request" where
  "ByaiMessageInterceptor rq =
     Inr (if rq_content rq = JNull then rq else rq\<lparr>rq_content := formatContent (rq_content rq)\<rparr>)"


section \<open>Sending a command\<close>

text \<open>The suspended execution a resume continues; a lookup that fails costs the reattachment only.\<close>

definition lookupResumedExecution :: "client \<Rightarrow> string \<Rightarrow> string \<Rightarrow> json option prog" where
  "lookupResumedExecution gc message session =
     catchP (getExecutionByMessageId (gc_schema gc) message session) (\<lambda>_. Ret None)"

definition best_effort_init :: "client \<Rightarrow> jobj \<Rightarrow> unit prog" where
  "best_effort_init gc execution = catchP (initializeExecution (gc_schema gc) execution) (\<lambda>_. Ret ())"

definition queued_record :: "message_header \<Rightarrow> key \<Rightarrow> string \<Rightarrow> jobj" where
  "queued_record h stream executionId =
     [(''execution_id'', JStr executionId), (''message_id'', JStr (messageId h)), (''session_id'', JStr (sessionId h)),
      (''trace_id'', JStr (traceId h)), (''parent_message_id'', JStr (parentMessageId h)),
      (''source_agent_type'', JStr (str_or (sourceAgentType h) CLIENT_SOURCE_AGENT_TYPE)),
      (''target_agent_type'', JStr (targetAgentType h)), (''stream_name'', JStr stream), (''worker_id'', JStr []),
      (''status'', JStr QUEUED), (''cancel_requested'', JBool False), (''cancel_reason'', JStr [])]"

definition is_ask :: "command \<Rightarrow> bool" where
  "is_ask c = (case c of AskAgentCommand _ _ _ _ \<Rightarrow> True | _ \<Rightarrow> False)"

definition is_resume :: "command \<Rightarrow> bool" where
  "is_resume c = (case c of ResumeCommand _ _ _ _ _ \<Rightarrow> True | _ \<Rightarrow> False)"

text \<open>A stream that is not given is the one of the target agent type.\<close>

definition command_stream :: "client \<Rightarrow> command \<Rightarrow> string \<Rightarrow> key" where
  "command_stream gc c streamName = str_or streamName (ctrl_stream (gc_schema gc) (targetAgentType (header c)))"

definition announce :: "client \<Rightarrow> command \<Rightarrow> key \<Rightarrow> unit prog" where
  "announce gc c stream =
     bindP (if is_resume c then lookupResumedExecution gc (messageId (header c)) (sessionId (header c)) else Ret None)
       (\<lambda>resumed. whenP (\<not> opt_truthy resumed)
          (bindP generateExecutionId (\<lambda>executionId. best_effort_init gc (queued_record (header c) stream executionId))))"

definition sendCommand :: "client \<Rightarrow> command \<Rightarrow> string \<Rightarrow> send_response prog" where
  "sendCommand gc c streamName =
     (let stream = command_stream gc c streamName in
      seqP (if streamName = [] \<and> targetAgentType (header c) \<noteq> []
            then (if is_ask c then publishAskAgentCommand (gc_schema gc) c stream True
                  else seqP (announce gc c stream) (xaddP stream (command_payload c)))
            else xaddP stream (command_payload c))
        (bindP nowP (\<lambda>now. Ret
          \<lparr>sr_success = True, sr_message = messageId (header c), sr_trace = traceId (header c), sr_worker = [],
           sr_target = None, sr_timestamp = now, sr_status = QUEUED, sr_error = None, sr_errorCode = None\<rparr>)))"


section \<open>Cancelling\<close>

record cancel_params =
  cq_message :: string
  cq_session :: string
  cq_reason :: string
  cq_target :: string
  cq_requestedBy :: string
  cq_mode :: string

definition execution_status :: "json \<Rightarrow> string" where
  "execution_status e = text_field (jget e ''status'')"

definition live :: "json \<Rightarrow> bool" where
  "live e \<longleftrightarrow> \<not> isTerminalState (execution_status e)"

text \<open>Keys of a Map: primitives compare by value, and no two objects are the same key.\<close>

definition same_key :: "json option \<Rightarrow> json option \<Rightarrow> bool" where
  "same_key a b \<longleftrightarrow> a = b \<and> (case a of Some (JArr _) \<Rightarrow> False | Some (JObj _) \<Rightarrow> False | _ \<Rightarrow> True)"

definition children_of :: "json list \<Rightarrow> json \<Rightarrow> json list" where
  "children_of execs e = filter (\<lambda>x. opt_truthy (jget x ''parent_message_id'')
     \<and> same_key (jget x ''parent_message_id'') (jget e ''message_id'')) execs"

text \<open>The breadth-first walk: what to cancel, and what has already ended.\<close>

partial_function (option) collect :: "json list \<Rightarrow> json list \<Rightarrow> json list \<Rightarrow> json list \<Rightarrow> (json list \<times> json list) option" where
  "collect execs queue toCancel ended = (case queue of
     [] \<Rightarrow> Some (toCancel, ended)
   | e # rest \<Rightarrow> if live e then collect execs (rest @ children_of execs e) (toCancel @ [e]) ended
                 else collect execs (rest @ children_of execs e) toCancel (ended @ [e]))"

lemma collect_Nil [simp]: "collect execs [] tc ta = Some (tc, ta)"
  by (simp add: collect.simps)

lemma collect_Cons:
  "collect execs (e # q) tc ta = (if live e then collect execs (q @ children_of execs e) (tc @ [e]) ta
     else collect execs (q @ children_of execs e) tc (ta @ [e]))"
  by (simp add: collect.simps)

text \<open>`find` stops with a TypeError at a null.\<close>

primrec find_execution :: "string \<Rightarrow> json list \<Rightarrow> js_error + json option" where
  "find_execution message [] = Inr None"
| "find_execution message (e # es) = (if e = JNull then Inl TypeError
     else if jget e ''message_id'' = Some (JStr message) then Inr (Some e) else find_execution message es)"

definition cancel_command :: "cancel_params \<Rightarrow> json \<Rightarrow> string \<Rightarrow> string \<Rightarrow> command" where
  "cancel_command p e u trace = CancelTaskCommand
     ((mk_header (''msg-cancel-'' @ take 8 u) (cq_session p) (strip_dashes trace))
       \<lparr>targetAgentType := str_or (cq_target p) (text_field (jget e ''target_agent_type'')),
        parentMessageId := text_field (jget e ''message_id'')\<rparr>)
     (text_field (jget e ''message_id'')) (opt_String (jget e ''execution_id'')) (text_field (jget e ''worker_id''))
     (cq_reason p) (str_or (cq_requestedBy p) ''client'') (str_or (cq_mode p) ''graceful'')"

definition build_cancel :: "cancel_params \<Rightarrow> json \<Rightarrow> command prog" where
  "build_cancel p e = bindP uuidP (\<lambda>u. bindP uuidP (\<lambda>trace.
     case check_command (cancel_command p e u trace) of Inl err \<Rightarrow> Raise err | Inr c \<Rightarrow> Ret c))"

definition send_cancel :: "client \<Rightarrow> json \<Rightarrow> command \<Rightarrow> unit prog" where
  "send_cancel gc e c =
     seqP (sendCommand gc c (worker_ctrl_stream (gc_schema gc) (text_field (jget e ''worker_id'')))) (Ret ())"

definition cancel_execution :: "client \<Rightarrow> cancel_params \<Rightarrow> json \<Rightarrow> unit prog" where
  "cancel_execution gc p e =
     seqP (markExecutionCancelling (gc_schema gc) (opt_String (jget e ''execution_id'')) (cq_session p) (cq_reason p))
       (bindP (build_cancel p e) (\<lambda>c. whenP (text_field (jget e ''worker_id'') \<noteq> []) (send_cancel gc e c)))"

definition request_cancel :: "client \<Rightarrow> cancel_params \<Rightarrow> json \<Rightarrow> unit prog" where
  "request_cancel gc p e =
     markCancelRequested (gc_schema gc) (opt_String (jget e ''execution_id'')) (cq_session p) (cq_reason p)"

definition cancel_refused :: "cancel_params \<Rightarrow> json option \<Rightarrow> string \<Rightarrow> string \<Rightarrow> cancel_response option prog" where
  "cancel_refused p e status err = bindP nowP (\<lambda>now. Ret (Some
     \<lparr>cr_success = False, cr_message = cq_message p,
      cr_execution = (case e of None \<Rightarrow> [] | Some x \<Rightarrow> text_field (jget x ''execution_id'')),
      cr_worker = (case e of None \<Rightarrow> [] | Some x \<Rightarrow> text_field (jget x ''worker_id'')),
      cr_status = status, cr_timestamp = now, cr_error = Some err, cr_count = None\<rparr>))"

definition cancel_all :: "client \<Rightarrow> cancel_params \<Rightarrow> json \<Rightarrow> json list \<Rightarrow> json list \<Rightarrow> cancel_response option prog" where
  "cancel_all gc p target toCancel ended =
     seqP (forP ended (request_cancel gc p))
       (if toCancel = [] then cancel_refused p (Some target) ALREADY_FINISHED ''all executions already in terminal state''
        else seqP (forP toCancel (cancel_execution gc p)) (bindP nowP (\<lambda>now. Ret (Some
          \<lparr>cr_success = True, cr_message = cq_message p, cr_execution = opt_String (jget target ''execution_id''),
           cr_worker = text_field (jget target ''worker_id''), cr_status = CANCEL_REQUESTED, cr_timestamp = now,
           cr_error = None, cr_count = Some (length toCancel)\<rparr>))))"

definition cancelTask :: "client \<Rightarrow> cancel_params \<Rightarrow> cancel_response option prog" where
  "cancelTask gc p = bindP (getAllSessionExecutions (gc_schema gc) (cq_session p)) (\<lambda>execs.
     case find_execution (cq_message p) execs of
       Inl e \<Rightarrow> Raise e
     | Inr None \<Rightarrow> cancel_refused p None NOT_FOUND (''execution not found for message_id='' @ cq_message p)
     | Inr (Some target) \<Rightarrow>
         if jget target ''session_id'' \<noteq> Some (JStr (cq_session p))
         then cancel_refused p (Some target) NOT_FOUND (''session mismatch for message_id='' @ cq_message p)
         else if JNull \<in> set execs then Raise TypeError
         else (case collect execs [target] [] [] of
             None \<Rightarrow> Ret None
           | Some (toCancel, ended) \<Rightarrow> cancel_all gc p target toCancel ended))"

definition cancel_in_session :: "client \<Rightarrow> cancel_params \<Rightarrow> json \<Rightarrow> unit prog" where
  "cancel_in_session gc p e =
     seqP (markExecutionCancelling (gc_schema gc) (opt_String (jget e ''execution_id'')) (cq_session p) (cq_reason p))
       (whenP (text_field (jget e ''worker_id'') \<noteq> []) (bindP (build_cancel p e) (send_cancel gc e)))"

definition session_response :: "cancel_params \<Rightarrow> bool \<Rightarrow> string \<Rightarrow> nat \<Rightarrow> nat \<Rightarrow> cancel_session_response prog" where
  "session_response p ok status cancelled finished = bindP nowP (\<lambda>now. Ret
     \<lparr>cs_success = ok, cs_session = cq_session p, cs_status = status, cs_timestamp = now,
      cs_cancelled = cancelled, cs_finished = finished\<rparr>)"

definition cancelSession :: "client \<Rightarrow> cancel_params \<Rightarrow> cancel_session_response prog" where
  "cancelSession gc p = bindP (getAllSessionExecutions (gc_schema gc) (cq_session p)) (\<lambda>execs.
     if execs = [] then session_response p False NOT_FOUND 0 0
     else if JNull \<in> set execs then Raise TypeError
     else let toCancel = filter live execs; ended = filter (\<lambda>e. \<not> live e) execs in
       seqP (forP ended (request_cancel gc p))
         (if toCancel = [] then session_response p False ALREADY_FINISHED 0 (length ended)
          else seqP (forP toCancel (cancel_in_session gc p))
            (session_response p True CANCEL_REQUESTED (length toCancel) (length ended))))"


section \<open>Sending a message\<close>

record send_params =
  sp_target :: string
  sp_session :: string
  sp_content :: json
  sp_source :: string
  sp_trace :: string
  sp_userCode :: string
  sp_userName :: string
  sp_actionType :: string
  sp_extraPayload :: jobj
  sp_parent :: string
  sp_message :: string
  sp_metadata :: jobj
  sp_worker :: string
  sp_requireOnline :: "bool option"
  sp_routePolicy :: "string option"
  sp_availabilityTimeout :: "int option"
  sp_region :: string
  sp_priority :: int

definition requires_online :: "send_params \<Rightarrow> bool" where
  "requires_online p = opt_or (sp_requireOnline p) True"

definition first_request :: "send_params \<Rightarrow> request" where
  "first_request p = \<lparr>rq_target = sp_target p, rq_session = sp_session p, rq_userCode = sp_userCode p,
     rq_userName = sp_userName p, rq_content = sp_content p, rq_actionType = str_or (sp_actionType p) ASK_AGENT,
     rq_parent = sp_parent p, rq_extraPayload = sp_extraPayload p, rq_metadata = sp_metadata p\<rparr>"

definition OBSERVATION_KEYS :: "string list" where
  "OBSERVATION_KEYS = [''trace_parent_span_id'', ''traceParentSpanId'', ''langfuse_parent_observation_id'',
     ''langfuseParentObservationId'']"

text \<open>The metadata without the ids of the surrounding observation, and those ids.\<close>

definition plain_metadata :: "jobj \<Rightarrow> jobj" where
  "plain_metadata md = filter (\<lambda>p. fst p \<notin> set OBSERVATION_KEYS) (ospread [] md)"

definition given_id :: "jobj \<Rightarrow> string \<Rightarrow> string \<Rightarrow> string" where
  "given_id md k k' = js_String (js_or (oget md k) (js_or (oget md k') (JStr [])))"

definition trace_parent :: "client \<Rightarrow> request \<Rightarrow> string \<Rightarrow> string" where
  "trace_parent gc rq message = str_or (given_id (rq_metadata rq) ''trace_parent_span_id'' ''traceParentSpanId'')
     (gc_spanIdHex gc (call_span_id message))"

definition observation_parent :: "client \<Rightarrow> request \<Rightarrow> string \<Rightarrow> string \<Rightarrow> string" where
  "observation_parent gc rq message trace =
     str_or (given_id (rq_metadata rq) ''langfuse_parent_observation_id'' ''langfuseParentObservationId'')
       (str_or (opt_or (gc_observe gc trace message rq (plain_metadata (rq_metadata rq))) []) (trace_parent gc rq message))"

text \<open>One message of the content: rich content is reduced to its text, files and resources.\<close>

definition inner_content :: "json \<Rightarrow> json" where
  "inner_content c = (case c of JStr s \<Rightarrow> JStr s | _ \<Rightarrow> JObj [
     (''text'', js_or (jget c ''text'') (JStr [])), (''files'', js_or (jget c ''files'') (JArr [])),
     (''resources'', js_or (jget c ''resources'') (JArr []))])"

definition format_message :: "json \<Rightarrow> js_error + json" where
  "format_message m = (case jget m ''content'' of
     None \<Rightarrow> Inr m
   | Some JNull \<Rightarrow> Inl TypeError
   | Some c \<Rightarrow> Inr (JObj ((case jget m ''role'' of None \<Rightarrow> [] | Some r \<Rightarrow> [(''role'', r)])
       @ [(''content'', inner_content c)])))"

primrec format_messages :: "json list \<Rightarrow> js_error + json list" where
  "format_messages [] = Inr []"
| "format_messages (m # ms) = (case format_message m of
     Inl e \<Rightarrow> Inl e
   | Inr x \<Rightarrow> (case format_messages ms of Inl e \<Rightarrow> Inl e | Inr xs \<Rightarrow> Inr (x # xs)))"

definition format_content :: "json \<Rightarrow> js_error + json" where
  "format_content v = (case v of
     JStr s \<Rightarrow> Inr v
   | _ \<Rightarrow> (case format_messages (case v of JArr ms \<Rightarrow> ms | _ \<Rightarrow> [v]) of Inl e \<Rightarrow> Inl e | Inr ms \<Rightarrow> Inr (JArr ms)))"

definition send_header :: "client \<Rightarrow> send_params \<Rightarrow> request \<Rightarrow> string \<Rightarrow> string \<Rightarrow> message_header" where
  "send_header gc p rq message trace = (mk_header message (rq_session rq) trace)
     \<lparr>sourceAgentType := sp_source p, targetAgentType := rq_target rq, parentMessageId := rq_parent rq,
      userCode := rq_userCode rq, userName := rq_userName rq, metadata := plain_metadata (rq_metadata rq),
      traceParentSpanId := trace_parent gc rq message,
      langfuseParentObservationId := observation_parent gc rq message trace\<rparr>"

definition send_payload :: "request \<Rightarrow> jobj" where
  "send_payload rq = oput ''attachments'' (js_or (oget (rq_extraPayload rq) ''attachments'') (JArr []))
     (ospread [] (rq_extraPayload rq))"

definition without :: "string list \<Rightarrow> jobj \<Rightarrow> jobj" where
  "without ks x = filter (\<lambda>p. fst p \<notin> set ks) x"

definition buildGatewayCommand :: "string \<Rightarrow> message_header \<Rightarrow> json \<Rightarrow> jobj \<Rightarrow> js_error + command" where
  "buildGatewayCommand action h ct extra = check_command
     (if action = RESUME
      then ResumeCommand h ct (text_field (oget extra ''status''))
        (case oget extra ''reply_data'' of None \<Rightarrow> JNull | Some v \<Rightarrow> v) (without [''status'', ''reply_data''] extra)
      else AskAgentCommand h ct (opt_truthy (oget extra ''wait_for_reply'')) (without [''wait_for_reply''] extra))"

text \<open>Where a message for one worker goes, and the refusal if that worker is not there.\<close>

definition not_online_text :: "string \<Rightarrow> string" where
  "not_online_text workerId = ''Target worker '' @ in_quotes workerId @ '' is not online or not registered''"

definition resolveDirectWorkerRoute :: "client \<Rightarrow> string \<Rightarrow> bool \<Rightarrow> key prog" where
  "resolveDirectWorkerRoute gc workerId requireOnline =
     bindP (if requireOnline then isWorkerOnline (gc_registry gc) workerId else Ret True) (\<lambda>online.
       if online then Ret (worker_ctrl_stream (gc_schema gc) workerId) else Raise (JsError (not_online_text workerId)))"

text \<open>The route to an agent type with a check of its presence, which `sendMessage` leaves to the router.\<close>

definition resolveAgentTypeRoute :: "client \<Rightarrow> string \<Rightarrow> bool \<Rightarrow> key prog" where
  "resolveAgentTypeRoute gc agentType requireOnline =
     bindP (if requireOnline then bindP (hasOnlineAgentType (gc_registry gc) agentType) (\<lambda>r. Ret (fst r)) else Ret True) (\<lambda>online.
       if online then Ret (ctrl_stream (gc_schema gc) agentType)
       else Raise (JsError (''No online worker found for agent_type '' @ in_quotes agentType)))"

definition first_route :: "client \<Rightarrow> send_params \<Rightarrow> key prog" where
  "first_route gc p = (if sp_worker p \<noteq> [] then resolveDirectWorkerRoute gc (sp_worker p) (requires_online p)
     else Ret (ctrl_stream (gc_schema gc) (sp_target p)))"

fun contains_text :: "string \<Rightarrow> string \<Rightarrow> bool" where
  "contains_text [] t = (t = [])"
| "contains_text (c # s) t = (startsWith (c # s) t \<or> contains_text s t)"

definition route_refused :: "send_params \<Rightarrow> js_error \<Rightarrow> send_response prog" where
  "route_refused p e = bindP nowP (\<lambda>now. Ret (let offline = contains_text (error_message e) ''not online'' in
     \<lparr>sr_success = False, sr_message = [], sr_trace = [], sr_worker = (if offline then sp_worker p else []),
      sr_target = None, sr_timestamp = now, sr_status = FAILED, sr_error = Some (error_message e),
      sr_errorCode = Some (if offline then ERR_WORKER_NOT_ONLINE else ERR_AGENT_TYPE_NOT_FOUND)\<rparr>))"

definition send_policy :: "send_params \<Rightarrow> string" where
  "send_policy p = opt_or (sp_routePolicy p) (if requires_online p then FAIL_FAST else SEND_ANYWAY)"

definition send_intent :: "send_params \<Rightarrow> request \<Rightarrow> command \<Rightarrow> string \<Rightarrow> delivery_intent" where
  "send_intent p rq c executionId =
     \<lparr>di_execution = executionId, di_message = messageId (header c), di_session = rq_session rq,
      di_trace = traceId (header c), di_source = str_or (sp_source p) CLIENT_SOURCE_AGENT_TYPE, di_target = rq_target rq,
      di_userCode = rq_userCode rq, di_region = sp_region p, di_priority = sp_priority p, di_policy = send_policy p,
      di_timeout = sp_availabilityTimeout p, di_command = toDict c, di_metadata = metadata (header c)\<rparr>"

definition sent_record :: "send_params \<Rightarrow> command \<Rightarrow> string \<Rightarrow> key \<Rightarrow> string \<Rightarrow> jobj" where
  "sent_record p c executionId stream status = queued_record (header c) stream executionId
     @ [(''route_policy'', JStr (send_policy p)), (''route_status'', JStr status)]"

definition refused_record :: "send_params \<Rightarrow> command \<Rightarrow> string \<Rightarrow> string \<Rightarrow> string \<Rightarrow> jobj" where
  "refused_record p c executionId err code = (let h = header c in
     [(''execution_id'', JStr executionId), (''message_id'', JStr (messageId h)), (''session_id'', JStr (sessionId h)),
      (''trace_id'', JStr (traceId h)), (''parent_message_id'', JStr (parentMessageId h)),
      (''source_agent_type'', JStr (str_or (sourceAgentType h) CLIENT_SOURCE_AGENT_TYPE)),
      (''target_agent_type'', JStr (targetAgentType h)), (''stream_name'', JStr []), (''worker_id'', JStr []),
      (''status'', JStr FAILED), (''route_policy'', JStr (send_policy p)), (''route_status'', JStr (status_name REJECT)),
      (''availability_error'', JStr err), (''availability_error_code'', JStr code)])"

definition refusal_text :: "availability_result \<Rightarrow> string" where
  "refusal_text a = str_or (opt_or (av_error a) []) ''Agent type unavailable''"

definition refusal_code :: "availability_result \<Rightarrow> string" where
  "refusal_code a = str_or (opt_or (av_errorCode a) []) ERR_AGENT_TYPE_UNAVAILABLE"

definition send_refused :: "client \<Rightarrow> send_params \<Rightarrow> command \<Rightarrow> string \<Rightarrow> availability_result \<Rightarrow> send_response prog" where
  "send_refused gc p c executionId a =
     seqP (best_effort_init gc (refused_record p c executionId (refusal_text a) (refusal_code a)))
       (bindP nowP (\<lambda>now. Ret \<lparr>sr_success = False, sr_message = messageId (header c), sr_trace = traceId (header c),
          sr_worker = [], sr_target = None, sr_timestamp = now, sr_status = FAILED, sr_error = Some (refusal_text a),
          sr_errorCode = Some (refusal_code a)\<rparr>))"

definition client_span :: "command \<Rightarrow> send_params \<Rightarrow> string \<Rightarrow> millis \<Rightarrow> millis \<Rightarrow> trace_span" where
  "client_span c p status startTs endTs = (let h = header c in
     \<lparr>ts_trace = traceId h, ts_spanId = call_span_id (messageId h), ts_parentSpanId = [],
      ts_operation = ''client.dispatch'', ts_component = ''client'', ts_start = startTs, ts_end = endTs,
      ts_status = COMPLETED, ts_session = sessionId h, ts_execution = [], ts_message = messageId h,
      ts_parentMessage = parentMessageId h, ts_source = CLIENT_SOURCE_AGENT_TYPE, ts_target = targetAgentType h,
      ts_routePolicy = send_policy p, ts_routeStatus = status, ts_metadata = [], ts_worker = sp_worker p,
      ts_chunkCount = 0, ts_tokens = []\<rparr>)"

text \<open>Record the execution, unless a resume continues one, publish what is not queued already, and answer.\<close>

definition publish_message :: "client \<Rightarrow> send_params \<Rightarrow> command \<Rightarrow> json option \<Rightarrow> string \<Rightarrow> key \<Rightarrow> string \<Rightarrow> send_response prog" where
  "publish_message gc p c resumed executionId stream status = bindP nowP (\<lambda>startTs.
     seqP (whenP (\<not> opt_truthy resumed) (best_effort_init gc (sent_record p c executionId stream status)))
       (seqP (whenP (status \<noteq> status_name QUEUE_PENDING) (xaddP stream (command_payload c)))
         (bindP nowP (\<lambda>endTs. seqP (catchP (gc_span gc (client_span c p status startTs endTs)) (\<lambda>_. Ret ()))
           (bindP nowP (\<lambda>now. Ret
             \<lparr>sr_success = True, sr_message = messageId (header c), sr_trace = traceId (header c), sr_worker = sp_worker p,
              sr_target = Some (targetAgentType (header c)), sr_timestamp = now, sr_status = QUEUED,
              sr_error = None, sr_errorCode = None\<rparr>))))))"

definition routed_target :: "command \<Rightarrow> availability_result \<Rightarrow> command" where
  "routed_target c a = (if selected_type a \<noteq> [] \<and> is_ask c then retargetAskAgentCommand c (selected_type a) else c)"

definition dispatch_message :: "client \<Rightarrow> send_params \<Rightarrow> request \<Rightarrow> command \<Rightarrow> key \<Rightarrow> json option \<Rightarrow> string \<Rightarrow> send_response option prog" where
  "dispatch_message gc p rq c route resumed executionId =
     (if sp_worker p \<noteq> []
      then bindP (publish_message gc p c resumed executionId route ''DIRECT_WORKER'') (\<lambda>r. Ret (Some r))
      else bindP (prepareDelivery (gc_registry gc) (send_intent p rq c executionId)) (\<lambda>availability. case availability of
          None \<Rightarrow> Ret None
        | Some a \<Rightarrow> if av_status a = REJECT then bindP (send_refused gc p c executionId a) (\<lambda>r. Ret (Some r))
            else bindP (publish_message gc p (routed_target c a) resumed executionId
                   (routed_stream a route) (status_name (av_status a))) (\<lambda>r. Ret (Some r))))"

definition send_built :: "client \<Rightarrow> send_params \<Rightarrow> request \<Rightarrow> command \<Rightarrow> key \<Rightarrow> send_response option prog" where
  "send_built gc p rq c route =
     bindP (if is_resume c then lookupResumedExecution gc (messageId (header c)) (rq_session rq) else Ret None) (\<lambda>resumed.
     bindP (case resumed of
         Some v \<Rightarrow> if opt_truthy (jget v ''execution_id'') then Ret (opt_String (jget v ''execution_id'')) else generateExecutionId
       | None \<Rightarrow> generateExecutionId) (\<lambda>executionId. dispatch_message gc p rq c route resumed executionId))"

definition sendMessage :: "client \<Rightarrow> send_params \<Rightarrow> send_response option prog" where
  "sendMessage gc p = (case runInterceptors (gc_interceptors gc) (first_request p) of
     Inl e \<Rightarrow> Raise e
   | Inr rq \<Rightarrow> bindP (if sp_message p \<noteq> [] then Ret (sp_message p) else generateAskAgentMessageId) (\<lambda>message.
       bindP (if sp_trace p \<noteq> [] then Ret (sp_trace p) else bindP uuidP (\<lambda>u. Ret (strip_dashes u))) (\<lambda>trace.
       bindP (catchP (bindP (first_route gc p) (\<lambda>route. Ret (Inr route))) (\<lambda>e. Ret (Inl e))) (\<lambda>route. case route of
           Inl e \<Rightarrow> bindP (route_refused p e) (\<lambda>r. Ret (Some r))
         | Inr stream \<Rightarrow> (case format_content (rq_content rq) of
               Inl e \<Rightarrow> Raise e
             | Inr ct \<Rightarrow> (case buildGatewayCommand (str_or (rq_actionType rq) ASK_AGENT) (send_header gc p rq message trace)
                               ct (send_payload rq) of
                   Inl e \<Rightarrow> Raise e
                 | Inr c \<Rightarrow> send_built gc p rq c stream))))))"

end
