(* ===== verification/ResumeRules.thy ===== *)
theory ResumeRules
  imports Protocol Keys
begin

text \<open>
  Whose command a resumed execution answers and what metadata its handler reads
  (src/resume_metadata.ts, and the rules of src/worker.ts that the message
  processor in src/processor.ts repeats). A resume command describes the hop
  that just finished; the execution's record, written at its dispatch, is
  what remembers its own caller.
\<close>

definition FRAMEWORK_HOP_METADATA_KEYS :: "string list" where
  "FRAMEWORK_HOP_METADATA_KEYS =
     [''trace_parent_span_id'', ''framework_parent_span_id'', ''langfuse_parent_observation_id'']"

definition mergeResumeMetadata :: "jobj \<Rightarrow> jobj \<Rightarrow> jobj" where
  "mergeResumeMetadata stored incoming =
     ospread (filter (\<lambda>p. fst p \<notin> set FRAMEWORK_HOP_METADATA_KEYS) stored) incoming"

definition isResumeCommand :: "command \<Rightarrow> bool" where
  "isResumeCommand c = (case c of ResumeCommand _ _ _ _ _ \<Rightarrow> True | _ \<Rightarrow> False)"

text \<open>`String(snapshot.field || '')` and `snapshot.metadata || {}`.\<close>

definition snapshot_text :: "jobj \<Rightarrow> string \<Rightarrow> string" where
  "snapshot_text snapshot k = text_field (oget snapshot k)"

definition snapshot_metadata :: "jobj \<Rightarrow> jobj" where
  "snapshot_metadata snapshot = as_obj (Some (js_or (oget snapshot ''metadata'') (JObj [])))"

definition caller_header :: "message_header \<Rightarrow> jobj \<Rightarrow> message_header" where
  "caller_header h snapshot = h\<lparr>sourceAgentType := snapshot_text snapshot ''source_agent_type'',
     parentMessageId := snapshot_text snapshot ''parent_message_id'',
     taskGroupId := snapshot_text snapshot ''task_group_id'',
     metadata := ospread [] (snapshot_metadata snapshot)\<rparr>"

definition has_caller :: "jobj \<Rightarrow> bool" where
  "has_caller snapshot \<longleftrightarrow> snapshot_text snapshot ''source_agent_type'' \<noteq> []
     \<and> snapshot_text snapshot ''source_agent_type'' \<noteq> CLIENT_SOURCE_AGENT_TYPE"

text \<open>
  The constructor of `ResumeCommand` accepts the rebuilt command because it
  accepted the original with the same status and content.
\<close>

definition resolveReplyCommand :: "command \<Rightarrow> jobj \<Rightarrow> command option" where
  "resolveReplyCommand c snapshot = (case c of
     ResumeCommand h ct st rd x \<Rightarrow>
       if has_caller snapshot then Some (ResumeCommand (caller_header h snapshot) ct st rd x) else None
   | _ \<Rightarrow> if sourceAgentType (header c) = [] then None else Some c)"

definition inbound_header :: "message_header \<Rightarrow> jobj \<Rightarrow> message_header" where
  "inbound_header h snapshot = h\<lparr>metadata := mergeResumeMetadata (snapshot_metadata snapshot) (metadata h)\<rparr>"

definition restoreInboundMetadata :: "command \<Rightarrow> jobj \<Rightarrow> command" where
  "restoreInboundMetadata c snapshot = (case c of
     ResumeCommand h ct st rd x \<Rightarrow> ResumeCommand (inbound_header h snapshot) ct st rd x
   | _ \<Rightarrow> c)"


section \<open>The two directions\<close>

lemma wf_obj_filter [simp]: "wf_obj ps \<Longrightarrow> wf_obj (filter P ps)"
  by (simp add: wf_obj_def distinct_map_filter)

lemma oget_filter:
  "wf_obj ps \<Longrightarrow> oget (filter (\<lambda>p. P (fst p)) ps) k = (if P k then oget ps k else None)"
  by (induction ps) (auto simp: wf_obj_def)

text \<open>
  Inbound, the waking message wins, the stored metadata fills in what it lacks,
  and the framework's per-hop keys never come from the record.
\<close>

lemma merged_metadata:
  assumes "wf_obj stored" "wf_obj incoming"
  shows "oget (mergeResumeMetadata stored incoming) k =
    (case oget incoming k of Some v \<Rightarrow> Some v
     | None \<Rightarrow> if k \<in> set FRAMEWORK_HOP_METADATA_KEYS then None else oget stored k)"
  using assms oget_filter [of stored "\<lambda>k. k \<notin> set FRAMEWORK_HOP_METADATA_KEYS" k]
  by (simp add: mergeResumeMetadata_def oget_ospread split: option.splits)

lemma caller_header_simps [simp]:
  "messageId (caller_header h s) = messageId h" "sessionId (caller_header h s) = sessionId h"
  "sourceAgentType (caller_header h s) = snapshot_text s ''source_agent_type''"
  "targetAgentType (caller_header h s) = targetAgentType h"
  "parentMessageId (caller_header h s) = snapshot_text s ''parent_message_id''"
  "taskGroupId (caller_header h s) = snapshot_text s ''task_group_id''"
  "traceId (caller_header h s) = traceId h"
  "metadata (caller_header h s) = ospread [] (snapshot_metadata s)"
  by (simp_all add: caller_header_def)

lemma inbound_header_simps [simp]:
  "messageId (inbound_header h s) = messageId h" "sessionId (inbound_header h s) = sessionId h"
  "targetAgentType (inbound_header h s) = targetAgentType h" "parentMessageId (inbound_header h s) = parentMessageId h"
  by (simp_all add: inbound_header_def)

end
