(* ===== verification/Worker.thy ===== *)
theory Worker
  imports AgentContext ResumeRules WaitSweeper
begin

text \<open>
  A worker handles one message (src/worker.ts): restore the metadata of a
  resumed execution, join a reply into its task group, run the handler, send the
  reply the caller is owed, emit the final events.

  The handler and the plugins are arbitrary actions on the context. The worker
  has no workspace manager and no sandbox, whose files are not modelled; then
  `persistAgentReturnState` returns at once. The variable
  `permissionTransferred` of the code is set only for an execution with a caller
  and read only in conjunction with having none, so it has no effect.
\<close>

record worker =
  gw_schema :: key_schema
  gw_workerId :: string

record message_options =
  mo_aborted :: bool
  mo_cancelReason :: string
  mo_snapshot :: jobj
  mo_execution :: string

type_synonym handler = "command \<Rightarrow> handler_result ctx_act"


section \<open>Replying\<close>

text \<open>What a reply leaves in the results hash, for the group join and for recovery alike.\<close>

definition result_data :: "command \<Rightarrow> json" where
  "result_data c = JObj [(''status'', JStr (cmd_status c)), (''reply_data'', cmd_replyData c),
     (''content'', cmd_content c), (''target_agent_type'', JStr (sourceAgentType (header c))),
     (''metadata'', JObj (metadata (header c))), (''extra_payload'', JObj (cmd_extraPayload c))]"

definition store_result :: "key_schema \<Rightarrow> string \<Rightarrow> string \<Rightarrow> command \<Rightarrow> unit prog" where
  "store_result sch groupId child c =
     seqP (hsetP (task_group_results sch groupId) child (json_stringify (result_data c)))
       (bindP (expireP (task_group_results sch groupId) TASK_GROUP_TTL_SECONDS) (\<lambda>_. Ret ()))"

definition persistSingleCallResult :: "key_schema \<Rightarrow> message_header \<Rightarrow> command \<Rightarrow> unit prog" where
  "persistSingleCallResult sch h callbackMsg =
     (if taskGroupId h \<noteq> [] \<or> messageId h = [] then Ret ()
      else catchP (store_result sch (singleCallTaskGroupId (messageId h)) (messageId h) callbackMsg) (\<lambda>_. Ret ()))"

text \<open>
  The loop of `xaddWithRetry` with the attempts left and the number of the next
  one. Without an attempt the code throws the undefined last error.
\<close>

primrec xadd_attempts :: "nat \<Rightarrow> int \<Rightarrow> key \<Rightarrow> string \<Rightarrow> unit prog" where
  "xadd_attempts 0 attempt stream payload = Raise (JsError ''undefined'')"
| "xadd_attempts (Suc n) attempt stream payload =
     catchP (xaddP stream payload) (\<lambda>e.
       if n = 0 then Raise e
       else seqP (sleepP (FIRST_RETRY_WAIT_MS * attempt)) (xadd_attempts n (attempt + 1) stream payload))"

definition xaddWithRetry :: "key \<Rightarrow> string \<Rightarrow> unit prog" where
  "xaddWithRetry stream payload = xadd_attempts MAX_RETRY_COUNT 1 stream payload"

record return_options =
  ro_content :: json
  ro_metadata :: jobj
  ro_extraPayload :: jobj

definition no_return_options :: return_options where
  "no_return_options = \<lparr>ro_content = JStr [], ro_metadata = [], ro_extraPayload = []\<rparr>"

definition return_header :: "worker \<Rightarrow> message_header \<Rightarrow> string \<Rightarrow> return_options \<Rightarrow> message_header" where
  "return_header w h callerMessageId opts =
     (mk_header callerMessageId (sessionId h) (traceId h))
       \<lparr>sourceAgentType := str_or (targetAgentType h) (gw_workerId w), targetAgentType := sourceAgentType h,
        parentMessageId := messageId h, taskGroupId := taskGroupId h, userCode := userCode h, userName := userName h,
        metadata := ospread (ospread [] (metadata h)) (ro_metadata opts)\<rparr>"

definition return_command :: "worker \<Rightarrow> message_header \<Rightarrow> string \<Rightarrow> string \<Rightarrow> json \<Rightarrow> return_options \<Rightarrow> command" where
  "return_command w h callerMessageId status replyData opts =
     ResumeCommand (return_header w h callerMessageId opts) (ro_content opts) status replyData (ro_extraPayload opts)"

definition enqueueAgentReturn :: "worker \<Rightarrow> command \<Rightarrow> string \<Rightarrow> json \<Rightarrow> return_options \<Rightarrow> unit prog" where
  "enqueueAgentReturn w c status replyData opts =
     (let h = header c in
      if sourceAgentType h = [] then Ret ()
      else bindP (if parentMessageId h = [] then generateMessageId else Ret (parentMessageId h)) (\<lambda>callerMessageId.
        case check_command (return_command w h callerMessageId status replyData opts) of
          Inl e \<Rightarrow> Raise e
        | Inr callbackMsg \<Rightarrow>
            seqP (persistSingleCallResult (gw_schema w) h callbackMsg)
              (xaddWithRetry (ctrl_stream (gw_schema w) (targetAgentType (header callbackMsg)))
                 (command_payload callbackMsg))))"


section \<open>The group join\<close>

definition expired_group_result :: "message_header \<Rightarrow> task_result" where
  "expired_group_result h = AgentTaskResult (Some FAILED) (JStr [])
     (JObj [(''error'', JStr (''Task group '' @ taskGroupId h @ '' expired before all replies arrived'')),
        (''error_code'', JStr TASK_GROUP_EXPIRED), (''task_group_id'', JStr (taskGroupId h)),
        (''child_message_id'', JStr (parentMessageId h))]) [] []"

definition aborted_group_result :: task_result where
  "aborted_group_result = status_result (CANCELLED @ '': group_aborted'')"

definition waiting_group_result :: task_result where
  "waiting_group_result = status_result (WAITING_AGENT @ '': waiting_for_group'')"

text \<open>`completed < parseInt(totalStr, 10)`: a total that is no number makes it false.\<close>

definition below_total :: "int \<Rightarrow> string \<Rightarrow> bool" where
  "below_total completed totalStr = (case js_parseInt (js_trim totalStr) of None \<Rightarrow> False | Some n \<Rightarrow> completed < n)"

text \<open>None when the caller goes on, with the group complete; else what the message ends with.\<close>

definition groupJoin :: "key_schema \<Rightarrow> command \<Rightarrow> task_result option prog" where
  "groupJoin sch c =
     (let h = header c; groupKey = task_group sch (taskGroupId h) in
      if taskGroupId h = [] then Ret None
      else bindP (hgetP groupKey TASK_GROUP_FIELD_TOTAL) (\<lambda>totalStr. case totalStr of
          None \<Rightarrow> Ret (Some (expired_group_result h))
        | Some n \<Rightarrow> bindP (hgetP groupKey TASK_GROUP_FIELD_ABORTED) (\<lambda>aborted.
            if opt_or aborted [] \<noteq> [] then Ret (Some aborted_group_result)
            else seqP (store_result sch (taskGroupId h) (parentMessageId h) c)
              (bindP (hincrbyP groupKey TASK_GROUP_FIELD_COMPLETED 1) (\<lambda>completed.
                 if below_total completed n then Ret (Some waiting_group_result) else Ret None)))))"


section \<open>After the handler\<close>

definition applySuspendedStatus :: "task_result \<Rightarrow> agent_context \<Rightarrow> task_result" where
  "applySuspendedStatus r c =
     (if ac_suspendedState c = [] \<or> isTerminalState (tr_status r) then r else r\<lparr>tr_status := ac_suspendedState c\<rparr>)"

definition finalMessage :: "task_result \<Rightarrow> string option" where
  "finalMessage r =
     (case tr_content r of
        JStr (x # xs) \<Rightarrow> Some (x # xs)
      | _ \<Rightarrow> (case tr_replyData r of
          JStr (x # xs) \<Rightarrow> Some (x # xs)
        | JNull \<Rightarrow> None
        | v \<Rightarrow> Some (json_stringify v)))"

text \<open>A reply to the caller with the hooks around it; on the success path its failure is rethrown.\<close>

definition replyToCaller :: "worker \<Rightarrow> host \<Rightarrow> command \<Rightarrow> command \<Rightarrow> string \<Rightarrow> json \<Rightarrow> return_options option \<Rightarrow> bool
    \<Rightarrow> unit ctx_act" where
  "replyToCaller w h c reply status replyData opts rethrow =
     (let info = \<lparr>ri_status = status, ri_replyData = replyData, ri_content = map_option ro_content opts,
                  ri_metadata = map_option ro_metadata opts, ri_extraPayload = map_option ro_extraPayload opts\<rparr>
      in seqA (runHook h (OnAgentReturnStart c info))
        (catchA
          (seqA (liftA (enqueueAgentReturn w reply status replyData (opt_or opts no_return_options)))
             (runHook h (OnAgentReturnComplete c info)))
          (\<lambda>e. seqA (runHook h (OnAgentReturnError c info e)) (if rethrow then raiseA e else doneA ()))))"

definition endStream :: "host \<Rightarrow> unit ctx_act" where
  "endStream h = context_emitChunk h (ChunkText []) APP_STREAM_RESPONSE"

definition emitOutcome :: "host \<Rightarrow> bool \<Rightarrow> task_result \<Rightarrow> unit ctx_act" where
  "emitOutcome h hasSourceAgent r =
     seqA (bindA (readA ac_finalAnswerEmitted) (\<lambda>emitted. case finalMessage r of
         Some m \<Rightarrow> whenA (\<not> emitted) (context_emitChunk h (ChunkText m) FINAL_ANSWER)
       | None \<Rightarrow> doneA ()))
     (bindA (readA id) (\<lambda>c.
        if \<not> hasSourceAgent \<and> isTerminalState (tr_status r) \<and> \<not> ac_isSuspended c
        then whenA (\<not> ac_streamFinished c) (endStream h)
        else flushToHistory h))"

definition finishTask :: "worker \<Rightarrow> host \<Rightarrow> command \<Rightarrow> command option \<Rightarrow> handler_result \<Rightarrow> task_result ctx_act" where
  "finishTask w h c reply out =
     bindA takePendingGroupReplies (\<lambda>replies.
     seqA (liftA (flushPendingGroupReplies (gw_schema w) replies))
     (bindA (checkedA (normalizeProcessResult out)) (\<lambda>normalized.
      bindA (readA id) (\<lambda>ctx.
        let isSuspended = ac_isSuspended ctx \<and> \<not> isTerminalState (tr_status normalized);
            r = applySuspendedStatus normalized ctx
        in seqA (case reply of
               Some rc \<Rightarrow> whenA (\<not> isSuspended) (replyToCaller w h c rc (tr_status r) (tr_replyData r)
                  (Some \<lparr>ro_content = tr_content r, ro_metadata = tr_metadata r, ro_extraPayload = tr_extraPayload r\<rparr>) True)
             | None \<Rightarrow> doneA ())
           (seqA (runHook h (OnTaskComplete out))
           (seqA (emitOutcome h (reply \<noteq> None) r)
             (doneA (r\<lparr>tr_finalAnswer := opt_or (finalMessage r) []\<rparr>))))))))"


section \<open>Errors\<close>

definition isCancellation :: "js_error \<Rightarrow> bool" where
  "isCancellation e = (error_name e = ''TaskCancelledError'')"

definition closeStream :: "host \<Rightarrow> command option \<Rightarrow> unit ctx_act" where
  "closeStream h reply = (if reply = None then endStream h else flushToHistory h)"

definition callerCancelled :: "worker \<Rightarrow> command \<Rightarrow> command \<Rightarrow> bool prog" where
  "callerCancelled w c reply =
     (let callerMessageId = parentMessageId (header reply) in
      if callerMessageId = [] then Ret False
      else bindP (getExecutionByMessageId (gw_schema w) callerMessageId (sessionId (header c))) (\<lambda>parentExec.
        Ret (opt_truthy (case parentExec of None \<Rightarrow> None | Some x \<Rightarrow> jget x ''cancel_requested''))))"

definition onCancelled :: "worker \<Rightarrow> host \<Rightarrow> command \<Rightarrow> command option \<Rightarrow> js_error \<Rightarrow> task_result ctx_act" where
  "onCancelled w h c reply e =
     seqA (case reply of
         None \<Rightarrow> doneA ()
       | Some rc \<Rightarrow> bindA (liftA (callerCancelled w c rc)) (\<lambda>cancelled. whenA (\<not> cancelled)
           (replyToCaller w h c rc CANCELLED (JObj [(''reason'', JStr (error_message e))]) None False)))
     (seqA (closeStream h reply) (doneA (status_result CANCELLED)))"

definition onFailed :: "worker \<Rightarrow> host \<Rightarrow> command \<Rightarrow> command option \<Rightarrow> js_error \<Rightarrow> task_result ctx_act" where
  "onFailed w h c reply e =
     seqA (case reply of
         None \<Rightarrow> doneA ()
       | Some rc \<Rightarrow> replyToCaller w h c rc FAILED (JObj [(''error'', JStr (error_String e))]) None False)
     (seqA (runHook h (OnTaskError e))
     (seqA (closeStream h reply) (doneA (status_result FAILED))))"


section \<open>One message\<close>

definition saveUserMessage :: "host \<Rightarrow> command \<Rightarrow> unit ctx_act" where
  "saveUserMessage h c = (case c of
     AskAgentCommand hdr ct wt x \<Rightarrow> liftA (h_history h (sessionId hdr) ''user'' ct
       [(''message_id'', JStr (messageId hdr)), (''trace_id'', JStr (traceId hdr))])
   | _ \<Rightarrow> doneA ())"

definition checkNotCancelled :: "unit ctx_act" where
  "checkNotCancelled = bindA (readA id) (\<lambda>ctx. if ac_aborted ctx
     then raiseA (TaskCancelledError (str_or (ac_cancelReason ctx) ''task cancelled before processing''))
     else doneA ())"

definition joinReply :: "worker \<Rightarrow> command \<Rightarrow> task_result option ctx_act" where
  "joinReply w c =
     (if isResumeCommand c
      then bindA (liftA (groupJoin (gw_schema w) c)) (\<lambda>early. case early of
          Some r \<Rightarrow> doneA (Some r)
        | None \<Rightarrow> seqA (context_emitState (StateEvent RESUMED None) []) (doneA None))
      else doneA None)"

definition processTask :: "worker \<Rightarrow> host \<Rightarrow> handler \<Rightarrow> command \<Rightarrow> command \<Rightarrow> command option \<Rightarrow> task_result ctx_act" where
  "processTask w h handler c inbound reply =
     seqA (runHook h OnTaskStart)
     (seqA (saveUserMessage h c)
     (seqA checkNotCancelled
     (bindA (joinReply w c) (\<lambda>early. case early of
          Some r \<Rightarrow> doneA r
        | None \<Rightarrow> bindA (handler inbound) (finishTask w h c reply)))))"

definition message_context :: "worker \<Rightarrow> command \<Rightarrow> message_options \<Rightarrow> string \<Rightarrow> agent_context" where
  "message_context w inbound opts trace =
     new_AgentContext (gw_schema w) (sessionId (header inbound)) trace (targetAgentType (header inbound))
       (messageId (header inbound)) (Some inbound) (mo_aborted opts) (mo_cancelReason opts) (mo_execution opts)"

definition handleMessage :: "worker \<Rightarrow> host \<Rightarrow> handler \<Rightarrow> command \<Rightarrow> message_options
    \<Rightarrow> ((js_error + task_result) \<times> agent_context) prog" where
  "handleMessage w h handler c opts =
     bindP (if traceId (header c) \<noteq> [] then Ret (traceId (header c)) else bindP uuidP (\<lambda>u. Ret (strip_dashes u)))
       (\<lambda>trace.
          let inbound = restoreInboundMetadata c (mo_snapshot opts);
              reply = resolveReplyCommand c (mo_snapshot opts)
          in settled (catchA (processTask w h handler c inbound reply)
               (\<lambda>e. if isCancellation e then onCancelled w h c reply e else onFailed w h c reply e))
             (message_context w inbound opts trace))"

end
