(* ===== verification/WorkerRuns.thy ===== *)
theory WorkerRuns
  imports Worker Triage
begin

text \<open>
  What the worker's programs do, in an embedding without plugins and with a
  history that is not kept in Redis: the rules the properties of the worker
  rest on. Messages on a session's data stream are events for its reader; the
  others, on control streams, are what wakes an agent.
\<close>

definition plain_host :: "host \<Rightarrow> bool" where
  "plain_host h \<longleftrightarrow> (\<forall>k. h_plugin h k = doneA ()) \<and> (\<forall>s r ct md. h_history h s r ct md = Ret ())"

lemma plain_hook [simp]: "plain_host h \<Longrightarrow> wpA exec (runHook h k) Q E = Q ()"
  by (simp add: plain_host_def runHook_def)

lemma plain_history [simp]: "plain_host h \<Longrightarrow> h_history h s r ct md = Ret ()"
  by (simp add: plain_host_def)


section \<open>Talking to the session only\<close>

definition apart :: "key \<Rightarrow> (key \<times> string) list \<Rightarrow> (key \<times> string) list" where
  "apart k ms = filter (\<lambda>m. fst m \<noteq> k) ms"

lemma apart_simps [simp]:
  "apart k [] = []" "apart k (m # ms) = (if fst m = k then apart k ms else m # apart k ms)"
  "apart k (ms @ ms') = apart k ms @ apart k ms'"
  by (simp_all add: apart_def)

text \<open>What only the context's reporting changes of it.\<close>

definition said :: "agent_context \<Rightarrow> agent_context \<Rightarrow> bool" where
  "said c c' \<longleftrightarrow> c' = c\<lparr>ac_buffer := ac_buffer c', ac_chunkCount := ac_chunkCount c',
     ac_streamFinished := ac_streamFinished c', ac_historySaved := ac_historySaved c'\<rparr>"

lemma said_refl [simp]: "said c c"
  by (simp add: said_def)

lemma said_fields:
  assumes "said c c'"
  shows "ac_schema c' = ac_schema c" "ac_session c' = ac_session c" "ac_isSuspended c' = ac_isSuspended c"
    "ac_suspendedState c' = ac_suspendedState c" "ac_pending c' = ac_pending c" "ac_finalAnswerEmitted c' = ac_finalAnswerEmitted c"
proof -
  define b n f s where vars: "b = ac_buffer c'" "n = ac_chunkCount c'" "f = ac_streamFinished c'" "s = ac_historySaved c'"
  have c': "c' = c\<lparr>ac_buffer := b, ac_chunkCount := n, ac_streamFinished := f, ac_historySaved := s\<rparr>"
    using assms unfolding said_def vars .
  show "ac_schema c' = ac_schema c" "ac_session c' = ac_session c" "ac_isSuspended c' = ac_isSuspended c"
    "ac_suspendedState c' = ac_suspendedState c" "ac_pending c' = ac_pending c" "ac_finalAnswerEmitted c' = ac_finalAnswerEmitted c"
    unfolding c' by simp_all
qed

lemma said_updates [simp]:
  "said c (c\<lparr>ac_historySaved := b\<rparr>)" "said c (c\<lparr>ac_streamFinished := b\<rparr>)" "said c (count_chunk ct c)"
  by (simp_all add: said_def count_chunk_def)

lemma said_trans [trans]: "said c c' \<Longrightarrow> said c' c'' \<Longrightarrow> said c c''"
proof -
  assume a: "said c c'" and b: "said c' c''"
  have "c'' = c'\<lparr>ac_buffer := ac_buffer c'', ac_chunkCount := ac_chunkCount c'',
     ac_streamFinished := ac_streamFinished c'', ac_historySaved := ac_historySaved c''\<rparr>" using b by (simp add: said_def)
  also have "\<dots> = c\<lparr>ac_buffer := ac_buffer c'', ac_chunkCount := ac_chunkCount c'',
     ac_streamFinished := ac_streamFinished c'', ac_historySaved := ac_historySaved c''\<rparr>"
    by (subst a [unfolded said_def]) simp
  finally show "said c c''" unfolding said_def .
qed

definition data_stream :: "agent_context \<Rightarrow> key" where
  "data_stream c = session_data_stream (ac_schema c) (ac_session c)"

lemma said_stream: "said c c' \<Longrightarrow> data_stream c' = data_stream c"
  by (simp add: data_stream_def said_fields)

context redis_available
begin

definition talk :: "key \<Rightarrow> 'a config \<Rightarrow> 'a config \<Rightarrow> bool" where
  "talk k \<sigma> \<sigma>' \<longleftrightarrow> kv (fst \<sigma>') = kv (fst \<sigma>) \<and> clk (fst \<sigma>) \<le> clk (fst \<sigma>') \<and>
     apart k (sent (snd \<sigma>')) = apart k (sent (snd \<sigma>))"

lemma talk_refl [simp]: "talk k \<sigma> \<sigma>"
  by (simp add: talk_def)

lemma talk_trans [trans]: "talk k \<sigma> \<sigma>' \<Longrightarrow> talk k \<sigma>' \<sigma>'' \<Longrightarrow> talk k \<sigma> \<sigma>''"
  by (auto simp: talk_def)

lemma quiet_talk: "quiet \<sigma> \<sigma>' \<Longrightarrow> talk k \<sigma> \<sigma>'"
  by (simp add: talk_def quiet_def)

lemma talk_emit_layout:
  assumes "data_stream_name sch em session = k" and "\<And>\<sigma>'. talk k \<sigma> \<sigma>' \<Longrightarrow> Q () \<sigma>'"
  shows "wp exec (emit_layout sch em session trace ty opts sse md) Q E \<sigma>"
  unfolding emit_layout_def buildSseLayout_def wp_bindP
proof (rule quiet_uuidP, rule quiet_nowP, goal_cases)
  case (1 \<sigma>1 u \<sigma>2)
  obtain s2 l2 where \<sigma>2: "\<sigma>2 = (s2, l2)" by (cases \<sigma>2)
  have "talk k \<sigma> \<sigma>2" using 1 quiet_trans quiet_talk by blast
  then show ?case
    unfolding wp_Ret \<sigma>2 using assms
    by (intro wp_emitEvent assms(2)) (auto simp: talk_def)
qed

lemmas emission_defs = emitChunk_def emitState_def emitArtifact_def emitAskUser_def

lemma talk_flush:
  assumes "plain_host h" and "\<And>c'. said c c' \<Longrightarrow> Q () c' \<sigma>"
  shows "wpA exec (flushToHistory h) Q E c \<sigma>"
  using assms by (simp add: flushToHistory_def)

lemma talk_chunk:
  assumes "plain_host h" and Q: "\<And>c' \<sigma>'. said c c' \<Longrightarrow> talk (data_stream c) \<sigma> \<sigma>' \<Longrightarrow> Q () c' \<sigma>'"
  shows "wpA exec (context_emitChunk h event ty) Q E c \<sigma>"
proof -
  define c1 where "c1 = count_chunk (chunk_content event) c"
  have c1: "said c c1" unfolding c1_def by simp
  have ends: "wpA exec (whenA (ty = APP_STREAM_RESPONSE)
      (seqA (writeA (ac_streamFinished_update (\<lambda>_. True))) (flushToHistory h))) Q E c1 \<sigma>'"
    if "talk (data_stream c) \<sigma> \<sigma>'" for \<sigma>'
  proof -
    have "wpA exec (flushToHistory h) Q E (c1\<lparr>ac_streamFinished := True\<rparr>) \<sigma>'"
      using said_trans [OF c1 said_updates(2)] that by (intro talk_flush [OF assms(1)] Q) (rule said_trans)
    then show ?thesis using Q [OF c1 that] by simp
  qed
  show ?thesis
    unfolding context_emitChunk_def wpA_seqA wpA_bindA wpA_writeA wpA_readA wpA_liftA id_apply c1_def [symmetric]
      emitChunk_def Let_def
    by (rule talk_emit_layout [where k = "data_stream c"])
       (simp add: data_stream_name_def context_emitter_def data_stream_def said_fields(1,2) [OF c1], rule ends)
qed

lemma talk_state:
  assumes "\<And>\<sigma>'. talk (data_stream c) \<sigma> \<sigma>' \<Longrightarrow> Q () c \<sigma>'"
  shows "wpA exec (context_emitState event ty) Q E c \<sigma>"
  unfolding context_emitState_def emitState_def wpA_bindA wpA_readA wpA_liftA id_apply
  by (intro talk_emit_layout [where k = "data_stream c"] assms)
     (auto simp: data_stream_name_def context_emitter_def data_stream_def)

lemma talk_closing:
  assumes "plain_host h" and "\<And>c' \<sigma>'. said c c' \<Longrightarrow> talk (data_stream c) \<sigma> \<sigma>' \<Longrightarrow> Q () c' \<sigma>'"
  shows "wpA exec (closeStream h reply) Q E c \<sigma>" "wpA exec (endStream h) Q E c \<sigma>" "wpA exec (flushToHistory h) Q E c \<sigma>"
proof -
  show fin: "wpA exec (endStream h) Q E c \<sigma>"
    unfolding endStream_def by (rule talk_chunk [OF assms(1)]) (rule assms(2))
  show flush: "wpA exec (flushToHistory h) Q E c \<sigma>"
    by (rule talk_flush [OF assms(1)]) (rule assms(2), simp_all)
  show "wpA exec (closeStream h reply) Q E c \<sigma>"
    unfolding closeStream_def using fin flush by simp
qed

lemma talk_outcome:
  assumes "plain_host h" and Q: "\<And>c' \<sigma>'. said c c' \<Longrightarrow> talk (data_stream c) \<sigma> \<sigma>' \<Longrightarrow> Q () c' \<sigma>'"
  shows "wpA exec (emitOutcome h b r) Q E c \<sigma>"
proof -
  define closing where "closing = (\<lambda>ctx :: agent_context. if \<not> b \<and> isTerminalState (tr_status r) \<and> \<not> ac_isSuspended ctx
        then whenA (\<not> ac_streamFinished ctx) (endStream h) else flushToHistory h)"
  have ends: "wpA exec (closing c1) Q E c1 \<sigma>1" if "said c c1" "talk (data_stream c) \<sigma> \<sigma>1" for c1 \<sigma>1
  proof -
    have "Q () c' \<sigma>'" if "said c1 c'" "talk (data_stream c1) \<sigma>1 \<sigma>'" for c' \<sigma>'
      using said_trans [OF \<open>said c c1\<close> that(1)] talk_trans [OF \<open>talk (data_stream c) \<sigma> \<sigma>1\<close>] that(2)
        said_stream [OF \<open>said c c1\<close>] by (intro Q) simp_all
    then show ?thesis
      using talk_closing(2,3) [OF assms(1), of c1 \<sigma>1 Q] Q [OF that] by (simp add: closing_def)
  qed
  have "wpA exec (context_emitChunk h (ChunkText m) FINAL_ANSWER) (\<lambda>_. wpA exec (bindA (readA id) closing) Q E) E c \<sigma>" for m
    by (rule talk_chunk [OF assms(1)]) (simp add: ends)
  moreover have "emitOutcome h b r = seqA (bindA (readA ac_finalAnswerEmitted) (\<lambda>emitted. case finalMessage r of
         Some m \<Rightarrow> whenA (\<not> emitted) (context_emitChunk h (ChunkText m) FINAL_ANSWER) | None \<Rightarrow> doneA ()))
       (bindA (readA id) closing)"
    by (simp add: emitOutcome_def closing_def)
  ultimately show ?thesis
    using ends [OF said_refl talk_refl] by (simp split: option.splits)
qed

end


section \<open>Delivering a reply\<close>

text \<open>What a stored result leaves in the keyspace.\<close>

definition stored_view :: "key_schema \<Rightarrow> string \<Rightarrow> string \<Rightarrow> command \<Rightarrow> view \<Rightarrow> view" where
  "stored_view sch g child c = put_field (task_group_results sch g) child (json_stringify (result_data c))"

definition single_view :: "key_schema \<Rightarrow> message_header \<Rightarrow> command \<Rightarrow> view \<Rightarrow> view" where
  "single_view sch h c v = (if taskGroupId h \<noteq> [] \<or> messageId h = [] then v
     else stored_view sch (singleCallTaskGroupId (messageId h)) (messageId h) c v)"

text \<open>The reply of a header whose parent message is known.\<close>

definition owed_reply :: "worker \<Rightarrow> command \<Rightarrow> string \<Rightarrow> json \<Rightarrow> return_options \<Rightarrow> command" where
  "owed_reply w c st rd opts = return_command w (header c) (parentMessageId (header c)) st rd opts"

definition answerable :: "command \<Rightarrow> bool" where
  "answerable c \<longleftrightarrow> sourceAgentType (header c) \<noteq> [] \<and> parentMessageId (header c) \<noteq> []"

lemma return_command_simps [simp]:
  "header (return_command w h m st rd opts) = return_header w h m opts"
  "cmd_status (return_command w h m st rd opts) = st" "cmd_replyData (return_command w h m st rd opts) = rd"
  "cmd_content (return_command w h m st rd opts) = ro_content opts"
  "cmd_extraPayload (return_command w h m st rd opts) = ro_extraPayload opts"
  by (simp_all add: return_command_def)

lemma return_header_simps [simp]:
  "messageId (return_header w h m opts) = m" "sessionId (return_header w h m opts) = sessionId h"
  "sourceAgentType (return_header w h m opts) = str_or (targetAgentType h) (gw_workerId w)"
  "targetAgentType (return_header w h m opts) = sourceAgentType h"
  "parentMessageId (return_header w h m opts) = messageId h" "taskGroupId (return_header w h m opts) = taskGroupId h"
  "metadata (return_header w h m opts) = ospread (ospread [] (metadata h)) (ro_metadata opts)"
  by (simp_all add: return_header_def mk_header_def)

text \<open>The stand-ins a dispatch queued go out one by one, as these messages.\<close>

definition reply_messages :: "key_schema \<Rightarrow> command list \<Rightarrow> (key \<times> string) list" where
  "reply_messages sch rs = List.map (\<lambda>r. (ctrl_stream sch (targetAgentType (header r)), command_payload r)) rs"

lemma check_return: "st \<noteq> [] \<Longrightarrow> check_command (return_command w h m st rd opts) = Inr (return_command w h m st rd opts)"
  by (simp add: return_command_def check_defs)

context redis_available
begin

text \<open>`delivers k v ms`: the keyspace becomes `v`, and `ms` is what goes out beside events on the data stream `k`.\<close>

definition delivers :: "key \<Rightarrow> view \<Rightarrow> (key \<times> string) list \<Rightarrow> 'a config \<Rightarrow> 'a config \<Rightarrow> bool" where
  "delivers k v ms \<sigma> \<sigma>' \<longleftrightarrow> kv (fst \<sigma>') = v \<and> clk (fst \<sigma>) \<le> clk (fst \<sigma>') \<and>
     apart k (sent (snd \<sigma>')) = apart k (sent (snd \<sigma>)) @ apart k ms"

lemma delivers_talk: "delivers k v ms \<sigma> \<sigma>' \<Longrightarrow> talk k \<sigma>' \<sigma>'' \<Longrightarrow> delivers k v ms \<sigma> \<sigma>''"
  by (auto simp: delivers_def talk_def)

lemma talk_delivers: "talk k \<sigma> \<sigma>' \<Longrightarrow> delivers k v ms \<sigma>' \<sigma>'' \<Longrightarrow> delivers k v ms \<sigma> \<sigma>''"
  by (auto simp: delivers_def talk_def)

lemma talk_is_delivers: "talk k \<sigma> \<sigma>' = delivers k (kv (fst \<sigma>)) [] \<sigma> \<sigma>'"
  by (auto simp: delivers_def talk_def)

lemma wp_store_result:
  assumes "\<And>s'. kv s' = stored_view sch g child c (kv s) \<Longrightarrow> clk s \<le> clk s' \<Longrightarrow>
     oth s' \<subseteq> insert (task_group_results sch g) (oth s) \<Longrightarrow>
     Q () (s', l @ [Hset (task_group_results sch g) child (json_stringify (result_data c)),
             Expire (task_group_results sch g) TASK_GROUP_TTL_SECONDS])"
  shows "wp exec (store_result sch g child c) Q E (s, l)"
  unfolding store_result_def wp_seqP wp_bindP wp_Ret
proof (rule wp_hsetP, rule wp_expireP, goal_cases)
  case (2 s1 s2 n)
  then show ?case by (simp, intro assms) (auto simp: stored_view_def)
qed (simp add: TASK_GROUP_TTL_SECONDS_def)

lemma wp_xaddWithRetry:
  "(\<And>s'. kv s' = kv s \<Longrightarrow> oth s' \<subseteq> insert k (oth s) \<Longrightarrow> clk s \<le> clk s' \<Longrightarrow> Q () (s', l @ [Xadd k d])) \<Longrightarrow>
   wp exec (xaddWithRetry k d) Q E (s, l)"
  by (simp add: xaddWithRetry_def MAX_RETRY_COUNT_def numeral_3_eq_3) (rule wp_xaddP)

lemma wp_persistSingle:
  assumes "\<And>\<sigma>'. delivers k (single_view sch h c (kv (fst \<sigma>))) [] \<sigma> \<sigma>' \<Longrightarrow> Q () \<sigma>'"
  shows "wp exec (persistSingleCallResult sch h c) Q E \<sigma>"
proof (cases "taskGroupId h \<noteq> [] \<or> messageId h = []")
  case True
  then show ?thesis
    using assms by (simp add: persistSingleCallResult_def single_view_def delivers_def)
next
  case False
  obtain s l where \<sigma>: "\<sigma> = (s, l)" by (cases \<sigma>)
  have "wp exec (store_result sch (singleCallTaskGroupId (messageId h)) (messageId h) c) Q E' (s, l)" for E'
    by (rule wp_store_result) (use assms False in \<open>simp add: delivers_def single_view_def \<sigma>\<close>)
  then show ?thesis
    using False by (simp add: persistSingleCallResult_def \<sigma>)
qed

lemma wp_enqueueAgentReturn:
  assumes "answerable c" "st \<noteq> []"
    and Q: "\<And>\<sigma>'. delivers k (single_view (gw_schema w) (header c) (owed_reply w c st rd opts) (kv (fst \<sigma>)))
        [(ctrl_stream (gw_schema w) (sourceAgentType (header c)), command_payload (owed_reply w c st rd opts))] \<sigma> \<sigma>' \<Longrightarrow> Q () \<sigma>'"
  shows "wp exec (enqueueAgentReturn w c st rd opts) Q E \<sigma>"
proof -
  let ?m = "owed_reply w c st rd opts" and ?v = "single_view (gw_schema w) (header c) (owed_reply w c st rd opts) (kv (fst \<sigma>))"
  have send: "wp exec (xaddWithRetry (ctrl_stream (gw_schema w) (sourceAgentType (header c))) (command_payload ?m)) Q E \<sigma>1"
    if "delivers k ?v [] \<sigma> \<sigma>1" for \<sigma>1
  proof (cases \<sigma>1)
    case (Pair s1 l1)
    show ?thesis
      unfolding Pair by (rule wp_xaddWithRetry, rule Q) (use that in \<open>auto simp: delivers_def Pair\<close>)
  qed
  have "wp exec (persistSingleCallResult (gw_schema w) (header c) ?m)
      (\<lambda>_. wp exec (xaddWithRetry (ctrl_stream (gw_schema w) (sourceAgentType (header c))) (command_payload ?m)) Q E) E \<sigma>"
    by (rule wp_persistSingle) (rule send)
  then show ?thesis
    using assms(1,2) by (simp add: enqueueAgentReturn_def answerable_def check_return owed_reply_def Let_def)
qed

lemma wp_replyToCaller:
  assumes "plain_host h" "answerable reply" "st \<noteq> []"
    and Q: "\<And>\<sigma>'. delivers k (single_view (gw_schema w) (header reply)
          (owed_reply w reply st rd (opt_or opts no_return_options)) (kv (fst \<sigma>)))
        [(ctrl_stream (gw_schema w) (sourceAgentType (header reply)),
          command_payload (owed_reply w reply st rd (opt_or opts no_return_options)))] \<sigma> \<sigma>' \<Longrightarrow> Q () c \<sigma>'"
  shows "wpA exec (replyToCaller w h cmd reply st rd opts rethrow) Q E c \<sigma>"
proof -
  have "wp exec (enqueueAgentReturn w reply st rd (opt_or opts no_return_options)) (\<lambda>_. Q () c) E' \<sigma>" for E'
    using assms(2,3) by (rule wp_enqueueAgentReturn) (rule Q)
  then show ?thesis
    using assms(1) by (simp add: replyToCaller_def Let_def)
qed

lemma wp_flushPending:
  assumes "\<And>\<sigma>'. delivers k (kv (fst \<sigma>)) (reply_messages sch rs) \<sigma> \<sigma>' \<Longrightarrow> Q () \<sigma>'"
  shows "wp exec (flushPendingGroupReplies sch rs) Q E \<sigma>"
  using assms
proof (induction rs arbitrary: \<sigma>)
  case Nil
  then show ?case by (simp add: flushPendingGroupReplies_def reply_messages_def delivers_def)
next
  case (Cons r rs)
  obtain s l where \<sigma>: "\<sigma> = (s, l)" by (cases \<sigma>)
  have "wp exec (xaddP (ctrl_stream sch (targetAgentType (header r))) (command_payload r))
      (\<lambda>_. wp exec (flushPendingGroupReplies sch rs) Q E) E' (s, l)" for E'
  proof (rule wp_xaddP, rule Cons.IH, rule Cons.prems, goal_cases)
    case (1 s' \<sigma>')
    then show ?case by (auto simp: delivers_def reply_messages_def \<sigma>)
  qed
  then show ?case by (simp add: flushPendingGroupReplies_def \<sigma>)
qed

end

end
