(* ===== verification/WorkerContracts.thy ===== *)
theory WorkerContracts
  imports WorkerRuns
begin

text \<open>
  The worker's promises: a group's replies are booked once each and only the
  last one lets the caller go on; a suspended execution is silent and any other
  answers its caller once; a resumed execution answers whoever dispatched it.
\<close>


section \<open>The books of a task group\<close>

lemma js_parseInt_nat: "js_parseInt (int_str (int n)) = Some (int n)"
proof -
  have "takeWhile is_digit (nat_str n) = nat_str n"
    using nat_str_digits [of n] by (simp add: takeWhile_all list_all_iff)
  moreover have "\<not> startsWith (nat_str n) ''-''" "\<not> startsWith (nat_str n) ''+''"
    using nat_str_hd_digit [of n] by (auto simp: startsWith_iff is_digit_def)
  ultimately show ?thesis
    by (simp add: js_parseInt_def int_str_def Let_def del: takeWhile_eq_all_conv)
qed

lemma below_total_nat [simp]: "below_total k (int_str (int n)) = (k < int n)"
  by (simp add: below_total_def js_parseInt_nat)

text \<open>A live group of `n` members of which `k` have answered.\<close>

definition group_books :: "view \<Rightarrow> key_schema \<Rightarrow> string \<Rightarrow> nat \<Rightarrow> nat \<Rightarrow> bool" where
  "group_books v sch g n k \<longleftrightarrow>
     v_hash v (task_group sch g) TASK_GROUP_FIELD_TOTAL = Some (int_str (int n))
     \<and> opt_or (v_hash v (task_group sch g) TASK_GROUP_FIELD_ABORTED) [] = []
     \<and> v_hash v (task_group sch g) TASK_GROUP_FIELD_COMPLETED = Some (int_str (int k))"

definition dead_group :: "view \<Rightarrow> key_schema \<Rightarrow> string \<Rightarrow> bool" where
  "dead_group v sch g \<longleftrightarrow> v_hash v (task_group sch g) TASK_GROUP_FIELD_TOTAL = None
     \<or> opt_or (v_hash v (task_group sch g) TASK_GROUP_FIELD_ABORTED) [] \<noteq> []"

definition joined_view :: "key_schema \<Rightarrow> command \<Rightarrow> nat \<Rightarrow> view \<Rightarrow> view" where
  "joined_view sch c k v = put_field (task_group sch (taskGroupId (header c))) TASK_GROUP_FIELD_COMPLETED
     (int_str (int k)) (stored_view sch (taskGroupId (header c)) (parentMessageId (header c)) c v)"

lemma group_fields_differ [simp]:
  "TASK_GROUP_FIELD_TOTAL \<noteq> TASK_GROUP_FIELD_COMPLETED" "TASK_GROUP_FIELD_ABORTED \<noteq> TASK_GROUP_FIELD_COMPLETED"
  "TASK_GROUP_FIELD_TOTAL \<noteq> TASK_GROUP_FIELD_ABORTED"
  by (simp_all add: TASK_GROUP_FIELD_TOTAL_def TASK_GROUP_FIELD_COMPLETED_def TASK_GROUP_FIELD_ABORTED_def)

lemma joined_books: "group_books v sch g n k' \<Longrightarrow> taskGroupId (header c) = g \<Longrightarrow> group_books (joined_view sch c k v) sch g n k"
  by (simp add: group_books_def joined_view_def stored_view_def)

context redis_available
begin

lemma wp_groupJoin:
  assumes "taskGroupId (header c) \<noteq> []" "group_books (kv s) sch (taskGroupId (header c)) n k"
    and "\<And>s' l'. kv s' = joined_view sch c (Suc k) (kv s) \<Longrightarrow> sent l' = sent l \<Longrightarrow> clk s \<le> clk s' \<Longrightarrow>
      oth s' \<subseteq> insert (task_group sch (taskGroupId (header c))) (insert (task_group_results sch (taskGroupId (header c))) (oth s)) \<Longrightarrow>
      Q (if Suc k < n then Some waiting_group_result else None) (s', l')"
  shows "wp exec (groupJoin sch c) Q E (s, l)"
proof -
  let ?g = "taskGroupId (header c)"
  have count: "wp exec (hincrbyP (task_group sch ?g) TASK_GROUP_FIELD_COMPLETED 1)
      (\<lambda>completed. wp exec (if completed < int n then Ret (Some waiting_group_result) else Ret None) Q E) E (s3, l3)"
    if "kv s3 = stored_view sch ?g (parentMessageId (header c)) c (kv s)" "sent l3 = sent l" "clk s \<le> clk s3"
      "oth s3 \<subseteq> insert (task_group_results sch ?g) (oth s)" for s3 l3
  proof (rule wp_hincrbyP [where m = "int k"], goal_cases)
    case 1
    then show ?case using that assms(2) by (simp add: group_books_def stored_view_def)
  next
    case (2 s')
    have "kv s' = joined_view sch c (Suc k) (kv s)"
      using 2 that(1) by (simp add: joined_view_def add.commute)
    then have "Q (if Suc k < n then Some waiting_group_result else None) (s', l3 @ [Hincrby (task_group sch ?g) TASK_GROUP_FIELD_COMPLETED 1])"
      using 2 that by (intro assms(3)) auto
    then show ?case by (simp add: add.commute split: if_splits)
  qed
  have "wp exec (store_result sch ?g (parentMessageId (header c)) c)
      (\<lambda>_. wp exec (hincrbyP (task_group sch ?g) TASK_GROUP_FIELD_COMPLETED 1)
        (\<lambda>completed. wp exec (if completed < int n then Ret (Some waiting_group_result) else Ret None) Q E) E) E (s2, l2)"
    if "kv s2 = kv s" "sent l2 = sent l" "oth s2 \<subseteq> oth s" "clk s \<le> clk s2" for s2 l2
    by (rule wp_store_result, rule count) (use that in auto)
  then show ?thesis
    using assms(1,2)
    by (simp add: groupJoin_def Let_def group_books_def opt_or_def)
       (auto intro!: wp_hgetP split: option.splits if_splits)
qed

lemma wp_groupJoin_dead:
  assumes "taskGroupId (header c) \<noteq> []" "dead_group (kv (fst \<sigma>)) sch (taskGroupId (header c))"
    and "\<And>\<sigma>'. quiet \<sigma> \<sigma>' \<Longrightarrow> Q (Some (if v_hash (kv (fst \<sigma>)) (task_group sch (taskGroupId (header c))) TASK_GROUP_FIELD_TOTAL = None
        then expired_group_result (header c) else aborted_group_result)) \<sigma>'"
  shows "wp exec (groupJoin sch c) Q E \<sigma>"
proof -
  have "wp exec (hgetP (task_group sch (taskGroupId (header c))) TASK_GROUP_FIELD_ABORTED) (\<lambda>aborted.
      wp exec (if opt_or aborted [] \<noteq> [] then Ret (Some aborted_group_result) else p) Q E) E \<sigma>1"
    if q: "quiet \<sigma> \<sigma>1" and n: "v_hash (kv (fst \<sigma>)) (task_group sch (taskGroupId (header c))) TASK_GROUP_FIELD_TOTAL \<noteq> None" for \<sigma>1 p
  proof (rule quiet_hgetP, goal_cases)
    case (1 \<sigma>2)
    have "quiet \<sigma> \<sigma>2" using q 1 by (rule quiet_trans)
    moreover have "kv (fst \<sigma>1) = kv (fst \<sigma>)" using q by (simp add: quiet_def)
    ultimately show ?case using assms(2,3) n by (simp add: dead_group_def)
  qed
  then show ?thesis
    using assms by (auto simp: groupJoin_def Let_def intro!: quiet_hgetP split: option.splits)
qed

end


section \<open>Replies to a group, gated and joined\<close>

text \<open>
  What a reply goes through on its way to the books: the gate of the message
  loop, then, when it is let in, the join of the worker. None for a reply that is
  dropped.
\<close>

definition gated_join :: "key_schema \<Rightarrow> command \<Rightarrow> task_result option option prog" where
  "gated_join sch c = bindP (consumeWaitEntry sch (header c)) (\<lambda>d.
     if allow d then bindP (groupJoin sch c) (\<lambda>r. Ret (Some r)) else Ret None)"

definition deliveries :: "key_schema \<Rightarrow> command list \<Rightarrow> task_result option option list prog" where
  "deliveries sch ds = foldP (\<lambda>acc c. bindP (gated_join sch c) (\<lambda>r. Ret (acc @ [r]))) [] ds"

text \<open>The replies of one group: one caller, one group, a sub-task each.\<close>

definition siblings :: "string \<Rightarrow> command list \<Rightarrow> bool" where
  "siblings g rs \<longleftrightarrow> g \<noteq> [] \<and> distinct (List.map (\<lambda>c. parentMessageId (header c)) rs)
     \<and> (\<exists>x p. \<forall>c\<in>set rs. taskGroupId (header c) = g \<and> sessionId (header c) = x \<and> messageId (header c) = p)"

definition awaited :: "view \<Rightarrow> key_schema \<Rightarrow> command \<Rightarrow> bool" where
  "awaited v sch c \<longleftrightarrow> v_zset v (waitIndexKey sch (sessionId (header c))) (memberFromResume (header c)) \<noteq> None"

definition booked :: "view \<Rightarrow> key_schema \<Rightarrow> command \<Rightarrow> bool" where
  "booked v sch c \<longleftrightarrow> \<not> awaited v sch c
     \<and> v_str v (consumedMarkerKey sch (sessionId (header c)) (memberFromResume (header c))) \<noteq> None
     \<and> v_hash v (task_group_results sch (taskGroupId (header c))) (parentMessageId (header c))
         = Some (json_stringify (result_data c))"

text \<open>What becomes of the i-th delivery: a repetition is dropped, the last new one completes the group.\<close>

definition delivery_outcome :: "nat \<Rightarrow> command list \<Rightarrow> nat \<Rightarrow> task_result option option" where
  "delivery_outcome n ds i = (if ds ! i \<in> set (take i ds) then None
     else Some (if card (set (take (Suc i) ds)) < n then Some waiting_group_result else None))"

definition group_progress :: "key_schema \<Rightarrow> string \<Rightarrow> command list \<Rightarrow> command list \<Rightarrow> view \<Rightarrow> bool" where
  "group_progress sch g rs ys v \<longleftrightarrow> group_books v sch g (length rs) (card (set ys))
     \<and> (\<forall>c\<in>set rs. if c \<in> set ys then booked v sch c else awaited v sch c)"

lemma siblings_facts:
  assumes "siblings g rs" "c \<in> set rs" "e \<in> set rs"
  shows "g \<noteq> []" "taskGroupId (header c) = g" "sessionId (header e) = sessionId (header c)"
    "e \<noteq> c \<Longrightarrow> parentMessageId (header e) \<noteq> parentMessageId (header c)"
    "e \<noteq> c \<Longrightarrow> memberFromResume (header e) \<noteq> memberFromResume (header c)"
proof -
  have inj: "inj_on (\<lambda>c. parentMessageId (header c)) (set rs)"
    using assms(1) by (simp add: siblings_def distinct_map)
  show "g \<noteq> []" "taskGroupId (header c) = g" "sessionId (header e) = sessionId (header c)"
    using assms by (auto simp: siblings_def)
  show neq: "e \<noteq> c \<Longrightarrow> parentMessageId (header e) \<noteq> parentMessageId (header c)"
    using inj assms(2,3) by (auto dest: inj_onD)
  then show "e \<noteq> c \<Longrightarrow> memberFromResume (header e) \<noteq> memberFromResume (header c)"
    by (simp add: memberFromResume_def)
qed

text \<open>Claiming a wait leaves the books alone; joining leaves the waits alone.\<close>

definition claimed_view :: "key_schema \<Rightarrow> command \<Rightarrow> view \<Rightarrow> view" where
  "claimed_view sch c v = put_str (consumedMarkerKey sch (sessionId (header c)) (memberFromResume (header c))) ''1''
     (set_scores (waitIndexKey sch (sessionId (header c)))
       ((v_zset v (waitIndexKey sch (sessionId (header c))))(memberFromResume (header c) := None)) v)"

lemma claim_key_neq [simp]:
  "consumedMarkerKey sch x m \<noteq> task_group sch g" "task_group sch g \<noteq> consumedMarkerKey sch x m"
  "consumedMarkerKey sch x m \<noteq> task_group_results sch g" "task_group_results sch g \<noteq> consumedMarkerKey sch x m"
  by (simp_all add: consumedMarkerKey_def)

lemma claimed_books: "group_books (claimed_view sch c v) sch g n k = group_books v sch g n k"
  by (simp add: claimed_view_def group_books_def)

lemma joined_progress:
  assumes sib: "siblings g rs" and c: "c \<in> set rs" "c \<notin> set ys" and v: "group_progress sch g rs ys v"
  shows "group_progress sch g rs (ys @ [c]) (joined_view sch c (Suc (card (set ys))) (claimed_view sch c v))"
proof -
  note f = siblings_facts [OF sib c(1)]
  have "group_books (claimed_view sch c v) sch g (length rs) (card (set ys))"
    using v by (simp add: group_progress_def claimed_books)
  then have books: "group_books (joined_view sch c (Suc (card (set ys))) (claimed_view sch c v)) sch g (length rs) (Suc (card (set ys)))"
    using f(2) [OF c(1)] by (intro joined_books)
  have mine: "booked (joined_view sch c k (claimed_view sch c v)) sch c" for k
    by (simp add: booked_def awaited_def joined_view_def stored_view_def claimed_view_def)
  have others: "booked (joined_view sch c k (claimed_view sch c v)) sch e = booked v sch e \<or> booked (joined_view sch c k (claimed_view sch c v)) sch e"
    "awaited (joined_view sch c k (claimed_view sch c v)) sch e = awaited v sch e"
    "booked v sch e \<Longrightarrow> booked (joined_view sch c k (claimed_view sch c v)) sch e"
    if "e \<in> set rs" "e \<noteq> c" for e k
    using f(4,5) [OF that(1,2)] f(3) [OF that(1)] f(2) [OF that(1)] siblings_facts(2) [OF sib that(1) that(1)]
    by (auto simp: booked_def awaited_def joined_view_def stored_view_def claimed_view_def)
  show ?thesis
    unfolding group_progress_def
  proof (intro conjI ballI)
    show "group_books (joined_view sch c (Suc (card (set ys))) (claimed_view sch c v)) sch g (length rs) (card (set (ys @ [c])))"
      using books c(2) by simp
    fix e assume e: "e \<in> set rs"
    show "if e \<in> set (ys @ [c]) then booked (joined_view sch c (Suc (card (set ys))) (claimed_view sch c v)) sch e
        else awaited (joined_view sch c (Suc (card (set ys))) (claimed_view sch c v)) sch e"
      using v e mine others [OF e] by (cases "e = c") (auto simp: group_progress_def)
  qed
qed

context redis_available
begin

lemma wp_gated_join:
  assumes sib: "siblings g rs" and c: "c \<in> set rs" and v: "group_progress sch g rs ys (kv (fst \<sigma>))"
  shows "wp exec (gated_join sch c) (\<lambda>r \<sigma>'. r = (if c \<in> set ys then None
       else Some (if card (set (ys @ [c])) < length rs then Some waiting_group_result else None))
     \<and> group_progress sch g rs (ys @ [c]) (kv (fst \<sigma>'))) (\<lambda>_ _. False) \<sigma>"
proof (cases "c \<in> set ys")
  case True
  obtain s l where \<sigma>: "\<sigma> = (s, l)" by (cases \<sigma>)
  have "booked (kv s) sch c" using v c True by (auto simp: group_progress_def \<sigma>)
  then have "wp exec (consumeWaitEntry sch (header c))
     (\<lambda>d \<sigma>'. d = already_consumed (memberFromResume (header c)) \<and> kv (fst \<sigma>') = kv s) (\<lambda>_ _. False) (s, l)"
    by (intro wp_deny_first) (auto simp: booked_def awaited_def)
  moreover have "group_progress sch g rs (ys @ [c]) (kv s)"
    using v True by (simp add: group_progress_def \<sigma> insert_absorb)
  ultimately show ?thesis
    unfolding gated_join_def wp_bindP \<sigma> by (elim wp_mono) (auto simp: True)
next
  case False
  obtain s l where \<sigma>: "\<sigma> = (s, l)" by (cases \<sigma>)
  have join: "wp exec (groupJoin sch c) (\<lambda>r. wp exec (Ret (Some r)) (\<lambda>r \<sigma>'. r = (if c \<in> set ys then None
       else Some (if card (set (ys @ [c])) < length rs then Some waiting_group_result else None))
     \<and> group_progress sch g rs (ys @ [c]) (kv (fst \<sigma>'))) (\<lambda>_ _. False)) (\<lambda>_ _. False) (s1, l1)"
    if "kv s1 = claimed_view sch c (kv s)" for s1 l1
  proof (rule wp_groupJoin [where n = "length rs" and k = "card (set ys)"], goal_cases)
    case 1 then show ?case using siblings_facts(1,2) [OF sib c c] by simp
  next
    case 2 then show ?case
      using v that siblings_facts(2) [OF sib c c] by (simp add: group_progress_def claimed_books \<sigma>)
  next
    case (3 s' l')
    then show ?case
      using joined_progress [OF sib c False] v False that by (simp add: \<sigma>)
  qed
  have "awaited (kv s) sch c" using v c False by (auto simp: group_progress_def \<sigma>)
  then have "wp exec (consumeWaitEntry sch (header c))
     (\<lambda>d \<sigma>'. d = claimed (memberFromResume (header c)) \<and> kv (fst \<sigma>') = claimed_view sch c (kv s)) (\<lambda>_ _. False) (s, l)"
    unfolding claimed_view_def by (intro wp_claim_first) (simp add: awaited_def)
  then show ?thesis
    unfolding gated_join_def wp_bindP \<sigma>
  proof (rule wp_mono, goal_cases)
    case (1 d \<sigma>1)
    then show ?case using join [of "fst \<sigma>1" "snd \<sigma>1"] by simp
  qed simp
qed

lemma wp_deliveries:
  assumes sib: "siblings g rs" and ds: "set ds \<subseteq> set rs" and v: "group_progress sch g rs [] (kv (fst \<sigma>))"
  shows "wp exec (deliveries sch ds) (\<lambda>outs \<sigma>'. outs = List.map (delivery_outcome (length rs) ds) [0..<length ds]
     \<and> group_progress sch g rs ds (kv (fst \<sigma>'))) (\<lambda>_ _. False) \<sigma>"
  unfolding deliveries_def
proof (rule wp_foldP_inv [where I = "\<lambda>ys outs \<sigma>'. outs = List.map (delivery_outcome (length rs) ds) [0..<length ys]
      \<and> group_progress sch g rs ys (kv (fst \<sigma>'))"], goal_cases)
  case (1 ys x zs acc \<sigma>')
  have "delivery_outcome (length rs) ds (length ys) = (if x \<in> set ys then None
       else Some (if card (set (ys @ [x])) < length rs then Some waiting_group_result else None))"
    using 1(1) by (simp add: delivery_outcome_def)
  moreover have "wp exec (gated_join sch x) (\<lambda>r \<sigma>'. r = (if x \<in> set ys then None
       else Some (if card (set (ys @ [x])) < length rs then Some waiting_group_result else None))
     \<and> group_progress sch g rs (ys @ [x]) (kv (fst \<sigma>'))) (\<lambda>_ _. False) \<sigma>'"
    using 1 ds by (intro wp_gated_join [OF sib]) auto
  ultimately show ?case
    unfolding wp_bindP by (elim wp_mono) (use 1(2) in auto)
qed (use v in simp)

end



section \<open>One answer\<close>

definition stays_suspended :: "task_result \<Rightarrow> agent_context \<Rightarrow> bool" where
  "stays_suspended r c \<longleftrightarrow> ac_isSuspended c \<and> \<not> isTerminalState (tr_status r)"

definition result_options :: "task_result \<Rightarrow> return_options" where
  "result_options r = \<lparr>ro_content = tr_content r, ro_metadata = tr_metadata r, ro_extraPayload = tr_extraPayload r\<rparr>"

definition finished_result :: "task_result \<Rightarrow> agent_context \<Rightarrow> task_result" where
  "finished_result r c = (applySuspendedStatus r c)
     \<lparr>tr_finalAnswer := opt_or (finalMessage (applySuspendedStatus r c)) []\<rparr>"

definition task_answer :: "worker \<Rightarrow> command \<Rightarrow> task_result \<Rightarrow> agent_context \<Rightarrow> command" where
  "task_answer w reply r c = (let r' = applySuspendedStatus r c
     in owed_reply w reply (tr_status r') (tr_replyData r') (result_options r'))"

definition to_caller :: "worker \<Rightarrow> command \<Rightarrow> command \<Rightarrow> (key \<times> string) list" where
  "to_caller w reply msg = [(ctrl_stream (gw_schema w) (sourceAgentType (header reply)), command_payload msg)]"

text \<open>What the record of a caller says about its own cancellation.\<close>

definition asked_to_stop :: "json option \<Rightarrow> bool" where
  "asked_to_stop x \<longleftrightarrow> opt_truthy (case x of None \<Rightarrow> None | Some r \<Rightarrow> jget r ''cancel_requested'')"

lemma applied_status: "tr_status r \<noteq> [] \<Longrightarrow> tr_status (applySuspendedStatus r c) \<noteq> []"
  by (simp add: applySuspendedStatus_def)

context redis_available
begin

lemma wp_finishTask:
  assumes h: "plain_host h" and norm: "normalizeProcessResult out = Inr r" and st: "tr_status r \<noteq> []"
    and reply: "\<And>rc. reply = Some rc \<Longrightarrow> answerable rc"
    and Q: "\<And>c' \<sigma>'. said (c\<lparr>ac_pending := []\<rparr>) c' \<Longrightarrow>
      delivers (data_stream c)
        (case reply of Some rc \<Rightarrow> if stays_suspended r c then kv (fst \<sigma>)
            else single_view (gw_schema w) (header rc) (task_answer w rc r c) (kv (fst \<sigma>)) | None \<Rightarrow> kv (fst \<sigma>))
        (reply_messages (gw_schema w) (ac_pending c) @
          (case reply of Some rc \<Rightarrow> if stays_suspended r c then [] else to_caller w rc (task_answer w rc r c) | None \<Rightarrow> []))
        \<sigma> \<sigma>' \<Longrightarrow> Q (finished_result r c) c' \<sigma>'"
  shows "wpA exec (finishTask w h cmd reply out) Q E c \<sigma>"
proof -
  define c1 where "c1 = c\<lparr>ac_pending := []\<rparr>"
  define r' where "r' = applySuspendedStatus r c"
  have c1: "data_stream c1 = data_stream c" "ac_isSuspended c1 = ac_isSuspended c" "applySuspendedStatus r c1 = r'"
    by (simp_all add: c1_def data_stream_def applySuspendedStatus_def r'_def)
  define v where "v = (case reply of Some rc \<Rightarrow> if stays_suspended r c then kv (fst \<sigma>)
            else single_view (gw_schema w) (header rc) (task_answer w rc r c) (kv (fst \<sigma>)) | None \<Rightarrow> kv (fst \<sigma>))"
  define ms where "ms = (case reply of Some rc \<Rightarrow> if stays_suspended r c then [] else to_caller w rc (task_answer w rc r c) | None \<Rightarrow> [])"
  have fin: "wpA exec (emitOutcome h (reply \<noteq> None) r') (\<lambda>_. Q (r'\<lparr>tr_finalAnswer := opt_or (finalMessage r') []\<rparr>)) E c1 \<sigma>2"
    if "delivers (data_stream c) v (reply_messages (gw_schema w) (ac_pending c) @ ms) \<sigma> \<sigma>2" for \<sigma>2
  proof (rule talk_outcome [OF h], goal_cases)
    case (1 c' \<sigma>')
    then show ?case
      using delivers_talk [OF that] c1(1) Q [of c' \<sigma>']
      by (simp add: v_def ms_def c1_def finished_result_def r'_def [symmetric])
  qed
  have mid: "wpA exec (case reply of
         Some rc \<Rightarrow> whenA (\<not> (ac_isSuspended c1 \<and> \<not> isTerminalState (tr_status r))) (replyToCaller w h cmd rc (tr_status r') (tr_replyData r')
            (Some (result_options r')) True) | None \<Rightarrow> doneA ())
      (\<lambda>_. wpA exec (emitOutcome h (reply \<noteq> None) r') (\<lambda>_. Q (r'\<lparr>tr_finalAnswer := opt_or (finalMessage r') []\<rparr>)) E) E c1 \<sigma>1"
    if d: "delivers (data_stream c) (kv (fst \<sigma>)) (reply_messages (gw_schema w) (ac_pending c)) \<sigma> \<sigma>1" for \<sigma>1
  proof (cases "\<exists>rc. reply = Some rc \<and> \<not> stays_suspended r c")
    case True
    then obtain rc where rc: "reply = Some rc" "\<not> stays_suspended r c" by blast
    have "tr_status r' \<noteq> []" using applied_status [OF st] by (simp add: r'_def)
    then have "wpA exec (replyToCaller w h cmd rc (tr_status r') (tr_replyData r') (Some (result_options r')) True)
       (\<lambda>_. wpA exec (emitOutcome h (reply \<noteq> None) r') (\<lambda>_. Q (r'\<lparr>tr_finalAnswer := opt_or (finalMessage r') []\<rparr>)) E) E c1 \<sigma>1"
      by (intro wp_replyToCaller [OF h reply [OF rc(1)], where k = "data_stream c"] fin)
         (use d rc in \<open>auto simp: delivers_def v_def ms_def opt_or_def to_caller_def task_answer_def r'_def Let_def\<close>)
    then show ?thesis using rc c1(2) by (simp add: stays_suspended_def)
  next
    case False
    then have "v = kv (fst \<sigma>)" "ms = []" by (auto simp: v_def ms_def split: option.splits)
    then show ?thesis
      using False fin [of \<sigma>1] d c1(2) by (auto simp: stays_suspended_def split: option.splits)
  qed
  have "wp exec (flushPendingGroupReplies (gw_schema w) (ac_pending c)) (\<lambda>_. wpA exec (case reply of
         Some rc \<Rightarrow> whenA (\<not> (ac_isSuspended c1 \<and> \<not> isTerminalState (tr_status r))) (replyToCaller w h cmd rc (tr_status r') (tr_replyData r')
            (Some (result_options r')) True) | None \<Rightarrow> doneA ())
      (\<lambda>_. wpA exec (emitOutcome h (reply \<noteq> None) r') (\<lambda>_. Q (r'\<lparr>tr_finalAnswer := opt_or (finalMessage r') []\<rparr>)) E) E c1) E' \<sigma>" for E'
    by (rule wp_flushPending [where k = "data_stream c"]) (rule mid)
  then show ?thesis
    using h by (cases reply; cases "ac_isSuspended c"; cases "isTerminalState (tr_status r)")
      (simp_all add: finishTask_def takePendingGroupReplies_def norm Let_def c1(2,3)
        c1_def [symmetric] result_options_def)
qed

text \<open>A dying execution.\<close>

lemma wp_onFailed:
  assumes h: "plain_host h" and reply: "\<And>rc. reply = Some rc \<Longrightarrow> answerable rc"
    and Q: "\<And>c' \<sigma>'. said c c' \<Longrightarrow> delivers (data_stream c)
        (case reply of Some rc \<Rightarrow> single_view (gw_schema w) (header rc)
            (owed_reply w rc FAILED (JObj [(''error'', JStr (error_String e))]) no_return_options) (kv (fst \<sigma>)) | None \<Rightarrow> kv (fst \<sigma>))
        (case reply of Some rc \<Rightarrow> to_caller w rc
            (owed_reply w rc FAILED (JObj [(''error'', JStr (error_String e))]) no_return_options) | None \<Rightarrow> [])
        \<sigma> \<sigma>' \<Longrightarrow> Q (status_result FAILED) c' \<sigma>'"
  shows "wpA exec (onFailed w h cmd reply e) Q E c \<sigma>"
proof -
  define v where "v = (case reply of Some rc \<Rightarrow> single_view (gw_schema w) (header rc)
            (owed_reply w rc FAILED (JObj [(''error'', JStr (error_String e))]) no_return_options) (kv (fst \<sigma>)) | None \<Rightarrow> kv (fst \<sigma>))"
  define ms where "ms = (case reply of Some rc \<Rightarrow> to_caller w rc
            (owed_reply w rc FAILED (JObj [(''error'', JStr (error_String e))]) no_return_options) | None \<Rightarrow> [])"
  have fin: "wpA exec (closeStream h reply) (\<lambda>_. Q (status_result FAILED)) E c \<sigma>1"
    if "delivers (data_stream c) v ms \<sigma> \<sigma>1" for \<sigma>1
    by (rule talk_closing(1) [OF h]) (use that delivers_talk Q in \<open>auto simp: v_def ms_def\<close>)
  show ?thesis
  proof (cases reply)
    case None
    then show ?thesis
      using h fin [of \<sigma>] by (simp add: onFailed_def v_def ms_def delivers_def)
  next
    case (Some rc)
    have "wpA exec (replyToCaller w h cmd rc FAILED (JObj [(''error'', JStr (error_String e))]) None False)
        (\<lambda>_. wpA exec (closeStream h reply) (\<lambda>_. Q (status_result FAILED)) E) E c \<sigma>"
      by (intro wp_replyToCaller [OF h reply [OF Some], where k = "data_stream c"] fin)
         (simp_all add: FAILED_def v_def ms_def Some to_caller_def opt_or_def)
    then show ?thesis using h Some by (simp add: onFailed_def)
  qed
qed

text \<open>A cancelled one: the caller is told, unless its own record says that it was asked to stop.\<close>

lemma wp_callerCancelled:
  assumes "answerable reply"
    and "lookup_execution (kv (fst \<sigma>)) (gw_schema w) (parentMessageId (header reply)) (sessionId (header cmd)) = Inr x"
    and "\<And>\<sigma>'. quiet \<sigma> \<sigma>' \<Longrightarrow> Q (asked_to_stop x) \<sigma>'"
  shows "wp exec (callerCancelled w cmd reply) Q E \<sigma>"
  using assms(1) unfolding callerCancelled_def answerable_def
  by (simp add: Let_def) (rule quiet_lookup, use assms(2,3) in \<open>auto simp: asked_to_stop_def\<close>)

lemma wp_onCancelled:
  assumes h: "plain_host h" and reply: "\<And>rc. reply = Some rc \<Longrightarrow> answerable rc"
    and caller: "\<And>rc. reply = Some rc \<Longrightarrow>
      lookup_execution (kv (fst \<sigma>)) (gw_schema w) (parentMessageId (header rc)) (sessionId (header cmd)) = Inr x"
    and Q: "\<And>c' \<sigma>'. said c c' \<Longrightarrow> apart (data_stream c) (sent (snd \<sigma>')) = apart (data_stream c) (sent (snd \<sigma>))
        @ apart (data_stream c) (case reply of None \<Rightarrow> [] | Some rc \<Rightarrow> if asked_to_stop x then []
            else to_caller w rc (owed_reply w rc CANCELLED (JObj [(''reason'', JStr (error_message e))]) no_return_options))
        \<Longrightarrow> Q (status_result CANCELLED) c' \<sigma>'"
  shows "wpA exec (onCancelled w h cmd reply e) Q E c \<sigma>"
proof -
  let ?told = "\<lambda>ms \<sigma>1. apart (data_stream c) (sent (snd \<sigma>1)) = apart (data_stream c) (sent (snd \<sigma>)) @ apart (data_stream c) ms"
  define ms where "ms = (case reply of None \<Rightarrow> [] | Some rc \<Rightarrow> if asked_to_stop x then []
            else to_caller w rc (owed_reply w rc CANCELLED (JObj [(''reason'', JStr (error_message e))]) no_return_options))"
  have fin: "wpA exec (closeStream h reply) (\<lambda>_. Q (status_result CANCELLED)) E c \<sigma>1" if "?told ms \<sigma>1" for \<sigma>1
    by (rule talk_closing(1) [OF h]) (use that Q in \<open>auto simp: ms_def talk_def\<close>)
  show ?thesis
  proof (cases reply)
    case None
    then show ?thesis using fin [of \<sigma>] by (simp add: onCancelled_def ms_def)
  next
    case (Some rc)
    have "wp exec (callerCancelled w cmd rc) (\<lambda>cancelled. wpA exec (whenA (\<not> cancelled)
           (replyToCaller w h cmd rc CANCELLED (JObj [(''reason'', JStr (error_message e))]) None False))
         (\<lambda>_. wpA exec (closeStream h reply) (\<lambda>_. Q (status_result CANCELLED)) E) E c) E' \<sigma>" for E'
    proof (rule wp_callerCancelled [OF reply [OF Some] caller [OF Some]], goal_cases)
      case (1 \<sigma>')
      then have q: "sent (snd \<sigma>') = sent (snd \<sigma>)" by (simp add: quiet_def)
      show ?case
      proof (cases "asked_to_stop x")
        case True
        then show ?thesis using fin [of \<sigma>'] q by (simp add: ms_def Some)
      next
        case False
        have "wpA exec (replyToCaller w h cmd rc CANCELLED (JObj [(''reason'', JStr (error_message e))]) None False)
           (\<lambda>_. wpA exec (closeStream h reply) (\<lambda>_. Q (status_result CANCELLED)) E) E c \<sigma>'"
          by (intro wp_replyToCaller [OF h reply [OF Some], where k = "data_stream c"] fin)
             (simp_all add: CANCELLED_def delivers_def ms_def Some False to_caller_def opt_or_def q)
        then show ?thesis using False by simp
      qed
    qed
    then show ?thesis using Some by (simp add: onCancelled_def)
  qed
qed

end



section \<open>One message\<close>

lemma wp_settled_wpA:
  "wp exec (settled m c) Q E \<sigma> = wpA exec m (\<lambda>a c'. Q (Inr a, c')) (\<lambda>e c'. Q (Inl e, c')) c \<sigma>"
proof -
  have "(case rc of (r, c') \<Rightarrow> \<lambda>\<sigma>'. case r of Inl e \<Rightarrow> Q (Inl e, c') \<sigma>' | Inr a \<Rightarrow> Q (Inr a, c') \<sigma>') = Q rc" for rc
    by (cases rc; cases "fst rc") auto
  then have "(\<lambda>(r, c') \<sigma>'. case r of Inl e \<Rightarrow> Q (Inl e, c') \<sigma>' | Inr a \<Rightarrow> Q (Inr a, c') \<sigma>') = Q" by (rule ext)
  then show ?thesis unfolding wp_settled wpA_def by simp
qed

definition error_exit :: "worker \<Rightarrow> host \<Rightarrow> command \<Rightarrow> command option \<Rightarrow> js_error \<Rightarrow> task_result ctx_act" where
  "error_exit w h c reply e = (if isCancellation e then onCancelled w h c reply e else onFailed w h c reply e)"

lemma message_context_simps [simp]:
  "ac_schema (message_context w c opts t) = gw_schema w" "ac_session (message_context w c opts t) = sessionId (header c)"
  "ac_aborted (message_context w c opts t) = mo_aborted opts" "ac_pending (message_context w c opts t) = []"
  "ac_isSuspended (message_context w c opts t) = False" "ac_cancelReason (message_context w c opts t) = mo_cancelReason opts"
  by (simp_all add: message_context_def new_AgentContext_def)

lemma inbound_session [simp]: "sessionId (header (restoreInboundMetadata c snap)) = sessionId (header c)"
  by (cases c) (simp_all add: restoreInboundMetadata_def)

lemma plain_saveUserMessage [simp]: "plain_host h \<Longrightarrow> wpA exec (saveUserMessage h c) Q E = Q ()"
  by (simp add: saveUserMessage_def fun_eq_iff split: command.splits)

context redis_available
begin

lemma wp_handleMessage:
  assumes "\<And>trace \<sigma>'. quiet \<sigma> \<sigma>' \<Longrightarrow>
     wpA exec (processTask w h handler c (restoreInboundMetadata c (mo_snapshot opts)) (resolveReplyCommand c (mo_snapshot opts)))
       (\<lambda>a c'. Q (Inr a, c'))
       (\<lambda>e. wpA exec (error_exit w h c (resolveReplyCommand c (mo_snapshot opts)) e) (\<lambda>a c'. Q (Inr a, c')) (\<lambda>e c'. Q (Inl e, c')))
       (message_context w (restoreInboundMetadata c (mo_snapshot opts)) opts trace) \<sigma>'"
  shows "wp exec (handleMessage w h handler c opts) Q E \<sigma>"
  unfolding handleMessage_def wp_bindP Let_def error_exit_def [symmetric]
proof (cases "traceId (header c) = []")
  case True
  have "wp exec uuidP (\<lambda>u. wp exec (settled (catchA (processTask w h handler c
       (restoreInboundMetadata c (mo_snapshot opts)) (resolveReplyCommand c (mo_snapshot opts)))
       (error_exit w h c (resolveReplyCommand c (mo_snapshot opts))))
     (message_context w (restoreInboundMetadata c (mo_snapshot opts)) opts (strip_dashes u))) Q E) E \<sigma>"
    by (rule quiet_uuidP) (simp add: wp_settled_wpA assms)
  then show "wp exec (if traceId (header c) \<noteq> [] then Ret (traceId (header c)) else bindP uuidP (\<lambda>u. Ret (strip_dashes u)))
     (\<lambda>trace. wp exec (settled (catchA (processTask w h handler c
       (restoreInboundMetadata c (mo_snapshot opts)) (resolveReplyCommand c (mo_snapshot opts)))
       (error_exit w h c (resolveReplyCommand c (mo_snapshot opts))))
     (message_context w (restoreInboundMetadata c (mo_snapshot opts)) opts trace)) Q E) E \<sigma>"
    using True by simp
next
  case False
  then show "wp exec (if traceId (header c) \<noteq> [] then Ret (traceId (header c)) else bindP uuidP (\<lambda>u. Ret (strip_dashes u)))
     (\<lambda>trace. wp exec (settled (catchA (processTask w h handler c
       (restoreInboundMetadata c (mo_snapshot opts)) (resolveReplyCommand c (mo_snapshot opts)))
       (error_exit w h c (resolveReplyCommand c (mo_snapshot opts))))
     (message_context w (restoreInboundMetadata c (mo_snapshot opts)) opts trace)) Q E) E \<sigma>"
    by (simp add: wp_settled_wpA assms)
qed

text \<open>A reply that the join does not let through ends the message before the handler.\<close>

lemma wp_early_exit:
  assumes h: "plain_host h" and c: "isResumeCommand c" "\<not> mo_aborted opts"
    and join: "\<And>\<sigma>'. quiet \<sigma> \<sigma>' \<Longrightarrow> wp exec (groupJoin (gw_schema w) c) (\<lambda>r \<sigma>''. \<exists>t. r = Some t \<and> (\<forall>c'. Q (Inr t, c') \<sigma>'')) (\<lambda>_ _. False) \<sigma>'"
  shows "wp exec (handleMessage w h handler c opts) Q E \<sigma>"
proof (rule wp_handleMessage, goal_cases)
  case (1 trace \<sigma>')
  show ?case
    unfolding processTask_def using h c
    by (simp add: checkNotCancelled_def joinReply_def) (rule wp_mono [OF join [OF 1]], auto)
qed

end

end
