(* ===== verification/DispatchContracts.thy ===== *)
theory DispatchContracts
  imports Delegation WorkerContracts
begin

text \<open>
  What the dispatch of a call does over an available server: the router only
  reads, apart from what it tells the control plane; the pipeline leaves the
  record and the wait behind before the command goes out; a fan-out accounts for
  each of its members.
\<close>


section \<open>Keys\<close>

lemma marker_key_neq [simp]:
  "consumedMarkerKey sch x m \<noteq> ctrl_stream sch a" "ctrl_stream sch a \<noteq> consumedMarkerKey sch x m"
  "consumedMarkerKey sch x m \<noteq> control_plane_wakeup_stream sch"
  "consumedMarkerKey sch x m \<noteq> control_plane_delivery_pending_stream sch"
  "consumedMarkerKey sch x m \<noteq> worker_online_lease sch w" "worker_online_lease sch w \<noteq> consumedMarkerKey sch x m"
  "consumedMarkerKey sch x m \<noteq> agentTypeMembers sch t" "agentTypeMembers sch t \<noteq> consumedMarkerKey sch x m"
  by (cases sch; simp add: consumedMarkerKey_def wait_consumed_def ctrl_stream_def worker_online_lease_def agentTypeMembers_def
      control_plane_wakeup_stream_def control_plane_delivery_pending_stream_def versioned_def tagged_def)+

lemma registry_marker_neq [simp]:
  "consumedMarkerKey sch x m \<noteq> session_registry sch y" "session_registry sch y \<noteq> consumedMarkerKey sch x m"
  by (cases sch; simp add: consumedMarkerKey_def wait_consumed_def session_registry_def versioned_def tagged_def)+

lemma index_registry_neq [simp]:
  "waitIndexKey sch x \<noteq> session_registry sch y" "session_registry sch y \<noteq> waitIndexKey sch x"
  "waitIndexKey sch x \<noteq> task_group sch g" "task_group sch g \<noteq> waitIndexKey sch x"
  "session_registry sch y \<noteq> task_group sch g"
  by (cases sch; simp add: waitIndexKey_def wait_index_def session_registry_def task_group_def versioned_def tagged_def)+


section \<open>The router\<close>

definition somebody_online :: "view \<Rightarrow> key_schema \<Rightarrow> string \<Rightarrow> bool" where
  "somebody_online v sch t \<longleftrightarrow>
     (\<exists>w\<in>v_set v (agentTypeMembers sch t). presence_online (v_str v (worker_online_lease sch w)))"

definition control_plane :: "key_schema \<Rightarrow> key set" where
  "control_plane sch = {control_plane_wakeup_stream sch, control_plane_delivery_pending_stream sch}"

definition outside :: "key set \<Rightarrow> (key \<times> string) list \<Rightarrow> (key \<times> string) list" where
  "outside K ms = filter (\<lambda>m. fst m \<notin> K) ms"

lemma outside_simps [simp]:
  "outside K [] = []" "outside K (m # ms) = (if fst m \<in> K then outside K ms else m # outside K ms)"
  "outside K (ms @ ms') = outside K ms @ outside K ms'"
  by (simp_all add: outside_def)

text \<open>Where a routed command is to go, when it is to go at all.\<close>

definition well_routed :: "key_schema \<Rightarrow> string \<Rightarrow> availability_result \<Rightarrow> bool" where
  "well_routed sch target a \<longleftrightarrow> av_status a \<in> {REJECT, QUEUE_PENDING}
     \<or> av_stream a = Some (ctrl_stream sch (str_or (selected_type a) target))"

definition routed_ok :: "registry \<Rightarrow> delivery_intent \<Rightarrow> availability_result option \<Rightarrow> bool" where
  "routed_ok reg i a \<longleftrightarrow> (case a of
     None \<Rightarrow> di_policy i = WAKE_AND_WAIT
   | Some r \<Rightarrow> well_routed (reg_schema reg) (di_target i) r)"

lemma routed_ok_simps [simp]:
  "routed_ok reg i (Some (refusal e c))" "routed_ok reg i (Some (deliver (reg_schema reg) (di_target i)))"
  "routed_ok reg i (Some (routed QUEUE_PENDING k))"
  "t \<noteq> [] \<Longrightarrow> routed_ok reg i (Some (fallback_to (reg_schema reg) t))"
  "routed_ok reg i (Some (routed WAIT_AND_DELIVER (ctrl_stream (reg_schema reg) (di_target i))))"
  by (simp_all add: routed_ok_def well_routed_def refusal_def deliver_def routed_def fallback_to_def selected_type_def
      opt_or_def str_or_def)

context redis_available
begin

lemma quiet_hasOnlineAgentType:
  assumes "\<And>r \<sigma>'. quiet \<sigma> \<sigma>' \<Longrightarrow> fst r = somebody_online (kv (fst \<sigma>)) (reg_schema reg) t \<Longrightarrow> Q r \<sigma>'"
  shows "wp exec (hasOnlineAgentType reg t) Q E \<sigma>"
proof (cases \<sigma>)
  case (Pair s l)
  let ?on = "\<lambda>w. presence_online (v_str (kv s) (worker_online_lease (reg_schema reg) w))"
  show ?thesis
    unfolding hasOnlineAgentType_def wp_bindP Pair
  proof (rule wp_smembersP, goal_cases)
    case (1 s1 members)
    let ?\<sigma>1 = "(s1, l @ [Smembers (agentTypeMembers (reg_schema reg) t)])"
    have q1: "quiet \<sigma> ?\<sigma>1" using 1 by (simp add: quiet_def Pair)
    have "wp exec (foldP (\<lambda>ids w. bindP (isWorkerOnline reg w) (\<lambda>online. Ret (if online then ids @ [w] else ids))) [] members)
        (\<lambda>ids \<sigma>'. ids = filter ?on members \<and> quiet \<sigma> \<sigma>') E ?\<sigma>1"
    proof (rule wp_foldP_inv [where I = "\<lambda>done ids \<sigma>'. ids = filter ?on done \<and> quiet \<sigma> \<sigma>'"], goal_cases)
      case (1 ys x zs acc \<sigma>')
      then have acc: "acc = filter ?on ys" and q: "quiet \<sigma> \<sigma>'" by simp_all
      show ?case
        unfolding wp_bindP wp_Ret
      proof (rule quiet_isWorkerOnline, intro conjI)
        fix \<sigma>2
        assume "quiet \<sigma>' \<sigma>2"
        then show "quiet \<sigma> \<sigma>2" by (rule quiet_trans [OF q])
      qed (use q acc in \<open>simp add: quiet_def Pair\<close>)
    qed (use q1 in auto)
    then show ?case
      by (rule wp_mono) (use 1 assms in \<open>auto simp: somebody_online_def Pair filter_empty_conv\<close>)
  qed
qed

text \<open>What the router may do before it answers.\<close>

definition planned :: "key_schema \<Rightarrow> 'a config \<Rightarrow> 'a config \<Rightarrow> bool" where
  "planned sch \<sigma> \<sigma>' \<longleftrightarrow> kv (fst \<sigma>') = kv (fst \<sigma>) \<and> oth (fst \<sigma>') \<subseteq> oth (fst \<sigma>) \<union> control_plane sch
     \<and> clk (fst \<sigma>) \<le> clk (fst \<sigma>')
     \<and> outside (control_plane sch) (sent (snd \<sigma>')) = outside (control_plane sch) (sent (snd \<sigma>))"

lemma quiet_planned: "quiet \<sigma> \<sigma>' \<Longrightarrow> planned sch \<sigma> \<sigma>'"
  by (auto simp: quiet_def planned_def)

lemma planned_trans: "planned sch \<sigma> \<sigma>' \<Longrightarrow> planned sch \<sigma>' \<sigma>'' \<Longrightarrow> planned sch \<sigma> \<sigma>''"
  by (auto simp: planned_def)

lemma planned_xaddP:
  assumes "k \<in> control_plane sch" "\<And>\<sigma>'. planned sch \<sigma> \<sigma>' \<Longrightarrow> Q () \<sigma>'"
  shows "wp exec (xaddP k d) Q E \<sigma>"
proof (cases \<sigma>)
  case (Pair s l)
  show ?thesis
    unfolding Pair by (rule wp_xaddP, rule assms(2)) (use assms(1) in \<open>auto simp: planned_def Pair\<close>)
qed

lemma planned_sleepP:
  assumes "\<And>\<sigma>'. planned sch \<sigma> \<sigma>' \<Longrightarrow> Q () \<sigma>'"
  shows "wp exec (sleepP ms) Q E \<sigma>"
proof (cases \<sigma>)
  case (Pair s l)
  show ?thesis
    unfolding Pair by (rule wp_sleepP, rule assms) (auto simp: planned_def Pair)
qed

lemma quiet_readJson: "(\<And>v \<sigma>'. quiet \<sigma> \<sigma>' \<Longrightarrow> Q v \<sigma>') \<Longrightarrow> wp exec (readJson k) Q E \<sigma>"
  unfolding readJson_def wp_bindP wp_Ret by (rule quiet_getP) blast

lemma planned_pause:
  assumes "\<And>\<sigma>'. planned sch \<sigma> \<sigma>' \<Longrightarrow> Q () \<sigma>'"
  shows "wp exec (pause_until deadline) Q E \<sigma>"
  unfolding pause_until_def wp_bindP wp_whenP
proof (rule quiet_nowP)
  fix \<sigma>1
  assume "quiet \<sigma> \<sigma>1"
  then have p1: "planned sch \<sigma> \<sigma>1" by (rule quiet_planned)
  have "wp exec (sleepP ms) Q E \<sigma>1" for ms
    by (rule planned_sleepP) (rule assms, rule planned_trans [OF p1])
  then show "if 0 < deadline - clk (fst \<sigma>)
      then wp exec (sleepP (min WAKEUP_ONLINE_POLL_INTERVAL_MS (deadline - clk (fst \<sigma>)))) Q E \<sigma>1 else Q () \<sigma>1"
    using assms [OF p1] by simp
qed

lemma wp_poll_online:
  assumes "\<And>a \<sigma>'. planned (reg_schema reg) \<sigma> \<sigma>' \<Longrightarrow>
      a = None \<or> a = Some (wakeup_timed_out t) \<or> a = Some (routed WAIT_AND_DELIVER (ctrl_stream (reg_schema reg) t)) \<Longrightarrow> Q a \<sigma>'"
  shows "wp exec (poll_online n reg t deadline) Q E \<sigma>"
  using assms
proof (induction n arbitrary: \<sigma>)
  case 0
  then show ?case by (simp add: quiet_planned)
next
  case (Suc n)
  let ?sch = "reg_schema reg"
  have again: "wp exec (seqP (pause_until deadline) (poll_online n reg t deadline)) Q E \<sigma>1" if p: "planned ?sch \<sigma> \<sigma>1" for \<sigma>1
    unfolding wp_seqP
  proof (rule planned_pause [where sch = ?sch])
    fix \<sigma>2
    assume "planned ?sch \<sigma>1 \<sigma>2"
    with p have "planned ?sch \<sigma> \<sigma>2" by (rule planned_trans)
    then show "wp exec (poll_online n reg t deadline) Q E \<sigma>2"
      by (intro Suc.IH Suc.prems) (rule planned_trans)
  qed
  show ?case
    unfolding poll_online.simps wp_bindP
  proof (rule quiet_nowP)
    fix \<sigma>1
    assume "quiet \<sigma> \<sigma>1"
    then have p1: "planned ?sch \<sigma> \<sigma>1" by (rule quiet_planned)
    have "wp exec (hasOnlineAgentType reg t) (\<lambda>r. wp exec (if fst r
        then Ret (Some (routed WAIT_AND_DELIVER (ctrl_stream ?sch t)))
        else seqP (pause_until deadline) (poll_online n reg t deadline)) Q E) E \<sigma>1"
    proof (rule quiet_hasOnlineAgentType)
      fix r \<sigma>2
      assume "quiet \<sigma>1 \<sigma>2"
      then have p2: "planned ?sch \<sigma> \<sigma>2" using p1 quiet_planned planned_trans by blast
      show "wp exec (if fst r then Ret (Some (routed WAIT_AND_DELIVER (ctrl_stream ?sch t)))
          else seqP (pause_until deadline) (poll_online n reg t deadline)) Q E \<sigma>2"
        using again [OF p2] Suc.prems [OF p2] by simp
    qed
    then show "wp exec (if clk (fst \<sigma>) < deadline
        then bindP (hasOnlineAgentType reg t) (\<lambda>r. if fst r then Ret (Some (routed WAIT_AND_DELIVER (ctrl_stream ?sch t)))
             else seqP (pause_until deadline) (poll_online n reg t deadline))
        else Ret (Some (wakeup_timed_out t))) Q E \<sigma>1"
      using Suc.prems [OF p1] by simp
  qed
qed

lemma wp_route_offline:
  assumes Q: "\<And>a \<sigma>'. planned (reg_schema reg) \<sigma> \<sigma>' \<Longrightarrow> routed_ok reg i a \<Longrightarrow> Q a \<sigma>'"
  shows "wp exec (route_offline reg i) Q E \<sigma>"
proof -
  let ?sch = "reg_schema reg"
  have queue: "wp exec (bindP (queuePending ?sch i) (\<lambda>r. Ret (Some r))) Q E \<sigma>1" if "planned ?sch \<sigma> \<sigma>1" for \<sigma>1
    unfolding queuePending_def wp_bindP wp_seqP wp_Ret
    by (rule planned_xaddP [where sch = ?sch], simp add: control_plane_def, rule Q, rule planned_trans [OF that]) simp_all
  have wake: "wp exec (publishWakeup ?sch i) Q' E \<sigma>" if "\<And>\<sigma>'. planned ?sch \<sigma> \<sigma>' \<Longrightarrow> Q' () \<sigma>'" for Q'
    unfolding publishWakeup_def by (rule planned_xaddP [where sch = ?sch], simp add: control_plane_def, rule that)
  have poll: "wp exec (wakeAndWait reg i) Q E \<sigma>" if pol: "di_policy i = WAKE_AND_WAIT"
    unfolding wakeAndWait_def wp_seqP Let_def
  proof (rule wake)
    fix \<sigma>1
    assume p1: "planned ?sch \<sigma> \<sigma>1"
    have "wp exec (bindP nowP (\<lambda>now. poll_online n reg (di_target i) (now + d))) Q E \<sigma>1" for n d
      unfolding wp_bindP
    proof (rule quiet_nowP, rule wp_poll_online, rule Q, goal_cases)
      case (1 \<sigma>2 a \<sigma>3)
      then show ?case using p1 quiet_planned planned_trans by blast
    next
      case (2 \<sigma>2 a \<sigma>3)
      then show ?case using pol by (auto simp: wakeup_timed_out_def routed_ok_def [of reg i None])
    qed
    then show "wp exec (if max 0 (wakeup_timeout i) = 0 then Ret (Some (wakeup_timed_out (di_target i)))
       else bindP nowP (\<lambda>now. poll_online (poll_bound (max 0 (wakeup_timeout i))) reg (di_target i) (now + max 0 (wakeup_timeout i)))) Q E \<sigma>1"
      using Q [OF p1] by (simp add: wakeup_timed_out_def)
  qed
  have "planned ?sch \<sigma> \<sigma>" by (simp add: quiet_planned)
  then show ?thesis
    unfolding route_offline_def Let_def
    using Q [of \<sigma>] queue poll wake [of "\<lambda>_. wp exec (queuePending ?sch i) (\<lambda>a. Q (Some a)) E"]
    by (simp add: no_worker_def unsupported_policy_def)
qed

lemma wp_route_by_presence:
  assumes Q: "\<And>a \<sigma>'. planned (reg_schema reg) \<sigma> \<sigma>' \<Longrightarrow> routed_ok reg i a \<Longrightarrow> Q a \<sigma>'"
  shows "wp exec (route_by_presence reg i) Q E \<sigma>"
  unfolding route_by_presence_def Let_def wp_bindP
proof (rule quiet_hasOnlineAgentType)
  let ?sch = "reg_schema reg"
  fix r \<sigma>1
  assume "quiet \<sigma> \<sigma>1"
  then have p1: "planned ?sch \<sigma> \<sigma>1" by (rule quiet_planned)
  have offline: "wp exec (route_offline reg i) Q E \<sigma>2" if "planned ?sch \<sigma> \<sigma>2" for \<sigma>2
    by (rule wp_route_offline, rule Q) (rule planned_trans [OF that])
  have chosen: "wp exec (if ok then Ret (Some (fallback_to ?sch t)) else route_offline reg i) Q E \<sigma>2"
    if "planned ?sch \<sigma> \<sigma>2" "ok \<Longrightarrow> t \<noteq> []" for ok t \<sigma>2
    using that Q [OF that(1)] offline [OF that(1)] by simp
  have "wp exec (if t = [] then Ret False else bindP (hasOnlineAgentType reg t) (\<lambda>r. Ret (fst r)))
      (\<lambda>ok. wp exec (if ok then Ret (Some (fallback_to ?sch t)) else route_offline reg i) Q E) E \<sigma>2"
    if p2: "planned ?sch \<sigma> \<sigma>2" for t \<sigma>2
  proof (cases "t = []")
    case True
    then show ?thesis using chosen [OF p2, of False] by simp
  next
    case False
    have "wp exec (hasOnlineAgentType reg t) (\<lambda>r. wp exec (if fst r then Ret (Some (fallback_to ?sch t)) else route_offline reg i) Q E) E \<sigma>2"
      by (rule quiet_hasOnlineAgentType, rule chosen) (use False p2 quiet_planned planned_trans in blast)+
    then show ?thesis using False by simp
  qed
  note selecting = this
  have p2: "planned ?sch \<sigma> \<sigma>2" if "quiet \<sigma>1 \<sigma>2" for \<sigma>2
    using that p1 quiet_planned planned_trans by blast
  have "wp exec (readJson k) (\<lambda>entry. wp exec (if fallback_type entry = [] then Ret False
      else bindP (hasOnlineAgentType reg (fallback_type entry)) (\<lambda>r. Ret (fst r)))
      (\<lambda>ok. wp exec (if ok then Ret (Some (fallback_to ?sch (fallback_type entry))) else route_offline reg i) Q E) E) E \<sigma>1" for k
    by (rule quiet_readJson, rule selecting, rule p2)
  then show "wp exec (if fst r then Ret (Some (deliver ?sch (di_target i)))
        else bindP (readJson (control_plane_agent_fallback ?sch (di_target i))) (\<lambda>entry.
          bindP (if fallback_type entry = [] then Ret False
                    else bindP (hasOnlineAgentType reg (fallback_type entry)) (\<lambda>r. Ret (fst r))) (\<lambda>ok.
             if ok then Ret (Some (fallback_to ?sch (fallback_type entry))) else route_offline reg i))) Q E \<sigma>1"
    using Q [OF p1] by simp
qed

lemma wp_prepareDelivery:
  assumes Q: "\<And>a \<sigma>'. planned (reg_schema reg) \<sigma> \<sigma>' \<Longrightarrow> routed_ok reg i a \<Longrightarrow> Q a \<sigma>'"
  shows "wp exec (prepareDelivery reg i) Q E \<sigma>"
proof -
  let ?sch = "reg_schema reg"
  have go: "wp exec (if di_policy i = SEND_ANYWAY then Ret (Some (deliver ?sch (di_target i))) else route_by_presence reg i) Q E \<sigma>2"
    if "planned ?sch \<sigma> \<sigma>2" for \<sigma>2
    using Q [OF that] wp_route_by_presence [of reg \<sigma>2 i Q E] Q planned_trans [OF that] by simp
  have quota: "wp exec (bindP (check_quota ?sch i) (\<lambda>stop. case stop of Some r \<Rightarrow> Ret (Some r)
      | None \<Rightarrow> if di_policy i = SEND_ANYWAY then Ret (Some (deliver ?sch (di_target i))) else route_by_presence reg i)) Q E \<sigma>1"
    if p1: "planned ?sch \<sigma> \<sigma>1" for \<sigma>1
  proof (cases "di_userCode i = []")
    case True
    then show ?thesis using go [OF p1] by (simp add: check_quota_def)
  next
    case False
    let ?stop = "\<lambda>quota. if quota_exhausted quota
       then Some (refusal (given_reason quota ''user quota exceeded'') ''TENANT_QUOTA_EXCEEDED'') else None"
    have step: "wp exec (case ?stop v of Some r \<Rightarrow> Ret (Some r)
      | None \<Rightarrow> if di_policy i = SEND_ANYWAY then Ret (Some (deliver ?sch (di_target i))) else route_by_presence reg i) Q E \<sigma>2"
      if "quiet \<sigma>1 \<sigma>2" for v \<sigma>2
      using Q [of \<sigma>2] go [of \<sigma>2] planned_trans [OF p1 quiet_planned [OF that]] by (cases "quota_exhausted v") simp_all
    have "check_quota ?sch i = bindP (readJson (control_plane_user_quota ?sch (di_userCode i))) (\<lambda>quota. Ret (?stop quota))"
      using False by (simp add: check_quota_def)
    then show ?thesis
      unfolding \<open>check_quota ?sch i = _\<close> wp_bindP wp_Ret by (intro quiet_readJson) (rule step)
  qed
  have "wp exec (readJson k) (\<lambda>circuit. wp exec (if circuit_open circuit
      then Ret (Some (refusal (given_reason circuit ''agent circuit is open'') ''AGENT_CIRCUIT_OPEN''))
      else bindP (check_quota ?sch i) (\<lambda>stop. case stop of Some r \<Rightarrow> Ret (Some r)
        | None \<Rightarrow> if di_policy i = SEND_ANYWAY then Ret (Some (deliver ?sch (di_target i))) else route_by_presence reg i)) Q E) E \<sigma>" for k
  proof (rule quiet_readJson)
    fix v \<sigma>1
    assume "quiet \<sigma> \<sigma>1"
    then have "planned ?sch \<sigma> \<sigma>1" by (rule quiet_planned)
    then show "wp exec (if circuit_open v
      then Ret (Some (refusal (given_reason v ''agent circuit is open'') ''AGENT_CIRCUIT_OPEN''))
      else bindP (check_quota ?sch i) (\<lambda>stop. case stop of Some r \<Rightarrow> Ret (Some r)
        | None \<Rightarrow> if di_policy i = SEND_ANYWAY then Ret (Some (deliver ?sch (di_target i))) else route_by_presence reg i)) Q E \<sigma>1"
      using Q [of \<sigma>1] quota [of \<sigma>1] by simp
  qed
  then show ?thesis
    unfolding prepareDelivery_def Let_def using Q [of \<sigma>] by (simp add: unsupported_policy_def quiet_planned)
qed

end


section \<open>The pipeline\<close>

text \<open>The keyspace once a call's record is stored, and once its wait is registered before that.\<close>

definition recorded_view :: "key_schema \<Rightarrow> jobj \<Rightarrow> millis \<Rightarrow> view \<Rightarrow> view" where
  "recorded_view sch ex now v =
     (let k = session_registry sch (opt_String (oget ex ''session_id'')); e = opt_String (oget ex ''execution_id'')
      in put_field k (msg_field (opt_String (oget ex ''message_id''))) e
           (put_field k (exec_field e) (json_stringify (JObj (initial_record ex now))) v))"

lemma recorded_view_simps [simp]:
  "v_str (recorded_view sch ex now v) = v_str v" "v_set (recorded_view sch ex now v) = v_set v"
  "v_zset (recorded_view sch ex now v) = v_zset v"
  "k \<noteq> session_registry sch (opt_String (oget ex ''session_id'')) \<Longrightarrow> v_hash (recorded_view sch ex now v) k = v_hash v k"
  by (simp_all add: recorded_view_def Let_def)

lemma recorded_view_holds:
  assumes "wf_json (JObj ex)" "oget ex ''session_id'' = Some (JStr session)" "oget ex ''execution_id'' = Some (JStr e)"
    "oget ex ''message_id'' = Some (JStr m)"
  shows "knows_message (recorded_view sch ex now v) sch session m e
    \<and> holds_record (recorded_view sch ex now v) sch session e (initial_record ex now)"
  using assms wf_initial_record [OF assms(1)]
  by (simp add: recorded_view_def Let_def knows_message_def holds_record_def execution_text_def)

lemma registered_view_simps [simp]:
  "k \<noteq> consumedMarkerKey sch (rw_session p) (wait_member_of p) \<Longrightarrow> v_hash (registered_view sch p t v) k = v_hash v k"
  "k \<noteq> consumedMarkerKey sch (rw_session p) (wait_member_of p) \<Longrightarrow> v_set (registered_view sch p t v) k = v_set v k"
  by (simp_all add: registered_view_def)

context redis_available
begin

definition recorded :: "key_schema \<Rightarrow> jobj \<Rightarrow> 'a config \<Rightarrow> 'a config \<Rightarrow> bool" where
  "recorded sch ex \<sigma> \<sigma>' \<longleftrightarrow> kv (fst \<sigma>') = recorded_view sch ex (clk (fst \<sigma>)) (kv (fst \<sigma>))
     \<and> oth (fst \<sigma>') \<subseteq> insert (session_registry sch (opt_String (oget ex ''session_id''))) (oth (fst \<sigma>))
     \<and> clk (fst \<sigma>) \<le> clk (fst \<sigma>') \<and> sent (snd \<sigma>') = sent (snd \<sigma>)"

definition entered :: "key_schema \<Rightarrow> register_wait_params \<Rightarrow> 'a config \<Rightarrow> 'a config \<Rightarrow> bool" where
  "entered sch p \<sigma> \<sigma>' \<longleftrightarrow> kv (fst \<sigma>') = registered_view sch p (clk (fst \<sigma>)) (kv (fst \<sigma>))
     \<and> oth (fst \<sigma>') \<subseteq> insert (waitIndexKey sch (rw_session p)) (oth (fst \<sigma>))
     \<and> clk (fst \<sigma>) \<le> clk (fst \<sigma>') \<and> sent (snd \<sigma>') = sent (snd \<sigma>)"

definition published :: "key \<Rightarrow> string \<Rightarrow> 'a config \<Rightarrow> 'a config \<Rightarrow> bool" where
  "published k d \<sigma> \<sigma>' \<longleftrightarrow> kv (fst \<sigma>') = kv (fst \<sigma>) \<and> oth (fst \<sigma>') \<subseteq> insert k (oth (fst \<sigma>))
     \<and> clk (fst \<sigma>) \<le> clk (fst \<sigma>') \<and> snd \<sigma>' = snd \<sigma> @ [Xadd k d]"

lemma recorded_init:
  assumes "\<And>\<sigma>'. recorded sch ex \<sigma> \<sigma>' \<Longrightarrow> Q () \<sigma>'"
  shows "wp exec (initializeExecution sch ex) Q E \<sigma>"
proof (cases \<sigma>)
  case (Pair s l)
  show ?thesis
    unfolding initializeExecution_def wp_bindP Let_def Pair
  proof (rule wp_nowP, rule wp_pipeline_Cons, simp, rule wp_pipeline_Cons, simp, rule wp_pipeline_Cons, goal_cases)
    case (2 s1 ra s2 rb s3 rc s4)
    then show ?case
      by (simp, intro assms) (auto simp: recorded_def recorded_view_def Let_def Pair)
  qed simp
qed

lemma entered_register:
  assumes "\<And>\<sigma>'. entered sch p \<sigma> \<sigma>' \<Longrightarrow> Q () \<sigma>'"
  shows "wp exec (registerWait sch p) Q E \<sigma>"
proof (cases \<sigma>)
  case (Pair s l)
  show ?thesis
    unfolding Pair by (rule wp_registerWait, rule assms) (auto simp: entered_def Pair)
qed

lemma published_xaddP:
  assumes "\<And>\<sigma>'. published k d \<sigma> \<sigma>' \<Longrightarrow> Q () \<sigma>'"
  shows "wp exec (xaddP k d) Q E \<sigma>"
proof (cases \<sigma>)
  case (Pair s l)
  show ?thesis
    unfolding Pair by (rule wp_xaddP, rule assms) (auto simp: published_def Pair)
qed

end

text \<open>The ports on the registry and the connection.\<close>

lemma redis_deps [simp]:
  "dd_init (createRedisCallAgentDeps ttl reg) = initializeExecution (reg_schema reg)"
  "dd_publish (createRedisCallAgentDeps ttl reg) = xaddP"
  "dd_ctrl_stream (createRedisCallAgentDeps ttl reg) = ctrl_stream (reg_schema reg)"
  "dd_register (createRedisCallAgentDeps ttl reg) = Some (registerWait (reg_schema reg))"
  "dd_prepare (createRedisCallAgentDeps ttl reg) =
     Some (\<lambda>i cmd executionId message. prepareDelivery reg (intent_of ttl i cmd executionId message))"
  by (simp_all add: createRedisCallAgentDeps_def Let_def)

definition call_policy :: "publish_input \<Rightarrow> string" where
  "call_policy i = opt_or (pi_routePolicy i) FAIL_FAST"

definition call_record :: "key_schema \<Rightarrow> publish_input \<Rightarrow> string \<Rightarrow> string \<Rightarrow> jobj" where
  "call_record sch i m e = buildExecutionRecord (call_command i m) (ctrl_stream sch (pi_target i)) e False"

definition call_answer :: "publish_input \<Rightarrow> string \<Rightarrow> availability_result \<Rightarrow> publish_result" where
  "call_answer i m a = (if av_status a = REJECT then rejected_result i m a else queued_result i m a)"

text \<open>What a waiting call may have done when it returns.\<close>

context redis_available
begin

inductive called :: "key_schema \<Rightarrow> publish_input \<Rightarrow> string \<Rightarrow> 'a config \<Rightarrow> publish_result option \<Rightarrow> 'a config \<Rightarrow> bool"
  for sch i m \<sigma> where
  polling: "planned sch \<sigma> \<sigma>' \<Longrightarrow> called sch i m \<sigma> None \<sigma>'"
| refused: "planned sch \<sigma> \<sigma>1 \<Longrightarrow> av_status a = REJECT \<Longrightarrow>
    recorded sch (rejected_record (call_record sch i m e) (call_policy i) a) \<sigma>1 \<sigma>' \<Longrightarrow>
    called sch i m \<sigma> (Some (rejected_result i m a)) \<sigma>'"
| pending: "planned sch \<sigma> \<sigma>1 \<Longrightarrow> av_status a = QUEUE_PENDING \<Longrightarrow> entered sch (call_wait i m) \<sigma>1 \<sigma>2 \<Longrightarrow>
    recorded sch (routed_record (call_record sch i m e) (call_policy i) a (ctrl_stream sch (pi_target i))) \<sigma>2 \<sigma>' \<Longrightarrow>
    called sch i m \<sigma> (Some (queued_result i m a)) \<sigma>'"
| delivered: "planned sch \<sigma> \<sigma>1 \<Longrightarrow> av_status a \<noteq> QUEUE_PENDING \<Longrightarrow> av_stream a = Some (ctrl_stream sch (str_or (selected_type a) (pi_target i))) \<Longrightarrow>
    entered sch (call_wait i m) \<sigma>1 \<sigma>2 \<Longrightarrow>
    recorded sch (routed_record (call_record sch i m e) (call_policy i) a (ctrl_stream sch (pi_target i))) \<sigma>2 \<sigma>3 \<Longrightarrow>
    published (ctrl_stream sch (str_or (selected_type a) (pi_target i)))
      (command_payload (routed_command (call_command i m) a)) \<sigma>3 \<sigma>' \<Longrightarrow>
    called sch i m \<sigma> (Some (queued_result i m a)) \<sigma>'"

lemma wp_publish_call:
  assumes p1: "planned sch \<sigma> \<sigma>1" and sch: "sch = reg_schema reg" and wait: "waits i"
    and routed: "well_routed sch (pi_target i) a"
    and Q: "\<And>\<sigma>'. called sch i m \<sigma> (Some (call_answer i m a)) \<sigma>' \<Longrightarrow> Q (call_answer i m a) \<sigma>'"
  shows "wp exec (publish_call (createRedisCallAgentDeps ttl reg) i (call_policy i) (call_command i m) e a) Q E \<sigma>1"
proof -
  let ?rec = "routed_record (call_record sch i m e) (call_policy i) a (ctrl_stream sch (pi_target i))"
  have head: "messageId (header (call_command i m)) = m" by (simp add: call_command_def call_header_def mk_header_def)
  have rcd: "buildExecutionRecord (call_command i m) (ctrl_stream sch (pi_target i)) e False = call_record sch i m e"
    by (simp add: call_record_def)
  have wf: "ospread [] ?rec = ?rec"
    by (rule ospread_empty) (simp add: routed_record_def call_record_def buildExecutionRecord_def execution_record_def Let_def)
  show ?thesis
  proof (cases "av_status a = REJECT")
    case True
    then have ans: "call_answer i m a = rejected_result i m a" by (simp add: call_answer_def)
    show ?thesis
      using True
      by (simp add: publish_call_def Let_def head rcd sch [symmetric])
         (rule recorded_init, rule Q [unfolded ans], rule called.refused [OF p1 True])
  next
    case False
    then have ans: "call_answer i m a = queued_result i m a" by (simp add: call_answer_def)
    have reg: "wp exec (register_call (createRedisCallAgentDeps ttl reg) i m) Q' E \<sigma>1"
      if "\<And>\<sigma>2. entered sch (call_wait i m) \<sigma>1 \<sigma>2 \<Longrightarrow> Q' () \<sigma>2" for Q'
      using wait by (simp add: register_call_def sch [symmetric]) (rule entered_register, rule that)
    show ?thesis
    proof (cases "av_status a = QUEUE_PENDING")
      case True
      then show ?thesis
        by (simp add: publish_call_def Let_def head rcd sch [symmetric])
           (rule reg, rule recorded_init, rule Q [unfolded ans], rule called.pending [OF p1 True])
    next
      case pending: False
      have stream: "av_stream a = Some (ctrl_stream sch (str_or (selected_type a) (pi_target i)))"
        using routed False pending by (simp add: well_routed_def)
      then have k: "routed_stream a (ctrl_stream sch (pi_target i)) = ctrl_stream sch (str_or (selected_type a) (pi_target i))"
        by (cases sch) (simp_all add: routed_stream_def opt_or_def str_or_def ctrl_stream_def versioned_def V2_PREFIX_def)
      show ?thesis
        using False pending
        by (simp add: publish_call_def publishWithExecutionRecord_def Let_def head rcd wf k sch [symmetric])
           (rule reg, rule recorded_init, rule published_xaddP, rule Q [unfolded ans], rule called.delivered [OF p1 pending stream])
    qed
  qed
qed

text \<open>The pipeline around what the router is known to answer (`P`).\<close>

lemma wp_callAgent_routed:
  assumes wait: "waits i" and m: "pi_message i = m" "m \<noteq> []" and ct: "hasContent (Some (pi_content i))"
    and router: "\<And>e \<sigma>1. quiet \<sigma> \<sigma>1 \<Longrightarrow> wp exec (prepareDelivery reg
        (intent_of ttl (i\<lparr>pi_routePolicy := Some (call_policy i)\<rparr>) (toDict (call_command i m)) e m)) (\<lambda>av _. P av) (\<lambda>_ _. False) \<sigma>1"
    and Q: "\<And>av \<sigma>'. P av \<Longrightarrow> called (reg_schema reg) i m \<sigma> (map_option (call_answer i m) av) \<sigma>' \<Longrightarrow>
        Q (map_option (call_answer i m) av) \<sigma>'"
  shows "wp exec (callAgent (createRedisCallAgentDeps ttl reg) i) Q E \<sigma>"
proof -
  let ?d = "createRedisCallAgentDeps ttl reg" and ?sch = "reg_schema reg" and ?c = "call_command i m"
  let ?i = "i\<lparr>pi_routePolicy := Some (call_policy i)\<rparr>"
  have check: "check_command ?c = Inr ?c"
    using ct by (simp add: call_command_def check_command_def check_AskAgentCommand_def)
  have head: "messageId (header ?c) = m" by (simp add: call_command_def call_header_def mk_header_def)
  have intent: "di_target (intent_of ttl ?i cmd e x) = pi_target i" for cmd e x
    by (simp add: intent_of_def)
  have "wp exec generateExecutionId (\<lambda>e. wp exec (prepare_call ?d i (call_policy i) ?c e)
      (\<lambda>av. wp exec (case av of None \<Rightarrow> Ret None
         | Some a \<Rightarrow> bindP (publish_call ?d i (call_policy i) ?c e a) (\<lambda>r. Ret (Some r))) Q E) E) E \<sigma>"
    unfolding generateExecutionId_def wp_bindP wp_Ret
  proof (rule quiet_uuidP)
    fix \<sigma>1 u
    assume q1: "quiet \<sigma> \<sigma>1"
    then have p1: "planned ?sch \<sigma> \<sigma>1" by (rule quiet_planned)
    let ?int = "\<lambda>e. intent_of ttl ?i (toDict ?c) e m"
    have planned: "wp exec (prepareDelivery reg (?int e)) (\<lambda>av \<sigma>2. planned ?sch \<sigma> \<sigma>2 \<and> routed_ok reg (?int e) av) (\<lambda>_ _. False) \<sigma>1" for e
      by (rule wp_prepareDelivery) (use planned_trans [OF p1] in blast)
    have "wp exec (prepareDelivery reg (?int e))
        (\<lambda>av. wp exec (case av of None \<Rightarrow> Ret None
          | Some a \<Rightarrow> bindP (publish_call ?d i (call_policy i) ?c e a) (\<lambda>r. Ret (Some r))) Q E) E \<sigma>1" for e
    proof (rule wp_mono [OF wp_conj [OF planned router [OF q1]]], goal_cases)
      case (1 av \<sigma>2)
      then have p2: "planned ?sch \<sigma> \<sigma>2" and av: "P av" by simp_all
      show ?case
      proof (cases av)
        case None
        then show ?thesis using Q [OF av] called.polling [OF p2] by simp
      next
        case (Some a)
        then have "well_routed ?sch (pi_target i) a" using 1 by (simp add: routed_ok_def intent)
        then show ?thesis
          using Q [OF av] unfolding Some by (simp, intro wp_publish_call [OF p2 refl wait]) simp_all
      qed
    qed simp
    then show "wp exec (prepare_call ?d i (call_policy i) ?c (''exec-'' @ take 8 u))
        (\<lambda>av. wp exec (case av of None \<Rightarrow> Ret None
          | Some a \<Rightarrow> bindP (publish_call ?d i (call_policy i) ?c (''exec-'' @ take 8 u) a) (\<lambda>r. Ret (Some r))) Q E) E \<sigma>1"
      by (simp only: prepare_call_def redis_deps option.case head)
  qed
  then show ?thesis
    unfolding call_policy_def using m by (simp add: callAgent_def probe_call_def resolve_message_id_def check Let_def)
qed

lemma wp_callAgent:
  assumes "waits i" "pi_message i = m" "m \<noteq> []" "hasContent (Some (pi_content i))"
    and Q: "\<And>r \<sigma>'. called (reg_schema reg) i m \<sigma> r \<sigma>' \<Longrightarrow> Q r \<sigma>'"
  shows "wp exec (callAgent (createRedisCallAgentDeps ttl reg) i) Q E \<sigma>"
  by (rule wp_callAgent_routed [OF assms(1-4), where P = "\<lambda>_. True"]) (auto intro: Q wp_prepareDelivery)

text \<open>A caller that insists on a worker, with the circuit closed, no quota to check and nobody there.\<close>

lemma wp_nobody_there:
  assumes "di_policy i = FAIL_FAST" "di_userCode i = []"
    and "v_str (kv (fst \<sigma>)) (control_plane_agent_circuit (reg_schema reg) (di_target i)) = None"
    and "v_str (kv (fst \<sigma>)) (control_plane_agent_fallback (reg_schema reg) (di_target i)) = None"
    and "\<not> somebody_online (kv (fst \<sigma>)) (reg_schema reg) (di_target i)"
  shows "wp exec (prepareDelivery reg i) (\<lambda>av _. av = Some (no_worker (di_target i))) E \<sigma>"
  using assms
  by (auto simp: prepareDelivery_def Let_def readJson_def parse_entry_def circuit_open_def check_quota_def route_policies_def
      jget_def route_by_presence_def route_offline_def fallback_type_def policy_defs quiet_def
      intro!: quiet_getP quiet_hasOnlineAgentType)

text \<open>A caller that sends anyway, with the circuit closed and no quota to check.\<close>

lemma wp_send_anyway:
  assumes "di_policy i = SEND_ANYWAY" "di_userCode i = []"
    and "v_str (kv (fst \<sigma>)) (control_plane_agent_circuit (reg_schema reg) (di_target i)) = None"
  shows "wp exec (prepareDelivery reg i) (\<lambda>av _. av = Some (deliver (reg_schema reg) (di_target i))) E \<sigma>"
  using assms
  by (auto simp: prepareDelivery_def Let_def readJson_def parse_entry_def circuit_open_def check_quota_def route_policies_def
      jget_def intro!: quiet_getP)

end

end
