(* ===== verification/ClientContracts.thy ===== *)
theory ClientContracts
  imports Client DispatchContracts "HOL-Library.Multiset"
begin

text \<open>
  What the client promises: a cancellation reaches everything a task has
  dispatched, directly or not, when the executions of the session form a forest, and
  does not return when they do not; a resume continues the execution it names.
\<close>


section \<open>The walk over what a task has dispatched\<close>

definition dispatched :: "json list \<Rightarrow> (json \<times> json) set" where
  "dispatched execs = {(a, b). a \<in> set execs \<and> b \<in> set (children_of execs a)}"

definition reached :: "json list \<Rightarrow> json list \<Rightarrow> json set" where
  "reached execs q = (dispatched execs)\<^sup>* `` set q"

lemma children_subset: "set (children_of execs e) \<subseteq> set execs"
  by (auto simp: children_of_def)

lemma finite_dispatched: "finite (dispatched execs)"
  by (rule finite_subset [of _ "set execs \<times> set execs"]) (use children_subset in \<open>auto simp: dispatched_def\<close>)

lemma reached_Cons:
  assumes "e \<in> set execs"
  shows "reached execs (e # q) = insert e (reached execs (q @ children_of execs e))"
proof -
  have "(dispatched execs)\<^sup>* `` {e} = insert e ((dispatched execs)\<^sup>* `` set (children_of execs e))"
    using assms by (auto simp: dispatched_def elim: converse_rtranclE intro: converse_rtrancl_into_rtrancl)
  then show ?thesis by (auto simp: reached_def)
qed

lemma reached_Nil [simp]: "reached execs [] = {}"
  by (simp add: reached_def)

text \<open>Where nobody is their own descendant the walk ends, with exactly the descendants of the queue.\<close>

lemma collect_within:
  assumes forest: "acyclic (dispatched execs \<inter> S \<times> S)" and closed: "dispatched execs `` S \<subseteq> S"
    and "set q \<subseteq> S" "S \<subseteq> set execs"
  shows "\<exists>tc' ta'. collect execs q tc ta = Some (tc', ta')
    \<and> set tc' = set tc \<union> {e \<in> reached execs q. live e} \<and> set ta' = set ta \<union> {e \<in> reached execs q. \<not> live e}"
proof -
  let ?r = "(dispatched execs \<inter> S \<times> S)\<inverse>"
  have "finite (dispatched execs \<inter> S \<times> S)" using finite_dispatched by blast
  then have "wf (mult1 ?r)"
    by (intro wf_mult1 finite_acyclic_wf_converse forest)
  then show ?thesis using assms(3)
  proof (induction "mset q" arbitrary: q tc ta rule: wf_induct_rule)
    case less
    show ?case
    proof (cases q)
      case (Cons e rest)
      have e: "e \<in> set execs" "e \<in> S" using less.prems assms(4) by (auto simp: Cons)
      then have kids: "set (children_of execs e) \<subseteq> S"
        using closed by (auto simp: dispatched_def)
      have sub: "set (rest @ children_of execs e) \<subseteq> S"
        using less.prems kids by (auto simp: Cons)
      have "(mset (rest @ children_of execs e), mset q) \<in> mult1 ?r"
        unfolding Cons by (rule mult1I [of _ e "mset rest" _ "mset (children_of execs e)"])
          (use e kids in \<open>auto simp: dispatched_def\<close>)
      note IH = less.hyps [OF this sub]
      show ?thesis
      proof (cases "live e")
        case True
        then show ?thesis using IH [of "tc @ [e]" ta] reached_Cons [OF e(1), of rest] by (auto simp: Cons collect_Cons)
      next
        case False
        then show ?thesis using IH [of tc "ta @ [e]"] reached_Cons [OF e(1), of rest] by (auto simp: Cons collect_Cons)
      qed
    qed simp
  qed
qed

lemma reached_subset:
  assumes "e \<in> set execs"
  shows "reached execs [e] \<subseteq> set execs"
proof
  fix x assume "x \<in> reached execs [e]"
  then have "(e, x) \<in> (dispatched execs)\<^sup>*" by (simp add: reached_def)
  then show "x \<in> set execs"
    by (induction rule: rtrancl_induct) (use assms children_subset in \<open>auto simp: dispatched_def\<close>)
qed

lemma collect_ends:
  assumes "e \<in> set execs" and loops: "\<And>x. x \<in> reached execs [e] \<Longrightarrow> (x, x) \<notin> (dispatched execs)\<^sup>+"
  obtains toCancel ended where "collect execs [e] [] [] = Some (toCancel, ended)"
    "set toCancel = {x \<in> reached execs [e]. live x}" "set ended = {x \<in> reached execs [e]. \<not> live x}"
proof -
  let ?S = "reached execs [e]"
  have "acyclic (dispatched execs \<inter> ?S \<times> ?S)"
    unfolding acyclic_def
  proof (intro allI notI)
    fix x assume "(x, x) \<in> (dispatched execs \<inter> ?S \<times> ?S)\<^sup>+"
    then have "(x, x) \<in> (dispatched execs)\<^sup>+ \<and> x \<in> ?S"
      by (metis IntD2 SigmaD1 inf_le1 tranclD trancl_mono)
    then show False using loops by blast
  qed
  moreover have "dispatched execs `` ?S \<subseteq> ?S" by (auto simp: reached_def)
  moreover have "?S \<subseteq> set execs" by (rule reached_subset [OF assms(1)])
  moreover have "set [e] \<subseteq> ?S" by (auto simp: reached_def)
  ultimately obtain tc ta where "collect execs [e] [] [] = Some (tc, ta)"
    "set tc = set [] \<union> {x \<in> ?S. live x}" "set ta = set [] \<union> {x \<in> ?S. \<not> live x}"
    using collect_within [of execs ?S "[e]" "[]" "[]"] by auto
  then show ?thesis using that by simp
qed

text \<open>An execution among its own descendants keeps the walk going for ever.\<close>

definition endless :: "json list \<Rightarrow> json \<Rightarrow> bool" where
  "endless execs e \<longleftrightarrow> (\<exists>x. (e, x) \<in> (dispatched execs)\<^sup>* \<and> (x, x) \<in> (dispatched execs)\<^sup>+)"

lemma endless_child:
  assumes "endless execs e"
  obtains c where "c \<in> set (children_of execs e)" "endless execs c"
proof -
  obtain x where x: "(e, x) \<in> (dispatched execs)\<^sup>*" "(x, x) \<in> (dispatched execs)\<^sup>+"
    using assms by (auto simp: endless_def)
  then have "(e, x) \<in> (dispatched execs)\<^sup>+" by (metis rtrancl_trancl_trancl)
  then obtain c where "(e, c) \<in> dispatched execs" "(c, x) \<in> (dispatched execs)\<^sup>*"
    by (metis tranclD)
  then show ?thesis using x(2) that by (auto simp: dispatched_def endless_def)
qed

lemma collect_endless: "e \<in> set q \<Longrightarrow> endless execs e \<Longrightarrow> collect execs q tc ta = None"
proof -
  have "\<forall>e \<in> set q. \<not> endless execs e" if "collect execs q tc ta = Some y" for y
  proof (rule collect.raw_induct [where P = "\<lambda>execs q _ _ _. \<forall>e \<in> set q. \<not> endless execs e", OF _ that])
    fix step execs q tc ta y
    assume IH: "\<And>execs q tc ta y. step execs q tc ta = Some y \<Longrightarrow> \<forall>e \<in> set q. \<not> endless execs e"
      and step: "(case q of [] \<Rightarrow> Some (tc, ta)
        | e # rest \<Rightarrow> if live e then step execs (rest @ children_of execs e) (tc @ [e]) ta
                      else step execs (rest @ children_of execs e) tc (ta @ [e])) = Some y"
    show "\<forall>e \<in> set q. \<not> endless execs e"
    proof (cases q)
      case (Cons e rest)
      from step obtain tc' ta' where "step execs (rest @ children_of execs e) tc' ta' = Some y"
        by (auto simp: Cons split: if_splits)
      from IH [OF this] have "\<forall>c \<in> set rest \<union> set (children_of execs e). \<not> endless execs c" by simp
      then have "\<not> endless execs e" by (meson UnI2 endless_child)
      with \<open>\<forall>c \<in> set rest \<union> set (children_of execs e). \<not> endless execs c\<close> show ?thesis by (simp add: Cons)
    qed simp
  qed
  then show "e \<in> set q \<Longrightarrow> endless execs e \<Longrightarrow> collect execs q tc ta = None" by (cases "collect execs q tc ta") auto
qed


section \<open>The executions of a session\<close>

definition executions :: "view \<Rightarrow> key_schema \<Rightarrow> string \<Rightarrow> json set" where
  "executions v sch session = {JObj r | r e. holds_record v sch session e r \<and> oget r ''execution_id'' = Some (JStr e)}"

text \<open>Every record is kept under its own id, in its own session, and has a message.\<close>

definition well_kept :: "view \<Rightarrow> key_schema \<Rightarrow> string \<Rightarrow> bool" where
  "well_kept v sch session \<longleftrightarrow> (\<forall>f x. v_hash v (session_registry sch session) f = Some x \<and> startsWith f EXEC_FIELD_PREFIX
     \<longrightarrow> (\<exists>e r m. f = exec_field e \<and> holds_record v sch session e r \<and> oget r ''execution_id'' = Some (JStr e)
           \<and> oget r ''session_id'' = Some (JStr session) \<and> oget r ''message_id'' = Some (JStr m) \<and> m \<noteq> []))"

definition dispatches :: "view \<Rightarrow> key_schema \<Rightarrow> string \<Rightarrow> (json \<times> json) set" where
  "dispatches v sch session = {(a, b). a \<in> executions v sch session \<and> b \<in> executions v sch session
     \<and> jget b ''parent_message_id'' = jget a ''message_id''}"

lemma holds_record_unique: "holds_record v sch session e r \<Longrightarrow> holds_record v sch session e r' \<Longrightarrow> r = r'"
  unfolding holds_record_def by (metis json.inject(6) json_parse_stringify option.inject)

lemma starts_exec [simp]: "startsWith (exec_field e) EXEC_FIELD_PREFIX"
  by (simp add: exec_field_def startsWith_def)

lemma well_keptD:
  assumes "well_kept v sch session" "holds_record v sch session e r"
  shows "oget r ''execution_id'' = Some (JStr e)" "oget r ''session_id'' = Some (JStr session)"
    "\<exists>m. oget r ''message_id'' = Some (JStr m) \<and> m \<noteq> []"
proof -
  have "v_hash v (session_registry sch session) (exec_field e) = Some (json_stringify (JObj r))"
    using assms(2) by (simp add: holds_record_def execution_text_def)
  then obtain e' r' m where "exec_field e = exec_field e'" "holds_record v sch session e' r'"
    "oget r' ''execution_id'' = Some (JStr e')" "oget r' ''session_id'' = Some (JStr session)"
    "oget r' ''message_id'' = Some (JStr m)" "m \<noteq> []"
    using assms(1) starts_exec [of e] unfolding well_kept_def by blast
  moreover from this have "r' = r" using holds_record_unique [OF _ assms(2)] by simp
  ultimately show "oget r ''execution_id'' = Some (JStr e)" "oget r ''session_id'' = Some (JStr session)"
    "\<exists>m. oget r ''message_id'' = Some (JStr m) \<and> m \<noteq> []" by auto
qed

definition listed :: "(string \<times> string) list \<Rightarrow> json list" where
  "listed ps = List.map_filter (\<lambda>(f, x). if startsWith f EXEC_FIELD_PREFIX then json_parse x else None) ps"

lemma set_listed:
  assumes "well_kept v sch session" "map_of ps = v_hash v (session_registry sch session)" "distinct (List.map fst ps)"
  shows "set (listed ps) = executions v sch session"
proof -
  have entries: "(f, x) \<in> set ps \<longleftrightarrow> v_hash v (session_registry sch session) f = Some x" for f x
    using assms(2,3) by (metis map_of_eq_Some_iff)
  have "y \<in> set (listed ps) \<longleftrightarrow> y \<in> executions v sch session" for y
  proof
    assume "y \<in> set (listed ps)"
    then obtain f x where fx: "(f, x) \<in> set ps" "startsWith f EXEC_FIELD_PREFIX" "json_parse x = Some y"
      by (auto simp: listed_def List.map_filter_def split: if_splits)
    then obtain e r where e: "f = exec_field e" "holds_record v sch session e r" "oget r ''execution_id'' = Some (JStr e)"
      using assms(1) unfolding well_kept_def entries by blast
    then have "x = json_stringify (JObj r)" "wf_json (JObj r)"
      using fx(1) unfolding entries by (auto simp: holds_record_def execution_text_def)
    then have "y = JObj r" using fx(3) by (simp add: json_parse_stringify)
    then show "y \<in> executions v sch session" using e by (auto simp: executions_def)
  next
    assume "y \<in> executions v sch session"
    then obtain r e where "y = JObj r" and e: "holds_record v sch session e r" by (auto simp: executions_def)
    then have "(exec_field e, json_stringify (JObj r)) \<in> set ps" "json_parse (json_stringify (JObj r)) = Some y"
      unfolding entries by (auto simp: holds_record_def execution_text_def json_parse_stringify)
    then show "y \<in> set (listed ps)" by (force simp: listed_def List.map_filter_def)
  qed
  then show ?thesis by blast
qed

lemma dispatched_listed:
  assumes "well_kept v sch session" "set execs = executions v sch session"
  shows "dispatched execs = dispatches v sch session"
proof -
  have message: "\<exists>m. jget a ''message_id'' = Some (JStr m) \<and> m \<noteq> []" if "a \<in> executions v sch session" for a
    using well_keptD(3) [OF assms(1)] that by (auto simp: executions_def)
  have "opt_truthy (jget b ''parent_message_id'') \<and> same_key (jget b ''parent_message_id'') (jget a ''message_id'')
      \<longleftrightarrow> jget b ''parent_message_id'' = jget a ''message_id''" if "a \<in> executions v sch session" for a b
    using message [OF that] by (auto simp: same_key_def)
  then show ?thesis
    by (auto simp: dispatched_def dispatches_def children_of_def assms(2))
qed


section \<open>What a cancellation leaves behind\<close>

lemma wp_forP_prefix:
  assumes "\<And>ys x zs \<sigma>'. xs = ys @ x # zs \<Longrightarrow> I ys \<sigma>' \<Longrightarrow> wp exec (f x) (\<lambda>_. I (ys @ [x])) E \<sigma>'"
    and "I [] \<sigma>"
  shows "wp exec (forP xs f) (\<lambda>_. I xs) E \<sigma>"
proof -
  have "wp exec (forP zs f) (\<lambda>_. I (ys @ zs)) E \<sigma>'" if "xs = ys @ zs" "I ys \<sigma>'" for ys zs \<sigma>'
    using that
  proof (induction zs arbitrary: ys \<sigma>')
    case (Cons x zs)
    have "wp exec (f x) (\<lambda>_. I (ys @ [x])) E \<sigma>'" using assms(1) Cons.prems by blast
    then have "wp exec (f x) (\<lambda>_. wp exec (forP zs f) (\<lambda>_. I ((ys @ [x]) @ zs)) E) E \<sigma>'"
      by (rule wp_mono) (use Cons.IH [of "ys @ [x]"] Cons.prems(1) in auto)
    then show ?case by simp
  qed simp
  from this [of "[]" xs \<sigma>] assms(2) show ?thesis by simp
qed

text \<open>
  `progress`: of the executions recorded in `v`, those in `C` are being
  cancelled, those in `R` have been asked to stop without a change of their
  status, and the others are as they were.
\<close>

definition progress :: "key_schema \<Rightarrow> string \<Rightarrow> view \<Rightarrow> json set \<Rightarrow> json set \<Rightarrow> view \<Rightarrow> bool" where
  "progress sch session v C R v' \<longleftrightarrow> (\<forall>e r. holds_record v sch session e r \<longrightarrow> (\<exists>r'. holds_record v' sch session e r'
     \<and> oget r' ''execution_id'' = oget r ''execution_id'' \<and> oget r' ''message_id'' = oget r ''message_id''
     \<and> oget r' ''status'' = (if JObj r \<in> C then Some (JStr CANCELLING) else oget r ''status'')
     \<and> (if JObj r \<in> C \<union> R then oget r' ''cancel_requested'' = Some (JBool True) else r' = r)))"

lemma progress_refl: "progress sch session v {} {} v"
  by (auto simp: progress_def)

lemma progress_put:
  assumes "progress sch session v C R v'" "well_kept v sch session" "holds_record v sch session e r"
    and g: "\<And>x. wf_json (JObj x) \<Longrightarrow> wf_json (JObj (g x))"
      "\<And>x. oget (g x) ''execution_id'' = oget x ''execution_id''" "\<And>x. oget (g x) ''message_id'' = oget x ''message_id''"
      "\<And>x. oget (g x) ''status'' = (if JObj r \<in> C' then Some (JStr CANCELLING) else oget x ''status'')"
      "\<And>x. oget (g x) ''cancel_requested'' = Some (JBool True)"
    and sets: "C \<subseteq> C'" "C' \<union> R' = insert (JObj r) (C \<union> R)" "C' - {JObj r} \<subseteq> C"
    and held: "holds_record v' sch session e r'"
    and v'': "v'' = put_field (session_registry sch session) (exec_field e) (json_stringify (JObj (g r'))) v'"
  shows "progress sch session v C' R' v''"
  unfolding progress_def
proof (intro allI impI)
  fix e0 r0 assume e0: "holds_record v sch session e0 r0"
  obtain r1 where r1: "holds_record v' sch session e0 r1" "oget r1 ''execution_id'' = oget r0 ''execution_id''"
      "oget r1 ''message_id'' = oget r0 ''message_id''"
      "oget r1 ''status'' = (if JObj r0 \<in> C then Some (JStr CANCELLING) else oget r0 ''status'')"
      "if JObj r0 \<in> C \<union> R then oget r1 ''cancel_requested'' = Some (JBool True) else r1 = r0"
    using assms(1) e0 unfolding progress_def by blast
  show "\<exists>r'. holds_record v'' sch session e0 r' \<and> oget r' ''execution_id'' = oget r0 ''execution_id''
      \<and> oget r' ''message_id'' = oget r0 ''message_id''
      \<and> oget r' ''status'' = (if JObj r0 \<in> C' then Some (JStr CANCELLING) else oget r0 ''status'')
      \<and> (if JObj r0 \<in> C' \<union> R' then oget r' ''cancel_requested'' = Some (JBool True) else r' = r0)"
  proof (cases "e0 = e")
    case True
    then have "r0 = r" "r1 = r'"
      using e0 assms(3) r1(1) held holds_record_unique by blast+
    moreover have "holds_record v'' sch session e (g r')"
      unfolding v'' using held by (intro holds_record_put g(1)) (simp add: holds_record_def)
    moreover have "JObj r \<in> C' \<union> R'" using sets(2) by simp
    ultimately show ?thesis
      using r1 sets(1) g(2-5) by (intro exI [of _ "g r'"]) (auto simp: True)
  next
    case False
    have "JObj r0 \<noteq> JObj r"
      using well_keptD(1) [OF assms(2,3)] well_keptD(1) [OF assms(2) e0] False by auto
    then have "JObj r0 \<in> C' \<longleftrightarrow> JObj r0 \<in> C" "JObj r0 \<in> C' \<union> R' \<longleftrightarrow> JObj r0 \<in> C \<union> R"
      using sets by auto
    moreover have "holds_record v'' sch session e0 r1"
      using r1(1) False by (simp add: v'' holds_record_def execution_text_def)
    ultimately show ?thesis using r1 by (intro exI [of _ r1]) simp
  qed
qed

lemma cancel_requested_fields:
  "oget (cancel_requested_record reason now r) ''cancel_requested'' = Some (JBool True)"
  "k \<notin> {''cancel_requested'', ''cancel_reason'', ''updated_at''} \<Longrightarrow> oget (cancel_requested_record reason now r) k = oget r k"
  by (auto simp: cancel_requested_record_def Let_def)

lemma cancelling_fields:
  "oget (cancelling_record reason now r) ''cancel_requested'' = Some (JBool True)"
  "oget (cancelling_record reason now r) ''status'' = Some (JStr CANCELLING)"
  "k \<notin> {''cancel_requested'', ''cancel_reason'', ''updated_at'', ''status'', ''timeline''} \<Longrightarrow>
     oget (cancelling_record reason now r) k = oget r k"
  by (auto simp: cancelling_record_def push_timeline_def Let_def CANCELLING_def)

lemma wf_cancel_requested: "wf_json (JObj r) \<Longrightarrow> wf_json (JObj (cancel_requested_record reason now r))"
  unfolding cancel_requested_record_def Let_def by (auto intro!: wf_json_oput simp del: wf_json.simps(3))

lemma wf_cancelling: "wf_json (JObj r) \<Longrightarrow> wf_json (JObj (cancelling_record reason now r))"
  unfolding cancelling_record_def by (auto intro!: wf_push_timeline wf_json_oput simp del: wf_json.simps(3))

text \<open>One execution at a time.\<close>

context redis_available
begin

lemma wp_request_cancel:
  assumes "well_kept v (gc_schema gc) (cq_session p)" "x \<in> executions v (gc_schema gc) (cq_session p)" "cq_session p \<noteq> []"
    and "progress (gc_schema gc) (cq_session p) v {} R (kv s)"
  shows "wp exec (request_cancel gc p x) (\<lambda>_ \<sigma>. progress (gc_schema gc) (cq_session p) v {} (insert x R) (kv (fst \<sigma>))
     \<and> sent (snd \<sigma>) = sent l) (\<lambda>_ _. False) (s, l)"
proof -
  let ?sch = "gc_schema gc" and ?session = "cq_session p"
  obtain r e where x: "x = JObj r" "holds_record v ?sch ?session e r" "oget r ''execution_id'' = Some (JStr e)"
    using assms(2) by (auto simp: executions_def)
  then obtain r' where held: "holds_record (kv s) ?sch ?session e r'"
    using assms(4) unfolding progress_def by blast
  have id: "opt_String (jget x ''execution_id'') = e" by (simp add: x)
  show ?thesis
    unfolding request_cancel_def markCancelRequested_def id
  proof (rule wp_record_update [where g = "\<lambda>now. cancel_requested_record (cq_reason p) now" and r = r'], goal_cases)
    case (4 s' now)
    have "progress ?sch ?session v {} (insert x R) (kv s')"
      by (rule progress_put [where g = "cancel_requested_record (cq_reason p) now", OF assms(4,1) x(2) _ _ _ _ _ _ _ _ held 4(1)])
        (auto simp: x(1) cancel_requested_fields wf_cancel_requested simp del: wf_json.simps(3))
    then show ?case by simp
  qed (use held assms(3) in \<open>auto simp: holds_record_def simp del: wf_json.simps(3)\<close>)
qed

lemma wp_marked_cancelling:
  assumes "well_kept v (gc_schema gc) (cq_session p)" "x \<in> executions v (gc_schema gc) (cq_session p)" "cq_session p \<noteq> []"
    and "progress (gc_schema gc) (cq_session p) v C R (kv s)"
    and "\<And>s' l'. progress (gc_schema gc) (cq_session p) v (insert x C) R (kv s') \<Longrightarrow> sent l' = sent l \<Longrightarrow> Q () (s', l')"
  shows "wp exec (markExecutionCancelling (gc_schema gc) (opt_String (jget x ''execution_id'')) (cq_session p) (cq_reason p)) Q E (s, l)"
proof -
  let ?sch = "gc_schema gc" and ?session = "cq_session p"
  obtain r e where x: "x = JObj r" "holds_record v ?sch ?session e r" "oget r ''execution_id'' = Some (JStr e)"
    using assms(2) by (auto simp: executions_def)
  then obtain r' where held: "holds_record (kv s) ?sch ?session e r'"
    using assms(4) unfolding progress_def by blast
  have id: "opt_String (jget x ''execution_id'') = e" by (simp add: x)
  show ?thesis
    unfolding markExecutionCancelling_def id
  proof (rule wp_record_update [where g = "\<lambda>now. cancelling_record (cq_reason p) now" and r = r'], goal_cases)
    case (4 s' now)
    have "progress ?sch ?session v (insert x C) R (kv s')"
      by (rule progress_put [where g = "cancelling_record (cq_reason p) now", OF assms(4,1) x(2) _ _ _ _ _ _ _ _ held 4(1)])
        (auto simp: x(1) cancelling_fields wf_cancelling simp del: wf_json.simps(3))
    then show ?case by (intro assms(5)) auto
  qed (use held assms(3) in \<open>auto simp: holds_record_def simp del: wf_json.simps(3)\<close>)
qed


end

text \<open>The cancellations sent: one for each execution that a worker has taken, to that worker.\<close>

definition on_worker :: "json \<Rightarrow> string" where
  "on_worker x = text_field (jget x ''worker_id'')"

definition told :: "key_schema \<Rightarrow> cancel_params \<Rightarrow> json list \<Rightarrow> (key \<times> string) list \<Rightarrow> bool" where
  "told sch p xs msgs \<longleftrightarrow> list_all2 (\<lambda>x m. \<exists>u t. m = (worker_ctrl_stream sch (on_worker x), command_payload (cancel_command p x u t)))
     (filter (\<lambda>x. on_worker x \<noteq> []) xs) msgs"

lemma told_Nil [simp]: "told sch p [] []"
  by (simp add: told_def)

lemma told_snoc:
  "told sch p xs msgs \<Longrightarrow> told sch p (xs @ [x]) (if on_worker x = [] then msgs
     else msgs @ [(worker_ctrl_stream sch (on_worker x), command_payload (cancel_command p x u t))])"
  by (auto simp: told_def intro!: list_all2_appendI)

definition good_mode :: "cancel_params \<Rightarrow> bool" where
  "good_mode p \<longleftrightarrow> cq_mode p \<in> {[], ''graceful'', ''force''}"

lemma cancel_command_ok:
  assumes "well_kept v sch session" "x \<in> executions v sch session" "good_mode p"
  shows "check_command (cancel_command p x u t) = Inr (cancel_command p x u t)"
proof -
  have "\<exists>m. jget x ''message_id'' = Some (JStr m) \<and> m \<noteq> []"
    using assms well_keptD(3) by (auto simp: executions_def)
  then show ?thesis using assms(3) by (auto simp: cancel_command_def check_defs good_mode_def str_or_def)
qed

lemma worker_stream_not_Nil [simp]: "worker_ctrl_stream sch w \<noteq> []"
  by (cases sch) (simp_all add: worker_ctrl_stream_def versioned_def)

context redis_available
begin

lemma wp_send_cancel:
  assumes "\<And>s' l'. kv s' = kv s \<Longrightarrow> sent l' = sent l @ [(worker_ctrl_stream (gc_schema gc) (on_worker x), command_payload c)] \<Longrightarrow>
      Q () (s', l')"
  shows "wp exec (send_cancel gc x c) Q E (s, l)"
  unfolding send_cancel_def sendCommand_def command_stream_def
  using assms by (auto simp: Let_def str_or_def on_worker_def intro!: wp_xaddP wp_nowP)

lemma wp_build_cancel:
  assumes "well_kept v (gc_schema gc) (cq_session p)" "x \<in> executions v (gc_schema gc) (cq_session p)" "good_mode p"
    and "\<And>s' l' u t. kv s' = kv s \<Longrightarrow> sent l' = sent l \<Longrightarrow> Q (cancel_command p x u t) (s', l')"
  shows "wp exec (build_cancel p x) Q E (s, l)"
  unfolding build_cancel_def
  using assms(4) by (auto simp: cancel_command_ok [OF assms(1-3)] intro!: wp_uuidP)

lemma wp_cancel_execution:
  assumes kept: "well_kept v (gc_schema gc) (cq_session p)" "x \<in> executions v (gc_schema gc) (cq_session p)" "cq_session p \<noteq> []"
      "good_mode p"
    and pr: "progress (gc_schema gc) (cq_session p) v (set ys) R (kv s)" "told (gc_schema gc) p ys (sent l)"
    and prog: "prog \<in> {cancel_execution gc p x, cancel_in_session gc p x}"
  shows "wp exec prog (\<lambda>_ \<sigma>. progress (gc_schema gc) (cq_session p) v (set (ys @ [x])) R (kv (fst \<sigma>))
     \<and> told (gc_schema gc) p (ys @ [x]) (sent (snd \<sigma>))) (\<lambda>_ _. False) (s, l)"
proof -
  let ?Q = "\<lambda>_ \<sigma>. progress (gc_schema gc) (cq_session p) v (set (ys @ [x])) R (kv (fst \<sigma>))
     \<and> told (gc_schema gc) p (ys @ [x]) (sent (snd \<sigma>))"
  have build: "wp exec (bindP (build_cancel p x) (\<lambda>c. whenP (on_worker x \<noteq> []) (send_cancel gc x c))) ?Q (\<lambda>_ _. False) (s', l')"
    "on_worker x \<noteq> [] \<Longrightarrow> wp exec (bindP (build_cancel p x) (send_cancel gc x)) ?Q (\<lambda>_ _. False) (s', l')"
    "on_worker x = [] \<Longrightarrow> ?Q () (s', l')"
    if "progress (gc_schema gc) (cq_session p) v (insert x (set ys)) R (kv s')" "sent l' = sent l" for s' l'
  proof -
    have quiet: "?Q () (s2, l2)" if "on_worker x = []" "kv s2 = kv s'" "sent l2 = sent l'" for s2 l2
      using that \<open>sent l' = sent l\<close> told_snoc [OF pr(2), of x]
        \<open>progress (gc_schema gc) (cq_session p) v (insert x (set ys)) R (kv s')\<close> by simp
    have loud: "wp exec (send_cancel gc x (cancel_command p x u t)) ?Q (\<lambda>_ _. False) (s2, l2)"
      if "on_worker x \<noteq> []" "kv s2 = kv s'" "sent l2 = sent l'" for s2 l2 u t
      using that \<open>sent l' = sent l\<close> told_snoc [OF pr(2), of x u t]
        \<open>progress (gc_schema gc) (cq_session p) v (insert x (set ys)) R (kv s')\<close> by (intro wp_send_cancel) simp
    show "wp exec (bindP (build_cancel p x) (\<lambda>c. whenP (on_worker x \<noteq> []) (send_cancel gc x c))) ?Q (\<lambda>_ _. False) (s', l')"
      unfolding wp_bindP wp_whenP by (intro wp_build_cancel [OF kept(1,2,4)]) (use quiet loud in auto)
    show "on_worker x \<noteq> [] \<Longrightarrow> wp exec (bindP (build_cancel p x) (send_cancel gc x)) ?Q (\<lambda>_ _. False) (s', l')"
      unfolding wp_bindP by (intro wp_build_cancel [OF kept(1,2,4)]) (use loud in auto)
    show "on_worker x = [] \<Longrightarrow> ?Q () (s', l')" using quiet by blast
  qed
  consider "prog = cancel_execution gc p x" | "prog = cancel_in_session gc p x"
    using prog by auto
  then show ?thesis
  proof cases
    case 1
    show ?thesis
      unfolding 1 cancel_execution_def on_worker_def [symmetric] wp_seqP
      by (rule wp_marked_cancelling [OF kept(1-3) pr(1)], rule build(1))
  next
    case 2
    show ?thesis
      unfolding 2 cancel_in_session_def on_worker_def [symmetric] wp_seqP wp_whenP
      by (rule wp_marked_cancelling [OF kept(1-3) pr(1)]) (simp only: build(2,3) split: if_splits; use build(2,3) in blast)
  qed
qed

end

end
