(* ===== verification/CancelProperties.thy ===== *)
theory CancelProperties
  imports ClientContracts
begin

text \<open>
  Cancelling: a cancellation reaches everything the task has dispatched, and
  returns exactly when the executions form a forest; a session is cancelled as a
  whole.
\<close>


section \<open>Cancelling a task\<close>

definition descendants :: "view \<Rightarrow> key_schema \<Rightarrow> string \<Rightarrow> json \<Rightarrow> json set" where
  "descendants v sch session t = (dispatches v sch session)\<^sup>* `` {t}"

text \<open>The one execution of a message.\<close>

definition runs_message :: "view \<Rightarrow> key_schema \<Rightarrow> string \<Rightarrow> string \<Rightarrow> json \<Rightarrow> bool" where
  "runs_message v sch session m t \<longleftrightarrow> {x \<in> executions v sch session. jget x ''message_id'' = Some (JStr m)} = {t}"

lemma found:
  assumes "{x \<in> set execs. jget x ''message_id'' = Some (JStr m)} = {t}" "JNull \<notin> set execs"
  shows "find_execution m execs = Inr (Some t)"
  using assms
proof (induction execs)
  case (Cons e es)
  have null: "e \<noteq> JNull" "JNull \<notin> set es" using Cons.prems(2) by auto
  show ?case
  proof (cases "jget e ''message_id'' = Some (JStr m)")
    case True
    then have "e \<in> {t}" unfolding Cons.prems(1) [symmetric] by simp
    then have "e = t" by simp
    with True null show ?thesis by simp
  next
    case False
    then have "{x \<in> set (e # es). jget x ''message_id'' = Some (JStr m)} = {x \<in> set es. jget x ''message_id'' = Some (JStr m)}"
      by auto
    then have "find_execution m es = Inr (Some t)"
      using Cons.IH null(2) Cons.prems(1) by simp
    with False null show ?thesis by simp
  qed
qed simp

context redis_available
begin

lemma wp_ended:
  assumes "well_kept v (gc_schema gc) (cq_session p)" "set ended \<subseteq> executions v (gc_schema gc) (cq_session p)" "cq_session p \<noteq> []"
    and "kv s = v"
  shows "wp exec (forP ended (request_cancel gc p)) (\<lambda>_ \<sigma>. progress (gc_schema gc) (cq_session p) v {} (set ended) (kv (fst \<sigma>))
     \<and> sent (snd \<sigma>) = sent l) (\<lambda>_ _. False) (s, l)"
proof (rule wp_forP_prefix, goal_cases)
  case (1 ys x zs \<sigma>)
  obtain s' l' where \<sigma>: "\<sigma> = (s', l')" by (cases \<sigma>)
  have "wp exec (request_cancel gc p x) (\<lambda>_ \<sigma>. progress (gc_schema gc) (cq_session p) v {} (insert x (set ys)) (kv (fst \<sigma>))
     \<and> sent (snd \<sigma>) = sent l') (\<lambda>_ _. False) (s', l')"
    using 1 assms by (intro wp_request_cancel) (auto simp: \<sigma>)
  then show ?case using 1 by (auto simp: \<sigma> elim!: wp_mono)
qed (use assms progress_refl in auto)

lemma wp_cancels:
  assumes "well_kept v (gc_schema gc) (cq_session p)" "set xs \<subseteq> executions v (gc_schema gc) (cq_session p)" "cq_session p \<noteq> []"
    "good_mode p" "progress (gc_schema gc) (cq_session p) v {} R (kv s)" "sent l = []"
    and prog: "\<And>x. prog x \<in> {cancel_execution gc p x, cancel_in_session gc p x}"
  shows "wp exec (forP xs prog) (\<lambda>_ \<sigma>. progress (gc_schema gc) (cq_session p) v (set xs) R (kv (fst \<sigma>))
     \<and> told (gc_schema gc) p xs (sent (snd \<sigma>))) (\<lambda>_ _. False) (s, l)"
proof (rule wp_forP_prefix, goal_cases)
  case (1 ys x zs \<sigma>)
  obtain s' l' where \<sigma>: "\<sigma> = (s', l')" by (cases \<sigma>)
  show ?case
    unfolding \<sigma> by (rule wp_cancel_execution [OF assms(1) _ assms(3,4) _ _ prog]) (use 1 assms(2) \<sigma> in auto)
qed (use assms in auto)

lemma wp_cancel_all:
  assumes "well_kept v (gc_schema gc) (cq_session p)" "set toCancel \<union> set ended \<subseteq> executions v (gc_schema gc) (cq_session p)"
    "cq_session p \<noteq> []" "good_mode p" "kv s = v" "sent l = []" "toCancel \<noteq> []"
  shows "wp exec (cancel_all gc p t toCancel ended) (\<lambda>r \<sigma>. (\<exists>a. r = Some a \<and> cr_success a \<and> cr_count a = Some (length toCancel))
     \<and> progress (gc_schema gc) (cq_session p) v (set toCancel) (set ended) (kv (fst \<sigma>))
     \<and> told (gc_schema gc) p toCancel (sent (snd \<sigma>))) (\<lambda>_ _. False) (s, l)"
proof -
  let ?Q = "\<lambda>r \<sigma>. (\<exists>a. r = Some a \<and> cr_success a \<and> cr_count a = Some (length toCancel))
     \<and> progress (gc_schema gc) (cq_session p) v (set toCancel) (set ended) (kv (fst \<sigma>))
     \<and> told (gc_schema gc) p toCancel (sent (snd \<sigma>))"
  have answer: "wp exec (bindP nowP (\<lambda>now. Ret (Some (f now)))) ?Q (\<lambda>_ _. False) (s', l')"
    if "progress (gc_schema gc) (cq_session p) v (set toCancel) (set ended) (kv s')" "told (gc_schema gc) p toCancel (sent l')"
      "\<And>now. cr_success (f now) \<and> cr_count (f now) = Some (length toCancel)" for s' l' f
    using that by (auto intro!: wp_nowP)
  have cancels: "wp exec (seqP (forP toCancel (cancel_execution gc p)) (bindP nowP (\<lambda>now. Ret (Some (f now))))) ?Q (\<lambda>_ _. False) (s', l')"
    if "progress (gc_schema gc) (cq_session p) v {} (set ended) (kv s')" "sent l' = []"
      "\<And>now. cr_success (f now) \<and> cr_count (f now) = Some (length toCancel)" for s' l' f
    unfolding wp_seqP
    by (rule wp_mono, rule wp_cancels [OF assms(1) _ assms(3,4) that(1,2)])
      (use assms(2) that(3) in \<open>auto simp del: wp_bindP intro!: answer\<close>)
  show ?thesis
    unfolding cancel_all_def if_not_P [OF assms(7)]
  proof (subst wp_seqP, rule wp_mono [OF wp_ended [OF assms(1) _ assms(3,5)]])
    show "set ended \<subseteq> executions v (gc_schema gc) (cq_session p)" using assms(2) by simp
  next
    fix a \<sigma>'
    assume "progress (gc_schema gc) (cq_session p) v {} (set ended) (kv (fst \<sigma>')) \<and> sent (snd \<sigma>') = sent l"
    then show "wp exec (seqP (forP toCancel (cancel_execution gc p)) (bindP nowP (\<lambda>now. Ret (Some
          \<lparr>cr_success = True, cr_message = cq_message p, cr_execution = opt_String (jget t ''execution_id''),
           cr_worker = text_field (jget t ''worker_id''), cr_status = CANCEL_REQUESTED, cr_timestamp = now,
           cr_error = None, cr_count = Some (length toCancel)\<rparr>)))) ?Q (\<lambda>_ _. False) \<sigma>'"
      using assms(6) by (intro cancels [of "fst \<sigma>'" "snd \<sigma>'", unfolded prod.collapse]) simp_all
  qed simp
qed

end


context redis_available
begin

lemma wp_cancel_returns:
  assumes "well_kept v (gc_schema gc) (cq_session p)" "set toCancel \<union> set ended \<subseteq> executions v (gc_schema gc) (cq_session p)"
    "cq_session p \<noteq> []" "good_mode p" "kv s = v" "sent l = []"
  shows "wp exec (cancel_all gc p t toCancel ended) (\<lambda>r _. r \<noteq> None) (\<lambda>_ _. False) (s, l)"
proof (cases "toCancel = []")
  case True
  then show ?thesis
    unfolding cancel_all_def if_P [OF True]
    by (subst wp_seqP, intro wp_mono [OF wp_ended [OF assms(1) _ assms(3,5)]])
      (use assms(2) in \<open>auto simp: cancel_refused_def intro!: wp_nowP\<close>)
next
  case False
  from wp_cancel_all [OF assms this] show ?thesis by (rule wp_mono) auto
qed

end

text \<open>The walk of a cancellation starts at the task of the message, over the executions the registry lists.\<close>

lemma reached_descendants:
  assumes "well_kept v sch session" "set execs = executions v sch session"
  shows "reached execs [t] = descendants v sch session t"
  by (simp add: reached_def descendants_def dispatched_listed [OF assms])

lemma listed_not_null: "JNull \<notin> executions v sch session"
  by (auto simp: executions_def)

lemma task_of_message:
  assumes "well_kept v sch session" "set execs = executions v sch session" "runs_message v sch session m t"
  shows "find_execution m execs = Inr (Some t)" "t \<in> set execs" "jget t ''session_id'' = Some (JStr session)"
proof -
  have t: "t \<in> executions v sch session" using assms(3) unfolding runs_message_def by blast
  then show "t \<in> set execs" by (simp add: assms(2))
  show "find_execution m execs = Inr (Some t)"
    using assms(3) listed_not_null unfolding runs_message_def assms(2) [symmetric] by (intro found) (auto simp: assms(2))
  show "jget t ''session_id'' = Some (JStr session)"
    using t well_keptD(2) [OF assms(1)] by (auto simp: executions_def)
qed

context redis_available
begin

lemma wp_cancelTask:
  assumes "well_kept (kv s) (gc_schema gc) (cq_session p)"
    and "\<And>s' l' execs. kv s' = kv s \<Longrightarrow> sent l' = [] \<Longrightarrow> set execs = executions (kv s) (gc_schema gc) (cq_session p) \<Longrightarrow>
      wp exec (case collect execs [t] [] [] of None \<Rightarrow> Ret None | Some (toCancel, ended) \<Rightarrow> cancel_all gc p t toCancel ended) Q E (s', l')"
    and "runs_message (kv s) (gc_schema gc) (cq_session p) (cq_message p) t"
  shows "wp exec (cancelTask gc p) Q E (s, [])"
  unfolding cancelTask_def getAllSessionExecutions_def wp_bindP wp_Ret
proof (rule wp_hgetallP, goal_cases)
  case (1 s' ps)
  have execs: "set (listed ps) = executions (kv s) (gc_schema gc) (cq_session p)"
    using 1 by (intro set_listed [OF assms(1)]) auto
  note task = task_of_message [OF assms(1) execs assms(3)]
  have "JNull \<notin> set (listed ps)" using execs listed_not_null by metis
  then show ?case
    using assms(2) [of s' "[] @ [Hgetall (session_registry (gc_schema gc) (cq_session p))]", OF 1(1) _ execs] task
    by (simp add: listed_def [symmetric])
qed

end

text \<open>
  C29. Cancelling a task reaches everything it has dispatched. When none of the
  task's descendants is its own descendant, the cancellation returns; every
  descendant that has not ended is recorded as being cancelled and, if a worker
  has taken it, that worker is sent one cancellation for it; the ended
  ones are asked to stop without a change of their status; every other execution
  of the session is as it was.
\<close>

theorem cancel_reaches_descendants:
  assumes avail: "redis_available exec kv oth clk" and kept: "well_kept (kv s) sch session"
    and args: "sch = gc_schema gc" "session = cq_session p" "session \<noteq> []" "good_mode p"
    and task: "runs_message (kv s) sch session (cq_message p) t"
    and forest: "\<And>x. x \<in> descendants (kv s) sch session t \<Longrightarrow> (x, x) \<notin> (dispatches (kv s) sch session)\<^sup>+"
    and someone: "x \<in> descendants (kv s) sch session t" "live x"
  shows "\<exists>r xs. result exec (cancelTask gc p) s = Inr (Some r) \<and> cr_success r \<and> cr_count r = Some (length xs)
    \<and> set xs = {x \<in> descendants (kv s) sch session t. live x}
    \<and> progress sch session (kv s) (set xs) {x \<in> descendants (kv s) sch session t. \<not> live x} (kv (final exec (cancelTask gc p) s))
    \<and> told sch p xs (sent (issued exec (cancelTask gc p) s))"
proof -
  let ?D = "descendants (kv s) sch session t"
  have "wp exec (cancelTask gc p) (\<lambda>r \<sigma>. \<exists>a xs. r = Some a \<and> cr_success a \<and> cr_count a = Some (length xs)
      \<and> set xs = {x \<in> ?D. live x} \<and> progress sch session (kv s) (set xs) {x \<in> ?D. \<not> live x} (kv (fst \<sigma>))
      \<and> told sch p xs (sent (snd \<sigma>))) (\<lambda>_ _. False) (s, [])" (is "wp _ _ ?Q _ _")
  proof (rule redis_available.wp_cancelTask [OF avail, of s gc p t])
    fix s' l' execs
    assume s': "kv s' = kv s" "sent l' = []" and "set execs = executions (kv s) (gc_schema gc) (cq_session p)"
    then have execs: "set execs = executions (kv s) sch session" by (simp add: args)
    have "t \<in> set execs" by (rule task_of_message [OF kept execs task])
    have D: "reached execs [t] = ?D" by (rule reached_descendants [OF kept execs])
    have loops: "(x, x) \<notin> (dispatched execs)\<^sup>+" if "x \<in> reached execs [t]" for x
      using forest that unfolding D dispatched_listed [OF kept execs] .
    obtain tc ta where walk: "collect execs [t] [] [] = Some (tc, ta)" "set tc = {x \<in> ?D. live x}" "set ta = {x \<in> ?D. \<not> live x}"
      using collect_ends [OF \<open>t \<in> set execs\<close> loops] unfolding D .
    have "?D \<subseteq> set execs"
      using reached_subset [OF \<open>t \<in> set execs\<close>] by (simp add: reached_descendants [OF kept execs])
    then have "set tc \<union> set ta \<subseteq> executions (kv s) (gc_schema gc) (cq_session p)" "tc \<noteq> []"
      using walk someone execs by (auto simp: args)
    then have "wp exec (cancel_all gc p t tc ta) ?Q (\<lambda>_ _. False) (s', l')"
      using redis_available.wp_cancel_all [OF avail, of "kv s" gc p tc ta s' l' t] kept args s'
      by (auto simp: walk(2,3) elim!: wp_mono intro!: exI [of _ tc])
    then show "wp exec (case collect execs [t] [] [] of None \<Rightarrow> Ret None
        | Some (toCancel, ended) \<Rightarrow> cancel_all gc p t toCancel ended) ?Q (\<lambda>_ _. False) (s', l')"
      by (simp add: walk(1))
  qed (use kept task in \<open>simp_all add: args\<close>)
  from wp_result [OF this] show ?thesis by auto
qed

text \<open>Sessions with known records.\<close>

definition consists_of :: "view \<Rightarrow> key_schema \<Rightarrow> string \<Rightarrow> (string \<times> jobj) list \<Rightarrow> bool" where
  "consists_of v sch session rs \<longleftrightarrow>
     v_hash v (session_registry sch session) = map_of (List.map (\<lambda>(e, r). (exec_field e, json_stringify (JObj r))) rs)
     \<and> distinct (List.map fst rs)
     \<and> (\<forall>(e, r) \<in> set rs. wf_json (JObj r) \<and> oget r ''execution_id'' = Some (JStr e)
          \<and> oget r ''session_id'' = Some (JStr session) \<and> (\<exists>m. oget r ''message_id'' = Some (JStr m) \<and> m \<noteq> []))"

lemma consists_of_lookup:
  assumes "consists_of v sch session rs"
  shows "v_hash v (session_registry sch session) f = Some x
    \<longleftrightarrow> (\<exists>(e, r) \<in> set rs. f = exec_field e \<and> x = json_stringify (JObj r))"
proof -
  let ?ps = "List.map (\<lambda>(e, r). (exec_field e, json_stringify (JObj r))) rs"
  have "distinct (List.map fst rs)" using assms by (simp add: consists_of_def)
  then have "distinct (List.map exec_field (List.map fst rs))" by (simp add: distinct_map inj_on_def)
  then have "distinct (List.map fst ?ps)" by (simp add: comp_def case_prod_beta)
  then have "map_of ?ps f = Some x \<longleftrightarrow> (f, x) \<in> set ?ps" by (rule map_of_eq_Some_iff)
  then show ?thesis using assms by (auto simp: consists_of_def)
qed

lemma consists_of_holds:
  assumes "consists_of v sch session rs"
  shows "holds_record v sch session e r \<longleftrightarrow> (e, r) \<in> set rs"
proof -
  have wf: "wf_json (JObj r)" if "(e, r) \<in> set rs" for e r using assms that by (auto simp: consists_of_def)
  have "json_stringify (JObj r) = json_stringify (JObj r') \<longleftrightarrow> r = r'" if "wf_json (JObj r)" "wf_json (JObj r')" for r r'
    using that by (metis json.inject(6) json_parse_stringify option.inject)
  then show ?thesis
    using wf by (auto simp: holds_record_def execution_text_def consists_of_lookup [OF assms] simp del: wf_json.simps)
qed

lemma consists_of_kept:
  assumes "consists_of v sch session rs"
  shows "well_kept v sch session"
  unfolding well_kept_def consists_of_holds [OF assms] consists_of_lookup [OF assms]
  using assms by (fastforce simp: consists_of_def simp del: wf_json.simps)

lemma consists_of_executions:
  assumes "consists_of v sch session rs"
  shows "executions v sch session = JObj ` snd ` set rs"
proof -
  have "oget r ''execution_id'' = Some (JStr e)" if "(e, r) \<in> set rs" for e r
    using assms that by (auto simp: consists_of_def)
  then show ?thesis
    unfolding executions_def consists_of_holds [OF assms] by force
qed

text \<open>A task on one worker that has dispatched, by way of a call that has ended, work on another.\<close>

definition family_record :: "string \<Rightarrow> string \<Rightarrow> string \<Rightarrow> string \<Rightarrow> string \<Rightarrow> jobj" where
  "family_record e m parent st w = [(''execution_id'', JStr e), (''message_id'', JStr m), (''session_id'', JStr ''s''),
     (''parent_message_id'', JStr parent), (''status'', JStr st), (''worker_id'', JStr w)]"

definition sample_family :: "(string \<times> jobj) list" where
  "sample_family = [(''e1'', family_record ''e1'' ''m1'' [] ''RUNNING'' ''w1''),
     (''e2'', family_record ''e2'' ''m2'' ''m1'' ''COMPLETED'' ''w2''),
     (''e3'', family_record ''e3'' ''m3'' ''m2'' ''RUNNING'' ''w2'')]"

definition session_of :: "(string \<times> jobj) list \<Rightarrow> mock" where
  "session_of rs = foldr (\<lambda>(e, r) m. mock_after [Hset (session_registry V2 ''s'') (exec_field e) (json_stringify (JObj r))] m) rs
     (empty_mock 7)"

lemma session_of_hash:
  "v_hash (mock_view (session_of rs)) (session_registry V2 ''s'')
     = map_of (List.map (\<lambda>(e, r). (exec_field e, json_stringify (JObj r))) rs)"
  by (induction rs) (auto simp: session_of_def mock_after_view)

lemma family_consists: "consists_of (mock_view (session_of sample_family)) V2 ''s'' sample_family"
  unfolding consists_of_def session_of_hash by (simp add: sample_family_def family_record_def wf_json.simps)

definition sample_client :: client where
  "sample_client = \<lparr>gc_registry = \<lparr>reg_schema = V2, reg_ip = [], lockTokens = Map.empty\<rparr>, gc_interceptors = [],
     gc_span = (\<lambda>_. Ret ()), gc_spanIdHex = (\<lambda>s. s), gc_observe = (\<lambda>_ _ _ _. None)\<rparr>"

lemma sample_client_schema [simp]: "gc_schema sample_client = V2"
  by (simp add: sample_client_def gc_schema_def)

definition cancel_first :: cancel_params where
  "cancel_first = \<lparr>cq_message = ''m1'', cq_session = ''s'', cq_reason = ''stop'', cq_target = [], cq_requestedBy = [], cq_mode = []\<rparr>"

lemma chain_closure:
  assumes "a \<noteq> b" "b \<noteq> c" "a \<noteq> c"
  shows "{(a, b), (b, c)}\<^sup>* `` {a} = {a, b, c}" "(x, x) \<notin> {(a, b), (b, c)}\<^sup>+"
proof -
  have "y \<in> {a, b, c}" if "(a, y) \<in> {(a, b), (b, c)}\<^sup>*" for y
    using that by (induction rule: rtrancl_induct) auto
  moreover have "(a, c) \<in> {(a, b), (b, c)}\<^sup>*" by (meson insertI1 insertI2 r_into_rtrancl rtrancl_trans)
  ultimately show "{(a, b), (b, c)}\<^sup>* `` {a} = {a, b, c}" by auto
  have "(x, y) \<in> {(a, b), (b, c), (a, c)}" if "(x, y) \<in> {(a, b), (b, c)}\<^sup>+" for y
    using that by (induction rule: trancl_induct) (use assms in auto)
  then show "(x, x) \<notin> {(a, b), (b, c)}\<^sup>+" using assms by blast
qed

definition parent_record :: json where "parent_record = JObj (family_record ''e1'' ''m1'' [] ''RUNNING'' ''w1'')"
definition middle_record :: json where "middle_record = JObj (family_record ''e2'' ''m2'' ''m1'' ''COMPLETED'' ''w2'')"
definition leaf_record :: json where "leaf_record = JObj (family_record ''e3'' ''m3'' ''m2'' ''RUNNING'' ''w2'')"

lemmas family_members = parent_record_def middle_record_def leaf_record_def

lemma family_simps:
  "jget parent_record ''message_id'' = Some (JStr ''m1'')" "jget parent_record ''parent_message_id'' = Some (JStr [])"
  "jget middle_record ''message_id'' = Some (JStr ''m2'')" "jget middle_record ''parent_message_id'' = Some (JStr ''m1'')"
  "jget leaf_record ''message_id'' = Some (JStr ''m3'')" "jget leaf_record ''parent_message_id'' = Some (JStr ''m2'')"
  "live parent_record" "\<not> live middle_record" "live leaf_record"
  by (simp_all add: family_members family_record_def jget_def oget_def live_def execution_status_def isTerminalState_iff state_defs)

lemma family_executions:
  "executions (mock_view (session_of sample_family)) V2 ''s'' = {parent_record, middle_record, leaf_record}"
  unfolding consists_of_executions [OF family_consists] by (simp add: sample_family_def family_members)

lemma family_dispatches:
  "dispatches (mock_view (session_of sample_family)) V2 ''s'' = {(parent_record, middle_record), (middle_record, leaf_record)}"
  unfolding dispatches_def family_executions by (auto simp: family_simps)

lemma family_distinct: "parent_record \<noteq> middle_record" "middle_record \<noteq> leaf_record" "parent_record \<noteq> leaf_record"
  using family_simps by auto

lemma family_facts:
  "descendants (mock_view (session_of sample_family)) V2 ''s'' parent_record = {parent_record, middle_record, leaf_record}"
  "(x, x) \<notin> (dispatches (mock_view (session_of sample_family)) V2 ''s'')\<^sup>+"
  "runs_message (mock_view (session_of sample_family)) V2 ''s'' ''m1'' parent_record"
  unfolding descendants_def family_dispatches runs_message_def family_executions
  using chain_closure [OF family_distinct] by (auto simp: family_simps)

lemma cancel_first_simps [simp]:
  "cq_message cancel_first = ''m1''" "cq_session cancel_first = ''s''" "good_mode cancel_first"
  by (simp_all add: cancel_first_def good_mode_def)

theorem cancel_reaches_descendants_witness:
  "\<exists>r xs. result mock_exec (cancelTask sample_client cancel_first) (session_of sample_family) = Inr (Some r) \<and> cr_success r
    \<and> set xs = {parent_record, leaf_record}
    \<and> told V2 cancel_first xs (sent (issued mock_exec (cancelTask sample_client cancel_first) (session_of sample_family)))"
proof -
  have "{x \<in> {parent_record, middle_record, leaf_record}. live x} = {parent_record, leaf_record}"
    using family_simps(7-9) by auto
  then show ?thesis
    using cancel_reaches_descendants [OF mock_server.redis_available_axioms consists_of_kept [OF family_consists], of sample_client
        cancel_first parent_record parent_record] family_facts(3)
    by (simp only: family_facts(1,2) sample_client_schema cancel_first_simps family_simps(7)) auto
qed

text \<open>When the walk of a cancellation does not end.\<close>

lemma walk_diverges_iff:
  assumes avail: "redis_available exec kv oth clk" and kept: "well_kept (kv s) (gc_schema gc) (cq_session p)"
    and args: "cq_session p \<noteq> []" "good_mode p"
    and task: "runs_message (kv s) (gc_schema gc) (cq_session p) (cq_message p) t"
  shows "result exec (cancelTask gc p) s = Inr None
    \<longleftrightarrow> (\<exists>x \<in> descendants (kv s) (gc_schema gc) (cq_session p) t. (x, x) \<in> (dispatches (kv s) (gc_schema gc) (cq_session p))\<^sup>+)"
proof -
  let ?sch = "gc_schema gc" and ?session = "cq_session p"
  let ?loop = "\<exists>x \<in> descendants (kv s) ?sch ?session t. (x, x) \<in> (dispatches (kv s) ?sch ?session)\<^sup>+"
  have "wp exec (cancelTask gc p) (\<lambda>r _. r = None \<longleftrightarrow> ?loop) (\<lambda>_ _. False) (s, [])"
  proof (rule redis_available.wp_cancelTask [OF avail kept _ task])
    fix s' l' execs
    assume s': "kv s' = kv s" "sent l' = []" and execs: "set execs = executions (kv s) ?sch ?session"
    have "t \<in> set execs" by (rule task_of_message [OF kept execs task])
    show "wp exec (case collect execs [t] [] [] of None \<Rightarrow> Ret None
        | Some (toCancel, ended) \<Rightarrow> cancel_all gc p t toCancel ended) (\<lambda>r _. r = None \<longleftrightarrow> ?loop) (\<lambda>_ _. False) (s', l')"
    proof (cases ?loop)
      case True
      then have "endless execs t"
        unfolding endless_def dispatched_listed [OF kept execs] by (auto simp: descendants_def)
      then have "collect execs [t] [] [] = None" by (intro collect_endless) auto
      then show ?thesis using True by simp
    next
      case False
      have loops: "(x, x) \<notin> (dispatched execs)\<^sup>+" if "x \<in> reached execs [t]" for x
        using False that unfolding reached_descendants [OF kept execs] dispatched_listed [OF kept execs] by blast
      obtain tc ta where walk: "collect execs [t] [] [] = Some (tc, ta)"
        "set tc = {x \<in> reached execs [t]. live x}" "set ta = {x \<in> reached execs [t]. \<not> live x}"
        by (rule collect_ends [OF \<open>t \<in> set execs\<close> loops])
      then have "set tc \<union> set ta \<subseteq> executions (kv s) ?sch ?session"
        using reached_subset [OF \<open>t \<in> set execs\<close>] execs by auto
      then have "wp exec (cancel_all gc p t tc ta) (\<lambda>r _. r \<noteq> None) (\<lambda>_ _. False) (s', l')"
        using redis_available.wp_cancel_returns [OF avail kept _ args s'] by blast
      then show ?thesis using False by (auto simp: walk(1) elim: wp_mono)
    qed
  qed
  from wp_result [OF this] show ?thesis by auto
qed

text \<open>
  C30. The cancellation of a task does not return exactly when one of the task's
  descendants is its own descendant, as it is when a call reuses the message id
  of one of its callers; nothing is marked and nothing sent then.
\<close>

theorem cancel_diverges_iff:
  assumes avail: "redis_available exec kv oth clk" and kept: "well_kept (kv s) (gc_schema gc) (cq_session p)"
    and args: "cq_session p \<noteq> []" "good_mode p"
    and task: "runs_message (kv s) (gc_schema gc) (cq_session p) (cq_message p) t"
  shows "result exec (cancelTask gc p) s = Inr None
    \<longleftrightarrow> (\<exists>x \<in> descendants (kv s) (gc_schema gc) (cq_session p) t. (x, x) \<in> (dispatches (kv s) (gc_schema gc) (cq_session p))\<^sup>+)"
  using assms by (rule walk_diverges_iff)


text \<open>A call that took the message id of its caller's caller.\<close>

definition sample_circle :: "(string \<times> jobj) list" where
  "sample_circle = [(''e1'', family_record ''e1'' ''m1'' ''m2'' ''RUNNING'' ''w1''),
     (''e2'', family_record ''e2'' ''m2'' ''m1'' ''RUNNING'' ''w2'')]"

lemma circle_consists: "consists_of (mock_view (session_of sample_circle)) V2 ''s'' sample_circle"
  unfolding consists_of_def session_of_hash by (simp add: sample_circle_def family_record_def wf_json.simps)

theorem cancel_diverges_iff_witness:
  "result mock_exec (cancelTask sample_client cancel_first) (session_of sample_circle) = Inr None"
proof -
  let ?v = "mock_view (session_of sample_circle)"
  let ?a = "JObj (family_record ''e1'' ''m1'' ''m2'' ''RUNNING'' ''w1'')"
  let ?b = "JObj (family_record ''e2'' ''m2'' ''m1'' ''RUNNING'' ''w2'')"
  have "runs_message ?v V2 ''s'' ''m1'' ?a"
    unfolding runs_message_def consists_of_executions [OF circle_consists]
    by (auto simp: sample_circle_def family_record_def jget_def oget_def)
  moreover have "(?a, ?b) \<in> dispatches ?v V2 ''s''" "(?b, ?a) \<in> dispatches ?v V2 ''s''"
    unfolding dispatches_def consists_of_executions [OF circle_consists]
    by (simp_all add: sample_circle_def family_record_def jget_def oget_def)
  then have "(?a, ?a) \<in> (dispatches ?v V2 ''s'')\<^sup>+" by (meson trancl.r_into_trancl trancl_trans)
  moreover have "?a \<in> descendants ?v V2 ''s'' ?a" by (simp add: descendants_def)
  ultimately show ?thesis
    using cancel_diverges_iff [OF mock_server.redis_available_axioms, of "session_of sample_circle" sample_client cancel_first ?a]
      consists_of_kept [OF circle_consists]
    by auto
qed


section \<open>A whole session\<close>

text \<open>
  Cancelling a session: every execution that has not ended is recorded as
  being cancelled, and the worker that has taken it is sent a cancellation; the
  ended ones are asked to stop only.
\<close>

lemma session_cancelled:
  assumes avail: "redis_available exec kv oth clk" and kept: "well_kept (kv s) sch session"
    and args: "sch = gc_schema gc" "session = cq_session p" "session \<noteq> []" "good_mode p"
    and someone: "x \<in> executions (kv s) sch session" "live x"
  shows "\<exists>r xs. result exec (cancelSession gc p) s = Inr r \<and> cs_success r \<and> cs_cancelled r = length xs
    \<and> set xs = {x \<in> executions (kv s) sch session. live x}
    \<and> progress sch session (kv s) (set xs) {x \<in> executions (kv s) sch session. \<not> live x} (kv (final exec (cancelSession gc p) s))
    \<and> told sch p xs (sent (issued exec (cancelSession gc p) s))"
proof -
  let ?E = "executions (kv s) sch session"
  have "wp exec (cancelSession gc p) (\<lambda>r \<sigma>. \<exists>xs. cs_success r \<and> cs_cancelled r = length xs \<and> set xs = {x \<in> ?E. live x}
      \<and> progress sch session (kv s) (set xs) {x \<in> ?E. \<not> live x} (kv (fst \<sigma>)) \<and> told sch p xs (sent (snd \<sigma>)))
    (\<lambda>_ _. False) (s, [])" (is "wp _ _ ?Q _ _")
    unfolding cancelSession_def getAllSessionExecutions_def wp_bindP wp_Ret
  proof (rule redis_available.wp_hgetallP [OF avail], goal_cases)
    case (1 s' ps)
    let ?l = "[] @ [Hgetall (session_registry (gc_schema gc) (cq_session p))]"
    have execs: "set (listed ps) = ?E"
      using 1 by (intro set_listed [OF kept]) (auto simp: args)
    define tc ta where "tc = filter live (listed ps)" and "ta = filter (\<lambda>e. \<not> live e) (listed ps)"
    have sets: "set tc = {x \<in> ?E. live x}" "set ta = {x \<in> ?E. \<not> live x}" "tc \<noteq> []" "listed ps \<noteq> []" "JNull \<notin> set (listed ps)"
      using execs someone listed_not_null by (auto simp: tc_def ta_def filter_empty_conv)
    have answer: "wp exec (session_response p True CANCEL_REQUESTED (length tc) n) ?Q (\<lambda>_ _. False) \<sigma>'"
      if "progress sch session (kv s) (set tc) (set ta) (kv (fst \<sigma>'))" "told sch p tc (sent (snd \<sigma>'))" for n \<sigma>'
      using that unfolding session_response_def
      by (cases \<sigma>') (auto simp: sets(1,2) intro!: redis_available.wp_nowP [OF avail] exI [of _ tc])
    have cancels: "wp exec (forP tc (cancel_in_session gc p)) (\<lambda>_ \<sigma>. progress sch session (kv s) (set tc) (set ta) (kv (fst \<sigma>))
        \<and> told sch p tc (sent (snd \<sigma>))) (\<lambda>_ _. False) (s2, l2)"
      if "progress sch session (kv s) {} (set ta) (kv s2)" "sent l2 = []" for s2 l2
      unfolding args(1,2) by (rule redis_available.wp_cancels [OF avail])
        (use kept sets(1) args that in \<open>auto simp: args\<close>)
    have "wp exec (seqP (forP ta (request_cancel gc p)) (seqP (forP tc (cancel_in_session gc p))
        (session_response p True CANCEL_REQUESTED (length tc) (length ta)))) ?Q (\<lambda>_ _. False) (s', ?l)"
      unfolding wp_seqP
    proof (rule wp_mono, rule redis_available.wp_ended [OF avail, of "kv s"], goal_cases)
      case (5 a \<sigma>')
      obtain s2 l2 where \<sigma>': "\<sigma>' = (s2, l2)" by (cases \<sigma>')
      have "progress sch session (kv s) {} (set ta) (kv s2)" "sent l2 = []" using 5 by (simp_all add: args \<sigma>')
      from cancels [OF this] show ?case
        unfolding \<sigma>' by (rule wp_mono) (elim conjE, rule answer, assumption+)
    qed (use kept args 1(1) sets(2) in \<open>auto simp: args\<close>)
    then show ?case
      using sets(3-5) by (simp add: listed_def [symmetric] tc_def [symmetric] ta_def [symmetric] Let_def)
  qed
  from wp_result [OF this] show ?thesis by auto
qed

end
