(* ===== verification/HttpClient.thy ===== *)
theory HttpClient
  imports Complex_Main Results
begin

text \<open>
  The HTTP client (src/http_client.ts): authentication, the URL and the
  headers of a request, the reading of a response, and the retries with their
  growing pauses.

  The network, the file system and the URL class are parameters (`http_env`):
  functions of the state of the outside world, which they change. A response
  body can be read once; reading it again is a TypeError, as the Fetch standard
  has it. Pauses and delays are rational numbers of seconds, the timer
  takes whole milliseconds.
\<close>

section \<open>Authentication\<close>

type_synonym headers = "(string \<times> string) list"

text \<open>`Buffer.from(s).toString('base64')`.\<close>

definition b64_alphabet :: string where
  "b64_alphabet = ''ABCDEFGHIJKLMNOPQRSTUVWXYZabcdefghijklmnopqrstuvwxyz0123456789+/''"

definition b64_char :: "nat \<Rightarrow> char" where
  "b64_char n = b64_alphabet ! n"

definition byte :: "char \<Rightarrow> nat" where
  "byte c = of_char c"

fun base64 :: "string \<Rightarrow> string" where
  "base64 [] = []"
| "base64 [a] = [b64_char (byte a div 4), b64_char (byte a mod 4 * 16), CHR ''='', CHR ''='']"
| "base64 [a, b] = [b64_char (byte a div 4), b64_char (byte a mod 4 * 16 + byte b div 16),
     b64_char (byte b mod 16 * 4), CHR ''='']"
| "base64 (a # b # c # r) = [b64_char (byte a div 4), b64_char (byte a mod 4 * 16 + byte b div 16),
     b64_char (byte b mod 16 * 4 + byte c div 64), b64_char (byte c mod 64)] @ base64 r"

datatype auth =
    NoAuth
  | ApiKeyAuth string string bool string
  | BearerAuth string
  | BasicAuth string string

definition auth_apply :: "auth \<Rightarrow> headers \<Rightarrow> headers" where
  "auth_apply a hs = (case a of
     NoAuth \<Rightarrow> hs
   | ApiKeyAuth k v inHeader prefix \<Rightarrow>
       if inHeader then AList.update k (if prefix \<noteq> [] then prefix @ '' '' @ v else v) hs else hs
   | BearerAuth token \<Rightarrow> AList.update ''Authorization'' (''Bearer '' @ token) hs
   | BasicAuth username password \<Rightarrow>
       AList.update ''Authorization'' (''Basic '' @ base64 (username @ '':'' @ password)) hs)"

text \<open>What the constructor accepts as authentication: nothing, an object of one of the classes, or a token.\<close>

datatype auth_param = AuthMissing | AuthObject auth | AuthToken string

definition resolveAuth :: "auth_param \<Rightarrow> auth" where
  "resolveAuth a = (case a of AuthMissing \<Rightarrow> NoAuth | AuthObject x \<Rightarrow> x | AuthToken t \<Rightarrow> BearerAuth t)"


section \<open>Configuration\<close>

record http_response =
  hr_status :: int
  hr_headers :: headers
  hr_data :: json
  hr_isSuccess :: bool

record retry_config =
  rt_maxAttempts :: int
  rt_initialDelay :: rat
  rt_maxDelay :: rat
  rt_multiplier :: rat
  rt_retryOn :: "int list"

definition default_retry :: retry_config where
  "default_retry = \<lparr>rt_maxAttempts = 3, rt_initialDelay = 1 / 2, rt_maxDelay = 30, rt_multiplier = 2,
     rt_retryOn = [429, 500, 502, 503, 504]\<rparr>"

definition noRetry :: retry_config where
  "noRetry = \<lparr>rt_maxAttempts = 1, rt_initialDelay = 1 / 2, rt_maxDelay = 30, rt_multiplier = 2, rt_retryOn = []\<rparr>"

definition calculateDelay :: "nat \<Rightarrow> retry_config \<Rightarrow> rat" where
  "calculateDelay attempt cfg = min (rt_initialDelay cfg * rt_multiplier cfg ^ (attempt - 1)) (rt_maxDelay cfg)"

text \<open>The timer's milliseconds of a delay in seconds.\<close>

definition timer_ms :: "rat \<Rightarrow> int" where
  "timer_ms delay = \<lfloor>delay * 1000\<rfloor>"

record http_client =
  ht_baseUrl :: string
  ht_headers :: headers
  ht_auth :: auth
  ht_timeout :: json
  ht_retry :: retry_config

text \<open>`url.replace(/\/+$/, '')` and `path.replace(/^\/+/, '')`.\<close>

definition drop_trailing_slashes :: "string \<Rightarrow> string" where
  "drop_trailing_slashes s = rev (dropWhile (\<lambda>c. c = CHR ''/'') (rev s))"

definition drop_leading_slashes :: "string \<Rightarrow> string" where
  "drop_leading_slashes s = dropWhile (\<lambda>c. c = CHR ''/'') s"

definition new_ByHttpClient :: "string \<Rightarrow> auth_param \<Rightarrow> json option \<Rightarrow> headers \<Rightarrow> retry_config option \<Rightarrow> http_client" where
  "new_ByHttpClient baseUrl a timeout hs retry =
     \<lparr>ht_baseUrl = drop_trailing_slashes baseUrl, ht_headers = hs, ht_auth = resolveAuth a,
      ht_timeout = opt_or timeout (JNum 30), ht_retry = opt_or retry default_retry\<rparr>"

section \<open>Requests and responses\<close>

datatype form_part = FormField string string | FormFile string string string string

datatype http_body = NoBody | TextBody string | FormBody "form_part list"

record fetch_request =
  fq_method :: string
  fq_url :: string
  fq_headers :: headers
  fq_body :: http_body
  fq_timeout :: json

record fetch_response =
  fr_status :: int
  fr_headers :: headers
  fr_body :: string

text \<open>`response.ok` of the Fetch standard.\<close>

definition fr_ok :: "fetch_response \<Rightarrow> bool" where
  "fr_ok r \<longleftrightarrow> 200 \<le> fr_status r \<and> fr_status r \<le> 299"

datatype fetch_outcome = Fetched fetch_response | Aborted | FetchFailed js_error

record 'w http_env =
  he_fetch :: "fetch_request \<Rightarrow> 'w \<Rightarrow> fetch_outcome \<times> 'w"
  he_wait :: "int \<Rightarrow> 'w \<Rightarrow> 'w"
  he_addQuery :: "string \<Rightarrow> headers \<Rightarrow> js_error + string"
  he_readFile :: "string \<Rightarrow> 'w \<Rightarrow> (js_error + string) \<times> 'w"
  he_saveFile :: "string \<Rightarrow> string \<Rightarrow> 'w \<Rightarrow> (js_error + unit) \<times> 'w"

datatype http_error = HttpRequestError (he_message: string) (he_url: string) (he_cause: js_error) | Thrown js_error

record request_params =
  qp_headers :: "headers option"
  qp_query :: headers
  qp_json :: "jobj option"
  qp_data :: "jobj option"

definition no_params :: request_params where
  "no_params = \<lparr>qp_headers = None, qp_query = [], qp_json = None, qp_data = None\<rparr>"

text \<open>`Object.assign`, and `!headers[name]`.\<close>

definition assign_headers :: "headers \<Rightarrow> headers \<Rightarrow> headers" where
  "assign_headers hs extra = fold (\<lambda>(k, v). AList.update k v) extra hs"

definition header_missing :: "headers \<Rightarrow> string \<Rightarrow> bool" where
  "header_missing hs k \<longleftrightarrow> opt_or (map_of hs k) [] = []"

definition base_headers :: "http_client \<Rightarrow> headers option \<Rightarrow> headers" where
  "base_headers cl extra = (let hs = auth_apply (ht_auth cl) (ht_headers cl) in
     case extra of None \<Rightarrow> hs | Some m \<Rightarrow> assign_headers hs m)"

text \<open>`new URLSearchParams(data).toString()`.\<close>

definition hex_digit :: "nat \<Rightarrow> char" where
  "hex_digit n = ''0123456789ABCDEF'' ! n"

definition form_encode_char :: "char \<Rightarrow> string" where
  "form_encode_char c = (let n = byte c in
     if 48 \<le> n \<and> n \<le> 57 \<or> 65 \<le> n \<and> n \<le> 90 \<or> 97 \<le> n \<and> n \<le> 122 \<or> c \<in> {CHR ''*'', CHR ''-'', CHR ''.'', CHR ''_''} then [c]
     else if n = 32 then ''+''
     else [CHR ''%'', hex_digit (n div 16), hex_digit (n mod 16)])"

definition form_encode :: "string \<Rightarrow> string" where
  "form_encode s = concat (List.map form_encode_char s)"

definition form_urlencoded :: "jobj \<Rightarrow> string" where
  "form_urlencoded ps = intercalate ''&'' (List.map (\<lambda>(k, v). form_encode k @ ''='' @ form_encode (js_String v)) ps)"

definition request_headers :: "http_client \<Rightarrow> request_params \<Rightarrow> headers" where
  "request_headers cl p =
     (let hs = base_headers cl (qp_headers p);
          hs1 = (if qp_json p \<noteq> None \<and> header_missing hs ''Content-Type'' then AList.update ''Content-Type'' ''application/json'' hs else hs)
      in if qp_data p \<noteq> None \<and> header_missing hs1 ''Content-Type''
         then AList.update ''Content-Type'' ''application/x-www-form-urlencoded'' hs1 else hs1)"

definition request_body :: "request_params \<Rightarrow> http_body" where
  "request_body p = (case qp_json p of
     Some j \<Rightarrow> TextBody (json_stringify (JObj j))
   | None \<Rightarrow> (case qp_data p of Some d \<Rightarrow> TextBody (form_urlencoded d) | None \<Rightarrow> NoBody))"

definition buildUrl :: "'w http_env \<Rightarrow> http_client \<Rightarrow> string \<Rightarrow> headers \<Rightarrow> js_error + string" where
  "buildUrl env cl urlPath query =
     (let normalized = (if startsWith urlPath ''http'' then urlPath else ht_baseUrl cl @ ''/'' @ drop_leading_slashes urlPath)
      in if query = [] then Inr normalized else he_addQuery env normalized query)"

text \<open>`contentType.includes('application/json')`; the headers of a response have lower-case names.\<close>

definition contains_part :: "string \<Rightarrow> string \<Rightarrow> bool" where
  "contains_part s p \<longleftrightarrow> (\<exists>n \<in> set [0..<Suc (length s)]. startsWith (drop n s) p)"

definition parseResponse :: "fetch_response \<Rightarrow> js_error + http_response" where
  "parseResponse r =
     (let answer = (\<lambda>d. Inr \<lparr>hr_status = fr_status r, hr_headers = fr_headers r, hr_data = d, hr_isSuccess = fr_ok r\<rparr>) in
      if contains_part (opt_or (map_of (fr_headers r) ''content-type'') []) ''application/json''
      then (case json_parse (fr_body r) of Some d \<Rightarrow> answer d | None \<Rightarrow> Inl TypeError)
      else answer (JStr (fr_body r)))"

definition timeout_error :: "string \<Rightarrow> http_client \<Rightarrow> js_error" where
  "timeout_error what cl = JsError (what @ '' timeout after '' @ js_String (ht_timeout cl) @ ''s'')"

text \<open>The `try` of one attempt: a response, or the error the attempt ends with.\<close>

definition attempt_once :: "'w http_env \<Rightarrow> http_client \<Rightarrow> (fetch_response \<Rightarrow> 'w \<Rightarrow> (js_error + http_response) \<times> 'w) \<Rightarrow> fetch_request
    \<Rightarrow> 'w \<Rightarrow> (js_error + http_response) \<times> 'w" where
  "attempt_once env cl receive q w = (case he_fetch env q w of
     (Fetched r, w1) \<Rightarrow> receive r w1
   | (Aborted, w1) \<Rightarrow> (Inl (timeout_error ''Request'' cl), w1)
   | (FetchFailed e, w1) \<Rightarrow> (Inl e, w1))"

text \<open>The attempts from number `retryCount + 1` on, of a request or of a download.\<close>

function attempts :: "'w http_env \<Rightarrow> http_client \<Rightarrow> string \<Rightarrow> (fetch_response \<Rightarrow> 'w \<Rightarrow> (js_error + http_response) \<times> 'w) \<Rightarrow> fetch_request
    \<Rightarrow> nat \<Rightarrow> 'w \<Rightarrow> (http_error + http_response) \<times> 'w" where
  "attempts env cl what receive q retryCount w =
     (let attempt = Suc retryCount; again = int attempt < rt_maxAttempts (ht_retry cl);
          pause = timer_ms (calculateDelay attempt (ht_retry cl)) in
      case attempt_once env cl receive q w of
        (Inr r, w1) \<Rightarrow>
          if \<not> hr_isSuccess r \<and> hr_status r \<in> set (rt_retryOn (ht_retry cl)) \<and> again
          then attempts env cl what receive q attempt (he_wait env pause w1)
          else (Inr r, w1)
      | (Inl e, w1) \<Rightarrow>
          if again then attempts env cl what receive q attempt (he_wait env pause w1)
          else (Inl (HttpRequestError (what @ '' failed after '' @ int_str (rt_maxAttempts (ht_retry cl)) @ '' attempts: ''
                  @ error_String e) (fq_url q) e), w1))"
  by pat_completeness auto
termination
  by (relation "measure (\<lambda>(env, cl, what, receive, q, n, w). nat (rt_maxAttempts (ht_retry cl) - int n))") auto

declare attempts.simps [simp del]

definition http_request :: "'w http_env \<Rightarrow> http_client \<Rightarrow> string \<Rightarrow> string \<Rightarrow> request_params \<Rightarrow> nat \<Rightarrow> 'w
    \<Rightarrow> (http_error + http_response) \<times> 'w" where
  "http_request env cl meth url p retryCount w = (case buildUrl env cl url (qp_query p) of
     Inl e \<Rightarrow> (Inl (Thrown e), w)
   | Inr fullUrl \<Rightarrow> attempts env cl ''Request'' (\<lambda>r w1. (parseResponse r, w1))
       \<lparr>fq_method = meth, fq_url = fullUrl, fq_headers = request_headers cl p, fq_body = request_body p,
        fq_timeout = ht_timeout cl\<rparr> retryCount w)"

definition receive_download :: "'w http_env \<Rightarrow> string \<Rightarrow> fetch_response \<Rightarrow> 'w \<Rightarrow> (js_error + http_response) \<times> 'w" where
  "receive_download env destination r w =
     (if fr_ok r
      then (case he_saveFile env destination (fr_body r) w of
          (Inl e, w1) \<Rightarrow> (Inl e, w1)
        | (Inr _, w1) \<Rightarrow> (Inr \<lparr>hr_status = fr_status r, hr_headers = fr_headers r, hr_data = JStr destination, hr_isSuccess = True\<rparr>, w1))
      else (Inr \<lparr>hr_status = fr_status r, hr_headers = fr_headers r, hr_data = JStr (fr_body r), hr_isSuccess = False\<rparr>, w))"

definition http_download :: "'w http_env \<Rightarrow> http_client \<Rightarrow> string \<Rightarrow> string \<Rightarrow> request_params \<Rightarrow> nat \<Rightarrow> 'w
    \<Rightarrow> (http_error + http_response) \<times> 'w" where
  "http_download env cl url destination p retryCount w = (case buildUrl env cl url (qp_query p) of
     Inl e \<Rightarrow> (Inl (Thrown e), w)
   | Inr fullUrl \<Rightarrow> attempts env cl ''Download'' (receive_download env destination)
       \<lparr>fq_method = ''GET'', fq_url = fullUrl, fq_headers = base_headers cl (qp_headers p), fq_body = NoBody,
        fq_timeout = ht_timeout cl\<rparr> retryCount w)"


section \<open>Uploads\<close>

text \<open>`path.basename`.\<close>

definition basename :: "string \<Rightarrow> string" where
  "basename path = rev (takeWhile (\<lambda>c. c \<noteq> CHR ''/'') (rev (drop_trailing_slashes path)))"

definition upload_error :: "http_client \<Rightarrow> fetch_outcome \<Rightarrow> string" where
  "upload_error cl out = (case out of
     Aborted \<Rightarrow> ''Upload timeout after '' @ js_String (ht_timeout cl) @ ''s''
   | FetchFailed e \<Rightarrow> (if error_name e = ''TypeError'' then ''Upload connection error: '' else ''Upload error: '') @ error_message e
   | Fetched r \<Rightarrow> [])"

definition post_form :: "'w http_env \<Rightarrow> http_client \<Rightarrow> string \<Rightarrow> headers \<Rightarrow> form_part list \<Rightarrow> 'w \<Rightarrow> (http_error + http_response) \<times> 'w" where
  "post_form env cl fullUrl hs parts w =
     (let fail = (\<lambda>out e. Inl (HttpRequestError (upload_error cl out) fullUrl e)) in
      case he_fetch env \<lparr>fq_method = ''POST'', fq_url = fullUrl, fq_headers = hs, fq_body = FormBody parts, fq_timeout = ht_timeout cl\<rparr> w of
        (Fetched r, w1) \<Rightarrow> (case parseResponse r of Inl e \<Rightarrow> (fail (FetchFailed e) e, w1) | Inr x \<Rightarrow> (Inr x, w1))
      | (Aborted, w1) \<Rightarrow> (fail Aborted (JsError ''AbortError''), w1)
      | (FetchFailed e, w1) \<Rightarrow> (fail (FetchFailed e) e, w1))"

text \<open>Reading the files into parts; a file that cannot be read ends the upload before anything is sent.\<close>

fun file_parts :: "'w http_env \<Rightarrow> string \<Rightarrow> string list \<Rightarrow> 'w \<Rightarrow> (js_error + form_part list) \<times> 'w" where
  "file_parts env field [] w = (Inr [], w)"
| "file_parts env field (p # ps) w = (case he_readFile env p w of
     (Inl e, w1) \<Rightarrow> (Inl e, w1)
   | (Inr ct, w1) \<Rightarrow> (case file_parts env field ps w1 of
       (Inl e, w2) \<Rightarrow> (Inl e, w2)
     | (Inr parts, w2) \<Rightarrow> (Inr (FormFile field ct [] (basename p) # parts), w2)))"

record upload_params =
  up_fileField :: "string option"
  up_contentType :: "string option"
  up_headers :: "headers option"
  up_formFields :: headers

definition form_fields :: "upload_params \<Rightarrow> form_part list" where
  "form_fields p = List.map (\<lambda>(k, v). FormField k v) (up_formFields p)"

definition uploadMultiple :: "'w http_env \<Rightarrow> http_client \<Rightarrow> string \<Rightarrow> string list \<Rightarrow> upload_params \<Rightarrow> 'w
    \<Rightarrow> (http_error + http_response) \<times> 'w" where
  "uploadMultiple env cl url filePaths p w = (case buildUrl env cl url [] of
     Inl e \<Rightarrow> (Inl (Thrown e), w)
   | Inr fullUrl \<Rightarrow> (case file_parts env (opt_or (up_fileField p) ''file'') filePaths w of
       (Inl e, w1) \<Rightarrow> (Inl (Thrown e), w1)
     | (Inr files, w1) \<Rightarrow> post_form env cl fullUrl (base_headers cl (up_headers p)) (form_fields p @ files) w1))"

definition upload :: "'w http_env \<Rightarrow> http_client \<Rightarrow> string \<Rightarrow> string \<Rightarrow> upload_params \<Rightarrow> 'w \<Rightarrow> (http_error + http_response) \<times> 'w" where
  "upload env cl url filePath p w = uploadMultiple env cl url [filePath] p w"

definition uploadWithStream :: "'w http_env \<Rightarrow> http_client \<Rightarrow> string \<Rightarrow> string \<Rightarrow> string \<Rightarrow> upload_params \<Rightarrow> 'w
    \<Rightarrow> (http_error + http_response) \<times> 'w" where
  "uploadWithStream env cl url fileName content p w = (case buildUrl env cl url [] of
     Inl e \<Rightarrow> (Inl (Thrown e), w)
   | Inr fullUrl \<Rightarrow> post_form env cl fullUrl (AList.delete ''Content-Type'' (base_headers cl (up_headers p)))
       (form_fields p @ [FormFile (opt_or (up_fileField p) ''file'') content
          (opt_or (up_contentType p) ''application/octet-stream'') fileName]) w)"


section \<open>The methods\<close>

definition http_get :: "'w http_env \<Rightarrow> http_client \<Rightarrow> string \<Rightarrow> request_params \<Rightarrow> 'w \<Rightarrow> (http_error + http_response) \<times> 'w" where
  "http_get env cl url p = http_request env cl ''GET'' url p 0"

definition http_post :: "'w http_env \<Rightarrow> http_client \<Rightarrow> string \<Rightarrow> request_params \<Rightarrow> 'w \<Rightarrow> (http_error + http_response) \<times> 'w" where
  "http_post env cl url p = http_request env cl ''POST'' url p 0"

definition http_put :: "'w http_env \<Rightarrow> http_client \<Rightarrow> string \<Rightarrow> request_params \<Rightarrow> 'w \<Rightarrow> (http_error + http_response) \<times> 'w" where
  "http_put env cl url p = http_request env cl ''PUT'' url p 0"

definition http_patch :: "'w http_env \<Rightarrow> http_client \<Rightarrow> string \<Rightarrow> request_params \<Rightarrow> 'w \<Rightarrow> (http_error + http_response) \<times> 'w" where
  "http_patch env cl url p = http_request env cl ''PATCH'' url p 0"

definition http_delete :: "'w http_env \<Rightarrow> http_client \<Rightarrow> string \<Rightarrow> request_params \<Rightarrow> 'w \<Rightarrow> (http_error + http_response) \<times> 'w" where
  "http_delete env cl url p = http_request env cl ''DELETE'' url p 0"

end
