(* ===== verification/SpanRecorder.thy ===== *)
theory SpanRecorder
  imports HttpClient Actions Keys
begin

text \<open>
  The recorder of trace spans (src/trace/span_recorder.ts): which spans are kept,
  the record of one, and its export to Redis.

  A span is the object its creator passes, with the property names of the code.
  MD5 is an argument, as its digest in hexadecimal. The sampling rate is a rational
  number.
\<close>

section \<open>Configuration\<close>

definition hex_number :: "string \<Rightarrow> int" where
  "hex_number s = foldl (\<lambda>n c. n * 16 + int (opt_or (hex_val c) 0)) 0 s"

text \<open>`BigInt('0x' + s)`: None is the SyntaxError.\<close>

definition big_hex :: "string \<Rightarrow> int option" where
  "big_hex s = (let t = drop 2 (js_trim (''0x'' @ s)) in
     if t \<noteq> [] \<and> list_all (\<lambda>c. hex_val c \<noteq> None) t then Some (hex_number t) else None)"

definition strToUint64 :: "(string \<Rightarrow> string) \<Rightarrow> string \<Rightarrow> int" where
  "strToUint64 md5 s =
     (let direct = (if length s = 16 then big_hex s else None);
          val = (case direct of Some v \<Rightarrow> v | None \<Rightarrow> hex_number (take 16 (md5 s)))
      in if val \<noteq> 0 then val else 1)"

definition lower_hex_digit :: "nat \<Rightarrow> char" where
  "lower_hex_digit n = ''0123456789abcdef'' ! n"

fun hex_text :: "nat \<Rightarrow> string" where
  "hex_text n = (if n < 16 then [lower_hex_digit n] else hex_text (n div 16) @ [lower_hex_digit (n mod 16)])"

declare hex_text.simps [simp del]

definition spanIdHex :: "(string \<Rightarrow> string) \<Rightarrow> string \<Rightarrow> string" where
  "spanIdHex md5 s = (let t = hex_text (nat (strToUint64 md5 s)) in replicate (16 - length t) (CHR ''0'') @ t)"

definition is_quote_char :: "char \<Rightarrow> bool" where
  "is_quote_char c \<longleftrightarrow> c = CHR 39 \<or> c = CHR 34"

definition cleanEnv :: "env \<Rightarrow> string \<Rightarrow> string" where
  "cleanEnv env n = rev (dropWhile is_quote_char (rev (dropWhile is_quote_char (js_trim (env_text env n)))))"

text \<open>`toLowerCase`, as far as the comparison with ASCII words without a `k` can tell.\<close>

definition ascii_lower :: "string \<Rightarrow> string" where
  "ascii_lower s = List.map (\<lambda>c. if 65 \<le> byte c \<and> byte c \<le> 90 then char_of (byte c + 32) else c) s"

definition ENABLED_VALUES :: "string list" where
  "ENABLED_VALUES = [''1'', ''true'', ''yes'', ''on'', ''enabled'']"

definition DISABLED_VALUES :: "string list" where
  "DISABLED_VALUES = [''0'', ''false'', ''no'', ''off'', ''disabled'']"

definition obs_envBool :: "env \<Rightarrow> string \<Rightarrow> bool \<Rightarrow> bool" where
  "obs_envBool env n dflt = (let val = ascii_lower (cleanEnv env n) in
     if val = [] then dflt else if val \<in> set ENABLED_VALUES then True
     else if val \<in> set DISABLED_VALUES then False else dflt)"

definition obs_envInt :: "env \<Rightarrow> string \<Rightarrow> int \<Rightarrow> int" where
  "obs_envInt env n dflt = (case js_parseInt (js_trim (cleanEnv env n)) of None \<Rightarrow> dflt | Some v \<Rightarrow> v)"

text \<open>`parseFloat`: `Inl` is an infinity, None is NaN.\<close>

definition decimal_prefix :: "string \<Rightarrow> rat option" where
  "decimal_prefix t =
     (let ds = takeWhile is_digit t; r1 = dropWhile is_digit t;
          fs = (if startsWith r1 ''.'' then takeWhile is_digit (tl r1) else []);
          r2 = (if startsWith r1 ''.'' then dropWhile is_digit (tl r1) else r1);
          e = (if startsWith r2 ''e'' \<or> startsWith r2 ''E'' then opt_or (js_parseInt (tl r2)) 0 else 0);
          m = of_nat (digits_nat (ds @ fs)) / 10 ^ length fs
      in if ds @ fs = [] then None else Some (if 0 \<le> e then m * 10 ^ nat e else m / 10 ^ nat (- e)))"

definition js_parseFloat :: "string \<Rightarrow> (bool + rat) option" where
  "js_parseFloat s =
     (let neg = startsWith s ''-''; t = (if neg \<or> startsWith s ''+'' then tl s else s)
      in if startsWith t ''Infinity'' then Some (Inl neg)
         else (case decimal_prefix t of None \<Rightarrow> None | Some v \<Rightarrow> Some (Inr (if neg then - v else v))))"

definition envFloat :: "env \<Rightarrow> string \<Rightarrow> rat \<Rightarrow> rat \<Rightarrow> rat \<Rightarrow> rat" where
  "envFloat env n dflt lo hi = (case js_parseFloat (js_trim (cleanEnv env n)) of
     None \<Rightarrow> dflt
   | Some (Inl neg) \<Rightarrow> (if neg then lo else hi)
   | Some (Inr v) \<Rightarrow> min hi (max lo v))"

record obs_config =
  oc_enabled :: bool
  oc_redisEnabled :: bool
  oc_otelEnabled :: bool
  oc_langfuseEnabled :: bool
  oc_ttlSeconds :: int
  oc_sampleRate :: rat
  oc_maxSpansPerTrace :: int
  oc_metadataValueMaxLength :: int

definition TRACE_TTL_SECONDS :: int where "TRACE_TTL_SECONDS = 15 * 60"

definition buildObservabilityConfig :: "env \<Rightarrow> obs_config" where
  "buildObservabilityConfig env = (let enabled = obs_envBool env ''BY_FRAMEWORK_OBSERVABILITY_ENABLED'' True in
     \<lparr>oc_enabled = enabled,
      oc_redisEnabled = (enabled \<and> obs_envBool env ''BY_FRAMEWORK_TRACE_REDIS_ENABLED'' True),
      oc_otelEnabled = (enabled \<and> obs_envBool env ''BY_FRAMEWORK_OTEL_ENABLED'' False),
      oc_langfuseEnabled = (enabled \<and> obs_envBool env ''BY_FRAMEWORK_LANGFUSE_ENABLED'' (obs_envBool env ''BYAI_LANGFUSE_ENABLED'' True)),
      oc_ttlSeconds = obs_envInt env ''BY_FRAMEWORK_TRACE_TTL_SECONDS'' TRACE_TTL_SECONDS,
      oc_sampleRate = envFloat env ''BY_FRAMEWORK_TRACE_SAMPLE_RATE'' 1 0 1,
      oc_maxSpansPerTrace = max 1 (obs_envInt env ''BY_FRAMEWORK_TRACE_MAX_SPANS_PER_TRACE'' 1000),
      oc_metadataValueMaxLength = max 32 (obs_envInt env ''BY_FRAMEWORK_TRACE_METADATA_VALUE_MAX_LENGTH'' 256)\<rparr>)"


section \<open>The record of a span\<close>

type_synonym span = jobj

definition num_of :: "json option \<Rightarrow> int" where
  "num_of v = (case v of Some (JNum n) \<Rightarrow> n | _ \<Rightarrow> 0)"

definition span_text :: "span \<Rightarrow> string \<Rightarrow> string" where
  "span_text sp k = (case oget sp k of Some (JStr s) \<Rightarrow> s | _ \<Rightarrow> [])"

definition text_fields :: "(string \<times> string) list" where
  "text_fields = [(''session_id'', ''sessionId''), (''execution_id'', ''executionId''), (''message_id'', ''messageId''),
     (''parent_message_id'', ''parentMessageId''), (''worker_id'', ''workerId''), (''source_agent_type'', ''sourceAgentType''),
     (''target_agent_type'', ''targetAgentType''), (''error_type'', ''errorType''), (''error_message'', ''errorMessage''),
     (''error_code'', ''errorCode''), (''failed_stage'', ''failedStage'')]"

definition with_default :: "span \<Rightarrow> json \<Rightarrow> string \<Rightarrow> json" where
  "with_default sp d k = js_or (oget sp k) d"

text \<open>`span.x != null`, and an object with a key of its own.\<close>

definition given :: "span \<Rightarrow> string \<Rightarrow> string \<Rightarrow> jobj" where
  "given sp f k = (case oget sp k of None \<Rightarrow> [] | Some v \<Rightarrow> if v = JNull then [] else [(f, v)])"

definition given_object :: "span \<Rightarrow> string \<Rightarrow> string \<Rightarrow> jobj" where
  "given_object sp f k = (case oget sp k of Some (JObj ps) \<Rightarrow> if ps = [] then [] else [(f, JObj ps)] | _ \<Rightarrow> [])"

definition span_fields :: "span \<Rightarrow> jobj" where
  "span_fields sp =
     (let startTs = num_of (oget sp ''startTs''); endTs = max startTs (num_of (oget sp ''endTs'')); txt = span_text sp in
      [(''trace_id'', JStr (txt ''traceId'')), (''span_id'', JStr (txt ''spanId'')), (''parent_span_id'', JStr (txt ''parentSpanId'')),
       (''operation'', JStr (txt ''operation'')), (''component'', JStr (txt ''component'')),
       (''start_ts'', JNum startTs), (''end_ts'', JNum endTs), (''duration_ms'', JNum (max 0 (endTs - startTs))),
       (''status'', JStr (txt ''status'')), (''name'', with_default sp (JStr (txt ''operation'')) ''name''),
       (''kind'', with_default sp (JStr []) ''kind''), (''source'', with_default sp (JStr ''redis'') ''source'')]
      @ List.map (\<lambda>(f, k). (f, with_default sp (JStr []) k)) text_fields
      @ [(''retryable'', with_default sp (JBool False) ''retryable''), (''route_policy'', with_default sp (JStr []) ''routePolicy''),
         (''route_status'', with_default sp (JStr []) ''routeStatus''), (''queue_wait_ms'', with_default sp (JNum 0) ''queueWaitMs''),
         (''chunk_count'', with_default sp (JNum 0) ''chunkCount''), (''event_type'', with_default sp (JStr []) ''eventType'')]
      @ given sp ''input'' ''input'' @ given sp ''output'' ''output'' @ given_object sp ''tokens'' ''tokens''
      @ given_object sp ''cost'' ''cost'' @ given_object sp ''metadata'' ''metadata'')"

definition traceSpanToPayload :: "span \<Rightarrow> jobj" where
  "traceSpanToPayload sp = filter (\<lambda>(k, v). v \<noteq> JStr [] \<and> v \<noteq> JNull) (span_fields sp)"


section \<open>Export to Redis\<close>

record span_exporter =
  sx_schema :: key_schema
  sx_ttlSeconds :: nat

definition new_RedisSpanExporter :: "key_schema \<Rightarrow> int \<Rightarrow> span_exporter" where
  "new_RedisSpanExporter sch ttl = \<lparr>sx_schema = sch, sx_ttlSeconds = nat (max 1 ttl)\<rparr>"

definition pay_text :: "jobj \<Rightarrow> string \<Rightarrow> string" where
  "pay_text p k = js_String (js_or (oget p k) (JStr []))"

definition writeTraceIndex :: "span_exporter \<Rightarrow> key \<Rightarrow> string \<Rightarrow> int \<Rightarrow> unit prog" where
  "writeTraceIndex x indexKey tid score =
     catchP (seqP (zaddP indexKey score tid) (bindP (expireP indexKey (sx_ttlSeconds x)) (\<lambda>_. Ret ()))) (\<lambda>_. Ret ())"

text \<open>`parseInt(raw || '0', 10) || 0`.\<close>

definition read_start :: "string option \<Rightarrow> int" where
  "read_start raw = (case js_parseInt (js_trim (str_or (opt_or raw []) ''0'')) of None \<Rightarrow> 0 | Some n \<Rightarrow> n)"

definition trace_start :: "int \<Rightarrow> int \<Rightarrow> int" where
  "trace_start existing startTs = (if 0 < existing \<and> 0 < startTs then min existing startTs
     else if existing \<noteq> 0 then existing else startTs)"

definition meta_cmds :: "span_exporter \<Rightarrow> jobj \<Rightarrow> int \<Rightarrow> int \<Rightarrow> cmd list" where
  "meta_cmds x p traceStartTs updatedAt =
     (let tid = pay_text p ''trace_id''; k = trace_meta (sx_schema x) tid; spans = trace_spans (sx_schema x) tid;
          operation = pay_text p ''operation''; root = startsWith operation ''client.dispatch'';
          opt = (\<lambda>f g. if opt_truthy (oget p g) \<and> root then [Hset k f (pay_text p g)] else [])
      in [Hset k ''trace_id'' tid, Hset k ''session_id'' (pay_text p ''session_id''), Hset k ''status'' (pay_text p ''status'')]
         @ opt ''name'' ''name'' @ opt ''root_agent_type'' ''target_agent_type'' @ opt ''root_message_id'' ''message_id''
         @ [Hset k ''start_ts'' (int_str traceStartTs), Hset k ''updated_at'' (int_str updatedAt), Expire k (sx_ttlSeconds x),
            Rpush spans (json_stringify (JObj p)), Expire spans (sx_ttlSeconds x)])"

definition exportSpan :: "span_exporter \<Rightarrow> span \<Rightarrow> unit prog" where
  "exportSpan x sp =
     (let p = traceSpanToPayload sp; tid = pay_text p ''trace_id'';
          startTs = num_of (oget p ''start_ts''); endTs = num_of (Some (js_or (oget p ''end_ts'') (JNum startTs)));
          sch = sx_schema x;
          index = (\<lambda>f key_of. whenP (opt_truthy (oget p f)) (writeTraceIndex x (key_of (pay_text p f)) tid startTs))
      in bindP (catchP (bindP (hgetP (trace_meta sch tid) ''start_ts'') (\<lambda>raw. Ret (read_start raw))) (\<lambda>_. Ret 0)) (\<lambda>existing.
         seqP (pipelineP (meta_cmds x p (trace_start existing startTs) (max existing endTs)))
        (seqP (index ''session_id'' (trace_index_session sch))
        (seqP (index ''worker_id'' (trace_index_worker sch))
           (index ''target_agent_type'' (trace_index_agent sch))))))"


section \<open>Which spans are recorded\<close>

text \<open>An exporter is what it does with a span. The map of the spans per trace keeps the order of insertion.\<close>

record recorder =
  sr_config :: obs_config
  sr_exporters :: "(span \<Rightarrow> unit prog) list"
  sr_spansByTrace :: "(string \<times> int) list"
  sr_trackingMaxSize :: int

definition new_SpanRecorder :: "obs_config \<Rightarrow> (span \<Rightarrow> unit prog) list option \<Rightarrow> key_schema \<Rightarrow> recorder" where
  "new_SpanRecorder cfg exporters sch = \<lparr>sr_config = cfg,
     sr_exporters = (if \<not> oc_enabled cfg then []
       else case exporters of Some xs \<Rightarrow> xs
       | None \<Rightarrow> if oc_redisEnabled cfg then [exportSpan (new_RedisSpanExporter sch (oc_ttlSeconds cfg))] else []),
     sr_spansByTrace = [], sr_trackingMaxSize = min 10000 (oc_maxSpansPerTrace cfg * 20)\<rparr>"

definition sampled_out :: "(string \<Rightarrow> string) \<Rightarrow> obs_config \<Rightarrow> string \<Rightarrow> bool" where
  "sampled_out md5 cfg tid \<longleftrightarrow> oc_sampleRate cfg \<le> 0
     \<or> oc_sampleRate cfg < 1 \<and> oc_sampleRate cfg \<le> of_int (hex_number (take 8 (md5 tid))) / 4294967295"

text \<open>When the map is full the older half of it goes.\<close>

definition make_room :: "recorder \<Rightarrow> (string \<times> int) list" where
  "make_room r = (let m = sr_spansByTrace r in
     if sr_trackingMaxSize r \<le> int (length m) then drop (length m div 2) m else m)"

definition shouldRecord :: "(string \<Rightarrow> string) \<Rightarrow> recorder \<Rightarrow> span \<Rightarrow> (bool \<times> string) \<times> recorder" where
  "shouldRecord md5 r sp =
     (let cfg = sr_config r; tid = span_text sp ''traceId''; current = opt_or (map_of (sr_spansByTrace r) tid) 0 in
      if sr_exporters r = [] then ((False, ''disabled''), r)
      else if sampled_out md5 cfg tid then ((False, ''sampled''), r)
      else if oc_maxSpansPerTrace cfg \<le> current then ((False, ''trace_span_limit''), r)
      else ((True, []), r\<lparr>sr_spansByTrace := AList.update tid (current + 1) (make_room r)\<rparr>))"

definition recordSpan :: "(string \<Rightarrow> string) \<Rightarrow> span \<Rightarrow> (recorder, unit) act" where
  "recordSpan md5 sp = bindA (readA (\<lambda>r. shouldRecord md5 r sp)) (\<lambda>(d, r').
     seqA (writeA (\<lambda>_. r'))
       (whenA (fst d) (liftA (forP (sr_exporters r') (\<lambda>x. catchP (x sp) (\<lambda>_. Ret ()))))))"

end
