(* ===== verification/ClientProperties.thy ===== *)
theory ClientProperties
  imports CancelProperties SpanRecorder
begin

text \<open>
  Sending: a resume continues the execution it names when it is accepted, and
  loses it when it is refused.
\<close>


section \<open>Sending a message\<close>

text \<open>Of the messages of a client only those outside the control plane reach an agent.\<close>

definition to_agents :: "key_schema \<Rightarrow> cmd list \<Rightarrow> (key \<times> string) list" where
  "to_agents sch l = outside (control_plane sch) (sent l)"

definition quiet_client :: "client \<Rightarrow> bool" where
  "quiet_client gc \<longleftrightarrow> (\<forall>sp. gc_span gc sp = Ret ())"

text \<open>Two keyspaces that agree on every key outside a set; the keys a command may change.\<close>

definition agree_off :: "key set \<Rightarrow> view \<Rightarrow> view \<Rightarrow> bool" where
  "agree_off X v v' \<longleftrightarrow> (\<forall>k. k \<notin> X \<longrightarrow> v_str v' k = v_str v k \<and> v_hash v' k = v_hash v k \<and> v_set v' k = v_set v k \<and> v_zset v' k = v_zset v k)"

lemma agree_off_refl [simp]: "agree_off X v v"
  by (simp add: agree_off_def)

lemma agree_off_trans: "agree_off X v v' \<Longrightarrow> agree_off X v' v'' \<Longrightarrow> agree_off X v v''"
  by (simp add: agree_off_def)

fun cmd_keys :: "cmd \<Rightarrow> key set" where
  "cmd_keys (SetC k x ttl nx) = {k}"
| "cmd_keys (Del k) = {k}"
| "cmd_keys (Hset k f x) = {k}"
| "cmd_keys (Hincrby k f n) = {k}"
| "cmd_keys (Sadd k m) = {k}"
| "cmd_keys (Srem k m) = {k}"
| "cmd_keys (Zadd k sc m) = {k}"
| "cmd_keys (Zrem k m) = {k}"
| "cmd_keys (Zremrangebyscore k lo hi) = {k}"
| "cmd_keys (Hdel k f) = {k}"
| "cmd_keys (Zremupto k hi) = {k}"
| "cmd_keys _ = {}"

lemma law_agree: "redis_law c v N t r v' \<Longrightarrow> cmd_keys c \<subseteq> X \<Longrightarrow> agree_off X v v'"
  by (cases c) (auto simp: agree_off_def split: if_splits)

text \<open>A client whose span recorder writes no keys but those of `X`, and sends nothing.\<close>

definition spans_within :: "(cmd \<Rightarrow> 's \<Rightarrow> answer \<times> 's) \<Rightarrow> ('s \<Rightarrow> view) \<Rightarrow> key set \<Rightarrow> client \<Rightarrow> bool" where
  "spans_within exec kv X gc \<longleftrightarrow> (\<forall>sp s l. wp exec (gc_span gc sp)
     (\<lambda>_ \<sigma>. agree_off X (kv s) (kv (fst \<sigma>)) \<and> sent (snd \<sigma>) = sent l)
     (\<lambda>_ \<sigma>. agree_off X (kv s) (kv (fst \<sigma>)) \<and> sent (snd \<sigma>) = sent l) (s, l))"

lemma quiet_spans: "quiet_client gc \<Longrightarrow> spans_within exec kv X gc"
  by (simp add: quiet_client_def spans_within_def)

lemma wp_span:
  assumes "spans_within exec kv X gc"
    and "\<And>\<sigma>'. agree_off X (kv (fst \<sigma>)) (kv (fst \<sigma>')) \<Longrightarrow> sent (snd \<sigma>') = sent (snd \<sigma>) \<Longrightarrow> Q () \<sigma>'"
  shows "wp exec (catchP (gc_span gc sp) (\<lambda>_. Ret ())) Q E \<sigma>"
  using assms(1) unfolding wp_catchP wp_Ret
  by (rule wp_mono [OF spans_within_def [THEN iffD1, THEN spec, THEN spec [of _ "fst \<sigma>"], THEN spec [of _ "snd \<sigma>"], unfolded prod.collapse]])
    (use assms(2) in auto)

text \<open>The keys of traces.\<close>

definition trace_keys :: "key_schema \<Rightarrow> key set" where
  "trace_keys sch = range (trace_meta sch) \<union> range (trace_spans sch) \<union> range (trace_index_session sch)
     \<union> range (trace_index_worker sch) \<union> range (trace_index_agent sch)"

lemma registry_no_trace [simp]: "session_registry sch session \<notin> trace_keys sch"
  by (cases sch) (auto simp: trace_keys_def session_registry_def trace_meta_def trace_spans_def trace_index_session_def
    trace_index_worker_def trace_index_agent_def versioned_def)

lemma seqP_whenP: "seqP (whenP b p) q = (if b then seqP p q else q)"
  by (simp add: seqP_def whenP_def)

context redis_available
begin

text \<open>What publishing does: the record, unless a resume continues one, then the command, unless it is queued.\<close>

definition sent_out :: "key set \<Rightarrow> client \<Rightarrow> send_params \<Rightarrow> command \<Rightarrow> json option \<Rightarrow> string \<Rightarrow> key \<Rightarrow> string \<Rightarrow> 'a config \<Rightarrow> 'a config \<Rightarrow> bool" where
  "sent_out X gc p c resumed e stream status \<sigma> \<sigma>' \<longleftrightarrow>
     (if opt_truthy resumed then agree_off X (kv (fst \<sigma>)) (kv (fst \<sigma>'))
      else \<exists>now. agree_off X (recorded_view (gc_schema gc) (sent_record p c e stream status) now (kv (fst \<sigma>))) (kv (fst \<sigma>')))
     \<and> sent (snd \<sigma>') = sent (snd \<sigma>) @ (if status = status_name QUEUE_PENDING then [] else [(stream, command_payload c)])"

lemma wp_publish_message:
  assumes client: "spans_within exec kv X gc"
    and Q: "\<And>a \<sigma>'. sr_success a \<Longrightarrow> sr_message a = messageId (header c) \<Longrightarrow>
      sent_out X gc p c resumed e stream status \<sigma> \<sigma>' \<Longrightarrow> Q a \<sigma>'"
  shows "wp exec (publish_message gc p c resumed e stream status) Q E \<sigma>"
proof -
  let ?tail = "\<lambda>t0. seqP (whenP (status \<noteq> status_name QUEUE_PENDING) (xaddP stream (command_payload c)))
      (bindP nowP (\<lambda>endTs. seqP (catchP (gc_span gc (client_span c p status t0 endTs)) (\<lambda>_. Ret ()))
        (bindP nowP (\<lambda>now. Ret
         \<lparr>sr_success = True, sr_message = messageId (header c), sr_trace = traceId (header c), sr_worker = sp_worker p,
          sr_target = Some (targetAgentType (header c)), sr_timestamp = now, sr_status = QUEUED, sr_error = None,
          sr_errorCode = None\<rparr>))))"
  have finish: "wp exec (bindP nowP (\<lambda>endTs. seqP (catchP (gc_span gc (client_span c p status t0 endTs)) (\<lambda>_. Ret ()))
        (bindP nowP (\<lambda>now. Ret
         \<lparr>sr_success = True, sr_message = messageId (header c), sr_trace = traceId (header c), sr_worker = sp_worker p,
          sr_target = Some (targetAgentType (header c)), sr_timestamp = now, sr_status = QUEUED, sr_error = None,
          sr_errorCode = None\<rparr>)))) Q E \<sigma>2"
    if "sent_out X gc p c resumed e stream status \<sigma> \<sigma>2" for t0 \<sigma>2
    unfolding wp_bindP wp_seqP wp_Ret
  proof (rule quiet_nowP, rule wp_span [OF client], rule quiet_nowP, rule Q, goal_cases)
    case (3 \<sigma>3 \<sigma>4 \<sigma>5)
    then have "agree_off X (kv (fst \<sigma>2)) (kv (fst \<sigma>5))" "sent (snd \<sigma>5) = sent (snd \<sigma>2)" by (simp_all add: quiet_def)
    then show ?case
      using that agree_off_trans unfolding sent_out_def by (cases "opt_truthy resumed") (auto, blast)
  qed simp_all
  have tail: "wp exec (?tail t0) Q E \<sigma>1"
    if "if opt_truthy resumed then quiet \<sigma> \<sigma>1 else \<exists>\<sigma>0. quiet \<sigma> \<sigma>0 \<and> recorded (gc_schema gc) (sent_record p c e stream status) \<sigma>0 \<sigma>1" for t0 \<sigma>1
  proof (cases "status = status_name QUEUE_PENDING")
    case True
    then have "sent_out X gc p c resumed e stream status \<sigma> \<sigma>1"
      using that by (auto simp: sent_out_def quiet_def recorded_def split: if_splits intro!: exI [where P = "\<lambda>now. agree_off X (recorded_view _ _ now _) _"] agree_off_refl)
    from finish [OF this] show ?thesis using True by simp
  next
    case False
    show ?thesis
      unfolding wp_seqP [of exec "whenP _ _"] wp_whenP if_P [OF False]
    proof (rule published_xaddP, rule finish)
      fix \<sigma>2 assume "published stream (command_payload c) \<sigma>1 \<sigma>2"
      then show "sent_out X gc p c resumed e stream status \<sigma> \<sigma>2"
        using that False by (auto simp: sent_out_def quiet_def recorded_def published_def split: if_splits intro!: exI [where P = "\<lambda>now. agree_off X (recorded_view _ _ now _) _"] agree_off_refl)
    qed
  qed
  show ?thesis
    unfolding publish_message_def wp_bindP [of exec nowP]
  proof (rule quiet_nowP)
    fix \<sigma>0 assume q: "quiet \<sigma> \<sigma>0"
    show "wp exec (seqP (whenP (\<not> opt_truthy resumed) (best_effort_init gc (sent_record p c e stream status)))
        (?tail (clk (fst \<sigma>)))) Q E \<sigma>0"
    proof (cases "opt_truthy resumed")
      case True
      then have yes: "(\<not> opt_truthy resumed) = False" by simp
      show ?thesis
        unfolding yes seqP_whenP [of False] if_False by (rule tail) (use q True in simp)
    next
      case False
      show ?thesis
        unfolding seqP_whenP [of "\<not> opt_truthy resumed"] if_P [OF False] best_effort_init_def wp_seqP [of exec "catchP _ _"] wp_catchP
        by (rule recorded_init, rule tail) (simp only: False if_False, use q in blast)
    qed
  qed
qed


text \<open>What a refusal does: it records the execution as failed.\<close>

lemma wp_send_refused:
  assumes Q: "\<And>a' now \<sigma>'. \<not> sr_success a' \<Longrightarrow> sr_errorCode a' = Some (refusal_code a) \<Longrightarrow>
      kv (fst \<sigma>') = recorded_view (gc_schema gc) (refused_record p c e (refusal_text a) (refusal_code a)) now (kv (fst \<sigma>)) \<Longrightarrow>
      sent (snd \<sigma>') = sent (snd \<sigma>) \<Longrightarrow> Q a' \<sigma>'"
  shows "wp exec (send_refused gc p c e a) Q E \<sigma>"
  unfolding send_refused_def best_effort_init_def wp_seqP wp_catchP wp_bindP wp_Ret
  by (rule recorded_init, rule quiet_nowP, rule Q) (auto simp: quiet_def recorded_def)

lemma wp_first_route:
  assumes "\<And>k \<sigma>'. quiet \<sigma> \<sigma>' \<Longrightarrow> Q k \<sigma>'" "\<And>e \<sigma>'. quiet \<sigma> \<sigma>' \<Longrightarrow> E e \<sigma>'"
  shows "wp exec (first_route gc p) Q E \<sigma>"
proof (cases "sp_worker p = []")
  case True
  then show ?thesis using assms(1) [of \<sigma>] by (simp add: first_route_def)
next
  case False
  have go: "wp exec (if online then Ret k else Raise e) Q E \<sigma>'" if "quiet \<sigma> \<sigma>'" for online k e \<sigma>'
    using assms that by auto
  show ?thesis
  proof (cases "requires_online p")
    case True
    then show ?thesis
      using False unfolding first_route_def resolveDirectWorkerRoute_def
      by (auto intro!: quiet_isWorkerOnline go simp del: if_split)
  next
    case offline: False
    then show ?thesis
      using False assms(1) [OF quiet_refl] unfolding first_route_def resolveDirectWorkerRoute_def by simp
  qed
qed

lemma wp_sendMessage:
  assumes rq: "runInterceptors (gc_interceptors gc) (first_request p) = Inr rq" and m: "sp_message p \<noteq> []"
    and ct: "format_content (rq_content rq) = Inr ct"
    and build: "\<And>trace. \<exists>c. buildGatewayCommand (str_or (rq_actionType rq) ASK_AGENT)
        (send_header gc p rq (sp_message p) trace) ct (send_payload rq) = Inr c \<and> P c"
    and refuse: "\<And>a \<sigma>'. quiet \<sigma> \<sigma>' \<Longrightarrow> \<not> sr_success a \<Longrightarrow> sp_worker p \<noteq> [] \<Longrightarrow> Q (Some a) \<sigma>'"
    and built: "\<And>c k \<sigma>'. quiet \<sigma> \<sigma>' \<Longrightarrow> P c \<Longrightarrow> wp exec (send_built gc p rq c k) Q E \<sigma>'"
  shows "wp exec (sendMessage gc p) Q E \<sigma>"
proof -
  let ?go = "\<lambda>trace route. case route of
       Inl e \<Rightarrow> bindP (route_refused p e) (\<lambda>r. Ret (Some r))
     | Inr stream \<Rightarrow> (case format_content (rq_content rq) of Inl e \<Rightarrow> Raise e
        | Inr ct \<Rightarrow> (case buildGatewayCommand (str_or (rq_actionType rq) ASK_AGENT) (send_header gc p rq (sp_message p) trace)
                          ct (send_payload rq) of
              Inl e \<Rightarrow> Raise e | Inr c \<Rightarrow> send_built gc p rq c stream))"
  have go: "wp exec (?go trace (Inr k)) Q E \<sigma>'" if q: "quiet \<sigma> \<sigma>'" for trace k \<sigma>'
  proof -
    from build [of trace] obtain c where "buildGatewayCommand (str_or (rq_actionType rq) ASK_AGENT)
        (send_header gc p rq (sp_message p) trace) ct (send_payload rq) = Inr c" "P c" by blast
    then show ?thesis using built [OF q] by (simp add: ct)
  qed
  have route: "wp exec (bindP (catchP (bindP (first_route gc p) (\<lambda>route. Ret (Inr route))) (\<lambda>e. Ret (Inl e))) (?go trace)) Q E \<sigma>1"
    if q: "quiet \<sigma> \<sigma>1" for trace \<sigma>1
  proof (cases "sp_worker p = []")
    case True
    then show ?thesis using go [OF q] by (simp add: first_route_def)
  next
    case False
    have no: "wp exec (?go trace (Inl e)) Q E \<sigma>'" if "quiet \<sigma> \<sigma>'" for e \<sigma>'
      unfolding sum.case route_refused_def wp_bindP wp_Ret
      by (rule quiet_nowP, rule refuse) (use that False quiet_trans in \<open>auto simp: Let_def\<close>)
    show ?thesis
      unfolding wp_bindP wp_catchP wp_Ret
      by (rule wp_first_route) (use go no quiet_trans [OF q] in blast)+
  qed
  have trace: "wp exec (bindP (if sp_trace p \<noteq> [] then Ret (sp_trace p) else bindP uuidP (\<lambda>u. Ret (strip_dashes u))) (\<lambda>trace.
      bindP (catchP (bindP (first_route gc p) (\<lambda>route. Ret (Inr route))) (\<lambda>e. Ret (Inl e))) (?go trace))) Q E \<sigma>"
  proof (cases "sp_trace p = []")
    case True
    then have no: "(sp_trace p \<noteq> []) = False" by simp
    show ?thesis
      unfolding no if_False wp_bindP [of exec "bindP uuidP _"] wp_bindP [of exec uuidP] wp_Ret
      by (rule quiet_uuidP, rule route)
  next
    case False
    then show ?thesis using route [OF quiet_refl] by (simp del: wp_bindP add: bindP.simps)
  qed
  show ?thesis
    unfolding sendMessage_def rq sum.case if_P [OF m] using trace by (simp del: wp_bindP)
qed


lemma wp_send_resume:
  assumes held: "holds_record (kv (fst \<sigma>)) (gc_schema gc) session e r" "knows_message (kv (fst \<sigma>)) (gc_schema gc) session m e"
      "session \<noteq> []" "e \<noteq> []" "oget r ''execution_id'' = Some (JStr e)"
    and c: "is_resume c" "messageId (header c) = m" "rq_session rq = session"
    and go: "\<And>\<sigma>'. quiet \<sigma> \<sigma>' \<Longrightarrow> wp exec (dispatch_message gc p rq c k (Some (JObj r)) e) Q E \<sigma>'"
  shows "wp exec (send_built gc p rq c k) Q E \<sigma>"
proof -
  have "lookup_execution (kv (fst \<sigma>)) (gc_schema gc) m session = Inr (Some (JObj r))"
    using held stringify_not_Nil [of "JObj r"]
    by (simp add: lookup_execution_def holds_record_def knows_message_def execution_text_def json_parse_stringify del: wf_json.simps)
  then have "wp exec (lookupResumedExecution gc m session) (\<lambda>x \<sigma>'. x = Some (JObj r) \<and> quiet \<sigma> \<sigma>') E \<sigma>"
    unfolding lookupResumedExecution_def wp_catchP by (auto intro!: quiet_lookup)
  then have "wp exec (lookupResumedExecution gc m session) (\<lambda>x \<sigma>'. wp exec (bindP (case x of
         Some v \<Rightarrow> if opt_truthy (jget v ''execution_id'') then Ret (opt_String (jget v ''execution_id'')) else generateExecutionId
       | None \<Rightarrow> generateExecutionId) (\<lambda>executionId. dispatch_message gc p rq c k x executionId)) Q E \<sigma>') E \<sigma>"
    by (rule wp_mono) (use go held(4,5) in \<open>auto simp: jget_def\<close>)
  then show ?thesis
    unfolding send_built_def if_P [OF c(1)] c(2,3) by simp
qed

end

text \<open>A resume the client can build: it has a status or content.\<close>

definition resumes :: "request \<Rightarrow> bool" where
  "resumes rq \<longleftrightarrow> rq_actionType rq = RESUME \<and> (case format_content (rq_content rq) of Inl _ \<Rightarrow> False
     | Inr ct \<Rightarrow> text_field (oget (send_payload rq) ''status'') \<noteq> [] \<or> hasContent (Some ct))"

definition resume_command :: "send_params \<Rightarrow> request \<Rightarrow> string \<Rightarrow> command \<Rightarrow> bool" where
  "resume_command p rq m c \<longleftrightarrow> is_resume c \<and> messageId (header c) = m \<and> sessionId (header c) = rq_session rq
     \<and> sourceAgentType (header c) = sp_source p"

lemma resumes_build:
  assumes "resumes rq"
  obtains ct where "format_content (rq_content rq) = Inr ct"
    "\<And>trace. \<exists>c. buildGatewayCommand (str_or (rq_actionType rq) ASK_AGENT) (send_header gc p rq m trace) ct (send_payload rq) = Inr c
       \<and> resume_command p rq m c"
proof -
  obtain ct where ct: "format_content (rq_content rq) = Inr ct"
    "text_field (oget (send_payload rq) ''status'') \<noteq> [] \<or> hasContent (Some ct)" and a: "rq_actionType rq = RESUME"
    using assms by (auto simp: resumes_def split: sum.splits)
  have "str_or (rq_actionType rq) ASK_AGENT = RESUME" by (simp add: a str_or_def RESUME_def)
  then show ?thesis
    using that [OF ct(1)] ct(2) by (auto simp: buildGatewayCommand_def check_defs is_resume_def resume_command_def send_header_def mk_header_def)
qed

definition resume_only :: "key_schema \<Rightarrow> string \<Rightarrow> cmd list \<Rightarrow> bool" where
  "resume_only sch m l \<longleftrightarrow> (\<exists>stream c. is_resume c \<and> messageId (header c) = m \<and> set (to_agents sch l) \<subseteq> {(stream, command_payload c)})"

context redis_available
begin

lemma wp_resume_routed:
  assumes routed: "\<And>c \<sigma>'. quiet (s, []) \<sigma>' \<Longrightarrow> sp_worker p = [] \<Longrightarrow>
      wp exec (prepareDelivery (gc_registry gc) (send_intent p rq c e)) (\<lambda>x _. A x) (\<lambda>_ _. False) \<sigma>'"
    and client: "spans_within exec kv X gc"
    and rq: "runInterceptors (gc_interceptors gc) (first_request p) = Inr rq" "resumes rq" "sp_message p \<noteq> []"
    and held: "holds_record (kv s) (gc_schema gc) (rq_session rq) e r"
      "knows_message (kv s) (gc_schema gc) (rq_session rq) (sp_message p) e"
      "rq_session rq \<noteq> []" "e \<noteq> []" "oget r ''execution_id'' = Some (JStr e)"
    and refused: "\<And>c a \<sigma>'. resume_command p rq (sp_message p) c \<Longrightarrow> planned (gc_schema gc) (s, []) \<sigma>' \<Longrightarrow>
      A (Some a) \<Longrightarrow> av_status a = REJECT \<Longrightarrow> wp exec (send_refused gc p c e a) (\<lambda>r. Q (Some r)) E \<sigma>'"
    and undecided: "\<And>\<sigma>'. A None \<Longrightarrow> Q None \<sigma>'" "\<And>(a :: send_response) \<sigma>'. \<not> sr_success a \<Longrightarrow> sp_worker p \<noteq> [] \<Longrightarrow> Q (Some a) \<sigma>'"
    and accepted: "\<And>(a :: send_response) \<sigma>'. sp_worker p \<noteq> [] \<or> (\<exists>a. A (Some a) \<and> av_status a \<noteq> REJECT) \<Longrightarrow> sr_success a \<Longrightarrow> agree_off X (kv s) (kv (fst \<sigma>')) \<Longrightarrow> resume_only (gc_schema gc) (sp_message p) (snd \<sigma>') \<Longrightarrow> Q (Some a) \<sigma>'"
  shows "wp exec (sendMessage gc p) Q E (s, [])"
proof -
  let ?sch = "gc_schema gc"
  obtain ct where ct: "format_content (rq_content rq) = Inr ct"
    "\<And>trace. \<exists>c. buildGatewayCommand (str_or (rq_actionType rq) ASK_AGENT) (send_header gc p rq (sp_message p) trace) ct
       (send_payload rq) = Inr c \<and> resume_command p rq (sp_message p) c"
    using resumes_build [OF rq(2)] by blast
  have publish: "wp exec (publish_message gc p c (Some (JObj r)) e k st) (\<lambda>r. Q (Some r)) E \<sigma>2"
    if pl: "planned ?sch (s, []) \<sigma>2" and c: "resume_command p rq (sp_message p) c"
      and can: "sp_worker p \<noteq> [] \<or> (\<exists>a. A (Some a) \<and> av_status a \<noteq> REJECT)" for c k st \<sigma>2
  proof (rule wp_publish_message [OF client])
    fix a :: send_response and \<sigma>'
    assume "sr_success a" and out: "sent_out X gc p c (Some (JObj r)) e k st \<sigma>2 \<sigma>'"
    have "to_agents ?sch (snd \<sigma>2) = []" using pl by (simp add: to_agents_def planned_def)
    then have "set (to_agents ?sch (snd \<sigma>')) \<subseteq> {(k, command_payload c)}" "agree_off X (kv s) (kv (fst \<sigma>'))"
      using out pl by (auto simp: sent_out_def to_agents_def planned_def)
    then show "Q (Some a) \<sigma>'"
      using \<open>sr_success a\<close> c can by (intro accepted) (auto simp: resume_only_def resume_command_def)
  qed
  have dispatch: "wp exec (dispatch_message gc p rq c k (Some (JObj r)) e) Q E \<sigma>1"
    if q: "quiet (s, []) \<sigma>1" and c: "resume_command p rq (sp_message p) c" for c k \<sigma>1
  proof (cases "sp_worker p = []")
    case False
    then show ?thesis using publish [OF quiet_planned [OF q] c] by (simp add: dispatch_message_def)
  next
    case True
    have decide: "wp exec (case x of None \<Rightarrow> Ret None
        | Some a \<Rightarrow> if av_status a = REJECT then bindP (send_refused gc p c e a) (\<lambda>r. Ret (Some r))
            else bindP (publish_message gc p (routed_target c a) (Some (JObj r)) e (routed_stream a k) (status_name (av_status a)))
                   (\<lambda>r. Ret (Some r))) Q E \<sigma>2" if "planned ?sch \<sigma>1 \<sigma>2" "A x" for x \<sigma>2
    proof -
      have pl: "planned ?sch (s, []) \<sigma>2" by (rule planned_trans [OF quiet_planned [OF q] that(1)])
      have same: "routed_target c a = c" for a using c by (cases c) (auto simp: resume_command_def routed_target_def is_ask_def is_resume_def)
      show ?thesis
      proof (cases x)
        case None
        then show ?thesis using undecided(1) that(2) by simp
      next
        case (Some a)
        show ?thesis
        proof (cases "av_status a = REJECT")
          case True
          then show ?thesis using refused [OF c pl] that(2) Some by simp
        next
          case False
          then have "sp_worker p \<noteq> [] \<or> (\<exists>a. A (Some a) \<and> av_status a \<noteq> REJECT)" using that(2) Some by blast
          from publish [OF pl c this] show ?thesis using False Some same by simp
        qed
      qed
    qed
    have "wp exec (prepareDelivery (gc_registry gc) (send_intent p rq c e))
        (\<lambda>x \<sigma>'. planned ?sch \<sigma>1 \<sigma>') (\<lambda>_ _. False) \<sigma>1"
      by (rule wp_prepareDelivery) (simp add: gc_schema_def)
    from wp_conj [OF this routed [OF q True]]
    show ?thesis
      unfolding dispatch_message_def True simp_thms if_False wp_bindP [of exec "prepareDelivery _ _"]
      by (rule wp_mono) (use decide in auto)
  qed
  show ?thesis
  proof (rule wp_sendMessage [OF rq(1,3) ct(1), where P = "resume_command p rq (sp_message p)"])
    fix c k \<sigma>'
    assume q: "quiet (s, []) \<sigma>'" and c: "resume_command p rq (sp_message p) c"
    then have "kv (fst \<sigma>') = kv s" by (simp add: quiet_def)
    then show "wp exec (send_built gc p rq c k) Q E \<sigma>'"
      using c held by (intro wp_send_resume) (auto simp: resume_command_def intro: dispatch quiet_trans [OF q])
  qed (use ct(2) undecided in auto)
qed

lemma wp_nobody_home:
  assumes "quiet (s, []) \<sigma>" "send_policy p = FAIL_FAST" "rq_userCode rq = []"
    "v_str (kv s) (control_plane_agent_circuit (gc_schema gc) (rq_target rq)) = None"
    "v_str (kv s) (control_plane_agent_fallback (gc_schema gc) (rq_target rq)) = None"
    "\<not> somebody_online (kv s) (gc_schema gc) (rq_target rq)"
  shows "wp exec (prepareDelivery (gc_registry gc) (send_intent p rq c e)) (\<lambda>x _. x = Some (no_worker (rq_target rq))) E \<sigma>"
  using wp_nobody_there [of "send_intent p rq c e" \<sigma> "gc_registry gc" E] assms
  by (simp add: send_intent_def quiet_def gc_schema_def)

end

text \<open>The exporter of spans to Redis writes the keys of traces only, whatever span it is given.\<close>

context redis_available
begin

definition writes_only :: "key set \<Rightarrow> 'a config \<Rightarrow> 'a config \<Rightarrow> bool" where
  "writes_only X \<sigma> \<sigma>' \<longleftrightarrow> agree_off X (kv (fst \<sigma>)) (kv (fst \<sigma>')) \<and> sent (snd \<sigma>') = sent (snd \<sigma>)"

lemma writes_only_refl [simp]: "writes_only X \<sigma> \<sigma>"
  by (simp add: writes_only_def)

lemma writes_only_trans: "writes_only X \<sigma> \<sigma>' \<Longrightarrow> writes_only X \<sigma>' \<sigma>'' \<Longrightarrow> writes_only X \<sigma> \<sigma>''"
  by (auto simp: writes_only_def intro: agree_off_trans)

lemma writes_only_cmdP:
  assumes "good_cmd c" "cmd_keys c \<subseteq> X" "sent [c] = []" and "\<And>a \<sigma>'. writes_only X \<sigma> \<sigma>' \<Longrightarrow> Q a \<sigma>'"
  shows "wp exec (cmdP c f) Q E \<sigma>"
proof (cases \<sigma>)
  case (Pair s l)
  show ?thesis
    unfolding Pair by (rule wp_cmdP) (use assms Pair in \<open>auto simp: writes_only_def intro!: assms(4) dest: law_agree\<close>)
qed

lemma writes_only_pipeline:
  "\<forall>c \<in> set cs. good_cmd c \<and> cmd_keys c \<subseteq> X \<and> sent [c] = [] \<Longrightarrow> wp exec (pipelineP cs) (\<lambda>_. writes_only X \<sigma>) E \<sigma>"
proof (induction cs arbitrary: \<sigma>)
  case (Cons c cs)
  obtain s l where \<sigma>: "\<sigma> = (s, l)" by (cases \<sigma>)
  show ?case
    unfolding \<sigma>
  proof (rule wp_pipeline_Cons, goal_cases)
    case (2 r s')
    then have "writes_only X (s, l) (s', l @ [c])" using Cons.prems by (auto simp: writes_only_def dest: law_agree)
    then show ?case by (intro wp_mono [OF Cons.IH]) (use Cons.prems writes_only_trans in auto)
  qed (use Cons.prems in simp)
qed simp

lemma writes_only_index:
  "indexKey \<in> X \<Longrightarrow> sx_ttlSeconds x \<noteq> 0 \<Longrightarrow> writes_only X \<sigma> \<sigma>' \<Longrightarrow> wp exec (whenP b (writeTraceIndex x indexKey tid score)) (\<lambda>_. writes_only X \<sigma>) E \<sigma>'"
  unfolding writeTraceIndex_def wp_whenP wp_catchP wp_seqP wp_bindP zaddP_def expireP_def wp_Ret
  by (cases b) (auto intro!: writes_only_cmdP [where X = X] dest: writes_only_trans)

lemma exports_within:
  assumes ttl: "sx_ttlSeconds x \<noteq> 0"
  shows "wp exec (exportSpan x sp) (\<lambda>_. writes_only (trace_keys (sx_schema x)) \<sigma>) (\<lambda>_. writes_only (trace_keys (sx_schema x)) \<sigma>) \<sigma>"
proof -
  let ?sch = "sx_schema x" and ?X = "trace_keys (sx_schema x)"
  have meta: "wp exec (pipelineP (meta_cmds x p t u)) (\<lambda>_. writes_only ?X \<sigma>) E \<sigma>'" if "writes_only ?X \<sigma> \<sigma>'" for p t u \<sigma>' E
    by (rule wp_mono [OF writes_only_pipeline [where X = ?X]])
       (use that ttl in \<open>auto simp: meta_cmds_def Let_def trace_keys_def elim: writes_only_trans\<close>)
  have index: "wp exec (whenP b (writeTraceIndex x (trace_index_session ?sch a) tid score)) (\<lambda>_. writes_only ?X \<sigma>) E \<sigma>'"
    "wp exec (whenP b (writeTraceIndex x (trace_index_worker ?sch a) tid score)) (\<lambda>_. writes_only ?X \<sigma>) E \<sigma>'"
    "wp exec (whenP b (writeTraceIndex x (trace_index_agent ?sch a) tid score)) (\<lambda>_. writes_only ?X \<sigma>) E \<sigma>'"
    if "writes_only ?X \<sigma> \<sigma>'" for b a tid score \<sigma>' E
    by (rule writes_only_index [OF _ ttl that], simp add: trace_keys_def)+
  show ?thesis
    unfolding exportSpan_def Let_def wp_bindP wp_catchP wp_seqP hgetP_def wp_Ret
    by (rule writes_only_cmdP, simp, simp, simp, rule wp_mono [OF meta], assumption, rule wp_mono [OF index(1)], assumption,
        rule wp_mono [OF index(2)], assumption, rule wp_mono [OF index(3)], assumption) auto
qed

end

text \<open>
  C31. A resume continues the execution of its message. When a resume for a
  recorded execution is accepted, the keyspace is as it was except for the keys
  the client's span recorder writes. These are the keys of traces, not the
  registry of the session; so the execution keeps its record and the message its
  execution, and nothing but the resume itself, under that message, goes to an
  agent.
\<close>

theorem resume_keeps_execution:
  assumes avail: "redis_available exec kv oth clk"
    and client: "spans_within exec kv X gc" "session_registry (gc_schema gc) (rq_session rq) \<notin> X"
    and rq: "runInterceptors (gc_interceptors gc) (first_request p) = Inr rq" "resumes rq" "sp_message p \<noteq> []"
    and held: "holds_record (kv s) (gc_schema gc) (rq_session rq) e r"
      "knows_message (kv s) (gc_schema gc) (rq_session rq) (sp_message p) e"
      "rq_session rq \<noteq> []" "e \<noteq> []" "oget r ''execution_id'' = Some (JStr e)"
    and accepted: "result exec (sendMessage gc p) s = Inr (Some a)" "sr_success a"
  shows "agree_off X (kv s) (kv (final exec (sendMessage gc p) s))
    \<and> holds_record (kv (final exec (sendMessage gc p) s)) (gc_schema gc) (rq_session rq) e r
    \<and> knows_message (kv (final exec (sendMessage gc p) s)) (gc_schema gc) (rq_session rq) (sp_message p) e
    \<and> (\<exists>stream c. is_resume c \<and> messageId (header c) = sp_message p
         \<and> set (to_agents (gc_schema gc) (issued exec (sendMessage gc p) s)) \<subseteq> {(stream, command_payload c)})"
proof -
  have "wp exec (sendMessage gc p) (\<lambda>r \<sigma>. \<forall>a. r = Some a \<and> sr_success a \<longrightarrow> agree_off X (kv s) (kv (fst \<sigma>))
      \<and> resume_only (gc_schema gc) (sp_message p) (snd \<sigma>)) (\<lambda>_ _. True) (s, [])"
    by (rule redis_available.wp_resume_routed [OF avail _ client(1) rq held, where A = "\<lambda>_. True"])
      (auto intro!: redis_available.wp_send_refused [OF avail] redis_available.wp_prepareDelivery [OF avail])
  from wp_result [OF this] accepted
  have "agree_off X (kv s) (kv (final exec (sendMessage gc p) s))"
    "resume_only (gc_schema gc) (sp_message p) (issued exec (sendMessage gc p) s)" by auto
  then show ?thesis
    using held(1,2) client(2) unfolding resume_only_def
    by (simp add: agree_off_def holds_record_def execution_text_def knows_message_def)
qed

text \<open>A task that waits, and the answer the client sends to wake it.\<close>

definition suspended_record :: jobj where
  "suspended_record = [(''execution_id'', JStr ''e1''), (''message_id'', JStr ''m1''), (''session_id'', JStr ''s''),
     (''source_agent_type'', JStr ''boss''), (''status'', JStr ''WAITING_USER''), (''metadata'', JObj [(''k'', JStr ''v'')])]"

definition suspended_session :: mock where
  "suspended_session = mock_after [Hset (session_registry V2 ''s'') (msg_field ''m1'') ''e1''] (session_of [(''e1'', suspended_record)])"

definition wake_up :: "bool \<Rightarrow> send_params" where
  "wake_up insist = \<lparr>sp_target = ''asker'', sp_session = ''s'', sp_content = JStr ''yes'', sp_source = [], sp_trace = [],
     sp_userCode = [], sp_userName = [], sp_actionType = RESUME, sp_extraPayload = [], sp_parent = [], sp_message = ''m1'',
     sp_metadata = [], sp_worker = [], sp_requireOnline = Some insist, sp_routePolicy = None, sp_availabilityTimeout = None,
     sp_region = [], sp_priority = 0\<rparr>"

lemma suspended_holds:
  "holds_record (mock_view suspended_session) V2 ''s'' ''e1'' suspended_record"
  "knows_message (mock_view suspended_session) V2 ''s'' ''m1'' ''e1''" "oget suspended_record ''execution_id'' = Some (JStr ''e1'')"
  by (simp_all add: suspended_session_def mock_after_view session_of_hash holds_record_def knows_message_def
      execution_text_def suspended_record_def wf_json.simps oget_def)

lemma suspended_view:
  "v_str (mock_view suspended_session) k = None" "v_set (mock_view suspended_session) k = {}"
  by (simp_all add: suspended_session_def session_of_def mock_after_view)

lemma wake_up_simps:
  "runInterceptors (gc_interceptors sample_client) (first_request (wake_up b)) = Inr (first_request (wake_up b))"
  "resumes (first_request (wake_up b))" "sp_message (wake_up b) = ''m1''" "rq_session (first_request (wake_up b)) = ''s''"
  "rq_target (first_request (wake_up b)) = ''asker''" "rq_userCode (first_request (wake_up b)) = []" "sp_worker (wake_up b) = []"
  "sp_source (wake_up b) = []" "send_policy (wake_up True) = FAIL_FAST" "send_policy (wake_up False) = SEND_ANYWAY"
  by (simp_all add: sample_client_def first_request_def wake_up_def resumes_def format_content_def str_or_def RESUME_def
      hasContent_def js_trim_id plain_char_def send_policy_def opt_or_def requires_online_def)

lemma sample_client_quiet: "quiet_client sample_client"
  by (simp add: quiet_client_def sample_client_def)

text \<open>The client with the exporter to Redis behind its span recorder.\<close>

definition tracing_client :: client where
  "tracing_client = sample_client\<lparr>gc_span := (\<lambda>sp. exportSpan (new_RedisSpanExporter V2 900)
     [(''traceId'', JStr (ts_trace sp)), (''spanId'', JStr (ts_spanId sp)), (''operation'', JStr (ts_operation sp)),
      (''startTs'', JNum (ts_start sp)), (''endTs'', JNum (ts_end sp)), (''sessionId'', JStr (ts_session sp)),
      (''messageId'', JStr (ts_message sp)), (''targetAgentType'', JStr (ts_target sp))])\<rparr>"

lemma tracing_client_simps [simp]: "gc_schema tracing_client = V2" "gc_interceptors tracing_client = gc_interceptors sample_client"
  "gc_registry tracing_client = gc_registry sample_client"
  by (simp_all add: tracing_client_def gc_schema_def sample_client_def)

lemma tracing_client_spans: "spans_within mock_exec mock_view (trace_keys V2) tracing_client"
proof -
  have "sx_ttlSeconds (new_RedisSpanExporter V2 900) \<noteq> 0" "sx_schema (new_RedisSpanExporter V2 900) = V2"
    by (simp_all add: new_RedisSpanExporter_def)
  note x = this
  show ?thesis
    unfolding spans_within_def
  proof (intro allI)
    fix sp s l
    show "wp mock_exec (gc_span tracing_client sp)
       (\<lambda>_ \<sigma>. agree_off (trace_keys V2) (mock_view s) (mock_view (fst \<sigma>)) \<and> sent (snd \<sigma>) = sent l)
       (\<lambda>_ \<sigma>. agree_off (trace_keys V2) (mock_view s) (mock_view (fst \<sigma>)) \<and> sent (snd \<sigma>) = sent l) (s, l)"
      unfolding tracing_client_def
      by (simp, rule wp_mono [OF mock_server.exports_within [OF x(1), unfolded x(2)]]) (simp_all add: mock_server.writes_only_def)
  qed
qed

theorem resume_keeps_execution_witness:
  "\<exists>a. result mock_exec (sendMessage tracing_client (wake_up False)) suspended_session = Inr (Some a) \<and> sr_success a
     \<and> agree_off (trace_keys V2) (mock_view suspended_session) (mock_view (final mock_exec (sendMessage tracing_client (wake_up False)) suspended_session))
     \<and> holds_record (mock_view (final mock_exec (sendMessage tracing_client (wake_up False)) suspended_session)) V2 ''s'' ''e1'' suspended_record"
proof -
  let ?p = "wake_up False" and ?rq = "first_request (wake_up False)"
  have held: "holds_record (mock_view suspended_session) (gc_schema tracing_client) (rq_session ?rq) ''e1'' suspended_record"
    "knows_message (mock_view suspended_session) (gc_schema tracing_client) (rq_session ?rq) (sp_message ?p) ''e1''"
    "rq_session ?rq \<noteq> []" "''e1'' \<noteq> []" "sp_message ?p \<noteq> []"
    and rq: "runInterceptors (gc_interceptors tracing_client) (first_request ?p) = Inr ?rq"
    and off: "session_registry (gc_schema tracing_client) (rq_session ?rq) \<notin> trace_keys V2"
    using suspended_holds by (simp_all add: wake_up_simps)
  have "wp mock_exec (sendMessage tracing_client ?p) (\<lambda>x _. \<exists>a. x = Some a \<and> sr_success a) (\<lambda>_ _. False) (suspended_session, [])"
  proof (rule mock_server.wp_resume_routed [where A = "\<lambda>x. x = Some (deliver V2 ''asker'')",
        OF _ tracing_client_spans rq wake_up_simps(2) held(5) held(1-4) suspended_holds(3)])
    fix c \<sigma>' assume "mock_server.quiet (suspended_session, []) \<sigma>'"
    then show "wp mock_exec (prepareDelivery (gc_registry tracing_client) (send_intent ?p ?rq c ''e1''))
        (\<lambda>x _. x = Some (deliver V2 ''asker'')) (\<lambda>_ _. False) \<sigma>'"
      using mock_server.wp_send_anyway [of "send_intent ?p ?rq c ''e1''" \<sigma>' "gc_registry sample_client" "\<lambda>_ _. False"]
      by (simp add: send_intent_def wake_up_simps mock_server.quiet_def suspended_view gc_schema_def [symmetric])
  qed (auto simp: wake_up_simps deliver_def routed_def)
  from wp_result [OF this] obtain a
    where "result mock_exec (sendMessage tracing_client ?p) suspended_session = Inr (Some a)" "sr_success a" by auto
  with resume_keeps_execution [OF mock_server.redis_available_axioms tracing_client_spans off rq wake_up_simps(2) held(5) held(1-4)
      suspended_holds(3) this]
  show ?thesis unfolding tracing_client_simps wake_up_simps(4) by blast
qed

text \<open>
  C32. A resume that is refused loses the execution it was to continue. When
  nobody is there to take it, the record of the suspended execution is replaced
  by that of a failed one, without the metadata of its dispatch and with the sender of
  the resume as its source: what the code elsewhere takes care not to do.
\<close>

theorem refused_resume_overwrites:
  assumes avail: "redis_available exec kv oth clk" and client: "quiet_client gc"
    and rq: "runInterceptors (gc_interceptors gc) (first_request p) = Inr rq" "resumes rq" "sp_message p \<noteq> []"
    and held: "holds_record (kv s) (gc_schema gc) (rq_session rq) e r"
      "knows_message (kv s) (gc_schema gc) (rq_session rq) (sp_message p) e"
      "rq_session rq \<noteq> []" "e \<noteq> []" "oget r ''execution_id'' = Some (JStr e)"
    and nobody: "sp_worker p = []" "send_policy p = FAIL_FAST" "rq_userCode rq = []"
      "v_str (kv s) (control_plane_agent_circuit (gc_schema gc) (rq_target rq)) = None"
      "v_str (kv s) (control_plane_agent_fallback (gc_schema gc) (rq_target rq)) = None"
      "\<not> somebody_online (kv s) (gc_schema gc) (rq_target rq)"
  shows "\<exists>a r'. result exec (sendMessage gc p) s = Inr (Some a) \<and> \<not> sr_success a
    \<and> holds_record (kv (final exec (sendMessage gc p) s)) (gc_schema gc) (rq_session rq) e r'
    \<and> oget r' ''status'' = Some (JStr FAILED) \<and> oget r' ''metadata'' = None
    \<and> oget r' ''source_agent_type'' = Some (JStr (str_or (sp_source p) CLIENT_SOURCE_AGENT_TYPE))"
proof -
  let ?away = "Some (no_worker (rq_target rq))"
  have lost: "\<exists>r'. holds_record v (gc_schema gc) (rq_session rq) e r' \<and> oget r' ''status'' = Some (JStr FAILED)
      \<and> oget r' ''metadata'' = None \<and> oget r' ''source_agent_type'' = Some (JStr (str_or (sp_source p) CLIENT_SOURCE_AGENT_TYPE))"
    if "v = recorded_view (gc_schema gc) (refused_record p c e t code) now v0" "sessionId (header c) = rq_session rq"
      "sourceAgentType (header c) = sp_source p" for v c t code now v0
  proof -
    let ?r = "refused_record p c e t code"
    have fields: "oget ?r ''session_id'' = Some (JStr (rq_session rq))" "oget ?r ''execution_id'' = Some (JStr e)"
      "oget ?r ''message_id'' = Some (JStr (messageId (header c)))"
      using that(2) by (simp_all add: refused_record_def Let_def oget_def)
    have "wf_json (JObj ?r)" by (simp add: refused_record_def Let_def wf_json.simps)
    from recorded_view_holds [OF this fields]
    have "holds_record v (gc_schema gc) (rq_session rq) e (initial_record ?r now)" unfolding that(1) by blast
    moreover have "oget (initial_record ?r now) ''status'' = Some (JStr FAILED)" "oget (initial_record ?r now) ''metadata'' = None"
      "oget (initial_record ?r now) ''source_agent_type'' = Some (JStr (str_or (sp_source p) CLIENT_SOURCE_AGENT_TYPE))"
      using that(3) by (simp_all add: initial_record_def refused_record_def Let_def oget_def ospread_def oput_def)
    ultimately show ?thesis by blast
  qed
  have "wp exec (sendMessage gc p) (\<lambda>x \<sigma>. \<exists>a r'. x = Some a \<and> \<not> sr_success a
      \<and> holds_record (kv (fst \<sigma>)) (gc_schema gc) (rq_session rq) e r'
      \<and> oget r' ''status'' = Some (JStr FAILED) \<and> oget r' ''metadata'' = None
      \<and> oget r' ''source_agent_type'' = Some (JStr (str_or (sp_source p) CLIENT_SOURCE_AGENT_TYPE))) (\<lambda>_ _. False) (s, [])"
  proof (rule redis_available.wp_resume_routed [OF avail _ quiet_spans [OF client] rq held, where A = "\<lambda>x. x = ?away" and X = "{}"])
    fix c \<sigma>' assume "redis_available.quiet kv oth clk (s, []) \<sigma>'"
    then show "wp exec (prepareDelivery (gc_registry gc) (send_intent p rq c e)) (\<lambda>x _. x = ?away) (\<lambda>_ _. False) \<sigma>'"
      by (rule redis_available.wp_nobody_home [OF avail _ nobody(2-6)])
  next
    fix c a \<sigma>'
    assume "resume_command p rq (sp_message p) c"
    then show "wp exec (send_refused gc p c e a) (\<lambda>r \<sigma>. \<exists>a r'. Some r = Some a \<and> \<not> sr_success a
      \<and> holds_record (kv (fst \<sigma>)) (gc_schema gc) (rq_session rq) e r'
      \<and> oget r' ''status'' = Some (JStr FAILED) \<and> oget r' ''metadata'' = None
      \<and> oget r' ''source_agent_type'' = Some (JStr (str_or (sp_source p) CLIENT_SOURCE_AGENT_TYPE))) (\<lambda>_ _. False) \<sigma>'"
      by (intro redis_available.wp_send_refused [OF avail]) (use lost in \<open>auto simp: resume_command_def\<close>)
  qed (use nobody(1) in \<open>auto simp: no_worker_def refusal_def\<close>)
  from wp_result [OF this] show ?thesis by auto
qed


theorem refused_resume_overwrites_witness:
  "\<exists>r'. holds_record (mock_view (final mock_exec (sendMessage sample_client (wake_up True)) suspended_session)) V2 ''s'' ''e1'' r'
     \<and> oget r' ''status'' = Some (JStr FAILED) \<and> oget r' ''metadata'' = None
     \<and> oget r' ''source_agent_type'' = Some (JStr ''client'')"
proof -
  let ?p = "wake_up True" and ?rq = "first_request (wake_up True)"
  have held: "holds_record (mock_view suspended_session) (gc_schema sample_client) (rq_session ?rq) ''e1'' suspended_record"
    "knows_message (mock_view suspended_session) (gc_schema sample_client) (rq_session ?rq) (sp_message ?p) ''e1''"
    "rq_session ?rq \<noteq> []" "''e1'' \<noteq> []" "sp_message ?p \<noteq> []"
    using suspended_holds by (simp_all add: wake_up_simps)
  have nobody: "\<not> somebody_online (mock_view suspended_session) (gc_schema sample_client) (rq_target ?rq)"
    by (simp add: somebody_online_def suspended_view)
  have "str_or (sp_source ?p) CLIENT_SOURCE_AGENT_TYPE = ''client''"
    by (simp add: wake_up_simps str_or_def CLIENT_SOURCE_AGENT_TYPE_def)
  then show ?thesis
    using refused_resume_overwrites [OF mock_server.redis_available_axioms sample_client_quiet wake_up_simps(1,2) held(5) held(1-4)
      suspended_holds(3) wake_up_simps(7) wake_up_simps(9,6) suspended_view(1) suspended_view(1) nobody]
    unfolding wake_up_simps(4) sample_client_schema by auto
qed

end
