(* ===== verification/SweepCancel.thy ===== *)
theory SweepCancel
  imports SweepContracts ClientProperties
begin

text \<open>
  The cancellation the sweeper uses unless it is given another one
  (src/liveness/wait_sweeper.ts, defaultCancelChild): the client's cancelTask. It
  leaves the wait index alone, and it may not return: a timed-out sub-task whose
  descendants form a circle stops the sweep for good.
\<close>


section \<open>The default\<close>

definition cancel_response_json :: "cancel_response \<Rightarrow> json" where
  "cancel_response_json r = JObj ([(''success'', JBool (cr_success r)), (''message_id'', JStr (cr_message r)),
     (''execution_id'', JStr (cr_execution r)), (''worker_id'', JStr (cr_worker r)), (''status'', JStr (cr_status r)),
     (''timestamp'', JNum (cr_timestamp r))]
     @ (case cr_error r of None \<Rightarrow> [] | Some e \<Rightarrow> [(''error'', JStr e)])
     @ (case cr_count r of None \<Rightarrow> [] | Some n \<Rightarrow> [(''cancelled_count'', JNum (int n))]))"

definition child_cancellation :: "string \<Rightarrow> string \<Rightarrow> string \<Rightarrow> string \<Rightarrow> cancel_params" where
  "child_cancellation child session reason who = \<lparr>cq_message = child, cq_session = session, cq_reason = reason,
     cq_target = [], cq_requestedBy = who, cq_mode = []\<rparr>"

text \<open>`gc` is the client made on the sweeper's registry and connection.\<close>

definition defaultCancelChild :: "client \<Rightarrow> cancel_child" where
  "defaultCancelChild gc child session reason who = bindP (cancelTask gc (child_cancellation child session reason who))
     (\<lambda>r. Ret (map_option (\<lambda>a. Some (cancel_response_json a)) r))"

lemma child_cancellation_simps [simp]:
  "cq_message (child_cancellation child session reason who) = child" "cq_session (child_cancellation child session reason who) = session"
  "good_mode (child_cancellation child session reason who)"
  by (simp_all add: child_cancellation_def good_mode_def)


section \<open>What a program can touch\<close>

text \<open>All commands a program can issue, whatever it is answered, satisfy a predicate.\<close>

primrec only :: "(cmd \<Rightarrow> bool) \<Rightarrow> 'a prog \<Rightarrow> bool" where
  "only P (Ret a) \<longleftrightarrow> True"
| "only P (Raise e) \<longleftrightarrow> True"
| "only P (Step c f) \<longleftrightarrow> P c \<and> (\<forall>r. only P (f r))"

lemma only_bindP: "only P p \<Longrightarrow> (\<And>a. only P (f a)) \<Longrightarrow> only P (bindP p f)"
  by (induction p) simp_all

lemma only_seqP: "only P p \<Longrightarrow> only P q \<Longrightarrow> only P (seqP p q)"
  by (simp add: seqP_def only_bindP)

lemma only_cmdP: "P c \<Longrightarrow> only P (cmdP c f)"
  by (simp add: cmdP_def split: sum.splits)

lemma only_whenP: "(b \<Longrightarrow> only P p) \<Longrightarrow> only P (whenP b p)"
  by (simp add: whenP_def)

lemma only_forP: "(\<And>x. x \<in> set xs \<Longrightarrow> only P (f x)) \<Longrightarrow> only P (forP xs f)"
  by (induction xs) (auto intro: only_bindP)

lemma only_pipelineP: "\<forall>c \<in> set cs. P c \<Longrightarrow> only P (pipelineP cs)"
  unfolding pipelineP_def by (rule only_forP) simp

lemmas only_rules = only_bindP only_seqP only_whenP only_forP only_pipelineP

text \<open>A program that can write the keys of `X` only leaves the others as they are.\<close>

abbreviation writing :: "key set \<Rightarrow> cmd \<Rightarrow> bool" where
  "writing X \<equiv> \<lambda>c. good_cmd c \<and> cmd_keys c \<subseteq> X"

lemma only_agrees:
  assumes avail: "redis_available exec kv oth clk" and p: "only (writing X) p"
  shows "agree_off X (kv (fst \<sigma>)) (kv (fst (snd (run exec p \<sigma>))))"
  using p
proof (induction p arbitrary: \<sigma>)
  case (Step c f)
  obtain r s' where step: "exec c (fst \<sigma>) = (Inr r, s')"
    using redis_available.available [OF avail, of c "fst \<sigma>"] Step.prems by auto
  have "redis_law c (kv (fst \<sigma>)) (oth (fst \<sigma>)) (clk (fst \<sigma>)) r (kv s')"
    using redis_server.answered [OF redis_available.axioms(1) [OF avail] step] Step.prems by simp
  then have "agree_off X (kv (fst \<sigma>)) (kv s')" using Step.prems by (auto dest: law_agree)
  moreover have "agree_off X (kv s') (kv (fst (snd (run exec (f (Inr r)) (s', snd \<sigma> @ [c])))))"
    using Step.IH [of "f (Inr r)" "(s', snd \<sigma> @ [c])"] Step.prems by simp
  ultimately show ?case using agree_off_trans by (simp add: step)
qed simp_all

lemma only_record:
  assumes "\<And>r. only (writing {session_registry sch session}) (f r)"
  shows "only (writing {session_registry sch session}) (bindP (getExecution sch e session) (\<lambda>current. with_record current f))"
  using assms unfolding getExecution_def with_record_def hgetP_def
  by (auto intro!: only_rules only_cmdP split: option.splits json.splits)

lemma only_store: "only (writing {session_registry sch session}) (bindP nowP (\<lambda>now. storeExecution sch e session (g now)))"
  by (auto simp: storeExecution_def nowP_def DEFAULT_SESSION_TTL_def intro!: only_rules only_cmdP)

lemma only_marks:
  "only (writing {session_registry sch session}) (markCancelRequested sch e session reason)" "only (writing {session_registry sch session}) (markExecutionCancelling sch e session reason)"
  unfolding markCancelRequested_def markExecutionCancelling_def by (intro only_record only_store)+

lemma cancelTask_writes: "only (writing {session_registry (gc_schema gc) (cq_session p)}) (cancelTask gc p)"
proof -
  let ?P = "writing {session_registry (gc_schema gc) (cq_session p)}"
  have now: "only ?P (bindP nowP (\<lambda>now. Ret (f now)))" for f :: "int \<Rightarrow> 'c"
    by (auto simp: nowP_def intro!: only_bindP only_cmdP)
  have refused: "only ?P (cancel_refused p e status err)" for e status err
    unfolding cancel_refused_def by (rule now)
  have ask: "only ?P (request_cancel gc p e)" for e
    unfolding request_cancel_def by (rule only_marks)
  have build: "only ?P (build_cancel p e)" for e
    by (auto simp: build_cancel_def uuidP_def intro!: only_rules only_cmdP split: sum.splits)
  have send: "only ?P (send_cancel gc e c)" for e c
    by (auto simp: send_cancel_def sendCommand_def xaddP_def Let_def intro!: only_rules only_cmdP now)
  have one: "only ?P (cancel_execution gc p e)" for e
    unfolding cancel_execution_def by (intro only_rules only_marks build send)
  have "only ?P (cancel_all gc p t toCancel ended)" for t toCancel ended
    unfolding cancel_all_def by (auto intro!: only_rules ask one refused now)
  then show ?thesis
    unfolding cancelTask_def getAllSessionExecutions_def hgetallP_def
    by (auto intro!: only_rules only_cmdP refused split: sum.splits option.splits)
qed

lemma default_writes:
  "only (writing {session_registry (gc_schema gc) session}) (defaultCancelChild gc child session reason who)"
  unfolding defaultCancelChild_def
  using cancelTask_writes [of gc "child_cancellation child session reason who"] by (intro only_bindP) simp_all

text \<open>The wait index keeps its entry over every cancellation.\<close>

definition index_safe :: "(cmd \<Rightarrow> 's \<Rightarrow> answer \<times> 's) \<Rightarrow> ('s \<Rightarrow> view) \<Rightarrow> cancel_child \<Rightarrow> key \<Rightarrow> string \<Rightarrow> bool" where
  "index_safe exec kv cancel k m \<longleftrightarrow> (\<forall>child session reason who t. v_zset (kv t) k m \<noteq> None
     \<longrightarrow> v_zset (kv (final exec (cancel child session reason who) t)) k m \<noteq> None)"

lemma default_index_safe:
  assumes avail: "redis_available exec kv oth clk" and k: "k = wait_index (gc_schema gc) shard"
  shows "index_safe exec kv (defaultCancelChild gc) k m"
proof -
  have "v_zset (kv (final exec (defaultCancelChild gc child session reason who) t)) k = v_zset (kv t) k" for child session reason who t
    using only_agrees [OF avail default_writes, where \<sigma> = "(t, [])"]
    by (simp add: agree_off_def final_def k)
  then show ?thesis by (simp add: index_safe_def)
qed


lemma final_any_log: "fst (snd (run exec p (s, l))) = final exec p s"
proof -
  have "fst (snd (run exec p (s, l))) = fst (snd (run exec p (s, l')))" for l'
    by (induction p arbitrary: s l l') (auto split: prod.splits)
  then show ?thesis by (simp add: final_def)
qed

lemma index_safe_afterwards:
  assumes safe: "index_safe exec kv cancel k m" and there: "v_zset (kv s1) k m \<noteq> None"
  shows "v_zset (kv (fst (snd (run exec (afterwards cancel sw due d) (s1, l1))))) k m \<noteq> None"
proof -
  have "v_zset (kv (fst (snd (run exec (cancel child session reason who) (s1, l1))))) k m \<noteq> None" for child session reason who
    using safe there unfolding final_any_log index_safe_def by blast
  note cancelled = this [of "wm_child (de_entry due)" "wm_session (de_entry due)" "CHILD_TIMEOUT @ '': no reply before deadline''"
      "''wait_sweeper:'' @ sw_workerId sw"]
  show ?thesis
    using cancelled there
    by (auto simp: afterwards_def cancelTimedOutChild_def bindO_def run_bindP run_catchP split: option.splits prod.splits sum.splits)
qed


section \<open>A cancellation that does not return\<close>

text \<open>What a cancellation walks over is the registry of its session.\<close>

lemma same_session:
  assumes "v_hash v' (session_registry sch session) = v_hash v (session_registry sch session)"
  shows "well_kept v' sch session = well_kept v sch session" "executions v' sch session = executions v sch session"
    "dispatches v' sch session = dispatches v sch session" "runs_message v' sch session x t = runs_message v sch session x t"
    "descendants v' sch session t = descendants v sch session t"
proof -
  have "holds_record v' sch session = holds_record v sch session"
    by (simp add: fun_eq_iff holds_record_def execution_text_def assms)
  then show "well_kept v' sch session = well_kept v sch session" and e: "executions v' sch session = executions v sch session"
    by (simp_all add: well_kept_def executions_def assms)
  then show d: "dispatches v' sch session = dispatches v sch session" and "runs_message v' sch session x t = runs_message v sch session x t"
    by (simp_all add: dispatches_def runs_message_def)
  then show "descendants v' sch session t = descendants v sch session t" by (simp add: descendants_def)
qed

lemma default_diverges_iff:
  assumes avail: "redis_available exec kv oth clk" and kept: "well_kept (kv s) (gc_schema gc) session" and "session \<noteq> []"
    and task: "runs_message (kv s) (gc_schema gc) session child t"
  shows "result exec (defaultCancelChild gc child session reason who) s = Inr None
    \<longleftrightarrow> (\<exists>x \<in> descendants (kv s) (gc_schema gc) session t. (x, x) \<in> (dispatches (kv s) (gc_schema gc) session)\<^sup>+)"
proof -
  let ?p = "child_cancellation child session reason who"
  have "result exec (defaultCancelChild gc child session reason who) s = Inr None \<longleftrightarrow> result exec (cancelTask gc ?p) s = Inr None"
    by (auto simp: defaultCancelChild_def result_def run_bindP split: prod.splits sum.splits)
  then show ?thesis
    using walk_diverges_iff [OF avail, of s gc ?p t] assms by simp
qed

text \<open>
  The sweep inherits the defect: a sub-task past its ceiling whose descendants
  form a circle, as they do when a call took the message id of one of its
  callers, is answered for, and then the pass never comes back.
\<close>

lemma sweep_hangs_iff:
  assumes avail: "redis_available exec kv oth clk"
    and m: "m = encodeMember entry" and entry: "wm_child entry \<noteq> []"
      "wm_group entry = [] \<or> group_block (kv s) sw (due_of k m sc entry) = None"
    and free: "renew_origin_key sw (due_of k m sc entry) \<notin> oth s"
    and silent: "silent_too_long (kv s) (clk s) sw (due_of k m sc entry) caller child"
    and routed: "caller_agent_type child caller \<noteq> []"
    and on: "sw_cancelOnTimeout sw" "\<not> opt_truthy (jget child ''cancel_requested'')"
    and client: "gc_registry gc = sw_registry sw" and k: "k = wait_index (sw_schema sw) shard"
    and session: "wm_session entry \<noteq> []" "well_kept (kv s) (sw_schema sw) (wm_session entry)"
      "runs_message (kv s) (sw_schema sw) (wm_session entry) (wm_child entry) t"
  shows "result exec (resolveEntry (defaultCancelChild gc) sw k m sc) s = Inr None
    \<longleftrightarrow> (\<exists>x \<in> descendants (kv s) (sw_schema sw) (wm_session entry) t. (x, x) \<in> (dispatches (kv s) (sw_schema sw) (wm_session entry))\<^sup>+)"
proof -
  let ?due = "due_of k m sc entry" and ?sch = "sw_schema sw" and ?session = "wm_session entry"
  let ?cancel = "defaultCancelChild gc (wm_child entry) ?session (CHILD_TIMEOUT @ '': no reply before deadline'') (''wait_sweeper:'' @ sw_workerId sw)"
  obtain now trace s1 l1 where kv1: "kv s1 = extended_view sw ?due now (kv s)"
    and rest: "run exec (resolveEntry (defaultCancelChild gc) sw k m sc) (s, [])
        = run exec (bindO (cancelTimedOutChild (defaultCancelChild gc) sw ?due child) (\<lambda>_. Ret (Some OUTCOME_TIMED_OUT))) (s1, l1)"
    by (rule timed_out_run [OF avail m entry free silent routed])
  have same: "v_hash (kv s1) (session_registry ?sch ?session) = v_hash (kv s) (session_registry ?sch ?session)"
    unfolding kv1 by (rule extended_others) (simp_all add: k renew_origin_key_def)
  have schema: "gc_schema gc = ?sch" by (simp add: gc_schema_def client)
  have walk: "result exec ?cancel s1 = Inr None
    \<longleftrightarrow> (\<exists>x \<in> descendants (kv s) ?sch ?session t. (x, x) \<in> (dispatches (kv s) ?sch ?session)\<^sup>+)"
    using default_diverges_iff [OF avail, of s1 gc ?session "wm_child entry" t] session same_session [OF same]
    by (simp add: schema)
  have "result exec (resolveEntry (defaultCancelChild gc) sw k m sc) s = Inr None \<longleftrightarrow> fst (run exec ?cancel (s1, l1)) = Inr None"
    unfolding result_def [of exec "resolveEntry _ _ _ _ _"] rest
    using on by (auto simp: cancelTimedOutChild_def bindO_def run_bindP run_catchP split: prod.splits sum.splits option.splits)
  then show ?thesis by (simp only: result_any_log walk)
qed


section \<open>On the server of the tests\<close>

definition sweeper_client :: client where
  "sweeper_client = sample_client\<lparr>gc_registry := sw_registry sample_sweeper\<rparr>"

lemma sweeper_client_schema [simp]: "gc_schema sweeper_client = V1"
  by (simp add: sweeper_client_def gc_schema_def)

lemma sample_default_safe: "index_safe mock_exec mock_view (defaultCancelChild sweeper_client) sample_index m"
  by (rule default_index_safe [OF mock_server.redis_available_axioms]) (simp add: sample_index_def)

lemma cancelling_verdict:
  assumes "now_ms (sample_overdue True) \<le> now"
  shows "entry_verdict (mock_view (sample_overdue True)) now cancelling_sweeper sample_index (encodeMember sample_entry) sample_score
    = Inr \<lparr>vd_outcome = OUTCOME_TIMED_OUT, vd_action = Reply (failure_params (due_of sample_index (encodeMember sample_entry) sample_score
        sample_entry) (JObj sample_child) CHILD_TIMEOUT (timeout_message cancelling_sweeper sample_entry (JObj sample_child)) []),
      vd_cancels = Some (JObj sample_child)\<rparr>"
  by (rule timeout_verdict [OF silent_later [OF cancelling_silent assms] refl]) (simp_all add: sample_routed)

end
