(* ===== verification/SweepLoop.thy ===== *)
theory SweepLoop
  imports WaitSweeper
begin

text \<open>
  The background loop of the wait sweeper (src/liveness/wait_sweeper.ts: start, stop
  and sleep) as a step relation. A loop that `start` has begun is in a pass, asleep, woken but
  not yet continued, or at its end; every loop ever begun is kept, by its number. `wake`
  is the number of the loop whose sleep it would end; the loops of one sweeper share it.
\<close>

datatype phase = Passing | Sleeping | Woken | Ended

record sweep_loop =
  sl_worthwhile :: bool
  sl_running :: bool
  sl_task :: "nat option"
  sl_wake :: "nat option"
  sl_phases :: "phase list"

text \<open>A sweeper that is worthwhile compensates or prunes.\<close>

definition new_sweep_loop :: "sweeper \<Rightarrow> sweep_loop" where
  "new_sweep_loop sw = \<lparr>sl_worthwhile = (sw_enabled sw \<or> sw_pruneEnabled sw), sl_running = False, sl_task = None,
     sl_wake = None, sl_phases = []\<rparr>"

definition start_loop :: "sweep_loop \<Rightarrow> sweep_loop" where
  "start_loop s =
     (if sl_task s \<noteq> None then s
      else if \<not> sl_worthwhile s then s
      else s\<lparr>sl_running := True, sl_task := Some (length (sl_phases s)), sl_phases := sl_phases s @ [Passing]\<rparr>)"

definition wake_up :: "sweep_loop \<Rightarrow> sweep_loop" where
  "wake_up s = (case sl_wake s of None \<Rightarrow> s | Some i \<Rightarrow> s\<lparr>sl_wake := None, sl_phases := (sl_phases s)[i := Woken]\<rparr>)"

definition stop_loop :: "sweep_loop \<Rightarrow> sweep_loop" where
  "stop_loop s = (wake_up (s\<lparr>sl_running := False\<rparr>))\<lparr>sl_task := None\<rparr>"

definition fall_asleep :: "nat \<Rightarrow> sweep_loop \<Rightarrow> sweep_loop" where
  "fall_asleep i s = s\<lparr>sl_wake := Some i, sl_phases := (sl_phases s)[i := Sleeping]\<rparr>"

definition time_out :: "nat \<Rightarrow> sweep_loop \<Rightarrow> sweep_loop" where
  "time_out i s = s\<lparr>sl_wake := None, sl_phases := (sl_phases s)[i := Woken]\<rparr>"

definition pass_ends :: "nat \<Rightarrow> sweep_loop \<Rightarrow> sweep_loop" where
  "pass_ends i s = (if \<not> sl_running s then s\<lparr>sl_phases := (sl_phases s)[i := Ended]\<rparr> else fall_asleep i s)"

definition resumes :: "nat \<Rightarrow> sweep_loop \<Rightarrow> sweep_loop" where
  "resumes i s = s\<lparr>sl_phases := (sl_phases s)[i := if sl_running s then Passing else Ended]\<rparr>"

datatype loop_event = Start | Stop | PassEnds nat | TimerFires nat | Resumes nat

inductive loop_moves :: "sweep_loop \<Rightarrow> loop_event \<Rightarrow> sweep_loop \<Rightarrow> bool" where
  starts: "loop_moves s Start (start_loop s)"
| stops: "loop_moves s Stop (stop_loop s)"
| ends_pass: "i < length (sl_phases s) \<Longrightarrow> sl_phases s ! i = Passing \<Longrightarrow> loop_moves s (PassEnds i) (pass_ends i s)"
| times_out: "i < length (sl_phases s) \<Longrightarrow> sl_phases s ! i = Sleeping \<Longrightarrow> loop_moves s (TimerFires i) (time_out i s)"
| goes_on: "i < length (sl_phases s) \<Longrightarrow> sl_phases s ! i = Woken \<Longrightarrow> loop_moves s (Resumes i) (resumes i s)"

inductive_simps moves_simps:
  "loop_moves s Start s'" "loop_moves s Stop s'" "loop_moves s (PassEnds i) s'" "loop_moves s (TimerFires i) s'" "loop_moves s (Resumes i) s'"

definition all_ended :: "sweep_loop \<Rightarrow> bool" where
  "all_ended s \<longleftrightarrow> (\<forall>p \<in> set (sl_phases s). p = Ended)"

text \<open>Use as it is meant: `start` comes again only after `stop` was awaited, or without effect.\<close>

inductive careful :: "sweeper \<Rightarrow> sweep_loop \<Rightarrow> bool" for sw where
  new: "careful sw (new_sweep_loop sw)"
| move: "careful sw s \<Longrightarrow> loop_moves s e s' \<Longrightarrow> e \<noteq> Start \<or> sl_task s \<noteq> None \<or> all_ended s \<Longrightarrow> careful sw s'"


section \<open>The invariant\<close>

text \<open>
  Either all loops have ended, or all but the last, which is the task while the sweeper runs
  and then the one that `wake` would wake when it sleeps; a loop told to stop does not sleep.
\<close>

definition loop_inv :: "sweep_loop \<Rightarrow> bool" where
  "loop_inv s \<longleftrightarrow> (\<exists>n. \<not> sl_running s \<and> sl_task s = None \<and> sl_wake s = None \<and> sl_phases s = replicate n Ended)
     \<or> (\<exists>n p. sl_phases s = replicate n Ended @ [p] \<and> p \<noteq> Ended \<and> sl_wake s = (if p = Sleeping then Some n else None)
          \<and> (sl_running s \<and> sl_task s = Some n \<or> \<not> sl_running s \<and> sl_task s = None \<and> p \<noteq> Sleeping))"

lemma loop_inv_cases:
  assumes "loop_inv s"
  obtains (idle) n where "\<not> sl_running s" "sl_task s = None" "sl_wake s = None" "sl_phases s = replicate n Ended"
  | (running) n p where "sl_phases s = replicate n Ended @ [p]" "p \<noteq> Ended" "sl_wake s = (if p = Sleeping then Some n else None)"
      "sl_running s" "sl_task s = Some n"
  | (stopping) n p where "sl_phases s = replicate n Ended @ [p]" "p \<noteq> Ended" "p \<noteq> Sleeping" "sl_wake s = None"
      "\<not> sl_running s" "sl_task s = None"
  using assms by (auto simp: loop_inv_def)

lemma loop_inv_I:
  "\<not> sl_running s \<Longrightarrow> sl_task s = None \<Longrightarrow> sl_wake s = None \<Longrightarrow> sl_phases s = replicate n Ended \<Longrightarrow> loop_inv s"
  "sl_phases s = replicate n Ended @ [p] \<Longrightarrow> p \<noteq> Ended \<Longrightarrow> sl_wake s = (if p = Sleeping then Some n else None) \<Longrightarrow>
     sl_running s \<Longrightarrow> sl_task s = Some n \<Longrightarrow> loop_inv s"
  "sl_phases s = replicate n Ended @ [p] \<Longrightarrow> p \<noteq> Ended \<Longrightarrow> p \<noteq> Sleeping \<Longrightarrow> sl_wake s = None \<Longrightarrow>
     \<not> sl_running s \<Longrightarrow> sl_task s = None \<Longrightarrow> loop_inv s"
  "\<not> sl_running s \<Longrightarrow> sl_task s = None \<Longrightarrow> sl_wake s = None \<Longrightarrow> sl_phases s = Ended # replicate n Ended \<Longrightarrow> loop_inv s"
  by (auto simp: loop_inv_def replicate_Suc [symmetric] simp del: replicate_Suc)

text \<open>The one loop that can move is the last.\<close>

lemma at_replicate: "i < Suc n \<Longrightarrow> (replicate n Ended @ [p]) ! i = (if i = n then p else Ended)"
  by (auto simp: nth_append less_Suc_eq)

lemma update_replicate: "i < Suc n \<Longrightarrow> i = n \<Longrightarrow> (replicate n Ended @ [p])[i := q] = replicate n Ended @ [q]"
  by (simp add: list_update_append)

lemmas last_moves = at_replicate update_replicate

lemma start_keeps: "loop_inv s \<Longrightarrow> sl_task s \<noteq> None \<or> all_ended s \<Longrightarrow> loop_inv (start_loop s)"
  by (elim loop_inv_cases) (auto simp: start_loop_def all_ended_def intro: loop_inv_I)

lemma stop_keeps: "loop_inv s \<Longrightarrow> loop_inv (stop_loop s)"
  by (elim loop_inv_cases) (auto simp: stop_loop_def wake_up_def list_update_append intro: loop_inv_I split: if_splits)

lemma pass_ends_keeps:
  "loop_inv s \<Longrightarrow> i < length (sl_phases s) \<Longrightarrow> sl_phases s ! i = Passing \<Longrightarrow> loop_inv (pass_ends i s)"
  by (elim loop_inv_cases)
    (auto simp: pass_ends_def fall_asleep_def last_moves replicate_append_same intro: loop_inv_I split: if_splits)

lemma time_out_keeps:
  "loop_inv s \<Longrightarrow> i < length (sl_phases s) \<Longrightarrow> sl_phases s ! i = Sleeping \<Longrightarrow> loop_inv (time_out i s)"
  by (elim loop_inv_cases) (auto simp: time_out_def last_moves replicate_append_same intro: loop_inv_I split: if_splits)

lemma resumes_keeps:
  "loop_inv s \<Longrightarrow> i < length (sl_phases s) \<Longrightarrow> sl_phases s ! i = Woken \<Longrightarrow> loop_inv (resumes i s)"
  by (elim loop_inv_cases) (auto simp: resumes_def last_moves replicate_append_same intro: loop_inv_I split: if_splits)

lemma careful_inv: "careful sw s \<Longrightarrow> loop_inv s"
proof (induction rule: careful.induct)
  case new
  show ?case by (simp add: new_sweep_loop_def loop_inv_def)
next
  case (move s e s')
  from move(2) show ?case
    by cases (use move in \<open>auto intro: start_keeps stop_keeps pass_ends_keeps time_out_keeps resumes_keeps\<close>)
qed

text \<open>
  C24. One loop, and it stops at once. If the sweeper is started again only after its
  stop was awaited, at most one of its loops has not ended, and it is there exactly
  when the sweeper runs or is stopping. After a stop no loop sleeps, so no
  timer has to run out: what is left of the loop, the pass at hand or its continuation, ends it.
\<close>

theorem one_sweep_loop:
  assumes "careful sw s"
  shows "length (filter (\<lambda>p. p \<noteq> Ended) (sl_phases s)) \<le> 1 \<and> (sl_running s \<longrightarrow> \<not> all_ended s)
    \<and> (\<forall>s'. loop_moves s Stop s' \<longrightarrow> sl_wake s' = None \<and> sl_task s' = None \<and> Sleeping \<notin> set (sl_phases s')
         \<and> (\<forall>i s''. loop_moves s' (PassEnds i) s'' \<or> loop_moves s' (Resumes i) s'' \<longrightarrow> all_ended s'')
         \<and> (\<not> all_ended s' \<longrightarrow> (\<exists>i s''. loop_moves s' (PassEnds i) s'' \<or> loop_moves s' (Resumes i) s'')))"
proof -
  have inv: "loop_inv s" by (rule careful_inv [OF assms])
  have now: "length (filter (\<lambda>p. p \<noteq> Ended) (sl_phases s)) \<le> 1 \<and> (sl_running s \<longrightarrow> \<not> all_ended s)"
    using inv by (elim loop_inv_cases) (auto simp: all_ended_def)
  have "sl_wake s' = None \<and> sl_task s' = None \<and> Sleeping \<notin> set (sl_phases s')
         \<and> (\<forall>i s''. loop_moves s' (PassEnds i) s'' \<or> loop_moves s' (Resumes i) s'' \<longrightarrow> all_ended s'')
         \<and> (\<not> all_ended s' \<longrightarrow> (\<exists>i s''. loop_moves s' (PassEnds i) s'' \<or> loop_moves s' (Resumes i) s''))"
    if "loop_moves s Stop s'" for s'
  proof -
    have s': "s' = stop_loop s" "\<not> sl_running s'" using that
      by (auto simp: moves_simps stop_loop_def wake_up_def split: option.splits)
    from stop_keeps [OF inv] s' show ?thesis
    proof (elim loop_inv_cases, goal_cases)
      case (3 n p)
      then have "p = Passing \<or> p = Woken" by (cases p) auto
      with 3 show ?case
        by (auto simp: moves_simps pass_ends_def resumes_def all_ended_def last_moves split: if_splits intro!: exI [of _ n] disjI1 disjI2)
    qed (auto simp: moves_simps all_ended_def)
  qed
  with now show ?thesis by blast
qed

definition compensating_sweeper :: sweeper where
  "compensating_sweeper = \<lparr>sw_registry = \<lparr>reg_schema = V1, reg_ip = ''10.0.0.1'', lockTokens = Map.empty\<rparr>, sw_workerId = ''w1'', sw_interval = 30,
     sw_enabled = True, sw_pruneEnabled = True, sw_pruneInterval = 3600, sw_renewMaxMultiple = 4, sw_cancelOnTimeout = False,
     sw_lockTtl = 90, shardCursor = 0, lastPruneMs = None\<rparr>"

abbreviation idle_loop :: sweep_loop where
  "idle_loop \<equiv> new_sweep_loop compensating_sweeper"

lemma idle_loop: "idle_loop = \<lparr>sl_worthwhile = True, sl_running = False, sl_task = None, sl_wake = None, sl_phases = []\<rparr>"
  by (simp add: new_sweep_loop_def compensating_sweeper_def)

lemmas loop_defs = start_loop_def stop_loop_def wake_up_def pass_ends_def fall_asleep_def time_out_def resumes_def

theorem one_sweep_loop_witness:
  "\<exists>s'. loop_moves (pass_ends 0 (start_loop idle_loop)) Stop s' \<and> sl_phases s' = [Woken]
     \<and> Sleeping \<notin> set (sl_phases s') \<and> (\<forall>i s''. loop_moves s' (Resumes i) s'' \<longrightarrow> all_ended s'')"
proof -
  have "careful compensating_sweeper (start_loop idle_loop)"
    by (rule careful.move [OF careful.new starts]) (simp add: idle_loop all_ended_def)
  then have "careful compensating_sweeper (pass_ends 0 (start_loop idle_loop))"
    by (rule careful.move [OF _ ends_pass]) (simp_all add: idle_loop loop_defs)
  from one_sweep_loop [OF this] show ?thesis
    by (intro exI [of _ "stop_loop (pass_ends 0 (start_loop idle_loop))"]) (auto simp: idle_loop loop_defs moves_simps)
qed

text \<open>
  Started again before the stop was awaited, the stopped loop takes the new start
  for its own and goes on: two loops sweep, and a stop wakes only the one that fell asleep
  last, while the other sleeps until its timer runs out, an hour when only pruning is on.
\<close>

lemma restart_revives_example:
  "\<exists>s2 s. foldl (\<lambda>t f. f t) idle_loop [start_loop, stop_loop, start_loop, pass_ends 0, pass_ends 1] = s2
     \<and> sl_phases s2 = [Sleeping, Sleeping] \<and> loop_moves s2 Stop s \<and> \<not> sl_running s \<and> sl_phases s = [Sleeping, Woken]"
  by (auto simp: idle_loop loop_defs moves_simps)

end
