(* ===== verification/DispatchProperties.thy ===== *)
theory DispatchProperties
  imports DispatchContracts
begin

text \<open>
  The properties of delegating work: a call whose reply can always be claimed, a
  rejected call that leaves no trace of waiting, a fan-out that accounts for each
  of its members, and a router whose polling ends.
\<close>


declare wf_json.simps(3) [simp del]


section \<open>One call\<close>

lemma claim_entered:
  assumes avail: "redis_available exec kv oth clk" and fresh: "\<And>x. consumedMarkerKey sch (sessionId h) x \<notin> oth s"
    and m: "v_zset (kv s) (waitIndexKey sch (sessionId h)) (memberFromResume h) = Some d"
  shows "result exec (consumeWaitEntry sch h) s = Inr (claimed (memberFromResume h))"
  using gate_run [OF avail fresh fresh] candidateMembers_cases [of h] m by auto

lemma routed_simps [simp]:
  "header (routed_command (call_command i m) a) = (call_header i m)\<lparr>targetAgentType := str_or (selected_type a) (pi_target i)\<rparr>"
  by (simp add: routed_command_def call_command_def retargetAskAgentCommand_def call_header_def str_or_def)

lemma call_header_simps [simp]:
  "messageId (call_header i m) = m" "sessionId (call_header i m) = pi_session i" "parentMessageId (call_header i m) = parent_of i"
  "taskGroupId (call_header i m) = pi_group i" "sourceAgentType (call_header i m) = (if waits i then pi_source i else [])"
  "metadata (call_header i m) = pi_metadata i" "traceId (call_header i m) = pi_trace i" "targetAgentType (call_header i m) = pi_target i"
  by (simp_all add: call_header_def mk_header_def)

lemma call_record_fields [simp]:
  "oget (call_record sch i m e) ''session_id'' = Some (JStr (pi_session i))"
  "oget (call_record sch i m e) ''execution_id'' = Some (JStr e)" "oget (call_record sch i m e) ''message_id'' = Some (JStr m)"
  "oget (call_record sch i m e) ''status'' = Some (JStr QUEUED)"
  "waits i \<Longrightarrow> oget (call_record sch i m e) ''source_agent_type'' = Some (JStr (pi_source i))"
  by (simp_all add: call_record_def buildExecutionRecord_def execution_record_def call_command_def Let_def)

lemma routed_record_fields [simp]:
  "k \<notin> {''selected_agent_type'', ''route_status'', ''route_policy'', ''stream_name'', ''target_agent_type''} \<Longrightarrow>
   oget (routed_record r p a c) k = oget r k"
  by (simp add: routed_record_def)

lemma wf_call_record: "wf_json (JObj (pi_metadata i)) \<Longrightarrow> wf_json (JObj (call_record sch i m e))"
  using wf_json_ospread [of "[]" "pi_metadata i"]
  by (simp add: call_record_def buildExecutionRecord_def execution_record_def call_command_def Let_def wf_json.simps)

lemma wf_routed_record: "wf_json (JObj r) \<Longrightarrow> wf_json (JObj (routed_record r p a c))"
  unfolding routed_record_def by (auto intro!: wf_json_oput)

lemma initial_record_keeps [simp]:
  "k \<notin> {''created_at'', ''updated_at'', ''started_at'', ''finished_at'', ''timeline''} \<Longrightarrow> oget (initial_record r t) k = oget r k"
  by (simp add: initial_record_def oget_ospread)


text \<open>The state a successful waiting call leaves, whichever way it was routed.\<close>

context redis_available
begin

lemma queued_state:
  assumes "called sch i m (s, []) (Some r) \<sigma>" "pr_status r = QUEUED"
  shows "\<exists>a e t d v. v_zset (kv (fst \<sigma>)) (waitIndexKey sch (pi_session i)) (wait_member_of (call_wait i m)) = Some d
    \<and> oth (fst \<sigma>) \<subseteq> oth s \<union> control_plane sch \<union> {waitIndexKey sch (pi_session i), session_registry sch (pi_session i)}
           \<union> range (ctrl_stream sch)
    \<and> r = queued_result i m a
    \<and> kv (fst \<sigma>) = recorded_view sch (routed_record (call_record sch i m e) (call_policy i) a (ctrl_stream sch (pi_target i))) t v
    \<and> (av_status a = QUEUE_PENDING \<or> (\<exists>pre. snd \<sigma> = pre @ [Xadd (ctrl_stream sch (pr_target r)) (command_payload (routed_command (call_command i m) a))]
           \<and> outside (control_plane sch) (sent pre) = []))"
  using assms(1)
proof cases
  case (refused \<sigma>1 a e)
  then show ?thesis using assms(2) by (simp add: rejected_result_def state_defs)
next
  case (pending \<sigma>1 a \<sigma>2 e)
  let ?r = "routed_record (call_record sch i m e) (call_policy i) a (ctrl_stream sch (pi_target i))"
  have "v_zset (kv (fst \<sigma>)) (waitIndexKey sch (pi_session i)) (wait_member_of (call_wait i m)) = Some (clk (fst \<sigma>1) + max 0 (rw_timeout (call_wait i m)))"
    using pending registered_present [of sch "call_wait i m"] by (simp add: recorded_def entered_def call_wait_def)
  then show ?thesis
    using pending by (intro exI conjI) (assumption | auto simp: recorded_def entered_def planned_def call_wait_def)+
next
  case (delivered \<sigma>1 a \<sigma>2 e \<sigma>3)
  let ?r = "routed_record (call_record sch i m e) (call_policy i) a (ctrl_stream sch (pi_target i))"
  show ?thesis
  proof (intro exI conjI)
    show "v_zset (kv (fst \<sigma>)) (waitIndexKey sch (pi_session i)) (wait_member_of (call_wait i m)) = Some (clk (fst \<sigma>1) + max 0 (rw_timeout (call_wait i m)))"
      using delivered registered_present [of sch "call_wait i m"] by (simp add: recorded_def entered_def published_def call_wait_def)
    show "oth (fst \<sigma>) \<subseteq> oth s \<union> control_plane sch \<union> {waitIndexKey sch (pi_session i), session_registry sch (pi_session i)}
           \<union> range (ctrl_stream sch)"
    proof -
      have "oth (fst \<sigma>) \<subseteq> insert (ctrl_stream sch (str_or (selected_type a) (pi_target i))) (oth (fst \<sigma>3))"
        "oth (fst \<sigma>3) \<subseteq> insert (session_registry sch (pi_session i)) (oth (fst \<sigma>2))"
        "oth (fst \<sigma>2) \<subseteq> insert (waitIndexKey sch (pi_session i)) (oth (fst \<sigma>1))" "oth (fst \<sigma>1) \<subseteq> oth s \<union> control_plane sch"
        using delivered by (simp_all add: recorded_def published_def entered_def planned_def call_wait_def)
      then show ?thesis by blast
    qed
    show "kv (fst \<sigma>) = recorded_view sch ?r (clk (fst \<sigma>2)) (kv (fst \<sigma>2))"
      using delivered by (simp add: recorded_def published_def)
    have "outside (control_plane sch) (sent (snd \<sigma>3)) = []"
      using delivered by (simp add: recorded_def entered_def planned_def)
    then show "av_status a = QUEUE_PENDING \<or> (\<exists>pre. snd \<sigma> = pre @ [Xadd (ctrl_stream sch (pr_target r)) (command_payload (routed_command (call_command i m) a))]
           \<and> outside (control_plane sch) (sent pre) = [])"
      using delivered by (simp add: published_def queued_result_def)
  qed (use delivered in simp)
qed

end

text \<open>
  C14. A call that waits can always be answered. When the dispatch reports it as
  queued, its record is in the registry of the session, and the reply of
  whichever worker handles the command, with whatever outcome, is claimed by the
  gate for exactly the wait registered here. Unless the router keeps the
  command for later, publishing it is the very last thing done, so no reply can
  come before its wait.
\<close>

theorem call_is_answerable:
  assumes avail: "redis_available exec kv oth clk" and i: "waits i" "pi_message i = m" "m \<noteq> []" "hasContent (Some (pi_content i))"
    and md: "wf_json (JObj (pi_metadata i))" and sch: "sch = reg_schema reg"
    and fresh: "\<And>x. consumedMarkerKey sch (pi_session i) x \<notin> oth s"
    and run: "result exec (callAgent (createRedisCallAgentDeps ttl reg) i) s = Inr (Some r)" "pr_status r = QUEUED"
    and s': "s' = final exec (callAgent (createRedisCallAgentDeps ttl reg) i) s"
  shows "\<exists>c e rec. targetAgentType (header c) = pr_target r
    \<and> knows_message (kv s') sch (pi_session i) m e \<and> holds_record (kv s') sch (pi_session i) e rec
    \<and> oget rec ''status'' = Some (JStr QUEUED) \<and> oget rec ''source_agent_type'' = Some (JStr (pi_source i))
    \<and> (\<forall>w st rd opts. result exec (consumeWaitEntry sch (header (owed_reply w c st rd opts))) s' = Inr (claimed (wait_member_of (call_wait i m))))
    \<and> (pr_routeStatus r = Some (status_name QUEUE_PENDING)
       \<or> (\<exists>pre. issued exec (callAgent (createRedisCallAgentDeps ttl reg) i) s = pre @ [Xadd (ctrl_stream sch (pr_target r)) (command_payload c)]
            \<and> outside (control_plane sch) (sent pre) = []))"
proof -
  let ?p = "callAgent (createRedisCallAgentDeps ttl reg) i"
  have "wp exec ?p (\<lambda>r \<sigma>'. redis_available.called kv oth clk sch i m (s, []) r \<sigma>') (\<lambda>_ _. False) (s, [])"
    unfolding sch by (rule redis_available.wp_callAgent [OF avail i])
  then have "redis_available.called kv oth clk sch i m (s, []) (Some r) (s', issued exec ?p s)"
    using run(1) by (auto simp: s' elim!: wp_total)
  from redis_available.queued_state [OF avail this run(2)] obtain a e t d v where
    entry: "v_zset (kv s') (waitIndexKey sch (pi_session i)) (wait_member_of (call_wait i m)) = Some d"
    and others: "oth s' \<subseteq> oth s \<union> control_plane sch \<union> {waitIndexKey sch (pi_session i), session_registry sch (pi_session i)}
           \<union> range (ctrl_stream sch)"
    and r: "r = queued_result i m a"
    and view: "kv s' = recorded_view sch (routed_record (call_record sch i m e) (call_policy i) a (ctrl_stream sch (pi_target i))) t v"
    and out: "av_status a = QUEUE_PENDING \<or> (\<exists>pre. issued exec ?p s = pre @ [Xadd (ctrl_stream sch (pr_target r)) (command_payload (routed_command (call_command i m) a))]
           \<and> outside (control_plane sch) (sent pre) = [])"
    by auto
  let ?c = "routed_command (call_command i m) a" and ?r = "routed_record (call_record sch i m e) (call_policy i) a (ctrl_stream sch (pi_target i))"
  have free: "consumedMarkerKey sch (pi_session i) x \<notin> oth s'" for x
    using others fresh [of x] by (auto simp: control_plane_def)
  have "result exec (consumeWaitEntry sch (header (owed_reply w ?c st rd opts))) s' = Inr (claimed (wait_member_of (call_wait i m)))" for w st rd opts
  proof -
    let ?h = "header (owed_reply w ?c st rd opts)"
    have "memberFromResume ?h = wait_member_of (call_wait i m)" "sessionId ?h = pi_session i"
      by (simp_all add: owed_reply_def memberFromResume_def wait_member_of_def call_wait_def)
    then show ?thesis using claim_entered [OF avail, of sch ?h s' d] free entry by simp
  qed
  moreover have "knows_message (kv s') sch (pi_session i) m e \<and> holds_record (kv s') sch (pi_session i) e (initial_record ?r t)"
    unfolding view by (rule recorded_view_holds) (simp_all add: wf_routed_record wf_call_record [OF md])
  moreover have "targetAgentType (header ?c) = pr_target r" "av_status a = QUEUE_PENDING \<Longrightarrow> pr_routeStatus r = Some (status_name QUEUE_PENDING)"
    by (simp_all add: r queued_result_def)
  ultimately show ?thesis
    using out i(1) by (intro exI [of _ ?c] exI [of _ e] exI [of _ "initial_record ?r t"]) auto
qed

definition sample_call :: publish_input where
  "sample_call = \<lparr>pi_session = ''s'', pi_trace = ''t'', pi_source = ''boss'', pi_defaultParent = ''m1'', pi_target = ''helper'',
     pi_content = JStr ''go'', pi_extraPayload = [], pi_waitForReply = None, pi_userCode = [], pi_userName = [], pi_group = [],
     pi_metadata = [], pi_message = ''m2'', pi_parent = [], pi_routePolicy = Some SEND_ANYWAY, pi_availabilityTimeout = None,
     pi_region = [], pi_priority = 0, pi_replyTimeout = None, pi_observation = []\<rparr>"

lemma sample_call_simps [simp]:
  "waits sample_call" "pi_message sample_call = ''m2''" "pi_content sample_call = JStr ''go''" "pi_metadata sample_call = []"
  "pi_session sample_call = ''s''" "pi_userCode sample_call = []" "call_policy sample_call = SEND_ANYWAY"
  "parent_of sample_call = ''m1''" "pi_group sample_call = []"
  by (simp_all add: sample_call_def waits_def opt_or_def call_policy_def parent_of_def str_or_def)

lemma go_content [simp]: "hasContent (Some (JStr ''go''))"
  by (simp add: hasContent_def js_trim_id plain_char_def)

theorem call_is_answerable_witness:
  "\<exists>c. \<forall>w st rd opts. result mock_exec (consumeWaitEntry V1 (header (owed_reply w c st rd opts)))
      (final mock_exec (callAgent (createRedisCallAgentDeps 15 sample_registry) sample_call) (empty_mock 5))
     = Inr (claimed (wait_member_of (call_wait sample_call ''m2'')))"
proof -
  let ?p = "callAgent (createRedisCallAgentDeps 15 sample_registry) sample_call"
  let ?a = "deliver (reg_schema sample_registry) (pi_target sample_call)"
  have sch: "V1 = reg_schema sample_registry" by (simp add: sample_registry_def)
  have "wp mock_exec ?p (\<lambda>r _. r = Some (call_answer sample_call ''m2'' ?a)) (\<lambda>_ _. False) (empty_mock 5, [])"
  proof (rule mock_server.wp_callAgent_routed [where P = "\<lambda>av. av = Some ?a" and m = "''m2''"], goal_cases)
    case (5 e \<sigma>1)
    let ?i = "intent_of 15 (sample_call\<lparr>pi_routePolicy := Some (call_policy sample_call)\<rparr>) (toDict (call_command sample_call ''m2'')) e ''m2''"
    have "di_target ?i = pi_target sample_call" by (simp add: intent_of_def)
    then show ?case
      using 5 mock_server.wp_send_anyway [of ?i \<sigma>1 sample_registry]
      by (simp add: mock_server.quiet_def) (simp add: intent_of_def opt_or_def str_or_def policy_defs)
  qed simp_all
  from wp_total [OF this] have "result mock_exec ?p (empty_mock 5) = Inr (Some (call_answer sample_call ''m2'' ?a))" by auto
  note run = this
  have "wf_json (JObj (pi_metadata sample_call))" "\<And>x. consumedMarkerKey V1 (pi_session sample_call) x \<notin> mock_others (empty_mock 5)"
    by (simp_all add: wf_json.simps others_fresh)
  from call_is_answerable [OF mock_server.redis_available_axioms _ _ _ _ this(1) sch this(2) run _ refl, of "''m2''"]
  show ?thesis by (simp add: call_answer_def deliver_def routed_def queued_result_def) blast
qed


section \<open>The caller's context\<close>

text \<open>An embedding without plugins whose history and spans are kept outside Redis.\<close>

definition silent_host :: "host \<Rightarrow> bool" where
  "silent_host h \<longleftrightarrow> plain_host h \<and> (\<forall>sp. h_span h sp = Ret ())"

lemma silent_host_simps [simp]: "silent_host h \<Longrightarrow> plain_host h" "silent_host h \<Longrightarrow> h_span h sp = Ret ()"
  by (simp_all add: silent_host_def)

text \<open>The wait index holds a member, as seen from a context.\<close>

definition waits_for :: "view \<Rightarrow> key_schema \<Rightarrow> register_wait_params \<Rightarrow> bool" where
  "waits_for v sch p \<longleftrightarrow> v_zset v (waitIndexKey sch (rw_session p)) (wait_member_of p) \<noteq> None"

context redis_available
begin

lemma quiet_span:
  assumes "silent_host h" and "\<And>\<sigma>'. quiet \<sigma> \<sigma>' \<Longrightarrow> Q () \<sigma>'"
  shows "wp exec (record_span h sp) Q E \<sigma>"
  unfolding record_span_def wp_bindP using assms by (intro quiet_nowP) simp

lemma called_outcome:
  assumes "called sch i m \<sigma> r \<sigma>'" "waits i"
  shows "case r of
      None \<Rightarrow> v_zset (kv (fst \<sigma>')) = v_zset (kv (fst \<sigma>))
    | Some x \<Rightarrow>
        if pr_status x = FAILED
        then v_zset (kv (fst \<sigma>')) = v_zset (kv (fst \<sigma>)) \<and> outside (control_plane sch) (sent (snd \<sigma>')) = outside (control_plane sch) (sent (snd \<sigma>))
        else pr_status x = QUEUED \<and> waits_for (kv (fst \<sigma>')) sch (call_wait i m) \<and> pr_hint x = Some ''suspend''"
  using assms(1)
proof cases
  case (delivered \<sigma>1 a \<sigma>2 e \<sigma>3)
  then show ?thesis
    using registered_present [of sch "call_wait i m"] assms(2)
    by (simp add: queued_result_def state_defs waits_for_def recorded_def entered_def published_def)
next
  case (pending \<sigma>1 a \<sigma>2 e)
  then show ?thesis
    using registered_present [of sch "call_wait i m"] assms(2)
    by (simp add: queued_result_def state_defs waits_for_def recorded_def entered_def)
qed (simp_all add: planned_def recorded_def rejected_result_def)

end

text \<open>
  C15. A caller suspends exactly when its wait is registered. A call that was
  dispatched, or is held by the router, leaves the context suspended for an agent
  with an entry in the wait index; a call that was rejected leaves the context
  as it was, the wait index as it was, and no message outside the control plane,
  so the caller does not wait for a reply that nobody will send.
\<close>

theorem suspended_when_waiting:
  assumes avail: "redis_available exec kv oth clk" and h: "silent_host h"
    and p: "cp_message p = m" "m \<noteq> []" "opt_or (cp_waitForReply p) True" "hasContent (Some (cp_content p))"
  shows "\<exists>out c' s' l. act_run exec (context_callAgent ttl h p) c s = ((Inr out, c'), (s', l))
    \<and> (case out of
         None \<Rightarrow> c' = c \<and> v_zset (kv s') = v_zset (kv s)
       | Some r \<Rightarrow>
           if cr_status r = FAILED
           then c' = c \<and> v_zset (kv s') = v_zset (kv s) \<and> outside (control_plane (ac_schema c)) (sent l) = []
           else cr_status r = QUEUED \<and> c' = suspend WAITING_AGENT c
             \<and> waits_for (kv s') (ac_schema c) (call_wait (call_input h c p m) m))"
proof -
  let ?i = "call_input h c p m" and ?sch = "ac_schema c"
  define Q where "Q = (\<lambda>(out :: call_result option) c' \<sigma>'. case out of
         None \<Rightarrow> c' = c \<and> v_zset (kv (fst \<sigma>')) = v_zset (kv s)
       | Some r \<Rightarrow>
           if cr_status r = FAILED
           then c' = c \<and> v_zset (kv (fst \<sigma>')) = v_zset (kv s) \<and> outside (control_plane ?sch) (sent (snd \<sigma>')) = []
           else cr_status r = QUEUED \<and> c' = suspend WAITING_AGENT c \<and> waits_for (kv (fst \<sigma>')) ?sch (call_wait ?i m))"
  have i: "waits ?i" "pi_message ?i = m" "hasContent (Some (pi_content ?i))"
    using p by (simp_all add: call_input_def waits_def)
  have wait: "cp_waitForReply p \<noteq> Some False" using p(3) by (auto simp: opt_or_def)
  have reg: "reg_schema (context_registry c) = ?sch" by (simp add: context_registry_def)
  define after where "after = (\<lambda>startTs raw. case raw of
        None \<Rightarrow> doneA None
      | Some r \<Rightarrow> seqA (liftA (record_span h (call_span c p m r startTs))) (bindA (finish_call h p r) (\<lambda>res. doneA (Some res))))"
  have tail: "wpA exec (after startTs raw) Q (\<lambda>_ _ _. False) c \<sigma>1"
    if q: "redis_available.quiet kv oth clk (s, []) \<sigma>0" and called: "redis_available.called kv oth clk ?sch ?i m \<sigma>0 raw \<sigma>1"
    for startTs raw \<sigma>0 \<sigma>1
  proof (cases raw)
    case None
    then show ?thesis
      using redis_available.called_outcome [OF avail called i(1)] q by (simp add: Q_def after_def redis_available.quiet_def [OF avail])
  next
    case (Some r)
    have fin: "wpA exec (finish_call h p r) (\<lambda>res. Q (Some res)) (\<lambda>_ _ _. False) c \<sigma>2"
      if "redis_available.quiet kv oth clk \<sigma>1 \<sigma>2" for \<sigma>2
      using redis_available.called_outcome [OF avail called i(1)] q that h wait
      by (cases "pr_status r = FAILED")
         (simp_all add: Q_def Some finish_call_def Let_def call_result_of_def delegated_def waits_for_def state_defs redis_available.quiet_def [OF avail])
    show ?thesis
      unfolding after_def Some option.case wpA_seqA wpA_liftA wpA_bindA wpA_doneA
      by (rule redis_available.quiet_span [OF avail h]) (rule fin)
  qed
  have "wp exec nowP (\<lambda>startTs. wpA exec (bindA (catchA (liftA (callAgent (createRedisCallAgentDeps ttl (context_registry c)) ?i))
      (\<lambda>e. seqA (runHook h (OnCallAgentError (CallSubject p) e)) (raiseA e))) (after startTs)) Q (\<lambda>_ _ _. False) c) (\<lambda>_ _. False) (s, [])"
    unfolding wpA_bindA wpA_catchA wpA_liftA
    by (rule redis_available.quiet_nowP [OF avail], rule redis_available.wp_callAgent [OF avail i(1,2) p(2) i(3)],
        rule tail) (simp_all add: reg)
  then have "wpA exec (context_callAgent ttl h p) Q (\<lambda>_ _ _. False) c (s, [])"
    unfolding after_def context_callAgent_def wpA_bindA wpA_readA id_apply using p(1,2) h by simp
  from act_run_total [OF this] obtain out c' s' l where
    "act_run exec (context_callAgent ttl h p) c s = ((Inr out, c'), (s', l))" "Q out c' (s', l)" .
  then show ?thesis unfolding Q_def fst_conv snd_conv by blast
qed

definition idle_host :: host where
  "idle_host = \<lparr>h_plugin = (\<lambda>_. doneA ()), h_history = (\<lambda>_ _ _ _. Ret ()), h_span = (\<lambda>_. Ret ()), h_spanIdHex = (\<lambda>s. s)\<rparr>"

lemma idle_silent [simp]: "silent_host idle_host"
  by (simp add: silent_host_def plain_host_def idle_host_def)

definition sample_params :: call_params where
  "sample_params = \<lparr>cp_target = ''helper'', cp_content = JStr ''go'', cp_extraPayload = None, cp_payload = None,
     cp_waitForReply = None, cp_metadata = None, cp_message = ''m2'', cp_parent = [], cp_routePolicy = None,
     cp_availabilityTimeout = None, cp_region = [], cp_priority = 0, cp_replyTimeout = None\<rparr>"

definition sample_boss :: agent_context where
  "sample_boss = new_AgentContext V1 ''s'' ''t'' ''boss'' ''m1'' None False [] ''exec-1''"

theorem suspended_when_waiting_witness:
  "\<exists>out c' s' l. act_run mock_exec (context_callAgent 15 idle_host sample_params) sample_boss (empty_mock 5) = ((Inr out, c'), (s', l))
    \<and> (c' = sample_boss \<or> c' = suspend WAITING_AGENT sample_boss \<and>
         waits_for (mock_view s') V1 (call_wait (call_input idle_host sample_boss sample_params ''m2'') ''m2''))"
proof -
  have p: "cp_message sample_params = ''m2''" "opt_or (cp_waitForReply sample_params) True" "hasContent (Some (cp_content sample_params))"
    by (simp_all add: sample_params_def opt_or_def)
  have sch: "ac_schema sample_boss = V1" by (simp add: sample_boss_def new_AgentContext_def)
  show ?thesis
    using suspended_when_waiting [OF mock_server.redis_available_axioms idle_silent p(1) _ p(2,3), of 15 sample_boss "empty_mock 5"]
    unfolding sch by (fastforce split: option.splits if_splits)
qed


section \<open>The router\<close>

text \<open>A connection on which a pause lasts at least as long as it was asked to, as timers promise.\<close>

locale sleeping_server = redis_available +
  assumes sleeps: "exec (Sleep ms) s = (Inr r, s') \<Longrightarrow> clk s + ms \<le> clk s'"
begin

lemma slept:
  assumes "\<And>\<sigma>'. clk (fst \<sigma>) + max 0 ms \<le> clk (fst \<sigma>') \<Longrightarrow> Q () \<sigma>'"
  shows "wp exec (sleepP ms) Q E \<sigma>"
proof (cases \<sigma>)
  case (Pair s l)
  obtain r s' where r: "exec (Sleep ms) s = (Inr r, s')" using available [of "Sleep ms" s] by auto
  then have "clk s + max 0 ms \<le> clk s'" using sleeps [OF r] clock [OF r] by simp
  then show ?thesis using assms [of "(s', l @ [Sleep ms])"] by (simp add: sleepP_def cmdP_def wp_Step Pair r)
qed

lemma paused:
  assumes "\<And>\<sigma>'. min deadline (clk (fst \<sigma>) + WAKEUP_ONLINE_POLL_INTERVAL_MS) \<le> clk (fst \<sigma>') \<Longrightarrow> Q () \<sigma>'"
  shows "wp exec (pause_until deadline) Q E \<sigma>"
  unfolding pause_until_def wp_bindP wp_whenP
proof (rule quiet_nowP)
  fix \<sigma>1
  assume q: "quiet \<sigma> \<sigma>1"
  have "wp exec (sleepP (min WAKEUP_ONLINE_POLL_INTERVAL_MS (deadline - clk (fst \<sigma>)))) Q E \<sigma>1" if "0 < deadline - clk (fst \<sigma>)"
    by (rule slept, rule assms) (use that q in \<open>auto simp: quiet_def WAKEUP_ONLINE_POLL_INTERVAL_MS_def\<close>)
  then show "if 0 < deadline - clk (fst \<sigma>)
      then wp exec (sleepP (min WAKEUP_ONLINE_POLL_INTERVAL_MS (deadline - clk (fst \<sigma>)))) Q E \<sigma>1 else Q () \<sigma>1"
    using assms [of \<sigma>1] q by (auto simp: quiet_def)
qed

lemma poll_decides:
  assumes "deadline - clk (fst \<sigma>) \<le> WAKEUP_ONLINE_POLL_INTERVAL_MS * int n"
  shows "wp exec (poll_online (Suc n) reg t deadline) (\<lambda>a _. a \<noteq> None) (\<lambda>_ _. False) \<sigma>"
  using assms
proof (induction n arbitrary: \<sigma>)
  case 0
  then show ?case by (auto intro!: quiet_nowP)
next
  case (Suc n)
  let ?Q = "\<lambda>a _. a \<noteq> None" and ?E = "\<lambda>_ _. False"
  have again: "wp exec (seqP (pause_until deadline) (poll_online (Suc n) reg t deadline)) ?Q ?E \<sigma>1"
    if "clk (fst \<sigma>) \<le> clk (fst \<sigma>1)" for \<sigma>1
    unfolding wp_seqP
    by (rule paused, rule Suc.IH) (use that Suc.prems in \<open>auto simp: WAKEUP_ONLINE_POLL_INTERVAL_MS_def\<close>)
  show ?case
    unfolding poll_online.simps(2) [of "Suc n"] wp_bindP
  proof (rule quiet_nowP)
    fix \<sigma>1
    assume q: "quiet \<sigma> \<sigma>1"
    have "wp exec (hasOnlineAgentType reg t) (\<lambda>r. wp exec (if fst r
        then Ret (Some (routed WAIT_AND_DELIVER (ctrl_stream (reg_schema reg) t)))
        else seqP (pause_until deadline) (poll_online (Suc n) reg t deadline)) ?Q ?E) ?E \<sigma>1"
    proof (rule quiet_hasOnlineAgentType)
      fix r \<sigma>2
      assume "quiet \<sigma>1 \<sigma>2"
      then have "clk (fst \<sigma>) \<le> clk (fst \<sigma>2)" using q by (simp add: quiet_def)
      then show "wp exec (if fst r then Ret (Some (routed WAIT_AND_DELIVER (ctrl_stream (reg_schema reg) t)))
          else seqP (pause_until deadline) (poll_online (Suc n) reg t deadline)) ?Q ?E \<sigma>2"
        using again by (cases "fst r") simp_all
    qed
    then show "wp exec (if clk (fst \<sigma>) < deadline
        then bindP (hasOnlineAgentType reg t) (\<lambda>r. if fst r then Ret (Some (routed WAIT_AND_DELIVER (ctrl_stream (reg_schema reg) t)))
             else seqP (pause_until deadline) (poll_online (Suc n) reg t deadline))
        else Ret (Some (wakeup_timed_out t))) ?Q ?E \<sigma>1"
      by simp
  qed
qed

lemma wake_decides: "wp exec (wakeAndWait reg i) (\<lambda>a _. a \<noteq> None) (\<lambda>_ _. False) \<sigma>"
proof -
  have "wp exec (bindP nowP (\<lambda>now. poll_online (poll_bound d) reg (di_target i) (now + d))) (\<lambda>a _. a \<noteq> None) (\<lambda>_ _. False) \<sigma>1"
    if "0 \<le> d" for d \<sigma>1
    unfolding wp_bindP poll_bound_def
    by (rule quiet_nowP, rule poll_decides) (use that in \<open>auto simp: quiet_def WAKEUP_ONLINE_POLL_INTERVAL_MS_def\<close>)
  then show ?thesis
    unfolding wakeAndWait_def publishWakeup_def wp_seqP
    by (intro planned_xaddP [where sch = "reg_schema reg"]) (simp_all add: control_plane_def Let_def)
qed

lemma route_decides: "wp exec (route_offline reg i) (\<lambda>a _. a \<noteq> None) (\<lambda>_ _. False) \<sigma>"
  using wake_decides
  by (auto simp: route_offline_def Let_def queuePending_def publishWakeup_def intro!: published_xaddP)

lemma router_decides: "wp exec (prepareDelivery reg i) (\<lambda>a _. a \<noteq> None) (\<lambda>_ _. False) \<sigma>"
proof -
  have present: "wp exec (route_by_presence reg i) (\<lambda>a _. a \<noteq> None) (\<lambda>_ _. False) \<sigma>1" for \<sigma>1
    using route_decides by (auto simp: route_by_presence_def Let_def readJson_def intro!: quiet_hasOnlineAgentType quiet_getP)
  show ?thesis
    using present
    by (auto simp: prepareDelivery_def Let_def readJson_def check_quota_def intro!: quiet_getP split: if_splits)
qed

end

text \<open>The mock with a clock that pauses move; a run is shorter than every life time it sets.\<close>

definition pause_of :: "cmd \<Rightarrow> int option" where
  "pause_of c = (case c of Sleep ms \<Rightarrow> Some ms | _ \<Rightarrow> None)"

lemma pause_of_simps [simp]: "pause_of (Sleep ms) = Some ms" "pause_of Now = None" "pause_of c = Some ms \<longleftrightarrow> c = Sleep ms"
  by (simp_all add: pause_of_def split: cmd.splits)

definition ticking_exec :: "cmd \<Rightarrow> mock \<times> int \<Rightarrow> answer \<times> (mock \<times> int)" where
  "ticking_exec c s = (case pause_of c of
     Some ms \<Rightarrow> (Inr ROk, (fst s, snd s + max 0 ms))
   | None \<Rightarrow> if c = Now then (Inr (RInt (now_ms (fst s) + snd s)), s)
       else (fst (mock_exec c (fst s)), (snd (mock_exec c (fst s)), snd s)))"

lemma law_any_time: "c \<noteq> Now \<Longrightarrow> redis_law c v N t r v' \<Longrightarrow> redis_law c v N t' r v'"
  by (cases c) auto

lemma ticking_cases:
  assumes "ticking_exec c s = (a, s')"
  obtains (sleep) ms where "c = Sleep ms" "a = Inr ROk" "fst s' = fst s" "snd s' = snd s + max 0 ms"
  | (now) "c = Now" "a = Inr (RInt (now_ms (fst s) + snd s))" "s' = s"
  | (other) "c \<noteq> Now" "mock_exec c (fst s) = (a, fst s')" "snd s' = snd s"
proof (cases "pause_of c")
  case None
  show ?thesis
  proof (cases "c = Now")
    case True
    with None assms have "a = Inr (RInt (now_ms (fst s) + snd s))" "s' = s"
      by (auto simp: ticking_exec_def)
    with True show ?thesis by (rule now)
  next
    case False
    with None assms have "mock_exec c (fst s) = (a, fst s')" "snd s' = snd s"
      by (simp_all only: ticking_exec_def option.case if_False) auto
    with False show ?thesis by (rule other)
  qed
next
  case (Some ms)
  then show ?thesis using assms sleep by (auto simp: ticking_exec_def)
qed

interpretation ticking: sleeping_server ticking_exec "\<lambda>s. mock_view (fst s)" "\<lambda>s. mock_others (fst s)" "\<lambda>s. now_ms (fst s) + snd s"
proof
  fix c and s s' :: "mock \<times> int"
  show "redis_law c (mock_view (fst s)) (mock_others (fst s)) (now_ms (fst s) + snd s) r (mock_view (fst s'))"
    if run: "ticking_exec c s = (Inr r, s')" and good: "good_cmd c" for r
    using run
  proof (cases rule: ticking_cases)
    case other
    show ?thesis by (rule law_any_time [OF other(1) mock_server.answered [OF other(2) good]])
  qed simp_all
  show "mock_view (fst s') = mock_view (fst s) \<or>
      (\<exists>r. redis_law c (mock_view (fst s)) (mock_others (fst s)) (now_ms (fst s) + snd s) r (mock_view (fst s')))"
    if run: "ticking_exec c s = (Inl e, s')" and good: "good_cmd c" for e
    using run
  proof (cases rule: ticking_cases)
    case other
    then show ?thesis by (simp add: mock_exec_def split: prod.splits)
  qed simp_all
  show "mock_others (fst s') \<subseteq> mock_others (fst s) \<union> created c" if run: "ticking_exec c s = (a, s')" and good: "good_cmd c" for a
    using run
  proof (cases rule: ticking_cases)
    case other
    show ?thesis by (rule mock_server.grows [OF other(2) good])
  qed auto
  show "now_ms (fst s) + snd s \<le> now_ms (fst s') + snd s'" if run: "ticking_exec c s = (a, s')" and good: "good_cmd c" for a
    using run
  proof (cases rule: ticking_cases)
    case other
    then show ?thesis using mock_server.clock [OF other(2) good] by simp
  qed simp_all
  show "\<exists>r s'. ticking_exec c s = (Inr r, s')" if good: "good_cmd c"
    using mock_server.available [OF good, of "fst s"] by (auto simp: ticking_exec_def split: option.splits)
  show "now_ms (fst s) + snd s + ms \<le> now_ms (fst s') + snd s'" if "ticking_exec (Sleep ms) s = (Inr r, s')" for r ms
    using that by (auto simp: ticking_exec_def)
qed

text \<open>
  C16. The router decides. With pauses that last as long as they are asked to,
  the polling for a woken worker ends within the rounds that fit into its
  timeout, so every dispatch is delivered, queued or rejected: none hangs.
\<close>

theorem router_always_decides:
  assumes "sleeping_server exec kv oth clk"
  shows "\<exists>a. result exec (prepareDelivery reg i) s = Inr (Some a)
    \<and> (av_status a \<in> {REJECT, QUEUE_PENDING} \<or> av_stream a = Some (ctrl_stream (reg_schema reg) (str_or (selected_type a) (di_target i))))
    \<and> kv (final exec (prepareDelivery reg i) s) = kv s"
proof -
  have avail: "redis_available exec kv oth clk" using assms by (simp add: sleeping_server_def)
  have "wp exec (prepareDelivery reg i) (\<lambda>a \<sigma>'. routed_ok reg i a \<and> kv (fst \<sigma>') = kv s) (\<lambda>_ _. False) (s, [])"
    by (rule redis_available.wp_prepareDelivery [OF avail]) (simp add: redis_available.planned_def [OF avail])
  note both = wp_conj [OF sleeping_server.router_decides [OF assms, of reg i "(s, [])"] this]
  have "wp exec (prepareDelivery reg i) (\<lambda>a \<sigma>'. a \<noteq> None \<and> routed_ok reg i a \<and> kv (fst \<sigma>') = kv s) (\<lambda>_ _. False) (s, [])"
    by (rule wp_mono [OF both]) simp_all
  then obtain a where "result exec (prepareDelivery reg i) s = Inr a" "a \<noteq> None" "routed_ok reg i a"
    "kv (final exec (prepareDelivery reg i) s) = kv s"
    by (rule wp_total) simp
  then show ?thesis by (cases a) (simp_all add: routed_ok_def well_routed_def)
qed

theorem router_always_decides_witness:
  "\<exists>a. result ticking_exec (prepareDelivery sample_registry
       (intent_of 15 (sample_call\<lparr>pi_routePolicy := Some WAKE_AND_WAIT\<rparr>) JNull ''exec-1'' ''m2'')) (empty_mock 5, 0) = Inr (Some a)"
  using router_always_decides [OF ticking.sleeping_server_axioms] by blast

end
