(* ===== verification/GroupContracts.thy ===== *)
theory GroupContracts
  imports DispatchProperties
begin

text \<open>
  What a fan-out that is waited for does over an available server: the steps of
  one member, what they leave alone, and the sum over the members.
\<close>


section \<open>What the steps of a member leave alone\<close>

definition known :: "view \<Rightarrow> key_schema \<Rightarrow> string \<Rightarrow> string \<Rightarrow> bool" where
  "known v sch session m \<longleftrightarrow> (\<exists>e. knows_message v sch session m e)"

definition member_frame :: "key_schema \<Rightarrow> string \<Rightarrow> string \<Rightarrow> view \<Rightarrow> view \<Rightarrow> bool" where
  "member_frame sch session gid v v' \<longleftrightarrow> v_hash v' (task_group sch gid) = v_hash v (task_group sch gid)
     \<and> (\<forall>t. somebody_online v' sch t = somebody_online v sch t)
     \<and> (\<forall>p. rw_session p = session \<longrightarrow> waits_for v sch p \<longrightarrow> waits_for v' sch p)
     \<and> (\<forall>m. known v sch session m \<longrightarrow> known v' sch session m)"

lemma frame_refl [simp]: "member_frame sch x g v v"
  by (simp add: member_frame_def)

lemma frame_trans [trans]: "member_frame sch x g v v' \<Longrightarrow> member_frame sch x g v' v'' \<Longrightarrow> member_frame sch x g v v''"
  by (auto simp: member_frame_def)

lemma recorded_frame: "member_frame sch x g v (recorded_view sch ex t v)"
  by (auto simp: member_frame_def somebody_online_def waits_for_def known_def knows_message_def recorded_view_def Let_def)

lemma registered_frame: "member_frame sch x g v (registered_view sch p t v)"
proof -
  have "waits_for v sch q \<Longrightarrow> waits_for (registered_view sch p t v) sch q" for q
    by (auto simp: waits_for_def registered_view_def)
  moreover have "somebody_online (registered_view sch p t v) sch y = somebody_online v sch y" for y
    by (simp add: somebody_online_def registered_markers)
  ultimately show ?thesis
    by (auto simp: member_frame_def known_def knows_message_def)
qed

lemma recorded_known:
  "oget ex ''session_id'' = Some (JStr x) \<Longrightarrow> oget ex ''message_id'' = Some (JStr m) \<Longrightarrow> known (recorded_view sch ex t v) sch x m"
  by (auto simp: known_def knows_message_def recorded_view_def Let_def)

lemma registered_waits: "waits_for (registered_view sch p t v) sch p"
  using registered_present [of sch p t v] by (simp add: waits_for_def)


section \<open>The members\<close>

lemma member_simps [simp]:
  "header (member_command h c g gid True t m) = member_header h c g gid True t m"
  "messageId (member_header h c g gid True t m) = m" "sessionId (member_header h c g gid True t m) = ac_session c"
  "targetAgentType (member_header h c g gid True t m) = gt_target t"
  "parentMessageId (member_header h c g gid True t m) = member_parent c g"
  "sourceAgentType (member_header h c g gid True t m) = ac_agentType c"
  by (simp_all add: member_command_def member_header_def mk_header_def)

lemma member_record_fields [simp]:
  "oget (member_record c (member_command h c g gid True t m) e) ''session_id'' = Some (JStr (ac_session c))"
  "oget (member_record c (member_command h c g gid True t m) e) ''message_id'' = Some (JStr m)"
  "oget (failed_member_record c (member_command h c g gid True t m) e err code) ''session_id'' = Some (JStr (ac_session c))"
  "oget (failed_member_record c (member_command h c g gid True t m) e err code) ''message_id'' = Some (JStr m)"
  by (simp_all add: failed_member_record_def member_record_def execution_record_def)

definition no_taker :: "string \<Rightarrow> member_probe" where
  "no_taker target = \<lparr>mp_ok = False, mp_error = no_worker_text target, mp_errorCode = AGENT_TYPE_NOT_FOUND\<rparr>"

text \<open>The message a reachable member gets, and the stand-in for one that is not.\<close>

definition member_message :: "host \<Rightarrow> agent_context \<Rightarrow> group_params \<Rightarrow> string \<Rightarrow> group_task \<Rightarrow> string \<Rightarrow> key \<times> string" where
  "member_message h c g gid t m = (ctrl_stream (ac_schema c) (gt_target t), command_payload (member_command h c g gid True t m))"

definition member_stand_in :: "host \<Rightarrow> agent_context \<Rightarrow> group_params \<Rightarrow> string \<Rightarrow> group_task \<Rightarrow> string \<Rightarrow> command" where
  "member_stand_in h c g gid t m = stand_in_command
     (undispatched_reply c gid (member_parent c g) m (gt_target t) (member_metadata h t m) (no_taker (gt_target t))) (ac_trace c)"

definition member_wait :: "agent_context \<Rightarrow> group_params \<Rightarrow> string \<Rightarrow> string \<Rightarrow> register_wait_params" where
  "member_wait c g gid m = group_wait c gid (member_parent c g) m (gp_replyTimeout g)"

text \<open>One member done: sent or stood in for, and in both cases recorded and awaited.\<close>

context redis_available
begin

definition member_done :: "host \<Rightarrow> group_params \<Rightarrow> string \<Rightarrow> group_task \<Rightarrow> string \<Rightarrow> agent_context \<Rightarrow> 'a config \<Rightarrow> agent_context \<Rightarrow> 'a config \<Rightarrow> bool" where
  "member_done h g gid t m c \<sigma> c' \<sigma>' \<longleftrightarrow>
     member_frame (ac_schema c) (ac_session c) gid (kv (fst \<sigma>)) (kv (fst \<sigma>'))
     \<and> waits_for (kv (fst \<sigma>')) (ac_schema c) (member_wait c g gid m) \<and> known (kv (fst \<sigma>')) (ac_schema c) (ac_session c) m
     \<and> (if somebody_online (kv (fst \<sigma>)) (ac_schema c) (gt_target t)
        then c' = c \<and> sent (snd \<sigma>') = sent (snd \<sigma>) @ [member_message h c g gid t m]
        else c' = c\<lparr>ac_pending := ac_pending c @ [member_stand_in h c g gid t m]\<rparr> \<and> sent (snd \<sigma>') = sent (snd \<sigma>))"

lemma quiet_recorded: "recorded sch ex \<sigma> \<sigma>' \<Longrightarrow> member_frame sch x g (kv (fst \<sigma>)) (kv (fst \<sigma>'))"
  by (simp add: recorded_def recorded_frame)

lemma entered_frame: "entered sch p \<sigma> \<sigma>' \<Longrightarrow> member_frame sch x g (kv (fst \<sigma>)) (kv (fst \<sigma>')) \<and> waits_for (kv (fst \<sigma>')) sch p"
  by (simp add: entered_def registered_frame registered_waits)

lemma wp_probe:
  assumes "\<And>\<sigma>'. quiet \<sigma> \<sigma>' \<Longrightarrow> Q (if somebody_online (kv (fst \<sigma>)) (ac_schema c) t then reachable else no_taker t) \<sigma>'"
  shows "wp exec (probeGroupMemberOnline c t) Q E \<sigma>"
proof -
  have "Q reachable \<sigma>'" if "somebody_online (kv (fst \<sigma>)) (ac_schema c) t" "quiet \<sigma> \<sigma>'" for \<sigma>'
    using assms [OF that(2)] that(1) by simp
  moreover have "Q (no_taker t) \<sigma>'" if "\<not> somebody_online (kv (fst \<sigma>)) (ac_schema c) t" "quiet \<sigma> \<sigma>'" for \<sigma>'
    using assms [OF that(2)] that(1) by simp
  ultimately show ?thesis
    unfolding probeGroupMemberOnline_def wp_catchP wp_bindP wp_Ret
    by (intro quiet_hasOnlineAgentType) (simp add: context_registry_def no_taker_def)
qed

lemma wp_stand_in_traced:
  assumes "si_trace p \<noteq> []" "si_status p \<noteq> []" and "Q (stand_in_command p (si_trace p)) \<sigma>"
  shows "wp exec (standInReply p) Q E \<sigma>"
  using assms by (simp add: standInReply_def stand_in_command_def check_defs)

lemma wp_send_member:
  assumes h: "silent_host h" and on: "somebody_online (kv (fst \<sigma>0)) (ac_schema c) (gt_target t)" and q0: "quiet \<sigma>0 \<sigma>"
    and Q: "\<And>\<sigma>'. member_done h g gid t m c \<sigma>0 c \<sigma>' \<Longrightarrow> Q () c \<sigma>'"
  shows "wpA exec (send_member h g gid True (member_command h c g gid True t m)) Q E c \<sigma>"
proof -
  let ?cmd = "member_command h c g gid True t m" and ?sch = "ac_schema c"
  have fin: "member_done h g gid t m c \<sigma>0 c \<sigma>6"
    if "quiet \<sigma> \<sigma>1" "recorded ?sch (member_record c ?cmd e) \<sigma>1 \<sigma>2" "entered ?sch (member_wait c g gid m) \<sigma>2 \<sigma>3" "quiet \<sigma>3 \<sigma>4"
      "published (ctrl_stream ?sch (gt_target t)) (command_payload ?cmd) \<sigma>4 \<sigma>5" "quiet \<sigma>5 \<sigma>6" for e \<sigma>1 \<sigma>2 \<sigma>3 \<sigma>4 \<sigma>5 \<sigma>6
  proof -
    have same: "kv (fst \<sigma>1) = kv (fst \<sigma>0)" "kv (fst \<sigma>6) = kv (fst \<sigma>3)"
      using that q0 by (simp_all add: quiet_def published_def)
    have "member_frame ?sch (ac_session c) gid (kv (fst \<sigma>0)) (kv (fst \<sigma>2))"
      using quiet_recorded [OF that(2), of "ac_session c" gid] same by simp
    moreover have "known (kv (fst \<sigma>2)) ?sch (ac_session c) m"
      using that(2) by (simp add: recorded_def recorded_known)
    moreover have "member_frame ?sch (ac_session c) gid (kv (fst \<sigma>2)) (kv (fst \<sigma>3))" "waits_for (kv (fst \<sigma>3)) ?sch (member_wait c g gid m)"
      using entered_frame [OF that(3)] by simp_all
    moreover have "sent (snd \<sigma>6) = sent (snd \<sigma>0) @ [member_message h c g gid t m]"
      using that q0 by (simp add: quiet_def recorded_def entered_def published_def member_message_def)
    ultimately show ?thesis
      unfolding member_done_def same(2) using on frame_trans by (auto simp: member_frame_def)
  qed
  have wait: "group_wait c gid (member_parent c g) (messageId (header ?cmd)) (gp_replyTimeout g) = member_wait c g gid m"
    by (simp add: member_wait_def)
  have pub: "wpA exec (publish_member h gid True ?cmd) Q' E c \<sigma>4"
    if "\<And>\<sigma>5. published (ctrl_stream ?sch (gt_target t)) (command_payload ?cmd) \<sigma>4 \<sigma>5 \<Longrightarrow> Q' () c \<sigma>5" for Q' \<sigma>4
    unfolding publish_member_def wpA_bindA wpA_readA wpA_catchA wpA_liftA id_apply
    by (rule published_xaddP) (use that in simp)
  show ?thesis
    unfolding send_member_def wpA_bindA wpA_readA wpA_liftA wpA_seqA id_apply generateExecutionId_def wp_bindP wp_Ret wait
      wpA_whenA if_True
    apply (rule quiet_uuidP, rule recorded_init, rule entered_register, rule quiet_nowP, rule pub, rule quiet_span [OF h])
    apply (simp only: plain_hook [OF silent_host_simps(1) [OF h]])
    apply (rule Q, rule fin)
    apply assumption+
    done
qed

lemma pending_snoc: "ac_pending_update (\<lambda>rs. rs @ [r]) c = c\<lparr>ac_pending := ac_pending c @ [r]\<rparr>"
  by (cases c) simp

lemma wp_skip_member:
  assumes h: "silent_host h" and off: "\<not> somebody_online (kv (fst \<sigma>0)) (ac_schema c) (gt_target t)" and q0: "quiet \<sigma>0 \<sigma>"
    and c: "ac_agentType c \<noteq> []" "ac_trace c \<noteq> []"
    and Q: "\<And>c' \<sigma>'. member_done h g gid t m c \<sigma>0 c' \<sigma>' \<Longrightarrow> Q () c' \<sigma>'"
  shows "wpA exec (skip_member h g gid t (member_command h c g gid True t m) (no_taker (gt_target t))) Q E c \<sigma>"
proof -
  let ?cmd = "member_command h c g gid True t m" and ?sch = "ac_schema c"
  let ?reply = "undispatched_reply c gid (member_parent c g) m (gt_target t) (member_metadata h t m) (no_taker (gt_target t))"
  let ?c' = "c\<lparr>ac_pending := ac_pending c @ [member_stand_in h c g gid t m]\<rparr>"
  have fin: "member_done h g gid t m c \<sigma>0 ?c' \<sigma>3"
    if "quiet \<sigma> \<sigma>1" "recorded ?sch (failed_member_record c ?cmd e (mp_error p) (mp_errorCode p)) \<sigma>1 \<sigma>2"
      "entered ?sch (member_wait c g gid m) \<sigma>2 \<sigma>3" for e p \<sigma>1 \<sigma>2 \<sigma>3
  proof -
    have same: "kv (fst \<sigma>1) = kv (fst \<sigma>0)" using that q0 by (simp add: quiet_def)
    have "member_frame ?sch (ac_session c) gid (kv (fst \<sigma>0)) (kv (fst \<sigma>2))"
      using quiet_recorded [OF that(2), of "ac_session c" gid] same by simp
    moreover have "known (kv (fst \<sigma>2)) ?sch (ac_session c) m"
      using that(2) by (simp add: recorded_def recorded_known)
    moreover have "member_frame ?sch (ac_session c) gid (kv (fst \<sigma>2)) (kv (fst \<sigma>3))" "waits_for (kv (fst \<sigma>3)) ?sch (member_wait c g gid m)"
      using entered_frame [OF that(3)] by simp_all
    moreover have "sent (snd \<sigma>3) = sent (snd \<sigma>0)"
      using that q0 by (simp add: quiet_def recorded_def entered_def)
    ultimately show ?thesis
      unfolding member_done_def using off frame_trans by (auto simp: member_frame_def)
  qed
  have wait: "group_wait c gid (member_parent c g) m (gp_replyTimeout g) = member_wait c g gid m"
    by (simp add: member_wait_def)
  have queue: "wpA exec (queueUndispatchedMemberFailure gid (member_parent c g) m (gt_target t) (member_metadata h t m)
      (gp_replyTimeout g) (no_taker (gt_target t))) Q' E c \<sigma>2"
    if Q': "\<And>\<sigma>3. entered ?sch (member_wait c g gid m) \<sigma>2 \<sigma>3 \<Longrightarrow> Q' () ?c' \<sigma>3" for Q' \<sigma>2
  proof -
    have st: "si_trace ?reply = ac_trace c" "si_status ?reply \<noteq> []"
      by (simp_all add: undispatched_reply_def state_defs)
    have "wp exec (standInReply ?reply) (\<lambda>r. wpA exec (writeA (ac_pending_update (\<lambda>rs. rs @ [r]))) Q' E c) F \<sigma>3"
      if e: "entered ?sch (member_wait c g gid m) \<sigma>2 \<sigma>3" for F \<sigma>3
      by (rule wp_stand_in_traced) (use st c Q' [OF e] in \<open>simp_all add: member_stand_in_def pending_snoc\<close>)
    then show ?thesis
      unfolding queueUndispatchedMemberFailure_def wpA_bindA wpA_readA wpA_liftA wpA_seqA id_apply wait
      using c by (intro entered_register) simp
  qed
  have head: "messageId (header ?cmd) = m" by simp
  show ?thesis
    unfolding skip_member_def wpA_bindA wpA_readA wpA_liftA wpA_seqA id_apply generateExecutionId_def wp_bindP wp_Ret head
    apply (rule quiet_uuidP, rule recorded_init, rule queue)
    apply (simp only: plain_hook [OF silent_host_simps(1) [OF h]])
    apply (rule Q, rule fin)
    apply assumption+
    done
qed

lemma wp_dispatch_member:
  assumes h: "silent_host h" and c: "ac_agentType c \<noteq> []" "ac_trace c \<noteq> []" and t: "hasContent (Some (JStr (gt_content t)))"
    and Q: "\<And>m c' \<sigma>'. member_done h g gid t m c \<sigma> c' \<sigma>' \<Longrightarrow> Q (m, gt_target t) c' \<sigma>'"
  shows "wpA exec (dispatch_member h g gid True t) Q E c \<sigma>"
proof -
  have check: "check_command (member_command h c g gid True t m) = Inr (member_command h c g gid True t m)" for m
    using t by (simp add: member_command_def check_command_def check_AskAgentCommand_def)
  have "wp exec (probeGroupMemberOnline c (gt_target t)) (\<lambda>pb. wpA exec
      (if mp_ok pb then send_member h g gid True (member_command h c g gid True t m)
       else skip_member h g gid t (member_command h c g gid True t m) pb) (\<lambda>_. Q (m, gt_target t)) E c) F \<sigma>1"
    if q1: "quiet \<sigma> \<sigma>1" for m F \<sigma>1
  proof (rule wp_probe)
    fix \<sigma>2
    assume "quiet \<sigma>1 \<sigma>2"
    with q1 have q2: "quiet \<sigma> \<sigma>2" by (rule quiet_trans)
    have same: "kv (fst \<sigma>1) = kv (fst \<sigma>)" using q1 by (simp add: quiet_def)
    show "wpA exec
      (if mp_ok (if somebody_online (kv (fst \<sigma>1)) (ac_schema c) (gt_target t) then reachable else no_taker (gt_target t))
       then send_member h g gid True (member_command h c g gid True t m)
       else skip_member h g gid t (member_command h c g gid True t m)
         (if somebody_online (kv (fst \<sigma>1)) (ac_schema c) (gt_target t) then reachable else no_taker (gt_target t)))
      (\<lambda>_. Q (m, gt_target t)) E c \<sigma>2"
    proof (cases "somebody_online (kv (fst \<sigma>)) (ac_schema c) (gt_target t)")
      case True
      then have "wpA exec (send_member h g gid True (member_command h c g gid True t m)) (\<lambda>_. Q (m, gt_target t)) E c \<sigma>2"
        by (rule wp_send_member [OF h _ q2]) (rule Q)
      then show ?thesis using True same by (simp add: reachable_def)
    next
      case False
      then have "wpA exec (skip_member h g gid t (member_command h c g gid True t m) (no_taker (gt_target t))) (\<lambda>_. Q (m, gt_target t)) E c \<sigma>2"
        by (rule wp_skip_member [OF h _ q2 c]) (rule Q)
      then show ?thesis using False same by (simp add: no_taker_def)
    qed
  qed
  note probed = this
  show ?thesis
    unfolding dispatch_member_def wpA_bindA wpA_liftA wpA_readA wpA_seqA id_apply generateMessageId_def wp_bindP wp_Ret wpA_doneA
      wpA_checkedA check sum.case if_True plain_hook [OF silent_host_simps(1) [OF h]]
    by (rule quiet_uuidP, rule probed)
qed

end

end
