(* ===== verification/GroupProperties.thy ===== *)
theory GroupProperties
  imports GroupContracts
begin

text \<open>
  A fan-out accounts for each of its members: what was sent, what waits to be
  answered by the caller itself, and the books the joins count against.
\<close>


section \<open>The members of a fan-out\<close>

definition taken :: "view \<Rightarrow> key_schema \<Rightarrow> group_task \<times> string \<Rightarrow> bool" where
  "taken v sch p \<longleftrightarrow> somebody_online v sch (gt_target (fst p))"

definition messages_of :: "host \<Rightarrow> agent_context \<Rightarrow> group_params \<Rightarrow> string \<Rightarrow> view \<Rightarrow> (group_task \<times> string) list \<Rightarrow> (key \<times> string) list" where
  "messages_of h c g gid v ps = map (\<lambda>p. member_message h c g gid (fst p) (snd p)) (filter (taken v (ac_schema c)) ps)"

definition stand_ins_of :: "host \<Rightarrow> agent_context \<Rightarrow> group_params \<Rightarrow> string \<Rightarrow> view \<Rightarrow> (group_task \<times> string) list \<Rightarrow> command list" where
  "stand_ins_of h c g gid v ps =
     map (\<lambda>p. member_stand_in h c g gid (fst p) (snd p)) (filter (\<lambda>p. \<not> taken v (ac_schema c) p) ps)"

lemma members_snoc:
  "messages_of h c g gid v (ps @ [p]) = messages_of h c g gid v ps
     @ (if taken v (ac_schema c) p then [member_message h c g gid (fst p) (snd p)] else [])"
  "stand_ins_of h c g gid v (ps @ [p]) = stand_ins_of h c g gid v ps
     @ (if taken v (ac_schema c) p then [] else [member_stand_in h c g gid (fst p) (snd p)])"
  by (simp_all add: messages_of_def stand_ins_of_def)

lemma members_Nil [simp]: "messages_of h c g gid v [] = []" "stand_ins_of h c g gid v [] = []"
  by (simp_all add: messages_of_def stand_ins_of_def)

text \<open>Neither depends on the parts of the context that a fan-out changes.\<close>

lemma ask_header_frame [simp]:
  "ask_header (c\<lparr>ac_pending := rs\<rparr>) = ask_header c" "ask_header (suspend st c) = ask_header c"
  by (simp_all add: ask_header_def suspend_def)

lemma suspend_frame [simp]:
  "ac_schema (suspend st c) = ac_schema c" "ac_agentType (suspend st c) = ac_agentType c" "ac_trace (suspend st c) = ac_trace c"
  "ac_session (suspend st c) = ac_session c" "ac_message (suspend st c) = ac_message c" "ac_pending (suspend st c) = ac_pending c"
  "ac_observation (suspend st c) = ac_observation c"
  by (simp_all add: suspend_def)

lemma member_frames [simp]:
  "member_parent (c\<lparr>ac_pending := rs\<rparr>) g = member_parent c g" "member_parent (suspend st c) g = member_parent c g"
  "member_message h (c\<lparr>ac_pending := rs\<rparr>) g gid t m = member_message h c g gid t m"
  "member_message h (suspend st c) g gid t m = member_message h c g gid t m"
  "member_stand_in h (c\<lparr>ac_pending := rs\<rparr>) g gid t m = member_stand_in h c g gid t m"
  "member_stand_in h (suspend st c) g gid t m = member_stand_in h c g gid t m"
  "member_wait (c\<lparr>ac_pending := rs\<rparr>) g gid m = member_wait c g gid m"
  "member_wait (suspend st c) g gid m = member_wait c g gid m"
  by (simp_all add: member_message_def member_stand_in_def member_wait_def member_command_def member_header_def
      member_parent_def undispatched_reply_def group_wait_def)

lemma members_frame [simp]:
  "messages_of h (suspend st c) g gid v ps = messages_of h c g gid v ps"
  "stand_ins_of h (suspend st c) g gid v ps = stand_ins_of h c g gid v ps"
  by (simp_all add: messages_of_def stand_ins_of_def)

text \<open>What holds of the members handled so far.\<close>

definition accounted :: "host \<Rightarrow> agent_context \<Rightarrow> group_params \<Rightarrow> string \<Rightarrow> view \<Rightarrow> (group_task \<times> string) list \<Rightarrow> agent_context \<Rightarrow> view \<Rightarrow> bool" where
  "accounted h c g gid v0 ps c' v \<longleftrightarrow> c' = c\<lparr>ac_pending := ac_pending c @ stand_ins_of h c g gid v0 ps\<rparr>
     \<and> member_frame (ac_schema c) (ac_session c) gid v0 v
     \<and> (\<forall>p\<in>set ps. waits_for v (ac_schema c) (member_wait c g gid (snd p)) \<and> known v (ac_schema c) (ac_session c) (snd p))"

lemma member_wait_session [simp]: "rw_session (member_wait c g gid m) = ac_session c"
  by (simp add: member_wait_def group_wait_def)

text \<open>Opening the books.\<close>

definition books :: "agent_context \<Rightarrow> string \<Rightarrow> nat \<Rightarrow> view \<Rightarrow> view" where
  "books c gid n v = (let k = task_group (ac_schema c) gid in
     put_field k ''source_agent_type'' (ac_agentType c) (put_field k TASK_GROUP_FIELD_COMPLETED ''0''
       (put_field k TASK_GROUP_FIELD_TOTAL (nat_str n) v)))"

context redis_available
begin

lemma member_done_accounted:
  assumes acc: "accounted h c g gid v0 ps c' (kv (fst \<sigma>))" and "member_done h g gid t m c' \<sigma> c'' \<sigma>'"
  shows "accounted h c g gid v0 (ps @ [(t, m)]) c'' (kv (fst \<sigma>'))
    \<and> sent (snd \<sigma>') = sent (snd \<sigma>) @ (if taken v0 (ac_schema c) (t, m) then [member_message h c g gid t m] else [])"
proof -
  have c': "c' = c\<lparr>ac_pending := ac_pending c @ stand_ins_of h c g gid v0 ps\<rparr>"
    and up: "somebody_online (kv (fst \<sigma>)) (ac_schema c) (gt_target t) = taken v0 (ac_schema c) (t, m)"
    using acc by (simp_all add: accounted_def member_frame_def taken_def)
  have frame: "member_frame (ac_schema c) (ac_session c) gid (kv (fst \<sigma>)) (kv (fst \<sigma>'))"
    and new: "waits_for (kv (fst \<sigma>')) (ac_schema c) (member_wait c g gid m) \<and> known (kv (fst \<sigma>')) (ac_schema c) (ac_session c) m"
    and rest: "c'' = c\<lparr>ac_pending := ac_pending c @ stand_ins_of h c g gid v0 (ps @ [(t, m)])\<rparr>"
      "sent (snd \<sigma>') = sent (snd \<sigma>) @ (if taken v0 (ac_schema c) (t, m) then [member_message h c g gid t m] else [])"
    using assms(2) by (simp_all add: member_done_def c' up members_snoc split: if_splits)
  have "\<forall>p\<in>set ps. waits_for (kv (fst \<sigma>')) (ac_schema c) (member_wait c g gid (snd p)) \<and> known (kv (fst \<sigma>')) (ac_schema c) (ac_session c) (snd p)"
    using acc frame by (simp add: accounted_def member_frame_def)
  moreover have "member_frame (ac_schema c) (ac_session c) gid v0 (kv (fst \<sigma>'))"
    using acc frame by (auto simp: accounted_def intro: frame_trans)
  ultimately show ?thesis using new rest by (simp add: accounted_def)
qed

lemma wp_members:
  assumes h: "silent_host h" and c: "ac_agentType c \<noteq> []" "ac_trace c \<noteq> []"
    and ts: "\<forall>t\<in>set ts. hasContent (Some (JStr (gt_content t)))"
    and Q: "\<And>acc c' \<sigma>'. map snd acc = map gt_target ts \<Longrightarrow> accounted h c g gid (kv (fst \<sigma>)) (zip ts (map fst acc)) c' (kv (fst \<sigma>')) \<Longrightarrow>
      sent (snd \<sigma>') = sent (snd \<sigma>) @ messages_of h c g gid (kv (fst \<sigma>)) (zip ts (map fst acc)) \<Longrightarrow> Q acc c' \<sigma>'"
  shows "wpA exec (foldA (\<lambda>dispatched t. bindA (dispatch_member h g gid True t) (\<lambda>d. doneA (dispatched @ [d]))) [] ts) Q E c \<sigma>"
proof -
  let ?I = "\<lambda>ys acc c' \<sigma>'. map snd acc = map gt_target ys \<and> accounted h c g gid (kv (fst \<sigma>)) (zip ys (map fst acc)) c' (kv (fst \<sigma>'))
      \<and> sent (snd \<sigma>') = sent (snd \<sigma>) @ messages_of h c g gid (kv (fst \<sigma>)) (zip ys (map fst acc))"
  have "wpA exec (foldA (\<lambda>dispatched t. bindA (dispatch_member h g gid True t) (\<lambda>d. doneA (dispatched @ [d]))) [] ts)
      (\<lambda>acc. ?I ts acc) E c \<sigma>"
  proof (rule wpA_foldA_inv)
    fix ys x zs acc c' \<sigma>'
    assume xs: "ts = ys @ x # zs" and I: "?I ys acc c' \<sigma>'"
    then have len: "length ys = length (map fst acc)" by (metis length_map)
    have c': "ac_agentType c' \<noteq> []" "ac_trace c' \<noteq> []" using I c by (simp_all add: accounted_def)
    show "wpA exec (bindA (dispatch_member h g gid True x) (\<lambda>d. doneA (acc @ [d]))) (\<lambda>acc'. ?I (ys @ [x]) acc') E c' \<sigma>'"
      unfolding wpA_bindA wpA_doneA
    proof (rule wp_dispatch_member [OF h c'])
      fix m c'' \<sigma>''
      assume "member_done h g gid x m c' \<sigma>' c'' \<sigma>''"
      with I have "accounted h c g gid (kv (fst \<sigma>)) (zip ys (map fst acc) @ [(x, m)]) c'' (kv (fst \<sigma>''))"
        "sent (snd \<sigma>'') = sent (snd \<sigma>') @ (if taken (kv (fst \<sigma>)) (ac_schema c) (x, m) then [member_message h c g gid x m] else [])"
        using member_done_accounted [of h c g gid "kv (fst \<sigma>)" "zip ys (map fst acc)" c' \<sigma>'] by blast+
      then show "?I (ys @ [x]) (acc @ [(m, gt_target x)]) c'' \<sigma>''"
        using I by (simp add: zip_append [OF len] members_snoc)
    qed (use xs ts in simp)
  qed (simp add: accounted_def)
  then show ?thesis by (rule wpA_mono) (use Q in auto)
qed

lemma wp_open_group:
  assumes "\<And>\<sigma>'. kv (fst \<sigma>') = books c gid n (kv (fst \<sigma>)) \<Longrightarrow> sent (snd \<sigma>') = sent (snd \<sigma>) \<Longrightarrow> Q () \<sigma>'"
  shows "wp exec (open_group c gid n) Q E \<sigma>"
proof (cases \<sigma>)
  case (Pair s l)
  show ?thesis
    unfolding Pair open_group_def Let_def wp_seqP wp_bindP
    by (rule wp_hsetP, rule wp_hsetP, rule wp_hsetP, rule wp_expireP)
       (auto simp: TASK_GROUP_TTL_SECONDS_def books_def Let_def Pair intro!: assms)
qed

end

lemma books_simps [simp]:
  "v_hash (books c gid n v) (task_group (ac_schema c) gid) TASK_GROUP_FIELD_TOTAL = Some (nat_str n)"
  "v_hash (books c gid n v) (task_group (ac_schema c) gid) TASK_GROUP_FIELD_COMPLETED = Some ''0''"
  "v_hash (books c gid n v) (task_group (ac_schema c) gid) TASK_GROUP_FIELD_ABORTED =
     v_hash v (task_group (ac_schema c) gid) TASK_GROUP_FIELD_ABORTED"
  "taken (books c gid n v) sch = taken v sch"
  by (simp_all add: fun_eq_iff books_def Let_def taken_def somebody_online_def TASK_GROUP_FIELD_TOTAL_def TASK_GROUP_FIELD_COMPLETED_def
      TASK_GROUP_FIELD_ABORTED_def)

lemma members_books [simp]:
  "messages_of h c g gid (books c' gid' n v) ps = messages_of h c g gid v ps"
  "stand_ins_of h c g gid (books c' gid' n v) ps = stand_ins_of h c g gid v ps"
  by (simp_all add: messages_of_def stand_ins_of_def)


section \<open>The fan-out\<close>

text \<open>
  C17. A fan-out that is waited for accounts for every member. Each member is
  recorded and awaited; those somebody is online for are sent their command, in
  order, and those nobody can take get their stand-in queued in the caller, who is
  suspended. The books open with as many members as there are tasks and none
  completed, so that the joins count every one of them.
\<close>

theorem group_fully_accounted:
  assumes avail: "redis_available exec kv oth clk" and h: "silent_host h"
    and g: "opt_or (gp_waitForReply g) True" "gp_tasks g \<noteq> []" "\<forall>t\<in>set (gp_tasks g). hasContent (Some (JStr (gt_content t)))"
    and c: "ac_agentType c \<noteq> []" "ac_trace c \<noteq> []"
  shows "\<exists>gid ids c' s' l ps. act_run exec (dispatchGroup h g) c s =
      ((Inr \<lparr>gd_status = ''GROUP_QUEUED'', gd_group = gid, gd_tasks = zip ids (map gt_target (gp_tasks g))\<rparr>, c'), (s', l))
    \<and> length ids = length (gp_tasks g) \<and> ps = zip (gp_tasks g) ids
    \<and> sent l = messages_of h c g gid (kv s) ps
    \<and> c' = (suspend WAITING_AGENT c)\<lparr>ac_pending := ac_pending c @ stand_ins_of h c g gid (kv s) ps\<rparr>
    \<and> (\<forall>p\<in>set ps. waits_for (kv s') (ac_schema c) (member_wait c g gid (snd p)) \<and> known (kv s') (ac_schema c) (ac_session c) (snd p))
    \<and> v_hash (kv s') (task_group (ac_schema c) gid) TASK_GROUP_FIELD_TOTAL = Some (nat_str (length (gp_tasks g)))
    \<and> v_hash (kv s') (task_group (ac_schema c) gid) TASK_GROUP_FIELD_COMPLETED = Some ''0''
    \<and> v_hash (kv s') (task_group (ac_schema c) gid) TASK_GROUP_FIELD_ABORTED =
        v_hash (kv s) (task_group (ac_schema c) gid) TASK_GROUP_FIELD_ABORTED"
proof -
  let ?n = "length (gp_tasks g)" and ?ts = "gp_tasks g" and ?sc = "suspend WAITING_AGENT c"
  define Q where "Q = (\<lambda>d c' \<sigma>'. \<exists>gid acc. d = \<lparr>gd_status = ''GROUP_QUEUED'', gd_group = gid, gd_tasks = acc\<rparr>
    \<and> map snd acc = map gt_target ?ts
    \<and> accounted h ?sc g gid (books c gid ?n (kv s)) (zip ?ts (map fst acc)) c' (kv (fst \<sigma>'))
    \<and> sent (snd \<sigma>') = messages_of h ?sc g gid (books c gid ?n (kv s)) (zip ?ts (map fst acc)))"
  have ends: "wpA exec (bindA (readA id) (\<lambda>c. seqA (liftA (record_span h (group_span c gid ?n True start)))
      (doneA \<lparr>gd_status = ''GROUP_QUEUED'', gd_group = gid, gd_tasks = acc\<rparr>))) Q (\<lambda>_ _ _. False) c' \<sigma>2"
    if "map snd acc = map gt_target ?ts"
      "accounted h ?sc g gid (books c gid ?n (kv s)) (zip ?ts (map fst acc)) c' (kv (fst \<sigma>2))"
      "sent (snd \<sigma>2) = messages_of h ?sc g gid (books c gid ?n (kv s)) (zip ?ts (map fst acc))" for gid start acc c' \<sigma>2
    unfolding wpA_bindA wpA_readA wpA_seqA wpA_liftA wpA_doneA id_apply
    by (rule redis_available.quiet_span [OF avail h]) (use that in \<open>auto simp: Q_def redis_available.quiet_def [OF avail]\<close>)
  have books: "wp exec (open_group c gid ?n) (\<lambda>_. wpA exec (foldA (\<lambda>dispatched t. bindA (dispatch_member h g gid True t)
        (\<lambda>d. doneA (dispatched @ [d]))) [] ?ts) (\<lambda>acc c' \<sigma>'. wpA exec (bindA (readA id) (\<lambda>c.
          seqA (liftA (record_span h (group_span c gid ?n True start)))
            (doneA \<lparr>gd_status = ''GROUP_QUEUED'', gd_group = gid, gd_tasks = acc\<rparr>))) Q (\<lambda>_ _ _. False) c' \<sigma>')
        (\<lambda>_ _ _. False) ?sc) F \<sigma>1"
    if "redis_available.quiet kv oth clk (s, []) \<sigma>1" for gid start F \<sigma>1
  proof (rule redis_available.wp_open_group [OF avail], rule redis_available.wp_members [OF avail h], goal_cases)
    case (4 \<sigma>2 acc c' \<sigma>3)
    then show ?case using that by (intro ends) (simp_all add: redis_available.quiet_def [OF avail])
  qed (use c g in simp_all)
  have run: "dispatchGroup h g = bindA (liftA uuidP) (\<lambda>u. bindA (liftA nowP) (\<lambda>start. seqA (begin_group (''tg-'' @ take 8 u) ?n True)
      (bindA (foldA (\<lambda>dispatched t. bindA (dispatch_member h g (''tg-'' @ take 8 u) True t) (\<lambda>d. doneA (dispatched @ [d]))) [] ?ts)
        (\<lambda>acc. bindA (readA id) (\<lambda>c. seqA (liftA (record_span h (group_span c (''tg-'' @ take 8 u) ?n True start)))
          (doneA \<lparr>gd_status = ''GROUP_QUEUED'', gd_group = ''tg-'' @ take 8 u, gd_tasks = acc\<rparr>))))))"
    using g by (simp add: dispatchGroup_def Let_def)
  have "wpA exec (dispatchGroup h g) Q (\<lambda>_ _ _. False) c (s, [])"
    unfolding run begin_group_def if_True wpA_bindA [of exec "liftA nowP"] wpA_bindA [of exec "liftA uuidP"] wpA_seqA wpA_bindA [of exec "readA id"]
      wpA_bindA [of exec "foldA f a xs" for f a xs] wpA_readA wpA_liftA id_apply wpA_writeA
    by (rule redis_available.quiet_uuidP [OF avail], rule redis_available.quiet_nowP [OF avail],
        rule books [unfolded wpA_bindA [of exec "readA id"] wpA_readA wpA_seqA wpA_liftA id_apply],
        erule (1) redis_available.quiet_trans [OF avail])
  from act_run_total [OF this] obtain d c' s' l where out: "act_run exec (dispatchGroup h g) c s = ((Inr d, c'), (s', l))"
    and "Q d c' (s', l)" .
  then obtain gid acc where acc: "d = \<lparr>gd_status = ''GROUP_QUEUED'', gd_group = gid, gd_tasks = acc\<rparr>" "map snd acc = map gt_target ?ts"
    "accounted h ?sc g gid (books c gid ?n (kv s)) (zip ?ts (map fst acc)) c' (kv s')"
    "sent l = messages_of h ?sc g gid (books c gid ?n (kv s)) (zip ?ts (map fst acc))"
    unfolding Q_def by auto
  have "zip (map fst acc) (map gt_target ?ts) = acc" "length (map fst acc) = ?n"
    using acc(2) by (metis zip_map_fst_snd, metis length_map)
  then show ?thesis
    using out acc(1,3,4)
    by (intro exI [of _ gid] exI [of _ "map fst acc"] exI [of _ c'] exI [of _ s'] exI [of _ l]) (auto simp: accounted_def member_frame_def)
qed

definition sample_fan_out :: group_params where
  "sample_fan_out = \<lparr>gp_tasks = [\<lparr>gt_target = ''helper'', gt_content = ''go'', gt_payload = [], gt_metadata = []\<rparr>,
     \<lparr>gt_target = ''nobody'', gt_content = ''go'', gt_payload = [], gt_metadata = []\<rparr>],
     gp_waitForReply = None, gp_parent = [], gp_replyTimeout = None\<rparr>"

text \<open>Nobody is online on the empty server: both members are stood in for, and nothing is sent.\<close>

theorem group_fully_accounted_witness:
  "\<exists>gid c' s' l. act_run mock_exec (dispatchGroup idle_host sample_fan_out) sample_boss (empty_mock 5) =
      ((Inr gid, c'), (s', l)) \<and> sent l = [] \<and> length (ac_pending c') = 2 \<and> ac_isSuspended c'"
proof -
  have c: "ac_agentType sample_boss \<noteq> []" "ac_trace sample_boss \<noteq> []" "ac_pending sample_boss = []"
    by (simp_all add: sample_boss_def new_AgentContext_def)
  have off: "\<not> taken (mock_view (empty_mock 5)) sch p" for sch p
    by (simp add: taken_def somebody_online_def empty_mock_def mock_view_def presence_online_def)
  have g: "opt_or (gp_waitForReply sample_fan_out) True" "gp_tasks sample_fan_out \<noteq> []"
    "\<forall>t\<in>set (gp_tasks sample_fan_out). hasContent (Some (JStr (gt_content t)))" "length (gp_tasks sample_fan_out) = 2"
    by (simp_all add: sample_fan_out_def opt_or_def)
  obtain gid ids c' s' l ps where out: "act_run mock_exec (dispatchGroup idle_host sample_fan_out) sample_boss (empty_mock 5) =
      ((Inr \<lparr>gd_status = ''GROUP_QUEUED'', gd_group = gid, gd_tasks = zip ids (map gt_target (gp_tasks sample_fan_out))\<rparr>, c'), (s', l))"
    and len: "length ids = length (gp_tasks sample_fan_out)" "ps = zip (gp_tasks sample_fan_out) ids"
    and sent: "sent l = messages_of idle_host sample_boss sample_fan_out gid (mock_view (empty_mock 5)) ps"
    and c': "c' = (suspend WAITING_AGENT sample_boss)\<lparr>ac_pending := ac_pending sample_boss
        @ stand_ins_of idle_host sample_boss sample_fan_out gid (mock_view (empty_mock 5)) ps\<rparr>"
    using group_fully_accounted [OF mock_server.redis_available_axioms idle_silent g(1-3) c(1,2), of "empty_mock 5"] by blast
  have "sent l = []" "length (ac_pending c') = 2" "ac_isSuspended c'"
    using len sent g(4) c(3) off by (simp_all add: c' messages_of_def stand_ins_of_def suspend_def)
  then show ?thesis using out by blast
qed

end
