(* ===== verification/ByaiClient.thy ===== *)
theory ByaiClient
  imports Client
begin

text \<open>
  The client that brings its own interceptor (src/byai_client.ts). Its `sendMessage`
  runs the interceptors on the parameters and then calls that of `GatewayClient`,
  which runs them again on the fields it reads. An interceptor is given by what
  its `beforeSend` does to either object and by its `afterSend`.
\<close>

record interceptor =
  ic_params :: "send_params \<Rightarrow> js_error + send_params"
  ic_request :: "request \<Rightarrow> js_error + request"
  ic_after :: "send_response \<Rightarrow> js_error + send_response"

definition byai_params :: "send_params \<Rightarrow> js_error + send_params" where
  "byai_params p = Inr (if sp_content p = JNull then p else p\<lparr>sp_content := formatContent (sp_content p)\<rparr>)"

definition byai_interceptor :: interceptor where
  "byai_interceptor = \<lparr>ic_params = byai_params, ic_request = ByaiMessageInterceptor, ic_after = Inr\<rparr>"

record byai_client =
  bc_client :: client
  bc_interceptors :: "interceptor list"

text \<open>The constructor: the given client is what `super` makes of the registry and the connection.\<close>

definition new_ByaiGatewayClient :: "interceptor list \<Rightarrow> client \<Rightarrow> byai_client" where
  "new_ByaiGatewayClient extra gc = (let ics = byai_interceptor # extra in
     \<lparr>bc_client = gc\<lparr>gc_interceptors := List.map ic_request ics\<rparr>, bc_interceptors = ics\<rparr>)"

primrec pass_through :: "('a \<Rightarrow> js_error + 'a) list \<Rightarrow> 'a \<Rightarrow> js_error + 'a" where
  "pass_through [] x = Inr x"
| "pass_through (f # fs) x = (case f x of Inl e \<Rightarrow> Inl e | Inr y \<Rightarrow> pass_through fs y)"

definition byai_sendMessage :: "byai_client \<Rightarrow> send_params \<Rightarrow> send_response option prog" where
  "byai_sendMessage bc p = (case pass_through (List.map ic_params (bc_interceptors bc)) p of
     Inl e \<Rightarrow> Raise e
   | Inr p' \<Rightarrow> bindP (sendMessage (bc_client bc) p') (\<lambda>r. case r of
         None \<Rightarrow> Ret None
       | Some response \<Rightarrow> (case pass_through (List.map ic_after (bc_interceptors bc)) response of
             Inl e \<Rightarrow> Raise e | Inr response' \<Rightarrow> Ret (Some response'))))"


section \<open>Formatting twice\<close>

lemma extractObjects_twice: "extractObjects (Some (extractObjects x)) = extractObjects x"
  by (auto simp: extractObjects_def is_object_def split: option.splits json.splits)

lemma intercepted_content_twice: "intercepted_content (intercepted_content c) = intercepted_content c"
proof -
  have "js_or (Some (js_or x (JStr []))) (JStr []) = js_or x (JStr [])" for x
    by (auto simp: js_or_def opt_truthy_def split: option.splits)
  then show ?thesis by (simp add: intercepted_content_def is_object_def extractObjects_twice)
qed

lemma intercepted_message_twice: "intercepted_message (intercepted_message m) = intercepted_message m"
  by (cases "jget m ''role''"; cases "jget m ''content''")
    (simp_all add: intercepted_message_def is_object_def field_entry_def intercepted_content_twice)

lemma formatContent_twice: "formatContent (formatContent c) = formatContent c"
  by (cases c) (simp_all add: formatContent_def intercepted_message_twice)

lemma formatContent_not_null: "formatContent c \<noteq> JNull"
  by (cases c) (simp_all add: formatContent_def)

lemma bindP_Ret_option: "bindP p (\<lambda>r. case r of None \<Rightarrow> Ret None | Some x \<Rightarrow> Ret (Some x)) = p"
proof (induction p)
  case (Ret a)
  then show ?case by (cases a) simp_all
qed auto

lemma first_request_content: "first_request (p\<lparr>sp_content := c\<rparr>) = (first_request p)\<lparr>rq_content := c\<rparr>"
  by (simp add: first_request_def)


text \<open>Nothing but the interceptors looks at the content of the parameters.\<close>

lemma params_content:
  "first_route gc (p\<lparr>sp_content := c\<rparr>) = first_route gc p"
  "route_refused (p\<lparr>sp_content := c\<rparr>) = route_refused p"
  "send_header gc (p\<lparr>sp_content := c\<rparr>) = send_header gc p"
  "send_policy (p\<lparr>sp_content := c\<rparr>) = send_policy p"
  by (auto intro!: ext simp add: first_route_def requires_online_def route_refused_def send_header_def send_policy_def cong: if_cong)

lemma records_content:
  "send_intent (p\<lparr>sp_content := c\<rparr>) = send_intent p" "sent_record (p\<lparr>sp_content := c\<rparr>) = sent_record p"
  "refused_record (p\<lparr>sp_content := c\<rparr>) = refused_record p" "client_span co (p\<lparr>sp_content := c\<rparr>) = client_span co p"
  by (auto intro!: ext simp add: send_intent_def sent_record_def refused_record_def client_span_def params_content cong: if_cong)

lemma programs_content:
  "publish_message gc (p\<lparr>sp_content := c\<rparr>) = publish_message gc p" "send_refused gc (p\<lparr>sp_content := c\<rparr>) = send_refused gc p"
  by (auto intro!: ext simp add: publish_message_def send_refused_def records_content)

lemma send_built_content: "send_built gc (p\<lparr>sp_content := c\<rparr>) = send_built gc p"
proof -
  have "dispatch_message gc (p\<lparr>sp_content := c\<rparr>) = dispatch_message gc p"
    by (intro ext, simp add: dispatch_message_def programs_content records_content cong: if_cong option.case_cong)
  then show ?thesis by (intro ext, simp add: send_built_def cong: if_cong option.case_cong)
qed

lemma sendMessage_content:
  assumes "runInterceptors (gc_interceptors gc) (first_request (p\<lparr>sp_content := c\<rparr>)) = runInterceptors (gc_interceptors gc) (first_request p)"
  shows "sendMessage gc (p\<lparr>sp_content := c\<rparr>) = sendMessage gc p"
  unfolding sendMessage_def assms by (simp add: params_content send_built_content cong: if_cong sum.case_cong)

text \<open>
  With only its own interceptor the client sends what `GatewayClient` with that
  interceptor sends, although it applies it twice: formatting a content that has
  been formatted changes nothing.
\<close>

lemma byai_client_equivalent:
  "byai_sendMessage (new_ByaiGatewayClient [] gc) p = sendMessage (gc\<lparr>gc_interceptors := [ByaiMessageInterceptor]\<rparr>) p"
proof -
  let ?gc = "gc\<lparr>gc_interceptors := [ByaiMessageInterceptor]\<rparr>"
  obtain p' where p': "byai_params p = Inr p'" by (simp add: byai_params_def)
  have content: "p' = p\<lparr>sp_content := sp_content p'\<rparr>"
    using p' by (auto simp: byai_params_def split: if_splits)
  have "ByaiMessageInterceptor (first_request p') = ByaiMessageInterceptor (first_request p)"
    using p' by (auto simp: byai_params_def ByaiMessageInterceptor_def first_request_def formatContent_twice formatContent_not_null split: if_splits)
  then have "runInterceptors [ByaiMessageInterceptor] (first_request p') = runInterceptors [ByaiMessageInterceptor] (first_request p)"
    by simp
  then have "sendMessage ?gc p' = sendMessage ?gc p"
    using sendMessage_content [where gc = ?gc and p = p and c = "sp_content p'"] content by simp
  then show ?thesis
    using p' by (simp add: byai_sendMessage_def new_ByaiGatewayClient_def byai_interceptor_def Let_def bindP_Ret_option)
qed

text \<open>Any other interceptor acts twice: here one that prefixes the user's name.\<close>

definition prefixing :: interceptor where
  "prefixing = \<lparr>ic_params = (\<lambda>p. Inr (p\<lparr>sp_userName := CHR ''x'' # sp_userName p\<rparr>)),
     ic_request = (\<lambda>rq. Inr (rq\<lparr>rq_userName := CHR ''x'' # rq_userName rq\<rparr>)), ic_after = Inr\<rparr>"

lemma intercepted_twice_example:
  assumes "pass_through (List.map ic_params (bc_interceptors (new_ByaiGatewayClient [prefixing] gc))) p = Inr p'"
    "runInterceptors (gc_interceptors (bc_client (new_ByaiGatewayClient [prefixing] gc))) (first_request p') = Inr rq"
  shows "rq_userName rq = ''xx'' @ sp_userName p"
  using assms
  by (auto simp: new_ByaiGatewayClient_def Let_def byai_interceptor_def prefixing_def byai_params_def ByaiMessageInterceptor_def first_request_def
      split: if_splits)

end
