(* ===== verification/Health.thy ===== *)
theory Health
  imports Actions Keys "HOL-Library.Sublist"
begin

text \<open>
  When a runner may take on work (the health part of src/runner.ts): three
  signals, the states normal, degraded and fatal they are folded into, and the
  check of the heartbeat's timing at startup.

  The set of tasks in flight enters by its size. The ratio 0.8 is compared as
  the fraction 4/5.
\<close>


section \<open>Constants\<close>

definition LOOP_LAG_PROBE_MS :: int where "LOOP_LAG_PROBE_MS = 1000"
definition consumerHealthTimeoutMs :: int where "consumerHealthTimeoutMs = 30000"


section \<open>Signals and states\<close>

datatype health_state = Normal | Degraded | Fatal

record health =
  hl_state :: health_state
  hl_degradedSince :: millis
  hl_healthyStreak :: nat
  hl_lastRenewOk :: millis
  hl_peakLoopLag :: millis
  hl_lastConsumerTick :: millis
  hl_inFlight :: nat
  hl_maxConcurrency :: nat
  hl_leaseTtlSeconds :: int

definition new_health :: "nat \<Rightarrow> int \<Rightarrow> health" where
  "new_health maxConcurrency leaseTtlSeconds =
     \<lparr>hl_state = Normal, hl_degradedSince = 0, hl_healthyStreak = 0, hl_lastRenewOk = 0, hl_peakLoopLag = 0,
      hl_lastConsumerTick = 0, hl_inFlight = 0, hl_maxConcurrency = maxConcurrency, hl_leaseTtlSeconds = leaseTtlSeconds\<rparr>"

text \<open>The last renewal lies further back than RENEW_STALENESS_RATIO of the lease.\<close>

definition renewal_stale :: "health \<Rightarrow> millis \<Rightarrow> bool" where
  "renewal_stale h now \<longleftrightarrow> hl_lastRenewOk h \<noteq> 0 \<and> 4 * (hl_leaseTtlSeconds h * 1000) < 5 * (now - hl_lastRenewOk h)"

definition isHealthy :: "health \<Rightarrow> millis \<Rightarrow> bool" where
  "isHealthy h now \<longleftrightarrow>
     (if renewal_stale h now then False
      else if LOOP_LAG_UNHEALTHY_MS < hl_peakLoopLag h then False
      else if hl_lastConsumerTick h = 0 then True
      else if now - hl_lastConsumerTick h < consumerHealthTimeoutMs then True
      else hl_maxConcurrency h \<le> hl_inFlight h)"

text \<open>One sample of the event-loop probe, and its end.\<close>

definition probe_lag :: "millis \<Rightarrow> millis \<Rightarrow> health \<Rightarrow> health" where
  "probe_lag now expected h = h\<lparr>hl_peakLoopLag := max (hl_peakLoopLag h) (now - expected)\<rparr>"

definition stopEventLoopProbe :: "health \<Rightarrow> health" where
  "stopEventLoopProbe h = h\<lparr>hl_peakLoopLag := 0\<rparr>"

text \<open>The state a verdict leads to; the answer is whether the heartbeat goes on.\<close>

definition judge :: "bool \<Rightarrow> millis \<Rightarrow> health \<Rightarrow> bool \<times> health" where
  "judge healthy now h0 =
     (let h = h0\<lparr>hl_peakLoopLag := 0\<rparr> in
      if healthy then
        (True, if hl_state h = Degraded
           then (if DEGRADED_RECOVERY_CHECKS \<le> hl_healthyStreak h + 1
                 then h\<lparr>hl_state := Normal, hl_degradedSince := 0, hl_healthyStreak := 0\<rparr>
                 else h\<lparr>hl_healthyStreak := hl_healthyStreak h + 1\<rparr>)
           else h)
      else
        (let h1 = h\<lparr>hl_healthyStreak := 0\<rparr> in
         if hl_state h1 = Normal then (True, h1\<lparr>hl_state := Degraded, hl_degradedSince := now\<rparr>)
         else if DEGRADED_MAX_MS \<le> now - hl_degradedSince h1 then (False, h1\<lparr>hl_state := Fatal\<rparr>)
         else (True, h1)))"

text \<open>The clock is read twice: for the verdict and for the state.\<close>

definition evaluateHealth :: "(health, bool) act" where
  "evaluateHealth = bindA (readA hl_state) (\<lambda>st.
     if st = Fatal then doneA False
     else bindA (liftA nowP) (\<lambda>seen. bindA (readA (\<lambda>h. isHealthy h seen)) (\<lambda>healthy.
       bindA (liftA nowP) (\<lambda>now. bindA (readA (judge healthy now)) (\<lambda>(goes_on, h').
         seqA (writeA (\<lambda>_. h')) (doneA goes_on))))))"

definition fence :: "health \<Rightarrow> health" where
  "fence h = h\<lparr>hl_state := Fatal\<rparr>"


section \<open>Heartbeat timing\<close>

text \<open>A number of seconds as given: finite, or one of the others with its text.\<close>

datatype seconds = Finite int | NotFinite string

definition seconds_text :: "seconds \<Rightarrow> string" where
  "seconds_text x = (case x of Finite n \<Rightarrow> int_str n | NotFinite s \<Rightarrow> s)"

definition positive :: "seconds \<Rightarrow> bool" where
  "positive x \<longleftrightarrow> (case x of Finite n \<Rightarrow> 0 < n | NotFinite s \<Rightarrow> False)"

definition seconds_of :: "seconds \<Rightarrow> int" where
  "seconds_of x = (case x of Finite n \<Rightarrow> n | NotFinite s \<Rightarrow> 0)"

text \<open>The error of a timing that cannot keep a lease alive, up to the figure it recommends.\<close>

definition assertHeartbeatTiming :: "seconds \<Rightarrow> seconds \<Rightarrow> js_error option" where
  "assertHeartbeatTiming interval ttl =
     (if \<not> positive interval
      then Some (HeartbeatConfigError (''Heartbeat interval must be a positive number of seconds, got '' @ seconds_text interval))
      else if \<not> positive ttl
      then Some (HeartbeatConfigError (''Heartbeat lease TTL must be a positive number of seconds, got '' @ seconds_text ttl))
      else if seconds_of ttl < seconds_of interval * int MIN_RENEWALS_PER_LEASE
      then Some (HeartbeatConfigError (''Heartbeat interval '' @ seconds_text interval @ ''s is too long for a '' @ seconds_text ttl
        @ ''s lease: at least '' @ nat_str MIN_RENEWALS_PER_LEASE @ '' renewals must fit inside one lease''))
      else None)"

text \<open>A timing that passes lets the lease survive two renewals that fail in a row.\<close>

lemma timing_survives_two_failures:
  assumes "assertHeartbeatTiming (Finite interval) (Finite ttl) = None" "0 \<le> missed" "missed \<le> 2"
  shows "0 < interval \<and> (missed + 1) * interval \<le> ttl"
proof -
  have "0 < interval" "interval * 3 \<le> ttl"
    using assms(1) by (auto simp: assertHeartbeatTiming_def positive_def seconds_of_def MIN_RENEWALS_PER_LEASE_def split: if_splits)
  moreover have "(missed + 1) * interval \<le> 3 * interval"
    by (rule mult_right_mono) (use assms(3) \<open>0 < interval\<close> in simp_all)
  ultimately show ?thesis by linarith
qed


section \<open>Histories\<close>

text \<open>
  What can happen to the health of a runner: signals change, the heartbeat
  checks, another instance takes over the worker id. The history keeps the
  checks, with the time the state was judged at, and the takeovers.
\<close>

datatype health_event = Checked millis bool | Fenced

definition same_judgement :: "health \<Rightarrow> health \<Rightarrow> bool" where
  "same_judgement h h' \<longleftrightarrow> hl_state h' = hl_state h \<and> hl_degradedSince h' = hl_degradedSince h
     \<and> hl_healthyStreak h' = hl_healthyStreak h"

inductive health_run :: "health \<Rightarrow> health_event list \<Rightarrow> health \<Rightarrow> bool" for h0 where
  fresh: "health_run h0 [] h0"
| signal: "health_run h0 es h \<Longrightarrow> same_judgement h h' \<Longrightarrow> health_run h0 es h'"
| check: "health_run h0 es h \<Longrightarrow> hl_state h \<noteq> Fatal \<Longrightarrow>
    health_run h0 (es @ [Checked now (isHealthy h seen)]) (snd (judge (isHealthy h seen) now h))"
| fenced: "health_run h0 es h \<Longrightarrow> health_run h0 (es @ [Fenced]) (fence h)"

definition verdicts :: "health_event list \<Rightarrow> bool list" where
  "verdicts es = List.map_filter (\<lambda>e. case e of Checked t b \<Rightarrow> Some b | Fenced \<Rightarrow> None) es"

lemma verdicts_simps [simp]:
  "verdicts [] = []" "verdicts (Checked t b # es) = b # verdicts es" "verdicts (Fenced # es) = verdicts es"
  "verdicts (es @ es') = verdicts es @ verdicts es'"
  by (simp_all add: verdicts_def List.map_filter_def)

text \<open>No run of healthy checks long enough to recover; and how long the current one is.\<close>

definition calm :: "bool list \<Rightarrow> bool" where
  "calm bs \<longleftrightarrow> \<not> sublist (replicate DEGRADED_RECOVERY_CHECKS True) bs"

definition trailing :: "bool list \<Rightarrow> nat" where
  "trailing bs = length (takeWhile id (rev bs))"

lemma trailing_simps [simp]:
  "trailing [] = 0" "trailing (bs @ [True]) = Suc (trailing bs)" "trailing (bs @ [False]) = 0"
  by (simp_all add: trailing_def)

lemma calm_Nil [simp]: "calm []"
  by (simp add: calm_def DEGRADED_RECOVERY_CHECKS_def)

lemma suffix_trailing: "suffix (replicate n True) bs \<Longrightarrow> n \<le> trailing bs"
proof (induction n arbitrary: bs)
  case (Suc n)
  then obtain zs where bs: "bs = zs @ replicate (Suc n) True" by (auto simp: suffix_def)
  then have "bs = (zs @ replicate n True) @ [True]" by (simp only: replicate_Suc replicate_append_same [symmetric] append_assoc)
  moreover have "n \<le> trailing (zs @ replicate n True)" by (rule Suc.IH) (simp add: suffix_def)
  ultimately show ?case by (simp only: trailing_simps Suc_le_mono)
qed simp

lemma calm_snoc: "calm bs \<Longrightarrow> b \<longrightarrow> trailing bs + 1 < DEGRADED_RECOVERY_CHECKS \<Longrightarrow> calm (bs @ [b])"
  using suffix_trailing [of DEGRADED_RECOVERY_CHECKS "bs @ [b]"]
  by (cases b) (auto simp: calm_def sublist_snoc DEGRADED_RECOVERY_CHECKS_def)

text \<open>All checks were healthy, or enough of them since the last that was not.\<close>

definition recovered :: "bool list \<Rightarrow> bool" where
  "recovered bs \<longleftrightarrow> (\<exists>pre post. bs = pre @ post \<and> set post \<subseteq> {True} \<and> (pre = [] \<or> DEGRADED_RECOVERY_CHECKS \<le> length post))"

lemma recovered_Nil [simp]: "recovered []"
  by (simp add: recovered_def)

lemma recovered_snoc: "recovered bs \<Longrightarrow> recovered (bs @ [True])"
proof -
  assume "recovered bs"
  then obtain pre post where "bs = pre @ post" "set post \<subseteq> {True}" "pre = [] \<or> DEGRADED_RECOVERY_CHECKS \<le> length post"
    by (auto simp: recovered_def)
  then show ?thesis unfolding recovered_def by (intro exI [of _ pre] exI [of _ "post @ [True]"]) auto
qed

lemma recovered_trailing: "DEGRADED_RECOVERY_CHECKS \<le> trailing bs + 1 \<Longrightarrow> recovered (as @ bs @ [True])"
proof -
  let ?tail = "takeWhile id (rev bs)"
  assume "DEGRADED_RECOVERY_CHECKS \<le> trailing bs + 1"
  moreover have "bs = rev (dropWhile id (rev bs)) @ rev ?tail"
    by (metis rev_append rev_rev_ident takeWhile_dropWhile_id)
  moreover have "set (rev ?tail) \<subseteq> {True}" by (auto dest: set_takeWhileD)
  ultimately show ?thesis
    unfolding recovered_def
    by (intro exI [of _ "as @ rev (dropWhile id (rev bs))"] exI [of _ "rev ?tail @ [True]"]) (auto simp: trailing_def)
qed

text \<open>What each state says about the checks that led to it.\<close>

definition accounts_for :: "health_event list \<Rightarrow> health \<Rightarrow> bool" where
  "accounts_for es h \<longleftrightarrow> (case hl_state h of
     Normal \<Rightarrow> Fenced \<notin> set es \<and> recovered (verdicts es)
   | Degraded \<Rightarrow> Fenced \<notin> set es \<and> (\<exists>pre post. es = pre @ Checked (hl_degradedSince h) False # post
       \<and> calm (verdicts post) \<and> hl_healthyStreak h = trailing (verdicts post)
       \<and> (\<forall>t. Checked t False \<in> set post \<longrightarrow> t - hl_degradedSince h < DEGRADED_MAX_MS))
   | Fatal \<Rightarrow> Fenced \<in> set es \<or> (\<exists>pre t mid t'. es = pre @ Checked t False # mid @ [Checked t' False]
       \<and> calm (verdicts mid) \<and> DEGRADED_MAX_MS \<le> t' - t))"

lemma accounts_check:
  assumes h: "accounts_for es h" "hl_state h \<noteq> Fatal"
  shows "accounts_for (es @ [Checked now b]) (snd (judge b now h))"
proof (cases "hl_state h")
  case Normal
  then have es: "Fenced \<notin> set es" "recovered (verdicts es)" using h(1) by (auto simp: accounts_for_def)
  show ?thesis
  proof (cases b)
    case True
    then show ?thesis using Normal es recovered_snoc by (simp add: accounts_for_def judge_def Let_def)
  next
    case False
    then show ?thesis
      using Normal es by (simp add: accounts_for_def judge_def Let_def) (rule exI [of _ es], rule exI [of _ "[]"], simp)
  qed
next
  case Degraded
  then obtain pre post where es: "Fenced \<notin> set es" "es = pre @ Checked (hl_degradedSince h) False # post" "calm (verdicts post)"
    "hl_healthyStreak h = trailing (verdicts post)" "\<forall>t. Checked t False \<in> set post \<longrightarrow> t - hl_degradedSince h < DEGRADED_MAX_MS"
    using h(1) by (auto simp: accounts_for_def)
  show ?thesis
  proof (cases b)
    case True
    show ?thesis
    proof (cases "DEGRADED_RECOVERY_CHECKS \<le> hl_healthyStreak h + 1")
      case long: True
      have "recovered (verdicts (es @ [Checked now b]))"
        using recovered_trailing [of "verdicts post" "verdicts pre @ [False]"] long es(4) True by (simp add: es(2))
      then show ?thesis
        using True Degraded long es(1) by (simp add: accounts_for_def judge_def Let_def)
    next
      case False
      then show ?thesis
        using True Degraded es calm_snoc [of "verdicts post" True]
        by (simp add: accounts_for_def judge_def Let_def) (rule exI [of _ pre], rule exI [of _ "post @ [Checked now True]"], auto)
    qed
  next
    case False
    show ?thesis
    proof (cases "DEGRADED_MAX_MS \<le> now - hl_degradedSince h")
      case True
      then show ?thesis
        using False Degraded es by (auto simp: accounts_for_def judge_def Let_def)
    next
      case soon: False
      then show ?thesis
        using False Degraded es calm_snoc [of "verdicts post" False]
        by (simp add: accounts_for_def judge_def Let_def) (rule exI [of _ pre], rule exI [of _ "post @ [Checked now False]"], auto)
    qed
  qed
qed (use h in simp)

lemma accounts_run:
  assumes "health_run h0 es h" "hl_state h0 = Normal"
  shows "accounts_for es h"
  using assms(1)
proof (induction rule: health_run.induct)
  case (signal es h h')
  then show ?case by (cases "hl_state h") (simp_all add: accounts_for_def same_judgement_def)
qed (use assms(2) accounts_check in \<open>auto simp: accounts_for_def fence_def\<close>)

lemma judge_answer: "hl_state h \<noteq> Fatal \<Longrightarrow> fst (judge b now h) \<longleftrightarrow> hl_state (snd (judge b now h)) \<noteq> Fatal"
  by (cases "hl_state h") (auto simp: judge_def Let_def)

lemma evaluate_checks:
  assumes "act_run exec evaluateHealth h s = ((Inr goes_on, h'), \<sigma>)"
  shows "(goes_on \<longleftrightarrow> hl_state h' \<noteq> Fatal)
    \<and> (h' = h \<and> hl_state h = Fatal \<or> hl_state h \<noteq> Fatal \<and> (\<exists>seen now. h' = snd (judge (isHealthy h seen) now h)))"
proof -
  let ?Q = "\<lambda>goes_on h' \<sigma>. (goes_on \<longleftrightarrow> hl_state h' \<noteq> Fatal)
    \<and> (h' = h \<and> hl_state h = Fatal \<or> hl_state h \<noteq> Fatal \<and> (\<exists>seen now. h' = snd (judge (isHealthy h seen) now h)))"
  have any: "wp exec nowP (\<lambda>a. Q a) (\<lambda>_ _. True) \<sigma>" if "\<And>a \<sigma>. Q a \<sigma>" for Q \<sigma>
    using that by (auto simp: wp_def split: prod.splits sum.splits)
  have "wpA exec evaluateHealth ?Q (\<lambda>_ _ _. True) h (s, [])"
  proof (cases "hl_state h = Fatal")
    case True
    then show ?thesis by (simp add: evaluateHealth_def)
  next
    case False
    then show ?thesis
      unfolding evaluateHealth_def wpA_bindA wpA_readA if_False wpA_liftA wpA_seqA wpA_writeA wpA_doneA
      by (simp add: case_prod_unfold, intro any) (auto simp: judge_answer)
  qed
  from act_run_wpA [OF this] show ?thesis using assms by auto
qed

text \<open>
  C20. The health of a runner follows its checks. From a normal start, however
  its signals change: it is normal only with healthy checks alone, or after as
  many healthy checks in a row as a recovery takes; degraded since a failed
  check that has not been recovered from, nor failed again so late that it
  would be fatal; and fatal only when another instance took over, or when a
  failed check came too long after the one that degraded it, with no recovery
  in between. The heartbeat goes on exactly while the state is not fatal.
\<close>

theorem health_follows_checks:
  assumes "health_run h0 es h" "hl_state h0 = Normal"
  shows "(case hl_state h of
       Normal \<Rightarrow> Fenced \<notin> set es \<and> recovered (verdicts es)
     | Degraded \<Rightarrow> Fenced \<notin> set es \<and> (\<exists>pre post. es = pre @ Checked (hl_degradedSince h) False # post
         \<and> calm (verdicts post) \<and> (\<forall>t. Checked t False \<in> set post \<longrightarrow> t - hl_degradedSince h < DEGRADED_MAX_MS))
     | Fatal \<Rightarrow> Fenced \<in> set es \<or> (\<exists>pre t mid t'. es = pre @ Checked t False # mid @ [Checked t' False]
         \<and> calm (verdicts mid) \<and> DEGRADED_MAX_MS \<le> t' - t))
    \<and> (\<forall>goes_on h' \<sigma>. act_run exec evaluateHealth h s = ((Inr goes_on, h'), \<sigma>) \<longrightarrow>
         (goes_on \<longleftrightarrow> hl_state h' \<noteq> Fatal) \<and> (\<exists>es'. health_run h0 (es @ es') h'))"
proof (intro conjI allI impI)
  show "case hl_state h of
       Normal \<Rightarrow> Fenced \<notin> set es \<and> recovered (verdicts es)
     | Degraded \<Rightarrow> Fenced \<notin> set es \<and> (\<exists>pre post. es = pre @ Checked (hl_degradedSince h) False # post
         \<and> calm (verdicts post) \<and> (\<forall>t. Checked t False \<in> set post \<longrightarrow> t - hl_degradedSince h < DEGRADED_MAX_MS))
     | Fatal \<Rightarrow> Fenced \<in> set es \<or> (\<exists>pre t mid t'. es = pre @ Checked t False # mid @ [Checked t' False]
         \<and> calm (verdicts mid) \<and> DEGRADED_MAX_MS \<le> t' - t)"
    using accounts_run [OF assms] by (cases "hl_state h") (auto simp: accounts_for_def)
next
  fix goes_on h' \<sigma>
  assume run: "act_run exec evaluateHealth h s = ((Inr goes_on, h'), \<sigma>)"
  show "goes_on \<longleftrightarrow> hl_state h' \<noteq> Fatal" using evaluate_checks [OF run] by blast
  consider "h' = h" | seen now where "hl_state h \<noteq> Fatal" "h' = snd (judge (isHealthy h seen) now h)"
    using evaluate_checks [OF run] by blast
  then show "\<exists>es'. health_run h0 (es @ es') h'"
  proof cases
    case 1
    then show ?thesis using assms(1) by (intro exI [of _ "[]"]) simp
  next
    case (2 seen now)
    then show ?thesis using health_run.check [OF assms(1)] by blast
  qed
qed

text \<open>A loop that blocks for six seconds, and is checked three times more.\<close>

theorem health_follows_checks_witness:
  "\<exists>h pre post. health_run (new_health 50 15) [Checked 60000 False, Checked 65000 True] h \<and> hl_state h = Degraded
     \<and> [Checked 60000 False, Checked 65000 True] = pre @ Checked (hl_degradedSince h) False # post"
proof -
  let ?h0 = "new_health 50 15"
  let ?h1 = "?h0\<lparr>hl_peakLoopLag := 6000\<rparr>"
  let ?h2 = "snd (judge (isHealthy ?h1 60000) 60000 ?h1)"
  let ?h3 = "snd (judge (isHealthy ?h2 65000) 65000 ?h2)"
  have verdicts: "\<not> isHealthy ?h1 60000" "isHealthy ?h2 65000" "hl_state ?h2 = Degraded" "hl_state ?h3 = Degraded"
    by (simp_all add: isHealthy_def renewal_stale_def new_health_def judge_def Let_def LOOP_LAG_UNHEALTHY_MS_def DEGRADED_RECOVERY_CHECKS_def)
  have normal: "hl_state ?h0 = Normal" by (simp add: new_health_def)
  have "health_run ?h0 [] ?h1"
    by (rule health_run.signal [OF health_run.fresh]) (simp add: same_judgement_def)
  then have "health_run ?h0 [Checked 60000 False] ?h2"
    using health_run.check [of ?h0 "[]" ?h1 60000 60000] verdicts(1) by (simp add: new_health_def)
  then have "health_run ?h0 [Checked 60000 False, Checked 65000 True] ?h3"
    using health_run.check [of ?h0 "[Checked 60000 False]" ?h2 65000 65000] verdicts(2,3) by simp
  note run = this
  have "\<exists>pre post. [Checked 60000 False, Checked 65000 True] = pre @ Checked (hl_degradedSince ?h3) False # post"
    using conjunct1 [OF health_follows_checks [OF run normal]] unfolding verdicts(4) by auto
  then show ?thesis using run verdicts(4) by blast
qed

end
