(* ===== verification/Heartbeat.thy ===== *)
theory Heartbeat
  imports RegistryContracts Health
begin

text \<open>
  Keeping a worker's presence lease (src/heartbeat.ts): the renewal and what it
  can mean, the retry after a first failure, and the cycle of the interval
  timer with what it reports to its owner.

  The callbacks work on the state of whoever runs the heartbeat, which is a type
  parameter here; the heartbeat's own fields stand next to it. A timer is a flag
  that says whether it is set; what it runs is `tick` and `retry_fires`.
\<close>

record heart =
  hb_interval :: bool
  hb_retry :: bool
  hb_failures :: nat
  hb_lastRenewOk :: millis

definition new_heart :: heart where
  "new_heart = \<lparr>hb_interval = False, hb_retry = False, hb_failures = 0, hb_lastRenewOk = 0\<rparr>"

record 'r heartbeat_config =
  hc_registry :: registry
  hc_workerId :: string
  hc_agentTypes :: "string list"
  hc_leaseTtlSeconds :: nat
  hc_lifecycle :: "(string \<Rightarrow> 'r \<Rightarrow> 'r) option"
  hc_denylist :: "(string list \<Rightarrow> 'r \<Rightarrow> 'r) option"
  hc_healthCheck :: "('r, bool) act option"
  hc_unhealthy :: "('r \<Rightarrow> 'r) option"
  hc_renewOk :: "(millis \<Rightarrow> 'r \<Rightarrow> 'r) option"
  hc_fenced :: "('r \<Rightarrow> 'r) option"

type_synonym ('r, 'a) heart_act = "(heart \<times> 'r, 'a) act"

text \<open>An action of the owner, and a callback that may be missing.\<close>

definition ownerA :: "('r, 'a) act \<Rightarrow> ('r, 'a) heart_act" where
  "ownerA m = (\<lambda>(h, r). bindP (settled m r) (\<lambda>(x, r'). Ret (x, (h, r'))))"

definition notifyA :: "('r \<Rightarrow> 'r) option \<Rightarrow> ('r, unit) heart_act" where
  "notifyA f = (case f of None \<Rightarrow> doneA () | Some g \<Rightarrow> writeA (\<lambda>(h, r). (h, g r)))"

definition heartA :: "(heart \<Rightarrow> heart) \<Rightarrow> ('r, unit) heart_act" where
  "heartA f = writeA (\<lambda>(h, r). (f h, r))"

definition stop_heart :: "heart \<Rightarrow> heart" where
  "stop_heart h = h\<lparr>hb_retry := False, hb_interval := False\<rparr>"

text \<open>The one early retry, scheduled by the first failure in a row.\<close>

definition schedule_retry :: "heart \<Rightarrow> heart" where
  "schedule_retry h = (if hb_failures h \<noteq> 1 \<or> hb_retry h \<or> \<not> hb_interval h then h else h\<lparr>hb_retry := True\<rparr>)"

datatype renew_outcome = Renewed | LeaseFenced | RenewFailed

definition renewLease :: "'r heartbeat_config \<Rightarrow> ('r, renew_outcome) heart_act" where
  "renewLease hc =
     bindA (catchA (bindA (liftA (heartbeatWorker (hc_registry hc) (hc_workerId hc) (hc_leaseTtlSeconds hc))) (\<lambda>ok. doneA (Some ok)))
        (\<lambda>_. seqA (heartA (\<lambda>h. schedule_retry (h\<lparr>hb_failures := hb_failures h + 1\<rparr>))) (doneA None)))
       (\<lambda>renewed. case renewed of
          None \<Rightarrow> doneA RenewFailed
        | Some False \<Rightarrow> seqA (heartA stop_heart) (seqA (notifyA (hc_fenced hc)) (doneA LeaseFenced))
        | Some True \<Rightarrow> seqA (heartA (\<lambda>h. h\<lparr>hb_failures := 0\<rparr>)) (bindA (liftA nowP) (\<lambda>now.
            seqA (heartA (\<lambda>h. h\<lparr>hb_lastRenewOk := now\<rparr>))
              (seqA (notifyA (map_option (\<lambda>f. f now) (hc_renewOk hc))) (doneA Renewed)))))"

definition retry_fires :: "'r heartbeat_config \<Rightarrow> ('r, renew_outcome) heart_act" where
  "retry_fires hc = seqA (heartA (\<lambda>h. h\<lparr>hb_retry := False\<rparr>)) (renewLease hc)"

definition lifecycle_of :: "(string \<times> string) list \<Rightarrow> string" where
  "lifecycle_of st = str_or (opt_or (map_of st ''lifecycle'') []) ''active''"

definition heartbeat_start :: "'r heartbeat_config \<Rightarrow> ('r, unit) heart_act" where
  "heartbeat_start hc = bindA (readA fst) (\<lambda>h.
     if hb_interval h then doneA ()
     else bindA (liftA (getWorkerAdminState (hc_registry hc) (hc_workerId hc))) (\<lambda>st.
       seqA (whenA (lifecycle_of st = ''active'') (liftA (registerWorkerMembership (hc_registry hc) (hc_workerId hc) (hc_agentTypes hc))))
         (bindA (renewLease hc) (\<lambda>outcome.
            if outcome = LeaseFenced then doneA ()
            else seqA (whenA (lifecycle_of st \<noteq> ''active'') (notifyA (map_option (\<lambda>f. f (lifecycle_of st)) (hc_lifecycle hc))))
              (heartA (\<lambda>h. h\<lparr>hb_interval := True\<rparr>))))))"

definition denied_types :: "'r heartbeat_config \<Rightarrow> string list prog" where
  "denied_types hc = foldP (\<lambda>denied agentType.
     bindP (isWorkerDeniedForType (hc_registry hc) agentType (hc_workerId hc)) (\<lambda>d.
       Ret (if d \<and> agentType \<notin> set denied then denied @ [agentType] else denied))) [] (hc_agentTypes hc)"

text \<open>One cycle: health, renewal, then the administrative state; an error ends the cycle only.\<close>

definition sync_admin :: "'r heartbeat_config \<Rightarrow> ('r, unit) heart_act" where
  "sync_admin hc =
     bindA (liftA (getWorkerAdminState (hc_registry hc) (hc_workerId hc))) (\<lambda>st.
       seqA (notifyA (map_option (\<lambda>f. f (lifecycle_of st)) (hc_lifecycle hc)))
      (seqA (whenA (lifecycle_of st = ''active'') (liftA (registerWorkerMembership (hc_registry hc) (hc_workerId hc) (hc_agentTypes hc))))
        (case hc_denylist hc of
           None \<Rightarrow> doneA ()
         | Some refresh \<Rightarrow> bindA (liftA (denied_types hc)) (\<lambda>denied. notifyA (Some (refresh denied))))))"

definition tick :: "'r heartbeat_config \<Rightarrow> ('r, unit) heart_act" where
  "tick hc = catchA
     (bindA (case hc_healthCheck hc of None \<Rightarrow> doneA True | Some check \<Rightarrow> ownerA check) (\<lambda>healthy.
        if \<not> healthy then seqA (heartA stop_heart) (notifyA (hc_unhealthy hc))
        else bindA (renewLease hc) (\<lambda>outcome.
          if outcome \<noteq> Renewed then doneA () else sync_admin hc)))
     (\<lambda>_. doneA ())"


section \<open>A fenced heartbeat\<close>

lemma wpA_ownerA [simp]: "wpA exec (ownerA m) Q E (h, r) = wpA exec m (\<lambda>a r'. Q a (h, r')) (\<lambda>e r'. E e (h, r')) r"
proof
  fix \<sigma>
  show "wpA exec (ownerA m) Q E (h, r) \<sigma> = wpA exec m (\<lambda>a r'. Q a (h, r')) (\<lambda>e r'. E e (h, r')) r \<sigma>"
    unfolding wpA_def ownerA_def by (simp add: wp_settled) (rule wp_eqI, auto split: sum.splits)
qed

lemma wpA_heartA [simp]: "wpA exec (heartA f) Q E (h, r) = Q () (f h, r)"
  by (simp add: heartA_def)

lemma wpA_notifyA [simp]: "wpA exec (notifyA f) Q E (h, r) = Q () (h, case f of None \<Rightarrow> r | Some g \<Rightarrow> g r)"
  by (simp add: notifyA_def split: option.splits)

text \<open>A stopped heartbeat has no timer left, so neither a cycle nor a retry runs.\<close>

lemma stopped [simp]: "hb_interval (stop_heart h) = False" "hb_retry (stop_heart h) = False"
  by (simp_all add: stop_heart_def)

end
