(* ===== verification/Runner.thy ===== *)
theory Runner
  imports Worker Heartbeat
begin

text \<open>
  The runner of a worker (src/runner.ts): reading the control streams and taking
  over what dead workers left behind, processing one message from the gate to
  the acknowledgement, the control messages, and the wiring of the heartbeat.

  Reading a stream, listing and claiming pending entries are answered by the
  server in ways the laws of the connection do not describe; they are
  parameters of the configuration, like the handler, the plugins and the
  history. Tasks run concurrently in the code; an action here is one of them on
  its own, with the tables as it finds them, and the flag of its abort signal is
  read when the task starts. Notifications that nobody waits for (the handlers
  of a cancellation) are left out, as is logging.
\<close>


section \<open>Configuration and state\<close>

definition ORPHAN_RECLAIM_LEASE_MULTIPLE :: int where "ORPHAN_RECLAIM_LEASE_MULTIPLE = 4"
definition ORPHAN_RECLAIM_BATCH :: nat where "ORPHAN_RECLAIM_BATCH = 50"
definition ORPHAN_RECLAIM_EVERY_N_POLLS :: int where "ORPHAN_RECLAIM_EVERY_N_POLLS = 20"

text \<open>An entry of a stream: its id, and its fields and values in turn.\<close>

type_synonym stream_entry = "string \<times> string list"
type_synonym batch = "(key \<times> stream_entry list) list option"

record runner_config =
  rc_worker :: worker
  rc_registry :: registry
  rc_agentTypes :: "string list"
  rc_group :: string
  rc_fetchCount :: nat
  rc_leaseTtlSeconds :: nat
  rc_host :: host
  rc_handler :: handler
  rc_history :: "string \<Rightarrow> json prog"
  rc_read :: "key \<Rightarrow> nat \<Rightarrow> nat option \<Rightarrow> batch prog"
  rc_pending :: "key \<Rightarrow> nat \<Rightarrow> (string \<times> string \<times> int) list prog"
  rc_claim :: "key \<Rightarrow> int \<Rightarrow> string list \<Rightarrow> stream_entry list prog"

record running_execution =
  re_execution :: string
  re_message :: string
  re_parent :: string
  re_session :: string
  re_worker :: string
  re_aborted :: bool
  re_cancelReason :: string
  re_resumed :: bool
  re_existing :: "json option"

record runner =
  rn_running :: bool
  rn_controlLoop :: bool
  rn_admin :: string
  rn_evictForce :: bool
  rn_denied :: "string list"
  rn_health :: health
  rn_active :: "(string \<times> running_execution) list"
  rn_messages :: "(string \<times> string) list"
  rn_cursor :: nat
  rn_countdown :: int

definition new_runner :: "health \<Rightarrow> runner" where
  "new_runner h = \<lparr>rn_running = False, rn_controlLoop = False, rn_admin = ''active'', rn_evictForce = False, rn_denied = [],
     rn_health = h, rn_active = [], rn_messages = [], rn_cursor = 0, rn_countdown = 0\<rparr>"

type_synonym 'a run_act = "(runner, 'a) act"

definition rc_schema :: "runner_config \<Rightarrow> key_schema" where
  "rc_schema cfg = gw_schema (rc_worker cfg)"

definition rc_id :: "runner_config \<Rightarrow> string" where
  "rc_id cfg = gw_workerId (rc_worker cfg)"

definition ack :: "runner_config \<Rightarrow> key \<Rightarrow> string \<Rightarrow> unit prog" where
  "ack cfg stream msgId = xackP stream (rc_group cfg) msgId"

text \<open>`try m finally n`, where an error of n takes over.\<close>

definition finallyA :: "('c, 'a) act \<Rightarrow> ('c, unit) act \<Rightarrow> ('c, 'a) act" where
  "finallyA m n = bindA (catchA (bindA m (\<lambda>a. doneA (Inr a))) (\<lambda>e. doneA (Inl e))) (\<lambda>r. seqA n (checkedA r))"

lemma wpA_finallyA: "wpA exec (finallyA m n) Q E =
   wpA exec m (\<lambda>a. wpA exec n (\<lambda>_. Q a) E) (\<lambda>e. wpA exec n (\<lambda>_. E e) E)"
  by (simp add: finallyA_def)


section \<open>Reading\<close>

text \<open>The value of the first field `data`; a field without a value has none.\<close>

fun entry_data :: "string list \<Rightarrow> string" where
  "entry_data (f # v # rest) = (if f = ''data'' then v else entry_data rest)"
| "entry_data _ = []"

definition parseStreamEntry :: "key \<Rightarrow> stream_entry \<Rightarrow> (key \<times> string \<times> command) option" where
  "parseStreamEntry stream entry =
     (let d = entry_data (snd entry) in
      if d = [] then None
      else (case parse_payload d of Inl e \<Rightarrow> None | Inr c \<Rightarrow> Some (stream, fst entry, c)))"

definition parseXreadgroupBatches :: "batch list \<Rightarrow> (key \<times> string \<times> command) list" where
  "parseXreadgroupBatches batches =
     concat (List.map (\<lambda>(stream, entries). List.map_filter (parseStreamEntry stream) entries)
       (concat (List.map (\<lambda>b. opt_or b []) batches)))"

definition active_streams :: "runner_config \<Rightarrow> string list \<Rightarrow> key list" where
  "active_streams cfg denied = List.map (ctrl_stream (rc_schema cfg)) (filter (\<lambda>t. t \<notin> set denied) (rc_agentTypes cfg))"

definition orphanReclaimIdleMs :: "runner_config \<Rightarrow> int" where
  "orphanReclaimIdleMs cfg = int (rc_leaseTtlSeconds cfg) * 1000 * ORPHAN_RECLAIM_LEASE_MULTIPLE"

text \<open>Whose pending entries may be taken over: not our own, old enough, of a worker without a lease.\<close>

definition claimable :: "runner_config \<Rightarrow> (string \<times> string \<times> int) list \<Rightarrow> string list prog" where
  "claimable cfg pending = foldP (\<lambda>ids (msgId, consumer, idleMs).
     if consumer = rc_id cfg \<or> idleMs < orphanReclaimIdleMs cfg then Ret ids
     else bindP (isWorkerOnline (rc_registry cfg) consumer) (\<lambda>online. Ret (if online then ids else ids @ [msgId]))) [] pending"

definition reclaim_stream :: "runner_config \<Rightarrow> key \<Rightarrow> (key \<times> string \<times> command) list prog" where
  "reclaim_stream cfg stream = bindP (rc_pending cfg stream ORPHAN_RECLAIM_BATCH) (\<lambda>pending.
     bindP (claimable cfg pending) (\<lambda>ids.
       if ids = [] then Ret []
       else bindP (rc_claim cfg stream (orphanReclaimIdleMs cfg) ids) (\<lambda>entries.
         Ret (List.map_filter (parseStreamEntry stream) entries))))"

definition reclaimOrphanedMessages :: "runner_config \<Rightarrow> string list \<Rightarrow> (key \<times> string \<times> command) list prog" where
  "reclaimOrphanedMessages cfg denied = foldP (\<lambda>reclaimed stream.
     bindP (catchP (reclaim_stream cfg stream) (\<lambda>_. Ret [])) (\<lambda>more. Ret (reclaimed @ more))) [] (active_streams cfg denied)"

definition read_each :: "runner_config \<Rightarrow> nat \<Rightarrow> key list \<Rightarrow> batch list prog" where
  "read_each cfg n names = foldP (\<lambda>bs stream. bindP (rc_read cfg stream n None) (\<lambda>b. Ret (bs @ [b]))) [] names"

definition poll :: "runner_config \<Rightarrow> nat \<Rightarrow> nat \<Rightarrow> (key \<times> string \<times> command) list run_act" where
  "poll cfg count0 block0 = bindA (readA rn_denied) (\<lambda>denied.
     let names = active_streams cfg denied; n = (if count0 = 0 then rc_fetchCount cfg else count0);
         block = (if block0 = 0 then 2000 else block0)
     in if names = [] then doneA []
        else bindA (liftA (read_each cfg n names)) (\<lambda>pass.
          if parseXreadgroupBatches pass \<noteq> [] then doneA (parseXreadgroupBatches pass)
          else seqA (writeA (\<lambda>r. r\<lparr>rn_countdown := rn_countdown r - 1\<rparr>)) (bindA (readA rn_countdown) (\<lambda>left.
            bindA (if left \<le> 0
                then seqA (writeA (\<lambda>r. r\<lparr>rn_countdown := ORPHAN_RECLAIM_EVERY_N_POLLS\<rparr>)) (liftA (reclaimOrphanedMessages cfg denied))
                else doneA []) (\<lambda>reclaimed.
              if reclaimed \<noteq> [] then doneA reclaimed
              else bindA (readA rn_cursor) (\<lambda>cursor.
                seqA (writeA (\<lambda>r. r\<lparr>rn_cursor := cursor + 1\<rparr>))
                  (bindA (liftA (rc_read cfg (names ! (cursor mod length names)) n (Some block))) (\<lambda>blocked.
                     doneA (parseXreadgroupBatches [blocked])))))))))"


section \<open>Control messages\<close>

definition cancel_running :: "string \<Rightarrow> string \<Rightarrow> runner \<Rightarrow> runner" where
  "cancel_running executionId reason r =
     r\<lparr>rn_active := AList.map_entry executionId (\<lambda>x. x\<lparr>re_cancelReason := reason, re_aborted := True\<rparr>) (rn_active r)\<rparr>"

definition cancel_target :: "command \<Rightarrow> runner \<Rightarrow> string" where
  "cancel_target c r = str_or (cmd_targetExecutionId c) (opt_or (map_of (rn_messages r) (cmd_targetMessageId c)) [])"

definition handle_cancel :: "runner_config \<Rightarrow> command \<Rightarrow> unit run_act" where
  "handle_cancel cfg c = bindA (readA (cancel_target c)) (\<lambda>executionId.
     seqA (whenA (executionId \<noteq> [])
             (liftA (markExecutionCancelling (rc_schema cfg) executionId (sessionId (header c)) (cmd_reason c))))
       (writeA (if executionId = [] then id else cancel_running executionId (cmd_reason c))))"

definition handleControlMessage :: "runner_config \<Rightarrow> key \<Rightarrow> string \<Rightarrow> command \<Rightarrow> unit run_act" where
  "handleControlMessage cfg stream msgId c =
     finallyA (case c of
         SuspendWorkerCommand h reason \<Rightarrow> writeA (\<lambda>r. r\<lparr>rn_admin := ''suspended''\<rparr>)
       | ResumeWorkerCommand h \<Rightarrow> writeA (\<lambda>r. r\<lparr>rn_admin := ''active''\<rparr>)
       | EvictWorkerCommand h reason force \<Rightarrow> writeA (\<lambda>r. r\<lparr>rn_admin := ''evicted'', rn_evictForce := force\<rparr>)
       | CancelTaskCommand _ _ _ _ _ _ _ \<Rightarrow> handle_cancel cfg c
       | _ \<Rightarrow> doneA ())
     (liftA (ack cfg stream msgId))"

text \<open>One entry of the worker's own control stream; an unusable one is acknowledged, an empty one is not.\<close>

definition control_entry :: "runner_config \<Rightarrow> key \<Rightarrow> stream_entry \<Rightarrow> command list run_act" where
  "control_entry cfg stream entry =
     (let d = entry_data (snd entry) in
      if d = [] then doneA []
      else catchA (bindA (checkedA (parse_payload d)) (\<lambda>c.
             seqA (handleControlMessage cfg stream (fst entry) c) (doneA [c])))
        (\<lambda>_. seqA (liftA (ack cfg stream (fst entry))) (doneA [])))"

definition runControlOnce :: "runner_config \<Rightarrow> nat \<Rightarrow> command list run_act" where
  "runControlOnce cfg block =
     bindA (liftA (rc_read cfg (worker_ctrl_stream (rc_schema cfg) (rc_id cfg)) 10 (Some block))) (\<lambda>b.
       foldA (\<lambda>done_cmds (stream, entry). bindA (control_entry cfg stream entry) (\<lambda>cs. doneA (done_cmds @ cs))) []
         (concat (List.map (\<lambda>(stream, entries). List.map (\<lambda>e. (stream, e)) entries) (opt_or b []))))"


section \<open>Processing one message\<close>

text \<open>The parent span: from the metadata, else the header's own field, else the dispatch of the message.\<close>

definition frameworkParentSpanId :: "message_header \<Rightarrow> string" where
  "frameworkParentSpanId h =
     str_or (text_field (oget (metadata h) ''framework_parent_span_id''))
       (str_or (traceParentSpanId h)
         (str_or (text_field (oget (metadata h) ''trace_parent_span_id'')) (messageId h @ '':client.dispatch'')))"

definition clientDispatchParentSpanId :: "message_header \<Rightarrow> string" where
  "clientDispatchParentSpanId h =
     str_or (traceParentSpanId h)
       (str_or (text_field (oget (metadata h) ''trace_parent_span_id'')) (messageId h @ '':client.dispatch''))"

text \<open>The history is added to the payload of what a handler will see, in a new command.\<close>

definition with_history :: "command \<Rightarrow> json \<Rightarrow> js_error + command" where
  "with_history c hist = (case c of
     AskAgentCommand h ct wt x \<Rightarrow> check_command (AskAgentCommand h ct wt (oput ''history'' hist (ospread [] x)))
   | ResumeCommand h ct st rd x \<Rightarrow> check_command (ResumeCommand h ct st rd (oput ''history'' hist (ospread [] x)))
   | _ \<Rightarrow> Inr c)"

definition existing_field :: "json option \<Rightarrow> string \<Rightarrow> json option" where
  "existing_field existing k = (case existing of None \<Rightarrow> None | Some v \<Rightarrow> jget v k)"

definition existing_text :: "json option \<Rightarrow> string \<Rightarrow> string" where
  "existing_text existing k = text_field (existing_field existing k)"

definition finished_replay :: "json option \<Rightarrow> command \<Rightarrow> bool" where
  "finished_replay existing c \<longleftrightarrow> opt_truthy existing \<and> isTerminalState (existing_text existing ''status'') \<and> \<not> isResumeCommand c"

definition execution_id :: "json option \<Rightarrow> command \<Rightarrow> string prog" where
  "execution_id existing c =
     (if opt_truthy (existing_field existing ''execution_id'') then Ret (existing_text existing ''execution_id'')
      else if traceId (header c) \<noteq> [] then Ret (traceId (header c))
      else bindP uuidP (\<lambda>u. Ret (''exec-'' @ take 8 u)))"

definition cancelled_unclaimed :: "json option \<Rightarrow> bool" where
  "cancelled_unclaimed existing \<longleftrightarrow> opt_truthy (existing_field existing ''cancel_requested'')
     \<and> (existing_text existing ''status'' = [] \<or> existing_text existing ''status'' = QUEUED)"

definition resumed_execution :: "json option \<Rightarrow> command \<Rightarrow> bool" where
  "resumed_execution existing c \<longleftrightarrow> isResumeCommand c \<or> opt_truthy existing \<and> existing_text existing ''status'' \<noteq> QUEUED"

definition parent_message :: "json option \<Rightarrow> command \<Rightarrow> string" where
  "parent_message existing c =
     js_String (js_or (existing_field existing ''parent_message_id'') (JStr (parentMessageId (header c))))"

definition running_of :: "runner_config \<Rightarrow> json option \<Rightarrow> command \<Rightarrow> string \<Rightarrow> running_execution" where
  "running_of cfg existing c executionId =
     \<lparr>re_execution = executionId, re_message = messageId (header c), re_parent = parent_message existing c,
      re_session = sessionId (header c), re_worker = rc_id cfg,
      re_aborted = opt_truthy (existing_field existing ''cancel_requested''),
      re_cancelReason = existing_text existing ''cancel_reason'', re_resumed = resumed_execution existing c, re_existing = existing\<rparr>"

definition track :: "running_execution \<Rightarrow> runner \<Rightarrow> runner" where
  "track x r = r\<lparr>rn_active := AList.update (re_execution x) x (rn_active r),
     rn_messages := AList.update (re_message x) (re_execution x) (rn_messages r)\<rparr>"

definition untrack :: "string \<Rightarrow> runner \<Rightarrow> runner" where
  "untrack message r = (case map_of (rn_messages r) message of
     None \<Rightarrow> r
   | Some e \<Rightarrow> if e = [] then r
       else r\<lparr>rn_messages := AList.delete message (rn_messages r), rn_active := AList.delete e (rn_active r)\<rparr>)"

text \<open>What the record gets when the message starts; a reply leaves the dispatch metadata alone.\<close>

definition status_fields :: "runner_config \<Rightarrow> key \<Rightarrow> string \<Rightarrow> command \<Rightarrow> jobj" where
  "status_fields cfg stream msgId c =
     [(''worker_id'', JStr (rc_id cfg)), (''stream_name'', JStr stream), (''redis_message_id'', JStr msgId)]
       @ (if isResumeCommand c then [] else [(''metadata'', JObj (ospread [] (metadata (header c))))])"

definition new_execution :: "runner_config \<Rightarrow> key \<Rightarrow> string \<Rightarrow> command \<Rightarrow> running_execution \<Rightarrow> millis \<Rightarrow> jobj" where
  "new_execution cfg stream msgId c x now =
     [(''execution_id'', JStr (re_execution x)), (''message_id'', JStr (messageId (header c))),
      (''parent_message_id'', JStr (re_parent x)), (''session_id'', JStr (sessionId (header c))),
      (''worker_id'', JStr (rc_id cfg)), (''target_agent_type'', JStr (targetAgentType (header c))),
      (''metadata'', JObj (ospread [] (metadata (header c)))), (''stream_name'', JStr stream),
      (''redis_message_id'', JStr msgId), (''status'', JStr ''RUNNING''),
      (''cancel_requested'', JBool (opt_truthy (existing_field (re_existing x) ''cancel_requested''))),
      (''cancel_reason'', JStr (re_cancelReason x)), (''created_at'', JNum now), (''started_at'', JNum now),
      (''finished_at'', JNum 0), (''updated_at'', JNum now)]"

definition record_running :: "runner_config \<Rightarrow> key \<Rightarrow> string \<Rightarrow> command \<Rightarrow> running_execution \<Rightarrow> unit prog" where
  "record_running cfg stream msgId c x =
     (if opt_truthy (re_existing x)
      then updateExecutionStatus (rc_schema cfg) (re_execution x) (sessionId (header c)) ''RUNNING'' (status_fields cfg stream msgId c)
      else bindP nowP (\<lambda>now. saveExecution (rc_schema cfg) (new_execution cfg stream msgId c x now)))"

definition options_of :: "running_execution \<Rightarrow> message_options" where
  "options_of x = \<lparr>mo_aborted = re_aborted x, mo_cancelReason = re_cancelReason x, mo_snapshot = as_obj (re_existing x),
     mo_execution = re_execution x\<rparr>"

definition execute_span :: "runner_config \<Rightarrow> command \<Rightarrow> running_execution \<Rightarrow> agent_context \<Rightarrow> string \<Rightarrow> millis \<Rightarrow> millis \<Rightarrow> trace_span" where
  "execute_span cfg c x ctx status startTs endTs =
     \<lparr>ts_trace = traceId (header c), ts_spanId = re_execution x @ '':worker.execute'',
      ts_parentSpanId = frameworkParentSpanId (header c), ts_operation = ''worker.execute'', ts_component = ''worker'',
      ts_start = startTs, ts_end = endTs, ts_status = status, ts_session = sessionId (header c), ts_execution = re_execution x,
      ts_message = messageId (header c), ts_parentMessage = parent_message (re_existing x) c, ts_source = [],
      ts_target = targetAgentType (header c), ts_routePolicy = [], ts_routeStatus = [], ts_metadata = [],
      ts_worker = rc_id cfg, ts_chunkCount = ac_chunkCount ctx, ts_tokens = ospread [] (ac_tokenUsage ctx)\<rparr>"

text \<open>Run the worker, and record how it ended; what it throws is thrown on.\<close>

definition execute :: "runner_config \<Rightarrow> command \<Rightarrow> running_execution \<Rightarrow> unit prog" where
  "execute cfg c x = bindP nowP (\<lambda>startTs.
     bindP (handleMessage (rc_worker cfg) (rc_host cfg) (rc_handler cfg) c (options_of x)) (\<lambda>(out, ctx). case out of
         Inl e \<Rightarrow> Raise e
       | Inr result_of_task \<Rightarrow> bindP nowP (\<lambda>endTs.
           seqP (markExecutionFinished (rc_schema cfg) (re_execution x) (sessionId (header c)) (tr_status result_of_task))
             (catchP (h_span (rc_host cfg) (execute_span cfg c x ctx (tr_status result_of_task) startTs endTs)) (\<lambda>_. Ret ())))))"

definition run_message :: "runner_config \<Rightarrow> key \<Rightarrow> string \<Rightarrow> command \<Rightarrow> json option \<Rightarrow> unit run_act" where
  "run_message cfg stream msgId c existing =
     bindA (liftA (execution_id existing c)) (\<lambda>executionId.
       if cancelled_unclaimed existing
       then liftA (seqP (markExecutionFinished (rc_schema cfg) executionId (sessionId (header c)) CANCELLED) (ack cfg stream msgId))
       else let x = running_of cfg existing c executionId in
         seqA (writeA (track x))
           (liftA (seqP (record_running cfg stream msgId c x) (seqP (execute cfg c x) (ack cfg stream msgId)))))"

text \<open>The gate for replies; a denied one is reported, acknowledged and dropped.\<close>

definition drop_reply :: "runner_config \<Rightarrow> key \<Rightarrow> string \<Rightarrow> command \<Rightarrow> wait_gate_decision \<Rightarrow> unit prog" where
  "drop_reply cfg stream msgId c d =
     seqP (emitOrphanedReply (rc_schema cfg) c (rc_id cfg) (gate_reason d)) (ack cfg stream msgId)"

definition admit :: "runner_config \<Rightarrow> command \<Rightarrow> wait_gate_decision option prog" where
  "admit cfg c =
     (if isResumeCommand c
      then bindP (consumeWaitEntry (rc_schema cfg) (header c)) (\<lambda>d. Ret (if allow d then None else Some d))
      else Ret None)"

definition admitted_message :: "runner_config \<Rightarrow> key \<Rightarrow> string \<Rightarrow> command \<Rightarrow> unit run_act" where
  "admitted_message cfg stream msgId c0 =
     bindA (liftA (rc_history cfg (sessionId (header c0)))) (\<lambda>hist.
     bindA (checkedA (with_history c0 hist)) (\<lambda>c.
     bindA (liftA (getExecutionByMessageId (rc_schema cfg) (messageId (header c)) (sessionId (header c)))) (\<lambda>existing.
       if finished_replay existing c then liftA (ack cfg stream msgId)
       else run_message cfg stream msgId c existing)))"

definition processAndAck :: "runner_config \<Rightarrow> key \<Rightarrow> string \<Rightarrow> command \<Rightarrow> unit run_act" where
  "processAndAck cfg stream msgId c =
     finallyA (case c of
         CancelTaskCommand _ _ _ _ _ _ _ \<Rightarrow> handleControlMessage cfg stream msgId c
       | _ \<Rightarrow> bindA (liftA (admit cfg c)) (\<lambda>denied. case denied of
           Some d \<Rightarrow> liftA (drop_reply cfg stream msgId c d)
         | None \<Rightarrow> admitted_message cfg stream msgId c))
     (writeA (untrack (messageId (header c))))"


section \<open>The heartbeat of a runner\<close>

definition healthA :: "(health, 'a) act \<Rightarrow> 'a run_act" where
  "healthA m = (\<lambda>r. bindP (settled m (rn_health r)) (\<lambda>(x, h). Ret (x, r\<lparr>rn_health := h\<rparr>)))"

text \<open>What `initialize` hands to the heartbeat: admin state, denied types, health, and being fenced.\<close>

definition runner_heartbeat :: "runner_config \<Rightarrow> runner heartbeat_config" where
  "runner_heartbeat cfg =
     \<lparr>hc_registry = rc_registry cfg, hc_workerId = rc_id cfg, hc_agentTypes = rc_agentTypes cfg,
      hc_leaseTtlSeconds = rc_leaseTtlSeconds cfg,
      hc_lifecycle = Some (\<lambda>lifecycle r. r\<lparr>rn_admin := lifecycle\<rparr>), hc_denylist = Some (\<lambda>denied r. r\<lparr>rn_denied := denied\<rparr>),
      hc_healthCheck = Some (healthA evaluateHealth), hc_unhealthy = Some (\<lambda>r. r\<lparr>rn_running := False\<rparr>),
      hc_renewOk = Some (\<lambda>now r. r\<lparr>rn_health := (rn_health r)\<lparr>hl_lastRenewOk := now\<rparr>\<rparr>),
      hc_fenced = Some (\<lambda>r. r\<lparr>rn_health := fence (rn_health r), rn_running := False\<rparr>)\<rparr>"


section \<open>The loop\<close>

text \<open>What a round of the consume loop does, after its tick; the admin's will and health are checked apart.\<close>

datatype loop_step = Pause | Quit | Consume

definition loop_tick :: "millis \<Rightarrow> runner \<Rightarrow> runner" where
  "loop_tick now r = r\<lparr>rn_health := (rn_health r)\<lparr>hl_lastConsumerTick := now\<rparr>\<rparr>"

definition loop_decision :: "runner \<Rightarrow> loop_step" where
  "loop_decision r =
     (if rn_admin r = ''suspended'' then Pause
      else if hl_state (rn_health r) = Degraded then Pause
      else if rn_admin r = ''evicted'' then Quit
      else Consume)"

text \<open>A message waits for a slot as long as all are taken, which counts as progress.\<close>

definition slot_free :: "runner \<Rightarrow> bool" where
  "slot_free r \<longleftrightarrow> hl_inFlight (rn_health r) < hl_maxConcurrency (rn_health r)"

definition take_slot :: "runner \<Rightarrow> runner" where
  "take_slot r = r\<lparr>rn_health := (rn_health r)\<lparr>hl_inFlight := hl_inFlight (rn_health r) + 1\<rparr>\<rparr>"

definition free_slot :: "runner \<Rightarrow> runner" where
  "free_slot r = r\<lparr>rn_health := (rn_health r)\<lparr>hl_inFlight := hl_inFlight (rn_health r) - 1\<rparr>\<rparr>"

text \<open>Stopping; on demand every running execution is cancelled, an aborted one keeps its signal.\<close>

definition stop_runner :: "bool \<Rightarrow> string \<Rightarrow> runner \<Rightarrow> runner" where
  "stop_runner cancelActive reason r =
     r\<lparr>rn_running := False, rn_controlLoop := False, rn_active := (if cancelActive
        then List.map (\<lambda>(e, x). (e, x\<lparr>re_cancelReason := str_or reason ''worker runner stopped'', re_aborted := True\<rparr>)) (rn_active r)
        else rn_active r)\<rparr>"

end
