(* ===== verification/WorkerProperties.thy ===== *)
theory WorkerProperties
  imports WorkerContracts
begin

text \<open>
  The properties of the worker and of the rules of resumption, each with a
  concrete run over the in-memory server.
\<close>


section \<open>Task groups\<close>

text \<open>
  C9. The books of a task group. Whatever sequence of replies of its members
  arrives, in any order and with repetitions, each member is counted and stored
  exactly once: a repetition is dropped at the gate, a new reply leaves the caller
  waiting as long as members are missing, and the one that completes the group,
  and no other, lets the caller go on.
\<close>

theorem group_counted_once:
  assumes avail: "redis_available exec kv oth clk" and sib: "siblings g rs" and ds: "set ds \<subseteq> set rs"
    and start: "group_progress sch g rs [] (kv s)"
  shows "result exec (deliveries sch ds) s = Inr (List.map (delivery_outcome (length rs) ds) [0..<length ds])
    \<and> group_books (kv (final exec (deliveries sch ds) s)) sch g (length rs) (card (set ds))
    \<and> (\<forall>c\<in>set ds. booked (kv (final exec (deliveries sch ds) s)) sch c)"
proof -
  have "wp exec (deliveries sch ds) (\<lambda>outs \<sigma>'. outs = List.map (delivery_outcome (length rs) ds) [0..<length ds]
     \<and> group_progress sch g rs ds (kv (fst \<sigma>'))) (\<lambda>_ _. False) (s, [])"
    using redis_available.wp_deliveries [OF avail sib ds, of sch "(s, [])"] start by simp
  from wp_total [OF this] obtain outs where
    outs: "result exec (deliveries sch ds) s = Inr outs" "outs = List.map (delivery_outcome (length rs) ds) [0..<length ds]"
      "group_progress sch g rs ds (kv (final exec (deliveries sch ds) s))"
    by auto
  then show ?thesis
    using ds by (auto simp: group_progress_def)
qed

text \<open>Two members; the first reply arrives twice.\<close>

definition sample_member_reply :: "string \<Rightarrow> command" where
  "sample_member_reply child = ResumeCommand
     ((mk_header ''m1'' ''s'' ''t'')\<lparr>sourceAgentType := ''helper'', targetAgentType := ''boss'',
        parentMessageId := child, taskGroupId := ''g''\<rparr>) (JStr []) ''COMPLETED'' (JStr child) []"

definition sample_group_setup :: "cmd list" where
  "sample_group_setup =
     [Hset (task_group V1 ''g'') TASK_GROUP_FIELD_TOTAL (int_str 2),
      Hset (task_group V1 ''g'') TASK_GROUP_FIELD_COMPLETED (int_str 0),
      Zadd (waitIndexKey V1 ''s'') 10 (memberFromResume (header (sample_member_reply ''m2''))),
      Zadd (waitIndexKey V1 ''s'') 10 (memberFromResume (header (sample_member_reply ''m3'')))]"

definition sample_group :: mock where
  "sample_group = mock_after sample_group_setup (empty_mock 5)"

lemma sample_group_view: "mock_view sample_group = fold write_view sample_group_setup (mock_view (empty_mock 5))"
  unfolding sample_group_def by (rule mock_after_writes) (simp add: sample_group_setup_def)

lemma sample_reply_header [simp]:
  "taskGroupId (header (sample_member_reply x)) = ''g''" "sessionId (header (sample_member_reply x)) = ''s''"
  "messageId (header (sample_member_reply x)) = ''m1''" "parentMessageId (header (sample_member_reply x)) = x"
  by (simp_all add: sample_member_reply_def mk_header_def)

lemma sample_siblings: "siblings ''g'' [sample_member_reply ''m2'', sample_member_reply ''m3'']"
  by (simp add: siblings_def)

lemma sample_progress:
  "group_progress V1 ''g'' [sample_member_reply ''m2'', sample_member_reply ''m3''] [] (mock_view sample_group)"
proof -
  have "waitIndexKey V1 ''s'' \<noteq> task_group V1 ''g''" by (simp add: waitIndexKey_def)
  then show ?thesis
    by (simp add: group_progress_def group_books_def awaited_def sample_group_view sample_group_setup_def
        memberFromResume_def opt_or_def group_fields_differ [symmetric])
qed

theorem group_counted_once_witness:
  "result mock_exec (deliveries V1 [sample_member_reply ''m2'', sample_member_reply ''m2'', sample_member_reply ''m3'']) sample_group
     = Inr [Some (Some waiting_group_result), None, Some None]"
proof -
  have neq: "sample_member_reply ''m2'' \<noteq> sample_member_reply ''m3''" by (simp add: sample_member_reply_def)
  have "result mock_exec (deliveries V1 [sample_member_reply ''m2'', sample_member_reply ''m2'', sample_member_reply ''m3'']) sample_group
     = Inr (List.map (delivery_outcome 2 [sample_member_reply ''m2'', sample_member_reply ''m2'', sample_member_reply ''m3'']) [0, 1, 2])"
    using group_counted_once [OF mock_server.redis_available_axioms sample_siblings _ sample_progress,
      of "[sample_member_reply ''m2'', sample_member_reply ''m2'', sample_member_reply ''m3'']"]
    by (simp add: numeral_2_eq_2)
  then show ?thesis
    using neq by (simp add: delivery_outcome_def)
qed


definition plain :: host where
  "plain = \<lparr>h_plugin = (\<lambda>_. doneA ()), h_history = (\<lambda>_ _ _ _. Ret ()), h_span = (\<lambda>_. Ret ()), h_spanIdHex = (\<lambda>x. x)\<rparr>"

lemma plain_plain [simp]: "plain_host plain"
  by (simp add: plain_host_def plain_def)

definition sample_worker :: worker where
  "sample_worker = \<lparr>gw_schema = V1, gw_workerId = ''w1''\<rparr>"

definition sample_options :: "jobj \<Rightarrow> message_options" where
  "sample_options snapshot = \<lparr>mo_aborted = False, mo_cancelReason = [], mo_snapshot = snapshot, mo_execution = ''e1''\<rparr>"

lemma sample_worker_simps [simp]:
  "gw_schema sample_worker = V1" "\<not> mo_aborted (sample_options x)" "mo_snapshot (sample_options x) = x"
  by (simp_all add: sample_worker_def sample_options_def)



section \<open>One answer\<close>

text \<open>
  C11. Whatever the handler did and returned, after it the worker sends the
  caller exactly one reply, with the result's status, data, content and metadata;
  but an execution that suspended and returned no terminal status sends none, and
  is recorded with the state it waits in. The stand-ins the handler's dispatches
  queued go out before; nothing else leaves the session's own stream.
\<close>

theorem one_answer:
  assumes avail: "redis_available exec kv oth clk" and h: "plain_host h"
    and out: "normalizeProcessResult out = Inr r" and st: "tr_status r \<noteq> []"
    and sch: "ac_schema c = gw_schema w" and rc: "answerable rc"
  shows "\<exists>c' s' l. act_run exec (finishTask w h cmd (Some rc) out) c s = ((Inr (finished_result r c), c'), (s', l))
    \<and> apart (data_stream c) (sent l) = reply_messages (gw_schema w) (ac_pending c)
        @ (if ac_isSuspended c \<and> \<not> isTerminalState (tr_status r) then []
           else [(ctrl_stream (gw_schema w) (sourceAgentType (header rc)), command_payload (task_answer w rc r c))])
    \<and> (ac_isSuspended c \<and> ac_suspendedState c \<noteq> [] \<and> \<not> isTerminalState (tr_status r) \<longrightarrow>
         tr_status (finished_result r c) = ac_suspendedState c)"
proof -
  let ?ms = "reply_messages (gw_schema w) (ac_pending c)
        @ (if stays_suspended r c then [] else to_caller w rc (task_answer w rc r c))"
  have ctrl: "apart (data_stream c) ?ms = ?ms"
    by (auto simp: apart_def reply_messages_def to_caller_def data_stream_def sch filter_id_conv)
  have "wpA exec (finishTask w h cmd (Some rc) out) (\<lambda>a c' \<sigma>'. a = finished_result r c
      \<and> apart (data_stream c) (sent (snd \<sigma>')) = apart (data_stream c) ?ms) (\<lambda>_ _ _. False) c (s, [])"
    by (rule redis_available.wp_finishTask [OF avail h out st])
       (use rc in \<open>auto simp: redis_available.delivers_def [OF avail]\<close>)
  then have "wpA exec (finishTask w h cmd (Some rc) out) (\<lambda>a c' \<sigma>'. a = finished_result r c
      \<and> apart (data_stream c) (sent (snd \<sigma>')) = ?ms) (\<lambda>_ _ _. False) c (s, [])"
    unfolding ctrl .
  from act_run_wpA [OF this] obtain c' s' l where
    run: "act_run exec (finishTask w h cmd (Some rc) out) c s = ((Inr (finished_result r c), c'), (s', l))"
      "apart (data_stream c) (sent l) = ?ms"
    by (auto split: prod.splits sum.splits)
  have "ac_isSuspended c \<and> ac_suspendedState c \<noteq> [] \<and> \<not> isTerminalState (tr_status r) \<longrightarrow>
      tr_status (finished_result r c) = ac_suspendedState c"
    by (simp add: finished_result_def applySuspendedStatus_def)
  with run show ?thesis
    by (intro exI [of _ c'] exI [of _ s'] exI [of _ l]) (simp add: stays_suspended_def to_caller_def)
qed

definition sample_ask :: command where
  "sample_ask = AskAgentCommand ((mk_header ''m2'' ''s'' ''t'')\<lparr>sourceAgentType := ''boss'', targetAgentType := ''helper'',
     parentMessageId := ''m1''\<rparr>) (JStr ''do it'') True []"

definition sample_context :: agent_context where
  "sample_context = message_context sample_worker sample_ask (sample_options []) ''t''"

lemma sample_ask_simps [simp]:
  "answerable sample_ask" "sourceAgentType (header sample_ask) = ''boss''" "parentMessageId (header sample_ask) = ''m1''"
  "messageId (header sample_ask) = ''m2''" "taskGroupId (header sample_ask) = []"
  by (simp_all add: sample_ask_def answerable_def mk_header_def)

theorem one_answer_witness:
  "\<exists>c' s' l. act_run mock_exec (finishTask sample_worker plain sample_ask (Some sample_ask) (Value (VStr ''QUEUED'')))
       (suspend WAITING_AGENT sample_context) (empty_mock 5) = ((Inr (status_result WAITING_AGENT), c'), (s', l))
     \<and> apart (session_data_stream V1 ''s'') (sent l) = []"
proof -
  let ?c = "suspend WAITING_AGENT sample_context"
  have c: "ac_isSuspended ?c" "ac_suspendedState ?c = WAITING_AGENT" "ac_pending ?c = []" "ac_schema ?c = V1"
    "data_stream ?c = session_data_stream V1 ''s''"
    by (simp_all add: suspend_def sample_context_def message_context_def new_AgentContext_def data_stream_def sample_ask_def
        restoreInboundMetadata_def mk_header_def)
  have out: "normalizeProcessResult (Value (VStr ''QUEUED'')) = Inr (status_result QUEUED)"
    by (simp add: normalizeProcessResult_def agent_states_def state_defs)
  have st: "tr_status (status_result QUEUED) = QUEUED" "\<not> isTerminalState QUEUED" "QUEUED \<noteq> []"
    by (simp_all add: status_result_def AgentTaskResult_def isTerminalState_iff state_defs)
  have fin: "finished_result (status_result QUEUED) ?c = status_result WAITING_AGENT"
    using c st by (simp add: finished_result_def applySuspendedStatus_def)
      (simp add: status_result_def AgentTaskResult_def finalMessage_def opt_or_def state_defs)
  from one_answer [OF mock_server.redis_available_axioms plain_plain out, of ?c sample_worker sample_ask sample_ask "empty_mock 5"]
  show ?thesis using c st fin by (simp add: reply_messages_def) blast
qed

definition death_status :: "js_error \<Rightarrow> string" where
  "death_status e = (if isCancellation e then CANCELLED else FAILED)"

definition death_data :: "js_error \<Rightarrow> json" where
  "death_data e = (if isCancellation e then JObj [(''reason'', JStr (error_message e))] else JObj [(''error'', JStr (error_String e))])"

text \<open>
  C12. How a dispatched task dies. In an embedding without plugins, when the
  handler of a command that is not itself a reply throws, after sending whatever
  it sent, the message still returns normally: FAILED, or CANCELLED if the error
  is the cancellation of the task. The caller, when there is one, is sent exactly
  one reply after what the handler itself sent: FAILED with the error's text, or
  CANCELLED with its reason; only a cancelled task whose caller was itself asked
  to stop keeps silent. A command without a caller sends no reply.
\<close>

theorem failure_is_reported:
  assumes avail: "redis_available exec kv oth clk" and h: "plain_host h"
    and c: "\<not> isResumeCommand c" "sourceAgentType (header c) = [] \<or> answerable c" "\<not> mo_aborted opts"
    and k: "k = session_data_stream (gw_schema w) (sessionId (header c))"
    and throws: "\<And>trace \<sigma>. kv (fst \<sigma>) = kv s \<Longrightarrow> sent (snd \<sigma>) = [] \<Longrightarrow>
        wpA exec (handler c) (\<lambda>_ _ _. False)
          (\<lambda>e' ctx' \<sigma>'. e' = e \<and> data_stream ctx' = k \<and> apart k (sent (snd \<sigma>')) \<in> said_before
             \<and> (isCancellation e \<longrightarrow> lookup_execution (kv (fst \<sigma>')) (gw_schema w) (parentMessageId (header c)) (sessionId (header c)) = Inr caller))
          (message_context w c opts trace) \<sigma>"
  shows "\<exists>ctx. result exec (handleMessage w h handler c opts) s = Inr (Inr (status_result (death_status e)), ctx)
    \<and> (\<exists>ms \<in> said_before. apart k (sent (issued exec (handleMessage w h handler c opts) s))
        = ms @ (if sourceAgentType (header c) = [] \<or> isCancellation e \<and> asked_to_stop caller then []
                else [(ctrl_stream (gw_schema w) (sourceAgentType (header c)),
                  command_payload (owed_reply w c (death_status e) (death_data e) no_return_options))]))"
proof -
  let ?ms = "if sourceAgentType (header c) = [] \<or> isCancellation e \<and> asked_to_stop caller then []
      else to_caller w c (owed_reply w c (death_status e) (death_data e) no_return_options)"
  let ?reply = "if sourceAgentType (header c) = [] then None else Some c"
  have reply: "resolveReplyCommand c sn = ?reply" "restoreInboundMetadata c sn = c" for sn
    using c(1) by (cases c; simp add: resolveReplyCommand_def restoreInboundMetadata_def isResumeCommand_def)+
  have far: "apart k ?ms = ?ms" by (auto simp: to_caller_def k)
  have die: "wpA exec (error_exit w h c ?reply e) (\<lambda>a c'. \<lambda>\<sigma>'. a = status_result (death_status e)
      \<and> apart k (sent (snd \<sigma>')) = apart k (sent (snd \<sigma>)) @ ?ms) (\<lambda>_ _ _. False) ctx \<sigma>"
    if ctx: "data_stream ctx = k" and look: "isCancellation e \<Longrightarrow>
      lookup_execution (kv (fst \<sigma>)) (gw_schema w) (parentMessageId (header c)) (sessionId (header c)) = Inr caller" for ctx \<sigma>
  proof (cases "isCancellation e")
    case True
    then have exit: "error_exit w h c ?reply e = onCancelled w h c ?reply e" by (simp add: error_exit_def)
    show ?thesis unfolding exit
      by (rule redis_available.wp_onCancelled [OF avail h, where x = caller])
         (use c(2) look [OF True] True far in \<open>auto simp: ctx death_status_def death_data_def split: if_splits\<close>)
  next
    case False
    then have exit: "error_exit w h c ?reply e = onFailed w h c ?reply e" by (simp add: error_exit_def)
    show ?thesis unfolding exit
      by (rule redis_available.wp_onFailed [OF avail h])
         (use c(2) False far in \<open>auto simp: redis_available.delivers_def [OF avail] ctx death_status_def death_data_def split: if_splits\<close>)
  qed
  define rp ms where "rp = ?reply" and "ms = ?ms"
  note exit = die [folded rp_def ms_def]
  have "wp exec (handleMessage w h handler c opts) (\<lambda>rc \<sigma>'. \<exists>ctx. rc = (Inr (status_result (death_status e)), ctx)
      \<and> (\<exists>pre \<in> said_before. apart k (sent (snd \<sigma>')) = pre @ ms)) (\<lambda>_ _. False) (s, [])"
  proof (rule redis_available.wp_handleMessage [OF avail], goal_cases)
    case (1 trace \<sigma>1)
    then have s1: "kv (fst \<sigma>1) = kv s" "sent (snd \<sigma>1) = []" by (simp_all add: redis_available.quiet_def [OF avail])
    have "wpA exec (handler c) X
        (\<lambda>e'. wpA exec (error_exit w h c rp e') (\<lambda>a c' \<sigma>'. a = status_result (death_status e)
          \<and> (\<exists>pre \<in> said_before. apart k (sent (snd \<sigma>')) = pre @ ms)) (\<lambda>_ _ _. False))
        (message_context w c opts trace) \<sigma>1" for X
      by (rule wpA_mono [OF throws [OF s1]], simp, elim conjE, hypsubst, rule wpA_mono [OF exit]) auto
    then show ?case
      unfolding reply rp_def [symmetric] processTask_def using h c(1,3)
      by (simp add: checkNotCancelled_def joinReply_def)
  qed
  from wp_result [OF this] have "\<exists>ctx. result exec (handleMessage w h handler c opts) s = Inr (Inr (status_result (death_status e)), ctx)
      \<and> (\<exists>pre \<in> said_before. apart k (sent (issued exec (handleMessage w h handler c opts) s)) = pre @ ms)"
    by auto
  then show ?thesis
    unfolding ms_def to_caller_def .
qed

text \<open>A failing handler, and one that gives up because its task was cancelled.\<close>

theorem failure_is_reported_witness:
  "(\<exists>ctx. result mock_exec (handleMessage sample_worker plain (\<lambda>_. raiseA (JsError ''boom'')) sample_ask (sample_options [])) (empty_mock 5)
     = Inr (Inr (status_result FAILED), ctx))
   \<and> (\<exists>ctx. result mock_exec (handleMessage sample_worker plain (\<lambda>_. raiseA (TaskCancelledError ''stop'')) sample_ask (sample_options [])) (empty_mock 5)
     = Inr (Inr (status_result CANCELLED), ctx))"
proof -
  have c: "\<not> isResumeCommand sample_ask" by (simp add: sample_ask_def isResumeCommand_def)
  have k: "data_stream (message_context sample_worker sample_ask (sample_options []) t) = session_data_stream V1 ''s''" for t
    by (simp add: data_stream_def message_context_def new_AgentContext_def sample_ask_def mk_header_def)
  have look: "lookup_execution (mock_view (empty_mock 5)) V1 ''m1'' ''s'' = Inr None"
    by (simp add: lookup_execution_def)
  have st: "death_status (JsError ''boom'') = FAILED" "death_status (TaskCancelledError ''stop'') = CANCELLED"
    "\<not> isCancellation (JsError ''boom'')"
    by (simp_all add: death_status_def isCancellation_def error_name_def)
  have s: "sessionId (header sample_ask) = ''s''" by (simp add: sample_ask_def mk_header_def)
  note dies = failure_is_reported [OF mock_server.redis_available_axioms plain_plain c _ _ refl, where opts = "sample_options []"
      and w = sample_worker and s = "empty_mock 5" and handler = "\<lambda>_. raiseA e" and e = e and said_before = "{[]}" and caller = None for e]
  show ?thesis using dies [of "JsError ''boom''"] dies [of "TaskCancelledError ''stop''"] by (auto simp: k st s look)
qed


section \<open>Who is answered, and with which metadata\<close>

text \<open>
  The two directions of a resumption. The reply of a resumed execution goes
  to the agent, the message and the group its record names, not to the hop that
  woke it; its metadata is the recorded one under the result's own, with nothing
  of the waking message. What the handler reads is the other way round: the
  waking message's metadata over the recorded one, from which the framework's
  per-hop keys are left out. An execution a client dispatched answers nobody.
\<close>

lemma resume_directions:
  assumes c: "c = ResumeCommand h ct st rd x" and wf: "wf_obj (snapshot_metadata snap)" "wf_obj (metadata h)" "wf_obj (ro_metadata opts)"
  shows "(has_caller snap \<longrightarrow> (\<exists>rc. resolveReplyCommand c snap = Some rc
      \<and> (\<forall>status data. let reply = header (owed_reply w rc status data opts) in
            targetAgentType reply = snapshot_text snap ''source_agent_type''
          \<and> messageId reply = snapshot_text snap ''parent_message_id''
          \<and> taskGroupId reply = snapshot_text snap ''task_group_id''
          \<and> parentMessageId reply = messageId h
          \<and> (\<forall>k. oget (metadata reply) k = (case oget (ro_metadata opts) k of Some v \<Rightarrow> Some v
                  | None \<Rightarrow> oget (snapshot_metadata snap) k)))))
    \<and> (\<not> has_caller snap \<longrightarrow> resolveReplyCommand c snap = None)
    \<and> (\<forall>k. oget (metadata (header (restoreInboundMetadata c snap))) k = (case oget (metadata h) k of Some v \<Rightarrow> Some v
          | None \<Rightarrow> if k \<in> set FRAMEWORK_HOP_METADATA_KEYS then None else oget (snapshot_metadata snap) k))"
proof -
  have "oget (metadata (header (restoreInboundMetadata c snap))) k = (case oget (metadata h) k of Some v \<Rightarrow> Some v
          | None \<Rightarrow> if k \<in> set FRAMEWORK_HOP_METADATA_KEYS then None else oget (snapshot_metadata snap) k)" for k
    using merged_metadata [OF wf(1,2)] by (simp add: c restoreInboundMetadata_def inbound_header_def)
  moreover have "has_caller snap \<Longrightarrow> resolveReplyCommand c snap = Some (ResumeCommand (caller_header h snap) ct st rd x)"
    "\<not> has_caller snap \<Longrightarrow> resolveReplyCommand c snap = None"
    by (simp_all add: c resolveReplyCommand_def)
  ultimately show ?thesis
    using wf by (simp add: owed_reply_def oget_ospread Let_def split: option.splits)
qed

definition sample_snapshot :: jobj where
  "sample_snapshot = [(''source_agent_type'', JStr ''boss''), (''parent_message_id'', JStr ''m1''),
     (''metadata'', JObj [(''tenant'', JStr ''a''), (''trace_parent_span_id'', JStr ''old'')])]"

lemma resume_directions_example:
  "\<exists>rc. resolveReplyCommand (sample_member_reply ''m3'') sample_snapshot = Some rc
     \<and> targetAgentType (header (owed_reply sample_worker rc ''COMPLETED'' JNull no_return_options)) = ''boss''
     \<and> oget (metadata (header (owed_reply sample_worker rc ''COMPLETED'' JNull no_return_options))) ''tenant'' = Some (JStr ''a'')
     \<and> oget (metadata (header (restoreInboundMetadata (sample_member_reply ''m3'') sample_snapshot))) ''tenant'' = Some (JStr ''a'')
     \<and> oget (metadata (header (restoreInboundMetadata (sample_member_reply ''m3'') sample_snapshot))) ''trace_parent_span_id'' = None"
proof -
  have facts: "has_caller sample_snapshot" "snapshot_text sample_snapshot ''source_agent_type'' = ''boss''"
    "snapshot_metadata sample_snapshot = [(''tenant'', JStr ''a''), (''trace_parent_span_id'', JStr ''old'')]"
    by (simp_all add: has_caller_def snapshot_text_def snapshot_metadata_def sample_snapshot_def CLIENT_SOURCE_AGENT_TYPE_def)
  have "ro_metadata no_return_options = []" by (simp add: no_return_options_def)
  then show ?thesis
    using resume_directions [OF refl, of sample_snapshot "(mk_header ''m1'' ''s'' ''t'')\<lparr>sourceAgentType := ''helper'', targetAgentType := ''boss'',
        parentMessageId := ''m3'', taskGroupId := ''g''\<rparr>" no_return_options "JStr []" "''COMPLETED''" "JStr ''m3''" "[]" sample_worker]
    by (auto simp: sample_member_reply_def facts mk_header_def FRAMEWORK_HOP_METADATA_KEYS_def Let_def)
qed


section \<open>Delivery\<close>

definition retry_trace :: "key \<Rightarrow> string \<Rightarrow> nat \<Rightarrow> cmd list" where
  "retry_trace k d n = Xadd k d # concat (List.map (\<lambda>i. [Sleep (FIRST_RETRY_WAIT_MS * int i), Xadd k d]) [1..<n])"

lemma retry_trace_Suc: "1 \<le> n \<Longrightarrow> retry_trace k d (Suc n) = retry_trace k d n @ [Sleep (FIRST_RETRY_WAIT_MS * int n), Xadd k d]"
  by (simp add: retry_trace_def)

lemma xadd_attempts_trace:
  assumes sleep: "\<And>ms s. \<exists>r s'. exec (Sleep ms) s = (Inr r, s')"
  shows "1 \<le> a \<Longrightarrow> l @ [Xadd k d] = retry_trace k d a \<Longrightarrow>
     wp exec (xadd_attempts (Suc n) (int a) k d) (\<lambda>_ \<sigma>'. \<exists>m. a \<le> m \<and> m \<le> a + n \<and> snd \<sigma>' = retry_trace k d m)
       (\<lambda>_ \<sigma>'. snd \<sigma>' = retry_trace k d (a + n)) (s, l)"
proof (induction n arbitrary: a s l)
  case 0
  then show ?case by (auto simp: xaddP_def cmdP_def wp_Step split: prod.splits sum.splits)
next
  case (Suc n)
  have rest: "wp exec (xadd_attempts (Suc n) (int a + 1) k d) (\<lambda>_ \<sigma>'. \<exists>m. a \<le> m \<and> m \<le> a + Suc n \<and> snd \<sigma>' = retry_trace k d m)
       (\<lambda>_ \<sigma>'. snd \<sigma>' = retry_trace k d (a + Suc n)) (s2, (l @ [Xadd k d]) @ [Sleep (FIRST_RETRY_WAIT_MS * int a)])" for s2
  proof (rule wp_mono)
    show "wp exec (xadd_attempts (Suc n) (int a + 1) k d) (\<lambda>_ \<sigma>'. \<exists>m. Suc a \<le> m \<and> m \<le> Suc a + n \<and> snd \<sigma>' = retry_trace k d m)
       (\<lambda>_ \<sigma>'. snd \<sigma>' = retry_trace k d (Suc a + n)) (s2, (l @ [Xadd k d]) @ [Sleep (FIRST_RETRY_WAIT_MS * int a)])"
      using Suc.IH [of "Suc a" "(l @ [Xadd k d]) @ [Sleep (FIRST_RETRY_WAIT_MS * int a)]"] Suc.prems
      by (simp add: retry_trace_Suc add.commute del: xadd_attempts.simps)
  qed (auto, metis Suc_leD)
  have "wp exec (sleepP (FIRST_RETRY_WAIT_MS * int a)) (\<lambda>_. wp exec (xadd_attempts (Suc n) (int a + 1) k d)
       (\<lambda>_ \<sigma>'. \<exists>m. a \<le> m \<and> m \<le> a + Suc n \<and> snd \<sigma>' = retry_trace k d m)
       (\<lambda>_ \<sigma>'. snd \<sigma>' = retry_trace k d (a + Suc n))) E (s1, l @ [Xadd k d])" for s1 E
    using sleep [of "FIRST_RETRY_WAIT_MS * int a" s1] rest
    by (auto simp: sleepP_def cmdP_def wp_Step simp del: xadd_attempts.simps)
  then show ?case
    using Suc.prems
    by (subst xadd_attempts.simps) (auto simp: xaddP_def cmdP_def wp_Step simp del: xadd_attempts.simps
        split: prod.splits sum.splits)
qed

text \<open>
  Delivering a reply ends. Whatever the server does with the commands, the
  worker tries at most three times, waiting one and then two seconds in between,
  and it reports a failure only after the third attempt.
\<close>

lemma delivery_is_bounded:
  assumes sleep: "\<And>ms s. \<exists>r s'. exec (Sleep ms) s = (Inr r, s')"
  shows "\<exists>n. 1 \<le> n \<and> n \<le> 3 \<and> issued exec (xaddWithRetry stream payload) s = retry_trace stream payload n
     \<and> (result exec (xaddWithRetry stream payload) s = Inr () \<or> n = 3 \<and> (\<exists>e. result exec (xaddWithRetry stream payload) s = Inl e))"
proof -
  have "wp exec (xaddWithRetry stream payload) (\<lambda>_ \<sigma>'. \<exists>m. 1 \<le> m \<and> m \<le> 3 \<and> snd \<sigma>' = retry_trace stream payload m)
       (\<lambda>_ \<sigma>'. snd \<sigma>' = retry_trace stream payload 3) (s, [])"
    using xadd_attempts_trace [of exec 1 "[]" stream payload 2 s] sleep
    by (simp add: xaddWithRetry_def MAX_RETRY_COUNT_def retry_trace_def numeral_3_eq_3 numeral_2_eq_2 del: xadd_attempts.simps)
  from wp_result [OF this] show ?thesis by auto
qed

lemma delivery_is_bounded_example:
  "\<exists>n. 1 \<le> n \<and> n \<le> 3 \<and> issued (failing_exec (\<lambda>c. c = Xadd ''k'' ''d'')) (xaddWithRetry ''k'' ''d'') (empty_mock 0) = retry_trace ''k'' ''d'' n"
  using delivery_is_bounded [of "failing_exec (\<lambda>c. c = Xadd ''k'' ''d'')" "''k''" "''d''" "empty_mock 0"]
  mock_server.available [of "Sleep ms" for ms]
  by (auto simp: failing_exec_def)

end
