(* ===== verification/RunnerProperties.thy ===== *)
theory RunnerProperties
  imports Runner WorkerProperties DispatchProperties
begin

text \<open>
  What the runner makes sure of: nothing runs twice, no execution stays in its
  tables, only the messages of dead workers are taken over, and a runner whose
  worker id belongs to someone else stops.
\<close>


section \<open>The tables\<close>

text \<open>
  The execution a message runs as: the id its record names, as some look-up
  answered it, else its trace, else a fresh one.
\<close>

definition ran_as :: "(cmd \<Rightarrow> 's \<Rightarrow> answer \<times> 's) \<Rightarrow> runner_config \<Rightarrow> command \<Rightarrow> string \<Rightarrow> bool" where
  "ran_as exec cfg c e \<longleftrightarrow> (\<exists>existing s1 s2.
     result exec (getExecutionByMessageId (rc_schema cfg) (messageId (header c)) (sessionId (header c))) s1 = Inr existing
     \<and> result exec (execution_id existing c) s2 = Inr e)"

lemma wp_result_any:
  "(\<And>a \<sigma>'. result exec p (fst \<sigma>) = Inr a \<Longrightarrow> Q a \<sigma>') \<Longrightarrow> (\<And>e \<sigma>'. E e \<sigma>') \<Longrightarrow> wp exec p Q E \<sigma>"
  using result_any_log [of exec p "fst \<sigma>" "snd \<sigma>"] by (auto simp: wp_def split: prod.splits sum.splits)

lemma execution_id_same: "traceId (header c') = traceId (header c) \<Longrightarrow> execution_id existing c' = execution_id existing c"
  by (simp add: execution_id_def)

text \<open>Whatever the connection does, the tables are as they were but for the message at hand.\<close>

definition only_tracks :: "(string \<Rightarrow> bool) \<Rightarrow> string \<Rightarrow> runner \<Rightarrow> runner \<Rightarrow> bool" where
  "only_tracks P m r r' \<longleftrightarrow> r' = r \<or> (\<exists>x. re_message x = m \<and> P (re_execution x) \<and> r' = track x r)"

lemma only_tracks_refl [simp]: "only_tracks P m r r"
  by (simp add: only_tracks_def)

lemma wp_any: "(\<And>a \<sigma>'. Q a \<sigma>') \<Longrightarrow> (\<And>e \<sigma>'. E e \<sigma>') \<Longrightarrow> wp exec p Q E \<sigma>"
  by (simp add: wp_def split: prod.splits sum.splits)

lemma with_history_id: "with_history c hist = Inr c' \<Longrightarrow> messageId (header c') = messageId (header c)"
  by (cases c) (auto simp: with_history_def check_command_def split: option.splits)

lemma with_history_header: "with_history c hist = Inr c' \<Longrightarrow> sessionId (header c') = sessionId (header c)
    \<and> traceId (header c') = traceId (header c) \<and> isResumeCommand c' = isResumeCommand c"
  by (cases c) (auto simp: with_history_def check_command_def isResumeCommand_def split: option.splits)

lemma tracks_running [simp]: "messageId (header c) = m \<Longrightarrow> P e \<Longrightarrow> only_tracks P m r (track (running_of cfg existing c e) r)"
  unfolding only_tracks_def by (intro disjI2 exI conjI) (simp_all add: running_of_def)

lemma run_message_tracks:
  assumes "messageId (header c) = m" and "\<And>s e. result exec (execution_id existing c) s = Inr e \<Longrightarrow> P e"
  shows "wpA exec (run_message cfg stream msgId c existing) (\<lambda>_ r' _. only_tracks P m r r') (\<lambda>_ r' _. only_tracks P m r r') r \<sigma>"
  unfolding run_message_def wpA_bindA wpA_liftA
  by (rule wp_result_any) (use assms in \<open>auto simp: Let_def intro!: wp_any\<close>)

lemma admitted_tracks:
  "wpA exec (admitted_message cfg stream msgId c) (\<lambda>_ r' _. only_tracks (ran_as exec cfg c) (messageId (header c)) r r')
     (\<lambda>_ r' _. only_tracks (ran_as exec cfg c) (messageId (header c)) r r') r \<sigma>"
proof -
  let ?T = "\<lambda>_ r' _. only_tracks (ran_as exec cfg c) (messageId (header c)) r r'"
  have rest: "wp exec (getExecutionByMessageId (rc_schema cfg) (messageId (header c')) (sessionId (header c')))
      (\<lambda>existing. wpA exec (if finished_replay existing c' then liftA (ack cfg stream msgId)
        else run_message cfg stream msgId c' existing) ?T ?T r) (\<lambda>_ _. only_tracks (ran_as exec cfg c) (messageId (header c)) r r) \<sigma>'"
    if c': "with_history c hist = Inr c'" for c' hist \<sigma>'
  proof (rule wp_result_any, goal_cases)
    case (1 existing \<sigma>2)
    then have "ran_as exec cfg c e" if "result exec (execution_id existing c') s2 = Inr e" for s2 e
      using that execution_id_same [of c' c existing] with_history_header [OF c'] with_history_id [OF c'] unfolding ran_as_def by metis
    then have "wpA exec (run_message cfg stream msgId c' existing) ?T ?T r \<sigma>2"
      by (rule run_message_tracks [OF with_history_id [OF c']])
    then show ?case by (cases "finished_replay existing c'") (simp_all add: wp_any)
  qed simp
  show ?thesis
    unfolding admitted_message_def wpA_bindA wpA_liftA wpA_checkedA
  proof (intro wp_any)
    fix hist \<sigma>1
    show "(case with_history c hist of Inl e \<Rightarrow> \<lambda>r' _. only_tracks (ran_as exec cfg c) (messageId (header c)) r r'
        | Inr c' \<Rightarrow> \<lambda>r'. wp exec (getExecutionByMessageId (rc_schema cfg) (messageId (header c')) (sessionId (header c')))
          (\<lambda>existing. wpA exec (if finished_replay existing c' then liftA (ack cfg stream msgId) else run_message cfg stream msgId c' existing)
             ?T ?T r') (\<lambda>_ _. only_tracks (ran_as exec cfg c) (messageId (header c)) r r')) r \<sigma>1"
      using rest [of hist _ \<sigma>1] by (cases "with_history c hist") simp_all
  qed simp
qed

lemma untracked_message: "map_of (rn_messages (untrack m r)) y = (if y = m \<and> map_of (rn_messages r) m \<noteq> Some [] then None else map_of (rn_messages r) y)"
  by (auto simp: untrack_def delete_conv split: option.splits)

lemma untracked_active: "map_of (rn_active (untrack m r)) e =
    (if e \<noteq> [] \<and> map_of (rn_messages r) m = Some e then None else map_of (rn_active r) e)"
  by (auto simp: untrack_def delete_conv split: option.splits)

lemma tracked [simp]:
  "map_of (rn_messages (track x r)) y = (if y = re_message x then Some (re_execution x) else map_of (rn_messages r) y)"
  "map_of (rn_active (track x r)) e = (if e = re_execution x then Some x else map_of (rn_active r) e)"
  by (simp_all add: track_def update_conv)

definition is_cancel :: "command \<Rightarrow> bool" where
  "is_cancel c \<longleftrightarrow> (case c of CancelTaskCommand _ _ _ _ _ _ _ \<Rightarrow> True | _ \<Rightarrow> False)"

lemma process_body:
  "\<not> is_cancel c \<Longrightarrow> processAndAck cfg stream msgId c = finallyA (bindA (liftA (admit cfg c)) (\<lambda>denied. case denied of
       Some d \<Rightarrow> liftA (drop_reply cfg stream msgId c d)
     | None \<Rightarrow> admitted_message cfg stream msgId c)) (writeA (untrack (messageId (header c))))"
  by (cases c) (simp_all add: processAndAck_def is_cancel_def)

lemma process_tracks:
  assumes "\<not> is_cancel c" and "\<And>r'. only_tracks (ran_as exec cfg c) (messageId (header c)) r r' \<Longrightarrow> P (untrack (messageId (header c)) r')"
  shows "wpA exec (processAndAck cfg stream msgId c) (\<lambda>_ r' _. P r') (\<lambda>_ r' _. P r') r \<sigma>"
proof -
  let ?m = "messageId (header c)" and ?T = "\<lambda>_ r' _. only_tracks (ran_as exec cfg c) (messageId (header c)) r r'"
  have "wpA exec (case denied of Some d \<Rightarrow> liftA (drop_reply cfg stream msgId c d) | None \<Rightarrow> admitted_message cfg stream msgId c)
      ?T ?T r \<sigma>1" for denied \<sigma>1
    using admitted_tracks [where c = c] by (cases denied) (simp_all add: wp_any)
  then have "wpA exec (bindA (liftA (admit cfg c)) (\<lambda>denied. case denied of
       Some d \<Rightarrow> liftA (drop_reply cfg stream msgId c d)
     | None \<Rightarrow> admitted_message cfg stream msgId c)) ?T ?T r \<sigma>"
    unfolding wpA_bindA wpA_liftA by (intro wp_any) simp_all
  then show ?thesis
    unfolding process_body [OF assms(1)] wpA_finallyA wpA_writeA by (rule wpA_mono) (use assms(2) in simp_all)
qed

text \<open>What is left of a message in the tables: everything but its own rows.\<close>

definition cleared :: "string \<Rightarrow> string \<Rightarrow> runner \<Rightarrow> runner \<Rightarrow> bool" where
  "cleared m e r r' \<longleftrightarrow> r' = r\<lparr>rn_messages := rn_messages r', rn_active := rn_active r'\<rparr>
     \<and> map_of (rn_messages r') = (map_of (rn_messages r))(m := None) \<and> map_of (rn_active r') = (map_of (rn_active r))(e := None)"

lemma cleared_tracked:
  assumes "re_message x = m" "re_execution x \<noteq> []"
  shows "cleared m (re_execution x) r (untrack m (track x r))"
  using assms by (auto simp: cleared_def fun_eq_iff untracked_message untracked_active)
    (simp add: untrack_def track_def split: option.splits)

lemma cleared_known:
  assumes "map_of (rn_messages r) m = Some e" "e \<noteq> []"
  shows "cleared m e r (untrack m r)"
  using assms by (auto simp: cleared_def fun_eq_iff untracked_message untracked_active)
    (simp add: untrack_def split: option.splits)

definition tidied :: "(cmd \<Rightarrow> 's \<Rightarrow> answer \<times> 's) \<Rightarrow> runner_config \<Rightarrow> command \<Rightarrow> runner \<Rightarrow> runner \<Rightarrow> bool" where
  "tidied exec cfg c r r' \<longleftrightarrow> r' = r \<and> map_of (rn_messages r) (messageId (header c)) \<in> {None, Some []}
     \<or> (\<exists>e. (map_of (rn_messages r) (messageId (header c)) = Some e \<or> ran_as exec cfg c e)
          \<and> (if e = [] then \<exists>x. re_message x = messageId (header c) \<and> re_execution x = [] \<and> r' = track x r
             else cleared (messageId (header c)) e r r'))"

lemma tidied_untrack:
  assumes "only_tracks (ran_as exec cfg c) (messageId (header c)) r r'"
  shows "tidied exec cfg c r (untrack (messageId (header c)) r')"
  using assms unfolding only_tracks_def
proof (elim disjE exE conjE)
  assume "r' = r"
  then show ?thesis
    using cleared_known [of r "messageId (header c)"]
    by (cases "map_of (rn_messages r) (messageId (header c)) \<in> {None, Some []}") (auto simp: untrack_def tidied_def)
next
  fix x assume x: "re_message x = messageId (header c)" "ran_as exec cfg c (re_execution x)" "r' = track x r"
  show ?thesis
  proof (cases "re_execution x = []")
    case True
    then have "untrack (messageId (header c)) r' = track x r" using x(1,3) by (simp add: untrack_def)
    then show ?thesis using x True unfolding tidied_def by metis
  next
    case False
    then show ?thesis using cleared_tracked [OF x(1), of r] x(2,3) unfolding tidied_def by auto
  qed
qed

text \<open>
  C19. No execution is left behind, and none is lost. Whatever the connection
  answers, however the handler ends, and also when a part of the processing
  throws: after any message but a cancel order the runner is as it was, or it
  differs only by the two rows of this message, which are gone: the one that
  tracked the message, and that of the one execution the message ran as, or had
  been tracked as before. Every other execution stays listed exactly as it was.
  (The exception is an id in the record that is not text: the row of such an
  execution stays.)
\<close>

theorem no_execution_left_behind:
  assumes "\<not> is_cancel c"
  shows "\<exists>out r' \<sigma>. act_run exec (processAndAck cfg stream msgId c) r s = ((out, r'), \<sigma>) \<and> tidied exec cfg c r r'"
proof -
  have "wpA exec (processAndAck cfg stream msgId c) (\<lambda>_ r' _. tidied exec cfg c r r') (\<lambda>_ r' _. tidied exec cfg c r r') r (s, [])"
    by (rule process_tracks [where P = "tidied exec cfg c r", OF assms(1)]) (rule tidied_untrack)
  from act_run_wpA [OF this] show ?thesis by (cases "act_run exec (processAndAck cfg stream msgId c) r s") (auto split: sum.splits)
qed

definition sample_config :: runner_config where
  "sample_config = \<lparr>rc_worker = sample_worker, rc_registry = sample_registry, rc_agentTypes = [''helper''], rc_group = ''g'',
     rc_fetchCount = 10, rc_leaseTtlSeconds = 15, rc_host = idle_host, rc_handler = (\<lambda>_. raiseA (JsError ''boom'')),
     rc_history = (\<lambda>_. Ret (JArr [])), rc_read = (\<lambda>_ _ _. Ret None), rc_pending = (\<lambda>_ _. Ret []),
     rc_claim = (\<lambda>_ _ _. Ret [])\<rparr>"

text \<open>A runner that is busy with another message while it processes this one.\<close>

definition busy_runner :: runner where
  "busy_runner = track (running_of sample_config None (AskAgentCommand (mk_header ''m9'' ''s'' ''t9'') (JStr ''else'') True []) ''t9'') (new_runner (new_health 50 15))"

theorem no_execution_left_behind_witness:
  "\<exists>out r' \<sigma>. act_run mock_exec (processAndAck sample_config ''k'' ''1-0'' sample_ask) busy_runner (empty_mock 5) = ((out, r'), \<sigma>)
    \<and> tidied mock_exec sample_config sample_ask busy_runner r' \<and> map_of (rn_messages busy_runner) ''m9'' = Some ''t9''"
proof -
  have "\<not> is_cancel sample_ask" by (simp add: is_cancel_def sample_ask_def)
  moreover have "map_of (rn_messages busy_runner) ''m9'' = Some ''t9''"
    by (simp add: busy_runner_def running_of_def mk_header_def)
  ultimately show ?thesis
    using no_execution_left_behind [of sample_ask mock_exec sample_config "''k''" "''1-0''" busy_runner "empty_mock 5"] by blast
qed


section \<open>Dead workers\<close>

text \<open>
  Only the messages of dead workers are taken over: what may be claimed of a
  stream's pending entries is exactly what belongs to another worker, has
  been idle for several lease times, and whose owner holds no lease; finding it
  out changes nothing.
\<close>

lemma orphans_of_the_dead_only:
  assumes avail: "redis_available exec kv oth clk"
  shows "result exec (claimable cfg pending) s = Inr (List.map fst (filter (\<lambda>(msgId, consumer, idleMs).
      consumer \<noteq> rc_id cfg \<and> orphanReclaimIdleMs cfg \<le> idleMs
      \<and> \<not> presence_online (v_str (kv s) (worker_online_lease (reg_schema (rc_registry cfg)) consumer))) pending))
    \<and> kv (final exec (claimable cfg pending) s) = kv s \<and> sent (issued exec (claimable cfg pending) s) = []"
proof -
  let ?dead = "\<lambda>(msgId, consumer, idleMs). consumer \<noteq> rc_id cfg \<and> orphanReclaimIdleMs cfg \<le> idleMs
      \<and> \<not> presence_online (v_str (kv s) (worker_online_lease (reg_schema (rc_registry cfg)) consumer))"
  let ?I = "\<lambda>done ids \<sigma>. ids = List.map fst (filter ?dead done) \<and> redis_available.quiet kv oth clk (s, []) \<sigma>"
  have "wp exec (claimable cfg pending) (\<lambda>ids. ?I pending ids) (\<lambda>_ _. False) (s, [])"
    unfolding claimable_def
  proof (rule wp_foldP_inv, goal_cases)
    case (1 ys x zs ids \<sigma>)
    obtain msgId consumer idleMs where x: "x = (msgId, consumer, idleMs)" by (cases x) auto
    have q: "redis_available.quiet kv oth clk (s, []) \<sigma>" and ids: "ids = List.map fst (filter ?dead ys)" using 1 by simp_all
    then have same: "kv (fst \<sigma>) = kv s" by (simp add: redis_available.quiet_def [OF avail])
    show ?case
    proof (cases "consumer = rc_id cfg \<or> idleMs < orphanReclaimIdleMs cfg")
      case True
      then show ?thesis using 1 by (auto simp: x)
    next
      case False
      have "wp exec (isWorkerOnline (rc_registry cfg) consumer) (\<lambda>online. wp exec (Ret (if online then ids else ids @ [msgId]))
          (\<lambda>ids. ?I (ys @ [x]) ids) (\<lambda>_ _. False)) (\<lambda>_ _. False) \<sigma>"
        by (rule redis_available.quiet_isWorkerOnline [OF avail])
           (use False ids same redis_available.quiet_trans [OF avail q] in \<open>auto simp: x\<close>)
      then show ?thesis using False by (simp add: x)
    qed
  qed (simp add: redis_available.quiet_refl [OF avail])
  from wp_total [OF this] show ?thesis by (auto simp: redis_available.quiet_def [OF avail])
qed

lemma orphans_of_the_dead_only_example:
  "result mock_exec (claimable sample_config [(''1-0'', ''gone'', 60000), (''2-0'', ''gone'', 59999)]) (empty_mock 5) = Inr [''1-0'']"
  using orphans_of_the_dead_only [OF mock_server.redis_available_axioms, of sample_config "[(''1-0'', ''gone'', 60000), (''2-0'', ''gone'', 59999)]" "empty_mock 5"]
  by (simp add: sample_config_def rc_id_def sample_worker_def orphanReclaimIdleMs_def ORPHAN_RECLAIM_LEASE_MULTIPLE_def empty_view presence_online_def)


section \<open>A lost worker id\<close>

lemma wpA_healthA [simp]: "wpA exec (healthA m) Q E r \<sigma> =
    wpA exec m (\<lambda>a h. Q a (r\<lparr>rn_health := h\<rparr>)) (\<lambda>e h. E e (r\<lparr>rn_health := h\<rparr>)) (rn_health r) \<sigma>"
  unfolding wpA_def healthA_def by (simp add: wp_settled) (rule wp_eqI, auto split: sum.splits)

context redis_available
begin

lemma quiet_foreign_heartbeat:
  assumes owner: "lease_owner (kv (fst \<sigma>)) (reg_schema reg) w = Some t" and foreign: "lock_token reg w \<noteq> Some t"
  shows "wp exec (heartbeatWorker reg w ttl) (\<lambda>ok \<sigma>'. \<not> ok \<and> quiet \<sigma> \<sigma>') (\<lambda>_ _. False) \<sigma>"
proof -
  let ?k = "worker_online_lease (reg_schema reg) w"
  obtain x where x: "v_str (kv (fst \<sigma>)) ?k = Some x" "dp_token (decodeWorkerPresence (Some x)) = Some t"
    using owner by (auto simp: lease_owner_def split: option.splits)
  have "wp exec (getP ?k) (\<lambda>current. wp exec (case lock_token reg w of
      Some token \<Rightarrow> if current = None then p token else if dp_token (decodeWorkerPresence current) \<noteq> Some token then Ret False else q token
    | None \<Rightarrow> if dp_token (decodeWorkerPresence current) \<noteq> None then Ret False else r)
      (\<lambda>ok \<sigma>'. \<not> ok \<and> quiet \<sigma> \<sigma>') (\<lambda>_ _. False)) (\<lambda>_ _. False) \<sigma>1" if "quiet \<sigma> \<sigma>1" for p q r \<sigma>1
    by (rule quiet_getP) (use that foreign x quiet_trans [OF that] in \<open>cases "lock_token reg w", auto simp: quiet_def\<close>)
  then show ?thesis
    unfolding heartbeatWorker_def Let_def wp_bindP [of exec nowP] wp_bindP [of exec "getP ?k"] by (intro quiet_nowP)
qed

lemma wp_evaluateHealth:
  assumes "\<And>goes_on h' \<sigma>'. quiet \<sigma> \<sigma>' \<Longrightarrow> (goes_on \<longleftrightarrow> hl_state h' \<noteq> Fatal) \<Longrightarrow> Q goes_on h' \<sigma>'"
  shows "wpA exec evaluateHealth Q E h \<sigma>"
proof (cases "hl_state h = Fatal")
  case True
  then show ?thesis using assms [of \<sigma> False h] by (simp add: evaluateHealth_def)
next
  case False
  have "Q (fst (judge b now h)) (snd (judge b now h)) \<sigma>2" if "quiet \<sigma> \<sigma>1" "quiet \<sigma>1 \<sigma>2" for b now \<sigma>1 \<sigma>2
    using assms [OF quiet_trans [OF that]] judge_answer [OF False] by blast
  then show ?thesis
    using False unfolding evaluateHealth_def wpA_bindA wpA_readA wpA_liftA
    by (simp add: case_prod_unfold) (rule quiet_nowP, rule quiet_nowP)
qed

end

text \<open>
  C21. A runner that has lost its worker id stops. When the presence lease carries
  the token of another process, the next cycle of the heartbeat renews nothing
  and registers nothing: it leaves no timer behind, and the runner is fatal and
  no longer running, whatever its health was.
\<close>

theorem fenced_runner_stops:
  assumes avail: "redis_available exec kv oth clk"
    and owner: "lease_owner (kv s) (reg_schema (rc_registry cfg)) (rc_id cfg) = Some t"
    and foreign: "lock_token (rc_registry cfg) (rc_id cfg) \<noteq> Some t"
  shows "\<exists>h' r' s' l. act_run exec (tick (runner_heartbeat cfg)) (h, r) s = ((Inr (), (h', r')), (s', l))
    \<and> \<not> hb_interval h' \<and> \<not> hb_retry h' \<and> \<not> rn_running r' \<and> hl_state (rn_health r') = Fatal
    \<and> kv s' = kv s \<and> sent l = []"
proof -
  let ?hc = "runner_heartbeat cfg"
  let ?Q = "\<lambda>_ (h', r') \<sigma>'. \<not> hb_interval h' \<and> \<not> hb_retry h' \<and> \<not> rn_running r' \<and> hl_state (rn_health r') = Fatal
    \<and> kv (fst \<sigma>') = kv s \<and> sent (snd \<sigma>') = []"
  have hooks: "hc_registry ?hc = rc_registry cfg" "hc_workerId ?hc = rc_id cfg" "hc_leaseTtlSeconds ?hc = rc_leaseTtlSeconds cfg"
    "hc_healthCheck ?hc = Some (healthA evaluateHealth)" "hc_unhealthy ?hc = Some (\<lambda>r. r\<lparr>rn_running := False\<rparr>)"
    "hc_fenced ?hc = Some (\<lambda>r. r\<lparr>rn_health := fence (rn_health r), rn_running := False\<rparr>)"
    by (simp_all add: runner_heartbeat_def)
  have renew: "wpA exec (bindA (renewLease ?hc) (\<lambda>out. if out \<noteq> Renewed then doneA () else sync_admin ?hc)) ?Q E (h0, r0) \<sigma>1"
    if same: "kv (fst \<sigma>1) = kv s" "sent (snd \<sigma>1) = []" for h0 r0 \<sigma>1 E
  proof -
    have "lease_owner (kv (fst \<sigma>1)) (reg_schema (rc_registry cfg)) (rc_id cfg) = Some t" using owner same by simp
    note refused = redis_available.quiet_foreign_heartbeat [OF avail this foreign, of "rc_leaseTtlSeconds cfg"]
    show ?thesis
      unfolding renewLease_def wpA_bindA wpA_catchA wpA_liftA hooks
      by (rule wp_mono [OF refused]) (use same in \<open>auto simp: fence_def stop_heart_def redis_available.quiet_def [OF avail]\<close>)
  qed
  have "wpA exec (tick ?hc) ?Q (\<lambda>_ _ _. False) (h, r) (s, [])"
    unfolding tick_def wpA_catchA wpA_bindA hooks option.case wpA_ownerA wpA_healthA
  proof (rule redis_available.wp_evaluateHealth [OF avail], goal_cases)
    case (1 goes_on health \<sigma>1)
    then have same: "kv (fst \<sigma>1) = kv s" "sent (snd \<sigma>1) = []" by (simp_all add: redis_available.quiet_def [OF avail])
    show ?case
    proof (cases goes_on)
      case True
      show ?thesis unfolding eqTrueI [OF True] simp_thms if_False by (rule renew [OF same])
    next
      case False
      then show ?thesis using 1 same by (simp add: stop_heart_def)
    qed
  qed
  from act_run_total [OF this] obtain a c' s' l where "act_run exec (tick ?hc) (h, r) s = ((Inr a, c'), (s', l))" "?Q a c' (s', l)" .
  then show ?thesis by (cases c') auto
qed

text \<open>Worker `w1` without a token of its own, on a server where somebody else holds its lease.\<close>

definition usurped_config :: runner_config where
  "usurped_config = sample_config\<lparr>rc_worker := sample_worker\<lparr>gw_workerId := ''w1''\<rparr>\<rparr>"

theorem fenced_runner_stops_witness:
  "\<exists>h' r' s' l. act_run mock_exec (tick (runner_heartbeat usurped_config)) (new_heart, new_runner (new_health 50 15)) (leased ''t1'')
      = ((Inr (), (h', r')), (s', l)) \<and> hl_state (rn_health r') = Fatal \<and> sent l = []"
proof -
  have ids: "rc_registry usurped_config = sample_registry" "rc_id usurped_config = ''w1''"
    by (simp_all add: usurped_config_def sample_config_def rc_id_def)
  have "lease_owner (mock_view (leased ''t1'')) (reg_schema sample_registry) ''w1'' = Some ''t1''" "lock_token sample_registry ''w1'' \<noteq> Some ''t1''"
    by (simp_all add: lease_owner_def leased_def mock_after_view presence_roundtrip sample_registry_def lock_token_def)
  then show ?thesis
    using fenced_runner_stops [OF mock_server.redis_available_axioms, of "leased ''t1''" usurped_config "''t1''"] unfolding ids by blast
qed


section \<open>Nothing runs twice\<close>

text \<open>The event that reports a dropped reply: what is written to the session's data stream.\<close>

definition orphan_notice :: "runner_config \<Rightarrow> command \<Rightarrow> wait_gate_decision \<Rightarrow> millis \<Rightarrow> key \<times> string" where
  "orphan_notice cfg c d now = (session_data_stream (rc_schema cfg) (sessionId (header c)),
     json_stringify (event_message \<lparr>fixedDataStreamName = None, emitterSourceAgentType = []\<rparr>
       (orphaned_reply_event (header c) (command_status c) (rc_id cfg) (gate_reason d)) now))"

context redis_available
begin

lemma quiet_deny:
  assumes "v_zset (kv (fst \<sigma>)) (waitIndexKey sch (sessionId h)) (memberFromResume h) = None"
    and "v_str (kv (fst \<sigma>)) (consumedMarkerKey sch (sessionId h) (memberFromResume h)) \<noteq> None"
  shows "wp exec (consumeWaitEntry sch h) (\<lambda>d \<sigma>'. d = already_consumed (memberFromResume h) \<and> quiet \<sigma> \<sigma>') (\<lambda>_ _. False) \<sigma>"
proof (cases \<sigma>)
  case (Pair s l)
  obtain rest where rest: "candidateMembers h = memberFromResume h # rest" using candidateMembers_first by blast
  show ?thesis
    unfolding consumeWaitEntry_def rest claim_candidates.simps wp_catchP wp_bindP Pair
  proof (rule wp_zremP, goal_cases)
    case (1 s1)
    then have same: "kv s1 = kv s" using assms by (simp add: Pair set_scores_id)
    have "wp exec (existsP (consumedMarkerKey sch (sessionId h) (memberFromResume h))) (\<lambda>consumed. wp exec
        (if consumed then Ret (already_consumed (memberFromResume h)) else claim_candidates sch (sessionId h) rest)
        (\<lambda>d \<sigma>'. d = already_consumed (memberFromResume h) \<and> quiet (s, l) \<sigma>') E) E
        (s1, l @ [Zrem (waitIndexKey sch (sessionId h)) (memberFromResume h)])" for E
      by (rule wp_existsP) (use 1 assms same in \<open>auto simp: Pair quiet_def\<close>)
    then show ?case using assms by (simp add: Pair)
  qed
qed

lemma wp_ack: "(\<And>\<sigma>'. kv (fst \<sigma>') = kv (fst \<sigma>) \<Longrightarrow> snd \<sigma>' = snd \<sigma> @ [Xack stream (rc_group cfg) msgId] \<Longrightarrow> Q () \<sigma>') \<Longrightarrow>
    wp exec (ack cfg stream msgId) Q E \<sigma>"
  unfolding ack_def by (cases \<sigma>) (auto intro!: wp_xackP)

lemma wp_drop_reply:
  assumes "\<And>\<sigma>' d. kv (fst \<sigma>') = kv (fst \<sigma>) \<Longrightarrow> last (snd \<sigma>') = Xack stream (rc_group cfg) msgId \<Longrightarrow>
      sent (snd \<sigma>') = sent (snd \<sigma>) @ [orphan_notice cfg c dec (clk (fst \<sigma>))] \<Longrightarrow> Q () \<sigma>'"
  shows "wp exec (drop_reply cfg stream msgId c dec) Q E \<sigma>"
proof (cases \<sigma>)
  case (Pair s l)
  show ?thesis
    unfolding drop_reply_def emitOrphanedReply_def wp_seqP wp_catchP Pair
  proof (rule wp_emitEvent, rule wp_ack, goal_cases)
    case (1 s1 \<sigma>2)
    then show ?case by (intro assms) (auto simp: Pair data_stream_name_def orphaned_reply_event_def orphan_notice_def)
  qed
qed

end

text \<open>
  C18. Nothing runs twice. A second copy of a reply whose wait was resolved, and a
  copy of a dispatch whose execution has ended, are acknowledged and that is
  all: whatever the handler would do, the keyspace stays as it is. For the reply
  exactly one message is written, the event on the session's data stream that
  reports it; for the dispatch none. The runner forgets the message, which
  changes nothing unless another copy of it is being run at that moment. (The
  history is taken from a provider that answers without the server, and the
  dispatch with the history added is a valid command.)
\<close>

theorem nothing_runs_twice:
  assumes avail: "redis_available exec kv oth clk"
    and twice: "isResumeCommand c \<and> v_zset (kv s) (waitIndexKey (rc_schema cfg) (sessionId (header c))) (memberFromResume (header c)) = None
          \<and> v_str (kv s) (consumedMarkerKey (rc_schema cfg) (sessionId (header c)) (memberFromResume (header c))) \<noteq> None
      \<or> (\<exists>hist c' v. \<not> isResumeCommand c \<and> \<not> is_cancel c
          \<and> rc_history cfg (sessionId (header c)) = Ret hist \<and> with_history c hist = Inr c'
          \<and> lookup_execution (kv s) (rc_schema cfg) (messageId (header c)) (sessionId (header c)) = Inr (Some v)
          \<and> js_truthy v \<and> isTerminalState (text_field (jget v ''status'')))"
  shows "\<exists>s' l now. act_run exec (processAndAck cfg stream msgId c) r s = ((Inr (), untrack (messageId (header c)) r), (s', l))
    \<and> kv s' = kv s \<and> last l = Xack stream (rc_group cfg) msgId
    \<and> sent l = (if isResumeCommand c then [orphan_notice cfg c (already_consumed (memberFromResume (header c))) now] else [])
    \<and> (map_of (rn_messages r) (messageId (header c)) = None \<longrightarrow> untrack (messageId (header c)) r = r)"
proof -
  let ?m = "messageId (header c)"
  let ?P = "\<lambda>\<sigma>'. kv (fst \<sigma>') = kv s \<and> last (snd \<sigma>') = Xack stream (rc_group cfg) msgId
    \<and> (\<exists>now. sent (snd \<sigma>') = (if isResumeCommand c then [orphan_notice cfg c (already_consumed (memberFromResume (header c))) now] else []))"
  let ?Q = "\<lambda>_ r' \<sigma>'. r' = untrack ?m r \<and> ?P \<sigma>'"
  have cancel: "\<not> is_cancel c" using twice by (cases c) (auto simp: is_cancel_def isResumeCommand_def)
  have "wpA exec (processAndAck cfg stream msgId c) ?Q (\<lambda>_ _ _. False) r (s, [])"
    using twice
  proof (elim disjE conjE exE)
    assume c: "isResumeCommand c" and entry: "v_zset (kv s) (waitIndexKey (rc_schema cfg) (sessionId (header c))) (memberFromResume (header c)) = None"
      and marker: "v_str (kv s) (consumedMarkerKey (rc_schema cfg) (sessionId (header c)) (memberFromResume (header c))) \<noteq> None"
    have "wp exec (drop_reply cfg stream msgId c (already_consumed (memberFromResume (header c)))) (\<lambda>a. ?Q a (untrack ?m r)) E \<sigma>1"
      if "redis_available.quiet kv oth clk (s, []) \<sigma>1" for E \<sigma>1
      by (rule redis_available.wp_drop_reply [OF avail]) (use that c in \<open>auto simp: redis_available.quiet_def [OF avail]\<close>)
    note dropped = this
    have denied: "wp exec (consumeWaitEntry (rc_schema cfg) (header c))
        (\<lambda>d \<sigma>'. d = already_consumed (memberFromResume (header c)) \<and> redis_available.quiet kv oth clk (s, []) \<sigma>') (\<lambda>_ _. False) (s, [])"
      by (rule redis_available.quiet_deny [OF avail]) (use entry marker in simp_all)
    have no: "\<not> allow (already_consumed (memberFromResume (header c)))" by (simp add: already_consumed_def)
    show ?thesis
      unfolding process_body [OF cancel] wpA_finallyA wpA_bindA wpA_liftA wpA_writeA admit_def eqTrueI [OF c] if_True wp_bindP wp_Ret
      by (rule wp_mono [OF denied]) (use dropped no c in auto)
  next
    fix hist c' v
    assume c: "\<not> isResumeCommand c" and hist: "rc_history cfg (sessionId (header c)) = Ret hist" and c': "with_history c hist = Inr c'"
      and v: "lookup_execution (kv s) (rc_schema cfg) ?m (sessionId (header c)) = Inr (Some v)"
        "js_truthy v" "isTerminalState (text_field (jget v ''status''))"
    have no_reply: "isResumeCommand c = False" using c by simp
    have same: "messageId (header c') = ?m" "sessionId (header c') = sessionId (header c)" "\<not> isResumeCommand c'"
      using with_history_id [OF c'] with_history_header [OF c'] c by simp_all
    have over: "finished_replay (Some v) c'" using v same by (simp add: finished_replay_def existing_text_def existing_field_def)
    have "wp exec (getExecutionByMessageId (rc_schema cfg) ?m (sessionId (header c))) (\<lambda>existing. wpA exec
        (if finished_replay existing c' then liftA (ack cfg stream msgId) else run_message cfg stream msgId c' existing) Q E r) F (s, [])"
      if "\<And>\<sigma>'. ?P \<sigma>' \<Longrightarrow> Q () r \<sigma>'" for Q E F
    proof (rule redis_available.quiet_lookup [OF avail], goal_cases)
      case (1 \<sigma>1 y)
      then have "y = Some v" "kv (fst \<sigma>1) = kv s" "sent (snd \<sigma>1) = []" using v by (simp_all add: redis_available.quiet_def [OF avail])
      then show ?case
        using over that c by (simp only: if_True wpA_liftA) (rule redis_available.wp_ack [OF avail], simp)
    qed (use v in simp)
    note ended = this
    show ?thesis
      unfolding process_body [OF cancel] wpA_finallyA wpA_bindA wpA_liftA wpA_writeA admit_def admitted_message_def no_reply if_False
        wp_Ret option.case hist c' wpA_checkedA sum.case same
      by (rule ended) (simp add: no_reply)
  qed
  from act_run_total [OF this] obtain a c' s' l where "act_run exec (processAndAck cfg stream msgId c) r s = ((Inr a, c'), (s', l))" "?Q a c' (s', l)" .
  moreover have "map_of (rn_messages r) ?m = None \<longrightarrow> untrack ?m r = r" by (simp add: untrack_def)
  ultimately show ?thesis by auto
qed

definition sample_copy :: command where
  "sample_copy = ResumeCommand sample_reply (JStr []) ''COMPLETED'' JNull []"

theorem nothing_runs_twice_witness:
  "\<exists>s' l now. act_run mock_exec (processAndAck sample_config ''k'' ''1-0'' sample_copy) (new_runner (new_health 50 15)) sample_answered
      = ((Inr (), new_runner (new_health 50 15)), (s', l)) \<and> last l = Xack ''k'' ''g'' ''1-0''
    \<and> sent l = [orphan_notice sample_config sample_copy (already_consumed (memberFromResume sample_reply)) now]"
proof -
  have ids: "isResumeCommand sample_copy" "header sample_copy = sample_reply" "rc_schema sample_config = V1" "rc_group sample_config = ''g''"
    by (simp_all add: sample_copy_def isResumeCommand_def sample_config_def rc_schema_def sample_worker_def)
  have free: "untrack m (new_runner h) = new_runner h" for m h by (simp add: untrack_def new_runner_def)
  have "v_zset (mock_view sample_answered) (waitIndexKey V1 (sessionId sample_reply)) (memberFromResume sample_reply) = None"
    "v_str (mock_view sample_answered) (consumedMarkerKey V1 (sessionId sample_reply) (memberFromResume sample_reply)) \<noteq> None"
    by (simp_all add: sample_answered_facts)
  then have twice: "isResumeCommand sample_copy \<and> v_zset (mock_view sample_answered) (waitIndexKey (rc_schema sample_config) (sessionId (header sample_copy))) (memberFromResume (header sample_copy)) = None
      \<and> v_str (mock_view sample_answered) (consumedMarkerKey (rc_schema sample_config) (sessionId (header sample_copy)) (memberFromResume (header sample_copy))) \<noteq> None"
    by (simp add: ids)
  have yes: "(if isResumeCommand sample_copy then x else y) = x" for x y :: "(key \<times> string) list" by (simp add: ids)
  show ?thesis
    using nothing_runs_twice [OF mock_server.redis_available_axioms disjI1 [OF twice], of "''k''" "''1-0''" "new_runner (new_health 50 15)"]
    unfolding yes unfolding ids free by blast
qed

end
