(* ===== verification/Processor.thy ===== *)
theory Processor
  imports Worker
begin

text \<open>
  The message processor (src/processor.ts), the entry point for callers that
  drive a consume loop of their own instead of running a worker. It repeats the
  gate of the runner and the rules of the worker for replies, over an execution
  record it reads itself; it has no group join, no hooks, no retry of a
  delivery and no stored result, and reports its states to the session.

  `${error}` and `String(error)` are both `error_String`. The class builds its
  keys with the process's schema, here a field of the processor.
\<close>

record processor =
  pr_schema :: key_schema
  pr_workerId :: string

type_synonym context_handler = "command \<Rightarrow> handler_result ctx_act"


section \<open>The two directions of a resumption\<close>

definition loadExecutionSnapshot :: "processor \<Rightarrow> command \<Rightarrow> jobj prog" where
  "loadExecutionSnapshot p c =
     catchP (bindP (getExecutionByMessageId (pr_schema p) (messageId (header c)) (sessionId (header c)))
         (\<lambda>r. Ret (as_obj r)))
       (\<lambda>_. Ret [])"

definition resolveReplyHeader :: "command \<Rightarrow> jobj \<Rightarrow> message_header option" where
  "resolveReplyHeader c execution =
     (let h = header c in
      if \<not> isResumeCommand c then (if sourceAgentType h \<noteq> [] then Some h else None)
      else let callerAgentType = text_field (oget execution ''source_agent_type'') in
        if callerAgentType = [] \<or> callerAgentType = CLIENT_SOURCE_AGENT_TYPE then None
        else Some ((mk_header (messageId h) (sessionId h) (traceId h))
          \<lparr>sourceAgentType := callerAgentType, targetAgentType := targetAgentType h,
           parentMessageId := text_field (oget execution ''parent_message_id''),
           taskGroupId := text_field (oget execution ''task_group_id''),
           userCode := userCode h, userName := userName h,
           metadata := ospread [] (as_obj (Some (js_or (oget execution ''metadata'') (JObj [])))),
           traceParentSpanId := traceParentSpanId h, langfuseParentObservationId := langfuseParentObservationId h\<rparr>))"

definition GatewayProcessor_restoreInboundMetadata :: "command \<Rightarrow> jobj \<Rightarrow> command" where
  "GatewayProcessor_restoreInboundMetadata c execution = (case c of
     ResumeCommand h ct st rd x \<Rightarrow> ResumeCommand ((mk_header (messageId h) (sessionId h) (traceId h))
          \<lparr>sourceAgentType := sourceAgentType h, targetAgentType := targetAgentType h,
           parentMessageId := parentMessageId h, taskGroupId := taskGroupId h,
           userCode := userCode h, userName := userName h,
           metadata := mergeResumeMetadata (snapshot_metadata execution) (metadata h),
           traceParentSpanId := traceParentSpanId h, langfuseParentObservationId := langfuseParentObservationId h\<rparr>) ct st rd x
   | _ \<Rightarrow> c)"


section \<open>The reply\<close>

definition callback_header :: "processor \<Rightarrow> message_header \<Rightarrow> string \<Rightarrow> string \<Rightarrow> return_options \<Rightarrow> message_header" where
  "callback_header p h callerMessageId trace opts =
     (mk_header callerMessageId (sessionId h) trace)
       \<lparr>sourceAgentType := str_or (targetAgentType h) (pr_workerId p), targetAgentType := sourceAgentType h,
        parentMessageId := messageId h, taskGroupId := taskGroupId h, userCode := userCode h, userName := userName h,
        metadata := ospread (ospread [] (metadata h)) (ro_metadata opts)\<rparr>"

definition callback_command :: "processor \<Rightarrow> message_header \<Rightarrow> string \<Rightarrow> string \<Rightarrow> string \<Rightarrow> json \<Rightarrow> return_options \<Rightarrow> command" where
  "callback_command p h callerMessageId trace status replyData opts =
     ResumeCommand (callback_header p h callerMessageId trace opts) (ro_content opts) status replyData (ro_extraPayload opts)"

definition own_trace :: "message_header \<Rightarrow> string prog" where
  "own_trace h = (if traceId h \<noteq> [] then Ret (traceId h) else bindP uuidP (\<lambda>u. Ret (strip_dashes u)))"

definition enqueueCallback :: "processor \<Rightarrow> message_header \<Rightarrow> string \<Rightarrow> json \<Rightarrow> return_options \<Rightarrow> unit prog" where
  "enqueueCallback p h status replyData opts =
     bindP (if parentMessageId h = [] then generateMessageId else Ret (parentMessageId h)) (\<lambda>callerMessageId.
     bindP (own_trace h) (\<lambda>trace.
       case check_command (callback_command p h callerMessageId trace status replyData opts) of
         Inl e \<Rightarrow> Raise e
       | Inr callbackMsg \<Rightarrow>
           xaddP (ctrl_stream (pr_schema p) (targetAgentType (header callbackMsg))) (command_payload callbackMsg)))"


section \<open>One message\<close>

definition announceState :: "string \<Rightarrow> unit ctx_act" where
  "announceState state = context_emitState (StateEvent state None) []"

text \<open>What follows the handler: stand-ins, the reply or the final state, the answer, the end of the stream.\<close>

definition answerCaller :: "processor \<Rightarrow> message_header option \<Rightarrow> task_result \<Rightarrow> unit ctx_act" where
  "answerCaller p reply r = bindA (readA ac_isSuspended) (\<lambda>suspended.
     let isSuspended = suspended \<and> \<not> isTerminalState (tr_status r) in
     case reply of
       None \<Rightarrow> announceState COMPLETED
     | Some h \<Rightarrow> whenA (\<not> isSuspended)
         (seqA (liftA (enqueueCallback p h (tr_status r) (tr_replyData r)
              \<lparr>ro_content = tr_content r, ro_metadata = tr_metadata r, ro_extraPayload = tr_extraPayload r\<rparr>))
            (announceState (QUEUED @ '': '' @ sourceAgentType h))))"

definition deliverResult :: "processor \<Rightarrow> host \<Rightarrow> message_header option \<Rightarrow> handler_result \<Rightarrow> handler_result ctx_act" where
  "deliverResult p h reply out =
     bindA takePendingGroupReplies (\<lambda>replies.
     seqA (liftA (flushPendingGroupReplies (pr_schema p) replies))
     (bindA (checkedA (normalizeProcessResult out)) (\<lambda>r.
     seqA (answerCaller p reply r)
     (seqA (case finalMessage r of Some m \<Rightarrow> context_emitChunk h (ChunkText m) FINAL_ANSWER | None \<Rightarrow> doneA ())
     (seqA (bindA (readA id) (\<lambda>ctx. whenA (reply = None \<and> \<not> ac_isSuspended ctx \<and> \<not> ac_streamFinished ctx)
          (context_emitChunk h (ChunkText []) APP_STREAM_RESPONSE)))
     (doneA out))))))"

definition processFailed :: "processor \<Rightarrow> message_header option \<Rightarrow> js_error \<Rightarrow> handler_result ctx_act" where
  "processFailed p reply e =
     seqA (case reply of
         None \<Rightarrow> doneA ()
       | Some h \<Rightarrow> liftA (enqueueCallback p h ''FAILED'' (JObj [(''error'', JStr (error_String e))]) no_return_options))
     (seqA (announceState (FAILED @ '': '' @ error_String e)) (raiseA e))"

definition processor_context :: "processor \<Rightarrow> message_header \<Rightarrow> string \<Rightarrow> agent_context" where
  "processor_context p h trace =
     new_AgentContext (pr_schema p) (sessionId h) trace (targetAgentType h) (messageId h) None False [] []"

definition processCommand :: "processor \<Rightarrow> host \<Rightarrow> context_handler \<Rightarrow> command \<Rightarrow> jobj \<Rightarrow> handler_result ctx_act" where
  "processCommand p h handler c snapshot =
     (let reply = resolveReplyHeader c snapshot in
      catchA (seqA (whenA (isResumeCommand c) (announceState RESUMED))
          (bindA (handler (GatewayProcessor_restoreInboundMetadata c snapshot)) (deliverResult p h reply)))
        (processFailed p reply))"

text \<open>The gate: None for a reply to a wait already resolved, after its report.\<close>

definition passGate :: "processor \<Rightarrow> command \<Rightarrow> bool prog" where
  "passGate p c =
     (if isResumeCommand c
      then bindP (consumeWaitEntry (pr_schema p) (header c)) (\<lambda>gate.
        if allow gate then Ret True
        else seqP (emitOrphanedReply (pr_schema p) c (pr_workerId p) (gate_reason gate)) (Ret False))
      else Ret True)"

definition process :: "processor \<Rightarrow> host \<Rightarrow> context_handler \<Rightarrow> command
    \<Rightarrow> ((js_error + handler_result) \<times> agent_context) option prog" where
  "process p h handler c =
     bindP (own_trace (header c)) (\<lambda>trace.
     bindP (passGate p c) (\<lambda>passed.
       if \<not> passed then Ret None
       else bindP (if isResumeCommand c then loadExecutionSnapshot p c else Ret []) (\<lambda>snapshot.
         bindP (settled (processCommand p h handler c snapshot) (processor_context p (header c) trace)) (\<lambda>r.
           Ret (Some r)))))"

end
