(* ===== verification/ProcessorProperties.thy ===== *)
theory ProcessorProperties
  imports RunnerProperties Processor
begin

text \<open>
  The two entry points for messages, the worker and the processor, follow the
  same rules: whom a resumed execution answers, what its handler reads, what
  the caller is sent.
\<close>

section \<open>The same rules\<close>

lemma snapshot_field: "text_field (oget s k) = snapshot_text s k"
  by (simp add: snapshot_text_def)

lemma header_eqI:
  fixes h h' :: message_header
  assumes "messageId h = messageId h'" "sessionId h = sessionId h'" "traceId h = traceId h'"
    "sourceAgentType h = sourceAgentType h'" "targetAgentType h = targetAgentType h'" "parentMessageId h = parentMessageId h'"
    "taskGroupId h = taskGroupId h'" "userCode h = userCode h'" "userName h = userName h'" "metadata h = metadata h'"
    "traceParentSpanId h = traceParentSpanId h'" "langfuseParentObservationId h = langfuseParentObservationId h'"
  shows "h = h'"
  using assms by simp

lemma processor_reply_header: "resolveReplyHeader c snap = map_option header (resolveReplyCommand c snap)"
proof (cases c)
  case (ResumeCommand h ct st rd x)
  have "(mk_header (messageId h) (sessionId h) (traceId h))
          \<lparr>sourceAgentType := snapshot_text snap ''source_agent_type'', targetAgentType := targetAgentType h,
           parentMessageId := snapshot_text snap ''parent_message_id'', taskGroupId := snapshot_text snap ''task_group_id'',
           userCode := userCode h, userName := userName h, metadata := ospread [] (snapshot_metadata snap),
           traceParentSpanId := traceParentSpanId h, langfuseParentObservationId := langfuseParentObservationId h\<rparr>
      = caller_header h snap"
    by (rule header_eqI) (simp_all add: caller_header_def mk_header_def)
  then show ?thesis
    by (simp add: ResumeCommand resolveReplyHeader_def resolveReplyCommand_def isResumeCommand_def has_caller_def
        snapshot_field snapshot_metadata_def [symmetric] Let_def)
qed (simp_all add: resolveReplyHeader_def resolveReplyCommand_def isResumeCommand_def)

lemma processor_inbound: "GatewayProcessor_restoreInboundMetadata c snap = restoreInboundMetadata c snap"
proof (cases c)
  case (ResumeCommand h ct st rd x)
  have "(mk_header (messageId h) (sessionId h) (traceId h))
          \<lparr>sourceAgentType := sourceAgentType h, targetAgentType := targetAgentType h,
           parentMessageId := parentMessageId h, taskGroupId := taskGroupId h, userCode := userCode h, userName := userName h,
           metadata := mergeResumeMetadata (snapshot_metadata snap) (metadata h),
           traceParentSpanId := traceParentSpanId h, langfuseParentObservationId := langfuseParentObservationId h\<rparr>
      = inbound_header h snap"
    by (rule header_eqI) (simp_all add: inbound_header_def mk_header_def)
  then show ?thesis
    by (simp add: ResumeCommand GatewayProcessor_restoreInboundMetadata_def restoreInboundMetadata_def)
qed (simp_all add: GatewayProcessor_restoreInboundMetadata_def restoreInboundMetadata_def)

text \<open>The same worker id and keys: then the two build the same reply.\<close>

definition twins :: "worker \<Rightarrow> processor \<Rightarrow> bool" where
  "twins w p \<longleftrightarrow> gw_schema w = pr_schema p \<and> gw_workerId w = pr_workerId p"

lemma same_reply:
  "twins w p \<Longrightarrow> callback_command p (header rc) (parentMessageId (header rc)) (traceId (header rc)) st rd opts = owed_reply w rc st rd opts"
  by (simp add: twins_def callback_command_def callback_header_def owed_reply_def return_command_def return_header_def)


section \<open>The processor's programs\<close>

context redis_available
begin

lemma wp_own_trace: "(\<And>t \<sigma>'. quiet \<sigma> \<sigma>' \<Longrightarrow> Q t \<sigma>') \<Longrightarrow> wp exec (own_trace h) Q E \<sigma>"
  by (auto simp: own_trace_def intro!: quiet_uuidP)

lemma wp_enqueueCallback:
  assumes tw: "twins w p" and rc: "answerable rc" "traceId (header rc) \<noteq> []" and st: "st \<noteq> []"
    and Q: "\<And>\<sigma>'. delivers k (kv (fst \<sigma>)) (to_caller w rc (owed_reply w rc st rd opts)) \<sigma> \<sigma>' \<Longrightarrow> Q () \<sigma>'"
  shows "wp exec (enqueueCallback p (header rc) st rd opts) Q E \<sigma>"
proof -
  obtain s l where \<sigma>: "\<sigma> = (s, l)" by (cases \<sigma>)
  let ?m = "owed_reply w rc st rd opts"
  have sch: "pr_schema p = gw_schema w" using tw by (simp add: twins_def)
  have ok: "check_command ?m = Inr ?m" using check_return [OF st] by (simp add: owed_reply_def)
  have tgt: "targetAgentType (header ?m) = sourceAgentType (header rc)" by (simp add: owed_reply_def)
  have "wp exec (xaddP (ctrl_stream (gw_schema w) (sourceAgentType (header rc))) (command_payload ?m)) Q E (s, l)"
    by (rule wp_xaddP, rule Q) (auto simp: delivers_def to_caller_def \<sigma>)
  then show ?thesis
    using rc same_reply [OF tw, of rc st rd opts] ok tgt
    by (simp add: enqueueCallback_def own_trace_def answerable_def sch \<sigma>)
qed

lemma talk_announce:
  "(\<And>\<sigma>'. talk (data_stream c) \<sigma> \<sigma>' \<Longrightarrow> Q () c \<sigma>') \<Longrightarrow> wpA exec (announceState st) Q E c \<sigma>"
  unfolding announceState_def by (rule talk_state)

end

text \<open>What the caller is sent after a handler that returned `r` in the context `c`.\<close>

definition caller_messages :: "worker \<Rightarrow> command option \<Rightarrow> task_result \<Rightarrow> agent_context \<Rightarrow> (key \<times> string) list" where
  "caller_messages w reply r c = (case reply of
     Some rc \<Rightarrow> if stays_suspended r c then []
       else to_caller w rc (owed_reply w rc (tr_status r) (tr_replyData r) (result_options r))
   | None \<Rightarrow> [])"

definition traced :: "command option \<Rightarrow> bool" where
  "traced reply \<longleftrightarrow> (\<forall>rc. reply = Some rc \<longrightarrow> answerable rc \<and> traceId (header rc) \<noteq> [])"

context redis_available
begin

lemma wp_answerCaller:
  assumes tw: "twins w p" and reply: "traced reply" and st: "tr_status r \<noteq> []"
    and Q: "\<And>\<sigma>'. delivers (data_stream c) (kv (fst \<sigma>)) (caller_messages w reply r c) \<sigma> \<sigma>' \<Longrightarrow> Q () c \<sigma>'"
  shows "wpA exec (answerCaller p (map_option header reply) r) Q E c \<sigma>"
proof (cases reply)
  case None
  have "wpA exec (announceState COMPLETED) Q E c \<sigma>"
    by (rule talk_announce) (use Q None in \<open>simp add: talk_is_delivers caller_messages_def\<close>)
  then show ?thesis using None by (simp add: answerCaller_def)
next
  case (Some rc)
  show ?thesis
  proof (cases "stays_suspended r c")
    case True
    then show ?thesis
      using Q [of \<sigma>] Some by (auto simp: answerCaller_def stays_suspended_def caller_messages_def delivers_def)
  next
    case False
    have rc: "answerable rc" "traceId (header rc) \<noteq> []" using reply Some by (simp_all add: traced_def)
    have "wp exec (enqueueCallback p (header rc) (tr_status r) (tr_replyData r) (result_options r))
       (\<lambda>_. wpA exec (announceState (QUEUED @ '': '' @ sourceAgentType (header rc))) Q E c) E' \<sigma>" for E'
    proof (rule wp_enqueueCallback [OF tw rc st, where k = "data_stream c"], rule talk_announce, rule Q, goal_cases)
      case (1 \<sigma>1 \<sigma>2)
      then show ?case using delivers_talk Some False by (simp add: caller_messages_def)
    qed
    then show ?thesis
      using Some False by (simp add: answerCaller_def stays_suspended_def result_options_def)
  qed
qed

lemma wp_deliverResult:
  assumes h: "plain_host h" and tw: "twins w p" and norm: "normalizeProcessResult out = Inr r" and st: "tr_status r \<noteq> []"
    and reply: "traced reply"
    and Q: "\<And>c' \<sigma>'. said (c\<lparr>ac_pending := []\<rparr>) c' \<Longrightarrow>
      delivers (data_stream c) (kv (fst \<sigma>)) (reply_messages (gw_schema w) (ac_pending c) @ caller_messages w reply r c) \<sigma> \<sigma>'
      \<Longrightarrow> Q out c' \<sigma>'"
  shows "wpA exec (deliverResult p h (map_option header reply) out) Q E c \<sigma>"
proof -
  define c1 where "c1 = c\<lparr>ac_pending := []\<rparr>"
  have c1: "data_stream c1 = data_stream c" "caller_messages w reply r c1 = caller_messages w reply r c"
    by (simp_all add: c1_def data_stream_def caller_messages_def stays_suspended_def cong: option.case_cong)
  define ending where "ending = bindA (readA id) (\<lambda>ctx :: agent_context.
     whenA (map_option header reply = None \<and> \<not> ac_isSuspended ctx \<and> \<not> ac_streamFinished ctx)
       (context_emitChunk h (ChunkText []) APP_STREAM_RESPONSE))"
  define ms where "ms = reply_messages (gw_schema w) (ac_pending c) @ caller_messages w reply r c"
  have fin: "wpA exec ending (\<lambda>_. Q out) E c2 \<sigma>2"
    if "said c1 c2" "delivers (data_stream c) (kv (fst \<sigma>)) ms \<sigma> \<sigma>2" for c2 \<sigma>2
  proof -
    have ds: "data_stream c2 = data_stream c" using said_stream [OF that(1)] c1(1) by simp
    have "wpA exec (context_emitChunk h (ChunkText []) APP_STREAM_RESPONSE) (\<lambda>_. Q out) E c2 \<sigma>2"
      by (rule talk_chunk [OF h])
         (use said_trans [OF that(1)] delivers_talk [OF that(2)] ds Q in \<open>simp add: ms_def c1_def\<close>)
    then show ?thesis
      using Q that by (auto simp: ending_def ms_def c1_def)
  qed
  have answer: "wpA exec (case finalMessage r of Some m \<Rightarrow> context_emitChunk h (ChunkText m) FINAL_ANSWER | None \<Rightarrow> doneA ())
     (\<lambda>_. wpA exec ending (\<lambda>_. Q out) E) E c1 \<sigma>2"
    if "delivers (data_stream c) (kv (fst \<sigma>)) ms \<sigma> \<sigma>2" for \<sigma>2
  proof (cases "finalMessage r")
    case (Some m)
    have "wpA exec (context_emitChunk h (ChunkText m) FINAL_ANSWER) (\<lambda>_. wpA exec ending (\<lambda>_. Q out) E) E c1 \<sigma>2"
      by (rule talk_chunk [OF h], rule fin) (use delivers_talk [OF that] c1(1) in simp_all)
    then show ?thesis using Some by simp
  qed (use fin [OF said_refl that] in simp)
  have mid: "wpA exec (answerCaller p (map_option header reply) r) (\<lambda>_. wpA exec
       (case finalMessage r of Some m \<Rightarrow> context_emitChunk h (ChunkText m) FINAL_ANSWER | None \<Rightarrow> doneA ())
       (\<lambda>_. wpA exec ending (\<lambda>_. Q out) E) E) E c1 \<sigma>1"
    if "delivers (data_stream c) (kv (fst \<sigma>)) (reply_messages (gw_schema w) (ac_pending c)) \<sigma> \<sigma>1" for \<sigma>1
    by (rule wp_answerCaller [OF tw reply st], rule answer)
       (use that c1 in \<open>auto simp: delivers_def ms_def\<close>)
  have "wp exec (flushPendingGroupReplies (pr_schema p) (ac_pending c)) (\<lambda>_. wpA exec (answerCaller p (map_option header reply) r)
     (\<lambda>_. wpA exec (case finalMessage r of Some m \<Rightarrow> context_emitChunk h (ChunkText m) FINAL_ANSWER | None \<Rightarrow> doneA ())
       (\<lambda>_. wpA exec ending (\<lambda>_. Q out) E) E) E c1) E' \<sigma>" for E'
    by (rule wp_flushPending [where k = "data_stream c"], rule mid) (use tw in \<open>simp add: twins_def\<close>)
  then show ?thesis
    by (simp add: deliverResult_def takePendingGroupReplies_def norm c1_def [symmetric]) (simp add: ending_def)
qed

end


section \<open>Properties\<close>

text \<open>
  C25. The processor and the worker answer alike. Take any message, with the
  execution record of a resumed one, and any result of its handler: the
  processor finds the same caller and gives the handler the same command as the
  worker, and the two send the same messages off the session's own stream, in
  the same order: the queued stand-ins, then the one reply, or none for an
  execution that stays suspended.
\<close>

theorem processor_follows_worker:
  assumes avail: "redis_available exec kv oth clk" and h: "plain_host h" and tw: "twins w p"
    and out: "normalizeProcessResult out = Inr r" and st: "tr_status r \<noteq> []"
    and reply: "reply = resolveReplyCommand c snap" and tr: "traced reply"
    and ctx: "ac_suspendedState ctx = [] \<or> ac_isSuspended ctx"
  shows "GatewayProcessor_restoreInboundMetadata c snap = restoreInboundMetadata c snap
    \<and> (\<exists>c1 c2 s1 s2 l1 l2.
        act_run exec (deliverResult p h (resolveReplyHeader c snap) out) ctx s = ((Inr out, c1), (s1, l1))
      \<and> act_run exec (finishTask w h c reply out) ctx s = ((Inr (finished_result r ctx), c2), (s2, l2))
      \<and> apart (data_stream ctx) (sent l1) = apart (data_stream ctx) (sent l2))"
proof -
  let ?ms = "reply_messages (gw_schema w) (ac_pending ctx) @ caller_messages w reply r ctx"
  have hdr: "resolveReplyHeader c snap = map_option header reply" by (simp add: processor_reply_header reply)
  have "wpA exec (deliverResult p h (resolveReplyHeader c snap) out) (\<lambda>a c' \<sigma>'. a = out
      \<and> apart (data_stream ctx) (sent (snd \<sigma>')) = apart (data_stream ctx) ?ms) (\<lambda>_ _ _. False) ctx (s, [])"
    unfolding hdr by (rule redis_available.wp_deliverResult [OF avail h tw out st tr])
      (simp add: redis_available.delivers_def [OF avail])
  from act_run_total [OF this] obtain c1 s1 l1 where
    p: "act_run exec (deliverResult p h (resolveReplyHeader c snap) out) ctx s = ((Inr out, c1), (s1, l1))"
      "apart (data_stream ctx) (sent l1) = apart (data_stream ctx) ?ms" by auto
  have answer: "task_answer w rc r ctx = owed_reply w rc (tr_status r) (tr_replyData r) (result_options r)"
    if "\<not> stays_suspended r ctx" for rc
  proof -
    have "applySuspendedStatus r ctx = r" using that ctx by (auto simp: applySuspendedStatus_def stays_suspended_def)
    then show ?thesis by (simp add: task_answer_def)
  qed
  have "wpA exec (finishTask w h c reply out) (\<lambda>a c' \<sigma>'. a = finished_result r ctx
      \<and> apart (data_stream ctx) (sent (snd \<sigma>')) = apart (data_stream ctx) ?ms) (\<lambda>_ _ _. False) ctx (s, [])"
    by (rule redis_available.wp_finishTask [OF avail h out st])
       (use tr in \<open>auto simp: traced_def redis_available.delivers_def [OF avail] caller_messages_def answer split: option.splits\<close>)
  from act_run_total [OF this] obtain c2 s2 l2 where
    "act_run exec (finishTask w h c reply out) ctx s = ((Inr (finished_result r ctx), c2), (s2, l2))"
      "apart (data_stream ctx) (sent l2) = apart (data_stream ctx) ?ms" by auto
  with p show ?thesis by (auto simp: processor_inbound)
qed

definition sample_processor :: processor where
  "sample_processor = \<lparr>pr_schema = V1, pr_workerId = ''w1''\<rparr>"

lemma sample_twins: "twins sample_worker sample_processor"
  by (simp add: twins_def sample_worker_def sample_processor_def)

text \<open>A resumed execution whose record names the caller `boss`.\<close>

definition sample_resumed :: command where
  "sample_resumed = ResumeCommand
     ((mk_header ''m2'' ''s'' ''t'')\<lparr>sourceAgentType := ''tool'', targetAgentType := ''helper'', parentMessageId := ''m9''\<rparr>)
     (JStr []) ''COMPLETED'' JNull []"

lemma sample_resumed_simps [simp]:
  "isResumeCommand sample_resumed" "taskGroupId (header sample_resumed) = []" "messageId (header sample_resumed) = ''m2''"
  "sessionId (header sample_resumed) = ''s''" "traceId (header sample_resumed) = ''t''"
  by (simp_all add: sample_resumed_def isResumeCommand_def mk_header_def)

lemma sample_resumed_reply:
  "\<exists>rc. resolveReplyCommand sample_resumed sample_snapshot = Some rc \<and> sourceAgentType (header rc) = ''boss'' \<and> answerable rc
     \<and> traced (Some rc)"
proof -
  have "snapshot_text sample_snapshot ''source_agent_type'' = ''boss''" "snapshot_text sample_snapshot ''parent_message_id'' = ''m1''"
    by (simp_all add: snapshot_text_def sample_snapshot_def)
  then show ?thesis
    by (simp add: sample_resumed_def resolveReplyCommand_def has_caller_def CLIENT_SOURCE_AGENT_TYPE_def answerable_def
        traced_def mk_header_def)
qed

theorem processor_follows_worker_witness:
  "\<exists>c1 c2 s1 s2 l1 l2.
      act_run mock_exec (deliverResult sample_processor plain (resolveReplyHeader sample_resumed sample_snapshot) (Value (VStr ''COMPLETED'')))
        sample_context (empty_mock 5) = ((Inr (Value (VStr ''COMPLETED'')), c1), (s1, l1))
    \<and> act_run mock_exec (finishTask sample_worker plain sample_resumed (resolveReplyCommand sample_resumed sample_snapshot)
        (Value (VStr ''COMPLETED''))) sample_context (empty_mock 5)
        = ((Inr (finished_result (status_result COMPLETED) sample_context), c2), (s2, l2))
    \<and> apart (data_stream sample_context) (sent l1) = apart (data_stream sample_context) (sent l2)"
proof -
  have out: "normalizeProcessResult (Value (VStr ''COMPLETED'')) = Inr (status_result COMPLETED)" "tr_status (status_result COMPLETED) \<noteq> []"
    by (simp_all add: normalizeProcessResult_def agent_states_def state_defs status_result_def AgentTaskResult_def)
  have ctx: "ac_suspendedState sample_context = []"
    by (simp add: sample_context_def message_context_def new_AgentContext_def)
  show ?thesis
    using processor_follows_worker [OF mock_server.redis_available_axioms plain_plain sample_twins out refl, of sample_resumed sample_snapshot
        sample_context "empty_mock 5"] sample_resumed_reply ctx by auto
qed

text \<open>
  The processor's gate is the runner's: a copy of a reply whose wait is
  already resolved ends with no result, whatever the handler would do, with the
  keyspace as it was and nothing sent but the event that reports it.
\<close>

lemma processor_drops_resolved:
  assumes avail: "redis_available exec kv oth clk" and c: "isResumeCommand c"
    and entry: "v_zset (kv s) (waitIndexKey (pr_schema p) (sessionId (header c))) (memberFromResume (header c)) = None"
    and marker: "v_str (kv s) (consumedMarkerKey (pr_schema p) (sessionId (header c)) (memberFromResume (header c))) \<noteq> None"
  shows "result exec (process p h handler c) s = Inr None \<and> kv (final exec (process p h handler c) s) = kv s
    \<and> (\<exists>d. sent (issued exec (process p h handler c) s) = [(session_data_stream (pr_schema p) (sessionId (header c)), d)])"
proof -
  let ?P = "\<lambda>\<sigma>'. kv (fst \<sigma>') = kv s \<and> (\<exists>d. sent (snd \<sigma>') = [(session_data_stream (pr_schema p) (sessionId (header c)), d)])"
  note quiet = redis_available.quiet_def [OF avail]
  have told: "wp exec (emitOrphanedReply (pr_schema p) c (pr_workerId p) why) (\<lambda>_. ?P) (\<lambda>_ _. False) \<sigma>1"
    if "redis_available.quiet kv oth clk (s, []) \<sigma>1" for why \<sigma>1
  proof (cases \<sigma>1)
    case (Pair s1 l1)
    show ?thesis
      unfolding emitOrphanedReply_def wp_catchP Pair
      by (rule redis_available.wp_emitEvent [OF avail])
         (use that in \<open>auto simp: quiet Pair data_stream_name_def orphaned_reply_event_def\<close>)
  qed
  have "wp exec (passGate p c) (\<lambda>ok \<sigma>'. \<not> ok \<and> ?P \<sigma>') (\<lambda>_ _. False) \<sigma>1"
    if "redis_available.quiet kv oth clk (s, []) \<sigma>1" for \<sigma>1
  proof -
    have kv1: "kv (fst \<sigma>1) = kv s" using that by (simp add: quiet)
    have denied: "wp exec (consumeWaitEntry (pr_schema p) (header c))
        (\<lambda>d \<sigma>'. d = already_consumed (memberFromResume (header c)) \<and> redis_available.quiet kv oth clk \<sigma>1 \<sigma>') (\<lambda>_ _. False) \<sigma>1"
      by (rule redis_available.quiet_deny [OF avail]) (use entry marker kv1 in simp_all)
    have "redis_available.quiet kv oth clk (s, []) \<sigma>'" if "redis_available.quiet kv oth clk \<sigma>1 \<sigma>'" for \<sigma>'
      using redis_available.quiet_trans [OF avail \<open>redis_available.quiet kv oth clk (s, []) \<sigma>1\<close> that] .
    then show ?thesis
      unfolding passGate_def using c told by (auto intro!: wp_mono [OF denied])
  qed
  then have "wp exec (process p h handler c) (\<lambda>r \<sigma>'. r = None \<and> ?P \<sigma>') (\<lambda>_ _. False) (s, [])"
    unfolding process_def wp_bindP
    by (intro redis_available.wp_own_trace [OF avail]) (rule wp_mono, assumption, simp_all)
  from wp_total [OF this] show ?thesis by auto
qed

lemma processor_drops_resolved_example:
  "result mock_exec (process sample_processor plain (\<lambda>_. raiseA TypeError) sample_copy) sample_answered = Inr None"
proof -
  have ids: "isResumeCommand sample_copy" "header sample_copy = sample_reply" "pr_schema sample_processor = V1"
    by (simp_all add: sample_copy_def isResumeCommand_def sample_processor_def)
  have "v_zset (mock_view sample_answered) (waitIndexKey V1 (sessionId sample_reply)) (memberFromResume sample_reply) = None"
    "v_str (mock_view sample_answered) (consumedMarkerKey V1 (sessionId sample_reply) (memberFromResume sample_reply)) \<noteq> None"
    by (simp_all add: sample_answered_facts)
  then show ?thesis
    using processor_drops_resolved [OF mock_server.redis_available_axioms ids(1), of sample_answered sample_processor plain "\<lambda>_. raiseA TypeError"]
    by (simp add: ids)
qed

text \<open>
  A handler that throws. The processor sends the caller one FAILED reply with
  the error's text, as the worker does; unlike the worker it then throws the
  error on to the loop that called it.
\<close>

lemma processor_failure_rethrown:
  assumes avail: "redis_available exec kv oth clk"
    and c: "\<not> isResumeCommand c" "answerable c" "traceId (header c) \<noteq> []"
    and throws: "\<And>ctx \<sigma>. wpA exec (handler c) (\<lambda>_ _ _. False)
        (\<lambda>e' ctx' \<sigma>'. e' = e \<and> data_stream ctx' = data_stream ctx \<and> sent (snd \<sigma>') = sent (snd \<sigma>)) ctx \<sigma>"
  shows "\<exists>ctx. result exec (process p h handler c) s = Inr (Some (Inl e, ctx))
    \<and> apart (session_data_stream (pr_schema p) (sessionId (header c))) (sent (issued exec (process p h handler c) s))
        = [(ctrl_stream (pr_schema p) (sourceAgentType (header c)),
            command_payload (callback_command p (header c) (parentMessageId (header c)) (traceId (header c)) ''FAILED''
              (JObj [(''error'', JStr (error_String e))]) no_return_options))]"
proof -
  let ?k = "session_data_stream (pr_schema p) (sessionId (header c))"
  let ?ms = "[(ctrl_stream (pr_schema p) (sourceAgentType (header c)),
            command_payload (callback_command p (header c) (parentMessageId (header c)) (traceId (header c)) ''FAILED''
              (JObj [(''error'', JStr (error_String e))]) no_return_options))]"
  define w where "w = \<lparr>gw_schema = pr_schema p, gw_workerId = pr_workerId p\<rparr>"
  have tw: "twins w p" by (simp add: w_def twins_def)
  have rules: "resolveReplyHeader c [] = Some (header c)" "GatewayProcessor_restoreInboundMetadata c [] = c"
    using c(1,2) by (cases c; simp add: resolveReplyHeader_def GatewayProcessor_restoreInboundMetadata_def isResumeCommand_def answerable_def)+
  let ?ctx = "processor_context p (header c) (traceId (header c))"
  have ds: "data_stream ?ctx = ?k" by (simp add: processor_context_def new_AgentContext_def data_stream_def)
  have ms: "to_caller w c (owed_reply w c ''FAILED'' (JObj [(''error'', JStr (error_String e))]) no_return_options) = ?ms"
    using same_reply [OF tw, of c] by (simp add: to_caller_def) (simp add: w_def)
  have apart_ms: "apart ?k ?ms = ?ms" by (simp add: apart_def)
  have die: "wpA exec (processFailed p (Some (header c)) e) (\<lambda>_ _ _. False)
      (\<lambda>e' _ \<sigma>'. e' = e \<and> apart ?k (sent (snd \<sigma>')) = ?ms) ctx \<sigma>"
    if "data_stream ctx = ?k" "sent (snd \<sigma>) = []" for ctx \<sigma>
  proof -
    have "wp exec (enqueueCallback p (header c) ''FAILED'' (JObj [(''error'', JStr (error_String e))]) no_return_options)
       (\<lambda>_. wpA exec (announceState (FAILED @ '': '' @ error_String e))
          (\<lambda>_ _ \<sigma>'. apart ?k (sent (snd \<sigma>')) = ?ms) E' ctx) E \<sigma>" for E E'
    proof (rule redis_available.wp_enqueueCallback [OF avail tw c(2,3), where k = ?k], simp,
        rule redis_available.talk_announce [OF avail], goal_cases)
      case (1 \<sigma>1 \<sigma>2)
      then have "redis_available.delivers kv clk ?k (kv (fst \<sigma>)) ?ms \<sigma> \<sigma>2"
        using redis_available.delivers_talk [OF avail] ms that by simp
      then show ?case using that apart_ms by (simp add: redis_available.delivers_def [OF avail])
    qed
    then show ?thesis by (simp add: processFailed_def)
  qed
  have "wp exec (process p h handler c) (\<lambda>r \<sigma>'. \<exists>ctx. r = Some (Inl e, ctx) \<and> apart ?k (sent (snd \<sigma>')) = ?ms) (\<lambda>_ _. False) (s, [])"
    unfolding process_def own_trace_def passGate_def processCommand_def rules using c(1,3)
    by (simp add: wp_settled_wpA rules Let_def) (rule wpA_mono [OF throws [of ?ctx "(s, [])"]], simp, use die ds in auto)
  from wp_total [OF this] show ?thesis by auto
qed

lemma processor_failure_rethrown_example:
  "\<exists>ctx. result mock_exec (process sample_processor plain (\<lambda>_. raiseA (JsError ''boom'')) sample_ask) (empty_mock 5)
     = Inr (Some (Inl (JsError ''boom''), ctx))"
proof -
  have "\<not> isResumeCommand sample_ask" "traceId (header sample_ask) \<noteq> []"
    by (simp_all add: sample_ask_def isResumeCommand_def mk_header_def)
  then show ?thesis
    using processor_failure_rethrown [OF mock_server.redis_available_axioms, of sample_ask "\<lambda>_. raiseA (JsError ''boom'')"
        "JsError ''boom''" sample_processor plain "empty_mock 5"] by auto
qed

end
