(* ===== verification/Admin.thy ===== *)
theory Admin
  imports RunnerProperties
begin

text \<open>
  Administration of workers (src/admin/worker_manager.ts): suspending, resuming
  and evicting a worker, and which agent types it may serve. An order goes out
  twice, as a record the heartbeat of the worker reads and as a command on the
  worker's own stream.
\<close>

record worker_manager =
  mg_registry :: registry

definition mg_schema :: "worker_manager \<Rightarrow> key_schema" where
  "mg_schema mg = reg_schema (mg_registry mg)"

definition adminHeader :: "message_header prog" where
  "adminHeader = bindP uuidP (\<lambda>trace. bindP uuidP (\<lambda>message. Ret (header_fromDict (JObj
     [(''session_id'', JStr ''admin''), (''trace_id'', JStr (strip_dashes trace)), (''message_id'', JStr (strip_dashes message))]))))"

definition post_order :: "worker_manager \<Rightarrow> string \<Rightarrow> (message_header \<Rightarrow> command) \<Rightarrow> unit prog" where
  "post_order mg workerId order =
     bindP adminHeader (\<lambda>h. xaddP (worker_ctrl_stream (mg_schema mg) workerId) (command_payload (order h)))"

definition suspendWorker :: "worker_manager \<Rightarrow> string \<Rightarrow> string \<Rightarrow> unit prog" where
  "suspendWorker mg workerId reason =
     seqP (setWorkerAdminState (mg_registry mg) workerId ''suspended'' reason)
    (seqP (removeWorkerFromTypeMembers (mg_registry mg) workerId)
       (post_order mg workerId (\<lambda>h. SuspendWorkerCommand h reason)))"

definition resumeWorker :: "worker_manager \<Rightarrow> string \<Rightarrow> unit prog" where
  "resumeWorker mg workerId =
     seqP (setWorkerAdminState (mg_registry mg) workerId ''active'' [])
    (seqP (restoreWorkerToTypeMembers (mg_registry mg) workerId)
       (post_order mg workerId ResumeWorkerCommand))"

definition evictWorker :: "worker_manager \<Rightarrow> string \<Rightarrow> bool \<Rightarrow> string \<Rightarrow> unit prog" where
  "evictWorker mg workerId force reason =
     seqP (setWorkerAdminState (mg_registry mg) workerId ''evicted'' reason)
    (seqP (removeWorkerFromTypeMembers (mg_registry mg) workerId)
       (post_order mg workerId (\<lambda>h. EvictWorkerCommand h reason force)))"

definition WorkerManager_denyWorkerForType :: "worker_manager \<Rightarrow> string \<Rightarrow> string \<Rightarrow> unit prog" where
  "WorkerManager_denyWorkerForType mg agentType workerId = denyWorkerForType (mg_registry mg) agentType workerId"

definition WorkerManager_allowWorkerForType :: "worker_manager \<Rightarrow> string \<Rightarrow> string \<Rightarrow> unit prog" where
  "WorkerManager_allowWorkerForType mg agentType workerId = allowWorkerForType (mg_registry mg) agentType workerId"

definition getTypeDenylist :: "worker_manager \<Rightarrow> string \<Rightarrow> string list prog" where
  "getTypeDenylist mg agentType = getAgentTypeDenylist (mg_registry mg) agentType"

definition WorkerManager_getWorkerAdminState :: "worker_manager \<Rightarrow> string \<Rightarrow> (string \<times> string) list prog" where
  "WorkerManager_getWorkerAdminState mg workerId = getWorkerAdminState (mg_registry mg) workerId"

definition WorkerManager_clearWorkerAdminState :: "worker_manager \<Rightarrow> string \<Rightarrow> unit prog" where
  "WorkerManager_clearWorkerAdminState mg workerId = clearWorkerAdminState (mg_registry mg) workerId"


section \<open>Out of the rotation\<close>

lemma last_neq: "last x \<noteq> last y \<Longrightarrow> x \<noteq> y"
  by auto

lemma admin_key_neq [simp]:
  "workerAdminState sch w \<noteq> agentTypeMembers sch t" "agentTypeMembers sch t \<noteq> workerAdminState sch w"
  "workerAdminState sch w \<noteq> known_workers sch" "known_workers sch \<noteq> workerAdminState sch w"
  "agentTypeMembers sch t \<noteq> known_workers sch" "known_workers sch \<noteq> agentTypeMembers sch t"
  "agentTypeMembers sch t \<noteq> worker_online_lease sch w" "worker_online_lease sch w \<noteq> agentTypeMembers sch t"
  "workerDeclaredAgentTypes sch w \<noteq> agentTypeMembers sch t" "agentTypeMembers sch t \<noteq> workerDeclaredAgentTypes sch w"
  by (cases sch; simp add: workerAdminState_def agentTypeMembers_def known_workers_def worker_online_lease_def
      workerDeclaredAgentTypes_def versioned_def tagged_def)+

lemma admin_lease_neq [simp]: "workerAdminState sch w \<noteq> worker_online_lease sch w'" "worker_online_lease sch w' \<noteq> workerAdminState sch w"
proof -
  show "workerAdminState sch w \<noteq> worker_online_lease sch w'"
    by (cases sch, simp add: workerAdminState_def worker_online_lease_def versioned_def)
       (rule last_neq, simp add: workerAdminState_def worker_online_lease_def versioned_def)
  then show "worker_online_lease sch w' \<noteq> workerAdminState sch w" by simp
qed

lemma admin_declared_neq [simp]:
  "workerAdminState sch w \<noteq> workerDeclaredAgentTypes sch w'" "workerDeclaredAgentTypes sch w' \<noteq> workerAdminState sch w"
proof -
  show "workerAdminState sch w \<noteq> workerDeclaredAgentTypes sch w'"
    by (cases sch, simp add: workerAdminState_def workerDeclaredAgentTypes_def versioned_def)
       (rule last_neq, simp add: workerAdminState_def workerDeclaredAgentTypes_def versioned_def)
  then show "workerDeclaredAgentTypes sch w' \<noteq> workerAdminState sch w" by simp
qed

lemma declared_neq [simp]:
  "known_workers sch \<noteq> workerDeclaredAgentTypes sch w" "workerDeclaredAgentTypes sch w \<noteq> known_workers sch"
  by (cases sch; simp add: workerDeclaredAgentTypes_def known_workers_def versioned_def)+

lemma declared_lease_neq [simp]: "worker_online_lease sch x \<noteq> workerDeclaredAgentTypes sch w" "workerDeclaredAgentTypes sch w \<noteq> worker_online_lease sch x"
proof -
  show "worker_online_lease sch x \<noteq> workerDeclaredAgentTypes sch w"
    by (cases sch, simp add: workerDeclaredAgentTypes_def worker_online_lease_def versioned_def)
       (rule last_neq, simp add: workerDeclaredAgentTypes_def worker_online_lease_def versioned_def)
  then show "workerDeclaredAgentTypes sch w \<noteq> worker_online_lease sch x" by simp
qed

text \<open>Only members of agent types differ.\<close>

definition same_sets :: "key_schema \<Rightarrow> view \<Rightarrow> view \<Rightarrow> bool" where
  "same_sets sch v v' \<longleftrightarrow> (\<forall>k. (\<forall>t. k \<noteq> agentTypeMembers sch t) \<longrightarrow> v_set v' k = v_set v k)"

lemma same_sets_declared [simp]:
  "same_sets sch v v' \<Longrightarrow> v_set v' (workerDeclaredAgentTypes sch w) = v_set v (workerDeclaredAgentTypes sch w)"
  "same_sets sch v v' \<Longrightarrow> v_set v' (agentTypeDenied sch t) = v_set v (agentTypeDenied sch t)"
  by (simp_all add: same_sets_def)

definition out_of_rotation :: "view \<Rightarrow> key_schema \<Rightarrow> string \<Rightarrow> string \<Rightarrow> bool" where
  "out_of_rotation v sch w lifecycle \<longleftrightarrow> v_hash v (workerAdminState sch w) ''lifecycle'' = Some lifecycle
     \<and> (\<forall>t \<in> v_set v (workerDeclaredAgentTypes sch w). w \<notin> v_set v (agentTypeMembers sch t))"

context redis_available
begin

lemma wp_setWorkerAdminState:
  assumes "\<And>\<sigma>'. v_hash (kv (fst \<sigma>')) (workerAdminState (reg_schema reg) w) ''lifecycle'' = Some lc \<Longrightarrow>
      v_hash (kv (fst \<sigma>')) (workerAdminState (reg_schema reg) w) ''reason'' = Some reason \<Longrightarrow>
      v_set (kv (fst \<sigma>')) = v_set (kv (fst \<sigma>)) \<Longrightarrow> sent (snd \<sigma>') = sent (snd \<sigma>) \<Longrightarrow> Q () \<sigma>'"
  shows "wp exec (setWorkerAdminState reg w lc reason) Q E \<sigma>"
proof (cases \<sigma>)
  case (Pair s l)
  show ?thesis
    unfolding setWorkerAdminState_def Let_def wp_bindP Pair
    by (rule wp_nowP, (rule wp_pipeline_Cons, simp)+, simp, rule assms) (simp_all add: Pair)
qed

lemma wp_remove_members:
  assumes "\<And>\<sigma>'. v_hash (kv (fst \<sigma>')) = v_hash (kv (fst \<sigma>)) \<Longrightarrow>
      same_sets sch (kv (fst \<sigma>)) (kv (fst \<sigma>')) \<Longrightarrow>
      \<forall>t \<in> D. w \<notin> v_set (kv (fst \<sigma>')) (agentTypeMembers sch t) \<Longrightarrow> sent (snd \<sigma>') = sent (snd \<sigma>) \<Longrightarrow> Q () \<sigma>'"
    and "\<forall>t \<in> D. t \<in> set types \<or> w \<notin> v_set (kv (fst \<sigma>)) (agentTypeMembers sch t)"
  shows "wp exec (forP types (\<lambda>t. sremP (agentTypeMembers sch t) w)) Q E \<sigma>"
  using assms
proof (induction types arbitrary: \<sigma>)
  case (Cons t types)
  obtain s l where \<sigma>: "\<sigma> = (s, l)" by (cases \<sigma>)
  show ?case
    unfolding forP.simps wp_bindP [of _ _ "\<lambda>_. forP types f" for f] \<sigma>
    by (rule wp_sremP, rule Cons.IH) (use Cons.prems in \<open>auto simp: \<sigma> same_sets_def\<close>)
qed (simp add: same_sets_def)

lemma wp_removeWorker:
  assumes "v_hash (kv (fst \<sigma>)) (workerAdminState (reg_schema reg) w) ''lifecycle'' = Some lc"
    and "\<And>\<sigma>'. out_of_rotation (kv (fst \<sigma>')) (reg_schema reg) w lc \<Longrightarrow>
      same_sets (reg_schema reg) (kv (fst \<sigma>)) (kv (fst \<sigma>')) \<Longrightarrow>
      v_hash (kv (fst \<sigma>')) = v_hash (kv (fst \<sigma>)) \<Longrightarrow> sent (snd \<sigma>') = sent (snd \<sigma>) \<Longrightarrow> Q () \<sigma>'"
  shows "wp exec (removeWorkerFromTypeMembers reg w) Q E \<sigma>"
proof (cases \<sigma>)
  case (Pair s l)
  show ?thesis
    unfolding removeWorkerFromTypeMembers_def wp_bindP Pair
    by (rule wp_smembersP, rule wp_remove_members [where D = "v_set (kv s) (workerDeclaredAgentTypes (reg_schema reg) w)"])
       (auto intro!: assms(2) simp: out_of_rotation_def Pair assms(1) [unfolded Pair, simplified])
qed

lemma wp_adminHeader:
  assumes "\<And>h \<sigma>'. quiet \<sigma> \<sigma>' \<Longrightarrow> h = (mk_header (messageId h) ''admin'' (traceId h)) \<Longrightarrow> Q h \<sigma>'"
  shows "wp exec adminHeader Q E \<sigma>"
  unfolding adminHeader_def wp_bindP wp_Ret
proof (rule quiet_uuidP, rule quiet_uuidP, rule assms, goal_cases)
  case (1 \<sigma>1 u \<sigma>2 u')
  then show ?case using quiet_trans by blast
qed (simp add: header_fromDict_def mk_header_def id_field_def)

lemma wp_post_order:
  assumes "\<And>h \<sigma>'. kv (fst \<sigma>') = kv (fst \<sigma>) \<Longrightarrow> h = mk_header (messageId h) ''admin'' (traceId h) \<Longrightarrow>
      sent (snd \<sigma>') = sent (snd \<sigma>) @ [(worker_ctrl_stream (mg_schema mg) w, command_payload (order h))] \<Longrightarrow> Q () \<sigma>'"
  shows "wp exec (post_order mg w order) Q E \<sigma>"
  unfolding post_order_def wp_bindP
proof (rule wp_adminHeader, goal_cases)
  case (1 h \<sigma>1)
  obtain s1 l1 where \<sigma>1: "\<sigma>1 = (s1, l1)" by (cases \<sigma>1)
  show ?case
    unfolding \<sigma>1 by (rule wp_xaddP, rule assms [OF _ 1(2)]) (use 1 \<sigma>1 in \<open>auto simp: quiet_def\<close>)
qed

end

section \<open>Heartbeats of a worker out of the rotation\<close>

primrec heartbeats :: "'r heartbeat_config \<Rightarrow> nat \<Rightarrow> ('r, unit) heart_act" where
  "heartbeats hc 0 = doneA ()"
| "heartbeats hc (Suc n) = seqA (tick hc) (heartbeats hc n)"

text \<open>A fact about the keyspace that fixes the recorded order and that no renewal touches.\<close>

definition order_fact :: "(view \<Rightarrow> bool) \<Rightarrow> key_schema \<Rightarrow> string \<Rightarrow> string \<Rightarrow> bool" where
  "order_fact I sch w lc \<longleftrightarrow> (\<forall>v. I v \<longrightarrow> v_hash v (workerAdminState sch w) ''lifecycle'' = Some lc
     \<and> (\<forall>x d. I (put_str (worker_online_lease sch x) d v)) \<and> (\<forall>ms. I (set_members (known_workers sch) ms v)))"

lemma out_of_rotation_fact: "order_fact (\<lambda>v. out_of_rotation v sch w lc) sch w lc"
  by (simp add: order_fact_def out_of_rotation_def)

definition kept :: "(view \<Rightarrow> bool) \<Rightarrow> string \<Rightarrow> string \<Rightarrow> runner \<Rightarrow> view \<Rightarrow> bool" where
  "kept I lc before r v \<longleftrightarrow> I v \<and> rn_admin r \<in> {before, lc}"

context redis_available
begin

lemma heartbeat_keeps:
  assumes "0 < ttl" "order_fact I (reg_schema reg) w lc" "I (kv (fst \<sigma>))"
  shows "wp exec (heartbeatWorker reg x ttl) (\<lambda>_ \<sigma>'. I (kv (fst \<sigma>'))) E \<sigma>"
proof (cases \<sigma>)
  case (Pair s l)
  show ?thesis
    unfolding heartbeatWorker_def Let_def wp_bindP wp_seqP wp_Ret Pair
    by (rule wp_nowP, rule wp_getP)
       (use assms Pair in \<open>auto simp: order_fact_def split: option.splits intro!: wp_setP wp_setP_nx_any wp_saddP\<close>)
qed

lemma wp_denied_types:
  assumes "I (kv (fst \<sigma>))" and "\<And>denied \<sigma>'. I (kv (fst \<sigma>')) \<Longrightarrow> Q denied \<sigma>'"
  shows "wp exec (denied_types hc) Q E \<sigma>"
proof -
  have "wp exec (foldP (\<lambda>denied agentType. bindP (isWorkerDeniedForType (hc_registry hc) agentType (hc_workerId hc)) (\<lambda>d.
       Ret (if d \<and> agentType \<notin> set denied then denied @ [agentType] else denied))) acc ts) Q E \<sigma>'"
    if "I (kv (fst \<sigma>'))" for acc ts \<sigma>'
    using that
  proof (induction ts arbitrary: acc \<sigma>')
    case (Cons t ts)
    obtain s l where \<sigma>': "\<sigma>' = (s, l)" by (cases \<sigma>')
    show ?case
      unfolding foldP.simps wp_bindP wp_Ret \<sigma>'
      by (subst isWorkerDeniedForType_def) (rule wp_sismemberP, rule Cons.IH, use Cons.prems \<sigma>' in simp)
  qed (simp add: assms(2))
  then show ?thesis using assms(1) by (simp add: denied_types_def)
qed

lemma sync_keeps:
  assumes id: "rc_id cfg = w" "reg_schema (rc_registry cfg) = sch" and lc: "lc \<noteq> []" "lc \<noteq> ''active''"
    and fact: "order_fact I sch w lc" and kept: "kept I lc b r (kv (fst \<sigma>))"
  shows "wpA exec (sync_admin (runner_heartbeat cfg)) (\<lambda>_ (h', r') \<sigma>'. kept I lc b r' (kv (fst \<sigma>'))) E (h, r) \<sigma>"
proof -
  obtain s l where \<sigma>: "\<sigma> = (s, l)" by (cases \<sigma>)
  have hc: "hc_registry (runner_heartbeat cfg) = rc_registry cfg" "hc_workerId (runner_heartbeat cfg) = w"
    "hc_lifecycle (runner_heartbeat cfg) = Some (\<lambda>lifecycle r. r\<lparr>rn_admin := lifecycle\<rparr>)"
    "hc_denylist (runner_heartbeat cfg) = Some (\<lambda>denied r. r\<lparr>rn_denied := denied\<rparr>)"
    by (simp_all add: runner_heartbeat_def id)
  have lifecycle: "lifecycle_of ps = lc" if "map_of ps = v_hash (kv s) (workerAdminState sch w)" for ps
    using that kept fact lc by (simp add: lifecycle_of_def kept_def order_fact_def opt_or_def str_or_def \<sigma>)
  show ?thesis
    unfolding sync_admin_def wpA_bindA wpA_liftA getWorkerAdminState_def hc id \<sigma>
  proof (rule wp_hgetallP, goal_cases)
    case (1 s1 ps)
    have told: "kept I lc b (r\<lparr>rn_admin := lc, rn_denied := d\<rparr>) v" if "I v" for d v
      using that by (simp add: kept_def)
    have "wp exec (denied_types (runner_heartbeat cfg)) (\<lambda>denied \<sigma>'. kept I lc b (r\<lparr>rn_admin := lc, rn_denied := denied\<rparr>) (kv (fst \<sigma>')))
        E' (s1, l @ [Hgetall (workerAdminState sch w)])" for E'
      by (rule wp_denied_types [where I = I])
         (use 1 kept told in \<open>auto simp: kept_def \<sigma>\<close>)
    then show ?case
      using lifecycle [OF 1(5)] lc by simp
  qed
qed

lemma tick_keeps:
  assumes id: "rc_id cfg = w" "reg_schema (rc_registry cfg) = sch" and ttl: "0 < rc_leaseTtlSeconds cfg"
    and lc: "lc \<noteq> []" "lc \<noteq> ''active''" and fact: "order_fact I sch w lc" and kept: "kept I lc b r (kv (fst \<sigma>))"
  shows "wpA exec (tick (runner_heartbeat cfg)) (\<lambda>_ (h', r') \<sigma>'. kept I lc b r' (kv (fst \<sigma>'))) E (h, r) \<sigma>"
proof -
  let ?hc = "runner_heartbeat cfg" and ?Q = "\<lambda>_ (h', r') \<sigma>'. kept I lc b r' (kv (fst \<sigma>'))"
  have hooks: "hc_registry ?hc = rc_registry cfg" "hc_workerId ?hc = rc_id cfg" "hc_leaseTtlSeconds ?hc = rc_leaseTtlSeconds cfg"
    "hc_healthCheck ?hc = Some (healthA evaluateHealth)" "hc_unhealthy ?hc = Some (\<lambda>r. r\<lparr>rn_running := False\<rparr>)"
    "hc_fenced ?hc = Some (\<lambda>r. r\<lparr>rn_health := fence (rn_health r), rn_running := False\<rparr>)"
    "hc_renewOk ?hc = Some (\<lambda>now r. r\<lparr>rn_health := (rn_health r)\<lparr>hl_lastRenewOk := now\<rparr>\<rparr>)"
    by (simp_all add: runner_heartbeat_def)
  have renew: "wpA exec (bindA (renewLease ?hc) (\<lambda>out. if out \<noteq> Renewed then doneA () else sync_admin ?hc)) ?Q E (h0, r0) \<sigma>1"
    if same: "kept I lc b r0 (kv (fst \<sigma>1))" for h0 r0 \<sigma>1 E
  proof -
    have out: "I (kv (fst \<sigma>1))" and fact': "order_fact I (reg_schema (rc_registry cfg)) w lc" using same id fact by (simp_all add: kept_def)
    have beat: "wp exec (heartbeatWorker (rc_registry cfg) w (rc_leaseTtlSeconds cfg)) (\<lambda>ok \<sigma>'. wpA exec (case Some ok of
          None \<Rightarrow> doneA RenewFailed
        | Some False \<Rightarrow> seqA (heartA stop_heart) (seqA (notifyA (hc_fenced ?hc)) (doneA LeaseFenced))
        | Some True \<Rightarrow> seqA (heartA (\<lambda>h. h\<lparr>hb_failures := 0\<rparr>)) (bindA (liftA nowP) (\<lambda>now.
            seqA (heartA (\<lambda>h. h\<lparr>hb_lastRenewOk := now\<rparr>))
              (seqA (notifyA (map_option (\<lambda>f. f now) (hc_renewOk ?hc))) (doneA Renewed)))))
        (\<lambda>out. wpA exec (if out \<noteq> Renewed then doneA () else sync_admin ?hc) ?Q E) E (h0, r0) \<sigma>') (\<lambda>_ _. False) \<sigma>1"
    proof (rule wp_mono [OF heartbeat_keeps [OF ttl fact' out]], goal_cases)
      case (1 ok \<sigma>2)
      obtain s2 l2 where \<sigma>2: "\<sigma>2 = (s2, l2)" by (cases \<sigma>2)
      have keep: "kept I lc b (r0\<lparr>rn_health := x\<rparr>) (kv s2)" "kept I lc b (r0\<lparr>rn_health := x, rn_running := False\<rparr>) (kv s2)" for x
        using 1 same id \<sigma>2 by (simp_all add: kept_def)
      show ?case
      proof (cases ok)
        case True
        have "wp exec nowP (\<lambda>now. wpA exec (sync_admin ?hc) ?Q E
            (h0\<lparr>hb_failures := 0, hb_lastRenewOk := now\<rparr>, r0\<lparr>rn_health := (rn_health r0)\<lparr>hl_lastRenewOk := now\<rparr>\<rparr>)) E' (s2, l2)" for E'
          by (rule wp_nowP, rule sync_keeps [OF id lc fact]) (use keep in simp)
        then show ?thesis using True \<sigma>2 by (simp add: hooks)
      qed (use keep \<sigma>2 in \<open>simp add: hooks\<close>)
    qed simp
    show ?thesis
      unfolding renewLease_def wpA_bindA wpA_catchA wpA_liftA hooks(1-3) id(1) wpA_doneA
      by (rule wp_mono [OF beat]) simp_all
  qed
  show ?thesis
    unfolding tick_def wpA_catchA wpA_bindA hooks option.case wpA_ownerA wpA_healthA
  proof (rule wp_evaluateHealth, goal_cases)
    case (1 goes_on health \<sigma>1)
    then have same: "kept I lc b (r\<lparr>rn_health := health\<rparr>) (kv (fst \<sigma>1))" using kept by (simp add: quiet_def kept_def)
    show ?case
    proof (cases goes_on)
      case True
      show ?thesis unfolding eqTrueI [OF True] simp_thms if_False by (rule renew [OF same])
    next
      case False
      then show ?thesis using same by (simp add: kept_def)
    qed
  qed
qed

lemma heartbeats_keep:
  assumes id: "rc_id cfg = w" "reg_schema (rc_registry cfg) = sch" and ttl: "0 < rc_leaseTtlSeconds cfg"
    and lc: "lc \<noteq> []" "lc \<noteq> ''active''" and fact: "order_fact I sch w lc" and kept: "kept I lc b r (kv (fst \<sigma>))"
  shows "wpA exec (heartbeats (runner_heartbeat cfg) n) (\<lambda>_ (h', r') \<sigma>'. kept I lc b r' (kv (fst \<sigma>'))) (\<lambda>_ _ _. False) (h, r) \<sigma>"
  using kept
proof (induction n arbitrary: h r \<sigma>)
  case (Suc n)
  show ?case
    unfolding heartbeats.simps wpA_seqA
    by (rule wpA_mono [OF tick_keeps [OF id ttl lc fact Suc.prems]]) (use Suc.IH in auto)
qed simp

end

section \<open>Orders\<close>

text \<open>An order that takes a worker out: the state it records, and the command it sends.\<close>

definition takes_out :: "worker_manager \<Rightarrow> string \<Rightarrow> unit prog \<Rightarrow> string \<Rightarrow> bool" where
  "takes_out mg w order lifecycle \<longleftrightarrow> (\<exists>reason. order = suspendWorker mg w reason) \<and> lifecycle = ''suspended''
     \<or> (\<exists>force reason. order = evictWorker mg w force reason) \<and> lifecycle = ''evicted''"

text \<open>The order in a stream entry, executed by the runner that reads it.\<close>

definition obeyed :: "(cmd \<Rightarrow> 's \<Rightarrow> answer \<times> 's) \<Rightarrow> runner_config \<Rightarrow> string \<Rightarrow> string \<Rightarrow> bool" where
  "obeyed exec cfg d lifecycle \<longleftrightarrow> (\<forall>stream i r s. \<exists>c r' s' l.
     act_run exec (control_entry cfg stream (i, [''data'', d])) r s = ((Inr [c], r'), (s', l)) \<and> rn_admin r' = lifecycle)"

lemma order_payload:
  assumes "h = mk_header (messageId h) ''admin'' (traceId h)"
    and "c \<in> {SuspendWorkerCommand h x, ResumeWorkerCommand h, EvictWorkerCommand h x b}"
  shows "parse_payload (command_payload c) = Inr c" "command_payload c \<noteq> []"
proof -
  have wf: "wf_header h" by (subst assms(1)) (simp add: wf_header_def mk_header_def)
  have md: "metadata h = []" by (subst assms(1)) (simp add: mk_header_def)
  have "valid_command c" and json: "wf_json (toDict c)"
    using assms(2) wf md by (auto simp: valid_command_def check_defs toDict_def header_toDict_def
        command_body_def SuspendWorkerCommand_body_def ResumeWorkerCommand_body_def EvictWorkerCommand_body_def)
  then show "parse_payload (command_payload c) = Inr c" by (rule payload_roundtrip)
  show "command_payload c \<noteq> []" using json by (simp add: command_payload_def stringify_not_Nil)
qed

context redis_available
begin

lemma obeyed_order:
  assumes "h = mk_header (messageId h) ''admin'' (traceId h)"
    and "c \<in> {SuspendWorkerCommand h x, ResumeWorkerCommand h, EvictWorkerCommand h x b}"
    and "lc = (case c of SuspendWorkerCommand _ _ \<Rightarrow> ''suspended'' | EvictWorkerCommand _ _ _ \<Rightarrow> ''evicted'' | _ \<Rightarrow> ''active'')"
  shows "obeyed exec cfg (command_payload c) lc"
  unfolding obeyed_def
proof (intro allI, goal_cases)
  case (1 stream i r s)
  note payload = order_payload [OF assms(1,2)]
  have "wpA exec (control_entry cfg stream (i, [''data'', command_payload c])) (\<lambda>cs r' _. cs = [c] \<and> rn_admin r' = lc)
     (\<lambda>_ _ _. False) r (s, [])"
    using assms(2,3) payload
    by (auto simp: control_entry_def handleControlMessage_def wpA_finallyA intro!: wp_ack)
  from act_run_total [OF this] show ?case by metis
qed

lemma wp_takes_out:
  assumes "takes_out mg w order lc"
  shows "wp exec order (\<lambda>_ \<sigma>'. out_of_rotation (kv (fst \<sigma>')) (mg_schema mg) w lc
      \<and> same_sets (mg_schema mg) (kv s) (kv (fst \<sigma>'))
      \<and> (\<exists>d. sent (snd \<sigma>') = [(worker_ctrl_stream (mg_schema mg) w, d)] \<and> (\<forall>cfg. obeyed exec cfg d lc))) (\<lambda>_ _. False) (s, [])"
proof -
  let ?reg = "mg_registry mg"
  have "wp exec (seqP (setWorkerAdminState ?reg w lc reason) (seqP (removeWorkerFromTypeMembers ?reg w) (post_order mg w command)))
     (\<lambda>_ \<sigma>'. out_of_rotation (kv (fst \<sigma>')) (mg_schema mg) w lc
      \<and> same_sets (mg_schema mg) (kv s) (kv (fst \<sigma>'))
      \<and> (\<exists>d. sent (snd \<sigma>') = [(worker_ctrl_stream (mg_schema mg) w, d)] \<and> (\<forall>cfg. obeyed exec cfg d lc))) (\<lambda>_ _. False) (s, [])"
    if "\<And>h cfg. h = mk_header (messageId h) ''admin'' (traceId h) \<Longrightarrow> obeyed exec cfg (command_payload (command h)) lc" for reason command
    unfolding wp_seqP
  proof (rule wp_setWorkerAdminState, rule wp_removeWorker [where lc = lc], assumption, rule wp_post_order, goal_cases)
    case (1 \<sigma>1 \<sigma>2 h \<sigma>3)
    then have "same_sets (mg_schema mg) (kv s) (kv (fst \<sigma>2))" by (simp add: mg_schema_def same_sets_def)
    then show ?case using 1 that [of h] by (simp add: mg_schema_def)
  qed
  moreover have "obeyed exec cfg (command_payload (SuspendWorkerCommand h reason)) ''suspended''"
    "obeyed exec cfg (command_payload (EvictWorkerCommand h reason force)) ''evicted''"
    if "h = mk_header (messageId h) ''admin'' (traceId h)" for h cfg reason force
    using obeyed_order [OF that, of "SuspendWorkerCommand h reason" reason False]
      obeyed_order [OF that, of "EvictWorkerCommand h reason force" reason force] by simp_all
  ultimately show ?thesis
    using assms by (auto simp: takes_out_def suspendWorker_def evictWorker_def)
qed

end

text \<open>
  C26. An order that takes a worker out of service holds. Suspended or evicted, a
  worker is out of the members of every agent type it declared, and however many
  heartbeat cycles its runner goes through, none brings it back; the order also
  lies, as exactly one message, on the worker's own stream, and whichever runner
  reads it there takes it on.
\<close>

theorem suspension_holds:
  assumes avail: "redis_available exec kv oth clk" and order: "takes_out mg w order lc"
    and cfg: "rc_id cfg = w" "reg_schema (rc_registry cfg) = mg_schema mg" "0 < rc_leaseTtlSeconds cfg"
  shows "result exec order s = Inr () \<and> out_of_rotation (kv (final exec order s)) (mg_schema mg) w lc
    \<and> (\<exists>d. sent (issued exec order s) = [(worker_ctrl_stream (mg_schema mg) w, d)] \<and> obeyed exec cfg d lc)
    \<and> (\<exists>h' r' s' l. act_run exec (heartbeats (runner_heartbeat cfg) n) (h, r) (final exec order s) = ((Inr (), (h', r')), (s', l))
         \<and> out_of_rotation (kv s') (mg_schema mg) w lc \<and> rn_admin r' \<in> {rn_admin r, lc})"
proof -
  obtain d where
    run: "result exec order s = Inr ()" "out_of_rotation (kv (final exec order s)) (mg_schema mg) w lc"
      "sent (issued exec order s) = [(worker_ctrl_stream (mg_schema mg) w, d)]" "obeyed exec cfg d lc"
    by (rule wp_total [OF redis_available.wp_takes_out [OF avail order, of s]]) auto
  have lc: "lc \<noteq> []" "lc \<noteq> ''active''" using order by (auto simp: takes_out_def)
  have "kept (\<lambda>v. out_of_rotation v (mg_schema mg) w lc) lc (rn_admin r) r (kv (fst (final exec order s, [])))"
    using run by (simp add: kept_def)
  note kept = redis_available.heartbeats_keep [OF avail cfg lc out_of_rotation_fact this, of n h]
  have "\<exists>h' r' s' l. act_run exec (heartbeats (runner_heartbeat cfg) n) (h, r) (final exec order s) = ((Inr (), (h', r')), (s', l))
         \<and> out_of_rotation (kv s') (mg_schema mg) w lc \<and> rn_admin r' \<in> {rn_admin r, lc}"
    by (rule act_run_total [OF kept]) (auto simp: kept_def)
  with run show ?thesis by blast
qed

definition sample_manager :: worker_manager where
  "sample_manager = \<lparr>mg_registry = sample_registry\<rparr>"

definition serving :: mock where
  "serving = mock_after [Sadd (workerDeclaredAgentTypes V1 ''w1'') ''chat'', Sadd (agentTypeMembers V1 ''chat'') ''w1''] (empty_mock 5)"

lemma serving_view [simp]: "''w1'' \<in> v_set (mock_view serving) (agentTypeMembers V1 ''chat'')"
  unfolding serving_def by (subst mock_after_writes) simp_all

theorem suspension_holds_witness:
  "''w1'' \<in> v_set (mock_view serving) (agentTypeMembers V1 ''chat'')
    \<and> (\<exists>h' r' s' l. act_run mock_exec (heartbeats (runner_heartbeat usurped_config) 7) (new_heart, new_runner (new_health 50 15))
          (final mock_exec (suspendWorker sample_manager ''w1'' ''upgrade'') serving) = ((Inr (), (h', r')), (s', l))
        \<and> out_of_rotation (mock_view s') V1 ''w1'' ''suspended'')"
proof -
  have ids: "rc_registry usurped_config = sample_registry" "rc_id usurped_config = ''w1''" "mg_schema sample_manager = V1"
    "reg_schema sample_registry = V1" "0 < rc_leaseTtlSeconds usurped_config"
    by (simp_all add: usurped_config_def sample_config_def rc_id_def mg_schema_def sample_manager_def sample_registry_def)
  have "takes_out sample_manager ''w1'' (suspendWorker sample_manager ''w1'' ''upgrade'') ''suspended''"
    by (auto simp: takes_out_def)
  from suspension_holds [OF mock_server.redis_available_axioms this ids(2), where s = serving and n = 7
      and h = new_heart and r = "new_runner (new_health 50 15)"]
  have "\<exists>h' r' s' l. act_run mock_exec (heartbeats (runner_heartbeat usurped_config) 7) (new_heart, new_runner (new_health 50 15))
          (final mock_exec (suspendWorker sample_manager ''w1'' ''upgrade'') serving) = ((Inr (), (h', r')), (s', l))
        \<and> out_of_rotation (mock_view s') V1 ''w1'' ''suspended''"
    unfolding ids(1,3,4) using ids(5) by blast
  then show ?thesis by simp
qed

section \<open>A heartbeat that looked before the order\<close>

lemma run_pool_append: "run_pool exec (is @ js) pool = run_pool exec js (run_pool exec is pool)"
proof (induction exec "is" pool rule: run_pool.induct)
  case (2 exec i "is" ps s)
  then show ?case by (auto split: prog.splits prod.splits)
qed simp

text \<open>A program of the pool that is left alone runs to its end.\<close>

lemma pool_runs_out:
  assumes "wp exec p (\<lambda>a \<sigma>'. P a (fst \<sigma>')) (\<lambda>_ _. False) (s, l)" "i < length ps" "ps ! i = p"
  shows "\<exists>n a s'. run_pool exec (replicate n i) (ps, s) = (ps[i := Ret a], s') \<and> P a s'"
  using assms
proof (induction p arbitrary: s l ps)
  case (Ret a)
  have "ps[i := Ret a] = ps" using Ret list_update_id [of ps i] by simp
  then have "run_pool exec (replicate 0 i) (ps, s) = (ps[i := Ret a], s)" by simp
  then show ?case using Ret by fastforce
next
  case (Step c k)
  obtain r s1 where ex: "exec c s = (r, s1)" by (cases "exec c s")
  have "wp exec (k r) (\<lambda>a \<sigma>'. P a (fst \<sigma>')) (\<lambda>_ _. False) (s1, l @ [c])" using Step.prems(1) ex by (simp add: wp_Step)
  from Step.IH [OF _ this, of "ps[i := k r]"] Step.prems(2) obtain n a s' where
    "run_pool exec (replicate n i) (ps[i := k r], s1) = (ps[i := k r, i := Ret a], s') \<and> P a s'" by auto
  then have "run_pool exec (replicate (Suc n) i) (ps, s) = (ps[i := Ret a], s') \<and> P a s'"
    using Step.prems ex by simp
  then show ?case by blast
qed simp

definition sync_prog :: "runner_config \<Rightarrow> heart \<times> runner \<Rightarrow> unit prog" where
  "sync_prog cfg hr = bindP (sync_admin (runner_heartbeat cfg) hr) (\<lambda>_. Ret ())"

text \<open>Its first command reads the order; the rest goes by the answer.\<close>

definition sync_rest :: "runner_config \<Rightarrow> (string \<times> string) list \<Rightarrow> (runner, unit) heart_act" where
  "sync_rest cfg st = (let hc = runner_heartbeat cfg in
     seqA (notifyA (map_option (\<lambda>f. f (lifecycle_of st)) (hc_lifecycle hc)))
      (seqA (whenA (lifecycle_of st = ''active'') (liftA (registerWorkerMembership (hc_registry hc) (hc_workerId hc) (hc_agentTypes hc))))
        (case hc_denylist hc of
           None \<Rightarrow> doneA ()
         | Some refresh \<Rightarrow> bindA (liftA (denied_types hc)) (\<lambda>denied. notifyA (Some (refresh denied))))))"

lemma sync_first:
  "\<exists>k. sync_prog cfg hr = Step (Hgetall (workerAdminState (reg_schema (rc_registry cfg)) (rc_id cfg))) k
     \<and> (\<forall>ps. k (Inr (RPairs ps)) = bindP (settled (sync_rest cfg ps) hr) (\<lambda>_. Ret ()))"
  by (simp add: sync_prog_def sync_admin_def sync_rest_def getWorkerAdminState_def hgetallP_def cmdP_def bindA_def settled_def
      liftA_def Let_def runner_heartbeat_def as_pairs_def)

context redis_available
begin

lemma hash_read: "\<exists>ps s1. exec (Hgetall k) s = (Inr (RPairs ps), s1) \<and> kv s1 = kv s \<and> map_of ps = v_hash (kv s) k"
  using available [of "Hgetall k" s] answered [of "Hgetall k" s] by fastforce

lemma registration_joins:
  assumes "t \<in> set types \<or> w \<in> v_set (kv (fst \<sigma>)) (agentTypeMembers (reg_schema reg) t)"
    and "w \<notin> v_set (kv (fst \<sigma>)) (agentTypeDenied (reg_schema reg) t)"
    and "v_hash (kv (fst \<sigma>)) (workerAdminState (reg_schema reg) w) ''lifecycle'' = Some lc"
  shows "wp exec (registerWorkerMembership reg w types) (\<lambda>_ \<sigma>'. w \<in> v_set (kv (fst \<sigma>')) (agentTypeMembers (reg_schema reg) t)
      \<and> v_hash (kv (fst \<sigma>')) (workerAdminState (reg_schema reg) w) ''lifecycle'' = Some lc) E \<sigma>"
proof -
  let ?sch = "reg_schema reg"
  let ?I = "\<lambda>ts v. (t \<in> set ts \<or> w \<in> v_set v (agentTypeMembers ?sch t)) \<and> w \<notin> v_set v (agentTypeDenied ?sch t)
    \<and> v_hash v (workerAdminState ?sch w) ''lifecycle'' = Some lc"
  let ?step = "\<lambda>a. seqP (saddP (workerDeclaredAgentTypes ?sch w) a) (bindP (isWorkerDeniedForType reg a w) (\<lambda>denied.
               if denied then Ret () else saddP (agentTypeMembers ?sch a) w))"
  have step: "wp exec (?step a) (\<lambda>_ \<sigma>'. ?I ts (kv (fst \<sigma>'))) E \<sigma>1" if "?I (a # ts) (kv (fst \<sigma>1))" for a ts \<sigma>1
  proof (cases \<sigma>1)
    case (Pair s l)
    have neq: "workerDeclaredAgentTypes ?sch w \<noteq> agentTypeDenied ?sch t" "agentTypeMembers ?sch a \<noteq> agentTypeDenied ?sch t"
      by (cases ?sch; simp add: workerDeclaredAgentTypes_def agentTypeDenied_def agentTypeMembers_def versioned_def tagged_def)+
    show ?thesis
      unfolding wp_seqP Pair
      by (rule wp_saddP, rule wp_mono [OF wp_join]) (use that Pair neq in \<open>auto split: if_splits\<close>)
  qed
  have "wp exec (forP ts ?step) (\<lambda>_ \<sigma>'. ?I [] (kv (fst \<sigma>'))) E \<sigma>1" if "?I ts (kv (fst \<sigma>1))" for ts \<sigma>1
    using that
  proof (induction ts arbitrary: \<sigma>1)
    case (Cons a ts)
    show ?case
      unfolding forP.simps wp_bindP [of _ _ "\<lambda>_. forP ts f" for f]
      by (rule wp_mono [OF step [OF Cons.prems]]) (use Cons.IH in auto)
  qed simp
  note joined = this [of types]
  obtain s l where \<sigma>: "\<sigma> = (s, l)" by (cases \<sigma>)
  have "known_workers ?sch \<noteq> agentTypeDenied ?sch t"
    by (cases ?sch) (simp_all add: known_workers_def agentTypeDenied_def versioned_def)
  then show ?thesis
    unfolding registerWorkerMembership_def wp_seqP \<sigma>
    by (intro wp_saddP) (rule wp_mono [OF joined], use assms \<sigma> in auto)
qed

lemma sync_rest_joins:
  assumes id: "rc_id cfg = w" "reg_schema (rc_registry cfg) = sch" and active: "lifecycle_of ps = ''active''"
    and t: "t \<in> set (rc_agentTypes cfg)" "w \<notin> v_set (kv (fst \<sigma>)) (agentTypeDenied sch t)"
    and order: "v_hash (kv (fst \<sigma>)) (workerAdminState sch w) ''lifecycle'' = Some lc"
  shows "wp exec (bindP (settled (sync_rest cfg ps) hr) (\<lambda>_. Ret ())) (\<lambda>_ \<sigma>'. w \<in> v_set (kv (fst \<sigma>')) (agentTypeMembers sch t)
      \<and> v_hash (kv (fst \<sigma>')) (workerAdminState sch w) ''lifecycle'' = Some lc) E \<sigma>"
proof -
  let ?I = "\<lambda>v. w \<in> v_set v (agentTypeMembers sch t) \<and> v_hash v (workerAdminState sch w) ''lifecycle'' = Some lc"
  have "wp exec (registerWorkerMembership (rc_registry cfg) w (rc_agentTypes cfg)) (\<lambda>_ \<sigma>'. ?I (kv (fst \<sigma>'))) E' \<sigma>" for E'
    using registration_joins [of t "rc_agentTypes cfg" w \<sigma> "rc_registry cfg" lc E'] assms by simp
  then have "wp exec (registerWorkerMembership (rc_registry cfg) w (rc_agentTypes cfg))
     (\<lambda>_. wp exec (denied_types (runner_heartbeat cfg)) (\<lambda>_ \<sigma>'. ?I (kv (fst \<sigma>'))) E') E' \<sigma>" for E'
    by (rule wp_mono) (auto intro: wp_denied_types [where I = ?I])
  then show ?thesis
    using active id
    by (cases hr) (simp add: wp_settled_wpA sync_rest_def Let_def runner_heartbeat_def)
qed

end

lemma members_fact:
  "order_fact (\<lambda>v. w \<in> v_set v (agentTypeMembers sch t) \<and> v_hash v (workerAdminState sch w) ''lifecycle'' = Some lc) sch w lc"
  by (simp add: order_fact_def)

text \<open>
  C27. An order can be lost on a heartbeat. A heartbeat cycle that has read the
  administrative state just before an order to suspend or evict, and goes on
  after it, puts the worker back into the members of its agent types although
  it is recorded as out of service; and no number of later cycles takes it out
  again.
\<close>

theorem suspension_race:
  assumes avail: "redis_available exec kv oth clk" and order: "takes_out mg w order lc"
    and cfg: "rc_id cfg = w" "reg_schema (rc_registry cfg) = mg_schema mg" "0 < rc_leaseTtlSeconds cfg"
    and t: "t \<in> set (rc_agentTypes cfg)" "w \<notin> v_set (kv s) (agentTypeDenied (mg_schema mg) t)"
    and active: "v_hash (kv s) (workerAdminState (mg_schema mg) w) ''lifecycle'' \<in> {None, Some ''active''}"
  shows "\<exists>schedule s'. run_pool exec schedule ([sync_prog cfg (h, r), order], s) = ([Ret (), Ret ()], s')
    \<and> v_hash (kv s') (workerAdminState (mg_schema mg) w) ''lifecycle'' = Some lc
    \<and> (\<forall>n h r. \<exists>h' r' s'' l. act_run exec (heartbeats (runner_heartbeat cfg) n) (h, r) s' = ((Inr (), (h', r')), (s'', l))
         \<and> w \<in> v_set (kv s'') (agentTypeMembers (mg_schema mg) t))"
proof -
  let ?sch = "mg_schema mg" and ?k = "workerAdminState (mg_schema mg) w"
  let ?I = "\<lambda>v. w \<in> v_set v (agentTypeMembers ?sch t) \<and> v_hash v ?k ''lifecycle'' = Some lc"
  obtain K where K: "sync_prog cfg (h, r) = Step (Hgetall ?k) K"
      "\<And>ps. K (Inr (RPairs ps)) = bindP (settled (sync_rest cfg ps) (h, r)) (\<lambda>_. Ret ())"
    using sync_first [of cfg "(h, r)"] cfg by auto
  obtain ps s1 where read: "exec (Hgetall ?k) s = (Inr (RPairs ps), s1)" "kv s1 = kv s" "map_of ps = v_hash (kv s) ?k"
    using redis_available.hash_read [OF avail] by blast
  have seen: "lifecycle_of ps = ''active''" using read(3) active by (auto simp: lifecycle_of_def opt_or_def str_or_def)
  let ?pool1 = "[K (Inr (RPairs ps)), order]"
  have first: "run_pool exec [0] ([sync_prog cfg (h, r), order], s) = (?pool1, s1)" using K(1) read(1) by simp
  have "wp exec order (\<lambda>_ \<sigma>'. out_of_rotation (kv (fst \<sigma>')) ?sch w lc \<and> same_sets ?sch (kv s1) (kv (fst \<sigma>'))) (\<lambda>_ _. False) (s1, [])"
    by (rule wp_mono [OF redis_available.wp_takes_out [OF avail order]]) auto
  from pool_runs_out [where P = "\<lambda>_ s'. out_of_rotation (kv s') ?sch w lc \<and> same_sets ?sch (kv s1) (kv s')", OF this, of 1 ?pool1]
  obtain n1 s2 where second: "run_pool exec (replicate n1 1) (?pool1, s1) = ([K (Inr (RPairs ps)), Ret ()], s2)"
    "out_of_rotation (kv s2) ?sch w lc" "same_sets ?sch (kv s1) (kv s2)" by auto
  have "wp exec (K (Inr (RPairs ps))) (\<lambda>_ \<sigma>'. ?I (kv (fst \<sigma>'))) (\<lambda>_ _. False) (s2, [])"
    unfolding K(2) by (rule redis_available.sync_rest_joins [OF avail cfg(1,2) seen t(1)])
      (use second(2,3) read(2) t(2) in \<open>auto simp: out_of_rotation_def\<close>)
  from pool_runs_out [where P = "\<lambda>_ s'. ?I (kv s')", OF this, of 0 "[K (Inr (RPairs ps)), Ret ()]"]
  obtain n2 s3 where third: "run_pool exec (replicate n2 0) ([K (Inr (RPairs ps)), Ret ()], s2) = ([Ret (), Ret ()], s3)" "?I (kv s3)"
    by auto
  have lc: "lc \<noteq> []" "lc \<noteq> ''active''" using order by (auto simp: takes_out_def)
  have "\<exists>h' r' s'' l. act_run exec (heartbeats (runner_heartbeat cfg) n) (h, r) s3 = ((Inr (), (h', r')), (s'', l))
         \<and> w \<in> v_set (kv s'') (agentTypeMembers ?sch t)" for n h r
  proof -
    have "kept ?I lc (rn_admin r) r (kv (fst (s3, [])))" using third(2) by (simp add: kept_def)
    note stays = redis_available.heartbeats_keep [OF avail cfg lc members_fact this, of n h]
    show ?thesis by (rule act_run_total [OF stays]) (auto simp: kept_def)
  qed
  moreover have "run_pool exec ([0] @ replicate n1 1 @ replicate n2 0) ([sync_prog cfg (h, r), order], s) = ([Ret (), Ret ()], s3)"
    unfolding run_pool_append first second(1) third(1) ..
  ultimately show ?thesis using third(2) by blast
qed

theorem suspension_race_witness:
  "\<exists>schedule s'. run_pool mock_exec schedule ([sync_prog usurped_config (new_heart, new_runner (new_health 50 15)),
        suspendWorker sample_manager ''w1'' ''upgrade''], serving) = ([Ret (), Ret ()], s')
    \<and> v_hash (mock_view s') (workerAdminState V1 ''w1'') ''lifecycle'' = Some ''suspended''
    \<and> (\<exists>h' r' s'' l. act_run mock_exec (heartbeats (runner_heartbeat usurped_config) 7) (new_heart, new_runner (new_health 50 15)) s'
          = ((Inr (), (h', r')), (s'', l)) \<and> ''w1'' \<in> v_set (mock_view s'') (agentTypeMembers V1 ''helper''))"
proof -
  have ids: "rc_registry usurped_config = sample_registry" "rc_id usurped_config = ''w1''" "mg_schema sample_manager = V1"
    "reg_schema sample_registry = V1" "0 < rc_leaseTtlSeconds usurped_config" "''helper'' \<in> set (rc_agentTypes usurped_config)"
    by (simp_all add: usurped_config_def sample_config_def rc_id_def mg_schema_def sample_manager_def sample_registry_def)
  have order: "takes_out sample_manager ''w1'' (suspendWorker sample_manager ''w1'' ''upgrade'') ''suspended''"
    by (auto simp: takes_out_def)
  have keys: "agentTypeDenied V1 ''helper'' \<noteq> agentTypeMembers V1 ''chat''" "agentTypeDenied V1 ''helper'' \<noteq> workerDeclaredAgentTypes V1 ''w1''"
    by (simp_all add: agentTypeDenied_def agentTypeMembers_def workerDeclaredAgentTypes_def versioned_def)
  have state: "''w1'' \<notin> v_set (mock_view serving) (agentTypeDenied V1 ''helper'')"
    "v_hash (mock_view serving) (workerAdminState V1 ''w1'') ''lifecycle'' = None"
    unfolding serving_def by (subst mock_after_writes, simp_all add: keys)+
  show ?thesis
    using suspension_race [OF mock_server.redis_available_axioms order ids(2), of "''helper''" serving new_heart "new_runner (new_health 50 15)"]
      ids state by fastforce
qed

end
