(* ===== verification/Lifecycle.thy ===== *)
theory Lifecycle
  imports Admin
begin

text \<open>
  A worker's coming and going (src/runner.ts: setupStreams, initialize, release and the
  head of start; src/worker.ts: startHeartbeat, stopHeartbeat): the id is
  claimed, the consumer groups are made, the heartbeat begins, the loops start; and the
  same things are given back in the end.

  XGROUP CREATE and the hooks of the plugins are arguments, like what the control
  loop and the sweeper still have to do when they are told to stop. The
  group name, which start hashes from the agent types, is a field of the configuration.
\<close>

section \<open>Streams\<close>

text \<open>A group that is there, or any other failure, does not stop the worker.\<close>

definition setupStreams :: "runner_config \<Rightarrow> (key \<Rightarrow> unit prog) \<Rightarrow> unit prog" where
  "setupStreams cfg create = forP (rc_agentTypes cfg) (\<lambda>cap. catchP (create (ctrl_stream (rc_schema cfg) cap)) (\<lambda>_. Ret ()))"

definition setupControlStreams :: "runner_config \<Rightarrow> (key \<Rightarrow> unit prog) \<Rightarrow> unit prog" where
  "setupControlStreams cfg create = catchP (create (worker_ctrl_stream (rc_schema cfg) (rc_id cfg))) (\<lambda>_. Ret ())"


section \<open>The worker process\<close>

record shell =
  sh_cfg :: runner_config
  sh_runner :: runner
  sh_heart :: "heart option"
  sh_lockToken :: "string option"
  sh_probing :: bool
  sh_sweeping :: bool

text \<open>What is around the process; the sweeper may fail to be constructed.\<close>

record surroundings =
  su_interval :: seconds
  su_createGroup :: "key \<Rightarrow> unit prog"
  su_onStartup :: "unit prog"
  su_onShutdown :: "unit prog"
  su_sweeperStarts :: bool
  su_lastPass :: "unit prog"
  su_lastControl :: "unit prog"

definition new_shell :: "runner_config \<Rightarrow> runner \<Rightarrow> shell" where
  "new_shell cfg r = \<lparr>sh_cfg = cfg, sh_runner = r, sh_heart = None, sh_lockToken = None, sh_probing = False, sh_sweeping = False\<rparr>"

text \<open>An action of the heartbeat, which works on the runner through its callbacks.\<close>

definition beatA :: "(heart \<times> runner, 'a) act \<Rightarrow> (shell, 'a) act" where
  "beatA m = (\<lambda>sh. bindP (settled m (opt_or (sh_heart sh) new_heart, sh_runner sh))
     (\<lambda>(x, (h, r)). Ret (x, sh\<lparr>sh_heart := Some h, sh_runner := r\<rparr>)))"

definition startHeartbeat :: "surroundings \<Rightarrow> (shell, unit) act" where
  "startHeartbeat su = seqA (liftA (su_onStartup su)) (seqA (writeA (\<lambda>sh. sh\<lparr>sh_heart := Some new_heart\<rparr>))
     (bindA (readA sh_cfg) (\<lambda>cfg. beatA (heartbeat_start (runner_heartbeat cfg)))))"

definition stopHeartbeat :: "shell \<Rightarrow> shell" where
  "stopHeartbeat sh = sh\<lparr>sh_heart := None\<rparr>"

text \<open>The id is claimed for a minute, whatever the lease of the renewals.\<close>

definition claim_id :: "(shell, unit) act" where
  "claim_id = bindA (readA sh_cfg) (\<lambda>cfg. bindA (liftA (claimWorkerId (rc_registry cfg) (rc_id cfg) 60)) (\<lambda>(token, reg).
     writeA (\<lambda>sh. sh\<lparr>sh_cfg := cfg\<lparr>rc_registry := reg\<rparr>, sh_lockToken := Some token\<rparr>)))"

definition go_online :: "surroundings \<Rightarrow> (shell, unit) act" where
  "go_online su = bindA (readA sh_cfg) (\<lambda>cfg.
     seqA (liftA (setupStreams cfg (su_createGroup su))) (seqA (liftA (setupControlStreams cfg (su_createGroup su)))
    (seqA (writeA (\<lambda>sh. sh\<lparr>sh_probing := True\<rparr>)) (seqA (startHeartbeat su)
      (writeA (\<lambda>sh. sh\<lparr>sh_runner := (sh_runner sh)\<lparr>rn_controlLoop := True\<rparr>, sh_sweeping := su_sweeperStarts su\<rparr>))))))"

definition initialize :: "surroundings \<Rightarrow> (shell, unit) act" where
  "initialize su = bindA (readA sh_cfg) (\<lambda>cfg.
     case assertHeartbeatTiming (su_interval su) (Finite (int (rc_leaseTtlSeconds cfg))) of
       Some e \<Rightarrow> raiseA e
     | None \<Rightarrow> seqA claim_id (go_online su))"

text \<open>
  The lease goes back by its token, or without one by its id. Only what gave back the
  lease gives up the memberships.
\<close>

definition give_back :: "(shell, bool) act" where
  "give_back = bindA (readA (\<lambda>sh. (sh_cfg sh, sh_lockToken sh))) (\<lambda>(cfg, lockToken).
     if opt_or lockToken [] \<noteq> [] then
       bindA (liftA (catchP (releaseWorkerId (rc_registry cfg) (rc_id cfg) (opt_or lockToken [])) (\<lambda>_. Ret (False, rc_registry cfg)))) (\<lambda>(released, reg).
         seqA (writeA (\<lambda>sh. sh\<lparr>sh_cfg := cfg\<lparr>rc_registry := reg\<rparr>, sh_lockToken := None\<rparr>)) (doneA released))
     else liftA (markWorkerInactive (rc_registry cfg) (rc_id cfg) []))"

definition release :: "surroundings \<Rightarrow> (shell, unit) act" where
  "release su =
     seqA (writeA (\<lambda>sh. sh\<lparr>sh_runner := (sh_runner sh)\<lparr>rn_controlLoop := False, rn_health := stopEventLoopProbe (rn_health (sh_runner sh))\<rparr>,
       sh_probing := False\<rparr>))
    (bindA (readA sh_sweeping) (\<lambda>sweeping.
     seqA (whenA sweeping (liftA (catchP (su_lastPass su) (\<lambda>_. Ret ()))))
    (seqA (writeA (\<lambda>sh. stopHeartbeat (sh\<lparr>sh_sweeping := False\<rparr>)))
    (bindA give_back (\<lambda>releasedWorkerId.
     bindA (readA sh_cfg) (\<lambda>cfg.
     seqA (whenA releasedWorkerId (liftA (unregisterWorkerMembership (rc_registry cfg) (rc_id cfg))))
    (seqA (liftA (su_onShutdown su)) (liftA (catchP (su_lastControl su) (\<lambda>_. Ret ()))))))))))"

text \<open>`start` up to the first round of its loop.\<close>

definition enter_loop :: "(shell, unit) act" where
  "enter_loop = seqA (writeA (\<lambda>sh. sh\<lparr>sh_runner := (sh_runner sh)\<lparr>rn_running := True\<rparr>\<rparr>))
     (bindA (liftA nowP) (\<lambda>now. writeA (\<lambda>sh. sh\<lparr>sh_runner := loop_tick now (sh_runner sh)\<rparr>)))"

definition start_runner :: "surroundings \<Rightarrow> bool \<Rightarrow> (shell, unit) act" where
  "start_runner su initializes = seqA (whenA initializes (initialize su)) enter_loop"

lemma wpA_beatA [simp]: "wpA exec (beatA m) Q E sh \<sigma> =
    wpA exec m (\<lambda>a (h, r). Q a (sh\<lparr>sh_heart := Some h, sh_runner := r\<rparr>)) (\<lambda>e (h, r). E e (sh\<lparr>sh_heart := Some h, sh_runner := r\<rparr>))
      (opt_or (sh_heart sh) new_heart, sh_runner sh) \<sigma>"
  unfolding wpA_def beatA_def by (simp add: wp_settled) (rule wp_eqI, auto split: sum.splits)


section \<open>What the steps leave in the keyspace\<close>

text \<open>The membership of `w` in the types `T`, where the denylist has nothing against it.\<close>

definition joined :: "key_schema \<Rightarrow> string \<Rightarrow> string set \<Rightarrow> view \<Rightarrow> view \<Rightarrow> bool" where
  "joined sch w T v v' \<longleftrightarrow> v_str v' = v_str v \<and> v_hash v' = v_hash v
     \<and> v_set v' (workerDeclaredAgentTypes sch w) = v_set v (workerDeclaredAgentTypes sch w) \<union> T
     \<and> (\<forall>t. v_set v' (agentTypeDenied sch t) = v_set v (agentTypeDenied sch t))
     \<and> (\<forall>t. v_set v' (agentTypeMembers sch t) = v_set v (agentTypeMembers sch t)
            \<union> (if t \<in> T \<and> w \<notin> v_set v (agentTypeDenied sch t) then {w} else {}))"

lemma denied_lease_neq [simp]:
  "agentTypeDenied sch t \<noteq> worker_online_lease sch w" "worker_online_lease sch w \<noteq> agentTypeDenied sch t"
  by (cases sch; simp add: agentTypeDenied_def worker_online_lease_def versioned_def)+

lemma joined_trans: "joined sch w T v v' \<Longrightarrow> joined sch w T' v' v'' \<Longrightarrow> joined sch w (T \<union> T') v v''"
  by (auto simp: joined_def)

lemma joined_empty [simp]: "joined sch w {} v v"
  by (simp add: joined_def)

context redis_available
begin

lemma wp_joins_one:
  "wp exec (seqP (saddP (workerDeclaredAgentTypes (reg_schema reg) w) a)
      (bindP (isWorkerDeniedForType reg a w) (\<lambda>denied.
         if denied then Ret () else saddP (agentTypeMembers (reg_schema reg) a) w)))
    (\<lambda>_ \<sigma>'. joined (reg_schema reg) w {a} (kv (fst \<sigma>)) (kv (fst \<sigma>')) \<and> clk (fst \<sigma>) \<le> clk (fst \<sigma>')) (\<lambda>_ _. False) \<sigma>"
proof (cases \<sigma>)
  case (Pair s l)
  show ?thesis
    unfolding isWorkerDeniedForType_def wp_seqP wp_bindP Pair
    by (rule wp_saddP, rule wp_sismemberP) (auto simp: joined_def intro!: wp_saddP)
qed

lemma wp_joins:
  "wp exec (forP types (\<lambda>agentType. seqP (saddP (workerDeclaredAgentTypes (reg_schema reg) w) agentType)
      (bindP (isWorkerDeniedForType reg agentType w) (\<lambda>denied.
         if denied then Ret () else saddP (agentTypeMembers (reg_schema reg) agentType) w))))
    (\<lambda>_ \<sigma>'. joined (reg_schema reg) w (set types) (kv (fst \<sigma>)) (kv (fst \<sigma>')) \<and> clk (fst \<sigma>) \<le> clk (fst \<sigma>')) (\<lambda>_ _. False) \<sigma>"
proof (induction types arbitrary: \<sigma>)
  case (Cons a types)
  show ?case
    unfolding forP.simps wp_bindP [of _ _ "\<lambda>_. forP types f" for f]
    by (rule wp_mono [OF wp_joins_one], rule wp_mono [OF Cons.IH]) (auto dest: joined_trans)
qed simp

lemma wp_registers:
  "wp exec (registerWorkerMembership reg w types)
    (\<lambda>_ \<sigma>'. joined (reg_schema reg) w (set types) (kv (fst \<sigma>)) (kv (fst \<sigma>')) \<and> clk (fst \<sigma>) \<le> clk (fst \<sigma>')) (\<lambda>_ _. False) \<sigma>"
proof (cases \<sigma>)
  case (Pair s l)
  show ?thesis
    unfolding registerWorkerMembership_def wp_seqP Pair
    by (rule wp_saddP, rule wp_mono [OF wp_joins]) (auto simp: joined_def)
qed

text \<open>A renewal by the owner, up to what it writes.\<close>

lemma wp_renews:
  assumes "lease_owner (kv s) (reg_schema reg) w = Some t" "lock_token reg w = Some t" "0 < ttl"
  shows "wp exec (heartbeatWorker reg w ttl)
     (\<lambda>ok \<sigma>. ok \<and> clk s \<le> clk (fst \<sigma>) \<and> kv (fst \<sigma>) = set_members (known_workers (reg_schema reg))
          (insert w (v_set (kv s) (known_workers (reg_schema reg))))
          (put_str (worker_online_lease (reg_schema reg) w) (encodeWorkerPresence (Some t) (clk s) (reg_ip reg)) (kv s)))
     (\<lambda>_ _. False) (s, l)"
proof -
  obtain raw where "v_str (kv s) (worker_online_lease (reg_schema reg) w) = Some raw" "dp_token (decodeWorkerPresence (Some raw)) = Some t"
    using assms(1) by (auto simp: lease_owner_def split: option.splits)
  then show ?thesis
    using assms(2,3) by (auto simp: heartbeatWorker_def Let_def intro!: wp_nowP wp_getP wp_setP wp_saddP)
qed

lemma wp_claims:
  assumes "v_str (kv s) (worker_online_lease (reg_schema reg) w) = None" "0 < ttl"
    "worker_online_lease (reg_schema reg) w \<notin> oth s"
  shows "wp exec (claimWorkerId reg w ttl)
     (\<lambda>r \<sigma>. length (fst r) = 32 \<and> snd r = reg\<lparr>lockTokens := (lockTokens reg)(w \<mapsto> fst r)\<rparr> \<and> clk s \<le> clk (fst \<sigma>)
        \<and> kv (fst \<sigma>) = set_members (known_workers (reg_schema reg)) (insert w (v_set (kv s) (known_workers (reg_schema reg))))
          (put_str (worker_online_lease (reg_schema reg) w) (encodeWorkerPresence (Some (fst r)) 0 (reg_ip reg)) (kv s)))
     (\<lambda>_ _. False) (s, l)"
  unfolding claimWorkerId_def Let_def wp_bindP
proof (rule wp_uuidP, rule wp_setP_nx, goal_cases)
  case (3 s1 u s2)
  then show ?case
    using assms by (auto intro!: wp_saddP)
qed (use assms in auto)

text \<open>Leaving: the lease of the token, then the memberships of all declared types.\<close>

lemma wp_leaves_types:
  "wp exec (forP types (\<lambda>agentType. sremP (agentTypeMembers sch agentType) w))
    (\<lambda>_ \<sigma>'. v_str (kv (fst \<sigma>')) = v_str (kv (fst \<sigma>)) \<and> (\<forall>k. (\<forall>t. k \<noteq> agentTypeMembers sch t) \<longrightarrow> v_set (kv (fst \<sigma>')) k = v_set (kv (fst \<sigma>)) k)
       \<and> (\<forall>t. v_set (kv (fst \<sigma>')) (agentTypeMembers sch t) = v_set (kv (fst \<sigma>)) (agentTypeMembers sch t) - (if t \<in> set types then {w} else {})))
    (\<lambda>_ _. False) \<sigma>"
proof (induction types arbitrary: \<sigma>)
  case (Cons a types)
  obtain s l where \<sigma>: "\<sigma> = (s, l)" by (cases \<sigma>)
  show ?case
    unfolding forP.simps wp_bindP [of _ _ "\<lambda>_. forP types f" for f] \<sigma>
    by (rule wp_sremP, rule wp_mono [OF Cons.IH]) auto
qed simp

lemma wp_unregisters:
  "wp exec (unregisterWorkerMembership reg w)
    (\<lambda>_ \<sigma>'. v_str (kv (fst \<sigma>')) = (v_str (kv s))(workerDeclaredAgentTypes (reg_schema reg) w := None)
       \<and> v_set (kv (fst \<sigma>')) (workerDeclaredAgentTypes (reg_schema reg) w) = {} \<and> w \<notin> v_set (kv (fst \<sigma>')) (known_workers (reg_schema reg))
       \<and> (\<forall>t \<in> v_set (kv s) (workerDeclaredAgentTypes (reg_schema reg) w). w \<notin> v_set (kv (fst \<sigma>')) (agentTypeMembers (reg_schema reg) t)))
    (\<lambda>_ _. False) (s, l)"
  unfolding unregisterWorkerMembership_def wp_bindP wp_seqP
  by (rule wp_smembersP, rule wp_delP, rule wp_sremP, rule wp_mono [OF wp_leaves_types]) auto

end


section \<open>In service\<close>

definition in_service :: "view \<Rightarrow> key_schema \<Rightarrow> string \<Rightarrow> string list \<Rightarrow> string \<Rightarrow> bool" where
  "in_service v sch w types token \<longleftrightarrow> lease_owner v sch w = Some token \<and> presence_online (v_str v (worker_online_lease sch w))
     \<and> w \<in> v_set v (known_workers sch) \<and> set types \<subseteq> v_set v (workerDeclaredAgentTypes sch w)
     \<and> (\<forall>t \<in> set types. w \<notin> v_set v (agentTypeDenied sch t) \<longrightarrow> w \<in> v_set v (agentTypeMembers sch t))"

definition out_of_service :: "view \<Rightarrow> key_schema \<Rightarrow> string \<Rightarrow> string list \<Rightarrow> bool" where
  "out_of_service v sch w types \<longleftrightarrow> v_str v (worker_online_lease sch w) = None \<and> w \<notin> v_set v (known_workers sch)
     \<and> v_set v (workerDeclaredAgentTypes sch w) = {} \<and> (\<forall>t \<in> set types. w \<notin> v_set v (agentTypeMembers sch t))"

text \<open>The administrator wants the worker in the rotation.\<close>

definition wanted :: "view \<Rightarrow> key_schema \<Rightarrow> string \<Rightarrow> bool" where
  "wanted v sch w \<longleftrightarrow> v_hash v (workerAdminState sch w) ''lifecycle'' \<in> {None, Some [], Some ''active''}"

text \<open>A program that leaves the keyspace alone, whether it raises or not; and one that does not raise.\<close>

definition leaves_alone :: "(cmd \<Rightarrow> 's \<Rightarrow> answer \<times> 's) \<Rightarrow> ('s \<Rightarrow> view) \<Rightarrow> ('s \<Rightarrow> int) \<Rightarrow> unit prog \<Rightarrow> bool" where
  "leaves_alone exec kv clk p \<longleftrightarrow> (\<forall>s l. wp exec p (\<lambda>_ \<sigma>. kv (fst \<sigma>) = kv s \<and> clk s \<le> clk (fst \<sigma>))
      (\<lambda>_ \<sigma>. kv (fst \<sigma>) = kv s \<and> clk s \<le> clk (fst \<sigma>)) (s, l))"

definition passes_by :: "(cmd \<Rightarrow> 's \<Rightarrow> answer \<times> 's) \<Rightarrow> ('s \<Rightarrow> view) \<Rightarrow> ('s \<Rightarrow> int) \<Rightarrow> unit prog \<Rightarrow> bool" where
  "passes_by exec kv clk p \<longleftrightarrow> (\<forall>s l. wp exec p (\<lambda>_ \<sigma>. kv (fst \<sigma>) = kv s \<and> clk s \<le> clk (fst \<sigma>)) (\<lambda>_ _. False) (s, l))"

lemma wp_leaves_alone:
  assumes "leaves_alone exec kv clk p"
    and "\<And>\<sigma>'. kv (fst \<sigma>') = kv (fst \<sigma>) \<Longrightarrow> clk (fst \<sigma>) \<le> clk (fst \<sigma>') \<Longrightarrow> Q () \<sigma>'"
    and "\<And>e \<sigma>'. kv (fst \<sigma>') = kv (fst \<sigma>) \<Longrightarrow> clk (fst \<sigma>) \<le> clk (fst \<sigma>') \<Longrightarrow> E e \<sigma>'"
  shows "wp exec p Q E \<sigma>"
  by (rule wp_mono [OF assms(1) [unfolded leaves_alone_def, THEN spec [of _ "fst \<sigma>"], THEN spec [of _ "snd \<sigma>"], unfolded prod.collapse]])
    (auto intro: assms(2,3))

lemma wp_passes_by:
  assumes "passes_by exec kv clk p"
    and "\<And>\<sigma>'. kv (fst \<sigma>') = kv (fst \<sigma>) \<Longrightarrow> clk (fst \<sigma>) \<le> clk (fst \<sigma>') \<Longrightarrow> Q () \<sigma>'"
  shows "wp exec p Q E \<sigma>"
  by (rule wp_mono [OF assms(1) [unfolded passes_by_def, THEN spec [of _ "fst \<sigma>"], THEN spec [of _ "snd \<sigma>"], unfolded prod.collapse]])
    (auto intro: assms(2))

lemma wp_setup:
  assumes "\<And>k. leaves_alone exec kv clk (create k)"
    and "\<And>\<sigma>'. kv (fst \<sigma>') = kv (fst \<sigma>) \<Longrightarrow> clk (fst \<sigma>) \<le> clk (fst \<sigma>') \<Longrightarrow> Q () \<sigma>'"
  shows "wp exec (setupStreams cfg create) (\<lambda>_. wp exec (setupControlStreams cfg create) Q E) E \<sigma>"
proof -
  have "wp exec (setupStreams cfg create) (\<lambda>_ \<sigma>'. kv (fst \<sigma>') = kv (fst \<sigma>) \<and> clk (fst \<sigma>) \<le> clk (fst \<sigma>')) E \<sigma>"
    unfolding setupStreams_def
    by (rule wp_forP_inv) (auto intro!: wp_leaves_alone [OF assms(1)])
  then show ?thesis
    by (rule wp_mono) (auto simp: setupControlStreams_def intro!: wp_leaves_alone [OF assms(1)] assms(2))
qed

text \<open>
  A program of the surroundings that may change the keyspace, but only within a
  relation: `confined` whether it raises or not, `completes_within` without raising.
\<close>

definition confined :: "(view \<Rightarrow> view \<Rightarrow> bool) \<Rightarrow> (cmd \<Rightarrow> 's \<Rightarrow> answer \<times> 's) \<Rightarrow> ('s \<Rightarrow> view) \<Rightarrow> ('s \<Rightarrow> int) \<Rightarrow> unit prog \<Rightarrow> bool" where
  "confined R exec kv clk p \<longleftrightarrow> (\<forall>s l. wp exec p (\<lambda>_ \<sigma>. R (kv s) (kv (fst \<sigma>)) \<and> clk s \<le> clk (fst \<sigma>))
      (\<lambda>_ \<sigma>. R (kv s) (kv (fst \<sigma>)) \<and> clk s \<le> clk (fst \<sigma>)) (s, l))"

definition completes_within :: "(view \<Rightarrow> view \<Rightarrow> bool) \<Rightarrow> (cmd \<Rightarrow> 's \<Rightarrow> answer \<times> 's) \<Rightarrow> ('s \<Rightarrow> view) \<Rightarrow> ('s \<Rightarrow> int) \<Rightarrow> unit prog \<Rightarrow> bool" where
  "completes_within R exec kv clk p \<longleftrightarrow> (\<forall>s l. wp exec p (\<lambda>_ \<sigma>. R (kv s) (kv (fst \<sigma>)) \<and> clk s \<le> clk (fst \<sigma>)) (\<lambda>_ _. False) (s, l))"

text \<open>Keeping a worker's place: its lease, its administrative state and its declared types; and not bringing it back.\<close>

definition keeps_place :: "key_schema \<Rightarrow> string \<Rightarrow> view \<Rightarrow> view \<Rightarrow> bool" where
  "keeps_place sch w v v' \<longleftrightarrow> v_str v' (worker_online_lease sch w) = v_str v (worker_online_lease sch w)
     \<and> v_hash v' (workerAdminState sch w) = v_hash v (workerAdminState sch w)
     \<and> v_set v' (workerDeclaredAgentTypes sch w) = v_set v (workerDeclaredAgentTypes sch w)"

definition stays_out :: "key_schema \<Rightarrow> string \<Rightarrow> view \<Rightarrow> view \<Rightarrow> bool" where
  "stays_out sch w v v' \<longleftrightarrow> (\<forall>types. out_of_service v sch w types \<longrightarrow> out_of_service v' sch w types)"

lemma wp_confined:
  assumes "confined R exec kv clk p"
    and "\<And>\<sigma>'. R (kv (fst \<sigma>)) (kv (fst \<sigma>')) \<Longrightarrow> clk (fst \<sigma>) \<le> clk (fst \<sigma>') \<Longrightarrow> Q () \<sigma>'"
    and "\<And>e \<sigma>'. R (kv (fst \<sigma>)) (kv (fst \<sigma>')) \<Longrightarrow> clk (fst \<sigma>) \<le> clk (fst \<sigma>') \<Longrightarrow> E e \<sigma>'"
  shows "wp exec p Q E \<sigma>"
  by (rule wp_mono [OF assms(1) [unfolded confined_def, THEN spec [of _ "fst \<sigma>"], THEN spec [of _ "snd \<sigma>"], unfolded prod.collapse]])
    (auto intro: assms(2,3))

lemma wp_completes:
  assumes "completes_within R exec kv clk p"
    and "\<And>\<sigma>'. R (kv (fst \<sigma>)) (kv (fst \<sigma>')) \<Longrightarrow> clk (fst \<sigma>) \<le> clk (fst \<sigma>') \<Longrightarrow> Q () \<sigma>'"
  shows "wp exec p Q E \<sigma>"
  by (rule wp_mono [OF assms(1) [unfolded completes_within_def, THEN spec [of _ "fst \<sigma>"], THEN spec [of _ "snd \<sigma>"], unfolded prod.collapse]])
    (auto intro: assms(2))

lemma keeps_place_refl [simp]: "keeps_place sch w v v"
  by (simp add: keeps_place_def)

lemma keeps_place_trans: "keeps_place sch w v v' \<Longrightarrow> keeps_place sch w v' v'' \<Longrightarrow> keeps_place sch w v v''"
  by (simp add: keeps_place_def)

lemma keeps_place_facts:
  assumes "keeps_place sch w v v'"
  shows "lease_owner v' sch w = lease_owner v sch w" "wanted v' sch w = wanted v sch w"
    "v_set v' (workerDeclaredAgentTypes sch w) = v_set v (workerDeclaredAgentTypes sch w)"
  using assms by (simp_all add: keeps_place_def lease_owner_def wanted_def)

lemma wp_setup_keeps:
  assumes create: "\<And>k. confined (keeps_place sch w) exec kv clk (create k)"
    and Q: "\<And>\<sigma>'. keeps_place sch w (kv (fst \<sigma>)) (kv (fst \<sigma>')) \<Longrightarrow> clk (fst \<sigma>) \<le> clk (fst \<sigma>') \<Longrightarrow> Q () \<sigma>'"
  shows "wp exec (setupStreams cfg create) (\<lambda>_. wp exec (setupControlStreams cfg create) Q E) E \<sigma>"
proof -
  let ?I = "\<lambda>\<sigma>'. keeps_place sch w (kv (fst \<sigma>)) (kv (fst \<sigma>')) \<and> clk (fst \<sigma>) \<le> clk (fst \<sigma>')"
  have step: "?I \<sigma>1 \<Longrightarrow> wp exec (catchP (create k) (\<lambda>_. Ret ())) (\<lambda>_. ?I) E \<sigma>1" for k \<sigma>1
    by (auto intro!: wp_confined [OF create] dest: keeps_place_trans)
  have "wp exec (setupStreams cfg create) (\<lambda>_. ?I) E \<sigma>"
    unfolding setupStreams_def by (rule wp_forP_inv, erule step) simp
  then show ?thesis
    by (rule wp_mono) (auto simp only: setupControlStreams_def intro!: wp_mono [OF step] Q)
qed

context redis_available
begin

lemma wp_heartbeat_starts:
  assumes own: "lease_owner (kv s) (rc_schema cfg) (rc_id cfg) = Some t" "lock_token (rc_registry cfg) (rc_id cfg) = Some t"
    and cfg: "reg_schema (rc_registry cfg) = rc_schema cfg" "0 < rc_leaseTtlSeconds cfg"
    and "wanted (kv s) (rc_schema cfg) (rc_id cfg)" "0 < clk s"
  shows "wpA exec (heartbeat_start (runner_heartbeat cfg)) (\<lambda>_ (h, r') \<sigma>. hb_interval h \<and> rn_running r' = rn_running r
      \<and> in_service (kv (fst \<sigma>)) (rc_schema cfg) (rc_id cfg) (rc_agentTypes cfg) t) (\<lambda>_ _ _. False) (new_heart, r) (s, l)"
proof -
  let ?sch = "rc_schema cfg" and ?w = "rc_id cfg"
  have hc: "hc_registry (runner_heartbeat cfg) = rc_registry cfg" "hc_workerId (runner_heartbeat cfg) = ?w"
    "hc_agentTypes (runner_heartbeat cfg) = rc_agentTypes cfg" "hc_leaseTtlSeconds (runner_heartbeat cfg) = rc_leaseTtlSeconds cfg"
    "hc_renewOk (runner_heartbeat cfg) = Some (\<lambda>now r. r\<lparr>rn_health := (rn_health r)\<lparr>hl_lastRenewOk := now\<rparr>\<rparr>)"
    by (simp_all add: runner_heartbeat_def)
  have active: "lifecycle_of ps = ''active''" if "map_of ps = v_hash (kv s) (workerAdminState ?sch ?w)" for ps
    using that assms(5) by (auto simp: lifecycle_of_def wanted_def opt_or_def str_or_def)
  have renew: "wp exec (heartbeatWorker (rc_registry cfg) ?w (rc_leaseTtlSeconds cfg))
      (\<lambda>ok \<sigma>2. ok \<and> in_service (kv (fst \<sigma>2)) ?sch ?w (rc_agentTypes cfg) t) (\<lambda>_ _. False) \<sigma>1"
    if "joined ?sch ?w (set (rc_agentTypes cfg)) (kv s) (kv (fst \<sigma>1))" "clk s \<le> clk (fst \<sigma>1)" for \<sigma>1
  proof -
    obtain s1 l1 where \<sigma>1: "\<sigma>1 = (s1, l1)" by (cases \<sigma>1)
    have "lease_owner (kv s1) (reg_schema (rc_registry cfg)) ?w = Some t"
      using that own cfg(1) by (simp add: \<sigma>1 joined_def lease_owner_def)
    from wp_renews [OF this own(2) cfg(2)] show ?thesis
      unfolding \<sigma>1
      by (rule wp_mono) (use that \<sigma>1 assms(6) in \<open>auto simp: in_service_def lease_owner_def presence_online_def presence_roundtrip
          joined_def cfg(1)\<close>)
  qed
  have renewed: "wpA exec (renewLease (runner_heartbeat cfg)) (\<lambda>out (h', r') \<sigma>2. out = Renewed \<and> rn_running r' = rn_running r
      \<and> in_service (kv (fst \<sigma>2)) ?sch ?w (rc_agentTypes cfg) t) (\<lambda>_ _ _. False) (h0, r) \<sigma>1"
    if "joined ?sch ?w (set (rc_agentTypes cfg)) (kv s) (kv (fst \<sigma>1))" "clk s \<le> clk (fst \<sigma>1)" for h0 \<sigma>1
  proof -
    have stamp: "wp exec nowP (\<lambda>_ \<sigma>3. in_service (kv (fst \<sigma>3)) ?sch ?w (rc_agentTypes cfg) t) E' \<sigma>2"
      if "in_service (kv (fst \<sigma>2)) ?sch ?w (rc_agentTypes cfg) t" for \<sigma>2 E'
      by (cases \<sigma>2, simp only:, rule wp_nowP) (use that in simp)
    show ?thesis
      unfolding renewLease_def wpA_bindA wpA_catchA wpA_liftA hc(1,2,4)
      by (rule wp_mono [OF renew [OF that]]) (auto simp: hc(5) intro!: stamp)
  qed
  have after: "wpA exec (seqA (whenA True (liftA (registerWorkerMembership (rc_registry cfg) ?w (rc_agentTypes cfg))))
       (bindA (renewLease (runner_heartbeat cfg)) (\<lambda>outcome. if outcome = LeaseFenced then doneA () else seqA (whenA False X) (heartA (\<lambda>h. h\<lparr>hb_interval := True\<rparr>)))))
     (\<lambda>_ (h, r') \<sigma>. hb_interval h \<and> rn_running r' = rn_running r \<and> in_service (kv (fst \<sigma>)) ?sch ?w (rc_agentTypes cfg) t)
     (\<lambda>_ _ _. False) (new_heart, r) \<sigma>0" if "kv (fst \<sigma>0) = kv s" "clk s \<le> clk (fst \<sigma>0)" for \<sigma>0 X
    unfolding wpA_seqA wpA_whenA if_True wpA_liftA wpA_bindA
    by (rule wp_mono [OF wp_registers]) (use that cfg(1) in \<open>auto intro!: wpA_mono [OF renewed]\<close>)
  show ?thesis
    unfolding heartbeat_start_def getWorkerAdminState_def wpA_bindA wpA_liftA wpA_readA hc cfg(1) fst_conv
    using after by (auto simp: new_heart_def active cong: if_cong intro!: wp_hgetallP)
qed

lemma wp_startHeartbeat:
  assumes "lease_owner (kv (fst \<sigma>)) (rc_schema (sh_cfg sh)) (rc_id (sh_cfg sh)) = Some t"
    "lock_token (rc_registry (sh_cfg sh)) (rc_id (sh_cfg sh)) = Some t"
    and "reg_schema (rc_registry (sh_cfg sh)) = rc_schema (sh_cfg sh)" "0 < rc_leaseTtlSeconds (sh_cfg sh)"
    and "wanted (kv (fst \<sigma>)) (rc_schema (sh_cfg sh)) (rc_id (sh_cfg sh))" "0 < clk (fst \<sigma>)"
    and hook: "completes_within (keeps_place (rc_schema (sh_cfg sh)) (rc_id (sh_cfg sh))) exec kv clk (su_onStartup su)"
  shows "wpA exec (startHeartbeat su) (\<lambda>_ sh' \<sigma>'. (\<exists>h r'. sh' = sh\<lparr>sh_heart := Some h, sh_runner := r'\<rparr> \<and> hb_interval h)
      \<and> in_service (kv (fst \<sigma>')) (rc_schema (sh_cfg sh)) (rc_id (sh_cfg sh)) (rc_agentTypes (sh_cfg sh)) t) (\<lambda>_ _ _. False) sh \<sigma>"
  unfolding startHeartbeat_def wpA_seqA wpA_liftA wpA_bindA wpA_readA wpA_writeA wpA_beatA
proof (rule wp_completes [OF hook], goal_cases)
  case (1 \<sigma>')
  note here = keeps_place_facts [OF 1(1)]
  obtain s l where \<sigma>': "\<sigma>' = (s, l)" by (cases \<sigma>')
  show ?case
    unfolding \<sigma>' using assms 1 here
    by (simp add: \<sigma>' opt_or_def) (rule wpA_mono [OF wp_heartbeat_starts [where t = t]], auto)
qed

lemma wp_go_online:
  assumes "lease_owner (kv (fst \<sigma>)) (rc_schema (sh_cfg sh)) (rc_id (sh_cfg sh)) = Some t"
    "lock_token (rc_registry (sh_cfg sh)) (rc_id (sh_cfg sh)) = Some t"
    and "reg_schema (rc_registry (sh_cfg sh)) = rc_schema (sh_cfg sh)" "0 < rc_leaseTtlSeconds (sh_cfg sh)"
    and "wanted (kv (fst \<sigma>)) (rc_schema (sh_cfg sh)) (rc_id (sh_cfg sh))" "0 < clk (fst \<sigma>)"
    and hooks: "completes_within (keeps_place (rc_schema (sh_cfg sh)) (rc_id (sh_cfg sh))) exec kv clk (su_onStartup su)"
      "\<And>k. confined (keeps_place (rc_schema (sh_cfg sh)) (rc_id (sh_cfg sh))) exec kv clk (su_createGroup su k)"
  shows "wpA exec (go_online su) (\<lambda>_ sh' \<sigma>'. (\<exists>h. sh_heart sh' = Some h \<and> hb_interval h) \<and> sh_cfg sh' = sh_cfg sh
      \<and> sh_lockToken sh' = sh_lockToken sh \<and> rn_controlLoop (sh_runner sh') \<and> sh_sweeping sh' = su_sweeperStarts su
      \<and> in_service (kv (fst \<sigma>')) (rc_schema (sh_cfg sh)) (rc_id (sh_cfg sh)) (rc_agentTypes (sh_cfg sh)) t) (\<lambda>_ _ _. False) sh \<sigma>"
  unfolding go_online_def wpA_seqA wpA_liftA wpA_bindA wpA_readA wpA_writeA
  by (rule wp_setup_keeps [OF hooks(2)], rule wpA_mono [OF wp_startHeartbeat [where t = t]])
    (use assms in \<open>auto simp: keeps_place_facts\<close>)

text \<open>Leaving, from any state in which the lease carries our token.\<close>

lemma wp_give_back:
  assumes "lease_owner (kv (fst \<sigma>)) (rc_schema (sh_cfg sh)) (rc_id (sh_cfg sh)) = Some t"
    "sh_lockToken sh = Some t" "t \<noteq> []" "reg_schema (rc_registry (sh_cfg sh)) = rc_schema (sh_cfg sh)"
  shows "wpA exec give_back (\<lambda>released sh' \<sigma>'. released \<and> sh_lockToken sh' = None \<and> sh_heart sh' = sh_heart sh
      \<and> sh_runner sh' = sh_runner sh
      \<and> rc_schema (sh_cfg sh') = rc_schema (sh_cfg sh) \<and> rc_id (sh_cfg sh') = rc_id (sh_cfg sh)
      \<and> reg_schema (rc_registry (sh_cfg sh')) = rc_schema (sh_cfg sh)
      \<and> kv (fst \<sigma>') = clear_key (worker_online_lease (rc_schema (sh_cfg sh)) (rc_id (sh_cfg sh))) (kv (fst \<sigma>))) (\<lambda>_ _ _. False) sh \<sigma>"
proof (cases \<sigma>)
  case (Pair s l)
  obtain raw where "v_str (kv s) (worker_online_lease (rc_schema (sh_cfg sh)) (rc_id (sh_cfg sh))) = Some raw"
    "dp_token (decodeWorkerPresence (Some raw)) = Some t"
    using assms(1) by (auto simp: lease_owner_def Pair split: option.splits)
  then show ?thesis
    using assms(2-4) unfolding Pair
    by (auto simp: give_back_def opt_or_def releaseWorkerId_def expected_token_def Let_def rc_schema_def rc_id_def intro!: wp_getP wp_delP)
qed

lemma wp_release:
  assumes own: "lease_owner (kv (fst \<sigma>)) (rc_schema (sh_cfg sh)) (rc_id (sh_cfg sh)) = Some t"
    "sh_lockToken sh = Some t" "t \<noteq> []" "reg_schema (rc_registry (sh_cfg sh)) = rc_schema (sh_cfg sh)"
    and declared: "set types \<subseteq> v_set (kv (fst \<sigma>)) (workerDeclaredAgentTypes (rc_schema (sh_cfg sh)) (rc_id (sh_cfg sh)))"
    and hooks: "confined (keeps_place (rc_schema (sh_cfg sh)) (rc_id (sh_cfg sh))) exec kv clk (su_lastPass su)"
      "confined (stays_out (rc_schema (sh_cfg sh)) (rc_id (sh_cfg sh))) exec kv clk (su_lastControl su)"
      "completes_within (stays_out (rc_schema (sh_cfg sh)) (rc_id (sh_cfg sh))) exec kv clk (su_onShutdown su)"
  shows "wpA exec (release su) (\<lambda>_ sh' \<sigma>'. sh_heart sh' = None \<and> sh_lockToken sh' = None \<and> \<not> rn_controlLoop (sh_runner sh')
      \<and> out_of_service (kv (fst \<sigma>')) (rc_schema (sh_cfg sh)) (rc_id (sh_cfg sh)) types) (\<lambda>_ _ _. False) sh \<sigma>"
proof -
  let ?sch = "rc_schema (sh_cfg sh)" and ?w = "rc_id (sh_cfg sh)"
  let ?Q = "\<lambda>_ sh' \<sigma>'. sh_heart sh' = None \<and> sh_lockToken sh' = None \<and> \<not> rn_controlLoop (sh_runner sh')
      \<and> out_of_service (kv (fst \<sigma>')) ?sch ?w types"
  have rest: "wp exec (unregisterWorkerMembership reg ?w) (\<lambda>_. wp exec (su_onShutdown su) (\<lambda>_. wp exec (catchP (su_lastControl su) (\<lambda>_. Ret ()))
      (\<lambda>_ \<sigma>'. out_of_service (kv (fst \<sigma>')) ?sch ?w types) (\<lambda>_ _. False)) (\<lambda>_ _. False)) (\<lambda>_ _. False) (s, l)"
    if "reg_schema reg = ?sch" "v_str (kv s) (worker_online_lease ?sch ?w) = None"
      "set types \<subseteq> v_set (kv s) (workerDeclaredAgentTypes ?sch ?w)" for reg s l
  proof (rule wp_mono [OF wp_unregisters], goal_cases)
    case (1 a \<sigma>1)
    then have "out_of_service (kv (fst \<sigma>1)) ?sch ?w types" using that by (auto simp: out_of_service_def)
    then show ?case
      by (auto simp: stays_out_def intro!: wp_completes [OF hooks(3)] wp_confined [OF hooks(2)])
  qed simp
  have tail: "wpA exec (bindA give_back (\<lambda>releasedWorkerId. bindA (readA sh_cfg) (\<lambda>cfg.
       seqA (whenA releasedWorkerId (liftA (unregisterWorkerMembership (rc_registry cfg) (rc_id cfg))))
      (seqA (liftA (su_onShutdown su)) (liftA (catchP (su_lastControl su) (\<lambda>_. Ret ()))))))) ?Q (\<lambda>_ _ _. False) sh1 \<sigma>1"
    if "keeps_place ?sch ?w (kv (fst \<sigma>)) (kv (fst \<sigma>1))" "sh_heart sh1 = None" "sh_lockToken sh1 = Some t" "sh_cfg sh1 = sh_cfg sh" "\<not> rn_controlLoop (sh_runner sh1)" for sh1 \<sigma>1
    unfolding wpA_bindA wpA_readA
    by (rule wpA_mono [OF wp_give_back [where t = t]])
       (use that own declared keeps_place_facts [OF that(1)] in \<open>auto intro!: rest\<close>)
  show ?thesis
    unfolding release_def wpA_seqA [of _ "writeA f" for f] wpA_writeA wpA_bindA [of _ "readA sh_sweeping"] wpA_readA
    by (cases "sh_sweeping sh") (use own in \<open>auto simp: stopHeartbeat_def simp del: wpA_bindA intro!: wp_confined [OF hooks(1)] tail\<close>)
qed

lemma wp_initialize:
  assumes timing: "assertHeartbeatTiming (su_interval su) (Finite (int (rc_leaseTtlSeconds (sh_cfg sh)))) = None"
    and free: "v_str (kv s) (worker_online_lease (rc_schema (sh_cfg sh)) (rc_id (sh_cfg sh))) = None"
      "worker_online_lease (rc_schema (sh_cfg sh)) (rc_id (sh_cfg sh)) \<notin> oth s"
    and reg: "reg_schema (rc_registry (sh_cfg sh)) = rc_schema (sh_cfg sh)"
    and "wanted (kv s) (rc_schema (sh_cfg sh)) (rc_id (sh_cfg sh))" "0 < clk s"
    and hooks: "completes_within (keeps_place (rc_schema (sh_cfg sh)) (rc_id (sh_cfg sh))) exec kv clk (su_onStartup su)"
      "\<And>k. confined (keeps_place (rc_schema (sh_cfg sh)) (rc_id (sh_cfg sh))) exec kv clk (su_createGroup su k)"
  shows "wpA exec (initialize su) (\<lambda>_ sh' \<sigma>'. \<exists>token. length token = 32 \<and> sh_lockToken sh' = Some token
      \<and> sh_cfg sh' = (sh_cfg sh)\<lparr>rc_registry := rc_registry (sh_cfg sh)\<lparr>lockTokens := (lockTokens (rc_registry (sh_cfg sh)))(rc_id (sh_cfg sh) \<mapsto> token)\<rparr>\<rparr>
      \<and> (\<exists>h. sh_heart sh' = Some h \<and> hb_interval h) \<and> rn_controlLoop (sh_runner sh') \<and> sh_sweeping sh' = su_sweeperStarts su
      \<and> in_service (kv (fst \<sigma>')) (rc_schema (sh_cfg sh)) (rc_id (sh_cfg sh)) (rc_agentTypes (sh_cfg sh)) token) (\<lambda>_ _ _. False) sh (s, l)"
proof -
  let ?cfg = "sh_cfg sh" and ?sch = "rc_schema (sh_cfg sh)" and ?w = "rc_id (sh_cfg sh)"
  have ttl: "0 < rc_leaseTtlSeconds ?cfg"
    using timing by (auto simp: assertHeartbeatTiming_def positive_def split: if_splits)
  have claim: "wp exec (claimWorkerId (rc_registry ?cfg) ?w 60)
     (\<lambda>r \<sigma>. length (fst r) = 32 \<and> snd r = (rc_registry ?cfg)\<lparr>lockTokens := (lockTokens (rc_registry ?cfg))(?w \<mapsto> fst r)\<rparr>
        \<and> 0 < clk (fst \<sigma>) \<and> wanted (kv (fst \<sigma>)) ?sch ?w \<and> lease_owner (kv (fst \<sigma>)) ?sch ?w = Some (fst r)) (\<lambda>_ _. False) (s, l)"
    by (rule wp_mono [OF wp_claims]) (use assms in \<open>auto simp: wanted_def lease_owner_def presence_roundtrip\<close>)
  show ?thesis
    unfolding initialize_def wpA_bindA wpA_readA timing option.case wpA_seqA claim_id_def wpA_liftA
  proof (rule wp_mono [OF claim], goal_cases)
    case (1 r \<sigma>1)
    then show ?case
      by (cases r, simp, intro wpA_mono [OF wp_go_online [where t = "fst r" and su = su]])
        (use reg ttl hooks in \<open>auto simp: rc_schema_def rc_id_def lock_token_def\<close>)
  qed
qed

end

text \<open>
  C22. A worker comes and goes whole. With a timing that is accepted and a free id, the
  start of a worker that the administrator wants succeeds: it holds the lease with
  a token of its own, is online and known, has declared all its agent types and is a
  member of those that do not deny it, and its heartbeat and control loop run.
  Whatever happens after that to the runner, its heartbeat and the keyspace, as long as the
  lease carries the token, its release succeeds: afterwards it has no lease, no
  heartbeat and no declared type, is not known and is no member of any type it had
  declared when the release began. What the process does besides may change the
  keyspace: creating the consumer groups, the start-up hooks and the sweeper's last
  pass only have to leave the worker's lease, administrative state and declared
  types alone, and the shut-down hooks and the last control round not to bring the
  worker back; the plugin hooks do not raise.
\<close>

theorem worker_comes_and_goes:
  assumes avail: "redis_available exec kv oth clk"
    and timing: "assertHeartbeatTiming (su_interval su) (Finite (int (rc_leaseTtlSeconds cfg))) = None"
    and free: "v_str (kv s) (worker_online_lease (rc_schema cfg) (rc_id cfg)) = None"
      "worker_online_lease (rc_schema cfg) (rc_id cfg) \<notin> oth s"
    and reg: "reg_schema (rc_registry cfg) = rc_schema cfg" and "wanted (kv s) (rc_schema cfg) (rc_id cfg)" "0 < clk s"
    and hooks: "completes_within (keeps_place (rc_schema cfg) (rc_id cfg)) exec kv clk (su_onStartup su)"
      "\<And>k. confined (keeps_place (rc_schema cfg) (rc_id cfg)) exec kv clk (su_createGroup su k)"
      "confined (keeps_place (rc_schema cfg) (rc_id cfg)) exec kv clk (su_lastPass su)"
      "confined (stays_out (rc_schema cfg) (rc_id cfg)) exec kv clk (su_lastControl su)"
      "completes_within (stays_out (rc_schema cfg) (rc_id cfg)) exec kv clk (su_onShutdown su)"
  shows "\<exists>token h sh s1 l1. act_run exec (initialize su) (new_shell cfg r) s = ((Inr (), sh), (s1, l1))
    \<and> sh_lockToken sh = Some token \<and> sh_heart sh = Some h \<and> hb_interval h \<and> rn_controlLoop (sh_runner sh)
    \<and> in_service (kv s1) (rc_schema cfg) (rc_id cfg) (rc_agentTypes cfg) token
    \<and> (\<forall>r2 h2 s2 types. lease_owner (kv s2) (rc_schema cfg) (rc_id cfg) = Some token
         \<and> set types = v_set (kv s2) (workerDeclaredAgentTypes (rc_schema cfg) (rc_id cfg)) \<longrightarrow>
         (\<exists>sh' s3 l3. act_run exec (release su) (sh\<lparr>sh_runner := r2, sh_heart := h2\<rparr>) s2 = ((Inr (), sh'), (s3, l3))
            \<and> sh_heart sh' = None \<and> sh_lockToken sh' = None \<and> \<not> rn_controlLoop (sh_runner sh')
            \<and> out_of_service (kv s3) (rc_schema cfg) (rc_id cfg) types))"
proof -
  let ?sch = "rc_schema cfg" and ?w = "rc_id cfg"
  have new: "sh_cfg (new_shell cfg r) = cfg" by (simp add: new_shell_def)
  obtain sh s1 l1 token h where run: "act_run exec (initialize su) (new_shell cfg r) s = ((Inr (), sh), (s1, l1))"
    and up: "length token = 32" "sh_lockToken sh = Some token" "sh_heart sh = Some h" "hb_interval h" "rn_controlLoop (sh_runner sh)"
      "in_service (kv s1) ?sch ?w (rc_agentTypes cfg) token"
    and cfg': "sh_cfg sh = cfg\<lparr>rc_registry := rc_registry cfg\<lparr>lockTokens := (lockTokens (rc_registry cfg))(?w \<mapsto> token)\<rparr>\<rparr>"
    by (rule act_run_total [OF redis_available.wp_initialize [OF avail, where sh = "new_shell cfg r" and su = su and s = s and l = "[]", unfolded new,
        OF timing free reg assms(6,7) hooks(1,2)]]) auto
  have same: "rc_schema (sh_cfg sh) = ?sch" "rc_id (sh_cfg sh) = ?w" "reg_schema (rc_registry (sh_cfg sh)) = ?sch" "token \<noteq> []"
    using reg up(1) by (auto simp: cfg' rc_schema_def rc_id_def)
  have "\<exists>sh' s3 l3. act_run exec (release su) (sh\<lparr>sh_runner := r2, sh_heart := h2\<rparr>) s2 = ((Inr (), sh'), (s3, l3))
            \<and> sh_heart sh' = None \<and> sh_lockToken sh' = None \<and> \<not> rn_controlLoop (sh_runner sh') \<and> out_of_service (kv s3) ?sch ?w types"
    if "lease_owner (kv s2) ?sch ?w = Some token" "set types = v_set (kv s2) (workerDeclaredAgentTypes ?sch ?w)" for r2 h2 s2 types
    by (rule act_run_total [OF redis_available.wp_release [OF avail, where sh = "sh\<lparr>sh_runner := r2, sh_heart := h2\<rparr>" and \<sigma> = "(s2, [])"
        and t = token and types = types and su = su]])
      (use that same up(2) hooks in auto)
  then show ?thesis using run up by blast
qed

definition undisturbed :: surroundings where
  "undisturbed = \<lparr>su_interval = Finite 5, su_createGroup = (\<lambda>_. Raise (JsError ''BUSYGROUP'')), su_onStartup = Ret (), su_onShutdown = Ret (),
     su_sweeperStarts = True, su_lastPass = Ret (), su_lastControl = Ret ()\<rparr>"

lemma undisturbed_hooks:
  "passes_by exec kv clk (su_onStartup undisturbed)" "leaves_alone exec kv clk (su_createGroup undisturbed k)"
  "leaves_alone exec kv clk (su_lastPass undisturbed)" "leaves_alone exec kv clk (su_lastControl undisturbed)" "passes_by exec kv clk (su_onShutdown undisturbed)"
  by (simp_all add: undisturbed_def leaves_alone_def passes_by_def)

lemma undisturbed_surroundings:
  "completes_within (keeps_place sch w) exec kv clk (su_onStartup undisturbed)" "confined (keeps_place sch w) exec kv clk (su_createGroup undisturbed k)"
  "confined (keeps_place sch w) exec kv clk (su_lastPass undisturbed)" "confined (stays_out sch w) exec kv clk (su_lastControl undisturbed)"
  "completes_within (stays_out sch w) exec kv clk (su_onShutdown undisturbed)"
  by (simp_all add: undisturbed_def confined_def completes_within_def stays_out_def)

lemma sample_ids: "rc_registry usurped_config = sample_registry" "rc_id usurped_config = ''w1''" "rc_schema usurped_config = V1"
  "reg_schema sample_registry = V1" "rc_agentTypes usurped_config = [''helper'']" "rc_leaseTtlSeconds usurped_config = 15"
  by (simp_all add: usurped_config_def sample_config_def rc_id_def rc_schema_def sample_worker_def sample_registry_def)

theorem worker_comes_and_goes_witness:
  "\<exists>token h sh s1 l1. act_run mock_exec (initialize undisturbed) (new_shell usurped_config (new_runner (new_health 50 15))) (empty_mock 5) = ((Inr (), sh), (s1, l1))
     \<and> sh_lockToken sh = Some token \<and> sh_heart sh = Some h \<and> in_service (mock_view s1) V1 ''w1'' [''helper''] token"
proof -
  have "assertHeartbeatTiming (su_interval undisturbed) (Finite (int (rc_leaseTtlSeconds usurped_config))) = None"
    by (simp add: undisturbed_def sample_ids assertHeartbeatTiming_def positive_def seconds_of_def MIN_RENEWALS_PER_LEASE_def)
  from worker_comes_and_goes [OF mock_server.redis_available_axioms this _ _ _ _ _ undisturbed_surroundings, unfolded sample_ids,
      where s = "empty_mock 5" and r = "new_runner (new_health 50 15)"]
  show ?thesis by (simp add: others_fresh wanted_def) blast
qed

text \<open>
  A start that is refused leaves nothing behind. A timing that cannot keep a lease
  alive is refused before anything is asked of the server; an id that somebody holds
  is refused by its lease, without a change of the keyspace, a token or a heartbeat.
\<close>

lemma start_refused:
  assumes avail: "redis_available exec kv oth clk"
  shows "(assertHeartbeatTiming (su_interval su) (Finite (int (rc_leaseTtlSeconds (sh_cfg sh)))) = Some e \<longrightarrow>
      act_run exec (initialize su) sh s = ((Inl e, sh), (s, [])))
    \<and> (assertHeartbeatTiming (su_interval su) (Finite (int (rc_leaseTtlSeconds (sh_cfg sh)))) = None \<and>
       lease_owner (kv s) (reg_schema (rc_registry (sh_cfg sh))) (rc_id (sh_cfg sh)) = Some t \<longrightarrow>
       (\<exists>s' l. act_run exec (initialize su) sh s = ((Inl (JsError (''worker_id already in use: '' @ rc_id (sh_cfg sh))), sh), (s', l)) \<and> kv s' = kv s))"
proof (intro conjI impI)
  assume "assertHeartbeatTiming (su_interval su) (Finite (int (rc_leaseTtlSeconds (sh_cfg sh)))) = Some e"
  then show "act_run exec (initialize su) sh s = ((Inl e, sh), (s, []))"
    by (simp add: act_run_def initialize_def bindA_def readA_def raiseA_def settled_def run_catchP run_bindP)
next
  assume a: "assertHeartbeatTiming (su_interval su) (Finite (int (rc_leaseTtlSeconds (sh_cfg sh)))) = None \<and>
       lease_owner (kv s) (reg_schema (rc_registry (sh_cfg sh))) (rc_id (sh_cfg sh)) = Some t"
  let ?e = "JsError (''worker_id already in use: '' @ rc_id (sh_cfg sh))"
  have "wpA exec (initialize su) (\<lambda>_ _ _. False) (\<lambda>e sh' \<sigma>. e = ?e \<and> sh' = sh \<and> kv (fst \<sigma>) = kv s) sh (s, [])"
    using a unfolding initialize_def wpA_bindA wpA_readA wpA_seqA claim_id_def wpA_liftA
    by (auto intro!: wp_mono [OF redis_available.foreign_claim [OF avail]])
  moreover obtain out sh' s' l where run: "act_run exec (initialize su) sh s = ((out, sh'), (s', l))"
    by (metis prod.collapse)
  ultimately show "\<exists>s' l. act_run exec (initialize su) sh s = ((Inl ?e, sh), (s', l)) \<and> kv s' = kv s"
    by (cases out) (auto dest!: act_run_wpA)
qed


section \<open>A worker fenced while it starts\<close>

text \<open>The wish of the administrator is read before the first renewal, and told to the runner after it.\<close>

context redis_available
begin

lemma wp_fenced_start:
  assumes owner: "lease_owner (kv (fst \<sigma>)) (reg_schema (rc_registry cfg)) (rc_id cfg) = Some t"
    and foreign: "lock_token (rc_registry cfg) (rc_id cfg) \<noteq> Some t"
  shows "wpA exec (heartbeat_start (runner_heartbeat cfg)) (\<lambda>_ (h, r') \<sigma>'. \<not> hb_interval h \<and> \<not> hb_retry h
      \<and> r' = r\<lparr>rn_health := fence (rn_health r), rn_running := False\<rparr>) (\<lambda>_ _ _. False) (new_heart, r) \<sigma>"
proof -
  let ?hc = "runner_heartbeat cfg"
  have hc: "hc_registry ?hc = rc_registry cfg" "hc_workerId ?hc = rc_id cfg" "hc_leaseTtlSeconds ?hc = rc_leaseTtlSeconds cfg"
    "hc_fenced ?hc = Some (\<lambda>r. r\<lparr>rn_health := fence (rn_health r), rn_running := False\<rparr>)"
    by (simp_all add: runner_heartbeat_def)
  have fenced: "wpA exec (renewLease ?hc) (\<lambda>out (h, r') \<sigma>'. out = LeaseFenced \<and> \<not> hb_interval h \<and> \<not> hb_retry h
      \<and> r' = r\<lparr>rn_health := fence (rn_health r), rn_running := False\<rparr>) (\<lambda>_ _ _. False) (h0, r) \<sigma>1"
    if "v_str (kv (fst \<sigma>1)) = v_str (kv (fst \<sigma>))" for h0 \<sigma>1
  proof -
    have "lease_owner (kv (fst \<sigma>1)) (reg_schema (rc_registry cfg)) (rc_id cfg) = Some t"
      using owner that by (simp add: lease_owner_def)
    from quiet_foreign_heartbeat [OF this foreign] show ?thesis
      unfolding renewLease_def wpA_bindA wpA_catchA wpA_liftA hc(1-3)
      by (rule wp_mono) (auto simp: hc(4))
  qed
  have rest: "wpA exec (bindA (renewLease ?hc) (\<lambda>outcome. if outcome = LeaseFenced then doneA () else X))
     (\<lambda>_ (h, r') \<sigma>'. \<not> hb_interval h \<and> \<not> hb_retry h \<and> r' = r\<lparr>rn_health := fence (rn_health r), rn_running := False\<rparr>) (\<lambda>_ _ _. False) (new_heart, r) \<sigma>1"
    if "v_str (kv (fst \<sigma>1)) = v_str (kv (fst \<sigma>))" for X \<sigma>1
    unfolding wpA_bindA by (rule wpA_mono [OF fenced [OF that]]) auto
  obtain s l where \<sigma>: "\<sigma> = (s, l)" by (cases \<sigma>)
  have idle: "hb_interval new_heart = False" by (simp add: new_heart_def)
  show ?thesis
    unfolding heartbeat_start_def getWorkerAdminState_def wpA_bindA [of _ "readA f" for f] wpA_bindA [of _ "liftA p" for p]
      wpA_readA wpA_liftA fst_conv wpA_seqA wpA_whenA \<sigma> hc idle if_False
  proof (rule wp_hgetallP, goal_cases)
    case (1 s1 ps)
    have joins: "wp exec (registerWorkerMembership (rc_registry cfg) (rc_id cfg) types)
        (\<lambda>_ \<sigma>1. v_str (kv (fst \<sigma>1)) = v_str (kv (fst \<sigma>))) (\<lambda>_ _. False) (s1, l1)" for types l1
      by (rule wp_mono [OF wp_registers]) (use 1 in \<open>auto simp: joined_def \<sigma>\<close>)
    show ?case
      using 1 by (auto simp: \<sigma> simp del: wpA_bindA intro!: wp_mono [OF joins] rest)
  qed
qed

end

text \<open>
  C23. A worker that is fenced while it starts goes on consuming. If the lease carries the
  token of another process when the first heartbeat comes (the claim lasts a minute, and the
  hooks of the plugins run in between), the start is not stopped: the heartbeat is
  not started and tells the runner that it is fatal and not running, but the loop then
  sets it running again and its next round reads messages, with no timer left that
  would renew the lease or stop it.
\<close>

theorem fenced_start_consumes:
  assumes avail: "redis_available exec kv oth clk"
    and owner: "lease_owner (kv s) (reg_schema (rc_registry (sh_cfg sh))) (rc_id (sh_cfg sh)) = Some t"
    and foreign: "lock_token (rc_registry (sh_cfg sh)) (rc_id (sh_cfg sh)) \<noteq> Some t"
    and hooks: "passes_by exec kv clk (su_onStartup su)" "\<And>k. leaves_alone exec kv clk (su_createGroup su k)"
    and admin: "rn_admin (sh_runner sh) = ''active''"
  shows "\<exists>h sh' s' l. act_run exec (seqA (go_online su) enter_loop) sh s = ((Inr (), sh'), (s', l))
    \<and> hl_state (rn_health (sh_runner sh')) = Fatal \<and> rn_running (sh_runner sh') \<and> loop_decision (sh_runner sh') = Consume
    \<and> sh_heart sh' = Some h \<and> \<not> hb_interval h \<and> \<not> hb_retry h"
proof -
  let ?Q = "\<lambda>_ sh' \<sigma>. hl_state (rn_health (sh_runner sh')) = Fatal \<and> rn_running (sh_runner sh') \<and> loop_decision (sh_runner sh') = Consume
    \<and> (\<exists>h. sh_heart sh' = Some h \<and> \<not> hb_interval h \<and> \<not> hb_retry h)"
  have enter: "wpA exec enter_loop ?Q (\<lambda>_ _ _. False) sh1 \<sigma>1"
    if "sh_heart sh1 = Some h" "\<not> hb_interval h" "\<not> hb_retry h" "hl_state (rn_health (sh_runner sh1)) = Fatal" "rn_admin (sh_runner sh1) = ''active''" for sh1 \<sigma>1 h
    using that by (cases \<sigma>1) (auto simp: enter_loop_def loop_tick_def loop_decision_def intro!: redis_available.wp_nowP [OF avail])
  have start: "wpA exec (startHeartbeat su) (\<lambda>_ sh1 \<sigma>1. \<exists>h. sh_heart sh1 = Some h \<and> \<not> hb_interval h \<and> \<not> hb_retry h
      \<and> hl_state (rn_health (sh_runner sh1)) = Fatal \<and> rn_admin (sh_runner sh1) = ''active'') (\<lambda>_ _ _. False) (sh\<lparr>sh_probing := True\<rparr>) \<sigma>1"
    if "kv (fst \<sigma>1) = kv s" for \<sigma>1
    unfolding startHeartbeat_def wpA_seqA wpA_liftA wpA_bindA wpA_readA wpA_writeA wpA_beatA
  proof (rule wp_passes_by [OF hooks(1)], goal_cases)
    case (1 \<sigma>2)
    then have "lease_owner (kv (fst \<sigma>2)) (reg_schema (rc_registry (sh_cfg sh))) (rc_id (sh_cfg sh)) = Some t" using owner that by simp
    from redis_available.wp_fenced_start [OF avail this foreign, of "sh_runner sh"] show ?case
      by (auto simp: opt_or_def fence_def admin elim!: wpA_mono)
  qed
  have "wpA exec (seqA (go_online su) enter_loop) ?Q (\<lambda>_ _ _. False) sh (s, [])"
    unfolding go_online_def wpA_seqA wpA_liftA wpA_bindA wpA_readA wpA_writeA
    by (rule wp_setup [OF hooks(2)], rule wpA_mono [OF start]) (auto intro!: enter)
  then show ?thesis by (rule act_run_total) auto
qed

definition claimed_shell :: shell where
  "claimed_shell = new_shell usurped_config (new_runner (new_health 50 15))"

theorem fenced_start_consumes_witness:
  "\<exists>h sh' s' l. act_run mock_exec (seqA (go_online undisturbed) enter_loop) claimed_shell (leased ''t1'') = ((Inr (), sh'), (s', l))
    \<and> hl_state (rn_health (sh_runner sh')) = Fatal \<and> loop_decision (sh_runner sh') = Consume \<and> sh_heart sh' = Some h \<and> \<not> hb_interval h"
proof -
  have ids: "sh_cfg claimed_shell = usurped_config" "rn_admin (sh_runner claimed_shell) = ''active''"
    by (simp_all add: claimed_shell_def new_shell_def new_runner_def)
  have "lease_owner (mock_view (leased ''t1'')) V1 ''w1'' = Some ''t1''" "lock_token sample_registry ''w1'' \<noteq> Some ''t1''"
    by (simp_all add: lease_owner_def leased_def mock_after_view presence_roundtrip sample_registry_def lock_token_def)
  then show ?thesis
    using fenced_start_consumes [OF mock_server.redis_available_axioms, of "leased ''t1''" claimed_shell "''t1''", unfolded ids sample_ids,
        OF _ _ undisturbed_hooks(1,2) refl] by blast
qed

end
