(* ===== verification/Discovery.thy ===== *)
theory Discovery
  imports Complex_Main Actions Keys Results
begin

text \<open>
  Service discovery (src/discovery): the record of an instance, the registry a
  service enters itself in and keeps its heartbeat in, and the client that
  lists the live instances of a service from a local cache.

  Both objects are records that their methods update. The intervals a registry
  has started are numbered; the list of those still running is kept, because
  the registry itself only remembers the last one. Of the network the code asks
  for a local address and for the list of interfaces (`net_env`). Times are whole
  milliseconds; a random number in [0, 1) is an argument.
\<close>

section \<open>Instances\<close>

text \<open>The fields are what JSON.parse found under their names, of any type or absent.\<close>

record service_instance =
  si_id :: "json option"
  si_host :: "json option"
  si_port :: "json option"
  si_weight :: "json option"
  si_metadata :: "json option"

definition new_ServiceInstance :: "json option \<Rightarrow> json option \<Rightarrow> json option \<Rightarrow> json option \<Rightarrow> json option \<Rightarrow> service_instance" where
  "new_ServiceInstance i host port weight meta =
     \<lparr>si_id = i, si_host = host, si_port = port, si_weight = Some (opt_or weight (JNum 1)),
      si_metadata = Some (opt_or meta (JObj []))\<rparr>"

definition service_instance_toDict :: "service_instance \<Rightarrow> (string \<times> json option) list" where
  "service_instance_toDict i = [(''id'', si_id i), (''host'', si_host i), (''port'', si_port i), (''weight'', si_weight i),
     (''metadata'', si_metadata i)]"

text \<open>JSON.stringify leaves out what is undefined.\<close>

definition defined_fields :: "(string \<times> json option) list \<Rightarrow> jobj" where
  "defined_fields ps = List.map_filter (\<lambda>(k, v). case v of None \<Rightarrow> None | Some x \<Rightarrow> Some (k, x)) ps"

definition service_instance_toJSON :: "service_instance \<Rightarrow> string" where
  "service_instance_toJSON i = json_stringify (JObj (defined_fields (service_instance_toDict i)))"

definition service_instance_fromJSON :: "string \<Rightarrow> js_error + service_instance" where
  "service_instance_fromJSON data = (case json_parse data of
     None \<Rightarrow> Inl SyntaxError
   | Some parsed \<Rightarrow>
       if parsed = JNull then Inl TypeError
       else Inr (new_ServiceInstance (jget parsed ''id'') (jget parsed ''host'') (jget parsed ''port'')
              (jget parsed ''weight'') (jget parsed ''metadata'')))"


section \<open>The local address\<close>

record net_address =
  na_internal :: bool
  na_family :: string
  na_address :: string

text \<open>
  `ne_connect host port` is what `net.createConnection` throws, or the
  `localAddress` of the socket at once after it. `ne_interfaces` are the values
  of `os.networkInterfaces()`.
\<close>

record net_env =
  ne_connect :: "string \<Rightarrow> int \<Rightarrow> js_error + string option"
  ne_interfaces :: "net_address list option list"

definition is_loopback :: "string \<Rightarrow> bool" where
  "is_loopback host \<longleftrightarrow> host = ''127.0.0.1'' \<or> host = ''localhost'' \<or> host = ''::1''"

definition external_address :: "net_env \<Rightarrow> string" where
  "external_address net =
     (case find (\<lambda>a. \<not> na_internal a \<and> na_family a = ''IPv4'') (concat (List.map (\<lambda>x. opt_or x []) (ne_interfaces net))) of
        Some a \<Rightarrow> na_address a | None \<Rightarrow> ''127.0.0.1'')"

definition getLocalIp :: "net_env \<Rightarrow> string \<Rightarrow> int \<Rightarrow> string" where
  "getLocalIp net targetHost targetPort =
     (let loop = is_loopback targetHost in
      case ne_connect net (if loop then ''8.8.8.8'' else targetHost) (if loop then 80 else targetPort) of
        Inr a \<Rightarrow> opt_or a ''127.0.0.1''
      | Inl _ \<Rightarrow> external_address net)"

definition getLocalIpSync :: "net_env \<Rightarrow> string \<Rightarrow> int \<Rightarrow> string" where
  "getLocalIpSync net targetHost targetPort =
     (let loop = is_loopback targetHost in
      case ne_connect net (if loop then ''8.8.8.8'' else targetHost) (if loop then 80 else targetPort) of
        Inr a \<Rightarrow> opt_or a ''127.0.0.1''
      | Inl _ \<Rightarrow> external_address net)"


section \<open>The registry of a service\<close>

record service_registry =
  sr_heartbeatTimer :: "nat option"
  sr_intervals :: "(nat \<times> int) list"
  sr_nextTimer :: nat
  sr_retries :: nat
  sr_currentInstance :: "service_instance option"
  sr_currentServiceName :: "string option"

definition new_ServiceRegistry :: service_registry where
  "new_ServiceRegistry = \<lparr>sr_heartbeatTimer = None, sr_intervals = [], sr_nextTimer = 0, sr_retries = 0,
     sr_currentInstance = None, sr_currentServiceName = None\<rparr>"

text \<open>`connection_pool` of the Redis object: its host and port, as far as they are set.\<close>

type_synonym connection_pool = "(string option \<times> int option) option"

definition detectHost :: "net_env \<Rightarrow> connection_pool \<Rightarrow> string" where
  "detectHost net pool = (case pool of
     Some (host, port) \<Rightarrow> getLocalIp net (str_or (opt_or host []) ''8.8.8.8'') (case port of None \<Rightarrow> 6379 | Some p \<Rightarrow> if p = 0 then 6379 else p)
   | None \<Rightarrow> getLocalIp net ''8.8.8.8'' 80)"

definition current_pair :: "service_registry \<Rightarrow> (service_instance \<times> string) option" where
  "current_pair sr = (case (sr_currentInstance sr, sr_currentServiceName sr) of
     (Some i, Some n) \<Rightarrow> if n = [] then None else Some (i, n)
   | _ \<Rightarrow> None)"

definition sendHeartbeat :: "key_schema \<Rightarrow> (service_registry, unit) act" where
  "sendHeartbeat sch = bindA (readA current_pair) (\<lambda>cur. case cur of
     None \<Rightarrow> doneA ()
   | Some (i, n) \<Rightarrow> bindA (liftA nowP) (\<lambda>now. liftA (zaddP (sd_active_instances sch n) now (opt_String (si_id i)))))"

definition startHeartbeatLoop :: "int \<Rightarrow> service_registry \<Rightarrow> service_registry" where
  "startHeartbeatLoop seconds sr =
     sr\<lparr>sr_heartbeatTimer := Some (sr_nextTimer sr), sr_nextTimer := Suc (sr_nextTimer sr),
        sr_intervals := sr_intervals sr @ [(sr_nextTimer sr, seconds * 1000)]\<rparr>"

definition stopHeartbeatLoop :: "service_registry \<Rightarrow> service_registry" where
  "stopHeartbeatLoop sr = (case sr_heartbeatTimer sr of
     None \<Rightarrow> sr
   | Some t \<Rightarrow> sr\<lparr>sr_heartbeatTimer := None, sr_intervals := filter (\<lambda>i. fst i \<noteq> t) (sr_intervals sr)\<rparr>)"

text \<open>What an interval runs, and the repetition a second later when that fails.\<close>

definition heartbeat_tick :: "key_schema \<Rightarrow> (service_registry, unit) act" where
  "heartbeat_tick sch = catchA (sendHeartbeat sch) (\<lambda>_. writeA (\<lambda>sr. sr\<lparr>sr_retries := Suc (sr_retries sr)\<rparr>))"

definition heartbeat_retry :: "key_schema \<Rightarrow> (service_registry, unit) act" where
  "heartbeat_retry sch = seqA (writeA (\<lambda>sr. sr\<lparr>sr_retries := sr_retries sr - 1\<rparr>)) (sendHeartbeat sch)"

record service_params =
  sp_serviceName :: string
  sp_host :: "string option"
  sp_port :: "int option"
  sp_weight :: "int option"
  sp_metadata :: "jobj option"
  sp_heartbeatInterval :: "int option"

definition described_instance :: "service_params \<Rightarrow> string \<Rightarrow> string \<Rightarrow> service_instance" where
  "described_instance p host i = new_ServiceInstance (Some (JStr i)) (Some (JStr host)) (Some (JNum (opt_or (sp_port p) 0)))
     (Some (JNum (opt_or (sp_weight p) 1))) (Some (JObj (opt_or (sp_metadata p) [])))"

definition ServiceRegistry_register :: "net_env \<Rightarrow> connection_pool \<Rightarrow> key_schema \<Rightarrow> service_params \<Rightarrow> (service_registry, unit) act" where
  "ServiceRegistry_register net pool sch p =
     (let host = (case sp_host p of Some h \<Rightarrow> h | None \<Rightarrow> detectHost net pool); name = sp_serviceName p in
      bindA (liftA uuidP) (\<lambda>u.
        let instanceId = name @ '':'' @ take 8 u; inst = described_instance p host instanceId in
        seqA (writeA (\<lambda>sr. sr\<lparr>sr_currentInstance := Some inst, sr_currentServiceName := Some name\<rparr>))
       (seqA (liftA (hsetP (sd_instance_details sch name) instanceId (service_instance_toJSON inst)))
       (seqA (liftA (saddP (sd_services sch) name))
       (seqA (sendHeartbeat sch)
          (writeA (startHeartbeatLoop (opt_or (sp_heartbeatInterval p) SD_DEFAULT_HEARTBEAT_INTERVAL_SECONDS))))))))"

definition ServiceRegistry_unregister :: "key_schema \<Rightarrow> (service_registry, unit) act" where
  "ServiceRegistry_unregister sch =
     seqA (writeA stopHeartbeatLoop)
    (seqA (bindA (readA current_pair) (\<lambda>cur. case cur of
        None \<Rightarrow> doneA ()
      | Some (i, n) \<Rightarrow> liftA (pipelineP [Hdel (sd_instance_details sch n) (opt_String (si_id i)),
                                        Zrem (sd_active_instances sch n) (opt_String (si_id i))])))
       (writeA (\<lambda>sr. sr\<lparr>sr_currentInstance := None, sr_currentServiceName := None\<rparr>)))"

definition isRegistered :: "service_registry \<Rightarrow> bool" where
  "isRegistered sr \<longleftrightarrow> sr_currentInstance sr \<noteq> None \<and> sr_currentServiceName sr \<noteq> None"

definition getServiceName :: "service_registry \<Rightarrow> string option" where
  "getServiceName sr = sr_currentServiceName sr"

definition getInstanceId :: "service_registry \<Rightarrow> json option" where
  "getInstanceId sr = (case sr_currentInstance sr of None \<Rightarrow> None | Some i \<Rightarrow> si_id i)"


section \<open>The discovery client\<close>

text \<open>`dc_refreshTimer`: an interval is running. `dc_retries`: the refreshes due a second after one failed.\<close>

record discovery_client =
  dc_cacheInterval :: int
  dc_cache :: "(string \<times> service_instance list) list"
  dc_lastRefresh :: "(string \<times> int) list"
  dc_watchedServices :: "string list"
  dc_refreshTimer :: bool
  dc_retries :: "string list"
  dc_rrCounters :: "(string \<times> nat) list"

definition new_DiscoveryClient :: "int option \<Rightarrow> discovery_client" where
  "new_DiscoveryClient interval = \<lparr>dc_cacheInterval = opt_or interval 5, dc_cache = [], dc_lastRefresh = [],
     dc_watchedServices = [], dc_refreshTimer = False, dc_retries = [], dc_rrCounters = []\<rparr>"

text \<open>The instances among the raw details; what cannot be read is left out.\<close>

definition parsed_instances :: "string option list \<Rightarrow> service_instance list" where
  "parsed_instances raws = List.map_filter (\<lambda>raw. case raw of
     None \<Rightarrow> None
   | Some data \<Rightarrow> (case service_instance_fromJSON data of Inl _ \<Rightarrow> None | Inr i \<Rightarrow> Some i)) raws"

definition store_instances :: "string \<Rightarrow> service_instance list \<Rightarrow> (discovery_client, unit) act" where
  "store_instances serviceName xs =
     seqA (writeA (\<lambda>dc. dc\<lparr>dc_cache := AList.update serviceName xs (dc_cache dc)\<rparr>))
       (bindA (liftA nowP) (\<lambda>t. writeA (\<lambda>dc. dc\<lparr>dc_lastRefresh := AList.update serviceName t (dc_lastRefresh dc)\<rparr>)))"

definition refreshService :: "key_schema \<Rightarrow> string \<Rightarrow> int \<Rightarrow> (discovery_client, unit) act" where
  "refreshService sch serviceName healthThresholdMs =
     bindA (liftA nowP) (\<lambda>nowMs.
     bindA (liftA (zfromP (sd_active_instances sch serviceName) (nowMs - healthThresholdMs))) (\<lambda>instanceIds.
       if instanceIds = [] then store_instances serviceName []
       else bindA (liftA (hmgetP (sd_instance_details sch serviceName) instanceIds)) (\<lambda>detailsRaw.
         store_instances serviceName (parsed_instances detailsRaw))))"

definition cached :: "discovery_client \<Rightarrow> string \<Rightarrow> service_instance list" where
  "cached dc serviceName = opt_or (map_of (dc_cache dc) serviceName) []"

definition needsRefresh :: "discovery_client \<Rightarrow> string \<Rightarrow> bool \<Rightarrow> int \<Rightarrow> bool" where
  "needsRefresh dc serviceName forceRefresh now \<longleftrightarrow>
     forceRefresh \<or> dc_cacheInterval dc * 1000 < now - opt_or (map_of (dc_lastRefresh dc) serviceName) 0
     \<or> map_of (dc_cache dc) serviceName = None"

definition getInstances :: "key_schema \<Rightarrow> string \<Rightarrow> bool \<Rightarrow> int \<Rightarrow> (discovery_client, service_instance list) act" where
  "getInstances sch serviceName forceRefresh healthThresholdMs =
     bindA (liftA nowP) (\<lambda>now.
     bindA (readA (\<lambda>dc. needsRefresh dc serviceName forceRefresh now)) (\<lambda>refresh.
     seqA (whenA refresh (refreshService sch serviceName healthThresholdMs))
       (readA (\<lambda>dc. cached dc serviceName))))"

definition pick_random :: "rat \<Rightarrow> service_instance list \<Rightarrow> service_instance" where
  "pick_random random xs = xs ! nat \<lfloor>random * of_nat (length xs)\<rfloor>"

definition rr_counter :: "discovery_client \<Rightarrow> string \<Rightarrow> nat" where
  "rr_counter dc serviceName = opt_or (map_of (dc_rrCounters dc) serviceName) 0"

definition discover :: "key_schema \<Rightarrow> rat \<Rightarrow> string \<Rightarrow> string \<Rightarrow> (discovery_client, service_instance option) act" where
  "discover sch random serviceName strategy =
     bindA (getInstances sch serviceName False SD_DEFAULT_HEALTH_THRESHOLD_MS) (\<lambda>xs.
       if xs = [] then doneA None
       else if strategy = ''random'' then doneA (Some (pick_random random xs))
       else if strategy = ''round-robin''
       then bindA (readA (\<lambda>dc. rr_counter dc serviceName)) (\<lambda>counter.
         seqA (writeA (\<lambda>dc. dc\<lparr>dc_rrCounters := AList.update serviceName (counter + 1) (dc_rrCounters dc)\<rparr>))
           (doneA (Some (xs ! (counter mod length xs)))))
       else doneA (Some (pick_random random xs)))"


section \<open>The background refresh\<close>

definition startRefreshLoop :: "discovery_client \<Rightarrow> discovery_client" where
  "startRefreshLoop dc = dc\<lparr>dc_refreshTimer := True\<rparr>"

definition stopRefreshLoop :: "discovery_client \<Rightarrow> discovery_client" where
  "stopRefreshLoop dc = dc\<lparr>dc_refreshTimer := False\<rparr>"

definition watch :: "string \<Rightarrow> discovery_client \<Rightarrow> discovery_client" where
  "watch serviceName dc =
     (let dc1 = dc\<lparr>dc_watchedServices := (if serviceName \<in> set (dc_watchedServices dc) then dc_watchedServices dc
                      else dc_watchedServices dc @ [serviceName])\<rparr>
      in if dc_refreshTimer dc1 then dc1 else startRefreshLoop dc1)"

definition unwatch :: "string \<Rightarrow> discovery_client \<Rightarrow> discovery_client" where
  "unwatch serviceName dc =
     (let dc1 = dc\<lparr>dc_watchedServices := removeAll serviceName (dc_watchedServices dc)\<rparr>
      in if dc_watchedServices dc1 = [] then stopRefreshLoop dc1 else dc1)"

definition refresh_tick :: "key_schema \<Rightarrow> (discovery_client, unit) act" where
  "refresh_tick sch = bindA (readA dc_watchedServices) (foldA (\<lambda>_ serviceName.
     catchA (refreshService sch serviceName SD_DEFAULT_HEALTH_THRESHOLD_MS)
       (\<lambda>_. writeA (\<lambda>dc. dc\<lparr>dc_retries := dc_retries dc @ [serviceName]\<rparr>))) ())"

definition refresh_retry :: "key_schema \<Rightarrow> (discovery_client, unit) act" where
  "refresh_retry sch = bindA (readA dc_retries) (\<lambda>due. case due of
     [] \<Rightarrow> doneA ()
   | serviceName # later \<Rightarrow> seqA (writeA (\<lambda>dc. dc\<lparr>dc_retries := later\<rparr>))
       (refreshService sch serviceName SD_DEFAULT_HEALTH_THRESHOLD_MS))"

definition close :: "discovery_client \<Rightarrow> discovery_client" where
  "close dc = (stopRefreshLoop dc)\<lparr>dc_cache := [], dc_lastRefresh := [], dc_watchedServices := [], dc_rrCounters := []\<rparr>"

record cache_stats =
  cs_cachedServices :: nat
  cs_watchedServices :: nat
  cs_cacheEntries :: "(string \<times> int) list"

definition getCacheStats :: "discovery_client \<Rightarrow> cache_stats" where
  "getCacheStats dc = \<lparr>cs_cachedServices = length (dc_cache dc), cs_watchedServices = length (dc_watchedServices dc),
     cs_cacheEntries = dc_lastRefresh dc\<rparr>"

end
