(* ===== verification/DiscoveryProperties.thy ===== *)
theory DiscoveryProperties
  imports Discovery MockRedis
begin

text \<open>
  What service discovery guarantees: an instance is found by every consumer that
  looks while its heartbeat is recent, a refresh lists exactly the live instances
  that can be read, one that has left is not listed again, and a round of the
  round-robin strategy visits each instance once.
\<close>

section \<open>Instances as text\<close>

lemma defined_fields_simps [simp]:
  "defined_fields [] = []" "defined_fields ((k, Some x) # ps) = (k, x) # defined_fields ps"
  "defined_fields ((k, None) # ps) = defined_fields ps"
  by (simp_all add: defined_fields_def map_filter_simps)

definition wf_params :: "service_params \<Rightarrow> bool" where
  "wf_params p \<longleftrightarrow> sp_serviceName p \<noteq> [] \<and> wf_json (JObj (opt_or (sp_metadata p) []))"

lemma instance_roundtrip:
  "wf_params p \<Longrightarrow> service_instance_fromJSON (service_instance_toJSON (described_instance p host i)) = Inr (described_instance p host i)"
  unfolding service_instance_fromJSON_def service_instance_toJSON_def
  by (subst json_parse_stringify)
     (auto simp: wf_params_def described_instance_def new_ServiceInstance_def service_instance_toDict_def jget_def oget_def opt_or_def)

lemma id_of_described [simp]: "si_id (described_instance p host i) = Some (JStr i)"
  by (simp add: described_instance_def new_ServiceInstance_def)


section \<open>What the keyspace says about a service\<close>

definition decoded :: "view \<Rightarrow> key_schema \<Rightarrow> string \<Rightarrow> string \<Rightarrow> service_instance option" where
  "decoded v sch svc i = (case v_hash v (sd_instance_details sch svc) i of
     None \<Rightarrow> None
   | Some raw \<Rightarrow> (case service_instance_fromJSON raw of Inl _ \<Rightarrow> None | Inr x \<Rightarrow> Some x))"

definition live_since :: "view \<Rightarrow> key_schema \<Rightarrow> string \<Rightarrow> int \<Rightarrow> service_instance set" where
  "live_since v sch svc lo =
     {x. \<exists>i sc. v_zset v (sd_active_instances sch svc) i = Some sc \<and> lo \<le> sc \<and> decoded v sch svc i = Some x}"

lemma set_parsed:
  "set (parsed_instances (List.map (v_hash v (sd_instance_details sch svc)) ids)) = {x. \<exists>i \<in> set ids. decoded v sch svc i = Some x}"
  by (induction ids)
     (auto simp: parsed_instances_def map_filter_simps decoded_def split: option.splits sum.splits)

lemma live_since_parsed:
  assumes "set full = from_score v (sd_active_instances sch svc) lo"
  shows "set (parsed_instances (List.map (v_hash v (sd_instance_details sch svc)) (List.map fst full))) = live_since v sch svc lo"
  unfolding set_parsed live_since_def using assms by (force simp: from_score_def set_eq_iff)

lemma cached_update [simp]:
  "cached (dc\<lparr>dc_cache := AList.update svc xs (dc_cache dc)\<rparr>) svc' = (if svc' = svc then xs else cached dc svc')"
  "cached (dc\<lparr>dc_lastRefresh := ts\<rparr>) svc' = cached dc svc'"
  by (auto simp: cached_def update_conv' opt_or_def)

text \<open>`n` calls in a row, and what they answer.\<close>

definition young :: "discovery_client \<Rightarrow> string \<Rightarrow> service_instance list \<Rightarrow> int \<Rightarrow> bool" where
  "young dc svc xs t \<longleftrightarrow> map_of (dc_cache dc) svc = Some xs
     \<and> t - opt_or (map_of (dc_lastRefresh dc) svc) 0 \<le> dc_cacheInterval dc * 1000"

lemma young_fresh: "young dc svc xs t \<Longrightarrow> u \<le> t \<Longrightarrow> \<not> needsRefresh dc svc False u \<and> cached dc svc = xs"
  by (auto simp: young_def needsRefresh_def cached_def opt_or_def)

definition discover_rounds :: "key_schema \<Rightarrow> string \<Rightarrow> rat list \<Rightarrow> (discovery_client, service_instance option list) act" where
  "discover_rounds sch svc = foldA (\<lambda>acc random. bindA (discover sch random svc ''round-robin'') (\<lambda>i. doneA (acc @ [i]))) []"

context redis_available
begin

lemma wpA_store_instances:
  assumes "\<And>dc' \<sigma>'. kv (fst \<sigma>') = kv (fst \<sigma>) \<Longrightarrow> clk (fst \<sigma>) \<le> clk (fst \<sigma>') \<Longrightarrow>
      (\<And>svc'. cached dc' svc' = (if svc' = svc then xs else cached dc svc')) \<Longrightarrow> Q () dc' \<sigma>'"
  shows "wpA exec (store_instances svc xs) Q E dc \<sigma>"
proof (cases \<sigma>)
  case (Pair s l)
  show ?thesis
    unfolding store_instances_def wpA_seqA wpA_writeA wpA_bindA wpA_liftA Pair
    by (rule wp_nowP) (rule assms, auto simp: Pair)
qed

lemma wpA_refreshService:
  assumes "\<And>now dc' \<sigma>'. kv (fst \<sigma>') = kv (fst \<sigma>) \<Longrightarrow> clk (fst \<sigma>) \<le> now \<Longrightarrow> now \<le> clk (fst \<sigma>') \<Longrightarrow>
      set (cached dc' svc) = live_since (kv (fst \<sigma>)) sch svc (now - thr) \<Longrightarrow>
      (\<And>svc'. svc' \<noteq> svc \<Longrightarrow> cached dc' svc' = cached dc svc') \<Longrightarrow> Q () dc' \<sigma>'"
  shows "wpA exec (refreshService sch svc thr) Q E dc \<sigma>"
proof -
  obtain s l where \<sigma>: "\<sigma> = (s, l)" by (cases \<sigma>)
  show ?thesis
    unfolding refreshService_def wpA_bindA wpA_liftA \<sigma>
  proof (rule wp_nowP, rule wp_zfromP, goal_cases)
    case (1 s1 s2 full)
    show ?case
    proof (cases "full = []")
      case True
      then have "live_since (kv s) sch svc (clk s - thr) = {}"
        using 1 live_since_parsed [of full "kv s" sch svc "clk s - thr"] by (simp add: parsed_instances_def map_filter_simps)
      then show ?thesis
        using 1 True by (auto simp: \<sigma> intro!: wpA_store_instances assms)
    next
      case False
      have "set (parsed_instances (List.map (v_hash (kv s2) (sd_instance_details sch svc)) (List.map fst full)))
          = live_since (kv s) sch svc (clk s - thr)"
        using 1 live_since_parsed [of full "kv s" sch svc "clk s - thr"] by simp
      with 1 show ?thesis
        unfolding wpA_bindA wpA_liftA if_not_P [OF False [folded map_is_Nil_conv [of fst]]]
        by (intro wp_hmgetP wpA_store_instances assms [where now = "clk s"]) (auto simp: \<sigma>)
    qed
  qed
qed

lemma wpA_getInstances:
  assumes "force \<or> map_of (dc_cache dc) svc = None"
    and "\<And>now dc' \<sigma>'. kv (fst \<sigma>') = kv (fst \<sigma>) \<Longrightarrow> clk (fst \<sigma>) \<le> now \<Longrightarrow> now \<le> clk (fst \<sigma>') \<Longrightarrow>
      set (cached dc' svc) = live_since (kv (fst \<sigma>)) sch svc (now - thr) \<Longrightarrow> Q (cached dc' svc) dc' \<sigma>'"
  shows "wpA exec (getInstances sch svc force thr) Q E dc \<sigma>"
proof -
  obtain s l where \<sigma>: "\<sigma> = (s, l)" by (cases \<sigma>)
  have again: "needsRefresh dc svc force now" for now
    using assms(1) by (auto simp: needsRefresh_def)
  show ?thesis
    unfolding getInstances_def wpA_bindA wpA_liftA wpA_readA wpA_seqA wpA_whenA \<sigma>
  proof (rule wp_nowP)
    fix s1 assume "kv s1 = kv s" "clk s \<le> clk s1"
    then show "(if needsRefresh dc svc force (clk s) then wpA exec (refreshService sch svc thr) (\<lambda>_ c. Q (cached c svc) c) E
        else (\<lambda>c. Q (cached c svc) c)) dc (s1, l @ [Now])"
      unfolding if_P [OF again] by (intro wpA_refreshService assms(2)) (auto simp: \<sigma>)
  qed
qed


section \<open>Round-robin\<close>

text \<open>While the cached list is young enough it is not read again.\<close>

lemma wpA_discover_rr:
  assumes "\<And>dc' \<sigma>' i. clk (fst \<sigma>) \<le> clk (fst \<sigma>') \<Longrightarrow>
      (\<not> needsRefresh dc svc False (clk (fst \<sigma>)) \<Longrightarrow> cached dc svc = xs \<Longrightarrow> xs \<noteq> [] \<Longrightarrow> i = Some (xs ! (rr_counter dc svc mod length xs))
         \<and> dc' = dc\<lparr>dc_rrCounters := AList.update svc (rr_counter dc svc + 1) (dc_rrCounters dc)\<rparr>) \<Longrightarrow> Q i dc' \<sigma>'"
  shows "wpA exec (discover sch random svc ''round-robin'') Q E dc \<sigma>"
proof -
  obtain s l where \<sigma>: "\<sigma> = (s, l)" by (cases \<sigma>)
  show ?thesis
    unfolding discover_def getInstances_def wpA_bindA wpA_liftA wpA_readA wpA_seqA wpA_whenA \<sigma>
  proof (rule wp_nowP)
    fix s1 assume s1: "kv s1 = kv s" "clk s \<le> clk s1"
    let ?pick = "\<lambda>xs. if xs = [] then doneA None else if ''round-robin'' = ''random'' then doneA (Some (pick_random random xs))
        else if ''round-robin'' = ''round-robin'' then bindA (readA (\<lambda>dc. rr_counter dc svc)) (\<lambda>counter.
          seqA (writeA (\<lambda>dc. dc\<lparr>dc_rrCounters := AList.update svc (counter + 1) (dc_rrCounters dc)\<rparr>))
           (doneA (Some (xs ! (counter mod length xs))))) else doneA (Some (pick_random random xs))"
    show "(if needsRefresh dc svc False (clk s)
        then wpA exec (refreshService sch svc SD_DEFAULT_HEALTH_THRESHOLD_MS) (\<lambda>_ c. wpA exec (?pick (cached c svc)) Q E c) E
        else (\<lambda>c. wpA exec (?pick (cached c svc)) Q E c)) dc (s1, l @ [Now])"
    proof (cases "needsRefresh dc svc False (clk s)")
      case True
      then show ?thesis
        unfolding if_P [OF True]
        by (intro wpA_refreshService) (use True s1 in \<open>auto simp: \<sigma> intro!: assms\<close>)
    next
      case False
      then show ?thesis
        unfolding if_not_P [OF False] using s1 by (auto simp: \<sigma> intro!: assms)
    qed
  qed
qed

lemma wpA_discover_rounds:
  assumes "xs \<noteq> []" "young dc svc xs T"
  shows "wpA exec (discover_rounds sch svc randoms) (\<lambda>ys dc' \<sigma>'. clk (fst \<sigma>') \<le> T \<longrightarrow>
      ys = List.map (\<lambda>i. Some (xs ! ((rr_counter dc svc + i) mod length xs))) [0..<length randoms]) E dc \<sigma>"
proof -
  let ?f = "\<lambda>i. Some (xs ! ((rr_counter dc svc + i) mod length xs))"
  let ?I = "\<lambda>ps acc dc' \<sigma>'. clk (fst \<sigma>') \<le> T \<longrightarrow> acc = List.map ?f [0..<length ps] \<and> young dc' svc xs T
      \<and> rr_counter dc' svc = rr_counter dc svc + length ps"
  have "wpA exec (discover_rounds sch svc randoms) (\<lambda>ys. ?I randoms ys) E dc \<sigma>"
    unfolding discover_rounds_def
  proof (rule wpA_foldA_inv, goal_cases)
    case (1 ys x zs acc c' \<sigma>')
    show ?case
      unfolding wpA_bindA wpA_doneA
    proof (rule wpA_discover_rr [where xs = xs], goal_cases)
      case (1 dc2 \<sigma>2 i)
      show ?case
      proof
        assume "clk (fst \<sigma>2) \<le> T"
        then have early: "clk (fst \<sigma>') \<le> T" using 1(1) by simp
        with \<open>?I ys acc c' \<sigma>'\<close> have "young c' svc xs T" "acc = List.map ?f [0..<length ys]"
          "rr_counter c' svc = rr_counter dc svc + length ys" by auto
        with 1(2) young_fresh [OF _ early] assms(1)
        show "acc @ [i] = List.map ?f [0..<length (ys @ [x])] \<and> young dc2 svc xs T
            \<and> rr_counter dc2 svc = rr_counter dc svc + length (ys @ [x])"
          by (auto simp: young_def rr_counter_def update_conv' opt_or_def)
      qed
    qed
  qed (use assms(2) in simp)
  then show ?thesis by (rule wpA_mono) auto
qed


section \<open>Entering and leaving\<close>

lemma wpA_sendHeartbeat:
  assumes "current_pair sr = Some (i, n)"
    and "\<And>now \<sigma>'. v_hash (kv (fst \<sigma>')) = v_hash (kv (fst \<sigma>)) \<Longrightarrow> clk (fst \<sigma>) \<le> now \<Longrightarrow> now \<le> clk (fst \<sigma>') \<Longrightarrow>
      v_zset (kv (fst \<sigma>')) (sd_active_instances sch n) (opt_String (si_id i)) = Some now \<Longrightarrow> Q () sr \<sigma>'"
  shows "wpA exec (sendHeartbeat sch) Q E sr \<sigma>"
proof -
  obtain s l where \<sigma>: "\<sigma> = (s, l)" by (cases \<sigma>)
  show ?thesis
    unfolding sendHeartbeat_def wpA_bindA wpA_readA assms(1) option.case prod.case wpA_liftA \<sigma>
  proof (rule wp_nowP, rule wp_zaddP, goal_cases)
    case (1 s1 s2)
    then show ?case by (intro assms(2) [where now = "clk s"]) (auto simp: \<sigma>)
  qed
qed

lemma wpA_register:
  assumes "wf_params p"
    and "\<And>i now sr' \<sigma>'. clk (fst \<sigma>) \<le> now \<Longrightarrow> now \<le> clk (fst \<sigma>') \<Longrightarrow> sr_currentInstance sr' = Some i \<Longrightarrow>
      decoded (kv (fst \<sigma>')) sch (sp_serviceName p) (opt_String (si_id i)) = Some i \<Longrightarrow>
      v_zset (kv (fst \<sigma>')) (sd_active_instances sch (sp_serviceName p)) (opt_String (si_id i)) = Some now \<Longrightarrow> Q () sr' \<sigma>'"
  shows "wpA exec (ServiceRegistry_register net pool sch p) Q E sr \<sigma>"
proof -
  obtain s l where \<sigma>: "\<sigma> = (s, l)" by (cases \<sigma>)
  have name: "sp_serviceName p \<noteq> []" using assms(1) by (simp add: wf_params_def)
  show ?thesis
    unfolding ServiceRegistry_register_def Let_def wpA_bindA wpA_seqA wpA_writeA wpA_liftA \<sigma>
  proof (rule wp_uuidP, rule wp_hsetP, rule wp_saddP, rule wpA_sendHeartbeat)
    fix s1 u s2 s3
    let ?i = "described_instance p (case sp_host p of None \<Rightarrow> detectHost net pool | Some h \<Rightarrow> h) (sp_serviceName p @ '':'' @ take 8 u)"
    show "current_pair (sr\<lparr>sr_currentInstance := Some ?i, sr_currentServiceName := Some (sp_serviceName p)\<rparr>)
        = Some (?i, sp_serviceName p)"
      using name by (simp add: current_pair_def)
  qed (rule assms(2), auto simp: \<sigma> startHeartbeatLoop_def decoded_def instance_roundtrip assms(1))
qed

lemma wpA_unregister:
  assumes "current_pair sr = Some (i, n)"
    and "\<And>sr' \<sigma>'. v_hash (kv (fst \<sigma>')) = v_hash (drop_field (sd_instance_details sch n) (opt_String (si_id i)) (kv (fst \<sigma>))) \<Longrightarrow>
      \<not> isRegistered sr' \<Longrightarrow> Q () sr' \<sigma>'"
  shows "wpA exec (ServiceRegistry_unregister sch) Q E sr \<sigma>"
proof -
  obtain s l where \<sigma>: "\<sigma> = (s, l)" by (cases \<sigma>)
  have cur: "current_pair (stopHeartbeatLoop sr) = Some (i, n)"
    using assms(1) by (cases "sr_heartbeatTimer sr") (simp_all add: current_pair_def stopHeartbeatLoop_def)
  show ?thesis
    unfolding ServiceRegistry_unregister_def wpA_seqA wpA_writeA wpA_bindA wpA_readA cur option.case prod.case wpA_liftA \<sigma>
    by (rule wp_pipeline_Cons, simp, rule wp_pipeline_Cons, simp)
       (auto simp: pipelineP_def isRegistered_def \<sigma> intro!: assms(2))
qed

end

text \<open>What holds of every run that a weakest precondition covers.\<close>

lemma act_run_post:
  assumes "act_run exec m c s = ((r, c'), (s', l))" and "wpA exec m Q (\<lambda>_ _ _. False) c (s, [])"
  shows "\<exists>a. r = Inr a \<and> Q a c' (s', l)"
  using act_run_wpA [OF assms(2)] assms(1) by (cases r) auto

lemma act_run_ex: obtains r c' s' l where "act_run exec m c s = ((r, c'), (s', l))"
  by (metis surj_pair)

text \<open>The clock of the tests moves only when it is told to.\<close>

lemma mock_cmd_clock [simp]: "now_ms (snd (mock_cmd c m)) = now_ms m"
proof (cases "good_cmd c")
  case True
  then show ?thesis by (rule mock_write(3))
next
  case False
  have "now_ms m1 = now_ms m" if "alive k m = (a, m1)" for k a m1
    using that by (auto simp: alive_def split: if_splits)
  then show ?thesis
    using False by (cases c) (auto simp: mock_set_def mock_expire_def mock_exists_def split: prod.splits)
qed

lemma mock_run_clock: "now_ms (fst (snd (run mock_exec p \<sigma>))) = now_ms (fst \<sigma>)"
  by (induction p arbitrary: \<sigma>) (auto simp: mock_exec_def split: prod.splits, metis mock_cmd_clock snd_conv)

lemma mock_act_clock: "act_run mock_exec m c s = ((r, c'), (s', l)) \<Longrightarrow> now_ms s' = now_ms s"
  using mock_run_clock [of "settled m c" "(s, [])"] by (auto simp: act_run_def split: prod.splits sum.splits)


section \<open>The properties\<close>

text \<open>
  C33. A service that registers is found: once `register` has run, every
  discovery client that lists the service afresh, with a forced refresh or
  with nothing in its cache, gets the registered instance, field for field, as
  long as no more time than the health threshold has passed since the
  registration began.
\<close>

theorem registered_is_discovered:
  assumes avail: "redis_available exec kv oth clk" and wf: "wf_params p"
    and enter: "act_run exec (ServiceRegistry_register net pool sch p) sr s = ((r, sr1), (s1, l1))"
    and look: "act_run exec (getInstances sch (sp_serviceName p) force threshold) dc s1 = ((q, dc2), (s2, l2))"
    and fresh: "force \<or> map_of (dc_cache dc) (sp_serviceName p) = None"
    and recent: "clk s2 - clk s \<le> threshold"
  shows "r = Inr () \<and> (\<exists>i xs. sr_currentInstance sr1 = Some i \<and> q = Inr xs \<and> i \<in> set xs)"
proof -
  let ?name = "sp_serviceName p"
  have "wpA exec (ServiceRegistry_register net pool sch p) (\<lambda>_ sr' \<sigma>'. \<exists>i now. clk s \<le> now \<and> sr_currentInstance sr' = Some i
      \<and> decoded (kv (fst \<sigma>')) sch ?name (opt_String (si_id i)) = Some i
      \<and> v_zset (kv (fst \<sigma>')) (sd_active_instances sch ?name) (opt_String (si_id i)) = Some now) (\<lambda>_ _ _. False) sr (s, [])"
    by (rule redis_available.wpA_register [OF avail wf]) auto
  from act_run_post [OF enter this] obtain i now where i: "r = Inr ()" "clk s \<le> now" "sr_currentInstance sr1 = Some i"
    "decoded (kv s1) sch ?name (opt_String (si_id i)) = Some i"
    "v_zset (kv s1) (sd_active_instances sch ?name) (opt_String (si_id i)) = Some now" by auto
  have "wpA exec (getInstances sch ?name force threshold) (\<lambda>xs _ \<sigma>'. \<exists>t. t \<le> clk (fst \<sigma>')
      \<and> set xs = live_since (kv s1) sch ?name (t - threshold)) (\<lambda>_ _ _. False) dc (s1, [])"
    by (rule redis_available.wpA_getInstances [OF avail fresh]) auto
  from act_run_post [OF look this] obtain t xs where found: "q = Inr xs" "t \<le> clk s2" "set xs = live_since (kv s1) sch ?name (t - threshold)"
    by auto
  moreover have "i \<in> live_since (kv s1) sch ?name (t - threshold)"
    using i recent found(2) by (auto simp: live_since_def intro!: exI [of _ "opt_String (si_id i)"] exI [of _ now])
  ultimately show ?thesis using i by blast
qed

definition sample_service :: service_params where
  "sample_service = \<lparr>sp_serviceName = ''users'', sp_host = Some ''10.0.0.7'', sp_port = Some 8080, sp_weight = None,
     sp_metadata = Some [(''zone'', JStr ''a'')], sp_heartbeatInterval = None\<rparr>"

definition no_net :: net_env where
  "no_net = \<lparr>ne_connect = (\<lambda>_ _. Inr None), ne_interfaces = []\<rparr>"

lemma sample_service_wf: "wf_params sample_service" "sp_serviceName sample_service = ''users''"
  by (simp_all add: wf_params_def sample_service_def opt_or_def)

theorem registered_is_discovered_witness:
  "\<exists>sr s l q dc s' l'. act_run mock_exec (ServiceRegistry_register no_net None V1 sample_service) new_ServiceRegistry (empty_mock 1000)
        = ((Inr (), sr), (s, l))
     \<and> act_run mock_exec (getInstances V1 ''users'' False 30000) (new_DiscoveryClient None) s = ((Inr q, dc), (s', l'))
     \<and> (\<exists>i. sr_currentInstance sr = Some i \<and> i \<in> set q)"
proof -
  obtain r sr s1 l1 where enter: "act_run mock_exec (ServiceRegistry_register no_net None V1 sample_service) new_ServiceRegistry
      (empty_mock 1000) = ((r, sr), (s1, l1))" by (rule act_run_ex)
  obtain q dc s2 l2 where look: "act_run mock_exec (getInstances V1 (sp_serviceName sample_service) False 30000)
      (new_DiscoveryClient None) s1 = ((q, dc), (s2, l2))" by (rule act_run_ex)
  show ?thesis
    using registered_is_discovered [OF mock_server.redis_available_axioms sample_service_wf(1) enter look] enter look
      mock_act_clock [OF enter] mock_act_clock [OF look]
    by (auto simp: new_DiscoveryClient_def sample_service_wf(2))
qed

text \<open>
  A refresh lists the live instances and nothing else: for some moment of
  the refresh, the cached list holds exactly the readable details of the members
  whose last heartbeat is at most the threshold older; details that are missing
  or do not parse are left out, the lists of other services and the keyspace stay
  as they were.
\<close>

lemma refresh_exact:
  assumes avail: "redis_available exec kv oth clk"
    and run: "act_run exec (refreshService sch svc threshold) dc s = ((r, dc'), (s', l))"
  shows "r = Inr () \<and> kv s' = kv s \<and> (\<forall>svc'. svc' \<noteq> svc \<longrightarrow> cached dc' svc' = cached dc svc')
    \<and> (\<exists>now. clk s \<le> now \<and> now \<le> clk s' \<and> set (cached dc' svc) = live_since (kv s) sch svc (now - threshold))"
proof -
  have "wpA exec (refreshService sch svc threshold) (\<lambda>_ dc' \<sigma>'. kv (fst \<sigma>') = kv s
      \<and> (\<forall>svc'. svc' \<noteq> svc \<longrightarrow> cached dc' svc' = cached dc svc')
      \<and> (\<exists>now. clk s \<le> now \<and> now \<le> clk (fst \<sigma>') \<and> set (cached dc' svc) = live_since (kv s) sch svc (now - threshold)))
      (\<lambda>_ _ _. False) dc (s, [])"
    by (rule redis_available.wpA_refreshService [OF avail]) auto
  from act_run_post [OF run this] show ?thesis by auto
qed

definition stale_service :: mock where
  "stale_service = mock_after [Zadd (sd_active_instances V1 ''users'') 10 ''users:old'', Hset (sd_instance_details V1 ''users'') ''users:old'' ''{}''] (empty_mock 90000)"

lemma refresh_exact_example:
  "\<exists>dc s l. act_run mock_exec (refreshService V1 ''users'' 30000) (new_DiscoveryClient None) stale_service = ((Inr (), dc), (s, l))
     \<and> cached dc ''users'' = []"
proof -
  obtain r dc s l where run: "act_run mock_exec (refreshService V1 ''users'' 30000) (new_DiscoveryClient None) stale_service = ((r, dc), (s, l))"
    by (rule act_run_ex)
  have "v_zset (mock_view stale_service) (sd_active_instances V1 ''users'') = [''users:old'' \<mapsto> 10]"
    unfolding stale_service_def by (subst mock_after_writes) (simp_all add: fun_eq_iff)
  moreover have "now_ms stale_service = 90000" by (simp add: stale_service_def)
  ultimately show ?thesis
    using refresh_exact [OF mock_server.redis_available_axioms run] mock_act_clock [OF run] run
    by (auto simp: live_since_def split: if_splits)
qed

text \<open>
  A service that has left is not listed: after `unregister` the registry
  is not registered any more, and no client that lists the service afresh is given
  an instance of the one that left, whatever its threshold, provided the stored
  details are each kept under their own id.
\<close>

lemma unregistered_not_listed:
  assumes avail: "redis_available exec kv oth clk" and cur: "current_pair sr = Some (i, n)"
    and named: "\<forall>x raw j. v_hash (kv s) (sd_instance_details sch n) x = Some raw \<and> service_instance_fromJSON raw = Inr j
        \<longrightarrow> si_id j = Some (JStr x)"
    and leave: "act_run exec (ServiceRegistry_unregister sch) sr s = ((r, sr1), (s1, l1))"
    and look: "act_run exec (getInstances sch n force threshold) dc s1 = ((q, dc2), (s2, l2))"
    and fresh: "force \<or> map_of (dc_cache dc) n = None"
  shows "r = Inr () \<and> \<not> isRegistered sr1 \<and> (\<exists>xs. q = Inr xs \<and> (\<forall>j \<in> set xs. si_id j \<noteq> Some (JStr (opt_String (si_id i)))))"
proof -
  let ?k = "sd_instance_details sch n" and ?i = "opt_String (si_id i)"
  have "wpA exec (ServiceRegistry_unregister sch) (\<lambda>_ sr' \<sigma>'. \<not> isRegistered sr'
      \<and> v_hash (kv (fst \<sigma>')) = v_hash (drop_field ?k ?i (kv s))) (\<lambda>_ _ _. False) sr (s, [])"
    by (rule redis_available.wpA_unregister [OF avail cur]) auto
  from act_run_post [OF leave this] have left: "r = Inr ()" "\<not> isRegistered sr1"
    "v_hash (kv s1) = v_hash (drop_field ?k ?i (kv s))" by auto
  have "wpA exec (getInstances sch n force threshold) (\<lambda>xs _ \<sigma>'. \<exists>t. set xs = live_since (kv s1) sch n t) (\<lambda>_ _ _. False) dc (s1, [])"
    by (rule redis_available.wpA_getInstances [OF avail fresh]) auto
  from act_run_post [OF look this] obtain xs t where found: "q = Inr xs" "set xs = live_since (kv s1) sch n t" by auto
  have "si_id j \<noteq> Some (JStr ?i)" if mem: "j \<in> set xs" for j
  proof -
    obtain x where "decoded (kv s1) sch n x = Some j" using mem by (auto simp: found(2) live_since_def)
    then obtain raw where raw: "v_hash (kv s1) ?k x = Some raw" "service_instance_fromJSON raw = Inr j"
      by (auto simp: decoded_def split: option.splits sum.splits)
    with left(3) have "x \<noteq> ?i" "v_hash (kv s) ?k x = Some raw" by (auto split: if_splits)
    with named raw(2) show ?thesis by auto
  qed
  with left found show ?thesis by blast
qed

definition leaving :: service_registry where
  "leaving = new_ServiceRegistry\<lparr>sr_currentInstance := Some (described_instance sample_service ''10.0.0.7'' ''users:1''),
     sr_currentServiceName := Some ''users''\<rparr>"

definition two_entered :: mock where
  "two_entered = mock_after [Zadd (sd_active_instances V1 ''users'') 50 ''users:1'',
     Hset (sd_instance_details V1 ''users'') ''users:1'' (service_instance_toJSON (described_instance sample_service ''10.0.0.7'' ''users:1''))] (empty_mock 60)"

lemma unregistered_not_listed_example:
  "\<exists>sr s l q dc s' l'. act_run mock_exec (ServiceRegistry_unregister V1) leaving two_entered = ((Inr (), sr), (s, l))
     \<and> act_run mock_exec (getInstances V1 ''users'' True 30000) (new_DiscoveryClient None) s = ((Inr q, dc), (s', l'))
     \<and> (\<forall>j \<in> set q. si_id j \<noteq> Some (JStr ''users:1''))"
proof -
  obtain r sr s1 l1 where leave: "act_run mock_exec (ServiceRegistry_unregister V1) leaving two_entered = ((r, sr), (s1, l1))"
    by (rule act_run_ex)
  obtain q dc s2 l2 where look: "act_run mock_exec (getInstances V1 ''users'' True 30000) (new_DiscoveryClient None) s1 = ((q, dc), (s2, l2))"
    by (rule act_run_ex)
  have cur: "current_pair leaving = Some (described_instance sample_service ''10.0.0.7'' ''users:1'', ''users'')"
    by (simp add: current_pair_def leaving_def)
  have "v_hash (mock_view two_entered) (sd_instance_details V1 ''users'')
      = [''users:1'' \<mapsto> service_instance_toJSON (described_instance sample_service ''10.0.0.7'' ''users:1'')]"
    unfolding two_entered_def by (subst mock_after_writes) (simp_all add: fun_eq_iff)
  then show ?thesis
    using unregistered_not_listed [OF mock_server.redis_available_axioms cur _ leave look] leave look
    by (auto simp: instance_roundtrip [OF sample_service_wf(1)])
qed

text \<open>
  Round-robin is fair: as long as the cached list is not due for a
  refresh, as many calls in a row as it has instances answer each of them once, in
  the order of the list, from where the counter stands; and so does the next
  round.
\<close>

lemma round_robin_fair:
  assumes avail: "redis_available exec kv oth clk" and some: "xs \<noteq> []"
    and young: "young dc svc xs (clk s')"
    and run: "act_run exec (discover_rounds sch svc randoms) dc s = ((r, dc'), (s', l))"
    and round: "length randoms = length xs"
  shows "r = Inr (List.map Some (rotate (rr_counter dc svc) xs))"
proof -
  from act_run_post [OF run redis_available.wpA_discover_rounds [OF avail some young]]
  have "r = Inr (List.map (\<lambda>i. Some (xs ! ((rr_counter dc svc + i) mod length xs))) [0..<length xs])"
    using round by auto
  also have "List.map (\<lambda>i. Some (xs ! ((rr_counter dc svc + i) mod length xs))) [0..<length xs]
      = List.map Some (rotate (rr_counter dc svc) xs)"
    by (rule nth_equalityI) (simp_all add: nth_rotate)
  finally show ?thesis .
qed

definition three_cached :: discovery_client where
  "three_cached = (new_DiscoveryClient None)\<lparr>dc_cache := [(''users'', List.map (described_instance sample_service ''10.0.0.7'') [''a'', ''b'', ''c''])],
     dc_lastRefresh := [(''users'', 1000)], dc_rrCounters := [(''users'', 4)]\<rparr>"

lemma round_robin_fair_example:
  "\<exists>dc s l. act_run mock_exec (discover_rounds V1 ''users'' [0, 0, 0]) three_cached (empty_mock 3000)
     = ((Inr (List.map (\<lambda>x. Some (described_instance sample_service ''10.0.0.7'' x)) [''b'', ''c'', ''a'']), dc), (s, l))"
proof -
  obtain r dc s l where run: "act_run mock_exec (discover_rounds V1 ''users'' [0, 0, 0]) three_cached (empty_mock 3000) = ((r, dc), (s, l))"
    by (rule act_run_ex)
  have "young three_cached ''users'' (List.map (described_instance sample_service ''10.0.0.7'') [''a'', ''b'', ''c'']) (now_ms s)"
    using mock_act_clock [OF run] by (simp add: young_def three_cached_def new_DiscoveryClient_def opt_or_def)
  from round_robin_fair [OF mock_server.redis_available_axioms _ this run] have "r = Inr (List.map Some (rotate (rr_counter three_cached ''users'')
      (List.map (described_instance sample_service ''10.0.0.7'') [''a'', ''b'', ''c''])))" by simp
  also have "rr_counter three_cached ''users'' = 4" by (simp add: rr_counter_def three_cached_def opt_or_def)
  finally show ?thesis using run by (simp add: eval_nat_numeral rotate_def rotate1_def)
qed


section \<open>The background tasks\<close>

text \<open>An interval for the refresh runs exactly while something is watched.\<close>

datatype watch_op = Watch string | Unwatch string | Close

primrec watch_step :: "watch_op \<Rightarrow> discovery_client \<Rightarrow> discovery_client" where
  "watch_step (Watch n) = watch n"
| "watch_step (Unwatch n) = unwatch n"
| "watch_step Close = close"

lemma timer_iff_watched:
  "dc_refreshTimer (fold watch_step ops (new_DiscoveryClient i)) \<longleftrightarrow>
   dc_watchedServices (fold watch_step ops (new_DiscoveryClient i)) \<noteq> []"
proof -
  have "dc_refreshTimer (fold watch_step ops dc) \<longleftrightarrow> dc_watchedServices (fold watch_step ops dc) \<noteq> []"
    if "dc_refreshTimer dc \<longleftrightarrow> dc_watchedServices dc \<noteq> []" for dc
    using that
  proof (induction ops arbitrary: dc)
    case (Cons op ops)
    have "dc_refreshTimer (watch_step op dc) \<longleftrightarrow> dc_watchedServices (watch_step op dc) \<noteq> []"
      using Cons.prems
      by (cases op) (auto simp: watch_def unwatch_def close_def startRefreshLoop_def stopRefreshLoop_def Let_def)
    then show ?case using Cons.IH by simp
  qed simp
  then show ?thesis by (simp add: new_DiscoveryClient_def)
qed

text \<open>
  A second `register` before `unregister` loses the handle of the first interval:
  that interval runs on after `unregister`.
\<close>

lemma second_register_leaks:
  "sr_intervals (stopHeartbeatLoop (startHeartbeatLoop 10 (startHeartbeatLoop 10 new_ServiceRegistry))) = [(0, 10000)]"
  by (simp add: startHeartbeatLoop_def stopHeartbeatLoop_def new_ServiceRegistry_def)

text \<open>
  Right after `net.createConnection` a socket has no local address yet. With
  that, a service that names no host registers the loopback address, whatever the
  machine's interfaces are.
\<close>

lemma loopback_registered:
  assumes "\<And>h p. ne_connect net h p = Inr None"
  shows "detectHost net pool = ''127.0.0.1''"
  by (auto simp: detectHost_def getLocalIp_def Let_def assms opt_or_def split: option.splits)

end
