(* ===== verification/HttpProperties.thy ===== *)
theory HttpProperties
  imports HttpClient
begin

text \<open>
  What the HTTP client guarantees: credentials a server can read back, a
  bounded number of attempts with growing pauses, and what a response that is
  not the JSON it claims to be ends in.
\<close>

section \<open>Credentials\<close>

definition b64_value :: "char \<Rightarrow> nat" where
  "b64_value c = length (takeWhile (\<lambda>x. x \<noteq> c) b64_alphabet)"

text \<open>The decoder of a server.\<close>

fun unbase64 :: "string \<Rightarrow> string" where
  "unbase64 (p # q # r # s # rest) =
     (let a = b64_value p; b = b64_value q; c = b64_value r; d = b64_value s in
      char_of (a * 4 + b div 16)
        # (if r = CHR ''='' then [] else char_of (b mod 16 * 16 + c div 4)
            # (if s = CHR ''='' then [] else [char_of (c mod 4 * 64 + d)])) @ unbase64 rest)"
| "unbase64 _ = []"

lemma b64_values: "n < 64 \<Longrightarrow> b64_value (b64_char n) = n \<and> b64_char n \<noteq> CHR ''=''"
proof -
  have "list_all (\<lambda>n. b64_value (b64_char n) = n \<and> b64_char n \<noteq> CHR ''='') [0..<64]" by code_simp
  moreover assume "n < 64"
  ultimately show ?thesis by (simp add: list_all_iff)
qed

lemma byte_less [simp]: "byte c < 256"
  by (simp add: byte_def)

lemma char_of_byte [simp]: "char_of (byte c) = c"
  by (simp add: byte_def)

lemma sextets:
  "byte a div 4 < 64" "byte a mod 4 * 16 < 64" "byte a mod 4 * 16 + byte b div 16 < 64"
  "byte b mod 16 * 4 < 64" "byte b mod 16 * 4 + byte c div 64 < 64" "byte c mod 64 < 64"
  using byte_less [of a] byte_less [of b] byte_less [of c] by linarith+

lemma digits:
  fixes x y :: nat
  shows "y < 16 \<Longrightarrow> (x * 16 + y) div 16 = x" "y < 16 \<Longrightarrow> (x * 16 + y) mod 16 = y"
    "y < 4 \<Longrightarrow> (x * 4 + y) div 4 = x" "y < 4 \<Longrightarrow> (x * 4 + y) mod 4 = y"
  by simp_all

lemma high_digits: "byte c div 16 < 16" "byte c div 64 < 4"
  using byte_less [of c] by linarith+

lemma base64_roundtrip: "unbase64 (base64 s) = s"
proof (induction s rule: base64.induct)
  case (2 a)
  then show ?case by (simp add: Let_def sextets b64_values)
next
  case (3 a b)
  then show ?case by (simp add: Let_def sextets b64_values digits high_digits)
next
  case (4 a b c r)
  then show ?case by (simp add: Let_def sextets b64_values digits high_digits)
qed simp

text \<open>
  What basic authentication puts into a request is what a server reads: the
  header decodes to the user name and the password, whatever bytes they hold,
  and every other header is as it was.
\<close>

lemma basic_auth_roundtrip:
  "\<exists>encoded. map_of (auth_apply (BasicAuth username password) hs) ''Authorization'' = Some (''Basic '' @ encoded)
     \<and> unbase64 encoded = username @ '':'' @ password
     \<and> (\<forall>k. k \<noteq> ''Authorization'' \<longrightarrow> map_of (auth_apply (BasicAuth username password) hs) k = map_of hs k)"
  by (intro exI [of _ "base64 (username @ '':'' @ password)"]) (simp add: auth_apply_def base64_roundtrip update_conv')

lemma basic_auth_roundtrip_example:
  "\<exists>encoded. map_of (auth_apply (BasicAuth ''ann'' ''s3:cret'') [(''Accept'', ''*'')]) ''Authorization'' = Some (''Basic '' @ encoded)
     \<and> unbase64 encoded = ''ann:s3:cret''"
  using basic_auth_roundtrip [of "''ann''" "''s3:cret''" "[(''Accept'', ''*'')]"] by auto


section \<open>Attempts\<close>

text \<open>The environment with a record of what was sent and how long was paused.\<close>

datatype net_event = Sent fetch_request | Paused int

definition traced :: "'w http_env \<Rightarrow> ('w \<times> net_event list) http_env" where
  "traced env = \<lparr>he_fetch = (\<lambda>q (w, l). case he_fetch env q w of (x, w1) \<Rightarrow> (x, (w1, l @ [Sent q]))),
     he_wait = (\<lambda>ms (w, l). (he_wait env ms w, l @ [Paused ms])), he_addQuery = he_addQuery env,
     he_readFile = (\<lambda>p (w, l). case he_readFile env p w of (x, w1) \<Rightarrow> (x, (w1, l))),
     he_saveFile = (\<lambda>p d (w, l). case he_saveFile env p d w of (x, w1) \<Rightarrow> (x, (w1, l)))\<rparr>"

lemma traced_url: "buildUrl (traced env) cl url query = buildUrl env cl url query"
  by (simp add: buildUrl_def traced_def Let_def)

text \<open>Attempts number `a + 1` to `n`, with the pauses before all but the first.\<close>

definition backoff :: "retry_config \<Rightarrow> fetch_request \<Rightarrow> nat \<Rightarrow> nat \<Rightarrow> net_event list" where
  "backoff cfg q a n = Sent q # concat (List.map (\<lambda>i. [Paused (timer_ms (calculateDelay i cfg)), Sent q]) [Suc a..<n])"

definition gives_up :: "http_client \<Rightarrow> nat \<Rightarrow> http_error + http_response \<Rightarrow> bool" where
  "gives_up cl n r \<longleftrightarrow> (case r of
     Inr x \<Rightarrow> hr_isSuccess x \<or> hr_status x \<notin> set (rt_retryOn (ht_retry cl)) \<or> rt_maxAttempts (ht_retry cl) \<le> int n
   | Inl e \<Rightarrow> rt_maxAttempts (ht_retry cl) \<le> int n)"

definition keeps_log :: "(fetch_response \<Rightarrow> 'w \<times> net_event list \<Rightarrow> (js_error + http_response) \<times> ('w \<times> net_event list)) \<Rightarrow> bool" where
  "keeps_log receive \<longleftrightarrow> (\<forall>r w l. snd (snd (receive r (w, l))) = l)"

lemma backoff_step: "Suc a < n \<Longrightarrow>
  backoff cfg q a n = [Sent q, Paused (timer_ms (calculateDelay (Suc a) cfg))] @ backoff cfg q (Suc a) n"
  by (simp add: backoff_def upt_rec [of "Suc a"])

lemma attempt_traced:
  assumes "keeps_log receive"
  shows "\<exists>x w1. attempt_once (traced env) cl receive q (w, l) = (x, (w1, l @ [Sent q]))"
proof (cases "he_fetch env q w")
  case (Pair x w1)
  show ?thesis
  proof (cases x)
    case (Fetched r)
    have "snd (snd (receive r (w1, l @ [Sent q]))) = l @ [Sent q]" using assms by (simp add: keeps_log_def)
    then show ?thesis using Pair Fetched by (cases "receive r (w1, l @ [Sent q])") (auto simp: attempt_once_def traced_def)
  qed (use Pair in \<open>simp_all add: attempt_once_def traced_def\<close>)
qed

lemma attempts_bounded:
  assumes log: "keeps_log receive"
  shows "\<exists>n r w1. attempts (traced env) cl what receive q a (w, l) = (r, (w1, l @ backoff (ht_retry cl) q a n))
     \<and> a < n \<and> int n \<le> max (int a + 1) (rt_maxAttempts (ht_retry cl)) \<and> gives_up cl n r"
proof (induction "nat (rt_maxAttempts (ht_retry cl) - int a)" arbitrary: a w l rule: less_induct)
  case less
  let ?cfg = "ht_retry cl"
  obtain x w1 where once: "attempt_once (traced env) cl receive q (w, l) = (x, (w1, l @ [Sent q]))"
    using attempt_traced [OF log] by blast
  have stop: "backoff ?cfg q a (Suc a) = [Sent q]" by (simp add: backoff_def)
  have again: "\<exists>n r w2. attempts (traced env) cl what receive q (Suc a)
        (he_wait (traced env) (timer_ms (calculateDelay (Suc a) ?cfg)) (w1, l @ [Sent q])) = (r, (w2, l @ backoff ?cfg q a n))
      \<and> a < n \<and> int n \<le> max (int a + 1) (rt_maxAttempts ?cfg) \<and> gives_up cl n r"
    if "int (Suc a) < rt_maxAttempts ?cfg"
  proof -
    obtain w2 where w2: "he_wait (traced env) (timer_ms (calculateDelay (Suc a) ?cfg)) (w1, l @ [Sent q])
        = (w2, (l @ [Sent q]) @ [Paused (timer_ms (calculateDelay (Suc a) ?cfg))])" by (simp add: traced_def)
    have "nat (rt_maxAttempts ?cfg - int (Suc a)) < nat (rt_maxAttempts ?cfg - int a)" using that by linarith
    from less [OF this, of w2 "(l @ [Sent q]) @ [Paused (timer_ms (calculateDelay (Suc a) ?cfg))]"] obtain n r w3 where
      "attempts (traced env) cl what receive q (Suc a) (w2, (l @ [Sent q]) @ [Paused (timer_ms (calculateDelay (Suc a) ?cfg))])
        = (r, (w3, ((l @ [Sent q]) @ [Paused (timer_ms (calculateDelay (Suc a) ?cfg))]) @ backoff ?cfg q (Suc a) n))"
      "Suc a < n" "int n \<le> max (int (Suc a) + 1) (rt_maxAttempts ?cfg)" "gives_up cl n r" by blast
    with that w2 show ?thesis
      by (intro exI [of _ n] exI [of _ r] exI [of _ w3]) (auto simp: backoff_step)
  qed
  show ?case
  proof (cases x)
    case (Inl e)
    show ?thesis
    proof (cases "int (Suc a) < rt_maxAttempts ?cfg")
      case True
      then show ?thesis using again once Inl by (simp add: attempts.simps [of "traced env"] Let_def)
    next
      case False
      then show ?thesis using once Inl stop
        by (intro exI [of _ "Suc a"]) (auto simp: attempts.simps [of "traced env"] Let_def gives_up_def)
    qed
  next
    case (Inr r)
    show ?thesis
    proof (cases "\<not> hr_isSuccess r \<and> hr_status r \<in> set (rt_retryOn ?cfg) \<and> int (Suc a) < rt_maxAttempts ?cfg")
      case True
      then show ?thesis using again once Inr by (simp add: attempts.simps [of "traced env"] Let_def)
    next
      case False
      then show ?thesis using once Inr stop
        by (intro exI [of _ "Suc a"]) (auto simp: attempts.simps [of "traced env"] Let_def gives_up_def)
    qed
  qed
qed

definition the_request :: "http_client \<Rightarrow> string \<Rightarrow> string \<Rightarrow> request_params \<Rightarrow> fetch_request" where
  "the_request cl meth fullUrl p = \<lparr>fq_method = meth, fq_url = fullUrl, fq_headers = request_headers cl p,
     fq_body = request_body p, fq_timeout = ht_timeout cl\<rparr>"

lemma pauses_capped:
  "Paused ms \<in> set (backoff cfg q a n) \<Longrightarrow> ms \<le> timer_ms (rt_maxDelay cfg)"
  by (auto simp: backoff_def timer_ms_def calculateDelay_def intro!: floor_mono)

text \<open>
  Retries are bounded and spaced. Whatever the network answers, a request is
  sent at least once and at most as often as configured, every time the same
  request; before attempt number `i + 1` the client pauses for the delay of
  attempt `i`, never longer than the configured maximum; and it stops short of
  the last attempt only with a success or a status that is not to be retried.
\<close>

lemma http_retries_bounded:
  assumes url: "buildUrl env cl url (qp_query p) = Inr u"
  shows "\<exists>n r w1. http_request (traced env) cl meth url p 0 (w, []) = (r, (w1, backoff (ht_retry cl) (the_request cl meth u p) 0 n))
    \<and> 1 \<le> n \<and> int n \<le> max 1 (rt_maxAttempts (ht_retry cl))
    \<and> (\<forall>ms. Paused ms \<in> set (backoff (ht_retry cl) (the_request cl meth u p) 0 n) \<longrightarrow> ms \<le> timer_ms (rt_maxDelay (ht_retry cl)))
    \<and> gives_up cl n r"
proof -
  have url': "buildUrl (traced env) cl url (qp_query p) = Inr u" using url by (simp add: traced_url)
  have "keeps_log (\<lambda>r w1. (parseResponse r, w1))" by (simp add: keeps_log_def)
  from attempts_bounded [OF this, of env cl "''Request''" "the_request cl meth u p" 0 w "[]"]
  obtain n r w1 where run: "attempts (traced env) cl ''Request'' (\<lambda>r w1. (parseResponse r, w1)) (the_request cl meth u p) 0 (w, [])
      = (r, (w1, backoff (ht_retry cl) (the_request cl meth u p) 0 n))"
    and n: "0 < n" "int n \<le> max 1 (rt_maxAttempts (ht_retry cl))" "gives_up cl n r" by auto
  have "http_request (traced env) cl meth url p 0 (w, []) = (r, (w1, backoff (ht_retry cl) (the_request cl meth u p) 0 n))"
    using run url' by (simp add: http_request_def the_request_def)
  then show ?thesis
    using n pauses_capped by (intro exI [of _ n] exI [of _ r] exI [of _ w1]) auto
qed

text \<open>A network whose answers are a list, and nothing else.\<close>

definition scripted :: "fetch_outcome list http_env" where
  "scripted = \<lparr>he_fetch = (\<lambda>q w. case w of [] \<Rightarrow> (FetchFailed (TypeErrorOf ''fetch failed''), []) | x # xs \<Rightarrow> (x, xs)),
     he_wait = (\<lambda>ms w. w), he_addQuery = (\<lambda>u q. Inr u), he_readFile = (\<lambda>p w. (Inr [], w)),
     he_saveFile = (\<lambda>p d w. (Inr (), w))\<rparr>"

definition sample_http :: http_client where
  "sample_http = new_ByHttpClient ''http://api/'' (AuthToken ''t'') None [] None"

definition busy :: fetch_response where
  "busy = \<lparr>fr_status = 503, fr_headers = [], fr_body = ''busy''\<rparr>"

definition fine :: fetch_response where
  "fine = \<lparr>fr_status = 200, fr_headers = [(''content-type'', ''text/plain'')], fr_body = ''fine''\<rparr>"

lemma http_retries_bounded_example:
  "\<exists>n r w1. http_request (traced scripted) sample_http ''GET'' ''/users'' no_params 0 ([Fetched busy, Fetched fine], [])
      = (r, (w1, backoff default_retry (the_request sample_http ''GET'' ''http://api/users'' no_params) 0 n)) \<and> 1 \<le> n \<and> n \<le> 3"
proof -
  have "buildUrl scripted sample_http ''/users'' (qp_query no_params) = Inr ''http://api/users''"
    by (simp add: buildUrl_def sample_http_def new_ByHttpClient_def no_params_def drop_trailing_slashes_def
        drop_leading_slashes_def startsWith_def)
  from http_retries_bounded [OF this, of "''GET''" "[Fetched busy, Fetched fine]"]
  show ?thesis by (auto simp: sample_http_def new_ByHttpClient_def opt_or_def default_retry_def)
qed

text \<open>
  A response that calls itself JSON and is not is lost. The client reads the
  body a second time to fall back to its text, which a response does not allow;
  so a server that answers every time with success and such a body (an empty
  one is enough) is taken for a broken network: it is asked as often as
  configured, and the request fails.
\<close>

lemma malformed_json_is_lost:
  assumes url: "buildUrl env cl url (qp_query p) = Inr u"
    and served: "\<And>w. \<exists>w1. he_fetch env (the_request cl meth u p) w = (Fetched r, w1)"
    and success: "fr_ok r" and claims: "contains_part (opt_or (map_of (fr_headers r) ''content-type'') []) ''application/json''"
    and broken: "json_parse (fr_body r) = None"
  shows "\<exists>m. fst (http_request env cl meth url p 0 w) = Inl (HttpRequestError m u TypeError)"
proof -
  let ?q = "the_request cl meth u p"
  have parse: "parseResponse r = Inl TypeError" using claims broken by (simp add: parseResponse_def Let_def)
  have "\<exists>m. fst (attempts env cl ''Request'' (\<lambda>r w1. (parseResponse r, w1)) ?q a w) = Inl (HttpRequestError m u TypeError)" for a w
  proof (induction "nat (rt_maxAttempts (ht_retry cl) - int a)" arbitrary: a w rule: less_induct)
    case less
    obtain w1 where "he_fetch env ?q w = (Fetched r, w1)" using served by blast
    then have once: "attempt_once env cl (\<lambda>r w1. (parseResponse r, w1)) ?q w = (Inl TypeError, w1)"
      by (simp add: attempt_once_def parse)
    show ?case
    proof (cases "int (Suc a) < rt_maxAttempts (ht_retry cl)")
      case True
      then have "nat (rt_maxAttempts (ht_retry cl) - int (Suc a)) < nat (rt_maxAttempts (ht_retry cl) - int a)" by linarith
      from less [OF this] show ?thesis
        using True once by (simp add: attempts.simps [of env] Let_def)
    qed (use once in \<open>simp add: attempts.simps [of env] Let_def the_request_def\<close>)
  qed
  then show ?thesis using url by (simp add: http_request_def the_request_def)
qed

definition empty_answer :: fetch_response where
  "empty_answer = \<lparr>fr_status = 200, fr_headers = [(''content-type'', ''application/json'')], fr_body = []\<rparr>"

definition always :: "fetch_response \<Rightarrow> unit http_env" where
  "always r = \<lparr>he_fetch = (\<lambda>q w. (Fetched r, w)), he_wait = (\<lambda>ms w. w), he_addQuery = (\<lambda>u q. Inr u),
     he_readFile = (\<lambda>p w. (Inr [], w)), he_saveFile = (\<lambda>p d w. (Inr (), w))\<rparr>"

lemma malformed_json_is_lost_example:
  "\<exists>m. fst (http_request (always empty_answer) sample_http ''POST'' ''/jobs'' no_params 0 ()) = Inl (HttpRequestError m ''http://api/jobs'' TypeError)"
proof -
  have url: "buildUrl (always empty_answer) sample_http ''/jobs'' (qp_query no_params) = Inr ''http://api/jobs''"
    by (simp add: buildUrl_def sample_http_def new_ByHttpClient_def no_params_def drop_trailing_slashes_def
        drop_leading_slashes_def startsWith_def)
  have "contains_part (opt_or (map_of (fr_headers empty_answer) ''content-type'') []) ''application/json''"
    by (auto simp: contains_part_def empty_answer_def opt_or_def startsWith_def intro: bexI [of _ 0])
  moreover have "fr_ok empty_answer" "json_parse (fr_body empty_answer) = None"
    by (simp add: fr_ok_def empty_answer_def, code_simp)
  ultimately show ?thesis
    using malformed_json_is_lost [OF url, of "''POST''" empty_answer "()"] by (simp add: always_def)
qed

end
