(* ===== verification/DiscoveryHttp.thy ===== *)
theory DiscoveryHttp
  imports HttpProperties Discovery
begin

text \<open>
  The HTTP client that addresses services by name
  (src/discovery/discovery_http_client.ts): it asks the discovery client for an
  instance, sends the request there, and asks again when that fails.

  The discovery client is an argument, `discover`: a function of the service and of
  the state of the outside world, which includes the client's cache. `discover_in`
  gives it for the model of the discovery client over a Redis connection.
\<close>

type_synonym 'w lookup = "string \<Rightarrow> 'w \<Rightarrow> (js_error + service_instance option) \<times> 'w"

definition discover_in :: "(cmd \<Rightarrow> 's \<Rightarrow> answer \<times> 's) \<Rightarrow> key_schema \<Rightarrow> (nat \<Rightarrow> rat)
    \<Rightarrow> string \<Rightarrow> (discovery_client \<times> 's) \<times> nat \<Rightarrow> (js_error + service_instance option) \<times> (discovery_client \<times> 's) \<times> nat" where
  "discover_in exec sch random svc w = (case w of ((dc, s), i) \<Rightarrow>
     (case act_run exec (discover sch (random i) svc ''random'') dc s of ((r, dc'), (s', _)) \<Rightarrow> (r, ((dc', s'), Suc i))))"

datatype discovery_error = DiscoveryHttpClientError string | DiscoveryThrown js_error

type_synonym 'w node_result = "(discovery_error + http_response) \<times> 'w"

record discovery_http_client =
  dh_httpClient :: http_client
  dh_retryConfig :: retry_config
  dh_ownsHttpClient :: bool

definition new_DiscoveryHttpClient :: "http_client option \<Rightarrow> retry_config option \<Rightarrow> discovery_http_client" where
  "new_DiscoveryHttpClient httpClient retryConfig =
     \<lparr>dh_httpClient = opt_or httpClient (new_ByHttpClient [] AuthMissing None [] (Some noRetry)),
      dh_retryConfig = opt_or retryConfig default_retry, dh_ownsHttpClient = (httpClient = None)\<rparr>"

text \<open>`String(error)`.\<close>

definition http_error_String :: "http_error \<Rightarrow> string" where
  "http_error_String e = (case e of
     HttpRequestError m _ _ \<Rightarrow> if m = [] then ''HttpRequestError'' else ''HttpRequestError: '' @ m
   | Thrown x \<Rightarrow> error_String x)"

definition no_instances :: "string \<Rightarrow> discovery_error" where
  "no_instances serviceName = DiscoveryHttpClientError (''No available instances for service: '' @ serviceName)"

definition absoluteUrl :: "service_instance \<Rightarrow> string \<Rightarrow> string" where
  "absoluteUrl i path = ''http://'' @ opt_String (si_host i) @ '':'' @ opt_String (si_port i) @ ''/'' @ drop_leading_slashes path"

text \<open>The response is the answer, or its status or the error calls for another attempt.\<close>

definition settles :: "retry_config \<Rightarrow> http_error + http_response \<Rightarrow> bool" where
  "settles cfg out = (case out of Inr r \<Rightarrow> hr_isSuccess r \<or> hr_status r \<notin> set (rt_retryOn cfg) | Inl _ \<Rightarrow> False)"

definition gave_up :: "string \<Rightarrow> retry_config \<Rightarrow> http_error + http_response \<Rightarrow> discovery_error" where
  "gave_up what cfg out = DiscoveryHttpClientError (''Service '' @ what @ '' failed after '' @ int_str (rt_maxAttempts cfg) @ '' attempts''
     @ (case out of Inl e \<Rightarrow> '': '' @ http_error_String e | Inr _ \<Rightarrow> ''.''))"

definition add_id :: "json option \<Rightarrow> json option list \<Rightarrow> json option list" where
  "add_id i ids = (if i \<in> set ids then ids else ids @ [i])"

function requestWithDiscovery :: "'w http_env \<Rightarrow> 'w lookup \<Rightarrow> discovery_http_client \<Rightarrow> string \<Rightarrow> string \<Rightarrow> string \<Rightarrow> request_params
    \<Rightarrow> nat \<Rightarrow> json option list \<Rightarrow> 'w \<Rightarrow> 'w node_result" where
  "requestWithDiscovery env lookup cl meth serviceName path p retryCount excludeInstanceIds w =
     (case lookup serviceName w of
        (Inl e, w1) \<Rightarrow> (Inl (DiscoveryThrown e), w1)
      | (Inr None, w1) \<Rightarrow> (Inl (no_instances serviceName), w1)
      | (Inr (Some i), w1) \<Rightarrow>
          (let cfg = dh_retryConfig cl; attempt = Suc retryCount in
           case http_request env (dh_httpClient cl) meth (absoluteUrl i path) p 0 w1 of (out, w2) \<Rightarrow>
             if settles cfg out then (Inr (projr out), w2)
             else if int attempt < rt_maxAttempts cfg
             then requestWithDiscovery env lookup cl meth serviceName path p attempt (add_id (si_id i) excludeInstanceIds)
                    (he_wait env (timer_ms (calculateDelay attempt cfg)) w2)
             else (Inl (gave_up ''request'' cfg out), w2)))"
  by pat_completeness auto
termination
  by (relation "measure (\<lambda>(env, lookup, cl, meth, svc, path, p, n, ids, w). nat (rt_maxAttempts (dh_retryConfig cl) - int n))") auto

declare requestWithDiscovery.simps [simp del]

text \<open>The attempts of a download or an upload, which keep no list of ids.\<close>

function node_attempts :: "'w http_env \<Rightarrow> 'w lookup \<Rightarrow> retry_config \<Rightarrow> string \<Rightarrow> (string \<Rightarrow> 'w \<Rightarrow> (http_error + http_response) \<times> 'w)
    \<Rightarrow> string \<Rightarrow> string \<Rightarrow> nat \<Rightarrow> 'w \<Rightarrow> 'w node_result" where
  "node_attempts env lookup cfg what send serviceName path retryCount w =
     (case lookup serviceName w of
        (Inl e, w1) \<Rightarrow> (Inl (DiscoveryThrown e), w1)
      | (Inr None, w1) \<Rightarrow> (Inl (no_instances serviceName), w1)
      | (Inr (Some i), w1) \<Rightarrow>
          (let attempt = Suc retryCount in
           case send (absoluteUrl i path) w1 of (out, w2) \<Rightarrow>
             if settles cfg out then (Inr (projr out), w2)
             else if int attempt < rt_maxAttempts cfg
             then node_attempts env lookup cfg what send serviceName path attempt
                    (he_wait env (timer_ms (calculateDelay attempt cfg)) w2)
             else (Inl (gave_up what cfg out), w2)))"
  by pat_completeness auto
termination
  by (relation "measure (\<lambda>(env, lookup, cfg, what, send, svc, path, n, w). nat (rt_maxAttempts cfg - int n))") auto

declare node_attempts.simps [simp del]

definition discovery_download :: "'w http_env \<Rightarrow> 'w lookup \<Rightarrow> discovery_http_client \<Rightarrow> string \<Rightarrow> string \<Rightarrow> string \<Rightarrow> request_params
    \<Rightarrow> nat \<Rightarrow> 'w \<Rightarrow> 'w node_result" where
  "discovery_download env lookup cl serviceName path destination p retryCount =
     node_attempts env lookup (dh_retryConfig cl) ''download''
       (\<lambda>url. http_download env (dh_httpClient cl) url destination p 0) serviceName path retryCount"

definition discovery_uploadMultiple :: "'w http_env \<Rightarrow> 'w lookup \<Rightarrow> discovery_http_client \<Rightarrow> string \<Rightarrow> string \<Rightarrow> string list \<Rightarrow> upload_params
    \<Rightarrow> nat \<Rightarrow> 'w \<Rightarrow> 'w node_result" where
  "discovery_uploadMultiple env lookup cl serviceName path filePaths p retryCount =
     node_attempts env lookup (dh_retryConfig cl) ''upload''
       (\<lambda>url. uploadMultiple env (dh_httpClient cl) url filePaths p) serviceName path retryCount"

definition discovery_upload :: "'w http_env \<Rightarrow> 'w lookup \<Rightarrow> discovery_http_client \<Rightarrow> string \<Rightarrow> string \<Rightarrow> string \<Rightarrow> upload_params
    \<Rightarrow> nat \<Rightarrow> 'w \<Rightarrow> 'w node_result" where
  "discovery_upload env lookup cl serviceName path filePath = discovery_uploadMultiple env lookup cl serviceName path [filePath]"

definition discovery_uploadWithStream :: "'w http_env \<Rightarrow> 'w lookup \<Rightarrow> discovery_http_client \<Rightarrow> string \<Rightarrow> string \<Rightarrow> string \<Rightarrow> string
    \<Rightarrow> upload_params \<Rightarrow> nat \<Rightarrow> 'w \<Rightarrow> 'w node_result" where
  "discovery_uploadWithStream env lookup cl serviceName path fileName content p retryCount =
     node_attempts env lookup (dh_retryConfig cl) ''upload''
       (\<lambda>url. uploadWithStream env (dh_httpClient cl) url fileName content p) serviceName path retryCount"

definition discovery_get :: "'w http_env \<Rightarrow> 'w lookup \<Rightarrow> discovery_http_client \<Rightarrow> string \<Rightarrow> string \<Rightarrow> request_params \<Rightarrow> 'w \<Rightarrow> 'w node_result" where
  "discovery_get env lookup cl serviceName path p = requestWithDiscovery env lookup cl ''GET'' serviceName path p 0 []"

definition discovery_post :: "'w http_env \<Rightarrow> 'w lookup \<Rightarrow> discovery_http_client \<Rightarrow> string \<Rightarrow> string \<Rightarrow> request_params \<Rightarrow> 'w \<Rightarrow> 'w node_result" where
  "discovery_post env lookup cl serviceName path p = requestWithDiscovery env lookup cl ''POST'' serviceName path p 0 []"

definition discovery_put :: "'w http_env \<Rightarrow> 'w lookup \<Rightarrow> discovery_http_client \<Rightarrow> string \<Rightarrow> string \<Rightarrow> request_params \<Rightarrow> 'w \<Rightarrow> 'w node_result" where
  "discovery_put env lookup cl serviceName path p = requestWithDiscovery env lookup cl ''PUT'' serviceName path p 0 []"

definition discovery_patch :: "'w http_env \<Rightarrow> 'w lookup \<Rightarrow> discovery_http_client \<Rightarrow> string \<Rightarrow> string \<Rightarrow> request_params \<Rightarrow> 'w \<Rightarrow> 'w node_result" where
  "discovery_patch env lookup cl serviceName path p = requestWithDiscovery env lookup cl ''PATCH'' serviceName path p 0 []"

definition discovery_delete :: "'w http_env \<Rightarrow> 'w lookup \<Rightarrow> discovery_http_client \<Rightarrow> string \<Rightarrow> string \<Rightarrow> request_params \<Rightarrow> 'w \<Rightarrow> 'w node_result" where
  "discovery_delete env lookup cl serviceName path p = requestWithDiscovery env lookup cl ''DELETE'' serviceName path p 0 []"


section \<open>Which node a repetition goes to\<close>

text \<open>
  The ids of the nodes that failed are collected and never used: whatever
  list of ids to exclude a request starts with, it does the same, so a repetition
  goes wherever the next lookup points, the failed node included.
\<close>

lemma exclusion_is_ignored:
  "requestWithDiscovery env lookup cl meth serviceName path p retryCount ids w
   = requestWithDiscovery env lookup cl meth serviceName path p retryCount ids' w"
proof (induction "nat (rt_maxAttempts (dh_retryConfig cl) - int retryCount)" arbitrary: retryCount ids ids' w rule: less_induct)
  case less
  have again: "requestWithDiscovery env lookup cl meth serviceName path p (Suc retryCount) ids w'
      = requestWithDiscovery env lookup cl meth serviceName path p (Suc retryCount) ids' w'"
    if "int (Suc retryCount) < rt_maxAttempts (dh_retryConfig cl)" for ids ids' w'
    by (rule less) (use that in linarith)
  show ?case
    unfolding requestWithDiscovery.simps [of env lookup cl meth serviceName path p retryCount]
    by (auto simp: Let_def split: prod.splits sum.splits option.splits intro: again)
qed

text \<open>So a request is the plain loop of lookups and attempts that downloads and uploads use.\<close>

lemma request_is_plain_loop:
  "requestWithDiscovery env lookup cl meth serviceName path p retryCount ids w
   = node_attempts env lookup (dh_retryConfig cl) ''request'' (\<lambda>url. http_request env (dh_httpClient cl) meth url p 0) serviceName path retryCount w"
proof (induction "nat (rt_maxAttempts (dh_retryConfig cl) - int retryCount)" arbitrary: retryCount ids w rule: less_induct)
  case less
  have again: "requestWithDiscovery env lookup cl meth serviceName path p (Suc retryCount) ids w'
      = node_attempts env lookup (dh_retryConfig cl) ''request'' (\<lambda>url. http_request env (dh_httpClient cl) meth url p 0) serviceName path
          (Suc retryCount) w'"
    if "int (Suc retryCount) < rt_maxAttempts (dh_retryConfig cl)" for ids w'
    by (rule less) (use that in linarith)
  show ?case
    unfolding requestWithDiscovery.simps [of env lookup cl meth serviceName path p retryCount]
      node_attempts.simps [of env lookup "dh_retryConfig cl" _ _ serviceName path retryCount]
    by (auto simp: Let_def split: prod.splits sum.splits option.splits intro: again)
qed


section \<open>How often a service is asked\<close>

text \<open>The same world with a list of what the lookups answered.\<close>

definition lift_env :: "'w http_env \<Rightarrow> ('w \<times> 'l) http_env" where
  "lift_env env = \<lparr>he_fetch = (\<lambda>q (w, l). apsnd (\<lambda>w1. (w1, l)) (he_fetch env q w)), he_wait = (\<lambda>ms (w, l). (he_wait env ms w, l)),
     he_addQuery = he_addQuery env, he_readFile = (\<lambda>p (w, l). apsnd (\<lambda>w1. (w1, l)) (he_readFile env p w)),
     he_saveFile = (\<lambda>p d (w, l). apsnd (\<lambda>w1. (w1, l)) (he_saveFile env p d w))\<rparr>"

definition seen_lookup :: "'w lookup \<Rightarrow> ('w \<times> (js_error + service_instance option) list) lookup" where
  "seen_lookup lookup svc w = (case w of (v, seen) \<Rightarrow> (case lookup svc v of (r, v1) \<Rightarrow> (r, (v1, seen @ [r]))))"

lemma attempts_lift:
  "attempts (lift_env env) cl what (\<lambda>r w1. (parseResponse r, w1)) q n (w, l)
   = apsnd (\<lambda>w1. (w1, l)) (attempts env cl what (\<lambda>r w1. (parseResponse r, w1)) q n w)"
proof (induction "nat (rt_maxAttempts (ht_retry cl) - int n)" arbitrary: n w rule: less_induct)
  case less
  have once: "attempt_once (lift_env env) cl (\<lambda>r w1. (parseResponse r, w1)) q (w, l)
      = apsnd (\<lambda>w1. (w1, l)) (attempt_once env cl (\<lambda>r w1. (parseResponse r, w1)) q w)"
    by (auto simp: attempt_once_def lift_env_def split: prod.splits fetch_outcome.splits)
  have pause: "he_wait (lift_env env) ms (v, l) = (he_wait env ms v, l)" for ms v
    by (simp add: lift_env_def)
  have again: "attempts (lift_env env) cl what (\<lambda>r w1. (parseResponse r, w1)) q (Suc n) (v, l)
      = apsnd (\<lambda>w1. (w1, l)) (attempts env cl what (\<lambda>r w1. (parseResponse r, w1)) q (Suc n) v)"
    if "int (Suc n) < rt_maxAttempts (ht_retry cl)" for v
    by (rule less) (use that in linarith)
  show ?case
    unfolding attempts.simps [of _ cl what _ q n] once
    by (auto simp: Let_def pause again split: prod.splits sum.splits)
qed

lemma lift_env_simps [simp]:
  "buildUrl (lift_env env) cl url query = buildUrl env cl url query"
  "he_wait (lift_env env) ms (v, l) = (he_wait env ms v, l)"
  by (simp_all add: buildUrl_def lift_env_def Let_def)

lemma http_request_lift:
  "http_request (lift_env env) cl meth url p n (w, l) = apsnd (\<lambda>w1. (w1, l)) (http_request env cl meth url p n w)"
  by (simp add: http_request_def attempts_lift split: sum.splits)

text \<open>How a run of lookups ends.\<close>

definition ends_well :: "retry_config \<Rightarrow> (js_error + service_instance option) list \<Rightarrow> discovery_error + http_response \<Rightarrow> bool" where
  "ends_well cfg seen r \<longleftrightarrow> (case r of
     Inr x \<Rightarrow> hr_isSuccess x \<or> hr_status x \<notin> set (rt_retryOn cfg)
   | Inl (DiscoveryThrown e) \<Rightarrow> last seen = Inl e
   | Inl (DiscoveryHttpClientError m) \<Rightarrow> last seen = Inr None \<or> rt_maxAttempts cfg \<le> int (length seen))"

lemma node_lookups:
  assumes kept: "\<And>url w l. \<exists>out w1. send url (w, l) = (out, (w1, l))"
  shows "\<exists>r w1 seen. node_attempts (lift_env env) (seen_lookup lookup) cfg what send svc path (length l) (w, l) = (r, (w1, l @ seen))
     \<and> seen \<noteq> [] \<and> int (length (l @ seen)) \<le> max (int (length l) + 1) (rt_maxAttempts cfg) \<and> ends_well cfg (l @ seen) r"
proof (induction "nat (rt_maxAttempts cfg - int (length l))" arbitrary: l w rule: less_induct)
  case less
  let ?go = "node_attempts (lift_env env) (seen_lookup lookup) cfg what send svc path"
  obtain x w1 where look: "lookup svc w = (x, w1)" by (cases "lookup svc w")
  then have seen: "seen_lookup lookup svc (w, l) = (x, (w1, l @ [x]))" by (simp add: seen_lookup_def)
  show ?case
  proof (cases "\<exists>i. x = Inr (Some i)")
    case False
    then show ?thesis
      using seen by (intro exI [of _ "fst (?go (length l) (w, l))"] exI [of _ w1] exI [of _ "[x]"])
        (auto simp: node_attempts.simps [of "lift_env env"] ends_well_def no_instances_def split: sum.splits option.splits)
  next
    case True
    then obtain i where i: "x = Inr (Some i)" by blast
    obtain out w2 where out: "send (absoluteUrl i path) (w1, l @ [x]) = (out, (w2, l @ [x]))" using kept by blast
    let ?w3 = "he_wait env (timer_ms (calculateDelay (Suc (length l)) cfg)) w2"
    have step: "?go (length l) (w, l) =
        (if settles cfg out then (Inr (projr out), (w2, l @ [x]))
         else if int (Suc (length l)) < rt_maxAttempts cfg then ?go (Suc (length l)) (?w3, l @ [x])
         else (Inl (gave_up what cfg out), (w2, l @ [x])))"
      using seen out i by (simp add: node_attempts.simps [of "lift_env env" _ _ _ _ _ _ "length l"] Let_def)
    show ?thesis
    proof (cases "\<not> settles cfg out \<and> int (Suc (length l)) < rt_maxAttempts cfg")
      case False
      then show ?thesis
        using step by (intro exI [of _ "fst (?go (length l) (w, l))"] exI [of _ w2] exI [of _ "[x]"])
          (auto simp: ends_well_def gave_up_def settles_def split: sum.splits)
    next
      case True
      then have "nat (rt_maxAttempts cfg - int (length (l @ [x]))) < nat (rt_maxAttempts cfg - int (length l))" by simp
      from less [OF this, of ?w3] obtain r w4 seen where
        "?go (Suc (length l)) (?w3, l @ [x]) = (r, (w4, l @ x # seen))" "seen \<noteq> []"
        "int (length (l @ x # seen)) \<le> max (int (length l) + 2) (rt_maxAttempts cfg)" "ends_well cfg (l @ x # seen) r"
        by auto
      with True step show ?thesis by (intro exI [of _ r] exI [of _ w4] exI [of _ "x # seen"]) auto
    qed
  qed
qed

text \<open>
  A request by service name looks an instance up before every attempt, at
  least once and at most as often as configured; it answers with a response only
  if that is a success or has a status that is not to be retried, and it gives up
  only when a lookup fails or finds nothing, or after the configured number of
  attempts.
\<close>

lemma service_lookups_bounded:
  "\<exists>r w1 seen. requestWithDiscovery (lift_env env) (seen_lookup lookup) cl meth serviceName path p 0 ids (w, []) = (r, (w1, seen))
     \<and> 1 \<le> length seen \<and> int (length seen) \<le> max 1 (rt_maxAttempts (dh_retryConfig cl)) \<and> ends_well (dh_retryConfig cl) seen r"
proof -
  have kept: "\<exists>out w1. http_request (lift_env env) (dh_httpClient cl) meth url p 0 (w, l) = (out, (w1, l))"
    for url w and l :: "(js_error + service_instance option) list"
    by (cases "http_request env (dh_httpClient cl) meth url p 0 w") (simp add: http_request_lift)
  obtain r w1 seen where "node_attempts (lift_env env) (seen_lookup lookup) (dh_retryConfig cl) ''request''
      (\<lambda>url. http_request (lift_env env) (dh_httpClient cl) meth url p 0) serviceName path 0 (w, []) = (r, (w1, seen))"
    "seen \<noteq> []" "int (length seen) \<le> max 1 (rt_maxAttempts (dh_retryConfig cl))" "ends_well (dh_retryConfig cl) seen r"
    using node_lookups [where send = "\<lambda>url. http_request (lift_env env) (dh_httpClient cl) meth url p 0" and l = "[]", OF kept]
    by (simp, blast)
  then show ?thesis
    unfolding request_is_plain_loop by (cases seen) auto
qed

end
