(* ===== verification/Plugins.thy ===== *)
theory Plugins
  imports HttpClient "HOL-Library.Product_Lexorder"
begin

text \<open>
  Plugins and the agent configurations they bring (src/extensions/registry.ts,
  plugin.ts, agent_config.ts, src/runtime/agent_config_manager.ts).

  A plugin's own code is third-party, so it is an argument: what a hook does to the
  outside world, what it ends with and how many milliseconds it takes. A hook
  that takes longer than its limit counts as failed; the code does not stop
  it, and its effects are taken here at the point where the registry leaves it.
  Objects that the code compares by identity carry a number. The keys of an object
  are its own: a key that the object only inherits, such as `toString`, is taken
  for absent by `in`.
\<close>

section \<open>Agent configurations\<close>

text \<open>Of the callbacks only the types are kept that have some.\<close>

record agent_config =
  cf_agent_id :: string
  cf_name :: "string option"
  cf_description :: "string option"
  cf_prompts :: "jobj option"
  cf_tools :: "jobj option"
  cf_skills :: "jobj option"
  cf_callbacks :: "string list option"
  cf_knowledge_bases :: "jobj option"
  cf_sub_agents :: "string list option"
  cf_on_conflict :: "string option"

definition normalizeAgentConfig :: "agent_config \<Rightarrow> agent_config" where
  "normalizeAgentConfig c = c\<lparr>
     cf_name := Some (opt_or (cf_name c) []), cf_description := Some (opt_or (cf_description c) []),
     cf_prompts := Some (opt_or (cf_prompts c) []), cf_tools := Some (opt_or (cf_tools c) []),
     cf_skills := Some (opt_or (cf_skills c) []), cf_callbacks := Some (opt_or (cf_callbacks c) []),
     cf_knowledge_bases := Some (opt_or (cf_knowledge_bases c) []), cf_sub_agents := Some (opt_or (cf_sub_agents c) []),
     cf_on_conflict := Some (opt_or (cf_on_conflict c) ''error'')\<rparr>"

definition findAgentConfig :: "agent_config list \<Rightarrow> string \<Rightarrow> agent_config option" where
  "findAgentConfig cs agentId = find (\<lambda>c. cf_agent_id c = agentId) cs"

definition validateAgentConfig :: "agent_config \<Rightarrow> js_error + unit" where
  "validateAgentConfig c = (if cf_agent_id c = [] then Inl (JsError ''AgentConfig.agent_id must not be empty'') else Inr ())"

text \<open>
  The normalised configuration is a new object, so it is never identical to one
  that is registered: the test of the code for that does not come out true.
\<close>

definition registerAgentConfig :: "agent_config \<Rightarrow> agent_config list \<Rightarrow> js_error + agent_config list" where
  "registerAgentConfig config cs =
     (let n = normalizeAgentConfig config; i = cf_agent_id n in
      case validateAgentConfig n of Inl e \<Rightarrow> Inl e
      | Inr _ \<Rightarrow> (case findAgentConfig cs i of
          None \<Rightarrow> Inr (cs @ [n])
        | Some _ \<Rightarrow>
            let conflict = opt_or (cf_on_conflict n) ''error'' in
            if conflict = ''error'' then Inl (JsError (''agent_config '' @ [CHR 39] @ i @ [CHR 39] @ '' is already registered''))
            else if conflict = ''skip'' then Inr cs
            else Inr (filter (\<lambda>c. cf_agent_id c \<noteq> i) cs @ [n])))"

fun registerAgentConfigs_all :: "agent_config list \<Rightarrow> agent_config list \<Rightarrow> (js_error option) \<times> agent_config list" where
  "registerAgentConfigs_all [] cs = (None, cs)"
| "registerAgentConfigs_all (x # xs) cs = (case registerAgentConfig x cs of
     Inl e \<Rightarrow> (Some e, cs) | Inr cs' \<Rightarrow> registerAgentConfigs_all xs cs')"


section \<open>The build context\<close>

record build_context =
  bc_agentConfigs :: "agent_config list"
  bc_prevAgentConfigs :: "agent_config list"

definition new_PluginBuildContext :: "agent_config list \<Rightarrow> build_context" where
  "new_PluginBuildContext cs = \<lparr>bc_agentConfigs = cs, bc_prevAgentConfigs = []\<rparr>"

definition setAgentConfigs :: "agent_config list \<Rightarrow> build_context \<Rightarrow> build_context" where
  "setAgentConfigs cs bc = bc\<lparr>bc_agentConfigs := cs\<rparr>"

definition listAgentConfigs :: "build_context \<Rightarrow> agent_config list" where
  "listAgentConfigs bc = bc_agentConfigs bc"

definition freezePrevAgentConfigs :: "build_context \<Rightarrow> build_context" where
  "freezePrevAgentConfigs bc = bc\<lparr>bc_prevAgentConfigs := bc_agentConfigs bc\<rparr>"

definition getPrevAgentConfigs :: "build_context \<Rightarrow> agent_config list" where
  "getPrevAgentConfigs bc = bc_prevAgentConfigs bc"


section \<open>Plugins\<close>

text \<open>
  A time limit in seconds comes with the text of the number. `pg_register` and
  `pg_hook` are the plugin's code: the result, the milliseconds and the world
  after it. `pg_classes` are the classes the plugin is an instance of.
\<close>

record 'w plugin =
  pg_object :: nat
  pg_classes :: "nat list"
  pg_id :: string
  pg_version :: string
  pg_priority :: int
  pg_enabled :: bool
  pg_timeout :: "(string \<times> rat) option"
  pg_register :: "build_context \<Rightarrow> 'w \<Rightarrow> (js_error + agent_config list option) \<times> int \<times> 'w"
  pg_hook :: "string \<Rightarrow> 'w \<Rightarrow> (js_error + unit) \<times> int \<times> 'w"

record manifest =
  mf_plugin_id :: string
  mf_version :: "string option"
  mf_priority :: "int option"
  mf_enabled :: "bool option"

definition new_Plugin :: "manifest \<Rightarrow> (string \<times> rat) option \<Rightarrow> nat \<Rightarrow> nat list
    \<Rightarrow> (build_context \<Rightarrow> 'w \<Rightarrow> (js_error + agent_config list option) \<times> int \<times> 'w)
    \<Rightarrow> (string \<Rightarrow> 'w \<Rightarrow> (js_error + unit) \<times> int \<times> 'w) \<Rightarrow> 'w plugin" where
  "new_Plugin m timeout ob classes register hook = \<lparr>pg_object = ob, pg_classes = classes, pg_id = mf_plugin_id m,
     pg_version = opt_or (mf_version m) ''1.0.0'', pg_priority = opt_or (mf_priority m) 0,
     pg_enabled = opt_or (mf_enabled m) True, pg_timeout = timeout, pg_register = register, pg_hook = hook\<rparr>"

record hook_stats =
  hs_success :: nat
  hs_failure :: nat
  hs_timeout :: nat
  hs_totalMs :: int
  hs_lastError :: string

definition no_stats :: hook_stats where
  "no_stats = \<lparr>hs_success = 0, hs_failure = 0, hs_timeout = 0, hs_totalMs = 0, hs_lastError = []\<rparr>"

record 'w plugin_registry =
  pr_plugins :: "'w plugin list"
  pr_agentConfigs :: "agent_config list"
  pr_initialized :: "string list"
  pr_hookStats :: "(string \<times> (string \<times> hook_stats) list) list"

definition new_PluginRegistry :: "'w plugin_registry" where
  "new_PluginRegistry = \<lparr>pr_plugins = [], pr_agentConfigs = [], pr_initialized = [], pr_hookStats = []\<rparr>"

definition registerBundle :: "'w plugin \<Rightarrow> 'w plugin_registry \<Rightarrow> 'w plugin_registry" where
  "registerBundle p reg =
     (if pg_object p \<in> set (List.map pg_object (pr_plugins reg)) then reg else reg\<lparr>pr_plugins := pr_plugins reg @ [p]\<rparr>)"

definition registerBundles :: "'w plugin list \<Rightarrow> 'w plugin_registry \<Rightarrow> 'w plugin_registry" where
  "registerBundles ps reg = fold registerBundle ps reg"

definition getPlugin :: "'w plugin_registry \<Rightarrow> string \<Rightarrow> 'w plugin option" where
  "getPlugin reg i = find (\<lambda>p. pg_id p = i) (pr_plugins reg)"

text \<open>`localeCompare` orders by a collation key, which is an argument.\<close>

definition getActivePlugins :: "(string \<Rightarrow> 'k::linorder) \<Rightarrow> 'w plugin_registry \<Rightarrow> 'w plugin list" where
  "getActivePlugins collate reg = sort_key (\<lambda>p. (pg_priority p, collate (pg_id p))) (filter pg_enabled (pr_plugins reg))"


section \<open>Running a hook\<close>

definition stats_of :: "(string \<times> (string \<times> hook_stats) list) list \<Rightarrow> string \<Rightarrow> string \<Rightarrow> hook_stats" where
  "stats_of st plugin hook = opt_or (map_of (opt_or (map_of st plugin) []) hook) no_stats"

definition put_stats :: "string \<Rightarrow> string \<Rightarrow> hook_stats
    \<Rightarrow> (string \<times> (string \<times> hook_stats) list) list \<Rightarrow> (string \<times> (string \<times> hook_stats) list) list" where
  "put_stats plugin hook s st = AList.update plugin (AList.update hook s (opt_or (map_of st plugin) [])) st"

definition limit_of :: "'w plugin \<Rightarrow> (string \<times> rat) option" where
  "limit_of p = (case pg_timeout p of Some (t, secs) \<Rightarrow> if 0 < secs then Some (t, secs) else None | None \<Rightarrow> None)"

text \<open>The race of the run with its timer: the outcome, and the milliseconds it took.\<close>

definition raced :: "'w plugin \<Rightarrow> js_error + 'a \<Rightarrow> int \<Rightarrow> (js_error + 'a) \<times> int" where
  "raced p out ms = (case limit_of p of
     Some (t, secs) \<Rightarrow> if secs * 1000 < of_int ms then (Inl (JsError (''hook timeout ('' @ t @ ''s)'')), timer_ms secs) else (out, ms)
   | None \<Rightarrow> (out, ms))"

definition counted :: "js_error + 'a \<Rightarrow> int \<Rightarrow> hook_stats \<Rightarrow> hook_stats" where
  "counted out ms s = (case out of
     Inr _ \<Rightarrow> s\<lparr>hs_success := hs_success s + 1, hs_totalMs := hs_totalMs s + ms\<rparr>
   | Inl e \<Rightarrow> s\<lparr>hs_failure := hs_failure s + 1, hs_lastError := (if error_message e = [] then error_String e else error_message e),
        hs_timeout := hs_timeout s + (if contains_part (error_message e) ''timeout'' then 1 else 0),
        hs_totalMs := hs_totalMs s + ms\<rparr>)"

definition executeHook :: "'w plugin \<Rightarrow> string
    \<Rightarrow> ('w plugin_registry \<times> 'w \<Rightarrow> (js_error + unit) \<times> int \<times> 'w plugin_registry \<times> 'w)
    \<Rightarrow> 'w plugin_registry \<times> 'w \<Rightarrow> bool \<times> 'w plugin_registry \<times> 'w" where
  "executeHook p hookName go s = (case go s of (out, ms, reg, w) \<Rightarrow>
     (case raced p out ms of (out', ms') \<Rightarrow>
        (\<not> isl out', reg\<lparr>pr_hookStats := put_stats (pg_id p) hookName
            (counted out' ms' (stats_of (pr_hookStats reg) (pg_id p) hookName)) (pr_hookStats reg)\<rparr>, w)))"

definition plain_run :: "'w plugin \<Rightarrow> string \<Rightarrow> 'w plugin_registry \<times> 'w \<Rightarrow> (js_error + unit) \<times> int \<times> 'w plugin_registry \<times> 'w" where
  "plain_run p hookName s = (case s of (reg, w) \<Rightarrow> (case pg_hook p hookName w of (out, ms, w') \<Rightarrow> (out, ms, reg, w')))"

text \<open>One of the hooks on every active plugin, in order: the methods `onWorkerStartup` to `onAgentReturnError`.\<close>

definition run_hooks :: "string \<Rightarrow> 'w plugin list \<Rightarrow> 'w plugin_registry \<times> 'w \<Rightarrow> 'w plugin_registry \<times> 'w" where
  "run_hooks hookName ps s = fold (\<lambda>p s. snd (executeHook p hookName (plain_run p hookName) s)) ps s"

definition notifyPlugins :: "(string \<Rightarrow> 'k::linorder) \<Rightarrow> string \<Rightarrow> 'w plugin_registry \<times> 'w \<Rightarrow> 'w plugin_registry \<times> 'w" where
  "notifyPlugins collate hookName s = run_hooks hookName (getActivePlugins collate (fst s)) s"


section \<open>Start-up\<close>

text \<open>What `initializePlugins` runs for one plugin, with the shared build context.\<close>

definition register_run :: "'w plugin \<Rightarrow> build_context \<Rightarrow> 'w plugin_registry \<times> 'w
    \<Rightarrow> build_context \<times> (js_error + unit) \<times> int \<times> 'w plugin_registry \<times> 'w" where
  "register_run p bc s = (case s of (reg, w) \<Rightarrow>
     (let bc1 = freezePrevAgentConfigs bc in
      case pg_register p bc1 w of
        (Inl e, ms, w') \<Rightarrow> (bc1, Inl e, ms, reg, w')
      | (Inr new, ms, w') \<Rightarrow>
          (let bc2 = (case new of None \<Rightarrow> bc1 | Some cs \<Rightarrow> setAgentConfigs cs bc1) in
           case registerAgentConfigs_all (listAgentConfigs bc2) (pr_agentConfigs reg) of (err, cs) \<Rightarrow>
             (bc2, (case err of None \<Rightarrow> Inr () | Some e \<Rightarrow> Inl e), ms, reg\<lparr>pr_agentConfigs := cs\<rparr>, w'))))"

definition initialize_one :: "'w plugin \<Rightarrow> build_context \<times> 'w plugin_registry \<times> 'w \<Rightarrow> build_context \<times> 'w plugin_registry \<times> 'w" where
  "initialize_one p st = (case st of (bc, s) \<Rightarrow>
     if pg_id p \<in> set (pr_initialized (fst s)) then st
     else (case executeHook p ''registerAgentConfigs'' (\<lambda>s. snd (register_run p bc s)) s of (ok, reg, w) \<Rightarrow>
       (fst (register_run p bc s), if ok then reg\<lparr>pr_initialized := pr_initialized reg @ [pg_id p]\<rparr> else reg, w)))"

definition initializePlugins :: "(string \<Rightarrow> 'k::linorder) \<Rightarrow> build_context option
    \<Rightarrow> 'w plugin_registry \<times> 'w \<Rightarrow> 'w plugin_registry \<times> 'w" where
  "initializePlugins collate bc s =
     snd (fold initialize_one (getActivePlugins collate (fst s)) (opt_or bc (new_PluginBuildContext (pr_agentConfigs (fst s))), s))"

text \<open>A class: its number, and what its constructor gives or throws for a new object's number.\<close>

type_synonym 'w plugin_class = "nat \<times> (nat \<Rightarrow> js_error + 'w plugin)"

definition registerPluginClass :: "'w plugin_class \<Rightarrow> 'w plugin_class list \<Rightarrow> 'w plugin_class list" where
  "registerPluginClass k ks = (if fst k \<in> set (List.map fst ks) then ks else ks @ [k])"

definition fresh_object :: "'w plugin_registry \<Rightarrow> nat" where
  "fresh_object reg = Suc (Max (insert 0 (set (List.map pg_object (pr_plugins reg)))))"

definition construct_and_register :: "(nat \<Rightarrow> js_error + 'w plugin) \<Rightarrow> 'w plugin_registry \<Rightarrow> 'w plugin_registry" where
  "construct_and_register new reg = (case new (fresh_object reg) of Inl _ \<Rightarrow> reg | Inr p \<Rightarrow> registerBundle p reg)"

definition discoverPlugins :: "'w plugin_class list \<Rightarrow> 'w plugin_registry \<Rightarrow> 'w plugin_registry" where
  "discoverPlugins classes reg = fold (\<lambda>(k, new) reg.
     if \<exists>p \<in> set (pr_plugins reg). k \<in> set (pg_classes p) then reg else construct_and_register new reg) classes reg"

text \<open>A directory is its entries, or cannot be read; a module is its plugin constructors, or fails to load.\<close>

definition plugin_file :: "string \<Rightarrow> bool" where
  "plugin_file f \<longleftrightarrow> \<not> startsWith f ''__'' \<and> (endsWith f ''.js'' \<or> endsWith f ''.ts'' \<or> endsWith f ''.mjs'' \<or> endsWith f ''.cjs'')"

text \<open>The first constructor that throws ends the module.\<close>

fun load_module :: "(nat \<Rightarrow> js_error + 'w plugin) list \<Rightarrow> 'w plugin_registry \<Rightarrow> 'w plugin_registry" where
  "load_module [] reg = reg"
| "load_module (new # rest) reg = (case new (fresh_object reg) of Inl _ \<Rightarrow> reg | Inr p \<Rightarrow> load_module rest (registerBundle p reg))"

definition loadPluginsFromDir :: "string list option \<Rightarrow> (string \<Rightarrow> js_error + (nat \<Rightarrow> js_error + 'w plugin) list)
    \<Rightarrow> 'w plugin_registry \<Rightarrow> 'w plugin_registry" where
  "loadPluginsFromDir entries load reg = (case entries of
     None \<Rightarrow> reg
   | Some fs \<Rightarrow> fold (\<lambda>f reg. case load f of Inl _ \<Rightarrow> reg | Inr news \<Rightarrow> load_module news reg) (filter plugin_file fs) reg)"

definition applyDefaultHookTimeout :: "string \<times> rat \<Rightarrow> 'w plugin_registry \<Rightarrow> 'w plugin_registry" where
  "applyDefaultHookTimeout limit reg =
     (if snd limit \<le> 0 then reg
      else reg\<lparr>pr_plugins := List.map (\<lambda>p. case pg_timeout p of
          None \<Rightarrow> p\<lparr>pg_timeout := Some limit\<rparr>
        | Some (t, secs) \<Rightarrow> if secs = 0 then p\<lparr>pg_timeout := Some limit\<rparr> else p) (pr_plugins reg)\<rparr>)"

definition onWorkerStartup :: "(string \<Rightarrow> 'k::linorder) \<Rightarrow> 'w plugin_class list \<Rightarrow> 'w plugin_registry \<times> 'w \<Rightarrow> 'w plugin_registry \<times> 'w" where
  "onWorkerStartup collate classes s =
     notifyPlugins collate ''onWorkerStartup'' (initializePlugins collate None (discoverPlugins classes (fst s), snd s))"


section \<open>Statistics\<close>

record stats_item =
  it_stats :: hook_stats
  it_totalRuns :: nat
  it_avgMs :: rat

definition stats_item_of :: "hook_stats \<Rightarrow> stats_item" where
  "stats_item_of s = (let n = hs_success s + hs_failure s in
     \<lparr>it_stats = s, it_totalRuns = n, it_avgMs = (if 0 < n then of_int (hs_totalMs s) / of_nat n else 0)\<rparr>)"

definition getHookStats :: "'w plugin_registry \<Rightarrow> (string \<times> (string \<times> stats_item) list) list" where
  "getHookStats reg = List.map (\<lambda>(p, hs). (p, List.map (\<lambda>(h, s). (h, stats_item_of s)) hs)) (pr_hookStats reg)"

definition resetHookStats :: "string option \<Rightarrow> string option \<Rightarrow> 'w plugin_registry \<Rightarrow> 'w plugin_registry" where
  "resetHookStats plugin hook reg = (case plugin of
     None \<Rightarrow> reg\<lparr>pr_hookStats := []\<rparr>
   | Some p \<Rightarrow>
       if p = [] then reg\<lparr>pr_hookStats := []\<rparr>
       else (case map_of (pr_hookStats reg) p of
          None \<Rightarrow> reg
        | Some hs \<Rightarrow>
            if opt_or hook [] = [] then reg\<lparr>pr_hookStats := AList.delete p (pr_hookStats reg)\<rparr>
            else let hs' = AList.delete (opt_or hook []) hs in
              reg\<lparr>pr_hookStats := (if hs' = [] then AList.delete p (pr_hookStats reg) else AList.update p hs' (pr_hookStats reg))\<rparr>))"


section \<open>Prompts\<close>

record prompt_template =
  pt_content :: string
  pt_variables :: "string list"

definition brace_free :: "char \<Rightarrow> bool" where
  "brace_free c \<longleftrightarrow> c \<noteq> CHR ''{'' \<and> c \<noteq> CHR ''}''"

text \<open>The placeholder a text begins with, and what follows it: a match of the code's pattern at its first character.\<close>

definition placeholder :: "string \<Rightarrow> (string \<times> string) option" where
  "placeholder s = (case s of
     [] \<Rightarrow> None
   | c # cs \<Rightarrow> (let v = takeWhile brace_free cs; rest = dropWhile brace_free cs in
       if c = CHR ''{'' \<and> v \<noteq> [] \<and> rest \<noteq> [] \<and> hd rest = CHR ''}'' then Some (v, tl rest) else None))"

lemma placeholder_shorter:
  assumes "placeholder s = Some (v, rest)" shows "length rest < length s"
proof (cases s)
  case (Cons c cs)
  then show ?thesis
    using assms length_dropWhile_le [of brace_free cs] by (auto simp: placeholder_def Let_def split: if_splits)
qed (use assms in \<open>simp add: placeholder_def\<close>)

text \<open>Text and placeholders in turn.\<close>

datatype piece = Plain char | Var string

function pieces :: "string \<Rightarrow> piece list" where
  "pieces s = (case placeholder s of
     Some (v, rest) \<Rightarrow> Var v # pieces rest
   | None \<Rightarrow> (case s of [] \<Rightarrow> [] | c # cs \<Rightarrow> Plain c # pieces cs))"
  by pat_completeness auto
termination
  by (relation "measure length") (auto dest: placeholder_shorter)

declare pieces.simps [simp del]

definition extractVariables :: "string \<Rightarrow> string list" where
  "extractVariables content = List.map_filter (\<lambda>p. case p of Var v \<Rightarrow> Some v | Plain _ \<Rightarrow> None) (pieces content)"

definition new_PromptTemplate :: "string \<Rightarrow> string list \<Rightarrow> prompt_template" where
  "new_PromptTemplate content vars = \<lparr>pt_content = content, pt_variables = (if vars \<noteq> [] then vars else extractVariables content)\<rparr>"

definition render_piece :: "jobj \<Rightarrow> piece \<Rightarrow> string" where
  "render_piece values p = (case p of
     Plain c \<Rightarrow> [c]
   | Var v \<Rightarrow> js_String (js_nullish (oget values v) (JStr [])))"

definition render :: "prompt_template \<Rightarrow> jobj \<Rightarrow> js_error + string" where
  "render t values =
     (let missing = filter (\<lambda>v. oget values v = None) (pt_variables t) in
      if missing \<noteq> [] then Inl (JsError (''Prompt missing variables: '' @ intercalate '', '' missing))
      else Inr (concat (List.map (render_piece values) (pieces (pt_content t)))))"


section \<open>The manager of configurations\<close>

text \<open>A JavaScript Map: pairs in the order of their first insertion.\<close>

type_synonym config_manager = "(string \<times> agent_config) list"

definition addConfig :: "agent_config \<Rightarrow> config_manager \<Rightarrow> (js_error + bool) \<times> config_manager" where
  "addConfig c m =
     (let i = cf_agent_id c in
      if map_of m i \<noteq> None \<and> cf_on_conflict c = Some ''overwrite'' then (Inr True, AList.update i c m)
      else if map_of m i \<noteq> None \<and> cf_on_conflict c = Some ''error''
      then (Inl (JsError (''AgentConfig with id '' @ [CHR 39] @ i @ [CHR 39] @ '' already exists'')), m)
      else if map_of m i \<noteq> None \<and> cf_on_conflict c = Some ''skip'' then (Inr False, m)
      else (Inr True, AList.update i c m))"

fun addConfigs :: "agent_config list \<Rightarrow> config_manager \<Rightarrow> bool list \<times> config_manager" where
  "addConfigs [] m = ([], m)"
| "addConfigs (c # cs) m = (case addConfig c m of (r, m1) \<Rightarrow>
     (case addConfigs cs m1 of (rs, m2) \<Rightarrow> ((case r of Inl _ \<Rightarrow> False | Inr b \<Rightarrow> b) # rs, m2)))"

text \<open>The constructor and `setConfigs`: an error of one leaves the rest out.\<close>

fun addAll :: "agent_config list \<Rightarrow> config_manager \<Rightarrow> (js_error option) \<times> config_manager" where
  "addAll [] m = (None, m)"
| "addAll (c # cs) m = (case addConfig c m of (Inl e, m1) \<Rightarrow> (Some e, m1) | (Inr _, m1) \<Rightarrow> addAll cs m1)"

definition new_AgentConfigManager :: "agent_config list option \<Rightarrow> js_error + config_manager" where
  "new_AgentConfigManager cs = (case addAll (opt_or cs []) [] of (Some e, _) \<Rightarrow> Inl e | (None, m) \<Rightarrow> Inr m)"

definition setConfigs :: "agent_config list \<Rightarrow> config_manager \<Rightarrow> (js_error option) \<times> config_manager" where
  "setConfigs cs m = addAll cs []"

definition removeConfig :: "string \<Rightarrow> config_manager \<Rightarrow> bool \<times> config_manager" where
  "removeConfig i m = (map_of m i \<noteq> None, AList.delete i m)"

definition removeAllConfigs :: "config_manager \<Rightarrow> config_manager" where
  "removeAllConfigs m = []"

definition getConfig :: "config_manager \<Rightarrow> string \<Rightarrow> agent_config option" where
  "getConfig m i = map_of m i"

definition listConfigs :: "config_manager \<Rightarrow> agent_config list" where
  "listConfigs m = List.map snd m"

definition listAgentIds :: "config_manager \<Rightarrow> string list" where
  "listAgentIds m = List.map fst m"

definition config_count :: "config_manager \<Rightarrow> nat" where
  "config_count m = length m"

definition hasConfig :: "config_manager \<Rightarrow> string \<Rightarrow> bool" where
  "hasConfig m i \<longleftrightarrow> map_of m i \<noteq> None"

definition has_key :: "jobj option \<Rightarrow> string \<Rightarrow> bool" where
  "has_key ob k \<longleftrightarrow> (case ob of None \<Rightarrow> False | Some ps \<Rightarrow> oget ps k \<noteq> None)"

record search_options =
  so_name :: "string option"
  so_toolName :: "string option"
  so_callbackType :: "string option"
  so_hasSubAgents :: "bool option"

text \<open>`lower` is `toLowerCase`, whose tables are not part of the repository.\<close>

definition matches_name :: "(string \<Rightarrow> string) \<Rightarrow> string \<Rightarrow> agent_config \<Rightarrow> bool" where
  "matches_name lower n c \<longleftrightarrow> (opt_or (cf_name c) [] \<noteq> [] \<and> contains_part (lower (opt_or (cf_name c) [])) (lower n))
     \<or> contains_part (lower (cf_agent_id c)) (lower n)"

definition searchConfigs :: "(string \<Rightarrow> string) \<Rightarrow> config_manager \<Rightarrow> search_options \<Rightarrow> agent_config list" where
  "searchConfigs lower m so =
     (let r1 = (if opt_or (so_name so) [] = [] then listConfigs m else filter (matches_name lower (opt_or (so_name so) [])) (listConfigs m));
          r2 = (if opt_or (so_toolName so) [] = [] then r1 else filter (\<lambda>c. has_key (cf_tools c) (opt_or (so_toolName so) [])) r1);
          r3 = (if opt_or (so_callbackType so) [] = [] then r2
                else filter (\<lambda>c. opt_or (so_callbackType so) [] \<in> set (opt_or (cf_callbacks c) [])) r2)
      in case so_hasSubAgents so of
          None \<Rightarrow> r3
        | Some True \<Rightarrow> filter (\<lambda>c. opt_or (cf_sub_agents c) [] \<noteq> []) r3
        | Some False \<Rightarrow> filter (\<lambda>c. opt_or (cf_sub_agents c) [] = []) r3)"

definition getAgentByTool :: "config_manager \<Rightarrow> string \<Rightarrow> agent_config list" where
  "getAgentByTool m k = filter (\<lambda>c. has_key (cf_tools c) k) (listConfigs m)"

definition getAgentBySkill :: "config_manager \<Rightarrow> string \<Rightarrow> agent_config list" where
  "getAgentBySkill m k = filter (\<lambda>c. has_key (cf_skills c) k) (listConfigs m)"

definition getAgentByKnowledgeBase :: "config_manager \<Rightarrow> string \<Rightarrow> agent_config list" where
  "getAgentByKnowledgeBase m k = filter (\<lambda>c. has_key (cf_knowledge_bases c) k) (listConfigs m)"

definition getSubAgents :: "config_manager \<Rightarrow> string \<Rightarrow> agent_config list" where
  "getSubAgents m i = (case map_of m i of
     None \<Rightarrow> []
   | Some c \<Rightarrow> List.map_filter (getConfig m) (opt_or (cf_sub_agents c) []))"

text \<open>`updates` is the spread of a partial configuration over another.\<close>

definition updateConfig :: "string \<Rightarrow> (agent_config \<Rightarrow> agent_config) \<Rightarrow> config_manager \<Rightarrow> agent_config option \<times> config_manager" where
  "updateConfig i updates m = (case map_of m i of
     None \<Rightarrow> (None, m)
   | Some c \<Rightarrow> (Some (updates c), AList.update i (updates c) m))"

definition manager_toDict :: "config_manager \<Rightarrow> jobj" where
  "manager_toDict m = [(''agent_count'', JNum (int (config_count m))), (''agent_ids'', JArr (List.map JStr (listAgentIds m)))]"

end
