(* ===== verification/PluginProperties.thy ===== *)
theory PluginProperties
  imports Plugins "HOL-Library.Multiset"
begin

text \<open>
  What the plugin registry guarantees: every enabled plugin is told of every event,
  in order, whatever the others do; the registered configurations have distinct,
  nonempty ids; and what the shared build context does to plugins without
  configurations of their own.
\<close>

section \<open>Statistics\<close>

lemma stats_of_put [simp]:
  "stats_of (put_stats p h s st) p' h' = (if p' = p \<and> h' = h then s else stats_of st p' h')"
  by (auto simp: stats_of_def put_stats_def update_conv' opt_or_def split: option.splits)

text \<open>
  How a call of a plugin ended: whether it took longer than the plugin's limit,
  if it has one; whether it is a success; and whether it counts as a timeout.
\<close>

definition overran :: "'w plugin \<Rightarrow> int \<Rightarrow> bool" where
  "overran p ms \<longleftrightarrow> (\<exists>t secs. pg_timeout p = Some (t, secs) \<and> 0 < secs \<and> secs * 1000 < of_int ms)"

definition succeeded :: "'w plugin \<times> (js_error + unit) \<times> int \<Rightarrow> bool" where
  "succeeded c = (case c of (p, out, ms) \<Rightarrow> \<not> overran p ms \<and> out = Inr ())"

definition counts_as_timeout :: "'w plugin \<times> (js_error + unit) \<times> int \<Rightarrow> bool" where
  "counts_as_timeout c = (case c of (p, out, ms) \<Rightarrow> overran p ms \<or> (\<exists>e. out = Inl e \<and> contains_part (error_message e) ''timeout''))"

lemma timeout_text: "contains_part (''hook timeout ('' @ t) ''timeout''"
  unfolding contains_part_def by (rule bexI [of _ 5]) (simp_all add: startsWith_def del: upt_Suc)

lemma raced_late:
  assumes "overran p ms"
  shows "\<exists>e ms'. raced p out ms = (Inl e, ms') \<and> contains_part (error_message e) ''timeout''"
proof -
  from assms obtain t secs where "limit_of p = Some (t, secs)" "secs * 1000 < of_int ms" by (auto simp: overran_def limit_of_def)
  moreover have "error_message (JsError (''hook timeout ('' @ t @ ''s)'')) = ''hook timeout ('' @ (t @ ''s)'')"
    by (simp add: error_message_def)
  ultimately show ?thesis using timeout_text [of "t @ ''s)''"] by (simp add: raced_def)
qed

lemma raced_in_time: "\<not> overran p ms \<Longrightarrow> raced p out ms = (out, ms)"
  by (auto simp: overran_def raced_def limit_of_def split: option.splits prod.splits)

lemma counted_raced:
  fixes out :: "js_error + unit"
  assumes "counted (fst (raced p out ms)) (snd (raced p out ms)) s = s'"
  shows "hs_success s' = hs_success s + (if succeeded (p, out, ms) then 1 else 0)
   \<and> hs_failure s' = hs_failure s + (if succeeded (p, out, ms) then 0 else 1)
   \<and> hs_timeout s' = hs_timeout s + (if counts_as_timeout (p, out, ms) then 1 else 0)"
proof (cases "overran p ms")
  case True
  from raced_late [OF this] obtain e ms' where "raced p out ms = (Inl e, ms')" "contains_part (error_message e) ''timeout''" by blast
  then show ?thesis using True assms by (auto simp: counted_def succeeded_def counts_as_timeout_def)
next
  case False
  then show ?thesis
    using assms by (cases out) (auto simp: raced_in_time counted_def succeeded_def counts_as_timeout_def)
qed

lemma executeHook_eq:
  assumes "go s = (out, ms, reg', w')"
  shows "executeHook p h go s = (\<not> isl (fst (raced p out ms)), reg'\<lparr>pr_hookStats := put_stats (pg_id p) h
      (counted (fst (raced p out ms)) (snd (raced p out ms)) (stats_of (pr_hookStats reg') (pg_id p) h)) (pr_hookStats reg')\<rparr>, w')"
  using assms by (simp add: executeHook_def split: prod.splits)


section \<open>Hooks\<close>

text \<open>The calls of one event: each plugin once, in order, in the world the one before it left; and that world.\<close>

fun hook_calls :: "string \<Rightarrow> 'w plugin list \<Rightarrow> 'w \<Rightarrow> ('w plugin \<times> (js_error + unit) \<times> int) list" where
  "hook_calls h [] w = []"
| "hook_calls h (p # ps) w = (case pg_hook p h w of (out, ms, w') \<Rightarrow> (p, out, ms) # hook_calls h ps w')"

definition hooks_world :: "string \<Rightarrow> 'w plugin list \<Rightarrow> 'w \<Rightarrow> 'w" where
  "hooks_world h ps w = fold (\<lambda>p w. snd (snd (pg_hook p h w))) ps w"

text \<open>How often the calls under one plugin's name had a given end.\<close>

definition runs_ending :: "('w plugin \<times> (js_error + unit) \<times> int \<Rightarrow> bool) \<Rightarrow> string \<Rightarrow> ('w plugin \<times> (js_error + unit) \<times> int) list \<Rightarrow> nat" where
  "runs_ending P n cs = length (filter (\<lambda>c. pg_id (fst c) = n \<and> P c) cs)"

lemma runs_ending_simps [simp]:
  "runs_ending P n [] = 0" "runs_ending P n (c # cs) = (if pg_id (fst c) = n \<and> P c then 1 else 0) + runs_ending P n cs"
  by (simp_all add: runs_ending_def)

lemma run_hooks_effect:
  "\<exists>st. run_hooks h ps (reg, w) = (reg\<lparr>pr_hookStats := st\<rparr>, hooks_world h ps w)
     \<and> (\<forall>n k. k \<noteq> h \<longrightarrow> stats_of st n k = stats_of (pr_hookStats reg) n k)
     \<and> (\<forall>n. hs_success (stats_of st n h) = hs_success (stats_of (pr_hookStats reg) n h) + runs_ending succeeded n (hook_calls h ps w)
        \<and> hs_failure (stats_of st n h) = hs_failure (stats_of (pr_hookStats reg) n h) + runs_ending (\<lambda>c. \<not> succeeded c) n (hook_calls h ps w)
        \<and> hs_timeout (stats_of st n h) = hs_timeout (stats_of (pr_hookStats reg) n h) + runs_ending counts_as_timeout n (hook_calls h ps w))"
proof (induction ps arbitrary: reg w)
  case (Cons p ps)
  obtain out ms w' where run: "pg_hook p h w = (out, ms, w')" by (cases "pg_hook p h w")
  then have go: "plain_run p h (reg, w) = (out, ms, reg, w')" by (simp add: plain_run_def)
  define s1 where "s1 = counted (fst (raced p out ms)) (snd (raced p out ms)) (stats_of (pr_hookStats reg) (pg_id p) h)"
  define st1 where "st1 = put_stats (pg_id p) h s1 (pr_hookStats reg)"
  have one: "snd (executeHook p h (plain_run p h) (reg, w)) = (reg\<lparr>pr_hookStats := st1\<rparr>, w')"
    using executeHook_eq [where go = "plain_run p h" and h = h and p = p, OF go] by (simp add: st1_def s1_def)
  note booked = counted_raced [OF s1_def [symmetric]]
  from Cons.IH [of "reg\<lparr>pr_hookStats := st1\<rparr>" w'] obtain st where
    "run_hooks h ps (reg\<lparr>pr_hookStats := st1\<rparr>, w') = (reg\<lparr>pr_hookStats := st\<rparr>, hooks_world h ps w')"
    "\<And>n k. k \<noteq> h \<Longrightarrow> stats_of st n k = stats_of st1 n k"
    "\<And>n. hs_success (stats_of st n h) = hs_success (stats_of st1 n h) + runs_ending succeeded n (hook_calls h ps w')"
    "\<And>n. hs_failure (stats_of st n h) = hs_failure (stats_of st1 n h) + runs_ending (\<lambda>c. \<not> succeeded c) n (hook_calls h ps w')"
    "\<And>n. hs_timeout (stats_of st n h) = hs_timeout (stats_of st1 n h) + runs_ending counts_as_timeout n (hook_calls h ps w')"
    by auto
  then show ?case
    using one run booked by (intro exI [of _ st]) (simp add: run_hooks_def hooks_world_def st1_def)
next
  case Nil
  show ?case by (rule exI [of _ "pr_hookStats reg"]) (simp add: run_hooks_def hooks_world_def)
qed

lemma active_plugins:
  "mset (getActivePlugins collate reg) = filter_mset pg_enabled (mset (pr_plugins reg))"
  "sorted (List.map (\<lambda>p. (pg_priority p, collate (pg_id p))) (getActivePlugins collate reg))"
  by (simp_all add: getActivePlugins_def)

text \<open>
  C34. Every enabled plugin hears of every event, once. Whatever the plugins
  throw and however long they take, an event calls exactly the enabled plugins,
  each as often as it is registered, by priority and then by name, each in the world
  the one before it left. Each call is counted once under the plugin's name and the
  event: as a success if it returned within the plugin's limit, else as a
  failure, and also as a timeout if it overran the limit or threw an error that
  speaks of one. No statistics of other events change, and nothing else of the
  registry.
\<close>

theorem hooks_reach_all:
  "\<exists>st ps. notifyPlugins collate h (reg, w) = (reg\<lparr>pr_hookStats := st\<rparr>, hooks_world h ps w)
     \<and> mset ps = filter_mset pg_enabled (mset (pr_plugins reg)) \<and> sorted (List.map (\<lambda>p. (pg_priority p, collate (pg_id p))) ps)
     \<and> (\<forall>n k. k \<noteq> h \<longrightarrow> stats_of st n k = stats_of (pr_hookStats reg) n k)
     \<and> (\<forall>n. hs_success (stats_of st n h) = hs_success (stats_of (pr_hookStats reg) n h) + runs_ending succeeded n (hook_calls h ps w)
        \<and> hs_failure (stats_of st n h) = hs_failure (stats_of (pr_hookStats reg) n h) + runs_ending (\<lambda>c. \<not> succeeded c) n (hook_calls h ps w)
        \<and> hs_timeout (stats_of st n h) = hs_timeout (stats_of (pr_hookStats reg) n h) + runs_ending counts_as_timeout n (hook_calls h ps w))"
proof -
  from run_hooks_effect [of h "getActivePlugins collate reg" reg w] obtain st where
    "run_hooks h (getActivePlugins collate reg) (reg, w) = (reg\<lparr>pr_hookStats := st\<rparr>, hooks_world h (getActivePlugins collate reg) w)"
    "\<And>n k. k \<noteq> h \<Longrightarrow> stats_of st n k = stats_of (pr_hookStats reg) n k"
    "\<And>n. hs_success (stats_of st n h) = hs_success (stats_of (pr_hookStats reg) n h) + runs_ending succeeded n (hook_calls h (getActivePlugins collate reg) w)
        \<and> hs_failure (stats_of st n h) = hs_failure (stats_of (pr_hookStats reg) n h) + runs_ending (\<lambda>c. \<not> succeeded c) n (hook_calls h (getActivePlugins collate reg) w)
        \<and> hs_timeout (stats_of st n h) = hs_timeout (stats_of (pr_hookStats reg) n h) + runs_ending counts_as_timeout n (hook_calls h (getActivePlugins collate reg) w)"
    by blast
  then show ?thesis
    using active_plugins [where collate = collate and reg = reg]
    by (intro exI [of _ st] exI [of _ "getActivePlugins collate reg"]) (simp add: notifyPlugins_def)
qed


section \<open>Configurations\<close>

definition configs_ok :: "agent_config list \<Rightarrow> bool" where
  "configs_ok cs \<longleftrightarrow> distinct (List.map cf_agent_id cs) \<and> (\<forall>c \<in> set cs. cf_agent_id c \<noteq> [])"

lemma normalize_id [simp]: "cf_agent_id (normalizeAgentConfig c) = cf_agent_id c"
  by (simp add: normalizeAgentConfig_def)

lemma find_config: "findAgentConfig cs i = None \<longleftrightarrow> i \<notin> cf_agent_id ` set cs"
  by (auto simp: findAgentConfig_def find_None_iff)

lemma distinct_filtered: "distinct (List.map f xs) \<Longrightarrow> distinct (List.map f (filter P xs))"
  by (induction xs) auto

lemma registerAgentConfig_ok:
  assumes "configs_ok cs" "registerAgentConfig c cs = Inr cs'"
  shows "configs_ok cs'"
  using assms
  by (auto simp: registerAgentConfig_def Let_def validateAgentConfig_def configs_ok_def find_config distinct_filtered
      split: sum.splits option.splits if_splits)

lemma registerAgentConfigs_all_ok: "configs_ok cs \<Longrightarrow> configs_ok (snd (registerAgentConfigs_all xs cs))"
  by (induction xs cs rule: registerAgentConfigs_all.induct) (auto split: sum.splits intro: registerAgentConfig_ok)

lemma register_run_ok:
  assumes "configs_ok (pr_agentConfigs reg)" "register_run p bc (reg, w) = (bc', out, ms, reg', w')"
  shows "configs_ok (pr_agentConfigs reg')"
  using assms registerAgentConfigs_all_ok [OF assms(1)]
  by (auto simp: register_run_def Let_def split: prod.splits sum.splits) (metis snd_conv)+

lemma initialize_one_ok:
  assumes "configs_ok (pr_agentConfigs (fst (snd st)))"
  shows "configs_ok (pr_agentConfigs (fst (snd (initialize_one p st))))"
proof -
  obtain bc reg w where st: "st = (bc, reg, w)" by (cases st)
  obtain bc' out ms reg' w' where run: "register_run p bc (reg, w) = (bc', out, ms, reg', w')"
    by (cases "register_run p bc (reg, w)")
  have "snd (register_run p bc (reg, w)) = (out, ms, reg', w')" using run by simp
  from executeHook_eq [where go = "\<lambda>s. snd (register_run p bc s)" and h = "''registerAgentConfigs''" and p = p, OF this]
    register_run_ok [OF _ run] assms
  show ?thesis unfolding st by (simp add: initialize_one_def)
qed

text \<open>
  Agent ids are unique. From a registry whose configurations have distinct,
  nonempty ids, starting up plugins, whatever configurations they bring with
  whatever conflict strategies and whatever they throw, ends in one.
\<close>

lemma agent_ids_unique:
  assumes "configs_ok (pr_agentConfigs reg)"
  shows "configs_ok (pr_agentConfigs (fst (initializePlugins collate bc (reg, w))))"
proof -
  have "configs_ok (pr_agentConfigs (fst (snd (fold initialize_one ps st))))"
    if "configs_ok (pr_agentConfigs (fst (snd st)))" for ps :: "'a plugin list" and st
    using that by (induction ps arbitrary: st) (simp_all add: initialize_one_ok)
  then show ?thesis using assms by (simp add: initializePlugins_def)
qed



section \<open>Samples\<close>

definition sample_config :: agent_config where
  "sample_config = \<lparr>cf_agent_id = ''seed'', cf_name = None, cf_description = None, cf_prompts = None, cf_tools = None,
     cf_skills = None, cf_callbacks = None, cf_knowledge_bases = None, cf_sub_agents = None, cf_on_conflict = None\<rparr>"

definition sample_plugin :: "string \<Rightarrow> agent_config list option \<Rightarrow> nat \<Rightarrow> unit plugin" where
  "sample_plugin n cs i = new_Plugin \<lparr>mf_plugin_id = n, mf_version = None, mf_priority = None, mf_enabled = None\<rparr> None i []
     (\<lambda>bc w. (Inr cs, 1, w)) (\<lambda>h w. (Inr (), 1, w))"

text \<open>One plugin that brings a configuration, and one that brings none.\<close>

definition seed_plugin :: "unit plugin" where "seed_plugin = sample_plugin ''a'' (Some [sample_config]) 1"
definition bare_plugin :: "unit plugin" where "bare_plugin = sample_plugin ''b'' None 2"

definition sample_plugins :: "unit plugin_registry" where
  "sample_plugins = registerBundles [seed_plugin, bare_plugin] new_PluginRegistry"

theorem hooks_reach_all_witness:
  "\<exists>st ps. notifyPlugins length ''onTaskStart'' (sample_plugins, ()) = (sample_plugins\<lparr>pr_hookStats := st\<rparr>, ())
     \<and> mset ps = {#seed_plugin, bare_plugin#} \<and> stats_of st ''a'' ''onTaskError'' = no_stats
     \<and> hs_success (stats_of st ''a'' ''onTaskStart'') = runs_ending succeeded ''a'' (hook_calls ''onTaskStart'' ps ())"
proof -
  have reg: "pr_plugins sample_plugins = [seed_plugin, bare_plugin]" "pr_hookStats sample_plugins = []"
    "pg_enabled seed_plugin" "pg_enabled bare_plugin"
    by (simp_all add: sample_plugins_def registerBundles_def registerBundle_def new_PluginRegistry_def seed_plugin_def bare_plugin_def
        sample_plugin_def new_Plugin_def opt_or_def)
  have none: "stats_of [] n k = no_stats" "hs_success no_stats = 0" for n k by (simp_all add: stats_of_def opt_or_def no_stats_def)
  let ?reg = sample_plugins and ?h = "''onTaskStart''"
  obtain st ps where booked: "notifyPlugins length ?h (?reg, ()) = (?reg\<lparr>pr_hookStats := st\<rparr>, hooks_world ?h ps ())
     \<and> mset ps = filter_mset pg_enabled (mset (pr_plugins ?reg)) \<and> sorted (List.map (\<lambda>p. (pg_priority p, length (pg_id p))) ps)
     \<and> (\<forall>n k. k \<noteq> ?h \<longrightarrow> stats_of st n k = stats_of (pr_hookStats ?reg) n k)
     \<and> (\<forall>n. hs_success (stats_of st n ?h) = hs_success (stats_of (pr_hookStats ?reg) n ?h) + runs_ending succeeded n (hook_calls ?h ps ())
        \<and> hs_failure (stats_of st n ?h) = hs_failure (stats_of (pr_hookStats ?reg) n ?h) + runs_ending (\<lambda>c. \<not> succeeded c) n (hook_calls ?h ps ())
        \<and> hs_timeout (stats_of st n ?h) = hs_timeout (stats_of (pr_hookStats ?reg) n ?h) + runs_ending counts_as_timeout n (hook_calls ?h ps ()))"
    using hooks_reach_all [of length ?h ?reg "()"] by (elim exE) (rule that)
  note world = booked [THEN conjunct1] and called = booked [THEN conjunct2, THEN conjunct1]
    and others = booked [THEN conjunct2, THEN conjunct2, THEN conjunct2, THEN conjunct1]
    and ends = booked [THEN conjunct2, THEN conjunct2, THEN conjunct2, THEN conjunct2]
  have "mset ps = {#seed_plugin, bare_plugin#}"
    using called reg(3,4) unfolding reg(1) by simp
  moreover have "stats_of st ''a'' ''onTaskError'' = no_stats"
    using others [THEN spec [of _ "''a''"], THEN spec [of _ "''onTaskError''"]] unfolding reg(2) none by simp
  moreover have "hs_success (stats_of st ''a'' ?h) = runs_ending succeeded ''a'' (hook_calls ?h ps ())"
    using ends [THEN spec [of _ "''a''"], THEN conjunct1] unfolding reg(2) none by simp
  ultimately show ?thesis using world by (intro exI [of _ st] exI [of _ ps] conjI) simp_all
qed

lemma agent_ids_unique_example:
  "configs_ok (pr_agentConfigs (fst (initializePlugins length None (new_PluginRegistry \<lparr>pr_plugins := [sample_plugin ''a'' (Some [sample_config, sample_config]) 1]\<rparr>, ()))))"
  by (rule agent_ids_unique) (simp add: new_PluginRegistry_def configs_ok_def)


section \<open>Plugins without configurations\<close>

definition strict :: "agent_config \<Rightarrow> bool" where
  "strict c \<longleftrightarrow> cf_on_conflict c = None \<or> cf_on_conflict c = Some ''error''"

lemma registered_id_stays:
  "registerAgentConfig c cs = Inr cs' \<Longrightarrow> i \<in> cf_agent_id ` set cs \<Longrightarrow> i \<in> cf_agent_id ` set cs'"
  by (auto simp: registerAgentConfig_def Let_def image_iff split: sum.splits option.splits if_splits)

lemma strict_conflict:
  "strict c \<Longrightarrow> cf_agent_id c \<in> cf_agent_id ` set cs \<Longrightarrow> isl (registerAgentConfig c cs)"
  using find_config [of cs "cf_agent_id c"]
  by (auto simp: registerAgentConfig_def Let_def validateAgentConfig_def strict_def normalizeAgentConfig_def opt_or_def)

lemma strict_conflict_all:
  "c \<in> set xs \<Longrightarrow> strict c \<Longrightarrow> cf_agent_id c \<in> cf_agent_id ` set cs \<Longrightarrow> fst (registerAgentConfigs_all xs cs) \<noteq> None"
proof (induction xs cs rule: registerAgentConfigs_all.induct)
  case (2 x xs cs)
  show ?case
  proof (cases "registerAgentConfig x cs")
    case (Inr cs')
    then have "x \<noteq> c" using strict_conflict [OF 2(3,4)] by auto
    then show ?thesis using 2 Inr registered_id_stays [OF Inr] by auto
  qed simp
qed simp

text \<open>
  A plugin that brings no configurations pays for those before it. The build
  context is shared, and what it lists is registered again after every plugin:
  if it lists a configuration of the default conflict strategy that is
  registered by now, as it does once a plugin has brought one, then a later
  plugin that returns null fails its hook, and is not marked as initialized.
\<close>

lemma later_plugin_blamed:
  assumes listed: "c \<in> set (bc_agentConfigs bc)" "strict c" "cf_agent_id c \<in> cf_agent_id ` set (pr_agentConfigs reg)"
    and none: "pg_register p (freezePrevAgentConfigs bc) w = (Inr None, ms, w')"
    and before: "pg_id p \<notin> set (pr_initialized reg)"
  shows "\<exists>bc' reg'. initialize_one p (bc, reg, w) = (bc', reg', w') \<and> pg_id p \<notin> set (pr_initialized reg')
    \<and> hs_failure (stats_of (pr_hookStats reg') (pg_id p) ''registerAgentConfigs'')
      = hs_failure (stats_of (pr_hookStats reg) (pg_id p) ''registerAgentConfigs'') + 1"
proof -
  obtain err cs where all: "registerAgentConfigs_all (bc_agentConfigs bc) (pr_agentConfigs reg) = (Some err, cs)"
    using strict_conflict_all [OF listed] by (cases "registerAgentConfigs_all (bc_agentConfigs bc) (pr_agentConfigs reg)") auto
  have run: "register_run p bc (reg, w) = (freezePrevAgentConfigs bc, Inl err, ms, reg\<lparr>pr_agentConfigs := cs\<rparr>, w')"
    using all none by (simp add: register_run_def Let_def listAgentConfigs_def freezePrevAgentConfigs_def)
  then have "snd (register_run p bc (reg, w)) = (Inl err, ms, reg\<lparr>pr_agentConfigs := cs\<rparr>, w')" by simp
  moreover have "\<exists>e ms'. raced p (Inl err :: js_error + unit) ms = (Inl e, ms')"
    by (simp add: raced_def split: option.splits prod.splits)
  then obtain e ms' where "raced p (Inl err :: js_error + unit) ms = (Inl e, ms')" by blast
  ultimately have "executeHook p ''registerAgentConfigs'' (\<lambda>s. snd (register_run p bc s)) (reg, w)
      = (False, reg\<lparr>pr_agentConfigs := cs, pr_hookStats := put_stats (pg_id p) ''registerAgentConfigs''
          (counted (Inl e :: js_error + unit) ms' (stats_of (pr_hookStats reg) (pg_id p) ''registerAgentConfigs'')) (pr_hookStats reg)\<rparr>, w')"
    by (simp add: executeHook_def)
  then show ?thesis using before run by (simp add: initialize_one_def counted_def)
qed

lemma later_plugin_blamed_example:
  "\<exists>bc reg. initialize_one bare_plugin (initialize_one seed_plugin (new_PluginBuildContext [], sample_plugins, ()))
       = (bc, reg, ()) \<and> ''b'' \<notin> set (pr_initialized reg)"
proof -
  have seed: "initialize_one seed_plugin (new_PluginBuildContext [], sample_plugins, ())
      = (\<lparr>bc_agentConfigs = [sample_config], bc_prevAgentConfigs = []\<rparr>,
         sample_plugins\<lparr>pr_agentConfigs := [normalizeAgentConfig sample_config], pr_initialized := [''a''],
           pr_hookStats := [(''a'', [(''registerAgentConfigs'', no_stats\<lparr>hs_success := 1, hs_totalMs := 1\<rparr>)])]\<rparr>, ())"
    by (simp add: initialize_one_def seed_plugin_def sample_plugin_def new_Plugin_def executeHook_def register_run_def
        sample_plugins_def registerBundles_def registerBundle_def new_PluginRegistry_def new_PluginBuildContext_def
        freezePrevAgentConfigs_def setAgentConfigs_def listAgentConfigs_def registerAgentConfig_def validateAgentConfig_def
        findAgentConfig_def raced_def limit_of_def counted_def put_stats_def stats_of_def opt_or_def no_stats_def
        bare_plugin_def Let_def) (simp add: sample_config_def)
  have "pg_register bare_plugin (freezePrevAgentConfigs \<lparr>bc_agentConfigs = [sample_config], bc_prevAgentConfigs = []\<rparr>) () = (Inr None, 1, ())"
    "pg_id bare_plugin = ''b''" "strict sample_config"
    by (simp_all add: bare_plugin_def sample_plugin_def new_Plugin_def strict_def sample_config_def)
  with later_plugin_blamed [OF _ \<open>strict sample_config\<close> _ this(1), of "sample_plugins\<lparr>pr_agentConfigs := [normalizeAgentConfig sample_config],
      pr_initialized := [''a''], pr_hookStats := [(''a'', [(''registerAgentConfigs'', no_stats\<lparr>hs_success := 1, hs_totalMs := 1\<rparr>)])]\<rparr>"]
  show ?thesis unfolding seed by auto
qed

end
