(* ===== verification/SpanProperties.thy ===== *)
theory SpanProperties
  imports SpanRecorder DiscoveryProperties
begin

text \<open>
  What the span recorder guarantees: a bounded memory of the traces it has seen, no
  error to whoever records a span, and in Redis a summary of the trace whose start
  is that of its earliest span.
\<close>

section \<open>Bounded tracking\<close>

definition tracking_ok :: "recorder \<Rightarrow> bool" where
  "tracking_ok r \<longleftrightarrow> distinct (List.map fst (sr_spansByTrace r)) \<and> int (length (sr_spansByTrace r)) \<le> sr_trackingMaxSize r
     \<and> (\<forall>n \<in> snd ` set (sr_spansByTrace r). n \<le> oc_maxSpansPerTrace (sr_config r)) \<and> 2 \<le> sr_trackingMaxSize r"

lemma length_update_le: "length (AList.update k v xs) \<le> Suc (length xs)"
  by (induction xs) auto

lemma room_made:
  assumes "tracking_ok r"
  shows "int (length (make_room r)) < sr_trackingMaxSize r" "distinct (List.map fst (make_room r))"
    "set (make_room r) \<subseteq> set (sr_spansByTrace r)"
proof -
  have "set (List.map fst (drop n xs)) \<subseteq> set (List.map fst xs)" for n and xs :: "(string \<times> int) list"
    using set_drop_subset by fastforce
  show "int (length (make_room r)) < sr_trackingMaxSize r"
    using assms by (auto simp: make_room_def Let_def tracking_ok_def)
  show "distinct (List.map fst (make_room r))"
    using assms by (auto simp: make_room_def Let_def tracking_ok_def drop_map [symmetric])
  show "set (make_room r) \<subseteq> set (sr_spansByTrace r)"
    by (auto simp: make_room_def Let_def dest: in_set_dropD)
qed

lemma shouldRecord_config [simp]:
  "sr_config (snd (shouldRecord md5 r sp)) = sr_config r"
  "sr_trackingMaxSize (snd (shouldRecord md5 r sp)) = sr_trackingMaxSize r"
  by (simp_all add: shouldRecord_def Let_def)

lemma shouldRecord_ok:
  assumes "tracking_ok r"
  shows "tracking_ok (snd (shouldRecord md5 r sp))"
proof -
  let ?t = "span_text sp ''traceId''"
  have "tracking_ok (r\<lparr>sr_spansByTrace := AList.update ?t (n + 1) (make_room r)\<rparr>)" if "n < oc_maxSpansPerTrace (sr_config r)" for n
  proof -
    have "int (length (AList.update ?t (n + 1) (make_room r))) \<le> sr_trackingMaxSize r"
      using room_made(1) [OF assms] length_update_le [of ?t "n + 1" "make_room r"] by linarith
    moreover have "m \<le> oc_maxSpansPerTrace (sr_config r)" if "(k, m) \<in> set (AList.update ?t (n + 1) (make_room r))" for k m
    proof (cases "k = ?t")
      case True
      have "map_of (AList.update ?t (n + 1) (make_room r)) ?t = Some m"
        using that True room_made(2) [OF assms] by (simp add: distinct_update)
      then show ?thesis using \<open>n < _\<close> by (simp add: update_conv')
    next
      case False
      have "map_of (AList.update ?t (n + 1) (make_room r)) k = Some m"
        using that room_made(2) [OF assms] by (simp add: distinct_update)
      then have "(k, m) \<in> set (sr_spansByTrace r)"
        using False room_made(3) [OF assms] by (auto simp: update_conv' dest: map_of_SomeD)
      then show ?thesis using assms by (force simp: tracking_ok_def)
    qed
    ultimately show ?thesis
      using assms room_made(2) [OF assms] by (auto simp: tracking_ok_def distinct_update)
  qed
  then show ?thesis using assms by (auto simp: shouldRecord_def Let_def)
qed

text \<open>
  C39. The recorder's memory is bounded. Whatever spans are recorded with a
  configuration read from the environment, whatever that holds, the map of the
  traces has one entry per trace, at most 10000 entries (or twenty times the limit
  per trace, when that is less), and no count above the limit per trace.
\<close>

theorem recorder_bounded:
  "(let r = fold (\<lambda>sp r. snd (shouldRecord md5 r sp)) spans (new_SpanRecorder (buildObservabilityConfig env) exporters sch);
        limit = oc_maxSpansPerTrace (buildObservabilityConfig env)
    in distinct (List.map fst (sr_spansByTrace r)) \<and> int (length (sr_spansByTrace r)) \<le> min 10000 (limit * 20)
       \<and> snd ` set (sr_spansByTrace r) \<subseteq> {..limit})"
proof -
  let ?cfg = "buildObservabilityConfig env"
  have keep: "tracking_ok (fold (\<lambda>sp r. snd (shouldRecord md5 r sp)) spans r)
      \<and> sr_config (fold (\<lambda>sp r. snd (shouldRecord md5 r sp)) spans r) = sr_config r
      \<and> sr_trackingMaxSize (fold (\<lambda>sp r. snd (shouldRecord md5 r sp)) spans r) = sr_trackingMaxSize r" if "tracking_ok r" for r
    using that by (induction spans arbitrary: r) (simp_all add: shouldRecord_ok)
  have "1 \<le> oc_maxSpansPerTrace ?cfg" by (simp add: buildObservabilityConfig_def Let_def)
  then have "tracking_ok (new_SpanRecorder ?cfg exporters sch)" by (simp add: tracking_ok_def new_SpanRecorder_def)
  note kept = keep [OF this]
  define r where "r = fold (\<lambda>sp r. snd (shouldRecord md5 r sp)) spans (new_SpanRecorder ?cfg exporters sch)"
  have "tracking_ok r" "sr_config r = ?cfg" "sr_trackingMaxSize r = min 10000 (oc_maxSpansPerTrace ?cfg * 20)"
    using kept by (simp_all add: r_def) (simp_all add: new_SpanRecorder_def)
  then show ?thesis unfolding Let_def r_def [symmetric] by (simp add: tracking_ok_def image_subset_iff)
qed


section \<open>Recording does not fail\<close>

lemma recording_never_fails:
  "\<exists>\<sigma>. act_run exec (recordSpan md5 sp) r s = ((Inr (), snd (shouldRecord md5 r sp)), \<sigma>)"
proof -
  have "wp exec (forP xs (\<lambda>x. catchP (x sp) (\<lambda>_. Ret ()))) (\<lambda>_ _. True) (\<lambda>_ _. False) \<sigma>" for xs :: "(span \<Rightarrow> unit prog) list" and \<sigma>
    by (rule wp_forP_inv, rule wp_caught, rule TrueI, rule TrueI)
  then have "wpA exec (recordSpan md5 sp) (\<lambda>_ r' _. r' = snd (shouldRecord md5 r sp)) (\<lambda>_ _ _. False) r (s, [])"
    unfolding recordSpan_def wpA_bindA wpA_readA
    by (cases "shouldRecord md5 r sp") (auto intro: wp_mono)
  from act_run_total [OF this] show ?thesis by (metis (full_types) old.unit.exhaust)
qed


section \<open>The summary of a trace\<close>

lemma js_parseInt_nat_str: "0 \<le> n \<Longrightarrow> js_parseInt (int_str n) = Some n"
proof -
  assume "0 \<le> n"
  then have t: "int_str n = nat_str (nat n)" by (simp add: int_str_def)
  have all: "takeWhile is_digit (nat_str m) = nat_str m" for m
    using nat_str_digits [of m] by (simp add: takeWhile_eq_all_conv list_all_iff)
  have first: "\<not> startsWith (nat_str m) [c]" if "\<not> is_digit c" for c m
    using that nat_str_digits [of m] by (cases "nat_str m") (auto simp: startsWith_def)
  show ?thesis
    using \<open>0 \<le> n\<close> first by (simp add: t js_parseInt_def Let_def all is_digit_def)
qed

text \<open>Commands that write hashes, and what they do to them.\<close>

fun hash_effect :: "cmd \<Rightarrow> (key \<Rightarrow> string \<Rightarrow> string option) \<Rightarrow> key \<Rightarrow> string \<Rightarrow> string option" where
  "hash_effect (Hset k f x) h = h(k := (h k)(f \<mapsto> x))"
| "hash_effect _ h = h"

fun hash_cmd :: "cmd \<Rightarrow> bool" where
  "hash_cmd (Hset k f x) = True"
| "hash_cmd (Expire k t) = (t \<noteq> 0)"
| "hash_cmd (Rpush k x) = True"
| "hash_cmd _ = False"

lemma wp_pipeline_hashes:
  assumes "list_all hash_cmd cs"
    and "\<And>\<sigma>'. v_hash (kv (fst \<sigma>')) = fold hash_effect cs (v_hash (kv (fst \<sigma>))) \<Longrightarrow> Q () \<sigma>'"
    and avail: "redis_available exec kv oth clk"
  shows "wp exec (pipelineP cs) Q E \<sigma>"
  using assms(1,2)
proof (induction cs arbitrary: \<sigma>)
  case (Cons c cs)
  obtain s l where \<sigma>: "\<sigma> = (s, l)" by (cases \<sigma>)
  show ?case
    unfolding \<sigma>
  proof (rule redis_available.wp_pipeline_Cons [OF avail])
    show "good_cmd c" using Cons.prems(1) by (cases c) auto
  next
    fix r s' assume law: "redis_law c (kv s) (oth s) (clk s) r (kv s')"
    have "v_hash (kv s') = hash_effect c (v_hash (kv s))"
      using Cons.prems(1) law by (cases c) auto
    then show "wp exec (pipelineP cs) Q E (s', l @ [c])"
      using Cons.prems by (intro Cons.IH) (auto simp: \<sigma>)
  qed
qed (simp add: pipelineP_def)

lemma hash_fold_start:
  "fold hash_effect (meta_cmds x p a b) h (trace_meta (sx_schema x) (pay_text p ''trace_id'')) ''start_ts'' = Some (int_str a)"
  "fold hash_effect (meta_cmds x p a b) h (trace_meta (sx_schema x) (pay_text p ''trace_id'')) ''updated_at'' = Some (int_str b)"
  by (simp_all add: meta_cmds_def Let_def)

lemma meta_cmds_hash: "0 < sx_ttlSeconds x \<Longrightarrow> list_all hash_cmd (meta_cmds x p a b)"
  by (simp add: meta_cmds_def Let_def)

lemma map_of_filter:
  "P (k, v) \<Longrightarrow> map_of (filter P ((k, v) # xs)) k = Some v"
  "k' \<noteq> k \<Longrightarrow> map_of (filter P ((k', v) # xs)) k = map_of (filter P xs) k"
  by simp_all

lemma payload_fields:
  "span_text sp ''traceId'' \<noteq> [] \<Longrightarrow> oget (traceSpanToPayload sp) ''trace_id'' = Some (JStr (span_text sp ''traceId''))"
  "oget (traceSpanToPayload sp) ''start_ts'' = Some (JNum (num_of (oget sp ''startTs'')))"
  "oget (traceSpanToPayload sp) ''end_ts'' = Some (JNum (max (num_of (oget sp ''startTs'')) (num_of (oget sp ''endTs''))))"
  unfolding traceSpanToPayload_def span_fields_def Let_def oget_def append_Cons
  by (simp_all only: map_of_filter case_prod_conv simp_thms json.distinct json.inject list.inject char.inject list.distinct)

definition span_start :: "span \<Rightarrow> int" where
  "span_start sp = num_of (oget sp ''startTs'')"

definition span_end :: "span \<Rightarrow> int" where
  "span_end sp = max (span_start sp) (num_of (oget sp ''endTs''))"

text \<open>The start kept for a trace: 0 while there is none.\<close>

definition kept_start :: "view \<Rightarrow> span_exporter \<Rightarrow> string \<Rightarrow> int \<Rightarrow> bool" where
  "kept_start v x t n \<longleftrightarrow> 0 \<le> n \<and> v_hash v (trace_meta (sx_schema x) t) ''start_ts'' = (if n = 0 then None else Some (int_str n))"

lemma read_kept: "kept_start v x t n \<Longrightarrow> read_start (v_hash v (trace_meta (sx_schema x) t) ''start_ts'') = n"
proof -
  assume k: "kept_start v x t n"
  have "int_str n \<noteq> []" by (auto simp: int_str_def)
  moreover have "js_parseInt (js_trim ''0'') = Some 0"
    using js_trim_int_str [of 0] js_parseInt_nat_str [of 0] by (simp add: int_str_def nat_str.simps digit_char_0)
  ultimately show ?thesis
    using k by (auto simp: kept_start_def read_start_def opt_or_def str_or_def js_parseInt_nat_str)
qed

context redis_available
begin

lemma wp_writeTraceIndex:
  assumes "0 < sx_ttlSeconds x" and "\<And>\<sigma>'. v_hash (kv (fst \<sigma>')) = v_hash (kv (fst \<sigma>)) \<Longrightarrow> Q () \<sigma>'"
  shows "wp exec (whenP b (writeTraceIndex x k t sc)) Q E \<sigma>"
proof (cases \<sigma>)
  case (Pair s l)
  have "Q () \<sigma>" by (rule assms(2)) simp
  moreover have "wp exec (writeTraceIndex x k t sc) Q E (s, l)"
    unfolding writeTraceIndex_def wp_catchP wp_seqP wp_bindP wp_Ret
    by (rule wp_zaddP, rule wp_expireP) (use assms in \<open>auto simp: Pair\<close>)
  ultimately show ?thesis by (simp add: Pair)
qed

lemma wp_exportSpan:
  assumes ttl: "0 < sx_ttlSeconds x" and sp: "span_text sp ''traceId'' = t" "t \<noteq> []" "0 < span_start sp"
    and kept: "kept_start (kv (fst \<sigma>)) x t n"
    and post: "\<And>\<sigma>'. kept_start (kv (fst \<sigma>')) x t (if n = 0 then span_start sp else min n (span_start sp)) \<Longrightarrow>
      v_hash (kv (fst \<sigma>')) (trace_meta (sx_schema x) t) ''updated_at'' = Some (int_str (max n (span_end sp))) \<Longrightarrow> Q () \<sigma>'"
  shows "wp exec (exportSpan x sp) Q E \<sigma>"
proof -
  obtain s l where \<sigma>: "\<sigma> = (s, l)" by (cases \<sigma>)
  let ?p = "traceSpanToPayload sp" and ?k = "trace_meta (sx_schema x) t"
  let ?start = "if n = 0 then span_start sp else min n (span_start sp)"
  have tid: "pay_text ?p ''trace_id'' = t" using sp payload_fields(1) [of sp] by (simp add: pay_text_def)
  have start: "num_of (oget ?p ''start_ts'') = span_start sp" by (simp add: payload_fields(2) num_of_def span_start_def)
  have "0 < span_end sp" using sp(3) by (simp add: span_end_def)
  then have ending: "num_of (Some (js_or (oget ?p ''end_ts'') (JNum (span_start sp)))) = span_end sp"
    by (simp add: payload_fields(3) num_of_def span_end_def span_start_def)
  have new: "trace_start n (span_start sp) = ?start" using kept sp(3) by (auto simp: trace_start_def kept_start_def)
  have finish: "Q () \<sigma>'" if h: "v_hash (kv (fst \<sigma>')) = fold hash_effect (meta_cmds x ?p ?start (max n (span_end sp))) h" for \<sigma>' h
  proof (rule post)
    have "0 < ?start" using kept sp(3) by (auto simp: kept_start_def)
    then show "kept_start (kv (fst \<sigma>')) x t ?start"
      using hash_fold_start(1) [of x ?p ?start "max n (span_end sp)" h] by (simp add: kept_start_def h tid)
    show "v_hash (kv (fst \<sigma>')) ?k ''updated_at'' = Some (int_str (max n (span_end sp)))"
      using hash_fold_start(2) [of x ?p ?start "max n (span_end sp)" h] by (simp add: h tid)
  qed
  show ?thesis
    unfolding exportSpan_def Let_def tid start ending wp_bindP wp_catchP wp_seqP wp_Ret \<sigma>
  proof (rule wp_hgetP, goal_cases)
    case (1 s1)
    then have "read_start (v_hash (kv s) ?k ''start_ts'') = n" using read_kept [OF kept [unfolded \<sigma>, simplified]] by simp
    with 1 show ?case
      unfolding new [symmetric]
      by (intro wp_pipeline_hashes [OF meta_cmds_hash [OF ttl] _ redis_available_axioms] wp_writeTraceIndex [OF ttl] finish)
        (simp add: new)
  qed
qed

end

text \<open>The summary that a list of spans of one trace leaves.\<close>

definition of_trace :: "string \<Rightarrow> span list \<Rightarrow> bool" where
  "of_trace t spans \<longleftrightarrow> t \<noteq> [] \<and> (\<forall>sp \<in> set spans. span_text sp ''traceId'' = t \<and> 0 < span_start sp)"

lemma earlier:
  fixes f :: "'a \<Rightarrow> int"
  assumes "finite xs" "\<forall>y \<in> xs. 0 < f y"
  shows "(if (if xs = {} then 0 else Min (f ` xs)) = 0 then f a else min (if xs = {} then 0 else Min (f ` xs)) (f a)) = Min (f ` insert a xs)"
proof (cases "xs = {}")
  case False
  then have "Min (f ` xs) \<in> f ` xs" using assms(1) by (intro Min_in) auto
  then have "Min (f ` xs) \<noteq> 0" using assms(2) by auto
  then show ?thesis using False assms(1) by (simp add: min.commute)
qed simp

text \<open>
  The start of a trace is that of its earliest span. Exporting the spans of a
  new trace, in whatever order they end, succeeds and leaves in the trace's
  summary the smallest of their starts; `updated_at`, though, does not
  accumulate: it is the end of the span exported last, or the trace's start
  before that span when that is later, so it can go back.
\<close>

lemma trace_start_is_earliest:
  assumes avail: "redis_available exec kv oth clk" and ttl: "0 < sx_ttlSeconds x" and tr: "of_trace t (spans @ [sp])"
    and new: "v_hash (kv s) (trace_meta (sx_schema x) t) ''start_ts'' = None"
    and s': "s' = final exec (forP (spans @ [sp]) (exportSpan x)) s"
  shows "result exec (forP (spans @ [sp]) (exportSpan x)) s = Inr ()
    \<and> v_hash (kv s') (trace_meta (sx_schema x) t) ''start_ts'' = Some (int_str (Min (span_start ` set (spans @ [sp]))))
    \<and> v_hash (kv s') (trace_meta (sx_schema x) t) ''updated_at''
        = Some (int_str (max (if spans = [] then 0 else Min (span_start ` set spans)) (span_end sp)))"
proof -
  let ?k = "trace_meta (sx_schema x) t"
  have go: "wp exec (forP (ys @ [sp]) (exportSpan x)) (\<lambda>_ \<sigma>'. kept_start (kv (fst \<sigma>')) x t (Min (span_start ` (xs \<union> set (ys @ [sp]))))
      \<and> v_hash (kv (fst \<sigma>')) ?k ''updated_at''
        = Some (int_str (max (if xs \<union> set ys = {} then 0 else Min (span_start ` (xs \<union> set ys))) (span_end sp)))) (\<lambda>_ _. False) \<sigma>"
    if "of_trace t (ys @ [sp])" "finite xs" "\<forall>y \<in> xs. 0 < span_start y"
      "kept_start (kv (fst \<sigma>)) x t (if xs = {} then 0 else Min (span_start ` xs))" for ys xs \<sigma>
    using that
  proof (induction ys arbitrary: xs \<sigma>)
    case Nil
    show ?case
      unfolding append_Nil forP.simps wp_bindP wp_Ret
    proof (rule redis_available.wp_exportSpan [OF avail ttl _ _ _ Nil(4)], goal_cases)
      case (4 \<sigma>')
      have "(if (if xs = {} then 0 else Min (span_start ` xs)) = 0 then span_start sp
          else min (if xs = {} then 0 else Min (span_start ` xs)) (span_start sp)) = Min (span_start ` (xs \<union> {sp}))"
        using earlier [OF Nil(2,3), of sp] by simp
      with 4 show ?case by simp
    qed (use Nil in \<open>auto simp: of_trace_def\<close>)
  next
    case (Cons y ys)
    show ?case
      unfolding append_Cons forP.simps wp_bindP
    proof (rule redis_available.wp_exportSpan [OF avail ttl _ _ _ Cons.prems(4)], goal_cases)
      case (4 \<sigma>')
      have "(if (if xs = {} then 0 else Min (span_start ` xs)) = 0 then span_start y
          else min (if xs = {} then 0 else Min (span_start ` xs)) (span_start y)) = Min (span_start ` insert y xs)"
        by (rule earlier [OF Cons.prems(2,3)])
      with 4 have "kept_start (kv (fst \<sigma>')) x t (if insert y xs = {} then 0 else Min (span_start ` insert y xs))" by simp
      from Cons.IH [OF _ _ _ this] Cons.prems
      have "wp exec (forP (ys @ [sp]) (exportSpan x)) (\<lambda>_ \<sigma>'. kept_start (kv (fst \<sigma>')) x t (Min (span_start ` (insert y xs \<union> set (ys @ [sp]))))
          \<and> v_hash (kv (fst \<sigma>')) ?k ''updated_at''
            = Some (int_str (max (if insert y xs \<union> set ys = {} then 0 else Min (span_start ` (insert y xs \<union> set ys))) (span_end sp))))
          (\<lambda>_ _. False) \<sigma>'" by (simp add: of_trace_def)
      moreover have "xs \<union> set (y # ys @ [sp]) = insert y xs \<union> set (ys @ [sp])" "xs \<union> set (y # ys) = insert y xs \<union> set ys" by auto
      ultimately show ?case by (simp only:)
    qed (use Cons.prems in \<open>auto simp: of_trace_def\<close>)
  qed
  have start: "kept_start (kv (fst (s, []))) x t (if {} = {} then 0 else Min (span_start ` {}))"
    using new by (simp add: kept_start_def)
  have none: "\<forall>y \<in> {}. 0 < span_start y" by simp
  have run: "wp exec (forP (spans @ [sp]) (exportSpan x))
      (\<lambda>_ \<sigma>'. kept_start (kv (fst \<sigma>')) x t (Min (span_start ` set (spans @ [sp])))
      \<and> v_hash (kv (fst \<sigma>')) ?k ''updated_at''
        = Some (int_str (max (if spans = [] then 0 else Min (span_start ` set spans)) (span_end sp)))) (\<lambda>_ _. False) (s, [])"
    using go [OF tr finite.emptyI none start] by (simp only: Un_empty_left set_empty)
  have "Min (span_start ` set (spans @ [sp])) \<in> span_start ` set (spans @ [sp])" by (rule Min_in) auto
  then obtain q where q: "q \<in> set (spans @ [sp])" "Min (span_start ` set (spans @ [sp])) = span_start q" by blast
  have "0 < span_start q" using tr q(1) unfolding of_trace_def by blast
  then have "Min (span_start ` set (spans @ [sp])) \<noteq> 0" unfolding q(2) by simp
  moreover obtain a where "result exec (forP (spans @ [sp]) (exportSpan x)) s = Inr a"
    "kept_start (kv s') x t (Min (span_start ` set (spans @ [sp])))" "v_hash (kv s') ?k ''updated_at''
        = Some (int_str (max (if spans = [] then 0 else Min (span_start ` set spans)) (span_end sp)))"
    by (rule wp_total [OF run]) (simp add: s')
  ultimately show ?thesis
    unfolding kept_start_def s' [symmetric] by (simp del: set_append)
qed

definition sample_spans :: "span list" where
  "sample_spans = [[(''traceId'', JStr ''t''), (''startTs'', JNum 20), (''endTs'', JNum 90)],
     [(''traceId'', JStr ''t''), (''startTs'', JNum 10), (''endTs'', JNum 40)]]"

lemma trace_start_is_earliest_example:
  "v_hash (mock_view (final mock_exec (forP sample_spans (exportSpan (new_RedisSpanExporter V1 900))) (empty_mock 100)))
      (trace_meta V1 ''t'') ''start_ts'' = Some (int_str 10)
   \<and> v_hash (mock_view (final mock_exec (forP sample_spans (exportSpan (new_RedisSpanExporter V1 900))) (empty_mock 100)))
      (trace_meta V1 ''t'') ''updated_at'' = Some (int_str 40)"
proof -
  have "of_trace ''t'' ([sample_spans ! 0] @ [sample_spans ! 1])"
    by (simp add: of_trace_def sample_spans_def span_text_def span_start_def num_of_def oget_def)
  from trace_start_is_earliest [OF mock_server.redis_available_axioms _ this _ refl, of "new_RedisSpanExporter V1 900" "empty_mock 100"]
  show ?thesis
    by (simp add: new_RedisSpanExporter_def sample_spans_def span_start_def span_end_def num_of_def oget_def mock_view_sel
        empty_mock_def the_hash_def expired_def now_ms_def)
qed

end
