(* ===== verification/RedisPassword.thy ===== *)
theory RedisPassword
  imports Keys
begin

text \<open>
  The password of the Redis connection (src/redis_password.ts): a value in plain
  text, or one that is RSA-encrypted with PKCS#1 padding and written in
  hexadecimal. Bytes are 8-bit words; a string is its bytes in UTF-8. The key is an
  argument of the functions; `redis_key` is the one of the source.
\<close>

unbundle bit_operations_syntax

section \<open>Numbers and bytes\<close>

type_synonym octet = "8 word"

record rsa_key =
  rk_modulus :: nat
  rk_privateKey :: nat

definition MODULUS :: nat where
  "MODULUS = 118249911269313777353369205468358971445904616358074252669429944094950609311848727388859640174096832607664732279928019002795333396858212446930193162882569448161371673123891912144968110489981164388431260818873249786366362488910362896712606417158347288417834035704864053434682010900207183838254091105621956825021"

definition PRIVATE_KEY :: nat where
  "PRIVATE_KEY = 48637328656722495419952397921862221863921217610635969833180547980888484743125170445612409181576120661186971074930797568386575629731449024512112042032173298256412636264324320870986152394015374623344670204072024939615784835070706841209134639407348192682679016061350533334334944953944634417183180191532927602945"

definition redis_key :: rsa_key where
  "redis_key = \<lparr>rk_modulus = MODULUS, rk_privateKey = PRIVATE_KEY\<rparr>"

text \<open>The length of a number in binary: `n.toString(2).length`.\<close>

fun bit_count :: "nat \<Rightarrow> nat" where
  "bit_count n = (if n < 2 then 1 else Suc (bit_count (n div 2)))"

declare bit_count.simps [simp del]

definition KEY_LENGTH :: "rsa_key \<Rightarrow> nat" where
  "KEY_LENGTH k = bit_count (rk_modulus k) div 8"

definition MIN_PADDING_LENGTH :: nat where "MIN_PADDING_LENGTH = 8"

definition CIPHER_PREFIX :: string where "CIPHER_PREFIX = ''{cipher}''"

text \<open>Big-endian: the value of the hexadecimal digits of a buffer, and a value in a number of bytes.\<close>

definition be_number :: "octet list \<Rightarrow> nat" where
  "be_number bs = foldl (\<lambda>n b. n * 256 + unat b) 0 bs"

definition be_bytes :: "nat \<Rightarrow> nat \<Rightarrow> octet list" where
  "be_bytes len n = List.map (\<lambda>i. word_of_nat (n div 256 ^ (len - 1 - i))) [0..<len]"

function pow_loop :: "nat \<Rightarrow> nat \<Rightarrow> nat \<Rightarrow> nat \<Rightarrow> nat" where
  "pow_loop result b e modulus =
     (if e = 0 then result
      else pow_loop (if odd e then result * b mod modulus else result) (b * b mod modulus) (e div 2) modulus)"
  by pat_completeness auto
termination
  by (relation "measure (\<lambda>(r, b, e, m). e)") auto

declare pow_loop.simps [simp del]

definition modPow :: "nat \<Rightarrow> nat \<Rightarrow> nat \<Rightarrow> nat" where
  "modPow base exponent modulus = pow_loop 1 (base mod modulus) exponent modulus"


section \<open>Text as UTF-8\<close>

definition octets :: "string \<Rightarrow> octet list" where
  "octets s = List.map (\<lambda>c. word_of_nat (of_char c)) s"

text \<open>`String.prototype.length`: a code point counts one, and one of four bytes two.\<close>

definition utf16_length :: "string \<Rightarrow> nat" where
  "utf16_length s = length (filter (\<lambda>b. b < 0x80 \<or> 0xC0 \<le> b) (octets s)) + length (filter (\<lambda>b. 0xF0 \<le> b) (octets s))"

text \<open>
  `buffer.toString('utf8')`: the bounds of the bytes that may follow a leading one,
  and the decoder, which puts U+FFFD for what is malformed and goes on at the
  byte that did not fit.
\<close>

definition continuations :: "octet \<Rightarrow> (octet \<times> octet) list option" where
  "continuations b =
     (if b < 0x80 then Some []
      else if 0xC2 \<le> b \<and> b \<le> 0xDF then Some [(0x80, 0xBF)]
      else if b = 0xE0 then Some [(0xA0, 0xBF), (0x80, 0xBF)]
      else if b = 0xED then Some [(0x80, 0x9F), (0x80, 0xBF)]
      else if 0xE1 \<le> b \<and> b \<le> 0xEF then Some [(0x80, 0xBF), (0x80, 0xBF)]
      else if b = 0xF0 then Some [(0x90, 0xBF), (0x80, 0xBF), (0x80, 0xBF)]
      else if 0xF1 \<le> b \<and> b \<le> 0xF3 then Some [(0x80, 0xBF), (0x80, 0xBF), (0x80, 0xBF)]
      else if b = 0xF4 then Some [(0x80, 0x8F), (0x80, 0xBF), (0x80, 0xBF)]
      else None)"

text \<open>The bytes that fit, whether all did, and the rest.\<close>

fun take_fitting :: "(octet \<times> octet) list \<Rightarrow> octet list \<Rightarrow> octet list \<times> bool \<times> octet list" where
  "take_fitting [] bs = ([], True, bs)"
| "take_fitting (r # rs) [] = ([], False, [])"
| "take_fitting ((lo, hi) # rs) (b # bs) =
     (if lo \<le> b \<and> b \<le> hi then (case take_fitting rs bs of (t, ok, rest) \<Rightarrow> (b # t, ok, rest)) else ([], False, b # bs))"

definition REPLACEMENT :: "octet list" where "REPLACEMENT = [0xEF, 0xBF, 0xBD]"

lemma take_fitting_rest: "length (snd (snd (take_fitting rs bs))) \<le> length bs"
  by (induction rs bs rule: take_fitting.induct) (auto split: prod.splits)

function utf8_replaced :: "octet list \<Rightarrow> octet list" where
  "utf8_replaced [] = []"
| "utf8_replaced (b # bs) = (case continuations b of
     None \<Rightarrow> REPLACEMENT @ utf8_replaced bs
   | Some rs \<Rightarrow> (case take_fitting rs bs of (t, ok, rest) \<Rightarrow> (if ok then b # t else REPLACEMENT) @ utf8_replaced rest))"
  by pat_completeness auto
termination
proof (relation "measure length", goal_cases)
  case (3 b bs rs t p ok rest)
  then show ?case using take_fitting_rest [of rs bs] by (simp add: less_Suc_eq_le) (metis snd_conv)
qed auto

definition utf8_text :: "octet list \<Rightarrow> string" where
  "utf8_text bs = List.map (\<lambda>b. char_of (unat b)) (utf8_replaced bs)"


section \<open>Decryption\<close>

datatype redis_connection_error = RedisConnectionError (rc_message: string) (rc_cause: "redis_connection_error option")

definition conn_error :: "string \<Rightarrow> redis_connection_error" where
  "conn_error m = RedisConnectionError m None"

text \<open>Eight-bit arithmetic: the code masks with 0xff.\<close>

definition ascToBcd :: "octet \<Rightarrow> octet" where
  "ascToBcd asc =
     (if 0x30 \<le> asc \<and> asc \<le> 0x39 then asc - 0x30
      else if 0x41 \<le> asc \<and> asc \<le> 0x46 then asc - 0x41 + 10
      else if 0x61 \<le> asc \<and> asc \<le> 0x66 then asc - 0x61 + 10
      else asc - 48)"

fun bcd_pairs :: "octet list \<Rightarrow> octet list" where
  "bcd_pairs (h # l # r) = (ascToBcd l + push_bit 4 (ascToBcd h)) # bcd_pairs r"
| "bcd_pairs _ = []"

definition asciiToBcd :: "octet list \<Rightarrow> nat \<Rightarrow> redis_connection_error + octet list" where
  "asciiToBcd ascii len =
     (if odd len then Inl (conn_error ''Odd-length {cipher} value'') else Inr (bcd_pairs (take len ascii)))"

text \<open>Blocks of a positive length, the last one filled with zeros.\<close>

function splitArray :: "octet list \<Rightarrow> nat \<Rightarrow> octet list list" where
  "splitArray data len =
     (if data = [] \<or> len = 0 then []
      else (take len data @ replicate (len - length data) 0) # splitArray (drop len data) len)"
  by pat_completeness auto
termination
  by (relation "measure (\<lambda>(d, n). length d)") auto

declare splitArray.simps [simp del]

definition index_from :: "octet list \<Rightarrow> nat \<Rightarrow> nat option" where
  "index_from em start = find (\<lambda>i. em ! i = 0) [start..<length em]"

definition rsaDecryptBlock :: "rsa_key \<Rightarrow> octet list \<Rightarrow> redis_connection_error + octet list" where
  "rsaDecryptBlock k block =
     (let c = be_number block in
      if rk_modulus k \<le> c then Inl (conn_error ''Message is larger than modulus'')
      else let em = be_bytes (KEY_LENGTH k) (modPow c (rk_privateKey k) (rk_modulus k)) in
        if take 2 em \<noteq> [0, 2] then Inl (conn_error ''Decryption error'')
        else (case index_from em 2 of
            None \<Rightarrow> Inl (conn_error ''Decryption error'')
          | Some separator \<Rightarrow>
              if separator - 2 < MIN_PADDING_LENGTH then Inl (conn_error ''Decryption error'')
              else Inr (drop (separator + 1) em)))"

fun decrypt_blocks :: "rsa_key \<Rightarrow> octet list list \<Rightarrow> redis_connection_error + string" where
  "decrypt_blocks k [] = Inr []"
| "decrypt_blocks k (b # bs) = (case rsaDecryptBlock k b of
     Inl e \<Rightarrow> Inl e
   | Inr m \<Rightarrow> (case decrypt_blocks k bs of Inl e \<Rightarrow> Inl e | Inr t \<Rightarrow> Inr (utf8_text m @ t)))"

definition decrypt :: "rsa_key \<Rightarrow> string \<Rightarrow> redis_connection_error + string" where
  "decrypt k s =
     (let out = (case asciiToBcd (octets s) (utf16_length s) of Inl e \<Rightarrow> Inl e | Inr bcd \<Rightarrow> decrypt_blocks k (splitArray bcd (KEY_LENGTH k)))
      in case out of
        Inl e \<Rightarrow> Inl (RedisConnectionError ''Failed to decrypt REDIS_PASSWORD {cipher} value'' (Some e))
      | Inr t \<Rightarrow> Inr t)"

definition resolve_with :: "rsa_key \<Rightarrow> string option \<Rightarrow> redis_connection_error + string option" where
  "resolve_with k value = (case value of
     None \<Rightarrow> Inr None
   | Some v \<Rightarrow>
       if v = [] \<or> \<not> startsWith v CIPHER_PREFIX then Inr (Some v)
       else (case decrypt k (drop (length CIPHER_PREFIX) v) of Inl e \<Rightarrow> Inl e | Inr t \<Rightarrow> Inr (Some t)))"

definition resolveRedisPassword :: "string option \<Rightarrow> redis_connection_error + string option" where
  "resolveRedisPassword value = resolve_with redis_key value"


section \<open>Exponentiation\<close>

lemma pow_loop_mod:
  assumes "0 < m"
  shows "pow_loop r b e m mod m = r * b ^ e mod m"
proof (induction r b e m rule: pow_loop.induct)
  case (1 r b e m)
  show ?case
  proof (cases "e = 0")
    case False
    have split: "b ^ e = (b * b) ^ (e div 2) * (if odd e then b else 1)"
      by (cases "odd e") (auto elim!: oddE evenE simp: power_add power_mult power2_eq_square)
    have "pow_loop r b e m mod m = (if odd e then r * b mod m else r) * (b * b mod m) ^ (e div 2) mod m"
      using 1 False by (subst pow_loop.simps) simp
    also have "\<dots> = (if odd e then r * b else r) * (b * b) ^ (e div 2) mod m"
      by (rule mod_mult_cong) (simp_all add: power_mod)
    also have "\<dots> = r * b ^ e mod m" by (simp add: split ac_simps)
    finally show ?thesis .
  qed (subst pow_loop.simps, simp)
qed

lemma pow_loop_less:
  assumes "r < m" shows "pow_loop r b e m < m"
  using assms
proof (induction r b e m rule: pow_loop.induct)
  case (1 r b e m)
  show ?case
  proof (cases "e = 0")
    case False
    then show ?thesis using 1 by (subst pow_loop.simps) (auto intro!: 1)
  qed (use 1(2) in \<open>subst pow_loop.simps, simp\<close>)
qed

text \<open>Square-and-multiply computes the power.\<close>

lemma modPow_eq:
  assumes "1 < m" shows "modPow b e m = b ^ e mod m"
proof -
  have "modPow b e m < m" unfolding modPow_def by (rule pow_loop_less) (use assms in simp)
  then have "modPow b e m = modPow b e m mod m" by simp
  also have "\<dots> = 1 * (b mod m) ^ e mod m" unfolding modPow_def by (rule pow_loop_mod) (use assms in simp)
  also have "\<dots> = b ^ e mod m" by (simp add: power_mod)
  finally show ?thesis .
qed

text \<open>The length of the key in bytes, and that the modulus fits in it.\<close>

lemma bit_count_bounds: "2 ^ k \<le> n \<Longrightarrow> n < 2 ^ Suc k \<Longrightarrow> bit_count n = Suc k"
proof (induction k arbitrary: n)
  case (Suc k)
  then have "2 ^ k \<le> n div 2" "n div 2 < 2 ^ Suc k" by auto
  moreover have "(1 :: nat) \<le> 2 ^ k" by simp
  then have "\<not> n < 2" using Suc.prems(1) unfolding power_Suc by linarith
  ultimately show ?case using Suc.IH by (subst bit_count.simps) simp
qed (simp add: bit_count.simps)

lemma redis_key_length: "KEY_LENGTH redis_key = 128"
proof -
  have "bit_count MODULUS = Suc 1023"
    by (rule bit_count_bounds) (simp_all add: MODULUS_def)
  then show ?thesis by (simp add: KEY_LENGTH_def redis_key_def)
qed

lemma redis_key_fits: "rk_modulus redis_key \<le> 256 ^ KEY_LENGTH redis_key" "1 < rk_modulus redis_key"
  by (simp_all add: redis_key_length) (simp_all add: redis_key_def MODULUS_def)

end
