(* ===== verification/PasswordProperties.thy ===== *)
theory PasswordProperties
  imports RedisPassword
begin

text \<open>
  What the decryption of the Redis password gives: the text that was encrypted, for
  every value in the format of the other SDKs, and an error that tells nothing about
  the value otherwise.
\<close>

section \<open>Big-endian numbers\<close>

lemma be_number_foldl: "foldl (\<lambda>n b. n * 256 + unat b) a bs = a * 256 ^ length bs + be_number bs" for bs :: "octet list"
proof (induction bs arbitrary: a)
  case (Cons b bs)
  have "be_number (b # bs) = unat b * 256 ^ length bs + be_number bs"
    using Cons.IH [of "unat b"] by (simp add: be_number_def)
  then show ?case using Cons.IH [of "a * 256 + unat b"] by (simp add: algebra_simps)
qed (simp add: be_number_def)

lemma be_number_Cons: "be_number (b # bs) = unat b * 256 ^ length bs + be_number bs"
  using be_number_foldl [of "unat b" bs] by (simp add: be_number_def)

lemma be_number_Nil [simp]: "be_number [] = 0"
  by (simp add: be_number_def)

lemma octet_less: "unat (b :: octet) < 256"
  using unsigned_less [of b, where ?'a = nat] by simp

lemma be_number_less: "be_number bs < 256 ^ length bs"
proof (induction bs)
  case (Cons b bs)
  have "unat b * 256 ^ length bs + be_number bs < (unat b + 1) * 256 ^ length bs" using Cons by simp
  also have "\<dots> \<le> 256 * 256 ^ length bs" using octet_less [of b] by (intro mult_right_mono) simp_all
  finally show ?case by (simp add: be_number_Cons)
qed simp

lemma be_bytes_length [simp]: "length (be_bytes n v) = n"
  by (simp add: be_bytes_def)

lemma be_bytes_0 [simp]: "be_bytes 0 v = []"
  by (simp add: be_bytes_def)

lemma be_bytes_Suc: "be_bytes (Suc n) v = word_of_nat (v div 256 ^ n) # be_bytes n v"
  by (simp add: be_bytes_def upt_conv_Cons map_Suc_upt [symmetric] comp_def del: upt_Suc)

lemma unat_octet: "unat (word_of_nat n :: octet) = n mod 256"
  by (simp add: unat_of_nat)

lemma be_number_bytes: "be_number (be_bytes n v) = v mod 256 ^ n"
proof (induction n)
  case (Suc n)
  have "v mod 256 ^ Suc n = 256 ^ n * (v div 256 ^ n mod 256) + v mod 256 ^ n"
    using mod_mult2_eq [of v "256 ^ n" 256] by (simp add: mult.commute)
  then show ?case by (simp add: be_bytes_Suc be_number_Cons unat_octet Suc mult.commute)
qed simp

lemma octet_eq: "m mod 256 = n mod 256 \<Longrightarrow> (word_of_nat m :: octet) = word_of_nat n"
  by (rule word_unat_eq_iff [THEN iffD2]) (simp add: unat_octet)

lemma be_bytes_mod: "n \<le> l \<Longrightarrow> be_bytes n (a * 256 ^ l + v) = be_bytes n v"
proof (induction n)
  case (Suc n)
  then have "Suc n + (l - Suc n) = l" by simp
  then have "(256 :: nat) ^ l = 256 ^ n * (256 * 256 ^ (l - Suc n))" by (metis power_add power_Suc mult.assoc mult.commute)
  then have eq: "a * 256 ^ l + v = v + (a * 256 ^ (l - Suc n) * 256) * 256 ^ n" by simp
  have "(a * 256 ^ l + v) div 256 ^ n = a * 256 ^ (l - Suc n) * 256 + v div 256 ^ n"
    unfolding eq by (rule div_mult_self1) simp
  then have "(word_of_nat ((a * 256 ^ l + v) div 256 ^ n) :: octet) = word_of_nat (v div 256 ^ n)"
    by (intro octet_eq) simp
  then show ?case using Suc by (simp add: be_bytes_Suc)
qed simp

lemma be_bytes_number: "be_bytes (length bs) (be_number bs) = bs"
proof (induction bs)
  case (Cons b bs)
  have "(unat b * 256 ^ length bs + be_number bs) div 256 ^ length bs = unat b"
    using be_number_less [of bs] by simp
  then show ?case by (simp add: be_bytes_Suc be_number_Cons be_bytes_mod Cons)
qed simp


section \<open>Hexadecimal text\<close>

definition hex_octet :: "octet \<Rightarrow> string" where
  "hex_octet b = [''0123456789abcdef'' ! (unat b div 16), ''0123456789abcdef'' ! (unat b mod 16)]"

definition hex_of :: "octet list \<Rightarrow> string" where
  "hex_of bs = concat (List.map hex_octet bs)"

lemma hex_digits:
  assumes "n < 16"
  shows "ascToBcd (word_of_nat (of_char (''0123456789abcdef'' ! n))) = word_of_nat n"
    "(word_of_nat (of_char (''0123456789abcdef'' ! n)) :: octet) < 0x80"
proof -
  have "list_all (\<lambda>n. ascToBcd (word_of_nat (of_char (''0123456789abcdef'' ! n))) = word_of_nat n
      \<and> (word_of_nat (of_char (''0123456789abcdef'' ! n)) :: octet) < 0x80) [0..<16]"
    by code_simp
  then show "ascToBcd (word_of_nat (of_char (''0123456789abcdef'' ! n))) = word_of_nat n"
    "(word_of_nat (of_char (''0123456789abcdef'' ! n)) :: octet) < 0x80"
    using assms by (simp_all add: list_all_iff)
qed

lemma pair_value: "word_of_nat (unat b mod 16) + push_bit 4 (word_of_nat (unat b div 16)) = (b :: octet)"
proof -
  have "word_of_nat (unat b mod 16) + push_bit 4 (word_of_nat (unat b div 16)) = (word_of_nat (unat b mod 16 + unat b div 16 * 16) :: octet)"
    by (simp only: push_bit_eq_mult of_nat_add of_nat_mult) simp
  also have "\<dots> = word_of_nat (unat b)" by (simp only: mod_div_mult_eq)
  finally show ?thesis by simp
qed

lemma high_digit: "unat (b :: octet) div 16 < 16"
  using octet_less [of b] by linarith

lemma bcd_pairs_hex: "bcd_pairs (octets (hex_of bs)) = bs"
  by (induction bs) (simp_all add: hex_of_def octets_def hex_octet_def hex_digits high_digit pair_value)

lemma hex_ascii: "b \<in> set (octets (hex_of bs)) \<Longrightarrow> b < 0x80"
  by (auto simp: hex_of_def octets_def hex_octet_def hex_digits high_digit)

lemma hex_of_length: "length (hex_of bs) = 2 * length bs"
  by (induction bs) (simp_all add: hex_of_def hex_octet_def)

lemma hex_utf16: "utf16_length (hex_of bs) = length (octets (hex_of bs))"
proof -
  have "filter (\<lambda>b. b < 0x80 \<or> 0xC0 \<le> b) (octets (hex_of bs)) = octets (hex_of bs)"
    using hex_ascii by (auto intro: filter_True)
  moreover have "\<not> 0xF0 \<le> b" if "b \<in> set (octets (hex_of bs))" for b
  proof
    assume "0xF0 \<le> b"
    then have "(0xF0 :: octet) < 0x80" using hex_ascii [OF that] by (rule le_less_trans)
    then show False by simp
  qed
  then have "filter (\<lambda>b. 0xF0 \<le> b) (octets (hex_of bs)) = []"
    by (auto simp: filter_empty_conv)
  ultimately show ?thesis by (simp add: utf16_length_def)
qed

lemma asciiToBcd_hex: "asciiToBcd (octets (hex_of bs)) (utf16_length (hex_of bs)) = Inr bs"
  by (simp add: asciiToBcd_def hex_utf16 bcd_pairs_hex) (simp add: octets_def hex_of_length)


section \<open>Blocks\<close>

lemma splitArray_concat:
  "0 < len \<Longrightarrow> \<forall>b \<in> set bs. length b = len \<Longrightarrow> splitArray (concat bs) len = bs"
proof (induction bs)
  case (Cons b bs)
  then have "b \<noteq> []" by auto
  then show ?case using Cons by (subst splitArray.simps) simp
qed (simp add: splitArray.simps)

text \<open>The block `c` is the encryption of the message `m`, padded as PKCS#1 has it.\<close>

definition sealed :: "rsa_key \<Rightarrow> nat \<Rightarrow> octet list \<Rightarrow> bool" where
  "sealed k c m \<longleftrightarrow> c < rk_modulus k \<and> (\<exists>pad. MIN_PADDING_LENGTH \<le> length pad \<and> 0 \<notin> set pad
     \<and> length pad + length m + 3 = KEY_LENGTH k
     \<and> c ^ rk_privateKey k mod rk_modulus k = be_number ([0, 2] @ pad @ [0] @ m))"

lemma find_upt:
  assumes "a \<le> s" "s < n" "P s" "\<And>i. a \<le> i \<Longrightarrow> i < s \<Longrightarrow> \<not> P i"
  shows "find P [a..<n] = Some s"
  unfolding find_Some_iff by (rule exI [of _ "s - a"]) (use assms in auto)

lemma index_of_separator:
  assumes "0 \<notin> set pad"
  shows "index_from ([0, 2] @ pad @ [0] @ m) 2 = Some (2 + length pad)"
proof -
  let ?em = "[0, 2] @ pad @ [0] @ m"
  have zero: "?em ! (2 + length pad) = 0" by (simp add: nth_append)
  have "?em ! i \<noteq> 0" if "2 \<le> i" "i < 2 + length pad" for i
  proof -
    define j where "j = i - 2"
    then have j: "i = Suc (Suc j)" using that(1) by simp
    then have less: "j < length pad" using that(2) by simp
    have at: "?em ! i = pad ! j"
      by (simp only: j append.simps nth_Cons_Suc nth_append less if_True)
    have "pad ! j \<in> set pad" using less by (rule nth_mem)
    then have "pad ! j \<noteq> 0" using assms by auto
    then show ?thesis unfolding at .
  qed
  then show ?thesis unfolding index_from_def by (intro find_upt zero) auto
qed

lemma sealed_decrypts:
  assumes "sealed k c m" "rk_modulus k \<le> 256 ^ KEY_LENGTH k" "1 < rk_modulus k"
  shows "rsaDecryptBlock k (be_bytes (KEY_LENGTH k) c) = Inr m"
proof -
  obtain pad where c: "c < rk_modulus k" and pad: "MIN_PADDING_LENGTH \<le> length pad" "0 \<notin> set pad"
    "length pad + length m + 3 = KEY_LENGTH k" "c ^ rk_privateKey k mod rk_modulus k = be_number ([0, 2] @ pad @ [0] @ m)"
    using assms(1) by (auto simp: sealed_def)
  let ?em = "[0, 2] @ pad @ [0] @ m"
  have "be_number (be_bytes (KEY_LENGTH k) c) = c"
    using c assms(2) by (simp add: be_number_bytes)
  moreover have "length ?em = KEY_LENGTH k" using pad(3) by simp
  then have "be_bytes (KEY_LENGTH k) (modPow c (rk_privateKey k) (rk_modulus k)) = ?em"
    using be_bytes_number [of ?em] pad(4) by (simp only: modPow_eq [OF assms(3)])
  ultimately show ?thesis
    using c pad(1) index_of_separator [OF pad(2), of m]
    by (simp add: rsaDecryptBlock_def Let_def)
qed

text \<open>
  C40. What was encrypted is what is decrypted. For a value that consists of the
  prefix and the hexadecimal text of RSA blocks, each of which raised to the
  private exponent is a padded message, the resolved password is the messages' text,
  one after the other.
\<close>

theorem password_roundtrip:
  assumes key: "rk_modulus k \<le> 256 ^ KEY_LENGTH k" "1 < rk_modulus k"
    and blocks: "list_all2 (sealed k) cs ms"
  shows "resolve_with k (Some (CIPHER_PREFIX @ hex_of (concat (List.map (be_bytes (KEY_LENGTH k)) cs))))
    = Inr (Some (concat (List.map utf8_text ms)))"
proof -
  let ?bs = "List.map (be_bytes (KEY_LENGTH k)) cs"
  have "splitArray (concat ?bs) (KEY_LENGTH k) = ?bs"
  proof (cases cs)
    case (Cons c rest)
    then have "0 < KEY_LENGTH k" using blocks by (auto simp: list_all2_Cons1 sealed_def)
    then show ?thesis by (rule splitArray_concat) auto
  qed (simp add: splitArray.simps)
  moreover have "decrypt_blocks k ?bs = Inr (concat (List.map utf8_text ms))"
    using blocks by (induction rule: list_all2_induct) (simp_all add: sealed_decrypts [OF _ key])
  ultimately have "decrypt k (hex_of (concat ?bs)) = Inr (concat (List.map utf8_text ms))"
    by (simp add: decrypt_def asciiToBcd_hex)
  moreover have "startsWith (CIPHER_PREFIX @ t) CIPHER_PREFIX" for t by (simp add: startsWith_def)
  moreover have "CIPHER_PREFIX \<noteq> []" by (simp add: CIPHER_PREFIX_def)
  ultimately show ?thesis by (simp add: resolve_with_def)
qed

text \<open>A key of twelve bytes, and the block in which it seals the letter A.\<close>

definition small_key :: rsa_key where
  "small_key = \<lparr>rk_modulus = 79228162514229434696431832827, rk_privateKey = 3\<rparr>"

definition small_block :: nat where "small_block = 62997987835123193540097218223"

lemma small_key_length: "KEY_LENGTH small_key = 12"
proof -
  have "bit_count (rk_modulus small_key) = Suc 95"
    by (rule bit_count_bounds) (simp_all add: small_key_def)
  then show ?thesis by (simp add: KEY_LENGTH_def)
qed

lemma small_sealed: "sealed small_key small_block [65]"
  unfolding sealed_def small_key_length
  by (intro conjI exI [of _ "[1, 1, 1, 1, 1, 1, 1, 1]"])
    (simp_all add: small_key_def small_block_def MIN_PADDING_LENGTH_def be_number_def)

theorem password_roundtrip_witness:
  "resolve_with small_key (Some (CIPHER_PREFIX @ hex_of (be_bytes 12 small_block))) = Inr (Some ''A'')"
proof -
  have "resolve_with small_key (Some (CIPHER_PREFIX @ hex_of (concat (List.map (be_bytes (KEY_LENGTH small_key)) [small_block]))))
    = Inr (Some (concat (List.map utf8_text [[65]])))"
    by (rule password_roundtrip)
      (simp_all add: small_sealed small_key_length, simp_all add: small_key_def)
  moreover have "utf8_text [65] = ''A''" by code_simp
  ultimately show ?thesis by (simp add: small_key_length)
qed

text \<open>
  An error says nothing about the value: whatever text is given, an error has
  the one fixed message, and its cause is one of four that do not depend on the
  value.
\<close>

lemma password_errors_fixed:
  "\<forall>value e. resolveRedisPassword value = Inl e \<longrightarrow>
     (\<exists>m \<in> {''Odd-length {cipher} value'', ''Message is larger than modulus'', ''Decryption error''}.
        e = RedisConnectionError ''Failed to decrypt REDIS_PASSWORD {cipher} value'' (Some (RedisConnectionError m None)))"
proof -
  have block: "\<exists>m \<in> {''Message is larger than modulus'', ''Decryption error''}. e = conn_error m"
    if "rsaDecryptBlock k b = Inl e" for k b e
    using that by (auto simp: rsaDecryptBlock_def Let_def split: if_splits option.splits)
  have "\<exists>m \<in> {''Message is larger than modulus'', ''Decryption error''}. e = conn_error m"
    if "decrypt_blocks k bs = Inl e" for k bs e
    using that by (induction k bs rule: decrypt_blocks.induct) (auto split: sum.splits dest: block)
  then show ?thesis
    by (auto simp: resolveRedisPassword_def resolve_with_def decrypt_def Let_def asciiToBcd_def conn_error_def
        split: option.splits if_splits sum.splits)
qed
lemma password_errors_fixed_example:
  "resolveRedisPassword (Some ''{cipher}abc'') =
     Inl (RedisConnectionError ''Failed to decrypt REDIS_PASSWORD {cipher} value'' (Some (RedisConnectionError ''Odd-length {cipher} value'' None)))"
proof -
  have odd: "asciiToBcd (octets ''abc'') (utf16_length ''abc'') = Inl (conn_error ''Odd-length {cipher} value'')"
    by code_simp
  obtain e where e: "resolveRedisPassword (Some ''{cipher}abc'') = Inl e"
    by (simp add: resolveRedisPassword_def resolve_with_def CIPHER_PREFIX_def startsWith_def decrypt_def odd)
  then show ?thesis
    using password_errors_fixed [rule_format, OF e]
    by (simp add: resolveRedisPassword_def resolve_with_def CIPHER_PREFIX_def startsWith_def decrypt_def odd conn_error_def)
qed

end
