(* ===== verification/Configuration.thy ===== *)
theory Configuration
  imports RedisPassword SpanRecorder
begin

text \<open>
  Settings from the environment: the connection to Redis (src/redis_client.ts), the
  numbers that feed the heartbeat's timers (src/constants.ts) and those of
  `runWorker` (src/app.ts). The ioredis client is not in the repository; a
  connection is the arguments its constructor gets. None is the number NaN.
\<close>

section \<open>Numbers\<close>

definition prefixed_number :: "string \<Rightarrow> (string \<times> nat \<times> nat) \<Rightarrow> rat option option" where
  "prefixed_number t = (\<lambda>(p, base, top).
     if startsWith t (CHR ''0'' # p)
     then Some (let ds = drop (Suc (length p)) t in
       if ds \<noteq> [] \<and> list_all (\<lambda>c. case hex_val c of Some d \<Rightarrow> d < top | None \<Rightarrow> False) ds
       then Some (of_nat (foldl (\<lambda>n c. n * base + opt_or (hex_val c) 0) 0 ds)) else None)
     else None)"

definition decimal_number :: "string \<Rightarrow> rat option" where
  "decimal_number t =
     (let ds = takeWhile is_digit t; r1 = dropWhile is_digit t;
          fs = (if startsWith r1 ''.'' then takeWhile is_digit (tl r1) else []);
          r2 = (if startsWith r1 ''.'' then dropWhile is_digit (tl r1) else r1);
          signed = tl r2; es = (if startsWith signed ''-'' \<or> startsWith signed ''+'' then tl signed else signed);
          exponent = (if startsWith signed ''-'' then - int (digits_nat es) else int (digits_nat es));
          m = of_nat (digits_nat (ds @ fs)) / 10 ^ length fs
      in if ds @ fs = [] then None
         else if r2 = [] then Some m
         else if (startsWith r2 ''e'' \<or> startsWith r2 ''E'') \<and> es \<noteq> [] \<and> list_all is_digit es
         then Some (if 0 \<le> exponent then m * 10 ^ nat exponent else m / 10 ^ nat (- exponent))
         else None)"

text \<open>`Number(s)`; an infinity is None as well, since the code treats it like NaN.\<close>

definition js_Number :: "string \<Rightarrow> rat option" where
  "js_Number s =
     (let t = js_trim s in
      if t = [] then Some 0
      else (case List.map_filter (prefixed_number t)
          [(''x'', 16, 16), (''X'', 16, 16), (''o'', 8, 8), (''O'', 8, 8), (''b'', 2, 2), (''B'', 2, 2)] of
        v # _ \<Rightarrow> v
      | [] \<Rightarrow> if startsWith t ''-'' then (case decimal_number (tl t) of None \<Rightarrow> None | Some v \<Rightarrow> Some (- v))
              else decimal_number (if startsWith t ''+'' then tl t else t)))"

definition positiveNumberFromEnv :: "string option \<Rightarrow> rat \<Rightarrow> rat" where
  "positiveNumberFromEnv raw fallback = (case raw of
     None \<Rightarrow> fallback
   | Some s \<Rightarrow> if s = [] then fallback
       else (case js_Number s of None \<Rightarrow> fallback | Some v \<Rightarrow> if v \<le> 0 then fallback else v))"

definition WORKER_DEFAULT_HEARTBEAT_INTERVAL_SECONDS :: "env \<Rightarrow> rat" where
  "WORKER_DEFAULT_HEARTBEAT_INTERVAL_SECONDS env = positiveNumberFromEnv (env ''BYAI_WORKER_HEARTBEAT_INTERVAL_SECONDS'') 5"

definition WORKER_DEFAULT_LEASE_TTL_SECONDS :: "env \<Rightarrow> rat" where
  "WORKER_DEFAULT_LEASE_TTL_SECONDS env = positiveNumberFromEnv (env ''BYAI_WORKER_LEASE_TTL_SECONDS'') 15"


section \<open>The connection to Redis\<close>

record redis_node =
  rn_host :: string
  rn_port :: "int option"

text \<open>What the caller gives; `ro_rest` is what is only passed on.\<close>

record redis_options =
  ro_mode :: "string option"
  ro_clusterNodes :: "redis_node list option"
  ro_host :: "string option"
  ro_port :: "int option"
  ro_db :: "int option"
  ro_username :: "string option"
  ro_password :: "string option"
  ro_rest :: jobj

datatype create_error = ConnectionError redis_connection_error | SchemaVersionError

text \<open>`a || b` for a text or a number that may be missing.\<close>

definition text_or :: "string option \<Rightarrow> string option \<Rightarrow> string option" where
  "text_or a b = (case a of Some (c # cs) \<Rightarrow> a | _ \<Rightarrow> b)"

definition number_or :: "int option \<Rightarrow> int option \<Rightarrow> int option" where
  "number_or a b = (case a of Some n \<Rightarrow> if n = 0 then b else a | None \<Rightarrow> b)"

definition resolveMode :: "env \<Rightarrow> redis_options \<Rightarrow> redis_connection_error + string" where
  "resolveMode env o' =
     (let raw = (case ro_mode o' of Some m \<Rightarrow> m
        | None \<Rightarrow> if env_text env ''REDIS_CLUSTER_HOST'' \<noteq> [] then ''cluster'' else opt_or (env ''REDIS_MODE'') ''standalone'')
      in if raw \<noteq> ''standalone'' \<and> raw \<noteq> ''cluster''
         then Inl (conn_error (''Invalid REDIS_MODE: '' @ [CHR 39] @ raw @ [CHR 39] @ '' (must be '' @ [CHR 39] @ ''standalone''
           @ [CHR 39] @ '' or '' @ [CHR 39] @ ''cluster'' @ [CHR 39] @ ''; '' @ [CHR 39] @ ''sentinel'' @ [CHR 39]
           @ '' is reserved for a future phase and not implemented yet)''))
         else Inr raw)"

fun split_by :: "char \<Rightarrow> string \<Rightarrow> string list" where
  "split_by d [] = [[]]"
| "split_by d (c # cs) = (if c = d then [] # split_by d cs else (case split_by d cs of s # ss \<Rightarrow> (c # s) # ss | [] \<Rightarrow> [[c]]))"

definition node_of_entry :: "string \<Rightarrow> redis_node" where
  "node_of_entry e =
     (let back = dropWhile (\<lambda>c. c \<noteq> CHR '':'') (rev e)
      in if back = [] then \<lparr>rn_host = [], rn_port = None\<rparr>
         else \<lparr>rn_host = rev (tl back), rn_port = js_parseInt (js_trim (rev (takeWhile (\<lambda>c. c \<noteq> CHR '':'') (rev e))))\<rparr>)"

definition parseClusterNodesFromEnv :: "env \<Rightarrow> redis_node list" where
  "parseClusterNodesFromEnv env =
     (let raw = str_or (env_text env ''REDIS_CLUSTER_HOST'') (env_text env ''REDIS_CLUSTER_NODES'')
      in if raw = [] then [] else List.map node_of_entry (split_by (CHR '','') raw))"

definition resolveDbFromEnv :: "env \<Rightarrow> int option" where
  "resolveDbFromEnv env =
     (let raw = (case env ''REDIS_DATABASE'' of None \<Rightarrow> env ''REDIS_DB'' | Some v \<Rightarrow> Some v)
      in js_parseInt (js_trim (str_or (opt_or raw []) ''0'')))"

definition node_text :: "redis_node \<Rightarrow> string" where
  "node_text n = rn_host n @ '':'' @ (case rn_port n of None \<Rightarrow> ''NaN'' | Some p \<Rightarrow> int_str p)"

definition valid_node :: "redis_node \<Rightarrow> bool" where
  "valid_node n \<longleftrightarrow> rn_host n \<noteq> [] \<and> rn_port n \<noteq> None"

definition assertValidClusterNodes :: "redis_node list \<Rightarrow> redis_connection_error + unit" where
  "assertValidClusterNodes ns =
     (if ns = [] then Inl (conn_error (''REDIS_MODE=cluster requires at least one cluster node (pass clusterNodes or set REDIS_CLUSTER_NODES=''
        @ [CHR 39] @ ''host:port[,host:port...]'' @ [CHR 39] @ '')''))
      else (case find (\<lambda>n. \<not> valid_node n) ns of
          None \<Rightarrow> Inr ()
        | Some n \<Rightarrow> Inl (conn_error (''Invalid cluster node '' @ [CHR 39] @ node_text n @ [CHR 39] @ '' (expected '' @ [CHR 39]
            @ ''host:port'' @ [CHR 39] @ '' with a numeric port)''))))"

text \<open>The arguments of `new Cluster` and `new Redis`.\<close>

datatype redis_connection =
    ClusterConnection "redis_node list" redis_options "string option" "string option"
  | StandaloneConnection string "int option" "int option" "string option" "string option" jobj

definition createRedis :: "env \<Rightarrow> redis_options \<Rightarrow> create_error + redis_connection" where
  "createRedis env o' = (case resolveMode env o' of
     Inl e \<Rightarrow> Inl (ConnectionError e)
   | Inr mode \<Rightarrow>
       (let username = text_or (ro_username o') (env ''REDIS_USERNAME'') in
        case resolveRedisPassword (text_or (ro_password o') (env ''REDIS_PASSWORD'')) of
          Inl e \<Rightarrow> Inl (ConnectionError e)
        | Inr password \<Rightarrow>
            if mode = ''cluster'' then
              (case getKeySchemaVersion env of
                 None \<Rightarrow> Inl SchemaVersionError
               | Some V1 \<Rightarrow> Inl (ConnectionError (conn_error (''REDIS_MODE=cluster requires REDIS_KEY_SCHEMA_VERSION=v2 ''
                   @ ''(v1 key format has no hash tags and will hit CROSSSLOT errors under Cluster). Set REDIS_KEY_SCHEMA_VERSION=v2 ''
                   @ ''and complete the key migration first.'')))
               | Some V2 \<Rightarrow>
                   (let clusterNodes = opt_or (ro_clusterNodes o') (parseClusterNodesFromEnv env) in
                    case assertValidClusterNodes clusterNodes of
                      Inl e \<Rightarrow> Inl (ConnectionError e)
                    | Inr _ \<Rightarrow> Inr (ClusterConnection clusterNodes o' username password)))
            else Inr (StandaloneConnection
              (str_or (opt_or (ro_host o') []) (str_or (env_text env ''REDIS_HOST'') ''localhost''))
              (number_or (ro_port o') (js_parseInt (js_trim (str_or (env_text env ''REDIS_PORT'') ''6379''))))
              (number_or (ro_db o') (resolveDbFromEnv env)) username password (ro_rest o'))))"

text \<open>The shared instance of the module.\<close>

definition no_options :: redis_options where
  "no_options = \<lparr>ro_mode = None, ro_clusterNodes = None, ro_host = None, ro_port = None, ro_db = None,
     ro_username = None, ro_password = None, ro_rest = []\<rparr>"

definition initRedis :: "env \<Rightarrow> redis_options \<Rightarrow> redis_connection option \<Rightarrow> (create_error + redis_connection) \<times> redis_connection option" where
  "initRedis env o' inst = (case inst of
     Some c \<Rightarrow> (Inr c, inst)
   | None \<Rightarrow> (case createRedis env o' of Inl e \<Rightarrow> (Inl e, None) | Inr c \<Rightarrow> (Inr c, Some c)))"

definition getRedis :: "env \<Rightarrow> redis_connection option \<Rightarrow> (create_error + redis_connection) \<times> redis_connection option" where
  "getRedis env inst = (case inst of Some c \<Rightarrow> (Inr c, inst) | None \<Rightarrow> initRedis env no_options inst)"

text \<open>`quits` is whether the client's `quit` resolves.\<close>

definition closeRedis :: "bool \<Rightarrow> redis_connection option \<Rightarrow> redis_connection option" where
  "closeRedis quits inst = (if quits then None else inst)"


section \<open>Starting a worker\<close>

record worker_options =
  wo_maxConcurrency :: "rat option"
  wo_fetchCount :: "rat option"
  wo_redisHost :: "string option"
  wo_redisPort :: "int option"
  wo_redisDb :: "int option"
  wo_redisUsername :: "string option"
  wo_redisPassword :: "string option"

definition worker_concurrency :: "env \<Rightarrow> worker_options \<Rightarrow> rat option" where
  "worker_concurrency env w = (case wo_maxConcurrency w of Some n \<Rightarrow> Some n
     | None \<Rightarrow> js_Number (str_or (env_text env ''BYAI_WORKER_CONCURRENCY'') ''50''))"

definition worker_fetch_count :: "env \<Rightarrow> worker_options \<Rightarrow> rat option" where
  "worker_fetch_count env w = (case wo_fetchCount w of Some n \<Rightarrow> Some n
     | None \<Rightarrow> js_Number (str_or (env_text env ''BYAI_WORKER_FETCH_COUNT'') ''10''))"

text \<open>The options `runWorker` makes the connection with.\<close>

definition worker_redis_options :: "worker_options \<Rightarrow> redis_options" where
  "worker_redis_options w = no_options\<lparr>ro_host := Some (str_or (opt_or (wo_redisHost w) []) ''localhost''),
     ro_port := number_or (wo_redisPort w) (Some 6379), ro_db := number_or (wo_redisDb w) (Some 0),
     ro_username := wo_redisUsername w, ro_password := wo_redisPassword w\<rparr>"


section \<open>What the settings guarantee\<close>

lemma positiveNumberFromEnv_positive: "0 < fallback \<Longrightarrow> 0 < positiveNumberFromEnv raw fallback"
  by (auto simp: positiveNumberFromEnv_def split: option.splits)

lemma heartbeat_numbers_positive:
  "0 < WORKER_DEFAULT_HEARTBEAT_INTERVAL_SECONDS env" "0 < WORKER_DEFAULT_LEASE_TTL_SECONDS env"
  by (simp_all add: WORKER_DEFAULT_HEARTBEAT_INTERVAL_SECONDS_def WORKER_DEFAULT_LEASE_TTL_SECONDS_def positiveNumberFromEnv_positive)

lemma valid_nodes: "assertValidClusterNodes ns = Inr () \<longleftrightarrow> ns \<noteq> [] \<and> list_all valid_node ns"
  by (auto simp: assertValidClusterNodes_def list_all_iff find_None_iff find_Some_iff split: option.splits)

lemma cluster_connection:
  "createRedis env o' = Inr (ClusterConnection ns r u p) \<Longrightarrow>
     getKeySchemaVersion env = Some V2 \<and> ns \<noteq> [] \<and> list_all valid_node ns \<and> resolveMode env o' = Inr ''cluster''"
  by (auto simp: createRedis_def Let_def valid_nodes split: sum.splits option.splits key_schema.splits if_splits)

lemma standalone_connection:
  "createRedis env o' = Inr (StandaloneConnection h port db u p r) \<Longrightarrow> resolveMode env o' = Inr ''standalone'' \<and> h \<noteq> []"
  by (auto simp: createRedis_def Let_def str_or_def resolveMode_def split: sum.splits option.splits key_schema.splits if_splits)

text \<open>
  The part of a key that the slot of a cluster depends on, by the specification of
  Redis Cluster: what stands between the first opening brace and the closing
  brace after it, when that is not empty, and the whole key otherwise.
\<close>

definition hash_tag :: "key \<Rightarrow> string" where
  "hash_tag k =
     (let back = dropWhile (\<lambda>c. c \<noteq> CHR ''{'') k; inner = takeWhile (\<lambda>c. c \<noteq> CHR ''}'') (tl back)
      in if back = [] \<or> inner = [] \<or> CHR ''}'' \<notin> set (tl back) then k else inner)"

lemma hash_tag_prefix: "CHR ''{'' \<notin> set a \<Longrightarrow> x \<noteq> [] \<Longrightarrow> hd x \<noteq> CHR ''}'' \<Longrightarrow>
    hash_tag (a @ ''{'' @ x @ ''}'' @ b) = takeWhile (\<lambda>c. c \<noteq> CHR ''}'') x"
proof -
  assume a: "CHR ''{'' \<notin> set a" and x: "x \<noteq> []" "hd x \<noteq> CHR ''}''"
  have "dropWhile (\<lambda>c. c \<noteq> CHR ''{'') (a @ ''{'' @ x @ ''}'' @ b) = ''{'' @ x @ ''}'' @ b"
    using a by (induction a) auto
  moreover have "takeWhile (\<lambda>c. c \<noteq> CHR ''}'') (x @ ''}'' @ b) = takeWhile (\<lambda>c. c \<noteq> CHR ''}'') x"
    by (induction x) auto
  moreover have "takeWhile (\<lambda>c. c \<noteq> CHR ''}'') x \<noteq> []" using x by (cases x) auto
  ultimately show ?thesis by (simp add: hash_tag_def)
qed

text \<open>
  A cluster is only connected to with the keys that fit it. When a connection to
  a cluster is made, whatever the options and the environment, every node has a
  host and a port and the key schema is the second version; and the two keys of
  a trace, which are written in one pipeline, then lie in one slot, for a trace
  id that is not empty and does not begin with a closing brace.
\<close>

lemma cluster_keys_share_slot:
  assumes "createRedis env o' = Inr (ClusterConnection ns r u p)" "t \<noteq> []" "hd t \<noteq> CHR ''}''"
  shows "\<exists>sch. getKeySchemaVersion env = Some sch \<and> hash_tag (trace_meta sch t) = hash_tag (trace_spans sch t)
    \<and> ns \<noteq> [] \<and> list_all valid_node ns"
proof -
  have tag: "hash_tag ((V2_PREFIX @ a) @ ''{'' @ t @ ''}'' @ []) = takeWhile (\<lambda>c. c \<noteq> CHR ''}'') t" if "CHR ''{'' \<notin> set a" for a
    using that assms(2,3) by (intro hash_tag_prefix) (simp_all add: V2_PREFIX_def)
  have "hash_tag (trace_meta V2 t) = hash_tag (trace_spans V2 t)"
    using tag [of "''trace:''"] tag [of "''trace:spans:''"]
    by (simp add: trace_meta_def trace_spans_def versioned_def tagged_def)
  then show ?thesis using cluster_connection [OF assms(1)] by auto
qed

lemma cluster_keys_share_slot_example:
  "hash_tag (trace_meta V2 ''t-1'') = hash_tag (trace_spans V2 ''t-1'')"
proof -
  let ?env = "\<lambda>n. if n = ''REDIS_CLUSTER_HOST'' then Some ''a:7000,b:7001'' else None"
  let ?ns = "[\<lparr>rn_host = ''a'', rn_port = Some 7000\<rparr>, \<lparr>rn_host = ''b'', rn_port = Some 7001\<rparr>]"
  let ?o = "no_options\<lparr>ro_clusterNodes := Some ?ns\<rparr>"
  have "createRedis ?env ?o = Inr (ClusterConnection ?ns ?o None None)"
    by (simp add: createRedis_def resolveMode_def no_options_def env_text_def getKeySchemaVersion_def str_or_def text_or_def opt_or_def
        resolveRedisPassword_def resolve_with_def valid_nodes [THEN iffD2] valid_node_def Let_def)
  from cluster_keys_share_slot [OF this, of "''t-1''"] show ?thesis
    by (auto simp: getKeySchemaVersion_def env_text_def str_or_def)
qed

text \<open>
  `runWorker` always names a host and a port, so the variables for these count for
  nothing there, while the database number comes from its variable.
\<close>

lemma worker_ignores_host:
  assumes "resolveMode env (worker_redis_options w) = Inr ''standalone''" "wo_redisHost w = None" "wo_redisPort w = None"
    "createRedis env (worker_redis_options w) = Inr c"
  shows "\<exists>db u p r. c = StandaloneConnection ''localhost'' (Some 6379) db u p r"
  using assms by (auto simp: createRedis_def worker_redis_options_def no_options_def str_or_def number_or_def opt_or_def Let_def
      split: sum.splits option.splits)

end
