(* ===== verification/Metrics.thy ===== *)
theory Metrics
  imports WaitSweeper SpanRecorder
begin

text \<open>
  The metrics of a deployment (src/metrics): a snapshot of the online workers and the
  depths of their queues, the trend points kept in Redis, and the collector that
  writes one at a time under a lock (src/redis_cluster_scan.ts for the scan).
  SCAN is answered by the server's nodes, each by itself; their answers to
  the pattern are an argument. Strings are sorted by their bytes.
\<close>

section \<open>Scanning\<close>

text \<open>`[...new Set(xs)]`.\<close>

definition unique :: "'a list \<Rightarrow> 'a list" where
  "unique xs = rev (remdups (rev xs))"

text \<open>The keys of all nodes, or the first node that fails; a standalone server is one node.\<close>

definition clusterScanIter :: "(string \<Rightarrow> (js_error + string list) list) \<Rightarrow> string \<Rightarrow> string list prog" where
  "clusterScanIter scan pat = (case find isl (scan pat) of
     Some (Inl e) \<Rightarrow> Raise e
   | _ \<Rightarrow> Ret (unique (concat (List.map (\<lambda>a. case a of Inl _ \<Rightarrow> [] | Inr ks \<Rightarrow> ks) (scan pat)))))"


section \<open>Snapshots\<close>

definition REDIS_HISTORY_KEY :: key where "REDIS_HISTORY_KEY = ''by_framework:obs:history''"
definition REDIS_HISTORY_TTL_MS :: int where "REDIS_HISTORY_TTL_MS = 2 * 60 * 60 * 1000"

record history_point =
  hp_generated_at :: int
  hp_workers_online :: int
  hp_active_executions :: int
  hp_queued_executions :: int
  hp_failed_executions :: int
  hp_queue_depth_total :: int

definition history_point_json :: "history_point \<Rightarrow> json" where
  "history_point_json p = JObj [(''generated_at'', JNum (hp_generated_at p)), (''workers_online'', JNum (hp_workers_online p)),
     (''active_executions'', JNum (hp_active_executions p)), (''queued_executions'', JNum (hp_queued_executions p)),
     (''failed_executions'', JNum (hp_failed_executions p)), (''queue_depth_total'', JNum (hp_queue_depth_total p))]"

definition saveHistoryPointToRedis :: "history_point \<Rightarrow> unit prog" where
  "saveHistoryPointToRedis p =
     (if hp_generated_at p = 0 then Ret ()
      else catchP (seqP (zaddP REDIS_HISTORY_KEY (hp_generated_at p) (json_stringify (history_point_json p)))
        (zremuptoP REDIS_HISTORY_KEY (hp_generated_at p - REDIS_HISTORY_TTL_MS))) (\<lambda>_. Ret ()))"

text \<open>Whatever JSON the members hold; what cannot be parsed is left out, and so is `null`.\<close>

definition loadHistoryFromRedis :: "int \<Rightarrow> json list prog" where
  "loadHistoryFromRedis limit =
     catchP (bindP (ztailP REDIS_HISTORY_KEY (nat (max limit 1))) (\<lambda>raw.
       Ret (filter (\<lambda>p. p \<noteq> JNull) (List.map_filter json_parse raw)))) (\<lambda>_. Ret [])"

definition scanOnlineWorkerIds :: "key_schema \<Rightarrow> (string \<Rightarrow> (js_error + string list) list) \<Rightarrow> nat \<Rightarrow> string list prog" where
  "scanOnlineWorkerIds sch scan limit =
     bindP (clusterScanIter scan (worker_online_lease_scan_pattern sch)) (\<lambda>keys.
       let sorted = sort (unique (List.map_filter (worker_id_from_online_lease_key sch) keys))
       in Ret (if limit \<noteq> 0 then take limit sorted else sorted))"

text \<open>The key is spelled out in the code, not taken from the key factories.\<close>

definition queue_depth_key :: "string \<Rightarrow> key" where
  "queue_depth_key agentType = ''byai_gateway:ctrl:agent_type:'' @ agentType"

definition getQueueDepth :: "string \<Rightarrow> int prog" where
  "getQueueDepth agentType = catchP (xlenP (queue_depth_key agentType)) (\<lambda>_. Ret 0)"

definition declared_types :: "key_schema \<Rightarrow> string list \<Rightarrow> string list prog" where
  "declared_types sch workerIds = bindP (foldP (\<lambda>types w.
     catchP (bindP (smembersP (workerDeclaredAgentTypes sch w)) (\<lambda>ts. Ret (types @ ts))) (\<lambda>_. Ret types)) [] workerIds)
     (\<lambda>types. Ret (unique types))"

text \<open>`status_counts` is empty and no executions are counted, so the snapshot is three numbers and the time.\<close>

record obs_snapshot =
  os_generated_at :: int
  os_workers_online :: int
  os_agent_types :: int
  os_active_executions :: int
  os_status_counts :: "(string \<times> int) list"
  os_queue_depth_total :: int

definition buildObservabilitySnapshot :: "key_schema \<Rightarrow> (string \<Rightarrow> (js_error + string list) list) \<Rightarrow> obs_snapshot prog" where
  "buildObservabilitySnapshot sch scan =
     bindP (scanOnlineWorkerIds sch scan 300) (\<lambda>workerIds.
     bindP (declared_types sch workerIds) (\<lambda>agentTypes.
     bindP (foldP (\<lambda>total t. bindP (getQueueDepth t) (\<lambda>n. Ret (total + n))) 0 agentTypes) (\<lambda>total.
     bindP nowP (\<lambda>now. Ret \<lparr>os_generated_at = now, os_workers_online = int (length workerIds),
       os_agent_types = int (length agentTypes), os_active_executions = 0, os_status_counts = [],
       os_queue_depth_total = total\<rparr>))))"

definition buildHistoryPoint :: "obs_snapshot \<Rightarrow> history_point" where
  "buildHistoryPoint s = \<lparr>hp_generated_at = os_generated_at s, hp_workers_online = os_workers_online s,
     hp_active_executions = os_active_executions s, hp_queued_executions = opt_or (map_of (os_status_counts s) ''QUEUED'') 0,
     hp_failed_executions = opt_or (map_of (os_status_counts s) ''FAILED'') 0, hp_queue_depth_total = os_queue_depth_total s\<rparr>"


section \<open>The collector\<close>

definition COLLECTOR_LOCK_KEY :: key where "COLLECTOR_LOCK_KEY = ''by_framework:obs:collector_lock''"
definition LOCK_TTL_MULTIPLIER :: int where "LOCK_TTL_MULTIPLIER = 3"

definition collector_envInt :: "env \<Rightarrow> string \<Rightarrow> int \<Rightarrow> int" where
  "collector_envInt env n dflt = (let raw = env_text env n in
     if raw = [] then dflt else opt_or (js_parseInt (js_trim raw)) dflt)"

definition collector_envBool :: "env \<Rightarrow> string \<Rightarrow> bool \<Rightarrow> bool" where
  "collector_envBool env n dflt = (let raw = ascii_lower (js_trim (env_text env n)) in
     if raw \<in> set ENABLED_VALUES then True else if raw \<in> set DISABLED_VALUES then False else dflt)"

record collector =
  co_workerId :: string
  co_intervalMs :: int
  co_enabled :: bool
  co_lockTtlSeconds :: nat

text \<open>The id a collector draws when it is given none is an argument.\<close>

definition new_MetricsCollector :: "env \<Rightarrow> string \<Rightarrow> string option \<Rightarrow> int option \<Rightarrow> bool option \<Rightarrow> collector" where
  "new_MetricsCollector env drawn workerId intervalSeconds enabled =
     (let secs = opt_or intervalSeconds (collector_envInt env ''BY_FRAMEWORK_METRICS_HISTORY_INTERVAL_SECONDS'' 5) in
      \<lparr>co_workerId = opt_or workerId drawn, co_intervalMs = secs * 1000,
       co_enabled = opt_or enabled (collector_envBool env ''BY_FRAMEWORK_METRICS_HISTORY_ENABLED'' True
         \<and> collector_envBool env ''BY_FRAMEWORK_OBSERVABILITY_ENABLED'' True),
       co_lockTtlSeconds = nat (max (secs * LOCK_TTL_MULTIPLIER) 15)\<rparr>)"

definition acquireOrRenewLock :: "collector \<Rightarrow> bool prog" where
  "acquireOrRenewLock c = catchP
     (bindP (setP COLLECTOR_LOCK_KEY (co_workerId c) (Some (co_lockTtlSeconds c)) True) (\<lambda>acquired.
        if acquired then Ret True
        else bindP (getP COLLECTOR_LOCK_KEY) (\<lambda>current.
          if current = Some (co_workerId c) then seqP (expireP COLLECTOR_LOCK_KEY (co_lockTtlSeconds c)) (Ret True)
          else Ret False))) (\<lambda>_. Ret False)"

definition collectOnce :: "key_schema \<Rightarrow> (string \<Rightarrow> (js_error + string list) list) \<Rightarrow> collector \<Rightarrow> unit prog" where
  "collectOnce sch scan c =
     (if \<not> co_enabled c then Ret ()
      else bindP (acquireOrRenewLock c) (\<lambda>held.
        if \<not> held then Ret ()
        else catchP (bindP (buildObservabilitySnapshot sch scan) (\<lambda>s. saveHistoryPointToRedis (buildHistoryPoint s))) (\<lambda>_. Ret ())))"

definition releaseLock :: "collector \<Rightarrow> unit prog" where
  "releaseLock c = catchP (bindP (getP COLLECTOR_LOCK_KEY) (\<lambda>current.
     if current = Some (co_workerId c) then delP COLLECTOR_LOCK_KEY else Ret ())) (\<lambda>_. Ret ())"

definition collector_snapshot :: "collector \<Rightarrow> jobj" where
  "collector_snapshot c = [(''worker_id'', JStr (co_workerId c)), (''enabled'', JBool (co_enabled c)),
     (''interval_ms'', JNum (co_intervalMs c)), (''lock_key'', JStr COLLECTOR_LOCK_KEY)]"


section \<open>What the collector does\<close>

lemma clusterScan_result: "(\<And>a. a \<in> set (scan pat) \<Longrightarrow> \<not> isl a) \<Longrightarrow> \<exists>ks. clusterScanIter scan pat = Ret ks"
  by (simp add: clusterScanIter_def find_None_iff [THEN iffD2] split: option.splits)

text \<open>The depth the code measures is that of the stream of the first schema only.\<close>

lemma depth_of_first_schema: "queue_depth_key t = ctrl_stream V1 t \<and> queue_depth_key t \<noteq> ctrl_stream V2 t"
  by (simp add: queue_depth_key_def ctrl_stream_def versioned_def V2_PREFIX_def)

definition within_two_hours :: "int \<Rightarrow> (string \<Rightarrow> int option) \<Rightarrow> string \<Rightarrow> int option" where
  "within_two_hours now z m = (case z m of None \<Rightarrow> None | Some sc \<Rightarrow> if sc \<le> now - REDIS_HISTORY_TTL_MS then None else Some sc)"

text \<open>Nothing but reads since `s`.\<close>

definition only_read :: "('s \<Rightarrow> view) \<Rightarrow> ('s \<Rightarrow> key set) \<Rightarrow> ('s \<Rightarrow> int) \<Rightarrow> 's \<Rightarrow> 's config \<Rightarrow> bool" where
  "only_read kv oth clk s \<sigma> \<longleftrightarrow> kv (fst \<sigma>) = kv s \<and> oth (fst \<sigma>) \<subseteq> oth s \<and> clk s \<le> clk (fst \<sigma>)"

lemma only_read_start [simp]: "only_read kv oth clk s (s, l)"
  by (simp add: only_read_def)

lemma only_read_step:
  "only_read kv oth clk s (s1, l) \<Longrightarrow> kv s2 = kv s1 \<Longrightarrow> oth s2 \<subseteq> oth s1 \<Longrightarrow> clk s1 \<le> clk s2 \<Longrightarrow> only_read kv oth clk s (s2, l')"
  by (auto simp: only_read_def)

context redis_available
begin

lemma wp_declared_types:
  "only_read kv oth clk s \<sigma> \<Longrightarrow>
   wp exec (declared_types sch ws) (\<lambda>_. only_read kv oth clk s) (\<lambda>_ _. False) \<sigma>"
  unfolding declared_types_def wp_bindP
  by (rule wp_mono [OF wp_foldP_inv [where I = "\<lambda>_ _. only_read kv oth clk s"]])
    (auto intro!: wp_smembersP elim!: only_read_step)

lemma wp_queue_depths:
  "only_read kv oth clk s \<sigma> \<Longrightarrow>
   wp exec (foldP (\<lambda>total t. bindP (getQueueDepth t) (\<lambda>n. Ret (total + n))) 0 ts)
     (\<lambda>total \<sigma>. 0 \<le> total \<and> only_read kv oth clk s \<sigma>) (\<lambda>_ _. False) \<sigma>"
  by (rule wp_foldP_inv [where I = "\<lambda>_ total \<sigma>. 0 \<le> total \<and> only_read kv oth clk s \<sigma>"])
    (auto simp: getQueueDepth_def intro!: wp_xlenP elim!: only_read_step)

lemma wp_snapshot:
  assumes "\<And>a. a \<in> set (scan (worker_online_lease_scan_pattern sch)) \<Longrightarrow> \<not> isl a" and start: "only_read kv oth clk s \<sigma>"
  shows "wp exec (buildObservabilitySnapshot sch scan)
     (\<lambda>sn \<sigma>. clk s \<le> os_generated_at sn \<and> only_read kv oth clk s \<sigma>) (\<lambda>_ _. False) \<sigma>"
proof -
  obtain ks where ks: "clusterScanIter scan (worker_online_lease_scan_pattern sch) = Ret ks"
    using clusterScan_result [of scan "worker_online_lease_scan_pattern sch"] assms by blast
  have stamp: "wp exec nowP (\<lambda>now \<sigma>. clk s \<le> now \<and> only_read kv oth clk s \<sigma>) (\<lambda>_ _. False) \<sigma>1"
    if "only_read kv oth clk s \<sigma>1" for \<sigma>1
    using that by (cases \<sigma>1) (auto intro!: wp_nowP elim: only_read_step simp: only_read_def)
  show ?thesis
    unfolding buildObservabilitySnapshot_def scanOnlineWorkerIds_def ks wp_bindP Let_def wp_Ret
    by (rule wp_mono [OF wp_declared_types [OF start]], rule wp_mono [OF wp_queue_depths], assumption)
      (auto intro!: stamp)
qed

lemma wp_lock_foreign:
  assumes "v_str (kv s) COLLECTOR_LOCK_KEY = Some other" "other \<noteq> co_workerId c" "co_lockTtlSeconds c \<noteq> 0"
  shows "wp exec (acquireOrRenewLock c) (\<lambda>held \<sigma>. \<not> held \<and> kv (fst \<sigma>) = kv s) (\<lambda>_ _. False) (s, l)"
  using assms by (auto simp: acquireOrRenewLock_def intro!: wp_setP_nx_any wp_getP)

lemma wp_lock_own:
  assumes "v_str (kv s) COLLECTOR_LOCK_KEY = Some (co_workerId c)
      \<or> v_str (kv s) COLLECTOR_LOCK_KEY = None \<and> COLLECTOR_LOCK_KEY \<notin> oth s" "co_lockTtlSeconds c \<noteq> 0"
  shows "wp exec (acquireOrRenewLock c) (\<lambda>held \<sigma>. held \<and> clk s \<le> clk (fst \<sigma>) \<and>
      v_str (kv (fst \<sigma>)) COLLECTOR_LOCK_KEY = Some (co_workerId c) \<and>
      v_zset (kv (fst \<sigma>)) REDIS_HISTORY_KEY = v_zset (kv s) REDIS_HISTORY_KEY) (\<lambda>_ _. False) (s, l)"
proof (cases "v_str (kv s) COLLECTOR_LOCK_KEY")
  case None
  then show ?thesis using assms
    by (auto simp: acquireOrRenewLock_def COLLECTOR_LOCK_KEY_def REDIS_HISTORY_KEY_def intro!: wp_setP_nx)
next
  case (Some x)
  then show ?thesis using assms
    by (auto simp: acquireOrRenewLock_def COLLECTOR_LOCK_KEY_def REDIS_HISTORY_KEY_def intro!: wp_setP_nx_any wp_getP wp_expireP)
qed

text \<open>The trend after a point was written: the point, and of the others those of the last two hours.\<close>

lemma wp_saveHistoryPoint:
  assumes "0 < hp_generated_at p"
  shows "wp exec (saveHistoryPointToRedis p) (\<lambda>_ \<sigma>. v_str (kv (fst \<sigma>)) = v_str (kv s) \<and>
      v_zset (kv (fst \<sigma>)) REDIS_HISTORY_KEY =
        within_two_hours (hp_generated_at p) ((v_zset (kv s) REDIS_HISTORY_KEY)(json_stringify (history_point_json p) \<mapsto> hp_generated_at p)))
      (\<lambda>_ _. False) (s, l)"
  using assms by (auto simp: saveHistoryPointToRedis_def within_two_hours_def intro!: wp_zaddP wp_zremuptoP)

lemma wp_collect_held:
  assumes "co_enabled c" "v_str (kv s) COLLECTOR_LOCK_KEY = Some (co_workerId c)
      \<or> v_str (kv s) COLLECTOR_LOCK_KEY = None \<and> COLLECTOR_LOCK_KEY \<notin> oth s" "co_lockTtlSeconds c \<noteq> 0"
    and "\<And>a. a \<in> set (scan (worker_online_lease_scan_pattern sch)) \<Longrightarrow> \<not> isl a" "0 < clk s"
  shows "wp exec (collectOnce sch scan c) (\<lambda>_ \<sigma>. v_str (kv (fst \<sigma>)) COLLECTOR_LOCK_KEY = Some (co_workerId c) \<and>
      (\<exists>p. clk s \<le> hp_generated_at p \<and> v_zset (kv (fst \<sigma>)) REDIS_HISTORY_KEY = within_two_hours (hp_generated_at p)
        ((v_zset (kv s) REDIS_HISTORY_KEY)(json_stringify (history_point_json p) \<mapsto> hp_generated_at p)))) (\<lambda>_ _. False) (s, l)"
proof -
  have at: "hp_generated_at (buildHistoryPoint sn) = os_generated_at sn" for sn
    by (simp add: buildHistoryPoint_def)
  let ?P = "\<lambda>(\<sigma>1 :: 'a config) \<sigma>. v_str (kv (fst \<sigma>)) COLLECTOR_LOCK_KEY = v_str (kv (fst \<sigma>1)) COLLECTOR_LOCK_KEY \<and>
      (\<exists>p. clk (fst \<sigma>1) \<le> hp_generated_at p \<and> v_zset (kv (fst \<sigma>)) REDIS_HISTORY_KEY = within_two_hours (hp_generated_at p)
        ((v_zset (kv (fst \<sigma>1)) REDIS_HISTORY_KEY)(json_stringify (history_point_json p) \<mapsto> hp_generated_at p)))"
  have point: "wp exec (saveHistoryPointToRedis (buildHistoryPoint sn)) (\<lambda>_. ?P \<sigma>1) (\<lambda>_ _. False) \<sigma>2"
    if "clk (fst \<sigma>1) \<le> os_generated_at sn" "only_read kv oth clk (fst \<sigma>1) \<sigma>2" "0 < clk (fst \<sigma>1)" for sn \<sigma>1 \<sigma>2
    using that by (cases \<sigma>2) (auto simp: at only_read_def intro!: wp_mono [OF wp_saveHistoryPoint] exI [of _ "buildHistoryPoint sn"])
  have pass: "wp exec (bindP (buildObservabilitySnapshot sch scan) (\<lambda>sn. saveHistoryPointToRedis (buildHistoryPoint sn)))
      (\<lambda>_. ?P \<sigma>1) (\<lambda>_ _. False) \<sigma>1" if "0 < clk (fst \<sigma>1)" for \<sigma>1
    unfolding wp_bindP
    by (rule wp_mono [OF wp_snapshot [OF assms(4), where s = "fst \<sigma>1"]], assumption, cases \<sigma>1, simp)
      (use that in \<open>auto intro!: point\<close>)
  show ?thesis
    unfolding collectOnce_def wp_bindP
    using assms(1,5) by (auto intro!: wp_mono [OF wp_lock_own [OF assms(2,3)]] wp_mono [OF pass, unfolded wp_bindP]) (metis order_trans)
qed

lemma wp_collect_foreign:
  assumes "v_str (kv s) COLLECTOR_LOCK_KEY = Some other" "other \<noteq> co_workerId c" "co_lockTtlSeconds c \<noteq> 0"
  shows "wp exec (collectOnce sch scan c) (\<lambda>_ \<sigma>. kv (fst \<sigma>) = kv s) (\<lambda>_ _. False) (s, l)"
  unfolding collectOnce_def wp_bindP by (auto intro!: wp_mono [OF wp_lock_foreign [OF assms]])

lemma wp_releaseLock:
  "wp exec (releaseLock c) (\<lambda>_ \<sigma>. kv (fst \<sigma>) = (if v_str (kv s) COLLECTOR_LOCK_KEY = Some (co_workerId c)
     then clear_key COLLECTOR_LOCK_KEY (kv s) else kv s)) (\<lambda>_ _. False) (s, l)"
  by (auto simp: releaseLock_def intro!: wp_getP wp_delP)

end

lemma collector_lock_ttl: "co_lockTtlSeconds (new_MetricsCollector env drawn w secs on) \<noteq> 0"
  by (simp add: new_MetricsCollector_def Let_def max_def)

text \<open>
  C36. One collector writes at a time. An enabled collector that finds the lock
  free, or its own, takes or renews it and writes one point, taken at or after the time
  of the call, so that the trend is the old one with the point, less what is two
  hours older than it or more; the pass never fails. While that lock is there, a pass of any
  collector with another id, and its release of the lock, leave the keyspace as it is,
  whereas the holder's release removes the lock.
\<close>

theorem one_collector_writes:
  assumes avail: "redis_available exec kv oth clk" and on: "co_enabled c" "co_lockTtlSeconds c \<noteq> 0" "0 < clk s"
    and lock: "v_str (kv s) COLLECTOR_LOCK_KEY = Some (co_workerId c)
      \<or> v_str (kv s) COLLECTOR_LOCK_KEY = None \<and> COLLECTOR_LOCK_KEY \<notin> oth s"
    and scan: "\<And>a. a \<in> set (scan (worker_online_lease_scan_pattern sch)) \<Longrightarrow> \<not> isl a"
  shows "\<exists>s1 p. s1 = final exec (collectOnce sch scan c) s \<and> result exec (collectOnce sch scan c) s = Inr ()
    \<and> clk s \<le> hp_generated_at p
    \<and> v_zset (kv s1) REDIS_HISTORY_KEY = within_two_hours (hp_generated_at p)
        ((v_zset (kv s) REDIS_HISTORY_KEY)(json_stringify (history_point_json p) \<mapsto> hp_generated_at p))
    \<and> v_str (kv s1) COLLECTOR_LOCK_KEY = Some (co_workerId c)
    \<and> (\<forall>c' sch' scan'. co_workerId c' \<noteq> co_workerId c \<and> co_lockTtlSeconds c' \<noteq> 0 \<longrightarrow>
        kv (final exec (collectOnce sch' scan' c') s1) = kv s1 \<and> kv (final exec (releaseLock c') s1) = kv s1)
    \<and> v_str (kv (final exec (releaseLock c) s1)) COLLECTOR_LOCK_KEY = None"
proof -
  let ?s1 = "final exec (collectOnce sch scan c) s"
  obtain p where run: "result exec (collectOnce sch scan c) s = Inr ()" "clk s \<le> hp_generated_at p"
    "v_zset (kv ?s1) REDIS_HISTORY_KEY = within_two_hours (hp_generated_at p)
        ((v_zset (kv s) REDIS_HISTORY_KEY)(json_stringify (history_point_json p) \<mapsto> hp_generated_at p))"
    and held: "v_str (kv ?s1) COLLECTOR_LOCK_KEY = Some (co_workerId c)"
    by (rule wp_total [OF redis_available.wp_collect_held [OF avail on(1) lock on(2) scan on(3)]]) auto
  have "kv (final exec (collectOnce sch' scan' c') ?s1) = kv ?s1 \<and> kv (final exec (releaseLock c') ?s1) = kv ?s1"
    if "co_workerId c' \<noteq> co_workerId c" "co_lockTtlSeconds c' \<noteq> 0" for c' sch' scan'
    using wp_result [OF redis_available.wp_collect_foreign [OF avail held that(1) [symmetric] that(2), of sch' scan' "[]"]]
      wp_result [OF redis_available.wp_releaseLock [OF avail, of c' ?s1 "[]"]] held that(1) by auto
  moreover have "v_str (kv (final exec (releaseLock c) ?s1)) COLLECTOR_LOCK_KEY = None"
    using wp_result [OF redis_available.wp_releaseLock [OF avail, of c ?s1 "[]"]] held by auto
  ultimately show ?thesis using run held by blast
qed

definition sample_collector :: "string \<Rightarrow> collector" where
  "sample_collector w = new_MetricsCollector (\<lambda>_. None) [] (Some w) (Some 5) (Some True)"

lemma js_trim_Nil: "js_trim [] = []"
proof -
  have "trim_left ws [] = []" for ws
    by (subst trim_left.simps) (auto simp: startsWith_iff find_None_iff [THEN iffD2])
  then show ?thesis by (simp add: js_trim_def)
qed

lemma sample_collector_simps:
  "co_enabled (sample_collector w)" "co_workerId (sample_collector w) = w" "co_lockTtlSeconds (sample_collector w) \<noteq> 0"
proof -
  have "[] \<notin> set DISABLED_VALUES" by (simp add: DISABLED_VALUES_def)
  then have "collector_envBool (\<lambda>_. None) n True" for n
    by (simp add: collector_envBool_def env_text_def Let_def ascii_lower_def js_trim_Nil)
  then show "co_enabled (sample_collector w)" "co_workerId (sample_collector w) = w"
    by (simp_all add: sample_collector_def new_MetricsCollector_def Let_def opt_or_def)
  show "co_lockTtlSeconds (sample_collector w) \<noteq> 0"
    unfolding sample_collector_def by (rule collector_lock_ttl)
qed

theorem one_collector_writes_witness:
  "\<exists>s1. result mock_exec (collectOnce V1 (\<lambda>_. []) (sample_collector ''a'')) (empty_mock 5) = Inr ()
     \<and> s1 = final mock_exec (collectOnce V1 (\<lambda>_. []) (sample_collector ''a'')) (empty_mock 5)
     \<and> v_str (mock_view s1) COLLECTOR_LOCK_KEY = Some ''a''
     \<and> mock_view (final mock_exec (collectOnce V1 (\<lambda>_. []) (sample_collector ''b'')) s1) = mock_view s1"
  using one_collector_writes [OF mock_server.redis_available_axioms, of "sample_collector ''a''" "empty_mock 5" "\<lambda>_. []" V1]
    sample_collector_simps [of "''a''"] sample_collector_simps [of "''b''"]
  by (auto simp: others_fresh)

end
