(* ===== verification/CollectorLoop.thy ===== *)
theory CollectorLoop
  imports Metrics
begin

text \<open>
  The timer of the metrics collector (src/metrics/collector.ts: start and stop) as a
  step relation: the timers that are armed, by their numbers, and how many
  passes are under way. A handle may outlive its timer; clearing it then does nothing.
  A pass is `collectOnce`; a stop also issues `releaseLock`, which it does not wait for.
\<close>

record collector_timer =
  ct_enabled :: bool
  ct_running :: bool
  ct_timer :: "nat option"
  ct_armed :: "nat list"
  ct_next :: nat
  ct_passes :: nat

definition new_collector_timer :: "collector \<Rightarrow> collector_timer" where
  "new_collector_timer c = \<lparr>ct_enabled = co_enabled c, ct_running = False, ct_timer = None, ct_armed = [], ct_next = 0, ct_passes = 0\<rparr>"

definition arm_timer :: "collector_timer \<Rightarrow> collector_timer" where
  "arm_timer s = s\<lparr>ct_timer := Some (ct_next s), ct_armed := ct_next s # ct_armed s, ct_next := Suc (ct_next s)\<rparr>"

definition collector_start :: "collector_timer \<Rightarrow> collector_timer" where
  "collector_start s = (if \<not> ct_enabled s \<or> ct_running s then s else arm_timer (s\<lparr>ct_running := True\<rparr>))"

definition collector_stop :: "collector_timer \<Rightarrow> collector_timer" where
  "collector_stop s = (case ct_timer s of None \<Rightarrow> s\<lparr>ct_running := False\<rparr>
     | Some i \<Rightarrow> s\<lparr>ct_running := False, ct_armed := remove1 i (ct_armed s), ct_timer := None\<rparr>)"

definition tick_begins :: "nat \<Rightarrow> collector_timer \<Rightarrow> collector_timer" where
  "tick_begins i s = (let s1 = s\<lparr>ct_armed := remove1 i (ct_armed s)\<rparr>
     in if \<not> ct_running s1 then s1 else s1\<lparr>ct_passes := Suc (ct_passes s1)\<rparr>)"

definition tick_ends :: "collector_timer \<Rightarrow> collector_timer" where
  "tick_ends s = (let s1 = s\<lparr>ct_passes := ct_passes s - 1\<rparr> in if ct_running s1 then arm_timer s1 else s1)"

inductive collector_moves :: "collector_timer \<Rightarrow> collector_timer \<Rightarrow> bool" where
  starts: "ct_running s \<or> ct_passes s = 0 \<Longrightarrow> collector_moves s (collector_start s)"
| stops: "collector_moves s (collector_stop s)"
| fires: "i \<in> set (ct_armed s) \<Longrightarrow> collector_moves s (tick_begins i s)"
| ends: "0 < ct_passes s \<Longrightarrow> collector_moves s (tick_ends s)"

text \<open>One timer or one pass, as long as it is not started again while a pass is under way.\<close>

definition timer_inv :: "collector_timer \<Rightarrow> bool" where
  "timer_inv s \<longleftrightarrow> length (ct_armed s) + ct_passes s \<le> 1 \<and> (\<forall>i \<in> set (ct_armed s). ct_timer s = Some i)
     \<and> (ct_running s \<longrightarrow> length (ct_armed s) + ct_passes s = 1) \<and> (\<not> ct_running s \<longrightarrow> ct_armed s = [])"

lemma moves_keep_timer: "collector_moves s s' \<Longrightarrow> timer_inv s \<Longrightarrow> timer_inv s'"
proof (induction rule: collector_moves.induct)
  case (stops s)
  then show ?case
    by (cases "ct_armed s") (auto simp: timer_inv_def collector_stop_def split: option.splits)
next
  case (fires i s)
  then show ?case
    by (cases "ct_armed s") (auto simp: timer_inv_def tick_begins_def Let_def)
next
  case (ends s)
  then show ?case
    by (cases "ct_armed s") (auto simp: timer_inv_def tick_ends_def arm_timer_def Let_def)
qed (auto simp: timer_inv_def collector_start_def arm_timer_def)

lemma one_collector_timer:
  assumes "collector_moves\<^sup>*\<^sup>* (new_collector_timer c) s"
  shows "length (ct_armed s) + ct_passes s \<le> 1 \<and> (\<not> ct_running s \<longrightarrow> ct_armed s = [])"
proof -
  have "timer_inv s" using assms
    by (induction rule: rtranclp_induct) (simp add: timer_inv_def new_collector_timer_def, rule moves_keep_timer)
  then show ?thesis by (simp add: timer_inv_def)
qed

text \<open>A start during the pass that a stop has left running gives two chains of timers, of which a stop clears one.\<close>

lemma restart_doubles_example:
  "\<exists>s. foldl (\<lambda>t f. f t) (new_collector_timer (sample_collector ''a''))
       [collector_start, tick_begins 0, collector_stop, collector_start, tick_ends, collector_stop] = s
     \<and> \<not> ct_running s \<and> ct_armed s = [1]"
  using sample_collector_simps(1) [of "''a''"]
  by (simp add: new_collector_timer_def collector_start_def tick_begins_def collector_stop_def tick_ends_def arm_timer_def Let_def)

end
