(* ===== verification/History.thy ===== *)
theory History
  imports Plugins
begin

text \<open>
  The history of a session's messages (src/history.ts,
  src/runtime/history/backends/in_memory.ts), and what a session and the state of a
  running agent keep (src/runtime/session_manager.ts, agent_runtime_state.ts). The
  storage is exchangeable: `history_laws` is what its users rely on.
\<close>

section \<open>The storages in memory\<close>

record history_message =
  hm_role :: string
  hm_content :: json
  hm_metadata :: jobj

type_synonym history_data = "(string \<times> history_message list) list"

definition messages_of :: "history_data \<Rightarrow> string \<Rightarrow> history_message list" where
  "messages_of d sid = opt_or (map_of d sid) []"

definition save_message :: "string \<Rightarrow> string \<Rightarrow> json \<Rightarrow> jobj option \<Rightarrow> history_data \<Rightarrow> history_data" where
  "save_message sid role content meta d =
     AList.update sid (messages_of d sid @ [\<lparr>hm_role = role, hm_content = content, hm_metadata = opt_or meta []\<rparr>]) d"

text \<open>`xs.slice(-limit)`.\<close>

definition slice_back :: "int \<Rightarrow> 'a list \<Rightarrow> 'a list" where
  "slice_back limit xs = (if 0 < limit then drop (length xs - nat limit) xs else drop (nat (- limit)) xs)"

definition backend_getHistory :: "string \<Rightarrow> int \<Rightarrow> history_data \<Rightarrow> history_message list" where
  "backend_getHistory sid limit d = slice_back limit (messages_of d sid)"

definition getSessionHistory :: "string \<Rightarrow> int \<Rightarrow> history_data \<Rightarrow> history_message list" where
  "getSessionHistory sid limit d = (if limit \<le> 0 then messages_of d sid else slice_back limit (messages_of d sid))"


section \<open>Sessions\<close>

text \<open>The backend of a session and the data it works on; the file manager is a value of any kind here.\<close>

record 's history_backend =
  hb_save :: "string \<Rightarrow> string \<Rightarrow> json \<Rightarrow> jobj option \<Rightarrow> 's \<Rightarrow> 's"
  hb_get :: "string \<Rightarrow> int \<Rightarrow> 's \<Rightarrow> history_message list"

definition InMemoryHistoryBackend :: "history_data history_backend" where
  "InMemoryHistoryBackend = \<lparr>hb_save = save_message, hb_get = backend_getHistory\<rparr>"

definition InMemoryHistoryStorage :: "history_data history_backend" where
  "InMemoryHistoryStorage = \<lparr>hb_save = save_message, hb_get = getSessionHistory\<rparr>"

record ('s, 'f) session_manager =
  sm_sessionId :: string
  sm_userCode :: "string option"
  sm_userName :: "string option"
  sm_fileManager :: 'f
  sm_backend :: "'s history_backend"
  sm_messageCount :: nat

definition new_SessionManager :: "string \<Rightarrow> string option \<Rightarrow> string option \<Rightarrow> 'f \<Rightarrow> (history_data, 'f) session_manager" where
  "new_SessionManager sid code name fm = \<lparr>sm_sessionId = sid, sm_userCode = code, sm_userName = name, sm_fileManager = fm,
     sm_backend = InMemoryHistoryBackend, sm_messageCount = 0\<rparr>"

definition setHistoryBackend :: "'s history_backend \<Rightarrow> ('t, 'f) session_manager \<Rightarrow> ('s, 'f) session_manager" where
  "setHistoryBackend b sm = \<lparr>sm_sessionId = sm_sessionId sm, sm_userCode = sm_userCode sm, sm_userName = sm_userName sm,
     sm_fileManager = sm_fileManager sm, sm_backend = b, sm_messageCount = sm_messageCount sm\<rparr>"

definition sm_saveMessage :: "string \<Rightarrow> json \<Rightarrow> jobj option \<Rightarrow> ('s, 'f) session_manager \<times> 's \<Rightarrow> ('s, 'f) session_manager \<times> 's" where
  "sm_saveMessage role content meta = (\<lambda>(sm, s).
     (sm\<lparr>sm_messageCount := Suc (sm_messageCount sm)\<rparr>, hb_save (sm_backend sm) (sm_sessionId sm) role content meta s))"

definition sm_getHistory :: "int \<Rightarrow> ('s, 'f) session_manager \<times> 's \<Rightarrow> history_message list" where
  "sm_getHistory limit = (\<lambda>(sm, s). hb_get (sm_backend sm) (sm_sessionId sm) limit s)"

text \<open>The state of a running agent: its session and its configurations.\<close>

record 'f agent_runtime_state =
  ar_sessionManager :: "(history_data, 'f) session_manager"
  ar_configManager :: config_manager

definition new_AgentRuntimeState :: "string \<Rightarrow> string option \<Rightarrow> string option \<Rightarrow> 'f \<Rightarrow> agent_config list option
    \<Rightarrow> js_error + 'f agent_runtime_state" where
  "new_AgentRuntimeState sid code name fm configs = (case new_AgentConfigManager configs of
     Inl e \<Rightarrow> Inl e
   | Inr m \<Rightarrow> Inr \<lparr>ar_sessionManager = new_SessionManager sid code name fm, ar_configManager = m\<rparr>)"


section \<open>Storage as an interface\<close>

locale history_laws =
  fixes b :: "'s history_backend"
  assumes saved: "0 < limit \<Longrightarrow>
      hb_get b sid limit (hb_save b sid role content meta s)
        = slice_back limit (hb_get b sid limit s @ [\<lparr>hm_role = role, hm_content = content, hm_metadata = opt_or meta []\<rparr>])"
    and others: "sid' \<noteq> sid \<Longrightarrow> hb_get b sid' limit (hb_save b sid role content meta s) = hb_get b sid' limit s"
begin

lemma slice_twice: "0 < limit \<Longrightarrow> slice_back limit (slice_back limit xs @ ys) = slice_back limit (xs @ ys)"
  by (cases "length xs \<le> nat limit") (auto simp: slice_back_def drop_append add.commute)

text \<open>Any sequence of saves, of any sessions.\<close>

lemma saved_all:
  "0 < limit \<Longrightarrow> hb_get b sid limit s = slice_back limit xs \<Longrightarrow>
   hb_get b sid limit (fold (\<lambda>(i, role, content, meta). hb_save b i role content meta) ms s)
     = slice_back limit (xs @ List.map (\<lambda>(i, role, content, meta). \<lparr>hm_role = role, hm_content = content, hm_metadata = opt_or meta []\<rparr>)
         (filter (\<lambda>m. fst m = sid) ms))"
proof (induction ms arbitrary: s xs)
  case (Cons m ms)
  obtain i role content meta where m: "m = (i, role, content, meta)" by (cases m) auto
  show ?case
  proof (cases "i = sid")
    case True
    have "hb_get b sid limit (hb_save b sid role content meta s)
        = slice_back limit (xs @ [\<lparr>hm_role = role, hm_content = content, hm_metadata = opt_or meta []\<rparr>])"
      using Cons.prems by (simp add: saved slice_twice)
    from Cons.IH [OF Cons.prems(1) this] show ?thesis using True by (simp add: m)
  next
    case False
    then show ?thesis using Cons.IH [OF Cons.prems(1), of "hb_save b i role content meta s" xs] Cons.prems by (simp add: m others)
  qed
qed simp

end

lemma messages_of_save:
  "messages_of (save_message sid role content meta d) sid' =
     (if sid' = sid then messages_of d sid @ [\<lparr>hm_role = role, hm_content = content, hm_metadata = opt_or meta []\<rparr>] else messages_of d sid')"
  by (simp add: save_message_def messages_of_def update_conv opt_or_def)

lemma slice_back_snoc: "0 < limit \<Longrightarrow> slice_back limit (slice_back limit xs @ [x]) = slice_back limit (xs @ [x])"
  by (cases "length xs \<le> nat limit") (auto simp: slice_back_def drop_append Suc_diff_le)

interpretation memory_backend: history_laws InMemoryHistoryBackend
  by unfold_locales (simp_all add: InMemoryHistoryBackend_def backend_getHistory_def messages_of_save slice_back_snoc)

interpretation memory_storage: history_laws InMemoryHistoryStorage
  by unfold_locales (simp_all add: InMemoryHistoryStorage_def getSessionHistory_def messages_of_save slice_back_snoc)

text \<open>The two storages agree but for a negative limit, which the one takes for no limit and the other for a start.\<close>

lemma storages_agree: "0 \<le> limit \<Longrightarrow> backend_getHistory sid limit d = getSessionHistory sid limit d"
  by (auto simp: backend_getHistory_def getSessionHistory_def slice_back_def)

lemma storages_differ_example:
  "backend_getHistory ''s'' (- 1) (save_message ''s'' ''user'' (JStr ''hi'') None []) = []"
  "length (getSessionHistory ''s'' (- 1) (save_message ''s'' ''user'' (JStr ''hi'') None [])) = 1"
  by (simp_all add: backend_getHistory_def getSessionHistory_def slice_back_def messages_of_save) (simp_all add: messages_of_def opt_or_def)

text \<open>
  A session gets its own messages back in order. After any sequence of saves to
  the storage, for whatever sessions, a history with a positive limit is the last
  messages of that session in the order they were saved, with both storages
  in memory, and nothing else.
\<close>

lemma history_in_order:
  assumes "0 < limit"
  shows "hb_get InMemoryHistoryBackend sid limit (fold (\<lambda>(i, role, content, meta). save_message i role content meta) ms [])
      = slice_back limit (List.map (\<lambda>(i, role, content, meta). \<lparr>hm_role = role, hm_content = content, hm_metadata = opt_or meta []\<rparr>)
          (filter (\<lambda>m. fst m = sid) ms))
    \<and> hb_get InMemoryHistoryStorage sid limit (fold (\<lambda>(i, role, content, meta). save_message i role content meta) ms [])
      = slice_back limit (List.map (\<lambda>(i, role, content, meta). \<lparr>hm_role = role, hm_content = content, hm_metadata = opt_or meta []\<rparr>)
          (filter (\<lambda>m. fst m = sid) ms))"
  using memory_backend.saved_all [OF assms, of sid "[]" "[]" ms] memory_storage.saved_all [OF assms, of sid "[]" "[]" ms]
  by (simp add: InMemoryHistoryBackend_def InMemoryHistoryStorage_def backend_getHistory_def getSessionHistory_def messages_of_def opt_or_def slice_back_def)

lemma history_in_order_example:
  "hb_get InMemoryHistoryBackend ''s'' 1 (fold (\<lambda>(i, role, content, meta). save_message i role content meta)
      [(''s'', ''user'', JStr ''hi'', None), (''t'', ''user'', JStr ''x'', None), (''s'', ''agent'', JStr ''yes'', None)] [])
    = [\<lparr>hm_role = ''agent'', hm_content = JStr ''yes'', hm_metadata = []\<rparr>]"
  using history_in_order [of 1 "''s''" "[(''s'', ''user'', JStr ''hi'', None), (''t'', ''user'', JStr ''x'', None), (''s'', ''agent'', JStr ''yes'', None)]"]
  by (simp add: slice_back_def opt_or_def)

end
