(* ===== verification/Files.thy ===== *)
theory Files
  imports HttpClient "HOL-Library.Sublist"
begin

text \<open>
  Files: the storage of a session (src/runtime/file_manager.ts over
  src/runtime/filestore/local.ts), the workspace of a task (src/workspace.ts) and
  the check of the hook sandbox (src/sandbox.ts), with the parts of Node's `path`
  and `fs` they use, on POSIX.

  A file system is a list of what exists below the root, by the names on the way
  to it, without links and permissions. A directory lists its entries in the
  order in which they were made. The working directory `cwd` is an absolute path.
\<close>

section \<open>Paths\<close>

fun segments :: "string \<Rightarrow> string list" where
  "segments [] = [[]]"
| "segments (c # cs) = (if c = CHR ''/'' then [] # segments cs else (case segments cs of s # ss \<Rightarrow> (c # s) # ss | [] \<Rightarrow> [[c]]))"

definition add_segment :: "bool \<Rightarrow> string list \<Rightarrow> string \<Rightarrow> string list" where
  "add_segment upward res s =
     (if s = [] \<or> s = ''.'' then res
      else if s = ''..'' then (if res \<noteq> [] \<and> last res \<noteq> ''..'' then butlast res else if upward then res @ [''..''] else res)
      else res @ [s])"

definition normal_segments :: "bool \<Rightarrow> string list \<Rightarrow> string list" where
  "normal_segments upward ss = foldl (add_segment upward) [] ss"

definition path_normalize :: "string \<Rightarrow> string" where
  "path_normalize p =
     (let absolute = startsWith p ''/''; trailing = endsWith p ''/''; t = intercalate ''/'' (normal_segments (\<not> absolute) (segments p))
      in if p = [] then ''.''
         else if t = [] then (if absolute then ''/'' else if trailing then ''./'' else ''.'')
         else (if absolute then ''/'' else []) @ t @ (if trailing then ''/'' else []))"

definition path_join :: "string list \<Rightarrow> string" where
  "path_join ps = (let qs = filter (\<lambda>p. p \<noteq> []) ps in if qs = [] then ''.'' else path_normalize (intercalate ''/'' qs))"

text \<open>The directory part of a normalised path.\<close>

definition path_dirname :: "string \<Rightarrow> string" where
  "path_dirname p =
     (let q = dropWhile (\<lambda>c. c = CHR ''/'') (rev p); cut = dropWhile (\<lambda>c. c \<noteq> CHR ''/'') q
      in if q = [] then (if p = [] then ''.'' else ''/'')
         else if cut = [] then ''.''
         else if tl cut = [] then ''/'' else rev (tl cut))"

text \<open>Where a path leads: the names from the root.\<close>

definition place :: "string \<Rightarrow> string \<Rightarrow> string list" where
  "place cwd p = normal_segments False (segments (if startsWith p ''/'' then p else cwd @ ''/'' @ p))"

definition path_resolve :: "string \<Rightarrow> string \<Rightarrow> string" where
  "path_resolve cwd p = CHR ''/'' # intercalate ''/'' (place cwd p)"


section \<open>A file system\<close>

datatype node = Directory | File string

datatype fs_error = ENOENT | ENOTDIR | EISDIR | EEXIST | FileExists string

type_synonym filesystem = "(string list \<times> node) list"

definition node_at :: "filesystem \<Rightarrow> string list \<Rightarrow> node option" where
  "node_at fs p = (if p = [] then Some Directory else map_of fs p)"

text \<open>A file on the way to a name, and the directories on the way, with the last one.\<close>

definition under_file :: "filesystem \<Rightarrow> string list \<Rightarrow> bool" where
  "under_file fs p \<longleftrightarrow> list_ex (\<lambda>q. q \<noteq> p \<and> (case node_at fs q of Some (File _) \<Rightarrow> True | _ \<Rightarrow> False)) (prefixes p)"

definition missing :: "filesystem \<Rightarrow> string list \<Rightarrow> fs_error" where
  "missing fs p = (if under_file fs p then ENOTDIR else ENOENT)"

definition fs_mkdir :: "filesystem \<Rightarrow> string list \<Rightarrow> fs_error + filesystem" where
  "fs_mkdir fs p =
     (if under_file fs p then Inl ENOTDIR
      else (case node_at fs p of
          Some (File _) \<Rightarrow> Inl EEXIST
        | _ \<Rightarrow> Inr (fold (\<lambda>q fs. if node_at fs q = None then fs @ [(q, Directory)] else fs) (prefixes p) fs)))"

definition fs_stat :: "string \<Rightarrow> filesystem \<Rightarrow> string \<Rightarrow> fs_error + node" where
  "fs_stat cwd fs p = (case node_at fs (place cwd p) of
     None \<Rightarrow> Inl (missing fs (place cwd p))
   | Some (File x) \<Rightarrow> if endsWith p ''/'' then Inl ENOTDIR else Inr (File x)
   | Some Directory \<Rightarrow> Inr Directory)"

definition fs_readFile :: "string \<Rightarrow> filesystem \<Rightarrow> string \<Rightarrow> fs_error + string" where
  "fs_readFile cwd fs p = (case fs_stat cwd fs p of
     Inl e \<Rightarrow> Inl e | Inr Directory \<Rightarrow> Inl EISDIR | Inr (File x) \<Rightarrow> Inr x)"

definition fs_writeFile :: "string \<Rightarrow> string \<Rightarrow> string \<Rightarrow> filesystem \<Rightarrow> (fs_error + unit) \<times> filesystem" where
  "fs_writeFile cwd p x fs =
     (let q = place cwd p in case node_at fs q of
        Some Directory \<Rightarrow> (Inl EISDIR, fs)
      | Some (File _) \<Rightarrow> if endsWith p ''/'' then (Inl ENOTDIR, fs) else (Inr (), AList.update q (File x) fs)
      | None \<Rightarrow>
          if node_at fs (butlast q) \<noteq> Some Directory then (Inl (missing fs q), fs)
          else if endsWith p ''/'' then (Inl EISDIR, fs)
          else (Inr (), AList.update q (File x) fs))"

definition fs_remove :: "string list \<Rightarrow> filesystem \<Rightarrow> filesystem" where
  "fs_remove p fs = filter (\<lambda>(q, _). \<not> prefix p q) fs"

text \<open>The names in a directory.\<close>

definition fs_readdir :: "filesystem \<Rightarrow> string list \<Rightarrow> string list" where
  "fs_readdir fs p = List.map (\<lambda>(q, _). last q) (filter (\<lambda>(q, _). q \<noteq> [] \<and> butlast q = p) fs)"


section \<open>Local storage\<close>

text \<open>`s.replace('\\', '/')` replaces the first backslash.\<close>

definition slash_first :: "string \<Rightarrow> string" where
  "slash_first s = (let a = takeWhile (\<lambda>c. c \<noteq> CHR 92) s; b = dropWhile (\<lambda>c. c \<noteq> CHR 92) s
     in if b = [] then a else a @ CHR ''/'' # tl b)"

definition slashes :: "string \<Rightarrow> string" where
  "slashes s = List.map (\<lambda>c. if c = CHR 92 then CHR ''/'' else c) s"

definition getFullPath :: "string \<Rightarrow> string \<Rightarrow> string" where
  "getFullPath baseDir rel = path_join [baseDir, dropWhile (\<lambda>c. c = CHR ''/'' \<or> c = CHR 92) (slash_first rel)]"

text \<open>The interface `FileStorage`, over a state of the outside world.\<close>

record 's file_storage =
  st_initialize :: "'s \<Rightarrow> (fs_error + unit) \<times> 's"
  st_shutdown :: "'s \<Rightarrow> (fs_error + unit) \<times> 's"
  st_write :: "string \<Rightarrow> string \<Rightarrow> 's \<Rightarrow> (fs_error + unit) \<times> 's"
  st_read :: "string \<Rightarrow> 's \<Rightarrow> fs_error + string"
  st_delete :: "string \<Rightarrow> 's \<Rightarrow> (fs_error + unit) \<times> 's"
  st_exists :: "string \<Rightarrow> 's \<Rightarrow> bool"
  st_isFile :: "string \<Rightarrow> 's \<Rightarrow> bool"
  st_isDir :: "string \<Rightarrow> 's \<Rightarrow> bool"
  st_list :: "string \<Rightarrow> 's \<Rightarrow> fs_error + string list"
  st_getUrl :: "string \<Rightarrow> string"

definition local_initialize :: "string \<Rightarrow> string \<Rightarrow> filesystem \<Rightarrow> (fs_error + unit) \<times> filesystem" where
  "local_initialize cwd baseDir fs = (case fs_mkdir fs (place cwd baseDir) of Inl e \<Rightarrow> (Inl e, fs) | Inr fs' \<Rightarrow> (Inr (), fs'))"

definition local_write :: "string \<Rightarrow> string \<Rightarrow> string \<Rightarrow> string \<Rightarrow> filesystem \<Rightarrow> (fs_error + unit) \<times> filesystem" where
  "local_write cwd baseDir rel content fs =
     (let full = getFullPath baseDir rel in
      case fs_mkdir fs (place cwd (path_dirname full)) of
        Inl e \<Rightarrow> (Inl e, fs)
      | Inr fs' \<Rightarrow> fs_writeFile cwd full content fs')"

definition local_read :: "string \<Rightarrow> string \<Rightarrow> string \<Rightarrow> filesystem \<Rightarrow> fs_error + string" where
  "local_read cwd baseDir rel fs = fs_readFile cwd fs (getFullPath baseDir rel)"

definition local_delete :: "string \<Rightarrow> string \<Rightarrow> string \<Rightarrow> filesystem \<Rightarrow> (fs_error + unit) \<times> filesystem" where
  "local_delete cwd baseDir rel fs =
     (let full = getFullPath baseDir rel in case fs_stat cwd fs full of
        Inl e \<Rightarrow> (Inl e, fs) | Inr _ \<Rightarrow> (Inr (), fs_remove (place cwd full) fs))"

definition local_exists :: "string \<Rightarrow> string \<Rightarrow> string \<Rightarrow> filesystem \<Rightarrow> bool" where
  "local_exists cwd baseDir rel fs \<longleftrightarrow> \<not> isl (fs_stat cwd fs (getFullPath baseDir rel))"

definition local_isFile :: "string \<Rightarrow> string \<Rightarrow> string \<Rightarrow> filesystem \<Rightarrow> bool" where
  "local_isFile cwd baseDir rel fs \<longleftrightarrow> (case fs_stat cwd fs (getFullPath baseDir rel) of Inr (File _) \<Rightarrow> True | _ \<Rightarrow> False)"

definition local_isDir :: "string \<Rightarrow> string \<Rightarrow> string \<Rightarrow> filesystem \<Rightarrow> bool" where
  "local_isDir cwd baseDir rel fs \<longleftrightarrow> fs_stat cwd fs (getFullPath baseDir rel) = Inr Directory"

text \<open>`path.relative` of an entry of a directory is the entry's name, its backslashes replaced.\<close>

definition local_list :: "string \<Rightarrow> string \<Rightarrow> string \<Rightarrow> filesystem \<Rightarrow> fs_error + string list" where
  "local_list cwd baseDir dirPath fs =
     (let full = getFullPath baseDir dirPath in
      if fs_stat cwd fs full \<noteq> Inr Directory then Inr []
      else Inr (List.map slashes (fs_readdir fs (place cwd full))))"

definition local_getUrl :: "string \<Rightarrow> string \<Rightarrow> string" where
  "local_getUrl baseDir rel = slashes (getFullPath baseDir rel)"

definition LocalFileStorage :: "string \<Rightarrow> string \<Rightarrow> filesystem file_storage" where
  "LocalFileStorage cwd baseDir = \<lparr>st_initialize = local_initialize cwd baseDir, st_shutdown = (\<lambda>fs. (Inr (), fs)),
     st_write = local_write cwd baseDir, st_read = local_read cwd baseDir, st_delete = local_delete cwd baseDir,
     st_exists = local_exists cwd baseDir, st_isFile = local_isFile cwd baseDir, st_isDir = local_isDir cwd baseDir,
     st_list = local_list cwd baseDir, st_getUrl = local_getUrl baseDir\<rparr>"


section \<open>The file manager of a session\<close>

record 's file_manager =
  fm_sessionId :: string
  fm_storage :: "'s file_storage"

text \<open>Without a storage of the caller's the manager makes a local one.\<close>

definition default_storage_dir :: "string option \<Rightarrow> string \<Rightarrow> string" where
  "default_storage_dir workspaceDir sid = str_or (opt_or workspaceDir []) ''workspace'' @ ''/session_'' @ sid"

definition new_FileManager :: "string \<Rightarrow> 's file_storage \<Rightarrow> 's file_manager" where
  "new_FileManager sid st = \<lparr>fm_sessionId = sid, fm_storage = st\<rparr>"

definition new_local_FileManager :: "string \<Rightarrow> string \<Rightarrow> string option \<Rightarrow> filesystem file_manager" where
  "new_local_FileManager cwd sid workspaceDir = new_FileManager sid (LocalFileStorage cwd (default_storage_dir workspaceDir sid))"

definition fm_workspaceDir :: "'s file_manager \<Rightarrow> string" where
  "fm_workspaceDir m = ''session_'' @ fm_sessionId m"

definition readFile :: "'s file_manager \<Rightarrow> string \<Rightarrow> 's \<Rightarrow> fs_error + string" where
  "readFile m filename s = st_read (fm_storage m) filename s"

definition writeFile :: "'s file_manager \<Rightarrow> string \<Rightarrow> string \<Rightarrow> bool \<Rightarrow> 's \<Rightarrow> (fs_error + unit) \<times> 's" where
  "writeFile m filename content overwrite s =
     (if \<not> overwrite \<and> st_exists (fm_storage m) filename s
      then (Inl (FileExists (''File '' @ filename @ '' already exists'')), s)
      else st_write (fm_storage m) filename content s)"

definition listFiles :: "'s file_manager \<Rightarrow> string \<Rightarrow> 's \<Rightarrow> fs_error + string list" where
  "listFiles m directory s = (case st_list (fm_storage m) directory s of
     Inl e \<Rightarrow> Inl e
   | Inr items \<Rightarrow> Inr (filter (\<lambda>item. st_isFile (fm_storage m)
       (if directory \<noteq> [] then directory @ ''/'' @ item else item) s) items))"

definition getFileUrl :: "'s file_manager \<Rightarrow> string \<Rightarrow> string" where
  "getFileUrl m filename = st_getUrl (fm_storage m) filename"


section \<open>Workspaces\<close>

record workspace_paths =
  ws_root :: string
  ws_public :: string
  ws_private :: string
  ws_history_db :: string

definition workspacePaths :: "string \<Rightarrow> string \<Rightarrow> string \<Rightarrow> workspace_paths" where
  "workspacePaths baseDir sid taskId =
     (let sessionDir = path_join [baseDir, sid]; publicDir = path_join [sessionDir, ''public''] in
      \<lparr>ws_root = sessionDir, ws_public = publicDir, ws_private = path_join [sessionDir, ''private'', taskId],
       ws_history_db = path_join [publicDir, ''session'', ''history.json'']\<rparr>)"

definition workspace_dirs :: "workspace_paths \<Rightarrow> string list" where
  "workspace_dirs ws = List.map (\<lambda>d. path_join [ws_public ws, d]) [''session'', path_join [''memory'', ''local_db''], ''agent_skills'']
     @ List.map (\<lambda>d. path_join [ws_private ws, d]) [''input'', ''temp'', ''output'', ''system'']"

fun make_dirs :: "string \<Rightarrow> string list \<Rightarrow> filesystem \<Rightarrow> (fs_error + unit) \<times> filesystem" where
  "make_dirs cwd [] fs = (Inr (), fs)"
| "make_dirs cwd (d # ds) fs = (case fs_mkdir fs (place cwd d) of Inl e \<Rightarrow> (Inl e, fs) | Inr fs' \<Rightarrow> make_dirs cwd ds fs')"

definition setupWorkspace :: "string \<Rightarrow> string \<Rightarrow> string \<Rightarrow> string \<Rightarrow> filesystem \<Rightarrow> (fs_error + workspace_paths) \<times> filesystem" where
  "setupWorkspace cwd baseDir sid taskId fs =
     (let ws = workspacePaths baseDir sid taskId in case make_dirs cwd (workspace_dirs ws) fs of
        (Inl e, fs') \<Rightarrow> (Inl e, fs') | (Inr _, fs') \<Rightarrow> (Inr ws, fs'))"

definition cleanupTask :: "string \<Rightarrow> string \<Rightarrow> string \<Rightarrow> string \<Rightarrow> filesystem \<Rightarrow> filesystem" where
  "cleanupTask cwd baseDir sid taskId fs = fs_remove (place cwd (path_join [baseDir, sid, ''private'', taskId])) fs"


section \<open>The sandbox\<close>

definition assertPathAllowed :: "string \<Rightarrow> string \<Rightarrow> string \<Rightarrow> js_error + unit" where
  "assertPathAllowed cwd activeWorkspace filePath =
     (if activeWorkspace = [] then Inr ()
      else if \<not> startsWith (path_resolve cwd filePath) (path_resolve cwd activeWorkspace)
      then Inl (JsError (''[Sandbox] Access denied to path outside workspace: '' @ filePath))
      else Inr ())"

text \<open>
  The active workspace is a variable of the module. The worker's `handleMessage`
  remembers it when a task begins, sets it once the task's workspace is there,
  and puts the remembered one back when the task ends; what each running task
  remembers is a map here.
\<close>

datatype task_event = Enter string | SetUp string string | Leave string

record workspace_state =
  wk_active :: string
  wk_remembered :: "(string \<times> string) list"

fun workspace_step :: "task_event \<Rightarrow> workspace_state \<Rightarrow> workspace_state" where
  "workspace_step (Enter t) s = s\<lparr>wk_remembered := (t, wk_active s) # wk_remembered s\<rparr>"
| "workspace_step (SetUp t private) s = (if private = [] then s else s\<lparr>wk_active := private\<rparr>)"
| "workspace_step (Leave t) s = s\<lparr>wk_active := opt_or (map_of (wk_remembered s) t) [], wk_remembered := AList.delete t (wk_remembered s)\<rparr>"

definition workspace_steps :: "task_event list \<Rightarrow> workspace_state \<Rightarrow> workspace_state" where
  "workspace_steps es s = fold workspace_step es s"

end
