(* ===== verification/FileProperties.thy ===== *)
theory FileProperties
  imports Files
begin

text \<open>
  What the file components guarantee, and where they do not: the sandbox compares
  paths as text, and the variable it looks at is shared by all tasks; the
  storage of a session reads back what was written, and stays below its directory
  for names without `..`.
\<close>

section \<open>Paths\<close>

definition slash_free :: "string \<Rightarrow> bool" where
  "slash_free s \<longleftrightarrow> CHR ''/'' \<notin> set s"

definition plain_name :: "string \<Rightarrow> bool" where
  "plain_name s \<longleftrightarrow> slash_free s \<and> s \<noteq> [] \<and> s \<noteq> ''.'' \<and> s \<noteq> ''..''"

lemma segments_not_Nil [simp]: "segments s \<noteq> []"
  by (cases s) (auto split: list.splits)

lemma segments_slash: "segments (a @ CHR ''/'' # b) = segments a @ segments b"
  by (induction a) (auto split: list.splits)

lemma segments_free: "slash_free s \<Longrightarrow> segments s = [s]"
  by (induction s) (auto simp: slash_free_def)

lemma segments_all_free: "x \<in> set (segments s) \<Longrightarrow> slash_free x"
proof (induction s arbitrary: x)
  case (Cons c s)
  then show ?case by (cases "segments s") (auto simp: slash_free_def split: if_splits)
qed (simp add: slash_free_def)

lemma segments_intercalate: "ns \<noteq> [] \<Longrightarrow> list_all slash_free ns \<Longrightarrow> segments (intercalate ''/'' ns) = ns"
proof (induction ns)
  case (Cons n ns)
  then show ?case
    by (cases "ns = []") (simp_all only: intercalate.simps if_True if_False segments_free segments_slash append_Cons append_Nil list.pred_inject simp_thms)
qed simp

lemma add_segment_plain: "plain_name s \<Longrightarrow> add_segment up res s = res @ [s]"
  by (simp add: add_segment_def plain_name_def)

lemma normal_plain: "list_all plain_name ns \<Longrightarrow> foldl (add_segment up) res ns = res @ ns"
  by (induction ns arbitrary: res) (simp_all add: add_segment_plain)

lemma add_segment_keeps_plain:
  "list_all plain_name res \<Longrightarrow> slash_free s \<Longrightarrow> list_all plain_name (add_segment False res s)"
  unfolding add_segment_def list_all_iff plain_name_def by (auto dest: in_set_butlastD)

lemma normal_segments_plain:
  "list_all plain_name res \<Longrightarrow> list_all slash_free ss \<Longrightarrow> list_all plain_name (foldl (add_segment False) res ss)"
  by (induction ss arbitrary: res) (simp_all add: add_segment_keeps_plain)

lemma place_plain: "list_all plain_name (place cwd p)"
  unfolding place_def normal_segments_def
  by (rule normal_segments_plain) (auto simp: list_all_iff intro: segments_all_free)

lemma plain_slash_free: "list_all plain_name ns \<Longrightarrow> list_all slash_free ns"
  by (simp add: list_all_iff plain_name_def)

text \<open>Without `..` a path only goes down.\<close>

lemma normal_down:
  "''..'' \<notin> set ss \<Longrightarrow> foldl (add_segment up) res ss = res @ filter (\<lambda>s. s \<noteq> [] \<and> s \<noteq> ''.'') ss"
  by (induction ss arbitrary: res) (auto simp: add_segment_def)


section \<open>The sandbox\<close>

text \<open>A path as the text of its names, each after a slash.\<close>

definition slashed :: "string list \<Rightarrow> string" where
  "slashed ns = concat (List.map (\<lambda>s. CHR ''/'' # s) ns)"

lemma slashed_simps [simp]: "slashed [] = []" "slashed (s # ns) = CHR ''/'' # s @ slashed ns"
  by (simp_all add: slashed_def)

lemma intercalate_slashed: "ns \<noteq> [] \<Longrightarrow> CHR ''/'' # intercalate ''/'' ns = slashed ns"
  by (induction ns) auto

lemma resolve_slashed: "place cwd p \<noteq> [] \<Longrightarrow> path_resolve cwd p = slashed (place cwd p)"
  by (simp add: path_resolve_def intercalate_slashed)

lemma prefix_before_slash:
  assumes "slash_free a" "slash_free b" "r = [] \<or> hd r = CHR ''/''"
  shows "prefix a (b @ r) \<longleftrightarrow> prefix a b"
proof
  assume "prefix a (b @ r)"
  then consider "prefix a b" | c cs where "a = b @ c # cs" "prefix (c # cs) r"
    by (metis prefix_append neq_Nil_conv append_Nil2 prefix_order.refl)
  then show "prefix a b"
  proof cases
    case 2
    then have "c = CHR ''/''" using assms(3) by (cases r) auto
    then show ?thesis using 2(1) assms(1) by (simp add: slash_free_def)
  qed
qed (rule prefix_prefix)

lemma slashed_head: "slashed ns = [] \<or> hd (slashed ns) = CHR ''/''"
  by (cases ns) auto

text \<open>The text of one path begins with that of another.\<close>

lemma prefix_slashed:
  assumes "list_all slash_free as" "list_all slash_free ps" "as \<noteq> []"
  shows "prefix (slashed as) (slashed ps) \<longleftrightarrow> (\<exists>pre a x post. as = pre @ [a] \<and> ps = pre @ (a @ x) # post)"
  using assms
proof (induction as arbitrary: ps)
  case (Cons a as)
  show ?case
  proof (cases ps)
    case ps: (Cons p ps')
    show ?thesis
    proof (cases as)
      case Nil
      have "prefix (slashed (a # as)) (slashed ps) \<longleftrightarrow> prefix a p"
        using Cons.prems ps Nil slashed_head [of ps'] by (simp add: prefix_before_slash)
      then show ?thesis using ps Nil by (auto simp: prefix_def Cons_eq_append_conv)
    next
      case as: (Cons b bs)
      have "prefix (a @ slashed as) (p @ slashed ps') \<longleftrightarrow> a = p \<and> prefix (slashed as) (slashed ps')"
      proof
        assume pre: "prefix (a @ slashed as) (p @ slashed ps')"
        then have "prefix a p"
          using Cons.prems ps slashed_head [of ps'] by (simp add: prefix_before_slash [symmetric]) (metis append_prefixD prefix_before_slash)
        then obtain z where z: "p = a @ z" by (auto simp: prefix_def)
        then have "prefix (slashed as) (z @ slashed ps')" using pre by simp
        moreover have "z = []"
        proof (rule ccontr)
          assume "z \<noteq> []"
          then obtain c cs where "z = c # cs" by (cases z) auto
          moreover from this have "c = CHR ''/''" using \<open>prefix (slashed as) (z @ slashed ps')\<close> as by simp
          ultimately show False using Cons.prems(2) ps z by (simp add: slash_free_def)
        qed
        ultimately show "a = p \<and> prefix (slashed as) (slashed ps')" using z by simp
      qed simp
      moreover have "(\<exists>pre a' x post. a # as = pre @ [a'] \<and> ps = pre @ (a' @ x) # post)
          \<longleftrightarrow> a = p \<and> (\<exists>pre a' x post. as = pre @ [a'] \<and> ps' = pre @ (a' @ x) # post)"
        using as ps by (auto simp: Cons_eq_append_conv)
      ultimately show ?thesis using Cons.IH [of ps'] Cons.prems ps as by simp
    qed
  qed (use Cons.prems in auto)
qed simp

text \<open>
  C38. What the sandbox lets through. With an active workspace other than the root,
  a path is accepted exactly when it leads to the workspace, or below it, or to
  something whose name merely begins with the workspace's name: a sibling, and
  all below it.
\<close>

theorem sandbox_checks_prefix:
  assumes "activeWorkspace \<noteq> []" "place cwd activeWorkspace \<noteq> []"
  shows "assertPathAllowed cwd activeWorkspace p = Inr () \<longleftrightarrow>
    (\<exists>dir name x rest. place cwd activeWorkspace = dir @ [name] \<and> place cwd p = dir @ (name @ x) # rest)"
proof -
  have free: "list_all slash_free (place cwd q)" for q by (rule plain_slash_free [OF place_plain])
  have "assertPathAllowed cwd activeWorkspace p = Inr () \<longleftrightarrow> prefix (slashed (place cwd activeWorkspace)) (path_resolve cwd p)"
    using assms by (auto simp: assertPathAllowed_def resolve_slashed startsWith_iff prefix_def)
  also have "\<dots> \<longleftrightarrow> prefix (slashed (place cwd activeWorkspace)) (slashed (place cwd p))"
  proof (cases "place cwd p = []")
    case True
    obtain a as where "place cwd activeWorkspace = a # as" using assms(2) by (cases "place cwd activeWorkspace") auto
    moreover have "a \<noteq> []" using place_plain [of cwd activeWorkspace] calculation by (simp add: plain_name_def)
    ultimately show ?thesis using True by (auto simp: path_resolve_def)
  qed (simp add: resolve_slashed)
  also have "\<dots> \<longleftrightarrow> (\<exists>dir name x rest. place cwd activeWorkspace = dir @ [name] \<and> place cwd p = dir @ (name @ x) # rest)"
    by (rule prefix_slashed [OF free free assms(2)])
  finally show ?thesis .
qed

theorem sandbox_checks_prefix_witness:
  "assertPathAllowed ''/'' ''/ws/private/1'' ''/ws/private/10/secret'' = Inr ()
   \<and> assertPathAllowed ''/'' ''/ws/private/1'' ''/ws/private/2'' \<noteq> Inr ()"
proof -
  have w: "place ''/'' ''/ws/private/1'' = [''ws'', ''private'', ''1'']" by code_simp
  have "place ''/'' ''/ws/private/10/secret'' = [''ws'', ''private''] @ (''1'' @ ''0'') # [''secret'']" by code_simp
  moreover have "place ''/'' ''/ws/private/2'' = [''ws'', ''private'', ''2'']" by code_simp
  ultimately show ?thesis
    using sandbox_checks_prefix [of "''/ws/private/1''" "''/''" "''/ws/private/10/secret''"]
      sandbox_checks_prefix [of "''/ws/private/1''" "''/''" "''/ws/private/2''"]
    by (auto simp: w Cons_eq_append_conv)
qed

text \<open>
  Tasks that overlap lose their protection. When a second task begins while a
  first one runs, and the first one ends before it, then from that moment until
  the second one ends no workspace is active, so the sandbox accepts every path;
  and after both have ended, the workspace of the first one is active.
\<close>

lemma overlap_unprotected:
  assumes "a \<noteq> b" "wa \<noteq> []"
  shows "assertPathAllowed cwd (wk_active (workspace_steps [Enter a, SetUp a wa, Enter b, SetUp b wb, Leave a]
           \<lparr>wk_active = [], wk_remembered = []\<rparr>)) p = Inr ()
    \<and> wk_active (workspace_steps [Enter a, SetUp a wa, Enter b, SetUp b wb, Leave a, Leave b]
           \<lparr>wk_active = [], wk_remembered = []\<rparr>) = wa"
  using assms by (simp add: workspace_steps_def assertPathAllowed_def opt_or_def)

lemma overlap_unprotected_example:
  "assertPathAllowed ''/'' (wk_active (workspace_steps [Enter ''1'', SetUp ''1'' ''/ws/1'', Enter ''2'', SetUp ''2'' ''/ws/2'', Leave ''1'']
     \<lparr>wk_active = [], wk_remembered = []\<rparr>)) ''/etc/x'' = Inr ()"
  using overlap_unprotected [of "''1''" "''2''" "''/ws/1''"] by simp


section \<open>The file system\<close>

lemma node_at_update: "q \<noteq> [] \<Longrightarrow> node_at (AList.update q n fs) p = (if p = q then Some n else node_at fs p)"
  by (simp add: node_at_def update_conv)

lemma mkdir_fold_keeps:
  "node_at fs q = Some n \<Longrightarrow> node_at (fold (\<lambda>q fs. if node_at fs q = None then fs @ [(q, Directory)] else fs) ps fs) q = Some n"
  by (induction ps arbitrary: fs) (auto simp: node_at_def map_add_def split: if_splits)

lemma mkdir_keeps: "fs_mkdir fs p = Inr fs' \<Longrightarrow> node_at fs q = Some n \<Longrightarrow> node_at fs' q = Some n"
  by (auto simp: fs_mkdir_def mkdir_fold_keeps split: if_splits option.splits node.splits)

lemma mkdir_fold_new:
  "node_at fs q = None \<Longrightarrow> node_at (fold (\<lambda>q fs. if node_at fs q = None then fs @ [(q, Directory)] else fs) ps fs) q = Some n
    \<Longrightarrow> n = Directory"
proof (induction ps arbitrary: fs)
  case (Cons r ps)
  show ?case
  proof (cases "node_at fs r = None \<and> r = q")
    case True
    then have "node_at (fs @ [(r, Directory)]) q = Some Directory" by (auto simp: node_at_def map_add_def split: if_splits)
    then show ?thesis using Cons.prems True mkdir_fold_keeps by force
  next
    case False
    then have "node_at (if node_at fs r = None then fs @ [(r, Directory)] else fs) q = None"
      using Cons.prems(1) by (auto simp: node_at_def map_add_def split: if_splits)
    then show ?thesis using Cons by (simp split: if_splits)
  qed
qed simp

lemma mkdir_new: "fs_mkdir fs p = Inr fs' \<Longrightarrow> node_at fs q = None \<Longrightarrow> node_at fs' q \<in> {None, Some Directory}"
  by (cases "node_at fs' q") (auto simp: fs_mkdir_def dest: mkdir_fold_new split: if_splits option.splits node.splits)

lemma mkdir_file: "fs_mkdir fs p = Inr fs' \<Longrightarrow> node_at fs' q = Some (File x) \<longleftrightarrow> node_at fs q = Some (File x)"
  using mkdir_new [of fs p fs' q] mkdir_keeps [of fs p fs' q] by (cases "node_at fs q") auto

lemma read_iff: "fs_readFile cwd fs p = Inr x \<longleftrightarrow> node_at fs (place cwd p) = Some (File x) \<and> \<not> endsWith p ''/''"
  by (auto simp: fs_readFile_def fs_stat_def split: option.splits node.splits if_splits)

lemma write_done:
  "fs_writeFile cwd p x fs = (Inr (), fs') \<longleftrightarrow>
     \<not> endsWith p ''/'' \<and> node_at fs (place cwd p) \<noteq> Some Directory
     \<and> (node_at fs (place cwd p) = None \<longrightarrow> node_at fs (butlast (place cwd p)) = Some Directory)
     \<and> fs' = AList.update (place cwd p) (File x) fs"
  by (auto simp: fs_writeFile_def Let_def split: option.splits node.splits if_splits)

lemma write_failed: "fs_writeFile cwd p x fs = (Inl e, fs') \<Longrightarrow> fs' = fs"
  by (auto simp: fs_writeFile_def Let_def split: option.splits node.splits if_splits)

lemma root_is_directory [simp]: "node_at fs [] = Some Directory"
  by (simp add: node_at_def)


section \<open>Storage as an interface\<close>

text \<open>
  What the file manager relies on: a successful write is read back under every
  name that means the same, and a file that can be read keeps its contents
  unless a write succeeds on a name that means the same and exists.
\<close>

locale storage_laws =
  fixes st :: "'s file_storage"
    and same :: "string \<Rightarrow> 'p"
  assumes written: "st_write st p x s = (Inr (), s') \<Longrightarrow> same q = same p \<Longrightarrow> st_read st q s' = Inr x"
    and kept: "st_write st p x s = (r, s') \<Longrightarrow> st_read st q s = Inr y \<Longrightarrow>
      st_read st q s' = Inr y \<or> r = Inr () \<and> same q = same p \<and> st_exists st p s"
begin

lemma manager_reads_back:
  "fm_storage m = st \<Longrightarrow> writeFile m p x overwrite s = (Inr (), s') \<Longrightarrow> same q = same p \<Longrightarrow> readFile m q s' = Inr x"
  by (auto simp: writeFile_def readFile_def written split: if_splits)

lemma manager_keeps_others:
  "fm_storage m = st \<Longrightarrow> writeFile m p x overwrite s = (r, s') \<Longrightarrow> readFile m q s = Inr y \<Longrightarrow> same q \<noteq> same p \<Longrightarrow>
   readFile m q s' = Inr y"
  using kept [of p x s r s' q y] by (auto simp: writeFile_def readFile_def split: if_splits)

lemma manager_never_overwrites:
  "fm_storage m = st \<Longrightarrow> writeFile m p x False s = (r, s') \<Longrightarrow> readFile m q s = Inr y \<Longrightarrow> readFile m q s' = Inr y"
  using kept [of p x s r s' q y] by (auto simp: writeFile_def readFile_def split: if_splits)

end

text \<open>The place and whether the name asks for a directory.\<close>

definition local_same :: "string \<Rightarrow> string \<Rightarrow> string \<Rightarrow> string list \<times> bool" where
  "local_same cwd baseDir rel = (place cwd (getFullPath baseDir rel), endsWith (getFullPath baseDir rel) ''/'')"

lemma local_write_result:
  "local_write cwd baseDir rel x fs = (r, fs') \<Longrightarrow>
     (case r of Inl e \<Rightarrow> fs' = fs \<or> fs_mkdir fs (place cwd (path_dirname (getFullPath baseDir rel))) = Inr fs'
      | Inr _ \<Rightarrow> \<exists>fs1. fs_mkdir fs (place cwd (path_dirname (getFullPath baseDir rel))) = Inr fs1
          \<and> fs_writeFile cwd (getFullPath baseDir rel) x fs1 = (Inr (), fs'))"
  by (auto simp: local_write_def Let_def dest: write_failed split: sum.splits)

interpretation local_storage: storage_laws "LocalFileStorage cwd baseDir" "local_same cwd baseDir" for cwd baseDir
proof
  fix p q :: string and x y :: string and s s' :: filesystem and r :: "fs_error + unit"
  let ?place = "\<lambda>rel. place cwd (getFullPath baseDir rel)"
  {
    assume w: "st_write (LocalFileStorage cwd baseDir) p x s = (Inr (), s')" and same: "local_same cwd baseDir q = local_same cwd baseDir p"
    obtain fs1 where "fs_writeFile cwd (getFullPath baseDir p) x fs1 = (Inr (), s')"
      using local_write_result [of cwd baseDir p x s "Inr ()" s'] w by (auto simp: LocalFileStorage_def)
    moreover from this have "?place p \<noteq> []" by (auto simp: write_done)
    ultimately show "st_read (LocalFileStorage cwd baseDir) q s' = Inr x"
      using same by (auto simp: LocalFileStorage_def local_read_def read_iff write_done node_at_update local_same_def)
  next
    assume w: "st_write (LocalFileStorage cwd baseDir) p x s = (r, s')" and y: "st_read (LocalFileStorage cwd baseDir) q s = Inr y"
    have y': "node_at s (?place q) = Some (File y)" "\<not> endsWith (getFullPath baseDir q) ''/''"
      using y by (simp_all add: LocalFileStorage_def local_read_def read_iff)
    have res: "local_write cwd baseDir p x s = (r, s')" using w by (simp add: LocalFileStorage_def)
    show "st_read (LocalFileStorage cwd baseDir) q s' = Inr y
        \<or> r = Inr () \<and> local_same cwd baseDir q = local_same cwd baseDir p \<and> st_exists (LocalFileStorage cwd baseDir) p s"
    proof (cases r)
      case (Inl e)
      then have "node_at s' (?place q) = Some (File y)"
        using local_write_result [OF res] y'(1) by (auto intro: mkdir_keeps)
      then show ?thesis using y'(2) by (simp add: LocalFileStorage_def local_read_def read_iff)
    next
      case (Inr u)
      then obtain fs1 where fs1: "fs_mkdir s (place cwd (path_dirname (getFullPath baseDir p))) = Inr fs1"
        "fs_writeFile cwd (getFullPath baseDir p) x fs1 = (Inr (), s')"
        using local_write_result [OF res] by auto
      then have "?place p \<noteq> []" "\<not> endsWith (getFullPath baseDir p) ''/''" by (auto simp: write_done)
      then show ?thesis
        using fs1 y' Inr mkdir_keeps [OF fs1(1) y'(1)]
        by (cases "?place q = ?place p")
          (auto simp: LocalFileStorage_def local_read_def read_iff write_done node_at_update local_same_def local_exists_def fs_stat_def)
    qed
  }
qed

text \<open>
  C37. Files of a session. With the local storage, what `writeFile` has written is
  what `readFile` gives, under every name that leads to the same place; other
  files keep their contents; and without `overwrite` no file that can be read
  ever changes, however the name is spelled.
\<close>

theorem session_files_kept:
  assumes "writeFile (new_local_FileManager cwd sid dir) p x overwrite fs = (r, fs')"
  shows "(r = Inr () \<longrightarrow> (\<forall>q. local_same cwd (default_storage_dir dir sid) q = local_same cwd (default_storage_dir dir sid) p \<longrightarrow>
       readFile (new_local_FileManager cwd sid dir) q fs' = Inr x))
    \<and> (\<forall>q y. readFile (new_local_FileManager cwd sid dir) q fs = Inr y
         \<and> (\<not> overwrite \<or> local_same cwd (default_storage_dir dir sid) q \<noteq> local_same cwd (default_storage_dir dir sid) p) \<longrightarrow>
       readFile (new_local_FileManager cwd sid dir) q fs' = Inr y)"
proof -
  have st: "fm_storage (new_local_FileManager cwd sid dir) = LocalFileStorage cwd (default_storage_dir dir sid)"
    by (simp add: new_local_FileManager_def new_FileManager_def)
  show ?thesis
  proof (intro conjI allI impI)
    fix q assume "r = Inr ()" "local_same cwd (default_storage_dir dir sid) q = local_same cwd (default_storage_dir dir sid) p"
    then show "readFile (new_local_FileManager cwd sid dir) q fs' = Inr x"
      using local_storage.manager_reads_back [OF st] assms by blast
  next
    fix q y assume "readFile (new_local_FileManager cwd sid dir) q fs = Inr y
      \<and> (\<not> overwrite \<or> local_same cwd (default_storage_dir dir sid) q \<noteq> local_same cwd (default_storage_dir dir sid) p)"
    then show "readFile (new_local_FileManager cwd sid dir) q fs' = Inr y"
      using local_storage.manager_keeps_others [OF st assms] local_storage.manager_never_overwrites [OF st] assms
      by (cases overwrite) auto
  qed
qed

theorem session_files_kept_witness:
  "\<exists>fs. writeFile (new_local_FileManager ''/'' ''s'' None) ''a/b.txt'' ''hello'' True [] = (Inr (), fs)
     \<and> readFile (new_local_FileManager ''/'' ''s'' None) ''/a/./b.txt'' fs = Inr ''hello''"
proof -
  obtain r fs where w: "writeFile (new_local_FileManager ''/'' ''s'' None) ''a/b.txt'' ''hello'' True [] = (r, fs)" by fastforce
  have "\<not> isl (fst (writeFile (new_local_FileManager ''/'' ''s'' None) ''a/b.txt'' ''hello'' True []))" by code_simp
  then have "r = Inr ()" by (cases r) (simp_all add: w)
  note w = w [unfolded this]
  have same: "local_same ''/'' (default_storage_dir None ''s'') ''/a/./b.txt'' = local_same ''/'' (default_storage_dir None ''s'') ''a/b.txt''"
    by code_simp
  show ?thesis
    using w session_files_kept [OF w] same by blast
qed


section \<open>Joined paths\<close>

lemma place_absolute: "startsWith p ''/'' \<Longrightarrow> place cwd p = foldl (add_segment False) [] (segments p)"
  by (simp add: place_def normal_segments_def)

lemma place_slashed:
  assumes "list_all plain_name ns" shows "place cwd (CHR ''/'' # intercalate ''/'' ns) = ns"
    and "ns \<noteq> [] \<Longrightarrow> place cwd (CHR ''/'' # intercalate ''/'' ns @ ''/'') = ns"
proof -
  have abs: "startsWith (CHR ''/'' # s) ''/''" for s by (simp add: startsWith_def)
  have segs: "segments (intercalate ''/'' ns) = ns" if "ns \<noteq> []"
    using that by (rule segments_intercalate) (rule plain_slash_free [OF assms])
  have norm: "foldl (add_segment False) [] ns = ns" using normal_plain [OF assms, of False "[]"] by simp
  show "place cwd (CHR ''/'' # intercalate ''/'' ns) = ns"
    by (cases "ns = []") (simp_all add: place_absolute abs segs norm add_segment_def)
  show "place cwd (CHR ''/'' # intercalate ''/'' ns @ ''/'') = ns" if "ns \<noteq> []"
    using that segments_slash [of "intercalate ''/'' ns" "[]"] norm
    by (simp add: place_absolute abs segs add_segment_def [of _ _ "[]"])
qed

lemma place_normalize:
  assumes "startsWith p ''/''" shows "place cwd (path_normalize p) = place cwd p"
proof -
  let ?ns = "normal_segments False (segments p)"
  have ns: "?ns = place cwd p" by (simp add: assms place_def)
  then have plain: "list_all plain_name ?ns" by (simp add: place_plain)
  have "p \<noteq> []" using assms by (auto simp: startsWith_def)
  moreover have "intercalate ''/'' ?ns = [] \<longleftrightarrow> ?ns = []"
    using plain by (cases ?ns) (simp_all add: plain_name_def)
  ultimately have "path_normalize p = CHR ''/'' # intercalate ''/'' ?ns @ (if ?ns \<noteq> [] \<and> endsWith p ''/'' then ''/'' else [])"
    using assms by (simp add: path_normalize_def Let_def)
  then show ?thesis
    using place_slashed [OF plain, of cwd] ns by (auto split: if_splits)
qed

lemma walk_intercalate:
  "foldl (add_segment up) res (segments (intercalate ''/'' (q # qs)))
    = foldl (\<lambda>res q. foldl (add_segment up) res (segments q)) res (q # qs)"
proof (induction qs arbitrary: q res)
  case (Cons r qs)
  have "intercalate ''/'' (q # r # qs) = q @ CHR ''/'' # intercalate ''/'' (r # qs)" by simp
  then show ?case using Cons [of _ r] by (simp only: segments_slash foldl_append foldl_Cons)
qed simp

text \<open>Below an absolute directory every part of a joined path is walked in turn.\<close>

lemma place_join:
  assumes "startsWith baseDir ''/''"
  shows "place cwd (path_join (baseDir # ps))
    = foldl (\<lambda>res q. foldl (add_segment False) res (segments q)) (place cwd baseDir) (filter (\<lambda>p. p \<noteq> []) ps)"
proof -
  let ?qs = "filter (\<lambda>p. p \<noteq> []) ps" let ?t = "intercalate ''/'' (baseDir # ?qs)"
  have "baseDir \<noteq> []" using assms by (auto simp: startsWith_def)
  then have "path_join (baseDir # ps) = path_normalize ?t" by (simp add: path_join_def)
  moreover have abs: "startsWith ?t ''/''" using assms by (auto simp: startsWith_iff)
  ultimately have "place cwd (path_join (baseDir # ps)) = foldl (add_segment False) [] (segments ?t)"
    by (simp only: place_normalize) (simp only: place_absolute)
  also have "\<dots> = foldl (\<lambda>res q. foldl (add_segment False) res (segments q)) (place cwd baseDir) ?qs"
    using walk_intercalate [of False "[]" baseDir ?qs] by (simp add: place_absolute [OF assms])
  finally show ?thesis .
qed

lemma place_join_plain:
  assumes "startsWith baseDir ''/''" "list_all plain_name ps"
  shows "place cwd (path_join (baseDir # ps)) = place cwd baseDir @ ps"
proof -
  have "filter (\<lambda>p. p \<noteq> []) ps = ps" using assms(2) by (induction ps) (simp_all add: plain_name_def)
  moreover have "foldl (\<lambda>res q. foldl (add_segment False) res (segments q)) res ps = res @ ps" for res
    using assms(2) by (induction ps arbitrary: res) (simp_all add: plain_name_def segments_free add_segment_plain)
  ultimately show ?thesis by (simp add: place_join [OF assms(1)])
qed

text \<open>A name without `..` stays below the directory of the storage; one with it need not.\<close>

lemma storage_stays_below:
  assumes "startsWith baseDir ''/''" "''..'' \<notin> set (segments (dropWhile (\<lambda>c. c = CHR ''/'' \<or> c = CHR 92) (slash_first rel)))"
  shows "prefix (place cwd baseDir) (place cwd (getFullPath baseDir rel))"
  using assms by (simp add: getFullPath_def place_join normal_down)

lemma storage_escape_example:
  "fst (local_write ''/'' ''/data/s'' ''../../etc/x'' ''y'' []) = Inr ()
   \<and> place ''/'' (getFullPath ''/data/s'' ''../../etc/x'') = [''etc'', ''x'']"
proof
  show "place ''/'' (getFullPath ''/data/s'' ''../../etc/x'') = [''etc'', ''x'']" by code_simp
  have "\<not> isl (fst (local_write ''/'' ''/data/s'' ''../../etc/x'' ''y'' []))" by code_simp
  then show "fst (local_write ''/'' ''/data/s'' ''../../etc/x'' ''y'' []) = Inr ()"
    by (cases "fst (local_write ''/'' ''/data/s'' ''../../etc/x'' ''y'' [])") simp_all
qed

text \<open>
  Cleaning up after a task removes the task's own directory and nothing else,
  when the ids of the session and of the task are plain names. An id is taken as
  it is, though: the task `..` takes the whole session with it.
\<close>

lemma cleanup_removes_task:
  assumes "startsWith baseDir ''/''" "plain_name sid" "plain_name taskId"
  shows "node_at (cleanupTask cwd baseDir sid taskId fs) q
      = (if prefix (place cwd baseDir @ [sid, ''private'', taskId]) q then None else node_at fs q)
    \<and> node_at (cleanupTask cwd baseDir sid ''..'' fs) q = (if prefix (place cwd baseDir @ [sid]) q then None else node_at fs q)"
proof -
  have remove: "node_at (fs_remove p fs) q = (if prefix p q then None else node_at fs q)" if "p \<noteq> []" for p
  proof -
    have "map_of (filter (\<lambda>(q, _). \<not> prefix p q) fs) q = (if prefix p q then None else map_of fs q)"
      by (induction fs) auto
    then show ?thesis using that by (auto simp: node_at_def fs_remove_def)
  qed
  have priv: "plain_name ''private''" by (simp add: plain_name_def slash_free_def)
  have "place cwd (path_join [baseDir, sid, ''private'', taskId]) = place cwd baseDir @ [sid, ''private'', taskId]"
    using assms priv by (simp add: place_join_plain)
  then have own: "node_at (cleanupTask cwd baseDir sid taskId fs) q
      = (if prefix (place cwd baseDir @ [sid, ''private'', taskId]) q then None else node_at fs q)"
    unfolding cleanupTask_def by (simp only:) (simp only: remove append_is_Nil_conv list.distinct simp_thms)
  have "slash_free ''..''" by (simp add: slash_free_def)
  then have "place cwd (path_join [baseDir, sid, ''private'', ''..'']) = place cwd baseDir @ [sid]"
    using assms priv by (simp add: place_join plain_name_def segments_free add_segment_def butlast_append)
  then have "node_at (cleanupTask cwd baseDir sid ''..'' fs) q = (if prefix (place cwd baseDir @ [sid]) q then None else node_at fs q)"
    unfolding cleanupTask_def by (simp only:) (simp only: remove append_is_Nil_conv list.distinct simp_thms)
  with own show ?thesis ..
qed

lemma cleanup_removes_task_example:
  "node_at (cleanupTask ''/'' ''/ws'' ''s'' ''1'' [([''ws'', ''s'', ''private'', ''1'', ''f''], File ''x''), ([''ws'', ''s'', ''private'', ''2''], Directory)])
     [''ws'', ''s'', ''private'', ''1'', ''f''] = None"
proof -
  have "place ''/'' ''/ws'' = [''ws'']" by code_simp
  then show ?thesis
    using cleanup_removes_task [of "''/ws''" "''s''" "''1''" "''/''"
        "[([''ws'', ''s'', ''private'', ''1'', ''f''], File ''x''), ([''ws'', ''s'', ''private'', ''2''], Directory)]"
        "[''ws'', ''s'', ''private'', ''1'', ''f'']"]
    by (simp add: startsWith_def plain_name_def slash_free_def)
qed

end
