(* ===== verification/ReturnState.thy ===== *)
theory ReturnState
  imports FileProperties WorkerProperties
begin

text \<open>
  The copy of a child's reply that a resumed worker leaves in the public part of the workspace
  (src/worker.ts: persistAgentReturnState).
\<close>

text \<open>`JSON.stringify(v, null, 2)`, from the indentation of the line it starts on.\<close>

definition new_line :: "nat \<Rightarrow> string" where
  "new_line n = CHR 0x0A # replicate n (CHR '' '')"

fun json_pretty :: "nat \<Rightarrow> json \<Rightarrow> string" where
  "json_pretty n (JArr []) = ''[]''"
| "json_pretty n (JArr (v # vs)) = CHR ''['' # new_line (n + 2) @
     intercalate ('','' @ new_line (n + 2)) (List.map (json_pretty (n + 2)) (v # vs)) @ new_line n @ '']''"
| "json_pretty n (JObj []) = ''{}''"
| "json_pretty n (JObj (p # ps)) = CHR ''{'' # new_line (n + 2) @
     intercalate ('','' @ new_line (n + 2)) (List.map (\<lambda>kv. json_quote (fst kv) @ '': '' @ json_pretty (n + 2) (snd kv)) (p # ps))
       @ new_line n @ ''}''"
| "json_pretty n v = json_stringify v"

definition command_class :: "command \<Rightarrow> string" where
  "command_class c = (case c of
     AskAgentCommand _ _ _ _ \<Rightarrow> ''AskAgentCommand'' | ResumeCommand _ _ _ _ _ \<Rightarrow> ''ResumeCommand''
   | CancelTaskCommand _ _ _ _ _ _ _ \<Rightarrow> ''CancelTaskCommand'' | SuspendWorkerCommand _ _ \<Rightarrow> ''SuspendWorkerCommand''
   | ResumeWorkerCommand _ \<Rightarrow> ''ResumeWorkerCommand'' | EvictWorkerCommand _ _ _ \<Rightarrow> ''EvictWorkerCommand'')"

text \<open>A field the class does not have is undefined, and falsy like the empty ones.\<close>

definition or_null :: "json \<Rightarrow> json" where
  "or_null v = (if js_truthy v then v else JNull)"

definition return_state :: "command \<Rightarrow> json" where
  "return_state c = (let h = header c in JObj [
     (''message_id'', JStr (messageId h)), (''parent_message_id'', JStr (parentMessageId h)),
     (''source_agent_type'', JStr (sourceAgentType h)), (''target_agent_type'', JStr (targetAgentType h)),
     (''user_code'', JStr (userCode h)), (''user_name'', JStr (userName h)), (''action_type'', JStr (command_class c)),
     (''status'', JStr (case c of ResumeCommand _ _ st _ _ \<Rightarrow> st | _ \<Rightarrow> [])),
     (''content'', or_null (case c of AskAgentCommand _ x _ _ \<Rightarrow> x | ResumeCommand _ x _ _ _ \<Rightarrow> x | _ \<Rightarrow> JNull)),
     (''reply_data'', or_null (case c of ResumeCommand _ _ _ d _ \<Rightarrow> d | _ \<Rightarrow> JNull)),
     (''trace_id'', JStr (traceId h)), (''session_id'', JStr (sessionId h)), (''metadata'', JObj (metadata h))])"

text \<open>The directory and the file of a reply: of its group, or of the message it answers.\<close>

definition return_state_dir :: "string \<Rightarrow> message_header \<Rightarrow> string" where
  "return_state_dir public h =
     (let stateDir = path_join [public, ''session'', ''agent_returns'']
      in if taskGroupId h \<noteq> [] then path_join [stateDir, taskGroupId h] else stateDir)"

definition return_state_file :: "string \<Rightarrow> message_header \<Rightarrow> string" where
  "return_state_file public h =
     path_join [return_state_dir public h,
       (if taskGroupId h \<noteq> [] then messageId h else str_or (parentMessageId h) (messageId h)) @ ''.json'']"

definition persistAgentReturnState :: "string \<Rightarrow> workspace_paths option \<Rightarrow> command \<Rightarrow> filesystem \<Rightarrow> (fs_error + unit) \<times> filesystem" where
  "persistAgentReturnState cwd paths c fs =
     (case paths of
        None \<Rightarrow> (Inr (), fs)
      | Some ws \<Rightarrow>
          if ws_public ws = [] then (Inr (), fs)
          else (case fs_mkdir fs (place cwd (return_state_dir (ws_public ws) (header c))) of
              Inl e \<Rightarrow> (Inl e, fs)
            | Inr fs1 \<Rightarrow> fs_writeFile cwd (return_state_file (ws_public ws) (header c)) (json_pretty 0 (return_state c)) fs1))"

text \<open>What was persisted is read back, and no other file is lost.\<close>

lemma return_state_kept:
  assumes "persistAgentReturnState cwd (Some ws) c fs = (Inr (), fs')" "ws_public ws \<noteq> []"
  shows "fs_readFile cwd fs' (return_state_file (ws_public ws) (header c)) = Inr (json_pretty 0 (return_state c))
    \<and> (\<forall>q y. fs_readFile cwd fs q = Inr y \<and> place cwd q \<noteq> place cwd (return_state_file (ws_public ws) (header c)) \<longrightarrow>
         fs_readFile cwd fs' q = Inr y)"
proof -
  let ?f = "return_state_file (ws_public ws) (header c)"
  obtain fs1 where fs1: "fs_mkdir fs (place cwd (return_state_dir (ws_public ws) (header c))) = Inr fs1"
    and w: "fs_writeFile cwd ?f (json_pretty 0 (return_state c)) fs1 = (Inr (), fs')"
    using assms by (auto simp: persistAgentReturnState_def split: sum.splits)
  then have "place cwd ?f \<noteq> []" by (auto simp: write_done)
  then show ?thesis
    using w mkdir_file [OF fs1] by (auto simp: write_done read_iff node_at_update)
qed

lemma normalize_absolute: "startsWith p ''/'' \<Longrightarrow> startsWith (path_normalize p) ''/''"
  by (cases p) (simp_all add: path_normalize_def Let_def startsWith_def)

lemma path_join_absolute:
  assumes "startsWith b ''/''" shows "startsWith (path_join (b # ps)) ''/''"
proof -
  obtain c where b: "b = CHR ''/'' # c" using assms by (cases b) (auto simp: startsWith_def)
  have "startsWith (intercalate ''/'' (b # qs)) ''/''" for qs
    by (cases qs) (simp_all add: b startsWith_def)
  then show ?thesis using normalize_absolute by (simp add: path_join_def b)
qed

lemma plain_json: "slash_free s \<Longrightarrow> plain_name (s @ ''.json'')"
  by (cases s) (simp_all add: plain_name_def slash_free_def)

lemma return_state_place:
  assumes "startsWith public ''/''" "slash_free (messageId h)" "slash_free (parentMessageId h)" "parentMessageId h \<noteq> []"
    and "taskGroupId h \<noteq> [] \<Longrightarrow> plain_name (taskGroupId h)"
  shows "place cwd (return_state_file public h) = place cwd public @ [''session'', ''agent_returns''] @
     (if taskGroupId h = [] then [parentMessageId h @ ''.json''] else [taskGroupId h, messageId h @ ''.json''])"
proof -
  have "plain_name ''session''" "plain_name ''agent_returns''" by (simp_all add: plain_name_def slash_free_def)
  then show ?thesis
    using assms by (auto simp: return_state_file_def return_state_dir_def Let_def place_join_plain path_join_absolute plain_json str_or_def)
qed

text \<open>
  C35. What resumes persist. A reply to a call of its own is kept under the message of the
  child, so two such replies of different children are both there afterwards. The
  replies of the members of a group carry the message of their common caller, after which
  their file is named, so each replaces the one before and only the last is left.
\<close>

theorem group_states_overwrite:
  assumes members: "messageId h1 \<noteq> messageId h2" "slash_free (messageId h1)" "slash_free (messageId h2)" "messageId h1 \<noteq> []" "messageId h2 \<noteq> []"
    and caller: "slash_free m" and group: "taskGroupId h1 = g" "taskGroupId h2 = g" "g = [] \<or> plain_name g"
    and public: "startsWith (ws_public ws) ''/''"
    and r: "r1 = return_command w1 h1 m st1 d1 o1" "r2 = return_command w2 h2 m st2 d2 o2"
    and run: "persistAgentReturnState cwd (Some ws) r1 fs = (Inr (), fs1)" "persistAgentReturnState cwd (Some ws) r2 fs1 = (Inr (), fs2)"
  shows "fs_readFile cwd fs2 (return_state_file (ws_public ws) (header r2)) = Inr (json_pretty 0 (return_state r2))
    \<and> fs_readFile cwd fs2 (return_state_file (ws_public ws) (header r1)) = Inr (json_pretty 0 (return_state (if g = [] then r1 else r2)))"
proof -
  have ne: "ws_public ws \<noteq> []" using public by (auto simp: startsWith_def)
  have hdr: "messageId (header r1) = m" "messageId (header r2) = m" "parentMessageId (header r1) = messageId h1"
    "parentMessageId (header r2) = messageId h2" "taskGroupId (header r1) = g" "taskGroupId (header r2) = g"
    by (simp_all add: r return_command_def return_header_def mk_header_def group)
  note kept = return_state_kept [OF run(1) ne] return_state_kept [OF run(2) ne]
  show ?thesis
  proof (cases "g = []")
    case True
    have "place cwd (return_state_file (ws_public ws) (header r1)) = place cwd (ws_public ws) @ [''session'', ''agent_returns''] @ [messageId h1 @ ''.json'']"
      using return_state_place [OF public, of "header r1" cwd] members caller True by (simp add: hdr)
    moreover have "place cwd (return_state_file (ws_public ws) (header r2)) = place cwd (ws_public ws) @ [''session'', ''agent_returns''] @ [messageId h2 @ ''.json'']"
      using return_state_place [OF public, of "header r2" cwd] members caller True by (simp add: hdr)
    ultimately have "place cwd (return_state_file (ws_public ws) (header r1)) \<noteq> place cwd (return_state_file (ws_public ws) (header r2))"
      using members(1) by simp
    with True kept show ?thesis by auto
  next
    case False
    then have "return_state_file (ws_public ws) (header r1) = return_state_file (ws_public ws) (header r2)"
      by (simp add: return_state_file_def return_state_dir_def hdr)
    with False kept show ?thesis by auto
  qed
qed

definition public_workspace :: workspace_paths where
  "public_workspace = workspacePaths ''/ws'' ''s'' ''m1''"

theorem group_states_overwrite_witness:
  "\<exists>fs1 fs2 r1 r2. r1 = return_command sample_worker (mk_header ''c1'' ''s'' ''t'') ''m1'' ''COMPLETED'' (JNum 1) no_return_options
     \<and> r2 = return_command sample_worker (mk_header ''c2'' ''s'' ''t'') ''m1'' ''COMPLETED'' (JNum 2) no_return_options
     \<and> persistAgentReturnState ''/'' (Some public_workspace) r1 [] = (Inr (), fs1)
     \<and> persistAgentReturnState ''/'' (Some public_workspace) r2 fs1 = (Inr (), fs2)
     \<and> fs_readFile ''/'' fs2 (return_state_file (ws_public public_workspace) (header r1)) = Inr (json_pretty 0 (return_state r1))"
proof -
  let ?r1 = "return_command sample_worker (mk_header ''c1'' ''s'' ''t'') ''m1'' ''COMPLETED'' (JNum 1) no_return_options"
  let ?r2 = "return_command sample_worker (mk_header ''c2'' ''s'' ''t'') ''m1'' ''COMPLETED'' (JNum 2) no_return_options"
  have hdr: "messageId (mk_header m s t) = m" "taskGroupId (mk_header m s t) = []" for m s t by (simp_all add: mk_header_def)
  let ?first = "persistAgentReturnState ''/'' (Some public_workspace) ?r1 []"
  have "fst ?first = Inr ()" "fst (persistAgentReturnState ''/'' (Some public_workspace) ?r2 (snd ?first)) = Inr ()"
    by code_simp+
  then obtain fs1 fs2 where 1: "?first = (Inr (), fs1)" and 2: "persistAgentReturnState ''/'' (Some public_workspace) ?r2 fs1 = (Inr (), fs2)"
    by (metis prod.collapse snd_conv)
  have public: "startsWith (ws_public public_workspace) ''/''" by code_simp
  have "fs_readFile ''/'' fs2 (return_state_file (ws_public public_workspace) (header ?r1)) = Inr (json_pretty 0 (return_state ?r1))"
    using group_states_overwrite [OF _ _ _ _ _ _ _ _ _ public refl refl 1 2, of "[]"] by (simp add: hdr slash_free_def)
  with 1 2 show ?thesis by blast
qed

end
