(* ===== verification/Spec2Isabelle.thy ===== *)
theory Spec2Isabelle
  imports SweepCancel SweepLoop GroupProperties ClientProperties ByaiClient ProcessorProperties Lifecycle
    DiscoveryProperties DiscoveryHttp PluginProperties SpanProperties PasswordProperties Configuration
    CollectorLoop History ReturnState
begin

text \<open>
  A verification library for the TypeScript framework under src/: agents run as
  workers that take commands from Redis streams, call each other, suspend while
  they wait, and are resumed by replies. This text says what is modelled where and
  what is proved about it; each theory opens with a text of its own.

  \<^bold>\<open>The program and how its parts meet.\<close> A client (client.ts) or an agent
  (context.ts) dispatches a command: the availability router (availability.ts)
  looks for a worker of the agent type, the dispatch pipeline (dispatch/) records
  the execution (registry.ts), registers the wait of a caller that will
  suspend (liveness/wait_registration.ts) and appends the command to a control
  stream. A runner (runner.ts) reads the stream. A reply first passes the gate
  (liveness/wait_gate.ts), which lets one copy of it through; then the worker
  (worker.ts) joins it into its task group, restores the metadata of the
  suspended execution (resume_metadata.ts), runs the handler with a context, and
  sends the caller the reply it is owed. The sweeper (liveness/wait_sweeper.ts)
  looks for waits whose reply is overdue and sends a stand-in built by
  liveness/wait_reply.ts. Presence leases (registry.ts, heartbeat.ts) say which
  workers live; a runner whose lease went to someone else stops (health).
  processor.ts is a second entry point for messages. Around this core: the events
  of a session (emitter.ts), worker administration (admin/), plugins
  (extensions/), trace spans (trace/), metrics (metrics/), an HTTP client and
  service discovery, the settings and the password of the connection, and the files
  and histories of a session (runtime/, workspace.ts, sandbox.ts).

  \<^bold>\<open>Foundations.\<close> `Prelude` has the rewrite collections and the lemmas on
  lists and association lists; `JsValue` and `JsonText` have JavaScript values,
  coercions, `JSON.stringify`, `JSON.parse` and their round trip; `Keys` has
  constants.ts. `Effects` has programs: an asynchronous function is a value of
  type `prog` that issues one command at a time, so an interleaving may happen
  at every `await`; `Raise` is a rejected promise. The connection is a function
  `exec` from a command and a state of the outside world to an answer and the
  state after it. `Actions` adds an object with assignable fields, and
  `Interleaving` pools of programs that step one command at a time.

  \<^bold>\<open>The interface to Redis.\<close> ioredis and the server are not in the
  repository. What the code relies on is stated as the laws of three locales, over
  a view of the keyspace: `redis_server` (the documented answer and effect of each
  command, when it is answered at all), `redis_available` (commands are answered)
  and `sleeping_server` (a sleep lasts). The rules of the programs are proved
  inside them. `MockRedis` models the in-memory Redis of the tests
  (tests/helpers/mock_redis.ts) and interprets the locales on it, also with
  failing commands and with a ticking clock; the witnesses of the properties run
  on it. The laws exclude that a key expires in the course of one run of a
  program; where the passing of time matters (leases, renewal ceilings, sweeps,
  heartbeats) the clock is part of the state and the statements are about it.

  \<^bold>\<open>Components and theories.\<close>
  \<^item> `Protocol`, `Results`: protocol/: headers, commands, results of handlers.
  \<^item> `Registry`, `RegistryContracts`: registry.ts: leases and their
    tokens, scoped locks, membership and denylist, execution records.
  \<^item> `WaitIndex`, `WaitGate`, `WaitReply`, `WaitSweeper`, `Triage`,
    `SweepContracts`: liveness/. `gate_spec` specifies the gate as a function on
    the keyspace, `entry_verdict` the triage as a decision on one snapshot.
    `SweepCancel`: the cancellation of a timed-out callee through the client.
    `SweepLoop`: the background loop of the sweeper as a step relation.
  \<^item> `Emitter`, `AgentContext`, `Delegation`: emitter.ts and context.ts.
  \<^item> `Availability`, `Dispatch`, `DispatchContracts`, `DispatchProperties`,
    `GroupContracts`, `GroupProperties`: availability.ts, dispatch/ and the
    fan-out of context.ts.
  \<^item> `ResumeRules`, `Worker`, `WorkerRuns`, `WorkerContracts`,
    `WorkerProperties`: resume_metadata.ts and worker.ts.
  \<^item> `Health`, `Heartbeat`, `Runner`, `RunnerProperties`, `Lifecycle`: runner.ts
    and heartbeat.ts; `Lifecycle` has the start and the release of a worker.
  \<^item> `Client`, `ClientContracts`, `CancelProperties`, `ClientProperties`,
    `ByaiClient`: client.ts, interceptors.ts and byai_client.ts.
  \<^item> `Processor`, `ProcessorProperties`: processor.ts, and its agreement with
    the worker.
  \<^item> `Admin`: admin/worker_manager.ts.
  \<^item> `HttpClient`, `HttpProperties`, `Discovery`, `DiscoveryProperties`,
    `DiscoveryHttp`: http_client.ts and discovery/.
  \<^item> `Plugins`, `PluginProperties`: extensions/ and
    runtime/agent_config_manager.ts.
  \<^item> `SpanRecorder`, `SpanProperties`: trace/span_recorder.ts.
  \<^item> `RedisPassword`, `PasswordProperties`, `Configuration`: redis_password.ts,
    redis_client.ts, and what constants.ts and app.ts read from the environment.
  \<^item> `Metrics`, `CollectorLoop`: metrics/ and redis_cluster_scan.ts.
  \<^item> `Files`, `FileProperties`, `ReturnState`: runtime/filestore/local.ts,
    runtime/file_manager.ts, workspace.ts and sandbox.ts on a model of the file system,
    and the files a resumed worker leaves (worker.ts, persistAgentReturnState).
  \<^item> `History`: history.ts, the in-memory history of runtime/ and its session.

  A class is a record of its fields; a method is a definition of its name that
  takes the record and gives back a program or the changed record. Where two
  sources use one name, the model's name has the class in front.

  \<^bold>\<open>What the lemmas show.\<close> The `...Contracts` theories hold, per
  component, the invariants and the effect of each operation as rules for
  programs (`wp`); the `...Properties` theories and this one draw the properties:
  that a reply wakes its caller once, however copies race (`gate_exclusive`,
  `stand_in_wakes_once`, `nothing_runs_twice`); that a suspended caller is
  answered in the end (`silent_child_times_out`, `lost_reply_recovered`); that
  a fan-out is fully accounted for and joined once; that a lost lease fences its
  owner; that a worker comes into service and leaves it whole
  (`worker_comes_and_goes`); that errors are reported, retries bounded,
  encodings invertible.
  Several properties state a defect of the code as it is: `suspension_race`,
  `refused_resume_overwrites`, `cancel_diverges_iff`, `fenced_start_consumes`,
  `group_states_overwrite` and `sandbox_checks_prefix` (in parts); so do the lemmas
  `later_plugin_blamed`, `trace_start_is_earliest` (its second part), `overlap_unprotected`,
  `sweep_hangs_iff` and `restart_revives_example`.

  \<^bold>\<open>Loops and bounds.\<close> Loops over lists and retries with a counter are total
  functions. The polling of the router has no bound in the code; it is modelled
  with `poll_bound` rounds, and `router_always_decides` proves them enough when a
  sleep lasts. The walk of `cancelTask` may not end: it is a partial function, and
  `cancel_diverges_iff` says when. A sweep awaits such a cancellation, so its
  programs give an option, None for a run that does not return
  (`sweep_never_fails`). The polling of `collectGroupResults` is
  modelled with the rounds whose pauses fit into its timeout (`collect_bound`).

  \<^bold>\<open>Modelling decisions.\<close> A string is its bytes in UTF-8. Counts and time
  stamps are unbounded integers, delays and rates rational numbers; the hashes
  and the buffers of the password work on machine words. An object is its keys in
  the order of insertion, with own properties only. A runner handles one
  message at a time. What the embedding supplies is a parameter: handlers,
  plugins, history storage, interceptors, the network, files and the URL class,
  the reading of streams by consumer groups, MD5, the collation order.

  \<^bold>\<open>Not modelled.\<close> The object store and the database behind
  runtime/filestore/minio.ts and runtime/history/backends/postgres.ts, the Langfuse
  adapter, the wiring of app.ts and factory.ts, the exception classes, the
  subscriptions of a runner and the concurrency of its loop, logging, process signals,
  and the scripts under examples/: they pass data to services that are not in
  the repository, or decide nothing on it. Timers are modelled by what they run.
\<close>

section \<open>A lost reply, compensated once\<close>

text \<open>
  The gate lets a reply to a wait through, and then no other message that answers
  the same wait, whoever sends it.
\<close>

definition wakes_once :: "(cmd \<Rightarrow> 's \<Rightarrow> answer \<times> 's) \<Rightarrow> key_schema \<Rightarrow> message_header \<Rightarrow> string \<Rightarrow> 's \<Rightarrow> bool" where
  "wakes_once exec sch h m t \<longleftrightarrow> result exec (consumeWaitEntry sch h) t = Inr (claimed m)
     \<and> (\<forall>h'. sessionId h' = sessionId h \<and> memberFromResume h' = m \<longrightarrow>
          result exec (consumeWaitEntry sch h') (final exec (consumeWaitEntry sch h) t) = Inr (already_consumed m))"

lemma gate_wakes_once:
  assumes avail: "redis_available exec kv oth clk" and m: "memberFromResume h = m"
    and there: "v_zset (kv t) (waitIndexKey sch (sessionId h)) m \<noteq> None"
  shows "wakes_once exec sch h m t"
proof -
  have "v_zset (kv t) (waitIndexKey sch (sessionId h)) (memberFromResume h) \<noteq> None" using there m by simp
  note claim = wp_result [OF redis_available.wp_claim_first [OF avail this, of "[]"]]
  let ?t = "final exec (consumeWaitEntry sch h) t"
  have "v_zset (kv ?t) (waitIndexKey sch (sessionId h)) m = None" "v_str (kv ?t) (consumedMarkerKey sch (sessionId h) m) \<noteq> None"
    using claim m by (auto simp: consumedMarkerKey_def waitIndexKey_def)
  then have "result exec (consumeWaitEntry sch h') ?t = Inr (already_consumed m)"
    if "sessionId h' = sessionId h" "memberFromResume h' = m" for h'
    using wp_result [OF redis_available.wp_deny_first [OF avail, of ?t sch h' "[]"]] that by auto
  then show ?thesis using claim m unfolding wakes_once_def by auto
qed

text \<open>
  C4. The stand-in the sweeper sends is the reply that was awaited. An entry whose
  decision is a reply gets one message, before anything is cancelled; it goes to the
  control stream named by its own header, under the caller's message, and when the
  sweeper is done with the entry, the cancellation of the callee included, the
  gate lets it through, and every other message that answers that wait (the
  callee's own, arriving after all, or its answer to the cancellation) is dropped.
  Any other decision sends nothing. The cancellation is any that leaves this entry
  in the index, as the client's does.
\<close>

theorem stand_in_wakes_once:
  assumes avail: "redis_available exec kv oth clk"
    and due: "m = encodeMember entry" "k = waitIndexKey (sw_schema sw) (wm_session entry)"
    and free: "renew_origin_key sw (due_of k m sc entry) \<notin> oth s"
    and safe: "index_safe exec kv cancel k m"
  shows "\<exists>now \<ge> clk s. case entry_verdict (kv s) now sw k m sc of
      Inl _ \<Rightarrow> sent (issued exec (resolveEntry cancel sw k m sc) s) = []
    | Inr d \<Rightarrow> \<exists>s1 l1. run exec (resolveEntry cancel sw k m sc) (s, []) = run exec (afterwards cancel sw (due_of k m sc entry) d) (s1, l1)
        \<and> (case vd_action d of
             Reply p \<Rightarrow> \<exists>c. sent l1 = [(ctrl_stream (sw_schema sw) (targetAgentType (header c)), command_payload c)]
               \<and> messageId (header c) = wm_parent entry
               \<and> wakes_once exec (sw_schema sw) (header c) m (final exec (resolveEntry cancel sw k m sc) s)
           | _ \<Rightarrow> sent l1 = [])"
proof -
  have entry: "entry_of m = entry" by (simp add: due)
  have free': "renew_origin_key sw (due_of k m sc (entry_of m)) \<notin> oth s" using free entry by simp
  show ?thesis
  proof (cases rule: resolved [OF avail free', where cancel = cancel, case_names raised decided])
    case (raised now e)
    then show ?thesis by (intro exI [of _ now]) simp
  next
    case (decided now d s1 l1)
    let ?t = "final exec (resolveEntry cancel sw k m sc) s"
    have "\<exists>c. sent l1 = [(ctrl_stream (sw_schema sw) (targetAgentType (header c)), command_payload c)]
        \<and> messageId (header c) = wm_parent entry \<and> wakes_once exec (sw_schema sw) (header c) m ?t"
      if p: "vd_action d = Reply p" for p
    proof -
      let ?caller = "caller_record (kv s) sw entry"
      obtain now' trace where eff: "kv s1 = extended_view sw (due_of k m sc entry) now' (kv s)"
        "sent l1 = [(ctrl_stream (sw_schema sw) (caller_agent_type (er_child p) ?caller),
           command_payload (stand_in_command (sweep_reply sw entry ?caller p) trace))]"
        using decided(3) by (auto simp: acted_def entry p)
      have "v_zset (kv s1) k m \<noteq> None"
        using extended_index [of sw "due_of k m sc entry" now' "kv s"] by (simp add: eff(1))
      from index_safe_afterwards [OF safe this] have "v_zset (kv ?t) k m \<noteq> None"
        unfolding final_def decided(4) .
      then have "wakes_once exec (sw_schema sw) (stand_in_header (sweep_reply sw entry ?caller p) trace) m ?t"
        by (intro gate_wakes_once [OF avail]) (simp_all add: sweep_reply_def memberFromResume_def due)
      then show ?thesis
        using eff(2) by (intro exI [of _ "stand_in_command (sweep_reply sw entry ?caller p) trace"]) (simp add: sweep_reply_def)
    qed
    then have "case vd_action d of
        Reply p \<Rightarrow> \<exists>c. sent l1 = [(ctrl_stream (sw_schema sw) (targetAgentType (header c)), command_payload c)]
          \<and> messageId (header c) = wm_parent entry \<and> wakes_once exec (sw_schema sw) (header c) m ?t
      | _ \<Rightarrow> sent l1 = []"
      using decided(3) by (cases "vd_action d") (simp_all add: acted_def)
    with decided(1,2,4) show ?thesis
      unfolding entry by (intro exI [of _ now]) auto
  qed
qed

text \<open>
  The callee is past its ceiling and is cancelled through the client: one reply,
  to the caller's agent type, and the wait is over when it has been let through.
\<close>

theorem stand_in_wakes_once_witness:
  "\<exists>h. messageId h = ''m1'' \<and> wakes_once mock_exec V1 h (encodeMember sample_entry) (final mock_exec
     (resolveEntry (defaultCancelChild sweeper_client) cancelling_sweeper sample_index (encodeMember sample_entry) sample_score)
     (sample_overdue True))"
proof -
  have "sample_index = waitIndexKey (sw_schema cancelling_sweeper) (wm_session sample_entry)"
    by (simp add: sample_index_def waitIndexKey_def)
  from stand_in_wakes_once [OF mock_server.redis_available_axioms refl this, of sample_score "sample_overdue True",
      OF _ sample_default_safe]
  show ?thesis by (auto simp: cancelling_verdict)
qed

text \<open>
  C13. A lost reply is recovered whole. What the worker stores before it sends the
  reply of a single call is what the sweeper reads back for that call: the
  stand-in it builds carries the same status, content, reply data, payload and
  metadata as the reply that was lost.
\<close>

theorem lost_reply_recovered:
  assumes avail: "redis_available exec kv oth clk" and c: "answerable c" "taskGroupId (header c) = []" "messageId (header c) \<noteq> []"
    and st: "st \<noteq> []" and sch: "sw_schema sw = gw_schema w"
    and content: "\<exists>t. ro_content opts = JStr t \<or> (\<exists>vs. ro_content opts = JArr vs)"
    and json: "wf_json (result_data (owed_reply w c st rd opts))"
    and s': "s' = final exec (enqueueAgentReturn w c st rd opts) s"
  shows "\<exists>r. result exec (loadStoredResult sw (messageId (header c))) s' = Inr (Some r)
    \<and> (let p = recovered_params child r; m = owed_reply w c st rd opts in
         er_status p = cmd_status m \<and> er_content p = cmd_content m \<and> er_replyData p = cmd_replyData m
         \<and> er_extraPayload p = cmd_extraPayload m \<and> er_metadata p = metadata (header m))"
proof -
  let ?m = "owed_reply w c st rd opts" and ?id = "messageId (header c)" and ?sch = "gw_schema w"
  let ?f = "\<lambda>v. v_hash v (task_group_results ?sch (singleCallTaskGroupId ?id)) ?id"
  have "wp exec (enqueueAgentReturn w c st rd opts) (\<lambda>_ \<sigma>'. ?f (kv (fst \<sigma>')) = Some (json_stringify (result_data ?m))) (\<lambda>_ _. False) (s, [])"
    by (rule redis_available.wp_enqueueAgentReturn [OF avail c(1) st, where k = "''''"])
       (use c in \<open>simp add: redis_available.delivers_def [OF avail] single_view_def stored_view_def\<close>)
  from wp_total [OF this] have stored: "?f (kv s') = Some (json_stringify (result_data ?m))" by (auto simp: s')
  obtain r where r: "result_data ?m = JObj r" by (simp add: result_data_def)
  have "stored_object (?f (kv s')) = Some r"
    using stored json r by (simp add: stored_object_def stringify_not_Nil json_parse_stringify)
  then have "wp exec (loadStoredResult sw ?id) (\<lambda>x _. x = Some r) (\<lambda>_ _. False) (s', [])"
    unfolding loadStoredResult_def sch wp_bindP wp_Ret
    by (intro redis_available.quiet_hgetP [OF avail]) simp
  from wp_total [OF this] have "result exec (loadStoredResult sw ?id) s' = Inr (Some r)" by auto
  moreover have "r = [(''status'', JStr st), (''reply_data'', rd), (''content'', ro_content opts),
     (''target_agent_type'', JStr (sourceAgentType (header ?m))), (''metadata'', JObj (metadata (header ?m))),
     (''extra_payload'', JObj (ro_extraPayload opts))]"
    using r by (simp add: result_data_def owed_reply_def)
  ultimately show ?thesis
    using st content by (auto simp: recovered_params_def text_of_def str_or_def owed_reply_def Let_def)
qed

theorem lost_reply_recovered_witness:
  "\<exists>r. result mock_exec (loadStoredResult sample_sweeper ''m2'')
       (final mock_exec (enqueueAgentReturn sample_worker sample_ask ''COMPLETED'' (JNum 42) no_return_options) (empty_mock 5)) = Inr (Some r)
     \<and> er_replyData (recovered_params JNull r) = JNum 42"
proof -
  have opts: "ro_content no_return_options = JStr []" "ro_metadata no_return_options = []" "ro_extraPayload no_return_options = []"
    by (simp_all add: no_return_options_def)
  have "wf_json (result_data (owed_reply sample_worker sample_ask ''COMPLETED'' (JNum 42) no_return_options))"
    by (simp add: result_data_def owed_reply_def opts wf_json.simps) (simp add: sample_ask_def mk_header_def wf_json.simps)
  then show ?thesis
    using lost_reply_recovered [OF mock_server.redis_available_axioms sample_ask_simps(1), of "''COMPLETED''" sample_sweeper
        sample_worker no_return_options "JNum 42" _ "empty_mock 5" JNull]
    by (auto simp: opts Let_def owed_reply_def)
qed

end
